(* ===== verification/Prelude.thy ===== *)
theory Prelude
  imports Main "HOL-Library.Word"
begin

text \<open>
  Shared vocabulary of the development: the outcome type of Rust code (a value, an error
  value, or a panic), state-passing programs over it, most-significant-bit-first bit strings
  of machine words and the generic list lemmas the component theories rest on.
\<close>

unbundle bit_operations_syntax

named_theorems res_simps \<open>unfolding of the outcome monad\<close>
named_theorems bits_simps \<open>rewriting of bit strings\<close>

section \<open>Machine integer types\<close>

type_synonym u8 = "8 word"
type_synonym u16 = "16 word"
type_synonym u32 = "32 word"
type_synonym u64 = "64 word"
type_synonym u128 = "128 word"

section \<open>Outcomes\<close>

text \<open>
  A Rust computation returns a value, returns an error value of type \<open>'e\<close> (the \<open>Err\<close> of a
  \<open>Result\<close>), or panics (a failed \<open>assert!\<close>, \<open>unwrap\<close>, \<open>expect\<close>, \<open>unimplemented!\<close> or an index
  out of range).
\<close>

datatype ('e, 'a) outcome = Ok 'a | Err 'e | Panic

text \<open>A program over the mutable state \<open>'s\<close> (a \<open>&mut\<close> argument) threads the state through.\<close>

type_synonym ('s, 'e, 'a) prog = "'s \<Rightarrow> ('e, 'a \<times> 's) outcome"

definition bind :: "('s, 'e, 'a) prog \<Rightarrow> ('a \<Rightarrow> ('s, 'e, 'b) prog) \<Rightarrow> ('s, 'e, 'b) prog" where
  "bind m f s = (case m s of Ok (x, s') \<Rightarrow> f x s' | Err e \<Rightarrow> Err e | Panic \<Rightarrow> Panic)"

definition ret :: "'a \<Rightarrow> ('s, 'e, 'a) prog" where
  "ret x s = Ok (x, s)"

definition fail :: "'e \<Rightarrow> ('s, 'e, 'a) prog" where
  "fail e s = Err e"

definition panic :: "('s, 'e, 'a) prog" where
  "panic s = Panic"

text \<open>Inspecting the state.\<close>

definition gets :: "('s \<Rightarrow> 'a) \<Rightarrow> ('s, 'e, 'a) prog" where
  "gets f s = Ok (f s, s)"

text \<open>Changing the state.\<close>

definition upd :: "('s \<Rightarrow> 's) \<Rightarrow> ('s, 'e, unit) prog" where
  "upd f s = Ok ((), f s)"

text \<open>The value of a call that does not touch the state.\<close>

definition calc :: "('e, 'a) outcome \<Rightarrow> ('s, 'e, 'a) prog" where
  "calc r s = (case r of Ok x \<Rightarrow> Ok (x, s) | Err e \<Rightarrow> Err e | Panic \<Rightarrow> Panic)"

text \<open>\<open>assert!(c)\<close>.\<close>

definition guard :: "bool \<Rightarrow> ('s, 'e, unit) prog" where
  "guard c = (if c then ret () else panic)"

text \<open>\<open>unwrap()\<close> of an \<open>Option\<close>.\<close>

definition unwrap :: "'a option \<Rightarrow> ('s, 'e, 'a) prog" where
  "unwrap x = (case x of Some v \<Rightarrow> ret v | None \<Rightarrow> panic)"

text \<open>A statement list: each statement runs on the state its predecessor left.\<close>

primrec seq :: "('s, 'e, unit) prog list \<Rightarrow> ('s, 'e, unit) prog" where
  "seq [] = ret ()"
| "seq (m # ms) = bind m (\<lambda>_. seq ms)"

lemma bind_ret [simp]: "bind (ret x) f = f x"
  by (simp add: bind_def ret_def fun_eq_iff)

lemma bind_fail [simp]: "bind (fail e) f = fail e"
  by (simp add: bind_def fail_def fun_eq_iff)

lemma bind_panic [simp]: "bind panic f = panic"
  by (simp add: bind_def panic_def fun_eq_iff)

lemma bind_assoc: "bind (bind m f) g = bind m (\<lambda>x. bind (f x) g)"
  by (auto simp: bind_def fun_eq_iff split: outcome.splits prod.splits)

lemma bind_ret_right [simp]: "bind m ret = m"
  by (auto simp: bind_def ret_def fun_eq_iff split: outcome.splits)

lemma guard_True [simp]: "guard True = ret ()"
  and guard_False [simp]: "guard False = panic"
  by (simp_all add: guard_def)

lemma unwrap_simps [simp]: "unwrap (Some v) = ret v" "unwrap None = panic"
  by (simp_all add: unwrap_def)

lemma seq_append: "seq (ms @ ns) = bind (seq ms) (\<lambda>_. seq ns)"
  by (induction ms) (simp_all add: bind_assoc)

lemmas prog_defs [res_simps] = bind_def ret_def fail_def panic_def guard_def

section \<open>Lists\<close>

text \<open>Overwriting a stretch of a list.\<close>

definition overwrite :: "'a list \<Rightarrow> nat \<Rightarrow> 'a list \<Rightarrow> 'a list" where
  "overwrite xs p ys = take p xs @ ys @ drop (p + length ys) xs"

lemma length_overwrite [simp]: "p + length ys \<le> length xs \<Longrightarrow> length (overwrite xs p ys) = length xs"
  by (simp add: overwrite_def)

lemma nth_overwrite:
  "p + length ys \<le> length xs \<Longrightarrow> i < length xs \<Longrightarrow>
   overwrite xs p ys ! i = (if p \<le> i \<and> i < p + length ys then ys ! (i - p) else xs ! i)"
  by (auto simp: overwrite_def nth_append)

lemma overwrite_Nil [simp]: "overwrite xs p [] = xs"
  by (simp add: overwrite_def)

lemma overwrite_overwrite:
  "p \<le> length xs \<Longrightarrow> overwrite (overwrite xs p ys) (p + length ys) zs = overwrite xs p (ys @ zs)"
  by (simp add: overwrite_def min_def add.commute add.left_commute)

lemma take_overwrite [simp]: "p \<le> length xs \<Longrightarrow> take p (overwrite xs p ys) = take p xs"
  by (simp add: overwrite_def)

lemma drop_overwrite_at: "p \<le> length xs \<Longrightarrow> drop p (overwrite xs p ys) = ys @ drop (p + length ys) xs"
  by (simp add: overwrite_def)

lemma length_overwrite_max: "p \<le> length xs \<Longrightarrow> length (overwrite xs p ys) = max (length xs) (p + length ys)"
  by (auto simp: overwrite_def max_def)

lemma drop_overwrite: "p + length ys \<le> length xs \<Longrightarrow> p + length ys \<le> q \<Longrightarrow> drop q (overwrite xs p ys) = drop q xs"
  by (rule nth_equalityI) (simp_all add: nth_overwrite)

lemma take_overwrite_beyond:
  "p + length ys \<le> q \<Longrightarrow> q \<le> length xs \<Longrightarrow> take q (overwrite xs p ys) = overwrite (take q xs) p ys"
  by (rule nth_equalityI) (simp_all add: nth_overwrite)

lemma overwrite_append_at: "overwrite xs (length xs) ys = xs @ ys"
  by (simp add: overwrite_def)

lemma overwrite_shadow:
  "p \<le> length xs \<Longrightarrow> length hs = length zs \<Longrightarrow>
   overwrite (overwrite xs p (zs @ ys)) p hs = overwrite xs p (hs @ ys)"
  by (simp add: overwrite_def min_def add.commute add.left_commute)

section \<open>Bit strings of words, most significant bit first\<close>

definition to_bits :: "nat \<Rightarrow> 'a::len word \<Rightarrow> bool list" where
  "to_bits n w = map (\<lambda>i. bit w (n - 1 - i)) [0..<n]"

definition of_bits :: "bool list \<Rightarrow> 'a::len word" where
  "of_bits bs = foldl (\<lambda>a b. push_bit 1 a OR of_bool b) 0 bs"

text \<open>The value of a word fits into \<open>n\<close> bits.\<close>

definition fits :: "nat \<Rightarrow> 'a::len word \<Rightarrow> bool" where
  "fits n w = (n \<ge> LENGTH('a) \<or> drop_bit n w = 0)"

lemma length_to_bits [simp]: "length (to_bits n w) = n"
  by (simp add: to_bits_def)

lemma nth_to_bits [simp]: "i < n \<Longrightarrow> to_bits n w ! i = bit w (n - 1 - i)"
  by (simp add: to_bits_def)

lemma to_bits_0 [simp]: "to_bits 0 w = []"
  by (simp add: to_bits_def)

lemma of_bits_Nil [simp]: "of_bits [] = 0"
  by (simp add: of_bits_def)

lemma of_bits_snoc: "of_bits (bs @ [b]) = push_bit 1 (of_bits bs) OR of_bool b"
  by (simp add: of_bits_def)

lemma bit_of_bits_snoc:
  "bit (of_bits (bs @ [b]) :: 'a::len word) i =
     (if i = 0 then b else i < LENGTH('a) \<and> bit (of_bits bs :: 'a word) (i - 1))"
  unfolding of_bits_snoc
  by (cases b) (auto simp: bit_or_iff bit_push_bit_iff bit_1_iff Suc_le_eq simp del: push_bit_Suc)

lemma bit_of_bits:
  "bit (of_bits bs :: 'a::len word) i = (i < LENGTH('a) \<and> i < length bs \<and> bs ! (length bs - 1 - i))"
proof (induction bs arbitrary: i rule: rev_induct)
  case Nil
  then show ?case by simp
next
  case (snoc b bs)
  show ?case
    by (cases i) (auto simp: bit_of_bits_snoc snoc.IH nth_append)
qed

lemma to_bits_of_bits [simp]:
  "length bs = n \<Longrightarrow> n \<le> LENGTH('a::len) \<Longrightarrow> to_bits n (of_bits bs :: 'a word) = bs"
  by (rule nth_equalityI) (auto simp: bit_of_bits)

lemma of_bits_to_bits: "of_bits (to_bits n w) = take_bit n w"
  by (rule bit_word_eqI) (auto simp: bit_of_bits bit_take_bit_iff dest: bit_imp_le_length)

lemma fits_iff: "fits n w \<longleftrightarrow> (\<forall>i \<ge> n. \<not> bit w i)"
  for w :: "'a::len word"
proof
  assume f: "fits n w"
  show "\<forall>i \<ge> n. \<not> bit w i"
  proof (intro allI impI notI)
    fix i assume "n \<le> i" and b: "bit w i"
    then have "bit (drop_bit n w) (i - n)"
      by (simp add: bit_drop_bit_eq)
    moreover from b have "i < LENGTH('a)"
      by (rule bit_imp_le_length)
    ultimately show False
      using f \<open>n \<le> i\<close> by (auto simp: fits_def)
  qed
next
  assume "\<forall>i \<ge> n. \<not> bit w i"
  then have "drop_bit n w = 0"
    by (intro bit_word_eqI) (simp add: bit_drop_bit_eq)
  then show "fits n w"
    by (simp add: fits_def)
qed

lemma fits_take_bit: "fits n w \<Longrightarrow> take_bit n w = w"
  by (rule bit_word_eqI) (auto simp: fits_iff bit_take_bit_iff not_less [symmetric])

lemma of_bits_to_bits_fits [simp]: "fits n w \<Longrightarrow> of_bits (to_bits n w) = w"
  by (simp add: of_bits_to_bits fits_take_bit)

lemma fits_of_bits [simp]: "length bs \<le> n \<Longrightarrow> fits n (of_bits bs)"
  by (auto simp: fits_iff bit_of_bits)

lemma fits_unat: "fits n w \<longleftrightarrow> unat w < 2 ^ n"
  for w :: "'a::len word"
proof -
  have "fits n w \<longleftrightarrow> take_bit n w = w"
    by (metis fits_take_bit fits_iff bit_take_bit_iff not_less)
  also have "\<dots> \<longleftrightarrow> take_bit n (unat w) = unat w"
    by (metis unsigned_take_bit_eq word_unat_eq_iff)
  finally show ?thesis
    by (simp add: take_bit_nat_eq_self_iff)
qed

lemma of_bits_append:
  "of_bits (xs @ ys) = push_bit (length ys) (of_bits xs) OR (of_bits ys :: 'a::len word)"
  by (rule bit_word_eqI) (auto simp: bit_of_bits bit_or_iff bit_push_bit_iff nth_append not_less)

lemma ucast_of_bits:
  "length bs \<le> LENGTH('a) \<Longrightarrow> (ucast (of_bits bs :: 'a::len word) :: 'b::len word) = of_bits bs"
  by (rule bit_word_eqI) (auto simp: bit_of_bits bit_unsigned_iff)

lemma to_bits_append: "to_bits (m + n) w = to_bits m (drop_bit n w) @ to_bits n w"
  by (rule nth_equalityI) (auto simp: nth_append bit_drop_bit_eq intro!: arg_cong [where f = "bit w"])

lemma to_bits_ucast:
  "n \<le> LENGTH('b) \<Longrightarrow> to_bits n (ucast (w :: 'a::len word) :: 'b::len word) = to_bits n w"
  by (rule nth_equalityI) (auto simp: bit_unsigned_iff dest: bit_imp_le_length)

lemma fits_mono: "fits m w \<Longrightarrow> m \<le> n \<Longrightarrow> fits n w"
  by (auto simp: fits_iff)

lemma fits_ucast [simp]:
  "LENGTH('a) \<le> LENGTH('b) \<Longrightarrow> fits n (ucast (w :: 'a::len word) :: 'b::len word) \<longleftrightarrow> fits n w"
  by (auto simp: fits_iff bit_unsigned_iff) (meson bit_imp_le_length order.strict_trans2)

lemma fits_length [simp]: "LENGTH('a) \<le> n \<Longrightarrow> fits n (w :: 'a::len word)"
  by (simp add: fits_def)

lemma fits_0 [simp]: "fits n 0"
  by (simp add: fits_def)

lemma fits_1 [simp]: "0 < n \<Longrightarrow> fits n 1"
  by (simp add: fits_iff bit_1_iff)

lemma fits_of_bool [simp]: "0 < n \<Longrightarrow> fits n (of_bool b)"
  by (cases b) simp_all

lemma fits_numeral [simp]:
  "fits n (numeral k :: 'a::len word) \<longleftrightarrow> unat (numeral k :: 'a word) < 2 ^ n"
  by (rule fits_unat)

lemma ucast_ucast_id [simp]:
  "LENGTH('a) \<le> LENGTH('b) \<Longrightarrow> ucast (ucast (w :: 'a::len word) :: 'b::len word) = w"
  by (rule bit_word_eqI) (simp add: bit_unsigned_iff)

lemma fits_ucast_down: "fits n w \<Longrightarrow> n \<le> LENGTH('b) \<Longrightarrow> ucast (ucast (w :: 'a::len word) :: 'b::len word) = w"
  by (rule bit_word_eqI) (auto simp: bit_unsigned_iff fits_iff, meson not_less order.strict_trans2)

lemma fits_ucast_small: "fits n w \<Longrightarrow> fits n (ucast (w :: 'a::len word) :: 'b::len word)"
  by (auto simp: fits_iff bit_unsigned_iff)

section \<open>Bit strings of byte vectors\<close>

definition bytes_bits :: "u8 list \<Rightarrow> bool list" where
  "bytes_bits bs = concat (map (to_bits 8) bs)"

lemma length_bytes_bits [simp]: "length (bytes_bits bs) = 8 * length bs"
  by (induction bs) (simp_all add: bytes_bits_def)

lemma bytes_bits_append: "bytes_bits (xs @ ys) = bytes_bits xs @ bytes_bits ys"
  by (simp add: bytes_bits_def)

lemma bytes_bits_replicate_0: "bytes_bits (replicate n 0) = replicate (8 * n) False"
proof (induction n)
  case (Suc n)
  have "to_bits 8 (0 :: u8) = replicate 8 False"
    by (rule nth_equalityI) simp_all
  with Suc show ?case
    by (simp add: bytes_bits_def replicate_add)
qed (simp add: bytes_bits_def)

lemma nth_bytes_bits:
  "i < 8 * length bs \<Longrightarrow> bytes_bits bs ! i = bit (bs ! (i div 8)) (7 - i mod 8)"
proof (induction bs arbitrary: i)
  case Nil
  then show ?case by simp
next
  case (Cons b bs)
  show ?case
  proof (cases "i < 8")
    case True
    then show ?thesis by (simp add: bytes_bits_def nth_append)
  next
    case False
    then have "bytes_bits (b # bs) ! i = bytes_bits bs ! (i - 8)"
      by (simp add: bytes_bits_def nth_append)
    also have "\<dots> = bit (bs ! ((i - 8) div 8)) (7 - (i - 8) mod 8)"
      using False Cons.prems by (intro Cons.IH) simp
    also have "\<dots> = bit ((b # bs) ! (i div 8)) (7 - i mod 8)"
      using False by (simp add: le_div_geq le_mod_geq)
    finally show ?thesis .
  qed
qed

end
