(* ===== verification/Tdma_Time.thy ===== *)
theory Tdma_Time
  imports Prelude
begin

text \<open>
  \<open>tetra-core/src/tdma_time.rs\<close>: the air-interface clock (timeslot, frame, multiframe, hyperframe). The
  fields keep their machine widths. \<open>i32\<close> arithmetic is integer arithmetic followed by \<open>wrap32\<close>, the
  wrap-around of a release build; the lemmas show where it is the identity.
\<close>

record TdmaTime =
  tm_t :: u8
  tm_f :: u8
  tm_m :: u8
  tm_h :: u16

definition TdmaTime_default :: TdmaTime where
  "TdmaTime_default = \<lparr>tm_t = 1, tm_f = 1, tm_m = 1, tm_h = 0\<rparr>"

definition TIME_INT_WRAP :: int where
  "TIME_INT_WRAP = 4 * 18 * 60 * 65536"

definition multiframes :: "int \<Rightarrow> int" where
  "multiframes m = m * 18 * 4"

definition wrap32 :: "int \<Rightarrow> int" where
  "wrap32 x = (x + 2 ^ 31) mod 2 ^ 32 - 2 ^ 31"

text \<open>The two \<open>while\<close> loops of \<open>time_int_diff\<close>.\<close>

function diff_up :: "int \<Rightarrow> int" where
  "diff_up d = (if d < - TIME_INT_WRAP div 2 then diff_up (d + TIME_INT_WRAP) else d)"
  by pat_completeness auto
termination
  by (relation "measure (\<lambda>d. nat (- d))") (auto simp: TIME_INT_WRAP_def)

function diff_down :: "int \<Rightarrow> int" where
  "diff_down d = (if d \<ge> TIME_INT_WRAP div 2 then diff_down (d - TIME_INT_WRAP) else d)"
  by pat_completeness auto
termination
  by (relation "measure nat") (auto simp: TIME_INT_WRAP_def)

declare diff_up.simps [simp del] diff_down.simps [simp del]

definition time_int_diff :: "int \<Rightarrow> int \<Rightarrow> int" where
  "time_int_diff a b = diff_down (diff_up (wrap32 (a - b)))"

definition TdmaTime_is_valid :: "TdmaTime \<Rightarrow> bool" where
  "TdmaTime_is_valid x \<longleftrightarrow>
     tm_t x \<ge> 1 \<and> tm_t x \<le> 4 \<and> tm_f x \<ge> 1 \<and> tm_f x \<le> 18 \<and> tm_m x \<ge> 1 \<and> tm_m x \<le> 60"

definition TdmaTime_to_int :: "TdmaTime \<Rightarrow> int" where
  "TdmaTime_to_int x =
     wrap32 ((uint (tm_t x) - 1) + (uint (tm_f x) - 1) * 4 + (uint (tm_m x) - 1) * 4 * 18 + uint (tm_h x) * 4 * 18 * 60)"

definition TdmaTime_from_int :: "int \<Rightarrow> TdmaTime" where
  "TdmaTime_from_int time =
     \<lparr>tm_t = of_int (time mod 4 + 1),
      tm_f = of_int (time div 4 mod 18 + 1),
      tm_m = of_int (time div (4 * 18) mod 60 + 1),
      tm_h = of_int (time div (4 * 18 * 60))\<rparr>"

definition TdmaTime_add_timeslots :: "TdmaTime \<Rightarrow> int \<Rightarrow> TdmaTime" where
  "TdmaTime_add_timeslots x num_slots = TdmaTime_from_int (wrap32 (TdmaTime_to_int x + num_slots))"

definition TdmaTime_diff :: "TdmaTime \<Rightarrow> TdmaTime \<Rightarrow> int" where
  "TdmaTime_diff a b = time_int_diff (TdmaTime_to_int a) (TdmaTime_to_int b)"

definition TdmaTime_age :: "TdmaTime \<Rightarrow> TdmaTime \<Rightarrow> int" where
  "TdmaTime_age x now = TdmaTime_diff now x"

definition TdmaTime_forward_to_timeslot :: "TdmaTime \<Rightarrow> u8 \<Rightarrow> TdmaTime" where
  "TdmaTime_forward_to_timeslot x ts = TdmaTime_add_timeslots x (uint ((ts + 4 - tm_t x) mod 4))"

definition TdmaTime_is_mandatory_bsch :: "TdmaTime \<Rightarrow> bool" where
  "TdmaTime_is_mandatory_bsch x \<longleftrightarrow> tm_f x = 18 \<and> tm_t x = 4 - (tm_m x + 1) mod 4"

definition TdmaTime_is_mandatory_bnch :: "TdmaTime \<Rightarrow> bool" where
  "TdmaTime_is_mandatory_bnch x \<longleftrightarrow> tm_f x = 18 \<and> tm_t x = 4 - (tm_m x + 3) mod 4"

definition TdmaTime_is_mandatory_clch :: "TdmaTime \<Rightarrow> bool" where
  "TdmaTime_is_mandatory_clch x \<longleftrightarrow> tm_f x = 18 \<and> tm_t x = 4 - (tm_m x + 1) mod 4"

definition TdmaTime_multiframe_index :: "TdmaTime \<Rightarrow> u32" where
  "TdmaTime_multiframe_index x = of_nat (unat (tm_m x) - 1) + ucast (tm_h x) * 60"

text \<open>\<open>u32\<close> arithmetic on values below \<open>2\<^sup>13\<close>; \<open>saturating_sub\<close> is subtraction of naturals.\<close>

definition TdmaTime_in_ee_monitoring_window :: "TdmaTime \<Rightarrow> u8 \<Rightarrow> u8 \<Rightarrow> u8 \<Rightarrow> bool" where
  "TdmaTime_in_ee_monitoring_window x monitoring_frame monitoring_multiframe cycle_len =
     (if cycle_len = 0 \<or> \<not> (1 \<le> monitoring_frame \<and> monitoring_frame \<le> 18) \<or>
         \<not> (1 \<le> monitoring_multiframe \<and> monitoring_multiframe \<le> 60) then False
      else
        let start_abs = (unat monitoring_multiframe - 1) * 18 + (unat monitoring_frame - 1);
            cur_abs = (unat (tm_m x) - 1) * 18 + (unat (tm_f x) - 1)
        in cur_abs mod unat cycle_len = start_abs mod unat cycle_len)"

section \<open>Integer times\<close>

lemma wrap32_id: "- (2 ^ 31) \<le> x \<Longrightarrow> x < 2 ^ 31 \<Longrightarrow> wrap32 x = x"
  by (simp add: wrap32_def)

lemma uint_8_less: "uint (w :: u8) < 256" and uint_16_less: "uint (w' :: u16) < 65536"
  using uint_bounded [of w] uint_bounded [of w'] by simp_all

text \<open>No field values overflow: the integer time is exact for every record.\<close>

lemma TdmaTime_to_int_exact:
  "TdmaTime_to_int x =
     (uint (tm_t x) - 1) + (uint (tm_f x) - 1) * 4 + (uint (tm_m x) - 1) * 72 + uint (tm_h x) * 4320"
proof -
  have "0 \<le> uint (tm_t x)" "0 \<le> uint (tm_f x)" "0 \<le> uint (tm_m x)" "0 \<le> uint (tm_h x)" by simp_all
  with uint_8_less [of "tm_t x"] uint_8_less [of "tm_f x"] uint_8_less [of "tm_m x"] uint_16_less [of "tm_h x"]
  show ?thesis unfolding TdmaTime_to_int_def by (subst wrap32_id) simp_all
qed

lemma valid_uint:
  "TdmaTime_is_valid x \<longleftrightarrow> 1 \<le> uint (tm_t x) \<and> uint (tm_t x) \<le> 4 \<and> 1 \<le> uint (tm_f x) \<and> uint (tm_f x) \<le> 18 \<and>
     1 \<le> uint (tm_m x) \<and> uint (tm_m x) \<le> 60"
  by (simp add: TdmaTime_is_valid_def word_le_def)

lemma to_int_range:
  assumes "TdmaTime_is_valid x"
  shows "0 \<le> TdmaTime_to_int x" and "TdmaTime_to_int x < TIME_INT_WRAP"
  using assms uint_16_less [of "tm_h x"] uint_ge_0 [of "tm_h x"]
  unfolding valid_uint TdmaTime_to_int_exact TIME_INT_WRAP_def by simp_all

lemma uint_of_int_8: "0 \<le> y \<Longrightarrow> y < 256 \<Longrightarrow> uint (of_int y :: u8) = y"
  by (simp add: uint_word_of_int)

lemma from_int_fields:
  "uint (tm_t (TdmaTime_from_int y)) = y mod 4 + 1"
  "uint (tm_f (TdmaTime_from_int y)) = y div 4 mod 18 + 1"
  "uint (tm_m (TdmaTime_from_int y)) = y div 72 mod 60 + 1"
  "uint (tm_h (TdmaTime_from_int y)) = y div 4320 mod 65536"
proof -
  have "0 \<le> y mod 4" "y mod 4 < 4" "0 \<le> y div 4 mod 18" "y div 4 mod 18 < 18"
    "0 \<le> y div 72 mod 60" "y div 72 mod 60 < 60" by simp_all
  then show "uint (tm_t (TdmaTime_from_int y)) = y mod 4 + 1"
    and "uint (tm_f (TdmaTime_from_int y)) = y div 4 mod 18 + 1"
    and "uint (tm_m (TdmaTime_from_int y)) = y div 72 mod 60 + 1"
    unfolding TdmaTime_from_int_def by (simp_all add: uint_of_int_8 del: of_int_add)
  show "uint (tm_h (TdmaTime_from_int y)) = y div 4320 mod 65536"
    unfolding TdmaTime_from_int_def by (simp add: uint_word_of_int)
qed

lemma from_int_valid: "TdmaTime_is_valid (TdmaTime_from_int y)"
proof -
  have "0 \<le> y mod 4" "y mod 4 < 4" "0 \<le> y div 4 mod 18" "y div 4 mod 18 < 18"
    "0 \<le> y div 72 mod 60" "y div 72 mod 60 < 60" by simp_all
  then show ?thesis unfolding valid_uint from_int_fields by linarith
qed

text \<open>Mixed-radix decomposition.\<close>

lemma split_time: "(y :: int) = y mod 4 + (y div 4 mod 18) * 4 + (y div 72 mod 60) * 72 + (y div 4320) * 4320"
proof -
  have "y = 4 * (y div 4) + y mod 4" by simp
  moreover have "y div 4 = 18 * (y div 4 div 18) + y div 4 mod 18" by simp
  moreover have "y div 4 div 18 = y div 72" by (simp add: zdiv_zmult2_eq [symmetric])
  moreover have "y div 72 = 60 * (y div 72 div 60) + y div 72 mod 60" by simp
  moreover have "y div 72 div 60 = y div 4320" by (simp add: zdiv_zmult2_eq [symmetric])
  ultimately show ?thesis by linarith
qed

lemma fold_time:
  fixes y t f m h q :: int
  assumes "y = t + f * 4 + m * 72 + h * 4320"
  shows "(t + 1 - 1) + (f + 1 - 1) * 4 + (m + 1 - 1) * 72 + (h - 65536 * q) * 4320 = y + TIME_INT_WRAP * (- q)"
  unfolding assms TIME_INT_WRAP_def by (simp add: algebra_simps)

lemma to_int_from_int: "TdmaTime_to_int (TdmaTime_from_int y) = y mod TIME_INT_WRAP"
proof -
  let ?q = "y div 4320 div 65536"
  have h: "y div 4320 mod 65536 = y div 4320 - 65536 * ?q" by (rule minus_mult_div_eq_mod [symmetric])
  have e: "TdmaTime_to_int (TdmaTime_from_int y) = y + TIME_INT_WRAP * (- ?q)"
    unfolding TdmaTime_to_int_exact from_int_fields h by (rule fold_time [OF split_time])
  have "TdmaTime_to_int (TdmaTime_from_int y) = TdmaTime_to_int (TdmaTime_from_int y) mod TIME_INT_WRAP"
    by (rule mod_pos_pos_trivial [symmetric]) (rule to_int_range [OF from_int_valid])+
  also have "\<dots> = y mod TIME_INT_WRAP" unfolding e by (rule mod_mult_self2)
  finally show ?thesis .
qed

lemma radix_digits:
  fixes a b c d :: int
  assumes "0 \<le> a" "a < 4" "0 \<le> b" "b < 18" "0 \<le> c" "c < 60"
  shows "(a + b * 4 + c * 72 + d * 4320) mod 4 = a"
    and "(a + b * 4 + c * 72 + d * 4320) div 4 mod 18 = b"
    and "(a + b * 4 + c * 72 + d * 4320) div 72 mod 60 = c"
    and "(a + b * 4 + c * 72 + d * 4320) div 4320 = d"
proof -
  let ?y = "a + b * 4 + c * 72 + d * 4320"
  have dm: "(r + q * k) mod k = r" "(r + q * k) div k = q" if "0 \<le> r" "r < k" for r q k :: int
    using that by simp_all
  have y: "?y = a + (b + (c + d * 60) * 18) * 4" by simp
  show "?y mod 4 = a" unfolding y by (rule dm) (use assms in simp_all)
  have d1: "?y div 4 = b + (c + d * 60) * 18" unfolding y by (rule dm) (use assms in simp_all)
  show "?y div 4 mod 18 = b" unfolding d1 by (rule dm) (use assms in simp_all)
  have "?y div 72 = ?y div 4 div 18" by (simp add: zdiv_zmult2_eq [symmetric])
  also have "\<dots> = c + d * 60" unfolding d1 by (rule dm) (use assms in simp_all)
  finally have d2: "?y div 72 = c + d * 60" .
  show "?y div 72 mod 60 = c" unfolding d2 by (rule dm) (use assms in simp_all)
  have "?y div 4320 = ?y div 72 div 60" by (simp add: zdiv_zmult2_eq [symmetric])
  also have "\<dots> = d" unfolding d2 by (rule dm) (use assms in simp_all)
  finally show "?y div 4320 = d" .
qed

lemma from_int_to_int:
  assumes "TdmaTime_is_valid x"
  shows "TdmaTime_from_int (TdmaTime_to_int x) = x"
proof -
  let ?y = "TdmaTime_to_int x"
  have y: "?y = (uint (tm_t x) - 1) + (uint (tm_f x) - 1) * 4 + (uint (tm_m x) - 1) * 72 + uint (tm_h x) * 4320"
    by (rule TdmaTime_to_int_exact)
  have "uint (tm_t (TdmaTime_from_int ?y)) = uint (tm_t x)" "uint (tm_f (TdmaTime_from_int ?y)) = uint (tm_f x)"
    "uint (tm_m (TdmaTime_from_int ?y)) = uint (tm_m x)" "uint (tm_h (TdmaTime_from_int ?y)) = uint (tm_h x)"
    using assms unfolding from_int_fields valid_uint y by (subst radix_digits; simp add: uint_16_less)+
  then show ?thesis by (cases x; cases "TdmaTime_from_int ?y") (simp add: word_uint_eq_iff)
qed

section \<open>Differences\<close>

lemma diff_up_id: "- TIME_INT_WRAP div 2 \<le> d \<Longrightarrow> diff_up d = d"
  by (subst diff_up.simps) simp

lemma diff_down_id: "d < TIME_INT_WRAP div 2 \<Longrightarrow> diff_down d = d"
  by (subst diff_down.simps) simp

lemma diff_up_mod: "diff_up d mod TIME_INT_WRAP = d mod TIME_INT_WRAP \<and> - TIME_INT_WRAP div 2 \<le> diff_up d"
proof (induction d rule: diff_up.induct)
  case (1 d)
  then show ?case by (subst (1 2) diff_up.simps) auto
qed

lemma diff_down_mod:
  "- TIME_INT_WRAP div 2 \<le> d \<Longrightarrow>
   diff_down d mod TIME_INT_WRAP = d mod TIME_INT_WRAP \<and> - TIME_INT_WRAP div 2 \<le> diff_down d \<and> diff_down d < TIME_INT_WRAP div 2"
proof (induction d rule: diff_down.induct)
  case (1 d)
  show ?case
  proof (cases "d \<ge> TIME_INT_WRAP div 2")
    case True
    then have "- TIME_INT_WRAP div 2 \<le> d - TIME_INT_WRAP" by (simp add: TIME_INT_WRAP_def)
    from "1.IH" [OF True this] True show ?thesis by (subst (1 2 3) diff_down.simps) simp
  next
    case False
    with "1.prems" show ?thesis by (subst (1 2 3) diff_down.simps) simp
  qed
qed

text \<open>The difference is the representative of \<open>a - b\<close> of least magnitude modulo the clock period.\<close>

lemma time_int_diff_spec:
  assumes "- (2 ^ 31) \<le> a - b" and "a - b < 2 ^ 31"
  shows "time_int_diff a b mod TIME_INT_WRAP = (a - b) mod TIME_INT_WRAP"
    and "- TIME_INT_WRAP div 2 \<le> time_int_diff a b" and "time_int_diff a b < TIME_INT_WRAP div 2"
  using diff_up_mod [of "a - b"] diff_down_mod [of "diff_up (a - b)"] wrap32_id [OF assms]
  by (simp_all add: time_int_diff_def)

lemma half_period_unique:
  assumes "x mod TIME_INT_WRAP = y mod TIME_INT_WRAP"
    and "- TIME_INT_WRAP div 2 \<le> x" "x < TIME_INT_WRAP div 2" "- TIME_INT_WRAP div 2 \<le> y" "y < TIME_INT_WRAP div 2"
  shows "x = y"
proof -
  from assms(1) obtain k where k: "x - y = TIME_INT_WRAP * k" by (metis mod_eq_dvd_iff dvdE)
  have "\<bar>x - y\<bar> < TIME_INT_WRAP" using assms(2-5) by (simp add: TIME_INT_WRAP_def)
  then have "k = 0" unfolding k TIME_INT_WRAP_def by (simp add: abs_mult)
  with k show ?thesis by simp
qed

lemma diff_spec:
  assumes "TdmaTime_is_valid a" and "TdmaTime_is_valid b"
  shows "TdmaTime_diff a b mod TIME_INT_WRAP = (TdmaTime_to_int a - TdmaTime_to_int b) mod TIME_INT_WRAP"
    and "- TIME_INT_WRAP div 2 \<le> TdmaTime_diff a b" and "TdmaTime_diff a b < TIME_INT_WRAP div 2"
  using to_int_range [OF assms(1)] to_int_range [OF assms(2)]
    time_int_diff_spec [of "TdmaTime_to_int a" "TdmaTime_to_int b"]
  unfolding TdmaTime_diff_def TIME_INT_WRAP_def by simp_all

lemma add_timeslots_valid: "TdmaTime_is_valid (TdmaTime_add_timeslots x n)"
  by (simp add: TdmaTime_add_timeslots_def from_int_valid)

lemma to_int_add_timeslots:
  assumes "TdmaTime_is_valid x" and "\<bar>n\<bar> < 2 ^ 30"
  shows "TdmaTime_to_int (TdmaTime_add_timeslots x n) = (TdmaTime_to_int x + n) mod TIME_INT_WRAP"
proof -
  have "wrap32 (TdmaTime_to_int x + n) = TdmaTime_to_int x + n"
    using to_int_range [OF assms(1)] assms(2) by (intro wrap32_id) (simp_all add: TIME_INT_WRAP_def)
  then show ?thesis by (simp add: TdmaTime_add_timeslots_def to_int_from_int)
qed

lemma diff_add_timeslots:
  assumes "TdmaTime_is_valid x" and "- TIME_INT_WRAP div 2 \<le> n" and "n < TIME_INT_WRAP div 2"
  shows "TdmaTime_diff (TdmaTime_add_timeslots x n) x = n"
proof (rule half_period_unique)
  have n: "\<bar>n\<bar> < 2 ^ 30" using assms(2,3) by (simp add: TIME_INT_WRAP_def)
  note d = diff_spec [OF add_timeslots_valid assms(1), of x n]
  show "TdmaTime_diff (TdmaTime_add_timeslots x n) x mod TIME_INT_WRAP = n mod TIME_INT_WRAP"
    unfolding d(1) to_int_add_timeslots [OF assms(1) n] by (simp add: mod_diff_left_eq)
  show "- TIME_INT_WRAP div 2 \<le> TdmaTime_diff (TdmaTime_add_timeslots x n) x"
    and "TdmaTime_diff (TdmaTime_add_timeslots x n) x < TIME_INT_WRAP div 2" by (rule d)+
qed (use assms in simp_all)

lemma diff_same: "TdmaTime_is_valid x \<Longrightarrow> TdmaTime_diff x x = 0"
  using diff_spec [of x x] half_period_unique [of "TdmaTime_diff x x" 0] by (simp add: TIME_INT_WRAP_def)

lemma diff_zero_iff:
  assumes "TdmaTime_is_valid a" and "TdmaTime_is_valid b"
  shows "TdmaTime_diff a b = 0 \<longleftrightarrow> a = b"
proof
  assume "TdmaTime_diff a b = 0"
  then have "(TdmaTime_to_int a - TdmaTime_to_int b) mod TIME_INT_WRAP = 0"
    using diff_spec(1) [OF assms] by simp
  then have "TdmaTime_to_int a = TdmaTime_to_int b"
    using to_int_range [OF assms(1)] to_int_range [OF assms(2)]
    by (metis mod_eq_dvd_iff mod_eq_0_iff_dvd mod_pos_pos_trivial)
  then show "a = b" using from_int_to_int assms by metis
qed (use assms diff_same in simp)

text \<open>Adding slots is an action of the integers: back and forth leads nowhere.\<close>

lemma add_timeslots_add:
  assumes "TdmaTime_is_valid x" and "\<bar>m\<bar> < 2 ^ 30" and "\<bar>n\<bar> < 2 ^ 30" and "\<bar>m + n\<bar> < 2 ^ 30"
  shows "TdmaTime_add_timeslots (TdmaTime_add_timeslots x m) n = TdmaTime_add_timeslots x (m + n)"
proof -
  have "TdmaTime_to_int (TdmaTime_add_timeslots (TdmaTime_add_timeslots x m) n) = TdmaTime_to_int (TdmaTime_add_timeslots x (m + n))"
    using assms by (simp add: to_int_add_timeslots add_timeslots_valid mod_add_left_eq add.assoc)
  then show ?thesis by (metis from_int_to_int add_timeslots_valid)
qed

section \<open>Slots and frames\<close>

lemma slot_of_to_int:
  assumes "TdmaTime_is_valid x"
  shows "uint (tm_t x) = TdmaTime_to_int x mod 4 + 1"
  using from_int_fields(1) [of "TdmaTime_to_int x"] from_int_to_int [OF assms] by simp

lemma wrap_mod: "c dvd TIME_INT_WRAP \<Longrightarrow> y mod TIME_INT_WRAP mod c = y mod c"
  by (rule mod_mod_cancel)

lemma word_1_4: "1 \<le> (w :: u8) \<Longrightarrow> w \<le> 4 \<Longrightarrow> w = 1 \<or> w = 2 \<or> w = 3 \<or> w = 4"
  by (auto simp: word_le_nat_alt word_unat_eq_iff)

lemma slots_to_add:
  assumes "1 \<le> (a :: u8)" "a \<le> 4" "1 \<le> b" "b \<le> 4"
  shows "uint ((b + 4 - a) mod 4) = (uint b + 4 - uint a) mod 4"
  using word_1_4 [OF assms(1,2)] word_1_4 [OF assms(3,4)] by (elim disjE) simp_all

lemma forward_to_timeslot_spec:
  assumes "TdmaTime_is_valid x" and "1 \<le> ts" and "ts \<le> 4"
  shows "tm_t (TdmaTime_forward_to_timeslot x ts) = ts"
    and "0 \<le> TdmaTime_diff (TdmaTime_forward_to_timeslot x ts) x"
    and "TdmaTime_diff (TdmaTime_forward_to_timeslot x ts) x < 4"
proof -
  let ?n = "uint ((ts + 4 - tm_t x) mod 4)"
  have n: "?n = (uint ts + 4 - uint (tm_t x)) mod 4"
    using assms by (intro slots_to_add) (simp_all add: TdmaTime_is_valid_def)
  have b: "0 \<le> ?n" "?n < 4" unfolding n by simp_all
  have "TdmaTime_diff (TdmaTime_add_timeslots x ?n) x = ?n"
    using assms(1) b by (intro diff_add_timeslots) (auto simp: TIME_INT_WRAP_def intro: order_trans [of _ 0])
  with b show "0 \<le> TdmaTime_diff (TdmaTime_forward_to_timeslot x ts) x"
    and "TdmaTime_diff (TdmaTime_forward_to_timeslot x ts) x < 4"
    by (simp_all add: TdmaTime_forward_to_timeslot_def)
  have "uint (tm_t (TdmaTime_add_timeslots x ?n)) = (TdmaTime_to_int x + ?n) mod 4 + 1"
    using b wrap_mod [of 4 "TdmaTime_to_int x + ?n"]
    by (simp add: slot_of_to_int [OF add_timeslots_valid] to_int_add_timeslots [OF assms(1)] TIME_INT_WRAP_def)
  also have "\<dots> = (uint (tm_t x) - 1 + (uint ts + 4 - uint (tm_t x))) mod 4 + 1"
  proof -
    have "(y + e mod 4) mod 4 = (y mod 4 + e) mod 4" for y e :: int by (simp add: mod_simps)
    moreover have "TdmaTime_to_int x mod 4 = uint (tm_t x) - 1" using slot_of_to_int [OF assms(1)] by simp
    ultimately show ?thesis unfolding n by metis
  qed
  also have "\<dots> = (uint ts - 1 + 4) mod 4 + 1" by (simp add: algebra_simps)
  also have "\<dots> = uint ts" using word_1_4 [OF assms(2,3)] by (elim disjE) simp_all
  finally show "tm_t (TdmaTime_forward_to_timeslot x ts) = ts"
    by (simp add: TdmaTime_forward_to_timeslot_def word_uint_eq_iff)
qed

text \<open>In frame 18 of every multiframe exactly one slot carries the BSCH and another one the BNCH.\<close>

lemma mandatory_slot:
  assumes "m \<le> (250 :: u8)" and "k \<le> 3"
  shows "1 \<le> 4 - (m + k) mod 4" and "4 - (m + k) mod 4 \<le> 4" and "unat (4 - (m + k) mod 4) = 4 - (unat m + unat k) mod 4"
proof -
  have s: "unat (m + k) = unat m + unat k"
    using assms by (simp add: unat_plus_if_size word_le_nat_alt word_size)
  have r: "unat ((m + k) mod 4) = (unat m + unat k) mod 4" by (simp add: unat_mod_distrib s)
  then have le: "(m + k) mod 4 \<le> 4" by (simp add: word_le_nat_alt)
  have d: "unat (4 - (m + k) mod 4) = 4 - (unat m + unat k) mod 4"
    using unat_sub [OF le] r by simp
  have "(unat m + unat k) mod 4 < 4" by simp
  with d show "1 \<le> 4 - (m + k) mod 4" and "4 - (m + k) mod 4 \<le> 4"
    and "unat (4 - (m + k) mod 4) = 4 - (unat m + unat k) mod 4"
    by (simp_all add: word_le_nat_alt)
qed

lemma bsch_bnch_slots:
  assumes "TdmaTime_is_valid x" and "tm_f x = 18"
  shows "\<exists>!t. TdmaTime_is_valid (x\<lparr>tm_t := t\<rparr>) \<and> TdmaTime_is_mandatory_bsch (x\<lparr>tm_t := t\<rparr>)"
    and "\<exists>!t. TdmaTime_is_valid (x\<lparr>tm_t := t\<rparr>) \<and> TdmaTime_is_mandatory_bnch (x\<lparr>tm_t := t\<rparr>)"
    and "\<not> (TdmaTime_is_mandatory_bsch x \<and> TdmaTime_is_mandatory_bnch x)"
proof -
  have m: "tm_m x \<le> 250" using assms(1) by (auto simp: TdmaTime_is_valid_def word_le_nat_alt)
  note s1 = mandatory_slot [OF m, of 1, simplified] and s3 = mandatory_slot [OF m, of 3, simplified]
  show "\<exists>!t. TdmaTime_is_valid (x\<lparr>tm_t := t\<rparr>) \<and> TdmaTime_is_mandatory_bsch (x\<lparr>tm_t := t\<rparr>)"
    using assms s1(1,2) by (auto simp: TdmaTime_is_mandatory_bsch_def TdmaTime_is_valid_def)
  show "\<exists>!t. TdmaTime_is_valid (x\<lparr>tm_t := t\<rparr>) \<and> TdmaTime_is_mandatory_bnch (x\<lparr>tm_t := t\<rparr>)"
    using assms s3(1,2) by (auto simp: TdmaTime_is_mandatory_bnch_def TdmaTime_is_valid_def)
  have "unat (4 - (tm_m x + 1) mod 4) \<noteq> unat (4 - (tm_m x + 3) mod 4)"
    unfolding s1(3) s3(3) by presburger
  then show "\<not> (TdmaTime_is_mandatory_bsch x \<and> TdmaTime_is_mandatory_bnch x)"
    by (auto simp: TdmaTime_is_mandatory_bsch_def TdmaTime_is_mandatory_bnch_def)
qed

section \<open>Energy-economy windows\<close>

definition abs_frame :: "TdmaTime \<Rightarrow> nat" where
  "abs_frame x = (unat (tm_m x) - 1) * 18 + (unat (tm_f x) - 1)"

lemma abs_frame_to_int:
  assumes "TdmaTime_is_valid x"
  shows "int (abs_frame x) = TdmaTime_to_int x div 4 mod 1080"
proof -
  let ?f = "uint (tm_f x) - 1" and ?m = "uint (tm_m x) - 1" and ?t = "uint (tm_t x) - 1"
  have v: "0 \<le> ?t" "?t < 4" "0 \<le> ?f" "?f < 18" "0 \<le> ?m" "?m < 60" using assms by (auto simp: valid_uint)
  have "TdmaTime_to_int x = ?t + (?f + ?m * 18 + uint (tm_h x) * 1080) * 4"
    unfolding TdmaTime_to_int_exact by simp
  then have "TdmaTime_to_int x div 4 = (?f + ?m * 18) + uint (tm_h x) * 1080" using v by simp
  moreover have "((?f + ?m * 18) + uint (tm_h x) * 1080) mod 1080 = ?f + ?m * 18"
    using v by (subst mod_mult_self1) (simp add: mod_pos_pos_trivial)
  moreover have "int (abs_frame x) = ?m * 18 + ?f"
  proof -
    have "1 \<le> unat (tm_m x)" "1 \<le> unat (tm_f x)"
      using assms by (auto simp: TdmaTime_is_valid_def word_le_nat_alt)
    then show ?thesis unfolding abs_frame_def by (simp add: of_nat_diff)
  qed
  ultimately show ?thesis by simp
qed

lemma abs_frame_advance:
  assumes "TdmaTime_is_valid x" and "j < 1080"
  shows "int (abs_frame (TdmaTime_add_timeslots x (4 * int j))) = (int (abs_frame x) + int j) mod 1080"
proof -
  have "TdmaTime_to_int (TdmaTime_add_timeslots x (4 * int j)) = (TdmaTime_to_int x + 4 * int j) mod TIME_INT_WRAP"
    using assms by (intro to_int_add_timeslots) simp_all
  then have "int (abs_frame (TdmaTime_add_timeslots x (4 * int j))) = (TdmaTime_to_int x + 4 * int j) mod TIME_INT_WRAP div 4 mod 1080"
    by (simp add: abs_frame_to_int add_timeslots_valid)
  also have "\<dots> = (TdmaTime_to_int x + 4 * int j) div 4 mod 1080"
  proof -
    let ?y = "TdmaTime_to_int x + 4 * int j"
    have "?y = TIME_INT_WRAP * (?y div TIME_INT_WRAP) + ?y mod TIME_INT_WRAP" by simp
    then have "?y div 4 = (?y mod TIME_INT_WRAP + 4 * (70778880 * (?y div TIME_INT_WRAP))) div 4"
      by (simp add: TIME_INT_WRAP_def)
    also have "\<dots> = ?y mod TIME_INT_WRAP div 4 + 1080 * (65536 * (?y div TIME_INT_WRAP))" by simp
    finally show ?thesis by (metis mod_mult_self2)
  qed
  also have "\<dots> = (TdmaTime_to_int x div 4 + int j) mod 1080" by (simp add: add.commute)
  also have "\<dots> = (int (abs_frame x) + int j) mod 1080"
    by (simp add: abs_frame_to_int [OF assms(1)] mod_add_left_eq)
  finally show ?thesis .
qed

text \<open>
  For a cycle length that divides the hyperframe (1080 frames), a terminal in energy economy mode is awake in
  exactly one of any \<open>cycle_len\<close> consecutive frames, hyperframe rollover included.
\<close>

lemma exactly_one_residue: "0 < c \<Longrightarrow> \<exists>!j. j < c \<and> (a + j) mod c = s mod c" for a c s :: nat
proof -
  assume c: "0 < c"
  let ?j = "(s + (c - a mod c)) mod c"
  have "(a + ?j) mod c = (a mod c + (s + (c - a mod c))) mod c" by (simp add: mod_simps)
  also have "a mod c + (s + (c - a mod c)) = s + c" using c mod_less_divisor [of c a] by linarith
  finally have ex: "(a + ?j) mod c = s mod c" by simp
  have "j = j'" if j: "j < c" "j' < c" "(a + j) mod c = (a + j') mod c" for j j'
  proof -
    from j(3) have "(int a + int j) mod int c = (int a + int j') mod int c" by (metis of_nat_add of_nat_mod)
    then have "int j mod int c = int j' mod int c" by (metis add_diff_cancel_left' mod_diff_left_eq)
    with j show ?thesis by (metis mod_less of_nat_eq_iff of_nat_mod)
  qed
  with ex c show ?thesis by (metis mod_less_divisor)
qed

lemma ee_window_once:
  assumes "TdmaTime_is_valid x" and "1 \<le> mf" "mf \<le> 18" and "1 \<le> mm" "mm \<le> 60" and "unat c dvd 1080"
  shows "\<exists>!j. j < unat c \<and> TdmaTime_in_ee_monitoring_window (TdmaTime_add_timeslots x (4 * int j)) mf mm c"
proof -
  let ?s = "(unat mm - 1) * 18 + (unat mf - 1)"
  have c: "0 < unat c" "unat c \<le> 1080" using assms(6) by (auto intro: dvd_imp_le gr0I)
  have adv: "abs_frame (TdmaTime_add_timeslots x (4 * int j)) mod unat c = (abs_frame x + j) mod unat c" if "j < unat c" for j
  proof -
    have "int (abs_frame (TdmaTime_add_timeslots x (4 * int j))) = int ((abs_frame x + j) mod 1080)"
      using abs_frame_advance [OF assms(1), of j] that c by (simp add: of_nat_mod)
    then have "abs_frame (TdmaTime_add_timeslots x (4 * int j)) = (abs_frame x + j) mod 1080" by simp
    then show ?thesis using assms(6) by (simp add: mod_mod_cancel)
  qed
  have w: "TdmaTime_in_ee_monitoring_window (TdmaTime_add_timeslots x (4 * int j)) mf mm c \<longleftrightarrow> (abs_frame x + j) mod unat c = ?s mod unat c"
    if "j < unat c" for j
  proof -
    have "c \<noteq> 0" using c by auto
    then show ?thesis
      using assms(2-5) adv [OF that] by (simp add: TdmaTime_in_ee_monitoring_window_def abs_frame_def Let_def)
  qed
  from exactly_one_residue [OF c(1), of "abs_frame x" ?s] w show ?thesis by auto
qed

end
