(* ===== verification/Timeslot_Alloc.thy ===== *)
theory Timeslot_Alloc
  imports Prelude
begin

text \<open>
  \<open>tetra-core/src/timeslot_alloc.rs\<close>: which entity (\<open>Brew\<close> or \<open>Cmce\<close>) owns which traffic slot of which carrier. The
  locale \<open>slot_pool\<close> is the contract its users rely on (a slot has at most one owner, and only the owner
  gives it back); the allocator interprets it.
\<close>

section \<open>State\<close>

datatype TimeslotOwner = Brew | Cmce

record CarrierSlot =
  cs_carrier_num :: u16
  cs_ts :: u8

datatype TimeslotAllocErr =
    InvalidTimeslot u8
  | InvalidCarrier u16
  | InUse u16 u8 TimeslotOwner
  | NotAllocated u16 u8
  | OwnerMismatch u16 u8 TimeslotOwner TimeslotOwner

record TimeslotAllocator =
  al_carriers :: "u16 list"
  al_owners :: "TimeslotOwner option list list"

definition TimeslotAllocator_default :: TimeslotAllocator where
  "TimeslotAllocator_default = \<lparr>al_carriers = [0], al_owners = [[None, None, None, None]]\<rparr>"

text \<open>\<open>Iterator::position\<close>.\<close>

primrec position :: "'a \<Rightarrow> 'a list \<Rightarrow> nat option" where
  "position x [] = None"
| "position x (y # ys) = (if y = x then Some 0 else map_option Suc (position x ys))"

section \<open>Operations\<close>

definition carrier_idx :: "TimeslotAllocator \<Rightarrow> u16 \<Rightarrow> (TimeslotAllocErr, nat) outcome" where
  "carrier_idx a carrier_num =
     (case position carrier_num (al_carriers a) of Some i \<Rightarrow> Ok i | None \<Rightarrow> Err (InvalidCarrier carrier_num))"

definition slot_supported_for_carrier :: "nat \<Rightarrow> u8 \<Rightarrow> bool" where
  "slot_supported_for_carrier ci ts =
     (if ci = 0 then 2 \<le> ts \<and> ts \<le> 4 else 1 \<le> ts \<and> ts \<le> 4)"

definition slot_idx :: "nat \<Rightarrow> u8 \<Rightarrow> (TimeslotAllocErr, nat) outcome" where
  "slot_idx ci ts =
     (if slot_supported_for_carrier ci ts then Ok (unat (ts - 1)) else Err (InvalidTimeslot ts))"

fun dedup_carriers :: "u16 list \<Rightarrow> u16 list \<Rightarrow> u16 list" where
  "dedup_carriers acc [] = acc"
| "dedup_carriers acc (c # cs) = dedup_carriers (if c \<in> set acc then acc else acc @ [c]) cs"

fun copy_owner_rows ::
  "u16 list \<Rightarrow> u16 list \<Rightarrow> TimeslotOwner option list list \<Rightarrow> TimeslotOwner option list list \<Rightarrow> TimeslotOwner option list list" where
  "copy_owner_rows new_carriers (c # cs) (r # rs) new_owners =
     copy_owner_rows new_carriers cs rs
       (case position c new_carriers of Some new_i \<Rightarrow> new_owners[new_i := r] | None \<Rightarrow> new_owners)"
| "copy_owner_rows new_carriers _ _ new_owners = new_owners"

definition configure_carriers :: "u16 list \<Rightarrow> TimeslotAllocator \<Rightarrow> TimeslotAllocator" where
  "configure_carriers carriers a =
     (let dedup = dedup_carriers [] carriers;
          new_carriers = (if dedup = [] then [0] else dedup)
      in \<lparr>al_carriers = new_carriers,
          al_owners = copy_owner_rows new_carriers (al_carriers a) (al_owners a)
            (replicate (length new_carriers) [None, None, None, None])\<rparr>)"

text \<open>The two nested loops of \<open>allocate_any_slot\<close>.\<close>

fun allocate_in_row :: "TimeslotOwner \<Rightarrow> u8 list \<Rightarrow> TimeslotOwner option list \<Rightarrow> (u8 \<times> TimeslotOwner option list) option" where
  "allocate_in_row owner [] slots = None"
| "allocate_in_row owner (ts # rest) slots =
     (if slots ! (unat ts - 1) = None then Some (ts, slots[unat ts - 1 := Some owner])
      else allocate_in_row owner rest slots)"

definition ts_range :: "nat \<Rightarrow> u8 list" where
  "ts_range carrier_i = (if carrier_i = 0 then [2, 3, 4] else [1, 2, 3, 4])"

fun allocate_in_rows ::
  "TimeslotOwner \<Rightarrow> nat \<Rightarrow> TimeslotOwner option list list \<Rightarrow> (nat \<times> u8 \<times> TimeslotOwner option list list) option" where
  "allocate_in_rows owner carrier_i [] = None"
| "allocate_in_rows owner carrier_i (slots # rows) =
     (case allocate_in_row owner (ts_range carrier_i) slots of
        Some (ts, slots') \<Rightarrow> Some (carrier_i, ts, slots' # rows)
      | None \<Rightarrow> map_option (\<lambda>(i, ts, rows'). (i, ts, slots # rows')) (allocate_in_rows owner (Suc carrier_i) rows))"

definition allocate_any_slot :: "TimeslotOwner \<Rightarrow> TimeslotAllocator \<Rightarrow> CarrierSlot option \<times> TimeslotAllocator" where
  "allocate_any_slot owner a =
     (case allocate_in_rows owner 0 (al_owners a) of
        Some (i, ts, rows) \<Rightarrow> (Some \<lparr>cs_carrier_num = al_carriers a ! i, cs_ts = ts\<rparr>, a\<lparr>al_owners := rows\<rparr>)
      | None \<Rightarrow> (None, a))"

definition allocate_any :: "TimeslotOwner \<Rightarrow> TimeslotAllocator \<Rightarrow> u8 option \<times> TimeslotAllocator" where
  "allocate_any owner a = map_prod (map_option cs_ts) id (allocate_any_slot owner a)"

definition reserve_slot :: "TimeslotOwner \<Rightarrow> CarrierSlot \<Rightarrow> (TimeslotAllocator, TimeslotAllocErr, unit) prog" where
  "reserve_slot owner slot a =
     (case carrier_idx a (cs_carrier_num slot) of
        Ok ci \<Rightarrow> (case slot_idx ci (cs_ts slot) of
          Ok idx \<Rightarrow> (case al_owners a ! ci ! idx of
              None \<Rightarrow> Ok ((), a\<lparr>al_owners := (al_owners a)[ci := (al_owners a ! ci)[idx := Some owner]]\<rparr>)
            | Some existing \<Rightarrow> Err (InUse (cs_carrier_num slot) (cs_ts slot) existing))
        | Err e \<Rightarrow> Err e | Panic \<Rightarrow> Panic)
      | Err e \<Rightarrow> Err e | Panic \<Rightarrow> Panic)"

definition release_slot :: "TimeslotOwner \<Rightarrow> CarrierSlot \<Rightarrow> (TimeslotAllocator, TimeslotAllocErr, unit) prog" where
  "release_slot owner slot a =
     (case carrier_idx a (cs_carrier_num slot) of
        Ok ci \<Rightarrow> (case slot_idx ci (cs_ts slot) of
          Ok idx \<Rightarrow> (case al_owners a ! ci ! idx of
              None \<Rightarrow> Err (NotAllocated (cs_carrier_num slot) (cs_ts slot))
            | Some existing \<Rightarrow>
                if existing \<noteq> owner then Err (OwnerMismatch (cs_carrier_num slot) (cs_ts slot) owner existing)
                else Ok ((), a\<lparr>al_owners := (al_owners a)[ci := (al_owners a ! ci)[idx := None]]\<rparr>))
        | Err e \<Rightarrow> Err e | Panic \<Rightarrow> Panic)
      | Err e \<Rightarrow> Err e | Panic \<Rightarrow> Panic)"

definition reserve :: "TimeslotOwner \<Rightarrow> u8 \<Rightarrow> (TimeslotAllocator, TimeslotAllocErr, unit) prog" where
  "reserve owner ts a = reserve_slot owner \<lparr>cs_carrier_num = al_carriers a ! 0, cs_ts = ts\<rparr> a"

definition release :: "TimeslotOwner \<Rightarrow> u8 \<Rightarrow> (TimeslotAllocator, TimeslotAllocErr, unit) prog" where
  "release owner ts a = release_slot owner \<lparr>cs_carrier_num = al_carriers a ! 0, cs_ts = ts\<rparr> a"

definition slot_owner :: "TimeslotAllocator \<Rightarrow> CarrierSlot \<Rightarrow> TimeslotOwner option" where
  "slot_owner a slot =
     (case carrier_idx a (cs_carrier_num slot) of
        Ok ci \<Rightarrow> (case slot_idx ci (cs_ts slot) of Ok idx \<Rightarrow> al_owners a ! ci ! idx | _ \<Rightarrow> None)
      | _ \<Rightarrow> None)"

definition al_owner :: "TimeslotAllocator \<Rightarrow> u8 \<Rightarrow> TimeslotOwner option" where
  "al_owner a ts = slot_owner a \<lparr>cs_carrier_num = al_carriers a ! 0, cs_ts = ts\<rparr>"

definition al_is_free :: "TimeslotAllocator \<Rightarrow> u8 \<Rightarrow> bool" where
  "al_is_free a ts = (al_owner a ts = None)"

definition slot_is_free :: "TimeslotAllocator \<Rightarrow> CarrierSlot \<Rightarrow> bool" where
  "slot_is_free a slot = (slot_owner a slot = None)"

definition free_count :: "TimeslotAllocator \<Rightarrow> nat" where
  "free_count a = length (filter (\<lambda>x. x = None) (drop 1 (al_owners a ! 0)))"

definition free_slot_count :: "TimeslotAllocator \<Rightarrow> nat" where
  "free_slot_count a =
     length (filter (\<lambda>x. x = None)
       (concat (map (\<lambda>(i, slots). if i = 0 then drop 1 slots else slots) (enumerate 0 (al_owners a)))))"

section \<open>The contract\<close>

locale slot_pool =
  fixes inv :: "'s \<Rightarrow> bool"
    and supported :: "'s \<Rightarrow> 'x \<Rightarrow> bool"
    and owner_of :: "'s \<Rightarrow> 'x \<Rightarrow> 'o option"
    and acquire :: "'o \<Rightarrow> 'x \<Rightarrow> ('s, 'e, unit) prog"
    and give_back :: "'o \<Rightarrow> 'x \<Rightarrow> ('s, 'e, unit) prog"
  assumes acquire_free: "inv s \<Longrightarrow> supported s x \<Longrightarrow> owner_of s x = None \<Longrightarrow>
      \<exists>s'. acquire o1 x s = Ok ((), s') \<and> inv s' \<and> supported s' = supported s \<and> owner_of s' = (owner_of s)(x := Some o1)"
    and acquire_refused: "inv s \<Longrightarrow> \<not> supported s x \<or> owner_of s x \<noteq> None \<Longrightarrow> \<exists>e. acquire o1 x s = Err e"
    and give_back_owned: "inv s \<Longrightarrow> owner_of s x = Some o1 \<Longrightarrow>
      \<exists>s'. give_back o1 x s = Ok ((), s') \<and> inv s' \<and> supported s' = supported s \<and> owner_of s' = (owner_of s)(x := None)"
    and give_back_refused: "inv s \<Longrightarrow> owner_of s x \<noteq> Some o1 \<Longrightarrow> \<exists>e. give_back o1 x s = Err e"
    and owned_supported: "inv s \<Longrightarrow> owner_of s x = Some o1 \<Longrightarrow> supported s x"
begin

lemma acquired_exclusive:
  assumes "inv s" and "acquire o1 x s = Ok ((), s')"
  shows "inv s'" and "owner_of s' x = Some o1" and "\<exists>e. acquire o2 x s' = Err e"
    and "o2 \<noteq> o1 \<Longrightarrow> \<exists>e. give_back o2 x s' = Err e"
proof -
  have "supported s x \<and> owner_of s x = None"
    using acquire_refused [OF assms(1), of x o1] assms(2) by fastforce
  with acquire_free [OF assms(1), of x o1] assms(2)
  have s': "inv s'" "owner_of s' = (owner_of s)(x := Some o1)" by auto
  then show "inv s'" and o: "owner_of s' x = Some o1" by auto
  from s' o show "\<exists>e. acquire o2 x s' = Err e" using acquire_refused [of s' x o2] by auto
  assume "o2 \<noteq> o1"
  with s' o show "\<exists>e. give_back o2 x s' = Err e" using give_back_refused [of s' x o2] by auto
qed

lemma acquire_give_back:
  assumes "inv s" and "acquire o1 x s = Ok ((), s')"
  shows "\<exists>s''. give_back o1 x s' = Ok ((), s'') \<and> inv s'' \<and> owner_of s'' = owner_of s"
proof -
  have f: "supported s x" "owner_of s x = None"
    using acquire_refused [OF assms(1), of x o1] assms(2) by fastforce+
  with acquire_free [OF assms(1), of x o1] assms(2)
  have s': "inv s'" "owner_of s' = (owner_of s)(x := Some o1)" by auto
  then have "owner_of s' x = Some o1" by simp
  from give_back_owned [OF s'(1) this] s'(2) f(2) show ?thesis by (auto simp: fun_eq_iff)
qed

end

section \<open>Invariant\<close>

definition al_inv :: "TimeslotAllocator \<Rightarrow> bool" where
  "al_inv a \<longleftrightarrow> al_carriers a \<noteq> [] \<and> distinct (al_carriers a) \<and> length (al_owners a) = length (al_carriers a) \<and>
     (\<forall>row \<in> set (al_owners a). length row = 4)"

definition al_supported :: "TimeslotAllocator \<Rightarrow> CarrierSlot \<Rightarrow> bool" where
  "al_supported a slot \<longleftrightarrow>
     (case position (cs_carrier_num slot) (al_carriers a) of
        Some i \<Rightarrow> slot_supported_for_carrier i (cs_ts slot) | None \<Rightarrow> False)"

lemma position_Some: "position x xs = Some i \<Longrightarrow> i < length xs \<and> xs ! i = x"
  by (induction xs arbitrary: i) (auto split: if_splits)

lemma position_None: "position x xs = None \<longleftrightarrow> x \<notin> set xs"
  by (induction xs) auto

lemma position_nth: "distinct xs \<Longrightarrow> i < length xs \<Longrightarrow> position (xs ! i) xs = Some i"
  by (induction xs arbitrary: i) (auto simp: nth_Cons split: nat.split)

lemma supported_ts:
  assumes "slot_supported_for_carrier i ts"
  shows "unat (ts - 1) < 4" and "unat (ts - 1) = unat ts - 1" and "1 \<le> unat ts" and "unat ts \<le> 4"
proof -
  show t: "1 \<le> unat ts" "unat ts \<le> 4"
    using assms by (auto simp: slot_supported_for_carrier_def word_le_nat_alt split: if_splits)
  then have "1 \<le> ts" by (simp add: word_le_nat_alt)
  from unat_sub [OF this] t show "unat (ts - 1) = unat ts - 1" "unat (ts - 1) < 4" by auto
qed

lemma al_cell_in_range:
  assumes "al_inv a" and "position c (al_carriers a) = Some i" and "slot_supported_for_carrier i ts"
  shows "i < length (al_owners a)" and "unat (ts - 1) < length (al_owners a ! i)"
  using assms position_Some [OF assms(2)] supported_ts(1) [OF assms(3)] by (auto simp: al_inv_def)

lemma al_inv_update:
  assumes "al_inv a" and "i < length (al_owners a)"
  shows "al_inv (a\<lparr>al_owners := (al_owners a)[i := (al_owners a ! i)[k := v]]\<rparr>)"
  using assms by (auto simp: al_inv_def dest!: subsetD [OF set_update_subset_insert])

lemma slot_owner_update:
  assumes "al_inv a" and "position (cs_carrier_num s) (al_carriers a) = Some i" and "slot_supported_for_carrier i (cs_ts s)"
  shows "slot_owner (a\<lparr>al_owners := (al_owners a)[i := (al_owners a ! i)[unat (cs_ts s - 1) := v]]\<rparr>) = (slot_owner a)(s := v)"
proof
  fix r
  let ?b = "a\<lparr>al_owners := (al_owners a)[i := (al_owners a ! i)[unat (cs_ts s - 1) := v]]\<rparr>"
  note range = al_cell_in_range [OF assms]
  show "slot_owner ?b r = ((slot_owner a)(s := v)) r"
  proof (cases "al_supported a r")
    case True
    then obtain j where j: "position (cs_carrier_num r) (al_carriers a) = Some j" "slot_supported_for_carrier j (cs_ts r)"
      by (auto simp: al_supported_def split: option.splits)
    have same: "j = i \<and> unat (cs_ts r - 1) = unat (cs_ts s - 1) \<longleftrightarrow> r = s"
    proof
      assume e: "j = i \<and> unat (cs_ts r - 1) = unat (cs_ts s - 1)"
      then have "unat (cs_ts r) = unat (cs_ts s)"
        using supported_ts(2,3) [OF j(2)] supported_ts(2,3) [OF assms(3)] by linarith
      moreover have "cs_carrier_num r = cs_carrier_num s"
        using e position_Some [OF j(1)] position_Some [OF assms(2)] by simp
      ultimately show "r = s" by (cases r; cases s) (simp add: word_unat_eq_iff)
    qed (use j assms(2) in auto)
    show ?thesis
      using same range j assms(2,3)
      by (cases "j = i"; cases "unat (cs_ts r - 1) = unat (cs_ts s - 1)")
         (auto simp: slot_owner_def carrier_idx_def slot_idx_def)
  next
    case False
    then have "r \<noteq> s" using assms(2,3) by (auto simp: al_supported_def)
    with False show ?thesis
      by (auto simp: slot_owner_def carrier_idx_def slot_idx_def al_supported_def split: option.splits)
  qed
qed

interpretation allocator: slot_pool al_inv al_supported slot_owner reserve_slot release_slot
proof
  fix s x o1
  assume inv: "al_inv s"
  {
    assume "al_supported s x" and free: "slot_owner s x = None"
    then obtain i where i: "position (cs_carrier_num x) (al_carriers s) = Some i" "slot_supported_for_carrier i (cs_ts x)"
      by (auto simp: al_supported_def split: option.splits)
    with free inv show "\<exists>s'. reserve_slot o1 x s = Ok ((), s') \<and> al_inv s' \<and> al_supported s' = al_supported s \<and>
        slot_owner s' = (slot_owner s)(x := Some o1)"
      using al_inv_update [OF inv al_cell_in_range(1) [OF inv i]] slot_owner_update [OF inv i]
      by (auto simp: reserve_slot_def carrier_idx_def slot_idx_def slot_owner_def al_supported_def fun_eq_iff)
  next
    assume "\<not> al_supported s x \<or> slot_owner s x \<noteq> None"
    then show "\<exists>e. reserve_slot o1 x s = Err e"
      by (auto simp: reserve_slot_def carrier_idx_def slot_idx_def slot_owner_def al_supported_def split: option.splits)
  next
    assume own: "slot_owner s x = Some o1"
    then obtain i where i: "position (cs_carrier_num x) (al_carriers s) = Some i" "slot_supported_for_carrier i (cs_ts x)"
      by (auto simp: slot_owner_def carrier_idx_def slot_idx_def split: option.splits if_splits)
    with own show "\<exists>s'. release_slot o1 x s = Ok ((), s') \<and> al_inv s' \<and> al_supported s' = al_supported s \<and>
        slot_owner s' = (slot_owner s)(x := None)"
      using al_inv_update [OF inv al_cell_in_range(1) [OF inv i]] slot_owner_update [OF inv i]
      by (auto simp: release_slot_def carrier_idx_def slot_idx_def slot_owner_def al_supported_def fun_eq_iff)
    from i show "al_supported s x" by (simp add: al_supported_def)
  next
    assume "slot_owner s x \<noteq> Some o1"
    then show "\<exists>e. release_slot o1 x s = Err e"
      by (auto simp: release_slot_def carrier_idx_def slot_idx_def slot_owner_def al_supported_def split: option.splits)
  }
qed

section \<open>Allocating any free slot\<close>

lemma allocate_in_row_None:
  "allocate_in_row own tss row = None \<Longrightarrow> ts \<in> set tss \<Longrightarrow> row ! (unat ts - 1) \<noteq> None"
  by (induction tss) (auto split: if_splits)

lemma allocate_in_row_Some:
  "allocate_in_row own tss row = Some (ts, row') \<Longrightarrow>
     ts \<in> set tss \<and> row ! (unat ts - 1) = None \<and> row' = row[unat ts - 1 := Some own]"
  by (induction tss) (auto split: if_splits)

lemma ts_range_supported: "ts \<in> set (ts_range i) \<longleftrightarrow> slot_supported_for_carrier i ts"
proof -
  have two: "2 \<le> ts \<and> ts \<le> 4 \<longleftrightarrow> ts \<in> {2, 3, 4}"
    by (auto simp: word_le_nat_alt word_unat_eq_iff)
  have one: "1 \<le> ts \<and> ts \<le> 4 \<longleftrightarrow> ts \<in> {1, 2, 3, 4}"
    by (auto simp: word_le_nat_alt word_unat_eq_iff)
  show ?thesis using one two by (simp add: slot_supported_for_carrier_def ts_range_def)
qed

lemma allocate_in_rows_None:
  assumes "allocate_in_rows own k rows = None" and "i < length rows" and "slot_supported_for_carrier (k + i) ts"
  shows "rows ! i ! (unat ts - 1) \<noteq> None"
  using assms
proof (induction rows arbitrary: k i)
  case (Cons row rows)
  then have "allocate_in_row own (ts_range k) row = None" "allocate_in_rows own (Suc k) rows = None"
    by (auto split: option.splits)
  then show ?case using Cons allocate_in_row_None [of own "ts_range k" row ts]
    by (cases i) (auto simp: ts_range_supported)
qed simp

lemma allocate_in_rows_Some:
  assumes "allocate_in_rows own k rows = Some (j, ts, rows')"
  shows "\<exists>i < length rows. j = k + i \<and> slot_supported_for_carrier j ts \<and>
       rows ! i ! (unat ts - 1) = None \<and> rows' = rows[i := (rows ! i)[unat ts - 1 := Some own]]"
  using assms
proof (induction rows arbitrary: k rows')
  case (Cons row rows)
  show ?case
  proof (cases "allocate_in_row own (ts_range k) row")
    case (Some q)
    then obtain row' where "allocate_in_row own (ts_range k) row = Some (ts, row')" "j = k" "rows' = row' # rows"
      using Cons.prems by (cases q) auto
    with allocate_in_row_Some [OF this(1)] show ?thesis
      by (intro exI [of _ 0]) (simp add: ts_range_supported)
  next
    case None
    with Cons.prems obtain rows'' where "allocate_in_rows own (Suc k) rows = Some (j, ts, rows'')" "rows' = row # rows''"
      by auto
    with Cons.IH [OF this(1)] obtain i where "i < length rows" "j = Suc k + i" "slot_supported_for_carrier j ts"
      "rows ! i ! (unat ts - 1) = None" "rows' = row # rows[i := (rows ! i)[unat ts - 1 := Some own]]" by auto
    then show ?thesis by (intro exI [of _ "Suc i"]) simp
  qed
qed simp

text \<open>\<open>allocate_any_slot\<close> is \<open>reserve_slot\<close> on a slot it chose, and it fails only when every supported slot is owned.\<close>

lemma allocate_any_slot_Some:
  assumes "al_inv a" and "allocate_any_slot own a = (Some slot, a')"
  shows "al_supported a slot" and "slot_owner a slot = None" and "reserve_slot own slot a = Ok ((), a')"
proof -
  from assms(2) obtain i ts rows where r: "allocate_in_rows own 0 (al_owners a) = Some (i, ts, rows)"
    "slot = \<lparr>cs_carrier_num = al_carriers a ! i, cs_ts = ts\<rparr>" "a' = a\<lparr>al_owners := rows\<rparr>"
    by (auto simp: allocate_any_slot_def split: option.splits prod.splits)
  from allocate_in_rows_Some [OF r(1)]
  have c: "i < length (al_owners a)" "slot_supported_for_carrier i ts" "al_owners a ! i ! (unat ts - 1) = None"
    "rows = (al_owners a)[i := (al_owners a ! i)[unat ts - 1 := Some own]]" by auto
  have p: "position (cs_carrier_num slot) (al_carriers a) = Some i"
    using assms(1) c(1) r(2) by (simp add: al_inv_def position_nth)
  show "al_supported a slot" using p c(2) r(2) by (simp add: al_supported_def)
  show "slot_owner a slot = None" and "reserve_slot own slot a = Ok ((), a')"
    using p c r(2,3) supported_ts(2) [OF c(2)]
    by (simp_all add: slot_owner_def reserve_slot_def carrier_idx_def slot_idx_def)
qed

lemma allocate_any_slot_None:
  assumes "al_inv a" and "allocate_any_slot own a = (None, a')"
  shows "a' = a" and "al_supported a slot \<Longrightarrow> slot_owner a slot \<noteq> None"
proof -
  from assms(2) have n: "allocate_in_rows own 0 (al_owners a) = None" "a' = a"
    by (auto simp: allocate_any_slot_def split: option.splits prod.splits)
  then show "a' = a" by simp
  assume "al_supported a slot"
  then obtain i where i: "position (cs_carrier_num slot) (al_carriers a) = Some i" "slot_supported_for_carrier i (cs_ts slot)"
    by (auto simp: al_supported_def split: option.splits)
  from allocate_in_rows_None [OF n(1) al_cell_in_range(1) [OF assms(1) i]] i(2)
  have "al_owners a ! i ! (unat (cs_ts slot) - 1) \<noteq> None" by simp
  then show "slot_owner a slot \<noteq> None"
    using i supported_ts(2) [OF i(2)] by (simp add: slot_owner_def carrier_idx_def slot_idx_def)
qed

section \<open>Reconfiguring the carriers\<close>

lemma dedup_carriers_set: "set (dedup_carriers acc cs) = set acc \<union> set cs"
  by (induction acc cs rule: dedup_carriers.induct) auto

lemma dedup_carriers_distinct: "distinct acc \<Longrightarrow> distinct (dedup_carriers acc cs)"
  by (induction acc cs rule: dedup_carriers.induct) auto

lemma copy_owner_rows_length: "length (copy_owner_rows nc cs rs os) = length os"
  by (induction nc cs rs os rule: copy_owner_rows.induct) (auto split: option.splits)

lemma copy_owner_rows_set: "set (copy_owner_rows nc cs rs os) \<subseteq> set rs \<union> set os"
proof (induction nc cs rs os rule: copy_owner_rows.induct)
  case (1 nc c cs r rs os)
  then show ?case by (force split: option.splits dest: subsetD [OF set_update_subset_insert])
qed auto

lemma copy_owner_rows_nth:
  assumes "distinct cs" and "length rs = length cs" and "length os = length nc" and "distinct nc" and "i < length nc"
  shows "copy_owner_rows nc cs rs os ! i = (case position (nc ! i) cs of Some k \<Rightarrow> rs ! k | None \<Rightarrow> os ! i)"
  using assms
proof (induction nc cs rs os rule: copy_owner_rows.induct)
  case (1 nc c cs r rs os)
  let ?os = "case position c nc of Some new_i \<Rightarrow> os[new_i := r] | None \<Rightarrow> os"
  have l: "length ?os = length nc" using 1 by (simp split: option.split)
  show ?case
  proof (cases "nc ! i = c")
    case True
    then have "position c nc = Some i" using position_nth [of nc i] 1 by simp
    moreover have "position c cs = None" using 1 by (simp add: position_None)
    ultimately show ?thesis using 1 True by simp
  next
    case False
    then have "?os ! i = os ! i" using 1 by (auto split: option.split dest!: position_Some simp: nth_list_update)
    moreover have "copy_owner_rows nc (c # cs) (r # rs) os ! i = (case position (nc ! i) cs of Some k \<Rightarrow> rs ! k | None \<Rightarrow> ?os ! i)"
      using 1 l by simp
    ultimately show ?thesis using False by (simp split: option.split)
  qed
qed auto

lemma configure_carriers_inv:
  assumes "al_inv a"
  shows "al_inv (configure_carriers cs a)"
proof -
  let ?nc = "al_carriers (configure_carriers cs a)"
  have "?nc \<noteq> [] \<and> distinct ?nc" by (simp add: configure_carriers_def Let_def dedup_carriers_distinct)
  moreover have "length row = 4" if "row \<in> set (al_owners (configure_carriers cs a))" for row
  proof -
    from that have "row \<in> set (al_owners a) \<union> {[None, None, None, None]}"
      by (auto simp: configure_carriers_def Let_def dest!: subsetD [OF copy_owner_rows_set])
    then show ?thesis using assms by (auto simp: al_inv_def)
  qed
  moreover have "length (al_owners (configure_carriers cs a)) = length ?nc"
    by (simp add: configure_carriers_def Let_def copy_owner_rows_length)
  ultimately show ?thesis by (simp add: al_inv_def)
qed

lemma configure_carriers_set:
  "set (al_carriers (configure_carriers cs a)) = (if cs = [] then {0} else set cs)"
proof (cases "dedup_carriers [] cs = []")
  case True
  then have "cs = []" using dedup_carriers_set [of "[]" cs] by simp
  with True show ?thesis by (simp add: configure_carriers_def Let_def)
next
  case False
  then have "cs \<noteq> []" by (cases cs) auto
  with False show ?thesis using dedup_carriers_set [of "[]" cs] by (simp add: configure_carriers_def Let_def)
qed

text \<open>A slot that stays supported keeps its owner: nobody loses or gains a slot by a reconfiguration.\<close>

lemma configure_carriers_owner:
  assumes "al_inv a" and "al_supported a slot" and "al_supported (configure_carriers cs a) slot"
  shows "slot_owner (configure_carriers cs a) slot = slot_owner a slot"
proof -
  let ?b = "configure_carriers cs a"
  from assms(2) obtain k where k: "position (cs_carrier_num slot) (al_carriers a) = Some k" "slot_supported_for_carrier k (cs_ts slot)"
    by (auto simp: al_supported_def split: option.splits)
  from assms(3) obtain i where i: "position (cs_carrier_num slot) (al_carriers ?b) = Some i" "slot_supported_for_carrier i (cs_ts slot)"
    by (auto simp: al_supported_def split: option.splits)
  note ib = position_Some [OF i(1)]
  let ?fresh = "replicate (length (al_carriers ?b)) [None, None, None, None]"
  have "al_owners ?b = copy_owner_rows (al_carriers ?b) (al_carriers a) (al_owners a) ?fresh"
    by (simp add: configure_carriers_def Let_def)
  moreover have "distinct (al_carriers a)" "length (al_owners a) = length (al_carriers a)" "distinct (al_carriers ?b)"
    using assms(1) configure_carriers_inv [OF assms(1), of cs] by (auto simp: al_inv_def)
  ultimately have "al_owners ?b ! i = al_owners a ! k"
    using copy_owner_rows_nth [of "al_carriers a" "al_owners a" ?fresh "al_carriers ?b" i] ib k(1) by simp
  then show ?thesis using i k by (simp add: slot_owner_def carrier_idx_def slot_idx_def)
qed

end
