(* ===== verification/Tx_Reporter.thy ===== *)
theory Tx_Reporter
  imports Prelude
begin

text \<open>
  \<open>tetra-core/src/tx_receipt.rs\<close>: the transmit receipt that travels with a PDU through the stack. The clones of
  a reporter share one atomic byte; the model passes that byte along in the record, with a number for the cell that holds it. The transitions are an
  inductive step relation; the lemmas say which states are reachable and that the final states of
  \<open>is_in_final_state\<close> are exactly the states without a transition.
\<close>

section \<open>State and operations\<close>

datatype TxState = Pending | Discarded | Transmitted | Lost | Acknowledged

fun TxState_as_u8 :: "TxState \<Rightarrow> u8" where
  "TxState_as_u8 Pending = 0"
| "TxState_as_u8 Discarded = 1"
| "TxState_as_u8 Transmitted = 2"
| "TxState_as_u8 Lost = 3"
| "TxState_as_u8 Acknowledged = 4"

definition TxState_from_raw :: "u8 \<Rightarrow> TxState" where
  "TxState_from_raw v =
     (if v = 0 then Pending else if v = 1 then Discarded else if v = 2 then Transmitted
      else if v = 3 then Lost else Acknowledged)"

record TxReporter =
  expects_ack :: bool
  tx_cell :: nat
  tx_state :: u8

text \<open>A new reporter allocates a new cell; its number is the argument.\<close>

definition TxReporter_new :: "nat \<Rightarrow> TxReporter" where
  "TxReporter_new cell = \<lparr>expects_ack = True, tx_cell = cell, tx_state = TxState_as_u8 Pending\<rparr>"

definition TxReporter_new_unacked :: "nat \<Rightarrow> TxReporter" where
  "TxReporter_new_unacked cell = (TxReporter_new cell)\<lparr>expects_ack := False\<rparr>"

definition get_state :: "TxReporter \<Rightarrow> TxState" where
  "get_state r = TxState_from_raw (tx_state r)"

definition is_discarded :: "TxReporter \<Rightarrow> bool" where
  "is_discarded r = (tx_state r = TxState_as_u8 Discarded)"

definition is_transmitted :: "TxReporter \<Rightarrow> bool" where
  "is_transmitted r = (TxState_as_u8 Transmitted \<le> tx_state r)"

definition is_acknowledged :: "TxReporter \<Rightarrow> bool" where
  "is_acknowledged r = (TxState_as_u8 Acknowledged \<le> tx_state r)"

definition is_in_final_state :: "TxReporter \<Rightarrow> bool" where
  "is_in_final_state r =
     (case get_state r of
        Pending \<Rightarrow> False | Discarded \<Rightarrow> True | Transmitted \<Rightarrow> \<not> expects_ack r | Lost \<Rightarrow> True | Acknowledged \<Rightarrow> True)"

text \<open>\<open>compare_exchange\<close>, with the panic when the actual state differs.\<close>

definition mark :: "TxState \<Rightarrow> TxState \<Rightarrow> (TxReporter, 'e, unit) prog" where
  "mark curr_state new_state r =
     (if tx_state r = TxState_as_u8 curr_state then Ok ((), r\<lparr>tx_state := TxState_as_u8 new_state\<rparr>) else Panic)"

definition mark_unchecked :: "TxState \<Rightarrow> (TxReporter, 'e, unit) prog" where
  "mark_unchecked new_state r = Ok ((), r\<lparr>tx_state := TxState_as_u8 new_state\<rparr>)"

definition mark_transmitted :: "(TxReporter, 'e, unit) prog" where
  "mark_transmitted = mark Pending Transmitted"

definition mark_discarded :: "(TxReporter, 'e, unit) prog" where
  "mark_discarded = mark Pending Discarded"

definition mark_acknowledged :: "(TxReporter, 'e, unit) prog" where
  "mark_acknowledged = bind (gets expects_ack) (\<lambda>ack. bind (guard ack) (\<lambda>_. mark Transmitted Acknowledged))"

definition mark_lost :: "(TxReporter, 'e, unit) prog" where
  "mark_lost = bind (gets expects_ack) (\<lambda>ack. bind (guard ack) (\<lambda>_. mark Transmitted Lost))"

definition reset :: "(TxReporter, 'e, unit) prog" where
  "reset = mark_unchecked Pending"

section \<open>The state machine\<close>

datatype tx_event = Ev_transmitted | Ev_discarded | Ev_acknowledged | Ev_lost

fun tx_mark :: "tx_event \<Rightarrow> (TxReporter, 'e, unit) prog" where
  "tx_mark Ev_transmitted = mark_transmitted"
| "tx_mark Ev_discarded = mark_discarded"
| "tx_mark Ev_acknowledged = mark_acknowledged"
| "tx_mark Ev_lost = mark_lost"

text \<open>The transitions that the comment of the source draws, as an independent specification.\<close>

inductive tx_spec :: "bool \<Rightarrow> TxState \<Rightarrow> tx_event \<Rightarrow> TxState \<Rightarrow> bool" where
  "tx_spec ack Pending Ev_transmitted Transmitted"
| "tx_spec ack Pending Ev_discarded Discarded"
| "tx_spec True Transmitted Ev_acknowledged Acknowledged"
| "tx_spec True Transmitted Ev_lost Lost"

inductive_simps tx_spec_simps: "tx_spec ack s ev s'"

inductive tx_reach :: "TxReporter \<Rightarrow> TxReporter \<Rightarrow> nat \<Rightarrow> bool" where
  tx_start: "tx_reach r r 0"
| tx_step: "tx_reach r s n \<Longrightarrow> tx_mark ev s = (Ok ((), s') :: (unit, unit \<times> TxReporter) outcome) \<Longrightarrow> tx_reach r s' (Suc n)"

definition tx_valid :: "TxReporter \<Rightarrow> bool" where
  "tx_valid r \<longleftrightarrow> (\<exists>s. tx_state r = TxState_as_u8 s)"

lemma from_raw_as_u8 [simp]: "TxState_from_raw (TxState_as_u8 s) = s"
  by (cases s) (simp_all add: TxState_from_raw_def)

lemma as_u8_inj [simp]: "TxState_as_u8 s = TxState_as_u8 t \<longleftrightarrow> s = t"
  by (metis from_raw_as_u8)

declare TxState_as_u8.simps [simp del]

lemma get_state_update [simp]: "get_state (r\<lparr>tx_state := TxState_as_u8 s\<rparr>) = s"
  by (simp add: get_state_def)

lemma get_state_new [simp]: "get_state (TxReporter_new c) = Pending" "get_state (TxReporter_new_unacked c) = Pending"
  by (simp_all add: get_state_def TxReporter_new_def TxReporter_new_unacked_def)

lemma tx_valid_new [simp]: "tx_valid (TxReporter_new c)" "tx_valid (TxReporter_new_unacked c)"
  by (auto simp: tx_valid_def TxReporter_new_def TxReporter_new_unacked_def)

lemma tx_validE:
  assumes "tx_valid r"
  obtains ack c s where "r = \<lparr>expects_ack = ack, tx_cell = c, tx_state = TxState_as_u8 s\<rparr>" "get_state r = s"
  using assms by (cases r) (auto simp: tx_valid_def get_state_def)

lemmas mark_defs = mark_transmitted_def mark_discarded_def mark_acknowledged_def mark_lost_def mark_def
  gets_def bind_def guard_def ret_def panic_def

text \<open>A \<open>mark_*\<close> call succeeds exactly when the drawn transition exists, and then takes it; otherwise it panics.\<close>

lemma tx_mark_refines:
  assumes "tx_valid r"
  shows "tx_mark ev r = Ok ((), r') \<longleftrightarrow>
      (\<exists>s'. tx_spec (expects_ack r) (get_state r) ev s' \<and> r' = r\<lparr>tx_state := TxState_as_u8 s'\<rparr>)"
    and "tx_mark ev r = Panic \<longleftrightarrow> \<not> (\<exists>s'. tx_spec (expects_ack r) (get_state r) ev s')"
proof -
  from assms obtain ack c s where r: "r = \<lparr>expects_ack = ack, tx_cell = c, tx_state = TxState_as_u8 s\<rparr>" "get_state r = s" by (rule tx_validE)
  show "tx_mark ev r = Ok ((), r') \<longleftrightarrow>
      (\<exists>s'. tx_spec (expects_ack r) (get_state r) ev s' \<and> r' = r\<lparr>tx_state := TxState_as_u8 s'\<rparr>)"
    unfolding r(2) using r(1) by (cases ev; cases s) (auto simp: mark_defs tx_spec_simps)
  show "tx_mark ev r = Panic \<longleftrightarrow> \<not> (\<exists>s'. tx_spec (expects_ack r) (get_state r) ev s')"
    unfolding r(2) using r(1) by (cases ev; cases s) (auto simp: mark_defs tx_spec_simps)
qed

lemma tx_step_valid: "tx_valid r \<Longrightarrow> tx_mark ev r = Ok ((), r') \<Longrightarrow> tx_valid r' \<and> expects_ack r' = expects_ack r"
  by (auto simp: tx_mark_refines tx_valid_def)

lemma final_iff_stuck:
  assumes "tx_valid r"
  shows "is_in_final_state r \<longleftrightarrow> (\<forall>ev. tx_mark ev r = Panic)"
  using assms
  by (cases "get_state r") (auto simp: is_in_final_state_def tx_mark_refines tx_spec_simps)

lemma tx_reach_inv:
  assumes "tx_reach r s n" and "tx_valid r"
  shows "tx_valid s" and "expects_ack s = expects_ack r"
  using assms by (induction) (auto dest: tx_step_valid)

text \<open>How many transitions lie behind a state.\<close>

fun tx_depth :: "TxState \<Rightarrow> nat" where
  "tx_depth Pending = 0"
| "tx_depth Discarded = 1"
| "tx_depth Transmitted = 1"
| "tx_depth Lost = 2"
| "tx_depth Acknowledged = 2"

lemma tx_reach_depth:
  assumes "tx_reach r s n" and "r = TxReporter_new c \<or> r = TxReporter_new_unacked c"
  shows "n = tx_depth (get_state s) \<and> (expects_ack s \<or> get_state s \<in> {Pending, Discarded, Transmitted})"
  using assms
proof induction
  case tx_start
  then show ?case by auto
next
  case (tx_step r s n ev s')
  then have "tx_valid s" using tx_reach_inv(1) [OF tx_step.hyps(1)] by auto
  then show ?case using tx_step by (auto simp: tx_mark_refines tx_spec_simps)
qed

lemma reset_pending: "\<exists>r'. reset r = Ok ((), r') \<and> get_state r' = Pending \<and> expects_ack r' = expects_ack r"
  by (simp add: reset_def mark_unchecked_def)

end
