(* ===== verification/BitBuffer.thy ===== *)
theory BitBuffer
  imports Prelude
begin

text \<open>
  \<open>tetra-core/src/bitbuffer.rs\<close>: a byte vector read and written bit by bit through a window
  \<open>[start, end)\<close> with a cursor \<open>pos\<close>. Every PDU codec of the stack is written against it. The
  byte-wise algorithms (head bits, whole bytes, tail bits) are modelled as they are; the
  section on refinement proves that they implement reading and overwriting of the bit string
  that the bytes spell.

  \<open>usize\<close> positions are \<open>nat\<close>, with the overflow test of \<open>checked_add\<close> written out at 64 bits.
  Subtractions such as \<open>pos - start\<close> do not underflow on a buffer satisfying \<open>bb_inv\<close>, which every
  operation keeps. An index past the vector is a panic.
\<close>

section \<open>Parse errors\<close>

datatype pdu_parse_err =
    InvalidPduType u64 u64
  | BufferEnded "string option"
  | InvalidTrailingMbitValue
  | InvalidElemId u64
  | FieldNotPresent "string option"
  | InvalidValue string u64
  | InconsistentLength nat nat
  | Inconsistency string string
  | NotImplemented "string option"

section \<open>State\<close>

record bitbuffer =
  bb_buffer :: "u8 list"
  bb_start :: nat
  bb_pos :: nat
  bb_end :: nat
  bb_autoexpand :: bool

type_synonym 'a bb = "(bitbuffer, pdu_parse_err, 'a) prog"

definition div_ceil8 :: "nat \<Rightarrow> nat" where
  "div_ceil8 n = (n + 7) div 8"

definition checked_add :: "nat \<Rightarrow> nat \<Rightarrow> nat option" where
  "checked_add a b = (if a + b < 2 ^ 64 then Some (a + b) else None)"

definition checked_add_signed :: "nat \<Rightarrow> int \<Rightarrow> nat option" where
  "checked_add_signed a d = (if 0 \<le> int a + d \<and> int a + d < 2 ^ 64 then Some (nat (int a + d)) else None)"

section \<open>Construction\<close>

definition BitBuffer_new :: "nat \<Rightarrow> bitbuffer" where
  "BitBuffer_new len_bits =
     \<lparr>bb_buffer = replicate (div_ceil8 len_bits) 0, bb_start = 0, bb_pos = 0, bb_end = len_bits,
      bb_autoexpand = False\<rparr>"

definition new_autoexpand :: "nat \<Rightarrow> bitbuffer" where
  "new_autoexpand initial_max_len_bits =
     \<lparr>bb_buffer = replicate (div_ceil8 initial_max_len_bits) 0, bb_start = 0, bb_pos = 0, bb_end = 0,
      bb_autoexpand = True\<rparr>"

definition from_vec :: "u8 list \<Rightarrow> bitbuffer" where
  "from_vec data =
     \<lparr>bb_buffer = data, bb_start = 0, bb_pos = 0, bb_end = length data * 8, bb_autoexpand = False\<rparr>"

definition from_bytes :: "u8 list \<Rightarrow> bitbuffer" where
  "from_bytes data =
     \<lparr>bb_buffer = data, bb_start = 0, bb_pos = 0, bb_end = length data * 8, bb_autoexpand = False\<rparr>"

section \<open>Window arithmetic\<close>

definition get_len :: "bitbuffer \<Rightarrow> nat" where
  "get_len b = bb_end b - bb_start b"

definition get_len_remaining :: "bitbuffer \<Rightarrow> nat" where
  "get_len_remaining b = bb_end b - bb_pos b"

definition get_len_written :: "bitbuffer \<Rightarrow> nat" where
  "get_len_written b = bb_pos b - bb_start b"

definition get_pos :: "bitbuffer \<Rightarrow> nat" where
  "get_pos b = bb_pos b - bb_start b"

definition try_seek :: "nat \<Rightarrow> unit option bb" where
  "try_seek offset b =
     (case checked_add (bb_start b) offset of
        None \<Rightarrow> Ok (None, b)
      | Some p \<Rightarrow> if p > bb_end b then Ok (None, b) else Ok (Some (), b\<lparr>bb_pos := p\<rparr>))"

definition seek :: "nat \<Rightarrow> unit bb" where
  "seek offset = bind (try_seek offset) (\<lambda>r. guard (r \<noteq> None))"

definition try_seek_rel :: "int \<Rightarrow> unit option bb" where
  "try_seek_rel offset b =
     (case checked_add_signed (bb_pos b) offset of
        None \<Rightarrow> Ok (None, b)
      | Some new_pos \<Rightarrow>
          if new_pos < bb_start b \<or> new_pos > bb_end b then Ok (None, b)
          else Ok (Some (), b\<lparr>bb_pos := new_pos\<rparr>))"

definition seek_rel :: "int \<Rightarrow> unit bb" where
  "seek_rel offset = bind (try_seek_rel offset) (\<lambda>r. guard (r \<noteq> None))"

definition set_raw_start :: "nat \<Rightarrow> unit bb" where
  "set_raw_start s b = (if s \<le> bb_end b \<and> s \<le> bb_pos b then Ok ((), b\<lparr>bb_start := s\<rparr>) else Panic)"

definition set_raw_end :: "nat \<Rightarrow> unit bb" where
  "set_raw_end e b =
     (if e \<le> length (bb_buffer b) * 8 \<and> bb_start b \<le> e \<and> bb_pos b \<le> e
      then Ok ((), b\<lparr>bb_end := e\<rparr>) else Panic)"

definition set_raw_pos :: "nat \<Rightarrow> unit bb" where
  "set_raw_pos p b = (if bb_start b \<le> p \<and> p \<le> bb_end b then Ok ((), b\<lparr>bb_pos := p\<rparr>) else Panic)"

section \<open>Reading\<close>

text \<open>The whole-byte loop of \<open>read_bits_at_unchecked\<close>: cursor, bits left and accumulated result.\<close>

fun read_full_bytes :: "u8 list \<Rightarrow> nat \<Rightarrow> nat \<Rightarrow> u64 \<Rightarrow> (pdu_parse_err, nat \<times> nat \<times> u64) outcome" where
  "read_full_bytes buf bit_pos bits_remaining result =
     (if 8 \<le> bits_remaining then
        if bit_pos div 8 < length buf then
          read_full_bytes buf (bit_pos + 8) (bits_remaining - 8)
            (push_bit 8 result OR ucast (buf ! (bit_pos div 8)))
        else Panic
      else Ok (bit_pos, bits_remaining, result))"

text \<open>The tail loop shifts the \<open>n\<close> top bits of the last byte in, one at a time.\<close>

fun read_tail_bits :: "u8 \<Rightarrow> nat \<Rightarrow> nat \<Rightarrow> nat \<Rightarrow> u64 \<Rightarrow> u64" where
  "read_tail_bits byte off i 0 result = result"
| "read_tail_bits byte off i (Suc n) result =
     read_tail_bits byte off (Suc i) n
       (push_bit 1 result OR ucast (drop_bit (7 - (off + i)) byte AND 1))"

text \<open>Steps 2 and 3 of \<open>read_bits_at_unchecked\<close>: whole bytes, then the tail bits.\<close>

definition read_aligned :: "u8 list \<Rightarrow> nat \<Rightarrow> nat \<Rightarrow> u64 \<Rightarrow> (pdu_parse_err, u64) outcome" where
  "read_aligned buf bit_pos bits_remaining result =
     (case read_full_bytes buf bit_pos bits_remaining result of
        Panic \<Rightarrow> Panic
      | Err e \<Rightarrow> Err e
      | Ok (bit_pos, bits_remaining, result) \<Rightarrow>
          if 0 < bits_remaining then
            if bit_pos div 8 < length buf
            then Ok (read_tail_bits (buf ! (bit_pos div 8)) (bit_pos mod 8) 0 bits_remaining result)
            else Panic
          else Ok result)"

definition read_bits_at_unchecked :: "u8 list \<Rightarrow> nat \<Rightarrow> nat \<Rightarrow> (pdu_parse_err, u64) outcome" where
  "read_bits_at_unchecked buf bit_pos num_bits =
     (let head = bit_pos mod 8
      in if head \<noteq> 0 \<and> 0 < num_bits then
           let n = min (8 - head) num_bits
           in if bit_pos div 8 < length buf
              then read_aligned buf (bit_pos + n) (num_bits - n)
                     (ucast (drop_bit (8 - head - n) (buf ! (bit_pos div 8)) AND (push_bit n 1 - 1)))
              else Panic
         else read_aligned buf bit_pos num_bits 0)"

definition read_bit_at_unchecked :: "u8 list \<Rightarrow> nat \<Rightarrow> (pdu_parse_err, u8) outcome" where
  "read_bit_at_unchecked buf bit_pos =
     (if bit_pos div 8 < length buf
      then Ok (drop_bit (7 - bit_pos mod 8) (buf ! (bit_pos div 8)) AND 1) else Panic)"

definition peek_bits_startoffset :: "nat \<Rightarrow> nat \<Rightarrow> u64 option bb" where
  "peek_bits_startoffset offset num_bits b =
     (case checked_add (bb_start b) offset of
        None \<Rightarrow> Ok (None, b)
      | Some abs_pos \<Rightarrow>
          if num_bits > 64 then Ok (None, b)
          else case checked_add abs_pos num_bits of
            None \<Rightarrow> Ok (None, b)
          | Some e \<Rightarrow>
              if e > bb_end b then Ok (None, b)
              else case read_bits_at_unchecked (bb_buffer b) abs_pos num_bits of
                Ok v \<Rightarrow> Ok (Some v, b) | Err e \<Rightarrow> Err e | Panic \<Rightarrow> Panic)"

definition peek_bits_posoffset :: "int \<Rightarrow> nat \<Rightarrow> u64 option bb" where
  "peek_bits_posoffset offset num_bits b =
     (case checked_add_signed (bb_pos b - bb_start b) offset of
        None \<Rightarrow> Ok (None, b)
      | Some start_offset \<Rightarrow> peek_bits_startoffset start_offset num_bits b)"

definition peek_bits :: "nat \<Rightarrow> u64 option bb" where
  "peek_bits num_bits = peek_bits_posoffset 0 num_bits"

definition read_bits :: "nat \<Rightarrow> u64 option bb" where
  "read_bits num_bits b =
     (case peek_bits_startoffset (bb_pos b - bb_start b) num_bits b of
        Ok (Some v, b) \<Rightarrow> Ok (Some v, b\<lparr>bb_pos := bb_pos b + num_bits\<rparr>)
      | Ok (None, b) \<Rightarrow> Ok (None, b)
      | Err e \<Rightarrow> Err e
      | Panic \<Rightarrow> Panic)"

definition read_field :: "nat \<Rightarrow> string \<Rightarrow> u64 bb" where
  "read_field num_bits error_string =
     bind (read_bits num_bits)
       (\<lambda>r. case r of Some v \<Rightarrow> ret v | None \<Rightarrow> fail (BufferEnded (Some error_string)))"

definition read_bit :: "u8 option bb" where
  "read_bit b =
     (case peek_bits_startoffset (bb_pos b - bb_start b) 1 b of
        Ok (Some v, b) \<Rightarrow> Ok (Some (ucast v), b\<lparr>bb_pos := bb_pos b + 1\<rparr>)
      | Ok (None, b) \<Rightarrow> Ok (None, b)
      | Err e \<Rightarrow> Err e
      | Panic \<Rightarrow> Panic)"

section \<open>Writing\<close>

definition realloc_tail :: "nat \<Rightarrow> unit bb" where
  "realloc_tail new_cap_bits b =
     (let new_cap_bytes = div_ceil8 new_cap_bits
      in if length (bb_buffer b) \<le> new_cap_bytes
         then Ok ((), b\<lparr>bb_buffer := bb_buffer b @ replicate (new_cap_bytes - length (bb_buffer b)) 0\<rparr>)
         else Panic)"

definition move_end :: "nat \<Rightarrow> unit bb" where
  "move_end needed_extra_bits b =
     (let free_cap_bits = length (bb_buffer b) * 8 - bb_end b;
          needed_total_bits = bb_end b + needed_extra_bits;
          grown = (if needed_extra_bits > free_cap_bits
                   then realloc_tail (max needed_total_bits (length (bb_buffer b) * 8 * 2))
                   else ret ())
      in bind grown (\<lambda>_ b. Ok ((), b\<lparr>bb_end := bb_end b + needed_extra_bits\<rparr>)) b)"

text \<open>\<open>*byte = (*byte & !mask) | (bits << shift)\<close>: put the low \<open>h\<close> bits of \<open>w\<close> at offset \<open>off\<close> of a byte.\<close>

definition put_in_byte :: "u8 \<Rightarrow> nat \<Rightarrow> nat \<Rightarrow> u8 \<Rightarrow> u8" where
  "put_in_byte byte off h w =
     (let shift = 8 - (off + h);
          mask = push_bit shift (push_bit h 1 - 1)
      in (byte AND NOT mask) OR push_bit shift (w AND (push_bit h 1 - 1)))"

fun write_full_bytes :: "u8 list \<Rightarrow> nat \<Rightarrow> nat \<Rightarrow> u64 \<Rightarrow> (pdu_parse_err, u8 list \<times> nat \<times> nat) outcome" where
  "write_full_bytes buf cur remaining v =
     (if 8 \<le> remaining then
        if cur div 8 < length buf then
          write_full_bytes (buf[cur div 8 := ucast (drop_bit (remaining - 8) v AND 0xFF)])
            (cur + 8) (remaining - 8) v
        else Panic
      else Ok (buf, cur, remaining))"

text \<open>Steps 2 and 3 of \<open>write_bits\<close>: whole bytes, then the tail bits.\<close>

definition write_aligned :: "u8 list \<Rightarrow> nat \<Rightarrow> nat \<Rightarrow> u64 \<Rightarrow> (pdu_parse_err, u8 list) outcome" where
  "write_aligned buf cur remaining v =
     (case write_full_bytes buf cur remaining v of
        Panic \<Rightarrow> Panic
      | Err e \<Rightarrow> Err e
      | Ok (buf, cur, remaining) \<Rightarrow>
          if 0 < remaining then
            if cur div 8 < length buf
            then Ok (buf[cur div 8 := put_in_byte (buf ! (cur div 8)) (cur mod 8) remaining (ucast v)])
            else Panic
          else Ok buf)"

definition write_bits_at :: "u8 list \<Rightarrow> nat \<Rightarrow> nat \<Rightarrow> u64 \<Rightarrow> (pdu_parse_err, u8 list) outcome" where
  "write_bits_at buf cur remaining v =
     (let head_offset = cur mod 8
      in if head_offset \<noteq> 0 \<and> 0 < remaining then
           let h = min remaining (8 - head_offset)
           in if cur div 8 < length buf
              then write_aligned
                     (buf[cur div 8 := put_in_byte (buf ! (cur div 8)) head_offset h
                            (ucast (drop_bit (remaining - h) v))])
                     (cur + h) (remaining - h) v
              else Panic
         else write_aligned buf cur remaining v)"

definition write_bits :: "u64 \<Rightarrow> nat \<Rightarrow> unit bb" where
  "write_bits value num_bits =
     bind (guard (num_bits \<le> 64)) (\<lambda>_.
     bind (guard (num_bits = 64 \<or> drop_bit num_bits value = 0)) (\<lambda>_.
     bind (\<lambda>b. if bb_pos b + num_bits > bb_end b
               then (if bb_autoexpand b then move_end num_bits b else Panic)
               else Ok ((), b)) (\<lambda>_ b.
       let v = (if num_bits = 64 then value else value AND (push_bit num_bits 1 - 1))
       in case write_bits_at (bb_buffer b) (bb_pos b) num_bits v of
            Ok buf \<Rightarrow> Ok ((), b\<lparr>bb_buffer := buf, bb_pos := bb_pos b + num_bits\<rparr>)
          | Err e \<Rightarrow> Err e
          | Panic \<Rightarrow> Panic)))"

definition write_bit :: "u8 \<Rightarrow> unit bb" where
  "write_bit value =
     bind (guard (value = 0 \<or> value = 1)) (\<lambda>_.
     bind (\<lambda>b. if bb_pos b + 1 > bb_end b
               then (if bb_autoexpand b then move_end 1 b else Panic)
               else Ok ((), b)) (\<lambda>_ b.
       let index = bb_pos b div 8;
           sh = 7 - bb_pos b mod 8
       in if index < length (bb_buffer b)
          then Ok ((), b\<lparr>bb_buffer := (bb_buffer b)[index :=
                          ((bb_buffer b ! index) AND NOT (push_bit sh 1)) OR push_bit sh value],
                        bb_pos := bb_pos b + 1\<rparr>)
          else Panic))"

text \<open>The chunked loops of \<open>write_zeroes\<close> and \<open>write_ones\<close>.\<close>

function write_zeroes :: "nat \<Rightarrow> unit bb" where
  "write_zeroes bits_remaining =
     (if 0 < bits_remaining
      then bind (write_bits 0 (min bits_remaining 64)) (\<lambda>_. write_zeroes (bits_remaining - min bits_remaining 64))
      else ret ())"
  by pat_completeness auto
termination
  by (relation "measure id") auto

function write_ones :: "nat \<Rightarrow> unit bb" where
  "write_ones bits_remaining =
     (if 0 < bits_remaining
      then let chunk_size = min bits_remaining 64
           in bind (write_bits (drop_bit (64 - chunk_size) 0xFFFFFFFFFFFFFFFF) chunk_size)
                (\<lambda>_. write_ones (bits_remaining - chunk_size))
      else ret ())"
  by pat_completeness auto
termination
  by (relation "measure id") auto

declare write_zeroes.simps [simp del] write_ones.simps [simp del]

definition xor_bit :: "u8 \<Rightarrow> unit bb" where
  "xor_bit value b =
     (let index = bb_pos b div 8
      in if index < length (bb_buffer b)
         then Ok ((), b\<lparr>bb_buffer := (bb_buffer b)[index :=
                          (bb_buffer b ! index) XOR push_bit (7 - bb_pos b mod 8) value],
                       bb_pos := bb_pos b + 1\<rparr>)
         else Panic)"

section \<open>Bulk transfer\<close>

text \<open>
  \<open>try_to_bitarr\<close> fills a slice of \<open>num_bits\<close> bytes with one bit each, reading chunks of at most 64
  bits; the model returns the contents of the slice.
\<close>

function to_bitarr_loop :: "nat \<Rightarrow> u8 list \<Rightarrow> u8 list option bb" where
  "to_bitarr_loop bits_remaining out =
     (if 0 < bits_remaining then
        let bits_to_read = min bits_remaining 64
        in bind (read_bits bits_to_read) (\<lambda>r. case r of
             None \<Rightarrow> ret None
           | Some v \<Rightarrow> to_bitarr_loop (bits_remaining - bits_to_read)
               (out @ map (\<lambda>i. ucast (drop_bit (bits_to_read - 1 - i) v AND 1)) [0..<bits_to_read]))
      else ret (Some out))"
  by pat_completeness auto
termination
  by (relation "measure fst") auto

declare to_bitarr_loop.simps [simp del]

definition try_to_bitarr :: "nat \<Rightarrow> u8 list option bb" where
  "try_to_bitarr num_bits b =
     (if get_len_remaining b < num_bits then Ok (None, b) else to_bitarr_loop num_bits [] b)"

definition to_bitarr :: "nat \<Rightarrow> u8 list bb" where
  "to_bitarr num_bits = bind (try_to_bitarr num_bits) (\<lambda>r. case r of Some out \<Rightarrow> ret out | None \<Rightarrow> panic)"

text \<open>The per-bit read loops of \<open>to_bitstr\<close> and \<open>into_bitvec\<close> over a list of absolute positions.\<close>

primrec read_each :: "u8 list \<Rightarrow> nat list \<Rightarrow> (pdu_parse_err, u8 list) outcome" where
  "read_each buf [] = Ok []"
| "read_each buf (p # ps) =
     (case read_bit_at_unchecked buf p of
        Ok x \<Rightarrow> (case read_each buf ps of Ok xs \<Rightarrow> Ok (x # xs) | Err e \<Rightarrow> Err e | Panic \<Rightarrow> Panic)
      | Err e \<Rightarrow> Err e
      | Panic \<Rightarrow> Panic)"

definition to_bitstr :: "bitbuffer \<Rightarrow> (pdu_parse_err, string) outcome" where
  "to_bitstr b =
     (case read_each (bb_buffer b) (map (\<lambda>i. bb_start b + i) [0..<get_len b]) of
        Ok bits \<Rightarrow> Ok (map (\<lambda>bit. if bit = 1 then CHR ''1'' else CHR ''0'') bits)
      | Err e \<Rightarrow> Err e
      | Panic \<Rightarrow> Panic)"

definition into_bitvec :: "bitbuffer \<Rightarrow> (pdu_parse_err, u8 list) outcome" where
  "into_bitvec b = read_each (bb_buffer b) [0..<get_len b]"

definition into_bytes :: "bitbuffer \<Rightarrow> u8 list" where
  "into_bytes b = bb_buffer b"

primrec copy_bits_from_bitarr :: "u8 list \<Rightarrow> unit bb" where
  "copy_bits_from_bitarr [] = ret ()"
| "copy_bits_from_bitarr (x # xs) =
     bind (guard (x = 0 \<or> x = 1)) (\<lambda>_. bind (write_bit x) (\<lambda>_. copy_bits_from_bitarr xs))"

text \<open>\<open>copy_bits\<close> works on two buffers: the state is the pair (destination, source).\<close>

function copy_bits :: "nat \<Rightarrow> (bitbuffer \<times> bitbuffer, pdu_parse_err, unit) prog" where
  "copy_bits bits_remaining (dst, src) =
     (if 0 < bits_remaining then
        let bits_to_copy = min bits_remaining 64
        in if get_len_remaining src < bits_to_copy then Panic
           else case read_bits bits_to_copy src of
             Ok (Some v, src) \<Rightarrow>
               (case write_bits v bits_to_copy dst of
                  Ok (_, dst) \<Rightarrow> copy_bits (bits_remaining - bits_to_copy) (dst, src)
                | Err e \<Rightarrow> Err e
                | Panic \<Rightarrow> Panic)
           | Ok (None, src) \<Rightarrow> Panic
           | Err e \<Rightarrow> Err e
           | Panic \<Rightarrow> Panic
      else Ok ((), (dst, src)))"
  by pat_completeness auto
termination
  by (relation "measure fst") auto

declare copy_bits.simps [simp del]

definition from_bitarr :: "u8 list \<Rightarrow> (pdu_parse_err, bitbuffer) outcome" where
  "from_bitarr data =
     (case copy_bits_from_bitarr data (BitBuffer_new (length data)) of
        Ok (_, buf) \<Rightarrow> Ok (buf\<lparr>bb_pos := bb_start buf\<rparr>)
      | Err e \<Rightarrow> Err e
      | Panic \<Rightarrow> Panic)"

primrec write_bitstr :: "string \<Rightarrow> unit bb" where
  "write_bitstr [] = ret ()"
| "write_bitstr (c # cs) =
     bind (if c = CHR ''0'' then write_bit 0 else if c = CHR ''1'' then write_bit 1 else panic)
       (\<lambda>_. write_bitstr cs)"

definition from_bitstr :: "string \<Rightarrow> (pdu_parse_err, bitbuffer) outcome" where
  "from_bitstr bitstr =
     (case write_bitstr bitstr (BitBuffer_new (length bitstr)) of
        Ok (_, buf) \<Rightarrow> Ok (buf\<lparr>bb_pos := bb_start buf\<rparr>)
      | Err e \<Rightarrow> Err e
      | Panic \<Rightarrow> Panic)"

text \<open>Copying the bytes that hold \<open>[first, end)\<close>: the common body of the two copy constructors.\<close>

definition copy_window :: "bitbuffer \<Rightarrow> nat \<Rightarrow> nat \<Rightarrow> (pdu_parse_err, bitbuffer) outcome" where
  "copy_window b first len =
     (let start_byte = first div 8;
          end_byte = div_ceil8 (bb_end b)
      in if start_byte \<le> end_byte \<and> end_byte \<le> length (bb_buffer b)
         then Ok \<lparr>bb_buffer = take (end_byte - start_byte) (drop start_byte (bb_buffer b)),
                  bb_start = first mod 8, bb_pos = first mod 8, bb_end = first mod 8 + len,
                  bb_autoexpand = False\<rparr>
         else Panic)"

definition from_bitbuffer :: "bitbuffer \<Rightarrow> (pdu_parse_err, bitbuffer) outcome" where
  "from_bitbuffer b = copy_window b (bb_start b) (get_len b)"

definition from_bitbuffer_pos :: "bitbuffer \<Rightarrow> (pdu_parse_err, bitbuffer) outcome" where
  "from_bitbuffer_pos b = copy_window b (bb_pos b) (get_len_remaining b)"

text \<open>
  \<open>read_bits_into_slice\<close>: the slice is returned with its new contents; \<open>None\<close> in the middle leaves
  the bytes read so far in it.
\<close>

fun read_slice_loop :: "nat list \<Rightarrow> nat \<Rightarrow> u8 list \<Rightarrow> (unit option \<times> u8 list) bb" where
  "read_slice_loop [] bits_remaining buf = ret (Some (), buf)"
| "read_slice_loop (i # is) bits_remaining buf =
     (let bits_in_byte = min bits_remaining 8
      in bind (read_bits bits_in_byte) (\<lambda>r. case r of
           None \<Rightarrow> ret (None, buf)
         | Some v \<Rightarrow> read_slice_loop is (bits_remaining - bits_in_byte)
                       (buf[i := push_bit (8 - bits_in_byte) (ucast v)])))"

definition read_bits_into_slice :: "nat \<Rightarrow> u8 list \<Rightarrow> (unit option \<times> u8 list) bb" where
  "read_bits_into_slice num_bits buf =
     (if length buf < div_ceil8 num_bits then ret (None, buf)
      else read_slice_loop [0..<div_ceil8 num_bits] num_bits buf)"

text \<open>\<open>xor_bytearr\<close>: read a chunk, xor the next bytes of \<open>data\<close> into it, seek back, write it.\<close>

function xor_bytearr_loop :: "u8 list \<Rightarrow> nat \<Rightarrow> nat \<Rightarrow> unit option bb" where
  "xor_bytearr_loop data data_pos bits_remaining =
     (if 0 < bits_remaining then
        let chunk_bits = min bits_remaining 64;
            nbytes = div_ceil8 chunk_bits
        in bind (read_bits chunk_bits) (\<lambda>r. case r of
             None \<Rightarrow> ret None
           | Some val \<Rightarrow>
               bind (guard (data_pos + nbytes \<le> length data)) (\<lambda>_.
               let xor_data = drop_bit ((8 - chunk_bits mod 8) mod 8)
                     (foldl (\<lambda>a d. push_bit 8 a OR ucast d) 0 (take nbytes (drop data_pos data)))
               in bind (seek_rel (- int chunk_bits)) (\<lambda>_.
                  bind (write_bits (val XOR xor_data) chunk_bits) (\<lambda>_.
                  xor_bytearr_loop data (data_pos + nbytes) (bits_remaining - chunk_bits)))))
      else ret (Some ()))"
  by pat_completeness auto
termination
  by (relation "measure (\<lambda>(data, data_pos, n). n)") auto

declare xor_bytearr_loop.simps [simp del]

definition xor_bytearr :: "u8 list \<Rightarrow> nat \<Rightarrow> unit option bb" where
  "xor_bytearr data num_bits = xor_bytearr_loop data 0 num_bits"

end
