(* ===== verification/BitBuffer_Spec.thy ===== *)
theory BitBuffer_Spec
  imports BitBuffer
begin

text \<open>
  The contract of \<open>BitBuffer\<close>: the byte-wise reader and writer implement reading and overwriting
  of the bit string of the buffer. \<open>Codec\<close> builds the judgements on PDU readers and writers on top of it.
\<close>

declare read_full_bytes.simps [simp del] write_full_bytes.simps [simp del]

section \<open>The reader reads the bit string\<close>

lemma byte_slice:
  "i < length buf \<Longrightarrow> take 8 (drop (8 * i) (bytes_bits buf)) = to_bits 8 (buf ! i)"
  by (rule nth_equalityI) (auto simp: nth_bytes_bits)

lemma byte_subslice:
  assumes "i < length buf" and "k + n \<le> 8"
  shows "take n (drop (8 * i + k) (bytes_bits buf)) = take n (drop k (to_bits 8 (buf ! i)))"
proof (rule nth_equalityI)
  fix j assume "j < length (take n (drop (8 * i + k) (bytes_bits buf)))"
  then have "j < n" and "k + j < 8"
    using assms(2) by auto
  then have "(8 * i + k + j) div 8 = i" and "(8 * i + k + j) mod 8 = k + j"
    by (simp_all add: add.assoc)
  with assms \<open>j < n\<close> show "take n (drop (8 * i + k) (bytes_bits buf)) ! j = take n (drop k (to_bits 8 (buf ! i))) ! j"
    by (simp add: nth_bytes_bits)
qed (use assms in auto)

lemma ucast_byte: "ucast (w :: u8) = (of_bits (to_bits 8 w) :: u64)"
proof (rule bit_word_eqI)
  fix i :: nat
  have "bit w i \<Longrightarrow> i < 8"
    using bit_imp_le_length [of w i] by simp
  then show "bit (ucast w :: u64) i = bit (of_bits (to_bits 8 w) :: u64) i"
    by (auto simp: bit_of_bits bit_unsigned_iff)
qed

lemma bit_low_mask [simp]: "bit (2 ^ n - 1 :: 'a::len word) i \<longleftrightarrow> i < LENGTH('a) \<and> i < n"
  by (simp add: mask_eq_exp_minus_1 [symmetric] bit_mask_iff)

lemma head_bits:
  assumes "k + n \<le> 8"
  shows "ucast (drop_bit (8 - (k + n)) w AND (2 ^ n - 1) :: u8) =
         (of_bits (take n (drop k (to_bits 8 w))) :: u64)"
proof (rule bit_word_eqI)
  fix i assume "i < LENGTH(64)"
  have "i < n \<Longrightarrow> 8 - Suc (k + (n - Suc i)) = 8 - (k + n) + i"
    using assms by simp
  then show "bit (ucast (drop_bit (8 - (k + n)) w AND (2 ^ n - 1) :: u8) :: u64) i =
        bit (of_bits (take n (drop k (to_bits 8 w))) :: u64) i"
    using assms \<open>i < LENGTH(64)\<close>
    by (auto simp: bit_of_bits bit_unsigned_iff bit_and_iff bit_drop_bit_eq)
qed

lemma read_full_bytes_spec:
  assumes "p mod 8 = 0" and "p + r \<le> 8 * length buf"
  shows "read_full_bytes buf p r (of_bits xs) =
         Ok (p + 8 * (r div 8), r mod 8, of_bits (xs @ take (8 * (r div 8)) (drop p (bytes_bits buf))))"
  using assms
proof (induction r arbitrary: p xs rule: less_induct)
  case (less r)
  show ?case
  proof (cases "8 \<le> r")
    case True
    let ?i = "p div 8"
    have i: "?i < length buf" and p: "p = 8 * ?i"
      using less.prems True by auto
    have step: "push_bit 8 (of_bits xs) OR ucast (buf ! ?i) = (of_bits (xs @ take 8 (drop p (bytes_bits buf))) :: u64)"
      using byte_slice [OF i] p by (simp add: of_bits_append ucast_byte)
    have r: "r = 8 + (r - 8)" "r div 8 = Suc ((r - 8) div 8)" "(r - 8) mod 8 = r mod 8"
      using True by (simp_all add: le_div_geq le_mod_geq)
    have "take 8 (drop p (bytes_bits buf)) @ take (8 * ((r - 8) div 8)) (drop (p + 8) (bytes_bits buf)) =
          take (8 * (r div 8)) (drop p (bytes_bits buf))"
      by (simp add: r(2) take_add add.commute)
    moreover have "read_full_bytes buf p r (of_bits xs) =
        read_full_bytes buf (p + 8) (r - 8) (of_bits (xs @ take 8 (drop p (bytes_bits buf))))"
      by (subst read_full_bytes.simps) (simp only: True i step if_True)
    moreover have "\<dots> = Ok (p + 8 + 8 * ((r - 8) div 8), (r - 8) mod 8,
        of_bits ((xs @ take 8 (drop p (bytes_bits buf))) @ take (8 * ((r - 8) div 8)) (drop (p + 8) (bytes_bits buf))))"
      using less.prems True by (intro less.IH) auto
    ultimately show ?thesis
      by (simp add: r(2,3))
  next
    case False
    then show ?thesis
      by (subst read_full_bytes.simps) simp
  qed
qed

lemma read_tail_bits_spec:
  "k + i + n \<le> 8 \<Longrightarrow>
   read_tail_bits w k i n (of_bits xs) = of_bits (xs @ take n (drop (k + i) (to_bits 8 w)))"
proof (induction n arbitrary: i xs)
  case (Suc n)
  have "drop_bit (7 - (k + i)) w AND 1 = of_bool (bit w (7 - (k + i)))"
    by (simp add: and_one_eq mod_2_eq_odd bit_iff_odd_drop_bit)
  then have "push_bit 1 (of_bits xs) OR ucast (drop_bit (7 - (k + i)) w AND 1) =
        (of_bits (xs @ [bit w (7 - (k + i))]) :: u64)"
    by (simp add: of_bits_snoc)
  moreover have "drop (k + i) (to_bits 8 w) = bit w (7 - (k + i)) # drop (k + Suc i) (to_bits 8 w)"
    using Suc.prems by (simp add: Cons_nth_drop_Suc [symmetric])
  ultimately show ?case
    using Suc.IH [of "Suc i" "xs @ [bit w (7 - (k + i))]"] Suc.prems by simp
qed simp

lemma div8_less: "p + n \<le> 8 * len \<Longrightarrow> 0 < n \<Longrightarrow> p div 8 < len"
  for p n len :: nat
  by simp

lemma read_aligned_spec:
  assumes "p mod 8 = 0 \<or> m = 0" and "p + m \<le> 8 * length buf"
  shows "read_aligned buf p m (of_bits xs) = Ok (of_bits (xs @ take m (drop p (bytes_bits buf))))"
proof (cases "m = 0")
  case True
  then show ?thesis by (simp add: read_aligned_def read_full_bytes.simps)
next
  case False
  with assms(1) have p: "p mod 8 = 0" by simp
  let ?bits = "bytes_bits buf" and ?q = "p + 8 * (m div 8)"
  have q: "?q mod 8 = 0" and qm: "?q + m mod 8 \<le> 8 * length buf"
    using p assms(2) by simp_all
  have split: "take (8 * (m div 8)) (drop p ?bits) @ take (m mod 8) (drop ?q ?bits) = take m (drop p ?bits)"
    by (metis add.commute drop_drop mult_div_mod_eq take_add)
  have "8 * (?q div 8) + 0 = ?q"
    using q by (metis add.right_neutral mult_div_mod_eq)
  then have tail: "take (m mod 8) (drop ?q ?bits) = take (m mod 8) (to_bits 8 (buf ! (?q div 8)))" if "0 < m mod 8"
    using div8_less [OF qm that] byte_subslice [of "?q div 8" buf 0 "m mod 8"] by (simp only: drop_0)
  show ?thesis
  proof (cases "0 < m mod 8")
    case True
    have "read_aligned buf p m (of_bits xs) =
        Ok (read_tail_bits (buf ! (?q div 8)) 0 0 (m mod 8) (of_bits (xs @ take (8 * (m div 8)) (drop p ?bits))))"
      using read_full_bytes_spec [OF p assms(2), of xs] True q div8_less [OF qm True]
      by (simp add: read_aligned_def)
    also have "\<dots> = Ok (of_bits ((xs @ take (8 * (m div 8)) (drop p ?bits)) @ take (m mod 8) (drop ?q ?bits)))"
      by (subst read_tail_bits_spec) (simp_all add: tail [OF True])
    finally show ?thesis using split by simp
  next
    case False
    then show ?thesis
      using read_full_bytes_spec [OF p assms(2), of xs] split by (simp add: read_aligned_def)
  qed
qed

text \<open>When a run of \<open>n\<close> bits starts inside a byte, its head ends at a byte boundary or ends the run.\<close>

lemma head_aligned:
  "p mod 8 \<noteq> 0 \<Longrightarrow> h = min (8 - p mod 8) n \<Longrightarrow> (p + h) mod 8 = 0 \<or> n - h = 0"
  for p n h :: nat
proof -
  have "p + (8 - p mod 8) = 8 * (p div 8) + 8"
    using mult_div_mod_eq [of 8 p] mod_less_divisor [of 8 p] by linarith
  then have "(p + (8 - p mod 8)) mod 8 = 0"
    by simp
  then show "p mod 8 \<noteq> 0 \<Longrightarrow> h = min (8 - p mod 8) n \<Longrightarrow> (p + h) mod 8 = 0 \<or> n - h = 0"
    by (auto simp: min_def)
qed

lemma read_bits_at_spec:
  assumes "p + n \<le> 8 * length buf"
  shows "read_bits_at_unchecked buf p n = Ok (of_bits (take n (drop p (bytes_bits buf))))"
proof (cases "p mod 8 \<noteq> 0 \<and> 0 < n")
  case True
  define h where "h = min (8 - p mod 8) n"
  have h: "h \<le> n" "p mod 8 + h \<le> 8" and idx: "p div 8 < length buf"
    using assms True div8_less by (auto simp: h_def)
  have "ucast (drop_bit (8 - (p mod 8 + h)) (buf ! (p div 8)) AND (2 ^ h - 1)) = (of_bits (take h (drop p (bytes_bits buf))) :: u64)"
    using head_bits [OF h(2)] byte_subslice [OF idx h(2)] by simp
  then have "read_bits_at_unchecked buf p n =
      read_aligned buf (p + h) (n - h) (of_bits (take h (drop p (bytes_bits buf))))"
    using True idx by (simp add: read_bits_at_unchecked_def h_def Let_def)
  also have "\<dots> = Ok (of_bits (take h (drop p (bytes_bits buf)) @ take (n - h) (drop (p + h) (bytes_bits buf))))"
    using head_aligned [of p h n] True h assms by (intro read_aligned_spec) (auto simp: h_def)
  also have "take h (drop p (bytes_bits buf)) @ take (n - h) (drop (p + h) (bytes_bits buf)) = take n (drop p (bytes_bits buf))"
    using h(1) by (metis add.commute drop_drop le_add_diff_inverse take_add)
  finally show ?thesis .
next
  case False
  then show ?thesis
    using read_aligned_spec [of p n buf "[]"] assms by (auto simp: read_bits_at_unchecked_def)
qed

section \<open>The writer overwrites the bit string\<close>

lemma overwrite_append:
  "k + length ys \<le> length bs \<Longrightarrow> overwrite (as @ bs @ cs) (length as + k) ys = as @ overwrite bs k ys @ cs"
  by (simp add: overwrite_def)

lemma bytes_bits_update:
  assumes "i < length buf" and "k + length ys \<le> 8" and "to_bits 8 w = overwrite (to_bits 8 (buf ! i)) k ys"
  shows "bytes_bits (buf[i := w]) = overwrite (bytes_bits buf) (8 * i + k) ys"
proof -
  have "bytes_bits buf = bytes_bits (take i buf) @ to_bits 8 (buf ! i) @ bytes_bits (drop (Suc i) buf)"
    by (subst id_take_nth_drop [OF assms(1)]) (simp add: bytes_bits_def)
  moreover have "bytes_bits (buf[i := w]) = bytes_bits (take i buf) @ to_bits 8 w @ bytes_bits (drop (Suc i) buf)"
    by (subst upd_conv_take_nth_drop [OF assms(1)]) (simp add: bytes_bits_def)
  ultimately show ?thesis
    using overwrite_append [of k ys "to_bits 8 (buf ! i)" "bytes_bits (take i buf)"] assms by simp
qed

lemma to_bits_put_in_byte:
  assumes "k + h \<le> 8"
  shows "to_bits 8 (put_in_byte byte k h w) = overwrite (to_bits 8 byte) k (to_bits h w)"
proof (rule nth_equalityI)
  fix i assume "i < length (to_bits 8 (put_in_byte byte k h w))"
  then have i: "i < 8" by simp
  have sh: "8 - (k + h) \<le> 7 - i \<longleftrightarrow> i < k + h" and lo: "7 - i - (8 - (k + h)) < h \<longleftrightarrow> k \<le> i"
    if "i < k + h" using assms i that by auto
  show "to_bits 8 (put_in_byte byte k h w) ! i = overwrite (to_bits 8 byte) k (to_bits h w) ! i"
  proof (cases "k \<le> i \<and> i < k + h")
    case True
    then have "7 - i - (8 - (k + h)) = h - 1 - (i - k)" using assms by auto
    with True assms i show ?thesis
      by (subst nth_overwrite)
        (auto simp: put_in_byte_def Let_def bit_or_iff bit_and_iff bit_not_iff bit_push_bit_iff)
  next
    case False
    with assms i show ?thesis
      by (subst nth_overwrite)
        (auto simp: put_in_byte_def Let_def bit_or_iff bit_and_iff bit_not_iff bit_push_bit_iff)
  qed
qed (use assms in simp)

lemma put_in_byte_update:
  "i < length buf \<Longrightarrow> k + h \<le> 8 \<Longrightarrow>
   bytes_bits (buf[i := put_in_byte (buf ! i) k h w]) = overwrite (bytes_bits buf) (8 * i + k) (to_bits h w)"
  by (simp add: bytes_bits_update to_bits_put_in_byte)

lemma byte_update:
  assumes "i < length buf"
  shows "bytes_bits (buf[i := w]) = overwrite (bytes_bits buf) (8 * i) (to_bits 8 w)"
  using bytes_bits_update [of i buf 0 "to_bits 8 w" w] assms by (simp add: overwrite_def)

lemma to_bits_byte_of:
  "to_bits 8 (ucast (drop_bit n v AND 0xFF :: u64) :: u8) = to_bits 8 (drop_bit n v)"
proof -
  have e: "(0xFF :: u64) = mask 8" by (simp add: mask_eq_exp_minus_1)
  show ?thesis
    unfolding e by (intro nth_equalityI) (auto simp: bit_unsigned_iff bit_and_iff bit_mask_iff)
qed

lemma write_full_bytes_spec:
  assumes "p mod 8 = 0" and "p + r \<le> 8 * length buf"
  shows "\<exists>buf'. write_full_bytes buf p r v = Ok (buf', p + 8 * (r div 8), r mod 8) \<and>
     length buf' = length buf \<and>
     bytes_bits buf' = overwrite (bytes_bits buf) p (take (8 * (r div 8)) (to_bits r v))"
  using assms
proof (induction r arbitrary: p buf rule: less_induct)
  case (less r)
  show ?case
  proof (cases "8 \<le> r")
    case True
    let ?i = "p div 8"
    define buf1 where "buf1 = buf[?i := ucast (drop_bit (r - 8) v AND 0xFF)]"
    have i: "?i < length buf" and p: "8 * ?i = p"
      using less.prems True by auto
    have bits1: "bytes_bits buf1 = overwrite (bytes_bits buf) p (to_bits 8 (drop_bit (r - 8) v))"
      unfolding buf1_def by (subst byte_update [OF i]) (simp only: to_bits_byte_of p)
    have "\<exists>buf'. write_full_bytes buf1 (p + 8) (r - 8) v = Ok (buf', p + 8 + 8 * ((r - 8) div 8), (r - 8) mod 8) \<and>
       length buf' = length buf1 \<and>
       bytes_bits buf' = overwrite (bytes_bits buf1) (p + 8) (take (8 * ((r - 8) div 8)) (to_bits (r - 8) v))"
      using less.prems True by (intro less.IH) (auto simp: buf1_def)
    then obtain buf' where b: "write_full_bytes buf1 (p + 8) (r - 8) v = Ok (buf', p + 8 + 8 * ((r - 8) div 8), (r - 8) mod 8)"
      "length buf' = length buf1"
      "bytes_bits buf' = overwrite (bytes_bits buf1) (p + 8) (take (8 * ((r - 8) div 8)) (to_bits (r - 8) v))"
      by blast
    have r: "r div 8 = Suc ((r - 8) div 8)" "(r - 8) mod 8 = r mod 8"
      using True by (simp_all add: le_div_geq le_mod_geq)
    have "to_bits r v = to_bits 8 (drop_bit (r - 8) v) @ to_bits (r - 8) v"
      using to_bits_append [of 8 "r - 8" v] True by simp
    then have "bytes_bits buf' = overwrite (bytes_bits buf) p (take (8 * (r div 8)) (to_bits r v))"
      using b(3) bits1 overwrite_overwrite [of p "bytes_bits buf" "to_bits 8 (drop_bit (r - 8) v)"] less.prems
      by (simp add: r(1))
    then show ?thesis
      using b(1,2) True i r by (subst write_full_bytes.simps) (simp add: buf1_def)
  next
    case False
    then show ?thesis by (subst write_full_bytes.simps) simp
  qed
qed

lemma write_aligned_spec:
  assumes "p mod 8 = 0 \<or> m = 0" and "p + m \<le> 8 * length buf"
  shows "\<exists>buf'. write_aligned buf p m v = Ok buf' \<and> length buf' = length buf \<and>
     bytes_bits buf' = overwrite (bytes_bits buf) p (to_bits m v)"
proof (cases "m = 0")
  case True
  then show ?thesis by (simp add: write_aligned_def write_full_bytes.simps)
next
  case False
  with assms(1) have p: "p mod 8 = 0" by simp
  let ?q = "p + 8 * (m div 8)"
  obtain buf1 where b: "write_full_bytes buf p m v = Ok (buf1, ?q, m mod 8)" "length buf1 = length buf"
     "bytes_bits buf1 = overwrite (bytes_bits buf) p (take (8 * (m div 8)) (to_bits m v))"
    using write_full_bytes_spec [OF p assms(2)] by blast
  have split: "to_bits m v = take (8 * (m div 8)) (to_bits m v) @ to_bits (m mod 8) v"
    using to_bits_append [of "8 * (m div 8)" "m mod 8" v] by simp
  have q: "?q mod 8 = 0" and qm: "?q + m mod 8 \<le> 8 * length buf"
    using p assms(2) by simp_all
  have q8: "8 * (?q div 8) + 0 = ?q"
    using q by (metis add.right_neutral mult_div_mod_eq)
  show ?thesis
  proof (cases "0 < m mod 8")
    case True
    have idx: "?q div 8 < length buf1"
      using div8_less [OF qm True] b(2) by simp
    let ?buf2 = "buf1[?q div 8 := put_in_byte (buf1 ! (?q div 8)) 0 (m mod 8) (ucast v)]"
    have "bytes_bits ?buf2 = overwrite (bytes_bits buf1) ?q (to_bits (m mod 8) (ucast v :: u8))"
      using put_in_byte_update [OF idx, of 0 "m mod 8" "ucast v"] by (simp only: q8)
    also have "to_bits (m mod 8) (ucast v :: u8) = to_bits (m mod 8) v"
      by (rule to_bits_ucast) simp
    also have "overwrite (bytes_bits buf1) ?q (to_bits (m mod 8) v) = overwrite (bytes_bits buf) p (to_bits m v)"
      using b(3) overwrite_overwrite [of p "bytes_bits buf" "take (8 * (m div 8)) (to_bits m v)" "to_bits (m mod 8) v"]
        split assms(2) by simp
    finally show ?thesis
      using b True q idx by (simp add: write_aligned_def)
  next
    case False
    then show ?thesis
      using b split by (simp add: write_aligned_def)
  qed
qed

lemma write_bits_at_spec:
  assumes "p + n \<le> 8 * length buf"
  shows "\<exists>buf'. write_bits_at buf p n v = Ok buf' \<and> length buf' = length buf \<and>
     bytes_bits buf' = overwrite (bytes_bits buf) p (to_bits n v)"
proof (cases "p mod 8 \<noteq> 0 \<and> 0 < n")
  case True
  define h where "h = min (8 - p mod 8) n"
  have h: "h \<le> n" "p mod 8 + h \<le> 8" "h \<le> 8" and idx: "p div 8 < length buf"
    using assms True div8_less by (auto simp: h_def)
  let ?buf1 = "buf[p div 8 := put_in_byte (buf ! (p div 8)) (p mod 8) h (ucast (drop_bit (n - h) v))]"
  have "to_bits h (ucast (drop_bit (n - h) v) :: u8) = to_bits h (drop_bit (n - h) v)"
    using h by (intro to_bits_ucast) simp
  then have bits1: "bytes_bits ?buf1 = overwrite (bytes_bits buf) p (to_bits h (drop_bit (n - h) v))"
    using put_in_byte_update [OF idx h(2)] by simp
  have "\<exists>buf'. write_aligned ?buf1 (p + h) (n - h) v = Ok buf' \<and> length buf' = length ?buf1 \<and>
     bytes_bits buf' = overwrite (bytes_bits ?buf1) (p + h) (to_bits (n - h) v)"
    using head_aligned [of p h n] True h assms by (intro write_aligned_spec) (auto simp: h_def)
  moreover have "overwrite (bytes_bits ?buf1) (p + h) (to_bits (n - h) v) = overwrite (bytes_bits buf) p (to_bits n v)"
    using overwrite_overwrite [of p "bytes_bits buf" "to_bits h (drop_bit (n - h) v)" "to_bits (n - h) v"]
      to_bits_append [of h "n - h" v] h assms by (simp add: bits1)
  ultimately show ?thesis
    using True idx by (auto simp: write_bits_at_def Let_def h_def min.commute)
next
  case False
  then show ?thesis
    using write_aligned_spec [of p n buf v] assms by (auto simp: write_bits_at_def)
qed

end
