(* ===== verification/Codec.thy ===== *)
theory Codec
  imports BitBuffer_Spec
begin

text \<open>
  The contract of \<open>BitBuffer\<close> at the level of bit strings and, on top of it, three properties of
  programs over a buffer, each with composition rules: \<open>emits m bs\<close> (the program writes exactly the
  bits \<open>bs\<close> at the cursor), \<open>parses m bs x\<close> (on unread bits that start with \<open>bs\<close> the program consumes
  \<open>bs\<close> and returns \<open>x\<close>) and \<open>safe m\<close> (whatever the buffer holds, the program neither panics nor
  changes anything but the cursor, which it only moves forward within the window). The locale
  \<open>codec\<close> is what a PDU's \<open>to_bitbuf\<close>/\<open>from_bitbuf\<close> pair promises.
\<close>

named_theorems emits_intros \<open>composition rules for emitted bits\<close>
named_theorems parses_intros \<open>composition rules for parsed bits\<close>
named_theorems safe_intros \<open>composition rules for panic freedom\<close>

section \<open>Invariant and views\<close>

definition bb_inv :: "bitbuffer \<Rightarrow> bool" where
  "bb_inv b \<longleftrightarrow> bb_start b \<le> bb_pos b \<and> bb_pos b \<le> bb_end b \<and>
     bb_end b \<le> 8 * length (bb_buffer b) \<and> bb_end b < 2 ^ 64"

text \<open>All bits up to the end of the window, the unread bits, and the bits of the window.\<close>

definition content :: "bitbuffer \<Rightarrow> bool list" where
  "content b = take (bb_end b) (bytes_bits (bb_buffer b))"

definition unread :: "bitbuffer \<Rightarrow> bool list" where
  "unread b = drop (bb_pos b) (content b)"

definition window :: "bitbuffer \<Rightarrow> bool list" where
  "window b = drop (bb_start b) (content b)"

lemma length_content [simp]: "bb_inv b \<Longrightarrow> length (content b) = bb_end b"
  by (simp add: content_def bb_inv_def)

lemma length_unread: "bb_inv b \<Longrightarrow> length (unread b) = get_len_remaining b"
  by (simp add: unread_def get_len_remaining_def)

lemma length_window: "bb_inv b \<Longrightarrow> length (window b) = get_len b"
  by (simp add: window_def get_len_def)

lemma unread_advance [simp]: "unread (b\<lparr>bb_pos := bb_pos b + n\<rparr>) = drop n (unread b)"
  by (simp add: unread_def content_def add.commute)

lemma content_pos [simp]: "content (b\<lparr>bb_pos := p\<rparr>) = content b"
  by (simp add: content_def)

lemma bb_inv_advance [intro]: "bb_inv b \<Longrightarrow> bb_pos b \<le> p \<Longrightarrow> p \<le> bb_end b \<Longrightarrow> bb_inv (b\<lparr>bb_pos := p\<rparr>)"
  by (simp add: bb_inv_def)

lemma bb_inv_new [simp]: "n < 2 ^ 64 \<Longrightarrow> bb_inv (BitBuffer_new n)"
  by (auto simp: bb_inv_def BitBuffer_new_def div_ceil8_def)

lemma bb_inv_new_autoexpand [simp]: "bb_inv (new_autoexpand n)"
  by (simp add: bb_inv_def new_autoexpand_def)

lemma content_new: "content (BitBuffer_new n) = replicate n False"
  by (simp add: content_def BitBuffer_new_def bytes_bits_replicate_0 div_ceil8_def min_def)

lemma content_new_autoexpand [simp]: "content (new_autoexpand n) = []"
  by (simp add: content_def new_autoexpand_def)

section \<open>Reading\<close>

lemma checked_add_signed_int [simp]: "checked_add_signed a (int k) = checked_add a k"
  by (auto simp: checked_add_signed_def checked_add_def nat_int_add)

lemma checked_add_signed_0 [simp]: "checked_add_signed a 0 = checked_add a 0"
  by (auto simp: checked_add_signed_def checked_add_def)

lemma peek_bits_startoffset_spec:
  assumes "bb_inv b"
  shows "peek_bits_startoffset k n b =
    (if n \<le> 64 \<and> k + n \<le> length (window b)
     then Ok (Some (of_bits (take n (drop k (window b)))), b) else Ok (None, b))"
proof -
  have "bb_start b + k + n \<le> bb_end b \<longleftrightarrow> k + n \<le> length (window b)"
    using assms by (simp add: length_window get_len_def bb_inv_def) linarith
  moreover have "take n (drop (bb_start b + k) (bytes_bits (bb_buffer b))) = take n (drop k (window b))"
    if "bb_start b + k + n \<le> bb_end b"
    using that by (simp add: window_def content_def drop_take min_def add.commute)
  ultimately show ?thesis
    using assms
    by (auto simp: peek_bits_startoffset_def checked_add_def read_bits_at_spec bb_inv_def)
qed

lemma unread_window: "bb_inv b \<Longrightarrow> unread b = drop (bb_pos b - bb_start b) (window b)"
  by (simp add: unread_def window_def bb_inv_def)

lemma read_bits_spec:
  assumes "bb_inv b"
  shows "read_bits n b =
    (if n \<le> 64 \<and> n \<le> length (unread b)
     then Ok (Some (of_bits (take n (unread b))), b\<lparr>bb_pos := bb_pos b + n\<rparr>) else Ok (None, b))"
proof -
  have "bb_pos b - bb_start b + n \<le> length (window b) \<longleftrightarrow> n \<le> length (unread b)"
    using assms by (simp add: length_window length_unread get_len_def get_len_remaining_def bb_inv_def) linarith
  then show ?thesis
    using assms by (simp add: read_bits_def peek_bits_startoffset_spec unread_window)
qed

lemma read_field_spec:
  assumes "bb_inv b"
  shows "read_field n s b =
    (if n \<le> 64 \<and> n \<le> length (unread b)
     then Ok (of_bits (take n (unread b)), b\<lparr>bb_pos := bb_pos b + n\<rparr>) else Err (BufferEnded (Some s)))"
  using read_bits_spec [OF assms] by (simp add: read_field_def bind_def ret_def fail_def)

lemma peek_bits_spec:
  assumes "bb_inv b"
  shows "peek_bits n b =
    (if n \<le> 64 \<and> n \<le> length (unread b) then Ok (Some (of_bits (take n (unread b))), b) else Ok (None, b))"
proof -
  have "bb_pos b - bb_start b + n \<le> length (window b) \<longleftrightarrow> n \<le> length (unread b)"
    using assms by (simp add: length_window length_unread get_len_def get_len_remaining_def bb_inv_def) linarith
  then show ?thesis
    using assms
    by (auto simp: peek_bits_def peek_bits_posoffset_def checked_add_def peek_bits_startoffset_spec
        unread_window bb_inv_def)
qed

lemma peek_bits_posoffset_spec:
  assumes "bb_inv b"
  shows "peek_bits_posoffset (int k) n b =
    (if n \<le> 64 \<and> k + n \<le> length (unread b) then Ok (Some (of_bits (take n (drop k (unread b)))), b) else Ok (None, b))"
proof -
  let ?o = "bb_pos b - bb_start b"
  have r: "?o + k + n \<le> length (window b) \<longleftrightarrow> k + n \<le> length (unread b)"
    using assms by (simp add: length_window length_unread get_len_def get_len_remaining_def bb_inv_def) linarith
  have d: "drop (?o + k) (window b) = drop k (unread b)"
    using assms by (simp add: unread_window add.commute)
  have "length (unread b) + ?o < 2 ^ 64"
    using assms by (simp add: length_unread get_len_remaining_def bb_inv_def) linarith
  then show ?thesis
    by (auto simp: peek_bits_posoffset_def checked_add_def peek_bits_startoffset_spec [OF assms] r d)
qed

section \<open>Writing\<close>

text \<open>There is room for \<open>n\<close> bits: in the window, or behind it when the buffer grows on demand.\<close>

definition room :: "bitbuffer \<Rightarrow> nat \<Rightarrow> bool" where
  "room b n \<longleftrightarrow> bb_pos b + n \<le> bb_end b \<or> (bb_autoexpand b \<and> bb_pos b = bb_end b \<and> bb_pos b + n < 2 ^ 64)"

text \<open>\<open>b'\<close> is \<open>b\<close> after the bits \<open>bs\<close> were written at the cursor.\<close>

definition wrote :: "bitbuffer \<Rightarrow> bool list \<Rightarrow> bitbuffer \<Rightarrow> bool" where
  "wrote b bs b' \<longleftrightarrow> bb_inv b' \<and> bb_start b' = bb_start b \<and> bb_autoexpand b' = bb_autoexpand b \<and>
     bb_pos b' = bb_pos b + length bs \<and> content b' = overwrite (content b) (bb_pos b) bs"

definition emits :: "unit bb \<Rightarrow> bool list \<Rightarrow> bool" where
  "emits m bs \<longleftrightarrow> (\<forall>b. bb_inv b \<longrightarrow> room b (length bs) \<longrightarrow> (\<exists>b'. m b = Ok ((), b') \<and> wrote b bs b'))"

lemma emitsI [intro?]:
  "(\<And>b. bb_inv b \<Longrightarrow> room b (length bs) \<Longrightarrow> \<exists>b'. m b = Ok ((), b') \<and> wrote b bs b') \<Longrightarrow> emits m bs"
  by (simp add: emits_def)

lemma emitsE:
  assumes "emits m bs" and "bb_inv b" and "room b (length bs)"
  obtains b' where "m b = Ok ((), b')" and "wrote b bs b'"
  using assms by (auto simp: emits_def)

lemma wrote_end: "wrote b bs b' \<Longrightarrow> bb_inv b \<Longrightarrow> bb_end b' = max (bb_end b) (bb_pos b + length bs)"
  unfolding wrote_def by (metis bb_inv_def length_content length_overwrite_max)

lemma wrote_trans: "bb_inv b \<Longrightarrow> wrote b xs b1 \<Longrightarrow> wrote b1 ys b2 \<Longrightarrow> wrote b (xs @ ys) b2"
  by (auto simp: wrote_def overwrite_overwrite bb_inv_def content_def)

lemma wrote_room: "bb_inv b \<Longrightarrow> wrote b xs b1 \<Longrightarrow> room b (length xs + n) \<Longrightarrow> room b1 n"
  using wrote_end [of b xs b1] by (auto simp: room_def wrote_def)

lemma room_mono: "room b n \<Longrightarrow> m \<le> n \<Longrightarrow> room b m"
  by (auto simp: room_def)

lemma move_end_spec:
  assumes "bb_inv b" and "bb_end b + n < 2 ^ 64"
  shows "\<exists>buf. move_end n b = Ok ((), b\<lparr>bb_buffer := buf, bb_end := bb_end b + n\<rparr>) \<and>
     bb_end b + n \<le> 8 * length buf \<and> (\<exists>zs. buf = bb_buffer b @ zs)"
proof (cases "n > length (bb_buffer b) * 8 - bb_end b")
  case True
  let ?c = "max (bb_end b + n) (length (bb_buffer b) * 8 * 2)"
  have "length (bb_buffer b) \<le> div_ceil8 ?c" and "bb_end b + n \<le> 8 * div_ceil8 ?c"
    by (auto simp: div_ceil8_def max_def)
  with True show ?thesis
    by (auto simp: move_end_def realloc_tail_def bind_def Let_def intro!: exI)
next
  case False
  with assms show ?thesis
    by (intro exI [of _ "bb_buffer b"]) (auto simp: move_end_def bind_def ret_def bb_inv_def)
qed

lemma write_in_window:
  assumes "bb_inv b" and "bb_pos b + n \<le> bb_end b" and "length buf = length (bb_buffer b)"
    and "bytes_bits buf = overwrite (bytes_bits (bb_buffer b)) (bb_pos b) bs" and "length bs = n"
  shows "wrote b bs (b\<lparr>bb_buffer := buf, bb_pos := bb_pos b + n\<rparr>)"
  using assms by (simp add: wrote_def content_def bb_inv_def take_overwrite_beyond)

text \<open>Growing first and writing then overwrites the grown content, whose extra bits are all covered.\<close>

lemma wrote_grown:
  assumes "bb_inv b" and "bb_pos b = bb_end b" and "b1 = b\<lparr>bb_buffer := bb_buffer b @ zs, bb_end := bb_end b + n\<rparr>"
    and "bb_inv b1" and "wrote b1 bs b2" and "length bs = n"
  shows "wrote b bs b2"
  using assms by (auto simp: wrote_def content_def bb_inv_def overwrite_def bytes_bits_append)

lemma grow_to_fit:
  assumes "bb_inv b" and "room b n" and "bb_pos b + n > bb_end b"
  obtains b1 zs where "bb_autoexpand b" and "bb_pos b = bb_end b" and "move_end n b = Ok ((), b1)"
    and "b1 = b\<lparr>bb_buffer := bb_buffer b @ zs, bb_end := bb_end b + n\<rparr>" and "bb_inv b1"
proof -
  from assms have r: "bb_autoexpand b" "bb_pos b = bb_end b" "bb_end b + n < 2 ^ 64"
    by (auto simp: room_def)
  from move_end_spec [OF assms(1) r(3)] obtain zs where
    "move_end n b = Ok ((), b\<lparr>bb_buffer := bb_buffer b @ zs, bb_end := bb_end b + n\<rparr>)"
    "bb_end b + n \<le> 8 * length (bb_buffer b @ zs)" by blast
  with r assms(1) that show ?thesis by (auto simp: bb_inv_def)
qed

lemma and_mask_fits: "fits n v \<Longrightarrow> v AND (2 ^ n - 1) = v"
  for v :: "'a::len word"
  by (metis fits_take_bit mask_eq_exp_minus_1 take_bit_eq_mask)

lemma emits_write_bits [emits_intros]:
  assumes "n \<le> 64" and "fits n v"
  shows "emits (write_bits v n) (to_bits n v)"
proof
  fix b assume inv: "bb_inv b" and r: "room b (length (to_bits n v))"
  have v: "(if n = 64 then v else v AND (push_bit n 1 - 1)) = v"
    using assms(2) by (simp add: and_mask_fits)
  have dv: "n = 64 \<or> drop_bit n v = 0"
    using assms by (auto simp: fits_def)
  show "\<exists>b'. write_bits v n b = Ok ((), b') \<and> wrote b (to_bits n v) b'"
  proof (cases "bb_pos b + n > bb_end b")
    case False
    then obtain buf where "write_bits_at (bb_buffer b) (bb_pos b) n v = Ok buf"
        "length buf = length (bb_buffer b)" "bytes_bits buf = overwrite (bytes_bits (bb_buffer b)) (bb_pos b) (to_bits n v)"
      using inv write_bits_at_spec [of "bb_pos b" n "bb_buffer b" v] by (auto simp: bb_inv_def)
    then show ?thesis
      using False inv assms dv write_in_window [OF inv, of n buf]
      by (simp add: write_bits_def bind_def guard_def ret_def v Let_def del: push_bit_of_1)
  next
    case True
    obtain b1 zs where g: "bb_autoexpand b" "bb_pos b = bb_end b" "move_end n b = Ok ((), b1)"
      "b1 = b\<lparr>bb_buffer := bb_buffer b @ zs, bb_end := bb_end b + n\<rparr>" "bb_inv b1"
      using grow_to_fit [OF inv _ True] r by auto
    then obtain buf where w: "write_bits_at (bb_buffer b1) (bb_pos b1) n v = Ok buf"
        "length buf = length (bb_buffer b1)" "bytes_bits buf = overwrite (bytes_bits (bb_buffer b1)) (bb_pos b1) (to_bits n v)"
      using write_bits_at_spec [of "bb_pos b1" n "bb_buffer b1" v] by (auto simp: bb_inv_def)
    have "wrote b1 (to_bits n v) (b1\<lparr>bb_buffer := buf, bb_pos := bb_pos b1 + n\<rparr>)"
      using g w by (intro write_in_window) auto
    then have "wrote b (to_bits n v) (b1\<lparr>bb_buffer := buf, bb_pos := bb_pos b1 + n\<rparr>)"
      using g inv by (intro wrote_grown [of b b1]) auto
    moreover have "write_bits v n b = Ok ((), b1\<lparr>bb_buffer := buf, bb_pos := bb_pos b1 + n\<rparr>)"
      using g(1,3) w True assms dv
      by (simp add: write_bits_def bind_def guard_def ret_def v Let_def del: push_bit_of_1)
    ultimately show ?thesis by blast
  qed
qed

text \<open>One bit through \<open>write_bit\<close>.\<close>

lemma bytes_bits_set_bit:
  assumes "p < 8 * length buf" and "v = 0 \<or> v = 1"
  shows "bytes_bits (buf[p div 8 := (buf ! (p div 8) AND NOT (push_bit (7 - p mod 8) 1)) OR push_bit (7 - p mod 8) v])
       = overwrite (bytes_bits buf) p [v = 1]"
proof -
  let ?k = "p mod 8" and ?w = "buf ! (p div 8)"
  have v: "v AND 1 = v" using assms(2) by auto
  have m1: "push_bit 1 1 - 1 = (1 :: u8)" by (simp add: push_bit_eq_mult)
  have k: "8 - (?k + 1) = 7 - ?k" by simp
  have byte: "(?w AND NOT (push_bit (7 - ?k) 1)) OR push_bit (7 - ?k) v = put_in_byte ?w ?k 1 v"
    unfolding put_in_byte_def Let_def k m1 v by (rule refl)
  have "to_bits 1 v = [v = 1]"
    using assms(2) by (auto simp: to_bits_def)
  moreover have "p div 8 < length buf" "?k + 1 \<le> 8" using assms(1) by auto
  moreover have "8 * (p div 8) + ?k = p" by simp
  ultimately show ?thesis
    unfolding byte using put_in_byte_update [of "p div 8" buf ?k 1 v] by metis
qed

lemma wrote_set_bit:
  assumes "bb_inv b" and "bb_pos b + 1 \<le> bb_end b" and "v = 0 \<or> v = 1"
  shows "wrote b [v = 1] (b\<lparr>bb_buffer := (bb_buffer b)[bb_pos b div 8 :=
      (bb_buffer b ! (bb_pos b div 8) AND NOT (push_bit (7 - bb_pos b mod 8) 1)) OR push_bit (7 - bb_pos b mod 8) v],
      bb_pos := bb_pos b + 1\<rparr>)"
proof (rule write_in_window [OF assms(1,2)])
  have "bb_pos b < 8 * length (bb_buffer b)" using assms by (simp add: bb_inv_def)
  then show "bytes_bits ((bb_buffer b)[bb_pos b div 8 :=
      (bb_buffer b ! (bb_pos b div 8) AND NOT (push_bit (7 - bb_pos b mod 8) 1)) OR push_bit (7 - bb_pos b mod 8) v])
    = overwrite (bytes_bits (bb_buffer b)) (bb_pos b) [v = 1]"
    using assms(3) by (rule bytes_bits_set_bit)
qed simp_all

lemma emits_write_bit [emits_intros]:
  assumes v: "v = 0 \<or> v = 1"
  shows "emits (write_bit v) [v = 1]"
proof
  fix b assume inv: "bb_inv b" and r: "room b (length [v = 1])"
  have idx: "bb_pos b1 div 8 < length (bb_buffer b1)" if "bb_inv b1" "bb_pos b1 + 1 \<le> bb_end b1" for b1
    using that by (auto simp: bb_inv_def)
  have g: "guard (v = 0 \<or> v = 1) = ret ()" using v by (simp add: guard_def)
  show "\<exists>b'. write_bit v b = Ok ((), b') \<and> wrote b [v = 1] b'"
  proof (cases "bb_pos b + 1 > bb_end b")
    case False
    then have "bb_pos b + 1 \<le> bb_end b" by simp
    from wrote_set_bit [OF inv this v] idx [OF inv this] False show ?thesis
      unfolding write_bit_def g bind_ret by (intro exI conjI) (auto simp: bind_def Let_def)
  next
    case True
    have "room b 1" using r by simp
    then obtain b1 zs where m: "bb_autoexpand b" "bb_pos b = bb_end b" "move_end 1 b = Ok ((), b1)"
      "b1 = b\<lparr>bb_buffer := bb_buffer b @ zs, bb_end := bb_end b + 1\<rparr>" "bb_inv b1"
      using True by (rule grow_to_fit [OF inv])
    then have le: "bb_pos b1 + 1 \<le> bb_end b1" by simp
    have "wrote b [v = 1] (b1\<lparr>bb_buffer := (bb_buffer b1)[bb_pos b1 div 8 :=
      (bb_buffer b1 ! (bb_pos b1 div 8) AND NOT (push_bit (7 - bb_pos b1 mod 8) 1)) OR push_bit (7 - bb_pos b1 mod 8) v],
      bb_pos := bb_pos b1 + 1\<rparr>)"
      by (rule wrote_grown [OF inv m(2,4,5) wrote_set_bit [OF m(5) le v]]) simp
    then show ?thesis
      unfolding write_bit_def g bind_ret using m(1,3) True idx [OF m(5) le]
      by (intro exI conjI) (auto simp: bind_def Let_def)
  qed
qed

section \<open>Composition of writers\<close>

lemma emits_ret [emits_intros]: "emits (ret ()) []"
  by (auto simp: emits_def ret_def wrote_def)

lemma emits_bind [emits_intros]:
  assumes "emits m xs" and "emits n ys"
  shows "emits (bind m (\<lambda>_. n)) (xs @ ys)"
proof
  fix b assume inv: "bb_inv b" and r: "room b (length (xs @ ys))"
  then have "room b (length xs)" by (auto intro: room_mono)
  with assms(1) inv obtain b1 where b1: "m b = Ok ((), b1)" "wrote b xs b1" by (rule emitsE)
  from inv b1(2) have "room b1 (length ys)" using r by (auto intro: wrote_room)
  moreover from b1(2) have "bb_inv b1" by (simp add: wrote_def)
  ultimately obtain b2 where "n b1 = Ok ((), b2)" "wrote b1 ys b2"
    using assms(2) by (auto elim: emitsE)
  with b1 inv show "\<exists>b'. bind m (\<lambda>_. n) b = Ok ((), b') \<and> wrote b (xs @ ys) b'"
    by (auto simp: bind_def intro: wrote_trans)
qed

lemma emits_seq_Nil [emits_intros]: "emits (seq []) []"
  by (simp add: emits_ret)

lemma emits_seq_Cons [emits_intros]: "emits m xs \<Longrightarrow> emits (seq ms) ys \<Longrightarrow> emits (seq (m # ms)) (xs @ ys)"
  by (simp add: emits_bind)

lemma emits_guard [emits_intros]: "c \<Longrightarrow> emits (guard c) []"
  by (simp add: emits_ret)

lemma emits_eq: "emits m xs \<Longrightarrow> xs = ys \<Longrightarrow> emits m ys"
  by simp

lemma to_bits_zero: "to_bits n 0 = replicate n False"
  by (rule nth_equalityI) simp_all

lemma emits_write_zeroes [emits_intros]: "emits (write_zeroes n) (replicate n False)"
proof (induction n rule: less_induct)
  case (less n)
  show ?case
  proof (cases "0 < n")
    case True
    let ?k = "min n 64"
    have "emits (bind (write_bits 0 ?k) (\<lambda>_. write_zeroes (n - ?k))) (to_bits ?k (0 :: u64) @ replicate (n - ?k) False)"
      using True by (intro emits_intros less.IH) auto
    moreover have "to_bits ?k (0 :: u64) @ replicate (n - ?k) False = replicate n False"
      by (simp add: to_bits_zero replicate_add [symmetric])
    ultimately show ?thesis
      using True by (subst write_zeroes.simps) simp
  next
    case False
    then show ?thesis by (subst write_zeroes.simps) (simp add: emits_ret)
  qed
qed

lemma to_bits_low_ones: "n \<le> 64 \<Longrightarrow> to_bits n (drop_bit (64 - n) 0xFFFFFFFFFFFFFFFF :: u64) = replicate n True"
proof -
  have e: "(0xFFFFFFFFFFFFFFFF :: u64) = mask 64" by (simp add: mask_eq_exp_minus_1)
  assume "n \<le> 64"
  then show ?thesis
    unfolding e by (intro nth_equalityI) (auto simp: bit_drop_bit_eq bit_mask_iff)
qed

lemma fits_low_ones: "n \<le> 64 \<Longrightarrow> fits n (drop_bit (64 - n) 0xFFFFFFFFFFFFFFFF :: u64)"
proof -
  assume "n \<le> 64"
  moreover have "\<not> bit (0xFFFFFFFFFFFFFFFF :: u64) i" if "64 \<le> i" for i
    using that bit_imp_le_length [of "0xFFFFFFFFFFFFFFFF :: u64" i] by auto
  ultimately show ?thesis
    by (auto simp: fits_iff bit_drop_bit_eq)
qed

lemma emits_write_ones [emits_intros]: "emits (write_ones n) (replicate n True)"
proof (induction n rule: less_induct)
  case (less n)
  show ?case
  proof (cases "0 < n")
    case True
    let ?k = "min n 64" and ?v = "drop_bit (64 - min n 64) 0xFFFFFFFFFFFFFFFF :: u64"
    have "emits (bind (write_bits ?v ?k) (\<lambda>_. write_ones (n - ?k))) (to_bits ?k ?v @ replicate (n - ?k) True)"
      using True by (intro emits_intros less.IH fits_low_ones) auto
    moreover have "to_bits ?k ?v @ replicate (n - ?k) True = replicate n True"
      by (simp add: to_bits_low_ones replicate_add [symmetric])
    ultimately show ?thesis
      using True by (subst write_ones.simps) (simp add: Let_def)
  next
    case False
    then show ?thesis by (subst write_ones.simps) (simp add: emits_ret)
  qed
qed

section \<open>Composition of readers\<close>

text \<open>
  A reader may look ahead (the m-bit and identifier of an optional element), so what it does can
  depend on the bits \<open>rest\<close> behind those it consumes.
\<close>

definition parses_on :: "'a bb \<Rightarrow> bool list \<Rightarrow> bool list \<Rightarrow> 'a \<Rightarrow> bool" where
  "parses_on m bs rest x \<longleftrightarrow>
     (\<forall>b. bb_inv b \<longrightarrow> unread b = bs @ rest \<longrightarrow> m b = Ok (x, b\<lparr>bb_pos := bb_pos b + length bs\<rparr>))"

definition parses :: "'a bb \<Rightarrow> bool list \<Rightarrow> 'a \<Rightarrow> bool" where
  "parses m bs x \<longleftrightarrow> (\<forall>rest. parses_on m bs rest x)"

lemma parses_onI:
  "(\<And>b. bb_inv b \<Longrightarrow> unread b = bs @ rest \<Longrightarrow> m b = Ok (x, b\<lparr>bb_pos := bb_pos b + length bs\<rparr>)) \<Longrightarrow>
   parses_on m bs rest x"
  by (simp add: parses_on_def)

lemma parses_onD:
  "parses_on m bs rest x \<Longrightarrow> bb_inv b \<Longrightarrow> unread b = bs @ rest \<Longrightarrow> m b = Ok (x, b\<lparr>bb_pos := bb_pos b + length bs\<rparr>)"
  by (simp add: parses_on_def)

lemma parsesI: "(\<And>rest. parses_on m bs rest x) \<Longrightarrow> parses m bs x"
  by (simp add: parses_def)

lemma parses_on [intro]: "parses m bs x \<Longrightarrow> parses_on m bs rest x"
  by (simp add: parses_def)

lemma parsesD:
  "parses m bs x \<Longrightarrow> bb_inv b \<Longrightarrow> unread b = bs @ rest \<Longrightarrow> m b = Ok (x, b\<lparr>bb_pos := bb_pos b + length bs\<rparr>)"
  by (auto simp: parses_def parses_on_def)

lemma bb_inv_skip: "bb_inv b \<Longrightarrow> unread b = xs @ ys \<Longrightarrow> bb_inv (b\<lparr>bb_pos := bb_pos b + length xs\<rparr>)"
  using length_unread [of b] by (auto simp: bb_inv_def get_len_remaining_def)

lemma parses_ret [parses_intros]: "x = y \<Longrightarrow> parses_on (ret x) [] rest y"
  by (simp add: parses_on_def ret_def)

lemma parses_on_bind:
  assumes "parses_on m xs (ys @ rest) a" and "parses_on (f a) ys rest y"
  shows "parses_on (bind m f) (xs @ ys) rest y"
proof (rule parses_onI)
  fix b assume b: "bb_inv b" "unread b = (xs @ ys) @ rest"
  let ?b = "b\<lparr>bb_pos := bb_pos b + length xs\<rparr>"
  have "m b = Ok (a, ?b)" using parses_onD [OF assms(1) b(1)] b(2) by simp
  moreover have "bb_inv ?b" using bb_inv_skip [OF b(1)] b(2) by simp
  moreover have "unread ?b = ys @ rest" using b(2) by simp
  ultimately show "bind m f b = Ok (y, b\<lparr>bb_pos := bb_pos b + length (xs @ ys)\<rparr>)"
    using parses_onD [OF assms(2), of ?b] by (simp add: bind_def add.assoc)
qed

lemma parses_bind: "parses m xs a \<Longrightarrow> parses_on (f a) ys rest y \<Longrightarrow> parses_on (bind m f) (xs @ ys) rest y"
  by (rule parses_on_bind) auto

lemma parses_bind_last: "parses m xs a \<Longrightarrow> parses_on (f a) [] rest y \<Longrightarrow> parses_on (bind m f) xs rest y"
  using parses_bind [of m xs a f "[]"] by simp

lemma parses_eq: "parses_on m xs rest y \<Longrightarrow> xs = zs \<Longrightarrow> parses_on m zs rest y"
  by simp

lemma parses_read_field: "n \<le> 64 \<Longrightarrow> length bs = n \<Longrightarrow> parses (read_field n s) bs (of_bits bs)"
  by (intro parsesI parses_onI) (simp add: read_field_spec)

lemma parses_field: "n \<le> 64 \<Longrightarrow> fits n v \<Longrightarrow> parses (read_field n s) (to_bits n v) v"
  using parses_read_field [of n "to_bits n v" s] by simp

lemma parses_field_bind [parses_intros]:
  "n \<le> 64 \<Longrightarrow> fits n v \<Longrightarrow> parses_on (f v) ys rest y \<Longrightarrow> parses_on (bind (read_field n s) f) (to_bits n v @ ys) rest y"
  by (rule parses_bind [OF parses_field])

lemma parses_field_last [parses_intros]:
  "n \<le> 64 \<Longrightarrow> fits n v \<Longrightarrow> parses_on (f v) [] rest y \<Longrightarrow> parses_on (bind (read_field n s) f) (to_bits n v) rest y"
  by (rule parses_bind_last [OF parses_field])

lemma parses_bits_bind [parses_intros]:
  "n \<le> 64 \<Longrightarrow> fits n v \<Longrightarrow> parses_on (f (Some v)) ys rest y \<Longrightarrow> parses_on (bind (read_bits n) f) (to_bits n v @ ys) rest y"
  by (rule parses_bind [where m = "read_bits n" and xs = "to_bits n v"])
     (auto intro!: parsesI parses_onI simp: read_bits_spec)

lemma parses_guard_bind [parses_intros]: "c \<Longrightarrow> parses_on (f ()) ys rest y \<Longrightarrow> parses_on (bind (guard c) f) ys rest y"
  by simp

section \<open>Panic freedom of readers\<close>

definition safe :: "'a bb \<Rightarrow> bool" where
  "safe m \<longleftrightarrow> (\<forall>b. bb_inv b \<longrightarrow>
     (case m b of
        Ok (x, b') \<Rightarrow> (\<exists>p. bb_pos b \<le> p \<and> p \<le> bb_end b \<and> b' = b\<lparr>bb_pos := p\<rparr>)
      | Err e \<Rightarrow> True
      | Panic \<Rightarrow> False))"

lemma safeE:
  assumes "safe m" and "bb_inv b"
  obtains (ok) x p where "m b = Ok (x, b\<lparr>bb_pos := p\<rparr>)" and "bb_pos b \<le> p" and "p \<le> bb_end b"
  | (err) e where "m b = Err e"
proof (cases "m b")
  case (Ok r)
  moreover obtain x b' where "r = (x, b')" by (cases r)
  ultimately have "m b = Ok (x, b')" by simp
  moreover obtain p where "bb_pos b \<le> p" "p \<le> bb_end b" "b' = b\<lparr>bb_pos := p\<rparr>"
    using assms(1) [unfolded safe_def, rule_format, OF assms(2)] calculation by auto
  ultimately show thesis by (auto intro: ok)
next
  case (Err e)
  then show thesis by (rule err)
next
  case Panic
  with assms show thesis by (auto simp: safe_def)
qed

lemma safe_not_panic: "safe m \<Longrightarrow> bb_inv b \<Longrightarrow> m b \<noteq> Panic"
  by (auto elim: safeE)

lemma safe_ret [safe_intros]: "safe (ret x)"
  by (auto simp: safe_def ret_def bb_inv_def intro!: exI [where x = "bb_pos b" for b])

lemma safe_fail [safe_intros]: "safe (fail e)"
  by (simp add: safe_def fail_def)

lemma safe_bind [safe_intros]:
  assumes "safe m" and "\<And>x. safe (f x)"
  shows "safe (bind m f)"
  unfolding safe_def
proof (intro allI impI)
  fix b assume inv: "bb_inv b"
  from assms(1) inv show "case bind m f b of Ok (x, b') \<Rightarrow> \<exists>p. bb_pos b \<le> p \<and> p \<le> bb_end b \<and> b' = b\<lparr>bb_pos := p\<rparr>
      | Err e \<Rightarrow> True | Panic \<Rightarrow> False"
  proof (cases rule: safeE)
    case (ok x p)
    with inv have "bb_inv (b\<lparr>bb_pos := p\<rparr>)" by auto
    from assms(2) [of x] this show ?thesis
    proof (cases rule: safeE)
      case (ok y q)
      with \<open>m b = _\<close> \<open>bb_pos b \<le> p\<close> show ?thesis
        by (auto simp: bind_def intro!: exI [of _ q])
    next
      case (err e)
      with \<open>m b = _\<close> show ?thesis by (simp add: bind_def)
    qed
  next
    case (err e)
    then show ?thesis by (simp add: bind_def)
  qed
qed

lemma safe_read_bits: "safe (read_bits n)"
  unfolding safe_def
proof (intro allI impI)
  fix b assume "bb_inv b"
  then show "case read_bits n b of Ok (x, b') \<Rightarrow> \<exists>p. bb_pos b \<le> p \<and> p \<le> bb_end b \<and> b' = b\<lparr>bb_pos := p\<rparr>
      | Err e \<Rightarrow> True | Panic \<Rightarrow> False"
    using length_unread [of b]
    by (auto simp: read_bits_spec get_len_remaining_def bb_inv_def
        intro: exI [where x = "bb_pos b"] exI [where x = "bb_pos b + n"])
qed

lemma safe_read_field [safe_intros]: "safe (read_field n s)"
  unfolding read_field_def
  by (rule safe_bind [OF safe_read_bits]) (auto intro: safe_intros split: option.split)

text \<open>A field of \<open>n\<close> bits has a value that fits into \<open>n\<close> bits: the bound is known to what follows.\<close>

lemma safe_field_bind:
  assumes "\<And>v. fits n v \<Longrightarrow> safe (f v)"
  shows "safe (bind (read_field n s) f)"
  unfolding safe_def
proof (intro allI impI)
  fix b assume inv: "bb_inv b"
  show "case bind (read_field n s) f b of Ok (x, b') \<Rightarrow> \<exists>p. bb_pos b \<le> p \<and> p \<le> bb_end b \<and> b' = b\<lparr>bb_pos := p\<rparr>
      | Err e \<Rightarrow> True | Panic \<Rightarrow> False"
  proof (cases "n \<le> 64 \<and> n \<le> length (unread b)")
    case True
    let ?v = "of_bits (take n (unread b)) :: u64" and ?b = "b\<lparr>bb_pos := bb_pos b + n\<rparr>"
    have r: "read_field n s b = Ok (?v, ?b)" using inv True by (simp add: read_field_spec)
    have "safe (f ?v)" using True by (intro assms fits_of_bits) simp
    moreover have "bb_inv ?b" using inv True length_unread [OF inv] by (auto simp: bb_inv_def get_len_remaining_def)
    ultimately show ?thesis
    proof (cases rule: safeE)
      case (ok y q)
      with r show ?thesis by (auto simp: bind_def intro!: exI [of _ q])
    next
      case (err e)
      with r show ?thesis by (simp add: bind_def)
    qed
  next
    case False
    then show ?thesis using inv by (auto simp: bind_def read_field_spec)
  qed
qed

lemma safe_if [safe_intros]: "(c \<Longrightarrow> safe m) \<Longrightarrow> (\<not> c \<Longrightarrow> safe n) \<Longrightarrow> safe (if c then m else n)"
  by simp

lemma safe_case_option [safe_intros]:
  "(x = None \<Longrightarrow> safe m) \<Longrightarrow> (\<And>y. x = Some y \<Longrightarrow> safe (f y)) \<Longrightarrow> safe (case x of None \<Rightarrow> m | Some y \<Rightarrow> f y)"
  by (cases x) simp_all

text \<open>Every bit string is what some buffer has left to read.\<close>

lemma bytes_of_bits: "length bs = 8 * k \<Longrightarrow> \<exists>buf. length buf = k \<and> bytes_bits buf = bs"
proof (induction k arbitrary: bs)
  case 0
  then show ?case by (simp add: bytes_bits_def)
next
  case (Suc k)
  then obtain buf where buf: "length buf = k" "bytes_bits buf = drop 8 bs"
    by (metis diff_add_inverse length_drop mult_Suc_right)
  have "bytes_bits (of_bits (take 8 bs) # buf) = to_bits 8 (of_bits (take 8 bs) :: u8) @ bytes_bits buf"
    by (simp add: bytes_bits_def)
  also have "\<dots> = bs" using Suc.prems buf(2) by simp
  finally show ?case using buf(1) by (intro exI [of _ "of_bits (take 8 bs) # buf"]) simp
qed

lemma buffer_of_bits:
  assumes "length bs < 2 ^ 64"
  shows "\<exists>b. bb_inv b \<and> unread b = bs"
proof -
  let ?k = "div_ceil8 (length bs)"
  have le: "length bs \<le> 8 * ?k" by (simp add: div_ceil8_def)
  then have "length (bs @ replicate (8 * ?k - length bs) False) = 8 * ?k" by simp
  from bytes_of_bits [OF this] obtain buf where buf: "length buf = ?k"
    "bytes_bits buf = bs @ replicate (8 * ?k - length bs) False" by blast
  then show ?thesis
    using le assms
    by (intro exI [of _ "\<lparr>bb_buffer = buf, bb_start = 0, bb_pos = 0, bb_end = length bs, bb_autoexpand = False\<rparr>"])
       (simp add: bb_inv_def unread_def content_def)
qed

text \<open>What was written is read back from where it was written.\<close>

lemma wrote_readback:
  assumes "bb_inv b" and "wrote b bs b'" and "parses m bs x"
  shows "m (b'\<lparr>bb_pos := bb_pos b\<rparr>) = Ok (x, b')"
proof -
  let ?b = "b'\<lparr>bb_pos := bb_pos b\<rparr>"
  have le: "bb_pos b \<le> length (content b)" using assms(1) by (simp add: bb_inv_def)
  have "bb_inv ?b" using assms(1,2) by (auto simp: wrote_def bb_inv_def)
  moreover have "unread ?b = bs @ drop (bb_pos b + length bs) (content b)"
    using assms(2) le by (simp add: unread_def wrote_def drop_overwrite_at)
  ultimately have "m ?b = Ok (x, ?b\<lparr>bb_pos := bb_pos ?b + length bs\<rparr>)"
    by (rule parsesD [OF assms(3)])
  then show ?thesis using assms(2) by (simp add: wrote_def)
qed

section \<open>Codecs\<close>

text \<open>
  What a PDU or an information element promises: on well-formed values the writer emits the
  encoding and the reader parses that encoding back.
\<close>

locale codec =
  fixes wf :: "'a \<Rightarrow> bool"
    and enc :: "'a \<Rightarrow> bool list"
    and to_bitbuf :: "'a \<Rightarrow> unit bb"
    and from_bitbuf :: "'a bb"
  assumes emits: "wf p \<Longrightarrow> emits (to_bitbuf p) (enc p)"
    and parses: "wf p \<Longrightarrow> parses from_bitbuf (enc p) p"
begin

lemma parses_first: "wf p \<Longrightarrow> parses_on (f p) ys rest y \<Longrightarrow> parses_on (bind from_bitbuf f) (enc p @ ys) rest y"
  by (rule Codec.parses_bind [OF parses])

lemma parses_last: "wf p \<Longrightarrow> parses_on (f p) [] rest y \<Longrightarrow> parses_on (bind from_bitbuf f) (enc p) rest y"
  by (rule Codec.parses_bind_last [OF parses])

lemma roundtrip:
  assumes "wf p" and "bb_inv b" and "room b (length (enc p))"
  shows "\<exists>b'. to_bitbuf p b = Ok ((), b') \<and> bb_pos b' = bb_pos b + length (enc p) \<and>
     from_bitbuf (b'\<lparr>bb_pos := bb_pos b\<rparr>) = Ok (p, b')"
proof -
  from emits [OF assms(1)] assms(2,3) obtain b' where b': "to_bitbuf p b = Ok ((), b')" "wrote b (enc p) b'"
    by (rule emitsE)
  from wrote_readback [OF assms(2) b'(2) parses [OF assms(1)]] b' show ?thesis by (auto simp: wrote_def)
qed

text \<open>Distinct well-formed values have encodings of which neither is a prefix of the other.\<close>

lemma enc_prefix_free:
  assumes "wf p" and "wf q" and "enc p @ xs = enc q @ ys" and "length (enc p @ xs) < 2 ^ 64"
  shows "p = q"
proof -
  obtain b where b: "bb_inv b" "unread b = enc p @ xs"
    using buffer_of_bits [OF assms(4)] by blast
  show ?thesis
    using parsesD [OF parses [OF assms(1)] b(1), of xs] parsesD [OF parses [OF assms(2)] b(1), of ys] b(2) assms(3)
    by simp
qed

end

text \<open>A codec whose reader is exposed to received bits: it never panics.\<close>

locale safe_codec = codec +
  assumes safe: "safe from_bitbuf"
begin

lemma no_panic: "bb_inv b \<Longrightarrow> from_bitbuf b \<noteq> Panic"
  using safe by (rule safe_not_panic)

end

end
