(* ===== verification/Typed_Fields.thy ===== *)
theory Typed_Fields
  imports Codec
begin

text \<open>
  \<open>tetra-core/src/typed_pdu_fields.rs\<close>: the optional elements of the layer-3 PDUs. A type-2 element is
  preceded by a presence bit; type-3 and type-4 elements carry an m-bit, a 4-bit identifier and an
  11-bit length, which the writer fills in after the element is written. The readers face received
  bits: their lengths and counts come from the peer.
\<close>

section \<open>Delimiter bits\<close>

definition read_obit :: "bool bb" where
  "read_obit = bind (read_field 1 ''obit'') (\<lambda>v. ret (v = 1))"

definition write_obit :: "u8 \<Rightarrow> unit bb" where
  "write_obit val = write_bit val"

definition read_pbit :: "bool bb" where
  "read_pbit = bind (read_field 1 ''pbit'') (\<lambda>v. ret (v = 1))"

definition write_pbit :: "u8 \<Rightarrow> unit bb" where
  "write_pbit val = write_bit val"

definition read_mbit :: "bool bb" where
  "read_mbit = bind (read_field 1 ''mbit'') (\<lambda>v. ret (v = 1))"

definition write_mbit :: "u8 \<Rightarrow> unit bb" where
  "write_mbit val = write_bit val"

section \<open>Type-2 elements\<close>

definition parse_type2_generic :: "bool \<Rightarrow> nat \<Rightarrow> string \<Rightarrow> u64 option bb" where
  "parse_type2_generic obit num_bits field_name =
     (if \<not> obit then ret None
      else bind read_pbit (\<lambda>p.
        if p then bind (read_field num_bits field_name) (\<lambda>v. ret (Some v)) else ret None))"

definition parse_type2_struct :: "bool \<Rightarrow> 'a bb \<Rightarrow> 'a option bb" where
  "parse_type2_struct obit parser =
     (if \<not> obit then ret None
      else bind read_pbit (\<lambda>p. if p then bind parser (\<lambda>v. ret (Some v)) else ret None))"

definition write_type2_generic :: "bool \<Rightarrow> u64 option \<Rightarrow> nat \<Rightarrow> unit bb" where
  "write_type2_generic obit value len =
     (if \<not> obit then guard (value = None)
      else case value of
        Some v \<Rightarrow> seq [write_pbit 1, write_bits v len]
      | None \<Rightarrow> write_pbit 0)"

definition write_type2_struct :: "bool \<Rightarrow> 'a option \<Rightarrow> ('a \<Rightarrow> unit bb) \<Rightarrow> unit bb" where
  "write_type2_struct obit value writer =
     (if \<not> obit then guard (value = None)
      else case value of
        Some v \<Rightarrow> seq [write_pbit 1, writer v]
      | None \<Rightarrow> write_pbit 0)"

section \<open>Type-3 elements\<close>

record type3_field_generic =
  t3_field_id :: u64
  t3_len :: nat
  t3_data :: u128

record type4_field_generic =
  t4_field_id :: u64
  t4_len :: nat
  t4_elems :: nat
  t4_data :: u64

definition peek_type34_mbit_and_id :: "u64 \<Rightarrow> bool bb" where
  "peek_type34_mbit_and_id expected_id =
     bind (peek_bits 1) (\<lambda>mbit. case mbit of
       None \<Rightarrow> fail (BufferEnded (Some ''peek_type34_mbit_and_id mbit''))
     | Some m \<Rightarrow>
         if m = 0 then ret False
         else if m = 1 then
           bind (peek_bits_posoffset 1 4) (\<lambda>id_bits. case id_bits of
             Some i \<Rightarrow> if i = expected_id then ret True else ret False
           | None \<Rightarrow> fail (BufferEnded (Some ''peek_type34_mbit_and_id id_bits'')))
         else panic)"

text \<open>\<open>read_bits(n)\<close> matched against \<open>None\<close>: an early return with \<open>BufferEnded\<close>.\<close>

definition read_or_ended :: "nat \<Rightarrow> string \<Rightarrow> u64 bb" where
  "read_or_ended n s =
     bind (read_bits n) (\<lambda>r. case r of Some x \<Rightarrow> ret x | None \<Rightarrow> fail (BufferEnded (Some s)))"

definition read_type3_payload :: "nat \<Rightarrow> u128 bb" where
  "read_type3_payload n =
     (if n \<le> 64 then bind (read_or_ended n ''parse_type3_generic data'') (\<lambda>v. ret (ucast v))
      else bind (read_or_ended (n - 64) ''parse_type3_generic data (high)'') (\<lambda>hi.
           bind (read_or_ended 64 ''parse_type3_generic data (low)'') (\<lambda>lo.
           ret (push_bit 64 (ucast hi) OR ucast lo))))"

definition parse_type3_generic :: "bool \<Rightarrow> u64 \<Rightarrow> type3_field_generic option bb" where
  "parse_type3_generic obit expected_id =
     (if \<not> obit then ret None
      else bind (peek_type34_mbit_and_id expected_id) (\<lambda>field_present.
        if \<not> field_present then ret None
        else
          bind (seek_rel 5) (\<lambda>_.
          bind (read_or_ended 11 ''parse_type3_generic len_bits'') (\<lambda>len.
          let len_bits = unat len in
          bind (gets get_len_remaining) (\<lambda>remaining.
          if len_bits > remaining then fail (BufferEnded (Some ''parse_type3_generic data''))
          else
            bind (read_type3_payload (if len_bits > 128 then 128 else len_bits)) (\<lambda>data.
            bind (if len_bits > 128 then try_seek_rel (int len_bits - 128) else ret (Some ())) (\<lambda>skipped.
            if skipped = None then fail (BufferEnded (Some ''parse_type3_generic skip''))
            else ret (Some \<lparr>t3_field_id = expected_id, t3_len = len_bits, t3_data = data\<rparr>))))))))"

definition parse_type3_struct :: "bool \<Rightarrow> u64 \<Rightarrow> 'a bb \<Rightarrow> 'a option bb" where
  "parse_type3_struct obit expected_id parser =
     (if \<not> obit then ret None
      else bind (peek_type34_mbit_and_id expected_id) (\<lambda>field_present.
        if \<not> field_present then ret None
        else
          bind (seek_rel 5) (\<lambda>_.
          bind (read_or_ended 11 ''parse_type3_struct len_bits'') (\<lambda>len.
          let len_bits = unat len in
          bind (gets get_pos) (\<lambda>start_pos.
          bind parser (\<lambda>result.
          bind (gets get_pos) (\<lambda>pos.
          if start_pos + len_bits \<noteq> pos then fail (InconsistentLength len_bits (pos - start_pos))
          else ret (Some result))))))))"

definition write_type34_header_generic :: "u64 \<Rightarrow> unit bb" where
  "write_type34_header_generic field_type = seq [write_mbit 1, write_bits field_type 4]"

definition write_type3_struct :: "bool \<Rightarrow> 'a option \<Rightarrow> u64 \<Rightarrow> ('a \<Rightarrow> unit bb) \<Rightarrow> unit bb" where
  "write_type3_struct obit value field_id writer =
     (if \<not> obit \<and> value \<noteq> None then fail (InvalidValue ''write_type3_struct'' field_id)
      else case value of
        Some elem \<Rightarrow>
          bind (write_type34_header_generic field_id) (\<lambda>_.
          bind (gets bb_pos) (\<lambda>pos_len_field.
          bind (write_bits 0 11) (\<lambda>_.
          bind (writer elem) (\<lambda>_.
          bind (gets bb_pos) (\<lambda>pos_end.
          seq [set_raw_pos pos_len_field,
               write_bits (of_nat (pos_end - pos_len_field - 11)) 11,
               set_raw_pos pos_end])))))
      | None \<Rightarrow> ret ())"

definition write_type3_generic :: "bool \<Rightarrow> type3_field_generic option \<Rightarrow> u64 \<Rightarrow> unit bb" where
  "write_type3_generic obit value field_id =
     (if \<not> obit \<and> value \<noteq> None then fail (InvalidValue ''write_type3_generic'' field_id)
      else case value of
        Some elem \<Rightarrow>
          bind (write_type34_header_generic field_id) (\<lambda>_.
          bind (write_bits (of_nat (t3_len elem)) 11) (\<lambda>_.
          if t3_len elem \<le> 64 then write_bits (ucast (t3_data elem)) (t3_len elem)
          else seq [write_bits (ucast (drop_bit 64 (t3_data elem))) (t3_len elem - 64),
                    write_bits (ucast (t3_data elem)) 64]))
      | None \<Rightarrow> ret ())"

section \<open>Type-4 elements\<close>

definition parse_type4_header :: "u64 \<Rightarrow> (nat \<times> nat) option bb" where
  "parse_type4_header expected_id =
     bind (peek_type34_mbit_and_id expected_id) (\<lambda>field_present.
       if \<not> field_present then ret None
       else
         bind (seek_rel 5) (\<lambda>_.
         bind (read_or_ended 11 ''parse_type4_header len_bits'') (\<lambda>len.
         bind (read_or_ended 6 ''parse_type4_header num_elems'') (\<lambda>num_elems.
         if unat len < 6 then fail (InconsistentLength 6 (unat len))
         else
           bind (gets get_len_remaining) (\<lambda>remaining.
           if unat len - 6 > remaining then fail (BufferEnded (Some ''parse_type4_header payload''))
           else ret (Some (unat num_elems, unat len - 6)))))))"

text \<open>The loop \<open>for _ in 0..num_elems\<close> of \<open>parse_type4_struct\<close>.\<close>

primrec parse_elems :: "nat \<Rightarrow> 'a bb \<Rightarrow> 'a list bb" where
  "parse_elems 0 parser = ret []"
| "parse_elems (Suc n) parser = bind parser (\<lambda>x. bind (parse_elems n parser) (\<lambda>xs. ret (x # xs)))"

definition parse_type4_struct :: "bool \<Rightarrow> u64 \<Rightarrow> 'a bb \<Rightarrow> 'a list option bb" where
  "parse_type4_struct obit expected_id parser =
     (if \<not> obit then ret None
      else bind (parse_type4_header expected_id) (\<lambda>h. case h of
        None \<Rightarrow> ret None
      | Some (num_elems, len_bits) \<Rightarrow>
          bind (gets get_pos) (\<lambda>start_pos.
          bind (parse_elems num_elems parser) (\<lambda>elems.
          bind (gets get_pos) (\<lambda>pos.
          if start_pos + len_bits \<noteq> pos then fail (InconsistentLength len_bits (pos - start_pos))
          else ret (Some elems))))))"

definition parse_type4_generic :: "bool \<Rightarrow> u64 \<Rightarrow> type4_field_generic option bb" where
  "parse_type4_generic obit expected_id =
     (if \<not> obit then ret None
      else bind (parse_type4_header expected_id) (\<lambda>h. case h of
        None \<Rightarrow> ret None
      | Some (num_elems, len_bits) \<Rightarrow>
          bind (read_field (if len_bits > 64 then 64 else len_bits) ''parse_type4_header'') (\<lambda>val.
          bind (if len_bits > 64 then try_seek_rel (int len_bits - 64) else ret (Some ())) (\<lambda>skipped.
          if skipped = None then fail (BufferEnded (Some ''parse_type4_generic skip''))
          else ret (Some \<lparr>t4_field_id = expected_id, t4_len = len_bits, t4_elems = num_elems, t4_data = val\<rparr>)))))"

definition write_type4_struct :: "bool \<Rightarrow> 'a list option \<Rightarrow> u64 \<Rightarrow> ('a \<Rightarrow> unit bb) \<Rightarrow> unit bb" where
  "write_type4_struct obit value field_id writer =
     (if \<not> obit \<and> value \<noteq> None then fail (InvalidValue ''write_type4_struct'' field_id)
      else case value of
        Some elems \<Rightarrow>
          bind (write_type34_header_generic field_id) (\<lambda>_.
          bind (gets bb_pos) (\<lambda>pos_len_field.
          bind (write_bits 0 (11 + 6)) (\<lambda>_.
          bind (seq (map writer elems)) (\<lambda>_.
          bind (gets bb_pos) (\<lambda>pos_end.
          seq [set_raw_pos pos_len_field,
               write_bits (of_nat (pos_end - pos_len_field - 11)) 11,
               write_bits (of_nat (length elems)) 6,
               set_raw_pos pos_end])))))
      | None \<Rightarrow> ret ())"

definition write_type4_todo :: "bool \<Rightarrow> type4_field_generic option \<Rightarrow> u64 \<Rightarrow> unit bb" where
  "write_type4_todo obit value field_id =
     (if \<not> obit \<and> value \<noteq> None then fail (InvalidValue ''write_type4_todo'' field_id)
      else case value of Some elem \<Rightarrow> panic | None \<Rightarrow> ret ())"

end
