(* ===== verification/Typed_Fields_Spec.thy ===== *)
theory Typed_Fields_Spec
  imports Typed_Fields
begin

text \<open>
  Encodings of the optional elements, and for each writer and reader of \<open>Typed_Fields\<close>: what it emits,
  what it parses, and that no received bits make a reader panic. The lemmas on struct elements
  are proved once in the context of the \<open>codec\<close> locale and are inherited by every element codec.
\<close>

section \<open>Encodings\<close>

definition enc_type2 :: "bool \<Rightarrow> ('a \<Rightarrow> bool list) \<Rightarrow> 'a option \<Rightarrow> bool list" where
  "enc_type2 obit f v = (if obit then (case v of None \<Rightarrow> [False] | Some x \<Rightarrow> True # f x) else [])"

definition elem34 :: "u64 \<Rightarrow> bool list \<Rightarrow> bool list" where
  "elem34 i body = True # to_bits 4 i @ body"

definition enc_type3 :: "u64 \<Rightarrow> ('a \<Rightarrow> bool list) \<Rightarrow> 'a option \<Rightarrow> bool list" where
  "enc_type3 i f v =
     (case v of None \<Rightarrow> [] | Some x \<Rightarrow> elem34 i (to_bits 11 (of_nat (length (f x)) :: u64) @ f x))"

definition enc_type4 :: "u64 \<Rightarrow> ('a \<Rightarrow> bool list) \<Rightarrow> 'a list option \<Rightarrow> bool list" where
  "enc_type4 i f v =
     (case v of None \<Rightarrow> []
      | Some xs \<Rightarrow> elem34 i (to_bits 11 (of_nat (6 + length (concat (map f xs))) :: u64) @
                           to_bits 6 (of_nat (length xs) :: u64) @ concat (map f xs)))"

text \<open>The bits ahead do not start with the element \<open>i\<close>.\<close>

definition no_elem :: "u64 \<Rightarrow> bool list \<Rightarrow> bool" where
  "no_elem i rest = (case rest of [] \<Rightarrow> False | m # r \<Rightarrow> \<not> m \<or> (4 \<le> length r \<and> of_bits (take 4 r) \<noteq> i))"

lemma no_elem_False [simp]: "no_elem i (False # r)"
  by (simp add: no_elem_def)

lemma no_elem_elem34 [simp]: "fits 4 j \<Longrightarrow> no_elem i (elem34 j r @ r') \<longleftrightarrow> i \<noteq> j"
  by (auto simp: no_elem_def elem34_def)

lemma no_elem_enc_type3 [simp]: "fits 4 j \<Longrightarrow> i \<noteq> j \<Longrightarrow> no_elem i r \<Longrightarrow> no_elem i (enc_type3 j f v @ r)"
  by (simp add: enc_type3_def split: option.split)

lemma no_elem_enc_type4 [simp]: "fits 4 j \<Longrightarrow> i \<noteq> j \<Longrightarrow> no_elem i r \<Longrightarrow> no_elem i (enc_type4 j f v @ r)"
  by (simp add: enc_type4_def split: option.split)

section \<open>Single bits\<close>

lemma to_bits_bit: "to_bits 1 (of_bool b :: u64) = [b]"
  by (simp add: to_bits_def)

lemma emits_flag: "v = of_bool b \<Longrightarrow> emits (write_bit v) [b]"
  using emits_write_bit [of v] by (cases b) auto

lemma emits_delimiters [emits_intros]:
  "v = of_bool b \<Longrightarrow> emits (write_obit v) [b]"
  "v = of_bool b \<Longrightarrow> emits (write_pbit v) [b]"
  "v = of_bool b \<Longrightarrow> emits (write_mbit v) [b]"
  by (simp_all only: write_obit_def write_pbit_def write_mbit_def emits_flag)

lemma parses_bit: "parses (bind (read_field 1 s) (\<lambda>v. ret (v = 1))) [b] b"
proof (rule parsesI)
  fix rest
  have "parses_on (bind (read_field 1 s) (\<lambda>v. ret (v = 1))) (to_bits 1 (of_bool b :: u64)) rest b"
    by (rule parses_field_last) (auto intro: parses_intros)
  then show "parses_on (bind (read_field 1 s) (\<lambda>v. ret (v = 1))) [b] rest b"
    by (simp only: to_bits_bit)
qed

lemma parses_delimiter_bind [parses_intros]:
  "parses_on (f b) ys rest y \<Longrightarrow> parses_on (bind read_obit f) (b # ys) rest y"
  "parses_on (f b) ys rest y \<Longrightarrow> parses_on (bind read_pbit f) (b # ys) rest y"
  "parses_on (f b) ys rest y \<Longrightarrow> parses_on (bind read_mbit f) (b # ys) rest y"
  unfolding read_obit_def read_pbit_def read_mbit_def
  using parses_bind [OF parses_bit, of f b ys rest y] by simp_all

lemma safe_delimiters [safe_intros]: "safe read_obit" "safe read_pbit" "safe read_mbit"
  unfolding read_obit_def read_pbit_def read_mbit_def by (intro safe_intros)+

section \<open>Type-2 elements\<close>

lemma emits_type2_generic [emits_intros]:
  assumes "obit \<or> v = None" and "n \<le> 64" and "pred_option (fits n) v"
  shows "emits (write_type2_generic obit v n) (enc_type2 obit (to_bits n) v)"
proof (cases obit)
  case True
  show ?thesis
  proof (cases v)
    case (Some x)
    have "emits (seq [write_pbit 1, write_bits x n]) ([True] @ to_bits n x @ [])"
      using assms Some by (intro emits_intros) auto
    with True Some show ?thesis by (simp add: write_type2_generic_def enc_type2_def)
  qed (use True emits_delimiters(2) [of 0 False] in \<open>simp add: write_type2_generic_def enc_type2_def\<close>)
qed (use assms in \<open>simp add: write_type2_generic_def enc_type2_def emits_ret\<close>)

lemma parses_type2_generic:
  assumes "obit \<or> v = None" and "n \<le> 64" and "pred_option (fits n) v"
  shows "parses (parse_type2_generic obit n s) (enc_type2 obit (to_bits n) v) v"
  using assms
  by (cases v; intro parsesI)
     (auto simp: parse_type2_generic_def enc_type2_def intro!: parses_intros)

lemma parses_type2_generic_bind [parses_intros]:
  "obit \<or> v = None \<Longrightarrow> n \<le> 64 \<Longrightarrow> pred_option (fits n) v \<Longrightarrow> parses_on (f v) ys rest y \<Longrightarrow>
   parses_on (bind (parse_type2_generic obit n s) f) (enc_type2 obit (to_bits n) v @ ys) rest y"
  by (rule parses_bind [OF parses_type2_generic])

lemma safe_parse_type2_generic [safe_intros]: "safe (parse_type2_generic obit n s)"
  unfolding parse_type2_generic_def by (intro safe_intros)

lemma safe_parse_type2_struct [safe_intros]: "safe p \<Longrightarrow> safe (parse_type2_struct obit p)"
  unfolding parse_type2_struct_def by (intro safe_intros)

section \<open>The header of type-3 and type-4 elements\<close>

lemma of_bits_1: "of_bits [b] = (of_bool b :: 'a::len word)"
  by (simp add: of_bits_def)

lemma peek_type34_spec:
  assumes "bb_inv b"
  shows "peek_type34_mbit_and_id i b =
    (case unread b of
       [] \<Rightarrow> Err (BufferEnded (Some ''peek_type34_mbit_and_id mbit''))
     | m # r \<Rightarrow>
         if \<not> m then Ok (False, b)
         else if 4 \<le> length r then Ok (of_bits (take 4 r) = i, b)
         else Err (BufferEnded (Some ''peek_type34_mbit_and_id id_bits'')))"
proof (cases "unread b")
  case Nil
  then show ?thesis
    by (simp add: peek_type34_mbit_and_id_def bind_def peek_bits_spec [OF assms] fail_def)
next
  case (Cons m r)
  have "peek_bits 1 b = Ok (Some (of_bool m), b)"
    using Cons by (simp add: peek_bits_spec [OF assms] of_bits_1)
  moreover have "peek_bits_posoffset 1 4 b = (if 4 \<le> length r then Ok (Some (of_bits (take 4 r)), b) else Ok (None, b))"
    using Cons peek_bits_posoffset_spec [OF assms, of 1 4] by (simp add: Suc_le_eq)
  ultimately show ?thesis
    using Cons by (simp add: peek_type34_mbit_and_id_def bind_def ret_def fail_def)
qed

lemma seek_rel_forward:
  assumes "bb_inv b" and "n \<le> length (unread b)"
  shows "seek_rel (int n) b = Ok ((), b\<lparr>bb_pos := bb_pos b + n\<rparr>)"
    and "try_seek_rel (int n) b = Ok (Some (), b\<lparr>bb_pos := bb_pos b + n\<rparr>)"
  using assms length_unread [of b]
  by (auto simp: seek_rel_def try_seek_rel_def bind_def guard_def ret_def checked_add_def bb_inv_def get_len_remaining_def)

lemma parses_peek_present:
  assumes "fits 4 i" and "parses_on k ys rest y"
  shows "parses_on (bind (peek_type34_mbit_and_id i) (\<lambda>present. if \<not> present then n else bind (seek_rel 5) (\<lambda>_. k)))
     (elem34 i ys) rest y"
proof (rule parses_onI)
  fix b assume b: "bb_inv b" "unread b = elem34 i ys @ rest"
  let ?b = "b\<lparr>bb_pos := bb_pos b + 5\<rparr>"
  have u: "unread b = (True # to_bits 4 i) @ ys @ rest" using b(2) by (simp add: elem34_def)
  have "peek_type34_mbit_and_id i b = Ok (True, b)"
    using assms(1) by (simp add: peek_type34_spec [OF b(1)] u)
  moreover have "seek_rel 5 b = Ok ((), ?b)"
    using seek_rel_forward(1) [OF b(1), of 5] u by simp
  moreover have "bb_inv ?b" using bb_inv_skip [OF b(1) u] by simp
  moreover have "unread ?b = ys @ rest" using u by simp
  ultimately show "bind (peek_type34_mbit_and_id i) (\<lambda>present. if \<not> present then n else bind (seek_rel 5) (\<lambda>_. k)) b
      = Ok (y, b\<lparr>bb_pos := bb_pos b + length (elem34 i ys)\<rparr>)"
    using parses_onD [OF assms(2)] by (simp add: bind_def elem34_def)
qed

lemma parses_peek_absent:
  assumes "no_elem i rest" and "parses_on n [] rest y"
  shows "parses_on (bind (peek_type34_mbit_and_id i) (\<lambda>present. if \<not> present then n else k)) [] rest y"
proof (rule parses_onI)
  fix b assume b: "bb_inv b" "unread b = [] @ rest"
  have "peek_type34_mbit_and_id i b = Ok (False, b)"
    using assms(1) b(2) by (auto simp: peek_type34_spec [OF b(1)] no_elem_def split: list.splits)
  then show "bind (peek_type34_mbit_and_id i) (\<lambda>present. if \<not> present then n else k) b = Ok (y, b\<lparr>bb_pos := bb_pos b + length []\<rparr>)"
    using parses_onD [OF assms(2)] b by (simp add: bind_def)
qed

lemma safeI:
  "(\<And>b. bb_inv b \<Longrightarrow> (\<exists>e. m b = Err e) \<or> (\<exists>x p. m b = Ok (x, b\<lparr>bb_pos := p\<rparr>) \<and> bb_pos b \<le> p \<and> p \<le> bb_end b)) \<Longrightarrow> safe m"
  unfolding safe_def by fastforce

lemma safe_peek_type34 [safe_intros]:
  assumes "safe n" and "safe k"
  shows "safe (bind (peek_type34_mbit_and_id i) (\<lambda>present. if \<not> present then n else bind (seek_rel 5) (\<lambda>_. k)))"
proof (rule safeI)
  fix b assume inv: "bb_inv b"
  let ?m = "bind (peek_type34_mbit_and_id i) (\<lambda>present. if \<not> present then n else bind (seek_rel 5) (\<lambda>_. k))"
  let ?b = "b\<lparr>bb_pos := bb_pos b + 5\<rparr>"
  have n: "(\<exists>e. n b = Err e) \<or> (\<exists>x p. n b = Ok (x, b\<lparr>bb_pos := p\<rparr>) \<and> bb_pos b \<le> p \<and> p \<le> bb_end b)"
    using assms(1) inv by (cases rule: safeE) auto
  have k: "(\<exists>e. bind (seek_rel 5) (\<lambda>_. k) b = Err e) \<or>
      (\<exists>x p. bind (seek_rel 5) (\<lambda>_. k) b = Ok (x, b\<lparr>bb_pos := p\<rparr>) \<and> bb_pos b \<le> p \<and> p \<le> bb_end b)"
    if "5 \<le> length (unread b)"
  proof -
    have "seek_rel 5 b = Ok ((), ?b)" using seek_rel_forward(1) [OF inv, of 5] that by simp
    then have e: "bind (seek_rel 5) (\<lambda>_. k) b = k ?b" by (simp add: bind_def)
    have "bb_inv ?b" using inv that length_unread [OF inv] by (auto simp: bb_inv_def get_len_remaining_def)
    from assms(2) this show ?thesis unfolding e by (cases rule: safeE) auto
  qed
  show "(\<exists>e. ?m b = Err e) \<or> (\<exists>x p. ?m b = Ok (x, b\<lparr>bb_pos := p\<rparr>) \<and> bb_pos b \<le> p \<and> p \<le> bb_end b)"
    using n k by (cases "unread b") (auto simp: bind_def [of "peek_type34_mbit_and_id i"] peek_type34_spec [OF inv])
qed

lemma read_or_ended_eq: "read_or_ended n s = read_field n s"
  by (simp add: read_or_ended_def read_field_def fun_eq_iff)

lemma safe_gets [safe_intros]: "(\<And>x. safe (f x)) \<Longrightarrow> safe (bind (gets g) f)"
  by (auto simp: safe_def bind_def gets_def)

lemma safe_try_seek_rel [safe_intros]: "0 \<le> d \<Longrightarrow> safe (try_seek_rel d)"
proof (rule safeI)
  fix b assume "0 \<le> d" and inv: "bb_inv b"
  have "\<exists>x p. try_seek_rel d b = Ok (x, b\<lparr>bb_pos := p\<rparr>) \<and> bb_pos b \<le> p \<and> p \<le> bb_end b"
  proof (cases "\<exists>q. checked_add_signed (bb_pos b) d = Some q \<and> q \<le> bb_end b")
    case True
    then obtain q where q: "checked_add_signed (bb_pos b) d = Some q" "q \<le> bb_end b" by blast
    with \<open>0 \<le> d\<close> have "bb_pos b \<le> q" by (auto simp: checked_add_signed_def split: if_splits)
    with q inv show ?thesis
      by (intro exI [of _ "Some ()"] exI [of _ q]) (auto simp: try_seek_rel_def bb_inv_def)
  next
    case False
    then have "try_seek_rel d b = Ok (None, b\<lparr>bb_pos := bb_pos b\<rparr>)"
      by (auto simp: try_seek_rel_def split: option.split)
    with inv show ?thesis unfolding bb_inv_def by blast
  qed
  then show "(\<exists>e. try_seek_rel d b = Err e) \<or> (\<exists>x p. try_seek_rel d b = Ok (x, b\<lparr>bb_pos := p\<rparr>) \<and> bb_pos b \<le> p \<and> p \<le> bb_end b)"
    by blast
qed

section \<open>Panic freedom of the type-3 and type-4 readers\<close>

lemma safe_read_type3_payload [safe_intros]: "safe (read_type3_payload n)"
  unfolding read_type3_payload_def read_or_ended_eq by (intro safe_intros)

lemma safe_parse_type3_generic [safe_intros]: "safe (parse_type3_generic obit i)"
  unfolding parse_type3_generic_def read_or_ended_eq Let_def by (intro safe_intros) linarith

lemma safe_parse_type3_struct [safe_intros]: "safe p \<Longrightarrow> safe (parse_type3_struct obit i p)"
  unfolding parse_type3_struct_def read_or_ended_eq Let_def by (intro safe_intros)

lemma safe_parse_type4_header [safe_intros]: "safe (parse_type4_header i)"
  unfolding parse_type4_header_def read_or_ended_eq by (intro safe_intros)

lemma safe_parse_elems [safe_intros]: "safe p \<Longrightarrow> safe (parse_elems n p)"
  by (induction n) (auto intro!: safe_intros)

lemma safe_parse_type4_struct [safe_intros]: "safe p \<Longrightarrow> safe (parse_type4_struct obit i p)"
  unfolding parse_type4_struct_def by (intro safe_intros) (auto intro!: safe_intros split: prod.split)

lemma safe_parse_type4_generic [safe_intros]: "safe (parse_type4_generic obit i)"
  unfolding parse_type4_generic_def by (intro safe_intros) (auto intro!: safe_intros split: prod.split)

section \<open>Backfilled headers\<close>

lemma wrote_backfill:
  assumes inv: "bb_inv b" and w: "wrote b (zs @ ys) b2" and h: "emits h hs" and len: "length hs = length zs"
  shows "\<exists>b3. bind (set_raw_pos (bb_pos b)) (\<lambda>_. bind h (\<lambda>_. set_raw_pos (bb_pos b2))) b2 = Ok ((), b3) \<and> wrote b (hs @ ys) b3"
proof -
  let ?r = "b2\<lparr>bb_pos := bb_pos b\<rparr>"
  have le: "bb_pos b \<le> length (content b)" using inv by (simp add: bb_inv_def)
  have b2: "bb_inv b2" "bb_start b2 = bb_start b" "bb_pos b2 = bb_pos b + length zs + length ys"
    using w by (auto simp: wrote_def)
  have r: "bb_inv ?r" using b2 inv by (auto simp: bb_inv_def)
  have "room ?r (length hs)" using b2 len by (simp add: room_def bb_inv_def)
  with h r obtain b3 where b3: "h ?r = Ok ((), b3)" "wrote ?r hs b3" by (rule emitsE)
  have e3: "bb_end b3 = bb_end b2" using wrote_end [OF b3(2) r] b2 len by (simp add: bb_inv_def)
  have i3: "bb_inv b3" using b3(2) by (simp add: wrote_def)
  have "set_raw_pos (bb_pos b2) b3 = Ok ((), b3\<lparr>bb_pos := bb_pos b2\<rparr>)"
    using b3(2) b2 e3 by (simp add: set_raw_pos_def wrote_def bb_inv_def)
  moreover have "set_raw_pos (bb_pos b) b2 = Ok ((), ?r)"
    using b2 inv by (simp add: set_raw_pos_def bb_inv_def)
  moreover have "content b3 = overwrite (content b) (bb_pos b) (hs @ ys)"
    using b3(2) w le len by (simp add: wrote_def overwrite_shadow)
  moreover have "bb_inv (b3\<lparr>bb_pos := bb_pos b2\<rparr>)"
    using i3 b2 e3 b3(2) by (simp add: bb_inv_def wrote_def)
  ultimately show ?thesis
    using b3 b2 len w by (intro exI [of _ "b3\<lparr>bb_pos := bb_pos b2\<rparr>"]) (simp add: bind_def wrote_def)
qed

lemma emits_backfill:
  assumes z: "emits z zs" and w: "emits w ys" and h: "\<And>p. emits (h p (p + length zs + length ys)) hs"
    and len: "length hs = length zs"
  shows "emits (bind (gets bb_pos) (\<lambda>p. bind z (\<lambda>_. bind w (\<lambda>_. bind (gets bb_pos) (\<lambda>e.
     bind (set_raw_pos p) (\<lambda>_. bind (h p e) (\<lambda>_. set_raw_pos e))))))) (hs @ ys)"
proof
  fix b assume inv: "bb_inv b" and r: "room b (length (hs @ ys))"
  have "emits (bind z (\<lambda>_. w)) (zs @ ys)" using z w by (rule emits_bind)
  moreover have "room b (length (zs @ ys))" using r len by simp
  ultimately obtain b2 where b2: "bind z (\<lambda>_. w) b = Ok ((), b2)" "wrote b (zs @ ys) b2"
    using inv by (metis emitsE)
  then have "bb_pos b2 = bb_pos b + length zs + length ys" by (simp add: wrote_def)
  with wrote_backfill [OF inv b2(2) h len] obtain b3 where
    b3: "bind (set_raw_pos (bb_pos b)) (\<lambda>_. bind (h (bb_pos b) (bb_pos b2)) (\<lambda>_. set_raw_pos (bb_pos b2))) b2 = Ok ((), b3)"
    "wrote b (hs @ ys) b3" by metis
  moreover have "bind (gets bb_pos) (\<lambda>p. bind z (\<lambda>_. bind w (\<lambda>_. bind (gets bb_pos) (\<lambda>e.
     bind (set_raw_pos p) (\<lambda>_. bind (h p e) (\<lambda>_. set_raw_pos e)))))) b = Ok ((), b3)"
    using b2(1) b3(1) by (auto simp: bind_def gets_def split: outcome.splits prod.splits)
  ultimately show "\<exists>b'. bind (gets bb_pos) (\<lambda>p. bind z (\<lambda>_. bind w (\<lambda>_. bind (gets bb_pos) (\<lambda>e.
     bind (set_raw_pos p) (\<lambda>_. bind (h p e) (\<lambda>_. set_raw_pos e)))))) b = Ok ((), b') \<and> wrote b (hs @ ys) b'" by blast
qed

lemma emits_type34_header: "fits 4 i \<Longrightarrow> emits (write_type34_header_generic i) (True # to_bits 4 i)"
  using emits_bind [OF emits_delimiters(3) [of 1 True] emits_write_bits [of 4 i]]
  by (simp add: write_type34_header_generic_def)

lemma fits_of_nat: "k < 2 ^ n \<Longrightarrow> n < 64 \<Longrightarrow> fits n (of_nat k :: u64)"
proof -
  assume k: "k < 2 ^ n" and "n < 64"
  then have "(2 :: nat) ^ n < 2 ^ 64" by (intro power_strict_increasing) simp_all
  with k have "k < 2 ^ 64" by linarith
  then show ?thesis using k by (simp add: fits_unat unat_of_nat)
qed

lemma unat_len_field [simp]: "k < 2048 \<Longrightarrow> unat (of_nat k :: u64) = k"
  by (simp add: unat_of_nat)

section \<open>Struct elements over a codec\<close>

lemma emits_type3_struct:
  assumes "obit \<or> v = None" and "fits 4 i"
    and w: "\<And>x. v = Some x \<Longrightarrow> emits (w x) (f x) \<and> length (f x) < 2048"
  shows "emits (write_type3_struct obit v i w) (enc_type3 i f v)"
proof (cases v)
  case None
  then show ?thesis by (simp add: write_type3_struct_def enc_type3_def emits_ret)
next
  case (Some x)
  let ?l = "to_bits 11 (of_nat (length (f x)) :: u64)"
  have z: "emits (write_bits 0 11) (replicate 11 False)"
    using emits_write_bits [of 11 0] by (simp add: to_bits_zero)
  have "emits (bind (gets bb_pos) (\<lambda>p. bind (write_bits 0 11) (\<lambda>_. bind (w x) (\<lambda>_. bind (gets bb_pos) (\<lambda>e.
     bind (set_raw_pos p) (\<lambda>_. bind (write_bits (of_nat (e - p - 11)) 11) (\<lambda>_. set_raw_pos e))))))) (?l @ f x)"
    by (rule emits_backfill [OF z]) (use w [OF Some] in \<open>auto intro!: emits_write_bits fits_of_nat\<close>)
  from emits_bind [OF emits_type34_header [OF assms(2)] this] show ?thesis
    using Some assms(1) by (simp add: write_type3_struct_def enc_type3_def elem34_def)
qed

lemma emits_seq_map:
  "(\<And>x. x \<in> set xs \<Longrightarrow> emits (w x) (f x)) \<Longrightarrow> emits (seq (map w xs)) (concat (map f xs))"
  by (induction xs) (auto intro!: emits_ret emits_bind)

lemma emits_type4_struct:
  assumes "obit \<or> v = None" and "fits 4 i"
    and w: "\<And>xs x. v = Some xs \<Longrightarrow> x \<in> set xs \<Longrightarrow> emits (w x) (f x)"
    and l: "\<And>xs. v = Some xs \<Longrightarrow> 6 + length (concat (map f xs)) < 2048 \<and> length xs < 64"
  shows "emits (write_type4_struct obit v i w) (enc_type4 i f v)"
proof (cases v)
  case None
  then show ?thesis by (simp add: write_type4_struct_def enc_type4_def emits_ret)
next
  case (Some xs)
  let ?ys = "concat (map f xs)"
  let ?l = "to_bits 11 (of_nat (6 + length ?ys) :: u64)" and ?n = "to_bits 6 (of_nat (length xs) :: u64)"
  have z: "emits (write_bits 0 (11 + 6)) (replicate (11 + 6) False)"
    using emits_write_bits [of 17 0] by (simp add: to_bits_zero)
  have h: "emits (bind (write_bits (of_nat (p + length (replicate (11 + 6) False) + length ?ys - p - 11)) 11)
      (\<lambda>_. write_bits (of_nat (length xs)) 6)) (?l @ ?n)" for p
    using l [OF Some] by (intro emits_bind) (auto simp del: of_nat_add intro!: emits_write_bits fits_of_nat)
  have "emits (bind (gets bb_pos) (\<lambda>p. bind (write_bits 0 (11 + 6)) (\<lambda>_. bind (seq (map w xs)) (\<lambda>_. bind (gets bb_pos) (\<lambda>e.
     bind (set_raw_pos p) (\<lambda>_. bind (bind (write_bits (of_nat (e - p - 11)) 11) (\<lambda>_. write_bits (of_nat (length xs)) 6))
       (\<lambda>_. set_raw_pos e))))))) ((?l @ ?n) @ ?ys)"
    using emits_backfill [where h = "\<lambda>p e. bind (write_bits (of_nat (e - p - 11)) 11) (\<lambda>_. write_bits (of_nat (length xs)) 6)",
        OF z emits_seq_map [of xs w f, OF w [OF Some]] h] by simp
  from emits_bind [OF emits_type34_header [OF assms(2)] this] show ?thesis
    using Some assms(1) by (simp add: write_type4_struct_def enc_type4_def elem34_def bind_assoc)
qed

lemma parses_gets_bind:
  "(\<And>b. bb_inv b \<Longrightarrow> unread b = bs @ rest \<Longrightarrow> parses_on (f (g b)) bs rest y) \<Longrightarrow> parses_on (bind (gets g) f) bs rest y"
  by (auto simp: parses_on_def bind_def gets_def)

text \<open>A reader followed by the check that it consumed the announced number of bits.\<close>

lemma parses_counted:
  assumes "parses m bs x" and "n = length bs"
  shows "parses_on (bind (gets get_pos) (\<lambda>s. bind m (\<lambda>r. bind (gets get_pos) (\<lambda>e.
     if s + n \<noteq> e then fail (err s e) else ret (g r))))) bs rest (g x)"
proof (rule parses_onI)
  fix b assume b: "bb_inv b" "unread b = bs @ rest"
  have "get_pos b + n = get_pos (b\<lparr>bb_pos := bb_pos b + length bs\<rparr>)"
    using b(1) assms(2) by (simp add: get_pos_def bb_inv_def)
  then show "bind (gets get_pos) (\<lambda>s. bind m (\<lambda>r. bind (gets get_pos) (\<lambda>e.
     if s + n \<noteq> e then fail (err s e) else ret (g r)))) b = Ok (g x, b\<lparr>bb_pos := bb_pos b + length bs\<rparr>)"
    using parsesD [OF assms(1) b] by (simp add: bind_def gets_def ret_def)
qed

lemma parses_elems:
  "(\<And>x. x \<in> set xs \<Longrightarrow> parses p (f x) x) \<Longrightarrow> parses (parse_elems (length xs) p) (concat (map f xs)) xs"
proof (induction xs)
  case Nil
  then show ?case by (auto intro!: parsesI parses_intros)
next
  case (Cons x xs)
  then have "parses p (f x) x" "parses (parse_elems (length xs) p) (concat (map f xs)) xs" by auto
  then show ?case
    by (auto intro!: parsesI parses_ret parses_bind [where m = p] parses_bind_last [where m = "parse_elems (length xs) p"])
qed

lemma parses_type3_struct:
  assumes v: "v = None \<or> obit" "obit \<Longrightarrow> v = None \<Longrightarrow> no_elem i rest" and i: "fits 4 i"
    and p: "\<And>x. v = Some x \<Longrightarrow> parses p (f x) x \<and> length (f x) < 2048"
  shows "parses_on (parse_type3_struct obit i p) (enc_type3 i f v) rest v"
proof (cases v)
  case None
  show ?thesis
  proof (cases obit)
    case True
    with None v(2) show ?thesis
      by (auto simp: parse_type3_struct_def enc_type3_def Let_def intro!: parses_peek_absent parses_ret)
  qed (simp add: None parse_type3_struct_def enc_type3_def parses_ret)
next
  case (Some x)
  let ?l = "of_nat (length (f x)) :: u64"
  have "parses_on (bind (read_field 11 ''parse_type3_struct len_bits'') (\<lambda>len. let len_bits = unat len in
      bind (gets get_pos) (\<lambda>s. bind p (\<lambda>r. bind (gets get_pos) (\<lambda>e.
       if s + len_bits \<noteq> e then fail (InconsistentLength len_bits (e - s)) else ret (Some r))))))
      (to_bits 11 ?l @ f x) rest (Some x)"
    unfolding Let_def
    by (rule parses_field_bind) (use p [OF Some] in \<open>auto intro!: parses_counted fits_of_nat\<close>)
  from parses_peek_present [OF i this] show ?thesis
    using Some v unfolding parse_type3_struct_def read_or_ended_eq by (simp add: enc_type3_def)
qed

lemma parses_type4_header_present:
  assumes i: "fits 4 i" and n: "n < 64" and l: "6 + length body < 2048"
    and k: "parses_on (k (Some (n, length body))) body rest y"
  shows "parses_on (bind (parse_type4_header i) k)
     (elem34 i (to_bits 11 (of_nat (6 + length body) :: u64) @ to_bits 6 (of_nat n :: u64) @ body)) rest y"
proof -
  have [simp]: "unat (of_nat n :: u64) = n" using n by (simp add: unat_of_nat)
  have [simp]: "unat (of_nat (6 + length body) :: u64) = 6 + length body" using l by (rule unat_len_field)
  have body: "parses_on (bind (read_field 11 a) (\<lambda>len. bind (read_field 6 b') (\<lambda>num.
       if unat len < 6 then fail (InconsistentLength 6 (unat len))
       else bind (gets get_len_remaining) (\<lambda>rem.
         if unat len - 6 > rem then fail e else k (Some (unat num, unat len - 6))))))
      (to_bits 11 (of_nat (6 + length body) :: u64) @ to_bits 6 (of_nat n :: u64) @ body) rest y" for a b' e
    using n l k
    by (intro parses_field_bind)
       (auto simp: fits_of_nat length_unread [symmetric] simp del: of_nat_add intro!: parses_gets_bind)
  have eq: "bind (parse_type4_header i) k =
    bind (peek_type34_mbit_and_id i) (\<lambda>present. if \<not> present then k None else bind (seek_rel 5) (\<lambda>_.
      bind (read_field 11 ''parse_type4_header len_bits'') (\<lambda>len. bind (read_field 6 ''parse_type4_header num_elems'') (\<lambda>num.
       if unat len < 6 then fail (InconsistentLength 6 (unat len))
       else bind (gets get_len_remaining) (\<lambda>rem.
         if unat len - 6 > rem then fail (BufferEnded (Some ''parse_type4_header payload'')) else k (Some (unat num, unat len - 6)))))))"
    unfolding parse_type4_header_def read_or_ended_eq bind_assoc
    by (intro arg_cong2 [where f = bind] refl ext) (simp add: bind_assoc if_distrib [of "\<lambda>m. bind m k"] cong: if_cong)
  show ?thesis unfolding eq by (rule parses_peek_present [OF i body])
qed

lemma parses_type4_struct:
  assumes v: "v = None \<or> obit" "obit \<Longrightarrow> v = None \<Longrightarrow> no_elem i rest" and i: "fits 4 i"
    and p: "\<And>xs x. v = Some xs \<Longrightarrow> x \<in> set xs \<Longrightarrow> parses p (f x) x"
    and l: "\<And>xs. v = Some xs \<Longrightarrow> 6 + length (concat (map f xs)) < 2048 \<and> length xs < 64"
  shows "parses_on (parse_type4_struct obit i p) (enc_type4 i f v) rest v"
proof (cases v)
  case None
  show ?thesis
  proof (cases obit)
    case True
    have "parses_on (parse_type4_header i) [] rest None"
      unfolding parse_type4_header_def
      using None v(2) True by (auto intro!: parses_peek_absent parses_ret)
    then have "parses_on (bind (parse_type4_header i) k) [] rest y" if "parses_on (k None) [] rest y" for k and y :: "'a list option"
      using that parses_on_bind [of "parse_type4_header i" "[]" "[]" rest None k y] by simp
    from this [of "case_option (ret None) _"] None True show ?thesis
      by (simp add: parse_type4_struct_def enc_type4_def parses_ret)
  qed (simp add: None parse_type4_struct_def enc_type4_def parses_ret)
next
  case (Some xs)
  have "parses_on (bind (gets get_pos) (\<lambda>s. bind (parse_elems (length xs) p) (\<lambda>r. bind (gets get_pos) (\<lambda>e.
     if s + length (concat (map f xs)) \<noteq> e then fail (InconsistentLength (length (concat (map f xs))) (e - s)) else ret (Some r)))))
     (concat (map f xs)) rest (Some xs)"
    by (rule parses_counted [OF parses_elems]) (use p [OF Some] in auto)
  moreover have "length xs < 64" "6 + length (concat (map f xs)) < 2048" using l [OF Some] by auto
  ultimately have "parses_on (parse_type4_struct True i p) (enc_type4 i f (Some xs)) rest (Some xs)"
    unfolding parse_type4_struct_def enc_type4_def option.case not_True_eq_False if_False
    by (intro parses_type4_header_present i) auto
  then show ?thesis using Some v by simp
qed

section \<open>Generic elements\<close>

text \<open>
  A generic type-3 reader keeps the first 128 bits of the element and skips the others; the generic
  type-4 reader keeps 64.
\<close>

lemma parses_read_type3_payload:
  assumes "length bs \<le> 128"
  shows "parses (read_type3_payload (length bs)) bs (of_bits bs)"
proof (cases "length bs \<le> 64")
  case True
  then have "parses (bind (read_field (length bs) s) (\<lambda>v. ret (ucast v :: u128))) bs (of_bits bs)" for s
    by (auto intro!: parsesI parses_bind_last [OF parses_read_field] parses_ret simp: ucast_of_bits)
  with True show ?thesis by (simp add: read_type3_payload_def read_or_ended_eq)
next
  case False
  let ?k = "length bs - 64"
  have "(push_bit 64 (ucast (of_bits (take ?k bs) :: u64)) OR ucast (of_bits (drop ?k bs) :: u64) :: u128) = of_bits bs"
    using False assms of_bits_append [of "take ?k bs" "drop ?k bs", where 'a = 128]
    by (simp add: ucast_of_bits)
  then have "parses (bind (read_field ?k s) (\<lambda>hi. bind (read_field 64 s') (\<lambda>lo. ret (push_bit 64 (ucast hi) OR ucast lo :: u128))))
      (take ?k bs @ drop ?k bs) (of_bits bs)" for s s'
    using False assms
    by (intro parsesI parses_bind [OF parses_read_field] parses_bind_last [OF parses_read_field] parses_ret) auto
  with False show ?thesis by (simp add: read_type3_payload_def read_or_ended_eq)
qed

lemma parses_skip: "parses (try_seek_rel (int (length bs))) bs (Some ())"
  by (intro parsesI parses_onI) (simp add: seek_rel_forward)

text \<open>Taking the first \<open>m\<close> bits of an element and skipping what is left.\<close>

lemma parses_take_skip:
  assumes r: "parses (rd (min (length bs) m)) (take m bs) x" and k: "k = int m"
  shows "parses (bind (rd (if length bs > m then m else length bs)) (\<lambda>d.
      bind (if length bs > m then try_seek_rel (int (length bs) - k) else ret (Some ())) (\<lambda>sk.
      if sk = None then fail e else ret (g d)))) bs (g x)"
proof (cases "length bs > m")
  case True
  have "parses (bind (rd m) (\<lambda>d. bind (try_seek_rel (int (length (drop m bs)))) (\<lambda>sk. if sk = None then fail e else ret (g d))))
      (take m bs @ drop m bs) (g x)"
    using r True
    by (intro parsesI parses_bind [where m = "rd m" and a = x] parses_bind_last [OF parses_skip])
       (auto simp: min_def intro: parses_ret)
  with True k show ?thesis by (simp add: of_nat_diff)
next
  case False
  with r show ?thesis
    by (auto simp: min_def intro!: parsesI parses_bind_last [where m = "rd (length bs)" and a = x] parses_ret)
qed

lemma parses_type3_generic:
  assumes "fits 4 i" and "length bs < 2048"
  shows "parses (parse_type3_generic True i) (elem34 i (to_bits 11 (of_nat (length bs) :: u64) @ bs))
    (Some \<lparr>t3_field_id = i, t3_len = length bs, t3_data = of_bits (take 128 bs)\<rparr>)"
proof (rule parsesI)
  fix rest
  have tk: "parses (bind (read_type3_payload (if length bs > 128 then 128 else length bs)) (\<lambda>d.
      bind (if length bs > 128 then try_seek_rel (int (length bs) - 128) else ret (Some ())) (\<lambda>sk.
      if sk = None then fail e else ret (Some \<lparr>t3_field_id = i, t3_len = length bs, t3_data = d\<rparr>))))
     bs (Some \<lparr>t3_field_id = i, t3_len = length bs, t3_data = of_bits (take 128 bs)\<rparr>)" for e
    by (rule parses_take_skip [where g = "\<lambda>d. Some \<lparr>t3_field_id = i, t3_len = length bs, t3_data = d\<rparr>"])
       (use parses_read_type3_payload [of "take 128 bs"] in simp_all)
  have [simp]: "unat (of_nat (length bs) :: u64) = length bs" using assms(2) by (rule unat_len_field)
  have "parses_on (bind (read_field 11 s) (\<lambda>len. let len_bits = unat len in bind (gets get_len_remaining) (\<lambda>rem.
       if len_bits > rem then fail e'
       else bind (read_type3_payload (if len_bits > 128 then 128 else len_bits)) (\<lambda>d.
         bind (if len_bits > 128 then try_seek_rel (int len_bits - 128) else ret (Some ())) (\<lambda>sk.
         if sk = None then fail e else ret (Some \<lparr>t3_field_id = i, t3_len = len_bits, t3_data = d\<rparr>))))))
      (to_bits 11 (of_nat (length bs) :: u64) @ bs) rest
      (Some \<lparr>t3_field_id = i, t3_len = length bs, t3_data = of_bits (take 128 bs)\<rparr>)" for s e e'
    unfolding Let_def
    using assms(2) tk
    by (intro parses_field_bind)
       (auto simp: fits_of_nat length_unread [symmetric] not_less cong: if_cong intro!: parses_gets_bind)
  from parses_peek_present [OF assms(1) this] show "parses_on (parse_type3_generic True i)
      (elem34 i (to_bits 11 (of_nat (length bs) :: u64) @ bs)) rest
      (Some \<lparr>t3_field_id = i, t3_len = length bs, t3_data = of_bits (take 128 bs)\<rparr>)"
    unfolding parse_type3_generic_def read_or_ended_eq by simp
qed

lemma parses_type4_generic:
  assumes "fits 4 i" and "6 + length bs < 2048" and "n < 64"
  shows "parses (parse_type4_generic True i)
     (elem34 i (to_bits 11 (of_nat (6 + length bs) :: u64) @ to_bits 6 (of_nat n :: u64) @ bs))
    (Some \<lparr>t4_field_id = i, t4_len = length bs, t4_elems = n, t4_data = of_bits (take 64 bs)\<rparr>)"
proof (rule parsesI)
  fix rest
  have "parses (bind (read_field (if length bs > 64 then 64 else length bs) s) (\<lambda>d.
      bind (if length bs > 64 then try_seek_rel (int (length bs) - 64) else ret (Some ())) (\<lambda>sk.
      if sk = None then fail e else ret (Some \<lparr>t4_field_id = i, t4_len = length bs, t4_elems = n, t4_data = d\<rparr>))))
     bs (Some \<lparr>t4_field_id = i, t4_len = length bs, t4_elems = n, t4_data = of_bits (take 64 bs)\<rparr>)" for e s
    by (rule parses_take_skip [where rd = "\<lambda>n. read_field n s"
          and g = "\<lambda>d. Some \<lparr>t4_field_id = i, t4_len = length bs, t4_elems = n, t4_data = d\<rparr>"])
       (use parses_read_field [of "min (length bs) 64" "take 64 bs" s] in simp_all)
  then show "parses_on (parse_type4_generic True i)
     (elem34 i (to_bits 11 (of_nat (6 + length bs) :: u64) @ to_bits 6 (of_nat n :: u64) @ bs)) rest
    (Some \<lparr>t4_field_id = i, t4_len = length bs, t4_elems = n, t4_data = of_bits (take 64 bs)\<rparr>)"
    unfolding parse_type4_generic_def not_True_eq_False if_False
    by (intro parses_type4_header_present assms) auto
qed

definition enc_type3_generic :: "u64 \<Rightarrow> type3_field_generic option \<Rightarrow> bool list" where
  "enc_type3_generic i = enc_type3 i (\<lambda>e. to_bits (t3_len e) (t3_data e))"

definition wf_type3_generic :: "u64 \<Rightarrow> type3_field_generic \<Rightarrow> bool" where
  "wf_type3_generic i e \<longleftrightarrow> t3_field_id e = i \<and> t3_len e \<le> 128 \<and> fits (t3_len e) (t3_data e)"

lemma emits_type3_payload:
  assumes "t3_len e \<le> 128" and "fits (t3_len e) (t3_data e)"
  shows "emits (if t3_len e \<le> 64 then write_bits (ucast (t3_data e)) (t3_len e)
          else seq [write_bits (ucast (drop_bit 64 (t3_data e))) (t3_len e - 64), write_bits (ucast (t3_data e)) 64])
     (to_bits (t3_len e) (t3_data e))"
proof (cases "t3_len e \<le> 64")
  case True
  then show ?thesis
    using assms emits_write_bits [of "t3_len e" "ucast (t3_data e)"] by (simp add: fits_ucast_small to_bits_ucast)
next
  case False
  let ?k = "t3_len e - 64"
  have "fits ?k (drop_bit 64 (t3_data e))"
    using assms(2) False by (auto simp: fits_iff bit_drop_bit_eq)
  then have "emits (seq [write_bits (ucast (drop_bit 64 (t3_data e))) ?k, write_bits (ucast (t3_data e)) 64])
      (to_bits ?k (ucast (drop_bit 64 (t3_data e)) :: u64) @ to_bits 64 (ucast (t3_data e) :: u64) @ [])"
    using assms(1) by (intro emits_intros) (auto simp: fits_ucast_small)
  moreover have "to_bits ?k (ucast (drop_bit 64 (t3_data e)) :: u64) @ to_bits 64 (ucast (t3_data e) :: u64) = to_bits (t3_len e) (t3_data e)"
    using False assms(1) to_bits_append [of ?k 64 "t3_data e"] by (simp add: to_bits_ucast)
  ultimately show ?thesis using False by simp
qed

lemma emits_type3_generic [emits_intros]:
  assumes "obit \<or> v = None" and "fits 4 i" and "pred_option (wf_type3_generic i) v"
  shows "emits (write_type3_generic obit v i) (enc_type3_generic i v)"
proof (cases v)
  case None
  then show ?thesis by (simp add: write_type3_generic_def enc_type3_generic_def enc_type3_def emits_ret)
next
  case (Some e)
  with assms have e: "t3_len e \<le> 128" "fits (t3_len e) (t3_data e)" by (auto simp: wf_type3_generic_def)
  have l: "emits (write_bits (of_nat (t3_len e)) 11) (to_bits 11 (of_nat (t3_len e) :: u64))"
    using e by (intro emits_write_bits fits_of_nat) auto
  from emits_bind [OF emits_type34_header [OF assms(2)] emits_bind [OF l emits_type3_payload [OF e]]] show ?thesis
    using Some assms(1) by (simp add: write_type3_generic_def enc_type3_generic_def enc_type3_def elem34_def)
qed

lemma parses_type3_generic_opt:
  assumes "v = None \<or> obit" "obit \<Longrightarrow> v = None \<Longrightarrow> no_elem i rest" and "fits 4 i" and "pred_option (wf_type3_generic i) v"
  shows "parses_on (parse_type3_generic obit i) (enc_type3_generic i v) rest v"
proof (cases v)
  case None
  show ?thesis
  proof (cases obit)
    case True
    with None assms(2) show ?thesis
      by (auto simp: parse_type3_generic_def enc_type3_generic_def enc_type3_def Let_def intro!: parses_peek_absent parses_ret)
  qed (simp add: None parse_type3_generic_def enc_type3_generic_def enc_type3_def parses_ret)
next
  case (Some e)
  with assms have e: "t3_field_id e = i" "t3_len e \<le> 128" "fits (t3_len e) (t3_data e)" by (auto simp: wf_type3_generic_def)
  then have "\<lparr>t3_field_id = i, t3_len = t3_len e, t3_data = of_bits (take 128 (to_bits (t3_len e) (t3_data e)))\<rparr> = e"
    by (cases e) simp
  with parses_type3_generic [OF assms(3), of "to_bits (t3_len e) (t3_data e)"] e(2)
  have "parses (parse_type3_generic True i) (enc_type3_generic i (Some e)) (Some e)"
    by (simp add: enc_type3_generic_def enc_type3_def)
  with Some assms(1) show ?thesis by auto
qed

text \<open>The writer accepts at most 128 bits of payload: a longer one fails the assertion of \<open>write_bits\<close>.\<close>

lemma write_type3_generic_too_long:
  assumes "bb_inv b" and "room b 16" and "fits 4 i" and "128 < t3_len e" and "t3_len e < 2048"
  shows "write_type3_generic True (Some e) i b = Panic"
proof -
  have "emits (bind (write_type34_header_generic i) (\<lambda>_. write_bits (of_nat (t3_len e)) 11))
      ((True # to_bits 4 i) @ to_bits 11 (of_nat (t3_len e) :: u64))"
    using assms by (intro emits_bind emits_type34_header emits_write_bits fits_of_nat) auto
  then obtain b' where "bind (write_type34_header_generic i) (\<lambda>_. write_bits (of_nat (t3_len e)) 11) b = Ok ((), b')"
    using assms(1,2) by (auto elim: emitsE)
  moreover have "write_bits v (t3_len e - 64) b' = Panic" for v
  proof -
    have "\<not> t3_len e - 64 \<le> 64" using assms(4) by linarith
    then have "guard (t3_len e - 64 \<le> 64) = (panic :: unit bb)" by (simp add: guard_def)
    then show ?thesis unfolding write_bits_def by (simp only: bind_panic panic_def)
  qed
  ultimately show ?thesis
    using assms(4) by (simp add: write_type3_generic_def bind_assoc [symmetric]) (simp add: bind_def)
qed

end
