(* ===== verification/BitBuffer_Bulk.thy ===== *)
theory BitBuffer_Bulk
  imports Codec
begin

text \<open>
  The bulk operations of \<open>BitBuffer\<close>: transfers between a buffer and bit arrays, bit strings and other
  buffers. Each is characterised by what it does to the bit string of the buffer.
\<close>

section \<open>Bit arrays\<close>

lemma to_bits_1_bit: "ucast (drop_bit k (v :: u64) AND 1) = (of_bool (bit v k) :: u8)"
  by (cases "bit v k") (auto simp: and_one_eq bit_iff_odd_drop_bit mod_2_eq_odd)

lemma chunk_bits: "map (\<lambda>i. ucast (drop_bit (n - 1 - i) v AND 1)) [0..<n] = map (of_bool :: bool \<Rightarrow> u8) (to_bits n (v :: u64))"
  by (simp only: to_bits_1_bit to_bits_def map_map comp_def)

lemma to_bitarr_loop_spec:
  "bb_inv b \<Longrightarrow> n \<le> length (unread b) \<Longrightarrow>
   to_bitarr_loop n out b = Ok (Some (out @ map of_bool (take n (unread b))), b\<lparr>bb_pos := bb_pos b + n\<rparr>)"
proof (induction n arbitrary: out b rule: less_induct)
  case (less n)
  show ?case
  proof (cases "n = 0")
    case True
    then show ?thesis by (subst to_bitarr_loop.simps) (simp add: ret_def)
  next
    case False
    let ?k = "min n 64"
    let ?b = "b\<lparr>bb_pos := bb_pos b + ?k\<rparr>"
    let ?v = "of_bits (take ?k (unread b)) :: u64"
    have r: "read_bits ?k b = Ok (Some ?v, ?b)"
      using less.prems by (simp add: read_bits_spec)
    have inv: "bb_inv ?b"
      using less.prems length_unread [of b] by (auto simp: get_len_remaining_def bb_inv_def)
    have le: "n - ?k \<le> length (unread ?b)" using less.prems by auto
    have "to_bits ?k ?v = take ?k (unread b)" using less.prems by (intro to_bits_of_bits) auto
    then have c: "map (\<lambda>i. ucast (drop_bit (?k - 1 - i) ?v AND 1)) [0..<?k] = map (of_bool :: bool \<Rightarrow> u8) (take ?k (unread b))"
      by (simp only: chunk_bits)
    have "take ?k (unread b) @ take (n - ?k) (drop ?k (unread b)) = take n (unread b)"
      by (metis add_diff_inverse_nat min.cobounded1 not_less take_add)
    moreover have "to_bitarr_loop n out b = to_bitarr_loop (n - ?k) (out @ map of_bool (take ?k (unread b))) ?b"
      using False r c by (subst to_bitarr_loop.simps) (simp add: bind_def Let_def)
    ultimately show ?thesis
      using less.IH [OF _ inv le] False by (simp flip: map_append)
  qed
qed

lemma try_to_bitarr_spec:
  "bb_inv b \<Longrightarrow> try_to_bitarr n b =
     (if n \<le> length (unread b) then Ok (Some (map of_bool (take n (unread b))), b\<lparr>bb_pos := bb_pos b + n\<rparr>)
      else Ok (None, b))"
  by (auto simp: try_to_bitarr_def to_bitarr_loop_spec length_unread [symmetric] not_le)

lemma emits_copy_bits_from_bitarr [emits_intros]:
  "set xs \<subseteq> {0, 1} \<Longrightarrow> emits (copy_bits_from_bitarr xs) (map (\<lambda>x. x = 1) xs)"
proof (induction xs)
  case Nil
  then show ?case by (simp add: emits_ret)
next
  case (Cons x xs)
  then have "emits (bind (write_bit x) (\<lambda>_. copy_bits_from_bitarr xs)) ([x = 1] @ map (\<lambda>x. x = 1) xs)"
    by (intro emits_intros) auto
  with Cons.prems show ?case by (auto simp: guard_def)
qed

lemma fill_new_buffer:
  assumes "emits m bs" and "length bs < 2 ^ 64"
  shows "\<exists>b. m (BitBuffer_new (length bs)) = Ok ((), b) \<and> bb_start b = 0 \<and> bb_inv (b\<lparr>bb_pos := bb_start b\<rparr>) \<and>
     content b = bs"
proof -
  let ?n = "BitBuffer_new (length bs)"
  have "room ?n (length bs)" by (simp add: room_def BitBuffer_new_def)
  with assms obtain b where b: "m ?n = Ok ((), b)" "wrote ?n bs b"
    by (meson bb_inv_new emitsE)
  then have "content b = bs"
    by (simp add: wrote_def content_new) (simp add: BitBuffer_new_def overwrite_def)
  with b show ?thesis by (auto simp: wrote_def BitBuffer_new_def bb_inv_def)
qed

lemma from_bitarr_spec:
  assumes "set data \<subseteq> {0, 1}" and "length data < 2 ^ 64"
  shows "\<exists>b. from_bitarr data = Ok b \<and> bb_inv b \<and> bb_pos b = 0 \<and> unread b = map (\<lambda>x. x = 1) data"
  using fill_new_buffer [OF emits_copy_bits_from_bitarr [OF assms(1)]] assms(2)
  by (auto simp: from_bitarr_def unread_def)

lemma from_bitarr_rejects: "\<exists>x \<in> set data. x \<noteq> 0 \<and> x \<noteq> 1 \<Longrightarrow> copy_bits_from_bitarr data b = Panic \<or> (\<exists>e. copy_bits_from_bitarr data b = Err e)"
  by (induction data arbitrary: b) (auto simp: bind_def guard_def ret_def panic_def split: outcome.splits)

lemma write_bit_no_err: "write_bit x b \<noteq> Err e"
  by (auto simp: write_bit_def bind_def guard_def ret_def panic_def move_end_def realloc_tail_def Let_def
      split: outcome.splits if_splits)

section \<open>Bit strings of characters\<close>

lemma read_bit_at_spec:
  "p < 8 * length buf \<Longrightarrow> read_bit_at_unchecked buf p = Ok (of_bool (bytes_bits buf ! p))"
  by (auto simp: read_bit_at_unchecked_def nth_bytes_bits bit_iff_odd_drop_bit and_one_eq mod_2_eq_odd)

lemma read_each_spec:
  "\<forall>p \<in> set ps. p < 8 * length buf \<Longrightarrow> read_each buf ps = Ok (map (\<lambda>p. of_bool (bytes_bits buf ! p)) ps)"
  by (induction ps) (simp_all add: read_bit_at_spec)

definition bit_chars :: "bool list \<Rightarrow> string" where
  "bit_chars = map (\<lambda>b. if b then CHR ''1'' else CHR ''0'')"

lemma window_nth: "bb_inv b \<Longrightarrow> i < get_len b \<Longrightarrow> window b ! i = bytes_bits (bb_buffer b) ! (bb_start b + i)"
  by (simp add: window_def content_def get_len_def bb_inv_def)

lemma window_alt: "bb_inv b \<Longrightarrow> window b = map (\<lambda>i. bytes_bits (bb_buffer b) ! (bb_start b + i)) [0..<get_len b]"
  by (rule nth_equalityI) (simp_all add: length_window window_nth)

lemma to_bitstr_spec: "bb_inv b \<Longrightarrow> to_bitstr b = Ok (bit_chars (window b))"
  by (subst window_alt) (auto simp: to_bitstr_def read_each_spec bit_chars_def bb_inv_def get_len_def)

lemma emits_write_bitstr [emits_intros]: "emits (write_bitstr (bit_chars bs)) bs"
proof (induction bs)
  case Nil
  then show ?case by (simp add: bit_chars_def emits_ret)
next
  case (Cons b bs)
  have "emits (if b then write_bit 1 else write_bit 0) [b]"
    using emits_write_bit [of 0] emits_write_bit [of 1] by simp
  from emits_bind [OF this Cons] show ?case by (cases b) (simp_all add: bit_chars_def)
qed

lemma from_bitstr_spec:
  assumes "length bs < 2 ^ 64"
  shows "\<exists>b. from_bitstr (bit_chars bs) = Ok b \<and> bb_inv b \<and> bb_start b = 0 \<and> bb_pos b = 0 \<and> window b = bs"
  using fill_new_buffer [OF emits_write_bitstr [of bs] assms]
  by (auto simp: from_bitstr_def window_def bit_chars_def)

text \<open>\<open>into_bitvec\<close> reads from the front of the allocation, which is the window only when \<open>start\<close> is 0.\<close>

lemma into_bitvec_spec: "bb_inv b \<Longrightarrow> bb_start b = 0 \<Longrightarrow> into_bitvec b = Ok (map of_bool (window b))"
  by (subst window_alt) (auto simp: into_bitvec_def read_each_spec bb_inv_def get_len_def)

section \<open>Copying between buffers\<close>

lemma copy_bits_spec:
  "bb_inv src \<Longrightarrow> n \<le> length (unread src) \<Longrightarrow> bb_inv dst \<Longrightarrow> room dst n \<Longrightarrow>
   \<exists>dst'. copy_bits n (dst, src) = Ok ((), (dst', src\<lparr>bb_pos := bb_pos src + n\<rparr>)) \<and> wrote dst (take n (unread src)) dst'"
proof (induction n arbitrary: dst src rule: less_induct)
  case (less n)
  show ?case
  proof (cases "n = 0")
    case True
    with less.prems show ?thesis by (subst copy_bits.simps) (simp add: wrote_def)
  next
    case False
    let ?k = "min n 64"
    let ?src = "src\<lparr>bb_pos := bb_pos src + ?k\<rparr>"
    let ?v = "of_bits (take ?k (unread src)) :: u64"
    have r: "read_bits ?k src = Ok (Some ?v, ?src)"
      using less.prems by (simp add: read_bits_spec)
    have rem: "\<not> get_len_remaining src < ?k"
      using less.prems length_unread [of src] by auto
    have v: "to_bits ?k ?v = take ?k (unread src)" using less.prems by (intro to_bits_of_bits) auto
    have "emits (write_bits ?v ?k) (to_bits ?k ?v)" by (rule emits_write_bits) (simp_all only: fits_of_bits length_take min.cobounded2 min.cobounded1)
    moreover have "room dst (length (to_bits ?k ?v))" using less.prems(4) by (auto intro: room_mono)
    ultimately obtain d where d: "write_bits ?v ?k dst = Ok ((), d)" "wrote dst (take ?k (unread src)) d"
      using less.prems(3) v by (metis emitsE)
    have inv: "bb_inv ?src"
      using less.prems length_unread [of src] by (auto simp: get_len_remaining_def bb_inv_def)
    have le: "n - ?k \<le> length (unread ?src)" using less.prems by auto
    have lk: "length (take ?k (unread src)) = ?k" using less.prems by auto
    have rm: "room d (n - ?k)"
      by (rule wrote_room [OF less.prems(3) d(2)]) (use less.prems(4) lk in simp)
    have "bb_inv d" using d(2) by (simp add: wrote_def)
    with less.IH [OF _ inv le _ rm] False obtain d' where
      d': "copy_bits (n - ?k) (d, ?src) = Ok ((), (d', ?src\<lparr>bb_pos := bb_pos ?src + (n - ?k)\<rparr>))"
      "wrote d (take (n - ?k) (unread ?src)) d'" by auto
    have "take ?k (unread src) @ take (n - ?k) (drop ?k (unread src)) = take n (unread src)"
      by (metis add_diff_inverse_nat min.cobounded1 not_less take_add)
    with wrote_trans [OF less.prems(3) d(2) d'(2)] have "wrote dst (take n (unread src)) d'" by simp
    moreover have "copy_bits n (dst, src) = copy_bits (n - ?k) (d, ?src)"
      using False r d(1) rem by (subst copy_bits.simps) (auto simp: Let_def)
    ultimately show ?thesis using d'(1) by auto
  qed
qed

lemma bytes_bits_drop: "bytes_bits (drop k bs) = drop (8 * k) (bytes_bits bs)"
proof -
  have "drop (8 * k) (bytes_bits (take k bs @ drop k bs)) = bytes_bits (drop k bs)" if "k \<le> length bs"
    using that by (simp add: bytes_bits_append del: append_take_drop_id)
  moreover have "bytes_bits [] = drop (8 * k) (bytes_bits bs)" if "\<not> k \<le> length bs"
    using that by (simp add: bytes_bits_def [of "[]"])
  ultimately show ?thesis by (cases "k \<le> length bs") simp_all
qed

lemma bytes_bits_take: "bytes_bits (take k bs) = take (8 * k) (bytes_bits bs)"
proof -
  have "take (8 * k) (bytes_bits (take k bs @ drop k bs)) = bytes_bits (take k bs)" if "k \<le> length bs"
    using that by (simp add: bytes_bits_append del: append_take_drop_id)
  then show ?thesis by (cases "k \<le> length bs") simp_all
qed

lemma copy_window_spec:
  assumes "bb_inv b" and "first + len = bb_end b"
  shows "\<exists>c. copy_window b first len = Ok c \<and> bb_inv c \<and> bb_start c = bb_pos c \<and> window c = drop first (content b)"
proof -
  let ?s = "first div 8" and ?e = "div_ceil8 (bb_end b)"
  have e: "?e \<le> length (bb_buffer b)" "?s \<le> ?e" "bb_end b \<le> 8 * ?e" "8 * ?s + first mod 8 = first"
    using assms by (auto simp: bb_inv_def div_ceil8_def)
  define c where "c = \<lparr>bb_buffer = take (?e - ?s) (drop ?s (bb_buffer b)), bb_start = first mod 8,
      bb_pos = first mod 8, bb_end = first mod 8 + len, bb_autoexpand = False\<rparr>"
  have fit: "first mod 8 + len \<le> 8 * (?e - ?s)" using e assms(2) by linarith
  have inv: "bb_inv c" using assms fit e by (auto simp: bb_inv_def c_def)
  have "window c = drop first (content b)"
  proof (rule nth_equalityI)
    show l: "length (window c) = length (drop first (content b))"
      using inv assms by (simp add: length_window get_len_def c_def)
    fix i assume "i < length (window c)"
    then have i: "i < len" using inv by (simp add: length_window get_len_def c_def)
    have "window c ! i = drop (8 * ?s) (bytes_bits (bb_buffer b)) ! (first mod 8 + i)"
      using i inv fit window_nth [OF inv, of i] by (simp add: get_len_def c_def bytes_bits_take bytes_bits_drop)
    also have "\<dots> = bytes_bits (bb_buffer b) ! (first + i)"
      using e i assms by (simp add: bb_inv_def flip: add.assoc)
    also have "\<dots> = drop first (content b) ! i"
      using i assms by (simp add: content_def bb_inv_def)
    finally show "window c ! i = drop first (content b) ! i" .
  qed
  moreover have "copy_window b first len = Ok c" using e by (simp add: copy_window_def c_def Let_def)
  ultimately show ?thesis using inv by (auto simp: c_def)
qed

lemma from_bitbuffer_spec:
  "bb_inv b \<Longrightarrow> \<exists>c. from_bitbuffer b = Ok c \<and> bb_inv c \<and> bb_start c = bb_pos c \<and> window c = window b"
  using copy_window_spec [of b "bb_start b" "get_len b"] by (auto simp: from_bitbuffer_def get_len_def bb_inv_def window_def)

lemma from_bitbuffer_pos_spec:
  "bb_inv b \<Longrightarrow> \<exists>c. from_bitbuffer_pos b = Ok c \<and> bb_inv c \<and> bb_start c = bb_pos c \<and> window c = unread b"
  using copy_window_spec [of b "bb_pos b" "get_len_remaining b"]
  by (auto simp: from_bitbuffer_pos_def get_len_remaining_def bb_inv_def unread_def)

end
