(* ===== verification/Core_Properties.thy ===== *)
theory Core_Properties
  imports Tdma_Time Timeslot_Alloc Tx_Reporter Typed_Fields_Spec BitBuffer_Bulk
begin

text \<open>Properties of the components of \<open>tetra-core\<close>, each with a witness at a concrete input.\<close>

section \<open>Bit buffer\<close>

text \<open>Writing a value of \<open>n\<close> bits and reading it back from the same position returns the value, moves the cursor by
  \<open>n\<close>, and leaves every other bit of the buffer as it was.\<close>

theorem write_read_roundtrip:
  assumes "bb_inv b" and "room b n" and "n \<le> 64" and "fits n v"
  shows "\<exists>b'. write_bits v n b = Ok ((), b') \<and> bb_pos b' = bb_pos b + n \<and>
    read_bits n (b'\<lparr>bb_pos := bb_pos b\<rparr>) = Ok (Some v, b') \<and>
    (\<forall>i < bb_end b. i < bb_pos b \<or> bb_pos b + n \<le> i \<longrightarrow> content b' ! i = content b ! i)"
proof -
  from assms obtain b' where b': "write_bits v n b = Ok ((), b')" "wrote b (to_bits n v) b'"
    using emitsE [OF emits_write_bits [OF assms(3,4)] assms(1)] by auto
  let ?b = "b'\<lparr>bb_pos := bb_pos b\<rparr>"
  have le: "bb_pos b \<le> length (content b)" using assms(1) by (simp add: bb_inv_def)
  have inv: "bb_inv ?b" using b'(2) assms(1) by (auto simp: wrote_def bb_inv_def)
  have u: "unread ?b = to_bits n v @ drop (bb_pos b + n) (content b)"
    using b'(2) le drop_overwrite_at [of "bb_pos b" "content b" "to_bits n v"] by (simp add: unread_def wrote_def)
  have "read_bits n ?b = Ok (Some v, b')"
    using read_bits_spec [OF inv, of n] u assms(3,4) b'(2) by (simp add: wrote_def)
  moreover have "content b' ! i = content b ! i" if "i < bb_end b" "i < bb_pos b \<or> bb_pos b + n \<le> i" for i
    using b'(2) that assms(1) le by (auto simp: wrote_def overwrite_def nth_append)
  ultimately show ?thesis using b' by (auto simp: wrote_def)
qed

theorem write_read_roundtrip_witness:
  "\<exists>b'. write_bits 45 7 (BitBuffer_new 20) = Ok ((), b') \<and> read_bits 7 (b'\<lparr>bb_pos := 0\<rparr>) = Ok (Some 45, b')"
  using write_read_roundtrip [of "BitBuffer_new 20" 7 45] by (auto simp: room_def fits_unat BitBuffer_new_def bb_inv_def div_ceil8_def)

text \<open>C40. The byte-wise reader (leading bits, whole bytes, trailing bits) returns exactly the next \<open>n\<close> bits of the window, most
  significant bit first, advances the cursor by \<open>n\<close>, and returns \<open>None\<close> without moving when \<open>n\<close> exceeds 64 or the bits left.\<close>

theorem read_bits_refines_bitstring:
  assumes "bb_inv b"
  shows "read_bits n b =
    (if n \<le> 64 \<and> n \<le> length (unread b)
     then Ok (Some (of_bits (take n (unread b))), b\<lparr>bb_pos := bb_pos b + n\<rparr>) else Ok (None, b))"
  by (rule read_bits_spec [OF assms])

theorem read_bits_refines_bitstring_witness:
  "read_bits 12 (from_vec [0xAB, 0xCD]) = Ok (Some 0xABC, (from_vec [0xAB, 0xCD])\<lparr>bb_pos := 12\<rparr>) \<and>
   read_bits 17 (from_vec [0xAB, 0xCD]) = Ok (None, from_vec [0xAB, 0xCD])"
proof -
  have inv: "bb_inv (from_vec [0xAB, 0xCD])" by (simp add: bb_inv_def from_vec_def)
  have u: "unread (from_vec [0xAB, 0xCD]) =
      [True, False, True, False, True, False, True, True, True, True, False, False, True, True, False, True]"
    by (simp add: unread_def content_def from_vec_def bytes_bits_def to_bits_def upt_rec bit_numeral_rec)
  show ?thesis
    using read_bits_refines_bitstring [OF inv, of 12] read_bits_refines_bitstring [OF inv, of 17]
    by (simp add: u of_bits_def) (simp add: from_vec_def)
qed

text \<open>Printing and parsing of bit strings are inverse: \<open>from_bitstr\<close> succeeds on every string of zeroes and ones, and
  \<open>to_bitstr\<close> of the buffer it builds is that string.\<close>

theorem bitstr_roundtrip:
  assumes "length bs < 2 ^ 64"
  shows "\<exists>b. from_bitstr (bit_chars bs) = Ok b \<and> to_bitstr b = Ok (bit_chars bs)"
  using from_bitstr_spec [OF assms] to_bitstr_spec by auto

theorem bitstr_roundtrip_witness: "\<exists>b. from_bitstr ''101'' = Ok b \<and> to_bitstr b = Ok ''101''"
  using bitstr_roundtrip [of "[True, False, True]"] by (simp add: bit_chars_def)

section \<open>Type 2, 3 and 4 fields\<close>

text \<open>A list of elements written as a type 4 field (with the length and the count filled in afterwards) is parsed back by
  the type 4 reader, for every element codec whose writer and reader agree, as long as the field fits into its 11-bit
  length and 6-bit count.\<close>

theorem type4_struct_roundtrip:
  assumes "fits 4 i" and "\<And>x. x \<in> set xs \<Longrightarrow> emits (w x) (f x)" and "\<And>x. x \<in> set xs \<Longrightarrow> parses p (f x) x"
    and "6 + length (concat (map f xs)) < 2048" and "length xs < 64"
  shows "emits (write_type4_struct True (Some xs) i w) (enc_type4 i f (Some xs)) \<and>
     parses (parse_type4_struct True i p) (enc_type4 i f (Some xs)) (Some xs)"
  using assms by (intro conjI emits_type4_struct parsesI parses_type4_struct) auto

theorem type4_struct_roundtrip_witness:
  "emits (write_type4_struct True (Some [3, 5]) 2 (\<lambda>x. write_bits x 4)) (enc_type4 2 (to_bits 4) (Some [3, 5 :: u64])) \<and>
   parses (parse_type4_struct True 2 (read_field 4 ''x'')) (enc_type4 2 (to_bits 4) (Some [3, 5 :: u64])) (Some [3, 5])"
  by (rule type4_struct_roundtrip [of 2 "[3, 5]" "\<lambda>x. write_bits x 4" "to_bits 4" "read_field 4 ''x''"])
     (auto simp: fits_unat intro!: emits_write_bits parses_field)

text \<open>Whatever bits are received, the readers of optional fields return a value or a parse error and leave the cursor
  inside the window: they do not panic, for any element reader that does not.\<close>

theorem typed_field_readers_safe:
  assumes "safe p"
  shows "safe (parse_type2_struct obit p) \<and> safe (parse_type3_struct obit i p) \<and> safe (parse_type4_struct obit i p) \<and>
    safe (parse_type2_generic obit n s) \<and> safe (parse_type3_generic obit i) \<and> safe (parse_type4_generic obit i)"
  by (intro conjI safe_intros assms)

theorem typed_field_readers_safe_witness: "safe (parse_type4_struct True 2 (read_field 4 ''x''))"
  using typed_field_readers_safe [of "read_field 4 ''x''" True 2] by (simp add: safe_read_field)

section \<open>Air-interface time\<close>

text \<open>Advancing a valid time by \<open>n\<close> timeslots gives a valid time whose distance to the original is \<open>n\<close>, across every wrap of
  slot, frame, multiframe and hyperframe, for every \<open>n\<close> within half the period of the hyperframe counter.\<close>

theorem time_add_diff:
  assumes "TdmaTime_is_valid x" and "- TIME_INT_WRAP div 2 \<le> n" and "n < TIME_INT_WRAP div 2"
  shows "TdmaTime_is_valid (TdmaTime_add_timeslots x n) \<and> TdmaTime_diff (TdmaTime_add_timeslots x n) x = n"
  using assms by (intro conjI add_timeslots_valid diff_add_timeslots)

theorem time_add_diff_witness:
  "TdmaTime_diff (TdmaTime_add_timeslots \<lparr>tm_t = 4, tm_f = 18, tm_m = 60, tm_h = 65535\<rparr> 5) \<lparr>tm_t = 4, tm_f = 18, tm_m = 60, tm_h = 65535\<rparr> = 5"
  using time_add_diff [of "\<lparr>tm_t = 4, tm_f = 18, tm_m = 60, tm_h = 65535\<rparr>" 5] by (simp add: TdmaTime_is_valid_def TIME_INT_WRAP_def)

text \<open>\<open>forward_to_timeslot\<close> reaches the requested slot, never goes back and moves by fewer than four slots.\<close>

theorem forward_reaches_slot:
  assumes "TdmaTime_is_valid x" and "1 \<le> ts" and "ts \<le> 4"
  shows "tm_t (TdmaTime_forward_to_timeslot x ts) = ts \<and> 0 \<le> TdmaTime_diff (TdmaTime_forward_to_timeslot x ts) x \<and>
    TdmaTime_diff (TdmaTime_forward_to_timeslot x ts) x < 4"
  using forward_to_timeslot_spec [OF assms] by blast

theorem forward_reaches_slot_witness: "tm_t (TdmaTime_forward_to_timeslot TdmaTime_default 3) = 3"
  using forward_reaches_slot [of TdmaTime_default 3] by (simp add: TdmaTime_is_valid_def TdmaTime_default_def)

text \<open>A mobile in energy economy is reached exactly once per cycle: of any \<open>cycle_len\<close> consecutive frames exactly one is in
  its monitoring window, for every cycle length that divides the number of frames of a hyperframe.\<close>

theorem ee_window_once_per_cycle:
  assumes "TdmaTime_is_valid x" and "1 \<le> mf" "mf \<le> 18" and "1 \<le> mm" "mm \<le> 60" and "unat c dvd 1080"
  shows "\<exists>!j. j < unat c \<and> TdmaTime_in_ee_monitoring_window (TdmaTime_add_timeslots x (4 * int j)) mf mm c"
  by (rule ee_window_once [OF assms])

theorem ee_window_once_per_cycle_witness:
  "\<exists>!j. j < unat (12 :: u8) \<and> TdmaTime_in_ee_monitoring_window (TdmaTime_add_timeslots TdmaTime_default (4 * int j)) 5 2 12"
  using ee_window_once_per_cycle [of TdmaTime_default 5 2 12] by (simp add: TdmaTime_is_valid_def TdmaTime_default_def)

section \<open>Timeslot allocation\<close>

text \<open>Reserving a slot succeeds exactly when the slot is supported and free; afterwards the reserving entity owns it, the
  owner of every other slot is unchanged, nobody can reserve it again, only its owner can release it, and releasing it
  restores the previous ownership.\<close>

theorem slot_ownership_exclusive:
  assumes "al_inv a"
  shows "((\<exists>a'. reserve_slot o1 s a = Ok ((), a')) \<longleftrightarrow> al_supported a s \<and> slot_owner a s = None) \<and>
    (\<forall>a'. reserve_slot o1 s a = Ok ((), a') \<longrightarrow>
      al_inv a' \<and> slot_owner a' = (slot_owner a)(s := Some o1) \<and> (\<exists>e. reserve_slot o2 s a' = Err e) \<and>
      (o2 \<noteq> o1 \<longrightarrow> (\<exists>e. release_slot o2 s a' = Err e)) \<and>
      (\<exists>a''. release_slot o1 s a' = Ok ((), a'') \<and> al_inv a'' \<and> slot_owner a'' = slot_owner a))"
proof (intro conjI [OF _ allI [OF impI]])
  show iff: "(\<exists>a'. reserve_slot o1 s a = Ok ((), a')) \<longleftrightarrow> al_supported a s \<and> slot_owner a s = None"
    using allocator.acquire_free [OF assms, of s o1] allocator.acquire_refused [OF assms, of s o1]
    by (cases "al_supported a s \<and> slot_owner a s = None") fastforce+
  fix a'
  assume r: "reserve_slot o1 s a = Ok ((), a')"
  with iff have "al_supported a s" "slot_owner a s = None" by blast+
  with allocator.acquire_free [OF assms this, of o1] r
  have "slot_owner a' = (slot_owner a)(s := Some o1)" by auto
  then show "al_inv a' \<and> slot_owner a' = (slot_owner a)(s := Some o1) \<and> (\<exists>e. reserve_slot o2 s a' = Err e) \<and>
      (o2 \<noteq> o1 \<longrightarrow> (\<exists>e. release_slot o2 s a' = Err e)) \<and>
      (\<exists>a''. release_slot o1 s a' = Ok ((), a'') \<and> al_inv a'' \<and> slot_owner a'' = slot_owner a)"
    using allocator.acquired_exclusive(1,2) [OF assms r] allocator.acquired_exclusive(3,4) [OF assms r, of o2]
      allocator.acquire_give_back [OF assms r] by blast
qed

lemma default_allocator_inv: "al_inv TimeslotAllocator_default"
  by (simp add: al_inv_def TimeslotAllocator_default_def)

theorem slot_ownership_exclusive_witness:
  "\<exists>a'. reserve_slot Cmce \<lparr>cs_carrier_num = 0, cs_ts = 2\<rparr> TimeslotAllocator_default = Ok ((), a') \<and>
     (\<exists>e. release_slot Brew \<lparr>cs_carrier_num = 0, cs_ts = 2\<rparr> a' = Err e)"
proof -
  let ?a = TimeslotAllocator_default and ?s = "\<lparr>cs_carrier_num = 0, cs_ts = 2\<rparr>"
  have "al_supported ?a ?s \<and> slot_owner ?a ?s = None"
    by (simp add: al_supported_def slot_owner_def carrier_idx_def slot_idx_def slot_supported_for_carrier_def
        TimeslotAllocator_default_def)
  then show ?thesis using slot_ownership_exclusive [OF default_allocator_inv, of Cmce ?s Brew] by auto
qed

text \<open>\<open>allocate_any_slot\<close> either reserves for the caller a supported slot that was free, exactly as \<open>reserve_slot\<close> does on that
  slot, or reports that there is none, and then every supported slot of every carrier has an owner.\<close>

theorem allocate_any_slot_complete:
  assumes "al_inv a" and "allocate_any_slot own a = (r, a')"
  shows "case r of
      Some slot \<Rightarrow> al_supported a slot \<and> slot_owner a slot = None \<and> reserve_slot own slot a = Ok ((), a')
    | None \<Rightarrow> a' = a \<and> (\<forall>slot. al_supported a slot \<longrightarrow> slot_owner a slot \<noteq> None)"
proof (cases r)
  case None
  then show ?thesis using allocate_any_slot_None [OF assms(1), of own a'] assms(2) by simp
next
  case (Some slot)
  then show ?thesis using allocate_any_slot_Some [OF assms(1), of own slot a'] assms(2) by simp
qed

theorem allocate_any_slot_complete_witness:
  "fst (allocate_any_slot Brew TimeslotAllocator_default) = Some \<lparr>cs_carrier_num = 0, cs_ts = 2\<rparr> \<and>
   slot_owner TimeslotAllocator_default \<lparr>cs_carrier_num = 0, cs_ts = 2\<rparr> = None"
proof -
  have "allocate_any_slot Brew TimeslotAllocator_default =
      (Some \<lparr>cs_carrier_num = 0, cs_ts = 2\<rparr>, TimeslotAllocator_default\<lparr>al_owners := [[None, Some Brew, None, None]]\<rparr>)"
    by (simp add: allocate_any_slot_def TimeslotAllocator_default_def ts_range_def)
  from allocate_any_slot_complete [OF default_allocator_inv this] this show ?thesis by simp
qed

text \<open>Reconfiguring the carriers keeps the allocator well formed, installs exactly the requested carriers (carrier 0 when
  none is given), and every slot that is supported before and after keeps its owner.\<close>

theorem reconfiguration_keeps_owners:
  assumes "al_inv a"
  shows "al_inv (configure_carriers cs a) \<and>
    set (al_carriers (configure_carriers cs a)) = (if cs = [] then {0} else set cs) \<and>
    (\<forall>slot. al_supported a slot \<longrightarrow> al_supported (configure_carriers cs a) slot \<longrightarrow>
       slot_owner (configure_carriers cs a) slot = slot_owner a slot)"
  using configure_carriers_inv [OF assms] configure_carriers_set configure_carriers_owner [OF assms] by blast

theorem reconfiguration_keeps_owners_witness:
  "set (al_carriers (configure_carriers [7, 9, 7] TimeslotAllocator_default)) = {7, 9}"
  using reconfiguration_keeps_owners [OF default_allocator_inv, of "[7, 9, 7]"] by auto

text \<open>The slot TS1 that an entity holds on a secondary carrier becomes unreachable when that carrier is made the primary one:
  after the reconfiguration its owner is no longer reported and it can neither be released nor reserved.\<close>

theorem promotion_strands_ts1:
  assumes "al_inv a" and "slot_owner a \<lparr>cs_carrier_num = c, cs_ts = 1\<rparr> = Some own"
  shows "slot_owner (configure_carriers (c # cs) a) \<lparr>cs_carrier_num = c, cs_ts = 1\<rparr> = None \<and>
    release_slot own \<lparr>cs_carrier_num = c, cs_ts = 1\<rparr> (configure_carriers (c # cs) a) = Err (InvalidTimeslot 1) \<and>
    reserve_slot own \<lparr>cs_carrier_num = c, cs_ts = 1\<rparr> (configure_carriers (c # cs) a) = Err (InvalidTimeslot 1)"
proof -
  have "\<exists>ds. dedup_carriers (c # acc) cs = c # ds" for acc
    by (induction cs arbitrary: acc) auto
  then obtain ds where "dedup_carriers [c] cs = c # ds" by blast
  then have "al_carriers (configure_carriers (c # cs) a) = c # ds" by (simp add: configure_carriers_def Let_def)
  then have "carrier_idx (configure_carriers (c # cs) a) c = Ok 0" by (simp add: carrier_idx_def)
  moreover have "\<not> slot_supported_for_carrier 0 1" by (simp add: slot_supported_for_carrier_def word_le_nat_alt)
  ultimately show ?thesis by (simp add: slot_owner_def release_slot_def reserve_slot_def slot_idx_def)
qed

theorem promotion_strands_ts1_witness:
  "release_slot Cmce \<lparr>cs_carrier_num = 9, cs_ts = 1\<rparr>
     (configure_carriers [9] \<lparr>al_carriers = [7, 9], al_owners = [[None, None, None, None], [Some Cmce, None, None, None]]\<rparr>) =
   Err (InvalidTimeslot 1)"
  using promotion_strands_ts1 [of "\<lparr>al_carriers = [7, 9], al_owners = [[None, None, None, None], [Some Cmce, None, None, None]]\<rparr>" 9 Cmce "[]"]
  by (simp add: al_inv_def slot_owner_def carrier_idx_def slot_idx_def slot_supported_for_carrier_def)

section \<open>Transmit receipts\<close>

text \<open>The \<open>mark_*\<close> calls implement the documented state machine: on a reporter in a proper state a call succeeds exactly when the
  documented transition exists, and then takes it; otherwise it panics. A state is final for \<open>is_in_final_state\<close> exactly
  when every call panics.\<close>

theorem receipt_implements_state_machine:
  assumes "tx_valid r"
  shows "(\<forall>ev r'. tx_mark ev r = Ok ((), r') \<longleftrightarrow>
      (\<exists>s'. tx_spec (expects_ack r) (get_state r) ev s' \<and> r' = r\<lparr>tx_state := TxState_as_u8 s'\<rparr>)) \<and>
    (\<forall>ev. (\<nexists>s'. tx_spec (expects_ack r) (get_state r) ev s') \<longrightarrow> tx_mark ev r = Panic) \<and>
    (is_in_final_state r \<longleftrightarrow> (\<forall>ev. tx_mark ev r = (Panic :: ('e, unit \<times> TxReporter) outcome)))"
  using tx_mark_refines [OF assms] final_iff_stuck [OF assms] by blast

theorem receipt_implements_state_machine_witness:
  "tx_mark Ev_lost (TxReporter_new 0) = (Panic :: (unit, unit \<times> TxReporter) outcome) \<and>
   tx_mark Ev_transmitted (TxReporter_new 0) = (Ok ((), (TxReporter_new 0)\<lparr>tx_state := TxState_as_u8 Transmitted\<rparr>) :: (unit, unit \<times> TxReporter) outcome)"
proof -
  let ?r = "TxReporter_new 0"
  have "\<nexists>s'. tx_spec (expects_ack ?r) (get_state ?r) Ev_lost s'" "tx_spec (expects_ack ?r) (get_state ?r) Ev_transmitted Transmitted"
    by (simp_all add: tx_spec_simps)
  then show ?thesis using receipt_implements_state_machine [OF tx_valid_new(1), where ?'e = unit] by blast
qed

text \<open>From a fresh reporter at most two transitions are possible, the number of transitions taken is determined by the state,
  and a reporter that expects no acknowledgement never becomes lost or acknowledged.\<close>

theorem receipt_reachable_states:
  assumes "tx_reach r s n" and "r = TxReporter_new c \<or> r = TxReporter_new_unacked c"
  shows "n = tx_depth (get_state s) \<and> n \<le> 2 \<and> (r = TxReporter_new_unacked c \<longrightarrow> get_state s \<in> {Pending, Discarded, Transmitted})"
proof -
  have "tx_valid r" using assms(2) by auto
  then have "expects_ack s = expects_ack r" by (rule tx_reach_inv(2) [OF assms(1)])
  moreover have "tx_depth (get_state s) \<le> 2" by (cases "get_state s") simp_all
  ultimately show ?thesis using tx_reach_depth [OF assms] assms(2) by (auto simp: TxReporter_new_unacked_def TxReporter_new_def)
qed

theorem receipt_reachable_states_witness:
  "tx_reach (TxReporter_new 0) (TxReporter_new 0) 0 \<and> get_state (TxReporter_new 0) = Pending"
  using receipt_reachable_states [OF tx_start, of "TxReporter_new 0" 0] tx_start by simp

end
