(* ===== verification/Raw_Enum.thy ===== *)
theory Raw_Enum
  imports Typed_Fields_Spec
begin

text \<open>
  The coded enumerations of the PDUs: a Rust enum with \<open>into_raw\<close> and \<open>TryFrom<u64>\<close>. The locale
  \<open>raw_enum\<close> states what such a pair promises; every enumeration of the development interprets it.
  \<open>read_enum\<close> is the idiom \<open>let v = read_field(n, s)?; T::try_from(v).map_err(InvalidValue)?\<close>.
\<close>

text \<open>One-bit fields keep the numeral 1 and the coercion of the flag they carry.\<close>

declare One_nat_def [simp del] split_of_bool [split del] split_of_bool_asm [split del]

definition read_enum :: "(u64 \<Rightarrow> 'a option) \<Rightarrow> nat \<Rightarrow> string \<Rightarrow> 'a bb" where
  "read_enum try_from n s =
     bind (read_field n s) (\<lambda>v. case try_from v of Some e \<Rightarrow> ret e | None \<Rightarrow> fail (InvalidValue s v))"

text \<open>\<open>expect_value!(v, x)?\<close> and \<open>expect_pdu_type!(v, x)?\<close> on a value just read.\<close>

definition expect_value :: "u64 \<Rightarrow> u64 \<Rightarrow> string \<Rightarrow> unit bb" where
  "expect_value v expected s = (if v = expected then ret () else fail (InvalidValue s v))"

definition expect_pdu_type :: "u64 \<Rightarrow> u64 \<Rightarrow> unit bb" where
  "expect_pdu_type v expected = (if v = expected then ret () else fail (InvalidPduType expected v))"

lemma expect_value_same [simp]: "expect_value v v s = ret ()"
  by (simp add: expect_value_def)

lemma expect_pdu_type_same [simp]: "expect_pdu_type v v = ret ()"
  by (simp add: expect_pdu_type_def)

lemma safe_expect [safe_intros]: "safe (expect_value v x s)" "safe (expect_pdu_type v x)"
  by (auto simp: expect_value_def expect_pdu_type_def intro: safe_intros)

lemma safe_read_enum [safe_intros]: "safe (read_enum f n s)"
  unfolding read_enum_def by (intro safe_intros)

locale raw_enum =
  fixes wf :: "'a \<Rightarrow> bool"
    and n :: nat
    and into_raw :: "'a \<Rightarrow> u64"
    and try_from :: "u64 \<Rightarrow> 'a option"
  assumes width: "n \<le> 64"
    and fits_raw: "wf e \<Longrightarrow> fits n (into_raw e)"
    and try_from_raw: "wf e \<Longrightarrow> try_from (into_raw e) = Some e"
    and raw_try_from: "try_from x = Some e \<Longrightarrow> wf e \<and> into_raw e = x"
begin

lemma emits_raw: "wf e \<Longrightarrow> emits (write_bits (into_raw e) n) (to_bits n (into_raw e))"
  using width by (intro emits_write_bits fits_raw)

lemma parses_raw: "wf e \<Longrightarrow> parses (read_enum try_from n s) (to_bits n (into_raw e)) e"
  unfolding read_enum_def
  by (intro parsesI parses_field_last width fits_raw) (simp_all add: try_from_raw parses_ret)

lemma raw_bind:
  "wf e \<Longrightarrow> parses_on (f e) ys rest y \<Longrightarrow> parses_on (bind (read_enum try_from n s) f) (to_bits n (into_raw e) @ ys) rest y"
  by (rule parses_bind [OF parses_raw])

lemma raw_last:
  "wf e \<Longrightarrow> parses_on (f e) [] rest y \<Longrightarrow> parses_on (bind (read_enum try_from n s) f) (to_bits n (into_raw e)) rest y"
  by (rule parses_bind_last [OF parses_raw])

lemma into_raw_inj: "wf e \<Longrightarrow> wf e' \<Longrightarrow> into_raw e = into_raw e' \<Longrightarrow> e = e'"
  by (metis option.inject try_from_raw)

text \<open>The reader accepts exactly the codes of the enumeration.\<close>

lemma try_from_domain: "try_from x \<noteq> None \<longleftrightarrow> (\<exists>e. wf e \<and> into_raw e = x)"
  using raw_try_from try_from_raw by (metis not_None_eq option.distinct(1))

end

section \<open>Composition rules for conditional fields\<close>

lemma emits_if [emits_intros]:
  "(c \<Longrightarrow> emits m xs) \<Longrightarrow> (\<not> c \<Longrightarrow> emits n ys) \<Longrightarrow> emits (if c then m else n) (if c then xs else ys)"
  by simp

lemma emits_case_option [emits_intros]:
  "(x = None \<Longrightarrow> emits m xs) \<Longrightarrow> (\<And>y. x = Some y \<Longrightarrow> emits (f y) (g y)) \<Longrightarrow>
   emits (case x of None \<Rightarrow> m | Some y \<Rightarrow> f y) (case x of None \<Rightarrow> xs | Some y \<Rightarrow> g y)"
  by (cases x) simp_all

lemma emits_guard_bind: "c \<Longrightarrow> emits m xs \<Longrightarrow> emits (bind (guard c) (\<lambda>_. m)) xs"
  by simp

lemma emits_seq_guard: "c \<Longrightarrow> emits (seq ms) xs \<Longrightarrow> emits (seq (guard c # ms)) xs"
  by simp

lemma emits_seq_last: "emits m xs \<Longrightarrow> emits (seq [m]) xs"
  by simp

text \<open>A flag is read as \<open>v != 0\<close> and written as \<open>flag as u8 as u64\<close>.\<close>

lemma of_bool_word [simp]:
  "(of_bool b :: 'a::len word) \<noteq> 0 \<longleftrightarrow> b" "(of_bool b :: 'a::len word) = 1 \<longleftrightarrow> b" "(of_bool b :: 'a::len word) = 0 \<longleftrightarrow> \<not> b"
  by (cases b; simp)+

lemma one_not_zero_word: "(1 :: u64) \<noteq> 0" "(0 :: u64) \<noteq> 1"
  by simp_all

end
