(* ===== verification/Lower_Enums.thy ===== *)
theory Lower_Enums
  imports Raw_Enum
begin

text \<open>
  The coded enumerations of the LLC and the MAC (\<open>tetra-pdus/src/llc/enums\<close>, \<open>tetra-pdus/src/umac/enums\<close>,
  \<open>tetra-saps/src/lcmc/enums\<close>), each with its interpretation of \<open>raw_enum\<close>: the codes fit their field, decode to
  what was encoded, and nothing else decodes.
\<close>

section \<open>MacPduType\<close>

text \<open>\<open>tetra-pdus/src/umac/enums/mac_pdu_type.rs\<close>.\<close>

datatype MacPduType =
    MacPduType_MacResourceMacData
  | MacPduType_MacFragMacEnd
  | MacPduType_Broadcast
  | MacPduType_SuppMacUSignal

primrec MacPduType_into_raw :: "MacPduType \<Rightarrow> u64" where
    "MacPduType_into_raw MacPduType_MacResourceMacData = 0"
  | "MacPduType_into_raw MacPduType_MacFragMacEnd = 1"
  | "MacPduType_into_raw MacPduType_Broadcast = 2"
  | "MacPduType_into_raw MacPduType_SuppMacUSignal = 3"

definition MacPduType_try_from :: "u64 \<Rightarrow> MacPduType option" where
  "MacPduType_try_from x =
     (if x = 0 then Some MacPduType_MacResourceMacData
      else if x = 1 then Some MacPduType_MacFragMacEnd
      else if x = 2 then Some MacPduType_Broadcast
      else if x = 3 then Some MacPduType_SuppMacUSignal
      else None)"

interpretation MacPduType: raw_enum "\<lambda>_. True" 2 MacPduType_into_raw MacPduType_try_from
proof
  show "fits 2 (MacPduType_into_raw e)" for e
    by (cases e) simp_all
  show "MacPduType_try_from (MacPduType_into_raw e) = Some e" for e
    by (cases e) (simp_all add: MacPduType_try_from_def)
  show "True \<and> MacPduType_into_raw e = x" if "MacPduType_try_from x = Some e" for x e
    using that by (auto simp: MacPduType_try_from_def split: if_splits)
qed simp

section \<open>BroadcastType\<close>

text \<open>\<open>tetra-pdus/src/umac/enums/broadcast_type.rs\<close>.\<close>

datatype BroadcastType =
    BroadcastType_Sysinfo
  | BroadcastType_AccessDefine
  | BroadcastType_SysinfoDa

primrec BroadcastType_into_raw :: "BroadcastType \<Rightarrow> u64" where
    "BroadcastType_into_raw BroadcastType_Sysinfo = 0"
  | "BroadcastType_into_raw BroadcastType_AccessDefine = 1"
  | "BroadcastType_into_raw BroadcastType_SysinfoDa = 2"

definition BroadcastType_try_from :: "u64 \<Rightarrow> BroadcastType option" where
  "BroadcastType_try_from x =
     (if x = 0 then Some BroadcastType_Sysinfo
      else if x = 1 then Some BroadcastType_AccessDefine
      else if x = 2 then Some BroadcastType_SysinfoDa
      else None)"

interpretation BroadcastType: raw_enum "\<lambda>_. True" 2 BroadcastType_into_raw BroadcastType_try_from
proof
  show "fits 2 (BroadcastType_into_raw e)" for e
    by (cases e) simp_all
  show "BroadcastType_try_from (BroadcastType_into_raw e) = Some e" for e
    by (cases e) (simp_all add: BroadcastType_try_from_def)
  show "True \<and> BroadcastType_into_raw e = x" if "BroadcastType_try_from x = Some e" for x e
    using that by (auto simp: BroadcastType_try_from_def split: if_splits)
qed simp

section \<open>SysinfoOptFieldFlag\<close>

text \<open>\<open>tetra-pdus/src/umac/enums/sysinfo_opt_field_flag.rs\<close>.\<close>

datatype SysinfoOptFieldFlag =
    SysinfoOptFieldFlag_EvenMfDefForTsMode
  | SysinfoOptFieldFlag_OddMfDefForTsMode
  | SysinfoOptFieldFlag_DefaultDefForAccCodeA
  | SysinfoOptFieldFlag_ExtServicesBroadcast

primrec SysinfoOptFieldFlag_into_raw :: "SysinfoOptFieldFlag \<Rightarrow> u64" where
    "SysinfoOptFieldFlag_into_raw SysinfoOptFieldFlag_EvenMfDefForTsMode = 0"
  | "SysinfoOptFieldFlag_into_raw SysinfoOptFieldFlag_OddMfDefForTsMode = 1"
  | "SysinfoOptFieldFlag_into_raw SysinfoOptFieldFlag_DefaultDefForAccCodeA = 2"
  | "SysinfoOptFieldFlag_into_raw SysinfoOptFieldFlag_ExtServicesBroadcast = 3"

definition SysinfoOptFieldFlag_try_from :: "u64 \<Rightarrow> SysinfoOptFieldFlag option" where
  "SysinfoOptFieldFlag_try_from x =
     (if x = 0 then Some SysinfoOptFieldFlag_EvenMfDefForTsMode
      else if x = 1 then Some SysinfoOptFieldFlag_OddMfDefForTsMode
      else if x = 2 then Some SysinfoOptFieldFlag_DefaultDefForAccCodeA
      else if x = 3 then Some SysinfoOptFieldFlag_ExtServicesBroadcast
      else None)"

interpretation SysinfoOptFieldFlag: raw_enum "\<lambda>_. True" 2 SysinfoOptFieldFlag_into_raw SysinfoOptFieldFlag_try_from
proof
  show "fits 2 (SysinfoOptFieldFlag_into_raw e)" for e
    by (cases e) simp_all
  show "SysinfoOptFieldFlag_try_from (SysinfoOptFieldFlag_into_raw e) = Some e" for e
    by (cases e) (simp_all add: SysinfoOptFieldFlag_try_from_def)
  show "True \<and> SysinfoOptFieldFlag_into_raw e = x" if "SysinfoOptFieldFlag_try_from x = Some e" for x e
    using that by (auto simp: SysinfoOptFieldFlag_try_from_def split: if_splits)
qed simp

section \<open>MacResourceAddrType\<close>

text \<open>\<open>tetra-pdus/src/umac/enums/mac_resource_addr_type.rs\<close>.\<close>

datatype MacResourceAddrType =
    MacResourceAddrType_NullPdu
  | MacResourceAddrType_Ssi
  | MacResourceAddrType_EventLabel
  | MacResourceAddrType_Ussi
  | MacResourceAddrType_Smi
  | MacResourceAddrType_SsiAndEventLabel
  | MacResourceAddrType_SsiAndUsageMarker
  | MacResourceAddrType_SmiAndEventLabel

primrec MacResourceAddrType_into_raw :: "MacResourceAddrType \<Rightarrow> u64" where
    "MacResourceAddrType_into_raw MacResourceAddrType_NullPdu = 0"
  | "MacResourceAddrType_into_raw MacResourceAddrType_Ssi = 1"
  | "MacResourceAddrType_into_raw MacResourceAddrType_EventLabel = 2"
  | "MacResourceAddrType_into_raw MacResourceAddrType_Ussi = 3"
  | "MacResourceAddrType_into_raw MacResourceAddrType_Smi = 4"
  | "MacResourceAddrType_into_raw MacResourceAddrType_SsiAndEventLabel = 5"
  | "MacResourceAddrType_into_raw MacResourceAddrType_SsiAndUsageMarker = 6"
  | "MacResourceAddrType_into_raw MacResourceAddrType_SmiAndEventLabel = 7"

definition MacResourceAddrType_try_from :: "u64 \<Rightarrow> MacResourceAddrType option" where
  "MacResourceAddrType_try_from x =
     (if x = 0 then Some MacResourceAddrType_NullPdu
      else if x = 1 then Some MacResourceAddrType_Ssi
      else if x = 2 then Some MacResourceAddrType_EventLabel
      else if x = 3 then Some MacResourceAddrType_Ussi
      else if x = 4 then Some MacResourceAddrType_Smi
      else if x = 5 then Some MacResourceAddrType_SsiAndEventLabel
      else if x = 6 then Some MacResourceAddrType_SsiAndUsageMarker
      else if x = 7 then Some MacResourceAddrType_SmiAndEventLabel
      else None)"

interpretation MacResourceAddrType: raw_enum "\<lambda>_. True" 3 MacResourceAddrType_into_raw MacResourceAddrType_try_from
proof
  show "fits 3 (MacResourceAddrType_into_raw e)" for e
    by (cases e) simp_all
  show "MacResourceAddrType_try_from (MacResourceAddrType_into_raw e) = Some e" for e
    by (cases e) (simp_all add: MacResourceAddrType_try_from_def)
  show "True \<and> MacResourceAddrType_into_raw e = x" if "MacResourceAddrType_try_from x = Some e" for x e
    using that by (auto simp: MacResourceAddrType_try_from_def split: if_splits)
qed simp

section \<open>ReservationRequirement\<close>

text \<open>\<open>tetra-pdus/src/umac/enums/reservation_requirement.rs\<close>.\<close>

datatype ReservationRequirement =
    ReservationRequirement_Req1Subslot
  | ReservationRequirement_Req1Slot
  | ReservationRequirement_Req2Slots
  | ReservationRequirement_Req3Slots
  | ReservationRequirement_Req4Slots
  | ReservationRequirement_Req5Slots
  | ReservationRequirement_Req6Slots
  | ReservationRequirement_Req8Slots
  | ReservationRequirement_Req10Slots
  | ReservationRequirement_Req13Slots
  | ReservationRequirement_Req17Slots
  | ReservationRequirement_Req24Slots
  | ReservationRequirement_Req34Slots
  | ReservationRequirement_Req51Slots
  | ReservationRequirement_Req68Slots
  | ReservationRequirement_ReqOver68

primrec ReservationRequirement_into_raw :: "ReservationRequirement \<Rightarrow> u64" where
    "ReservationRequirement_into_raw ReservationRequirement_Req1Subslot = 0"
  | "ReservationRequirement_into_raw ReservationRequirement_Req1Slot = 1"
  | "ReservationRequirement_into_raw ReservationRequirement_Req2Slots = 2"
  | "ReservationRequirement_into_raw ReservationRequirement_Req3Slots = 3"
  | "ReservationRequirement_into_raw ReservationRequirement_Req4Slots = 4"
  | "ReservationRequirement_into_raw ReservationRequirement_Req5Slots = 5"
  | "ReservationRequirement_into_raw ReservationRequirement_Req6Slots = 6"
  | "ReservationRequirement_into_raw ReservationRequirement_Req8Slots = 7"
  | "ReservationRequirement_into_raw ReservationRequirement_Req10Slots = 8"
  | "ReservationRequirement_into_raw ReservationRequirement_Req13Slots = 9"
  | "ReservationRequirement_into_raw ReservationRequirement_Req17Slots = 10"
  | "ReservationRequirement_into_raw ReservationRequirement_Req24Slots = 11"
  | "ReservationRequirement_into_raw ReservationRequirement_Req34Slots = 12"
  | "ReservationRequirement_into_raw ReservationRequirement_Req51Slots = 13"
  | "ReservationRequirement_into_raw ReservationRequirement_Req68Slots = 14"
  | "ReservationRequirement_into_raw ReservationRequirement_ReqOver68 = 15"

definition ReservationRequirement_try_from :: "u64 \<Rightarrow> ReservationRequirement option" where
  "ReservationRequirement_try_from x =
     (if x = 0 then Some ReservationRequirement_Req1Subslot
      else if x = 1 then Some ReservationRequirement_Req1Slot
      else if x = 2 then Some ReservationRequirement_Req2Slots
      else if x = 3 then Some ReservationRequirement_Req3Slots
      else if x = 4 then Some ReservationRequirement_Req4Slots
      else if x = 5 then Some ReservationRequirement_Req5Slots
      else if x = 6 then Some ReservationRequirement_Req6Slots
      else if x = 7 then Some ReservationRequirement_Req8Slots
      else if x = 8 then Some ReservationRequirement_Req10Slots
      else if x = 9 then Some ReservationRequirement_Req13Slots
      else if x = 10 then Some ReservationRequirement_Req17Slots
      else if x = 11 then Some ReservationRequirement_Req24Slots
      else if x = 12 then Some ReservationRequirement_Req34Slots
      else if x = 13 then Some ReservationRequirement_Req51Slots
      else if x = 14 then Some ReservationRequirement_Req68Slots
      else if x = 15 then Some ReservationRequirement_ReqOver68
      else None)"

interpretation ReservationRequirement: raw_enum "\<lambda>_. True" 4 ReservationRequirement_into_raw ReservationRequirement_try_from
proof
  show "fits 4 (ReservationRequirement_into_raw e)" for e
    by (cases e) simp_all
  show "ReservationRequirement_try_from (ReservationRequirement_into_raw e) = Some e" for e
    by (cases e) (simp_all add: ReservationRequirement_try_from_def)
  show "True \<and> ReservationRequirement_into_raw e = x" if "ReservationRequirement_try_from x = Some e" for x e
    using that by (auto simp: ReservationRequirement_try_from_def split: if_splits)
qed simp

section \<open>BasicSlotgrantCapAlloc\<close>

text \<open>\<open>tetra-pdus/src/umac/enums/basic_slotgrant_cap_alloc.rs\<close>.\<close>

datatype BasicSlotgrantCapAlloc =
    BasicSlotgrantCapAlloc_FirstSubslotGranted
  | BasicSlotgrantCapAlloc_Grant1Slot
  | BasicSlotgrantCapAlloc_Grant2Slots
  | BasicSlotgrantCapAlloc_Grant3Slots
  | BasicSlotgrantCapAlloc_Grant4Slots
  | BasicSlotgrantCapAlloc_Grant5Slots
  | BasicSlotgrantCapAlloc_Grant6Slots
  | BasicSlotgrantCapAlloc_Grant8Slots
  | BasicSlotgrantCapAlloc_Grant10Slots
  | BasicSlotgrantCapAlloc_Grant13Slots
  | BasicSlotgrantCapAlloc_Grant17Slots
  | BasicSlotgrantCapAlloc_Grant24Slots
  | BasicSlotgrantCapAlloc_Grant34Slots
  | BasicSlotgrantCapAlloc_Grant51Slots
  | BasicSlotgrantCapAlloc_Grant68Slots
  | BasicSlotgrantCapAlloc_SecondSubslotGranted

primrec BasicSlotgrantCapAlloc_into_raw :: "BasicSlotgrantCapAlloc \<Rightarrow> u64" where
    "BasicSlotgrantCapAlloc_into_raw BasicSlotgrantCapAlloc_FirstSubslotGranted = 0"
  | "BasicSlotgrantCapAlloc_into_raw BasicSlotgrantCapAlloc_Grant1Slot = 1"
  | "BasicSlotgrantCapAlloc_into_raw BasicSlotgrantCapAlloc_Grant2Slots = 2"
  | "BasicSlotgrantCapAlloc_into_raw BasicSlotgrantCapAlloc_Grant3Slots = 3"
  | "BasicSlotgrantCapAlloc_into_raw BasicSlotgrantCapAlloc_Grant4Slots = 4"
  | "BasicSlotgrantCapAlloc_into_raw BasicSlotgrantCapAlloc_Grant5Slots = 5"
  | "BasicSlotgrantCapAlloc_into_raw BasicSlotgrantCapAlloc_Grant6Slots = 6"
  | "BasicSlotgrantCapAlloc_into_raw BasicSlotgrantCapAlloc_Grant8Slots = 7"
  | "BasicSlotgrantCapAlloc_into_raw BasicSlotgrantCapAlloc_Grant10Slots = 8"
  | "BasicSlotgrantCapAlloc_into_raw BasicSlotgrantCapAlloc_Grant13Slots = 9"
  | "BasicSlotgrantCapAlloc_into_raw BasicSlotgrantCapAlloc_Grant17Slots = 10"
  | "BasicSlotgrantCapAlloc_into_raw BasicSlotgrantCapAlloc_Grant24Slots = 11"
  | "BasicSlotgrantCapAlloc_into_raw BasicSlotgrantCapAlloc_Grant34Slots = 12"
  | "BasicSlotgrantCapAlloc_into_raw BasicSlotgrantCapAlloc_Grant51Slots = 13"
  | "BasicSlotgrantCapAlloc_into_raw BasicSlotgrantCapAlloc_Grant68Slots = 14"
  | "BasicSlotgrantCapAlloc_into_raw BasicSlotgrantCapAlloc_SecondSubslotGranted = 15"

definition BasicSlotgrantCapAlloc_try_from :: "u64 \<Rightarrow> BasicSlotgrantCapAlloc option" where
  "BasicSlotgrantCapAlloc_try_from x =
     (if x = 0 then Some BasicSlotgrantCapAlloc_FirstSubslotGranted
      else if x = 1 then Some BasicSlotgrantCapAlloc_Grant1Slot
      else if x = 2 then Some BasicSlotgrantCapAlloc_Grant2Slots
      else if x = 3 then Some BasicSlotgrantCapAlloc_Grant3Slots
      else if x = 4 then Some BasicSlotgrantCapAlloc_Grant4Slots
      else if x = 5 then Some BasicSlotgrantCapAlloc_Grant5Slots
      else if x = 6 then Some BasicSlotgrantCapAlloc_Grant6Slots
      else if x = 7 then Some BasicSlotgrantCapAlloc_Grant8Slots
      else if x = 8 then Some BasicSlotgrantCapAlloc_Grant10Slots
      else if x = 9 then Some BasicSlotgrantCapAlloc_Grant13Slots
      else if x = 10 then Some BasicSlotgrantCapAlloc_Grant17Slots
      else if x = 11 then Some BasicSlotgrantCapAlloc_Grant24Slots
      else if x = 12 then Some BasicSlotgrantCapAlloc_Grant34Slots
      else if x = 13 then Some BasicSlotgrantCapAlloc_Grant51Slots
      else if x = 14 then Some BasicSlotgrantCapAlloc_Grant68Slots
      else if x = 15 then Some BasicSlotgrantCapAlloc_SecondSubslotGranted
      else None)"

interpretation BasicSlotgrantCapAlloc: raw_enum "\<lambda>_. True" 4 BasicSlotgrantCapAlloc_into_raw BasicSlotgrantCapAlloc_try_from
proof
  show "fits 4 (BasicSlotgrantCapAlloc_into_raw e)" for e
    by (cases e) simp_all
  show "BasicSlotgrantCapAlloc_try_from (BasicSlotgrantCapAlloc_into_raw e) = Some e" for e
    by (cases e) (simp_all add: BasicSlotgrantCapAlloc_try_from_def)
  show "True \<and> BasicSlotgrantCapAlloc_into_raw e = x" if "BasicSlotgrantCapAlloc_try_from x = Some e" for x e
    using that by (auto simp: BasicSlotgrantCapAlloc_try_from_def split: if_splits)
qed simp

section \<open>UlDlAssignment\<close>

text \<open>\<open>tetra-saps/src/lcmc/enums/ul_dl_assignment.rs\<close>.\<close>

datatype UlDlAssignment =
    UlDlAssignment_Augmented
  | UlDlAssignment_Dl
  | UlDlAssignment_Ul
  | UlDlAssignment_Both

primrec UlDlAssignment_into_raw :: "UlDlAssignment \<Rightarrow> u64" where
    "UlDlAssignment_into_raw UlDlAssignment_Augmented = 0"
  | "UlDlAssignment_into_raw UlDlAssignment_Dl = 1"
  | "UlDlAssignment_into_raw UlDlAssignment_Ul = 2"
  | "UlDlAssignment_into_raw UlDlAssignment_Both = 3"

definition UlDlAssignment_try_from :: "u64 \<Rightarrow> UlDlAssignment option" where
  "UlDlAssignment_try_from x =
     (if x = 0 then Some UlDlAssignment_Augmented
      else if x = 1 then Some UlDlAssignment_Dl
      else if x = 2 then Some UlDlAssignment_Ul
      else if x = 3 then Some UlDlAssignment_Both
      else None)"

interpretation UlDlAssignment: raw_enum "\<lambda>_. True" 2 UlDlAssignment_into_raw UlDlAssignment_try_from
proof
  show "fits 2 (UlDlAssignment_into_raw e)" for e
    by (cases e) simp_all
  show "UlDlAssignment_try_from (UlDlAssignment_into_raw e) = Some e" for e
    by (cases e) (simp_all add: UlDlAssignment_try_from_def)
  show "True \<and> UlDlAssignment_into_raw e = x" if "UlDlAssignment_try_from x = Some e" for x e
    using that by (auto simp: UlDlAssignment_try_from_def split: if_splits)
qed simp

section \<open>ChanAllocType\<close>

text \<open>\<open>tetra-saps/src/lcmc/enums/alloc_type.rs\<close>.\<close>

datatype ChanAllocType =
    ChanAllocType_Replace
  | ChanAllocType_Additional
  | ChanAllocType_QuitAndGo
  | ChanAllocType_ReplaceWithCarrierSignalling

primrec ChanAllocType_into_raw :: "ChanAllocType \<Rightarrow> u64" where
    "ChanAllocType_into_raw ChanAllocType_Replace = 0"
  | "ChanAllocType_into_raw ChanAllocType_Additional = 1"
  | "ChanAllocType_into_raw ChanAllocType_QuitAndGo = 2"
  | "ChanAllocType_into_raw ChanAllocType_ReplaceWithCarrierSignalling = 3"

definition ChanAllocType_try_from :: "u64 \<Rightarrow> ChanAllocType option" where
  "ChanAllocType_try_from x =
     (if x = 0 then Some ChanAllocType_Replace
      else if x = 1 then Some ChanAllocType_Additional
      else if x = 2 then Some ChanAllocType_QuitAndGo
      else if x = 3 then Some ChanAllocType_ReplaceWithCarrierSignalling
      else None)"

interpretation ChanAllocType: raw_enum "\<lambda>_. True" 2 ChanAllocType_into_raw ChanAllocType_try_from
proof
  show "fits 2 (ChanAllocType_into_raw e)" for e
    by (cases e) simp_all
  show "ChanAllocType_try_from (ChanAllocType_into_raw e) = Some e" for e
    by (cases e) (simp_all add: ChanAllocType_try_from_def)
  show "True \<and> ChanAllocType_into_raw e = x" if "ChanAllocType_try_from x = Some e" for x e
    using that by (auto simp: ChanAllocType_try_from_def split: if_splits)
qed simp

section \<open>LlcPduType\<close>

text \<open>\<open>tetra-pdus/src/llc/enums/llc_pdu_type.rs\<close>.\<close>

datatype LlcPduType =
    LlcPduType_BlAdata
  | LlcPduType_BlData
  | LlcPduType_BlUdata
  | LlcPduType_BlAck
  | LlcPduType_BlAdataFcs
  | LlcPduType_BlDataFcs
  | LlcPduType_BlUdataFcs
  | LlcPduType_BlAckFcs
  | LlcPduType_AlSetup
  | LlcPduType_AlDataAlFinal
  | LlcPduType_AlAlUdataAlUfinal
  | LlcPduType_AlAckAlRnr
  | LlcPduType_AlReconnect
  | LlcPduType_SuppLlcPdu
  | LlcPduType_L2SigPdu
  | LlcPduType_AlDisc

primrec LlcPduType_into_raw :: "LlcPduType \<Rightarrow> u64" where
    "LlcPduType_into_raw LlcPduType_BlAdata = 0"
  | "LlcPduType_into_raw LlcPduType_BlData = 1"
  | "LlcPduType_into_raw LlcPduType_BlUdata = 2"
  | "LlcPduType_into_raw LlcPduType_BlAck = 3"
  | "LlcPduType_into_raw LlcPduType_BlAdataFcs = 4"
  | "LlcPduType_into_raw LlcPduType_BlDataFcs = 5"
  | "LlcPduType_into_raw LlcPduType_BlUdataFcs = 6"
  | "LlcPduType_into_raw LlcPduType_BlAckFcs = 7"
  | "LlcPduType_into_raw LlcPduType_AlSetup = 8"
  | "LlcPduType_into_raw LlcPduType_AlDataAlFinal = 9"
  | "LlcPduType_into_raw LlcPduType_AlAlUdataAlUfinal = 10"
  | "LlcPduType_into_raw LlcPduType_AlAckAlRnr = 11"
  | "LlcPduType_into_raw LlcPduType_AlReconnect = 12"
  | "LlcPduType_into_raw LlcPduType_SuppLlcPdu = 13"
  | "LlcPduType_into_raw LlcPduType_L2SigPdu = 14"
  | "LlcPduType_into_raw LlcPduType_AlDisc = 15"

definition LlcPduType_try_from :: "u64 \<Rightarrow> LlcPduType option" where
  "LlcPduType_try_from x =
     (if x = 0 then Some LlcPduType_BlAdata
      else if x = 1 then Some LlcPduType_BlData
      else if x = 2 then Some LlcPduType_BlUdata
      else if x = 3 then Some LlcPduType_BlAck
      else if x = 4 then Some LlcPduType_BlAdataFcs
      else if x = 5 then Some LlcPduType_BlDataFcs
      else if x = 6 then Some LlcPduType_BlUdataFcs
      else if x = 7 then Some LlcPduType_BlAckFcs
      else if x = 8 then Some LlcPduType_AlSetup
      else if x = 9 then Some LlcPduType_AlDataAlFinal
      else if x = 10 then Some LlcPduType_AlAlUdataAlUfinal
      else if x = 11 then Some LlcPduType_AlAckAlRnr
      else if x = 12 then Some LlcPduType_AlReconnect
      else if x = 13 then Some LlcPduType_SuppLlcPdu
      else if x = 14 then Some LlcPduType_L2SigPdu
      else if x = 15 then Some LlcPduType_AlDisc
      else None)"

interpretation LlcPduType: raw_enum "\<lambda>_. True" 4 LlcPduType_into_raw LlcPduType_try_from
proof
  show "fits 4 (LlcPduType_into_raw e)" for e
    by (cases e) simp_all
  show "LlcPduType_try_from (LlcPduType_into_raw e) = Some e" for e
    by (cases e) (simp_all add: LlcPduType_try_from_def)
  show "True \<and> LlcPduType_into_raw e = x" if "LlcPduType_try_from x = Some e" for x e
    using that by (auto simp: LlcPduType_try_from_def split: if_splits)
qed simp

end
