(* ===== verification/Llc_Pdus.thy ===== *)
theory Llc_Pdus
  imports Lower_Enums
begin

text \<open>
  The basic-link PDUs of the LLC (\<open>tetra-pdus/src/llc/pdus\<close>): BL-ADATA, BL-DATA, BL-UDATA and BL-ACK.
  Each reader/writer pair interprets \<open>safe_codec\<close>: a well-formed PDU is read back as written, and no
  received bits make the reader panic. A sequence number is one bit.
\<close>

section \<open>BL-ACK\<close>

record BlAck =
  BlAck_has_fcs :: bool
  BlAck_nr :: u8

definition BlAck_from_bitbuf :: "BlAck bb" where
  "BlAck_from_bitbuf =
     bind (read_field 1 ''llc_link_type'') (\<lambda>llc_link_type.
     bind (expect_value llc_link_type 0 ''llc_link_type'') (\<lambda>_.
     bind (read_field 1 ''has_fcs'') (\<lambda>has_fcs.
     bind (read_field 2 ''bl_pdu_type'') (\<lambda>bl_pdu_type.
     bind (expect_value bl_pdu_type 3 ''bl_pdu_type'') (\<lambda>_.
     bind (read_field 1 ''nr'') (\<lambda>nr.
     ret \<lparr>BlAck_has_fcs = has_fcs \<noteq> 0, BlAck_nr = ucast nr\<rparr>))))))"

definition BlAck_to_bitbuf :: "BlAck \<Rightarrow> unit bb" where
  "BlAck_to_bitbuf p = seq
     [write_bits 0 1,
      write_bits (of_bool (BlAck_has_fcs p)) 1,
      write_bits 3 2,
      write_bits (ucast (BlAck_nr p)) 1]"

section \<open>BL-ADATA\<close>

record BlAdata =
  BlAdata_has_fcs :: bool
  BlAdata_nr :: u8
  BlAdata_ns :: u8

definition BlAdata_from_bitbuf :: "BlAdata bb" where
  "BlAdata_from_bitbuf =
     bind (read_field 1 ''llc_link_type'') (\<lambda>llc_link_type.
     bind (expect_value llc_link_type 0 ''llc_link_type'') (\<lambda>_.
     bind (read_field 1 ''has_fcs'') (\<lambda>has_fcs.
     bind (read_field 2 ''bl_pdu_type'') (\<lambda>bl_pdu_type.
     bind (expect_value bl_pdu_type 0 ''bl_pdu_type'') (\<lambda>_.
     bind (read_field 1 ''nr'') (\<lambda>nr.
     bind (read_field 1 ''ns'') (\<lambda>ns.
     ret \<lparr>BlAdata_has_fcs = has_fcs \<noteq> 0, BlAdata_nr = ucast nr, BlAdata_ns = ucast ns\<rparr>)))))))"

definition BlAdata_to_bitbuf :: "BlAdata \<Rightarrow> unit bb" where
  "BlAdata_to_bitbuf p = seq
     [write_bits 0 1,
      write_bits (of_bool (BlAdata_has_fcs p)) 1,
      write_bits 0 2,
      write_bits (ucast (BlAdata_nr p)) 1,
      write_bits (ucast (BlAdata_ns p)) 1]"

section \<open>BL-DATA\<close>

record BlData =
  BlData_has_fcs :: bool
  BlData_ns :: u8

definition BlData_from_bitbuf :: "BlData bb" where
  "BlData_from_bitbuf =
     bind (read_field 1 ''llc_link_type'') (\<lambda>llc_link_type.
     bind (expect_value llc_link_type 0 ''llc_link_type'') (\<lambda>_.
     bind (read_field 1 ''has_fcs'') (\<lambda>has_fcs.
     bind (read_field 2 ''bl_pdu_type'') (\<lambda>bl_pdu_type.
     bind (expect_value bl_pdu_type 1 ''bl_pdu_type'') (\<lambda>_.
     bind (read_field 1 ''ns'') (\<lambda>ns.
     ret \<lparr>BlData_has_fcs = has_fcs \<noteq> 0, BlData_ns = ucast ns\<rparr>))))))"

definition BlData_to_bitbuf :: "BlData \<Rightarrow> unit bb" where
  "BlData_to_bitbuf p = seq
     [write_bits 0 1,
      write_bits (of_bool (BlData_has_fcs p)) 1,
      write_bits 1 2,
      write_bits (ucast (BlData_ns p)) 1]"

section \<open>BL-UDATA\<close>

record BlUdata =
  BlUdata_has_fcs :: bool

definition BlUdata_from_bitbuf :: "BlUdata bb" where
  "BlUdata_from_bitbuf =
     bind (read_field 1 ''llc_link_type'') (\<lambda>llc_link_type.
     bind (expect_value llc_link_type 0 ''llc_link_type'') (\<lambda>_.
     bind (read_field 1 ''has_fcs'') (\<lambda>has_fcs.
     bind (read_field 2 ''bl_pdu_type'') (\<lambda>bl_pdu_type.
     bind (expect_value bl_pdu_type 2 ''bl_pdu_type'') (\<lambda>_.
     ret \<lparr>BlUdata_has_fcs = has_fcs \<noteq> 0\<rparr>)))))"

definition BlUdata_to_bitbuf :: "BlUdata \<Rightarrow> unit bb" where
  "BlUdata_to_bitbuf p = seq
     [write_bits 0 1,
      write_bits (of_bool (BlUdata_has_fcs p)) 1,
      write_bits 2 2]"

section \<open>Encodings and codecs\<close>

definition wf_BlAck :: "BlAck \<Rightarrow> bool" where
  "wf_BlAck p \<longleftrightarrow> fits 1 (BlAck_nr p)"

definition enc_BlAck :: "BlAck \<Rightarrow> bool list" where
  "enc_BlAck p = to_bits 1 (0 :: u64) @ to_bits 1 (of_bool (BlAck_has_fcs p) :: u64) @ to_bits 2 (3 :: u64) @
     to_bits 1 (ucast (BlAck_nr p) :: u64)"

definition wf_BlAdata :: "BlAdata \<Rightarrow> bool" where
  "wf_BlAdata p \<longleftrightarrow> fits 1 (BlAdata_nr p) \<and> fits 1 (BlAdata_ns p)"

definition enc_BlAdata :: "BlAdata \<Rightarrow> bool list" where
  "enc_BlAdata p = to_bits 1 (0 :: u64) @ to_bits 1 (of_bool (BlAdata_has_fcs p) :: u64) @ to_bits 2 (0 :: u64) @
     to_bits 1 (ucast (BlAdata_nr p) :: u64) @ to_bits 1 (ucast (BlAdata_ns p) :: u64)"

definition wf_BlData :: "BlData \<Rightarrow> bool" where
  "wf_BlData p \<longleftrightarrow> fits 1 (BlData_ns p)"

definition enc_BlData :: "BlData \<Rightarrow> bool list" where
  "enc_BlData p = to_bits 1 (0 :: u64) @ to_bits 1 (of_bool (BlData_has_fcs p) :: u64) @ to_bits 2 (1 :: u64) @
     to_bits 1 (ucast (BlData_ns p) :: u64)"

definition enc_BlUdata :: "BlUdata \<Rightarrow> bool list" where
  "enc_BlUdata p = to_bits 1 (0 :: u64) @ to_bits 1 (of_bool (BlUdata_has_fcs p) :: u64) @ to_bits 2 (2 :: u64)"

interpretation BlAck: safe_codec wf_BlAck enc_BlAck BlAck_to_bitbuf BlAck_from_bitbuf
proof
  show "emits (BlAck_to_bitbuf p) (enc_BlAck p)" if "wf_BlAck p" for p
    using that unfolding BlAck_to_bitbuf_def enc_BlAck_def wf_BlAck_def
    by (intro emits_intros emits_seq_last) simp_all
  show "parses BlAck_from_bitbuf (enc_BlAck p) p" if "wf_BlAck p" for p
    using that unfolding BlAck_from_bitbuf_def enc_BlAck_def wf_BlAck_def
    by (intro parsesI parses_intros) (simp_all add: parses_intros)
  show "safe BlAck_from_bitbuf"
    unfolding BlAck_from_bitbuf_def by (intro safe_intros)
qed

interpretation BlAdata: safe_codec wf_BlAdata enc_BlAdata BlAdata_to_bitbuf BlAdata_from_bitbuf
proof
  show "emits (BlAdata_to_bitbuf p) (enc_BlAdata p)" if "wf_BlAdata p" for p
    using that unfolding BlAdata_to_bitbuf_def enc_BlAdata_def wf_BlAdata_def
    by (intro emits_intros emits_seq_last) simp_all
  show "parses BlAdata_from_bitbuf (enc_BlAdata p) p" if "wf_BlAdata p" for p
    using that unfolding BlAdata_from_bitbuf_def enc_BlAdata_def wf_BlAdata_def
    by (intro parsesI parses_intros) (simp_all add: parses_intros)
  show "safe BlAdata_from_bitbuf"
    unfolding BlAdata_from_bitbuf_def by (intro safe_intros)
qed

interpretation BlData: safe_codec wf_BlData enc_BlData BlData_to_bitbuf BlData_from_bitbuf
proof
  show "emits (BlData_to_bitbuf p) (enc_BlData p)" if "wf_BlData p" for p
    using that unfolding BlData_to_bitbuf_def enc_BlData_def wf_BlData_def
    by (intro emits_intros emits_seq_last) simp_all
  show "parses BlData_from_bitbuf (enc_BlData p) p" if "wf_BlData p" for p
    using that unfolding BlData_from_bitbuf_def enc_BlData_def wf_BlData_def
    by (intro parsesI parses_intros) (simp_all add: parses_intros)
  show "safe BlData_from_bitbuf"
    unfolding BlData_from_bitbuf_def by (intro safe_intros)
qed

interpretation BlUdata: safe_codec "\<lambda>_. True" enc_BlUdata BlUdata_to_bitbuf BlUdata_from_bitbuf
proof
  show "emits (BlUdata_to_bitbuf p) (enc_BlUdata p)" for p
    unfolding BlUdata_to_bitbuf_def enc_BlUdata_def
    by (intro emits_intros emits_seq_last) simp_all
  show "parses BlUdata_from_bitbuf (enc_BlUdata p) p" for p
    unfolding BlUdata_from_bitbuf_def enc_BlUdata_def
    by (intro parsesI parses_intros) (simp_all add: parses_intros)
  show "safe BlUdata_from_bitbuf"
    unfolding BlUdata_from_bitbuf_def by (intro safe_intros)
qed

end
