(* ===== verification/Address.thy ===== *)
theory Address
  imports Lower_Enums
begin

text \<open>
  \<open>tetra-core/src/address.rs\<close>: subscriber addresses, and the slot-count tables of the reservation
  requirement and capacity allocation enumerations.
\<close>

datatype SsiType = SsiType_Unknown | SsiType_Ssi | SsiType_Issi | SsiType_Gssi | SsiType_Ussi | SsiType_Smi
  | SsiType_Esi | SsiType_EventLabel

record TetraAddress =
  ta_ssi :: u32
  ta_ssi_type :: SsiType

definition TetraAddress_issi :: "u32 \<Rightarrow> TetraAddress" where
  "TetraAddress_issi s = \<lparr>ta_ssi = s, ta_ssi_type = SsiType_Issi\<rparr>"

section \<open>Slot counts\<close>

definition ReservationRequirement_from_req_slotcount :: "nat \<Rightarrow> ReservationRequirement" where
  "ReservationRequirement_from_req_slotcount req =
     (if req = 0 then ReservationRequirement_Req1Subslot
      else if req = 1 then ReservationRequirement_Req1Slot
      else if req = 2 then ReservationRequirement_Req2Slots
      else if req = 3 then ReservationRequirement_Req3Slots
      else if req = 4 then ReservationRequirement_Req4Slots
      else if req = 5 then ReservationRequirement_Req5Slots
      else if req = 6 then ReservationRequirement_Req6Slots
      else if req \<le> 8 then ReservationRequirement_Req8Slots
      else if req \<le> 10 then ReservationRequirement_Req10Slots
      else if req \<le> 13 then ReservationRequirement_Req13Slots
      else if req \<le> 17 then ReservationRequirement_Req17Slots
      else if req \<le> 24 then ReservationRequirement_Req24Slots
      else if req \<le> 34 then ReservationRequirement_Req34Slots
      else if req \<le> 51 then ReservationRequirement_Req51Slots
      else if req \<le> 68 then ReservationRequirement_Req68Slots
      else ReservationRequirement_ReqOver68)"

primrec ReservationRequirement_to_req_slotcount :: "ReservationRequirement \<Rightarrow> nat" where
    "ReservationRequirement_to_req_slotcount ReservationRequirement_Req1Subslot = 0"
  | "ReservationRequirement_to_req_slotcount ReservationRequirement_Req1Slot = 1"
  | "ReservationRequirement_to_req_slotcount ReservationRequirement_Req2Slots = 2"
  | "ReservationRequirement_to_req_slotcount ReservationRequirement_Req3Slots = 3"
  | "ReservationRequirement_to_req_slotcount ReservationRequirement_Req4Slots = 4"
  | "ReservationRequirement_to_req_slotcount ReservationRequirement_Req5Slots = 5"
  | "ReservationRequirement_to_req_slotcount ReservationRequirement_Req6Slots = 6"
  | "ReservationRequirement_to_req_slotcount ReservationRequirement_Req8Slots = 8"
  | "ReservationRequirement_to_req_slotcount ReservationRequirement_Req10Slots = 10"
  | "ReservationRequirement_to_req_slotcount ReservationRequirement_Req13Slots = 13"
  | "ReservationRequirement_to_req_slotcount ReservationRequirement_Req17Slots = 17"
  | "ReservationRequirement_to_req_slotcount ReservationRequirement_Req24Slots = 24"
  | "ReservationRequirement_to_req_slotcount ReservationRequirement_Req34Slots = 34"
  | "ReservationRequirement_to_req_slotcount ReservationRequirement_Req51Slots = 51"
  | "ReservationRequirement_to_req_slotcount ReservationRequirement_Req68Slots = 68"
  | "ReservationRequirement_to_req_slotcount ReservationRequirement_ReqOver68 = 68"

text \<open>\<open>panic!()\<close> and \<open>unimplemented!()\<close> arms are \<open>None\<close>.\<close>

definition BasicSlotgrantCapAlloc_from_req_slotcount :: "nat \<Rightarrow> BasicSlotgrantCapAlloc option" where
  "BasicSlotgrantCapAlloc_from_req_slotcount req =
     (if req = 0 then Some BasicSlotgrantCapAlloc_FirstSubslotGranted
      else if req = 1 then Some BasicSlotgrantCapAlloc_Grant1Slot
      else if req = 2 then Some BasicSlotgrantCapAlloc_Grant2Slots
      else if req = 3 then Some BasicSlotgrantCapAlloc_Grant3Slots
      else if req = 4 then Some BasicSlotgrantCapAlloc_Grant4Slots
      else if req = 5 then Some BasicSlotgrantCapAlloc_Grant5Slots
      else if req = 6 then Some BasicSlotgrantCapAlloc_Grant6Slots
      else if req \<le> 8 then Some BasicSlotgrantCapAlloc_Grant8Slots
      else if req \<le> 10 then Some BasicSlotgrantCapAlloc_Grant10Slots
      else if req \<le> 13 then Some BasicSlotgrantCapAlloc_Grant13Slots
      else if req \<le> 17 then Some BasicSlotgrantCapAlloc_Grant17Slots
      else if req \<le> 24 then Some BasicSlotgrantCapAlloc_Grant24Slots
      else if req \<le> 34 then Some BasicSlotgrantCapAlloc_Grant34Slots
      else if req \<le> 51 then Some BasicSlotgrantCapAlloc_Grant51Slots
      else if req \<le> 68 then Some BasicSlotgrantCapAlloc_Grant68Slots
      else if req = 99 then Some BasicSlotgrantCapAlloc_SecondSubslotGranted
      else None)"

primrec BasicSlotgrantCapAlloc_to_req_slotcount :: "BasicSlotgrantCapAlloc \<Rightarrow> nat option" where
    "BasicSlotgrantCapAlloc_to_req_slotcount BasicSlotgrantCapAlloc_FirstSubslotGranted = None"
  | "BasicSlotgrantCapAlloc_to_req_slotcount BasicSlotgrantCapAlloc_Grant1Slot = Some 1"
  | "BasicSlotgrantCapAlloc_to_req_slotcount BasicSlotgrantCapAlloc_Grant2Slots = Some 2"
  | "BasicSlotgrantCapAlloc_to_req_slotcount BasicSlotgrantCapAlloc_Grant3Slots = Some 3"
  | "BasicSlotgrantCapAlloc_to_req_slotcount BasicSlotgrantCapAlloc_Grant4Slots = Some 4"
  | "BasicSlotgrantCapAlloc_to_req_slotcount BasicSlotgrantCapAlloc_Grant5Slots = Some 5"
  | "BasicSlotgrantCapAlloc_to_req_slotcount BasicSlotgrantCapAlloc_Grant6Slots = Some 6"
  | "BasicSlotgrantCapAlloc_to_req_slotcount BasicSlotgrantCapAlloc_Grant8Slots = Some 8"
  | "BasicSlotgrantCapAlloc_to_req_slotcount BasicSlotgrantCapAlloc_Grant10Slots = Some 10"
  | "BasicSlotgrantCapAlloc_to_req_slotcount BasicSlotgrantCapAlloc_Grant13Slots = Some 13"
  | "BasicSlotgrantCapAlloc_to_req_slotcount BasicSlotgrantCapAlloc_Grant17Slots = Some 17"
  | "BasicSlotgrantCapAlloc_to_req_slotcount BasicSlotgrantCapAlloc_Grant24Slots = Some 24"
  | "BasicSlotgrantCapAlloc_to_req_slotcount BasicSlotgrantCapAlloc_Grant34Slots = Some 34"
  | "BasicSlotgrantCapAlloc_to_req_slotcount BasicSlotgrantCapAlloc_Grant51Slots = Some 51"
  | "BasicSlotgrantCapAlloc_to_req_slotcount BasicSlotgrantCapAlloc_Grant68Slots = Some 68"
  | "BasicSlotgrantCapAlloc_to_req_slotcount BasicSlotgrantCapAlloc_SecondSubslotGranted = None"

text \<open>The requested count is rounded up to the next one the table has, and no further.\<close>

lemma req_slotcount_up:
  assumes "req \<le> 68"
  shows "req \<le> ReservationRequirement_to_req_slotcount (ReservationRequirement_from_req_slotcount req)"
    and "ReservationRequirement_to_req_slotcount r \<ge> req \<Longrightarrow>
         ReservationRequirement_to_req_slotcount (ReservationRequirement_from_req_slotcount req)
           \<le> ReservationRequirement_to_req_slotcount r"
  using assms by (simp_all add: ReservationRequirement_from_req_slotcount_def) (cases r; simp)

text \<open>A received reservation requirement is always granted without a panic, with the same slot count.\<close>

lemma grant_of_requirement:
  "\<exists>g. BasicSlotgrantCapAlloc_from_req_slotcount (ReservationRequirement_to_req_slotcount r) = Some g \<and>
     (r \<noteq> ReservationRequirement_Req1Subslot \<longrightarrow>
      BasicSlotgrantCapAlloc_to_req_slotcount g = Some (ReservationRequirement_to_req_slotcount r))"
  by (cases r) (simp_all add: BasicSlotgrantCapAlloc_from_req_slotcount_def)

end
