(* ===== verification/Umac_Pdus_Ul.thy ===== *)
theory Umac_Pdus_Ul
  imports Address
begin

text \<open>
  The uplink MAC PDUs (\<open>tetra-pdus/src/umac/pdus\<close>): MAC-ACCESS, MAC-DATA, MAC-END-HU, MAC-END (uplink), MAC-FRAG
  (uplink), MAC-U-BLCK and MAC-U-SIGNAL. The base station reads them from the air, so their
  readers must not panic.
\<close>

section \<open>MAC-ACCESS\<close>

record MacAccess =
  MacAccess_fill_bits :: bool
  MacAccess_encrypted :: bool
  MacAccess_addr :: "TetraAddress option"
  MacAccess_event_label :: "u16 option"
  MacAccess_length_ind :: "u8 option"
  MacAccess_frag_flag :: "bool option"
  MacAccess_reservation_req :: "ReservationRequirement option"

definition read_addr24 :: "SsiType \<Rightarrow> string \<Rightarrow> (TetraAddress option \<times> u16 option) bb" where
  "read_addr24 ty s = bind (read_field 24 s) (\<lambda>ssi. ret (Some \<lparr>ta_ssi = ucast ssi, ta_ssi_type = ty\<rparr>, None))"

definition MacAccess_read_addr :: "(TetraAddress option \<times> u16 option) bb" where
  "MacAccess_read_addr =
     bind (read_field 2 ''addr_type'') (\<lambda>addr_type.
     if addr_type = 0 then read_addr24 SsiType_Issi ''ssi''
     else if addr_type = 1 then bind (read_field 10 ''event_label'') (\<lambda>ev_label. ret (None, Some (ucast ev_label)))
     else if addr_type = 2 then read_addr24 SsiType_Ussi ''ussi''
     else if addr_type = 3 then read_addr24 SsiType_Smi ''smi''
     else fail (InvalidValue ''addr_type'' addr_type))"

definition MacAccess_read_opt :: "(u8 option \<times> bool option \<times> ReservationRequirement option) bb" where
  "MacAccess_read_opt =
     bind (read_field 1 ''optional_field_flag'') (\<lambda>optional_field_flag.
     if optional_field_flag \<noteq> 0 then
       bind (read_field 1 ''length_ind_or_cap_req'') (\<lambda>length_ind_or_cap_req.
       if length_ind_or_cap_req = 0 then
         bind (read_field 5 ''length_ind'') (\<lambda>len. ret (Some (ucast len), None, None))
       else
         bind (read_field 1 ''frag_flag'') (\<lambda>frag.
         bind (read_enum ReservationRequirement_try_from 4 ''reservation_req'') (\<lambda>res_req.
         ret (None, Some (frag \<noteq> 0), Some res_req))))
     else ret (None, None, None))"

definition MacAccess_from_bitbuf :: "MacAccess bb" where
  "MacAccess_from_bitbuf =
     bind (read_field 1 ''mac_pdu_type'') (\<lambda>mac_pdu_type.
     bind (expect_value mac_pdu_type 0 ''mac_pdu_type'') (\<lambda>_.
     bind (read_field 1 ''fill_bits'') (\<lambda>fill_bits.
     bind (read_field 1 ''encrypted'') (\<lambda>encrypted.
     bind MacAccess_read_addr (\<lambda>ae.
     bind MacAccess_read_opt (\<lambda>lfr.
     ret \<lparr>MacAccess_fill_bits = fill_bits \<noteq> 0, MacAccess_encrypted = encrypted \<noteq> 0,
          MacAccess_addr = fst ae, MacAccess_event_label = snd ae,
          MacAccess_length_ind = fst lfr, MacAccess_frag_flag = fst (snd lfr),
          MacAccess_reservation_req = snd (snd lfr)\<rparr>))))))"

text \<open>The address part of \<open>to_bitbuf\<close>, which MAC-ACCESS and MAC-DATA spell alike.\<close>

definition write_ul_addr :: "bool \<Rightarrow> TetraAddress \<Rightarrow> unit bb" where
  "write_ul_addr encrypted addr =
     bind (guard ((ta_ssi_type addr = SsiType_Esi) = encrypted)) (\<lambda>_.
     case ta_ssi_type addr of
       SsiType_Ssi \<Rightarrow> seq [write_bits 0 2, write_bits (ucast (ta_ssi addr)) 24]
     | SsiType_Issi \<Rightarrow> seq [write_bits 0 2, write_bits (ucast (ta_ssi addr)) 24]
     | SsiType_Gssi \<Rightarrow> seq [write_bits 0 2, write_bits (ucast (ta_ssi addr)) 24]
     | SsiType_Ussi \<Rightarrow> seq [write_bits 2 2, write_bits (ucast (ta_ssi addr)) 24]
     | SsiType_Smi \<Rightarrow> seq [write_bits 3 2, write_bits (ucast (ta_ssi addr)) 24]
     | _ \<Rightarrow> panic)"

definition MacAccess_write_opt :: "u8 option \<Rightarrow> bool option \<Rightarrow> ReservationRequirement option \<Rightarrow> unit bb" where
  "MacAccess_write_opt li ff rr =
     (if li \<noteq> None \<or> ff \<noteq> None \<or> rr \<noteq> None then
        bind (guard (\<not> (li \<noteq> None \<and> ff \<noteq> None \<and> rr \<noteq> None))) (\<lambda>_.
        bind (write_bits 1 1) (\<lambda>_.
        case li of
          Some l \<Rightarrow> seq [write_bits 0 1, write_bits (ucast l) 5]
        | None \<Rightarrow> seq [write_bits 1 1,
                      bind (unwrap ff) (\<lambda>f. write_bits (of_bool f) 1),
                      bind (unwrap rr) (\<lambda>r. write_bits (ReservationRequirement_into_raw r) 4)]))
      else write_bits 0 1)"

definition MacAccess_to_bitbuf :: "MacAccess \<Rightarrow> unit bb" where
  "MacAccess_to_bitbuf p = seq
     [write_bits 0 1,
      write_bits (of_bool (MacAccess_fill_bits p)) 1,
      write_bits (of_bool (MacAccess_encrypted p)) 1,
      (case MacAccess_addr p of
         Some addr \<Rightarrow> write_ul_addr (MacAccess_encrypted p) addr
       | None \<Rightarrow> (case MacAccess_event_label p of
           Some event_label \<Rightarrow> seq [write_bits 1 2, write_bits (ucast event_label) 10]
         | None \<Rightarrow> panic)),
      MacAccess_write_opt (MacAccess_length_ind p) (MacAccess_frag_flag p) (MacAccess_reservation_req p)]"

definition MacAccess_is_null_pdu :: "MacAccess \<Rightarrow> bool" where
  "MacAccess_is_null_pdu p = (case MacAccess_length_ind p of Some l \<Rightarrow> l = 0 | None \<Rightarrow> False)"

definition MacAccess_is_frag_start :: "MacAccess \<Rightarrow> bool" where
  "MacAccess_is_frag_start p = (case MacAccess_frag_flag p of Some f \<Rightarrow> f | None \<Rightarrow> False)"

section \<open>MAC-DATA\<close>

record MacData =
  MacData_fill_bits :: bool
  MacData_encrypted :: bool
  MacData_addr :: "TetraAddress option"
  MacData_event_label :: "u16 option"
  MacData_length_ind :: "u8 option"
  MacData_frag_flag :: "bool option"
  MacData_reservation_req :: "ReservationRequirement option"

definition MacData_read_addr :: "(TetraAddress option \<times> u16 option) bb" where
  "MacData_read_addr =
     bind (read_field 2 ''addr_type'') (\<lambda>addr_type.
     if addr_type = 0 then read_addr24 SsiType_Issi ''ssi''
     else if addr_type = 1 then bind (read_field 10 ''event_label'') (\<lambda>event_label. ret (None, Some (ucast event_label)))
     else if addr_type = 2 then read_addr24 SsiType_Ussi ''ssi''
     else if addr_type = 3 then read_addr24 SsiType_Smi ''ssi''
     else panic)"

definition MacData_read_len :: "(u8 option \<times> bool option \<times> ReservationRequirement option) bb" where
  "MacData_read_len =
     bind (read_field 1 ''length_ind_or_cap_req'') (\<lambda>length_ind_or_cap_req.
     if length_ind_or_cap_req = 0 then
       bind (read_field 6 ''length_ind'') (\<lambda>len. ret (Some (ucast len), None, None))
     else if length_ind_or_cap_req = 1 then
       bind (read_field 1 ''frag_flag'') (\<lambda>frag_flag.
       bind (read_enum ReservationRequirement_try_from 4 ''reservation_requirement'') (\<lambda>res_req.
       bind (read_bits 1) (\<lambda>_.
       ret (None, Some (frag_flag \<noteq> 0), Some res_req))))
     else panic)"

definition MacData_from_bitbuf :: "MacData bb" where
  "MacData_from_bitbuf =
     bind (read_field 2 ''mac_pdu_type'') (\<lambda>mac_pdu_type.
     if mac_pdu_type \<noteq> 0 then fail (InvalidValue ''mac_pdu_type'' mac_pdu_type)
     else
       bind (read_field 1 ''fill_bits'') (\<lambda>fill_bits.
       bind (read_field 1 ''encrypted'') (\<lambda>encrypted.
       bind MacData_read_addr (\<lambda>ae.
       bind MacData_read_len (\<lambda>lfr.
       ret \<lparr>MacData_fill_bits = fill_bits \<noteq> 0, MacData_encrypted = encrypted \<noteq> 0,
            MacData_addr = fst ae, MacData_event_label = snd ae,
            MacData_length_ind = fst lfr, MacData_frag_flag = fst (snd lfr),
            MacData_reservation_req = snd (snd lfr)\<rparr>)))))"

definition MacData_write_len :: "u8 option \<Rightarrow> bool option \<Rightarrow> ReservationRequirement option \<Rightarrow> unit bb" where
  "MacData_write_len li ff rr =
     (case li of
        Some l \<Rightarrow> seq [write_bits 0 1, write_bits (ucast l) 6]
      | None \<Rightarrow> seq [guard (ff \<noteq> None \<and> rr \<noteq> None),
                    write_bits 1 1,
                    bind (unwrap ff) (\<lambda>f. write_bits (of_bool f) 1),
                    bind (unwrap rr) (\<lambda>r. write_bits (ReservationRequirement_into_raw r) 4),
                    write_bits 0 1])"

definition MacData_to_bitbuf :: "MacData \<Rightarrow> unit bb" where
  "MacData_to_bitbuf p = seq
     [write_bits 0 2,
      write_bits (of_bool (MacData_fill_bits p)) 1,
      write_bits (of_bool (MacData_encrypted p)) 1,
      guard ((MacData_addr p \<noteq> None) \<noteq> (MacData_event_label p \<noteq> None)),
      (case MacData_addr p of
         Some addr \<Rightarrow> write_ul_addr (MacData_encrypted p) addr
       | None \<Rightarrow> (case MacData_event_label p of
           Some event_label \<Rightarrow> seq [write_bits 1 2, write_bits (ucast event_label) 10]
         | None \<Rightarrow> panic)),
      MacData_write_len (MacData_length_ind p) (MacData_frag_flag p) (MacData_reservation_req p)]"

section \<open>MAC-END-HU and MAC-END (uplink)\<close>

record MacEndHu =
  MacEndHu_fill_bits :: bool
  MacEndHu_length_ind :: "u8 option"
  MacEndHu_reservation_req :: "ReservationRequirement option"

definition MacEndHu_from_bitbuf :: "MacEndHu bb" where
  "MacEndHu_from_bitbuf =
     bind (read_field 1 ''mac_pdu_type'') (\<lambda>mac_pdu_type.
     bind (expect_value mac_pdu_type 1 ''mac_pdu_type'') (\<lambda>_.
     bind (read_field 1 ''fill_bits'') (\<lambda>fill_bits.
     bind (read_field 1 ''length_ind_or_cap_req'') (\<lambda>length_ind_or_cap_req.
     if length_ind_or_cap_req = 0 then
       bind (read_field 4 ''length_ind'') (\<lambda>len.
       ret \<lparr>MacEndHu_fill_bits = fill_bits \<noteq> 0, MacEndHu_length_ind = Some (ucast len), MacEndHu_reservation_req = None\<rparr>)
     else
       bind (read_enum ReservationRequirement_try_from 4 ''reservation_req'') (\<lambda>res_req.
       ret \<lparr>MacEndHu_fill_bits = fill_bits \<noteq> 0, MacEndHu_length_ind = None, MacEndHu_reservation_req = Some res_req\<rparr>)))))"

definition MacEndHu_to_bitbuf :: "MacEndHu \<Rightarrow> unit bb" where
  "MacEndHu_to_bitbuf p = seq
     [guard (MacEndHu_length_ind p \<noteq> None \<or> MacEndHu_reservation_req p \<noteq> None),
      guard (\<not> (MacEndHu_length_ind p \<noteq> None \<and> MacEndHu_reservation_req p \<noteq> None)),
      write_bits 1 1,
      write_bits (of_bool (MacEndHu_fill_bits p)) 1,
      (case MacEndHu_length_ind p of
         Some v \<Rightarrow> seq [write_bits 0 1, write_bits (ucast v) 4]
       | None \<Rightarrow> seq [write_bits 1 1,
                     bind (unwrap (MacEndHu_reservation_req p)) (\<lambda>r. write_bits (ReservationRequirement_into_raw r) 4)])]"

record MacEndUl =
  MacEndUl_fill_bits :: bool
  MacEndUl_length_ind :: "u8 option"
  MacEndUl_reservation_req :: "ReservationRequirement option"

definition MacEndUl_from_bitbuf :: "MacEndUl bb" where
  "MacEndUl_from_bitbuf =
     bind (read_field 2 ''mac_pdu_type'') (\<lambda>mac_pdu_type.
     bind (expect_value mac_pdu_type 1 ''mac_pdu_type'') (\<lambda>_.
     bind (read_field 1 ''pdu_subtype'') (\<lambda>pdu_subtype.
     bind (expect_value pdu_subtype 1 ''pdu_subtype'') (\<lambda>_.
     bind (read_field 1 ''fill_bits'') (\<lambda>fill_bits.
     bind (read_field 6 ''length_ind_cap_req'') (\<lambda>length_ind_cap_req.
     if length_ind_cap_req = 0 then fail (InvalidValue ''length_ind_cap_req reserved value'' length_ind_cap_req)
     else if length_ind_cap_req < 0b101111 then
       ret \<lparr>MacEndUl_fill_bits = fill_bits \<noteq> 0, MacEndUl_length_ind = Some (ucast length_ind_cap_req),
            MacEndUl_reservation_req = None\<rparr>
     else if length_ind_cap_req < 0b110000 then fail (InvalidValue ''length_ind_cap_req reserved value'' length_ind_cap_req)
     else
       let val = length_ind_cap_req AND 0b001111 in
       case ReservationRequirement_try_from val of
         Some res_req \<Rightarrow>
           ret \<lparr>MacEndUl_fill_bits = fill_bits \<noteq> 0, MacEndUl_length_ind = None, MacEndUl_reservation_req = Some res_req\<rparr>
       | None \<Rightarrow> fail (InvalidValue ''reservation_req'' val)))))))"

definition MacEndUl_to_bitbuf :: "MacEndUl \<Rightarrow> unit bb" where
  "MacEndUl_to_bitbuf p = seq
     [write_bits 1 2,
      write_bits 1 1,
      write_bits (of_bool (MacEndUl_fill_bits p)) 1,
      (if (MacEndUl_length_ind p \<noteq> None) \<noteq> (MacEndUl_reservation_req p \<noteq> None) then ret ()
       else fail (InvalidValue ''length_ind xor reservation_req must be present'' 0)),
      (case MacEndUl_length_ind p of
         Some length_ind \<Rightarrow> seq
           [(if length_ind > 0 then ret () else fail (InvalidValue ''length_ind zero'' 0)),
            (if length_ind < 0b101110 then ret () else fail (InvalidValue ''length_ind over 0b101110'' 0)),
            write_bits (ucast length_ind) 6]
       | None \<Rightarrow> (case MacEndUl_reservation_req p of
           Some reservation_req \<Rightarrow> seq [write_bits 0b11 2, write_bits (ReservationRequirement_into_raw reservation_req) 4]
         | None \<Rightarrow> ret ()))]"

section \<open>MAC-FRAG (uplink), MAC-U-SIGNAL and MAC-U-BLCK\<close>

record MacFragUl =
  MacFragUl_fill_bits :: bool

definition MacFragUl_from_bitbuf :: "MacFragUl bb" where
  "MacFragUl_from_bitbuf =
     bind (read_field 2 ''mac_pdu_type'') (\<lambda>mac_pdu_type.
     bind (expect_value mac_pdu_type 1 ''mac_pdu_type'') (\<lambda>_.
     bind (read_field 1 ''pdu_subtype'') (\<lambda>pdu_subtype.
     bind (expect_value pdu_subtype 0 ''pdu_subtype'') (\<lambda>_.
     bind (read_field 1 ''fill_bits'') (\<lambda>fill_bits.
     ret \<lparr>MacFragUl_fill_bits = fill_bits \<noteq> 0\<rparr>)))))"

definition MacFragUl_to_bitbuf :: "MacFragUl \<Rightarrow> unit bb" where
  "MacFragUl_to_bitbuf p = seq
     [write_bits 1 2, write_bits 0 1, write_bits (of_bool (MacFragUl_fill_bits p)) 1]"

record MacUSignal =
  MacUSignal_second_half_stolen :: bool

definition MacUSignal_from_bitbuf :: "MacUSignal bb" where
  "MacUSignal_from_bitbuf =
     bind (read_field 2 ''mac_pdu_type'') (\<lambda>mac_pdu_type.
     bind (expect_value mac_pdu_type 3 ''mac_pdu_type'') (\<lambda>_.
     bind (read_field 1 ''second_half_stolen'') (\<lambda>second_half_stolen.
     ret \<lparr>MacUSignal_second_half_stolen = second_half_stolen \<noteq> 0\<rparr>)))"

definition MacUSignal_to_bitbuf :: "MacUSignal \<Rightarrow> unit bb" where
  "MacUSignal_to_bitbuf p = seq
     [write_bits 3 2, write_bits (of_bool (MacUSignal_second_half_stolen p)) 1]"

record MacUBlck =
  MacUBlck_fill_bits :: bool
  MacUBlck_encrypted :: bool
  MacUBlck_event_label :: u16
  MacUBlck_reservation_req :: u8

definition MacUBlck_from_bitbuf :: "MacUBlck bb" where
  "MacUBlck_from_bitbuf =
     bind (read_field 2 ''mac_pdu_type'') (\<lambda>mac_pdu_type.
     bind (expect_value mac_pdu_type 3 ''mac_pdu_type'') (\<lambda>_.
     bind (read_field 1 ''supp_pdu_subtype'') (\<lambda>supp_pdu_subtype.
     bind (expect_value supp_pdu_subtype 0 ''supp_pdu_subtype'') (\<lambda>_.
     bind (read_field 1 ''fill_bits'') (\<lambda>fill_bits.
     bind (read_field 1 ''encrypted'') (\<lambda>encrypted.
     bind (read_field 10 ''event_label'') (\<lambda>event_label.
     bind (read_field 4 ''reservation_req'') (\<lambda>reservation_req.
     ret \<lparr>MacUBlck_fill_bits = fill_bits \<noteq> 0, MacUBlck_encrypted = encrypted \<noteq> 0,
          MacUBlck_event_label = ucast event_label, MacUBlck_reservation_req = ucast reservation_req\<rparr>))))))))"

definition MacUBlck_to_bitbuf :: "MacUBlck \<Rightarrow> unit bb" where
  "MacUBlck_to_bitbuf p = seq
     [write_bits 3 2,
      write_bits 0 1,
      write_bits (of_bool (MacUBlck_fill_bits p)) 1,
      write_bits (of_bool (MacUBlck_encrypted p)) 1,
      write_bits (ucast (MacUBlck_event_label p)) 10,
      write_bits (ucast (MacUBlck_reservation_req p)) 4]"

end
