(* ===== verification/Umac_Pdus_Ul_Spec.thy ===== *)
theory Umac_Pdus_Ul_Spec
  imports Umac_Pdus_Ul
begin

text \<open>
  The uplink MAC PDUs as codecs: well-formedness (the field widths and the combinations of optional
  fields the writers accept and the readers return), encodings, and the interpretations of \<open>safe_codec\<close>.
\<close>

section \<open>Address and length parts\<close>

definition enc_ul_addr :: "TetraAddress option \<Rightarrow> u16 option \<Rightarrow> bool list" where
  "enc_ul_addr addr ev =
     (case addr of
        Some a \<Rightarrow> to_bits 2 (if ta_ssi_type a = SsiType_Ussi then 2 else if ta_ssi_type a = SsiType_Smi then 3 else 0 :: u64) @
                 to_bits 24 (ucast (ta_ssi a) :: u64)
      | None \<Rightarrow> to_bits 2 (1 :: u64) @ to_bits 10 (ucast (the ev) :: u64))"

text \<open>
  Readers report uplink addresses as ISSI, USSI or SMI. An address is only written in clear: the writers
  demand an ESI exactly when the encryption flag is set, and have no case for an ESI.
\<close>

definition wf_ul_addr :: "bool \<Rightarrow> TetraAddress option \<Rightarrow> u16 option \<Rightarrow> bool" where
  "wf_ul_addr encrypted addr ev \<longleftrightarrow>
     (case addr of
        Some a \<Rightarrow> ev = None \<and> \<not> encrypted \<and> ta_ssi_type a \<in> {SsiType_Issi, SsiType_Ussi, SsiType_Smi} \<and> fits 24 (ta_ssi a)
      | None \<Rightarrow> (case ev of Some e \<Rightarrow> fits 10 e | None \<Rightarrow> False))"

definition enc_opt_len :: "nat \<Rightarrow> bool list \<Rightarrow> u8 option \<Rightarrow> bool option \<Rightarrow> ReservationRequirement option \<Rightarrow> bool list" where
  "enc_opt_len w pad li ff rr =
     (case li of
        Some l \<Rightarrow> to_bits 1 (0 :: u64) @ to_bits w (ucast l :: u64)
      | None \<Rightarrow> to_bits 1 (1 :: u64) @ to_bits 1 (of_bool (the ff) :: u64) @
                to_bits 4 (ReservationRequirement_into_raw (the rr)) @ pad)"

definition wf_len :: "nat \<Rightarrow> u8 option \<Rightarrow> bool option \<Rightarrow> ReservationRequirement option \<Rightarrow> bool" where
  "wf_len w li ff rr \<longleftrightarrow>
     (case li of Some l \<Rightarrow> fits w l \<and> ff = None \<and> rr = None | None \<Rightarrow> ff \<noteq> None \<and> rr \<noteq> None)"

lemma emits_ul_addr:
  assumes "wf_ul_addr enc addr ev"
  shows "emits (case addr of Some a \<Rightarrow> write_ul_addr enc a
       | None \<Rightarrow> (case ev of Some e \<Rightarrow> seq [write_bits 1 2, write_bits (ucast e) 10] | None \<Rightarrow> panic)) (enc_ul_addr addr ev)"
proof (cases addr)
  case (Some a)
  have w: "emits (seq [write_bits t 2, write_bits (ucast (ta_ssi a)) 24]) (to_bits 2 t @ to_bits 24 (ucast (ta_ssi a) :: u64))"
    if "fits 2 t" for t :: u64
    using assms Some that by (intro emits_intros emits_seq_last) (simp_all add: wf_ul_addr_def)
  show ?thesis
    using assms Some w [of 0] w [of 2] w [of 3]
    by (auto simp: wf_ul_addr_def write_ul_addr_def enc_ul_addr_def simp del: seq.simps)
next
  case None
  then obtain e where "ev = Some e" "fits 10 e" using assms by (auto simp: wf_ul_addr_def split: option.splits)
  then have "emits (seq [write_bits 1 2, write_bits (ucast e) 10]) (to_bits 2 (1 :: u64) @ to_bits 10 (ucast e :: u64))"
    by (intro emits_intros emits_seq_last) simp_all
  with None \<open>ev = Some e\<close> show ?thesis by (simp add: enc_ul_addr_def del: seq.simps)
qed

lemma parses_read_addr24:
  "fits 24 (ta_ssi a) \<Longrightarrow> parses_on (read_addr24 (ta_ssi_type a) s) (to_bits 24 (ucast (ta_ssi a) :: u64)) rest (Some a, None)"
  unfolding read_addr24_def by (intro parses_intros) simp_all

lemma parses_ul_addr:
  assumes "wf_ul_addr enc addr ev"
  shows "parses (bind (read_field 2 ''addr_type'') (\<lambda>t.
     if t = 0 then read_addr24 SsiType_Issi s0
     else if t = 1 then bind (read_field 10 s1) (\<lambda>e. ret (None, Some (ucast e)))
     else if t = 2 then read_addr24 SsiType_Ussi s2
     else if t = 3 then read_addr24 SsiType_Smi s3
     else other t)) (enc_ul_addr addr ev) (addr, ev)"
proof (cases addr)
  case (Some a)
  then show ?thesis
    using assms parses_read_addr24 [of a]
    by (auto simp: wf_ul_addr_def enc_ul_addr_def intro!: parsesI parses_field_bind)
next
  case None
  then obtain e where "ev = Some e" "fits 10 e" using assms by (auto simp: wf_ul_addr_def split: option.splits)
  with None show ?thesis
    by (auto simp: enc_ul_addr_def intro!: parsesI parses_intros)
qed

lemma parses_MacAccess_read_addr:
  "wf_ul_addr enc addr ev \<Longrightarrow> parses MacAccess_read_addr (enc_ul_addr addr ev) (addr, ev)"
  unfolding MacAccess_read_addr_def by (rule parses_ul_addr)

lemma parses_MacData_read_addr:
  "wf_ul_addr enc addr ev \<Longrightarrow> parses MacData_read_addr (enc_ul_addr addr ev) (addr, ev)"
  unfolding MacData_read_addr_def by (rule parses_ul_addr)

section \<open>MAC-ACCESS\<close>

definition MacAccess_wf :: "MacAccess \<Rightarrow> bool" where
  "MacAccess_wf p \<longleftrightarrow>
     wf_ul_addr (MacAccess_encrypted p) (MacAccess_addr p) (MacAccess_event_label p) \<and>
     (wf_len 5 (MacAccess_length_ind p) (MacAccess_frag_flag p) (MacAccess_reservation_req p) \<or>
      MacAccess_length_ind p = None \<and> MacAccess_frag_flag p = None \<and> MacAccess_reservation_req p = None)"

definition MacAccess_enc_opt :: "u8 option \<Rightarrow> bool option \<Rightarrow> ReservationRequirement option \<Rightarrow> bool list" where
  "MacAccess_enc_opt li ff rr =
     (if li = None \<and> ff = None \<and> rr = None then to_bits 1 (0 :: u64) else to_bits 1 (1 :: u64) @ enc_opt_len 5 [] li ff rr)"

definition MacAccess_enc :: "MacAccess \<Rightarrow> bool list" where
  "MacAccess_enc p =
     to_bits 1 (0 :: u64) @ to_bits 1 (of_bool (MacAccess_fill_bits p) :: u64) @
     to_bits 1 (of_bool (MacAccess_encrypted p) :: u64) @
     enc_ul_addr (MacAccess_addr p) (MacAccess_event_label p) @
     MacAccess_enc_opt (MacAccess_length_ind p) (MacAccess_frag_flag p) (MacAccess_reservation_req p)"

lemma emits_MacAccess_opt:
  assumes "wf_len 5 li ff rr \<or> li = None \<and> ff = None \<and> rr = None"
  shows "emits (MacAccess_write_opt li ff rr) (MacAccess_enc_opt li ff rr)"
proof (cases li)
  case (Some l)
  then have "emits (bind (write_bits 1 1) (\<lambda>_. seq [write_bits 0 1, write_bits (ucast l) 5]))
      (to_bits 1 (1 :: u64) @ to_bits 1 (0 :: u64) @ to_bits 5 (ucast l :: u64))"
    using assms by (intro emits_intros emits_seq_last) (simp_all add: wf_len_def)
  with Some assms show ?thesis
    by (simp add: MacAccess_write_opt_def MacAccess_enc_opt_def enc_opt_len_def wf_len_def del: seq.simps)
next
  case None
  then consider "ff = None" "rr = None" | f r where "ff = Some f" "rr = Some r"
    using assms by (auto simp: wf_len_def)
  then show ?thesis
  proof cases
    case 1
    with None show ?thesis
      using emits_write_bits [of 1 0] by (simp add: MacAccess_write_opt_def MacAccess_enc_opt_def)
  next
    case 2
    have "emits (bind (write_bits 1 1) (\<lambda>_. seq [write_bits 1 1, write_bits (of_bool f) 1, write_bits (ReservationRequirement_into_raw r) 4]))
        (to_bits 1 (1 :: u64) @ to_bits 1 (1 :: u64) @ to_bits 1 (of_bool f :: u64) @ to_bits 4 (ReservationRequirement_into_raw r))"
      by (intro emits_intros emits_seq_last) (simp_all add: ReservationRequirement.fits_raw)
    with None 2 show ?thesis
      by (simp add: MacAccess_write_opt_def MacAccess_enc_opt_def enc_opt_len_def)
  qed
qed

lemma parses_MacAccess_opt:
  assumes "wf_len 5 li ff rr \<or> li = None \<and> ff = None \<and> rr = None"
  shows "parses MacAccess_read_opt (MacAccess_enc_opt li ff rr) (li, ff, rr)"
  using assms unfolding MacAccess_read_opt_def MacAccess_enc_opt_def enc_opt_len_def
  by (cases li; cases ff; cases rr)
     (auto simp: wf_len_def intro!: parsesI parses_intros ReservationRequirement.raw_last)

interpretation MacAccess: safe_codec MacAccess_wf MacAccess_enc MacAccess_to_bitbuf MacAccess_from_bitbuf
proof
  show "emits (MacAccess_to_bitbuf p) (MacAccess_enc p)" if "MacAccess_wf p" for p
    using that unfolding MacAccess_to_bitbuf_def MacAccess_enc_def MacAccess_wf_def
    by (intro emits_seq_Cons emits_seq_last emits_write_bits emits_ul_addr emits_MacAccess_opt) simp_all
  show "parses MacAccess_from_bitbuf (MacAccess_enc p) p" if "MacAccess_wf p" for p
    using that unfolding MacAccess_from_bitbuf_def MacAccess_enc_def MacAccess_wf_def
    by (intro parsesI parses_field_bind)
       (auto intro!: parses_field_bind parses_bind [OF parses_MacAccess_read_addr] parses_bind_last [OF parses_MacAccess_opt] parses_ret)
  show "safe MacAccess_from_bitbuf"
    unfolding MacAccess_from_bitbuf_def MacAccess_read_addr_def MacAccess_read_opt_def read_addr24_def
    by (intro safe_intros)
qed

section \<open>MAC-DATA\<close>

definition MacData_wf :: "MacData \<Rightarrow> bool" where
  "MacData_wf p \<longleftrightarrow>
     wf_ul_addr (MacData_encrypted p) (MacData_addr p) (MacData_event_label p) \<and>
     wf_len 6 (MacData_length_ind p) (MacData_frag_flag p) (MacData_reservation_req p)"

definition MacData_enc :: "MacData \<Rightarrow> bool list" where
  "MacData_enc p =
     to_bits 2 (0 :: u64) @ to_bits 1 (of_bool (MacData_fill_bits p) :: u64) @
     to_bits 1 (of_bool (MacData_encrypted p) :: u64) @
     enc_ul_addr (MacData_addr p) (MacData_event_label p) @
     enc_opt_len 6 (to_bits 1 (0 :: u64)) (MacData_length_ind p) (MacData_frag_flag p) (MacData_reservation_req p)"

lemma emits_MacData_len:
  assumes "wf_len 6 li ff rr"
  shows "emits (MacData_write_len li ff rr) (enc_opt_len 6 (to_bits 1 (0 :: u64)) li ff rr)"
proof (cases li)
  case (Some l)
  with assms show ?thesis
    unfolding MacData_write_len_def enc_opt_len_def option.case
    by (intro emits_intros emits_seq_last) (simp_all add: wf_len_def)
next
  case None
  with assms obtain f r where fr: "ff = Some f" "rr = Some r" by (auto simp: wf_len_def)
  show ?thesis
    unfolding MacData_write_len_def enc_opt_len_def option.case None fr unwrap_simps bind_ret option.sel
    by (intro emits_seq_guard emits_seq_Cons emits_seq_last emits_write_bits)
       (simp_all add: ReservationRequirement.fits_raw)
qed

lemma parses_MacData_len:
  assumes "wf_len 6 li ff rr"
  shows "parses MacData_read_len (enc_opt_len 6 (to_bits 1 (0 :: u64)) li ff rr) (li, ff, rr)"
proof -
  have pad: "parses_on (bind (read_bits 1) f) (to_bits 1 (0 :: u64)) rest y" if "parses_on (f (Some 0)) [] rest y"
    for f rest and y :: "u8 option \<times> bool option \<times> ReservationRequirement option"
    using parses_bits_bind [of 1 0 f "[]" rest y] that by simp
  show ?thesis
    using assms unfolding MacData_read_len_def enc_opt_len_def
    by (cases li; cases ff; cases rr)
       (auto simp: wf_len_def intro!: parsesI parses_intros ReservationRequirement.raw_bind pad)
qed

lemma fits_1_cases: "fits 1 (v :: u64) \<Longrightarrow> v = 0 \<or> v = 1"
  by (auto simp: fits_unat word_unat_eq_iff)

lemma fits_2_cases: "fits 2 (v :: u64) \<Longrightarrow> v = 0 \<or> v = 1 \<or> v = 2 \<or> v = 3"
  by (auto simp: fits_unat word_unat_eq_iff)

lemma safe_MacData_read_addr: "safe MacData_read_addr"
  unfolding MacData_read_addr_def read_addr24_def
  by (rule safe_field_bind) (auto dest: fits_2_cases intro!: safe_intros)

lemma safe_MacData_read_len: "safe MacData_read_len"
  unfolding MacData_read_len_def
  by (rule safe_field_bind) (auto dest: fits_1_cases intro!: safe_intros safe_read_bits)

interpretation MacData: safe_codec MacData_wf MacData_enc MacData_to_bitbuf MacData_from_bitbuf
proof
  show "emits (MacData_to_bitbuf p) (MacData_enc p)" if "MacData_wf p" for p
  proof -
    have "(MacData_addr p \<noteq> None) \<noteq> (MacData_event_label p \<noteq> None)"
      using that by (auto simp: MacData_wf_def wf_ul_addr_def split: option.splits)
    with that show ?thesis
      unfolding MacData_to_bitbuf_def MacData_enc_def MacData_wf_def
      by (intro emits_seq_guard emits_seq_Cons emits_seq_last emits_write_bits emits_ul_addr emits_MacData_len) simp_all
  qed
  show "parses MacData_from_bitbuf (MacData_enc p) p" if "MacData_wf p" for p
    using that unfolding MacData_from_bitbuf_def MacData_enc_def MacData_wf_def
    by (intro parsesI parses_field_bind)
       (auto intro!: parses_field_bind parses_bind [OF parses_MacData_read_addr] parses_bind_last [OF parses_MacData_len] parses_ret)
  show "safe MacData_from_bitbuf"
    unfolding MacData_from_bitbuf_def
    by (intro safe_intros safe_MacData_read_addr safe_MacData_read_len)
qed

section \<open>MAC-END-HU\<close>

definition MacEndHu_wf :: "MacEndHu \<Rightarrow> bool" where
  "MacEndHu_wf p \<longleftrightarrow>
     (case MacEndHu_length_ind p of
        Some l \<Rightarrow> fits 4 l \<and> MacEndHu_reservation_req p = None
      | None \<Rightarrow> MacEndHu_reservation_req p \<noteq> None)"

definition MacEndHu_enc :: "MacEndHu \<Rightarrow> bool list" where
  "MacEndHu_enc p =
     to_bits 1 (1 :: u64) @ to_bits 1 (of_bool (MacEndHu_fill_bits p) :: u64) @
     (case MacEndHu_length_ind p of
        Some l \<Rightarrow> to_bits 1 (0 :: u64) @ to_bits 4 (ucast l :: u64)
      | None \<Rightarrow> to_bits 1 (1 :: u64) @ to_bits 4 (ReservationRequirement_into_raw (the (MacEndHu_reservation_req p))))"

interpretation MacEndHu: safe_codec MacEndHu_wf MacEndHu_enc MacEndHu_to_bitbuf MacEndHu_from_bitbuf
proof
  show "emits (MacEndHu_to_bitbuf p) (MacEndHu_enc p)" if "MacEndHu_wf p" for p
    using that unfolding MacEndHu_to_bitbuf_def MacEndHu_enc_def MacEndHu_wf_def
    by (cases "MacEndHu_length_ind p"; cases "MacEndHu_reservation_req p")
       (auto intro!: emits_bind emits_write_bits simp: ReservationRequirement.fits_raw)
  show "parses MacEndHu_from_bitbuf (MacEndHu_enc p) p" if "MacEndHu_wf p" for p
    using that unfolding MacEndHu_from_bitbuf_def MacEndHu_enc_def MacEndHu_wf_def
    by (cases p; cases "MacEndHu_length_ind p"; cases "MacEndHu_reservation_req p")
       (auto intro!: parsesI parses_intros ReservationRequirement.raw_last)
  show "safe MacEndHu_from_bitbuf"
    unfolding MacEndHu_from_bitbuf_def by (intro safe_intros)
qed

section \<open>MAC-END (uplink)\<close>

text \<open>
  The length indication and the reservation requirement share a 6-bit field: lengths are 1 to 45, a
  reservation requirement is \<open>48 + code\<close>.
\<close>

definition MacEndUl_wf :: "MacEndUl \<Rightarrow> bool" where
  "MacEndUl_wf p \<longleftrightarrow>
     (case MacEndUl_length_ind p of
        Some l \<Rightarrow> 0 < l \<and> l < 0b101110 \<and> MacEndUl_reservation_req p = None
      | None \<Rightarrow> MacEndUl_reservation_req p \<noteq> None)"

definition MacEndUl_enc :: "MacEndUl \<Rightarrow> bool list" where
  "MacEndUl_enc p =
     to_bits 2 (1 :: u64) @ to_bits 1 (1 :: u64) @ to_bits 1 (of_bool (MacEndUl_fill_bits p) :: u64) @
     (case MacEndUl_length_ind p of
        Some l \<Rightarrow> to_bits 6 (ucast l :: u64)
      | None \<Rightarrow> to_bits 2 (0b11 :: u64) @ to_bits 4 (ReservationRequirement_into_raw (the (MacEndUl_reservation_req p))))"

lemma small_len: "l < 0b101110 \<Longrightarrow> fits 6 (l :: u8)"
  by (simp add: fits_unat word_less_nat_alt)

lemma cap_req_bits: "to_bits 2 (0b11 :: u64) @ to_bits 4 (ReservationRequirement_into_raw r) = to_bits 6 (0b110000 OR ReservationRequirement_into_raw r)"
  by (cases r) (simp_all add: to_bits_def upt_rec One_nat_def)

lemma cap_req_value:
  fixes r :: ReservationRequirement
  defines "v \<equiv> 0b110000 OR ReservationRequirement_into_raw r"
  shows "fits 6 v" and "v \<noteq> 0" and "\<not> v < 0b101111" and "\<not> v < 0b110000" and "v AND 0b001111 = ReservationRequirement_into_raw r"
  by (cases r; simp add: v_def)+

interpretation MacEndUl: safe_codec MacEndUl_wf MacEndUl_enc MacEndUl_to_bitbuf MacEndUl_from_bitbuf
proof
  show "emits (MacEndUl_to_bitbuf p) (MacEndUl_enc p)" if "MacEndUl_wf p" for p
    using that unfolding MacEndUl_to_bitbuf_def MacEndUl_enc_def MacEndUl_wf_def
    by (cases "MacEndUl_length_ind p"; cases "MacEndUl_reservation_req p")
       (auto intro!: emits_bind emits_write_bits simp: ReservationRequirement.fits_raw small_len)
  show "parses MacEndUl_from_bitbuf (MacEndUl_enc p) p" if "MacEndUl_wf p" for p
  proof (cases "MacEndUl_length_ind p")
    case (Some l)
    then have l: "0 < l" "l < 0b101110" "MacEndUl_reservation_req p = None" using that by (auto simp: MacEndUl_wf_def)
    then have "unat l < 46" "unat l \<noteq> 0" by (auto simp: word_less_nat_alt)
    moreover have "unat (ucast l :: u64) = unat l" 
      using unsigned_less [of l, where 'a = nat] by (simp add: unsigned_ucast_eq take_bit_nat_eq_self_iff)
    ultimately have "ucast l \<noteq> (0 :: u64)" "ucast l < (0b101111 :: u64)"
      by (auto simp: word_less_nat_alt word_unat_eq_iff)
    with Some l show ?thesis
      unfolding MacEndUl_from_bitbuf_def MacEndUl_enc_def option.case
      by (intro parsesI parses_field_bind) (auto intro!: parses_intros simp: small_len)
  next
    case None
    with that have "MacEndUl_reservation_req p \<noteq> None" by (simp add: MacEndUl_wf_def)
    then obtain r where r: "MacEndUl_reservation_req p = Some r" by blast
    show ?thesis
      unfolding MacEndUl_from_bitbuf_def MacEndUl_enc_def None r option.case option.sel cap_req_bits
      by (intro parsesI parses_field_bind)
         (auto intro!: parses_intros simp: cap_req_value None r ReservationRequirement.try_from_raw)
  qed
  show "safe MacEndUl_from_bitbuf"
    unfolding MacEndUl_from_bitbuf_def Let_def by (intro safe_intros)
qed

text \<open>The reader accepts the length indication 46, which the writer refuses.\<close>

lemma MacEndUl_46:
  assumes "bb_inv b" and "room b 4" and "MacEndUl_length_ind p = Some 46" and "MacEndUl_reservation_req p = None"
  shows "MacEndUl_to_bitbuf p b = Err (InvalidValue ''length_ind over 0b101110'' 0)"
    and "parses MacEndUl_from_bitbuf
           (to_bits 2 (1 :: u64) @ to_bits 1 (1 :: u64) @ to_bits 1 (of_bool (MacEndUl_fill_bits p) :: u64) @ to_bits 6 (46 :: u64)) p"
proof -
  have "emits (seq [write_bits 1 2, write_bits 1 1, write_bits (of_bool (MacEndUl_fill_bits p)) 1])
     (to_bits 2 (1 :: u64) @ to_bits 1 (1 :: u64) @ to_bits 1 (of_bool (MacEndUl_fill_bits p) :: u64))"
    by (intro emits_intros emits_seq_last) simp_all
  then obtain b' where "seq [write_bits 1 2, write_bits 1 1, write_bits (of_bool (MacEndUl_fill_bits p)) 1] b = Ok ((), b')"
    using assms(1,2) by (auto elim: emitsE)
  then show "MacEndUl_to_bitbuf p b = Err (InvalidValue ''length_ind over 0b101110'' 0)"
    using assms(3,4) by (auto simp: MacEndUl_to_bitbuf_def bind_def fail_def ret_def split: outcome.splits prod.splits)
  show "parses MacEndUl_from_bitbuf
           (to_bits 2 (1 :: u64) @ to_bits 1 (1 :: u64) @ to_bits 1 (of_bool (MacEndUl_fill_bits p) :: u64) @ to_bits 6 (46 :: u64)) p"
    unfolding MacEndUl_from_bitbuf_def
    by (intro parsesI parses_field_bind) (auto intro!: parses_intros simp: assms(3,4))
qed

section \<open>MAC-FRAG (uplink), MAC-U-SIGNAL and MAC-U-BLCK\<close>

definition MacFragUl_enc :: "MacFragUl \<Rightarrow> bool list" where
  "MacFragUl_enc p = to_bits 2 (1 :: u64) @ to_bits 1 (0 :: u64) @ to_bits 1 (of_bool (MacFragUl_fill_bits p) :: u64)"

interpretation MacFragUl: safe_codec "\<lambda>_. True" MacFragUl_enc MacFragUl_to_bitbuf MacFragUl_from_bitbuf
proof
  show "emits (MacFragUl_to_bitbuf p) (MacFragUl_enc p)" for p
    unfolding MacFragUl_to_bitbuf_def MacFragUl_enc_def by (intro emits_intros emits_seq_last) simp_all
  show "parses MacFragUl_from_bitbuf (MacFragUl_enc p) p" for p
    unfolding MacFragUl_from_bitbuf_def MacFragUl_enc_def
    by (intro parsesI parses_intros) (simp_all add: parses_intros)
  show "safe MacFragUl_from_bitbuf"
    unfolding MacFragUl_from_bitbuf_def by (intro safe_intros)
qed

definition MacUSignal_enc :: "MacUSignal \<Rightarrow> bool list" where
  "MacUSignal_enc p = to_bits 2 (3 :: u64) @ to_bits 1 (of_bool (MacUSignal_second_half_stolen p) :: u64)"

interpretation MacUSignal: safe_codec "\<lambda>_. True" MacUSignal_enc MacUSignal_to_bitbuf MacUSignal_from_bitbuf
proof
  show "emits (MacUSignal_to_bitbuf p) (MacUSignal_enc p)" for p
    unfolding MacUSignal_to_bitbuf_def MacUSignal_enc_def by (intro emits_intros emits_seq_last) simp_all
  show "parses MacUSignal_from_bitbuf (MacUSignal_enc p) p" for p
    unfolding MacUSignal_from_bitbuf_def MacUSignal_enc_def
    by (intro parsesI parses_intros) (simp_all add: parses_intros)
  show "safe MacUSignal_from_bitbuf"
    unfolding MacUSignal_from_bitbuf_def by (intro safe_intros)
qed

definition MacUBlck_wf :: "MacUBlck \<Rightarrow> bool" where
  "MacUBlck_wf p \<longleftrightarrow> fits 10 (MacUBlck_event_label p) \<and> fits 4 (MacUBlck_reservation_req p)"

definition MacUBlck_enc :: "MacUBlck \<Rightarrow> bool list" where
  "MacUBlck_enc p =
     to_bits 2 (3 :: u64) @ to_bits 1 (0 :: u64) @ to_bits 1 (of_bool (MacUBlck_fill_bits p) :: u64) @
     to_bits 1 (of_bool (MacUBlck_encrypted p) :: u64) @ to_bits 10 (ucast (MacUBlck_event_label p) :: u64) @
     to_bits 4 (ucast (MacUBlck_reservation_req p) :: u64)"

interpretation MacUBlck: safe_codec MacUBlck_wf MacUBlck_enc MacUBlck_to_bitbuf MacUBlck_from_bitbuf
proof
  show "emits (MacUBlck_to_bitbuf p) (MacUBlck_enc p)" if "MacUBlck_wf p" for p
    using that unfolding MacUBlck_to_bitbuf_def MacUBlck_enc_def MacUBlck_wf_def
    by (intro emits_intros emits_seq_last) simp_all
  show "parses MacUBlck_from_bitbuf (MacUBlck_enc p) p" if "MacUBlck_wf p" for p
    using that unfolding MacUBlck_from_bitbuf_def MacUBlck_enc_def MacUBlck_wf_def
    by (intro parsesI parses_intros) (simp_all add: parses_intros)
  show "safe MacUBlck_from_bitbuf"
    unfolding MacUBlck_from_bitbuf_def by (intro safe_intros)
qed

end
