(* ===== verification/Fillbits.thy ===== *)
theory Fillbits
  imports BitBuffer_Bulk
begin

text \<open>
  \<open>umac/subcomp/fillbits.rs\<close>: a PDU that does not fill its slot is followed by a one bit and zeroes. The lemmas
  show that the receiver's scan finds exactly the fill bits that the sender wrote.
\<close>

section \<open>Operations\<close>

text \<open>The scan of \<open>removal::get_num_fill_bits\<close>; the argument \<open>n\<close> is \<open>index + 1\<close>.\<close>

primrec fill_scan :: "nat \<Rightarrow> nat \<Rightarrow> (bitbuffer, pdu_parse_err, nat) prog" where
  "fill_scan pdu_len_bits 0 b = Ok (0, b)"
| "fill_scan pdu_len_bits (Suc n) b =
     (if get_pos b \<le> n then
        bind (peek_bits_startoffset n 1) (\<lambda>r. bind (unwrap r) (\<lambda>bit.
          if bit = 0 then fill_scan pdu_len_bits n else ret (pdu_len_bits - n))) b
      else Ok (0, b))"

definition get_num_fill_bits :: "nat \<Rightarrow> nat bb" where
  "get_num_fill_bits pdu_len_bits = fill_scan pdu_len_bits pdu_len_bits"

definition compute_required_bytealigned :: "nat \<Rightarrow> nat" where
  "compute_required_bytealigned total_len = (8 - total_len mod 8) mod 8"

definition compute_required :: "nat \<Rightarrow> nat \<Rightarrow> nat" where
  "compute_required total_len dest_cap_left =
     (if dest_cap_left \<le> total_len then 0
      else let bytealigned_fill_bits = compute_required_bytealigned total_len
           in if total_len + bytealigned_fill_bits \<le> dest_cap_left then bytealigned_fill_bits
              else dest_cap_left - total_len)"

definition fillbits_write :: "nat option \<Rightarrow> unit bb" where
  "fillbits_write num_fill_bits =
     (case num_fill_bits of
        Some n \<Rightarrow> if 0 < n then bind (write_bit 1) (\<lambda>_. write_zeroes (n - 1)) else ret ()
      | None \<Rightarrow> bind (gets get_len_remaining) (\<lambda>r.
          if 0 < r then bind (write_bit 1) (\<lambda>_. bind (gets get_len_remaining) write_zeroes) else ret ()))"

section \<open>Correctness\<close>

definition fill_bits_of :: "nat \<Rightarrow> bool list" where
  "fill_bits_of n = (if n = 0 then [] else True # replicate (n - 1) False)"

lemma length_fill_bits_of [simp]: "length (fill_bits_of n) = n"
  by (simp add: fill_bits_of_def)

lemma emits_fillbits_write [emits_intros]: "emits (fillbits_write (Some n)) (fill_bits_of n)"
proof -
  have "emits (bind (write_bit 1) (\<lambda>_. write_zeroes (n - 1))) ([True] @ replicate (n - 1) False)"
    using emits_write_bit [of 1] by (intro emits_intros) simp
  then show ?thesis by (simp add: fillbits_write_def fill_bits_of_def emits_ret)
qed

text \<open>The bytes end on an octet boundary or at the end of the slot.\<close>

lemma compute_required_bytealigned:
  "compute_required_bytealigned n < 8" "(n + compute_required_bytealigned n) mod 8 = 0"
proof -
  show "compute_required_bytealigned n < 8" by (simp add: compute_required_bytealigned_def)
  have "(n + (8 - n mod 8)) mod 8 = (n mod 8 + (8 - n mod 8)) mod 8" by (simp only: mod_add_left_eq)
  then have "(n + (8 - n mod 8)) mod 8 = 0" by simp
  then show "(n + compute_required_bytealigned n) mod 8 = 0"
    by (simp only: compute_required_bytealigned_def mod_add_right_eq)
qed

lemma compute_required:
  assumes "total_len \<le> cap"
  defines "k \<equiv> compute_required total_len cap"
  shows "k < 8" and "total_len + k \<le> cap" and "(total_len + k) mod 8 = 0 \<or> total_len + k = cap"
  using compute_required_bytealigned [of total_len] assms by (auto simp: compute_required_def Let_def)

lemma compute_required_overflow: "cap \<le> total_len \<Longrightarrow> compute_required total_len cap = 0"
  by (simp add: compute_required_def)

lemma peek_one:
  assumes "bb_inv b" and "n < length (window b)"
  shows "peek_bits_startoffset n 1 b = Ok (Some (of_bool (window b ! n)), b)"
proof -
  have "take 1 (drop n (window b)) = [window b ! n]"
    using assms(2) by (simp add: take_Suc_conv_app_nth hd_drop_conv_nth take_Suc)
  then show ?thesis using assms by (simp add: peek_bits_startoffset_spec length_window of_bits_def)
qed

lemma fill_scan_zeroes:
  assumes "bb_inv b" and "n + k \<le> length (window b)" and "get_pos b \<le> n"
    and "\<And>i. n \<le> i \<Longrightarrow> i < n + k \<Longrightarrow> \<not> window b ! i"
  shows "fill_scan len (n + k) b = fill_scan len n b"
  using assms(2,4)
proof (induction k)
  case (Suc k)
  then have "peek_bits_startoffset (n + k) 1 b = Ok (Some 0, b)"
    using assms(1) peek_one [of b "n + k"] by simp
  with Suc assms(3) show ?case by (simp add: bind_def ret_def)
qed simp

text \<open>What a receiver finds behind the cursor: a payload and its fill bits, or no one bit at all.\<close>

lemma get_num_fill_bits_found:
  assumes "bb_inv b" and "unread b = sdu @ fill_bits_of k @ rest" and "0 < k"
    and "len = get_pos b + length sdu + k"
  shows "get_num_fill_bits len b = Ok (k, b)"
proof -
  let ?n = "get_pos b + length sdu"
  have w: "drop (get_pos b) (window b) = sdu @ fill_bits_of k @ rest"
    using assms(1,2) unread_window [of b] by (simp add: get_pos_def)
  have pos: "get_pos b \<le> length (window b)" using assms(1) by (auto simp: length_window get_len_def get_pos_def bb_inv_def)
  have len: "length (window b) = get_pos b + length sdu + k + length rest"
    using arg_cong [OF w, of length] pos by simp
  have nth: "window b ! (get_pos b + i) = (sdu @ fill_bits_of k @ rest) ! i" if "i < length sdu + k" for i
    using that len w pos by (metis nth_drop)
  have one: "window b ! ?n" using nth [of "length sdu"] assms(3) by (simp add: fill_bits_of_def nth_append)
  have zero: "\<not> window b ! i" if "Suc ?n \<le> i" "i < Suc ?n + (k - 1)" for i
    using that nth [of "i - get_pos b"] assms(3) by (auto simp: fill_bits_of_def nth_append nth_Cons split: nat.split)
  have "fill_scan len (Suc ?n + (k - 1)) b = fill_scan len (Suc ?n) b"
    using assms(1) zero len assms(3) by (intro fill_scan_zeroes) auto
  also have "\<dots> = Ok (k, b)"
    using assms peek_one [of b ?n] one len by (simp add: bind_def ret_def)
  finally show ?thesis using assms(3,4) by (simp add: get_num_fill_bits_def)
qed

lemma get_num_fill_bits_none:
  assumes "bb_inv b" and "unread b = replicate k False @ rest" and "len = get_pos b + k"
  shows "get_num_fill_bits len b = Ok (0, b)"
proof -
  have w: "drop (get_pos b) (window b) = replicate k False @ rest"
    using assms(1,2) unread_window [of b] by (simp add: get_pos_def)
  have pos: "get_pos b \<le> length (window b)" using assms(1) by (auto simp: length_window get_len_def get_pos_def bb_inv_def)
  have len: "length (window b) = get_pos b + k + length rest"
    using arg_cong [OF w, of length] pos by simp
  have "\<not> window b ! i" if "get_pos b \<le> i" "i < get_pos b + k" for i
  proof -
    have "window b ! i = (replicate k False @ rest) ! (i - get_pos b)"
      using that w pos len by (metis le_add_diff_inverse nth_drop)
    moreover have "i - get_pos b < k" using that by arith
    ultimately show ?thesis by (simp add: nth_append)
  qed
  then have "fill_scan len (get_pos b + k) b = fill_scan len (get_pos b) b"
    using assms(1) len by (intro fill_scan_zeroes) auto
  also have "\<dots> = Ok (0, b)" by (cases "get_pos b") simp_all
  finally show ?thesis using assms(3) by (simp add: get_num_fill_bits_def)
qed

end
