(* ===== verification/Umac_Pdus_Dl.thy ===== *)
theory Umac_Pdus_Dl
  imports Umac_Pdus_Ul
begin

text \<open>
  The downlink MAC PDUs and their elements: the basic slot grant, the channel allocation, MAC-RESOURCE with
  its length computation, MAC-FRAG, MAC-END and MAC-D-BLCK. The base station writes them; the readers are
  the mobile-station side and assert the constants of the header.
\<close>

section \<open>Basic slot grant\<close>

datatype BasicSlotgrantGrantingDelay =
    CapAllocAtNextOpportunity
  | DelayNOpportunities u8
  | AllocStartsAtOpportunityInFr18
  | WaitForAnotherSlotgrantMessage

definition BasicSlotgrantGrantingDelay_try_from :: "u64 \<Rightarrow> BasicSlotgrantGrantingDelay option" where
  "BasicSlotgrantGrantingDelay_try_from x =
     (if x = 0 then Some CapAllocAtNextOpportunity
      else if 1 \<le> x \<and> x \<le> 13 then Some (DelayNOpportunities (ucast x))
      else if x = 14 then Some AllocStartsAtOpportunityInFr18
      else if x = 15 then Some WaitForAnotherSlotgrantMessage
      else None)"

text \<open>The release build, without the \<open>debug_assert!\<close>: an out-of-range delay is clamped.\<close>

primrec BasicSlotgrantGrantingDelay_into_raw :: "BasicSlotgrantGrantingDelay \<Rightarrow> u64" where
    "BasicSlotgrantGrantingDelay_into_raw CapAllocAtNextOpportunity = 0"
  | "BasicSlotgrantGrantingDelay_into_raw (DelayNOpportunities n) = ucast (max 1 (min 13 n))"
  | "BasicSlotgrantGrantingDelay_into_raw AllocStartsAtOpportunityInFr18 = 14"
  | "BasicSlotgrantGrantingDelay_into_raw WaitForAnotherSlotgrantMessage = 15"

record BasicSlotgrant =
  capacity_allocation :: BasicSlotgrantCapAlloc
  granting_delay :: BasicSlotgrantGrantingDelay

definition BasicSlotgrant_from_bitbuf :: "BasicSlotgrant bb" where
  "BasicSlotgrant_from_bitbuf =
     bind (read_enum BasicSlotgrantCapAlloc_try_from 4 ''capacity_allocation'') (\<lambda>cap.
     bind (read_enum BasicSlotgrantGrantingDelay_try_from 4 ''granting_delay'') (\<lambda>delay.
     ret \<lparr>capacity_allocation = cap, granting_delay = delay\<rparr>))"

definition BasicSlotgrant_to_bitbuf :: "BasicSlotgrant \<Rightarrow> unit bb" where
  "BasicSlotgrant_to_bitbuf g = seq
     [write_bits (BasicSlotgrantCapAlloc_into_raw (capacity_allocation g)) 4,
      write_bits (BasicSlotgrantGrantingDelay_into_raw (granting_delay g)) 4]"

section \<open>Channel allocation\<close>

text \<open>The four-element array \<open>ts_assigned\<close> is a quadruple.\<close>

record ChanAllocElement =
  alloc_type :: ChanAllocType
  ts_assigned :: "bool \<times> bool \<times> bool \<times> bool"
  ul_dl_assigned :: UlDlAssignment
  clch_permission :: bool
  cell_change_flag :: bool
  carrier_num :: u16
  chan_ext :: "int option"
  mon_pattern :: u8
  frame18_mon_pattern :: "u8 option"

definition read_mon_patterns :: "(u8 \<times> u8 option) bb" where
  "read_mon_patterns =
     bind (read_field 2 ''mon_pattern'') (\<lambda>mon.
     if mon = 0 then bind (read_field 2 ''frame18_mon_pattern'') (\<lambda>v. ret (ucast mon, Some (ucast v)))
     else ret (ucast mon, None))"

definition ChanAllocElement_from_bitbuf :: "ChanAllocElement bb" where
  "ChanAllocElement_from_bitbuf =
     bind (read_enum ChanAllocType_try_from 2 ''alloc_type'') (\<lambda>alloc_type.
     bind (read_field 4 ''ts_assigned'') (\<lambda>v.
     let bitmap = ucast v :: u8 in
     bind (read_enum UlDlAssignment_try_from 2 ''ul_dl_assigned'') (\<lambda>ul_dl.
     bind (read_field 1 ''clch_permission'') (\<lambda>clch.
     bind (read_field 1 ''cell_change_flag'') (\<lambda>cell.
     bind (read_field 12 ''carrier_num'') (\<lambda>carrier.
     bind (read_field 1 ''ext_carrier_num_flag'') (\<lambda>ext_flag.
     if ext_flag = 1 then panic
     else
       bind read_mon_patterns (\<lambda>mon.
       if ul_dl = UlDlAssignment_Augmented then panic
       else ret \<lparr>alloc_type = alloc_type,
              ts_assigned = (bitmap AND 0b1000 \<noteq> 0, bitmap AND 0b0100 \<noteq> 0, bitmap AND 0b0010 \<noteq> 0, bitmap AND 0b0001 \<noteq> 0),
              ul_dl_assigned = ul_dl, clch_permission = (clch \<noteq> 0), cell_change_flag = (cell \<noteq> 0),
              carrier_num = ucast carrier, chan_ext = None, mon_pattern = fst mon, frame18_mon_pattern = snd mon\<rparr>))))))))"

definition ChanAllocElement_to_bitbuf :: "ChanAllocElement \<Rightarrow> unit bb" where
  "ChanAllocElement_to_bitbuf e =
     (case ts_assigned e of (t1, t2, t3, t4) \<Rightarrow> seq
     [write_bits (ChanAllocType_into_raw (alloc_type e)) 2,
      write_bits (of_bool t1) 1, write_bits (of_bool t2) 1, write_bits (of_bool t3) 1, write_bits (of_bool t4) 1,
      write_bits (UlDlAssignment_into_raw (ul_dl_assigned e)) 2,
      write_bits (of_bool (clch_permission e)) 1,
      write_bits (of_bool (cell_change_flag e)) 1,
      write_bits (ucast (carrier_num e)) 12,
      (if chan_ext e \<noteq> None then seq [write_bits 1 1, panic] else write_bits 0 1),
      write_bits (ucast (mon_pattern e)) 2,
      (if mon_pattern e = 0 then bind (unwrap (frame18_mon_pattern e)) (\<lambda>v. write_bits (ucast v) 2) else ret ()),
      (if ul_dl_assigned e = UlDlAssignment_Augmented then panic else ret ())])"

text \<open>\<open>None\<close> is the panic of the unimplemented extensions.\<close>

definition ChanAllocElement_compute_len :: "ChanAllocElement \<Rightarrow> nat option" where
  "ChanAllocElement_compute_len e =
     (if chan_ext e \<noteq> None then None
      else if ul_dl_assigned e = UlDlAssignment_Augmented then None
      else Some (2 + 4 + 2 + 1 + 1 + 12 + 1 + 2 + (if mon_pattern e = 0 then 2 else 0)))"

section \<open>MAC-RESOURCE\<close>

record MacResource =
  mr_fill_bits :: bool
  mr_pos_of_grant :: u8
  mr_encryption_mode :: u8
  mr_random_access_flag :: bool
  mr_length_ind :: u8
  mr_addr :: "TetraAddress option"
  mr_event_label :: "u16 option"
  mr_usage_marker :: "u8 option"
  mr_power_control_element :: "u8 option"
  mr_slot_granting_element :: "BasicSlotgrant option"
  mr_chan_alloc_element :: "ChanAllocElement option"

definition MacResource_null_pdu :: MacResource where
  "MacResource_null_pdu =
     \<lparr>mr_fill_bits = False, mr_pos_of_grant = 0, mr_encryption_mode = 0, mr_random_access_flag = False,
      mr_length_ind = 2, mr_addr = None, mr_event_label = None, mr_usage_marker = None,
      mr_power_control_element = None, mr_slot_granting_element = None, mr_chan_alloc_element = None\<rparr>"

definition MacResource_is_null_pdu :: "MacResource \<Rightarrow> bool" where
  "MacResource_is_null_pdu p \<longleftrightarrow> mr_addr p = None \<and> mr_event_label p = None \<and> mr_usage_marker p = None"

definition read_mr_addr :: "string \<Rightarrow> SsiType \<Rightarrow> TetraAddress bb" where
  "read_mr_addr s ty = bind (read_field 24 s) (\<lambda>v. ret \<lparr>ta_ssi = ucast v, ta_ssi_type = ty\<rparr>)"

text \<open>The \<open>match addr_type\<close> of \<open>from_bitbuf\<close>: address, event label and usage marker.\<close>

definition MacResource_read_addr :: "MacResourceAddrType \<Rightarrow> (TetraAddress option \<times> u16 option \<times> u8 option) bb" where
  "MacResource_read_addr t =
     (case t of
        MacResourceAddrType_NullPdu \<Rightarrow> ret (None, None, None)
      | MacResourceAddrType_Ssi \<Rightarrow> bind (read_mr_addr ''ssi'' SsiType_Ssi) (\<lambda>a. ret (Some a, None, None))
      | MacResourceAddrType_EventLabel \<Rightarrow> bind (read_field 10 ''event_label'') (\<lambda>e. ret (None, Some (ucast e), None))
      | MacResourceAddrType_Ussi \<Rightarrow> bind (read_mr_addr ''ussi'' SsiType_Ussi) (\<lambda>a. ret (Some a, None, None))
      | MacResourceAddrType_Smi \<Rightarrow> bind (read_mr_addr ''smi'' SsiType_Smi) (\<lambda>a. ret (Some a, None, None))
      | MacResourceAddrType_SsiAndEventLabel \<Rightarrow>
          bind (read_mr_addr ''ssi'' SsiType_Ssi) (\<lambda>a.
          bind (read_field 10 ''event_label'') (\<lambda>e. ret (Some a, Some (ucast e), None)))
      | MacResourceAddrType_SsiAndUsageMarker \<Rightarrow>
          bind (read_mr_addr ''ssi'' SsiType_Ssi) (\<lambda>a.
          bind (read_field 6 ''usage_marker'') (\<lambda>u. ret (Some a, None, Some (ucast u))))
      | MacResourceAddrType_SmiAndEventLabel \<Rightarrow>
          bind (read_mr_addr ''smi'' SsiType_Smi) (\<lambda>a.
          bind (read_field 10 ''event_label'') (\<lambda>e. ret (Some a, Some (ucast e), None))))"

text \<open>An element behind a one-bit presence flag, as the readers test it.\<close>

definition read_flagged :: "string \<Rightarrow> 'a bb \<Rightarrow> 'a option bb" where
  "read_flagged s m = bind (read_field 1 s) (\<lambda>f. if f = 1 then bind m (\<lambda>x. ret (Some x)) else ret None)"

definition MacResource_from_bitbuf :: "MacResource bb" where
  "MacResource_from_bitbuf =
     bind (read_field 2 ''mac_pdu_type'') (\<lambda>mac_pdu_type.
     bind (guard (mac_pdu_type = 0)) (\<lambda>_.
     bind (read_field 1 ''fill_bits'') (\<lambda>fill_bits.
     bind (read_field 1 ''pos_of_grant'') (\<lambda>pos_of_grant.
     bind (read_field 2 ''encryption_mode'') (\<lambda>encryption_mode.
     bind (read_field 1 ''random_access_flag'') (\<lambda>random_access_flag.
     bind (read_field 6 ''length_ind'') (\<lambda>length_ind.
     bind (read_enum MacResourceAddrType_try_from 3 ''addr_type'') (\<lambda>addr_type.
     bind (MacResource_read_addr addr_type) (\<lambda>aeu.
     if addr_type = MacResourceAddrType_NullPdu then
       ret \<lparr>mr_fill_bits = False, mr_pos_of_grant = 0, mr_encryption_mode = 0, mr_random_access_flag = False,
            mr_length_ind = ucast length_ind, mr_addr = None, mr_event_label = None, mr_usage_marker = None,
            mr_power_control_element = None, mr_slot_granting_element = None, mr_chan_alloc_element = None\<rparr>
     else
       bind (read_flagged ''power_control_flag'' (bind (read_field 4 ''power_control_element'') (\<lambda>v. ret (ucast v)))) (\<lambda>power.
       bind (read_flagged ''slot_granting_flag'' BasicSlotgrant_from_bitbuf) (\<lambda>slot.
       bind (read_flagged ''chan_alloc_flag'' ChanAllocElement_from_bitbuf) (\<lambda>chan.
       ret \<lparr>mr_fill_bits = fill_bits \<noteq> 0, mr_pos_of_grant = ucast pos_of_grant, mr_encryption_mode = ucast encryption_mode,
            mr_random_access_flag = random_access_flag \<noteq> 0, mr_length_ind = ucast length_ind,
            mr_addr = fst aeu, mr_event_label = fst (snd aeu), mr_usage_marker = snd (snd aeu),
            mr_power_control_element = power, mr_slot_granting_element = slot, mr_chan_alloc_element = chan\<rparr>))))))))))))"

text \<open>The address type that \<open>to_bitbuf\<close> derives from the fields, with its assertions.\<close>

definition MacResource_addr_type :: "MacResource \<Rightarrow> MacResourceAddrType bb" where
  "MacResource_addr_type p =
     (if MacResource_is_null_pdu p then
        bind (guard (\<not> mr_fill_bits p)) (\<lambda>_.
        bind (guard (mr_pos_of_grant p = 0)) (\<lambda>_.
        bind (guard (mr_encryption_mode p = 0)) (\<lambda>_.
        bind (guard (\<not> mr_random_access_flag p)) (\<lambda>_.
        ret MacResourceAddrType_NullPdu))))
      else case mr_addr p of
        Some addr \<Rightarrow>
          if ta_ssi_type addr = SsiType_Ssi \<or> ta_ssi_type addr = SsiType_Gssi \<or> ta_ssi_type addr = SsiType_Issi then
            if mr_event_label p = None \<and> mr_usage_marker p = None then ret MacResourceAddrType_Ssi
            else if mr_event_label p \<noteq> None \<and> mr_usage_marker p = None then ret MacResourceAddrType_SsiAndEventLabel
            else if mr_usage_marker p \<noteq> None \<and> mr_event_label p = None then ret MacResourceAddrType_SsiAndUsageMarker
            else panic
          else if ta_ssi_type addr = SsiType_Ussi \<and> mr_event_label p = None \<and> mr_usage_marker p = None then
            ret MacResourceAddrType_Ussi
          else if ta_ssi_type addr = SsiType_Smi then
            bind (guard (mr_usage_marker p = None)) (\<lambda>_.
            if mr_event_label p \<noteq> None then ret MacResourceAddrType_SmiAndEventLabel else ret MacResourceAddrType_Smi)
          else panic
      | None \<Rightarrow>
          bind (guard (mr_usage_marker p = None)) (\<lambda>_.
          bind (guard (mr_event_label p \<noteq> None)) (\<lambda>_.
          if mr_event_label p = None then ret MacResourceAddrType_NullPdu else ret MacResourceAddrType_EventLabel)))"

definition write_mr_ssi :: "MacResource \<Rightarrow> unit bb" where
  "write_mr_ssi p =
     bind (unwrap (mr_addr p)) (\<lambda>a.
     bind (guard ((ta_ssi_type a = SsiType_Esi) = (mr_encryption_mode p \<noteq> 0))) (\<lambda>_.
     write_bits (ucast (ta_ssi a)) 24))"

definition write_mr_event_label :: "MacResource \<Rightarrow> unit bb" where
  "write_mr_event_label p = bind (unwrap (mr_event_label p)) (\<lambda>e. write_bits (ucast e) 10)"

definition MacResource_write_addr :: "MacResource \<Rightarrow> MacResourceAddrType \<Rightarrow> unit bb" where
  "MacResource_write_addr p t =
     (case t of
        MacResourceAddrType_NullPdu \<Rightarrow> ret ()
      | MacResourceAddrType_Ssi \<Rightarrow> write_mr_ssi p
      | MacResourceAddrType_Ussi \<Rightarrow> write_mr_ssi p
      | MacResourceAddrType_Smi \<Rightarrow> write_mr_ssi p
      | MacResourceAddrType_EventLabel \<Rightarrow> write_mr_event_label p
      | MacResourceAddrType_SsiAndEventLabel \<Rightarrow> seq [write_mr_ssi p, write_mr_event_label p]
      | MacResourceAddrType_SmiAndEventLabel \<Rightarrow> seq [write_mr_ssi p, write_mr_event_label p]
      | MacResourceAddrType_SsiAndUsageMarker \<Rightarrow>
          seq [write_mr_ssi p, bind (unwrap (mr_usage_marker p)) (\<lambda>u. write_bits (ucast u) 6)])"

definition write_flagged :: "'a option \<Rightarrow> ('a \<Rightarrow> unit bb) \<Rightarrow> unit bb" where
  "write_flagged x w = (case x of Some v \<Rightarrow> seq [write_bits 1 1, w v] | None \<Rightarrow> write_bits 0 1)"

definition MacResource_to_bitbuf :: "MacResource \<Rightarrow> unit bb" where
  "MacResource_to_bitbuf p = seq
     [guard (mr_length_ind p > 0),
      write_bits 0 2,
      write_bits (of_bool (mr_fill_bits p)) 1,
      write_bits (ucast (mr_pos_of_grant p)) 1,
      write_bits (ucast (mr_encryption_mode p)) 2,
      write_bits (of_bool (mr_random_access_flag p)) 1,
      write_bits (ucast (mr_length_ind p)) 6,
      bind (MacResource_addr_type p) (\<lambda>addr_type. seq
        [write_bits (MacResourceAddrType_into_raw addr_type) 3,
         MacResource_write_addr p addr_type,
         (if addr_type = MacResourceAddrType_NullPdu then ret ()
          else seq
            [write_flagged (mr_power_control_element p) (\<lambda>v. write_bits (ucast v) 4),
             write_flagged (mr_slot_granting_element p) BasicSlotgrant_to_bitbuf,
             write_flagged (mr_chan_alloc_element p) ChanAllocElement_to_bitbuf])])]"

definition MacResource_compute_header_len :: "MacResource \<Rightarrow> nat option" where
  "MacResource_compute_header_len p =
     (if MacResource_is_null_pdu p then Some 16
      else
        let r = 16 + (if mr_event_label p \<noteq> None then 10 else 0) + (if mr_usage_marker p \<noteq> None then 6 else 0) +
                (if mr_addr p \<noteq> None then 24 else 0) + 1 + (if mr_power_control_element p \<noteq> None then 4 else 0) +
                1 + (if mr_slot_granting_element p \<noteq> None then 8 else 0) + 1
        in case mr_chan_alloc_element p of
             Some c \<Rightarrow> map_option (\<lambda>l. r + l) (ChanAllocElement_compute_len c)
           | None \<Rightarrow> Some r)"

definition MacResource_update_len_and_fill_ind :: "MacResource \<Rightarrow> nat \<Rightarrow> (MacResource \<times> nat) option" where
  "MacResource_update_len_and_fill_ind p sdu_len =
     map_option (\<lambda>hdr_len.
       let total_len = hdr_len + sdu_len;
           total_len_bytes = div_ceil8 total_len;
           num_fill_bits = (8 - total_len mod 8) mod 8
       in (p\<lparr>mr_length_ind := of_nat total_len_bytes, mr_fill_bits := num_fill_bits \<noteq> 0\<rparr>, num_fill_bits))
     (MacResource_compute_header_len p)"

section \<open>MAC-FRAG, MAC-END and MAC-D-BLCK (downlink)\<close>

record MacFragDl =
  MacFragDl_fill_bits :: bool

definition MacFragDl_from_bitbuf :: "MacFragDl bb" where
  "MacFragDl_from_bitbuf =
     bind (read_field 2 ''mac_pdu_type'') (\<lambda>mac_pdu_type.
     bind (guard (mac_pdu_type = 1)) (\<lambda>_.
     bind (read_field 1 ''pdu_subtype'') (\<lambda>pdu_subtype.
     bind (guard (pdu_subtype = 0)) (\<lambda>_.
     bind (read_field 1 ''fill_bits'') (\<lambda>fill_bits.
     ret \<lparr>MacFragDl_fill_bits = fill_bits \<noteq> 0\<rparr>)))))"

definition MacFragDl_to_bitbuf :: "MacFragDl \<Rightarrow> unit bb" where
  "MacFragDl_to_bitbuf p = seq
     [write_bits 1 2, write_bits 0 1, write_bits (of_bool (MacFragDl_fill_bits p)) 1]"

record MacEndDl =
  MacEndDl_fill_bits :: bool
  MacEndDl_pos_of_grant :: u8
  MacEndDl_length_ind :: u8
  MacEndDl_slot_granting_element :: "BasicSlotgrant option"
  MacEndDl_chan_alloc_element :: "ChanAllocElement option"

definition MacEndDl_from_bitbuf :: "MacEndDl bb" where
  "MacEndDl_from_bitbuf =
     bind (read_field 2 ''mac_pdu_type'') (\<lambda>mac_pdu_type.
     bind (guard (mac_pdu_type = 1)) (\<lambda>_.
     bind (read_field 1 ''pdu_subtype'') (\<lambda>pdu_subtype.
     bind (guard (pdu_subtype = 1)) (\<lambda>_.
     bind (read_field 1 ''fill_bits'') (\<lambda>fill_bits.
     bind (read_field 1 ''pos_of_grant'') (\<lambda>pos_of_grant.
     bind (read_field 6 ''length_ind'') (\<lambda>length_ind.
     bind (read_flagged ''slot_granting_flag'' BasicSlotgrant_from_bitbuf) (\<lambda>slot.
     bind (read_flagged ''chan_alloc_flag'' ChanAllocElement_from_bitbuf) (\<lambda>chan.
     ret \<lparr>MacEndDl_fill_bits = fill_bits \<noteq> 0, MacEndDl_pos_of_grant = ucast pos_of_grant,
          MacEndDl_length_ind = ucast length_ind, MacEndDl_slot_granting_element = slot,
          MacEndDl_chan_alloc_element = chan\<rparr>)))))))))"

text \<open>\<open>None\<close> is the failed assertion \<open>!has_chanalloc\<close>.\<close>

definition MacEndDl_compute_hdr_len :: "bool \<Rightarrow> bool \<Rightarrow> nat option" where
  "MacEndDl_compute_hdr_len has_slotgrant has_chanalloc =
     (if has_chanalloc then None
      else Some (2 + 1 + 1 + 1 + 6 + 1 + (if has_slotgrant then 6 else 0) + 1))"

definition MacEndDl_to_bitbuf :: "MacEndDl \<Rightarrow> unit bb" where
  "MacEndDl_to_bitbuf p = seq
     [write_bits 1 2,
      write_bits 1 1,
      write_bits (of_bool (MacEndDl_fill_bits p)) 1,
      write_bits (ucast (MacEndDl_pos_of_grant p)) 1,
      write_bits (ucast (MacEndDl_length_ind p)) 6,
      write_flagged (MacEndDl_slot_granting_element p) BasicSlotgrant_to_bitbuf,
      write_flagged (MacEndDl_chan_alloc_element p) ChanAllocElement_to_bitbuf]"

record MacDBlck =
  MacDBlck_fill_bits :: bool
  MacDBlck_encryption_mode :: u8
  MacDBlck_event_label :: u16
  MacDBlck_imm_napping_permission :: bool
  MacDBlck_slot_granting_element :: "BasicSlotgrant option"

definition MacDBlck_from_bitbuf :: "MacDBlck bb" where
  "MacDBlck_from_bitbuf =
     bind (read_field 2 ''mac_pdu_type'') (\<lambda>mac_pdu_type.
     bind (guard (mac_pdu_type = 3)) (\<lambda>_.
     bind (read_field 1 ''pdu_subtype'') (\<lambda>pdu_subtype.
     bind (guard (pdu_subtype = 0)) (\<lambda>_.
     bind (read_field 1 ''fill_bits'') (\<lambda>fill_bits.
     bind (read_field 2 ''encryption_mode'') (\<lambda>encryption_mode.
     bind (read_field 10 ''event_label'') (\<lambda>event_label.
     bind (read_field 1 ''imm_napping_permission'') (\<lambda>imm.
     bind (read_flagged ''slot_granting_flag'' BasicSlotgrant_from_bitbuf) (\<lambda>slot.
     ret \<lparr>MacDBlck_fill_bits = fill_bits \<noteq> 0, MacDBlck_encryption_mode = ucast encryption_mode,
          MacDBlck_event_label = ucast event_label, MacDBlck_imm_napping_permission = imm \<noteq> 0,
          MacDBlck_slot_granting_element = slot\<rparr>)))))))))"

definition MacDBlck_to_bitbuf :: "MacDBlck \<Rightarrow> unit bb" where
  "MacDBlck_to_bitbuf p = seq
     [write_bits 3 2,
      write_bits 0 1,
      write_bits (of_bool (MacDBlck_fill_bits p)) 1,
      write_bits (ucast (MacDBlck_encryption_mode p)) 2,
      write_bits (ucast (MacDBlck_event_label p)) 10,
      write_bits (of_bool (MacDBlck_imm_napping_permission p)) 1,
      write_flagged (MacDBlck_slot_granting_element p) BasicSlotgrant_to_bitbuf]"

end
