(* ===== verification/Umac_Pdus_Dl_Spec.thy ===== *)
theory Umac_Pdus_Dl_Spec
  imports Umac_Pdus_Dl
begin

text \<open>
  The downlink MAC PDUs as codecs. For MAC-RESOURCE the writer accepts more than the reader returns (an
  ISSI or a GSSI is read back as an SSI of unknown kind), so what is read is the PDU with its address
  kind forgotten. The header lengths that the fragmenter relies on are compared with the bits written.
\<close>

section \<open>Flagged elements\<close>

definition enc_flagged :: "('a \<Rightarrow> bool list) \<Rightarrow> 'a option \<Rightarrow> bool list" where
  "enc_flagged f x = (case x of Some v \<Rightarrow> to_bits 1 (1 :: u64) @ f v | None \<Rightarrow> to_bits 1 (0 :: u64))"

lemma emits_flagged:
  "(\<And>v. x = Some v \<Longrightarrow> emits (w v) (f v)) \<Longrightarrow> emits (write_flagged x w) (enc_flagged f x)"
  unfolding write_flagged_def enc_flagged_def
  by (cases x) (auto intro!: emits_bind emits_write_bits)

lemma parses_flagged:
  "(\<And>v. x = Some v \<Longrightarrow> parses m (f v) v) \<Longrightarrow> parses (read_flagged s m) (enc_flagged f x) x"
  unfolding read_flagged_def enc_flagged_def
  by (rule parsesI, cases x) (auto intro!: parses_field_bind parses_field_last parses_ret parses_bind_last [where m = m and a = "the x"])

section \<open>Basic slot grant\<close>

definition wf_delay :: "BasicSlotgrantGrantingDelay \<Rightarrow> bool" where
  "wf_delay d = (case d of DelayNOpportunities n \<Rightarrow> 1 \<le> n \<and> n \<le> 13 | _ \<Rightarrow> True)"

lemma ucast_small: "unat w < 256 \<Longrightarrow> unat (ucast (w :: u64) :: u8) = unat w"
  by (simp add: unsigned_ucast_eq take_bit_nat_eq_self_iff)

lemma unat_ucast_8_64: "unat (ucast (w :: u8) :: u64) = unat w"
  using unsigned_less [of w, where 'a = nat] by (simp add: unsigned_ucast_eq take_bit_nat_eq_self_iff)

lemma ucast_8_64_eq_0: "(ucast (w :: u8) :: u64) = 0 \<longleftrightarrow> w = 0"
  by (simp add: word_unat_eq_iff unat_ucast_8_64)

interpretation BasicSlotgrantGrantingDelay:
  raw_enum wf_delay 4 BasicSlotgrantGrantingDelay_into_raw BasicSlotgrantGrantingDelay_try_from
proof
  show "fits 4 (BasicSlotgrantGrantingDelay_into_raw d)" for d
  proof (cases d)
    case (DelayNOpportunities n)
    have "unat (max 1 (min 13 n)) < 16" by (auto simp: max_def min_def word_le_nat_alt)
    then have "fits 4 (max 1 (min 13 n))" by (simp add: fits_unat)
    with DelayNOpportunities show ?thesis by simp
  qed simp_all
  show "BasicSlotgrantGrantingDelay_try_from (BasicSlotgrantGrantingDelay_into_raw d) = Some d" if "wf_delay d" for d
  proof (cases d)
    case (DelayNOpportunities n)
    with that have n: "1 \<le> n" "n \<le> 13" by (auto simp: wf_delay_def)
    then have "max 1 (min 13 n) = n" by (simp add: max_def min_def)
    moreover have "unat n \<ge> 1" "unat n \<le> 13" using n by (auto simp: word_le_nat_alt)
    ultimately show ?thesis
      using DelayNOpportunities
      by (auto simp: BasicSlotgrantGrantingDelay_try_from_def word_le_nat_alt word_unat_eq_iff unat_ucast_8_64)
  qed (simp_all add: BasicSlotgrantGrantingDelay_try_from_def word_le_nat_alt)
  show "wf_delay d \<and> BasicSlotgrantGrantingDelay_into_raw d = x" if "BasicSlotgrantGrantingDelay_try_from x = Some d" for x d
  proof (cases "1 \<le> x \<and> x \<le> 13")
    case True
    then have u: "unat x \<ge> 1" "unat x \<le> 13" by (auto simp: word_le_nat_alt)
    then have "unat (ucast x :: u8) = unat x" by (intro ucast_small) simp
    with u have "1 \<le> (ucast x :: u8)" "(ucast x :: u8) \<le> 13" by (auto simp: word_le_nat_alt)
    moreover have "fits 4 x" using u by (simp add: fits_unat)
    ultimately show ?thesis
      using that True fits_ucast_down [of 4 x, where 'b = 8]
      by (auto simp: BasicSlotgrantGrantingDelay_try_from_def wf_delay_def max_def min_def split: if_splits)
  next
    case False
    then show ?thesis
      using that by (auto simp: BasicSlotgrantGrantingDelay_try_from_def wf_delay_def split: if_splits)
  qed
qed simp

definition BasicSlotgrant_wf :: "BasicSlotgrant \<Rightarrow> bool" where
  "BasicSlotgrant_wf g \<longleftrightarrow> wf_delay (granting_delay g)"

definition BasicSlotgrant_enc :: "BasicSlotgrant \<Rightarrow> bool list" where
  "BasicSlotgrant_enc g =
     to_bits 4 (BasicSlotgrantCapAlloc_into_raw (capacity_allocation g)) @
     to_bits 4 (BasicSlotgrantGrantingDelay_into_raw (granting_delay g))"

interpretation BasicSlotgrant: safe_codec BasicSlotgrant_wf BasicSlotgrant_enc BasicSlotgrant_to_bitbuf BasicSlotgrant_from_bitbuf
proof
  show "emits (BasicSlotgrant_to_bitbuf g) (BasicSlotgrant_enc g)" if "BasicSlotgrant_wf g" for g
    using that unfolding BasicSlotgrant_to_bitbuf_def BasicSlotgrant_enc_def BasicSlotgrant_wf_def
    by (intro emits_seq_Cons emits_seq_last BasicSlotgrantCapAlloc.emits_raw BasicSlotgrantGrantingDelay.emits_raw) simp_all
  show "parses BasicSlotgrant_from_bitbuf (BasicSlotgrant_enc g) g" if "BasicSlotgrant_wf g" for g
    using that unfolding BasicSlotgrant_from_bitbuf_def BasicSlotgrant_enc_def BasicSlotgrant_wf_def
    by (intro parsesI BasicSlotgrantCapAlloc.raw_bind BasicSlotgrantGrantingDelay.raw_last parses_ret) simp_all
  show "safe BasicSlotgrant_from_bitbuf"
    unfolding BasicSlotgrant_from_bitbuf_def by (intro safe_intros)
qed

lemma length_BasicSlotgrant_enc [simp]: "length (BasicSlotgrant_enc g) = 8"
  by (simp add: BasicSlotgrant_enc_def)

section \<open>Channel allocation\<close>

definition ts_bits :: "bool \<times> bool \<times> bool \<times> bool \<Rightarrow> u64" where
  "ts_bits t = (case t of (t1, t2, t3, t4) \<Rightarrow> of_bits [t1, t2, t3, t4])"

definition ChanAllocElement_wf :: "ChanAllocElement \<Rightarrow> bool" where
  "ChanAllocElement_wf e \<longleftrightarrow>
     ul_dl_assigned e \<noteq> UlDlAssignment_Augmented \<and> chan_ext e = None \<and> fits 12 (carrier_num e) \<and>
     fits 2 (mon_pattern e) \<and>
     (if mon_pattern e = 0 then (case frame18_mon_pattern e of Some v \<Rightarrow> fits 2 v | None \<Rightarrow> False)
      else frame18_mon_pattern e = None)"

definition enc_mon_patterns :: "u8 \<Rightarrow> u8 option \<Rightarrow> bool list" where
  "enc_mon_patterns mon f18 =
     to_bits 2 (ucast mon :: u64) @ (if mon = 0 then to_bits 2 (ucast (the f18) :: u64) else [])"

definition ChanAllocElement_enc :: "ChanAllocElement \<Rightarrow> bool list" where
  "ChanAllocElement_enc e =
     to_bits 2 (ChanAllocType_into_raw (alloc_type e)) @ to_bits 4 (ts_bits (ts_assigned e)) @
     to_bits 2 (UlDlAssignment_into_raw (ul_dl_assigned e)) @
     to_bits 1 (of_bool (clch_permission e) :: u64) @ to_bits 1 (of_bool (cell_change_flag e) :: u64) @
     to_bits 12 (ucast (carrier_num e) :: u64) @ to_bits 1 (0 :: u64) @
     enc_mon_patterns (mon_pattern e) (frame18_mon_pattern e)"

lemma ts_bits_bits: "to_bits 4 (ts_bits (t1, t2, t3, t4)) = [t1, t2, t3, t4]"
  by (simp add: ts_bits_def)

lemma ts_bits_fits: "fits 4 (ts_bits t)"
  by (cases t) (simp add: ts_bits_def)

lemma ts_bits_test:
  "(ucast (ts_bits (t1, t2, t3, t4)) :: u8) AND 0b1000 \<noteq> 0 \<longleftrightarrow> t1"
  "(ucast (ts_bits (t1, t2, t3, t4)) :: u8) AND 0b0100 \<noteq> 0 \<longleftrightarrow> t2"
  "(ucast (ts_bits (t1, t2, t3, t4)) :: u8) AND 0b0010 \<noteq> 0 \<longleftrightarrow> t3"
  "(ucast (ts_bits (t1, t2, t3, t4)) :: u8) AND 0b0001 \<noteq> 0 \<longleftrightarrow> t4"
  by (cases t1; cases t2; cases t3; cases t4; simp add: ts_bits_def of_bits_def One_nat_def)+

lemma emits_seq_last2: "emits m xs \<Longrightarrow> emits n [] \<Longrightarrow> emits (seq [m, n]) xs"
  using emits_bind [of m xs n "[]"] by simp

lemma emits_ChanAllocElement:
  assumes "ChanAllocElement_wf e"
  shows "emits (ChanAllocElement_to_bitbuf e) (ChanAllocElement_enc e)"
proof -
  obtain t1 t2 t3 t4 where t: "ts_assigned e = (t1, t2, t3, t4)" by (cases "ts_assigned e")
  have bits: "to_bits 1 (of_bool t1 :: u64) @ to_bits 1 (of_bool t2 :: u64) @ to_bits 1 (of_bool t3 :: u64) @ to_bits 1 (of_bool t4 :: u64) @ r
      = to_bits 4 (ts_bits (t1, t2, t3, t4)) @ r" for r
    by (simp add: ts_bits_bits to_bits_bit)
  have opt: "emits (if mon_pattern e = 0 then bind (unwrap (frame18_mon_pattern e)) (\<lambda>v. write_bits (ucast v) 2) else ret ())
      (if mon_pattern e = 0 then to_bits 2 (ucast (the (frame18_mon_pattern e)) :: u64) else [])"
    using assms by (auto simp: ChanAllocElement_wf_def split: option.splits intro!: emits_intros)
  have no_aug: "emits (if ul_dl_assigned e = UlDlAssignment_Augmented then panic else ret ()) []"
    and no_ext: "emits (if chan_ext e \<noteq> None then seq [write_bits 1 1, panic] else write_bits 0 1) (to_bits 1 (0 :: u64))"
    using assms by (simp_all add: ChanAllocElement_wf_def emits_ret emits_write_bits)
  show ?thesis
    unfolding ChanAllocElement_to_bitbuf_def ChanAllocElement_enc_def enc_mon_patterns_def t prod.case bits [symmetric]
    by (intro emits_seq_last2 [OF opt no_aug] emits_seq_Cons no_ext emits_write_bits ChanAllocType.emits_raw UlDlAssignment.emits_raw)
       (use assms in \<open>simp_all add: ChanAllocElement_wf_def\<close>)
qed

lemma parses_mon_patterns:
  assumes "ChanAllocElement_wf e"
  shows "parses read_mon_patterns (enc_mon_patterns (mon_pattern e) (frame18_mon_pattern e)) (mon_pattern e, frame18_mon_pattern e)"
proof (cases "mon_pattern e = 0")
  case True
  with assms obtain v where "frame18_mon_pattern e = Some v" "fits 2 v"
    by (auto simp: ChanAllocElement_wf_def split: option.splits)
  with True show ?thesis
    by (auto simp: read_mon_patterns_def enc_mon_patterns_def intro!: parsesI parses_field_bind parses_field_last parses_ret)
next
  case False
  with assms show ?thesis
    by (auto simp: read_mon_patterns_def enc_mon_patterns_def ChanAllocElement_wf_def ucast_8_64_eq_0
        intro!: parsesI parses_field_last parses_ret)
qed

lemma parses_ChanAllocElement:
  assumes "ChanAllocElement_wf e"
  shows "parses ChanAllocElement_from_bitbuf (ChanAllocElement_enc e) e"
proof -
  obtain t1 t2 t3 t4 where t: "ts_assigned e = (t1, t2, t3, t4)" by (cases "ts_assigned e")
  show ?thesis
    unfolding ChanAllocElement_from_bitbuf_def ChanAllocElement_enc_def Let_def t
    by (intro parsesI ChanAllocType.raw_bind UlDlAssignment.raw_bind parses_field_bind ts_bits_fits)
       (use assms in \<open>auto simp: ts_bits_test t ChanAllocElement_wf_def
          intro!: UlDlAssignment.raw_bind parses_field_bind parses_ret parses_bind_last [OF parses_mon_patterns [OF assms]]\<close>)
qed

interpretation ChanAllocElement: codec ChanAllocElement_wf ChanAllocElement_enc ChanAllocElement_to_bitbuf ChanAllocElement_from_bitbuf
  by unfold_locales (rule emits_ChanAllocElement parses_ChanAllocElement; assumption)+

lemma ChanAllocElement_len:
  "ChanAllocElement_wf e \<Longrightarrow> ChanAllocElement_compute_len e = Some (length (ChanAllocElement_enc e))"
  by (simp add: ChanAllocElement_wf_def ChanAllocElement_compute_len_def ChanAllocElement_enc_def enc_mon_patterns_def)

section \<open>MAC-RESOURCE\<close>

text \<open>The address type written, as a function of the fields.\<close>

definition mr_type :: "MacResource \<Rightarrow> MacResourceAddrType" where
  "mr_type p =
     (case mr_addr p of
        None \<Rightarrow> (if mr_event_label p = None then MacResourceAddrType_NullPdu else MacResourceAddrType_EventLabel)
      | Some a \<Rightarrow>
          if ta_ssi_type a = SsiType_Ussi then MacResourceAddrType_Ussi
          else if ta_ssi_type a = SsiType_Smi then
            (if mr_event_label p = None then MacResourceAddrType_Smi else MacResourceAddrType_SmiAndEventLabel)
          else if mr_event_label p \<noteq> None then MacResourceAddrType_SsiAndEventLabel
          else if mr_usage_marker p \<noteq> None then MacResourceAddrType_SsiAndUsageMarker
          else MacResourceAddrType_Ssi)"

text \<open>What the writer accepts: field widths, and combinations of address, event label and usage marker.\<close>

definition mr_addr_ok :: "MacResource \<Rightarrow> bool" where
  "mr_addr_ok p \<longleftrightarrow>
     (case mr_addr p of
        None \<Rightarrow> mr_usage_marker p = None
      | Some a \<Rightarrow> mr_encryption_mode p = 0 \<and> fits 24 (ta_ssi a) \<and>
          (ta_ssi_type a \<in> {SsiType_Ssi, SsiType_Issi, SsiType_Gssi} \<and> (mr_event_label p = None \<or> mr_usage_marker p = None) \<or>
           ta_ssi_type a = SsiType_Ussi \<and> mr_event_label p = None \<and> mr_usage_marker p = None \<or>
           ta_ssi_type a = SsiType_Smi \<and> mr_usage_marker p = None))"

definition mr_null_ok :: "MacResource \<Rightarrow> bool" where
  "mr_null_ok p \<longleftrightarrow> (MacResource_is_null_pdu p \<longrightarrow>
     \<not> mr_fill_bits p \<and> mr_pos_of_grant p = 0 \<and> mr_encryption_mode p = 0 \<and> \<not> mr_random_access_flag p \<and>
     mr_power_control_element p = None \<and> mr_slot_granting_element p = None \<and> mr_chan_alloc_element p = None)"

definition MacResource_writable :: "MacResource \<Rightarrow> bool" where
  "MacResource_writable p \<longleftrightarrow>
     mr_length_ind p > 0 \<and> fits 6 (mr_length_ind p) \<and> fits 1 (mr_pos_of_grant p) \<and> fits 2 (mr_encryption_mode p) \<and>
     mr_addr_ok p \<and> mr_null_ok p \<and> pred_option (fits 10) (mr_event_label p) \<and> pred_option (fits 6) (mr_usage_marker p) \<and>
     pred_option (fits 4) (mr_power_control_element p) \<and> pred_option BasicSlotgrant_wf (mr_slot_granting_element p) \<and>
     pred_option ChanAllocElement_wf (mr_chan_alloc_element p)"

text \<open>The kind of a plain SSI is not on the air.\<close>

definition ssi_norm :: "TetraAddress \<Rightarrow> TetraAddress" where
  "ssi_norm a = (if ta_ssi_type a \<in> {SsiType_Issi, SsiType_Gssi} then a\<lparr>ta_ssi_type := SsiType_Ssi\<rparr> else a)"

definition MacResource_norm :: "MacResource \<Rightarrow> MacResource" where
  "MacResource_norm p = p\<lparr>mr_addr := map_option ssi_norm (mr_addr p)\<rparr>"

definition mr_enc_addr :: "MacResource \<Rightarrow> bool list" where
  "mr_enc_addr p =
     (case mr_addr p of Some a \<Rightarrow> to_bits 24 (ucast (ta_ssi a) :: u64) | None \<Rightarrow> []) @
     (case mr_event_label p of Some e \<Rightarrow> to_bits 10 (ucast e :: u64) | None \<Rightarrow> []) @
     (case mr_usage_marker p of Some u \<Rightarrow> to_bits 6 (ucast u :: u64) | None \<Rightarrow> [])"

definition mr_enc_tail :: "MacResource \<Rightarrow> bool list" where
  "mr_enc_tail p =
     enc_flagged (\<lambda>v. to_bits 4 (ucast v :: u64)) (mr_power_control_element p) @
     enc_flagged BasicSlotgrant_enc (mr_slot_granting_element p) @
     enc_flagged ChanAllocElement_enc (mr_chan_alloc_element p)"

definition MacResource_enc :: "MacResource \<Rightarrow> bool list" where
  "MacResource_enc p =
     to_bits 2 (0 :: u64) @ to_bits 1 (of_bool (mr_fill_bits p) :: u64) @ to_bits 1 (ucast (mr_pos_of_grant p) :: u64) @
     to_bits 2 (ucast (mr_encryption_mode p) :: u64) @ to_bits 1 (of_bool (mr_random_access_flag p) :: u64) @
     to_bits 6 (ucast (mr_length_ind p) :: u64) @ to_bits 3 (MacResourceAddrType_into_raw (mr_type p)) @
     mr_enc_addr p @ (if MacResource_is_null_pdu p then [] else mr_enc_tail p)"

lemma mr_type_null: "mr_addr_ok p \<Longrightarrow> mr_type p = MacResourceAddrType_NullPdu \<longleftrightarrow> MacResource_is_null_pdu p"
  by (auto simp: mr_type_def MacResource_is_null_pdu_def mr_addr_ok_def split: option.splits)

lemma MacResource_addr_type_eq:
  "mr_addr_ok p \<Longrightarrow> mr_null_ok p \<Longrightarrow> MacResource_addr_type p = ret (mr_type p)"
  by (cases "mr_addr p"; cases "mr_event_label p"; cases "mr_usage_marker p")
     (auto simp: MacResource_addr_type_def mr_type_def mr_addr_ok_def mr_null_ok_def MacResource_is_null_pdu_def)

lemma emits_mr_addr:
  assumes "mr_addr_ok p" and "pred_option (fits 10) (mr_event_label p)" and "pred_option (fits 6) (mr_usage_marker p)"
  shows "emits (MacResource_write_addr p (mr_type p)) (mr_enc_addr p)"
proof (cases "mr_addr p")
  case None
  with assms show ?thesis
    by (cases "mr_event_label p")
       (auto simp: mr_type_def mr_addr_ok_def MacResource_write_addr_def mr_enc_addr_def write_mr_event_label_def
          intro!: emits_intros)
next
  case (Some a)
  then have "\<not> ta_ssi_type a = SsiType_Esi" "mr_encryption_mode p = 0" "fits 24 (ta_ssi a)"
    using assms(1) by (auto simp: mr_addr_ok_def)
  then have ssi: "emits (write_mr_ssi p) (to_bits 24 (ucast (ta_ssi a) :: u64))"
    using Some by (auto simp: write_mr_ssi_def intro!: emits_write_bits)
  show ?thesis
    using Some assms ssi
    by (cases "mr_event_label p"; cases "mr_usage_marker p")
       (auto simp: mr_type_def mr_addr_ok_def MacResource_write_addr_def mr_enc_addr_def write_mr_event_label_def
          intro!: emits_bind emits_write_bits ssi)
qed

lemma emits_MacResource:
  assumes "MacResource_writable p"
  shows "emits (MacResource_to_bitbuf p) (MacResource_enc p)"
proof -
  note wf = assms [unfolded MacResource_writable_def]
  have tail: "emits (if mr_type p = MacResourceAddrType_NullPdu then ret ()
      else seq [write_flagged (mr_power_control_element p) (\<lambda>v. write_bits (ucast v) 4),
                write_flagged (mr_slot_granting_element p) BasicSlotgrant_to_bitbuf,
                write_flagged (mr_chan_alloc_element p) ChanAllocElement_to_bitbuf])
     (if MacResource_is_null_pdu p then [] else mr_enc_tail p)"
    using wf mr_type_null [of p] unfolding mr_enc_tail_def
    by (auto intro!: emits_ret emits_seq_Cons emits_seq_last emits_flagged emits_write_bits
        BasicSlotgrant.emits ChanAllocElement.emits simp del: seq.simps)
  have "MacResource_addr_type p = ret (mr_type p)"
    using wf by (intro MacResource_addr_type_eq) auto
  then have rest: "emits (bind (MacResource_addr_type p) (\<lambda>addr_type. seq
        [write_bits (MacResourceAddrType_into_raw addr_type) 3,
         MacResource_write_addr p addr_type,
         (if addr_type = MacResourceAddrType_NullPdu then ret ()
          else seq [write_flagged (mr_power_control_element p) (\<lambda>v. write_bits (ucast v) 4),
                    write_flagged (mr_slot_granting_element p) BasicSlotgrant_to_bitbuf,
                    write_flagged (mr_chan_alloc_element p) ChanAllocElement_to_bitbuf])]))
     (to_bits 3 (MacResourceAddrType_into_raw (mr_type p)) @ mr_enc_addr p @
      (if MacResource_is_null_pdu p then [] else mr_enc_tail p))"
    using wf
    by (simp only: bind_ret)
       (intro emits_seq_Cons emits_seq_last tail emits_mr_addr MacResourceAddrType.emits_raw; simp)
  show ?thesis
    unfolding MacResource_to_bitbuf_def MacResource_enc_def
    using wf by (intro emits_seq_guard emits_seq_Cons emits_seq_last emits_write_bits rest) simp_all
qed

lemma parses_mr_addr24:
  "fits 24 (ta_ssi a) \<Longrightarrow> parses (read_mr_addr s ty) (to_bits 24 (ucast (ta_ssi a) :: u64)) \<lparr>ta_ssi = ta_ssi a, ta_ssi_type = ty\<rparr>"
  unfolding read_mr_addr_def by (intro parsesI parses_intros) simp_all

lemma ssi_norm_eq:
  "ssi_norm a = \<lparr>ta_ssi = ta_ssi a, ta_ssi_type = (if ta_ssi_type a \<in> {SsiType_Issi, SsiType_Gssi} then SsiType_Ssi else ta_ssi_type a)\<rparr>"
  by (cases a) (simp add: ssi_norm_def)

lemma parses_mr_addr:
  assumes "mr_addr_ok p" and "pred_option (fits 10) (mr_event_label p)" and "pred_option (fits 6) (mr_usage_marker p)"
  shows "parses (MacResource_read_addr (mr_type p)) (mr_enc_addr p)
     (map_option ssi_norm (mr_addr p), mr_event_label p, mr_usage_marker p)"
proof (cases "mr_addr p")
  case None
  with assms show ?thesis
    by (cases "mr_event_label p")
       (auto simp: mr_type_def mr_addr_ok_def MacResource_read_addr_def mr_enc_addr_def intro!: parsesI parses_intros)
next
  case (Some a)
  then have "fits 24 (ta_ssi a)" using assms(1) by (auto simp: mr_addr_ok_def)
  note ssi = parses_mr_addr24 [OF this]
  show ?thesis
  proof (rule parsesI)
    show "parses_on (MacResource_read_addr (mr_type p)) (mr_enc_addr p) rest
       (map_option ssi_norm (mr_addr p), mr_event_label p, mr_usage_marker p)" for rest
      using Some assms
      by (cases "mr_event_label p"; cases "mr_usage_marker p")
         (auto simp: mr_type_def mr_addr_ok_def MacResource_read_addr_def mr_enc_addr_def ssi_norm_eq
            intro!: parses_bind [OF ssi] parses_bind_last [OF ssi] parses_field_last parses_ret)
  qed
qed

lemma null_type:
  "parses_on (f MacResourceAddrType_NullPdu) [] rest y \<Longrightarrow>
   parses_on (bind (read_enum MacResourceAddrType_try_from 3 s) f) (to_bits 3 (0 :: u64)) rest y"
  using MacResourceAddrType.raw_last [of f MacResourceAddrType_NullPdu rest y s] by simp

lemma MacResource_read_addr_null: "MacResource_read_addr MacResourceAddrType_NullPdu = ret (None, None, None)"
  by (simp add: MacResource_read_addr_def)

lemma parses_MacResource:
  assumes "MacResource_writable p"
  shows "parses MacResource_from_bitbuf (MacResource_enc p) (MacResource_norm p)"
proof (rule parsesI)
  fix rest
  note wf = assms [unfolded MacResource_writable_def]
  have addr: "parses (MacResource_read_addr (mr_type p)) (mr_enc_addr p)
      (map_option ssi_norm (mr_addr p), mr_event_label p, mr_usage_marker p)"
    using wf by (intro parses_mr_addr) auto
  have pw: "parses (read_flagged s (bind (read_field 4 s') (\<lambda>v. ret (ucast v))))
      (enc_flagged (\<lambda>v. to_bits 4 (ucast v :: u64)) (mr_power_control_element p)) (mr_power_control_element p)" for s s'
    using wf by (intro parses_flagged parsesI parses_field_last parses_ret) auto
  have sg: "parses (read_flagged s BasicSlotgrant_from_bitbuf) (enc_flagged BasicSlotgrant_enc (mr_slot_granting_element p))
      (mr_slot_granting_element p)" for s
    using wf by (intro parses_flagged BasicSlotgrant.parses) auto
  have ca: "parses (read_flagged s ChanAllocElement_from_bitbuf) (enc_flagged ChanAllocElement_enc (mr_chan_alloc_element p))
      (mr_chan_alloc_element p)" for s
    using wf by (intro parses_flagged ChanAllocElement.parses) auto
  show "parses_on MacResource_from_bitbuf (MacResource_enc p) rest (MacResource_norm p)"
  proof (cases "MacResource_is_null_pdu p")
    case True
    then have t: "mr_type p = MacResourceAddrType_NullPdu" and e: "mr_enc_addr p = []"
      by (simp_all add: mr_type_def MacResource_is_null_pdu_def mr_enc_addr_def)
    have "MacResource_norm p = p\<lparr>mr_fill_bits := False, mr_pos_of_grant := 0, mr_encryption_mode := 0, mr_random_access_flag := False,
        mr_addr := None, mr_event_label := None, mr_usage_marker := None, mr_power_control_element := None,
        mr_slot_granting_element := None, mr_chan_alloc_element := None\<rparr>"
      using True wf by (cases p) (simp add: MacResource_norm_def MacResource_is_null_pdu_def mr_null_ok_def)
    then show ?thesis
      unfolding MacResource_from_bitbuf_def MacResource_enc_def
      by (intro parses_field_bind)
         (use wf True t e in \<open>auto simp: MacResource_read_addr_null intro!: parses_field_bind null_type parses_ret\<close>)
  next
    case False
    then have t: "mr_type p \<noteq> MacResourceAddrType_NullPdu" using wf mr_type_null by auto
    show ?thesis
      unfolding MacResource_from_bitbuf_def MacResource_enc_def mr_enc_tail_def
      by (intro parses_field_bind)
         (use wf False t in \<open>auto simp: MacResource_norm_def intro!: parses_field_bind MacResourceAddrType.raw_bind
            parses_bind [OF addr] parses_bind [OF pw] parses_bind [OF sg] parses_bind_last [OF ca] parses_ret\<close>)
  qed
qed

definition MacResource_wf :: "MacResource \<Rightarrow> bool" where
  "MacResource_wf p \<longleftrightarrow> MacResource_writable p \<and> MacResource_norm p = p"

interpretation MacResource: codec MacResource_wf MacResource_enc MacResource_to_bitbuf MacResource_from_bitbuf
proof
  show "emits (MacResource_to_bitbuf p) (MacResource_enc p)" if "MacResource_wf p" for p
    using that by (intro emits_MacResource) (simp add: MacResource_wf_def)
  show "parses MacResource_from_bitbuf (MacResource_enc p) p" if "MacResource_wf p" for p
    using that parses_MacResource [of p] by (simp add: MacResource_wf_def)
qed

lemma length_enc_flagged: "length (enc_flagged f x) = 1 + (case x of None \<Rightarrow> 0 | Some v \<Rightarrow> length (f v))"
  by (simp add: enc_flagged_def split: option.split)

text \<open>The computed header length is the number of bits written.\<close>

lemma MacResource_header_len:
  assumes "MacResource_writable p"
  shows "MacResource_compute_header_len p = Some (length (MacResource_enc p))"
proof -
  have "ChanAllocElement_compute_len c = Some (length (ChanAllocElement_enc c))" if "mr_chan_alloc_element p = Some c" for c
    using that assms by (intro ChanAllocElement_len) (simp add: MacResource_writable_def)
  then show ?thesis
    using assms
    by (auto simp: MacResource_compute_header_len_def MacResource_enc_def mr_enc_addr_def mr_enc_tail_def length_enc_flagged
        MacResource_is_null_pdu_def MacResource_writable_def mr_addr_ok_def Let_def split: option.split)
qed

lemma fill_to_byte:
  fixes n :: nat
  defines "k \<equiv> (8 - n mod 8) mod 8"
  shows "k < 8" and "n + k = 8 * div_ceil8 n"
proof -
  show "k < 8" by (simp add: k_def)
  have n: "n = 8 * (n div 8) + n mod 8" and m: "n mod 8 < 8" by simp_all
  show "n + k = 8 * div_ceil8 n"
  proof (cases "n mod 8 = 0")
    case True
    with n have "div_ceil8 n = n div 8" unfolding div_ceil8_def by linarith
    with True n show ?thesis by (simp add: k_def)
  next
    case False
    then have "k = 8 - n mod 8" by (simp add: k_def)
    moreover have "div_ceil8 n = n div 8 + 1" using False n m unfolding div_ceil8_def by linarith
    ultimately show ?thesis using n m by linarith
  qed
qed

text \<open>
  \<open>update_len_and_fill_ind\<close> pads the PDU to whole octets with fewer than eight fill bits and announces the octets,
  as long as there are fewer than 256.
\<close>

lemma MacResource_update_len:
  assumes "MacResource_writable p" and "div_ceil8 (length (MacResource_enc p) + sdu_len) < 256"
  shows "\<exists>q fill. MacResource_update_len_and_fill_ind p sdu_len = Some (q, fill) \<and> fill < 8 \<and>
     length (MacResource_enc p) + sdu_len + fill = 8 * unat (mr_length_ind q) \<and> (mr_fill_bits q \<longleftrightarrow> fill \<noteq> 0) \<and>
     q = p\<lparr>mr_length_ind := mr_length_ind q, mr_fill_bits := mr_fill_bits q\<rparr>"
proof -
  let ?n = "length (MacResource_enc p) + sdu_len"
  have "unat (of_nat (div_ceil8 ?n) :: u8) = div_ceil8 ?n"
    using assms(2) by (simp add: unat_of_nat)
  then show ?thesis
    using MacResource_header_len [OF assms(1)] fill_to_byte [of ?n]
    by (auto simp: MacResource_update_len_and_fill_ind_def Let_def)
qed

section \<open>MAC-FRAG, MAC-END and MAC-D-BLCK\<close>

definition MacFragDl_enc :: "MacFragDl \<Rightarrow> bool list" where
  "MacFragDl_enc p = to_bits 2 (1 :: u64) @ to_bits 1 (0 :: u64) @ to_bits 1 (of_bool (MacFragDl_fill_bits p) :: u64)"

interpretation MacFragDl: codec "\<lambda>_. True" MacFragDl_enc MacFragDl_to_bitbuf MacFragDl_from_bitbuf
proof
  show "emits (MacFragDl_to_bitbuf p) (MacFragDl_enc p)" for p
    unfolding MacFragDl_to_bitbuf_def MacFragDl_enc_def by (intro emits_intros emits_seq_last) simp_all
  show "parses MacFragDl_from_bitbuf (MacFragDl_enc p) p" for p
    unfolding MacFragDl_from_bitbuf_def MacFragDl_enc_def
    by (intro parsesI parses_intros) (simp_all add: parses_intros)
qed

lemma length_MacFragDl_enc [simp]: "length (MacFragDl_enc p) = 4"
  by (simp add: MacFragDl_enc_def)

definition MacEndDl_wf :: "MacEndDl \<Rightarrow> bool" where
  "MacEndDl_wf p \<longleftrightarrow> fits 1 (MacEndDl_pos_of_grant p) \<and> fits 6 (MacEndDl_length_ind p) \<and>
     pred_option BasicSlotgrant_wf (MacEndDl_slot_granting_element p) \<and>
     pred_option ChanAllocElement_wf (MacEndDl_chan_alloc_element p)"

definition MacEndDl_enc :: "MacEndDl \<Rightarrow> bool list" where
  "MacEndDl_enc p =
     to_bits 2 (1 :: u64) @ to_bits 1 (1 :: u64) @ to_bits 1 (of_bool (MacEndDl_fill_bits p) :: u64) @
     to_bits 1 (ucast (MacEndDl_pos_of_grant p) :: u64) @ to_bits 6 (ucast (MacEndDl_length_ind p) :: u64) @
     enc_flagged BasicSlotgrant_enc (MacEndDl_slot_granting_element p) @
     enc_flagged ChanAllocElement_enc (MacEndDl_chan_alloc_element p)"

interpretation MacEndDl: codec MacEndDl_wf MacEndDl_enc MacEndDl_to_bitbuf MacEndDl_from_bitbuf
proof
  show "emits (MacEndDl_to_bitbuf p) (MacEndDl_enc p)" if "MacEndDl_wf p" for p
    using that unfolding MacEndDl_to_bitbuf_def MacEndDl_enc_def MacEndDl_wf_def
    by (intro emits_seq_Cons emits_seq_last emits_write_bits emits_flagged BasicSlotgrant.emits ChanAllocElement.emits) simp_all
  show "parses MacEndDl_from_bitbuf (MacEndDl_enc p) p" if wf: "MacEndDl_wf p" for p
  proof -
    have sg: "parses (read_flagged s BasicSlotgrant_from_bitbuf) (enc_flagged BasicSlotgrant_enc (MacEndDl_slot_granting_element p))
        (MacEndDl_slot_granting_element p)" for s
      using wf by (intro parses_flagged BasicSlotgrant.parses) (auto simp: MacEndDl_wf_def)
    have ca: "parses (read_flagged s ChanAllocElement_from_bitbuf) (enc_flagged ChanAllocElement_enc (MacEndDl_chan_alloc_element p))
        (MacEndDl_chan_alloc_element p)" for s
      using wf by (intro parses_flagged ChanAllocElement.parses) (auto simp: MacEndDl_wf_def)
    show ?thesis
      using wf unfolding MacEndDl_from_bitbuf_def MacEndDl_enc_def MacEndDl_wf_def
      by (intro parsesI parses_field_bind)
         (auto intro!: parses_field_bind parses_bind [OF sg] parses_bind_last [OF ca] parses_ret)
  qed
qed

text \<open>The header length that \<open>compute_hdr_len\<close> assumes is right without a slot grant, and two bits short with one.\<close>

lemma MacEndDl_hdr_len:
  assumes "MacEndDl_chan_alloc_element p = None"
  shows "MacEndDl_compute_hdr_len (MacEndDl_slot_granting_element p \<noteq> None) False =
     Some (length (MacEndDl_enc p) - (if MacEndDl_slot_granting_element p \<noteq> None then 2 else 0))"
  using assms by (auto simp: MacEndDl_compute_hdr_len_def MacEndDl_enc_def length_enc_flagged split: option.split)

definition MacDBlck_wf :: "MacDBlck \<Rightarrow> bool" where
  "MacDBlck_wf p \<longleftrightarrow> fits 2 (MacDBlck_encryption_mode p) \<and> fits 10 (MacDBlck_event_label p) \<and>
     pred_option BasicSlotgrant_wf (MacDBlck_slot_granting_element p)"

definition MacDBlck_enc :: "MacDBlck \<Rightarrow> bool list" where
  "MacDBlck_enc p =
     to_bits 2 (3 :: u64) @ to_bits 1 (0 :: u64) @ to_bits 1 (of_bool (MacDBlck_fill_bits p) :: u64) @
     to_bits 2 (ucast (MacDBlck_encryption_mode p) :: u64) @ to_bits 10 (ucast (MacDBlck_event_label p) :: u64) @
     to_bits 1 (of_bool (MacDBlck_imm_napping_permission p) :: u64) @
     enc_flagged BasicSlotgrant_enc (MacDBlck_slot_granting_element p)"

interpretation MacDBlck: codec MacDBlck_wf MacDBlck_enc MacDBlck_to_bitbuf MacDBlck_from_bitbuf
proof
  show "emits (MacDBlck_to_bitbuf p) (MacDBlck_enc p)" if "MacDBlck_wf p" for p
    using that unfolding MacDBlck_to_bitbuf_def MacDBlck_enc_def MacDBlck_wf_def
    by (intro emits_seq_Cons emits_seq_last emits_write_bits emits_flagged BasicSlotgrant.emits) simp_all
  show "parses MacDBlck_from_bitbuf (MacDBlck_enc p) p" if wf: "MacDBlck_wf p" for p
  proof -
    have sg: "parses (read_flagged s BasicSlotgrant_from_bitbuf) (enc_flagged BasicSlotgrant_enc (MacDBlck_slot_granting_element p))
        (MacDBlck_slot_granting_element p)" for s
      using wf by (intro parses_flagged BasicSlotgrant.parses) (auto simp: MacDBlck_wf_def)
    show ?thesis
      using wf unfolding MacDBlck_from_bitbuf_def MacDBlck_enc_def MacDBlck_wf_def
      by (intro parsesI parses_field_bind) (auto intro!: parses_field_bind parses_bind_last [OF sg] parses_ret)
  qed
qed

end
