(* ===== verification/Bs_Frag_Spec.thy ===== *)
theory Bs_Frag_Spec
  imports Bs_Frag
begin

text \<open>
  Correctness of the downlink fragmenter: one call of \<open>get_next_chunk\<close> implements the abstract \<open>frag_step\<close>, whatever the
  capacity of the block; no bit of the SDU is lost, duplicated or reordered; a transmission over blocks of
  sufficient capacity ends; and every block is left full or octet aligned, as the next call asserts.
\<close>

section \<open>The abstract step\<close>

text \<open>
  The abstract state is whether the header is out and the SDU bits left. \<open>frag_step r cap s bits part fin s'\<close>: on a block
  with \<open>cap\<close> free bits the call writes \<open>bits\<close>, of which \<open>part\<close> is SDU, and reports \<open>fin\<close>.
\<close>

definition mr_hdr_len :: "MacResource \<Rightarrow> nat" where
  "mr_hdr_len r = length (MacResource_enc r)"

definition res_chunk :: "MacResource \<Rightarrow> nat \<Rightarrow> bool \<Rightarrow> MacResource" where
  "res_chunk r len_ind fill = r\<lparr>mr_length_ind := of_nat len_ind, mr_fill_bits := fill\<rparr>"

definition end_chunk :: "nat \<Rightarrow> bool \<Rightarrow> MacEndDl" where
  "end_chunk len_ind fill =
     \<lparr>MacEndDl_fill_bits = fill, MacEndDl_pos_of_grant = 0, MacEndDl_length_ind = of_nat len_ind,
      MacEndDl_slot_granting_element = None, MacEndDl_chan_alloc_element = None\<rparr>"

inductive frag_step :: "MacResource \<Rightarrow> nat \<Rightarrow> bool \<times> bool list \<Rightarrow> bool list \<Rightarrow> bool list \<Rightarrow> bool \<Rightarrow> bool \<times> bool list \<Rightarrow> bool"
  for r cap where
  fs_whole: "n = mr_hdr_len r + length sdu \<Longrightarrow> n \<le> cap \<Longrightarrow> k = compute_required n cap \<Longrightarrow>
    frag_step r cap (False, sdu) (MacResource_enc (res_chunk r ((n + k) div 8) (0 < k)) @ sdu @ fill_bits_of k) sdu True (True, [])"
| fs_defer: "cap < mr_hdr_len r + length sdu \<Longrightarrow> cap < 32 \<or> cap < mr_hdr_len r \<Longrightarrow>
    frag_step r cap (False, sdu) [] [] False (False, sdu)"
| fs_start: "cap < mr_hdr_len r + length sdu \<Longrightarrow> 32 \<le> cap \<Longrightarrow> mr_hdr_len r \<le> cap \<Longrightarrow> m = cap - mr_hdr_len r \<Longrightarrow>
    frag_step r cap (False, sdu) (MacResource_enc (res_chunk r 63 False) @ take m sdu) (take m sdu) False (True, drop m sdu)"
| fs_last: "8 * div_ceil8 (13 + length sdu) \<le> cap \<Longrightarrow> k = compute_required (13 + length sdu) cap \<Longrightarrow>
    frag_step r cap (True, sdu) (MacEndDl_enc (end_chunk (div_ceil8 (13 + length sdu)) (0 < k)) @ sdu @ fill_bits_of k) sdu True (True, [])"
| fs_wait: "cap < 8 * div_ceil8 (13 + length sdu) \<Longrightarrow> cap < 16 \<Longrightarrow> frag_step r cap (True, sdu) [] [] False (True, sdu)"
| fs_middle: "cap < 8 * div_ceil8 (13 + length sdu) \<Longrightarrow> 16 \<le> cap \<Longrightarrow> m = min (cap - 4) (length sdu) \<Longrightarrow> k = cap - 4 - m \<Longrightarrow>
    frag_step r cap (True, sdu) (MacFragDl_enc \<lparr>MacFragDl_fill_bits = 0 < k\<rparr> @ take m sdu @ fill_bits_of k) (take m sdu) False (True, drop m sdu)"

lemma frag_step_parts: "frag_step r cap s bits part fin s' \<Longrightarrow> snd s = part @ snd s' \<and> (fin \<longrightarrow> snd s' = [])"
  by (induction rule: frag_step.induct) auto

section \<open>The header of a resource in transmission\<close>

text \<open>What the fragmenter is given: a resource that its writer accepts once the length is set, with an address.\<close>

definition frag_ready :: "MacResource \<Rightarrow> bool" where
  "frag_ready r \<longleftrightarrow> MacResource_writable (r\<lparr>mr_length_ind := 1\<rparr>) \<and> \<not> MacResource_is_null_pdu r"

lemma mr_hdr_len_res_chunk [simp]: "length (MacResource_enc (res_chunk r l b)) = mr_hdr_len r"
  by (simp add: mr_hdr_len_def MacResource_enc_def res_chunk_def mr_type_def mr_enc_addr_def mr_enc_tail_def
      MacResource_is_null_pdu_def)

lemma mr_hdr_len_ge: "16 \<le> mr_hdr_len r"
  by (simp add: mr_hdr_len_def MacResource_enc_def)

lemma compute_header_len_cong: "MacResource_compute_header_len (r\<lparr>mr_length_ind := l\<rparr>) = MacResource_compute_header_len r"
  by (simp add: MacResource_compute_header_len_def MacResource_is_null_pdu_def)

lemma mr_hdr_len_cong: "mr_hdr_len (r\<lparr>mr_length_ind := l\<rparr>) = mr_hdr_len r"
  by (simp add: mr_hdr_len_def MacResource_enc_def mr_type_def mr_enc_addr_def mr_enc_tail_def MacResource_is_null_pdu_def)

lemma frag_ready_header_len: "frag_ready r \<Longrightarrow> MacResource_compute_header_len r = Some (mr_hdr_len r)"
  using MacResource_header_len [of "r\<lparr>mr_length_ind := 1\<rparr>"]
  by (simp add: frag_ready_def compute_header_len_cong mr_hdr_len_def [symmetric] mr_hdr_len_cong)

lemma mr_addr_ok_cong: "mr_addr_ok (r\<lparr>mr_length_ind := l\<rparr>) = mr_addr_ok r" "mr_addr_ok (r\<lparr>mr_fill_bits := b\<rparr>) = mr_addr_ok r"
  by (simp_all add: mr_addr_ok_def split: option.split)

lemma res_chunk_simps [simp]: "res_chunk (res_chunk r l b) l' b' = res_chunk r l' b'" "mr_hdr_len (res_chunk r l b) = mr_hdr_len r"
  using mr_hdr_len_res_chunk [of r l b] by (simp_all add: res_chunk_def mr_hdr_len_def)

lemma frag_ready_res_chunk [simp]: "frag_ready r \<Longrightarrow> frag_ready (res_chunk r l b)"
  by (auto simp: frag_ready_def MacResource_writable_def res_chunk_def mr_addr_ok_cong mr_null_ok_def MacResource_is_null_pdu_def)

lemma frag_ready_writable:
  assumes "frag_ready r" and "0 < l" and "l < 64"
  shows "MacResource_writable (res_chunk r l b)"
proof -
  have "unat (of_nat l :: u8) = l" using assms(3) by (simp add: unat_of_nat)
  then have "0 < (of_nat l :: u8)" "fits 6 (of_nat l :: u8)"
    using assms(2,3) by (auto simp: fits_unat word_less_nat_alt)
  then show ?thesis
    using assms(1)
    by (auto simp: frag_ready_def MacResource_writable_def res_chunk_def mr_addr_ok_cong mr_null_ok_def MacResource_is_null_pdu_def)
qed

section \<open>Programs that write to the block\<close>

definition frag_emits :: "'a frag \<Rightarrow> BsFragger \<Rightarrow> bool list \<Rightarrow> 'a \<Rightarrow> BsFragger \<Rightarrow> bool" where
  "frag_emits m f bs x f' \<longleftrightarrow>
     (\<forall>blk. bb_inv blk \<longrightarrow> room blk (length bs) \<longrightarrow> (\<exists>blk'. m (f, blk) = Ok (x, (f', blk')) \<and> wrote blk bs blk'))"

lemma frag_emitsE:
  assumes "frag_emits m f bs x f'" and "bb_inv blk" and "room blk (length bs)"
  obtains blk' where "m (f, blk) = Ok (x, (f', blk'))" "wrote blk bs blk'"
  using assms by (auto simp: frag_emits_def)

lemma frag_emits_bind:
  assumes "frag_emits m f xs x f1" and "frag_emits (k x) f1 ys y f2"
  shows "frag_emits (bind m k) f (xs @ ys) y f2"
  unfolding frag_emits_def
proof (intro allI impI)
  fix blk assume inv: "bb_inv blk" and room: "room blk (length (xs @ ys))"
  from assms(1) inv room_mono [OF room, of "length xs"] obtain b1
    where b1: "m (f, blk) = Ok (x, (f1, b1))" "wrote blk xs b1" by (auto elim: frag_emitsE)
  have "bb_inv b1" "room b1 (length ys)" using b1(2) wrote_room [OF inv b1(2)] room by (auto simp: wrote_def)
  with assms(2) obtain b2 where b2: "k x (f1, b1) = Ok (y, (f2, b2))" "wrote b1 ys b2" by (auto elim: frag_emitsE)
  with b1 wrote_trans [OF inv b1(2) b2(2)]
  show "\<exists>blk'. bind m k (f, blk) = Ok (y, (f2, blk')) \<and> wrote blk (xs @ ys) blk'" by (simp add: bind_def)
qed

lemma frag_emits_ret: "frag_emits (ret x) f [] x f"
  by (simp add: frag_emits_def ret_def wrote_def)

lemma frag_emits_last: "frag_emits m f xs x f1 \<Longrightarrow> frag_emits (k x) f1 [] y f2 \<Longrightarrow> frag_emits (bind m k) f xs y f2"
  using frag_emits_bind [of m f xs x f1 k "[]"] by simp

lemma frag_emits_on_block: "emits m bs \<Longrightarrow> frag_emits (on_block m) f bs () f"
  by (fastforce simp: frag_emits_def on_block_def emits_def)

lemma frag_emits_on_fragger: "frag_emits (k ()) (g f) bs x f' \<Longrightarrow> frag_emits (bind (on_fragger g) k) f bs x f'"
  by (simp add: frag_emits_def bind_def on_fragger_def)

lemma frag_emits_copy_sdu:
  assumes "bb_inv (bf_sdu f)" and "n \<le> length (unread (bf_sdu f))"
  shows "frag_emits (copy_sdu n) f (take n (unread (bf_sdu f))) () (f\<lparr>bf_sdu := (bf_sdu f)\<lparr>bb_pos := bb_pos (bf_sdu f) + n\<rparr>\<rparr>)"
  unfolding frag_emits_def
proof (intro allI impI)
  fix blk assume "bb_inv blk" and "room blk (length (take n (unread (bf_sdu f))))"
  then show "\<exists>blk'. copy_sdu n (f, blk) = Ok ((), (f\<lparr>bf_sdu := (bf_sdu f)\<lparr>bb_pos := bb_pos (bf_sdu f) + n\<rparr>\<rparr>, blk')) \<and>
      wrote blk (take n (unread (bf_sdu f))) blk'"
    using copy_bits_spec [of "bf_sdu f" n blk] assms by (auto simp: copy_sdu_def min_absorb2)
qed

lemma bind_gets: "bind (gets g) k s = k (g s) s"
  by (simp add: bind_def gets_def)

lemma bind_ok: "m s = Ok (x, s') \<Longrightarrow> bind m k s = k x s'"
  by (simp add: bind_def)

lemma bind_on_fragger: "bind (on_fragger g) k (f, blk) = k () (g f, blk)"
  by (simp add: bind_def on_fragger_def)

lemma write_fill_eq: "write_fill n = fillbits_write (Some n)"
  by (simp add: write_fill_def fillbits_write_def)

section \<open>One call\<close>

definition frag_abs :: "BsFragger \<Rightarrow> bool \<times> bool list" where
  "frag_abs f = (mac_hdr_is_written f, unread (bf_sdu f))"

definition frag_inv :: "BsFragger \<Rightarrow> bool" where
  "frag_inv f \<longleftrightarrow> frag_ready (bf_resource f) \<and> bb_inv (bf_sdu f) \<and> (mac_hdr_is_written f \<or> get_pos (bf_sdu f) = 0)"

text \<open>A block that the next call accepts.\<close>

definition block_ready :: "bitbuffer \<Rightarrow> bool" where
  "block_ready blk \<longleftrightarrow> bb_inv blk \<and> (get_len_written blk mod 8 = 0 \<or> get_len_remaining blk = 0)"

definition chunk_refines :: "bool frag \<Rightarrow> BsFragger \<Rightarrow> bitbuffer \<Rightarrow> bool" where
  "chunk_refines m f blk \<longleftrightarrow>
     (\<exists>fin f' blk' bits part. m (f, blk) = Ok (fin, (f', blk')) \<and>
        frag_step (bf_resource f) (get_len_remaining blk) (frag_abs f) bits part fin (frag_abs f') \<and>
        wrote blk bits blk' \<and> frag_inv f' \<and> (mac_hdr_is_written f' \<or> bf_resource f' = bf_resource f) \<and>
        bf_tx_reporter f' = bf_tx_reporter f \<and> is_fully_transmitted f' = is_fully_transmitted f)"

lemma room_remaining: "bb_inv blk \<Longrightarrow> n \<le> get_len_remaining blk \<Longrightarrow> room blk n"
  by (auto simp: room_def get_len_remaining_def bb_inv_def)

lemma wrote_remaining:
  assumes "bb_inv blk" and "wrote blk bs blk'" and "length bs \<le> get_len_remaining blk"
  shows "get_len_remaining blk' = get_len_remaining blk - length bs" and "get_len_written blk' = get_len_written blk + length bs"
  using assms wrote_end [OF assms(2,1)] by (auto simp: wrote_def get_len_remaining_def get_len_written_def bb_inv_def)

lemma wrote_refl: "bb_inv blk \<Longrightarrow> wrote blk [] blk"
  by (simp add: wrote_def)

text \<open>The fill at the start of a fragmentation finds the block full.\<close>

lemma fill_full_block: "get_len_remaining blk = 0 \<Longrightarrow> bind (on_block (fillbits_write None)) k (f, blk) = k () (f, blk)"
  by (simp add: bind_def on_block_def fillbits_write_def gets_def ret_def)

abbreviation sdu_advanced :: "nat \<Rightarrow> BsFragger \<Rightarrow> BsFragger" where
  "sdu_advanced n f \<equiv> f\<lparr>bf_sdu := (bf_sdu f)\<lparr>bb_pos := bb_pos (bf_sdu f) + n\<rparr>\<rparr>"

lemma sdu_advanced_inv:
  "bb_inv (bf_sdu f) \<Longrightarrow> n \<le> length (unread (bf_sdu f)) \<Longrightarrow> bb_inv ((bf_sdu f)\<lparr>bb_pos := bb_pos (bf_sdu f) + n\<rparr>)"
  using length_unread [of "bf_sdu f"] by (auto simp: get_len_remaining_def bb_inv_def)

lemma frag_abs_advanced:
  "frag_abs (sdu_advanced n f\<lparr>mac_hdr_is_written := True\<rparr>) = (True, drop n (unread (bf_sdu f)))"
  by (simp add: frag_abs_def)

lemma frag_inv_advanced:
  assumes "frag_ready (bf_resource f)" and "bb_inv (bf_sdu f)" and "n \<le> length (unread (bf_sdu f))"
  shows "frag_inv (sdu_advanced n f\<lparr>mac_hdr_is_written := True\<rparr>)"
  using assms(1) sdu_advanced_inv [OF assms(2,3)] by (simp add: frag_inv_def)

lemma chunk_refinesI:
  assumes "m (f, blk) = Ok (fin, (f', blk'))" and "wrote blk bits blk'" and "frag_inv f'"
    and "frag_step (bf_resource f) (get_len_remaining blk) (frag_abs f) bits part fin (frag_abs f')"
    and "mac_hdr_is_written f' \<or> bf_resource f' = bf_resource f" and "bf_tx_reporter f' = bf_tx_reporter f"
    and "is_fully_transmitted f' = is_fully_transmitted f"
  shows "chunk_refines m f blk"
  unfolding chunk_refines_def using assms by blast

text \<open>Header, SDU part and fill bits of a chunk.\<close>

lemma frag_emits_chunk:
  assumes "emits hdr hbits" and "bb_inv (bf_sdu f)" and "n \<le> length (unread (bf_sdu f))"
    and "frag_emits (rest ()) (sdu_advanced n f) [] fin f'"
  shows "frag_emits (bind (on_block hdr) (\<lambda>_. bind (copy_sdu n) (\<lambda>_. bind (on_block (fillbits_write (Some k))) rest))) f
     (hbits @ take n (unread (bf_sdu f)) @ fill_bits_of k) fin f'"
  by (intro frag_emits_bind [OF frag_emits_on_block [OF assms(1)]] frag_emits_bind [OF frag_emits_copy_sdu [OF assms(2,3)]]
      frag_emits_last [OF frag_emits_on_block [OF emits_fillbits_write]] assms(4))

lemma emits_end_chunk: "l < 64 \<Longrightarrow> emits (MacEndDl_to_bitbuf (end_chunk l b)) (MacEndDl_enc (end_chunk l b))"
  by (intro MacEndDl.emits) (simp add: MacEndDl_wf_def end_chunk_def fits_unat unat_of_nat)

lemma length_end_chunk [simp]: "length (MacEndDl_enc (end_chunk l b)) = 13"
  by (simp add: MacEndDl_enc_def end_chunk_def length_enc_flagged)

text \<open>\<open>get_resource_chunk\<close> with its reads of the state and its assertions discharged.\<close>

abbreviation whole_tail :: "MacResource \<Rightarrow> nat \<Rightarrow> nat \<Rightarrow> bool frag" where
  "whole_tail r m k \<equiv> bind (on_block (MacResource_to_bitbuf r)) (\<lambda>_. bind (copy_sdu m)
     (\<lambda>_. bind (on_block (fillbits_write (Some k))) (\<lambda>_. bind (on_fragger (mac_hdr_is_written_update (\<lambda>_. True))) (\<lambda>_. ret True))))"

abbreviation start_tail :: "MacResource \<Rightarrow> nat \<Rightarrow> bool frag" where
  "start_tail r m \<equiv> bind (bind (on_block (MacResource_to_bitbuf r)) (\<lambda>_. copy_sdu m))
     (\<lambda>_. bind (on_block (fillbits_write None)) (\<lambda>_. bind (on_fragger (mac_hdr_is_written_update (\<lambda>_. True))) (\<lambda>_. ret False)))"

lemma get_resource_chunk_run:
  fixes blk
  assumes "frag_inv f" "\<not> mac_hdr_is_written f"
  defines "r \<equiv> bf_resource f" and "len \<equiv> length (unread (bf_sdu f))"
  defines "h \<equiv> mr_hdr_len r"
  defines "k \<equiv> compute_required (h + len) (get_len_remaining blk)"
  shows "get_resource_chunk (f, blk) =
    (if h + len \<le> get_len_remaining blk then
       whole_tail (res_chunk r ((h + len + k) div 8) (0 < k)) len k (f\<lparr>bf_resource := res_chunk r ((h + len + k) div 8) (0 < k)\<rparr>, blk)
     else if get_len_remaining blk < 32 \<or> get_len_remaining blk < h then Ok (False, (f, blk))
     else start_tail (res_chunk r 63 False) (get_len_remaining blk - h) (f\<lparr>bf_resource := res_chunk r 63 False\<rparr>, blk))"
proof -
  from assms have inv: "frag_ready r" "bb_inv (bf_sdu f)" "get_pos (bf_sdu f) = 0" by (auto simp: frag_inv_def)
  then have start: "get_len_remaining (bf_sdu f) = len" "MacResource_compute_header_len r = Some h" "\<not> MacResource_is_null_pdu r"
    by (simp_all add: length_unread frag_ready_header_len frag_ready_def len_def h_def)
  have k: "k = 0" if "get_len_remaining blk < h + len" using that by (simp add: compute_required_overflow k_def)
  show ?thesis
    using start [unfolded r_def] inv assms(2) k compute_required [of "h + len" "get_len_remaining blk"]
    by (auto simp: get_resource_chunk_def bind_gets bind_on_fragger res_chunk_def bind_assoc
        MIN_SLOT_CAP_FOR_RES_FRAG_START_def Let_def k_def [symmetric] r_def ret_def [of False] not_less)
qed

lemma resource_whole:
  assumes inv: "frag_inv f" "\<not> mac_hdr_is_written f" and blk: "bb_inv blk" and cap: "get_len_remaining blk < 512"
    and fits: "mr_hdr_len (bf_resource f) + length (unread (bf_sdu f)) \<le> get_len_remaining blk"
  shows "chunk_refines get_resource_chunk f blk"
proof -
  let ?r = "bf_resource f" and ?c = "get_len_remaining blk" and ?sdu = "unread (bf_sdu f)"
  let ?n = "mr_hdr_len ?r + length ?sdu"
  let ?k = "compute_required ?n ?c"
  let ?l = "(?n + ?k) div 8"
  let ?f1 = "f\<lparr>bf_resource := res_chunk ?r ?l (0 < ?k)\<rparr>"
  let ?f' = "sdu_advanced (length ?sdu) ?f1\<lparr>mac_hdr_is_written := True\<rparr>"
  let ?bits = "MacResource_enc (res_chunk ?r ?l (0 < ?k)) @ ?sdu @ fill_bits_of ?k"
  from inv have r: "frag_ready ?r" "bb_inv (bf_sdu f)" by (auto simp: frag_inv_def)
  note k = compute_required [OF fits]
  have l: "0 < ?l" "?l < 64" using mr_hdr_len_ge [of ?r] k(2) cap by auto
  have "frag_emits (whole_tail (res_chunk ?r ?l (0 < ?k)) (length ?sdu) ?k) ?f1
      (MacResource_enc (res_chunk ?r ?l (0 < ?k)) @ take (length ?sdu) (unread (bf_sdu ?f1)) @ fill_bits_of ?k) True ?f'"
    using r(2) emits_MacResource [OF frag_ready_writable [OF r(1) l]]
    by (intro frag_emits_chunk frag_emits_on_fragger) (simp_all add: frag_emits_ret)
  then have "frag_emits (whole_tail (res_chunk ?r ?l (0 < ?k)) (length ?sdu) ?k) ?f1 ?bits True ?f'" by simp
  from frag_emitsE [OF this blk room_remaining [OF blk]] k(2) obtain blk'
    where go: "whole_tail (res_chunk ?r ?l (0 < ?k)) (length ?sdu) ?k (?f1, blk) = Ok (True, (?f', blk'))"
      and w: "wrote blk ?bits blk'" by auto
  have "get_resource_chunk (f, blk) = Ok (True, (?f', blk'))"
    using go get_resource_chunk_run [OF inv, of blk] fits by simp
  then show ?thesis using w
  proof (rule chunk_refinesI)
    show "frag_step ?r ?c (frag_abs f) ?bits ?sdu True (frag_abs ?f')"
      using fits fs_whole [of ?n ?r ?sdu ?c ?k] inv(2) by (simp add: frag_abs_def)
    show "frag_inv ?f'" using r by (intro frag_inv_advanced) simp_all
  qed simp_all
qed

lemma resource_start:
  assumes inv: "frag_inv f" "\<not> mac_hdr_is_written f" and blk: "bb_inv blk"
    and fits: "get_len_remaining blk < mr_hdr_len (bf_resource f) + length (unread (bf_sdu f))"
      "32 \<le> get_len_remaining blk" "mr_hdr_len (bf_resource f) \<le> get_len_remaining blk"
  shows "chunk_refines get_resource_chunk f blk"
proof -
  let ?r = "bf_resource f" and ?c = "get_len_remaining blk" and ?sdu = "unread (bf_sdu f)"
  let ?r' = "res_chunk ?r 63 False" and ?m = "?c - mr_hdr_len ?r"
  let ?f1 = "f\<lparr>bf_resource := ?r'\<rparr>"
  let ?f' = "sdu_advanced ?m ?f1\<lparr>mac_hdr_is_written := True\<rparr>"
  from inv have r: "frag_ready ?r" "bb_inv (bf_sdu f)" by (auto simp: frag_inv_def)
  have m: "?m \<le> length ?sdu" using fits by linarith
  have "frag_emits (bind (on_block (MacResource_to_bitbuf ?r')) (\<lambda>_. copy_sdu ?m)) ?f1
      (MacResource_enc ?r' @ take ?m (unread (bf_sdu ?f1))) () (sdu_advanced ?m ?f1)"
    using r m emits_MacResource [OF frag_ready_writable [OF r(1), of 63 False]]
    by (intro frag_emits_bind [OF frag_emits_on_block] frag_emits_copy_sdu) simp_all
  from frag_emitsE [OF this blk room_remaining [OF blk]] fits m obtain blk'
    where go: "bind (on_block (MacResource_to_bitbuf ?r')) (\<lambda>_. copy_sdu ?m) (?f1, blk) = Ok ((), (sdu_advanced ?m ?f1, blk'))"
      and w: "wrote blk (MacResource_enc ?r' @ take ?m ?sdu) blk'" by auto
  have "get_len_remaining blk' = 0" using wrote_remaining(1) [OF blk w] fits m by simp
  then have "start_tail ?r' ?m (?f1, blk) = Ok (False, (?f', blk'))"
    by (subst bind_def) (simp add: go fill_full_block, simp add: bind_on_fragger ret_def)
  then have "get_resource_chunk (f, blk) = Ok (False, (?f', blk'))"
    using get_resource_chunk_run [OF inv, of blk] fits by simp
  then show ?thesis using w
  proof (rule chunk_refinesI)
    show "frag_step ?r ?c (frag_abs f) (MacResource_enc ?r' @ take ?m ?sdu) (take ?m ?sdu) False (frag_abs ?f')"
      unfolding frag_abs_advanced using fs_start [OF fits refl] inv(2) by (simp add: frag_abs_def)
    show "frag_inv ?f'" using r m by (intro frag_inv_advanced) simp_all
  qed simp_all
qed

lemma get_resource_chunk_refines:
  assumes inv: "frag_inv f" "\<not> mac_hdr_is_written f" and blk: "bb_inv blk" and cap: "get_len_remaining blk < 512"
  shows "chunk_refines get_resource_chunk f blk"
proof -
  let ?r = "bf_resource f" and ?c = "get_len_remaining blk" and ?sdu = "unread (bf_sdu f)"
  consider (fits) "mr_hdr_len ?r + length ?sdu \<le> ?c"
    | (later) "?c < mr_hdr_len ?r + length ?sdu" "?c < 32 \<or> ?c < mr_hdr_len ?r"
    | (start) "?c < mr_hdr_len ?r + length ?sdu" "32 \<le> ?c" "mr_hdr_len ?r \<le> ?c" by linarith
  then show ?thesis
  proof cases
    case later
    then have "get_resource_chunk (f, blk) = Ok (False, (f, blk))" using get_resource_chunk_run [OF inv, of blk] by simp
    moreover have "frag_step ?r ?c (frag_abs f) [] [] False (frag_abs f)"
      using later inv(2) fs_defer [of ?c ?r ?sdu] by (simp add: frag_abs_def)
    ultimately show ?thesis using inv wrote_refl [OF blk] by (intro chunk_refinesI) auto
  qed (use resource_whole [OF inv blk cap] resource_start [OF inv blk] in auto)
qed

text \<open>The later chunks.\<close>

lemma frag_emits_chunk':
  assumes "emits hdr hbits" and "bb_inv (bf_sdu f)" and "n \<le> length (unread (bf_sdu f))"
  shows "frag_emits (bind (on_block hdr) (\<lambda>_. bind (copy_sdu n) (\<lambda>_. bind (on_block (write_fill k)) (\<lambda>_. ret fin)))) f
     (hbits @ take n (unread (bf_sdu f)) @ fill_bits_of k) fin (sdu_advanced n f)"
  unfolding write_fill_eq using assms by (intro frag_emits_chunk frag_emits_ret)

lemma chunk_advancedI:
  assumes inv: "frag_inv f" "mac_hdr_is_written f" and n: "n \<le> length (unread (bf_sdu f))" and blk: "bb_inv blk"
    and hdr: "emits hdr hbits" and room: "length hbits + n + k \<le> get_len_remaining blk"
    and run: "m (f, blk) = bind (on_block hdr) (\<lambda>_. bind (copy_sdu n) (\<lambda>_. bind (on_block (write_fill k)) (\<lambda>_. ret fin))) (f, blk)"
    and step: "frag_step (bf_resource f) (get_len_remaining blk) (True, unread (bf_sdu f))
       (hbits @ take n (unread (bf_sdu f)) @ fill_bits_of k) (take n (unread (bf_sdu f))) fin (True, drop n (unread (bf_sdu f)))"
  shows "chunk_refines m f blk"
proof -
  from inv have r: "frag_ready (bf_resource f)" "bb_inv (bf_sdu f)" by (auto simp: frag_inv_def)
  let ?bits = "hbits @ take n (unread (bf_sdu f)) @ fill_bits_of k"
  have "room blk (length ?bits)" using room n blk by (intro room_remaining) auto
  with frag_emits_chunk' [OF hdr r(2) n, of k fin] blk obtain blk'
    where "m (f, blk) = Ok (fin, (sdu_advanced n f, blk'))" and w: "wrote blk ?bits blk'"
    unfolding run by (elim frag_emitsE)
  then show ?thesis
  proof (rule chunk_refinesI)
    show "frag_inv (sdu_advanced n f)" using r inv(2) sdu_advanced_inv [OF r(2) n] by (simp add: frag_inv_def)
    show "frag_step (bf_resource f) (get_len_remaining blk) (frag_abs f) ?bits (take n (unread (bf_sdu f))) fin (frag_abs (sdu_advanced n f))"
      using step inv(2) by (simp add: frag_abs_def)
  qed simp_all
qed

lemma get_frag_or_end_chunk_refines:
  assumes inv: "frag_inv f" "mac_hdr_is_written f" and blk: "bb_inv blk" and cap: "get_len_remaining blk < 512"
  shows "chunk_refines get_frag_or_end_chunk f blk"
proof -
  let ?r = "bf_resource f" and ?c = "get_len_remaining blk" and ?sdu = "unread (bf_sdu f)"
  let ?l = "div_ceil8 (13 + length ?sdu)"
  have "bb_inv (bf_sdu f)" using inv by (simp add: frag_inv_def)
  then have len: "get_len_remaining (bf_sdu f) = length ?sdu" by (simp add: length_unread)
  note run = get_frag_or_end_chunk_def bind_gets MacEndDl_compute_hdr_len_def inv(2) len Let_def div_ceil8_def
    end_chunk_def MIN_SLOT_CAP_FOR_FRAG_def
  consider (last) "8 * ?l \<le> ?c" | (wait) "?c < 8 * ?l" "?c < 16" | (middle) "?c < 8 * ?l" "16 \<le> ?c" by linarith
  then show ?thesis
  proof cases
    case last
    let ?k = "compute_required (13 + length ?sdu) ?c"
    have le: "13 + length ?sdu \<le> ?c" using last by (simp add: div_ceil8_def)
    have l: "?l < 64" using last cap by simp
    show ?thesis
    proof (rule chunk_advancedI [OF inv order.refl blk emits_end_chunk [OF l]])
      show "length (MacEndDl_enc (end_chunk ?l (0 < ?k))) + length ?sdu + ?k \<le> ?c" using compute_required(2) [OF le] by simp
      show "frag_step ?r ?c (True, ?sdu) (MacEndDl_enc (end_chunk ?l (0 < ?k)) @ take (length ?sdu) ?sdu @ fill_bits_of ?k)
          (take (length ?sdu) ?sdu) True (True, drop (length ?sdu) ?sdu)"
        using fs_last [OF last refl, of ?r] by simp
    qed (use last in \<open>simp add: run mult.commute\<close>)
  next
    case wait
    have "get_frag_or_end_chunk (f, blk) = Ok (False, (f, blk))" using wait by (simp add: run ret_def mult.commute)
    moreover have "frag_step ?r ?c (frag_abs f) [] [] False (frag_abs f)"
      using fs_wait [OF wait, of ?r] inv(2) by (simp add: frag_abs_def)
    ultimately show ?thesis using inv wrote_refl [OF blk] by (intro chunk_refinesI) auto
  next
    case middle
    let ?m = "min (?c - 4) (length ?sdu)"
    let ?k = "?c - 4 - ?m"
    show ?thesis
    proof (rule chunk_advancedI [OF inv min.cobounded2 blk MacFragDl.emits [OF TrueI, of "\<lparr>MacFragDl_fill_bits = 0 < ?k\<rparr>"]])
      show "length (MacFragDl_enc \<lparr>MacFragDl_fill_bits = 0 < ?k\<rparr>) + ?m + ?k \<le> ?c" using middle by simp
      show "frag_step ?r ?c (True, ?sdu) (MacFragDl_enc \<lparr>MacFragDl_fill_bits = 0 < ?k\<rparr> @ take ?m ?sdu @ fill_bits_of ?k)
          (take ?m ?sdu) False (True, drop ?m ?sdu)"
        by (rule fs_middle [OF middle refl refl])
    qed (use middle in \<open>simp add: run mult.commute\<close>)
  qed
qed

lemma frag_step_length:
  "frag_step r cap s bits part fin s' \<Longrightarrow> length bits \<le> cap \<and> (length bits mod 8 = 0 \<or> length bits = cap)"
proof (induction rule: frag_step.induct)
  case (fs_whole n sdu k)
  then show ?case using compute_required [of n cap] by (simp add: add.assoc)
next
  case (fs_last sdu k)
  then have "13 + length sdu \<le> cap" by (simp add: div_ceil8_def)
  from compute_required [OF this] fs_last show ?case by (simp add: add.assoc)
qed auto

text \<open>The reporter of a PDU that is still being sent has not been marked.\<close>

definition reporter_pending :: "BsFragger \<Rightarrow> bool" where
  "reporter_pending f \<longleftrightarrow> pred_option (\<lambda>r. tx_state r = TxState_as_u8 Pending) (bf_tx_reporter f)"

definition reporter_done :: "BsFragger \<Rightarrow> bool" where
  "reporter_done f \<longleftrightarrow> pred_option (\<lambda>r. get_state r = Transmitted) (bf_tx_reporter f)"

definition frag_active :: "BsFragger \<Rightarrow> bool" where
  "frag_active f \<longleftrightarrow> frag_inv f \<and> \<not> is_fully_transmitted f \<and> reporter_pending f"

lemma report_transmitted_run:
  assumes "reporter_pending f"
  shows "\<exists>r. report_transmitted (f, blk) = Ok ((), (f\<lparr>bf_tx_reporter := r\<rparr>, blk)) \<and> pred_option (\<lambda>r. get_state r = Transmitted) r"
proof (cases "bf_tx_reporter f")
  case None
  then have "f = f\<lparr>bf_tx_reporter := None\<rparr>" by (cases f) simp
  with None show ?thesis by (intro exI [of _ None]) (simp add: report_transmitted_def)
next
  case (Some r)
  with assms show ?thesis
    by (intro exI [of _ "Some (r\<lparr>tx_state := TxState_as_u8 Transmitted\<rparr>)"])
       (simp add: reporter_pending_def report_transmitted_def mark_transmitted_def mark_def)
qed

lemma get_next_chunk_refines:
  assumes f: "frag_active f" and blk: "block_ready blk" "get_len_remaining blk < 512"
  shows "\<exists>fin f' blk' bits part. get_next_chunk (f, blk) = Ok (fin, (f', blk')) \<and>
    frag_step (bf_resource f) (get_len_remaining blk) (frag_abs f) bits part fin (frag_abs f') \<and>
    wrote blk bits blk' \<and> block_ready blk' \<and> (mac_hdr_is_written f' \<or> bf_resource f' = bf_resource f) \<and>
    (if fin then is_fully_transmitted f' \<and> reporter_done f' else frag_active f')"
proof -
  let ?m = "if \<not> mac_hdr_is_written f then get_resource_chunk else get_frag_or_end_chunk"
  have inv: "frag_inv f" "bb_inv blk" using f blk by (auto simp: frag_active_def block_ready_def)
  have "chunk_refines ?m f blk"
    using get_resource_chunk_refines [OF inv(1) _ inv(2)] get_frag_or_end_chunk_refines [OF inv(1) _ inv(2)] blk by simp
  then obtain fin g blk' bits part where m: "?m (f, blk) = Ok (fin, (g, blk'))" and w: "wrote blk bits blk'"
    and step: "frag_step (bf_resource f) (get_len_remaining blk) (frag_abs f) bits part fin (frag_abs g)"
    and g: "frag_inv g" "mac_hdr_is_written g \<or> bf_resource g = bf_resource f" "bf_tx_reporter g = bf_tx_reporter f"
      "is_fully_transmitted g = is_fully_transmitted f"
    by (auto simp: chunk_refines_def)
  note len = frag_step_length [OF step]
  have rdy: "block_ready blk'"
    using wrote_remaining [OF inv(2) w] len blk w by (auto simp: block_ready_def wrote_def mod_eq_0_iff_dvd)
  let ?g = "g\<lparr>is_fully_transmitted := fin\<rparr>"
  have pend: "reporter_pending ?g" using f g(3) by (simp add: frag_active_def reporter_pending_def)
  have run: "get_next_chunk (f, blk) = bind (if fin then report_transmitted else ret ()) (\<lambda>_. ret fin) (?g, blk')"
    using f blk(1) by (simp add: get_next_chunk_def bind_gets frag_active_def block_ready_def bind_ok [where m = ?m and s = "(f, blk)", OF m] bind_on_fragger del: if_not_P if_P split del: if_split)
  obtain f' where f': "get_next_chunk (f, blk) = Ok (fin, (f', blk'))" "frag_abs f' = frag_abs g"
    "mac_hdr_is_written f' \<or> bf_resource f' = bf_resource f" "if fin then is_fully_transmitted f' \<and> reporter_done f' else frag_active f'"
  proof (cases fin)
    case True
    from report_transmitted_run [OF pend, of blk'] obtain r
      where r: "report_transmitted (?g, blk') = Ok ((), (?g\<lparr>bf_tx_reporter := r\<rparr>, blk'))" "pred_option (\<lambda>r. get_state r = Transmitted) r" by blast
    then show ?thesis using True g(2) run by (intro that [of "?g\<lparr>bf_tx_reporter := r\<rparr>"])
      (simp_all add: bind_def ret_def frag_abs_def reporter_done_def)
  next
    case False
    then show ?thesis using g run pend by (intro that [of ?g])
      (simp_all add: ret_def frag_abs_def frag_active_def frag_inv_def)
  qed
  have "frag_step (bf_resource f) (get_len_remaining blk) (frag_abs f) bits part fin (frag_abs f')"
    using step f'(2) by simp
  with f'(1,3,4) w rdy show ?thesis by blast
qed

section \<open>A whole transmission\<close>

text \<open>The calls on successive blocks, until the fragmenter reports that it is done.\<close>

fun send_blocks :: "BsFragger \<Rightarrow> bitbuffer list \<Rightarrow> (pdu_parse_err, bool \<times> BsFragger \<times> bitbuffer list) outcome" where
  "send_blocks f [] = Ok (False, f, [])"
| "send_blocks f (blk # blks) =
     (case get_next_chunk (f, blk) of
        Ok (fin, (f, blk)) \<Rightarrow>
          if fin then Ok (True, f, [blk])
          else (case send_blocks f blks of Ok (fin, f, out) \<Rightarrow> Ok (fin, f, blk # out) | Err e \<Rightarrow> Err e | Panic \<Rightarrow> Panic)
      | Err e \<Rightarrow> Err e
      | Panic \<Rightarrow> Panic)"

inductive frag_run :: "MacResource \<Rightarrow> nat list \<Rightarrow> bool \<times> bool list \<Rightarrow> (bool list \<times> bool list) list \<Rightarrow> bool \<Rightarrow> bool \<times> bool list \<Rightarrow> bool"
  for r where
  fr_out_of_blocks: "frag_run r [] s [] False s"
| fr_done: "frag_step r c s bits part True s' \<Longrightarrow> frag_run r (c # cs) s [(bits, part)] True s'"
| fr_more: "frag_step r c s bits part False s' \<Longrightarrow> frag_run r cs s' outs fin s'' \<Longrightarrow> frag_run r (c # cs) s ((bits, part) # outs) fin s''"

lemma frag_run_parts: "frag_run r cs s outs fin s' \<Longrightarrow> snd s = concat (map snd outs) @ snd s' \<and> (fin \<longrightarrow> snd s' = [])"
  by (induction rule: frag_run.induct) (auto dest!: frag_step_parts)

text \<open>Once the header is out the resource does not matter any more.\<close>

lemma frag_step_written: "frag_step r c s bits part fin s' \<Longrightarrow> fst s \<Longrightarrow> frag_step r' c s bits part fin s' \<and> fst s'"
proof (induction rule: frag_step.induct)
  case (fs_middle sdu m k)
  then show ?case by (simp only: frag_step.fs_middle fst_conv)
qed (auto intro: frag_step.intros)

lemma frag_run_written: "frag_run r cs s outs fin s' \<Longrightarrow> fst s \<Longrightarrow> frag_run r' cs s outs fin s'"
  by (induction rule: frag_run.induct) (auto intro: frag_run.intros dest: frag_step_written)

lemma send_blocks_refines:
  assumes "frag_active f" and "\<And>blk. blk \<in> set blks \<Longrightarrow> block_ready blk \<and> get_len_remaining blk < 512"
  shows "\<exists>fin g out outs. send_blocks f blks = Ok (fin, g, out) \<and>
    frag_run (bf_resource f) (map get_len_remaining blks) (frag_abs f) outs fin (frag_abs g) \<and>
    list_all2 (\<lambda>(blk, blk') (bits, part). wrote blk bits blk') (zip blks out) outs \<and> length out = length outs \<and>
    (if fin then is_fully_transmitted g \<and> reporter_done g else frag_active g)"
  using assms
proof (induction blks arbitrary: f)
  case Nil
  then show ?case by (intro exI [of _ False] exI [of _ f] exI [of _ "[]"]) (auto intro: fr_out_of_blocks)
next
  case (Cons blk blks)
  from get_next_chunk_refines [OF Cons.prems(1), of blk] Cons.prems(2) [of blk]
  obtain fin f' blk' bits part where n: "get_next_chunk (f, blk) = Ok (fin, (f', blk'))" "wrote blk bits blk'"
    and step: "frag_step (bf_resource f) (get_len_remaining blk) (frag_abs f) bits part fin (frag_abs f')"
    and f': "mac_hdr_is_written f' \<or> bf_resource f' = bf_resource f"
      "if fin then is_fully_transmitted f' \<and> reporter_done f' else frag_active f'"
    by auto
  show ?case
  proof (cases fin)
    case True
    with n f' fr_done [of "bf_resource f"] step show ?thesis
      by (intro exI [of _ True] exI [of _ f'] exI [of _ "[blk']"] exI [of _ "[(bits, part)]"]) auto
  next
    case False
    with f' Cons.IH [of f'] Cons.prems(2) obtain fin2 g out outs where ih: "send_blocks f' blks = Ok (fin2, g, out)"
      "frag_run (bf_resource f') (map get_len_remaining blks) (frag_abs f') outs fin2 (frag_abs g)"
      "list_all2 (\<lambda>(blk, blk') (bits, part). wrote blk bits blk') (zip blks out) outs" "length out = length outs"
      "if fin2 then is_fully_transmitted g \<and> reporter_done g else frag_active g" by auto
    have "frag_run (bf_resource f) (map get_len_remaining blks) (frag_abs f') outs fin2 (frag_abs g)"
      using ih(2) f'(1) frag_run_written [OF ih(2)] by (auto simp: frag_abs_def)
    then have "frag_run (bf_resource f) (map get_len_remaining (blk # blks)) (frag_abs f) ((bits, part) # outs) fin2 (frag_abs g)"
      using step False by (auto intro: fr_more)
    with ih n False show ?thesis
      by (intro exI [of _ fin2] exI [of _ g] exI [of _ "blk' # out"] exI [of _ "(bits, part) # outs"]) simp
  qed
qed

text \<open>How many blocks a transmission needs when every block has room for the header and at least 32 bits.\<close>

definition blocks_needed :: "bool \<times> bool list \<Rightarrow> nat" where
  "blocks_needed s = (if fst s then 1 else 2) + (length (snd s) + 27) div 28"

lemma div28_drop:
  fixes n c :: nat
  assumes "28 \<le> c" and "0 < n"
  shows "(n - min c n + 27) div 28 < (n + 27) div 28"
proof (cases "n \<le> c")
  case False
  then have "n - min c n + 27 \<le> n + 27 - 28" using assms by auto
  then have "(n - min c n + 27) div 28 \<le> (n + 27 - 28) div 28" by (rule div_le_mono)
  moreover have "(n + 27 - 28) div 28 < (n + 27) div 28" using assms by (auto simp: div_if [of "n + 27"])
  ultimately show ?thesis by simp
qed (use assms in simp)

lemma frag_step_progress:
  "frag_step r c s bits part fin s' \<Longrightarrow> 32 \<le> c \<Longrightarrow> mr_hdr_len r \<le> c \<Longrightarrow> \<not> fin \<Longrightarrow> blocks_needed s' < blocks_needed s"
proof (induction rule: frag_step.induct)
  case (fs_start sdu m)
  then have "(length sdu - m + 27) div 28 \<le> (length sdu + 27) div 28" by (intro div_le_mono) simp
  then show ?case by (simp add: blocks_needed_def)
next
  case (fs_middle sdu m k)
  then have "0 < length sdu" by (cases sdu) (simp_all add: div_ceil8_def)
  with div28_drop [of "c - 4" "length sdu"] fs_middle show ?case by (simp add: blocks_needed_def)
qed auto

lemma frag_run_finishes:
  assumes "frag_run r cs s outs fin s'" and "\<And>c. c \<in> set cs \<Longrightarrow> 32 \<le> c \<and> mr_hdr_len r \<le> c" and "blocks_needed s \<le> length cs"
  shows "fin"
  using assms
proof (induction rule: frag_run.induct)
  case (fr_out_of_blocks s)
  then show ?case by (simp add: blocks_needed_def split: if_splits)
next
  case (fr_more c s bits part s' cs outs fin s'')
  then have "blocks_needed s' < blocks_needed s" using frag_step_progress [OF fr_more.hyps(1)] by simp
  with fr_more show ?case by simp
qed simp

text \<open>
  The shape of what is on the air: nothing, or a header, a part of the SDU and fill bits, where the header announces
  whether there are fill bits.
\<close>

definition chunk_format :: "MacResource \<Rightarrow> bool list \<Rightarrow> bool list \<Rightarrow> bool" where
  "chunk_format r bits part \<longleftrightarrow> bits = [] \<and> part = [] \<or>
     (\<exists>hdr k. bits = hdr @ part @ fill_bits_of k \<and>
        ((\<exists>l. hdr = MacResource_enc (res_chunk r l (0 < k))) \<or> hdr = MacFragDl_enc \<lparr>MacFragDl_fill_bits = 0 < k\<rparr> \<or>
         (\<exists>l. hdr = MacEndDl_enc (end_chunk l (0 < k)))))"

lemma chunk_format_intros:
  "chunk_format r [] []"
  "chunk_format r (MacResource_enc (res_chunk r l (0 < k)) @ part @ fill_bits_of k) part"
  "chunk_format r (MacFragDl_enc \<lparr>MacFragDl_fill_bits = 0 < k\<rparr> @ part @ fill_bits_of k) part"
  "chunk_format r (MacEndDl_enc (end_chunk l (0 < k)) @ part @ fill_bits_of k) part"
  unfolding chunk_format_def by blast+

lemma frag_step_format: "frag_step r c s bits part fin s' \<Longrightarrow> chunk_format r bits part"
proof (induction rule: frag_step.induct)
  case (fs_start sdu m)
  show ?case using chunk_format_intros(2) [of r 63 0 "take m sdu"] by (simp add: fill_bits_of_def)
qed (simp_all only: chunk_format_intros)

lemma frag_run_format: "frag_run r cs s outs fin s' \<Longrightarrow> (bits, part) \<in> set outs \<Longrightarrow> chunk_format r bits part"
  by (induction rule: frag_run.induct) (auto dest: frag_step_format)

text \<open>
  A MAC-RESOURCE that reaches the end of a slot whose capacity is not a whole number of octets announces its length
  rounded down, so that the announced length ends inside the PDU; \<open>update_len_and_fill_ind\<close> rounds up.
\<close>

lemma whole_length_rounded_down:
  assumes "n \<le> cap" and "8 * (cap div 8) < n"
  shows "8 * ((n + compute_required n cap) div 8) < n" and "n \<le> 8 * div_ceil8 n"
proof -
  have "8 * ((n + compute_required n cap) div 8) \<le> 8 * (cap div 8)"
    using compute_required(2) [OF assms(1)] by (simp add: div_le_mono)
  then show "8 * ((n + compute_required n cap) div 8) < n" using assms(2) by linarith
  show "n \<le> 8 * div_ceil8 n" by (simp add: div_ceil8_def)
qed

text \<open>Dropping an unfinished fragmenter leaves no reporter pending.\<close>

lemma drop_reports:
  assumes "pred_option tx_valid (bf_tx_reporter f)"
  shows "\<exists>g. BsFragger_drop f = Ok g \<and> (is_fully_transmitted f \<or> pred_option (\<lambda>r. get_state r \<noteq> Pending) (bf_tx_reporter g))"
proof (cases "bf_tx_reporter f")
  case (Some r)
  with assms have "get_state r = Pending \<Longrightarrow> tx_state r = TxState_as_u8 Pending"
    by (auto simp: tx_valid_def get_state_def)
  with Some show ?thesis by (auto simp: BsFragger_drop_def mark_discarded_def mark_def)
qed (simp add: BsFragger_drop_def)

end
