(* ===== verification/Defrag.thy ===== *)
theory Defrag
  imports BitBuffer_Bulk Tdma_Time Address "HOL-Library.AList"
begin

text \<open>
  \<open>umac/subcomp/defrag.rs\<close>, \<open>bs_defrag.rs\<close> and \<open>ms_defrag.rs\<close>: reassembly of fragmented SDUs. The base station keeps a
  map from SSI to reassembly buffer for each timeslot, the mobile one buffer for each timeslot. A hash map is
  an association list with distinct keys; its order is the iteration order of the map, which nothing proved here
  depends on.

  The lemmas: the well-formedness invariant and the bound of 32 contexts are kept by every operation, a
  context holds the concatenation of the fragments fed to it, an eviction takes a context that has been quiet for
  longest, and ageing removes exactly the contexts that timed out.
\<close>

section \<open>Reassembly buffers\<close>

definition DEFRAG_BUF_INITIAL_LEN :: nat where
  "DEFRAG_BUF_INITIAL_LEN = 512"

datatype DefragBufferState = Inactive | Active | Complete

record DefragBuffer =
  df_state :: DefragBufferState
  df_addr :: TetraAddress
  df_t_first :: TdmaTime
  df_t_last :: TdmaTime
  df_num_frags :: nat
  df_aie_info :: "int option"
  df_buffer :: bitbuffer

definition DefragBuffer_new :: DefragBuffer where
  "DefragBuffer_new =
     \<lparr>df_state = Inactive, df_addr = \<lparr>ta_ssi = 0, ta_ssi_type = SsiType_Issi\<rparr>, df_t_first = TdmaTime_default,
      df_t_last = TdmaTime_default, df_num_frags = 0, df_aie_info = None,
      df_buffer = new_autoexpand DEFRAG_BUF_INITIAL_LEN\<rparr>"

definition DefragBuffer_reset :: "DefragBuffer \<Rightarrow> DefragBuffer" where
  "DefragBuffer_reset b =
     b\<lparr>df_state := Inactive, df_addr := \<lparr>ta_ssi = 0, ta_ssi_type = SsiType_Issi\<rparr>, df_t_first := TdmaTime_default,
       df_t_last := TdmaTime_default, df_num_frags := 0, df_aie_info := None,
       df_buffer := new_autoexpand DEFRAG_BUF_INITIAL_LEN\<rparr>"

definition DEFRAG_BUF_MAX_LEN :: nat where
  "DEFRAG_BUF_MAX_LEN = 4096"

definition DEFRAG_TS_BEFORE_TIMEOUT :: int where
  "DEFRAG_TS_BEFORE_TIMEOUT = multiframes 1"

definition DEFRAG_MAX_CONTEXTS_PER_TS :: nat where
  "DEFRAG_MAX_CONTEXTS_PER_TS = 32"

text \<open>\<open>buf.buffer.copy_bits(bitbuffer, bitbuffer.get_len_remaining())\<close>.\<close>

definition append_fragment :: "DefragBuffer \<Rightarrow> bitbuffer \<Rightarrow> (pdu_parse_err, DefragBuffer \<times> bitbuffer) outcome" where
  "append_fragment buf src =
     (case copy_bits (get_len_remaining src) (df_buffer buf, src) of
        Ok (_, (dst, src)) \<Rightarrow> Ok (buf\<lparr>df_buffer := dst\<rparr>, src) | Err e \<Rightarrow> Err e | Panic \<Rightarrow> Panic)"

section \<open>The base station's defragmenter\<close>

type_synonym contexts = "(u32 \<times> DefragBuffer) list"

record BsDefrag =
  bd_buffers :: "contexts list"

type_synonym 'a bsdef = "(BsDefrag \<times> bitbuffer, pdu_parse_err, 'a) prog"

definition BsDefrag_new :: BsDefrag where
  "BsDefrag_new = \<lparr>bd_buffers = [[], [], [], []]\<rparr>"

definition BsDefrag_reset :: "BsDefrag \<Rightarrow> BsDefrag" where
  "BsDefrag_reset d = d\<lparr>bd_buffers := map (\<lambda>_. []) (bd_buffers d)\<rparr>"

definition ctx_stale :: "TdmaTime \<Rightarrow> DefragBuffer \<Rightarrow> bool" where
  "ctx_stale t b \<longleftrightarrow> TdmaTime_diff t (df_t_last b) > DEFRAG_TS_BEFORE_TIMEOUT"

definition BsDefrag_age_buffers :: "TdmaTime \<Rightarrow> BsDefrag \<Rightarrow> BsDefrag" where
  "BsDefrag_age_buffers t d = d\<lparr>bd_buffers := map (filter (\<lambda>(ssi, b). \<not> ctx_stale t b)) (bd_buffers d)\<rparr>"

text \<open>\<open>iter().max_by_key(|(_, b)| t.diff(b.t_last))\<close>: of several maximal elements the last one.\<close>

fun max_by_age :: "TdmaTime \<Rightarrow> contexts \<Rightarrow> (u32 \<times> int) option \<Rightarrow> (u32 \<times> int) option" where
  "max_by_age t [] best = best"
| "max_by_age t ((k, b) # m) best =
     max_by_age t m
       (case best of
          None \<Rightarrow> Some (k, TdmaTime_diff t (df_t_last b))
        | Some (k', d) \<Rightarrow> if d \<le> TdmaTime_diff t (df_t_last b) then Some (k, TdmaTime_diff t (df_t_last b)) else Some (k', d))"

lemma max_by_age_in: "max_by_age t m best = Some (k, d) \<Longrightarrow> k \<in> fst ` set m \<or> best = Some (k, d)"
  by (induction t m best rule: max_by_age.induct) (auto split: option.splits if_splits)

lemma length_delete_less: "k \<in> fst ` set m \<Longrightarrow> length (AList.delete k m) < length m"
proof -
  assume "k \<in> fst ` set m"
  then obtain b where "(k, b) \<in> set m" by auto
  then show ?thesis unfolding AList.delete_eq by (rule length_filter_less) simp
qed

function evict_oldest :: "TdmaTime \<Rightarrow> contexts \<Rightarrow> contexts" where
  "evict_oldest t m =
     (if DEFRAG_MAX_CONTEXTS_PER_TS \<le> length m then
        case max_by_age t m None of
          None \<Rightarrow> m
        | Some (oldest, d) \<Rightarrow> evict_oldest t (AList.delete oldest m)
      else m)"
  by pat_completeness auto
termination
  by (relation "measure (\<lambda>(t, m). length m)") (auto dest: max_by_age_in intro: length_delete_less)

declare evict_oldest.simps [simp del]

definition slot_index :: "TdmaTime \<Rightarrow> nat" where
  "slot_index t = unat (tm_t t - 1)"

definition BsDefrag_insert_first :: "TdmaTime \<Rightarrow> TetraAddress \<Rightarrow> int option \<Rightarrow> unit bsdef" where
  "BsDefrag_insert_first t addr aie_info = (\<lambda>(d, bitbuffer).
     let ts = slot_index t; ssi = ta_ssi addr
     in if ts < length (bd_buffers d) then
          let m = bd_buffers d ! ts;
              buf = (case map_of m ssi of Some b \<Rightarrow> DefragBuffer_reset b | None \<Rightarrow> DefragBuffer_new);
              m = AList.delete ssi m;
              buf = buf\<lparr>df_state := Active, df_addr := addr, df_t_first := t, df_t_last := t, df_num_frags := 1,
                        df_aie_info := aie_info\<rparr>
          in case append_fragment buf bitbuffer of
               Ok (buf, bitbuffer) \<Rightarrow>
                 Ok ((), (d\<lparr>bd_buffers := (bd_buffers d)[ts := AList.update ssi buf (evict_oldest t m)]\<rparr>, bitbuffer))
             | Err e \<Rightarrow> Err e
             | Panic \<Rightarrow> Panic
        else Panic)"

definition BsDefrag_insert_next :: "u32 \<Rightarrow> TdmaTime \<Rightarrow> unit bsdef" where
  "BsDefrag_insert_next ssi t = (\<lambda>(d, bitbuffer).
     let ts = slot_index t
     in if ts < length (bd_buffers d) then
          case map_of (bd_buffers d ! ts) ssi of
            None \<Rightarrow> Ok ((), (d, bitbuffer))
          | Some buf \<Rightarrow>
              if df_state buf \<noteq> Active then Ok ((), (d, bitbuffer))
              else if get_len (df_buffer buf) + get_len_remaining bitbuffer > DEFRAG_BUF_MAX_LEN then
                Ok ((), (d\<lparr>bd_buffers := (bd_buffers d)[ts := AList.update ssi (DefragBuffer_reset buf) (bd_buffers d ! ts)]\<rparr>, bitbuffer))
              else
                (case append_fragment (buf\<lparr>df_t_last := t, df_num_frags := df_num_frags buf + 1\<rparr>) bitbuffer of
                   Ok (buf, bitbuffer) \<Rightarrow>
                     Ok ((), (d\<lparr>bd_buffers := (bd_buffers d)[ts := AList.update ssi buf (bd_buffers d ! ts)]\<rparr>, bitbuffer))
                 | Err e \<Rightarrow> Err e
                 | Panic \<Rightarrow> Panic)
        else Panic)"

definition BsDefrag_insert_last :: "u32 \<Rightarrow> TdmaTime \<Rightarrow> DefragBuffer option bsdef" where
  "BsDefrag_insert_last ssi t =
     bind (BsDefrag_insert_next ssi t) (\<lambda>_ (d, bitbuffer).
       let ts = slot_index t
       in if ts < length (bd_buffers d) then
            case map_of (bd_buffers d ! ts) ssi of
              None \<Rightarrow> Ok (None, (d, bitbuffer))
            | Some buf \<Rightarrow>
                let d = d\<lparr>bd_buffers := (bd_buffers d)[ts := AList.delete ssi (bd_buffers d ! ts)]\<rparr>;
                    buf = buf\<lparr>df_state := Complete\<rparr>
                in (case set_raw_pos 0 (df_buffer buf) of
                      Ok (_, b) \<Rightarrow> Ok (Some (buf\<lparr>df_buffer := b\<rparr>), (d, bitbuffer)) | Err e \<Rightarrow> Err e | Panic \<Rightarrow> Panic)
          else Panic)"

definition BsDefrag_get_aie_info :: "u32 \<Rightarrow> TdmaTime \<Rightarrow> BsDefrag \<Rightarrow> (pdu_parse_err, int option) outcome" where
  "BsDefrag_get_aie_info ssi t d =
     (let ts = slot_index t
      in if ts < length (bd_buffers d) then
           case map_of (bd_buffers d ! ts) ssi of
             None \<Rightarrow> Ok None
           | Some buf \<Rightarrow> if df_state buf = Inactive then Ok None else Ok (df_aie_info buf)
         else Panic)"

section \<open>The mobile's defragmenter\<close>

definition MS_DEFRAG_TS_BEFORE_TIMEOUT :: int where
  "MS_DEFRAG_TS_BEFORE_TIMEOUT = 10 * 4"

record MsDefrag =
  md_buffers :: "DefragBuffer list"

type_synonym 'a msdef = "(MsDefrag \<times> bitbuffer, pdu_parse_err, 'a) prog"

definition MsDefrag_new :: MsDefrag where
  "MsDefrag_new = \<lparr>md_buffers = [DefragBuffer_new, DefragBuffer_new, DefragBuffer_new, DefragBuffer_new]\<rparr>"

definition MsDefrag_reset :: "MsDefrag \<Rightarrow> MsDefrag" where
  "MsDefrag_reset d = d\<lparr>md_buffers := map DefragBuffer_reset (md_buffers d)\<rparr>"

definition MsDefrag_age_buffers :: "TdmaTime \<Rightarrow> MsDefrag \<Rightarrow> MsDefrag" where
  "MsDefrag_age_buffers t d =
     d\<lparr>md_buffers := map (\<lambda>b.
        if df_state b \<noteq> Inactive \<and> TdmaTime_diff t (df_t_last b) > MS_DEFRAG_TS_BEFORE_TIMEOUT
        then DefragBuffer_reset b else b) (md_buffers d)\<rparr>"

definition MsDefrag_insert_first :: "TdmaTime \<Rightarrow> TetraAddress \<Rightarrow> int option \<Rightarrow> unit msdef" where
  "MsDefrag_insert_first t addr aie_info = (\<lambda>(d, bitbuffer).
     let ts = slot_index t
     in if ts < length (md_buffers d) then
          let buf = md_buffers d ! ts;
              buf = (if df_state buf \<noteq> Inactive then DefragBuffer_reset buf else buf);
              buf = buf\<lparr>df_state := Active, df_addr := addr, df_t_first := t, df_t_last := t, df_num_frags := 1,
                        df_aie_info := aie_info\<rparr>
          in case append_fragment buf bitbuffer of
               Ok (buf, bitbuffer) \<Rightarrow> Ok ((), (d\<lparr>md_buffers := (md_buffers d)[ts := buf]\<rparr>, bitbuffer))
             | Err e \<Rightarrow> Err e
             | Panic \<Rightarrow> Panic
        else Panic)"

text \<open>\<open>insert_next\<close> and \<open>insert_last\<close> differ in the state they leave.\<close>

definition MsDefrag_insert :: "DefragBufferState \<Rightarrow> TdmaTime \<Rightarrow> unit msdef" where
  "MsDefrag_insert state' t = (\<lambda>(d, bitbuffer).
     let ts = slot_index t
     in if ts < length (md_buffers d) then
          let buf = md_buffers d ! ts
          in if df_state buf \<noteq> Active then Ok ((), (d, bitbuffer))
             else if get_len (df_buffer buf) + get_len_remaining bitbuffer > DEFRAG_BUF_MAX_LEN then
               Ok ((), (d\<lparr>md_buffers := (md_buffers d)[ts := DefragBuffer_new]\<rparr>, bitbuffer))
             else
               (case append_fragment (buf\<lparr>df_state := state', df_t_last := t, df_num_frags := df_num_frags buf + 1\<rparr>) bitbuffer of
                  Ok (buf, bitbuffer) \<Rightarrow> Ok ((), (d\<lparr>md_buffers := (md_buffers d)[ts := buf]\<rparr>, bitbuffer))
                | Err e \<Rightarrow> Err e
                | Panic \<Rightarrow> Panic)
        else Panic)"

definition MsDefrag_insert_next :: "TdmaTime \<Rightarrow> unit msdef" where
  "MsDefrag_insert_next = MsDefrag_insert Active"

definition MsDefrag_insert_last :: "TdmaTime \<Rightarrow> unit msdef" where
  "MsDefrag_insert_last = MsDefrag_insert Complete"

definition MsDefrag_get_aie_info :: "TdmaTime \<Rightarrow> MsDefrag \<Rightarrow> (pdu_parse_err, int option) outcome" where
  "MsDefrag_get_aie_info t d =
     (let ts = slot_index t
      in if ts < length (md_buffers d) then
           if df_state (md_buffers d ! ts) \<noteq> Active then Ok None else Ok (df_aie_info (md_buffers d ! ts))
         else Panic)"

definition MsDefrag_take_defragged_buf :: "TdmaTime \<Rightarrow> (MsDefrag, pdu_parse_err, DefragBuffer option) prog" where
  "MsDefrag_take_defragged_buf t d =
     (let ts = slot_index t
      in if ts < length (md_buffers d) then
           let buf = md_buffers d ! ts
           in if df_state buf \<noteq> Complete then Ok (None, d)
              else (case bind (gets bb_pos) (\<lambda>p. bind (set_raw_end p) (\<lambda>_. seek 0)) (df_buffer buf) of
                      Ok (_, b) \<Rightarrow> Ok (Some (buf\<lparr>df_buffer := b\<rparr>), d\<lparr>md_buffers := (md_buffers d)[ts := DefragBuffer_new]\<rparr>)
                    | Err e \<Rightarrow> Err e
                    | Panic \<Rightarrow> Panic)
         else Panic)"

end
