(* ===== verification/Defrag_Spec.thy ===== *)
theory Defrag_Spec
  imports Defrag
begin

text \<open>Correctness of the two defragmenters.\<close>

section \<open>One reassembly buffer\<close>

definition ctx_ok :: "DefragBuffer \<Rightarrow> bool" where
  "ctx_ok b \<longleftrightarrow> bb_inv (df_buffer b) \<and> bb_start (df_buffer b) = 0 \<and> bb_autoexpand (df_buffer b) \<and>
     bb_pos (df_buffer b) = bb_end (df_buffer b)"

definition ctx_bits :: "DefragBuffer \<Rightarrow> bool list" where
  "ctx_bits b = content (df_buffer b)"

lemma ctx_ok_fresh [simp]: "df_buffer b = new_autoexpand n \<Longrightarrow> ctx_ok b" "df_buffer b = new_autoexpand n \<Longrightarrow> ctx_bits b = []"
  by (auto simp: ctx_ok_def ctx_bits_def) (simp_all add: new_autoexpand_def)

lemma df_buffer_fresh [simp]:
  "df_buffer DefragBuffer_new = new_autoexpand DEFRAG_BUF_INITIAL_LEN"
  "df_buffer (DefragBuffer_reset b) = new_autoexpand DEFRAG_BUF_INITIAL_LEN"
  by (simp_all add: DefragBuffer_new_def DefragBuffer_reset_def)

lemma ctx_ok_cong: "df_buffer b = df_buffer c \<Longrightarrow> ctx_ok b = ctx_ok c" "df_buffer b = df_buffer c \<Longrightarrow> ctx_bits b = ctx_bits c"
  by (simp_all add: ctx_ok_def ctx_bits_def)

lemma ctx_len: "ctx_ok b \<Longrightarrow> get_len (df_buffer b) = length (ctx_bits b)"
  by (simp add: ctx_ok_def ctx_bits_def get_len_def)

lemma overwrite_end: "overwrite xs (length xs) ys = xs @ ys"
  by (simp add: overwrite_def)

definition consumed :: "bitbuffer \<Rightarrow> bitbuffer" where
  "consumed b = b\<lparr>bb_pos := bb_end b\<rparr>"

lemma append_fragment_spec:
  assumes "ctx_ok b" and "bb_inv src" and "length (ctx_bits b) + length (unread src) < 2 ^ 64"
  shows "\<exists>dst. append_fragment b src = Ok (b\<lparr>df_buffer := dst\<rparr>, consumed src) \<and> ctx_ok (b\<lparr>df_buffer := dst\<rparr>) \<and>
     ctx_bits (b\<lparr>df_buffer := dst\<rparr>) = ctx_bits b @ unread src"
proof -
  let ?n = "length (unread src)"
  have n: "get_len_remaining src = ?n" using assms(2) by (simp add: length_unread)
  have e: "bb_pos (df_buffer b) = length (ctx_bits b)" "bb_end (df_buffer b) = length (ctx_bits b)"
    using assms(1) by (simp_all add: ctx_ok_def ctx_bits_def)
  have "room (df_buffer b) ?n" using assms e by (simp add: room_def ctx_ok_def)
  then obtain dst where dst: "copy_bits ?n (df_buffer b, src) = Ok ((), (dst, src\<lparr>bb_pos := bb_pos src + ?n\<rparr>))"
    "wrote (df_buffer b) (unread src) dst"
    using copy_bits_spec [of src ?n "df_buffer b"] assms(1,2) by (auto simp: ctx_ok_def)
  have c: "content dst = ctx_bits b @ unread src"
    using dst(2) e(1) overwrite_end by (simp add: wrote_def ctx_bits_def)
  have "bb_end dst = bb_pos dst" using wrote_end [OF dst(2)] dst(2) assms(1) by (simp add: ctx_ok_def wrote_def)
  moreover have "src\<lparr>bb_pos := bb_pos src + ?n\<rparr> = consumed src"
    using assms(2) n by (auto simp: consumed_def get_len_remaining_def bb_inv_def)
  ultimately show ?thesis using dst c assms(1) n
    by (intro exI [of _ dst]) (simp add: append_fragment_def ctx_ok_def ctx_bits_def wrote_def)
qed

section \<open>Eviction\<close>

lemma max_by_age_max:
  assumes "max_by_age t m best = Some (k, d)"
  shows "(\<exists>b. (k, b) \<in> set m \<and> d = TdmaTime_diff t (df_t_last b)) \<or> best = Some (k, d)"
    and "\<And>k' d'. best = Some (k', d') \<Longrightarrow> d' \<le> d"
    and "\<And>k' b'. (k', b') \<in> set m \<Longrightarrow> TdmaTime_diff t (df_t_last b') \<le> d"
proof -
  have "((\<exists>b. (k, b) \<in> set m \<and> d = TdmaTime_diff t (df_t_last b)) \<or> best = Some (k, d)) \<and>
     (\<forall>k' d'. best = Some (k', d') \<longrightarrow> d' \<le> d) \<and> (\<forall>(k', b') \<in> set m. TdmaTime_diff t (df_t_last b') \<le> d)"
    using assms
  proof (induction t m best rule: max_by_age.induct)
    case (2 t k1 b1 m best)
    show ?case
    proof (cases best)
      case None
      then show ?thesis using "2.IH" "2.prems" by fastforce
    next
      case (Some q)
      obtain k0 d0 where q: "q = (k0, d0)" by (cases q)
      show ?thesis using "2.IH" "2.prems" Some q by (cases "d0 \<le> TdmaTime_diff t (df_t_last b1)") fastforce+
    qed
  qed simp
  then show "(\<exists>b. (k, b) \<in> set m \<and> d = TdmaTime_diff t (df_t_last b)) \<or> best = Some (k, d)"
    "\<And>k' d'. best = Some (k', d') \<Longrightarrow> d' \<le> d" "\<And>k' b'. (k', b') \<in> set m \<Longrightarrow> TdmaTime_diff t (df_t_last b') \<le> d" by auto
qed

lemma max_by_age_Some: "max_by_age t m (Some q) \<noteq> None"
  by (induction t m "Some q" arbitrary: q rule: max_by_age.induct) (auto split: if_splits prod.splits)

lemma max_by_age_None: "max_by_age t m None = None \<longleftrightarrow> m = []"
  using max_by_age_Some by (cases m) auto

lemma evict_oldest_spec:
  assumes "distinct (map fst m)"
  shows "length (evict_oldest t m) < DEFRAG_MAX_CONTEXTS_PER_TS" and "distinct (map fst (evict_oldest t m))"
    and "set (evict_oldest t m) \<subseteq> set m"
    and "\<And>k b k' b'. (k, b) \<in> set m - set (evict_oldest t m) \<Longrightarrow> (k', b') \<in> set (evict_oldest t m) \<Longrightarrow>
       TdmaTime_diff t (df_t_last b') \<le> TdmaTime_diff t (df_t_last b)"
proof -
  let ?age = "\<lambda>b. TdmaTime_diff t (df_t_last b)"
  have all: "length (evict_oldest t m) < DEFRAG_MAX_CONTEXTS_PER_TS \<and> distinct (map fst (evict_oldest t m)) \<and>
    set (evict_oldest t m) \<subseteq> set m \<and>
    (\<forall>(k, b) \<in> set m - set (evict_oldest t m). \<forall>(k', b') \<in> set (evict_oldest t m). ?age b' \<le> ?age b)"
    using assms
  proof (induction t m rule: evict_oldest.induct)
    case (1 t m)
    show ?case
    proof (cases "DEFRAG_MAX_CONTEXTS_PER_TS \<le> length m")
      case False
      then show ?thesis using 1 by (subst (1 2 3 4 5) evict_oldest.simps) auto
    next
      case True
      then have "m \<noteq> []" by (auto simp: DEFRAG_MAX_CONTEXTS_PER_TS_def)
      then obtain k d where kd: "max_by_age t m None = Some (k, d)" using max_by_age_None [of t m] by auto
      let ?m = "AList.delete k m"
      have ev: "evict_oldest t m = evict_oldest t ?m" using True kd by (subst evict_oldest.simps) simp
      have ih: "length (evict_oldest t ?m) < DEFRAG_MAX_CONTEXTS_PER_TS" "distinct (map fst (evict_oldest t ?m))"
        "set (evict_oldest t ?m) \<subseteq> set ?m"
        "\<forall>(k, b) \<in> set ?m - set (evict_oldest t ?m). \<forall>(k', b') \<in> set (evict_oldest t ?m).
           TdmaTime_diff t (df_t_last b') \<le> TdmaTime_diff t (df_t_last b)"
        using 1(1) [OF True kd refl] distinct_delete [OF 1(2)] by auto
      have sub: "set ?m \<subseteq> set m" unfolding AList.delete_eq by auto
      have old: "TdmaTime_diff t (df_t_last b') \<le> TdmaTime_diff t (df_t_last b)"
        if "(k1, b) \<in> set m" "(k1, b) \<notin> set ?m" "(k', b') \<in> set m" for k1 b k' b'
      proof -
        have "k1 = k" using that by (auto simp: AList.delete_eq)
        moreover obtain b0 where b0: "(k, b0) \<in> set m" "d = TdmaTime_diff t (df_t_last b0)"
          using max_by_age_max(1) [OF kd] by auto
        ultimately have "b0 = b" using that(1) 1(2) by (metis eq_key_imp_eq_value)
        then show ?thesis using max_by_age_max(3) [OF kd that(3)] b0(2) by simp
      qed
      show ?thesis unfolding ev using ih sub old by (auto split: prod.splits) blast+
    qed
  qed
  then show "length (evict_oldest t m) < DEFRAG_MAX_CONTEXTS_PER_TS" "distinct (map fst (evict_oldest t m))"
    "set (evict_oldest t m) \<subseteq> set m" by auto
  show "?age b' \<le> ?age b" if "(k, b) \<in> set m - set (evict_oldest t m)" "(k', b') \<in> set (evict_oldest t m)" for k b k' b'
    using all that by fastforce
qed

section \<open>The base station's defragmenter\<close>

definition ctxs_ok :: "contexts \<Rightarrow> bool" where
  "ctxs_ok m \<longleftrightarrow> distinct (map fst m) \<and> length m \<le> DEFRAG_MAX_CONTEXTS_PER_TS \<and> (\<forall>b \<in> snd ` set m. ctx_ok b)"

definition bd_inv :: "BsDefrag \<Rightarrow> bool" where
  "bd_inv d \<longleftrightarrow> length (bd_buffers d) = 4 \<and> (\<forall>m \<in> set (bd_buffers d). ctxs_ok m)"

text \<open>The abstraction: what has been received so far of the burst of an SSI in a slot.\<close>

definition ctx :: "BsDefrag \<Rightarrow> nat \<Rightarrow> u32 \<Rightarrow> DefragBuffer option" where
  "ctx d ts ssi = (if ts < length (bd_buffers d) then map_of (bd_buffers d ! ts) ssi else None)"

definition pending_bits :: "BsDefrag \<Rightarrow> nat \<Rightarrow> u32 \<Rightarrow> bool list option" where
  "pending_bits d ts ssi =
     (case ctx d ts ssi of Some b \<Rightarrow> if df_state b = Active then Some (ctx_bits b) else None | None \<Rightarrow> None)"

lemma bd_inv_new [simp]: "bd_inv BsDefrag_new"
  by (simp add: bd_inv_def BsDefrag_new_def ctxs_ok_def)

lemma bd_inv_reset: "bd_inv d \<Longrightarrow> bd_inv (BsDefrag_reset d)"
  by (auto simp: bd_inv_def BsDefrag_reset_def ctxs_ok_def)

lemma ctxs_ok_lookup: "ctxs_ok m \<Longrightarrow> map_of m ssi = Some b \<Longrightarrow> ctx_ok b"
  by (force simp: ctxs_ok_def dest!: map_of_SomeD)

lemma ctx_ok_lookup: "bd_inv d \<Longrightarrow> ctx d ts ssi = Some b \<Longrightarrow> ctx_ok b"
  by (auto simp: bd_inv_def ctx_def split: if_splits intro: ctxs_ok_lookup)

lemma slot_index_valid: "TdmaTime_is_valid t \<Longrightarrow> slot_index t < 4"
proof -
  assume "TdmaTime_is_valid t"
  then have "1 \<le> tm_t t" "unat (tm_t t) \<le> 4" by (auto simp: TdmaTime_is_valid_def word_le_nat_alt)
  then show ?thesis using unat_sub [of 1 "tm_t t"] by (simp add: slot_index_def)
qed

lemma bd_inv_update:
  assumes "bd_inv d" and "ctxs_ok m"
  shows "bd_inv (d\<lparr>bd_buffers := (bd_buffers d)[ts := m]\<rparr>)"
  using assms by (auto simp: bd_inv_def dest!: subsetD [OF set_update_subset_insert])

lemma ctx_update:
  "ts < length (bd_buffers d) \<Longrightarrow> ctx (d\<lparr>bd_buffers := (bd_buffers d)[ts := m]\<rparr>) ts' ssi = (if ts' = ts then map_of m ssi else ctx d ts' ssi)"
  by (simp add: ctx_def)

lemma ctx_put:
  assumes "ts < length (bd_buffers d)"
  shows "ctx (d\<lparr>bd_buffers := (bd_buffers d)[ts := AList.update ssi b (bd_buffers d ! ts)]\<rparr>) ts' ssi' =
    (if (ts', ssi') = (ts, ssi) then Some b else ctx d ts' ssi')"
  unfolding ctx_update [OF assms] using assms by (simp add: update_conv') (simp add: ctx_def)

lemma ctx_drop:
  assumes "ts < length (bd_buffers d)"
  shows "ctx (d\<lparr>bd_buffers := (bd_buffers d)[ts := AList.delete ssi (bd_buffers d ! ts)]\<rparr>) ts' ssi' =
    (if (ts', ssi') = (ts, ssi) then None else ctx d ts' ssi')"
  unfolding ctx_update [OF assms] using assms by (simp add: delete_conv') (simp add: ctx_def)

lemma set_alist_update: "set (AList.update k v m) \<subseteq> insert (k, v) (set m)"
  by (induction m) auto

lemma ctxs_ok_update:
  assumes "ctxs_ok m" and "ctx_ok b" and "ssi \<in> fst ` set m \<or> length m < DEFRAG_MAX_CONTEXTS_PER_TS"
  shows "ctxs_ok (AList.update ssi b m)"
proof -
  have "length (AList.update ssi b m) = (if ssi \<in> fst ` set m then length m else Suc (length m))"
    by (induction m) auto
  moreover have "snd ` set (AList.update ssi b m) \<subseteq> insert b (snd ` set m)"
    using image_mono [OF set_alist_update [of ssi b m], of snd] by simp
  then have "\<forall>b' \<in> snd ` set (AList.update ssi b m). ctx_ok b'" using assms(1,2) unfolding ctxs_ok_def by blast
  ultimately show ?thesis using assms distinct_update [of m ssi b] by (auto simp: ctxs_ok_def split: if_splits)
qed

lemma ctxs_ok_subset:
  "ctxs_ok m \<Longrightarrow> distinct (map fst m') \<Longrightarrow> length m' \<le> length m \<Longrightarrow> set m' \<subseteq> set m \<Longrightarrow> ctxs_ok m'"
  by (auto simp: ctxs_ok_def)

lemma ctxs_ok_delete:
  assumes "ctxs_ok m"
  shows "ctxs_ok (AList.delete k m)"
proof (rule ctxs_ok_subset [OF assms])
  show "distinct (map fst (AList.delete k m))" using assms by (simp add: ctxs_ok_def distinct_delete)
  show "set (AList.delete k m) \<subseteq> set m" by (auto simp: AList.delete_eq)
qed (rule length_delete_le)

lemma ctxs_ok_evict:
  assumes "ctxs_ok m"
  shows "ctxs_ok (evict_oldest t m)" and "length (evict_oldest t m) < DEFRAG_MAX_CONTEXTS_PER_TS"
proof -
  have d: "distinct (map fst m)" using assms by (simp add: ctxs_ok_def)
  note ev = evict_oldest_spec [OF d]
  from ev(1) show "length (evict_oldest t m) < DEFRAG_MAX_CONTEXTS_PER_TS" .
  show "ctxs_ok (evict_oldest t m)" using ev(1-3) [of t] assms by (auto simp: ctxs_ok_def)
qed

subsection \<open>Ageing\<close>

lemma map_of_filter_value:
  "distinct (map fst m) \<Longrightarrow>
   map_of (filter (\<lambda>(k, v). P v) m) k = (case map_of m k of Some v \<Rightarrow> if P v then Some v else None | None \<Rightarrow> None)"
proof (induction m)
  case (Cons a m)
  obtain k' v where a: "a = (k', v)" by (cases a)
  have "map_of (filter (\<lambda>(k, v). P v) m) k' = None" using Cons.prems a
    by (auto simp: map_of_eq_None_iff image_iff)
  then show ?case using Cons a by (auto split: option.split)
qed simp

lemma ctxs_ok_filter: "ctxs_ok m \<Longrightarrow> ctxs_ok (filter P m)"
  by (rule ctxs_ok_subset [of m]) (auto simp: ctxs_ok_def distinct_map_filter)

lemma age_buffers_inv: "bd_inv d \<Longrightarrow> bd_inv (BsDefrag_age_buffers t d)"
  by (auto simp: bd_inv_def BsDefrag_age_buffers_def ctxs_ok_filter)

lemma age_buffers_ctx:
  assumes "bd_inv d"
  shows "ctx (BsDefrag_age_buffers t d) ts ssi =
     (case ctx d ts ssi of Some b \<Rightarrow> if ctx_stale t b then None else Some b | None \<Rightarrow> None)"
proof (cases "ts < length (bd_buffers d)")
  case True
  then have "distinct (map fst (bd_buffers d ! ts))" using assms by (simp add: bd_inv_def ctxs_ok_def)
  from map_of_filter_value [OF this, of "\<lambda>b. \<not> ctx_stale t b"] True show ?thesis
    by (auto simp: ctx_def BsDefrag_age_buffers_def split: option.split)
qed (simp add: ctx_def BsDefrag_age_buffers_def)

subsection \<open>Feeding fragments\<close>

lemma pending_bits_Some: "pending_bits d ts ssi = Some bs \<longleftrightarrow> (\<exists>b. ctx d ts ssi = Some b \<and> df_state b = Active \<and> ctx_bits b = bs)"
  by (auto simp: pending_bits_def split: option.splits if_splits)

text \<open>
  A first fragment starts the context afresh. Of the other contexts of the slot only an evicted one is lost, and it has
  been quiet at least as long as every context that remains.
\<close>

lemma insert_first_spec:
  assumes d: "bd_inv d" and src: "bb_inv src" and t: "TdmaTime_is_valid t"
  defines "ts \<equiv> slot_index t"
  shows "\<exists>d'. BsDefrag_insert_first t addr aie (d, src) = Ok ((), (d', consumed src)) \<and> bd_inv d' \<and>
    pending_bits d' ts (ta_ssi addr) = Some (unread src) \<and>
    (\<forall>ts' ssi. ts' \<noteq> ts \<longrightarrow> ctx d' ts' ssi = ctx d ts' ssi) \<and>
    (\<forall>ssi b. ssi \<noteq> ta_ssi addr \<longrightarrow> ctx d' ts ssi = Some b \<longrightarrow> ctx d ts ssi = Some b) \<and>
    (\<forall>ssi b ssi' b'. ssi \<noteq> ta_ssi addr \<longrightarrow> ctx d ts ssi = Some b \<longrightarrow> ctx d' ts ssi = None \<longrightarrow>
       ssi' \<noteq> ta_ssi addr \<longrightarrow> ctx d' ts ssi' = Some b' \<longrightarrow> TdmaTime_diff t (df_t_last b') \<le> TdmaTime_diff t (df_t_last b))"
proof -
  let ?k = "ta_ssi addr" and ?m = "bd_buffers d ! ts"
  let ?m1 = "AList.delete ?k ?m"
  let ?ev = "evict_oldest t ?m1"
  have ts: "ts < length (bd_buffers d)" using d slot_index_valid [OF t] by (simp add: bd_inv_def ts_def)
  then have m: "ctxs_ok ?m" using d by (simp add: bd_inv_def)
  note m1 = ctxs_ok_delete [OF m, of ?k]
  then have dist: "distinct (map fst ?m1)" by (simp add: ctxs_ok_def)
  note ev = evict_oldest_spec [OF dist, where t = t] and evok = ctxs_ok_evict [OF m1, where t = t]
  let ?init = "(case map_of ?m ?k of Some b \<Rightarrow> DefragBuffer_reset b | None \<Rightarrow> DefragBuffer_new)
     \<lparr>df_state := Active, df_addr := addr, df_t_first := t, df_t_last := t, df_num_frags := 1, df_aie_info := aie\<rparr>"
  have "df_buffer ?init = new_autoexpand DEFRAG_BUF_INITIAL_LEN" by (simp split: option.split)
  then have b0: "ctx_ok ?init" "ctx_bits ?init = []" by (rule ctx_ok_fresh)+
  have "length (unread src) < 2 ^ 64" using src length_unread [OF src] by (auto simp: get_len_remaining_def bb_inv_def)
  with append_fragment_spec [OF b0(1) src] b0(2) obtain dst where dst: "append_fragment ?init src = Ok (?init\<lparr>df_buffer := dst\<rparr>, consumed src)"
    "ctx_ok (?init\<lparr>df_buffer := dst\<rparr>)" "ctx_bits (?init\<lparr>df_buffer := dst\<rparr>) = unread src" by auto
  let ?b = "?init\<lparr>df_buffer := dst\<rparr>"
  let ?d = "d\<lparr>bd_buffers := (bd_buffers d)[ts := AList.update ?k ?b ?ev]\<rparr>"
  have run: "BsDefrag_insert_first t addr aie (d, src) = Ok ((), (?d, consumed src))"
    using ts dst(1) unfolding BsDefrag_insert_first_def ts_def [symmetric] by (simp add: Let_def)
  have here: "ctx ?d ts ssi = (if ssi = ?k then Some ?b else map_of ?ev ssi)" for ssi
    using ts by (simp add: ctx_update update_conv')
  have keep: "ctx d ts ssi = Some b" if "map_of ?ev ssi = Some b" "ssi \<noteq> ?k" for ssi b
  proof -
    have "(ssi, b) \<in> set ?m1" using map_of_SomeD [OF that(1)] ev(3) by auto
    then have "(ssi, b) \<in> set ?m" by (auto simp: AList.delete_eq)
    then show ?thesis using m ts by (simp add: ctx_def ctxs_ok_def)
  qed
  have lost: "TdmaTime_diff t (df_t_last b') \<le> TdmaTime_diff t (df_t_last b)"
    if "ssi \<noteq> ?k" "ctx d ts ssi = Some b" "map_of ?ev ssi = None" "map_of ?ev ssi' = Some b'" for ssi b ssi' b'
  proof (rule ev(4))
    show "(ssi', b') \<in> set ?ev" using that(4) by (rule map_of_SomeD)
    have "(ssi, b) \<in> set ?m1" using that(1,2) ts by (auto simp: ctx_def AList.delete_eq dest: map_of_SomeD)
    moreover have "(ssi, b) \<notin> set ?ev" using that(3) by (force simp: map_of_eq_None_iff)
    ultimately show "(ssi, b) \<in> set ?m1 - set ?ev" by simp
  qed
  have "bd_inv ?d" using d evok dst(2) by (intro bd_inv_update ctxs_ok_update) auto
  moreover have "pending_bits ?d ts ?k = Some (unread src)" using here [of ?k] dst(3) by (simp add: pending_bits_Some)
  moreover have "ctx ?d ts' ssi = ctx d ts' ssi" if "ts' \<noteq> ts" for ts' ssi using ts that by (simp add: ctx_update)
  ultimately show ?thesis using run here keep lost by (intro exI [of _ ?d] conjI) auto
qed

text \<open>A further fragment is appended, and nothing else changes.\<close>

lemma insert_next_spec:
  assumes d: "bd_inv d" and src: "bb_inv src" and t: "TdmaTime_is_valid t"
    and bits: "pending_bits d (slot_index t) ssi = Some bs" and len: "length bs + length (unread src) \<le> DEFRAG_BUF_MAX_LEN"
  shows "\<exists>d'. BsDefrag_insert_next ssi t (d, src) = Ok ((), (d', consumed src)) \<and> bd_inv d' \<and>
    pending_bits d' (slot_index t) ssi = Some (bs @ unread src) \<and>
    (\<forall>ts' ssi'. (ts', ssi') \<noteq> (slot_index t, ssi) \<longrightarrow> ctx d' ts' ssi' = ctx d ts' ssi')"
proof -
  let ?ts = "slot_index t"
  have ts: "?ts < length (bd_buffers d)" using d slot_index_valid [OF t] by (simp add: bd_inv_def)
  from bits obtain b where b: "ctx d ?ts ssi = Some b" "df_state b = Active" "ctx_bits b = bs" by (auto simp: pending_bits_Some)
  then have mb: "map_of (bd_buffers d ! ?ts) ssi = Some b" using ts by (simp add: ctx_def)
  have ok: "ctx_ok b" using ctx_ok_lookup [OF d b(1)] .
  let ?b1 = "b\<lparr>df_t_last := t, df_num_frags := df_num_frags b + 1\<rparr>"
  have b1: "ctx_ok ?b1" "ctx_bits ?b1 = bs" using ok b(3) ctx_ok_cong [of ?b1 b] by simp_all
  have "length (ctx_bits ?b1) + length (unread src) < 2 ^ 64" using len b1(2) by (simp add: DEFRAG_BUF_MAX_LEN_def)
  from append_fragment_spec [OF b1(1) src this] b1(2) obtain dst where dst:
    "append_fragment ?b1 src = Ok (?b1\<lparr>df_buffer := dst\<rparr>, consumed src)" "ctx_ok (?b1\<lparr>df_buffer := dst\<rparr>)"
    "ctx_bits (?b1\<lparr>df_buffer := dst\<rparr>) = bs @ unread src" by auto
  let ?b = "?b1\<lparr>df_buffer := dst\<rparr>"
  let ?d = "d\<lparr>bd_buffers := (bd_buffers d)[?ts := AList.update ssi ?b (bd_buffers d ! ?ts)]\<rparr>"
  have "BsDefrag_insert_next ssi t (d, src) = Ok ((), (?d, consumed src))"
    using ts mb b(2,3) len dst(1) ctx_len [OF ok] src by (simp add: BsDefrag_insert_next_def Let_def length_unread)
  moreover have "ssi \<in> fst ` set (bd_buffers d ! ?ts)" using map_of_SomeD [OF mb] by force
  then have "bd_inv ?d" using d ts dst(2) by (intro bd_inv_update ctxs_ok_update) (auto simp: bd_inv_def)
  moreover have "pending_bits ?d ?ts ssi = Some (bs @ unread src)"
    using ts b(2) dst(3) by (simp add: pending_bits_Some ctx_put)
  moreover have "ctx ?d ts' ssi' = ctx d ts' ssi'" if "(ts', ssi') \<noteq> (?ts, ssi)" for ts' ssi'
    unfolding ctx_put [OF ts] using that by (rule if_not_P)
  ultimately show ?thesis by blast
qed

text \<open>Without an active context a fragment is ignored.\<close>

lemma insert_next_ignored:
  assumes "bd_inv d" and "TdmaTime_is_valid t" and "pending_bits d (slot_index t) ssi = None"
  shows "BsDefrag_insert_next ssi t (d, src) = Ok ((), (d, src))"
proof -
  have "slot_index t < length (bd_buffers d)" using assms slot_index_valid by (simp add: bd_inv_def)
  then show ?thesis using assms(3)
    by (auto simp: BsDefrag_insert_next_def Let_def pending_bits_def ctx_def split: option.splits if_splits)
qed

text \<open>The last fragment completes the SDU, hands it out with the cursor at its start, and removes the context.\<close>

lemma insert_last_spec:
  assumes d: "bd_inv d" and src: "bb_inv src" and t: "TdmaTime_is_valid t"
    and bits: "pending_bits d (slot_index t) ssi = Some bs" and len: "length bs + length (unread src) \<le> DEFRAG_BUF_MAX_LEN"
  shows "\<exists>d' b. BsDefrag_insert_last ssi t (d, src) = Ok (Some b, (d', consumed src)) \<and> bd_inv d' \<and>
    df_state b = Complete \<and> unread (df_buffer b) = bs @ unread src \<and> ctx d' (slot_index t) ssi = None \<and>
    (\<forall>ts' ssi'. (ts', ssi') \<noteq> (slot_index t, ssi) \<longrightarrow> ctx d' ts' ssi' = ctx d ts' ssi')"
proof -
  let ?ts = "slot_index t"
  from insert_next_spec [OF assms] obtain d1 where d1: "BsDefrag_insert_next ssi t (d, src) = Ok ((), (d1, consumed src))"
    "bd_inv d1" "pending_bits d1 ?ts ssi = Some (bs @ unread src)"
    "\<And>ts' ssi'. (ts', ssi') \<noteq> (?ts, ssi) \<Longrightarrow> ctx d1 ts' ssi' = ctx d ts' ssi'" by blast
  have ts: "?ts < length (bd_buffers d1)" using d1(2) slot_index_valid [OF t] by (simp add: bd_inv_def)
  from d1(3) obtain b where b: "ctx d1 ?ts ssi = Some b" "ctx_bits b = bs @ unread src" by (auto simp: pending_bits_Some)
  have ok: "ctx_ok b" using ctx_ok_lookup [OF d1(2) b(1)] .
  let ?b = "b\<lparr>df_state := Complete, df_buffer := (df_buffer b)\<lparr>bb_pos := 0\<rparr>\<rparr>"
  let ?d = "d1\<lparr>bd_buffers := (bd_buffers d1)[?ts := AList.delete ssi (bd_buffers d1 ! ?ts)]\<rparr>"
  have "BsDefrag_insert_last ssi t (d, src) = Ok (Some ?b, (?d, consumed src))"
    using d1(1) ts b(1) ok by (simp add: BsDefrag_insert_last_def bind_def Let_def ctx_def set_raw_pos_def ctx_ok_def)
  moreover have "bd_inv ?d" using d1(2) ts by (intro bd_inv_update ctxs_ok_delete) (auto simp: bd_inv_def)
  moreover have "unread (df_buffer ?b) = bs @ unread src" using b(2) by (simp add: unread_def ctx_bits_def)
  moreover have "ctx ?d ?ts ssi = None" unfolding ctx_drop [OF ts] by simp
  moreover have "ctx ?d ts' ssi' = ctx d ts' ssi'" if "(ts', ssi') \<noteq> (?ts, ssi)" for ts' ssi'
    unfolding ctx_drop [OF ts] using that d1(4) [OF that] by auto
  ultimately show ?thesis by (intro exI [of _ ?d] exI [of _ ?b]) simp
qed

text \<open>
  Beyond the maximum length the context is reset but stays in the map, and the last fragment of the burst then returns
  an empty buffer with the address zero as a complete SDU.
\<close>

lemma insert_last_overflow:
  assumes d: "bd_inv d" and src: "bb_inv src" and t: "TdmaTime_is_valid t"
    and bits: "pending_bits d (slot_index t) ssi = Some bs" and len: "DEFRAG_BUF_MAX_LEN < length bs + length (unread src)"
  shows "\<exists>d' b. BsDefrag_insert_last ssi t (d, src) = Ok (Some b, (d', src)) \<and> df_state b = Complete \<and>
    unread (df_buffer b) = [] \<and> ta_ssi (df_addr b) = 0"
proof -
  let ?ts = "slot_index t"
  have ts: "?ts < length (bd_buffers d)" using d slot_index_valid [OF t] by (simp add: bd_inv_def)
  from bits obtain b where b: "ctx d ?ts ssi = Some b" "df_state b = Active" "ctx_bits b = bs" by (auto simp: pending_bits_Some)
  then have mb: "map_of (bd_buffers d ! ?ts) ssi = Some b" using ts by (simp add: ctx_def)
  have ok: "ctx_ok b" using ctx_ok_lookup [OF d b(1)] .
  have "BsDefrag_insert_next ssi t (d, src) =
      Ok ((), (d\<lparr>bd_buffers := (bd_buffers d)[?ts := AList.update ssi (DefragBuffer_reset b) (bd_buffers d ! ?ts)]\<rparr>, src))"
    using ts mb b(2,3) len ctx_len [OF ok] src by (simp add: BsDefrag_insert_next_def Let_def length_unread)
  then show ?thesis using ts
    by (simp add: BsDefrag_insert_last_def bind_def Let_def update_conv' set_raw_pos_def unread_def)
       (simp add: DefragBuffer_reset_def new_autoexpand_def content_def)
qed

text \<open>Whatever arrives, the defragmenter neither panics nor breaks its invariant, and a fragment touches its own context only.\<close>

lemma insert_next_total:
  assumes d: "bd_inv d" and src: "bb_inv src" and t: "TdmaTime_is_valid t"
  shows "\<exists>d' src'. BsDefrag_insert_next ssi t (d, src) = Ok ((), (d', src')) \<and> bd_inv d' \<and> bb_inv src' \<and>
    (\<forall>ts' ssi'. (ts', ssi') \<noteq> (slot_index t, ssi) \<longrightarrow> ctx d' ts' ssi' = ctx d ts' ssi')"
proof (cases "pending_bits d (slot_index t) ssi")
  case None
  then show ?thesis using insert_next_ignored [OF d t None, of src] d src by blast
next
  case (Some bs)
  have cons: "bb_inv (consumed src)" using src by (auto simp: consumed_def bb_inv_def)
  show ?thesis
  proof (cases "length bs + length (unread src) \<le> DEFRAG_BUF_MAX_LEN")
    case True
    from insert_next_spec [OF d src t Some True] cons show ?thesis by blast
  next
    case False
    let ?ts = "slot_index t"
    have ts: "?ts < length (bd_buffers d)" using d slot_index_valid [OF t] by (simp add: bd_inv_def)
    from Some obtain b where b: "ctx d ?ts ssi = Some b" "df_state b = Active" "ctx_bits b = bs" by (auto simp: pending_bits_Some)
    then have mb: "map_of (bd_buffers d ! ?ts) ssi = Some b" using ts by (simp add: ctx_def)
    have "BsDefrag_insert_next ssi t (d, src) =
        Ok ((), (d\<lparr>bd_buffers := (bd_buffers d)[?ts := AList.update ssi (DefragBuffer_reset b) (bd_buffers d ! ?ts)]\<rparr>, src))"
      using ts mb b(2,3) False ctx_len [OF ctx_ok_lookup [OF d b(1)]] src by (simp add: BsDefrag_insert_next_def Let_def length_unread)
    moreover have "ssi \<in> fst ` set (bd_buffers d ! ?ts)" using map_of_SomeD [OF mb] by force
    then have "bd_inv (d\<lparr>bd_buffers := (bd_buffers d)[?ts := AList.update ssi (DefragBuffer_reset b) (bd_buffers d ! ?ts)]\<rparr>)"
      using d ts by (intro bd_inv_update ctxs_ok_update) (auto simp: bd_inv_def)
    ultimately show ?thesis using src ctx_put [OF ts] by (simp add: if_not_P)
  qed
qed

lemma insert_last_total:
  assumes d: "bd_inv d" and src: "bb_inv src" and t: "TdmaTime_is_valid t"
  shows "\<exists>r d' src'. BsDefrag_insert_last ssi t (d, src) = Ok (r, (d', src')) \<and> bd_inv d' \<and> bb_inv src' \<and>
    ctx d' (slot_index t) ssi = None"
proof -
  let ?ts = "slot_index t"
  from insert_next_total [OF assms] obtain d1 s1 where d1: "BsDefrag_insert_next ssi t (d, src) = Ok ((), (d1, s1))" "bd_inv d1" "bb_inv s1"
    by blast
  have ts: "?ts < length (bd_buffers d1)" using d1(2) slot_index_valid [OF t] by (simp add: bd_inv_def)
  show ?thesis
  proof (cases "map_of (bd_buffers d1 ! ?ts) ssi")
    case None
    then show ?thesis using d1 ts by (simp add: BsDefrag_insert_last_def bind_def ctx_def)
  next
    case (Some b)
    then have "ctx_ok b" using d1(2) ts by (intro ctx_ok_lookup [of d1 ?ts ssi]) (simp_all add: ctx_def)
    moreover have "bd_inv (d1\<lparr>bd_buffers := (bd_buffers d1)[?ts := AList.delete ssi (bd_buffers d1 ! ?ts)]\<rparr>)"
      using d1(2) ts by (intro bd_inv_update ctxs_ok_delete) (auto simp: bd_inv_def)
    ultimately show ?thesis using d1 ts Some ctx_drop [OF ts]
      by (simp add: BsDefrag_insert_last_def bind_def Let_def set_raw_pos_def ctx_ok_def)
  qed
qed

section \<open>Reachable states\<close>

datatype bd_event =
    Bd_reset
  | Bd_age TdmaTime
  | Bd_first bitbuffer TdmaTime TetraAddress "int option"
  | Bd_next bitbuffer u32 TdmaTime
  | Bd_last bitbuffer u32 TdmaTime

inductive bd_step :: "BsDefrag \<Rightarrow> bd_event \<Rightarrow> (pdu_parse_err, BsDefrag) outcome \<Rightarrow> bool" where
  "bd_step d Bd_reset (Ok (BsDefrag_reset d))"
| "bd_step d (Bd_age t) (Ok (BsDefrag_age_buffers t d))"
| "bd_step d (Bd_first b t a i) (case BsDefrag_insert_first t a i (d, b) of Ok (_, (d, _)) \<Rightarrow> Ok d | Err e \<Rightarrow> Err e | Panic \<Rightarrow> Panic)"
| "bd_step d (Bd_next b s t) (case BsDefrag_insert_next s t (d, b) of Ok (_, (d, _)) \<Rightarrow> Ok d | Err e \<Rightarrow> Err e | Panic \<Rightarrow> Panic)"
| "bd_step d (Bd_last b s t) (case BsDefrag_insert_last s t (d, b) of Ok (_, (d, _)) \<Rightarrow> Ok d | Err e \<Rightarrow> Err e | Panic \<Rightarrow> Panic)"

inductive_cases bd_stepE: "bd_step d ev r"

text \<open>The caller hands over well-formed buffers and valid times.\<close>

fun bd_event_ok :: "bd_event \<Rightarrow> bool" where
  "bd_event_ok Bd_reset = True"
| "bd_event_ok (Bd_age t) = True"
| "bd_event_ok (Bd_first b t a i) = (bb_inv b \<and> TdmaTime_is_valid t)"
| "bd_event_ok (Bd_next b s t) = (bb_inv b \<and> TdmaTime_is_valid t)"
| "bd_event_ok (Bd_last b s t) = (bb_inv b \<and> TdmaTime_is_valid t)"

inductive bd_reachable :: "BsDefrag \<Rightarrow> bool" where
  bd_init: "bd_reachable BsDefrag_new"
| bd_next: "bd_reachable d \<Longrightarrow> bd_event_ok ev \<Longrightarrow> bd_step d ev (Ok d') \<Longrightarrow> bd_reachable d'"

lemma bd_step_inv:
  assumes "bd_inv d" and "bd_event_ok ev" and "bd_step d ev r"
  shows "\<exists>d'. r = Ok d' \<and> bd_inv d'"
  using assms(3)
proof (cases rule: bd_step.cases)
  case (3 b t a i)
  with assms(2) insert_first_spec [OF assms(1), of b t a i] show ?thesis by auto
next
  case (4 b s t)
  with assms(2) insert_next_total [OF assms(1), of b t s] show ?thesis by auto
next
  case (5 b s t)
  with assms(2) insert_last_total [OF assms(1), of b t s] show ?thesis by auto
qed (use assms(1) in \<open>auto intro: bd_inv_reset age_buffers_inv\<close>)

lemma bd_reachable_inv: "bd_reachable d \<Longrightarrow> bd_inv d"
  by (induction rule: bd_reachable.induct) (auto dest: bd_step_inv)

section \<open>Reassembly as a contract\<close>

text \<open>
  What a user of a defragmenter relies on. An argument \<open>a\<close> of the operations (a time, an address) selects the burst
  \<open>key a\<close>; \<open>pending\<close> is what a burst has received so far.
\<close>

locale reassembler =
  fixes inv :: "'s \<Rightarrow> bool"
    and pending :: "'s \<Rightarrow> 'k \<Rightarrow> bool list option"
    and key :: "'a \<Rightarrow> 'k"
    and valid :: "'a \<Rightarrow> bool"
    and maxlen :: nat
    and first :: "'a \<Rightarrow> ('s \<times> bitbuffer, pdu_parse_err, unit) prog"
    and nxt :: "'a \<Rightarrow> ('s \<times> bitbuffer, pdu_parse_err, unit) prog"
    and fin :: "'a \<Rightarrow> ('s \<times> bitbuffer, pdu_parse_err, DefragBuffer option) prog"
  assumes first_starts: "inv s \<Longrightarrow> valid a \<Longrightarrow> bb_inv src \<Longrightarrow>
      \<exists>s' src'. first a (s, src) = Ok ((), (s', src')) \<and> inv s' \<and> pending s' (key a) = Some (unread src)"
    and nxt_appends: "inv s \<Longrightarrow> valid a \<Longrightarrow> bb_inv src \<Longrightarrow> pending s (key a) = Some bs \<Longrightarrow>
      length bs + length (unread src) \<le> maxlen \<Longrightarrow>
      \<exists>s' src'. nxt a (s, src) = Ok ((), (s', src')) \<and> inv s' \<and> pending s' (key a) = Some (bs @ unread src)"
    and nxt_frame: "inv s \<Longrightarrow> valid a \<Longrightarrow> bb_inv src \<Longrightarrow>
      \<exists>s' src'. nxt a (s, src) = Ok ((), (s', src')) \<and> inv s' \<and> (\<forall>k. k \<noteq> key a \<longrightarrow> pending s' k = pending s k)"
    and fin_completes: "inv s \<Longrightarrow> valid a \<Longrightarrow> bb_inv src \<Longrightarrow> pending s (key a) = Some bs \<Longrightarrow>
      length bs + length (unread src) \<le> maxlen \<Longrightarrow>
      \<exists>b s' src'. fin a (s, src) = Ok (Some b, (s', src')) \<and> inv s' \<and> unread (df_buffer b) = bs @ unread src"

text \<open>Feeding a sequence of further fragments of any bursts.\<close>

fun feed :: "('a \<Rightarrow> ('s \<times> bitbuffer, pdu_parse_err, unit) prog) \<Rightarrow> ('a \<times> bitbuffer) list \<Rightarrow> 's \<Rightarrow> (pdu_parse_err, 's) outcome" where
  "feed nxt [] s = Ok s"
| "feed nxt ((a, src) # evs) s =
     (case nxt a (s, src) of Ok (_, (s, _)) \<Rightarrow> feed nxt evs s | Err e \<Rightarrow> Err e | Panic \<Rightarrow> Panic)"

text \<open>A burst: its first fragment, further fragments interleaved with those of other bursts, its last fragment.\<close>

definition run_burst ::
  "('a \<Rightarrow> ('s \<times> bitbuffer, pdu_parse_err, unit) prog) \<Rightarrow> ('a \<Rightarrow> ('s \<times> bitbuffer, pdu_parse_err, unit) prog) \<Rightarrow>
   ('a \<Rightarrow> ('s \<times> bitbuffer, pdu_parse_err, DefragBuffer option) prog) \<Rightarrow>
   's \<Rightarrow> 'a \<times> bitbuffer \<Rightarrow> ('a \<times> bitbuffer) list \<Rightarrow> 'a \<times> bitbuffer \<Rightarrow> (pdu_parse_err, DefragBuffer option) outcome" where
  "run_burst first nxt fin s f evs l =
     (case first (fst f) (s, snd f) of
        Ok (_, (s, _)) \<Rightarrow>
          (case feed nxt evs s of
             Ok s \<Rightarrow> (case fin (fst l) (s, snd l) of Ok (r, _) \<Rightarrow> Ok r | Err e \<Rightarrow> Err e | Panic \<Rightarrow> Panic)
           | Err e \<Rightarrow> Err e | Panic \<Rightarrow> Panic)
      | Err e \<Rightarrow> Err e | Panic \<Rightarrow> Panic)"

definition burst_bits :: "('a \<Rightarrow> 'k) \<Rightarrow> 'k \<Rightarrow> ('a \<times> bitbuffer) list \<Rightarrow> bool list" where
  "burst_bits key k evs = concat (map (\<lambda>(a, src). unread src) (filter (\<lambda>(a, src). key a = k) evs))"

context reassembler
begin

lemma feed_collects:
  assumes "inv s" and "pending s k = Some bs" and "\<forall>e \<in> set evs. valid (fst e) \<and> bb_inv (snd e)"
    and "length bs + length (burst_bits key k evs) \<le> maxlen"
  shows "\<exists>s'. feed nxt evs s = Ok s' \<and> inv s' \<and> pending s' k = Some (bs @ burst_bits key k evs)"
  using assms
proof (induction evs arbitrary: s bs)
  case Nil
  then show ?case by (simp add: burst_bits_def)
next
  case (Cons e evs)
  obtain a src where e: "e = (a, src)" by (cases e)
  have v: "valid a" "bb_inv src" using Cons.prems(3) e by auto
  let ?bs = "if key a = k then bs @ unread src else bs"
  have b: "bs @ burst_bits key k (e # evs) = ?bs @ burst_bits key k evs" by (simp add: burst_bits_def e)
  obtain s' src' where s': "nxt a (s, src) = Ok ((), (s', src'))" "inv s'" "pending s' k = Some ?bs"
  proof (cases "key a = k")
    case True
    then have "length bs + length (unread src) \<le> maxlen" using Cons.prems(4) by (simp add: burst_bits_def e)
    from nxt_appends [OF Cons.prems(1) v _ this] Cons.prems(2) True show ?thesis by (auto intro: that)
  next
    case False
    with nxt_frame [OF Cons.prems(1) v] Cons.prems(2) show ?thesis by (auto intro: that)
  qed
  have "length ?bs + length (burst_bits key k evs) \<le> maxlen"
    using Cons.prems(4) arg_cong [OF b, of length] by simp
  from Cons.IH [OF s'(2,3) _ this] Cons.prems(3) show ?case unfolding b by (auto simp: e s'(1))
qed

lemma burst_reassembled:
  assumes "inv s" and "key (fst l) = key (fst f)" and "\<forall>e \<in> insert f (insert l (set evs)). valid (fst e) \<and> bb_inv (snd e)"
    and "length (unread (snd f)) + length (burst_bits key (key (fst f)) evs) + length (unread (snd l)) \<le> maxlen"
  shows "\<exists>b. run_burst first nxt fin s f evs l = Ok (Some b) \<and>
    unread (df_buffer b) = unread (snd f) @ burst_bits key (key (fst f)) evs @ unread (snd l)"
proof -
  have v: "valid (fst f)" "bb_inv (snd f)" "valid (fst l)" "bb_inv (snd l)"
    using assms(3) by auto
  from first_starts [OF assms(1) v(1,2)] obtain s1 src1
    where s1: "first (fst f) (s, snd f) = Ok ((), (s1, src1))" "inv s1" "pending s1 (key (fst f)) = Some (unread (snd f))" by blast
  from feed_collects [OF s1(2,3), of evs] assms(3,4) obtain s2
    where s2: "feed nxt evs s1 = Ok s2" "inv s2" "pending s2 (key (fst l)) = Some (unread (snd f) @ burst_bits key (key (fst f)) evs)"
    using assms(2) by auto
  from fin_completes [OF s2(2) v(3,4) s2(3)] assms(4) obtain b s3 src3
    where "fin (fst l) (s2, snd l) = Ok (Some b, (s3, src3))"
      "unread (df_buffer b) = (unread (snd f) @ burst_bits key (key (fst f)) evs) @ unread (snd l)" by auto
  with s1(1) s2(1) show ?thesis by (simp add: run_burst_def)
qed

end

text \<open>The base station: a burst is a timeslot and an SSI.\<close>

type_synonym bs_arg = "TdmaTime \<times> TetraAddress \<times> int option"

definition bs_key :: "bs_arg \<Rightarrow> nat \<times> u32" where
  "bs_key a = (slot_index (fst a), ta_ssi (fst (snd a)))"

definition bs_first :: "bs_arg \<Rightarrow> unit bsdef" where
  "bs_first a = BsDefrag_insert_first (fst a) (fst (snd a)) (snd (snd a))"

definition bs_next :: "bs_arg \<Rightarrow> unit bsdef" where
  "bs_next a = BsDefrag_insert_next (ta_ssi (fst (snd a))) (fst a)"

definition bs_last :: "bs_arg \<Rightarrow> DefragBuffer option bsdef" where
  "bs_last a = BsDefrag_insert_last (ta_ssi (fst (snd a))) (fst a)"

lemma pending_bits_cong: "ctx d ts ssi = ctx d' ts ssi \<Longrightarrow> pending_bits d ts ssi = pending_bits d' ts ssi"
  by (simp add: pending_bits_def)

interpretation bs: reassembler bd_inv "\<lambda>d k. pending_bits d (fst k) (snd k)" bs_key "\<lambda>a. TdmaTime_is_valid (fst a)"
  DEFRAG_BUF_MAX_LEN bs_first bs_next bs_last
proof
  fix s :: BsDefrag and a :: bs_arg and src bs
  assume i: "bd_inv s" "TdmaTime_is_valid (fst a)" "bb_inv src"
  show "\<exists>s' src'. bs_first a (s, src) = Ok ((), (s', src')) \<and> bd_inv s' \<and> pending_bits s' (fst (bs_key a)) (snd (bs_key a)) = Some (unread src)"
    using insert_first_spec [OF i(1,3,2), of "fst (snd a)" "snd (snd a)"] by (auto simp: bs_first_def bs_key_def)
  show "\<exists>s' src'. bs_next a (s, src) = Ok ((), (s', src')) \<and> bd_inv s' \<and>
      (\<forall>k. k \<noteq> bs_key a \<longrightarrow> pending_bits s' (fst k) (snd k) = pending_bits s (fst k) (snd k))"
    using insert_next_total [OF i(1,3,2), of "ta_ssi (fst (snd a))"] by (fastforce simp: bs_next_def bs_key_def intro: pending_bits_cong)
  assume p: "pending_bits s (fst (bs_key a)) (snd (bs_key a)) = Some bs" "length bs + length (unread src) \<le> DEFRAG_BUF_MAX_LEN"
  then have p': "pending_bits s (slot_index (fst a)) (ta_ssi (fst (snd a))) = Some bs" by (simp add: bs_key_def)
  show "\<exists>s' src'. bs_next a (s, src) = Ok ((), (s', src')) \<and> bd_inv s' \<and> pending_bits s' (fst (bs_key a)) (snd (bs_key a)) = Some (bs @ unread src)"
    using insert_next_spec [OF i(1,3,2) p' p(2)] by (auto simp: bs_next_def bs_key_def)
  show "\<exists>b s' src'. bs_last a (s, src) = Ok (Some b, (s', src')) \<and> bd_inv s' \<and> unread (df_buffer b) = bs @ unread src"
    using insert_last_spec [OF i(1,3,2) p' p(2)] by (auto simp: bs_last_def)
qed

section \<open>The mobile's defragmenter\<close>

text \<open>An inactive buffer is empty; \<open>insert_first\<close> relies on it.\<close>

definition ms_ctx_ok :: "DefragBuffer \<Rightarrow> bool" where
  "ms_ctx_ok b \<longleftrightarrow> ctx_ok b \<and> (df_state b = Inactive \<longrightarrow> ctx_bits b = [])"

definition md_inv :: "MsDefrag \<Rightarrow> bool" where
  "md_inv d \<longleftrightarrow> length (md_buffers d) = 4 \<and> (\<forall>b \<in> set (md_buffers d). ms_ctx_ok b)"

definition ms_pending :: "MsDefrag \<Rightarrow> nat \<Rightarrow> bool list option" where
  "ms_pending d ts =
     (if ts < 4 \<and> df_state (md_buffers d ! ts) = Active then Some (ctx_bits (md_buffers d ! ts)) else None)"

lemma ms_fresh [simp]: "ms_ctx_ok DefragBuffer_new" "ms_ctx_ok (DefragBuffer_reset b)"
  using ctx_ok_fresh(1) [OF df_buffer_fresh(1)] ctx_ok_fresh(2) [OF df_buffer_fresh(1)]
    ctx_ok_fresh(1) [OF df_buffer_fresh(2)] ctx_ok_fresh(2) [OF df_buffer_fresh(2)]
  by (auto simp: ms_ctx_ok_def)

lemma md_inv_new [simp]: "md_inv MsDefrag_new"
  by (simp add: md_inv_def MsDefrag_new_def)

lemma md_inv_age: "md_inv d \<Longrightarrow> md_inv (MsDefrag_age_buffers t d)"
  by (auto simp: md_inv_def MsDefrag_age_buffers_def)

lemma md_inv_update: "md_inv d \<Longrightarrow> ms_ctx_ok b \<Longrightarrow> md_inv (d\<lparr>md_buffers := (md_buffers d)[ts := b]\<rparr>)"
  by (auto simp: md_inv_def dest!: subsetD [OF set_update_subset_insert])

lemma ms_pending_update:
  "md_inv d \<Longrightarrow> ts < 4 \<Longrightarrow> ms_pending (d\<lparr>md_buffers := (md_buffers d)[ts := b]\<rparr>) ts' =
    (if ts' = ts then if df_state b = Active then Some (ctx_bits b) else None else ms_pending d ts')"
  by (simp add: ms_pending_def md_inv_def)

lemma ms_insert_first_spec:
  assumes d: "md_inv d" and t: "TdmaTime_is_valid t" and src: "bb_inv src"
  shows "\<exists>d' src'. MsDefrag_insert_first t addr aie (d, src) = Ok ((), (d', src')) \<and> md_inv d' \<and>
    ms_pending d' (slot_index t) = Some (unread src)"
proof -
  let ?ts = "slot_index t"
  let ?b = "md_buffers d ! ?ts"
  note ts = slot_index_valid [OF t]
  have len: "length (md_buffers d) = 4" and ok: "ms_ctx_ok ?b" using d ts by (auto simp: md_inv_def)
  let ?init = "(if df_state ?b \<noteq> Inactive then DefragBuffer_reset ?b else ?b)
     \<lparr>df_state := Active, df_addr := addr, df_t_first := t, df_t_last := t, df_num_frags := 1, df_aie_info := aie\<rparr>"
  have "ctx_ok ?init \<and> ctx_bits ?init = []"
  proof (cases "df_state ?b = Inactive")
    case True
    then have "df_buffer ?init = df_buffer ?b" by simp
    from ctx_ok_cong [OF this] ok True show ?thesis unfolding ms_ctx_ok_def by argo
  next
    case False
    then have "df_buffer ?init = new_autoexpand DEFRAG_BUF_INITIAL_LEN" by simp
    then show ?thesis using ctx_ok_fresh by blast
  qed
  then have b0: "ctx_ok ?init" "ctx_bits ?init = []" by blast+
  have "length (unread src) < 2 ^ 64" using src length_unread [OF src] by (auto simp: get_len_remaining_def bb_inv_def)
  with append_fragment_spec [OF b0(1) src] b0(2) obtain dst where dst: "append_fragment ?init src = Ok (?init\<lparr>df_buffer := dst\<rparr>, consumed src)"
    "ctx_ok (?init\<lparr>df_buffer := dst\<rparr>)" "ctx_bits (?init\<lparr>df_buffer := dst\<rparr>) = unread src" by auto
  let ?d = "d\<lparr>md_buffers := (md_buffers d)[?ts := ?init\<lparr>df_buffer := dst\<rparr>]\<rparr>"
  have "MsDefrag_insert_first t addr aie (d, src) = Ok ((), (?d, consumed src))"
    using ts len dst(1) unfolding MsDefrag_insert_first_def by (simp add: Let_def)
  moreover have "md_inv ?d" using d dst(2) by (intro md_inv_update) (simp_all add: ms_ctx_ok_def)
  moreover have "ms_pending ?d ?ts = Some (unread src)" using ms_pending_update [OF d ts] dst(3) by simp
  ultimately show ?thesis by blast
qed

lemma ms_insert_appends:
  assumes d: "md_inv d" and t: "TdmaTime_is_valid t" and src: "bb_inv src"
    and p: "ms_pending d (slot_index t) = Some bs" and len: "length bs + length (unread src) \<le> DEFRAG_BUF_MAX_LEN"
    and st: "st \<noteq> Inactive"
  shows "\<exists>d' b. MsDefrag_insert st t (d, src) = Ok ((), (d', consumed src)) \<and> md_inv d' \<and>
    d' = d\<lparr>md_buffers := (md_buffers d)[slot_index t := b]\<rparr> \<and> df_state b = st \<and> ctx_ok b \<and> ctx_bits b = bs @ unread src"
proof -
  let ?ts = "slot_index t"
  let ?b = "md_buffers d ! ?ts"
  note ts = slot_index_valid [OF t]
  have l4: "length (md_buffers d) = 4" and ok: "ctx_ok ?b" using d ts by (auto simp: md_inv_def ms_ctx_ok_def)
  have b: "df_state ?b = Active" "ctx_bits ?b = bs" using p by (auto simp: ms_pending_def split: if_splits)
  let ?b1 = "?b\<lparr>df_state := st, df_t_last := t, df_num_frags := df_num_frags ?b + 1\<rparr>"
  have b1: "ctx_ok ?b1" "ctx_bits ?b1 = bs" using ok b(2) ctx_ok_cong [of ?b1 ?b] by simp_all
  have "length (ctx_bits ?b1) + length (unread src) < 2 ^ 64" using len b1(2) by (simp add: DEFRAG_BUF_MAX_LEN_def)
  from append_fragment_spec [OF b1(1) src this] b1(2) obtain dst where dst:
    "append_fragment ?b1 src = Ok (?b1\<lparr>df_buffer := dst\<rparr>, consumed src)" "ctx_ok (?b1\<lparr>df_buffer := dst\<rparr>)"
    "ctx_bits (?b1\<lparr>df_buffer := dst\<rparr>) = bs @ unread src" by auto
  let ?c = "?b1\<lparr>df_buffer := dst\<rparr>"
  have "MsDefrag_insert st t (d, src) = Ok ((), (d\<lparr>md_buffers := (md_buffers d)[?ts := ?c]\<rparr>, consumed src))"
    using ts l4 b len dst(1) ctx_len [OF ok] src by (simp add: MsDefrag_insert_def Let_def length_unread)
  moreover have "md_inv (d\<lparr>md_buffers := (md_buffers d)[?ts := ?c]\<rparr>)"
    using d dst(2) st by (intro md_inv_update) (simp_all add: ms_ctx_ok_def)
  ultimately show ?thesis using dst by (intro exI [of _ "d\<lparr>md_buffers := (md_buffers d)[?ts := ?c]\<rparr>"] exI [of _ ?c]) simp
qed

lemma ms_insert_total:
  assumes d: "md_inv d" and t: "TdmaTime_is_valid t" and src: "bb_inv src" and st: "st \<noteq> Inactive"
  shows "\<exists>d' src'. MsDefrag_insert st t (d, src) = Ok ((), (d', src')) \<and> md_inv d' \<and>
    (\<forall>ts. ts \<noteq> slot_index t \<longrightarrow> ms_pending d' ts = ms_pending d ts)"
proof -
  let ?ts = "slot_index t"
  let ?b = "md_buffers d ! ?ts"
  note ts = slot_index_valid [OF t]
  have l4: "length (md_buffers d) = 4" and ok: "ctx_ok ?b" using d ts by (auto simp: md_inv_def ms_ctx_ok_def)
  consider (inactive) "df_state ?b \<noteq> Active"
    | (overflow) "df_state ?b = Active" "DEFRAG_BUF_MAX_LEN < length (ctx_bits ?b) + length (unread src)"
    | (fits) "df_state ?b = Active" "length (ctx_bits ?b) + length (unread src) \<le> DEFRAG_BUF_MAX_LEN" by linarith
  then show ?thesis
  proof cases
    case inactive
    then show ?thesis using d ts l4 by (simp add: MsDefrag_insert_def Let_def)
  next
    case overflow
    then have "MsDefrag_insert st t (d, src) = Ok ((), (d\<lparr>md_buffers := (md_buffers d)[?ts := DefragBuffer_new]\<rparr>, src))"
      using ts l4 ctx_len [OF ok] src by (simp add: MsDefrag_insert_def Let_def length_unread)
    then show ?thesis using md_inv_update [OF d ms_fresh(1)] ms_pending_update [OF d ts] by simp
  next
    case fits
    then have "ms_pending d ?ts = Some (ctx_bits ?b)" using ts by (simp add: ms_pending_def)
    from ms_insert_appends [OF d t src this fits(2) st] ms_pending_update [OF d ts] show ?thesis by auto
  qed
qed

text \<open>\<open>insert_last\<close> followed by \<open>take_defragged_buf\<close>.\<close>

type_synonym ms_arg = "TdmaTime \<times> TetraAddress \<times> int option"

definition ms_first :: "ms_arg \<Rightarrow> unit msdef" where
  "ms_first a = MsDefrag_insert_first (fst a) (fst (snd a)) (snd (snd a))"

definition ms_next :: "ms_arg \<Rightarrow> unit msdef" where
  "ms_next a = MsDefrag_insert_next (fst a)"

definition ms_last :: "ms_arg \<Rightarrow> DefragBuffer option msdef" where
  "ms_last a =
     bind (MsDefrag_insert_last (fst a)) (\<lambda>_ (d, src).
       case MsDefrag_take_defragged_buf (fst a) d of Ok (r, d) \<Rightarrow> Ok (r, (d, src)) | Err e \<Rightarrow> Err e | Panic \<Rightarrow> Panic)"

lemma ms_take_spec:
  assumes d: "md_inv d" and t: "TdmaTime_is_valid t" and b: "md_buffers d ! slot_index t = b" "df_state b = Complete"
  shows "\<exists>c d'. MsDefrag_take_defragged_buf t d = Ok (Some c, d') \<and> md_inv d' \<and> unread (df_buffer c) = ctx_bits b"
proof -
  note ts = slot_index_valid [OF t]
  have l4: "length (md_buffers d) = 4" and ok: "ctx_ok b" using d ts b by (auto simp: md_inv_def ms_ctx_ok_def)
  then have run: "bind (gets bb_pos) (\<lambda>p. bind (set_raw_end p) (\<lambda>_. seek 0)) (df_buffer b) = Ok ((), (df_buffer b)\<lparr>bb_pos := 0\<rparr>)"
    by (auto simp: bind_def gets_def set_raw_end_def seek_def try_seek_def checked_add_def ctx_ok_def bb_inv_def ret_def)
  have "MsDefrag_take_defragged_buf t d = Ok (Some (b\<lparr>df_buffer := (df_buffer b)\<lparr>bb_pos := 0\<rparr>\<rparr>),
      d\<lparr>md_buffers := (md_buffers d)[slot_index t := DefragBuffer_new]\<rparr>)"
    using ts l4 b run by (simp add: MsDefrag_take_defragged_buf_def Let_def)
  then show ?thesis using md_inv_update [OF d ms_fresh(1), of "slot_index t"] by (simp add: unread_def ctx_bits_def)
qed

interpretation ms: reassembler md_inv ms_pending "\<lambda>a :: ms_arg. slot_index (fst a)" "\<lambda>a. TdmaTime_is_valid (fst a)"
  DEFRAG_BUF_MAX_LEN ms_first ms_next ms_last
proof
  fix s :: MsDefrag and a :: ms_arg and src bs
  assume i: "md_inv s" "TdmaTime_is_valid (fst a)" "bb_inv src"
  show "\<exists>s' src'. ms_first a (s, src) = Ok ((), (s', src')) \<and> md_inv s' \<and> ms_pending s' (slot_index (fst a)) = Some (unread src)"
    using ms_insert_first_spec [OF i] by (simp add: ms_first_def)
  show "\<exists>s' src'. ms_next a (s, src) = Ok ((), (s', src')) \<and> md_inv s' \<and>
      (\<forall>k. k \<noteq> slot_index (fst a) \<longrightarrow> ms_pending s' k = ms_pending s k)"
    using ms_insert_total [OF i, of Active] by (simp add: ms_next_def MsDefrag_insert_next_def)
  assume p: "ms_pending s (slot_index (fst a)) = Some bs" "length bs + length (unread src) \<le> DEFRAG_BUF_MAX_LEN"
  note ts = slot_index_valid [OF i(2)]
  show "\<exists>s' src'. ms_next a (s, src) = Ok ((), (s', src')) \<and> md_inv s' \<and> ms_pending s' (slot_index (fst a)) = Some (bs @ unread src)"
    using ms_insert_appends [OF i p, of Active] ms_pending_update [OF i(1) ts] by (auto simp: ms_next_def MsDefrag_insert_next_def)
  from ms_insert_appends [OF i p, of Complete] obtain d b where d: "MsDefrag_insert_last (fst a) (s, src) = Ok ((), (d, consumed src))" "md_inv d"
    "d = s\<lparr>md_buffers := (md_buffers s)[slot_index (fst a) := b]\<rparr>" "df_state b = Complete" "ctx_bits b = bs @ unread src"
    by (auto simp: MsDefrag_insert_last_def)
  then have "md_buffers d ! slot_index (fst a) = b" using i(1) ts by (simp add: md_inv_def)
  from ms_take_spec [OF d(2) i(2) this d(4)] d(1,5)
  show "\<exists>b s' src'. ms_last a (s, src) = Ok (Some b, (s', src')) \<and> md_inv s' \<and> unread (df_buffer b) = bs @ unread src"
    by (auto simp: ms_last_def bind_def)
qed

end
