(* ===== verification/Umac_Properties.thy ===== *)
theory Umac_Properties
  imports Llc_Pdus Umac_Pdus_Ul_Spec Bs_Frag_Spec Defrag_Spec
begin

text \<open>Properties of the LLC and upper MAC PDUs, of fragmentation and of reassembly, each with a witness.\<close>

section \<open>PDUs\<close>

text \<open>Every MAC-RESOURCE that the writer accepts is read back from the position where it was written, with all its fields; only
  the kind of a plain SSI, which is not on the air, becomes the generic one.\<close>

theorem MacResource_roundtrip:
  assumes "MacResource_writable p" and "bb_inv b" and "room b (length (MacResource_enc p))"
  shows "\<exists>b'. MacResource_to_bitbuf p b = Ok ((), b') \<and>
    MacResource_from_bitbuf (b'\<lparr>bb_pos := bb_pos b\<rparr>) = Ok (MacResource_norm p, b')"
proof -
  from emits_MacResource [OF assms(1)] assms(2,3)
  obtain b' where b': "MacResource_to_bitbuf p b = Ok ((), b')" "wrote b (MacResource_enc p) b'" by (rule emitsE)
  from wrote_readback [OF assms(2) b'(2) parses_MacResource [OF assms(1)]] b'(1) show ?thesis by blast
qed

definition sample_resource :: MacResource where
  "sample_resource = \<lparr>mr_fill_bits = False, mr_pos_of_grant = 0, mr_encryption_mode = 0, mr_random_access_flag = False,
     mr_length_ind = 9, mr_addr = Some \<lparr>ta_ssi = 1234, ta_ssi_type = SsiType_Issi\<rparr>, mr_event_label = None,
     mr_usage_marker = None, mr_power_control_element = None, mr_slot_granting_element = None, mr_chan_alloc_element = None\<rparr>"

lemma sample_resource_ok: "MacResource_writable sample_resource" "frag_ready sample_resource" "mr_hdr_len sample_resource = 43"
  by (simp_all add: MacResource_writable_def frag_ready_def sample_resource_def fits_unat mr_addr_ok_def mr_null_ok_def
      MacResource_is_null_pdu_def mr_hdr_len_def MacResource_enc_def mr_enc_addr_def mr_enc_tail_def length_enc_flagged)

theorem MacResource_roundtrip_witness:
  "\<exists>b'. MacResource_to_bitbuf sample_resource (BitBuffer_new 124) = Ok ((), b') \<and>
    MacResource_from_bitbuf (b'\<lparr>bb_pos := 0\<rparr>) = Ok (MacResource_norm sample_resource, b')"
  using MacResource_roundtrip [OF sample_resource_ok(1), of "BitBuffer_new 124"] sample_resource_ok(3)
  by (simp add: room_def mr_hdr_len_def) (simp add: BitBuffer_new_def)

text \<open>The header length that the fragmenter and the scheduler compute for a MAC-RESOURCE is the number of bits its writer emits,
  and \<open>update_len_and_fill_ind\<close> sets the length to the whole octets that header, SDU and fill bits occupy.\<close>

theorem MacResource_lengths:
  assumes "MacResource_writable p" and "div_ceil8 (length (MacResource_enc p) + sdu_len) < 256"
  shows "MacResource_compute_header_len p = Some (length (MacResource_enc p)) \<and>
    (\<exists>q fill. MacResource_update_len_and_fill_ind p sdu_len = Some (q, fill) \<and> fill < 8 \<and>
       length (MacResource_enc p) + sdu_len + fill = 8 * unat (mr_length_ind q) \<and> (mr_fill_bits q \<longleftrightarrow> fill \<noteq> 0))"
  using MacResource_header_len [OF assms(1)] MacResource_update_len [OF assms] by blast

theorem MacResource_lengths_witness:
  "\<exists>q fill. MacResource_update_len_and_fill_ind sample_resource 10 = Some (q, fill) \<and> 43 + 10 + fill = 8 * unat (mr_length_ind q)"
  using MacResource_lengths [OF sample_resource_ok(1), of 10] sample_resource_ok(3) by (auto simp: mr_hdr_len_def div_ceil8_def)

text \<open>Every well-formed MAC-ACCESS is written and read back unchanged, and the encodings of two different ones never start with the
  same bits, whatever follows.\<close>

theorem MacAccess_codec:
  assumes "MacAccess_wf p" and "bb_inv b" and "room b (length (MacAccess_enc p))"
  shows "(\<exists>b'. MacAccess_to_bitbuf p b = Ok ((), b') \<and> MacAccess_from_bitbuf (b'\<lparr>bb_pos := bb_pos b\<rparr>) = Ok (p, b')) \<and>
    (\<forall>q xs ys. MacAccess_wf q \<longrightarrow> MacAccess_enc p @ xs = MacAccess_enc q @ ys \<longrightarrow> length (MacAccess_enc p @ xs) < 2 ^ 64 \<longrightarrow> p = q)"
  using MacAccess.roundtrip [OF assms] MacAccess.enc_prefix_free [OF assms(1)] by blast

definition sample_access :: MacAccess where
  "sample_access = \<lparr>MacAccess_fill_bits = True, MacAccess_encrypted = False,
     MacAccess_addr = Some \<lparr>ta_ssi = 99, ta_ssi_type = SsiType_Issi\<rparr>, MacAccess_event_label = None,
     MacAccess_length_ind = None, MacAccess_frag_flag = Some True, MacAccess_reservation_req = Some ReservationRequirement_Req2Slots\<rparr>"

theorem MacAccess_codec_witness:
  "\<exists>b'. MacAccess_to_bitbuf sample_access (BitBuffer_new 92) = Ok ((), b') \<and>
     MacAccess_from_bitbuf (b'\<lparr>bb_pos := 0\<rparr>) = Ok (sample_access, b')"
proof -
  have wf: "MacAccess_wf sample_access"
    by (simp add: MacAccess_wf_def sample_access_def wf_ul_addr_def wf_len_def fits_unat)
  have "length (MacAccess_enc sample_access) \<le> 92"
    by (simp add: MacAccess_enc_def sample_access_def enc_ul_addr_def MacAccess_enc_opt_def enc_opt_len_def)
  then have "room (BitBuffer_new 92) (length (MacAccess_enc sample_access))" by (simp add: room_def BitBuffer_new_def)
  from MacAccess_codec [OF wf _ this] show ?thesis by (simp, simp add: BitBuffer_new_def)
qed

text \<open>No sequence of received bits makes a reader of an uplink or LLC PDU panic or move the cursor outside the window: each
  returns a PDU or a parse error.\<close>

theorem uplink_readers_safe:
  "safe MacAccess_from_bitbuf \<and> safe MacData_from_bitbuf \<and> safe MacEndHu_from_bitbuf \<and> safe MacEndUl_from_bitbuf \<and>
   safe MacFragUl_from_bitbuf \<and> safe MacUSignal_from_bitbuf \<and> safe MacUBlck_from_bitbuf \<and>
   safe BlAck_from_bitbuf \<and> safe BlAdata_from_bitbuf \<and> safe BlData_from_bitbuf \<and> safe BlUdata_from_bitbuf"
  by (intro conjI MacAccess.safe MacData.safe MacEndHu.safe MacEndUl.safe MacFragUl.safe MacUSignal.safe MacUBlck.safe
      BlAck.safe BlAdata.safe BlData.safe BlUdata.safe)

text \<open>Every reservation requirement that a mobile can send is answered by a capacity allocation of the same number of slots (a
  subslot by a subslot), and the requirement chosen for a number of slots is the smallest one that covers it.\<close>

theorem requirement_granted:
  "(\<exists>g. BasicSlotgrantCapAlloc_from_req_slotcount (ReservationRequirement_to_req_slotcount r) = Some g \<and>
     (r \<noteq> ReservationRequirement_Req1Subslot \<longrightarrow>
      BasicSlotgrantCapAlloc_to_req_slotcount g = Some (ReservationRequirement_to_req_slotcount r))) \<and>
   (req \<le> 68 \<longrightarrow> req \<le> ReservationRequirement_to_req_slotcount (ReservationRequirement_from_req_slotcount req) \<and>
     (\<forall>r'. req \<le> ReservationRequirement_to_req_slotcount r' \<longrightarrow>
       ReservationRequirement_to_req_slotcount (ReservationRequirement_from_req_slotcount req)
         \<le> ReservationRequirement_to_req_slotcount r'))"
  using grant_of_requirement [of r] req_slotcount_up [of req] by blast

theorem requirement_granted_witness:
  "7 \<le> ReservationRequirement_to_req_slotcount (ReservationRequirement_from_req_slotcount 7)"
  using requirement_granted [of ReservationRequirement_Req1Slot 7] by simp

section \<open>Fill bits\<close>

text \<open>The fill bits that the sender adds are the fill bits that the receiver removes: after an SDU and \<open>k\<close> fill bits, the scan
  from the end of the PDU returns \<open>k\<close>; the number of fill bits is below 8, never exceeds the room left, and aligns the
  PDU to an octet or to the end of the slot.\<close>

theorem fill_bits_roundtrip:
  assumes "bb_inv b" and "unread b = sdu @ fill_bits_of k @ rest" and "k = compute_required (get_pos b + length sdu) cap"
    and "get_pos b + length sdu \<le> cap" and "0 < k"
  shows "get_num_fill_bits (get_pos b + length sdu + k) b = Ok (k, b) \<and> emits (fillbits_write (Some k)) (fill_bits_of k) \<and>
    k < 8 \<and> get_pos b + length sdu + k \<le> cap \<and> ((get_pos b + length sdu + k) mod 8 = 0 \<or> get_pos b + length sdu + k = cap)"
  using get_num_fill_bits_found [OF assms(1,2,5) refl] compute_required [OF assms(4)] assms(3) emits_fillbits_write by simp

theorem fill_bits_roundtrip_witness:
  "get_num_fill_bits 8 (from_vec [0xA8]) = Ok (4, from_vec [0xA8])"
proof -
  let ?sdu = "[True, False, True, False]"
  have f: "fill_bits_of 4 = [True, False, False, False]" by (simp add: fill_bits_of_def eval_nat_numeral)
  have "to_bits 8 (0xA8 :: u8) = ?sdu @ fill_bits_of 4 @ []"
    unfolding f by (simp add: to_bits_def upt_rec bit_numeral_rec)
  then have u: "unread (from_vec [0xA8]) = ?sdu @ fill_bits_of 4 @ []"
    by (simp add: unread_def content_def from_vec_def bytes_bits_def f)
  have p: "get_pos (from_vec [0xA8]) = 0" by (simp add: get_pos_def from_vec_def)
  have k: "4 = compute_required (get_pos (from_vec [0xA8]) + length ?sdu) 268"
    by (simp add: p compute_required_def compute_required_bytealigned_def)
  have inv: "bb_inv (from_vec [0xA8])" by (simp add: bb_inv_def from_vec_def)
  from fill_bits_roundtrip [OF inv u k] show ?thesis by (simp add: p)
qed

section \<open>Fragmentation\<close>

text \<open>C1. Fragmentation is lossless and ends. Given blocks that are ready and have room for the header and at least 32 bits (below
  512, as all slots of the air interface have), and enough of them, the fragmenter reports completion without a panic;
  the SDU parts of the chunks it wrote, concatenated in order, are the SDU; every chunk is a MAC-RESOURCE, MAC-FRAG or
  MAC-END header followed by its part and the fill bits the header announces; and the reporter is marked transmitted.\<close>

theorem fragmentation_lossless:
  assumes "frag_active f" and "blocks_needed (frag_abs f) \<le> length blks"
    and "\<forall>blk \<in> set blks. block_ready blk \<and> 32 \<le> get_len_remaining blk \<and> mr_hdr_len (bf_resource f) \<le> get_len_remaining blk \<and>
      get_len_remaining blk < 512"
  shows "\<exists>g out chunks. send_blocks f blks = Ok (True, g, out) \<and> concat (map snd chunks) = unread (bf_sdu f) \<and>
    length out = length chunks \<and> list_all2 (\<lambda>(blk, blk') (bits, part). wrote blk bits blk') (zip blks out) chunks \<and>
    (\<forall>(bits, part) \<in> set chunks. chunk_format (bf_resource f) bits part) \<and> is_fully_transmitted g \<and> reporter_done g"
proof -
  from send_blocks_refines [OF assms(1), of blks] assms(3)
  obtain fin g out outs where s: "send_blocks f blks = Ok (fin, g, out)" "length out = length outs"
    "frag_run (bf_resource f) (map get_len_remaining blks) (frag_abs f) outs fin (frag_abs g)"
    "list_all2 (\<lambda>(blk, blk') (bits, part). wrote blk bits blk') (zip blks out) outs"
    "if fin then is_fully_transmitted g \<and> reporter_done g else frag_active g" by blast
  from frag_run_finishes [OF s(3)] assms(2,3) have fin: fin by auto
  from frag_run_parts [OF s(3)] fin have "concat (map snd outs) = unread (bf_sdu f)" by (simp add: frag_abs_def)
  moreover have "\<forall>(bits, part) \<in> set outs. chunk_format (bf_resource f) bits part" using frag_run_format [OF s(3)] by auto
  ultimately show ?thesis using s fin by auto
qed

definition sample_fragger :: BsFragger where
  "sample_fragger = \<lparr>bf_resource = sample_resource, mac_hdr_is_written = False, is_fully_transmitted = False,
     bf_sdu = BitBuffer_new 200, bf_tx_reporter = Some (TxReporter_new 0)\<rparr>"

lemma sample_fragger_ok: "frag_active sample_fragger" "unread (bf_sdu sample_fragger) = replicate 200 False"
  using sample_resource_ok(2)
  by (simp_all add: frag_active_def frag_inv_def sample_fragger_def reporter_pending_def TxReporter_new_def get_pos_def unread_def
      content_new) (simp_all add: BitBuffer_new_def)

lemma sample_block_ok: "block_ready (BitBuffer_new 124)" "get_len_remaining (BitBuffer_new 124) = 124"
  by (simp_all add: block_ready_def get_len_written_def get_len_remaining_def) (simp_all add: BitBuffer_new_def)

theorem fragmentation_lossless_witness:
  "\<exists>g out. send_blocks sample_fragger (replicate 10 (BitBuffer_new 124)) = Ok (True, g, out) \<and> is_fully_transmitted g \<and> reporter_done g"
proof -
  have "blocks_needed (frag_abs sample_fragger) \<le> length (replicate 10 (BitBuffer_new 124))"
    using sample_fragger_ok(2) by (simp add: blocks_needed_def frag_abs_def sample_fragger_def)
  moreover have "bf_resource sample_fragger = sample_resource" by (simp add: sample_fragger_def)
  then have "\<forall>blk \<in> set (replicate 10 (BitBuffer_new 124)). block_ready blk \<and> 32 \<le> get_len_remaining blk \<and>
      mr_hdr_len (bf_resource sample_fragger) \<le> get_len_remaining blk \<and> get_len_remaining blk < 512"
    using sample_block_ok sample_resource_ok(3) by (simp add: in_set_replicate)
  ultimately show ?thesis
    using fragmentation_lossless [OF sample_fragger_ok(1), of "replicate 10 (BitBuffer_new 124)"] sample_fragger_ok(2) by blast
qed

text \<open>C5. One call of \<open>get_next_chunk\<close> implements the abstract fragmentation step for every capacity below 512 bits: it writes exactly
  the bits of the step, leaves the block octet aligned or full, as the next call asserts, and keeps the fragmenter's invariant.\<close>

theorem get_next_chunk_implements_step:
  assumes "frag_active f" and "block_ready blk" and "get_len_remaining blk < 512"
  shows "\<exists>fin f' blk' bits part. get_next_chunk (f, blk) = Ok (fin, (f', blk')) \<and>
    frag_step (bf_resource f) (get_len_remaining blk) (frag_abs f) bits part fin (frag_abs f') \<and>
    wrote blk bits blk' \<and> block_ready blk' \<and> (if fin then is_fully_transmitted f' \<and> reporter_done f' else frag_active f')"
  using get_next_chunk_refines [OF assms] by blast

theorem get_next_chunk_implements_step_witness:
  "\<exists>fin f' blk'. get_next_chunk (sample_fragger, BitBuffer_new 124) = Ok (fin, (f', blk')) \<and> block_ready blk'"
  using get_next_chunk_implements_step [OF sample_fragger_ok(1) sample_block_ok(1)] sample_block_ok(2) by auto

text \<open>A MAC-RESOURCE whose SDU ends within the last, incomplete octet of the slot is sent with a length that is rounded down: the
  length it announces, in bits, is smaller than header and SDU together, whereas rounding up would cover them.\<close>

theorem resource_length_rounded_down:
  assumes "frag_ready r" and "mr_hdr_len r + length sdu \<le> cap" and "8 * (cap div 8) < mr_hdr_len r + length sdu" and "cap < 512"
  shows "\<exists>bits l fill. frag_step r cap (False, sdu) bits sdu True (True, []) \<and>
    take (mr_hdr_len r) bits = MacResource_enc (res_chunk r l fill) \<and>
    8 * unat (mr_length_ind (res_chunk r l fill)) < mr_hdr_len r + length sdu \<and>
    mr_hdr_len r + length sdu \<le> 8 * div_ceil8 (mr_hdr_len r + length sdu)"
proof -
  let ?n = "mr_hdr_len r + length sdu"
  let ?k = "compute_required ?n cap"
  let ?l = "(?n + ?k) div 8"
  have l: "8 * ?l < ?n" "?n \<le> 8 * div_ceil8 ?n" using whole_length_rounded_down [OF assms(2,3)] by simp_all
  have "?l < 256" using compute_required(2) [OF assms(2)] assms(4) by linarith
  then have "unat (mr_length_ind (res_chunk r ?l (0 < ?k))) = ?l" by (simp add: res_chunk_def unat_of_nat)
  then show ?thesis using fs_whole [OF refl assms(2) refl] l
    by (intro exI [of _ "MacResource_enc (res_chunk r ?l (0 < ?k)) @ sdu @ fill_bits_of ?k"] exI [of _ ?l] exI [of _ "0 < ?k"]) simp
qed

theorem resource_length_rounded_down_witness:
  "\<exists>bits l fill. frag_step sample_resource 124 (False, replicate 80 True) bits (replicate 80 True) True (True, []) \<and>
    8 * unat (mr_length_ind (res_chunk sample_resource l fill)) < 123"
  using resource_length_rounded_down [OF sample_resource_ok(2), of "replicate 80 True" 124] sample_resource_ok(3) by auto

text \<open>A fragmenter that is dropped before it has finished leaves no receipt pending: a pending reporter is marked discarded.\<close>

theorem drop_leaves_no_pending_receipt:
  assumes "pred_option tx_valid (bf_tx_reporter f)"
  shows "\<exists>g. BsFragger_drop f = Ok g \<and> (is_fully_transmitted f \<or> pred_option (\<lambda>r. get_state r \<noteq> Pending) (bf_tx_reporter g))"
  by (rule drop_reports [OF assms])

theorem drop_leaves_no_pending_receipt_witness:
  "\<exists>g. BsFragger_drop sample_fragger = Ok g \<and> pred_option (\<lambda>r. get_state r \<noteq> Pending) (bf_tx_reporter g)"
  using drop_leaves_no_pending_receipt [of sample_fragger] by (simp add: sample_fragger_def)

section \<open>Reassembly\<close>

text \<open>C4. Whatever mobiles send, in whatever order, the base station's defragmenter never panics, never holds more than 32 contexts
  in a timeslot, never two contexts of one SSI in it, and all of its buffers stay well formed.\<close>

theorem defragmenter_bounded:
  assumes "bd_reachable d"
  shows "length (bd_buffers d) = 4 \<and> (\<forall>m \<in> set (bd_buffers d). length m \<le> 32 \<and> distinct (map fst m) \<and> (\<forall>b \<in> snd ` set m. ctx_ok b)) \<and>
    (\<forall>ev r. bd_event_ok ev \<longrightarrow> bd_step d ev r \<longrightarrow> (\<exists>d'. r = Ok d'))"
proof -
  note inv = bd_reachable_inv [OF assms]
  have "\<forall>ev r. bd_event_ok ev \<longrightarrow> bd_step d ev r \<longrightarrow> (\<exists>d'. r = Ok d')" using bd_step_inv [OF inv] by blast
  then show ?thesis using inv by (auto simp: bd_inv_def ctxs_ok_def DEFRAG_MAX_CONTEXTS_PER_TS_def)
qed

lemma sample_time: "TdmaTime_is_valid TdmaTime_default"
  by (simp add: TdmaTime_is_valid_def TdmaTime_default_def)

lemma sample_buffer: "bb_inv (BitBuffer_new 8)" "unread (BitBuffer_new 8) = replicate 8 False"
  by (simp_all add: unread_def content_new) (simp add: BitBuffer_new_def)

theorem defragmenter_bounded_witness:
  "\<exists>d. bd_reachable d \<and> pending_bits d 0 5 = Some (replicate 8 False) \<and> (\<forall>m \<in> set (bd_buffers d). length m \<le> 32)"
proof -
  let ?a = "TetraAddress_issi 5"
  from insert_first_spec [OF bd_inv_new sample_buffer(1) sample_time, of ?a None] obtain d where
    d: "BsDefrag_insert_first TdmaTime_default ?a None (BsDefrag_new, BitBuffer_new 8) = Ok ((), (d, consumed (BitBuffer_new 8)))"
      "pending_bits d (slot_index TdmaTime_default) (ta_ssi ?a) = Some (replicate 8 False)" by (auto simp: sample_buffer(2))
  from bd_step.intros(3) [of BsDefrag_new "BitBuffer_new 8" TdmaTime_default ?a None] d(1)
  have "bd_step BsDefrag_new (Bd_first (BitBuffer_new 8) TdmaTime_default ?a None) (Ok d)" by simp
  from bd_next [OF bd_init _ this] sample_buffer(1) sample_time have r: "bd_reachable d" by simp
  from defragmenter_bounded [OF this] have "\<forall>m \<in> set (bd_buffers d). length m \<le> 32" by blast
  moreover have "slot_index TdmaTime_default = 0" "ta_ssi ?a = 5" by (simp_all add: slot_index_def TdmaTime_default_def TetraAddress_issi_def)
  ultimately show ?thesis using r d(2) by auto
qed

text \<open>C2. The base station reassembles each burst correctly under interleaving: after a first fragment, any sequence of further
  fragments of this and other bursts, and a last fragment, the SDU handed out is the concatenation of the fragments of
  that burst in the order of arrival, provided it is at most 4096 bits long.\<close>

theorem bs_reassembly:
  assumes "bd_inv d" and "bs_key (fst l) = bs_key (fst f)"
    and "\<forall>e \<in> insert f (insert l (set evs)). TdmaTime_is_valid (fst (fst e)) \<and> bb_inv (snd e)"
    and "length (unread (snd f)) + length (burst_bits bs_key (bs_key (fst f)) evs) + length (unread (snd l)) \<le> DEFRAG_BUF_MAX_LEN"
  shows "\<exists>b. run_burst bs_first bs_next bs_last d f evs l = Ok (Some b) \<and>
    unread (df_buffer b) = unread (snd f) @ burst_bits bs_key (bs_key (fst f)) evs @ unread (snd l)"
  by (rule bs.burst_reassembled [OF assms])

theorem bs_reassembly_witness:
  "\<exists>b. run_burst bs_first bs_next bs_last BsDefrag_new
      ((TdmaTime_default, TetraAddress_issi 5, None), BitBuffer_new 8) [((TdmaTime_default, TetraAddress_issi 6, None), BitBuffer_new 8)]
      ((TdmaTime_default, TetraAddress_issi 5, None), BitBuffer_new 8) = Ok (Some b) \<and> length (unread (df_buffer b)) = 16"
  using bs_reassembly [OF bd_inv_new, of "((TdmaTime_default, TetraAddress_issi 5, None), BitBuffer_new 8)"
      "((TdmaTime_default, TetraAddress_issi 5, None), BitBuffer_new 8)" "[((TdmaTime_default, TetraAddress_issi 6, None), BitBuffer_new 8)]"]
    sample_time sample_buffer by (auto simp: burst_bits_def bs_key_def TetraAddress_issi_def DEFRAG_BUF_MAX_LEN_def)

text \<open>The mobile reassembles the burst of a timeslot in the same way, whatever arrives on the other timeslots.\<close>

theorem ms_reassembly:
  assumes "md_inv d" and "slot_index (fst (fst l)) = slot_index (fst (fst f))"
    and "\<forall>e \<in> insert f (insert l (set evs)). TdmaTime_is_valid (fst (fst e)) \<and> bb_inv (snd e)"
    and "length (unread (snd f)) + length (burst_bits (\<lambda>a. slot_index (fst a)) (slot_index (fst (fst f))) evs) + length (unread (snd l)) \<le> DEFRAG_BUF_MAX_LEN"
  shows "\<exists>b. run_burst ms_first ms_next ms_last d f evs l = Ok (Some b) \<and>
    unread (df_buffer b) = unread (snd f) @ burst_bits (\<lambda>a. slot_index (fst a)) (slot_index (fst (fst f))) evs @ unread (snd l)"
  by (rule ms.burst_reassembled [OF assms])

theorem ms_reassembly_witness:
  "\<exists>b. run_burst ms_first ms_next ms_last MsDefrag_new
      ((TdmaTime_default, TetraAddress_issi 5, None), BitBuffer_new 8) [((TdmaTime_default, TetraAddress_issi 5, None), BitBuffer_new 8)]
      ((TdmaTime_default, TetraAddress_issi 5, None), BitBuffer_new 8) = Ok (Some b) \<and> length (unread (df_buffer b)) = 24"
  using ms_reassembly [OF md_inv_new, of "((TdmaTime_default, TetraAddress_issi 5, None), BitBuffer_new 8)"
      "((TdmaTime_default, TetraAddress_issi 5, None), BitBuffer_new 8)" "[((TdmaTime_default, TetraAddress_issi 5, None), BitBuffer_new 8)]"]
    sample_time sample_buffer by (auto simp: burst_bits_def DEFRAG_BUF_MAX_LEN_def)

text \<open>When a first fragment finds the timeslot full, the context that is evicted has been quiet at least as long as every context
  that stays, contexts of other timeslots are untouched, and ageing removes exactly the contexts quiet for over a multiframe.\<close>

theorem eviction_takes_oldest:
  assumes "bd_inv d" and "bb_inv src" and "TdmaTime_is_valid t"
  shows "(\<exists>d'. BsDefrag_insert_first t addr aie (d, src) = Ok ((), (d', consumed src)) \<and>
      (\<forall>ts ssi. ts \<noteq> slot_index t \<longrightarrow> ctx d' ts ssi = ctx d ts ssi) \<and>
      (\<forall>ssi b ssi' b'. ssi \<noteq> ta_ssi addr \<longrightarrow> ctx d (slot_index t) ssi = Some b \<longrightarrow> ctx d' (slot_index t) ssi = None \<longrightarrow>
         ssi' \<noteq> ta_ssi addr \<longrightarrow> ctx d' (slot_index t) ssi' = Some b' \<longrightarrow>
         TdmaTime_diff t (df_t_last b') \<le> TdmaTime_diff t (df_t_last b))) \<and>
    (\<forall>ts ssi. ctx (BsDefrag_age_buffers t d) ts ssi =
      (case ctx d ts ssi of Some b \<Rightarrow> if TdmaTime_diff t (df_t_last b) > 72 then None else Some b | None \<Rightarrow> None))"
proof (rule conjI)
  show "\<forall>ts ssi. ctx (BsDefrag_age_buffers t d) ts ssi =
      (case ctx d ts ssi of Some b \<Rightarrow> if TdmaTime_diff t (df_t_last b) > 72 then None else Some b | None \<Rightarrow> None)"
    using age_buffers_ctx [OF assms(1), of t]
    by (auto simp: ctx_stale_def DEFRAG_TS_BEFORE_TIMEOUT_def multiframes_def split: option.split)
qed (use insert_first_spec [OF assms, of addr aie] in blast)

theorem eviction_takes_oldest_witness:
  "\<exists>d'. BsDefrag_insert_first TdmaTime_default (TetraAddress_issi 5) None (BsDefrag_new, BitBuffer_new 8) = Ok ((), (d', consumed (BitBuffer_new 8)))"
  using eviction_takes_oldest [OF bd_inv_new sample_buffer(1) sample_time, of "TetraAddress_issi 5" None] by blast

text \<open>A burst that outgrows 4096 bits with its last fragment is not rejected: the defragmenter returns an empty SDU with address
  zero, marked complete.\<close>

theorem overlong_burst_delivered_empty:
  assumes "bd_inv d" and "bb_inv src" and "TdmaTime_is_valid t"
    and "pending_bits d (slot_index t) ssi = Some bs" and "4096 < length bs + length (unread src)"
  shows "\<exists>d' b. BsDefrag_insert_last ssi t (d, src) = Ok (Some b, (d', src)) \<and> df_state b = Complete \<and>
    unread (df_buffer b) = [] \<and> ta_ssi (df_addr b) = 0"
  using assms by (intro insert_last_overflow) (auto simp: DEFRAG_BUF_MAX_LEN_def)

theorem overlong_burst_delivered_empty_witness:
  "\<exists>d d' b. BsDefrag_insert_last 5 TdmaTime_default (d, BitBuffer_new 4097) = Ok (Some b, (d', BitBuffer_new 4097)) \<and> unread (df_buffer b) = []"
proof -
  from insert_first_spec [OF bd_inv_new sample_buffer(1) sample_time, of "TetraAddress_issi 5" None] obtain d
    where "bd_inv d" "pending_bits d (slot_index TdmaTime_default) 5 = Some (unread (BitBuffer_new 8))"
    by (auto simp: TetraAddress_issi_def)
  moreover have "length (unread (BitBuffer_new 4097)) = 4097"
    by (subst length_unread) (simp_all add: get_len_remaining_def, simp add: BitBuffer_new_def)
  ultimately show ?thesis
    using overlong_burst_delivered_empty [of d "BitBuffer_new 4097" TdmaTime_default 5] sample_time by fastforce
qed

end
