(* ===== verification/Crc16.thy ===== *)
theory Crc16
  imports Prelude
begin

text \<open>
  \<open>lmac/components/crc16.rs\<close>: the bit-serial CRC of the control channels, over one bit per byte and over packed bytes.
  The register is linear and its shift is invertible, which gives the two facts the channel coding rests on: a block
  followed by its complemented checksum leaves the residue \<open>TETRA_CRC_OK\<close>, and no other 16 trailing bits do.
\<close>

section \<open>Operations\<close>

definition GEN_POLY :: u16 where
  "GEN_POLY = 0x1021"

definition TETRA_CRC_OK :: u16 where
  "TETRA_CRC_OK = 0x1d0f"

definition get_nth_bit :: "u8 list \<Rightarrow> nat \<Rightarrow> ('e, u16) outcome" where
  "get_nth_bit input b =
     (let byte = b div 8; bit_in_byte = 7 - b mod 8
      in if byte < length input then Ok (ucast (drop_bit bit_in_byte (input ! byte) AND 1)) else Panic)"

text \<open>The body of both loops.\<close>

definition crc16_step :: "u16 \<Rightarrow> u16 \<Rightarrow> u16" where
  "crc16_step crc b =
     (let crc = crc XOR push_bit 15 b
      in if crc AND 0x8000 \<noteq> 0 then push_bit 1 crc XOR GEN_POLY else push_bit 1 crc)"

primrec crc16_bytes_loop :: "nat list \<Rightarrow> u8 list \<Rightarrow> u16 \<Rightarrow> ('e, u16) outcome" where
  "crc16_bytes_loop [] input crc = Ok crc"
| "crc16_bytes_loop (i # is) input crc =
     (case get_nth_bit input i of
        Ok b \<Rightarrow> crc16_bytes_loop is input (crc16_step crc b) | Err e \<Rightarrow> Err e | Panic \<Rightarrow> Panic)"

definition crc16_itut_bytes :: "u16 \<Rightarrow> u8 list \<Rightarrow> nat \<Rightarrow> ('e, u16) outcome" where
  "crc16_itut_bytes crc input number_bits = crc16_bytes_loop [0..<number_bits] input crc"

definition crc16_itut_bits :: "u16 \<Rightarrow> u8 list \<Rightarrow> nat \<Rightarrow> u16" where
  "crc16_itut_bits crc input number_bits =
     foldl (\<lambda>crc b. crc16_step crc (ucast (b AND 1))) crc (take number_bits input)"

definition crc16_ccitt_bits :: "u8 list \<Rightarrow> nat \<Rightarrow> u16" where
  "crc16_ccitt_bits input len = crc16_itut_bits 0xffff input len"

section \<open>The register over bit strings\<close>

definition crc_shift :: "u16 \<Rightarrow> u16" where
  "crc_shift c = (if bit c 15 then push_bit 1 c XOR GEN_POLY else push_bit 1 c)"

definition crc_bits :: "u16 \<Rightarrow> bool list \<Rightarrow> u16" where
  "crc_bits c bs = foldl (\<lambda>c b. crc_shift (c XOR (if b then 0x8000 else 0))) c bs"

lemma bit_0x8000: "bit (0x8000 :: u16) i \<longleftrightarrow> i = 15"
proof -
  have e: "(0x8000 :: u16) = push_bit 15 1" by (simp add: push_bit_eq_mult)
  show ?thesis unfolding e bit_push_bit_iff bit_1_iff by auto
qed

lemma top_mask: "(c :: u16) AND 0x8000 \<noteq> 0 \<longleftrightarrow> bit c 15"
proof -
  have "bit (c AND 0x8000) i \<longleftrightarrow> i = 15 \<and> bit c 15" for i unfolding bit_and_iff bit_0x8000 by auto
  then have "(\<exists>i. bit (c AND 0x8000) i) \<longleftrightarrow> bit c 15" by blast
  moreover have "(\<exists>i. bit w i) \<longleftrightarrow> w \<noteq> 0" for w :: u16
    by (metis bit_0_eq bit_word_eqI bot_apply bot_bool_def)
  ultimately show ?thesis by blast
qed

lemma low_bit_word: "(ucast (b AND 1 :: u8) :: u16) = of_bool (bit b 0)"
  by (cases "bit b 0") (auto simp: and_one_eq bit_0 mod_2_eq_odd)

lemma crc16_step_shift: "crc16_step c (of_bool b) = crc_shift (c XOR (if b then 0x8000 else 0))"
  by (simp add: crc16_step_def crc_shift_def top_mask Let_def push_bit_eq_mult)

lemma crc16_itut_bits_eq: "crc16_itut_bits c input n = crc_bits c (map (\<lambda>b. bit b 0) (take n input))"
  by (simp add: crc16_itut_bits_def crc_bits_def foldl_map low_bit_word crc16_step_shift)

lemma nth_bit_word: "drop_bit k (w :: u8) AND 1 = of_bool (bit w k)"
  by (simp add: and_one_eq bit_iff_odd_drop_bit mod_2_eq_odd)

lemma crc16_bytes_loop_eq:
  "\<forall>i \<in> set is. i < 8 * length input \<Longrightarrow>
   crc16_bytes_loop is input c = Ok (crc_bits c (map (\<lambda>i. bytes_bits input ! i) is))"
proof (induction "is" arbitrary: c)
  case Nil
  then show ?case by (simp add: crc_bits_def)
next
  case (Cons i "is")
  then have g: "get_nth_bit input i = (Ok (of_bool (bytes_bits input ! i)) :: ('a, u16) outcome)"
    by (auto simp: get_nth_bit_def Let_def nth_bytes_bits nth_bit_word)
  have "crc16_bytes_loop (i # is) input c = (crc16_bytes_loop is input (crc16_step c (of_bool (bytes_bits input ! i))) :: ('a, u16) outcome)"
    by (simp only: crc16_bytes_loop.simps g outcome.case)
  with Cons show ?case unfolding crc16_step_shift by (simp add: crc_bits_def)
qed

text \<open>Over packed bytes and over one bit per byte the checksum is that of the same bit string.\<close>

lemma crc16_itut_bytes_eq:
  assumes "n \<le> 8 * length input"
  shows "crc16_itut_bytes c input n = Ok (crc_bits c (take n (bytes_bits input)))"
proof -
  have "map (\<lambda>i. bytes_bits input ! i) [0..<n] = take n (bytes_bits input)"
    using assms by (intro nth_equalityI) auto
  then show ?thesis using assms crc16_bytes_loop_eq [of "[0..<n]" input c] by (simp add: crc16_itut_bytes_def)
qed

section \<open>Linearity\<close>

lemma crc_shift_xor: "crc_shift (a XOR b) = crc_shift a XOR crc_shift b"
  by (simp add: crc_shift_def bit_xor_iff push_bit_xor ac_simps)

lemma crc_shift_0 [simp]: "crc_shift 0 = 0"
  by (simp add: crc_shift_def)

lemma crc_shift_eq_0: "crc_shift c = 0 \<Longrightarrow> c = 0"
proof -
  assume z: "crc_shift c = 0"
  have "bit (crc_shift c) 0 = bit c 15"
    by (simp add: crc_shift_def GEN_POLY_def bit_xor_iff bit_push_bit_iff del: push_bit_of_Suc_0 push_bit_Suc)
  with z have t: "\<not> bit c 15" by simp
  show "c = 0"
  proof (rule bit_word_eqI)
    fix i assume "i < LENGTH(16)"
    show "bit c i = bit (0 :: u16) i"
    proof (cases "i = 15")
      case False
      with \<open>i < LENGTH(16)\<close> have "bit (push_bit 1 c) (Suc i) = bit c i" unfolding bit_push_bit_iff by simp
      with z t show ?thesis by (simp add: crc_shift_def)
    qed (use t in simp)
  qed
qed

lemma crc_shift_pow_xor: "(crc_shift ^^ n) (a XOR b) = (crc_shift ^^ n) a XOR (crc_shift ^^ n) b"
  by (induction n arbitrary: a b) (simp_all add: crc_shift_xor)

lemma crc_shift_pow_eq_0: "(crc_shift ^^ n) c = 0 \<Longrightarrow> c = 0"
  by (induction n arbitrary: c) (auto dest: crc_shift_eq_0)

lemma xor_eq_0_iff_eq: "a XOR b = 0 \<longleftrightarrow> a = b" for a b :: "'a::len word"
  by (metis xor.assoc xor.left_neutral xor_self_eq xor.right_neutral)

lemma xor_NOT_flip: "a XOR b = NOT 0 \<longleftrightarrow> b XOR NOT a = 0" for a b :: "'a::len word"
  by (auto simp: bit_eq_iff bit_xor_iff bit_not_iff)

lemma crc_shift_pow_inj: "(crc_shift ^^ n) a = (crc_shift ^^ n) b \<Longrightarrow> a = b"
  using crc_shift_pow_eq_0 [of n "a XOR b"] by (simp add: crc_shift_pow_xor xor_eq_0_iff_eq)

text \<open>Feeding up to 16 bits is the same as adding them to the top of the register and shifting.\<close>

definition top_bits :: "bool list \<Rightarrow> u16" where
  "top_bits bs = push_bit (16 - length bs) (of_bits bs)"

lemma bit_top_bits: "length bs \<le> 16 \<Longrightarrow> bit (top_bits bs) i \<longleftrightarrow> i < 16 \<and> 16 - length bs \<le> i \<and> bs ! (15 - i)"
  by (auto simp: top_bits_def bit_push_bit_iff bit_of_bits)

lemma crc_shift_low: "\<not> bit c 15 \<Longrightarrow> crc_shift c = push_bit 1 c"
  by (simp add: crc_shift_def)

lemma top_bits_Cons:
  assumes "length bs < 16"
  shows "\<exists>r. top_bits (b # bs) = (if b then 0x8000 else 0) XOR r \<and> \<not> bit r 15 \<and> push_bit 1 r = top_bits bs"
proof -
  let ?h = "if b then 0x8000 else 0 :: u16"
  let ?r = "drop_bit 1 (top_bits bs)"
  have h: "bit ?h i \<longleftrightarrow> b \<and> i = 15" for i by (cases b) (simp_all only: bit_0x8000 if_True if_False bit_0_eq bot_apply simp_thms bot_bool_def)
  have r: "bit ?r i \<longleftrightarrow> i < 15 \<and> 15 - length bs \<le> i \<and> bs ! (14 - i)" for i
    using assms by (auto simp: bit_drop_bit_eq bit_top_bits)
  have "top_bits (b # bs) = ?h XOR ?r"
  proof (rule bit_word_eqI)
    fix i assume "i < LENGTH(16)"
    then show "bit (top_bits (b # bs)) i = bit (?h XOR ?r) i"
      using assms by (cases "i = 15") (auto simp: bit_xor_iff h r [simplified] bit_top_bits nth_Cons')
  qed
  moreover have "\<not> bit ?r 15" unfolding r by simp
  moreover have "push_bit 1 ?r = top_bits bs"
  proof (rule bit_word_eqI)
    fix i assume i: "i < LENGTH(16)"
    show "bit (push_bit 1 ?r) i = bit (top_bits bs) i"
      using assms i unfolding bit_push_bit_iff r by (cases i) (auto simp: bit_top_bits)
  qed
  ultimately show ?thesis by blast
qed

lemma crc_bits_top: "length bs \<le> 16 \<Longrightarrow> crc_bits c bs = (crc_shift ^^ length bs) (c XOR top_bits bs)"
proof (induction bs arbitrary: c)
  case Nil
  then show ?case by (simp add: crc_bits_def top_bits_def)
next
  case (Cons b bs)
  then obtain r where r: "top_bits (b # bs) = (if b then 0x8000 else 0) XOR r" "\<not> bit r 15" "push_bit 1 r = top_bits bs"
    using top_bits_Cons [of bs b] by auto
  have "crc_bits c (b # bs) = crc_bits (crc_shift (c XOR (if b then 0x8000 else 0))) bs" by (simp add: crc_bits_def)
  also have "\<dots> = (crc_shift ^^ length bs) (crc_shift (c XOR (if b then 0x8000 else 0)) XOR crc_shift r)"
    using Cons r by (simp add: crc_shift_low)
  also have "\<dots> = (crc_shift ^^ length (b # bs)) (c XOR top_bits (b # bs))"
    by (simp add: r(1) crc_shift_xor funpow_swap1 ac_simps)
  finally show ?case .
qed

lemma top_bits_16: "length bs = 16 \<Longrightarrow> top_bits bs = of_bits bs"
  by (simp add: top_bits_def)

lemma crc_bits_append: "crc_bits c (xs @ ys) = crc_bits (crc_bits c xs) ys"
  by (simp add: crc_bits_def)

lemma crc_shift_ones:
  "crc_shift 0xffff = 0xefdf"
  "crc_shift 0xefdf = 0xcf9f"
  "crc_shift 0xcf9f = 0x8f1f"
  "crc_shift 0x8f1f = 0xe1f"
  "crc_shift 0xe1f = 0x1c3e"
  "crc_shift 0x1c3e = 0x387c"
  "crc_shift 0x387c = 0x70f8"
  "crc_shift 0x70f8 = 0xe1f0"
  "crc_shift 0xe1f0 = 0xd3c1"
  "crc_shift 0xd3c1 = 0xb7a3"
  "crc_shift 0xb7a3 = 0x7f67"
  "crc_shift 0x7f67 = 0xfece"
  "crc_shift 0xfece = 0xedbd"
  "crc_shift 0xedbd = 0xcb5b"
  "crc_shift 0xcb5b = 0x8697"
  "crc_shift 0x8697 = 0x1d0f"
  by (simp_all add: crc_shift_def GEN_POLY_def)

lemma residue_ones: "(crc_shift ^^ 16) 0xffff = TETRA_CRC_OK"
proof -
  have n: "(16 :: nat) = Suc (Suc (Suc (Suc (Suc (Suc (Suc (Suc (Suc (Suc (Suc (Suc (Suc (Suc (Suc (Suc 0)))))))))))))))" by simp
  show ?thesis unfolding n funpow.simps comp_apply id_apply crc_shift_ones TETRA_CRC_OK_def by (rule refl)
qed

text \<open>The residue is right exactly when the trailing 16 bits are the complement of the checksum.\<close>

lemma crc_residue_iff:
  assumes "length ts = 16"
  shows "crc_bits 0xffff (bs @ ts) = TETRA_CRC_OK \<longleftrightarrow> ts = to_bits 16 (NOT (crc_bits 0xffff bs))"
proof -
  let ?c = "crc_bits 0xffff bs"
  have "crc_bits 0xffff (bs @ ts) = (crc_shift ^^ 16) (?c XOR of_bits ts)"
    using assms crc_bits_top [of ts ?c] by (simp add: crc_bits_append top_bits_16)
  then have "crc_bits 0xffff (bs @ ts) = TETRA_CRC_OK \<longleftrightarrow> ?c XOR of_bits ts = 0xffff"
    using crc_shift_pow_inj by (metis residue_ones)
  also have "\<dots> \<longleftrightarrow> of_bits ts = NOT ?c"
  proof -
    have "(0xffff :: u16) = NOT 0" by simp
    then have "?c XOR of_bits ts = 0xffff \<longleftrightarrow> of_bits ts XOR NOT ?c = 0" by (simp only: xor_NOT_flip)
    then show ?thesis by (simp only: xor_eq_0_iff_eq)
  qed
  also have "\<dots> \<longleftrightarrow> ts = to_bits 16 (NOT ?c)"
  proof -
    have "to_bits 16 (of_bits ts :: u16) = ts" using assms by simp
    moreover have "of_bits (to_bits 16 (NOT ?c)) = NOT ?c" by simp
    ultimately show ?thesis by metis
  qed
  finally show ?thesis .
qed

end
