(* ===== verification/Scrambler.thy ===== *)
theory Scrambler
  imports BitBuffer_Bulk
begin

text \<open>
  \<open>lmac/components/scrambler.rs\<close>: the scrambling sequence of a 32-bit shift register and its addition to the unread
  bits of a buffer. Scrambling is characterised by the keystream it adds; scrambling twice with one code restores the
  buffer bit for bit.
\<close>

section \<open>Operations\<close>

definition SCRAMB_INIT :: u32 where
  "SCRAMB_INIT = 3"

definition next_lfsr_bit :: "u32 \<Rightarrow> u8 \<times> u32" where
  "next_lfsr_bit x =
     (let b = (x XOR drop_bit (32 - 26) x XOR drop_bit (32 - 23) x XOR drop_bit (32 - 22) x XOR drop_bit (32 - 16) x
               XOR drop_bit (32 - 12) x XOR drop_bit (32 - 11) x XOR drop_bit (32 - 10) x XOR drop_bit (32 - 8) x
               XOR drop_bit (32 - 7) x XOR drop_bit (32 - 5) x XOR drop_bit (32 - 4) x XOR drop_bit (32 - 2) x
               XOR drop_bit (32 - 1) x) AND 1
      in (ucast b, drop_bit 1 x OR push_bit 31 b))"

primrec tetra_scramb_get_bits :: "nat \<Rightarrow> u32 \<Rightarrow> u8 list" where
  "tetra_scramb_get_bits 0 lfsr = []"
| "tetra_scramb_get_bits (Suc n) lfsr =
     (let (b, lfsr) = next_lfsr_bit lfsr in b # tetra_scramb_get_bits n lfsr)"

primrec scramb_loop :: "nat \<Rightarrow> u32 \<Rightarrow> unit bb" where
  "scramb_loop 0 lfsr = ret ()"
| "scramb_loop (Suc n) lfsr =
     (let (b, lfsr) = next_lfsr_bit lfsr in bind (xor_bit b) (\<lambda>_. scramb_loop n lfsr))"

definition tetra_scramb_bits :: "u32 \<Rightarrow> unit bb" where
  "tetra_scramb_bits lfsr_init =
     bind (gets get_len_remaining) (\<lambda>num_bits.
     bind (scramb_loop num_bits lfsr_init) (\<lambda>_.
     seek_rel (- int num_bits)))"

definition tetra_scramb_get_init :: "u16 \<Rightarrow> u16 \<Rightarrow> u8 \<Rightarrow> u32" where
  "tetra_scramb_get_init mcc mnc colour =
     (if colour = 0 then 0
      else push_bit 2 (ucast colour OR push_bit 6 (ucast mnc) OR push_bit 20 (ucast mcc)) OR SCRAMB_INIT)"

section \<open>The keystream\<close>

lemma next_lfsr_bit_01: "fst (next_lfsr_bit x) = of_bool (fst (next_lfsr_bit x) = 1)"
proof -
  have "(w :: u32) AND 1 = 0 \<or> w AND 1 = 1" for w by (auto simp: and_one_eq mod_2_eq_odd)
  then show ?thesis by (auto simp: next_lfsr_bit_def Let_def) (metis unsigned_0 unsigned_1)
qed

definition keystream :: "nat \<Rightarrow> u32 \<Rightarrow> bool list" where
  "keystream n lfsr = map (\<lambda>b. b = 1) (tetra_scramb_get_bits n lfsr)"

lemma keystream_simps [simp]:
  "keystream 0 l = []"
  "keystream (Suc n) l = (fst (next_lfsr_bit l) = 1) # keystream n (snd (next_lfsr_bit l))"
  by (simp_all add: keystream_def Let_def split: prod.splits)

lemma length_keystream [simp]: "length (keystream n l) = n"
  by (induction n arbitrary: l) simp_all

text \<open>Bitwise addition of two bit strings of one length.\<close>

definition xor_bits :: "bool list \<Rightarrow> bool list \<Rightarrow> bool list" where
  "xor_bits xs ys = map2 (\<noteq>) xs ys"

lemma xor_bits_simps [simp]: "xor_bits [] ys = []" "xor_bits (x # xs) (y # ys) = (x \<noteq> y) # xor_bits xs ys"
  by (simp_all add: xor_bits_def)

lemma length_xor_bits [simp]: "length (xor_bits xs ys) = min (length xs) (length ys)"
  by (simp add: xor_bits_def)

lemma xor_bits_twice [simp]: "length xs = length ys \<Longrightarrow> xor_bits (xor_bits xs ys) ys = xs"
  by (induction xs ys rule: list_induct2) auto

section \<open>Scrambling a buffer\<close>

lemma bytes_bits_xor_bit:
  assumes "p < 8 * length buf"
  shows "bytes_bits (buf[p div 8 := (buf ! (p div 8)) XOR push_bit (7 - p mod 8) (of_bool v)])
       = (bytes_bits buf)[p := (bytes_bits buf ! p \<noteq> v)]"
proof (rule nth_equalityI)
  fix i assume "i < length (bytes_bits (buf[p div 8 := (buf ! (p div 8)) XOR push_bit (7 - p mod 8) (of_bool v)]))"
  then have i: "i < 8 * length buf" by simp
  have m: "7 - p mod 8 = 7 - i mod 8 \<longleftrightarrow> p mod 8 = i mod 8"
    using mod_less_divisor [of 8 p] mod_less_divisor [of 8 i] by linarith
  have e: "7 - p mod 8 = 7 - i mod 8 \<longleftrightarrow> p = i" if "p div 8 = i div 8"
    unfolding m using that by (metis div_mult_mod_eq)
  have pb: "bit (push_bit k (of_bool v :: u8)) j \<longleftrightarrow> j < 8 \<and> j = k \<and> v" for k j
    unfolding bit_push_bit_iff by (cases v) (auto simp: bit_1_iff)
  show "bytes_bits (buf[p div 8 := (buf ! (p div 8)) XOR push_bit (7 - p mod 8) (of_bool v)]) ! i
      = (bytes_bits buf)[p := (bytes_bits buf ! p \<noteq> v)] ! i"
    using i assms e by (auto simp: nth_bytes_bits nth_list_update bit_xor_iff pb)
qed simp

lemma xor_bit_spec:
  assumes "bb_inv b" and "unread b = x # xs"
  shows "\<exists>b'. xor_bit (of_bool v) b = Ok ((), b') \<and> wrote b [x \<noteq> v] b' \<and> unread b' = xs"
proof -
  let ?b = "b\<lparr>bb_buffer := (bb_buffer b)[bb_pos b div 8 := (bb_buffer b ! (bb_pos b div 8)) XOR push_bit (7 - bb_pos b mod 8) (of_bool v)],
     bb_pos := bb_pos b + 1\<rparr>"
  have p: "bb_pos b < bb_end b" using length_unread [OF assms(1)] assms(2) by (simp add: get_len_remaining_def)
  then have q: "bb_pos b < 8 * length (bb_buffer b)" using assms(1) by (simp add: bb_inv_def)
  have "x = unread b ! 0" by (simp add: assms(2))
  also have "\<dots> = bytes_bits (bb_buffer b) ! bb_pos b" using p q by (simp add: unread_def content_def)
  finally have x: "bytes_bits (bb_buffer b) ! bb_pos b = x" by simp
  have "bytes_bits (bb_buffer ?b) = overwrite (bytes_bits (bb_buffer b)) (bb_pos b) [x \<noteq> v]"
    using bytes_bits_xor_bit [OF q, of v] q x by (simp add: overwrite_def upd_conv_take_nth_drop)
  then have w: "wrote b [x \<noteq> v] ?b"
    using assms(1) p by (intro write_in_window) simp_all
  have "unread ?b = drop (bb_pos b + 1) (content b)"
    using w assms(1) p by (simp only: unread_def wrote_def length_Cons list.size) (simp add: drop_overwrite)
  also have "\<dots> = xs" using arg_cong [OF assms(2), of tl] by (simp add: unread_def drop_Suc tl_drop)
  finally have "unread ?b = xs" .
  moreover have "xor_bit (of_bool v) b = Ok ((), ?b)" using q by (simp add: xor_bit_def Let_def)
  ultimately show ?thesis using w by blast
qed

lemma scramb_loop_spec:
  "bb_inv b \<Longrightarrow> n = length (unread b) \<Longrightarrow>
   \<exists>b'. scramb_loop n l b = Ok ((), b') \<and> wrote b (xor_bits (unread b) (keystream n l)) b'"
proof (induction n arbitrary: l b)
  case 0
  then show ?case by (simp add: ret_def wrote_def)
next
  case (Suc n)
  then obtain x xs where u: "unread b = x # xs" by (metis length_Suc_conv)
  obtain v l' where nx: "next_lfsr_bit l = (v, l')" by (metis prod.exhaust)
  then have v: "v = of_bool (v = 1)" using next_lfsr_bit_01 [of l] by simp
  obtain b1 where b1: "xor_bit v b = Ok ((), b1)" "wrote b [x \<noteq> (v = 1)] b1" "unread b1 = xs"
    using xor_bit_spec [OF Suc.prems(1) u, of "v = 1"] v by metis
  then obtain b' where b': "scramb_loop n l' b1 = Ok ((), b')" "wrote b1 (xor_bits xs (keystream n l')) b'"
    using Suc.IH [of b1 l'] Suc.prems u by (auto simp: wrote_def)
  from b1 b' have "scramb_loop (Suc n) l b = Ok ((), b')" by (simp add: nx bind_def)
  moreover have "wrote b (xor_bits (unread b) (keystream (Suc n) l)) b'"
    using wrote_trans [OF Suc.prems(1) b1(2) b'(2)] by (simp add: nx u)
  ultimately show ?case by blast
qed

lemma tetra_scramb_bits_spec:
  assumes "bb_inv b"
  shows "\<exists>b'. tetra_scramb_bits l b = Ok ((), b') \<and> bb_inv b' \<and> bb_start b' = bb_start b \<and> bb_pos b' = bb_pos b \<and>
    bb_end b' = bb_end b \<and> bb_autoexpand b' = bb_autoexpand b \<and>
    content b' = take (bb_pos b) (content b) @ xor_bits (unread b) (keystream (length (unread b)) l)"
proof -
  let ?n = "length (unread b)"
  have n: "get_len_remaining b = ?n" using length_unread [OF assms] by simp
  have e: "bb_end b = bb_pos b + ?n" using assms n by (auto simp: get_len_remaining_def bb_inv_def)
  from scramb_loop_spec [OF assms refl] obtain b1
    where b1: "scramb_loop ?n l b = Ok ((), b1)" "wrote b (xor_bits (unread b) (keystream ?n l)) b1" by blast
  have pe: "bb_pos b1 = bb_pos b + ?n" "bb_end b1 = bb_end b" "bb_inv b1" "bb_start b1 = bb_start b"
    using b1(2) e wrote_end [OF b1(2) assms] by (simp_all add: wrote_def)
  have s: "seek_rel (- int ?n) b1 = Ok ((), b1\<lparr>bb_pos := bb_pos b\<rparr>)"
    using pe assms by (simp add: seek_rel_def try_seek_rel_def checked_add_signed_def bind_def guard_def ret_def bb_inv_def)
  have c: "content b1 = take (bb_pos b) (content b) @ xor_bits (unread b) (keystream ?n l)"
    using b1(2) e assms by (simp add: wrote_def overwrite_def)
  show ?thesis
    using b1 s c pe assms n
    by (intro exI [of _ "b1\<lparr>bb_pos := bb_pos b\<rparr>"]) (auto simp: tetra_scramb_bits_def bind_def gets_def bb_inv_def wrote_def)
qed

lemma scramb_unread:
  assumes "bb_inv b"
  obtains b' where "tetra_scramb_bits l b = Ok ((), b')" and "bb_inv b'" and "bb_start b' = bb_start b"
    and "bb_pos b' = bb_pos b" and "bb_end b' = bb_end b" and "unread b' = xor_bits (unread b) (keystream (length (unread b)) l)"
  using tetra_scramb_bits_spec [OF assms, of l] assms by (auto simp: unread_def bb_inv_def)

text \<open>Scrambling is its own inverse.\<close>

lemma scramb_twice:
  assumes "bb_inv b"
  shows "\<exists>b1 b2. tetra_scramb_bits l b = Ok ((), b1) \<and> tetra_scramb_bits l b1 = Ok ((), b2) \<and>
    content b2 = content b \<and> bb_start b2 = bb_start b \<and> bb_pos b2 = bb_pos b \<and> bb_end b2 = bb_end b"
proof -
  from tetra_scramb_bits_spec [OF assms, of l] obtain b1
    where b1: "tetra_scramb_bits l b = Ok ((), b1)" "bb_inv b1" "bb_start b1 = bb_start b" "bb_pos b1 = bb_pos b"
      "bb_end b1 = bb_end b" "content b1 = take (bb_pos b) (content b) @ xor_bits (unread b) (keystream (length (unread b)) l)" by blast
  have p: "bb_pos b \<le> length (content b)" using assms by (simp add: bb_inv_def)
  then have u: "unread b1 = xor_bits (unread b) (keystream (length (unread b)) l)" "take (bb_pos b) (content b1) = take (bb_pos b) (content b)"
    using b1 by (simp_all add: unread_def)
  from tetra_scramb_bits_spec [OF b1(2), of l] obtain b2
    where b2: "tetra_scramb_bits l b1 = Ok ((), b2)" "bb_start b2 = bb_start b" "bb_pos b2 = bb_pos b" "bb_end b2 = bb_end b"
      "content b2 = take (bb_pos b) (content b1) @ xor_bits (unread b1) (keystream (length (unread b1)) l)"
    using b1 by auto
  have "content b2 = take (bb_pos b) (content b) @ unread b" using b2(5) u by simp
  then have "content b2 = content b" by (simp add: unread_def)
  with b1 b2 show ?thesis by blast
qed

end
