(* ===== verification/Rm3014.thy ===== *)
theory Rm3014
  imports Prelude
begin

text \<open>
  \<open>lmac/components/rm3014.rs\<close>: the shortened Reed-Muller code that protects the access assignment. The syndrome is
  linear, vanishes on every codeword and tells the 30 single bit errors apart, so the decoder corrects any one of them.
\<close>

section \<open>Operations\<close>

definition RM_30_14_GEN :: "u8 list list" where
  "RM_30_14_GEN =
    [[1, 0, 0, 1, 1, 0, 1, 1, 0, 1, 1, 0, 0, 0, 0, 0],
     [0, 0, 1, 0, 1, 1, 0, 1, 1, 1, 1, 0, 0, 0, 0, 0],
     [1, 1, 1, 1, 1, 1, 0, 0, 0, 0, 1, 0, 0, 0, 0, 0],
     [1, 1, 1, 0, 0, 0, 0, 0, 0, 0, 1, 1, 1, 1, 0, 0],
     [1, 0, 0, 1, 1, 0, 0, 0, 0, 0, 1, 1, 1, 0, 1, 0],
     [0, 1, 0, 1, 0, 1, 0, 0, 0, 0, 1, 1, 0, 1, 1, 0],
     [0, 0, 1, 0, 1, 1, 0, 0, 0, 0, 1, 0, 1, 1, 1, 0],
     [1, 1, 1, 1, 1, 1, 1, 1, 1, 1, 0, 1, 1, 1, 1, 1],
     [1, 0, 0, 0, 0, 0, 1, 1, 0, 0, 1, 1, 1, 0, 0, 1],
     [0, 1, 0, 0, 0, 0, 1, 0, 1, 0, 1, 1, 0, 1, 0, 1],
     [0, 0, 1, 0, 0, 0, 0, 1, 1, 0, 1, 0, 1, 1, 0, 1],
     [0, 0, 0, 1, 0, 0, 1, 0, 0, 1, 1, 1, 0, 0, 1, 1],
     [0, 0, 0, 0, 1, 0, 0, 1, 0, 1, 1, 0, 1, 0, 1, 1],
     [0, 0, 0, 0, 0, 1, 0, 0, 1, 1, 1, 0, 0, 1, 1, 1]]"

definition RM_30_14_ROWS_PRECOMPUTED :: "u32 list" where
  "RM_30_14_ROWS_PRECOMPUTED =
    [0x20009b60, 0x10002de0, 0x0800fc20, 0x0400e03c, 0x0200983a, 0x01005436, 0x00802c2e, 0x0040ffdf, 0x00208339, 0x001042b5, 0x000821ad, 0x00041273, 0x0002096b, 0x000104e7]"

definition tetra_rm3014_compute :: "u16 \<Rightarrow> u32" where
  "tetra_rm3014_compute input =
     foldl (\<lambda>val i. if drop_bit (13 - i) input AND 1 = 1 then val XOR RM_30_14_ROWS_PRECOMPUTED ! i else val) 0 [0..<14]"

definition tetra_rm3014_decode_naive :: "u32 \<Rightarrow> u16" where
  "tetra_rm3014_decode_naive codeword = ucast (drop_bit 16 codeword)"

definition compute_col_syndromes :: "u16 list" where
  "compute_col_syndromes =
     map (\<lambda>k. foldl (\<lambda>syn j.
            let b = (if k < 14 then ucast (RM_30_14_GEN ! k ! j) else of_bool (k - 14 = j))
            in syn OR push_bit j b) 0 [0..<16]) [0..<30]"

definition COL_SYNDROMES :: "u16 list" where
  "COL_SYNDROMES = compute_col_syndromes"

definition syndrome_sum :: "u32 \<Rightarrow> nat \<Rightarrow> u8" where
  "syndrome_sum codeword j =
     foldl (\<lambda>s i. s XOR (ucast (drop_bit (29 - i) codeword AND 1) AND RM_30_14_GEN ! i ! j)) 0 [0..<14]
       XOR ucast (drop_bit (29 - (14 + j)) codeword AND 1)"

definition compute_syndrome :: "u32 \<Rightarrow> u16" where
  "compute_syndrome codeword =
     foldl (\<lambda>syn j. if syndrome_sum codeword j AND 1 \<noteq> 0 then syn OR push_bit j 1 else syn) 0 [0..<16]"

fun flip_column :: "(nat \<times> u16) list \<Rightarrow> u16 \<Rightarrow> u32 \<Rightarrow> u32" where
  "flip_column [] syn corrected = corrected"
| "flip_column ((k, col_syn) # cols) syn corrected =
     (if col_syn = syn then corrected XOR push_bit (29 - k) 1 else flip_column cols syn corrected)"

definition tetra_rm3014_decode_limited_ecc :: "u32 \<Rightarrow> u16" where
  "tetra_rm3014_decode_limited_ecc codeword =
     (let syn = compute_syndrome codeword;
          corrected = (if syn \<noteq> 0 then flip_column (enumerate 0 COL_SYNDROMES) syn codeword else codeword)
      in ucast (drop_bit 16 corrected))"

section \<open>The syndrome by parities\<close>

text \<open>The generator matrix as a predicate.\<close>

definition gen :: "nat \<Rightarrow> nat \<Rightarrow> bool" where
  "gen i j \<longleftrightarrow> RM_30_14_GEN ! i ! j = 1"

lemma gen_01: "i < 14 \<Longrightarrow> j < 16 \<Longrightarrow> RM_30_14_GEN ! i ! j = of_bool (gen i j)"
proof -
  have "list_all (\<lambda>r. length r = 16 \<and> list_all (\<lambda>x. x = 0 \<or> x = 1) r) RM_30_14_GEN" "length RM_30_14_GEN = 14"
    by (simp_all add: RM_30_14_GEN_def)
  moreover assume "i < 14" "j < 16"
  ultimately have "RM_30_14_GEN ! i ! j = 0 \<or> RM_30_14_GEN ! i ! j = 1" by (simp add: list_all_length)
  then show ?thesis by (auto simp: gen_def)
qed

definition parity :: "(nat \<Rightarrow> bool) \<Rightarrow> nat \<Rightarrow> bool" where
  "parity f n \<longleftrightarrow> odd (card {i. i < n \<and> f i})"

lemma parity_0 [simp]: "\<not> parity f 0"
  by (simp add: parity_def)

lemma parity_Suc [simp]: "parity f (Suc n) \<longleftrightarrow> parity f n \<noteq> f n"
proof -
  have "{i. i < Suc n \<and> f i} = (if f n then insert n {i. i < n \<and> f i} else {i. i < n \<and> f i})" by (auto simp: less_Suc_eq)
  then show ?thesis by (simp add: parity_def)
qed

lemma parity_xor: "parity (\<lambda>i. f i \<noteq> g i) n \<longleftrightarrow> parity f n \<noteq> parity g n"
  by (induction n) auto

lemma parity_single: "k < n \<Longrightarrow> parity (\<lambda>i. i = k \<and> f i) n \<longleftrightarrow> f k"
proof -
  assume "k < n"
  then have "{i. i < n \<and> i = k \<and> f i} = (if f k then {k} else {})" by auto
  then show ?thesis by (simp add: parity_def)
qed

lemma parity_none: "(\<And>i. i < n \<Longrightarrow> \<not> f i) \<Longrightarrow> \<not> parity f n"
  by (induction n) auto

lemma parity_cong: "(\<And>i. i < n \<Longrightarrow> f i = g i) \<Longrightarrow> parity f n = parity g n"
  by (induction n) auto

definition check :: "u32 \<Rightarrow> nat \<Rightarrow> bool" where
  "check c j \<longleftrightarrow> parity (\<lambda>i. bit c (29 - i) \<and> gen i j) 14 \<noteq> bit c (15 - j)"

lemma low_bit: "(ucast (drop_bit k (w :: u32) AND 1) :: u8) = of_bool (bit w k)"
  by (simp add: and_one_eq bit_iff_odd_drop_bit mod_2_eq_odd)

lemma sum_term:
  "i < 14 \<Longrightarrow> j < 16 \<Longrightarrow>
   ucast (drop_bit (29 - i) (c :: u32) AND 1) AND RM_30_14_GEN ! i ! j = (of_bool (bit c (29 - i) \<and> gen i j) :: u8)"
  unfolding low_bit gen_01 by auto

lemma xor_of_bool: "of_bool p XOR of_bool q = (of_bool (p \<noteq> q) :: 'a::len word)"
  by auto

lemma foldl_parity:
  "n \<le> 14 \<Longrightarrow> j < 16 \<Longrightarrow>
   foldl (\<lambda>s i. s XOR (ucast (drop_bit (29 - i) (c :: u32) AND 1) AND RM_30_14_GEN ! i ! j)) 0 [0..<n] =
   (of_bool (parity (\<lambda>i. bit c (29 - i) \<and> gen i j) n) :: u8)"
proof (induction n)
  case (Suc n)
  then have "n < 14" by simp
  with Suc show ?case
    by (simp only: upt_Suc foldl_append foldl.simps sum_term xor_of_bool parity_Suc less_imp_le if_True zero_le)
qed simp

lemma syndrome_sum_eq: "j < 16 \<Longrightarrow> syndrome_sum c j = of_bool (check c j)"
proof -
  assume "j < 16"
  then have "29 - (14 + j) = 15 - j" by simp
  then show ?thesis
    unfolding syndrome_sum_def foldl_parity [OF order.refl \<open>j < 16\<close>]
    unfolding low_bit xor_of_bool check_def by simp
qed

lemma bit_foldl_flags:
  "n \<le> 16 \<Longrightarrow> bit (foldl (\<lambda>syn j. if P j then syn OR push_bit j 1 else syn) (0 :: u16) [0..<n]) k \<longleftrightarrow> k < n \<and> P k"
  by (induction n) (auto simp: bit_or_iff bit_push_bit_iff bit_1_iff less_Suc_eq simp del: push_bit_of_1)

lemma bit_syndrome: "bit (compute_syndrome c) k \<longleftrightarrow> k < 16 \<and> check c k"
proof -
  have "compute_syndrome c = foldl (\<lambda>syn j. if check c j then syn OR push_bit j 1 else syn) 0 [0..<16]"
    unfolding compute_syndrome_def by (rule foldl_cong) (auto simp: syndrome_sum_eq)
  then show ?thesis by (simp only: bit_foldl_flags order.refl)
qed

lemma check_xor: "j < 16 \<Longrightarrow> check (a XOR b) j \<longleftrightarrow> check a j \<noteq> check b j"
proof -
  have "parity (\<lambda>i. bit (a XOR b) (29 - i) \<and> gen i j) 14 =
    parity (\<lambda>i. (bit a (29 - i) \<and> gen i j) \<noteq> (bit b (29 - i) \<and> gen i j)) 14"
    by (rule parity_cong) (auto simp: bit_xor_iff)
  then show ?thesis unfolding check_def parity_xor bit_xor_iff by blast
qed

lemma syndrome_xor: "compute_syndrome (a XOR b) = compute_syndrome a XOR compute_syndrome b"
  by (rule bit_word_eqI) (auto simp: bit_syndrome check_xor bit_xor_iff)

section \<open>Codewords have syndrome zero\<close>

lemma row_bits:
  assumes "i < 14"
  shows "\<And>j. j < 14 \<Longrightarrow> bit (RM_30_14_ROWS_PRECOMPUTED ! i) (29 - j) \<longleftrightarrow> j = i"
    and "\<And>j. j < 16 \<Longrightarrow> bit (RM_30_14_ROWS_PRECOMPUTED ! i) (15 - j) \<longleftrightarrow> gen i j"
    and "drop_bit 16 (RM_30_14_ROWS_PRECOMPUTED ! i) = push_bit (13 - i) 1"
proof -
  have all: "list_all (\<lambda>i. list_all (\<lambda>j. bit (RM_30_14_ROWS_PRECOMPUTED ! i) (29 - j) = (j = i)) [0..<14] \<and>
      list_all (\<lambda>j. bit (RM_30_14_ROWS_PRECOMPUTED ! i) (15 - j) = gen i j) [0..<16] \<and>
      drop_bit 16 (RM_30_14_ROWS_PRECOMPUTED ! i) = push_bit (13 - i) 1) [0..<14]"
    by code_simp
  with assms show "\<And>j. j < 14 \<Longrightarrow> bit (RM_30_14_ROWS_PRECOMPUTED ! i) (29 - j) \<longleftrightarrow> j = i"
    and "\<And>j. j < 16 \<Longrightarrow> bit (RM_30_14_ROWS_PRECOMPUTED ! i) (15 - j) \<longleftrightarrow> gen i j"
    and "drop_bit 16 (RM_30_14_ROWS_PRECOMPUTED ! i) = push_bit (13 - i) 1"
    unfolding list_all_iff set_upt by auto
qed

lemma syndrome_row: "i < 14 \<Longrightarrow> compute_syndrome (RM_30_14_ROWS_PRECOMPUTED ! i) = 0"
proof -
  assume i: "i < 14"
  have "\<not> check (RM_30_14_ROWS_PRECOMPUTED ! i) j" if j: "j < 16" for j
  proof -
    have "parity (\<lambda>k. bit (RM_30_14_ROWS_PRECOMPUTED ! i) (29 - k) \<and> gen k j) 14 = parity (\<lambda>k. k = i \<and> gen k j) 14"
      by (rule parity_cong) (simp add: row_bits [OF i])
    then show ?thesis using parity_single [OF i, of "\<lambda>k. gen k j"] by (simp add: check_def row_bits [OF i] j)
  qed
  then show ?thesis by (intro bit_word_eqI) (simp add: bit_syndrome)
qed

definition rm_prefix :: "u16 \<Rightarrow> nat \<Rightarrow> u32" where
  "rm_prefix input n =
     foldl (\<lambda>val i. if drop_bit (13 - i) input AND 1 = 1 then val XOR RM_30_14_ROWS_PRECOMPUTED ! i else val) 0 [0..<n]"

lemma rm_prefix_simps:
  "rm_prefix input 0 = 0"
  "rm_prefix input (Suc n) =
     (if bit input (13 - n) then rm_prefix input n XOR RM_30_14_ROWS_PRECOMPUTED ! n else rm_prefix input n)"
  by (auto simp: rm_prefix_def and_one_eq bit_iff_odd_drop_bit mod_2_eq_odd)

lemma syndrome_0: "compute_syndrome 0 = 0"
  using syndrome_xor [of 0 0] by simp

lemma rm_prefix_syndrome: "n \<le> 14 \<Longrightarrow> compute_syndrome (rm_prefix input n) = 0"
  by (induction n) (simp_all add: rm_prefix_simps syndrome_0 syndrome_xor syndrome_row)

lemma rm_prefix_data: "n \<le> 14 \<Longrightarrow> bit (drop_bit 16 (rm_prefix input n)) j \<longleftrightarrow> 14 - n \<le> j \<and> j < 14 \<and> bit input j"
proof (induction n)
  case (Suc n)
  then have n: "n < 14" by simp
  have "bit (drop_bit 16 (RM_30_14_ROWS_PRECOMPUTED ! n)) j \<longleftrightarrow> j = 13 - n"
    unfolding row_bits(3) [OF n] bit_push_bit_iff using n by (auto simp: bit_1_iff)
  then show ?case using Suc n
    by (cases "j = 13 - n") (auto simp: rm_prefix_simps drop_bit_xor bit_xor_iff)
qed (simp add: rm_prefix_simps)

lemma rm_compute_prefix: "tetra_rm3014_compute input = rm_prefix input 14"
  by (simp add: tetra_rm3014_compute_def rm_prefix_def)

lemma syndrome_codeword: "compute_syndrome (tetra_rm3014_compute input) = 0"
  by (simp add: rm_compute_prefix rm_prefix_syndrome)

lemma codeword_data: "fits 14 input \<Longrightarrow> ucast (drop_bit 16 (tetra_rm3014_compute input)) = input"
  by (rule bit_word_eqI) (auto simp: rm_compute_prefix rm_prefix_data bit_unsigned_iff fits_iff not_less [symmetric])

section \<open>Single errors\<close>

lemma length_COL_SYNDROMES: "length COL_SYNDROMES = 30"
  by (simp add: COL_SYNDROMES_def compute_col_syndromes_def)

lemma bit_col_fold:
  "n \<le> 16 \<Longrightarrow> bit (foldl (\<lambda>syn j. syn OR push_bit j (of_bool (P j))) (0 :: u16) [0..<n]) k \<longleftrightarrow> k < n \<and> P k"
proof (induction n)
  case (Suc n)
  have "bit (push_bit n (of_bool (P n)) :: u16) k \<longleftrightarrow> n < 16 \<and> k = n \<and> P n"
    unfolding bit_push_bit_iff by (auto simp: bit_1_iff)
  with Suc show ?case by (auto simp: bit_or_iff less_Suc_eq)
qed simp

lemma bit_col_syndrome:
  assumes "k < 30"
  shows "bit (COL_SYNDROMES ! k) j \<longleftrightarrow> j < 16 \<and> (if k < 14 then gen k j else k - 14 = j)"
proof -
  have "COL_SYNDROMES ! k = foldl (\<lambda>syn j. syn OR push_bit j (of_bool (if k < 14 then gen k j else k - 14 = j))) 0 [0..<16]"
    using assms unfolding COL_SYNDROMES_def compute_col_syndromes_def
    by (simp only: nth_map length_upt nth_upt diff_zero add_0) (rule foldl_cong, auto simp: gen_01)
  then show ?thesis by (simp only: bit_col_fold order.refl)
qed

lemma bit_single: "bit (push_bit n 1 :: u32) k \<longleftrightarrow> n < 32 \<and> k = n"
  unfolding bit_push_bit_iff by (auto simp: bit_1_iff)

lemma syndrome_single:
  assumes "k < 30"
  shows "compute_syndrome (push_bit (29 - k) 1) = COL_SYNDROMES ! k"
proof (rule bit_word_eqI)
  fix j assume "j < LENGTH(16)"
  then have j: "j < 16" by simp
  have p: "parity (\<lambda>i. bit (push_bit (29 - k) 1 :: u32) (29 - i) \<and> gen i j) 14 = parity (\<lambda>i. i = k \<and> gen i j) 14"
    by (rule parity_cong) (use assms in \<open>auto simp: bit_single simp del: push_bit_of_1\<close>)
  show "bit (compute_syndrome (push_bit (29 - k) 1)) j = bit (COL_SYNDROMES ! k) j"
  proof (cases "k < 14")
    case True
    then have "\<not> bit (push_bit (29 - k) 1 :: u32) (15 - j)" unfolding bit_single by auto
    with True show ?thesis using j assms
      unfolding bit_syndrome check_def p bit_col_syndrome [OF assms] by (simp add: parity_single del: push_bit_of_1)
  next
    case False
    then have "\<not> parity (\<lambda>i. i = k \<and> gen i j) 14" by (intro parity_none) auto
    with False show ?thesis using j assms
      unfolding bit_syndrome check_def p bit_col_syndrome [OF assms] unfolding bit_single by auto
  qed
qed

lemma col_syndromes_values: "COL_SYNDROMES = [0x6d9, 0x7b4, 0x43f, 0x3c07, 0x5c19, 0x6c2a, 0x7434, 0xfbff, 0x9cc1, 0xad42, 0xb584, 0xce48, 0xd690, 0xe720, 0x1, 0x2, 0x4, 0x8, 0x10, 0x20, 0x40, 0x80, 0x100, 0x200, 0x400, 0x800, 0x1000, 0x2000, 0x4000, 0x8000]"
  unfolding COL_SYNDROMES_def by code_simp

lemma col_syndromes_distinct: "distinct COL_SYNDROMES" "0 \<notin> set COL_SYNDROMES"
  unfolding col_syndromes_values by simp_all

lemma flip_column_found:
  "distinct (map snd cols) \<Longrightarrow> (k, s) \<in> set cols \<Longrightarrow> flip_column cols s c = c XOR push_bit (29 - k) 1"
  by (induction cols s c rule: flip_column.induct) (auto simp: image_iff)

text \<open>Any single bit error in a codeword is corrected, and a clean codeword is decoded.\<close>

lemma decode_single_error:
  assumes "fits 14 input" and "k < 30"
  shows "tetra_rm3014_decode_limited_ecc (tetra_rm3014_compute input XOR push_bit k 1) = input"
proof -
  let ?k = "29 - k" and ?c = "tetra_rm3014_compute input"
  let ?s = "COL_SYNDROMES ! ?k"
  have k: "?k < 30" "29 - ?k = k" using assms(2) by auto
  have s: "compute_syndrome (?c XOR push_bit k 1) = ?s"
    using syndrome_single [OF k(1)] k(2) by (simp add: syndrome_xor syndrome_codeword del: push_bit_of_1)
  have "?s \<in> set COL_SYNDROMES" using k by (simp add: length_COL_SYNDROMES)
  then have "?s \<noteq> 0" using col_syndromes_distinct(2) by metis
  moreover have "flip_column (enumerate 0 COL_SYNDROMES) ?s (?c XOR push_bit k 1) = ?c"
  proof -
    have "(?k, ?s) \<in> set (enumerate 0 COL_SYNDROMES)" using k by (simp add: in_set_enumerate_eq length_COL_SYNDROMES)
    from flip_column_found [OF _ this] show ?thesis
      using col_syndromes_distinct(1) k(2) by (simp add: xor.assoc)
  qed
  ultimately show ?thesis
    using codeword_data [OF assms(1)] by (simp only: tetra_rm3014_decode_limited_ecc_def Let_def s if_True simp_thms)
qed

lemma rm_decode_clean: "fits 14 input \<Longrightarrow> tetra_rm3014_decode_limited_ecc (tetra_rm3014_compute input) = input"
  by (simp add: tetra_rm3014_decode_limited_ecc_def syndrome_codeword codeword_data)

end
