(* ===== verification/Interleaver.thy ===== *)
theory Interleaver
  imports BitBuffer
begin

text \<open>
  \<open>lmac/components/interleaver.rs\<close>: block and matrix interleaving. Every write of the loops goes to a position of its
  own, so de-interleaving after interleaving restores the block, for a multiplier coprime to the block length.
\<close>

section \<open>Operations\<close>

definition block_interl_func :: "u32 \<Rightarrow> u32 \<Rightarrow> u32 \<Rightarrow> u32" where
  "block_interl_func k a i = 1 + (a * i) mod k"

text \<open>A loop that assigns \<open>output[f i] = input[g i]\<close>, with the index checks of the slices.\<close>

primrec assign_loop :: "'i list \<Rightarrow> ('i \<Rightarrow> nat) \<Rightarrow> ('i \<Rightarrow> nat) \<Rightarrow> 'a list \<Rightarrow> 'a list \<Rightarrow> (pdu_parse_err, 'a list) outcome" where
  "assign_loop [] f g input out = Ok out"
| "assign_loop (i # is) f g input out =
     (if f i < length out \<and> g i < length input then assign_loop is f g input (out[f i := input ! g i]) else Panic)"

definition block_pos :: "nat \<Rightarrow> nat \<Rightarrow> nat \<Rightarrow> nat" where
  "block_pos k a i = unat (block_interl_func (of_nat k) (of_nat a) (of_nat i)) - 1"

definition block_interleave :: "nat \<Rightarrow> nat \<Rightarrow> u8 list \<Rightarrow> u8 list \<Rightarrow> (pdu_parse_err, u8 list) outcome" where
  "block_interleave k a input out =
     (if length input \<ge> k \<and> length out \<ge> k
      then assign_loop [1..<k + 1] (block_pos k a) (\<lambda>i. i - 1) input out else Panic)"

definition block_deinterleave :: "nat \<Rightarrow> nat \<Rightarrow> u8 list \<Rightarrow> u8 list \<Rightarrow> (pdu_parse_err, u8 list) outcome" where
  "block_deinterleave k a input out =
     (if length input \<ge> k \<and> length out \<ge> k
      then assign_loop [1..<k + 1] (\<lambda>i. i - 1) (block_pos k a) input out else Panic)"

text \<open>The two nested loops run over the pairs in row order.\<close>

definition grid :: "nat \<Rightarrow> nat \<Rightarrow> (nat \<times> nat) list" where
  "grid lines columns = concat (map (\<lambda>i. map (\<lambda>j. (i, j)) [0..<lines]) [0..<columns])"

definition matrix_interleave :: "nat \<Rightarrow> nat \<Rightarrow> u8 list \<Rightarrow> u8 list \<Rightarrow> (pdu_parse_err, u8 list) outcome" where
  "matrix_interleave lines columns input out =
     (if lines * columns < 2 ^ 64 \<and> length input \<ge> lines * columns \<and> length out \<ge> lines * columns
      then assign_loop (grid lines columns) (\<lambda>(i, j). i * lines + j) (\<lambda>(i, j). j * columns + i) input out else Panic)"

definition matrix_deinterleave :: "nat \<Rightarrow> nat \<Rightarrow> u8 list \<Rightarrow> u8 list \<Rightarrow> (pdu_parse_err, u8 list) outcome" where
  "matrix_deinterleave lines columns input out =
     (if lines * columns < 2 ^ 64 \<and> length input \<ge> lines * columns \<and> length out \<ge> lines * columns
      then assign_loop (grid lines columns) (\<lambda>(i, j). j * columns + i) (\<lambda>(i, j). i * lines + j) input out else Panic)"

section \<open>Assignment loops\<close>

lemma assign_loop_Ok:
  "\<forall>i \<in> set is. f i < length out \<and> g i < length input \<Longrightarrow> \<exists>r. assign_loop is f g input out = Ok r \<and> length r = length out"
proof (induction "is" arbitrary: out)
  case (Cons i "is")
  then show ?case using Cons.IH [of "out[f i := input ! g i]"] by simp
qed simp

lemma assign_loop_other: "assign_loop is f g input out = Ok r \<Longrightarrow> p \<notin> f ` set is \<Longrightarrow> r ! p = out ! p"
  by (induction "is" arbitrary: out) (auto split: if_splits)

lemma assign_loop_at:
  "assign_loop is f g input out = Ok r \<Longrightarrow> inj_on f (set is) \<Longrightarrow> distinct is \<Longrightarrow> i \<in> set is \<Longrightarrow> r ! f i = input ! g i"
proof (induction "is" arbitrary: out)
  case (Cons j "is")
  show ?case
  proof (cases "i = j")
    case True
    with Cons.prems have "f i \<notin> f ` set is" by (auto simp: inj_on_def)
    with Cons.prems True show ?thesis by (auto dest: assign_loop_other split: if_splits)
  qed (use Cons in \<open>auto split: if_splits\<close>)
qed simp

text \<open>A permutation of the first \<open>n\<close> positions, given by write and read indices, is undone by swapping them.\<close>

lemma assign_loop_inverse:
  assumes "distinct is" and "bij_betw f (set is) {..<n}" and "bij_betw g (set is) {..<n}"
    and "n \<le> length input" and "n \<le> length mid" and "n \<le> length out"
  shows "\<exists>m r. assign_loop is f g input mid = Ok m \<and> length m = length mid \<and> assign_loop is g f m out = Ok r \<and>
    take n r = take n input \<and> drop n r = drop n out"
proof -
  have b: "f i < n" "g i < n" if "i \<in> set is" for i
    using assms(2,3) that by (auto simp: bij_betw_def)
  obtain m where m: "assign_loop is f g input mid = Ok m" "length m = length mid"
    using assign_loop_Ok [of "is" f mid g input] b assms by (meson order.strict_trans2)
  obtain r where r: "assign_loop is g f m out = Ok r" "length r = length out"
    using assign_loop_Ok [of "is" g out f m] b assms m by (metis order.strict_trans2)
  have "r ! p = input ! p" if "p < n" for p
  proof -
    from that assms(3) obtain i where i: "i \<in> set is" "p = g i" by (auto simp: bij_betw_def)
    with assign_loop_at [OF r(1) _ assms(1) i(1)] assign_loop_at [OF m(1) _ assms(1) i(1)] assms(2,3)
    show ?thesis by (simp add: bij_betw_def)
  qed
  then have "take n r = take n input" using r assms by (intro nth_equalityI) auto
  moreover have "r ! p = out ! p" if "n \<le> p" for p
    using assign_loop_other [OF r(1)] b that by (metis imageE leD)
  then have "drop n r = drop n out" using r assms by (intro nth_equalityI) auto
  ultimately show ?thesis using m r by blast
qed

section \<open>Block interleaving\<close>

lemma block_pos_eq:
  assumes "0 < k" and "a * i < 2 ^ 32" and "k < 2 ^ 32" and "a < 2 ^ 32" and "i < 2 ^ 32"
  shows "block_pos k a i = (a * i) mod k"
proof -
  have "unat ((of_nat a * of_nat i) mod of_nat k :: u32) = (a * i) mod k"
    using assms by (simp add: unat_mod unat_word_ariths unat_of_nat take_bit_nat_eq_self)
  moreover have "(a * i) mod k + 1 < 2 ^ 32"
    using assms mod_less_divisor [of k "a * i"] by linarith
  ultimately show ?thesis
    by (simp add: block_pos_def block_interl_func_def unat_word_ariths)
qed

lemma mult_mod_inj:
  fixes a k :: nat
  assumes "coprime a k"
  shows "inj_on (\<lambda>i. (a * i) mod k) {1..k}"
proof (rule inj_onI)
  fix x y assume xy: "x \<in> {1..k}" "y \<in> {1..k}" "(a * x) mod k = (a * y) mod k"
  have wlog: "u = v" if "u \<le> v" "u \<in> {1..k}" "v \<in> {1..k}" "(a * u) mod k = (a * v) mod k" for u v
  proof -
    have "a * u \<le> a * v" using that(1) by simp
    from mod_eq_dvd_iff_nat [OF this, of k] that(4) have "k dvd a * v - a * u" by simp
    then have "k dvd a * (v - u)" by (simp add: diff_mult_distrib2)
    then have "k dvd v - u" using coprime_dvd_mult_right_iff [OF coprime_commute [THEN iffD1, OF assms]] by blast
    moreover have "v - u < k" using that by auto
    ultimately show "u = v" using that(1) by (auto dest: dvd_imp_le)
  qed
  show "x = y" using nat_le_linear [of x y] wlog [OF _ xy] wlog [OF _ xy(2,1) xy(3) [symmetric]] by blast
qed

lemma block_pos_bij:
  assumes "coprime a k" and "0 < k" and "a * k < 2 ^ 32" and "k < 2 ^ 32" and "a < 2 ^ 32"
  shows "bij_betw (block_pos k a) (set [1..<k + 1]) {..<k}"
proof -
  have e: "block_pos k a i = (a * i) mod k" if "i \<in> {1..k}" for i
  proof (rule block_pos_eq [OF assms(2) _ assms(4,5)])
    have "a * i \<le> a * k" using that by (intro mult_le_mono2) simp
    then show "a * i < 2 ^ 32" using assms(3) by (rule order.strict_trans1)
    have "i \<le> k" using that by simp
    then show "i < 2 ^ 32" using assms(4) by (rule order.strict_trans1)
  qed
  have inj: "inj_on (block_pos k a) {1..k}"
    by (rule iffD2 [OF inj_on_cong mult_mod_inj [OF assms(1)]]) (rule e)
  have sub: "block_pos k a ` {1..k} \<subseteq> {..<k}"
  proof (rule image_subsetI)
    fix i assume "i \<in> {1..k}"
    from e [OF this] show "block_pos k a i \<in> {..<k}" using mod_less_divisor [OF assms(2), of "a * i"] by simp
  qed
  have "card (block_pos k a ` {1..k}) = card {..<k}" unfolding card_image [OF inj] by simp
  then have "block_pos k a ` {1..k} = {..<k}" using card_subset_eq [OF finite_lessThan sub] by blast
  moreover have "set [1..<k + 1] = {1..k}" by auto
  ultimately show ?thesis using inj unfolding bij_betw_def by metis
qed

lemma pred_bij: "bij_betw (\<lambda>i. i - 1) (set [1..<k + 1]) {..<k}"
  by (rule bij_betw_byWitness [of _ Suc]) auto

lemma block_roundtrip:
  assumes "coprime a k" and "0 < k" and "a * k < 2 ^ 32" and "k < 2 ^ 32" and "a < 2 ^ 32"
    and "k \<le> length input" and "k \<le> length mid" and "k \<le> length out"
  shows "\<exists>m r. block_interleave k a input mid = Ok m \<and> length m = length mid \<and> block_deinterleave k a m out = Ok r \<and>
    take k r = take k input \<and> drop k r = drop k out"
proof -
  have "distinct [1..<k + 1]" by simp
  from assign_loop_inverse [OF this block_pos_bij [OF assms(1-5)] pred_bij assms(6-8)]
  obtain m r where mr: "assign_loop [1..<k + 1] (block_pos k a) (\<lambda>i. i - 1) input mid = Ok m" "length m = length mid"
    "assign_loop [1..<k + 1] (\<lambda>i. i - 1) (block_pos k a) m out = Ok r" "take k r = take k input" "drop k r = drop k out" by blast
  have "block_interleave k a input mid = Ok m" unfolding block_interleave_def using mr(1) assms(6,7) by (simp only: if_True simp_thms)
  moreover have "block_deinterleave k a m out = Ok r"
    unfolding block_deinterleave_def using mr(3) assms(7,8) by (simp only: mr(2) if_True simp_thms)
  ultimately show ?thesis using mr by blast
qed

section \<open>Matrix interleaving\<close>

lemma set_grid: "set (grid lines columns) = {..<columns} \<times> {..<lines}"
  by (auto simp: grid_def)

lemma distinct_grid: "distinct (grid lines columns)"
proof (induction columns)
  case (Suc n)
  have "grid lines (Suc n) = grid lines n @ map (\<lambda>j. (n, j)) [0..<lines]" by (simp add: grid_def)
  then show ?case using Suc by (auto simp: set_grid distinct_map inj_on_def)
qed (simp add: grid_def)

lemma row_major_bij: "bij_betw (\<lambda>(i, j). i * n + j) ({..<m} \<times> {..<n}) {..<m * n}" for m n :: nat
proof -
  have "inj_on (\<lambda>(i, j). i * n + j) ({..<m} \<times> {..<n})"
  proof (rule inj_onI, clarsimp)
    fix i j i' j' assume a: "j < n" "j' < n" "i * n + j = i' * n + j'"
    have "i = (i * n + j) div n" using a(1) by simp
    also have "\<dots> = i'" unfolding a(3) using a(2) by simp
    finally show "i = i' \<and> j = j'" using a(3) by simp
  qed
  moreover have "(\<lambda>(i, j). i * n + j) ` ({..<m} \<times> {..<n}) = {..<m * n}"
  proof (rule card_subset_eq)
    show "(\<lambda>(i, j). i * n + j) ` ({..<m} \<times> {..<n}) \<subseteq> {..<m * n}"
    proof clarsimp
      fix i j assume "i < m" "j < n"
      then have "i * n + j < Suc i * n" "Suc i * n \<le> m * n" by (simp, intro mult_le_mono1) simp
      then show "i * n + j < m * n" by (rule order.strict_trans2)
    qed
  qed (use calculation in \<open>simp_all add: card_image\<close>)
  ultimately show ?thesis by (simp add: bij_betw_def)
qed

lemma matrix_roundtrip:
  assumes "n = lines * columns" and "n < 2 ^ 64" and "n \<le> length input" and "n \<le> length mid" and "n \<le> length out"
  shows "\<exists>m r. matrix_interleave lines columns input mid = Ok m \<and> length m = length mid \<and>
    matrix_deinterleave lines columns m out = Ok r \<and> take n r = take n input \<and> drop n r = drop n out"
proof -
  have f: "bij_betw (\<lambda>(i, j). i * lines + j) (set (grid lines columns)) {..<n}"
    using row_major_bij [of lines columns] by (simp add: set_grid assms(1) mult.commute)
  have "bij_betw prod.swap ({..<columns} \<times> {..<lines}) ({..<lines} \<times> {..<columns})"
    by (rule bij_betw_byWitness [of _ prod.swap]) auto
  from bij_betw_trans [OF this row_major_bij [of columns lines]]
  have g: "bij_betw (\<lambda>(i, j). j * columns + i) (set (grid lines columns)) {..<n}"
    by (simp add: set_grid assms(1) comp_def case_prod_unfold)
  from assign_loop_inverse [OF distinct_grid f g assms(3-5)] assms show ?thesis
    by (auto simp: matrix_interleave_def matrix_deinterleave_def)
qed

end
