(* ===== verification/Tch_Reorder.thy ===== *)
theory Tch_Reorder
  imports Interleaver
begin

text \<open>
  \<open>lmac/components/tch_reorder.rs\<close>: the order of the speech bits in the codec's frame and on the channel. The three
  position tables together hold every position of a subframe once, so the two conversions are inverse.
\<close>

section \<open>Operations\<close>

definition NUM_ACELP_BITS :: nat where
  "NUM_ACELP_BITS = 137"

definition CLASS0_POS :: "u8 list" where
  "CLASS0_POS =
    [35, 36, 37, 38, 39, 40, 41, 42, 43, 47, 48, 56, 61, 62, 63, 64, 65, 66, 67, 68, 69, 70, 74, 75, 83, 88, 89,
     90, 91, 92, 93, 94, 95, 96, 97, 101, 102, 110, 115, 116, 117, 118, 119, 120, 121, 122, 123, 124, 128, 129, 137]"

definition CLASS1_POS :: "u8 list" where
  "CLASS1_POS =
    [58, 85, 112, 54, 81, 108, 135, 50, 77, 104, 131, 45, 72, 99, 126, 55, 82, 109, 136, 5, 13, 34, 8, 16, 17, 22,
     23, 24, 25, 26, 6, 14, 7, 15, 60, 87, 114, 46, 73, 100, 127, 44, 71, 98, 125, 33, 49, 76, 103, 130, 59, 86,
     113, 57, 84, 111]"

definition CLASS2_POS :: "u8 list" where
  "CLASS2_POS =
    [18, 19, 20, 21, 31, 32, 53, 80, 107, 134, 1, 2, 3, 4, 9, 10, 11, 12, 27, 28, 29, 30, 52, 79, 106, 133, 51,
     78, 105, 132]"

text \<open>The index pairs (channel, codec) of one of the loops, which advances the channel index by two per table entry.\<close>

primrec class_indices :: "nat \<Rightarrow> u8 list \<Rightarrow> (nat \<times> nat) list" where
  "class_indices idx [] = []"
| "class_indices idx (p # ps) =
     (let pos = unat (p - 1)
      in (idx, 0 * NUM_ACELP_BITS + pos) # (idx + 1, 1 * NUM_ACELP_BITS + pos) # class_indices (idx + 2) ps)"

definition reorder_indices :: "(nat \<times> nat) list" where
  "reorder_indices =
     class_indices 0 CLASS0_POS @
     class_indices (2 * length CLASS0_POS) CLASS1_POS @
     class_indices (2 * length CLASS0_POS + 2 * length CLASS1_POS) CLASS2_POS"

definition codec_to_channel :: "u8 list \<Rightarrow> (pdu_parse_err, u8 list) outcome" where
  "codec_to_channel codec_bits = assign_loop reorder_indices fst snd codec_bits (replicate 274 0)"

definition channel_to_codec :: "u8 list \<Rightarrow> (pdu_parse_err, u8 list) outcome" where
  "channel_to_codec channel_bits = assign_loop reorder_indices snd fst channel_bits (replicate 274 0)"

section \<open>The tables are a permutation\<close>

lemma class_indices_append:
  "class_indices idx (ps @ qs) = class_indices idx ps @ class_indices (idx + 2 * length ps) qs"
  by (induction ps arbitrary: idx) (simp_all add: Let_def)

lemma reorder_indices_eq: "reorder_indices = class_indices 0 (CLASS0_POS @ CLASS1_POS @ CLASS2_POS)"
  by (simp add: reorder_indices_def class_indices_append)

lemma map_fst_class_indices: "map fst (class_indices idx ps) = [idx..<idx + 2 * length ps]"
proof (induction ps arbitrary: idx)
  case (Cons p ps)
  have "[idx..<idx + 2 * length (p # ps)] = idx # (idx + 1) # [idx + 2..<idx + 2 + 2 * length ps]"
    by (simp add: upt_conv_Cons del: upt_Suc)
  then show ?case using Cons [of "idx + 2"] by (simp add: Let_def del: upt_Suc)
qed simp

lemma snd_class_indices:
  "snd ` set (class_indices idx ps) = (\<lambda>p. unat (p - 1)) ` set ps \<union> (\<lambda>p. 137 + unat (p - 1)) ` set ps"
  by (induction ps arbitrary: idx) (auto simp: Let_def NUM_ACELP_BITS_def)

lemma positions_values:
  "map (\<lambda>p. unat (p - 1)) (CLASS0_POS @ CLASS1_POS @ CLASS2_POS) =
    [34, 35, 36, 37, 38, 39, 40, 41, 42, 46, 47, 55, 60, 61, 62, 63, 64, 65, 66, 67, 68, 69, 73, 74, 82, 87, 88,
     89, 90, 91, 92, 93, 94, 95, 96, 100, 101, 109, 114, 115, 116, 117, 118, 119, 120, 121, 122, 123, 127, 128,
     136, 57, 84, 111, 53, 80, 107, 134, 49, 76, 103, 130, 44, 71, 98, 125, 54, 81, 108, 135, 4, 12, 33, 7, 15,
     16, 21, 22, 23, 24, 25, 5, 13, 6, 14, 59, 86, 113, 45, 72, 99, 126, 43, 70, 97, 124, 32, 48, 75, 102, 129,
     58, 85, 112, 56, 83, 110, 17, 18, 19, 20, 30, 31, 52, 79, 106, 133, 0, 1, 2, 3, 8, 9, 10, 11, 26, 27, 28, 29,
     51, 78, 105, 132, 50, 77, 104, 131]"
  by (simp add: CLASS0_POS_def CLASS1_POS_def CLASS2_POS_def)

lemma length_positions: "length (CLASS0_POS @ CLASS1_POS @ CLASS2_POS) = 137"
  by (simp add: CLASS0_POS_def CLASS1_POS_def CLASS2_POS_def)

text \<open>Collecting positions in a bit mask is a fast check that all of them occur.\<close>

lemma bit_collect: "bit (fold (\<lambda>p m. m OR push_bit p 1) xs (a :: int)) i \<longleftrightarrow> bit a i \<or> i \<in> set xs"
proof (induction xs arbitrary: a)
  case (Cons p xs)
  have "bit (push_bit p 1 :: int) i \<longleftrightarrow> i = p" unfolding bit_push_bit_iff bit_1_iff by auto
  with Cons [of "a OR push_bit p 1"] show ?case unfolding bit_or_iff by auto
qed simp

lemma positions_set: "(\<lambda>p. unat (p - 1)) ` set (CLASS0_POS @ CLASS1_POS @ CLASS2_POS) = {..<137}"
proof -
  let ?ps = "map (\<lambda>p. unat (p - 1)) (CLASS0_POS @ CLASS1_POS @ CLASS2_POS)"
  have "fold (\<lambda>p m. m OR push_bit p 1) ?ps (0 :: int) = mask 137"
    unfolding positions_values by (simp add: mask_eq_exp_minus_1)
  from arg_cong [OF this, of bit] have "(\<lambda>i. i \<in> set ?ps) = (\<lambda>i. i < 137)"
    by (simp only: fun_eq_iff bit_collect bit_0_eq bot_apply bit_mask_iff) simp
  then have "set ?ps = {..<137}" by (metis Collect_mem_eq lessThan_def)
  then show ?thesis by (simp only: set_map)
qed

lemma reorder_fst: "map fst reorder_indices = [0..<274]"
  unfolding reorder_indices_eq map_fst_class_indices length_positions by simp

lemma reorder_snd: "snd ` set reorder_indices = {..<274}"
proof -
  have "(\<lambda>p. 137 + unat (p - 1)) ` set (CLASS0_POS @ CLASS1_POS @ CLASS2_POS) = (\<lambda>i. 137 + i) ` {..<137}"
    unfolding positions_set [symmetric] image_image by (rule refl)
  also have "\<dots> = {137..<274}" by (simp add: lessThan_atLeast0)
  finally show ?thesis unfolding reorder_indices_eq snd_class_indices positions_set by auto
qed

lemma length_reorder: "length reorder_indices = 274"
  using arg_cong [OF reorder_fst, of length] by simp

lemma reorder_bij: "bij_betw fst (set reorder_indices) {..<274}" "bij_betw snd (set reorder_indices) {..<274}"
  and reorder_distinct: "distinct reorder_indices"
proof -
  have d: "distinct (map fst reorder_indices)" unfolding reorder_fst by simp
  then show "distinct reorder_indices" by (simp add: distinct_map)
  have "fst ` set reorder_indices = {..<274}" using arg_cong [OF reorder_fst, of set] by (simp add: atLeast_upt)
  with d show "bij_betw fst (set reorder_indices) {..<274}" by (simp add: bij_betw_def distinct_map)
  have "distinct (map snd reorder_indices)"
    by (rule card_distinct) (simp add: reorder_snd length_reorder)
  then show "bij_betw snd (set reorder_indices) {..<274}" by (simp add: bij_betw_def distinct_map reorder_snd)
qed

lemma reorder_roundtrip:
  assumes "length bits = 274"
  shows "\<exists>c. codec_to_channel bits = Ok c \<and> length c = 274 \<and> channel_to_codec c = Ok bits"
proof -
  have "274 \<le> length bits" "274 \<le> length (replicate 274 (0 :: u8))" using assms by simp_all
  from assign_loop_inverse [OF reorder_distinct reorder_bij this this(2)] obtain m r
    where m: "assign_loop reorder_indices fst snd bits (replicate 274 0) = Ok m" "length m = 274"
      "assign_loop reorder_indices snd fst m (replicate 274 0) = Ok r" "take 274 r = take 274 bits" "drop 274 r = []" by auto
  then have "r = bits" using assms by (metis append_Nil2 append_take_drop_id take_all order.refl)
  with m show ?thesis by (auto simp: codec_to_channel_def channel_to_codec_def)
qed

end
