(* ===== verification/Convenc.thy ===== *)
theory Convenc
  imports Interleaver
begin

text \<open>
  \<open>lmac/components/convenc.rs\<close>: the convolutional encoders of the control channels (four generators) and of speech
  (three), and the puncturing of their output. Bits are bytes with value 0 or 1, and \<open>0xff\<close> marks an erasure.
  The lemmas give the encoders as state machines over bits, and show that de-puncturing restores every mother code bit that
  was kept and leaves an erasure everywhere else.
\<close>

section \<open>Encoders\<close>

record ConvEncState =
  delayed :: "u8 list"

definition ConvEncState_new :: ConvEncState where
  "ConvEncState_new = \<lparr>delayed = [0, 0, 0, 0]\<rparr>"

definition ConvEncState_reset :: "ConvEncState \<Rightarrow> ConvEncState" where
  "ConvEncState_reset s = s\<lparr>delayed := [0, 0, 0, 0]\<rparr>"

text \<open>The result is the packed nibble, the output window and the shifted register.\<close>

definition encode_bit :: "ConvEncState \<Rightarrow> u8 \<Rightarrow> u8 \<times> u8 list \<times> ConvEncState" where
  "encode_bit s b =
     (let d0 = delayed s ! 0; d1 = delayed s ! 1; d2 = delayed s ! 2; d3 = delayed s ! 3;
          g1 = b XOR d0 XOR d3;
          g2 = b XOR d1 XOR d2 XOR d3;
          g3 = b XOR d0 XOR d1 XOR d3;
          g4 = b XOR d0 XOR d2 XOR d3
      in (g1 OR push_bit 1 g2 OR push_bit 2 g3 OR push_bit 3 g4, [g1, g2, g3, g4], s\<lparr>delayed := [b, d0, d1, d2]\<rparr>))"

fun encode_loop :: "nat \<Rightarrow> u8 list \<Rightarrow> u8 list \<Rightarrow> ConvEncState \<Rightarrow> u8 list \<times> ConvEncState" where
  "encode_loop i [] out s = (out, s)"
| "encode_loop i (b # bs) out s =
     (let (_, chunk, s) = encode_bit s b in encode_loop (i + 1) bs (overwrite out (i * 4) chunk) s)"

definition encode :: "u8 list \<Rightarrow> u8 list \<Rightarrow> ConvEncState \<Rightarrow> (pdu_parse_err, u8 list \<times> ConvEncState) outcome" where
  "encode input out s = (if length out \<ge> length input * 4 then Ok (encode_loop 0 input out s) else Panic)"

fun encode_rate1_3_loop :: "nat \<Rightarrow> u8 list \<Rightarrow> u8 list \<Rightarrow> ConvEncState \<Rightarrow> u8 list \<times> ConvEncState" where
  "encode_rate1_3_loop i [] out s = (out, s)"
| "encode_rate1_3_loop i (b # bs) out s =
     (let (_, g4, s) = encode_bit s b
      in encode_rate1_3_loop (i + 1) bs (out[i * 3 := g4 ! 0, i * 3 + 1 := g4 ! 1, i * 3 + 2 := g4 ! 2]) s)"

definition encode_rate1_3 :: "u8 list \<Rightarrow> u8 list \<Rightarrow> ConvEncState \<Rightarrow> (pdu_parse_err, u8 list \<times> ConvEncState) outcome" where
  "encode_rate1_3 input out s = (if length out \<ge> length input * 3 then Ok (encode_rate1_3_loop 0 input out s) else Panic)"

record SpeechConvEncState =
  sp_delayed :: "u8 list"

definition SpeechConvEncState_new :: SpeechConvEncState where
  "SpeechConvEncState_new = \<lparr>sp_delayed = [0, 0, 0, 0]\<rparr>"

definition speech_encode_bit :: "SpeechConvEncState \<Rightarrow> u8 \<Rightarrow> u8 list \<times> SpeechConvEncState" where
  "speech_encode_bit s b =
     (let d0 = sp_delayed s ! 0; d1 = sp_delayed s ! 1; d2 = sp_delayed s ! 2; d3 = sp_delayed s ! 3;
          g1 = b XOR d0 XOR d1 XOR d2 XOR d3;
          g2 = b XOR d0 XOR d2 XOR d3;
          g3 = b XOR d1 XOR d3
      in ([g1, g2, g3], s\<lparr>sp_delayed := [b, d0, d1, d2]\<rparr>))"

fun speech_encode_loop :: "nat \<Rightarrow> u8 list \<Rightarrow> u8 list \<Rightarrow> SpeechConvEncState \<Rightarrow> u8 list \<times> SpeechConvEncState" where
  "speech_encode_loop i [] out s = (out, s)"
| "speech_encode_loop i (b # bs) out s =
     (let (g3, s) = speech_encode_bit s b
      in speech_encode_loop (i + 1) bs (out[i * 3 := g3 ! 0, i * 3 + 1 := g3 ! 1, i * 3 + 2 := g3 ! 2]) s)"

definition speech_encode ::
  "u8 list \<Rightarrow> u8 list \<Rightarrow> SpeechConvEncState \<Rightarrow> (pdu_parse_err, u8 list \<times> SpeechConvEncState) outcome" where
  "speech_encode input out s = (if length out \<ge> length input * 3 then Ok (speech_encode_loop 0 input out s) else Panic)"

section \<open>Puncturing\<close>

datatype RcpcPunctMode = Rate2_3 | Rate1_3 | Rate292_432 | Rate148_432 | Rate112_168 | Rate72_162 | Rate38_80

definition i_equals :: "nat \<Rightarrow> nat" where
  "i_equals j = j"

definition i_292 :: "nat \<Rightarrow> nat" where
  "i_292 j = j + (j - 1) div 65"

definition i_148 :: "nat \<Rightarrow> nat" where
  "i_148 j = j + (j - 1) div 35"

record Puncturer =
  pu_p :: "nat list"
  pu_t :: nat
  pu_period :: nat
  pu_i_func :: "nat \<Rightarrow> nat"

definition P_RATE2_3 :: "nat list" where
  "P_RATE2_3 = [0, 1, 2, 5]"

definition P_RATE1_3 :: "nat list" where
  "P_RATE1_3 = [0, 1, 2, 3, 5, 6, 7]"

definition P_RATE8_12 :: "nat list" where
  "P_RATE8_12 = [0, 1, 2, 4]"

definition P_RATE8_18 :: "nat list" where
  "P_RATE8_18 = [0, 1, 2, 3, 4, 5, 7, 8, 10, 11]"

definition P_RATE8_17 :: "nat list" where
  "P_RATE8_17 = [0, 1, 2, 3, 4, 5, 7, 8, 10, 11, 13, 14, 16, 17, 19, 20, 22, 23]"

fun get_puncturer :: "RcpcPunctMode \<Rightarrow> Puncturer" where
  "get_puncturer Rate2_3 = \<lparr>pu_p = P_RATE2_3, pu_t = 3, pu_period = 8, pu_i_func = i_equals\<rparr>"
| "get_puncturer Rate1_3 = \<lparr>pu_p = P_RATE1_3, pu_t = 6, pu_period = 8, pu_i_func = i_equals\<rparr>"
| "get_puncturer Rate292_432 = \<lparr>pu_p = P_RATE2_3, pu_t = 3, pu_period = 8, pu_i_func = i_292\<rparr>"
| "get_puncturer Rate148_432 = \<lparr>pu_p = P_RATE1_3, pu_t = 6, pu_period = 8, pu_i_func = i_148\<rparr>"
| "get_puncturer Rate112_168 = \<lparr>pu_p = P_RATE8_12, pu_t = 3, pu_period = 6, pu_i_func = i_equals\<rparr>"
| "get_puncturer Rate72_162 = \<lparr>pu_p = P_RATE8_18, pu_t = 9, pu_period = 12, pu_i_func = i_equals\<rparr>"
| "get_puncturer Rate38_80 = \<lparr>pu_p = P_RATE8_17, pu_t = 17, pu_period = 24, pu_i_func = i_equals\<rparr>"

text \<open>The mother code position of the \<open>j\<close>-th kept bit, both counted from 1.\<close>

definition punct_pos :: "RcpcPunctMode \<Rightarrow> nat \<Rightarrow> nat" where
  "punct_pos pu j =
     (let q = get_puncturer pu; i = pu_i_func q j; blk = (i - 1) div pu_t q; idx = i - pu_t q * blk
      in pu_period q * blk + pu_p q ! idx)"

definition get_punctured_rate :: "RcpcPunctMode \<Rightarrow> u8 list \<Rightarrow> u8 list \<Rightarrow> (pdu_parse_err, u8 list) outcome" where
  "get_punctured_rate pu input out =
     assign_loop [1..<length out + 1] (\<lambda>j. j - 1) (\<lambda>j. punct_pos pu j - 1) input out"

definition tetra_rcpc_depunct :: "RcpcPunctMode \<Rightarrow> u8 list \<Rightarrow> nat \<Rightarrow> u8 list \<Rightarrow> (pdu_parse_err, u8 list) outcome" where
  "tetra_rcpc_depunct pu input len out =
     assign_loop [1..<len + 1] (\<lambda>j. punct_pos pu j - 1) (\<lambda>j. j - 1) input out"

fun mother_memcmp_loop :: "(u8 \<times> u8) list \<Rightarrow> nat \<Rightarrow> nat option" where
  "mother_memcmp_loop [] matched = Some matched"
| "mother_memcmp_loop ((m, d) # ps) matched =
     (if d = 0xff then mother_memcmp_loop ps matched
      else if d \<noteq> m then None else mother_memcmp_loop ps (matched + 1))"

definition mother_memcmp :: "u8 list \<Rightarrow> u8 list \<Rightarrow> nat option" where
  "mother_memcmp mother depunct = mother_memcmp_loop (zip mother depunct) 0"

section \<open>The encoders as state machines over bits\<close>

text \<open>The register as a number: the most recent bit has weight 8, the oldest weight 1.\<close>

definition next_state :: "nat \<Rightarrow> bool \<Rightarrow> nat" where
  "next_state s b = s div 2 + (if b then 8 else 0)"

definition reg_bits :: "nat \<Rightarrow> bool list" where
  "reg_bits s = [s div 8 mod 2 = 1, s div 4 mod 2 = 1, s div 2 mod 2 = 1, s mod 2 = 1]"

definition reg_of :: "nat \<Rightarrow> u8 list" where
  "reg_of s = map of_bool (reg_bits s)"

lemma next_state_less [simp]: "s < 16 \<Longrightarrow> next_state s b < 16"
  by (auto simp: next_state_def)

lemma states_16: "s < (16 :: nat) \<Longrightarrow> s \<in> {0, 1, 2, 3, 4, 5, 6, 7, 8, 9, 10, 11, 12, 13, 14, 15}"
  unfolding insert_iff empty_iff by presburger

text \<open>The output of one step, by the taps of each generator.\<close>

definition cch_out :: "nat \<Rightarrow> bool \<Rightarrow> bool list" where
  "cch_out s b =
     (let d = reg_bits s
      in [b \<noteq> (d ! 0 \<noteq> d ! 3), b \<noteq> (d ! 1 \<noteq> (d ! 2 \<noteq> d ! 3)), b \<noteq> (d ! 0 \<noteq> (d ! 1 \<noteq> d ! 3)),
          b \<noteq> (d ! 0 \<noteq> (d ! 2 \<noteq> d ! 3))])"

definition speech_out :: "nat \<Rightarrow> bool \<Rightarrow> bool list" where
  "speech_out s b =
     (let d = reg_bits s
      in [b \<noteq> (d ! 0 \<noteq> (d ! 1 \<noteq> (d ! 2 \<noteq> d ! 3))), b \<noteq> (d ! 0 \<noteq> (d ! 2 \<noteq> d ! 3)), b \<noteq> (d ! 1 \<noteq> d ! 3)])"

lemma length_out [simp]: "length (cch_out s b) = 4" "length (speech_out s b) = 3"
  by (simp_all add: cch_out_def speech_out_def Let_def)

fun encode_bits :: "(nat \<Rightarrow> bool \<Rightarrow> bool list) \<Rightarrow> nat \<Rightarrow> bool list \<Rightarrow> bool list" where
  "encode_bits out s [] = []"
| "encode_bits out s (b # bs) = out s b @ encode_bits out (next_state s b) bs"

definition final_state :: "nat \<Rightarrow> bool list \<Rightarrow> nat" where
  "final_state s bs = foldl next_state s bs"

lemma final_state_simps [simp]:
  "final_state s [] = s" "final_state s (b # bs) = final_state (next_state s b) bs"
  "final_state s (as @ bs) = final_state (final_state s as) bs"
  by (simp_all add: final_state_def)

lemma final_state_less [simp]: "s < 16 \<Longrightarrow> final_state s bs < 16"
  by (induction bs arbitrary: s) simp_all

lemma encode_bits_append: "encode_bits out s (as @ bs) = encode_bits out s as @ encode_bits out (final_state s as) bs"
  by (induction as arbitrary: s) simp_all

lemma tail_final_state: "s < 16 \<Longrightarrow> final_state s [False, False, False, False] = 0"
  by (simp add: next_state_def)

lemma xor_bool_word: "of_bool p XOR of_bool q = (of_bool (p \<noteq> q) :: u8)"
  by auto

lemma reg_bits_next:
  assumes "s < 16"
  shows "reg_bits (next_state s b) = b # take 3 (reg_bits s)"
proof -
  have "list_all (\<lambda>s. list_all (\<lambda>b. reg_bits (next_state s b) = b # take 3 (reg_bits s)) [False, True]) [0..<16]"
    by code_simp
  with assms show ?thesis unfolding list_all_iff set_upt by (cases b) auto
qed

lemma reg_next: "s < 16 \<Longrightarrow> reg_of (next_state s b) = of_bool b # take 3 (reg_of s)"
  by (simp add: reg_of_def reg_bits_next take_map)

lemma reg_nth: "i < 4 \<Longrightarrow> reg_of s ! i = of_bool (reg_bits s ! i)"
  unfolding reg_of_def by (rule nth_map) (simp add: reg_bits_def)

lemma reg_taps:
  "reg_of s ! 0 = of_bool (reg_bits s ! 0)" "reg_of s ! 1 = of_bool (reg_bits s ! 1)"
  "reg_of s ! 2 = of_bool (reg_bits s ! 2)" "reg_of s ! 3 = of_bool (reg_bits s ! 3)"
  by (rule reg_nth, simp)+

lemma encode_bit_spec:
  assumes "s < 16" and "delayed r = reg_of s"
  shows "\<exists>n. encode_bit r (of_bool b) = (n, map of_bool (cch_out s b), r\<lparr>delayed := reg_of (next_state s b)\<rparr>)"
proof -
  have "[of_bool b, reg_of s ! 0, reg_of s ! 1, reg_of s ! 2] = reg_of (next_state s b)"
    unfolding reg_next [OF assms(1)] by (simp add: reg_of_def reg_bits_def)
  then show ?thesis
    unfolding encode_bit_def Let_def assms(2) cch_out_def reg_taps xor_bool_word by simp
qed

lemma speech_encode_bit_spec:
  assumes "s < 16" and "sp_delayed r = reg_of s"
  shows "speech_encode_bit r (of_bool b) = (map of_bool (speech_out s b), r\<lparr>sp_delayed := reg_of (next_state s b)\<rparr>)"
proof -
  have "[of_bool b, reg_of s ! 0, reg_of s ! 1, reg_of s ! 2] = reg_of (next_state s b)"
    unfolding reg_next [OF assms(1)] by (simp add: reg_of_def reg_bits_def)
  then show ?thesis
    unfolding speech_encode_bit_def Let_def assms(2) speech_out_def reg_taps xor_bool_word by simp
qed

lemma encode_loop_spec:
  "s < 16 \<Longrightarrow> delayed r = reg_of s \<Longrightarrow> i * 4 + 4 * length bs \<le> length out \<Longrightarrow>
   encode_loop i (map of_bool bs) out r =
     (overwrite out (i * 4) (map of_bool (encode_bits cch_out s bs)), r\<lparr>delayed := reg_of (final_state s bs)\<rparr>)"
proof (induction bs arbitrary: i out r s)
  case (Cons b bs)
  obtain n where e: "encode_bit r (of_bool b) = (n, map of_bool (cch_out s b), r\<lparr>delayed := reg_of (next_state s b)\<rparr>)"
    using encode_bit_spec [OF Cons.prems(1,2)] by blast
  have l: "length (map of_bool (cch_out s b) :: u8 list) = 4" by simp
  have "overwrite (overwrite out (i * 4) (map of_bool (cch_out s b))) (i * 4 + 4) (map of_bool (encode_bits cch_out (next_state s b) bs)) =
    overwrite out (i * 4) (map of_bool (cch_out s b) @ map of_bool (encode_bits cch_out (next_state s b) bs))"
    using overwrite_overwrite [of "i * 4" out "map of_bool (cch_out s b)"] Cons.prems(3) l by simp
  then show ?case
    using Cons.IH [of "next_state s b" "r\<lparr>delayed := reg_of (next_state s b)\<rparr>" "i + 1" "overwrite out (i * 4) (map of_bool (cch_out s b))"] Cons.prems l
    by (simp add: e algebra_simps)
qed simp

lemma update_three:
  "i + 3 \<le> length out \<Longrightarrow> out[i := a, i + 1 := b, i + 2 := c] = overwrite out i [a, b, c]"
  by (rule nth_equalityI) (auto simp: nth_overwrite nth_list_update nth_Cons' less_Suc_eq)

lemma speech_encode_loop_spec:
  "s < 16 \<Longrightarrow> sp_delayed r = reg_of s \<Longrightarrow> i * 3 + 3 * length bs \<le> length out \<Longrightarrow>
   speech_encode_loop i (map of_bool bs) out r =
     (overwrite out (i * 3) (map of_bool (encode_bits speech_out s bs)), r\<lparr>sp_delayed := reg_of (final_state s bs)\<rparr>)"
proof (induction bs arbitrary: i out r s)
  case (Cons b bs)
  let ?g = "map of_bool (speech_out s b) :: u8 list"
  have l: "length ?g = 3" by simp
  have g: "?g = [?g ! 0, ?g ! 1, ?g ! 2]" by (simp add: speech_out_def Let_def)
  have o: "out[i * 3 := ?g ! 0, i * 3 + 1 := ?g ! 1, i * 3 + 2 := ?g ! 2] = overwrite out (i * 3) ?g"
    using update_three [of "i * 3" out] Cons.prems(3) g by simp
  have "overwrite (overwrite out (i * 3) ?g) (i * 3 + 3) (map of_bool (encode_bits speech_out (next_state s b) bs)) =
    overwrite out (i * 3) (?g @ map of_bool (encode_bits speech_out (next_state s b) bs))"
    using overwrite_overwrite [of "i * 3" out ?g] Cons.prems(3) l by simp
  then show ?case
    using Cons.IH [of "next_state s b" "r\<lparr>sp_delayed := reg_of (next_state s b)\<rparr>" "i + 1" "overwrite out (i * 3) ?g"] Cons.prems l
    unfolding list.map speech_encode_loop.simps speech_encode_bit_spec [OF Cons.prems(1,2)] Let_def case_prod_conv o
    by (simp add: algebra_simps)
qed simp

lemma length_encode_bits:
  "length (encode_bits cch_out s bs) = 4 * length bs" "length (encode_bits speech_out s bs) = 3 * length bs"
  by (induction bs arbitrary: s) simp_all

lemma encode_spec:
  assumes "4 * length bs \<le> length out"
  shows "encode (map of_bool bs) out ConvEncState_new =
    Ok (overwrite out 0 (map of_bool (encode_bits cch_out 0 bs)), \<lparr>delayed = reg_of (final_state 0 bs)\<rparr>)"
proof -
  have "delayed ConvEncState_new = reg_of 0" by (simp add: ConvEncState_new_def reg_of_def reg_bits_def)
  from encode_loop_spec [OF _ this, of 0 bs out] assms show ?thesis
    by (simp add: encode_def mult.commute ConvEncState_new_def)
qed

lemma speech_encode_spec:
  assumes "s < 16" and "3 * length bs = length out"
  shows "speech_encode (map of_bool bs) out \<lparr>sp_delayed = reg_of s\<rparr> =
    Ok (map of_bool (encode_bits speech_out s bs), \<lparr>sp_delayed = reg_of (final_state s bs)\<rparr>)"
  using speech_encode_loop_spec [OF assms(1), of "\<lparr>sp_delayed = reg_of s\<rparr>" 0 bs out] assms(2)
  by (simp add: speech_encode_def mult.commute overwrite_def length_encode_bits)

section \<open>Puncturing keeps what it takes\<close>

definition well_punctured :: "RcpcPunctMode \<Rightarrow> nat \<Rightarrow> nat \<Rightarrow> bool" where
  "well_punctured pu len tot \<longleftrightarrow>
     inj_on (punct_pos pu) {1..len} \<and> (\<forall>j \<in> {1..len}. 0 < punct_pos pu j \<and> punct_pos pu j \<le> tot)"

definition kept :: "RcpcPunctMode \<Rightarrow> nat \<Rightarrow> nat \<Rightarrow> bool" where
  "kept pu len q \<longleftrightarrow> (\<exists>j \<in> {1..len}. punct_pos pu j = q + 1)"

lemma well_puncturedD: "well_punctured pu len tot \<Longrightarrow> j \<in> {1..len} \<Longrightarrow> 0 < punct_pos pu j \<and> punct_pos pu j \<le> tot"
  by (simp add: well_punctured_def)

lemma set_from_1: "set [1..<n + 1] = {1..n}"
  by auto

lemma punctured_spec:
  assumes "well_punctured pu n (length mother)" and "length out = n"
  shows "\<exists>p. get_punctured_rate pu mother out = Ok p \<and> length p = n \<and>
    (\<forall>j \<in> {1..n}. p ! (j - 1) = mother ! (punct_pos pu j - 1))"
proof -
  have r: "\<forall>j \<in> set [1..<n + 1]. j - 1 < length out \<and> punct_pos pu j - 1 < length mother"
  proof
    fix j assume "j \<in> set [1..<n + 1]"
    then have "j \<in> {1..n}" by (simp only: set_from_1)
    with well_puncturedD [OF assms(1) this] assms(2) show "j - 1 < length out \<and> punct_pos pu j - 1 < length mother" by auto
  qed
  obtain p where p: "assign_loop [1..<n + 1] (\<lambda>j. j - 1) (\<lambda>j. punct_pos pu j - 1) mother out = Ok p" "length p = length out"
    using assign_loop_Ok [OF r] by blast
  have "inj_on (\<lambda>j. j - 1) (set [1..<n + 1])" unfolding set_from_1 by (auto simp: inj_on_def)
  from assign_loop_at [OF p(1) this distinct_upt]
  have "p ! (j - 1) = mother ! (punct_pos pu j - 1)" if "j \<in> {1..n}" for j using that unfolding set_from_1 .
  with p assms(2) show ?thesis unfolding get_punctured_rate_def by blast
qed

lemma depunct_spec:
  assumes w: "well_punctured pu len (length dst)" and "len \<le> length src"
    and src: "\<And>j. j \<in> {1..len} \<Longrightarrow> src ! (j - 1) = mother ! (punct_pos pu j - 1)"
  shows "\<exists>r. tetra_rcpc_depunct pu src len dst = Ok r \<and> length r = length dst \<and>
    (\<forall>q < length dst. r ! q = (if kept pu len q then mother ! q else dst ! q))"
proof -
  have b: "\<forall>j \<in> set [1..<len + 1]. punct_pos pu j - 1 < length dst \<and> j - 1 < length src"
  proof
    fix j assume "j \<in> set [1..<len + 1]"
    then have "j \<in> {1..len}" by (simp only: set_from_1)
    with well_puncturedD [OF w this] assms(2) show "punct_pos pu j - 1 < length dst \<and> j - 1 < length src" by auto
  qed
  obtain r where r: "assign_loop [1..<len + 1] (\<lambda>j. punct_pos pu j - 1) (\<lambda>j. j - 1) src dst = Ok r" "length r = length dst"
    using assign_loop_Ok [OF b] by blast
  have "inj_on (\<lambda>j. punct_pos pu j - 1) {1..len}"
  proof (rule inj_onI)
    fix x y assume xy: "x \<in> {1..len}" "y \<in> {1..len}" "punct_pos pu x - 1 = punct_pos pu y - 1"
    with well_puncturedD [OF w xy(1)] well_puncturedD [OF w xy(2)] have "punct_pos pu x = punct_pos pu y" by linarith
    with w xy(1,2) show "x = y" unfolding well_punctured_def by (meson inj_onD)
  qed
  then have inj: "inj_on (\<lambda>j. punct_pos pu j - 1) (set [1..<len + 1])" by (simp only: set_from_1)
  have "r ! q = (if kept pu len q then mother ! q else dst ! q)" for q
  proof (cases "kept pu len q")
    case True
    then obtain j where j: "j \<in> {1..len}" "punct_pos pu j = q + 1" by (auto simp: kept_def)
    have "j \<in> set [1..<len + 1]" using j(1) by (simp only: set_from_1)
    from assign_loop_at [OF r(1) inj distinct_upt this] src [OF j(1)] True j(2) show ?thesis by simp
  next
    case False
    have "q \<notin> (\<lambda>j. punct_pos pu j - 1) ` set [1..<len + 1]"
    proof
      assume "q \<in> (\<lambda>j. punct_pos pu j - 1) ` set [1..<len + 1]"
      then obtain j where j: "j \<in> {1..len}" "q = punct_pos pu j - 1" unfolding set_from_1 by blast
      with well_puncturedD [OF w j(1)] have "punct_pos pu j = q + 1" by simp
      with False j(1) show False unfolding kept_def by blast
    qed
    with False assign_loop_other [OF r(1), of q] show ?thesis by simp
  qed
  with r show ?thesis unfolding tetra_rcpc_depunct_def by blast
qed

section \<open>The patterns in use\<close>

lemma punct_pos_2_3: "1 \<le> j \<Longrightarrow> punct_pos Rate2_3 j = 8 * ((j - 1) div 3) + [1, 2, 5] ! ((j - 1) mod 3)"
  and punct_pos_8_12: "1 \<le> j \<Longrightarrow> punct_pos Rate112_168 j = 6 * ((j - 1) div 3) + [1, 2, 4] ! ((j - 1) mod 3)"
  and punct_pos_8_18: "1 \<le> j \<Longrightarrow> punct_pos Rate72_162 j = 12 * ((j - 1) div 9) + [1, 2, 3, 4, 5, 7, 8, 10, 11] ! ((j - 1) mod 9)"
proof -
  assume j: "1 \<le> j"
  then have "j - t * ((j - 1) div t) = Suc ((j - 1) mod t)" for t
    using mult_div_mod_eq [of t "j - 1"] by linarith
  then show "punct_pos Rate2_3 j = 8 * ((j - 1) div 3) + [1, 2, 5] ! ((j - 1) mod 3)"
    "punct_pos Rate112_168 j = 6 * ((j - 1) div 3) + [1, 2, 4] ! ((j - 1) mod 3)"
    "punct_pos Rate72_162 j = 12 * ((j - 1) div 9) + [1, 2, 3, 4, 5, 7, 8, 10, 11] ! ((j - 1) mod 9)"
    by (simp_all add: punct_pos_def Let_def i_equals_def P_RATE2_3_def P_RATE8_12_def P_RATE8_18_def)
qed

text \<open>A pattern that repeats with period \<open>per\<close> takes distinct positions when the offsets of one period are distinct.\<close>

lemma periodic_inj:
  fixes f :: "nat \<Rightarrow> nat"
  assumes "\<And>j. 1 \<le> j \<Longrightarrow> f j = per * ((j - 1) div t) + off ! ((j - 1) mod t)"
    and "length off = t" and "0 < t" and "distinct off" and "\<forall>x \<in> set off. 0 < x \<and> x \<le> per"
  shows "inj_on f {1..len}" and "1 \<le> j \<Longrightarrow> 0 < f j" and "1 \<le> j \<Longrightarrow> f j \<le> per * ((j - 1) div t + 1)"
proof -
  have o: "0 < off ! (k mod t)" "off ! (k mod t) \<le> per" for k using assms(2,3,5) by (simp_all add: mod_less_divisor)
  show "1 \<le> j \<Longrightarrow> 0 < f j" "1 \<le> j \<Longrightarrow> f j \<le> per * ((j - 1) div t + 1)"
    using assms(1) [of j] o [of "j - 1"] by simp_all
  show "inj_on f {1..len}"
  proof (rule inj_onI)
    fix x y assume xy: "x \<in> {1..len}" "y \<in> {1..len}" "f x = f y"
    have d: "(f z - 1) div per = (z - 1) div t \<and> (f z - 1) mod per = off ! ((z - 1) mod t) - 1" if "1 \<le> z" for z
    proof -
      have "f z - 1 = per * ((z - 1) div t) + (off ! ((z - 1) mod t) - 1)" using assms(1) [OF that] o [of "z - 1"] by simp
      moreover have "off ! ((z - 1) mod t) - 1 < per" using o [of "z - 1"] by linarith
      ultimately show ?thesis by simp
    qed
    from d [of x] d [of y] xy have "(x - 1) div t = (y - 1) div t" "off ! ((x - 1) mod t) - 1 = off ! ((y - 1) mod t) - 1" by auto
    then have "off ! ((x - 1) mod t) = off ! ((y - 1) mod t)" using o [of "x - 1"] o [of "y - 1"] by linarith
    then have "(x - 1) mod t = (y - 1) mod t" using assms(2-4) by (simp add: nth_eq_iff_index_eq)
    with \<open>(x - 1) div t = (y - 1) div t\<close> have "x - 1 = y - 1" by (metis mult_div_mod_eq)
    with xy show "x = y" by auto
  qed
qed

lemma well_punctured_periodic:
  assumes "\<And>j. 1 \<le> j \<Longrightarrow> punct_pos pu j = per * ((j - 1) div t) + off ! ((j - 1) mod t)"
    and "length off = t" and "0 < t" and "distinct off" and "\<forall>x \<in> set off. 0 < x \<and> x \<le> per" and "per * (len div t) \<le> tot" and "t dvd len"
  shows "well_punctured pu len tot"
proof -
  have "punct_pos pu j \<le> tot" if "j \<in> {1..len}" for j
  proof -
    from assms(7) obtain q where q: "len = t * q" by (auto simp: dvd_def)
    have "j - 1 < t * q" using that q by auto
    then have "(j - 1) div t < q" using assms(3) by (simp add: less_mult_imp_div_less mult.commute)
    then have "per * ((j - 1) div t + 1) \<le> per * q" by (intro mult_le_mono2) simp
    also have "\<dots> = per * (len div t)" using q assms(3) by simp
    finally show ?thesis using periodic_inj(3) [OF assms(1-5), of j] that assms(6) by auto
  qed
  with periodic_inj(1,2) [OF assms(1-5)] show ?thesis by (auto simp: well_punctured_def)
qed

lemma well_punctured_2_3: "3 dvd len \<Longrightarrow> 8 * (len div 3) \<le> tot \<Longrightarrow> well_punctured Rate2_3 len tot"
  by (rule well_punctured_periodic [where off = "[1, 2, 5]" and t = 3 and per = 8]) (simp_all add: punct_pos_2_3)

lemma well_punctured_8_12: "3 dvd len \<Longrightarrow> 6 * (len div 3) \<le> tot \<Longrightarrow> well_punctured Rate112_168 len tot"
  by (rule well_punctured_periodic [where off = "[1, 2, 4]" and t = 3 and per = 6]) (simp_all add: punct_pos_8_12)

lemma well_punctured_8_18: "9 dvd len \<Longrightarrow> 12 * (len div 9) \<le> tot \<Longrightarrow> well_punctured Rate72_162 len tot"
  by (rule well_punctured_periodic [where off = "[1, 2, 3, 4, 5, 7, 8, 10, 11]" and t = 9 and per = 12]) (simp_all add: punct_pos_8_18)

text \<open>The first generator's bit is always kept.\<close>

lemma third_of_three: "Suc (Suc (3 * b)) div 3 = b" "Suc (Suc (3 * b)) mod 3 = 2"
  by presburger+

lemma kept_2_3: "2 * len = 3 * n \<Longrightarrow> k < n \<Longrightarrow> kept Rate2_3 len (4 * k)"
  unfolding kept_def
  by (rule bexI [of _ "3 * (k div 2) + (if even k then 1 else 3)"])
     (auto simp: punct_pos_2_3 third_of_three elim!: evenE oddE)

lemma kept_8_12: "2 * len = 3 * n \<Longrightarrow> k < n \<Longrightarrow> kept Rate112_168 len (3 * k)"
  unfolding kept_def
  by (rule bexI [of _ "3 * (k div 2) + (if even k then 1 else 3)"])
     (auto simp: punct_pos_8_12 third_of_three elim!: evenE oddE)

lemma kept_8_18:
  assumes "4 * len = 9 * n" and "k < n"
  shows "kept Rate72_162 len (3 * k)"
proof -
  let ?j = "9 * (k div 4) + [1, 4, 6, 8] ! (k mod 4)"
  have k: "k = 4 * (k div 4) + k mod 4" by simp
  have "k mod 4 \<in> {0, 1, 2, 3}" by auto
  moreover have "\<exists>q. n = 4 * q" using assms(1) by presburger
  then obtain q where "n = 4 * q" by blast
  ultimately have "?j \<in> {1..len} \<and> punct_pos Rate72_162 ?j = 3 * k + 1"
    using assms k by (elim insertE emptyE) (simp_all add: punct_pos_8_18)
  then show ?thesis unfolding kept_def by blast
qed

end
