(* ===== verification/Viterbi.thy ===== *)
theory Viterbi
  imports Convenc
begin

text \<open>
  \<open>lmac/components/viterbi.rs\<close>: the soft decision Viterbi decoder of the two convolutional codes. Soft bits are \<open>i8\<close> and
  path metrics \<open>i16\<close>, modelled as integers with the wrap-around written out.

  The abstract decoder works on exact integers: \<open>vit_lower\<close> shows that its metric of a state bounds the cost of every
  path into that state, \<open>trace_exact\<close> that the path it traces back has exactly this cost. Together they say that the
  decoder returns a message of least cost among all that end in state 0. The array code computes the same metrics and
  decisions as long as no metric leaves the 16-bit range.
\<close>

section \<open>The decoder\<close>

definition wrap8 :: "int \<Rightarrow> int" where
  "wrap8 z = (z + 128) mod 256 - 128"

definition wrap16 :: "int \<Rightarrow> int" where
  "wrap16 z = (z + 32768) mod 65536 - 32768"

definition K :: nat where
  "K = 5"

definition num_states :: "nat \<Rightarrow> nat" where
  "num_states k = 2 ^ (k - 1)"

definition NUM_STATES :: nat where
  "NUM_STATES = num_states K"

record ViterbiDecoder =
  expected_0 :: "int list list"

definition new_with_polynomials :: "bool list list \<Rightarrow> ViterbiDecoder" where
  "new_with_polynomials generator_polynomials =
     \<lparr>expected_0 = map (\<lambda>poly. map (\<lambda>state.
        if foldl (\<lambda>encoder_output bit_i.
             if bit state (K - 2 - bit_i) \<and> poly ! bit_i then \<not> encoder_output else encoder_output) False [0..<K - 1]
        then 1 else - 1) [0..<NUM_STATES]) generator_polynomials\<rparr>"

function chunks_exact :: "nat \<Rightarrow> 'a list \<Rightarrow> 'a list list" where
  "chunks_exact n xs = (if 0 < n \<and> n \<le> length xs then take n xs # chunks_exact n (drop n xs) else [])"
  by pat_completeness auto
termination
  by (relation "measure (\<lambda>(n, xs). length xs)") auto

declare chunks_exact.simps [simp del]

text \<open>The branch metrics of one output bit, for the oldest register bit 0.\<close>

definition branch_metrics :: "int list list \<Rightarrow> int list \<Rightarrow> int list" where
  "branch_metrics expected received =
     foldl (\<lambda>metrics (received_bit, expected_0).
        map2 (\<lambda>m e. wrap16 (m - wrap8 (received_bit * e))) metrics expected_0)
       (replicate NUM_STATES 0) (zip received expected)"

definition metric_candidates :: "int list \<Rightarrow> int list \<Rightarrow> nat \<Rightarrow> int \<times> int" where
  "metric_candidates metrics branch_metrics_0 state =
     (let predecessor_0 = (state * 2) mod NUM_STATES; predecessor_1 = predecessor_0 + 1
      in (wrap16 (metrics ! predecessor_0 + branch_metrics_0 ! state),
          wrap16 (metrics ! predecessor_1 - branch_metrics_0 ! state)))"

definition viterbi_step :: "int list list \<Rightarrow> int list \<Rightarrow> int list \<Rightarrow> int list \<times> u16" where
  "viterbi_step expected metrics received =
     (let bm = branch_metrics expected received
      in (map (\<lambda>state. let (metric_0, metric_1) = metric_candidates metrics bm state
                       in if metric_1 < metric_0 then metric_1 else metric_0) [0..<NUM_STATES],
          foldl (\<lambda>decisions state. let (metric_0, metric_1) = metric_candidates metrics bm state
                       in if metric_1 < metric_0 then decisions OR push_bit state 1 else decisions) 0 [0..<NUM_STATES]))"

fun viterbi_forward :: "int list list \<Rightarrow> int list \<Rightarrow> int list list \<Rightarrow> u16 list" where
  "viterbi_forward expected metrics [] = []"
| "viterbi_forward expected metrics (r # rs) =
     (let (metrics, decisions) = viterbi_step expected metrics r in decisions # viterbi_forward expected metrics rs)"

fun traceback :: "u16 list \<Rightarrow> nat \<Rightarrow> u8 list" where
  "traceback [] best_state = []"
| "traceback (decisions # ds) best_state =
     of_nat (best_state div 2 ^ (K - 2) mod 2) #
     traceback ds (best_state * 2 mod NUM_STATES + unat (drop_bit best_state decisions AND 1))"

definition initial_metrics :: "int list" where
  "initial_metrics = (replicate NUM_STATES (32767 div 2))[0 := 0]"

definition decode :: "ViterbiDecoder \<Rightarrow> nat \<Rightarrow> int list \<Rightarrow> u8 list" where
  "decode decoder n received_bits =
     rev (traceback (rev (viterbi_forward (expected_0 decoder) initial_metrics (chunks_exact n received_bits))) 0)"

definition TetraViterbiDecoder_new :: ViterbiDecoder where
  "TetraViterbiDecoder_new = new_with_polynomials
     [[True, True, False, False, True],
      [True, False, True, True, True],
      [True, True, True, False, True],
      [True, True, False, True, True]]"

definition TetraCodecViterbiDecoder_new :: ViterbiDecoder where
  "TetraCodecViterbiDecoder_new = new_with_polynomials
     [[True, True, True, True, True],
      [True, True, False, True, True],
      [True, False, True, False, True]]"

definition soft_bit :: "u8 \<Rightarrow> int" where
  "soft_bit b = (if b = 0 then - 1 else if b = 1 then 1 else 0)"

definition dec_sb1 :: "u8 list \<Rightarrow> u8 list \<Rightarrow> nat \<Rightarrow> (pdu_parse_err, u8 list) outcome" where
  "dec_sb1 in_buf out_buf sym_count =
     (if sym_count \<le> 864 \<and> length in_buf \<ge> sym_count * 4 \<and> length out_buf \<ge> sym_count
      then let soft = map soft_bit (take (sym_count * 4) in_buf);
               decoded = decode TetraViterbiDecoder_new 4 soft
           in Ok (overwrite out_buf 0 (take sym_count decoded))
      else Panic)"

section \<open>The abstract decoder\<close>

text \<open>A branch cost assigns an integer to every new state, for the oldest bit 0; the oldest bit 1 negates it.\<close>

type_synonym branch = "nat \<Rightarrow> int"

definition pred_state :: "nat \<Rightarrow> nat" where
  "pred_state t = (t * 2) mod 16"

definition takes_odd :: "(nat \<Rightarrow> int) \<Rightarrow> branch \<Rightarrow> nat \<Rightarrow> bool" where
  "takes_odd M c t \<longleftrightarrow> M (pred_state t + 1) - c t < M (pred_state t) + c t"

definition vit_next :: "(nat \<Rightarrow> int) \<Rightarrow> branch \<Rightarrow> nat \<Rightarrow> int" where
  "vit_next M c t = (if takes_odd M c t then M (pred_state t + 1) - c t else M (pred_state t) + c t)"

fun vit_run :: "(nat \<Rightarrow> int) \<Rightarrow> branch list \<Rightarrow> nat \<Rightarrow> int" where
  "vit_run M [] = M"
| "vit_run M (c # cs) = vit_run (vit_next M c) cs"

fun vit_decisions :: "(nat \<Rightarrow> int) \<Rightarrow> branch list \<Rightarrow> (nat \<Rightarrow> bool) list" where
  "vit_decisions M [] = []"
| "vit_decisions M (c # cs) = takes_odd M c # vit_decisions (vit_next M c) cs"

definition step_cost :: "branch \<Rightarrow> nat \<Rightarrow> bool \<Rightarrow> int" where
  "step_cost c s b = (if even s then c (next_state s b) else - c (next_state s b))"

fun path_cost :: "branch list \<Rightarrow> nat \<Rightarrow> bool list \<Rightarrow> int" where
  "path_cost (c # cs) s (b # bs) = step_cost c s b + path_cost cs (next_state s b) bs"
| "path_cost cs s bs = 0"

text \<open>The path into a state that the decisions of the last step and of the steps before lead back along.\<close>

fun trace :: "(nat \<Rightarrow> bool) list \<Rightarrow> nat \<Rightarrow> nat \<times> bool list" where
  "trace [] t = (t, [])"
| "trace (d # ds) t =
     (let (s, bs) = trace ds (pred_state t + of_bool (d t)) in (s, bs @ [8 \<le> t]))"

lemma pred_next: "s < 16 \<Longrightarrow> pred_state (next_state s b) = 2 * (s div 2)"
  by (cases b) (auto simp: pred_state_def next_state_def algebra_simps)

lemma vit_next_le:
  assumes "s < 16"
  shows "vit_next M c (next_state s b) \<le> M s + step_cost c s b"
proof (cases "even s")
  case True
  then have "pred_state (next_state s b) = s" using assms by (simp add: pred_next)
  with True show ?thesis by (auto simp: vit_next_def takes_odd_def step_cost_def)
next
  case False
  then have "pred_state (next_state s b) + 1 = s" using assms by (simp add: pred_next)
  with False show ?thesis by (auto simp: vit_next_def takes_odd_def step_cost_def)
qed

lemma vit_lower:
  "s < 16 \<Longrightarrow> length bs = length cs \<Longrightarrow> vit_run M cs (final_state s bs) \<le> M s + path_cost cs s bs"
proof (induction cs arbitrary: M s bs)
  case (Cons c cs)
  then obtain b bs' where bs: "bs = b # bs'" by (cases bs) auto
  have "vit_run (vit_next M c) cs (final_state (next_state s b) bs') \<le> vit_next M c (next_state s b) + path_cost cs (next_state s b) bs'"
    using Cons.IH [of "next_state s b" bs'] Cons.prems bs by simp
  with vit_next_le [OF Cons.prems(1), of M c b] bs show ?case by simp
qed simp

lemma vit_run_snoc: "vit_run M (cs @ [c]) = vit_next (vit_run M cs) c"
  by (induction cs arbitrary: M) simp_all

lemma vit_decisions_snoc: "vit_decisions M (cs @ [c]) = vit_decisions M cs @ [takes_odd (vit_run M cs) c]"
  by (induction cs arbitrary: M) simp_all

lemma path_cost_snoc:
  "length bs = length cs \<Longrightarrow> path_cost (cs @ [c]) s (bs @ [b]) = path_cost cs s bs + step_cost c (final_state s bs) b"
  by (induction cs s bs rule: path_cost.induct) auto

lemma next_of_pred:
  assumes "t < 16"
  shows "next_state (pred_state t) (8 \<le> t) = t" "next_state (pred_state t + 1) (8 \<le> t) = t" "even (pred_state t)" "pred_state t + 1 < 16"
proof -
  have "list_all (\<lambda>t. next_state (pred_state t) (8 \<le> t) = t \<and> next_state (pred_state t + 1) (8 \<le> t) = t \<and> even (pred_state t) \<and>
      pred_state t + 1 < 16) [0..<16]" by code_simp
  with assms show "next_state (pred_state t) (8 \<le> t) = t" "next_state (pred_state t + 1) (8 \<le> t) = t" "even (pred_state t)" "pred_state t + 1 < 16"
    unfolding list_all_iff set_upt by auto
qed

lemma trace_exact:
  "t < 16 \<Longrightarrow> trace (rev (vit_decisions M cs)) t = (s, bs) \<Longrightarrow>
   s < 16 \<and> length bs = length cs \<and> final_state s bs = t \<and> vit_run M cs t = M s + path_cost cs s bs"
proof (induction cs arbitrary: t s bs rule: rev_induct)
  case (snoc c cs)
  let ?d = "takes_odd (vit_run M cs) c t"
  let ?p = "pred_state t + of_bool ?d"
  obtain bs' where tr: "trace (rev (vit_decisions M cs)) ?p = (s, bs')" "bs = bs' @ [8 \<le> t]"
    using snoc.prems(2) by (auto simp: vit_decisions_snoc Let_def split: prod.splits)
  have p: "?p < 16" "next_state ?p (8 \<le> t) = t" "even ?p \<longleftrightarrow> \<not> ?d"
    using next_of_pred [OF snoc.prems(1)] by auto
  from snoc.IH [OF p(1) tr(1)] have ih: "s < 16" "length bs' = length cs" "final_state s bs' = ?p"
    "vit_run M cs ?p = M s + path_cost cs s bs'" by auto
  have "vit_run M (cs @ [c]) t = vit_run M cs ?p + step_cost c ?p (8 \<le> t)"
    using p by (auto simp: vit_run_snoc vit_next_def step_cost_def)
  with ih p tr(2) show ?case by (simp add: path_cost_snoc)
qed simp

text \<open>The message traced back from a state costs no more than any other message that leads there.\<close>

lemma trace_optimal:
  assumes "t < 16" and "trace (rev (vit_decisions M cs)) t = (s, bs)"
    and "s' < 16" and "length bs' = length cs" and "final_state s' bs' = t"
  shows "M s + path_cost cs s bs \<le> M s' + path_cost cs s' bs'"
  using trace_exact [OF assms(1,2)] vit_lower [OF assms(3,4), of M] assms(5) by simp

section \<open>The array code computes the abstract decoder\<close>

lemma wrap16_id: "- 32768 \<le> z \<Longrightarrow> z \<le> 32767 \<Longrightarrow> wrap16 z = z"
  by (simp add: wrap16_def)

lemma wrap8_id: "- 128 \<le> z \<Longrightarrow> z \<le> 127 \<Longrightarrow> wrap8 z = z"
  by (simp add: wrap8_def)

lemma NUM_STATES_16 [simp]: "NUM_STATES = 16"
  by (simp add: NUM_STATES_def num_states_def K_def)

text \<open>Tables of expected bits: rows of 16 entries \<open>1\<close> or \<open>- 1\<close>. Received soft bits that are hard decisions or erasures.\<close>

definition table_ok :: "int list list \<Rightarrow> bool" where
  "table_ok E \<longleftrightarrow> (\<forall>row \<in> set E. length row = 16 \<and> set row \<subseteq> {- 1, 1})"

definition hard :: "int list \<Rightarrow> bool" where
  "hard r \<longleftrightarrow> set r \<subseteq> {- 1, 0, 1}"

definition corr :: "int list list \<Rightarrow> int list \<Rightarrow> branch" where
  "corr E r t = - (\<Sum>(x, row) \<leftarrow> zip r E. x * row ! t)"

lemma corr_simps: "corr E [] t = 0" "corr [] r t = 0" "corr (row # E) (x # r) t = corr E r t - x * row ! t"
  by (simp_all add: corr_def)

lemma unit_product: "x \<in> {- 1, 0, 1} \<Longrightarrow> y \<in> {- 1, 1} \<Longrightarrow> \<bar>x * y\<bar> \<le> 1" for x y :: int
  by auto

lemma corr_bound: "table_ok E \<Longrightarrow> hard r \<Longrightarrow> t < 16 \<Longrightarrow> \<bar>corr E r t\<bar> \<le> int (length r)"
proof (induction r arbitrary: E)
  case (Cons x r)
  show ?case
  proof (cases E)
    case (Cons row E')
    with Cons.prems have "row ! t \<in> {- 1, 1}" "x \<in> {- 1, 0, 1}" "table_ok E'" "hard r"
      by (auto simp: table_ok_def hard_def subset_iff)
    then have "\<bar>x * row ! t\<bar> \<le> 1" "\<bar>corr E' r t\<bar> \<le> int (length r)" using unit_product Cons.IH Cons.prems(3) by blast+
    with Cons show ?thesis by (simp add: corr_simps)
  qed (simp add: corr_simps)
qed (simp add: corr_simps)

lemma branch_fold:
  assumes "t < 16"
  shows "table_ok E \<Longrightarrow> hard r \<Longrightarrow> length ms = 16 \<Longrightarrow> \<bar>ms ! t\<bar> + int (length r) \<le> 32767 \<Longrightarrow>
    foldl (\<lambda>metrics (x, row). map2 (\<lambda>m e. wrap16 (m - wrap8 (x * e))) metrics row) ms (zip r E) ! t = ms ! t + corr E r t"
proof (induction r arbitrary: E ms)
  case (Cons x r)
  show ?case
  proof (cases E)
    case (Cons row E')
    let ?ms = "map2 (\<lambda>m e. wrap16 (m - wrap8 (x * e))) ms row"
    from Cons Cons.prems assms have row: "row ! t \<in> {- 1, 1}" "x \<in> {- 1, 0, 1}" "table_ok E'" "hard r" "length row = 16"
      by (auto simp: table_ok_def hard_def subset_iff)
    then have u: "\<bar>x * row ! t\<bar> \<le> 1" using unit_product by blast
    have "?ms ! t = wrap16 (ms ! t - wrap8 (x * row ! t))" using Cons.prems(3) row(5) assms by simp
    also have "\<dots> = ms ! t - x * row ! t" using u Cons.prems(4) by (simp add: wrap8_id wrap16_id)
    finally have m: "?ms ! t = ms ! t - x * row ! t" .
    have "foldl (\<lambda>metrics (x, row). map2 (\<lambda>m e. wrap16 (m - wrap8 (x * e))) metrics row) ?ms (zip r E') ! t = ?ms ! t + corr E' r t"
      using Cons.IH [OF row(3,4), of ?ms] m u Cons.prems(3,4) row(5) by simp
    with m Cons show ?thesis by (simp add: corr_simps)
  qed (simp add: corr_simps)
qed (simp add: corr_simps)

lemma branch_metrics_spec:
  "t < 16 \<Longrightarrow> table_ok E \<Longrightarrow> hard r \<Longrightarrow> length r \<le> 32767 \<Longrightarrow> branch_metrics E r ! t = corr E r t"
  unfolding branch_metrics_def by (subst branch_fold) simp_all

text \<open>A metrics array stands for a function on states, within a bound.\<close>

definition holds :: "int list \<Rightarrow> (nat \<Rightarrow> int) \<Rightarrow> int \<Rightarrow> bool" where
  "holds ms M B \<longleftrightarrow> length ms = 16 \<and> (\<forall>s < 16. ms ! s = M s \<and> \<bar>M s\<bar> \<le> B)"

lemma candidates_spec:
  assumes "holds ms M B" and "t < 16" and "table_ok E" and "hard r" and "B + int (length r) \<le> 32767"
  shows "metric_candidates ms (branch_metrics E r) t = (M (pred_state t) + corr E r t, M (pred_state t + 1) - corr E r t)"
proof -
  have p: "pred_state t < 16" "pred_state t + 1 < 16" using next_of_pred(4) [OF assms(2)] by simp_all
  have c: "\<bar>corr E r t\<bar> \<le> int (length r)" using corr_bound assms(2-4) by blast
  have m: "\<bar>M (pred_state t)\<bar> \<le> B" "\<bar>M (pred_state t + 1)\<bar> \<le> B" "ms ! pred_state t = M (pred_state t)"
    "ms ! (pred_state t + 1) = M (pred_state t + 1)" using assms(1) p unfolding holds_def by blast+
  have "length r \<le> 32767" using assms(5) m(1) by linarith
  then have b: "branch_metrics E r ! t = corr E r t" using assms(2-4) by (intro branch_metrics_spec)
  have "wrap16 (M (pred_state t) + corr E r t) = M (pred_state t) + corr E r t"
    "wrap16 (M (pred_state t + 1) - corr E r t) = M (pred_state t + 1) - corr E r t"
    using c m assms(5) by (auto intro!: wrap16_id)
  then show ?thesis using m b by (simp add: metric_candidates_def Let_def flip: pred_state_def)
qed

lemma bit_decisions:
  "n \<le> 16 \<Longrightarrow> bit (foldl (\<lambda>d s. if P s then d OR push_bit s 1 else d) (0 :: u16) [0..<n]) k \<longleftrightarrow> k < n \<and> P k"
proof (induction n)
  case (Suc n)
  have "bit (push_bit n 1 :: u16) k \<longleftrightarrow> k = n" if "n < 16" using that unfolding bit_push_bit_iff bit_1_iff by auto
  with Suc show ?case by (auto simp: bit_or_iff less_Suc_eq simp del: push_bit_of_1)
qed simp

lemma viterbi_step_spec:
  assumes "holds ms M B" and "table_ok E" and "hard r" and "B + int (length r) \<le> 32767"
  shows "holds (fst (viterbi_step E ms r)) (vit_next M (corr E r)) (B + int (length r))"
    and "t < 16 \<Longrightarrow> bit (snd (viterbi_step E ms r)) t \<longleftrightarrow> takes_odd M (corr E r) t"
proof -
  note cand = candidates_spec [OF assms(1) _ assms(2-4)]
  have "fst (viterbi_step E ms r) ! t = vit_next M (corr E r) t" if "t < 16" for t
    using that by (simp add: viterbi_step_def Let_def cand vit_next_def takes_odd_def)
  moreover have "\<bar>vit_next M (corr E r) t\<bar> \<le> B + int (length r)" if "t < 16" for t
  proof -
    have "\<bar>M (pred_state t)\<bar> \<le> B" "\<bar>M (pred_state t + 1)\<bar> \<le> B"
      using assms(1) next_of_pred(4) [OF that] unfolding holds_def by auto
    with corr_bound [OF assms(2,3) that]
    have "\<bar>M (pred_state t + 1) - corr E r t\<bar> \<le> B + int (length r)" "\<bar>M (pred_state t) + corr E r t\<bar> \<le> B + int (length r)"
      by linarith+
    then show ?thesis by (simp add: vit_next_def)
  qed
  moreover have "length (fst (viterbi_step E ms r)) = 16" by (simp add: viterbi_step_def Let_def)
  ultimately show "holds (fst (viterbi_step E ms r)) (vit_next M (corr E r)) (B + int (length r))"
    by (simp add: holds_def)
  have "snd (viterbi_step E ms r) = foldl (\<lambda>d s. if takes_odd M (corr E r) s then d OR push_bit s 1 else d) 0 [0..<16]"
    unfolding viterbi_step_def Let_def snd_conv NUM_STATES_16
    by (rule foldl_cong) (auto simp: cand takes_odd_def)
  then show "t < 16 \<Longrightarrow> bit (snd (viterbi_step E ms r)) t \<longleftrightarrow> takes_odd M (corr E r) t"
    by (simp only: bit_decisions order.refl simp_thms)
qed

definition same_decisions :: "u16 list \<Rightarrow> (nat \<Rightarrow> bool) list \<Rightarrow> bool" where
  "same_decisions ds fs \<longleftrightarrow> list_all2 (\<lambda>d f. \<forall>t < 16. bit d t = f t) ds fs"

lemma viterbi_forward_spec:
  "holds ms M B \<Longrightarrow> table_ok E \<Longrightarrow> list_all hard rs \<Longrightarrow> B + int (length (concat rs)) \<le> 32767 \<Longrightarrow>
   same_decisions (viterbi_forward E ms rs) (vit_decisions M (map (corr E) rs))"
proof (induction rs arbitrary: ms M B)
  case (Cons r rs)
  then have b: "B + int (length r) \<le> 32767" "hard r" by auto
  note st = viterbi_step_spec [OF Cons.prems(1,2) b(2,1)]
  have "same_decisions (viterbi_forward E (fst (viterbi_step E ms r)) rs) (vit_decisions (vit_next M (corr E r)) (map (corr E) rs))"
    using Cons.IH [OF st(1) Cons.prems(2)] Cons.prems(3,4) by simp
  with st(2) show ?case by (simp add: same_decisions_def Let_def case_prod_beta)
qed (simp add: same_decisions_def)

lemma drop_bit_and_1: "unat (drop_bit k (d :: u16) AND 1) = of_bool (bit d k)"
  by (simp add: and_one_eq bit_iff_odd_drop_bit mod_2_eq_odd)

lemma traceback_spec:
  "same_decisions ds fs \<Longrightarrow> t < 16 \<Longrightarrow> traceback ds t = rev (map of_bool (snd (trace fs t)))"
proof (induction ds arbitrary: fs t)
  case Nil
  then show ?case by (simp add: same_decisions_def)
next
  case (Cons d ds)
  then obtain f fs' where fs: "fs = f # fs'" "\<forall>t < 16. bit d t = f t" "same_decisions ds fs'"
    by (auto simp: same_decisions_def list_all2_Cons1)
  let ?p = "pred_state t + of_bool (f t)"
  have "?p < 16" using next_of_pred(4) [OF Cons.prems(2)] by auto
  from Cons.IH [OF fs(3) this] have ih: "traceback ds ?p = rev (map of_bool (snd (trace fs' ?p)))" .
  have h: "of_nat (t div 2 ^ (K - 2) mod 2) = (of_bool (8 \<le> t) :: u8)"
  proof (cases "8 \<le> t")
    case True
    then have "t div 8 = 1" using Cons.prems(2) by linarith
    with True show ?thesis by (simp add: K_def)
  qed (simp add: K_def)
  have q: "t * 2 mod NUM_STATES + unat (drop_bit t d AND 1) = ?p"
    using fs(2) Cons.prems(2) unfolding drop_bit_and_1 by (simp add: pred_state_def)
  show ?case unfolding fs(1) traceback.simps trace.simps h q ih by (simp add: Let_def case_prod_beta)
qed

definition M0 :: "nat \<Rightarrow> int" where
  "M0 s = (if s = 0 then 0 else 16383)"

lemma holds_initial: "holds initial_metrics M0 16383"
  by (auto simp: holds_def initial_metrics_def M0_def nth_list_update)

lemma decode_trace:
  assumes "table_ok (expected_0 d)" and "list_all hard (chunks_exact n xs)"
    and "16383 + int (length (concat (chunks_exact n xs))) \<le> 32767"
  shows "decode d n xs = map of_bool (snd (trace (rev (vit_decisions M0 (map (corr (expected_0 d)) (chunks_exact n xs)))) 0))"
proof -
  have "same_decisions (rev (viterbi_forward (expected_0 d) initial_metrics (chunks_exact n xs)))
      (rev (vit_decisions M0 (map (corr (expected_0 d)) (chunks_exact n xs))))"
    using viterbi_forward_spec [OF holds_initial assms] by (simp add: same_decisions_def list_all2_rev)
  from traceback_spec [OF this, of 0] show ?thesis by (simp add: decode_def)
qed

end
