(* ===== verification/Error_Control.thy ===== *)
theory Error_Control
  imports Crc16 Scrambler Rm3014 Tch_Reorder Viterbi
begin

text \<open>
  \<open>lmac/components/errorcontrol.rs\<close> and \<open>errorcontrol_params.rs\<close>: the coding chains of the control channels (CRC,
  convolutional code, puncturing, interleaving, scrambling), of speech (reordering, unequal protection) and of the access
  assignment (Reed-Muller code). A fixed-size array is a list of that length; filling a slice is \<open>overwrite\<close>.
\<close>

section \<open>Channels and parameters\<close>

datatype LogicalChannel = Aach | SchHd | SchF | Stch | SchHu | TchS | Tch24 | Tch48 | Tch72 | Bsch | Bnch | Blch | Clch

definition is_traffic :: "LogicalChannel \<Rightarrow> bool" where
  "is_traffic c \<longleftrightarrow> c \<in> {TchS, Tch24, Tch48, Tch72}"

definition is_control_channel :: "LogicalChannel \<Rightarrow> bool" where
  "is_control_channel c \<longleftrightarrow> c \<in> {Aach, Bsch, Bnch, SchHd, SchF, Stch, SchHu}"

definition is_linearization_channel :: "LogicalChannel \<Rightarrow> bool" where
  "is_linearization_channel c \<longleftrightarrow> c = Clch \<or> c = Blch"

datatype PhyBlockType = BBK | SB1 | SB2 | NDB | NUB | SSN1 | SSN2

record TmvUnitdataReq =
  rq_mac_block :: bitbuffer
  rq_logical_channel :: LogicalChannel
  rq_scrambling_code :: u32

record ErrorControlParams =
  type345_bits :: nat
  type2_bits :: nat
  type1_bits :: nat
  interleave_a :: nat
  have_crc16 :: bool

definition BSCH_PARAMS :: ErrorControlParams where
  "BSCH_PARAMS = \<lparr>type345_bits = 120, type2_bits = 80, type1_bits = 60, interleave_a = 11, have_crc16 = True\<rparr>"

definition SCH_HD_PARAMS :: ErrorControlParams where
  "SCH_HD_PARAMS = \<lparr>type345_bits = 216, type2_bits = 144, type1_bits = 124, interleave_a = 101, have_crc16 = True\<rparr>"

definition AACH_PARAMS :: ErrorControlParams where
  "AACH_PARAMS = \<lparr>type345_bits = 30, type2_bits = 30, type1_bits = 14, interleave_a = 0, have_crc16 = False\<rparr>"

definition SCH_F_PARAMS :: ErrorControlParams where
  "SCH_F_PARAMS = \<lparr>type345_bits = 432, type2_bits = 288, type1_bits = 268, interleave_a = 103, have_crc16 = True\<rparr>"

definition SCH_HU_PARAMS :: ErrorControlParams where
  "SCH_HU_PARAMS = \<lparr>type345_bits = 168, type2_bits = 112, type1_bits = 92, interleave_a = 13, have_crc16 = True\<rparr>"

definition TCH_S_PARAMS :: ErrorControlParams where
  "TCH_S_PARAMS = \<lparr>type345_bits = 432, type2_bits = 288, type1_bits = 274, interleave_a = 103, have_crc16 = False\<rparr>"

fun get_params :: "LogicalChannel \<Rightarrow> (pdu_parse_err, ErrorControlParams) outcome" where
  "get_params Bsch = Ok BSCH_PARAMS"
| "get_params SchHd = Ok SCH_HD_PARAMS"
| "get_params Stch = Ok SCH_HD_PARAMS"
| "get_params Bnch = Ok SCH_HD_PARAMS"
| "get_params Aach = Ok AACH_PARAMS"
| "get_params SchF = Ok SCH_F_PARAMS"
| "get_params SchHu = Ok SCH_HU_PARAMS"
| "get_params TchS = Ok TCH_S_PARAMS"
| "get_params Tch24 = Panic"
| "get_params Tch48 = Panic"
| "get_params Tch72 = Panic"
| "get_params Blch = Panic"
| "get_params Clch = Panic"

definition MAX_TYPE1_BITS :: nat where "MAX_TYPE1_BITS = 274"
definition MAX_TYPE2_BITS :: nat where "MAX_TYPE2_BITS = 288"
definition MAX_TYPE345_BITS :: nat where "MAX_TYPE345_BITS = 432"
definition MAX_TYPE345_HALFSLOT_BITS :: nat where "MAX_TYPE345_HALFSLOT_BITS = 216"

section \<open>Control channels\<close>

text \<open>Sequencing of calls that return a value or panic, and \<open>assert!\<close>.\<close>

definition ok_then :: "('e, 'a) outcome \<Rightarrow> ('a \<Rightarrow> ('e, 'b) outcome) \<Rightarrow> ('e, 'b) outcome" where
  "ok_then m f = (case m of Ok x \<Rightarrow> f x | Err e \<Rightarrow> Err e | Panic \<Rightarrow> Panic)"

definition asserting :: "bool \<Rightarrow> ('e, 'b) outcome \<Rightarrow> ('e, 'b) outcome" where
  "asserting c m = (if c then m else Panic)"

definition put_crc :: "u16 \<Rightarrow> nat \<Rightarrow> u8 list \<Rightarrow> u8 list" where
  "put_crc crc at type2_arr = foldl (\<lambda>arr i. arr[at + i := ucast (drop_bit (15 - i) crc AND 1)]) type2_arr [0..<16]"

definition encode_cp :: "TmvUnitdataReq \<Rightarrow> (pdu_parse_err, bitbuffer) outcome" where
  "encode_cp prim =
     (let lchan = rq_logical_channel prim
      in asserting (is_control_channel lchan \<and> lchan \<noteq> Aach) (
         ok_then (get_params lchan) (\<lambda>params.
         asserting (get_len (rq_mac_block prim) = type1_bits params) (
         ok_then (seek 0 (rq_mac_block prim)) (\<lambda>(_, mac_block).
         ok_then (to_bitarr (type1_bits params) mac_block) (\<lambda>(arr, _).
         let type2_arr = overwrite (replicate MAX_TYPE2_BITS 0) 0 arr
         in asserting (have_crc16 params) (
         let crc = NOT (crc16_ccitt_bits (take (type1_bits params) type2_arr) (type1_bits params));
             type2_arr = put_crc crc (type1_bits params) type2_arr
         in ok_then (encode (take (type2_bits params) type2_arr) (replicate (MAX_TYPE345_BITS * 4) 0) ConvEncState_new) (\<lambda>(type3dp_arr, _).
         ok_then (get_punctured_rate Rate2_3 type3dp_arr (replicate MAX_TYPE345_BITS 0)) (\<lambda>type3_arr.
         ok_then (block_interleave (type345_bits params) (interleave_a params) type3_arr (replicate MAX_TYPE345_BITS 0)) (\<lambda>type4_arr.
         ok_then (from_bitarr (take (type345_bits params) type4_arr)) (\<lambda>type4.
         ok_then (tetra_scramb_bits (rq_scrambling_code prim) type4) (\<lambda>(_, type5).
         Ok type5))))))))))))"

definition decode_cp ::
  "LogicalChannel \<Rightarrow> PhyBlockType \<Rightarrow> bitbuffer \<Rightarrow> u32 option \<Rightarrow> (pdu_parse_err, bitbuffer option \<times> bool) outcome" where
  "decode_cp lchan block_type type5 default_scramb_code =
     asserting (is_control_channel lchan \<and> lchan \<noteq> Aach) (
     ok_then (get_params lchan) (\<lambda>params.
     case (if block_type = SB1 then Some SCRAMB_INIT else default_scramb_code) of
       None \<Rightarrow> Ok (None, False)
     | Some scrambling_code \<Rightarrow>
         ok_then (tetra_scramb_bits scrambling_code type5) (\<lambda>(_, type4).
         ok_then (to_bitarr (type345_bits params) type4) (\<lambda>(arr, _).
         let type4_arr = overwrite (replicate MAX_TYPE345_BITS 0) 0 arr
         in ok_then (block_deinterleave (type345_bits params) (interleave_a params) type4_arr (replicate MAX_TYPE345_BITS 0)) (\<lambda>type3_arr.
         ok_then (tetra_rcpc_depunct Rate2_3 type3_arr (type345_bits params) (replicate (MAX_TYPE345_BITS * 4) 0xff)) (\<lambda>type3dp_arr.
         ok_then (dec_sb1 type3dp_arr (replicate MAX_TYPE2_BITS 0) (type2_bits params)) (\<lambda>type2_arr.
         asserting (have_crc16 params) (
         let crc = crc16_ccitt_bits type2_arr (type1_bits params + 16);
             crc_ok = (crc = TETRA_CRC_OK)
         in ok_then (from_bitarr (take (type1_bits params) type2_arr)) (\<lambda>type1bits.
         Ok (Some type1bits, crc_ok))))))))))"

section \<open>Speech\<close>

definition speech_reduce :: "u8 list \<Rightarrow> nat \<Rightarrow> u8 list" where
  "speech_reduce w d =
     (if w ! d = 1 then
        let w = w[d := w ! d XOR 1]; w = w[d - 4 := w ! (d - 4) XOR 1]
        in w[d - 7 := w ! (d - 7) XOR 1]
      else w)"

definition speech_crc :: "u8 list \<Rightarrow> (pdu_parse_err, u8 list) outcome" where
  "speech_crc class2_bits =
     asserting (length class2_bits = 60) (
       let w = foldl (\<lambda>w k. w[k + 7 := class2_bits ! k AND 1]) (replicate 67 0) [0..<60];
           w = foldl speech_reduce w (rev [7..<67]);
           result = foldl (\<lambda>r i. r[i := w ! i]) (replicate 8 0) [0..<7];
           par = foldl (\<lambda>p b. p XOR (b AND 1)) 0 class2_bits;
           par = foldl (\<lambda>p i. p XOR result ! i) par [0..<7]
       in Ok (result[7 := par]))"

definition CLASS0_BITS :: nat where "CLASS0_BITS = 102"
definition CLASS1_BITS :: nat where "CLASS1_BITS = 112"
definition CLASS2_BITS :: nat where "CLASS2_BITS = 60"
definition CLASS2_TYPE2 :: nat where "CLASS2_TYPE2 = 72"
definition CLASS1_TYPE3 :: nat where "CLASS1_TYPE3 = 168"
definition CLASS2_TYPE3 :: nat where "CLASS2_TYPE3 = 162"

definition slice :: "nat \<Rightarrow> nat \<Rightarrow> 'a list \<Rightarrow> 'a list" where
  "slice a n xs = take n (drop a xs)"

text \<open>The unequal protection of \<open>encode_tp\<close>: class 0 is copied, classes 1 and 2 share one running encoder.\<close>

definition protect_speech :: "u8 list \<Rightarrow> (pdu_parse_err, u8 list) outcome" where
  "protect_speech type1_arr =
     (let type3_arr = overwrite (replicate MAX_TYPE345_BITS 0) 0 (take CLASS0_BITS type1_arr);
          type3_idx = CLASS0_BITS
      in ok_then (speech_encode (slice CLASS0_BITS CLASS1_BITS type1_arr) (replicate (CLASS1_BITS * 3) 0) SpeechConvEncState_new) (\<lambda>(mother_buf, ces).
         ok_then (get_punctured_rate Rate112_168 mother_buf (replicate 168 0)) (\<lambda>punct_buf.
         let type3_arr = overwrite type3_arr type3_idx punct_buf;
             type3_idx = type3_idx + 168;
             class2_data = slice (CLASS0_BITS + CLASS1_BITS) CLASS2_BITS type1_arr
         in ok_then (speech_crc class2_data) (\<lambda>crc_bits.
         let class2_type2 = overwrite (replicate CLASS2_TYPE2 0) 0 class2_data;
             class2_type2 = overwrite class2_type2 CLASS2_BITS crc_bits
         in ok_then (speech_encode class2_type2 (replicate (CLASS2_TYPE2 * 3) 0) ces) (\<lambda>(mother_buf, _).
         ok_then (get_punctured_rate Rate72_162 mother_buf (replicate 162 0)) (\<lambda>punct_buf.
         Ok (overwrite type3_arr type3_idx punct_buf)))))))"

definition encode_tp :: "TmvUnitdataReq \<Rightarrow> u8 \<Rightarrow> (pdu_parse_err, bitbuffer) outcome" where
  "encode_tp prim blk_num =
     (let lchan = rq_logical_channel prim
      in ok_then (get_params lchan) (\<lambda>params.
         ok_then (seek 0 (rq_mac_block prim)) (\<lambda>(_, mac_block).
         let type1_len = min (get_len mac_block) (type1_bits params)
         in ok_then (to_bitarr type1_len mac_block) (\<lambda>(arr, _).
         let type1_arr = overwrite (replicate MAX_TYPE1_BITS 0) 0 arr
         in ok_then (if lchan = TchS \<and> type1_len = 274
                     then ok_then (codec_to_channel (take 274 type1_arr)) (\<lambda>channel_bits. Ok (overwrite type1_arr 0 channel_bits))
                     else Ok type1_arr) (\<lambda>type1_arr.
         ok_then (protect_speech type1_arr) (\<lambda>type3_arr.
         ok_then (matrix_interleave 24 18 type3_arr (replicate MAX_TYPE345_BITS 0)) (\<lambda>type4_arr.
         ok_then (from_bitarr (take (type345_bits params) type4_arr)) (\<lambda>type4.
         ok_then (tetra_scramb_bits (rq_scrambling_code prim) type4) (\<lambda>(_, type4).
         if blk_num = 1 then Ok type4
         else
           ok_then (seek 0 type4) (\<lambda>(_, type4).
           ok_then (to_bitarr (type345_bits params) type4) (\<lambda>(arr, _).
           let full_arr = overwrite (replicate MAX_TYPE345_BITS 0) 0 arr
           in asserting (MAX_TYPE345_HALFSLOT_BITS \<le> type345_bits params) (from_bitarr (slice MAX_TYPE345_HALFSLOT_BITS (type345_bits params - MAX_TYPE345_HALFSLOT_BITS) full_arr)))))))))))))"

definition unprotect_speech :: "u8 list \<Rightarrow> (pdu_parse_err, u8 list \<times> bool) outcome" where
  "unprotect_speech type3_arr =
     (let type1_arr = overwrite (replicate MAX_TYPE1_BITS 0) 0 (take CLASS0_BITS type3_arr);
          class1_type3 = slice CLASS0_BITS CLASS1_TYPE3 type3_arr
      in ok_then (tetra_rcpc_depunct Rate112_168 class1_type3 CLASS1_TYPE3 (replicate (CLASS1_BITS * 3) 0xff)) (\<lambda>mother_class1.
         let class2_type3 = slice (CLASS0_BITS + CLASS1_TYPE3) CLASS2_TYPE3 type3_arr
         in ok_then (tetra_rcpc_depunct Rate72_162 class2_type3 CLASS2_TYPE3 (replicate (CLASS2_TYPE2 * 3) 0xff)) (\<lambda>mother_class2.
         let combined_mother = mother_class1 @ mother_class2;
             soft = map soft_bit combined_mother;
             decoded = decode TetraCodecViterbiDecoder_new 3 soft;
             type1_arr = overwrite type1_arr CLASS0_BITS (take CLASS1_BITS decoded);
             class2_decoded = drop CLASS1_BITS decoded;
             data = take CLASS2_BITS class2_decoded;
             received_crc = slice CLASS2_BITS 8 class2_decoded
         in ok_then (speech_crc data) (\<lambda>expected_crc.
         Ok (overwrite type1_arr (CLASS0_BITS + CLASS1_BITS) data, expected_crc = received_crc)))))"

definition decode_tp :: "LogicalChannel \<Rightarrow> bitbuffer \<Rightarrow> u32 \<Rightarrow> (pdu_parse_err, bitbuffer option \<times> bool) outcome" where
  "decode_tp lchan type5 scrambling_code =
     asserting (lchan = TchS) (
     ok_then (get_params lchan) (\<lambda>params.
     ok_then (tetra_scramb_bits scrambling_code type5) (\<lambda>(_, type4).
     ok_then (seek 0 type4) (\<lambda>(_, type4).
     ok_then (to_bitarr (type345_bits params) type4) (\<lambda>(arr, _).
     let type4_arr = overwrite (replicate MAX_TYPE345_BITS 0) 0 arr
     in ok_then (matrix_deinterleave 24 18 type4_arr (replicate MAX_TYPE345_BITS 0)) (\<lambda>type3_arr.
     ok_then (unprotect_speech type3_arr) (\<lambda>(type1_arr, crc_ok).
     ok_then (channel_to_codec (take 274 type1_arr)) (\<lambda>codec_bits.
     ok_then (from_bitarr codec_bits) (\<lambda>result.
     Ok (Some result, crc_ok))))))))))"

section \<open>Access assignment\<close>

definition encode_aach :: "bitbuffer \<Rightarrow> u32 \<Rightarrow> (pdu_parse_err, bitbuffer) outcome" where
  "encode_aach type1 scrambling_code =
     asserting (get_len_remaining type1 = 14) (
     ok_then (read_bits 14 type1) (\<lambda>(r, _).
     case r of
       None \<Rightarrow> Panic
     | Some v \<Rightarrow>
         let type2_int = tetra_rm3014_compute (ucast v)
         in ok_then (write_bits (ucast type2_int) 30 (BitBuffer_new 30)) (\<lambda>(_, type2).
            ok_then (seek 0 type2) (\<lambda>(_, type2).
            ok_then (tetra_scramb_bits scrambling_code type2) (\<lambda>(_, type5). Ok type5)))))"

definition decode_aach :: "bitbuffer \<Rightarrow> u32 \<Rightarrow> (pdu_parse_err, bitbuffer) outcome" where
  "decode_aach type5 scrambling_code =
     asserting (get_len_remaining type5 = 30) (
     ok_then (tetra_scramb_bits scrambling_code type5) (\<lambda>(_, type2).
     ok_then (read_bits 30 type2) (\<lambda>(r, type2).
     case r of
       None \<Rightarrow> Panic
     | Some v \<Rightarrow>
         let y = tetra_rm3014_decode_limited_ecc (ucast v)
         in ok_then (set_raw_start 0 type2) (\<lambda>(_, type1).
            ok_then (set_raw_pos 0 type1) (\<lambda>(_, type1).
            ok_then (set_raw_end 14 type1) (\<lambda>(_, type1).
            ok_then (write_bits (ucast y) 14 type1) (\<lambda>(_, type1).
            ok_then (seek 0 type1) (\<lambda>(_, type1). Ok type1))))))))"

end
