(* ===== verification/Viterbi_Spec.thy ===== *)
theory Viterbi_Spec
  imports Viterbi
begin

text \<open>
  What the decoder returns. \<open>decode_optimal\<close>: among all messages whose encoding ends in state 0, the decoded one has the
  largest correlation with the received soft bits, that is, it disagrees in the fewest places with what was received.
  \<open>decode_clean\<close>: when every received bit is right or erased, and the bit of the first generator is never
  erased, the decoded message is the encoded one. \<open>dec_sb1_nearest\<close>: counted in bits, over the code words of the encoder, no
  terminated message is nearer to what was received than the decoded one.
\<close>

section \<open>Expected bits and encoder outputs\<close>

definition sgn_bit :: "bool \<Rightarrow> int" where
  "sgn_bit b = (if b then 1 else - 1)"

lemma sgn_bit_simps [simp]: "sgn_bit b \<in> {- 1, 1}" "sgn_bit a = sgn_bit b \<longleftrightarrow> a = b" "sgn_bit b * sgn_bit b = 1" "sgn_bit b \<noteq> 0"
  by (auto simp: sgn_bit_def)

text \<open>A table belongs to a code when it tells the encoder's output for the oldest bit 0, and its complement otherwise.\<close>

definition table_of :: "int list list \<Rightarrow> (nat \<Rightarrow> bool \<Rightarrow> bool list) \<Rightarrow> nat \<Rightarrow> bool" where
  "table_of E out n \<longleftrightarrow> table_ok E \<and> length E = n \<and> 0 < n \<and>
     (\<forall>s < 16. \<forall>b. length (out s b) = n \<and> (out s b ! 0 \<noteq> out s (\<not> b) ! 0) \<and>
        (\<forall>k < n. sgn_bit (out s b ! k) = (if even s then 1 else - 1) * E ! k ! next_state s b))"

lemma table_ofD:
  assumes "table_of E out n" and "s < 16"
  shows "length (out s b) = n" and "out s b ! 0 \<noteq> out s (\<not> b) ! 0"
    and "k < n \<Longrightarrow> sgn_bit (out s b ! k) = (if even s then 1 else - 1) * E ! k ! next_state s b"
  using assms unfolding table_of_def by blast+

lemma list_all_upt: "list_all P [0..<n] \<Longrightarrow> k < n \<Longrightarrow> P k"
  by (simp add: list_all_iff)

definition output_matches :: "int list list \<Rightarrow> (nat \<Rightarrow> bool \<Rightarrow> bool list) \<Rightarrow> nat \<Rightarrow> nat \<Rightarrow> bool \<Rightarrow> bool" where
  "output_matches E out n s b \<longleftrightarrow> length (out s b) = n \<and> (out s b ! 0 \<noteq> out s (\<not> b) ! 0) \<and>
     list_all (\<lambda>k. sgn_bit (out s b ! k) = (if even s then 1 else - 1) * E ! k ! next_state s b) [0..<n]"

lemma table_of_check:
  assumes "length E = n" and "0 < n"
    and "list_all (\<lambda>row. length row = 16 \<and> list_all (\<lambda>x. x = - 1 \<or> x = 1) row) E"
    and "list_all (\<lambda>s. output_matches E out n s False \<and> output_matches E out n s True) [0..<16]"
  shows "table_of E out n"
proof -
  have ok: "table_ok E" using assms(3) by (auto simp: table_ok_def list_all_iff)
  have m: "output_matches E out n s b" if "s < 16" for s b
  proof -
    have "output_matches E out n s False \<and> output_matches E out n s True" using assms(4) that by (auto simp: list_all_iff)
    then show ?thesis by (cases b) (simp_all only: simp_thms)
  qed
  have k: "sgn_bit (out s b ! k) = (if even s then 1 else - 1) * E ! k ! next_state s b" if "s < 16" "k < n" for s b k
  proof -
    have "k \<in> {0..<n}" using that(2) by simp
    then show ?thesis using m [OF that(1), of b] unfolding output_matches_def list_all_iff set_upt by blast
  qed
  have l: "length (out s b) = n \<and> (out s b ! 0 \<noteq> out s (\<not> b) ! 0)" if "s < 16" for s b
    using m [OF that, of b] unfolding output_matches_def by blast
  show ?thesis unfolding table_of_def
    by (intro conjI allI impI ok assms(1,2) k) (use l in \<open>blast+\<close>)
qed

lemma cch_table: "table_of (expected_0 TetraViterbiDecoder_new) cch_out 4"
  by (rule table_of_check) code_simp+

lemma speech_table: "table_of (expected_0 TetraCodecViterbiDecoder_new) speech_out 3"
  by (rule table_of_check) code_simp+

section \<open>Cost as correlation\<close>

lemma corr_sum: "length r = length E \<Longrightarrow> corr E r t = - (\<Sum>k < length r. r ! k * E ! k ! t)"
proof (induction r E rule: list_induct2)
  case (Cons x r row E)
  then show ?case by (simp add: corr_simps sum.lessThan_Suc_shift del: sum.lessThan_Suc)
qed (simp add: corr_simps)

lemma step_cost_corr:
  assumes "table_of E out n" and "s < 16" and "length r = n"
  shows "step_cost (corr E r) s b = - (\<Sum>k < n. r ! k * sgn_bit (out s b ! k))"
proof -
  have "length r = length E" using assms by (simp add: table_of_def)
  moreover have "(\<Sum>k < n. r ! k * sgn_bit (out s b ! k)) = (if even s then 1 else - 1) * (\<Sum>k < n. r ! k * E ! k ! next_state s b)"
    unfolding sum_distrib_left using table_ofD(3) [OF assms(1,2)] by (intro sum.cong) auto
  ultimately show ?thesis using corr_sum [of r E] assms(3) by (simp add: step_cost_def)
qed

definition weight :: "int list \<Rightarrow> int" where
  "weight r = (\<Sum>k < length r. \<bar>r ! k\<bar>)"

lemma step_cost_ge:
  assumes "table_of E out n" and "s < 16" and "length r = n"
  shows "- weight r \<le> step_cost (corr E r) s b"
    and "step_cost (corr E r) s b = - weight r \<Longrightarrow> k < n \<Longrightarrow> r ! k * sgn_bit (out s b ! k) = \<bar>r ! k\<bar>"
proof -
  let ?f = "\<lambda>k. r ! k * sgn_bit (out s b ! k)"
  have le: "?f k \<le> \<bar>r ! k\<bar>" for k by (cases "out s b ! k") (simp_all add: sgn_bit_def)
  have c: "step_cost (corr E r) s b = - (\<Sum>k < n. ?f k)" using step_cost_corr [OF assms] .
  have "(\<Sum>k < n. ?f k) \<le> (\<Sum>k < n. \<bar>r ! k\<bar>)" by (rule sum_mono) (rule le)
  then show "- weight r \<le> step_cost (corr E r) s b" using c assms(3) by (simp add: weight_def)
  assume "step_cost (corr E r) s b = - weight r" and k: "k < n"
  then have "(\<Sum>k < n. \<bar>r ! k\<bar> - ?f k) = 0" using c assms(3) by (simp add: weight_def sum_subtractf)
  then have "\<bar>r ! k\<bar> - ?f k = 0" using k le sum_nonneg_eq_0_iff [of "{..<n}" "\<lambda>k. \<bar>r ! k\<bar> - ?f k"] by simp
  then show "?f k = \<bar>r ! k\<bar>" by simp
qed

section \<open>Clean reception\<close>

text \<open>The received chunks agree with the encoding of a message from a state, up to erasures outside the first generator.\<close>

fun received_as :: "(nat \<Rightarrow> bool \<Rightarrow> bool list) \<Rightarrow> nat \<Rightarrow> nat \<Rightarrow> bool list \<Rightarrow> int list list \<Rightarrow> bool" where
  "received_as out n s [] [] \<longleftrightarrow> True"
| "received_as out n s (b # bs) (r # rs) \<longleftrightarrow>
     length r = n \<and> r ! 0 \<noteq> 0 \<and> (\<forall>k < n. r ! k = 0 \<or> r ! k = sgn_bit (out s b ! k)) \<and> received_as out n (next_state s b) bs rs"
| "received_as out n s bs rs \<longleftrightarrow> False"

lemma received_lengths: "received_as out n s bs rs \<Longrightarrow> length rs = length bs \<and> (\<forall>r \<in> set rs. length r = n)"
  by (induction out n s bs rs rule: received_as.induct) auto

lemma received_hard: "received_as out n s bs rs \<Longrightarrow> list_all hard rs"
proof (induction out n s bs rs rule: received_as.induct)
  case (2 out n s b bs r rs)
  have "x \<in> {- 1, 0, 1}" if "x \<in> set r" for x
  proof -
    from that obtain k where "k < length r" "x = r ! k" by (auto simp: in_set_conv_nth)
    with "2.prems" have "x = 0 \<or> x = sgn_bit (out s b ! k)" by simp
    then show ?thesis by (cases "out s b ! k") (auto simp: sgn_bit_def)
  qed
  then have "hard r" unfolding hard_def by blast
  with 2 show ?case by simp
qed auto

lemma path_cost_ge:
  assumes t: "table_of E out n"
  shows "s < 16 \<Longrightarrow> length bs = length rs \<Longrightarrow> \<forall>r \<in> set rs. length r = n \<Longrightarrow>
    - (\<Sum>r \<leftarrow> rs. weight r) \<le> path_cost (map (corr E) rs) s bs"
proof (induction rs arbitrary: s bs)
  case (Cons r rs)
  then obtain b bs' where bs: "bs = b # bs'" by (cases bs) auto
  have "- weight r \<le> step_cost (corr E r) s b" using step_cost_ge(1) [OF t] Cons.prems by simp
  moreover have "- (\<Sum>r \<leftarrow> rs. weight r) \<le> path_cost (map (corr E) rs) (next_state s b) bs'"
    using Cons.IH [of "next_state s b" bs'] Cons.prems bs by simp
  ultimately show ?case using bs by simp
qed simp

lemma path_cost_received:
  assumes t: "table_of E out n"
  shows "s < 16 \<Longrightarrow> received_as out n s bs rs \<Longrightarrow> path_cost (map (corr E) rs) s bs = - (\<Sum>r \<leftarrow> rs. weight r)"
proof (induction bs arbitrary: s rs)
  case Nil
  then show ?case by (cases rs) auto
next
  case (Cons b bs)
  then obtain r rs' where rs: "rs = r # rs'" by (cases rs) auto
  with Cons.prems have r: "length r = n" "\<forall>k < n. r ! k = 0 \<or> r ! k = sgn_bit (out s b ! k)" by auto
  have "(\<Sum>k < n. r ! k * sgn_bit (out s b ! k)) = (\<Sum>k < n. \<bar>r ! k\<bar>)"
    using r(2) by (intro sum.cong) (auto simp: sgn_bit_def)
  then have "step_cost (corr E r) s b = - weight r" using step_cost_corr [OF t Cons.prems(1) r(1)] r(1) by (simp add: weight_def)
  with Cons rs show ?case by simp
qed

lemma received_unique:
  assumes t: "table_of E out n"
  shows "s < 16 \<Longrightarrow> received_as out n s bs rs \<Longrightarrow> length bs' = length rs \<Longrightarrow>
    path_cost (map (corr E) rs) s bs' = - (\<Sum>r \<leftarrow> rs. weight r) \<Longrightarrow> bs' = bs"
proof (induction bs arbitrary: s rs bs')
  case Nil
  then show ?case by (cases rs) auto
next
  case (Cons b bs)
  then obtain r rs' b' bs'' where e: "rs = r # rs'" "bs' = b' # bs''"
    by (cases rs; cases bs') auto
  with Cons.prems have r: "length r = n" "r ! 0 \<noteq> 0" "\<forall>k < n. r ! k = 0 \<or> r ! k = sgn_bit (out s b ! k)"
    "received_as out n (next_state s b) bs rs'" by auto
  have ge: "- weight r \<le> step_cost (corr E r) s b'" by (rule step_cost_ge(1) [OF t Cons.prems(1) r(1)])
  moreover have "- (\<Sum>r \<leftarrow> rs'. weight r) \<le> path_cost (map (corr E) rs') (next_state s b') bs''"
    using path_cost_ge [OF t, of "next_state s b'" bs'' rs'] received_lengths [OF r(4)] Cons.prems e by simp
  ultimately have eq: "step_cost (corr E r) s b' = - weight r"
    "path_cost (map (corr E) rs') (next_state s b') bs'' = - (\<Sum>r \<leftarrow> rs'. weight r)"
    using Cons.prems(4) e by simp_all
  have n: "0 < n" using t by (simp add: table_of_def)
  have "r ! 0 * sgn_bit (out s b' ! 0) = \<bar>r ! 0\<bar>" by (rule step_cost_ge(2) [OF t Cons.prems(1) r(1) eq(1) n])
  then have "out s b' ! 0 = out s b ! 0" using r(2,3) n by (auto simp: sgn_bit_def split: if_splits)
  then have "b' = b" using table_ofD(2) [OF t Cons.prems(1), of b] by (cases b; cases b') auto
  with Cons.IH [of "next_state s b" rs' bs''] r(4) eq(2) e Cons.prems show ?case by simp
qed

section \<open>What the decoder returns\<close>

lemma decode_optimal:
  assumes "table_ok (expected_0 d)" and "list_all hard rs" and "rs = chunks_exact n xs"
    and "16383 + int (length (concat rs)) \<le> 32767"
  shows "\<exists>s bs. decode d n xs = map of_bool bs \<and> s < 16 \<and> length bs = length rs \<and> final_state s bs = 0 \<and>
    (\<forall>s' < 16. \<forall>bs'. length bs' = length rs \<and> final_state s' bs' = 0 \<longrightarrow>
       M0 s + path_cost (map (corr (expected_0 d)) rs) s bs \<le> M0 s' + path_cost (map (corr (expected_0 d)) rs) s' bs')"
proof -
  let ?cs = "map (corr (expected_0 d)) rs"
  obtain s bs where tr: "trace (rev (vit_decisions M0 ?cs)) 0 = (s, bs)" by fastforce
  from trace_exact [OF _ this] have "s < 16" "length bs = length rs" "final_state s bs = 0" by simp_all
  moreover have "decode d n xs = map of_bool bs"
    using decode_trace [OF assms(1), of n xs] assms(2-4) tr by simp
  moreover have "M0 s + path_cost ?cs s bs \<le> M0 s' + path_cost ?cs s' bs'"
    if "s' < 16" "length bs' = length rs" "final_state s' bs' = 0" for s' bs'
    using trace_optimal [OF _ tr that(1)] that by simp
  ultimately show ?thesis by blast
qed

lemma length_concat_const: "\<forall>r \<in> set rs. length r = n \<Longrightarrow> length (concat rs) = n * length rs"
  by (induction rs) auto

lemma decode_clean:
  assumes t: "table_of (expected_0 d) out n" and rs: "rs = chunks_exact n xs" and r: "received_as out n 0 bs rs"
    and f: "final_state 0 bs = 0" and b: "16383 + int (n * length bs) \<le> 32767"
  shows "decode d n xs = map of_bool bs"
proof -
  let ?cs = "map (corr (expected_0 d)) rs" and ?w = "\<Sum>r \<leftarrow> rs. weight r"
  have l: "length rs = length bs" "\<forall>r \<in> set rs. length r = n" using received_lengths [OF r] by auto
  have ok: "table_ok (expected_0 d)" using t by (simp add: table_of_def)
  have "16383 + int (length (concat rs)) \<le> 32767" using b l length_concat_const by metis
  from decode_optimal [OF ok received_hard [OF r] rs this] obtain s bs'
    where d: "decode d n xs = map of_bool bs'" "s < 16" "length bs' = length rs"
      "M0 s + path_cost ?cs s bs' \<le> M0 0 + path_cost ?cs 0 bs" using l(1) f by fastforce
  have "- ?w \<le> path_cost ?cs s bs'" by (rule path_cost_ge [OF t d(2,3) l(2)])
  moreover have "path_cost ?cs 0 bs = - ?w" by (rule path_cost_received [OF t _ r]) simp
  ultimately have "M0 s \<le> 0" "s = 0 \<Longrightarrow> path_cost ?cs 0 bs' = - ?w" using d(4) by (auto simp: M0_def)
  then have "path_cost ?cs 0 bs' = - ?w" by (simp add: M0_def split: if_splits)
  from received_unique [OF t _ r d(3) this] d(1) show ?thesis by simp
qed

section \<open>Cost as distance\<close>

text \<open>How well received soft bits agree with a code word: bits that agree count 1, bits that differ -1, erasures 0.\<close>

definition agreement :: "int list \<Rightarrow> bool list \<Rightarrow> int" where
  "agreement xs cs = (\<Sum>(x, c) \<leftarrow> zip xs cs. x * sgn_bit c)"

lemma agreement_simps [simp]: "agreement [] cs = 0" "agreement xs [] = 0" "agreement (x # xs) (c # cs) = x * sgn_bit c + agreement xs cs"
  by (simp_all add: agreement_def)

lemma agreement_append: "length xs = length cs \<Longrightarrow> agreement (xs @ ys) (cs @ ds) = agreement xs cs + agreement ys ds"
  by (simp add: agreement_def)

lemma agreement_sum: "length xs = length cs \<Longrightarrow> agreement xs cs = (\<Sum>k < length xs. xs ! k * sgn_bit (cs ! k))"
  by (induction xs cs rule: list_induct2) (simp_all add: sum.lessThan_Suc_shift del: sum.lessThan_Suc)

lemma path_cost_agreement:
  assumes t: "table_of E out n"
  shows "s < 16 \<Longrightarrow> length xs = n * length bs \<Longrightarrow> path_cost (map (corr E) (chunks_exact n xs)) s bs = - agreement xs (encode_bits out s bs)"
proof (induction bs arbitrary: s xs)
  case (Cons b bs)
  have n: "0 < n" "length (out s b) = n" using t table_ofD(1) [OF t Cons.prems(1)] by (simp_all add: table_of_def)
  have c: "chunks_exact n xs = take n xs # chunks_exact n (drop n xs)"
    using n Cons.prems(2) by (subst chunks_exact.simps) simp
  have l: "length (take n xs) = n" using Cons.prems(2) by simp
  have "step_cost (corr E (take n xs)) s b = - agreement (take n xs) (out s b)"
    using step_cost_corr [OF t Cons.prems(1) l] agreement_sum [of "take n xs" "out s b"] n(2) l by simp
  moreover have "path_cost (map (corr E) (chunks_exact n (drop n xs))) (next_state s b) bs = - agreement (drop n xs) (encode_bits out (next_state s b) bs)"
    using Cons.IH [of "next_state s b" "drop n xs"] Cons.prems by simp
  moreover have "agreement xs (out s b @ encode_bits out (next_state s b) bs) =
      agreement (take n xs) (out s b) + agreement (drop n xs) (encode_bits out (next_state s b) bs)"
    using agreement_append [of "take n xs" "out s b" "drop n xs"] n(2) l by simp
  ultimately show ?case by (simp add: c)
qed simp

text \<open>The places where a received bit that is not erased differs from the code word.\<close>

definition bit_distance :: "u8 list \<Rightarrow> u8 list \<Rightarrow> nat" where
  "bit_distance rs cs = length (filter (\<lambda>(r, c). (r = 0 \<or> r = 1) \<and> r \<noteq> c) (zip rs cs))"

definition known_bits :: "u8 list \<Rightarrow> nat" where
  "known_bits rs = length (filter (\<lambda>r. r = 0 \<or> r = 1) rs)"

lemma agreement_distance:
  "length rs = length cs \<Longrightarrow> agreement (map soft_bit rs) cs = int (known_bits rs) - 2 * int (bit_distance rs (map of_bool cs))"
  by (induction rs cs rule: list_induct2) (auto simp: known_bits_def bit_distance_def soft_bit_def sgn_bit_def)

lemma bit_distance_le: "length rs = length cs \<Longrightarrow> bit_distance rs cs \<le> known_bits rs"
  by (induction rs cs rule: list_induct2) (auto simp: known_bits_def bit_distance_def)

lemma hard_chunks: "set xs \<subseteq> {- 1, 0, 1} \<Longrightarrow> list_all hard (chunks_exact n xs)"
proof (induction n xs rule: chunks_exact.induct)
  case (1 n xs)
  have "set (drop n xs) \<subseteq> {- 1, 0, 1}" "hard (take n xs)"
    using "1.prems" by (auto simp: hard_def dest: in_set_dropD in_set_takeD)
  with 1 show ?case by (subst chunks_exact.simps) simp
qed

lemma chunks_length: "0 < n \<Longrightarrow> length xs = n * k \<Longrightarrow> length (chunks_exact n xs) = k \<and> length (concat (chunks_exact n xs)) = n * k"
proof (induction k arbitrary: xs)
  case (Suc k)
  then show ?case by (subst chunks_exact.simps, subst (2) chunks_exact.simps) simp
qed (subst chunks_exact.simps, subst (2) chunks_exact.simps, simp)

lemma final_state_zeros: "final_state 0 (replicate n False) = 0"
  by (induction n) (simp_all add: next_state_def)

text \<open>What \<open>dec_sb1\<close> returns, over the code words of the encoder: the penalty on other start states, half of the 16-bit range, is more
  than 864 symbols can ever make up for, so the path starts in state 0.\<close>

lemma dec_sb1_nearest:
  assumes "n \<le> 864" and "4 * n \<le> length in_buf" and "n \<le> length out_buf"
  shows "\<exists>bs. length bs = n \<and> dec_sb1 in_buf out_buf n = Ok (overwrite out_buf 0 (map of_bool bs)) \<and> final_state 0 bs = 0 \<and>
    (\<forall>bs'. length bs' = n \<and> final_state 0 bs' = 0 \<longrightarrow>
       bit_distance (take (4 * n) in_buf) (map of_bool (encode_bits cch_out 0 bs)) \<le>
       bit_distance (take (4 * n) in_buf) (map of_bool (encode_bits cch_out 0 bs')))"
proof -
  let ?rs = "take (4 * n) in_buf" and ?E = "expected_0 TetraViterbiDecoder_new"
  let ?xs = "map soft_bit ?rs" and ?d = "\<lambda>s bs. bit_distance ?rs (map of_bool (encode_bits cch_out s bs))"
  let ?cost = "path_cost (map (corr ?E) (chunks_exact 4 ?xs))" and ?w = "known_bits ?rs"
  have l: "length ?xs = 4 * n" using assms(2) by simp
  note c = chunks_length [OF _ l, simplified]
  have cost: "?cost s bs = 2 * int (?d s bs) - int ?w" "?d s bs \<le> ?w" if "s < 16" "length bs = n" for s bs
    using path_cost_agreement [OF cch_table that(1), of ?xs bs] agreement_distance [of ?rs "encode_bits cch_out s bs"]
      bit_distance_le [of ?rs "map of_bool (encode_bits cch_out s bs)"] that(2) l by (simp_all add: length_encode_bits)
  have "?w \<le> length ?rs" unfolding known_bits_def by (rule length_filter_le)
  then have w: "?w \<le> 3456" using l assms(1) by simp
  have h: "list_all hard (chunks_exact 4 ?xs)" by (rule hard_chunks) (auto simp: soft_bit_def)
  have ok: "table_ok ?E" using cch_table by (simp add: table_of_def)
  have "16383 + int (length (concat (chunks_exact 4 ?xs))) \<le> 32767" using c assms(1) by simp
  from decode_optimal [OF ok h refl this] obtain s bs where
    d: "decode TetraViterbiDecoder_new 4 ?xs = map of_bool bs" "s < 16" "length bs = n" "final_state s bs = 0"
      "\<And>s' bs'. s' < 16 \<Longrightarrow> length bs' = n \<Longrightarrow> final_state s' bs' = 0 \<Longrightarrow> M0 s + ?cost s bs \<le> M0 s' + ?cost s' bs'"
    using c by auto
  have s: "s = 0"
  proof (rule ccontr)
    assume "s \<noteq> 0"
    then have "16383 + ?cost s bs \<le> ?cost 0 (replicate n False)" using d(5) [of 0 "replicate n False"] final_state_zeros by (simp add: M0_def)
    with cost [OF d(2,3)] cost [of 0 "replicate n False"] w show False by simp
  qed
  have "?d 0 bs \<le> ?d 0 bs'" if "length bs' = n" "final_state 0 bs' = 0" for bs'
    using d(5) [of 0 bs'] cost(1) [of 0 bs] cost(1) [of 0 bs'] that d(3) s by simp
  moreover have "dec_sb1 in_buf out_buf n = Ok (overwrite out_buf 0 (map of_bool bs))"
    using assms d(1,3) by (simp add: dec_sb1_def mult.commute)
  ultimately show ?thesis using d(3,4) s by blast
qed

lemma encode_terminated:
  assumes "length bs = n"
  shows "encode (map of_bool bs) (replicate (4 * n) 0) ConvEncState_new = Ok (c, ConvEncState_new) \<longleftrightarrow>
    final_state 0 bs = 0 \<and> c = map of_bool (encode_bits cch_out 0 bs)"
proof -
  have z: "reg_of s = reg_of 0 \<Longrightarrow> s < 16 \<Longrightarrow> s = 0" for s
  proof -
    have "list_all (\<lambda>s. reg_of s = reg_of 0 \<longrightarrow> s = 0) [0..<16]" by code_simp
    then show "reg_of s = reg_of 0 \<Longrightarrow> s < 16 \<Longrightarrow> s = 0" using list_all_upt by blast
  qed
  have r: "\<lparr>delayed = reg_of s\<rparr> = ConvEncState_new \<longleftrightarrow> s = 0" if "s < 16" for s
    using z [OF _ that] by (auto simp: ConvEncState_new_def reg_of_def reg_bits_def)
  have "overwrite (replicate (4 * n) 0) 0 (map of_bool (encode_bits cch_out 0 bs)) = (map of_bool (encode_bits cch_out 0 bs) :: u8 list)"
    using assms by (simp add: overwrite_def length_encode_bits)
  with encode_spec [of bs "replicate (4 * n) 0"] assms
  have e: "encode (map of_bool bs) (replicate (4 * n) 0) ConvEncState_new =
      Ok (map of_bool (encode_bits cch_out 0 bs), \<lparr>delayed = reg_of (final_state 0 bs)\<rparr>)" by simp
  show ?thesis unfolding e outcome.inject prod.inject using r [of "final_state 0 bs"] by auto
qed

end
