(* ===== verification/Error_Control_Spec.thy ===== *)
theory Error_Control_Spec
  imports Error_Control Viterbi_Spec
begin

text \<open>
  Round trips of the coding chains: whatever a control channel, a speech frame or an access assignment carries, the decoder
  returns it from the encoder's output, with the checksum found right; the access assignment also survives one bit
  error in any of its 30 bits.
\<close>

section \<open>Arrays\<close>

lemma ok_then_simps [simp]: "ok_then (Ok x) f = f x" "ok_then (Err e) f = Err e" "ok_then Panic f = Panic"
  by (simp_all add: ok_then_def)

lemma asserting_simps [simp]: "asserting True m = m" "asserting False m = Panic"
  by (simp_all add: asserting_def)

lemma assign_loop_set: "assign_loop is f g input out = Ok r \<Longrightarrow> set r \<subseteq> set input \<union> set out"
proof (induction "is" arbitrary: out)
  case (Cons i "is")
  then have "set r \<subseteq> set input \<union> set (out[f i := input ! g i])" "g i < length input" by (auto split: if_splits)
  moreover have "set (out[f i := input ! g i]) \<subseteq> insert (input ! g i) (set out)" by (rule set_update_subset_insert)
  ultimately show ?case using nth_mem [of "g i" input] by blast
qed simp

lemma assign_loop_input:
  "\<forall>i \<in> set is. g i < length input \<and> g i < length input' \<and> input ! g i = input' ! g i \<Longrightarrow>
   assign_loop is f g input out = assign_loop is f g input' out"
  by (induction "is" arbitrary: out) auto

lemma assign_loop_length: "assign_loop is f g input out = Ok r \<Longrightarrow> length r = length out"
  by (induction "is" arbitrary: out) (auto split: if_splits)

lemma block_deinterleave_cong:
  assumes "coprime a k" and "0 < k" and "a * k < 2 ^ 32" and "k < 2 ^ 32" and "a < 2 ^ 32"
    and "take k m = take k m'" and "k \<le> length m" and "k \<le> length m'"
  shows "block_deinterleave k a m out = block_deinterleave k a m' out"
proof -
  have "assign_loop [1..<k + 1] (\<lambda>i. i - 1) (block_pos k a) m out = assign_loop [1..<k + 1] (\<lambda>i. i - 1) (block_pos k a) m' out"
  proof (rule assign_loop_input, rule ballI)
    fix i assume "i \<in> set [1..<k + 1]"
    then have "block_pos k a i < k" using block_pos_bij [OF assms(1-5)] unfolding bij_betw_def by blast
    with assms(6-8) show "block_pos k a i < length m \<and> block_pos k a i < length m' \<and> m ! block_pos k a i = m' ! block_pos k a i"
      by (metis nth_take order.strict_trans2)
  qed
  then show ?thesis using assms(7,8) unfolding block_deinterleave_def by (simp only:)
qed

lemma nth_take_eq: "take k xs = take k ys \<Longrightarrow> i < k \<Longrightarrow> xs ! i = ys ! i"
  by (metis nth_take)

lemma foldl_update:
  "at + n \<le> length arr \<Longrightarrow> foldl (\<lambda>a i. a[at + i := f i]) arr [0..<n] = overwrite arr at (map f [0..<n])"
proof (induction n)
  case (Suc n)
  have "(overwrite arr at (map f [0..<n]))[at + n := f n] = overwrite arr at (map f [0..<Suc n])"
  proof (rule nth_equalityI)
    fix i assume "i < length ((overwrite arr at (map f [0..<n]))[at + n := f n])"
    then have i: "i < length arr" using Suc.prems by simp
    show "(overwrite arr at (map f [0..<n]))[at + n := f n] ! i = overwrite arr at (map f [0..<Suc n]) ! i"
    proof (cases "i = at + n")
      case True
      with i Suc.prems show ?thesis by (simp add: nth_overwrite nth_append del: upt_Suc)
    next
      case False
      with i Suc.prems show ?thesis by (auto simp: nth_overwrite simp del: upt_Suc)
    qed
  qed (use Suc.prems in simp)
  with Suc show ?case by simp
qed simp

lemma crc_byte: "(ucast (drop_bit k (w :: u16) AND 1) :: u8) = of_bool (bit w k)"
  by (simp add: and_one_eq bit_iff_odd_drop_bit mod_2_eq_odd)

lemma put_crc_spec: "at + 16 \<le> length arr \<Longrightarrow> put_crc crc at arr = overwrite arr at (map of_bool (to_bits 16 crc))"
proof -
  assume "at + 16 \<le> length arr"
  from foldl_update [OF this, of "\<lambda>i. ucast (drop_bit (15 - i) crc AND 1)"] show ?thesis
    by (simp add: put_crc_def to_bits_def crc_byte comp_def)
qed

lemma of_bool_eq_1: "(of_bool b = (1 :: u8)) = b"
  by simp

lemma bits_of_01: "set xs \<subseteq> {0, 1 :: u8} \<Longrightarrow> map of_bool (map (\<lambda>x. x = 1) xs) = xs"
  by (induction xs) auto

lemma set_of_bool: "set (map of_bool bs) \<subseteq> {0, 1 :: u8}"
  by auto

lemma bit_0_of_bool: "bit (of_bool b :: u8) 0 = b"
  by (simp add: bit_0)

lemma crc16_ccitt_spec: "take n arr = map of_bool bs \<Longrightarrow> crc16_ccitt_bits arr n = crc_bits 0xffff bs"
  by (simp add: crc16_ccitt_bits_def crc16_itut_bits_eq comp_def bit_0_of_bool)

section \<open>Buffers and arrays\<close>

lemma to_bitarr_spec:
  "bb_inv b \<Longrightarrow> n \<le> length (unread b) \<Longrightarrow> to_bitarr n b = Ok (map of_bool (take n (unread b)), b\<lparr>bb_pos := bb_pos b + n\<rparr>)"
  by (simp add: to_bitarr_def bind_def try_to_bitarr_spec ret_def)

lemma seek_0_spec: "bb_inv b \<Longrightarrow> seek 0 b = Ok ((), b\<lparr>bb_pos := bb_start b\<rparr>)"
  by (simp add: seek_def try_seek_def checked_add_def bind_def guard_def ret_def bb_inv_def)

lemma seek_0_window: "bb_inv b \<Longrightarrow> bb_inv (b\<lparr>bb_pos := bb_start b\<rparr>) \<and> unread (b\<lparr>bb_pos := bb_start b\<rparr>) = window b"
  by (auto simp: bb_inv_def unread_def window_def)

lemma from_bitarr_buffer:
  assumes "set xs \<subseteq> {0, 1}" and "length xs < 2 ^ 64"
  obtains b where "from_bitarr xs = Ok b" and "bb_inv b" and "bb_start b = 0" and "bb_pos b = 0" and "unread b = map (\<lambda>x. x = 1) xs"
  using from_bitarr_spec [OF assms] by (auto simp: bb_inv_def)

section \<open>Control channels\<close>

definition cp_message :: "bool list \<Rightarrow> bool list" where
  "cp_message bs = bs @ to_bits 16 (NOT (crc_bits 0xffff bs)) @ [False, False, False, False]"

lemma length_cp_message [simp]: "length (cp_message bs) = length bs + 20"
  by (simp add: cp_message_def)

lemma final_cp_message: "final_state 0 (cp_message bs) = 0"
  unfolding cp_message_def final_state_simps(3) by (rule tail_final_state) simp

definition cp_params :: "ErrorControlParams \<Rightarrow> bool" where
  "cp_params p \<longleftrightarrow> have_crc16 p \<and> type2_bits p = type1_bits p + 20 \<and> type2_bits p \<le> 288 \<and> 2 * type345_bits p = 3 * type2_bits p \<and>
     3 dvd type345_bits p \<and> 0 < type345_bits p \<and> coprime (interleave_a p) (type345_bits p) \<and> interleave_a p \<le> 103"

lemma get_params_cp: "is_control_channel c \<Longrightarrow> c \<noteq> Aach \<Longrightarrow> \<exists>p. get_params c = Ok p \<and> cp_params p"
  by (cases c)
    (simp_all add: is_control_channel_def cp_params_def BSCH_PARAMS_def SCH_HD_PARAMS_def SCH_F_PARAMS_def SCH_HU_PARAMS_def, (code_simp+)?)

text \<open>The coded bits in the mother code array.\<close>

definition mother_of :: "bool list \<Rightarrow> u8 list" where
  "mother_of m = overwrite (replicate (MAX_TYPE345_BITS * 4) 0) 0 (map of_bool (encode_bits cch_out 0 m))"

lemma mother_of_props:
  assumes "length m \<le> 288"
  shows "length (mother_of m) = 1728" and "set (mother_of m) \<subseteq> {0, 1}"
    and "q < 4 * length m \<Longrightarrow> mother_of m ! q = of_bool (encode_bits cch_out 0 m ! q)"
proof -
  have l: "length (encode_bits cch_out 0 m) = 4 * length m" by (rule length_encode_bits)
  show "length (mother_of m) = 1728" using assms by (simp add: mother_of_def MAX_TYPE345_BITS_def l)
  show "set (mother_of m) \<subseteq> {0, 1}" by (auto simp: mother_of_def overwrite_def MAX_TYPE345_BITS_def dest: in_set_dropD)
  show "q < 4 * length m \<Longrightarrow> mother_of m ! q = of_bool (encode_bits cch_out 0 m ! q)"
    using assms by (simp add: mother_of_def MAX_TYPE345_BITS_def nth_overwrite l)
qed

lemma replicate_eq_4: "replicate 4 x = [x, x, x, x]"
  by (simp add: eval_nat_numeral)

lemma cp_type2:
  assumes "length bs + 20 \<le> 288"
  shows "take (length bs + 20) (put_crc (NOT (crc_bits 0xffff bs)) (length bs) (overwrite (replicate 288 0) 0 (map of_bool bs))) =
    map of_bool (cp_message bs)"
proof -
  let ?a = "overwrite (replicate 288 0) 0 (map of_bool bs) :: u8 list"
  have "length ?a = 288" using assms by simp
  then have "put_crc (NOT (crc_bits 0xffff bs)) (length bs) ?a = overwrite ?a (length bs) (map of_bool (to_bits 16 (NOT (crc_bits 0xffff bs))))"
    using assms by (intro put_crc_spec) simp
  also have "\<dots> = overwrite (replicate 288 0) 0 (map of_bool bs @ map of_bool (to_bits 16 (NOT (crc_bits 0xffff bs))))"
    using overwrite_overwrite [of 0 "replicate 288 0 :: u8 list" "map of_bool bs"] by simp
  finally have e: "put_crc (NOT (crc_bits 0xffff bs)) (length bs) ?a =
    overwrite (replicate 288 0) 0 (map of_bool bs @ map of_bool (to_bits 16 (NOT (crc_bits 0xffff bs))))" .
  have z: "replicate 4 0 = map of_bool [False, False, False, False]" by (simp add: replicate_eq_4)
  show ?thesis unfolding e using assms
    by (simp add: overwrite_def cp_message_def min_def z)
qed

text \<open>The encoder: the interleaved bits are a permutation of the punctured ones, and scrambling adds the keystream.\<close>

lemma encode_cp_spec:
  assumes "is_control_channel c" and "c \<noteq> Aach" and P: "get_params c = Ok p" "cp_params p"
    and b: "bb_inv blk" "window blk = bs" "length bs = type1_bits p"
    and k: "k = type345_bits p"
  shows "\<exists>t5 t3 t4. encode_cp \<lparr>rq_mac_block = blk, rq_logical_channel = c, rq_scrambling_code = code\<rparr> = Ok t5 \<and>
    bb_inv t5 \<and> bb_start t5 = 0 \<and> bb_pos t5 = 0 \<and>
    length t3 = 432 \<and> (\<forall>j \<in> {1..432}. t3 ! (j - 1) = mother_of (cp_message bs) ! (punct_pos Rate2_3 j - 1)) \<and>
    block_interleave k (interleave_a p) t3 (replicate 432 0) = Ok t4 \<and> set t4 \<subseteq> {0, 1} \<and> length t4 = 432 \<and>
    unread t5 = xor_bits (map (\<lambda>x. x = 1) (take k t4)) (keystream k code)"
proof -
  let ?m = "cp_message bs" and ?b = "blk\<lparr>bb_pos := bb_start blk\<rparr>"
  have p: "have_crc16 p" "type2_bits p = length ?m" "length ?m \<le> 288" "2 * k = 3 * length ?m" "3 dvd k" "0 < k"
      "coprime (interleave_a p) k" "interleave_a p \<le> 103"
    using P(2) b(3) k by (simp_all add: cp_params_def)
  have kle: "k \<le> 432" using p by linarith
  have ak: "interleave_a p * k < 2 ^ 32"
    using mult_le_mono [OF p(8) kle] by simp
  have len: "get_len blk = type1_bits p" using b length_window by metis
  have arr: "to_bitarr (type1_bits p) ?b = Ok (map of_bool bs, ?b\<lparr>bb_pos := bb_pos ?b + type1_bits p\<rparr>)"
    using to_bitarr_spec [of ?b "type1_bits p"] seek_0_window [OF b(1)] b by simp
  have take1: "take (type1_bits p) (overwrite (replicate 288 0) 0 (map of_bool bs)) = (map of_bool bs :: u8 list)"
    using b(3) by (simp add: overwrite_def)
  have crc: "crc16_ccitt_bits (map of_bool bs) (type1_bits p) = crc_bits 0xffff bs"
    using b(3) by (intro crc16_ccitt_spec) simp
  have type2: "take (type2_bits p) (put_crc (NOT (crc_bits 0xffff bs)) (type1_bits p) (overwrite (replicate 288 0) 0 (map of_bool bs))) = map of_bool ?m"
    using cp_type2 [of bs] p(2,3) b(3) by simp
  have enc: "encode (map of_bool ?m) (replicate (MAX_TYPE345_BITS * 4) 0) ConvEncState_new = Ok (mother_of ?m, \<lparr>delayed = reg_of 0\<rparr>)"
    using encode_spec [of ?m "replicate (MAX_TYPE345_BITS * 4) 0"] p(3) by (simp add: mother_of_def MAX_TYPE345_BITS_def final_cp_message)
  have w: "well_punctured Rate2_3 432 (length (mother_of ?m))" using mother_of_props(1) [OF p(3)] by (intro well_punctured_2_3) simp_all
  obtain t3 where t3: "get_punctured_rate Rate2_3 (mother_of ?m) (replicate 432 0) = Ok t3" "length t3 = 432"
      "\<forall>j \<in> {1..432}. t3 ! (j - 1) = mother_of ?m ! (punct_pos Rate2_3 j - 1)"
    using punctured_spec [OF w, of "replicate 432 0"] by auto
  have s3: "set t3 \<subseteq> {0, 1}"
    using assign_loop_set [OF t3(1) [unfolded get_punctured_rate_def]] mother_of_props(2) [OF p(3)] by (auto simp: subset_iff)
  obtain t4 where t4: "block_interleave k (interleave_a p) t3 (replicate 432 0) = Ok t4" "length t4 = 432"
    using block_roundtrip [OF p(7,6) ak, of t3 "replicate 432 0" "replicate 432 0"] kle p(8) t3(2) by auto
  have s4: "set t4 \<subseteq> {0, 1}"
  proof -
    have "assign_loop [1..<k + 1] (block_pos k (interleave_a p)) (\<lambda>i. i - 1) t3 (replicate 432 0) = Ok t4"
      using t4(1) kle t3(2) unfolding block_interleave_def by (simp only: length_replicate if_True simp_thms)
    from assign_loop_set [OF this] s3 show ?thesis by auto
  qed
  have "set (take k t4) \<subseteq> {0, 1}" using s4 set_take_subset by fast
  then obtain b4 where b4: "from_bitarr (take k t4) = Ok b4" "bb_inv b4" "bb_start b4 = 0" "bb_pos b4 = 0" "unread b4 = map (\<lambda>x. x = 1) (take k t4)"
    using kle t4(2) from_bitarr_buffer [of "take k t4"] by auto
  obtain t5 where t5: "tetra_scramb_bits code b4 = Ok ((), t5)" "bb_inv t5" "bb_start t5 = 0" "bb_pos t5 = 0"
      "unread t5 = xor_bits (map (\<lambda>x. x = 1) (take k t4)) (keystream k code)"
    using scramb_unread [OF b4(2), of code] b4 kle t4(2) by (metis length_map length_take min.absorb2)
  have "encode_cp \<lparr>rq_mac_block = blk, rq_logical_channel = c, rq_scrambling_code = code\<rparr> = Ok t5"
    using assms(1,2) P len seek_0_spec [OF b(1)] arr take1 crc type2 enc t3 t4 b4 t5 k p(1)
    by (simp add: encode_cp_def Let_def MAX_TYPE2_BITS_def MAX_TYPE345_BITS_def)
  with t3 t4 s4 t5 show ?thesis by blast
qed

lemma chunks_exact_step: "0 < n \<Longrightarrow> length xs = n * Suc m \<Longrightarrow> chunks_exact n xs = take n xs # chunks_exact n (drop n xs)"
  by (subst chunks_exact.simps) simp

lemma chunks_exact_Nil: "0 < n \<Longrightarrow> chunks_exact n [] = []"
  by (subst chunks_exact.simps) simp

text \<open>Soft bits that agree with an encoding except for erasures, in one array.\<close>

lemma received_chunks:
  assumes out: "\<And>s b. s < 16 \<Longrightarrow> length (out s b) = n" and "0 < n"
  shows "s < 16 \<Longrightarrow> length xs = n * length bs \<Longrightarrow>
    \<forall>q < n * length bs. xs ! q = 0 \<or> xs ! q = sgn_bit (encode_bits out s bs ! q) \<Longrightarrow>
    \<forall>k < length bs. xs ! (n * k) \<noteq> 0 \<Longrightarrow> received_as out n s bs (chunks_exact n xs)"
proof (induction bs arbitrary: s xs)
  case (Cons b bs)
  have c: "chunks_exact n xs = take n xs # chunks_exact n (drop n xs)"
    using chunks_exact_step [OF assms(2)] Cons.prems(2) by simp
  have "received_as out n (next_state s b) bs (chunks_exact n (drop n xs))"
  proof (rule Cons.IH)
    show "\<forall>q < n * length bs. drop n xs ! q = 0 \<or> drop n xs ! q = sgn_bit (encode_bits out (next_state s b) bs ! q)"
    proof (intro allI impI)
      fix q assume "q < n * length bs"
      then show "drop n xs ! q = 0 \<or> drop n xs ! q = sgn_bit (encode_bits out (next_state s b) bs ! q)"
        using spec [OF Cons.prems(3), of "n + q"] out [OF Cons.prems(1), of b] Cons.prems(2) by (simp add: nth_append)
    qed
    show "\<forall>k < length bs. drop n xs ! (n * k) \<noteq> 0"
    proof (intro allI impI)
      fix k assume "k < length bs"
      then show "drop n xs ! (n * k) \<noteq> 0" using spec [OF Cons.prems(4), of "Suc k"] Cons.prems(2) by simp
    qed
  qed (use Cons.prems in simp_all)
  moreover have "\<forall>k < n. take n xs ! k = 0 \<or> take n xs ! k = sgn_bit (out s b ! k)"
  proof (intro allI impI)
    fix k assume "k < n"
    then show "take n xs ! k = 0 \<or> take n xs ! k = sgn_bit (out s b ! k)"
      using spec [OF Cons.prems(3), of k] out [OF Cons.prems(1), of b] by (simp add: nth_append)
  qed
  moreover have "take n xs ! 0 \<noteq> 0" using spec [OF Cons.prems(4), of 0] assms(2) by simp
  moreover have "length (take n xs) = n" using Cons.prems(2) by simp
  ultimately show ?case unfolding c by simp
qed (simp add: chunks_exact_Nil assms(2))

lemma soft_bit_of: "soft_bit (of_bool b) = sgn_bit b" "soft_bit 0xff = 0"
  by (simp_all add: soft_bit_def sgn_bit_def)

lemma dec_sb1_spec:
  assumes "length m \<le> 288" and "final_state 0 m = 0" and "length buf = 1728" and "length out = 288"
    and "\<forall>q < 1728. buf ! q = (if kept Rate2_3 k q then mother_of m ! q else 0xff)" and "2 * k = 3 * length m"
  shows "dec_sb1 buf out (length m) = Ok (overwrite out 0 (map of_bool m))"
proof -
  let ?xs = "map soft_bit (take (length m * 4) buf)"
  have "received_as cch_out 4 0 m (chunks_exact 4 ?xs)"
  proof (rule received_chunks)
    show "\<forall>q < 4 * length m. ?xs ! q = 0 \<or> ?xs ! q = sgn_bit (encode_bits cch_out 0 m ! q)"
      using assms(1,3,5) mother_of_props(3) [OF assms(1)] by (auto simp: soft_bit_of)
    show "\<forall>j < length m. ?xs ! (4 * j) \<noteq> 0"
      using assms(1,3,5) mother_of_props(3) [OF assms(1)] kept_2_3 [OF assms(6)] by (auto simp: soft_bit_of)
  qed (use assms(1,3) in simp_all)
  from decode_clean [OF cch_table refl this assms(2)] assms(1)
  have "decode TetraViterbiDecoder_new 4 ?xs = map of_bool m" by simp
  then show ?thesis using assms(1,3,4) by (simp add: dec_sb1_def)
qed

text \<open>The whole chain of a control channel.\<close>

lemma decode_cp_spec:
  assumes c: "is_control_channel c" "c \<noteq> Aach" and P: "get_params c = Ok p" "cp_params p"
    and b: "length bs = type1_bits p" and k: "k = type345_bits p"
    and sc: "(if bt = SB1 then Some SCRAMB_INIT else dsc) = Some code"
    and t5: "bb_inv t5" "bb_start t5 = 0" "bb_pos t5 = 0" "unread t5 = xor_bits (map (\<lambda>x. x = 1) (take k t4)) (keystream k code)"
    and t3: "length t3 = 432" "\<forall>j \<in> {1..432}. t3 ! (j - 1) = mother_of (cp_message bs) ! (punct_pos Rate2_3 j - 1)"
    and t4: "block_interleave k (interleave_a p) t3 (replicate 432 0) = Ok t4" "set t4 \<subseteq> {0, 1}" "length t4 = 432"
  shows "\<exists>r. decode_cp c bt t5 dsc = Ok (Some r, True) \<and> bb_inv r \<and> bb_start r = 0 \<and> bb_pos r = 0 \<and> unread r = bs"
proof -
  let ?m = "cp_message bs"
  have p: "have_crc16 p" "type2_bits p = length ?m" "length ?m \<le> 288" "2 * k = 3 * length ?m" "3 dvd k" "0 < k"
      "coprime (interleave_a p) k" "interleave_a p \<le> 103"
    using P(2) b k by (simp_all add: cp_params_def)
  have kle: "k \<le> 432" using p by linarith
  have ak: "interleave_a p * k < 2 ^ 32" using mult_le_mono [OF p(8) kle] by simp
  have lu: "length (unread t5) = k" using t5(4) t4(3) kle by simp
  obtain s4 where s4: "tetra_scramb_bits code t5 = Ok ((), s4)" "bb_inv s4" "unread s4 = map (\<lambda>x. x = 1) (take k t4)"
    using scramb_unread [OF t5(1), of code] t5(4) t4(3) kle lu by (metis length_keystream length_map length_take min.absorb2 xor_bits_twice)
  have s01: "set (take k t4) \<subseteq> {0, 1}" using t4(2) set_take_subset by fast
  have arr: "to_bitarr k s4 = Ok (take k t4, s4\<lparr>bb_pos := bb_pos s4 + k\<rparr>)"
    using to_bitarr_spec [OF s4(2), of k] s4(3) bits_of_01 [OF s01] t4(3) kle by simp
  let ?a4 = "overwrite (replicate 432 0) 0 (take k t4) :: u8 list"
  have a4: "length ?a4 = 432" "take k ?a4 = take k t4" using t4(3) kle by (simp_all add: overwrite_def)
  obtain d3 where d3: "block_deinterleave k (interleave_a p) t4 (replicate 432 0) = Ok d3" "take k d3 = take k t3" "length d3 = 432"
  proof -
    from block_roundtrip [OF p(7,6) ak, of t3 "replicate 432 0" "replicate 432 0"] kle p(8) t3(1) t4(1)
    obtain r where r: "block_deinterleave k (interleave_a p) t4 (replicate 432 0) = Ok r" "take k r = take k t3" by auto
    then have "length r = 432" using assign_loop_length unfolding block_deinterleave_def by (force split: if_splits)
    with r that show ?thesis by blast
  qed
  have d3': "block_deinterleave k (interleave_a p) ?a4 (replicate 432 0) = Ok d3"
    using block_deinterleave_cong [OF p(7,6) ak, of ?a4 t4 "replicate 432 0"] a4 t4(3) kle p(8) d3(1) by simp
  have w: "well_punctured Rate2_3 k (length (replicate 1728 (0xff :: u8)))"
    using p(4,5) kle by (intro well_punctured_2_3) auto
  have src: "d3 ! (j - 1) = mother_of ?m ! (punct_pos Rate2_3 j - 1)" if "j \<in> {1..k}" for j
    using nth_take_eq [OF d3(2), of "j - 1"] t3(2) that kle by auto
  obtain r3 where r3: "tetra_rcpc_depunct Rate2_3 d3 k (replicate 1728 0xff) = Ok r3" "length r3 = 1728"
      "\<forall>q < 1728. r3 ! q = (if kept Rate2_3 k q then mother_of ?m ! q else 0xff)"
    using depunct_spec [OF w _ src] d3(3) kle by auto
  have dec: "dec_sb1 r3 (replicate 288 0) (length ?m) = Ok (overwrite (replicate 288 0) 0 (map of_bool ?m))"
    using r3 p(3,4) by (intro dec_sb1_spec [OF _ final_cp_message]) simp_all
  let ?t2 = "overwrite (replicate 288 0) 0 (map of_bool ?m) :: u8 list"
  have t2: "take (type1_bits p + 16) ?t2 = map of_bool (bs @ to_bits 16 (NOT (crc_bits 0xffff bs)))"
    "take (type1_bits p) ?t2 = map of_bool bs"
    using b by (simp_all add: overwrite_def cp_message_def)
  have crc: "crc16_ccitt_bits ?t2 (type1_bits p + 16) = TETRA_CRC_OK"
    using crc16_ccitt_spec [OF t2(1)] by (simp add: crc_residue_iff)
  obtain r where r: "from_bitarr (map of_bool bs) = Ok r" "bb_inv r" "bb_start r = 0" "bb_pos r = 0" "unread r = bs"
    using from_bitarr_buffer [OF set_of_bool [of bs]] b p(2,3) by (auto simp: comp_def)
  have "decode_cp c bt t5 dsc = Ok (Some r, True)"
    using c P sc s4(1) arr d3' r3(1) dec crc t2(2) r(1) p(1,2) k
    by (simp add: decode_cp_def Let_def MAX_TYPE2_BITS_def MAX_TYPE345_BITS_def)
  with r show ?thesis by blast
qed

lemma cp_roundtrip:
  assumes c: "is_control_channel c" "c \<noteq> Aach" and P: "get_params c = Ok p"
    and b: "bb_inv blk" "get_len blk = type1_bits p" and sc: "(if bt = SB1 then Some SCRAMB_INIT else dsc) = Some code"
  shows "\<exists>t5 r. encode_cp \<lparr>rq_mac_block = blk, rq_logical_channel = c, rq_scrambling_code = code\<rparr> = Ok t5 \<and>
    get_len t5 = type345_bits p \<and> decode_cp c bt t5 dsc = Ok (Some r, True) \<and> window r = window blk"
proof -
  have cp: "cp_params p" using get_params_cp [OF c] P by auto
  have len: "length (window blk) = type1_bits p" using length_window [OF b(1)] b(2) by simp
  from encode_cp_spec [OF c P cp b(1) refl len refl, of code] obtain t5 t3 t4
    where e: "encode_cp \<lparr>rq_mac_block = blk, rq_logical_channel = c, rq_scrambling_code = code\<rparr> = Ok t5"
      and t5: "bb_inv t5" "bb_start t5 = 0" "bb_pos t5 = 0"
        "unread t5 = xor_bits (map (\<lambda>x. x = 1) (take (type345_bits p) t4)) (keystream (type345_bits p) code)"
      and t3: "length t3 = 432" "\<forall>j \<in> {1..432}. t3 ! (j - 1) = mother_of (cp_message (window blk)) ! (punct_pos Rate2_3 j - 1)"
      and t4: "block_interleave (type345_bits p) (interleave_a p) t3 (replicate 432 0) = Ok t4" "set t4 \<subseteq> {0, 1}" "length t4 = 432"
    by blast
  obtain r where r: "decode_cp c bt t5 dsc = Ok (Some r, True)" "bb_inv r" "bb_start r = 0" "bb_pos r = 0" "unread r = window blk"
    using decode_cp_spec [OF c P cp len refl sc t5 t3 t4] by blast
  have "window r = window blk" using r by (simp add: unread_def window_def)
  moreover have "get_len t5 = type345_bits p"
    using length_unread [OF t5(1)] t5 t4(3) cp by (simp add: get_len_def get_len_remaining_def cp_params_def)
  ultimately show ?thesis using e r by blast
qed

section \<open>Access assignment\<close>

lemma fits_xor: "fits n a \<Longrightarrow> fits n b \<Longrightarrow> fits n (a XOR b)"
  by (simp add: fits_iff bit_xor_iff)

lemma row_fits: "i < 14 \<Longrightarrow> fits 30 (RM_30_14_ROWS_PRECOMPUTED ! i)"
proof -
  assume "i < 14"
  moreover have "list_all (\<lambda>r. fits 30 r) RM_30_14_ROWS_PRECOMPUTED" "length RM_30_14_ROWS_PRECOMPUTED = 14"
    by (simp_all add: RM_30_14_ROWS_PRECOMPUTED_def)
  ultimately show ?thesis by (simp add: list_all_length)
qed

lemma codeword_fits: "fits 30 (tetra_rm3014_compute x)"
proof -
  have "n \<le> 14 \<Longrightarrow> fits 30 (rm_prefix x n)" for n
    by (induction n) (simp_all add: rm_prefix_simps fits_xor row_fits)
  then show ?thesis by (simp add: rm_compute_prefix)
qed

definition aach_code :: "bool list \<Rightarrow> bool list" where
  "aach_code bs = to_bits 30 (tetra_rm3014_compute (of_bits bs))"

lemma length_aach_code [simp]: "length (aach_code bs) = 30"
  by (simp add: aach_code_def)

lemma ucast_u16_bits: "length bs \<le> 16 \<Longrightarrow> (ucast (of_bits bs :: u64) :: u16) = of_bits bs"
  by (rule bit_word_eqI) (auto simp: bit_of_bits bit_unsigned_iff)

lemma encode_aach_spec:
  assumes "bb_inv b" and "length (unread b) = 14"
  shows "\<exists>t5. encode_aach b code = Ok t5 \<and> bb_inv t5 \<and> bb_start t5 = 0 \<and> bb_pos t5 = 0 \<and>
    unread t5 = xor_bits (aach_code (unread b)) (keystream 30 code)"
proof -
  let ?w = "tetra_rm3014_compute (of_bits (unread b))"
  have rem: "get_len_remaining b = 14" using length_unread [OF assms(1)] assms(2) by simp
  have rd: "read_bits 14 b = Ok (Some (of_bits (unread b)), b\<lparr>bb_pos := bb_pos b + 14\<rparr>)"
    using read_bits_spec [OF assms(1), of 14] assms(2) by simp
  have f: "fits 30 (ucast ?w :: u64)" using codeword_fits [of "of_bits (unread b)"] by simp
  have tb: "to_bits 30 (ucast ?w :: u64) = aach_code (unread b)" by (simp add: aach_code_def to_bits_ucast)
  have e: "emits (write_bits (ucast ?w) 30) (aach_code (unread b))" using emits_write_bits [OF _ f] tb by simp
  have "room (BitBuffer_new 30) (length (aach_code (unread b)))" by (simp add: room_def BitBuffer_new_def)
  moreover have "bb_inv (BitBuffer_new 30)" by simp
  ultimately obtain b2 where w: "write_bits (ucast ?w) 30 (BitBuffer_new 30) = Ok ((), b2)"
      "wrote (BitBuffer_new 30) (aach_code (unread b)) b2" using emitsE [OF e] by blast
  then have b2: "bb_start b2 = 0" "bb_inv b2" "content b2 = aach_code (unread b)" "bb_inv (b2\<lparr>bb_pos := bb_start b2\<rparr>)"
    by (simp_all add: wrote_def content_new) (simp_all add: BitBuffer_new_def overwrite_def bb_inv_def)
  let ?b2 = "b2\<lparr>bb_pos := 0\<rparr>"
  have u2: "bb_inv ?b2" "unread ?b2 = aach_code (unread b)" "bb_start ?b2 = 0" using b2 by (simp_all add: unread_def)
  obtain t5 where t5: "tetra_scramb_bits code ?b2 = Ok ((), t5)" "bb_inv t5" "bb_start t5 = 0" "bb_pos t5 = 0"
      "unread t5 = xor_bits (aach_code (unread b)) (keystream 30 code)"
    using scramb_unread [OF u2(1), of code] u2 by auto
  have "encode_aach b code = Ok t5"
    using rem rd w(1) b2 t5(1) seek_0_spec [OF b2(2)] assms(2) by (simp add: encode_aach_def ucast_u16_bits)
  with t5 show ?thesis by blast
qed

text \<open>At most one bit differs.\<close>

definition one_error :: "bool list \<Rightarrow> bool list \<Rightarrow> bool" where
  "one_error xs ys \<longleftrightarrow> ys = xs \<or> (\<exists>i < length xs. ys = xs[i := \<not> xs ! i])"

lemma one_error_length: "one_error xs ys \<Longrightarrow> length ys = length xs"
  by (auto simp: one_error_def)

lemma xor_bits_nth: "i < length xs \<Longrightarrow> i < length ks \<Longrightarrow> xor_bits xs ks ! i = (xs ! i \<noteq> ks ! i)"
  by (simp add: xor_bits_def)

lemma one_error_xor:
  assumes "one_error (xor_bits xs ks) ys" and "length xs = length ks"
  shows "one_error xs (xor_bits ys ks)"
proof -
  have "xor_bits ((xor_bits xs ks)[i := \<not> xor_bits xs ks ! i]) ks = xs[i := \<not> xs ! i]" if "i < length xs" for i
    using that assms(2) by (intro nth_equalityI) (auto simp: xor_bits_nth nth_list_update)
  then show ?thesis using assms by (auto simp: one_error_def)
qed

lemma flip_word:
  assumes "i < 30"
  shows "of_bits ((to_bits 30 w)[i := \<not> to_bits 30 w ! i]) = (take_bit 30 w XOR push_bit (29 - i) 1 :: u32)"
proof (rule bit_word_eqI)
  fix k assume "k < LENGTH(32)"
  have p: "bit (push_bit (29 - i) 1 :: u32) k \<longleftrightarrow> k = 29 - i" using bit_single [of "29 - i" k] by auto
  show "bit (of_bits ((to_bits 30 w)[i := \<not> to_bits 30 w ! i]) :: u32) k = bit (take_bit 30 w XOR push_bit (29 - i) 1) k"
    unfolding bit_xor_iff p bit_of_bits bit_take_bit_iff
    using \<open>k < LENGTH(32)\<close> assms by (cases "k < 30"; cases "k = 29 - i") (auto simp: nth_list_update)
qed

lemma decode_word_error:
  assumes "fits 14 x" and "one_error (to_bits 30 (tetra_rm3014_compute x)) ys"
  shows "tetra_rm3014_decode_limited_ecc (of_bits ys) = x"
proof (cases "ys = to_bits 30 (tetra_rm3014_compute x)")
  case True
  then show ?thesis using assms(1) codeword_fits [of x] by (simp add: rm_decode_clean)
next
  case False
  with assms(2) obtain i where i: "i < 30" "ys = (to_bits 30 (tetra_rm3014_compute x))[i := \<not> to_bits 30 (tetra_rm3014_compute x) ! i]"
    by (auto simp: one_error_def)
  have "of_bits ys = tetra_rm3014_compute x XOR push_bit (29 - i) 1"
    unfolding i(2) flip_word [OF i(1)] fits_take_bit [OF codeword_fits] ..
  then show ?thesis using decode_single_error [OF assms(1), of "29 - i"] by simp
qed

lemma ucast_u32_bits: "length bs \<le> 32 \<Longrightarrow> (ucast (of_bits bs :: u64) :: u32) = of_bits bs"
  by (rule bit_word_eqI) (auto simp: bit_of_bits bit_unsigned_iff)

lemma aach_roundtrip:
  assumes "bb_inv b" and "length (unread b) = 14" and "encode_aach b code = Ok t5"
    and t: "bb_inv t" "bb_start t = 0" "bb_pos t = 0" "one_error (unread t5) (unread t)"
  shows "\<exists>r. decode_aach t code = Ok r \<and> bb_inv r \<and> window r = unread b"
proof -
  let ?bs = "unread b"
  have u5: "unread t5 = xor_bits (aach_code ?bs) (keystream 30 code)" using encode_aach_spec [OF assms(1,2), of code] assms(3) by auto
  then have lt: "length (unread t) = 30" using one_error_length [OF t(4)] by simp
  then have rem: "get_len_remaining t = 30" "bb_end t = 30" using length_unread [OF t(1)] t(3) by (simp_all add: get_len_remaining_def)
  obtain t2 where t2: "tetra_scramb_bits code t = Ok ((), t2)" "bb_inv t2" "bb_start t2 = 0" "bb_pos t2 = 0" "bb_end t2 = 30"
      "unread t2 = xor_bits (unread t) (keystream 30 code)"
    using scramb_unread [OF t(1), of code] t lt rem by auto
  have "one_error (aach_code ?bs) (unread t2)" using one_error_xor t(4) u5 t2(6) by (metis length_aach_code length_keystream)
  then have dec: "tetra_rm3014_decode_limited_ecc (of_bits (unread t2)) = of_bits ?bs"
    using assms(2) by (intro decode_word_error) (simp_all add: aach_code_def)
  have l2: "length (unread t2) = 30" using t2(6) lt by simp
  have rd: "read_bits 30 t2 = Ok (Some (of_bits (unread t2)), t2\<lparr>bb_pos := 30\<rparr>)"
    using read_bits_spec [OF t2(2), of 30] l2 t2(4) by simp
  let ?t = "t2\<lparr>bb_start := 0, bb_pos := 0, bb_end := 14\<rparr>"
  have inv: "bb_inv ?t" "content ?t = take 14 (content t2)" using t2 by (auto simp: bb_inv_def content_def)
  have f: "fits 14 (ucast (of_bits ?bs :: u16) :: u64)" using assms(2) by simp
  have tb: "to_bits 14 (ucast (of_bits ?bs :: u16) :: u64) = ?bs" using assms(2) by (simp add: to_bits_ucast)
  obtain r where r: "write_bits (ucast (of_bits ?bs :: u16)) 14 ?t = Ok ((), r)" "wrote ?t ?bs r"
    using emitsE [OF emits_write_bits [OF _ f] inv(1)] tb assms(2) by (auto simp: room_def)
  have "bb_inv r" "bb_start r = 0" "content r = ?bs"
    using r(2) t2 inv assms(2) by (simp_all add: wrote_def overwrite_def length_content)
  moreover have "decode_aach t code = Ok (r\<lparr>bb_pos := bb_start r\<rparr>)"
    using rem t2 rd dec r(1) seek_0_spec [OF \<open>bb_inv r\<close>] l2 t2(2)
    by (simp add: decode_aach_def ucast_u32_bits set_raw_start_def set_raw_pos_def set_raw_end_def bb_inv_def)
  ultimately show ?thesis by (auto simp: window_def bb_inv_def)
qed

end
