(* ===== verification/Speech_Spec.thy ===== *)
theory Speech_Spec
  imports Error_Control_Spec
begin

text \<open>
  The speech chain: a frame of 274 codec bits survives reordering, unequal protection, matrix interleaving and scrambling,
  and the checksum of its most sensitive bits is found right.
\<close>

section \<open>The checksum\<close>

definition zero_one :: "u8 list \<Rightarrow> bool" where
  "zero_one xs \<longleftrightarrow> set xs \<subseteq> {0, 1}"

lemma zero_one_nth: "zero_one xs \<Longrightarrow> i < length xs \<Longrightarrow> xs ! i = 0 \<or> xs ! i = 1"
  by (auto simp: zero_one_def subset_iff)

lemma zero_one_update: "zero_one xs \<Longrightarrow> v = 0 \<or> v = 1 \<Longrightarrow> zero_one (xs[i := v])"
  unfolding zero_one_def using set_update_subset_insert [of xs i v] by blast

lemma zero_one_bits: "zero_one xs \<Longrightarrow> map of_bool (map (\<lambda>x. x = 1) xs) = xs"
  unfolding zero_one_def by (rule bits_of_01)

lemma zero_one_slices: "zero_one xs \<Longrightarrow> zero_one (take n xs) \<and> zero_one (drop n xs) \<and> zero_one (slice a n xs)"
  by (auto simp: zero_one_def slice_def dest: in_set_takeD in_set_dropD)

lemma foldl_invariant: "P a \<Longrightarrow> (\<And>a x. x \<in> set xs \<Longrightarrow> P a \<Longrightarrow> P (f a x)) \<Longrightarrow> P (foldl f a xs)"
  by (induction xs arbitrary: a) auto

lemma speech_crc_spec:
  assumes "length bits = 60"
  shows "\<exists>c. speech_crc bits = Ok c \<and> length c = 8 \<and> zero_one c"
proof -
  have one: "(b :: u8) AND 1 = 0 \<or> b AND 1 = 1" for b by (auto simp: and_one_eq mod_2_eq_odd)
  let ?wa = "foldl (\<lambda>w k. w[k + 7 := bits ! k AND 1]) (replicate 67 0) [0..<60]"
  let ?w = "foldl speech_reduce ?wa (rev [7..<67])"
  let ?r = "foldl (\<lambda>r i. r[i := ?w ! i]) (replicate 8 0) [0..<7]"
  let ?pa = "foldl (\<lambda>p b. p XOR (b AND 1)) 0 bits"
  let ?p = "foldl (\<lambda>p i. p XOR ?r ! i) ?pa [0..<7]"
  let ?ok = "\<lambda>n w. length w = n \<and> zero_one w"
  have z: "zero_one (replicate n 0)" for n by (auto simp: zero_one_def)
  have w0: "?ok 67 ?wa"
    by (rule foldl_invariant [where P = "?ok 67"]) (simp_all add: z zero_one_update [OF _ one])
  have w: "?ok 67 ?w"
  proof (rule foldl_invariant [where P = "?ok 67", OF w0])
    fix a d assume d: "d \<in> set (rev [7..<67])" and a: "length a = 67 \<and> zero_one a"
    have flip: "x = 0 \<or> x = 1 \<Longrightarrow> x XOR 1 = 0 \<or> x XOR 1 = 1" for x :: u8 by auto
    have upd: "length (v[i := v ! i XOR 1]) = 67 \<and> zero_one (v[i := v ! i XOR 1])" if "length v = 67 \<and> zero_one v" "i < 67" for v i
      using that flip [OF zero_one_nth [of v i]] by (auto intro!: zero_one_update)
    have "d < 67" using d unfolding set_rev set_upt by simp
    then have lt: "d < 67" "d - 4 < 67" "d - 7 < 67" by auto
    show "length (speech_reduce a d) = 67 \<and> zero_one (speech_reduce a d)"
    proof (cases "a ! d = 1")
      case True
      from upd [OF upd [OF upd [OF a lt(1)] lt(2)] lt(3)] show ?thesis
        unfolding speech_reduce_def Let_def if_P [OF True] .
    next
      case False
      from a show ?thesis unfolding speech_reduce_def Let_def if_not_P [OF False] .
    qed
  qed
  have r: "?ok 8 ?r"
  proof (rule foldl_invariant [where P = "?ok 8"])
    fix a i assume "i \<in> set [0..<7]" and "?ok 8 a"
    then show "?ok 8 (a[i := ?w ! i])" using zero_one_nth [of ?w i] w by (auto intro!: zero_one_update)
  qed (simp add: z)
  have x: "p = 0 \<or> p = 1 \<Longrightarrow> q = 0 \<or> q = 1 \<Longrightarrow> p XOR q = 0 \<or> p XOR q = 1" for p q :: u8 by auto
  let ?bin = "\<lambda>v. v = 0 \<or> v = (1 :: u8)"
  have p0: "?bin ?pa"
  proof (rule foldl_invariant [where P = ?bin])
    fix a b :: u8 assume "?bin a"
    then show "?bin (a XOR (b AND 1))" by (rule x) (rule one)
  qed simp
  have "?bin ?p"
  proof (rule foldl_invariant [where P = ?bin, OF p0])
    fix a i assume "i \<in> set [0..<7]" and "?bin a"
    then show "?bin (a XOR ?r ! i)" using zero_one_nth [of ?r i] r by (intro x) auto
  qed
  then have "length (?r[7 := ?p]) = 8 \<and> zero_one (?r[7 := ?p])" using r by (auto intro: zero_one_update)
  moreover have "speech_crc bits = Ok (?r[7 := ?p])" using assms by (simp only: speech_crc_def asserting_simps Let_def simp_thms)
  ultimately show ?thesis by blast
qed

section \<open>Unequal protection\<close>

text \<open>The protected bits: class 1, then class 2 with its checksum and tail, through one encoder.\<close>

definition tail2 :: "bool list \<Rightarrow> bool list \<Rightarrow> bool list" where
  "tail2 d cr = d @ cr @ [False, False, False, False]"

definition punctured :: "RcpcPunctMode \<Rightarrow> nat \<Rightarrow> bool list \<Rightarrow> u8 list \<Rightarrow> bool" where
  "punctured pu n mother p \<longleftrightarrow> length p = n \<and> (\<forall>j \<in> {1..n}. p ! (j - 1) = of_bool (mother ! (punct_pos pu j - 1)))"

lemma punctured_rate:
  assumes "well_punctured pu n (length mother)"
  shows "\<exists>p. get_punctured_rate pu (map of_bool mother) (replicate n 0) = Ok p \<and> punctured pu n mother p \<and> zero_one p"
proof -
  from punctured_spec [of pu n "map of_bool mother" "replicate n 0"] assms obtain p
    where p: "get_punctured_rate pu (map of_bool mother) (replicate n 0) = Ok p" "length p = n"
      "\<forall>j \<in> {1..n}. p ! (j - 1) = map of_bool mother ! (punct_pos pu j - 1)" by auto
  have "p ! (j - 1) = of_bool (mother ! (punct_pos pu j - 1))" if "j \<in> {1..n}" for j
  proof -
    have "punct_pos pu j - 1 < length mother" using well_puncturedD [OF assms that] by linarith
    then show ?thesis using p(3) that by simp
  qed
  moreover have "zero_one p"
    using assign_loop_set [OF p(1) [unfolded get_punctured_rate_def]] by (auto simp: zero_one_def)
  ultimately show ?thesis using p by (auto simp: punctured_def)
qed

lemma depunctured:
  assumes "well_punctured pu n (length mother)" and "punctured pu n mother p"
  shows "\<exists>r. tetra_rcpc_depunct pu p n (replicate (length mother) 0xff) = Ok r \<and> length r = length mother \<and>
    (\<forall>q < length mother. r ! q = (if kept pu n q then of_bool (mother ! q) else 0xff))"
proof -
  have src: "p ! (j - 1) = map of_bool mother ! (punct_pos pu j - 1)" if "j \<in> {1..n}" for j
  proof -
    have "punct_pos pu j - 1 < length mother" using well_puncturedD [OF assms(1) that] by linarith
    then show ?thesis using assms(2) that by (simp add: punctured_def)
  qed
  have "well_punctured pu n (length (replicate (length mother) (0xff :: u8)))" "n \<le> length p"
    using assms by (simp_all add: punctured_def)
  from depunct_spec [OF this src] obtain r
    where r: "tetra_rcpc_depunct pu p n (replicate (length mother) 0xff) = Ok r" "length r = length mother"
      "\<forall>q < length mother. r ! q = (if kept pu n q then map of_bool mother ! q else replicate (length mother) 0xff ! q)" by auto
  have "r ! q = (if kept pu n q then of_bool (mother ! q) else 0xff)" if "q < length mother" for q
    using r(3) that by (cases "kept pu n q") simp_all
  with r show ?thesis by blast
qed

lemma slice_append: "length xs = a \<Longrightarrow> length ys = n \<Longrightarrow> slice a n (xs @ ys @ zs) = ys"
  by (simp add: slice_def)

lemma overwrite_fill: "length xs = p \<Longrightarrow> length ys \<le> n \<Longrightarrow> overwrite (xs @ replicate n z) p ys = xs @ ys @ replicate (n - length ys) z"
  by (simp add: overwrite_def)

lemma reg_new: "SpeechConvEncState_new = \<lparr>sp_delayed = reg_of 0\<rparr>"
  by (simp add: SpeechConvEncState_new_def reg_of_def reg_bits_def)

lemma overwrite_zeros: "overwrite (replicate n z) 0 xs = xs @ replicate (n - length xs) z"
  by (simp add: overwrite_def)

lemma protect_spec:
  assumes l: "length a = 102" "length b = 112" "length d = 60" and crc: "speech_crc (map of_bool d) = Ok (map of_bool cr)" "length cr = 8"
  shows "\<exists>p1 p2. protect_speech (map of_bool (a @ b @ d)) = Ok (map of_bool a @ p1 @ p2) \<and>
    punctured Rate112_168 168 (encode_bits speech_out 0 b) p1 \<and> zero_one p1 \<and>
    punctured Rate72_162 162 (encode_bits speech_out (final_state 0 b) (tail2 d cr)) p2 \<and> zero_one p2"
proof -
  let ?m1 = "encode_bits speech_out 0 b" and ?m2 = "encode_bits speech_out (final_state 0 b) (tail2 d cr)"
  have m: "length ?m1 = 336" "length ?m2 = 216" using l crc(2) by (simp_all add: length_encode_bits tail2_def)
  obtain p1 where p1: "get_punctured_rate Rate112_168 (map of_bool ?m1) (replicate 168 0) = Ok p1" "punctured Rate112_168 168 ?m1 p1" "zero_one p1"
    using punctured_rate [of Rate112_168 168 ?m1] well_punctured_8_12 [of 168 336] m by auto
  obtain p2 where p2: "get_punctured_rate Rate72_162 (map of_bool ?m2) (replicate 162 0) = Ok p2" "punctured Rate72_162 162 ?m2 p2" "zero_one p2"
    using punctured_rate [of Rate72_162 162 ?m2] well_punctured_8_18 [of 162 216] m by auto
  have lp: "length p1 = 168" "length p2 = 162" using p1(2) p2(2) by (simp_all add: punctured_def)
  have e1: "speech_encode (map of_bool b) (replicate 336 0) SpeechConvEncState_new = Ok (map of_bool ?m1, \<lparr>sp_delayed = reg_of (final_state 0 b)\<rparr>)"
    using speech_encode_spec [of 0 b "replicate 336 0"] l(2) by (simp add: reg_new)
  have e2: "speech_encode (map of_bool (tail2 d cr)) (replicate 216 0) \<lparr>sp_delayed = reg_of (final_state 0 b)\<rparr> =
      Ok (map of_bool ?m2, \<lparr>sp_delayed = reg_of (final_state (final_state 0 b) (tail2 d cr))\<rparr>)"
    using speech_encode_spec [of "final_state 0 b" "tail2 d cr" "replicate 216 0"] l(3) crc(2) by (simp add: tail2_def)
  have s: "take 102 (map of_bool (a @ b @ d)) = (map of_bool a :: u8 list)" "slice 102 112 (map of_bool (a @ b @ d)) = (map of_bool b :: u8 list)"
    "slice (102 + 112) 60 (map of_bool (a @ b @ d)) = (map of_bool d :: u8 list)" using l by (simp_all add: slice_def)
  have t2: "overwrite (overwrite (replicate 72 0) 0 (map of_bool d)) 60 (map of_bool cr) = (map of_bool (tail2 d cr) :: u8 list)"
    using l(3) crc(2) by (simp add: overwrite_zeros overwrite_fill tail2_def replicate_eq_4)
  have o: "overwrite (overwrite (overwrite (replicate 432 0) 0 (map of_bool a)) 102 p1) (102 + 168) p2 = map of_bool a @ p1 @ p2"
    using l(1) lp by (simp add: overwrite_zeros overwrite_fill) (simp add: overwrite_def)
  have "protect_speech (map of_bool (a @ b @ d)) = Ok (map of_bool a @ p1 @ p2)"
    unfolding protect_speech_def Let_def MAX_TYPE345_BITS_def CLASS0_BITS_def CLASS1_BITS_def CLASS2_BITS_def CLASS2_TYPE2_def s
    using e1 e2 p1(1) p2(1) crc(1) t2 o by (simp del: map_append)
  with p1 p2 show ?thesis by blast
qed

lemma unprotect_spec:
  assumes l: "length a = 102" "length b = 112" "length d = 60" and crc: "speech_crc (map of_bool d) = Ok (map of_bool cr)" "length cr = 8"
    and p1: "punctured Rate112_168 168 (encode_bits speech_out 0 b) p1"
    and p2: "punctured Rate72_162 162 (encode_bits speech_out (final_state 0 b) (tail2 d cr)) p2"
  shows "unprotect_speech (map of_bool a @ p1 @ p2) = Ok (map of_bool (a @ b @ d), True)"
proof -
  let ?m1 = "encode_bits speech_out 0 b" and ?m2 = "encode_bits speech_out (final_state 0 b) (tail2 d cr)" and ?m = "b @ tail2 d cr"
  have m: "length ?m1 = 336" "length ?m2 = 216" "?m1 @ ?m2 = encode_bits speech_out 0 ?m" "length ?m = 184"
    using l crc(2) by (simp_all add: length_encode_bits tail2_def encode_bits_append)
  have lp: "length p1 = 168" "length p2 = 162" using p1 p2 by (simp_all add: punctured_def)
  obtain r1 where r1: "tetra_rcpc_depunct Rate112_168 p1 168 (replicate 336 0xff) = Ok r1" "length r1 = 336"
      "\<forall>q < 336. r1 ! q = (if kept Rate112_168 168 q then of_bool (?m1 ! q) else 0xff)"
    using depunctured [OF _ p1] well_punctured_8_12 [of 168 336] m(1) by auto
  obtain r2 where r2: "tetra_rcpc_depunct Rate72_162 p2 162 (replicate 216 0xff) = Ok r2" "length r2 = 216"
      "\<forall>q < 216. r2 ! q = (if kept Rate72_162 162 q then of_bool (?m2 ! q) else 0xff)"
    using depunctured [OF _ p2] well_punctured_8_18 [of 162 216] m(2) by auto
  let ?xs = "map soft_bit (r1 @ r2)"
  have lx: "length ?xs = 3 * length ?m" using r1(2) r2(2) m(4) by simp
  have x1: "?xs ! q = (if kept Rate112_168 168 q then sgn_bit (?m1 ! q) else 0)" if "q < 336" for q
    using that r1(2,3) by (simp add: nth_append soft_bit_of)
  have x2: "?xs ! (336 + q) = (if kept Rate72_162 162 q then sgn_bit (?m2 ! q) else 0)" if "q < 216" for q
    using that r1(2) r2(2,3) by (simp add: nth_append soft_bit_of)
  have "received_as speech_out 3 0 ?m (chunks_exact 3 ?xs)"
  proof (rule received_chunks)
    show "\<forall>q < 3 * length ?m. ?xs ! q = 0 \<or> ?xs ! q = sgn_bit (encode_bits speech_out 0 ?m ! q)"
    proof (intro allI impI)
      fix q assume "q < 3 * length ?m"
      then show "?xs ! q = 0 \<or> ?xs ! q = sgn_bit (encode_bits speech_out 0 ?m ! q)"
        using x1 [of q] x2 [of "q - 336"] m(4) unfolding m(3) [symmetric] by (cases "q < 336") (simp_all add: nth_append m(1) split: if_splits)
    qed
    show "\<forall>k < length ?m. ?xs ! (3 * k) \<noteq> 0"
    proof (intro allI impI)
      fix k assume k: "k < length ?m"
      show "?xs ! (3 * k) \<noteq> 0"
      proof (cases "k < 112")
        case True
        then show ?thesis using x1 [of "3 * k"] kept_8_12 [of 168 112 k] by simp
      next
        case False
        then have "336 + 3 * (k - 112) = 3 * k" by simp
        then show ?thesis using x2 [of "3 * (k - 112)"] kept_8_18 [of 162 72 "k - 112"] False k m(4) by simp
      qed
    qed
  qed (use lx in simp_all)
  moreover have "final_state 0 ?m = 0"
    unfolding tail2_def final_state_simps(3) by (rule tail_final_state) simp
  ultimately have dec: "decode TetraCodecViterbiDecoder_new 3 ?xs = map of_bool ?m"
    using decode_clean [OF speech_table refl] m(4) by simp
  have s: "take 102 (map of_bool a @ p1 @ p2) = map of_bool a" "slice 102 168 (map of_bool a @ p1 @ p2) = p1"
    "slice (102 + 168) 162 (map of_bool a @ p1 @ p2) = p2" using l lp by (simp_all add: slice_def)
  have parts: "take 112 (map of_bool ?m) = (map of_bool b :: u8 list)" "take 60 (drop 112 (map of_bool ?m)) = (map of_bool d :: u8 list)"
    "slice 60 8 (drop 112 (map of_bool ?m)) = (map of_bool cr :: u8 list)" using l crc(2) by (simp_all add: slice_def tail2_def)
  have o: "overwrite (overwrite (overwrite (replicate 274 0) 0 (map of_bool a)) 102 (map of_bool b)) (102 + 112) (map of_bool d) =
      (map of_bool (a @ b @ d) :: u8 list)"
    using l by (simp add: overwrite_zeros overwrite_fill) (simp add: overwrite_def)
  show ?thesis
    unfolding unprotect_speech_def Let_def MAX_TYPE1_BITS_def CLASS0_BITS_def CLASS1_BITS_def CLASS2_BITS_def CLASS2_TYPE2_def
      CLASS1_TYPE3_def CLASS2_TYPE3_def s
    using r1(1) r2(1) dec parts crc(1) o by (simp del: map_append)
qed

section \<open>The whole chain\<close>

lemma reorder_zero_one: "codec_to_channel xs = Ok c \<Longrightarrow> zero_one xs \<Longrightarrow> zero_one c"
  using assign_loop_set [of reorder_indices fst snd xs "replicate 274 0" c] by (auto simp: codec_to_channel_def zero_one_def)

lemma split_274:
  assumes "length c = 274"
  shows "\<exists>a b d. c = a @ b @ d \<and> length a = 102 \<and> length b = 112 \<and> length d = 60"
proof (intro exI conjI)
  have "drop 102 c = take 112 (drop 102 c) @ drop 112 (drop 102 c)" by (rule append_take_drop_id [symmetric])
  then show "c = take 102 c @ take 112 (drop 102 c) @ drop 112 (drop 102 c)" by (metis append_take_drop_id)
qed (use assms in simp_all)

lemma speech_roundtrip:
  assumes b: "bb_inv blk" "get_len blk = 274"
  shows "\<exists>t5 r. encode_tp \<lparr>rq_mac_block = blk, rq_logical_channel = TchS, rq_scrambling_code = code\<rparr> 1 = Ok t5 \<and> get_len t5 = 432 \<and>
    decode_tp TchS t5 code = Ok (Some r, True) \<and> window r = window blk"
proof -
  let ?w = "window blk" and ?b = "blk\<lparr>bb_pos := bb_start blk\<rparr>"
  have lw: "length ?w = 274" using length_window [OF b(1)] b(2) by simp
  obtain c where c: "codec_to_channel (map of_bool ?w) = Ok c" "length c = 274" "channel_to_codec c = Ok (map of_bool ?w)"
    using reorder_roundtrip [of "map of_bool ?w"] lw by auto
  have zc: "zero_one c" using reorder_zero_one [OF c(1)] set_of_bool unfolding zero_one_def by blast
  obtain x y d where xyd: "map (\<lambda>v. v = 1) c = x @ y @ d" "length x = 102" "length y = 112" "length d = 60"
    using split_274 [of "map (\<lambda>v. v = 1) c"] c(2) by auto
  have cb: "c = map of_bool (x @ y @ d)" using zero_one_bits [OF zc] xyd(1) by simp
  obtain k where k: "speech_crc (map of_bool d) = Ok k" "length k = 8" "zero_one k" using speech_crc_spec [of "map of_bool d"] xyd(4) by auto
  let ?k = "map (\<lambda>v. v = 1) k"
  have crc: "speech_crc (map of_bool d) = Ok (map of_bool ?k)" "length ?k = 8" using k zero_one_bits [OF k(3)] by simp_all
  obtain p1 p2 where p: "protect_speech c = Ok (map of_bool x @ p1 @ p2)"
      "punctured Rate112_168 168 (encode_bits speech_out 0 y) p1" "zero_one p1"
      "punctured Rate72_162 162 (encode_bits speech_out (final_state 0 y) (tail2 d ?k)) p2" "zero_one p2"
    using protect_spec [OF xyd(2-4) crc] cb by auto
  let ?t3 = "map of_bool x @ p1 @ p2"
  have t3: "length ?t3 = 432" "zero_one ?t3" using p xyd(2) by (auto simp: punctured_def zero_one_def)
  obtain m r3 where m: "matrix_interleave 24 18 ?t3 (replicate 432 0) = Ok m" "length m = 432"
      "matrix_deinterleave 24 18 m (replicate 432 0) = Ok r3" "take 432 r3 = take 432 ?t3" "drop 432 r3 = []"
    using matrix_roundtrip [of 432 24 18 ?t3 "replicate 432 0" "replicate 432 0"] t3 by auto
  have r3: "r3 = ?t3" using m(4,5) t3(1) by (metis append_Nil2 append_take_drop_id order.refl take_all)
  have zm: "zero_one m"
  proof -
    have "assign_loop (grid 24 18) (\<lambda>(i, j). i * 24 + j) (\<lambda>(i, j). j * 18 + i) ?t3 (replicate 432 0) = Ok m"
      using m(1) t3(1) by (simp add: matrix_interleave_def)
    from assign_loop_set [OF this] t3(2) show ?thesis unfolding zero_one_def by force
  qed
  obtain b4 where b4: "from_bitarr m = Ok b4" "bb_inv b4" "bb_start b4 = 0" "bb_pos b4 = 0" "unread b4 = map (\<lambda>v. v = 1) m"
    using from_bitarr_buffer [of m] zm m(2) by (auto simp: zero_one_def)
  obtain t5 where t5: "tetra_scramb_bits code b4 = Ok ((), t5)" "bb_inv t5" "bb_start t5 = 0" "bb_pos t5 = 0"
      "unread t5 = xor_bits (map (\<lambda>v. v = 1) m) (keystream 432 code)"
    using scramb_unread [OF b4(2), of code] b4 m(2) by auto
  have arr: "to_bitarr 274 ?b = Ok (map of_bool ?w, ?b\<lparr>bb_pos := bb_pos ?b + 274\<rparr>)"
    using to_bitarr_spec [of ?b 274] seek_0_window [OF b(1)] lw by simp
  have len: "get_len ?b = 274" using b(2) by (simp add: get_len_def)
  have o1: "overwrite (replicate 274 0) 0 (map of_bool ?w) = (map of_bool ?w :: u8 list)" "overwrite (map of_bool ?w) 0 c = c"
    using lw c(2) by (simp_all add: overwrite_def)
  have enc: "encode_tp \<lparr>rq_mac_block = blk, rq_logical_channel = TchS, rq_scrambling_code = code\<rparr> 1 = Ok t5"
    using seek_0_spec [OF b(1)] arr len o1 c(1) p(1) m(1,2) b4(1) t5(1) lw
    by (simp add: encode_tp_def Let_def TCH_S_PARAMS_def MAX_TYPE1_BITS_def MAX_TYPE345_BITS_def)
  have l5: "length (unread t5) = 432" using t5(5) m(2) by simp
  obtain s4 where s4: "tetra_scramb_bits code t5 = Ok ((), s4)" "bb_inv s4" "bb_start s4 = 0" "bb_pos s4 = 0" "unread s4 = map (\<lambda>v. v = 1) m"
    using scramb_unread [OF t5(2), of code] t5 l5 m(2) by auto
  have s0: "s4\<lparr>bb_pos := bb_start s4\<rparr> = s4" using s4(3,4) by simp
  have arr2: "to_bitarr 432 s4 = Ok (m, s4\<lparr>bb_pos := bb_pos s4 + 432\<rparr>)"
    using to_bitarr_spec [OF s4(2), of 432] s4(5) m(2) zero_one_bits [OF zm] by simp
  have o2: "overwrite (replicate 432 0) 0 m = m" using m(2) by (simp add: overwrite_def)
  obtain r where r: "from_bitarr (map of_bool ?w) = Ok r" "bb_inv r" "bb_start r = 0" "bb_pos r = 0" "unread r = ?w"
    using from_bitarr_buffer [OF set_of_bool [of ?w]] lw by (auto simp: comp_def)
  have dec: "decode_tp TchS t5 code = Ok (Some r, True)"
    using s4(1) seek_0_spec [OF s4(2)] s0 arr2 o2 m(3) r3 unprotect_spec [OF xyd(2-4) crc p(2,4)] cb c r(1)
    by (simp add: decode_tp_def Let_def TCH_S_PARAMS_def MAX_TYPE345_BITS_def)
  have "get_len t5 = 432" using length_unread [OF t5(2)] l5 t5 by (simp add: get_len_def get_len_remaining_def)
  moreover have "window r = ?w" using r by (simp add: unread_def window_def)
  ultimately show ?thesis using enc dec by blast
qed

end
