(* ===== verification/Lmac_Properties.thy ===== *)
theory Lmac_Properties
  imports Speech_Spec
begin

text \<open>Properties of the lower MAC's channel coding, each with a witness.\<close>

text \<open>C3. Control channels: for every signalling channel and every MAC block of its size, decoding the encoded block with the same
  scrambling code (the default one for a synchronisation block) returns the block's bits with the checksum found right. This composes the
  checksum, the convolutional code with its Viterbi decoder, puncturing, interleaving and scrambling.\<close>

theorem control_channel_roundtrip:
  assumes "is_control_channel c" and "c \<noteq> Aach" and "get_params c = Ok p" and "bb_inv blk" and "get_len blk = type1_bits p"
    and "(if bt = SB1 then Some SCRAMB_INIT else dsc) = Some code"
  shows "\<exists>t5 r. encode_cp \<lparr>rq_mac_block = blk, rq_logical_channel = c, rq_scrambling_code = code\<rparr> = Ok t5 \<and>
    get_len t5 = type345_bits p \<and> decode_cp c bt t5 dsc = Ok (Some r, True) \<and> window r = window blk"
  using assms by (rule cp_roundtrip)

theorem control_channel_roundtrip_witness:
  "\<exists>t5 r. encode_cp \<lparr>rq_mac_block = BitBuffer_new 60, rq_logical_channel = Bsch, rq_scrambling_code = 3\<rparr> = Ok t5 \<and>
    get_len t5 = 120 \<and> decode_cp Bsch SB1 t5 None = Ok (Some r, True) \<and> window r = window (BitBuffer_new 60)"
  using control_channel_roundtrip [of Bsch BSCH_PARAMS "BitBuffer_new 60" SB1 None 3]
  by (simp add: is_control_channel_def BSCH_PARAMS_def SCRAMB_INIT_def get_len_def) (simp add: BitBuffer_new_def)

text \<open>C6. Speech: a frame of 274 codec bits is returned unchanged by the decoder, with the checksum of its class 2 bits right; all three
  protection classes, the running encoder across classes and the bit reordering are covered.\<close>

theorem speech_frame_roundtrip:
  assumes "bb_inv blk" and "get_len blk = 274"
  shows "\<exists>t5 r. encode_tp \<lparr>rq_mac_block = blk, rq_logical_channel = TchS, rq_scrambling_code = code\<rparr> 1 = Ok t5 \<and> get_len t5 = 432 \<and>
    decode_tp TchS t5 code = Ok (Some r, True) \<and> window r = window blk"
  using assms by (rule speech_roundtrip)

theorem speech_frame_roundtrip_witness:
  "\<exists>t5 r. encode_tp \<lparr>rq_mac_block = BitBuffer_new 274, rq_logical_channel = TchS, rq_scrambling_code = 77\<rparr> 1 = Ok t5 \<and>
    decode_tp TchS t5 77 = Ok (Some r, True) \<and> window r = window (BitBuffer_new 274)"
proof -
  have "get_len (BitBuffer_new 274) = 274" by (simp add: get_len_def BitBuffer_new_def)
  with speech_frame_roundtrip [of "BitBuffer_new 274" 77] show ?thesis by auto
qed

text \<open>C8. Access assignment: the 14 bits are recovered from the 30 transmitted bits even when any one of them is received wrong.\<close>

theorem access_assignment_corrects_one_error:
  assumes "bb_inv b" and "length (unread b) = 14" and "encode_aach b code = Ok t5"
    and "bb_inv t" and "bb_start t = 0" and "bb_pos t = 0" and "one_error (unread t5) (unread t)"
  shows "\<exists>r. decode_aach t code = Ok r \<and> bb_inv r \<and> window r = unread b"
  using assms by (rule aach_roundtrip)

theorem access_assignment_corrects_one_error_witness:
  "\<exists>t5 t r. encode_aach (BitBuffer_new 14) 3 = Ok t5 \<and> unread t = (unread t5)[7 := \<not> unread t5 ! 7] \<and>
    decode_aach t 3 = Ok r \<and> window r = replicate 14 False"
proof -
  have u: "unread (BitBuffer_new 14) = replicate 14 False" by (simp add: unread_def content_new) (simp add: BitBuffer_new_def)
  obtain t5 where t5: "encode_aach (BitBuffer_new 14) 3 = Ok t5" "length (unread t5) = 30"
    using encode_aach_spec [of "BitBuffer_new 14" 3] u by auto
  let ?e = "(unread t5)[7 := \<not> unread t5 ! 7]"
  have e: "map (\<lambda>v. v = 1) (map of_bool ?e :: u8 list) = ?e" by (simp add: comp_def)
  have "length (map of_bool ?e :: u8 list) < 2 ^ 64" using t5(2) by simp
  from from_bitarr_buffer [OF set_of_bool this] obtain t where t: "bb_inv t" "bb_start t = 0" "bb_pos t = 0" "unread t = ?e"
    unfolding e by blast
  have "one_error (unread t5) (unread t)" unfolding one_error_def t(4) using t5(2) by (intro disjI2 exI [of _ 7]) simp
  from access_assignment_corrects_one_error [OF _ _ t5(1) t(1-3) this] u t t5 show ?thesis by auto
qed

text \<open>C7. The Viterbi decoder of the control channels is a maximum likelihood decoder for the encoder's code. Of any received bytes (0 and
  1 are bits, every other value is an erasure), up to the 864 symbols for which it has room, it returns a message that leaves the
  encoder in its initial state, and the code word the encoder gives for it differs from what was received in no more bits, erased
  ones apart, than the code word of any other message of that length that leaves the encoder in its initial state.\<close>

theorem viterbi_maximum_likelihood:
  assumes "n \<le> 864" and "4 * n \<le> length in_buf" and "n \<le> length out_buf"
  shows "\<exists>bs c. length bs = n \<and> dec_sb1 in_buf out_buf n = Ok (overwrite out_buf 0 (map of_bool bs)) \<and>
    encode (map of_bool bs) (replicate (4 * n) 0) ConvEncState_new = Ok (c, ConvEncState_new) \<and>
    (\<forall>bs' c'. length bs' = n \<and> encode (map of_bool bs') (replicate (4 * n) 0) ConvEncState_new = Ok (c', ConvEncState_new) \<longrightarrow>
       bit_distance (take (4 * n) in_buf) c \<le> bit_distance (take (4 * n) in_buf) c')"
  using dec_sb1_nearest [OF assms] encode_terminated by (metis (no_types, lifting))

theorem viterbi_maximum_likelihood_witness:
  "\<exists>bs c. length bs = 5 \<and> dec_sb1 [1, 1, 0, 1, 1, 0, 0xff, 0xff, 0, 1, 1, 0, 0, 1, 0, 1, 1, 1, 1, 1] [0, 0, 0, 0, 0] 5 = Ok (map of_bool bs) \<and>
     encode (map of_bool bs) (replicate 20 0) ConvEncState_new = Ok (c, ConvEncState_new) \<and>
     bit_distance [1, 1, 0, 1, 1, 0, 0xff, 0xff, 0, 1, 1, 0, 0, 1, 0, 1, 1, 1, 1, 1] c \<le> 1"
proof -
  let ?r = "[1, 1, 0, 1, 1, 0, 0xff, 0xff, 0, 1, 1, 0, 0, 1, 0, 1, 1, 1, 1, 1] :: u8 list" and ?m = "[True, False, False, False, False]"
  let ?c = "[1, 1, 1, 1, 1, 0, 1, 1, 0, 1, 1, 0, 0, 1, 0, 1, 1, 1, 1, 1] :: u8 list"
  have m: "encode (map of_bool ?m) (replicate (4 * 5) 0) ConvEncState_new = Ok (?c, ConvEncState_new)" by code_simp
  have d: "bit_distance ?r ?c = 1" "take (4 * 5) ?r = ?r" by code_simp+
  obtain bs c where b: "length bs = 5" "dec_sb1 ?r [0, 0, 0, 0, 0] 5 = Ok (overwrite [0, 0, 0, 0, 0] 0 (map of_bool bs))"
    "encode (map of_bool bs) (replicate (4 * 5) 0) ConvEncState_new = Ok (c, ConvEncState_new)"
    "\<And>bs' c'. length bs' = 5 \<Longrightarrow> encode (map of_bool bs') (replicate (4 * 5) 0) ConvEncState_new = Ok (c', ConvEncState_new) \<Longrightarrow>
      bit_distance ?r c \<le> bit_distance ?r c'"
    using viterbi_maximum_likelihood [of 5 ?r "[0, 0, 0, 0, 0]"] unfolding d(2) by force
  have "overwrite [0, 0, 0, 0, 0] 0 (map of_bool bs) = (map of_bool bs :: u8 list)" using b(1) by (simp add: overwrite_def)
  moreover have "bit_distance ?r c \<le> 1" using b(4) [OF _ m] unfolding d(1) by simp
  moreover have "(4 :: nat) * 5 = 20" by simp
  ultimately show ?thesis using b(1-3) by metis
qed

text \<open>The receiver's checksum test accepts a block and its 16 trailing bits exactly when these are the complemented checksum of the
  block, so every error confined to the trailing bits is detected.\<close>

theorem crc_accepts_iff:
  assumes "length ts = 16"
  shows "crc16_ccitt_bits (map of_bool (bs @ ts)) (length bs + 16) = TETRA_CRC_OK \<longleftrightarrow>
    ts = to_bits 16 (NOT (crc16_ccitt_bits (map of_bool bs) (length bs)))"
proof -
  have "crc16_ccitt_bits (map of_bool (bs @ ts)) (length bs + 16) = crc_bits 0xffff (bs @ ts)"
    using assms by (intro crc16_ccitt_spec) simp
  moreover have "crc16_ccitt_bits (map of_bool bs) (length bs) = crc_bits 0xffff bs" by (intro crc16_ccitt_spec) simp
  ultimately show ?thesis using crc_residue_iff [OF assms] by simp
qed

theorem crc_accepts_iff_witness:
  "crc16_ccitt_bits (map of_bool ([] @ to_bits 16 (0 :: u16))) (length ([] :: bool list) + 16) = TETRA_CRC_OK"
proof -
  have "NOT (crc16_ccitt_bits (map of_bool []) (length ([] :: bool list))) = 0"
    unfolding crc16_ccitt_bits_def crc16_itut_bits_def by code_simp
  then show ?thesis using crc_accepts_iff [of "to_bits 16 (0 :: u16)" "[]"] by simp
qed

end
