(* ===== verification/Access_Assign.thy ===== *)
theory Access_Assign
  imports Umac_Pdus_Ul_Spec
begin

text \<open>
  The ACCESS-ASSIGN PDUs of the broadcast block (\<open>tetra-pdus/src/umac/pdus/access_assign.rs\<close> and
  \<open>access_assign_fr18.rs\<close>, \<open>umac/enums/access_assign_dl_usage.rs\<close> and \<open>access_assign_ul_usage.rs\<close>): fourteen bits
  that tell the mobiles who may use the uplink slot and what the downlink slot carries. Both PDUs are
  interpretations of \<open>safe_codec\<close>.
\<close>

section \<open>Usage markers\<close>

datatype AccessAssignDlUsage =
    AccessAssignDlUsage_Unallocated
  | AccessAssignDlUsage_AssignedControl
  | AccessAssignDlUsage_CommonControl
  | AccessAssignDlUsage_CommonAndAssigned
  | AccessAssignDlUsage_Traffic u8

datatype AccessAssignUlUsage =
    AccessAssignUlUsage_CommonOnly
  | AccessAssignUlUsage_CommonAndAssigned
  | AccessAssignUlUsage_AssignedOnly
  | AccessAssignUlUsage_Unallocated
  | AccessAssignUlUsage_Traffic u8

definition AccessAssignDlUsage_from_usage_marker :: "u8 \<Rightarrow> AccessAssignDlUsage" where
  "AccessAssignDlUsage_from_usage_marker field =
     (if field = 0 then AccessAssignDlUsage_Unallocated
      else if field = 1 then AccessAssignDlUsage_AssignedControl
      else if field = 2 then AccessAssignDlUsage_CommonControl
      else if field = 3 then AccessAssignDlUsage_CommonAndAssigned
      else AccessAssignDlUsage_Traffic field)"

primrec AccessAssignDlUsage_to_usage_marker :: "AccessAssignDlUsage \<Rightarrow> u8" where
  "AccessAssignDlUsage_to_usage_marker AccessAssignDlUsage_Unallocated = 0"
| "AccessAssignDlUsage_to_usage_marker AccessAssignDlUsage_AssignedControl = 1"
| "AccessAssignDlUsage_to_usage_marker AccessAssignDlUsage_CommonControl = 2"
| "AccessAssignDlUsage_to_usage_marker AccessAssignDlUsage_CommonAndAssigned = 3"
| "AccessAssignDlUsage_to_usage_marker (AccessAssignDlUsage_Traffic chan) = chan"

definition AccessAssignUlUsage_from_usage_marker :: "u8 \<Rightarrow> AccessAssignUlUsage option" where
  "AccessAssignUlUsage_from_usage_marker field =
     (if field = 0 then Some AccessAssignUlUsage_Unallocated
      else if field < 4 then None
      else Some (AccessAssignUlUsage_Traffic field))"

primrec AccessAssignUlUsage_to_usage_marker :: "AccessAssignUlUsage \<Rightarrow> u8 option" where
  "AccessAssignUlUsage_to_usage_marker AccessAssignUlUsage_Unallocated = Some 0"
| "AccessAssignUlUsage_to_usage_marker (AccessAssignUlUsage_Traffic chan) = Some chan"
| "AccessAssignUlUsage_to_usage_marker AccessAssignUlUsage_CommonOnly = None"
| "AccessAssignUlUsage_to_usage_marker AccessAssignUlUsage_CommonAndAssigned = None"
| "AccessAssignUlUsage_to_usage_marker AccessAssignUlUsage_AssignedOnly = None"

definition AccessAssignUlUsage_is_traffic :: "AccessAssignUlUsage \<Rightarrow> bool" where
  "AccessAssignUlUsage_is_traffic u = (case u of AccessAssignUlUsage_Traffic _ \<Rightarrow> True | _ \<Rightarrow> False)"

definition AccessAssignDlUsage_is_traffic :: "AccessAssignDlUsage \<Rightarrow> bool" where
  "AccessAssignDlUsage_is_traffic u = (case u of AccessAssignDlUsage_Traffic _ \<Rightarrow> True | _ \<Rightarrow> False)"

section \<open>ACCESS-ASSIGN\<close>

record AccessField =
  af_access_code :: u8
  af_base_frame_len :: u8

record AccessAssign =
  aa_header :: u8
  aa_dl_usage :: AccessAssignDlUsage
  aa_ul_usage :: AccessAssignUlUsage
  aa_f1_af1 :: "AccessField option"
  aa_f2_af2 :: "AccessField option"
  aa_f2_af :: "AccessField option"

definition AccessAssign_default :: AccessAssign where
  "AccessAssign_default =
     \<lparr>aa_header = 0, aa_dl_usage = AccessAssignDlUsage_CommonControl, aa_ul_usage = AccessAssignUlUsage_CommonOnly,
      aa_f1_af1 = None, aa_f2_af2 = None, aa_f2_af = None\<rparr>"

text \<open>The struct literal \<open>AccessField { access_code: (field >> 4) & 0x3, base_frame_len: field & 0xF }\<close>.\<close>

definition access_field :: "u8 \<Rightarrow> AccessField" where
  "access_field field = \<lparr>af_access_code = drop_bit 4 field AND 0x3, af_base_frame_len = field AND 0xF\<rparr>"

definition AccessAssign_from_bitbuf :: "AccessAssign bb" where
  "AccessAssign_from_bitbuf =
     bind (read_field 2 ''_header'') (\<lambda>header.
     bind (read_field 6 ''field1'') (\<lambda>v1.
     bind (read_field 6 ''field2'') (\<lambda>v2.
     let s = AccessAssign_default\<lparr>aa_header := ucast header\<rparr>;
         field1 = ucast v1 :: u8;
         field2 = ucast v2 :: u8
     in if aa_header s = 0 then
          ret (s\<lparr>aa_dl_usage := AccessAssignDlUsage_CommonControl, aa_ul_usage := AccessAssignUlUsage_CommonOnly,
                 aa_f1_af1 := Some (access_field field1), aa_f2_af2 := Some (access_field field2)\<rparr>)
        else if aa_header s = 1 then
          ret (s\<lparr>aa_dl_usage := AccessAssignDlUsage_from_usage_marker field1,
                 aa_ul_usage := AccessAssignUlUsage_CommonAndAssigned, aa_f2_af := Some (access_field field2)\<rparr>)
        else if aa_header s = 2 then
          ret (s\<lparr>aa_dl_usage := AccessAssignDlUsage_from_usage_marker field1,
                 aa_ul_usage := AccessAssignUlUsage_AssignedOnly, aa_f2_af := Some (access_field field2)\<rparr>)
        else if aa_header s = 3 then
          (case AccessAssignUlUsage_from_usage_marker field2 of
             Some ul_usage \<Rightarrow> ret (s\<lparr>aa_dl_usage := AccessAssignDlUsage_from_usage_marker field1, aa_ul_usage := ul_usage\<rparr>)
           | None \<Rightarrow> fail (InvalidValue ''ul_usage'' (ucast field2)))
        else panic)))"

definition DEFAULT_AF :: AccessField where
  "DEFAULT_AF = \<lparr>af_access_code = 0, af_base_frame_len = 4\<rparr>"

definition write_access_field :: "AccessField \<Rightarrow> unit bb" where
  "write_access_field af = seq [write_bits (ucast (af_access_code af)) 2, write_bits (ucast (af_base_frame_len af)) 4]"

definition AccessAssign_to_bitbuf :: "AccessAssign \<Rightarrow> unit bb" where
  "AccessAssign_to_bitbuf p =
     (if aa_dl_usage p = AccessAssignDlUsage_CommonControl \<and> aa_ul_usage p = AccessAssignUlUsage_CommonOnly then seq
        [guard (aa_f1_af1 p \<noteq> None \<and> aa_f2_af2 p \<noteq> None),
         guard (aa_f2_af p = None),
         write_bits 0 2,
         bind (unwrap (aa_f1_af1 p)) write_access_field,
         bind (unwrap (aa_f2_af2 p)) write_access_field]
      else if aa_ul_usage p = AccessAssignUlUsage_CommonAndAssigned then seq
        [write_bits 1 2,
         write_bits (ucast (AccessAssignDlUsage_to_usage_marker (aa_dl_usage p))) 6,
         write_access_field (case aa_f2_af p of Some af \<Rightarrow> af | None \<Rightarrow> DEFAULT_AF)]
      else if aa_ul_usage p = AccessAssignUlUsage_AssignedOnly then seq
        [write_bits 2 2,
         write_bits (ucast (AccessAssignDlUsage_to_usage_marker (aa_dl_usage p))) 6,
         write_access_field (case aa_f2_af p of Some af \<Rightarrow> af | None \<Rightarrow> DEFAULT_AF)]
      else seq
        [write_bits 3 2,
         bind (unwrap (AccessAssignUlUsage_to_usage_marker (aa_ul_usage p))) (\<lambda>ul_usage. seq
           [write_bits (ucast (AccessAssignDlUsage_to_usage_marker (aa_dl_usage p))) 6,
            write_bits (ucast ul_usage) 6])])"

section \<open>ACCESS-ASSIGN in frame 18\<close>

record AccessAssignFr18 =
  ab_header :: u8
  ab_ul_usage :: AccessAssignUlUsage
  ab_f1_af1 :: "AccessField option"
  ab_f1_traf_um :: "AccessAssignUlUsage option"
  ab_f2_af2 :: "AccessField option"
  ab_f2_af :: "AccessField option"

definition AccessAssignFr18_default :: AccessAssignFr18 where
  "AccessAssignFr18_default =
     \<lparr>ab_header = 0, ab_ul_usage = AccessAssignUlUsage_CommonOnly, ab_f1_af1 = None, ab_f1_traf_um = None,
      ab_f2_af2 = None, ab_f2_af = None\<rparr>"

definition AccessAssignFr18_from_bitbuf :: "AccessAssignFr18 bb" where
  "AccessAssignFr18_from_bitbuf =
     bind (read_field 2 ''_header'') (\<lambda>header.
     bind (read_field 6 ''field1'') (\<lambda>v1.
     bind (read_field 6 ''field2'') (\<lambda>v2.
     let s = AccessAssignFr18_default\<lparr>ab_header := ucast header\<rparr>;
         field1 = ucast v1 :: u8;
         field2 = ucast v2 :: u8
     in if ab_header s = 0 then
          ret (s\<lparr>ab_ul_usage := AccessAssignUlUsage_CommonOnly,
                 ab_f1_af1 := Some (access_field field1), ab_f2_af2 := Some (access_field field2)\<rparr>)
        else if ab_header s = 1 then
          ret (s\<lparr>ab_ul_usage := AccessAssignUlUsage_CommonAndAssigned,
                 ab_f1_af1 := Some (access_field field1), ab_f2_af2 := Some (access_field field2)\<rparr>)
        else if ab_header s = 2 then
          ret (s\<lparr>ab_ul_usage := AccessAssignUlUsage_AssignedOnly,
                 ab_f1_af1 := Some (access_field field1), ab_f2_af2 := Some (access_field field2)\<rparr>)
        else if ab_header s = 3 then
          (case AccessAssignUlUsage_from_usage_marker field1 of
             Some ul_usage \<Rightarrow>
               if \<not> AccessAssignUlUsage_is_traffic ul_usage then fail (InvalidValue ''ul_usage'' (ucast field1))
               else ret (s\<lparr>ab_ul_usage := ul_usage, ab_f2_af := Some (access_field field2)\<rparr>)
           | None \<Rightarrow> fail (InvalidValue ''ul_usage'' (ucast field1)))
        else panic)))"

definition AccessAssignFr18_write_fields :: "u64 \<Rightarrow> AccessAssignFr18 \<Rightarrow> unit bb" where
  "AccessAssignFr18_write_fields header p = seq
     [write_bits header 2,
      bind (unwrap (ab_f1_af1 p)) write_access_field,
      bind (unwrap (ab_f2_af2 p)) write_access_field,
      guard (ab_f2_af p = None)]"

definition AccessAssignFr18_to_bitbuf :: "AccessAssignFr18 \<Rightarrow> unit bb" where
  "AccessAssignFr18_to_bitbuf p =
     (if ab_ul_usage p = AccessAssignUlUsage_CommonOnly then AccessAssignFr18_write_fields 0 p
      else if ab_ul_usage p = AccessAssignUlUsage_CommonAndAssigned then AccessAssignFr18_write_fields 1 p
      else if ab_ul_usage p = AccessAssignUlUsage_AssignedOnly then AccessAssignFr18_write_fields 2 p
      else if AccessAssignUlUsage_is_traffic (ab_ul_usage p) then seq
        [write_bits 3 2,
         bind (unwrap (AccessAssignUlUsage_to_usage_marker (ab_ul_usage p))) (\<lambda>u. write_bits (ucast u) 6),
         bind (unwrap (ab_f2_af p)) write_access_field,
         guard (ab_f1_af1 p = None),
         guard (ab_f2_af2 p = None)]
      else panic)"

section \<open>Codecs\<close>

definition wf_af :: "AccessField \<Rightarrow> bool" where
  "wf_af af \<longleftrightarrow> fits 2 (af_access_code af) \<and> fits 4 (af_base_frame_len af)"

definition enc_af :: "AccessField \<Rightarrow> bool list" where
  "enc_af af = to_bits 2 (ucast (af_access_code af) :: u64) @ to_bits 4 (ucast (af_base_frame_len af) :: u64)"

lemma length_enc_af [simp]: "length (enc_af af) = 6"
  by (simp add: enc_af_def)

text \<open>The reader takes both parts as one six-bit field and takes it apart again.\<close>

lemma access_field_enc:
  assumes "wf_af af"
  shows "access_field (ucast (of_bits (enc_af af) :: u64)) = af"
proof -
  let ?v = "of_bits (enc_af af) :: u64" and ?a = "af_access_code af" and ?b = "af_base_frame_len af"
  have v: "?v = push_bit 4 (ucast ?a) OR ucast ?b"
    using assms unfolding enc_af_def by (simp add: of_bits_append wf_af_def)
  have m: "w AND 0x3 = take_bit 2 w" "w AND 0xF = take_bit 4 w" for w :: u8
    by (simp_all add: take_bit_eq_mask mask_eq_exp_minus_1)
  have "drop_bit 4 (ucast ?v :: u8) AND 0x3 = ?a"
    using assms unfolding v m wf_af_def fits_iff
    by (intro bit_word_eqI) (auto simp: bit_simps not_le [symmetric])
  moreover have "(ucast ?v :: u8) AND 0xF = ?b"
    using assms unfolding v m wf_af_def fits_iff
    by (intro bit_word_eqI) (auto simp: bit_simps not_le [symmetric])
  ultimately show ?thesis by (simp add: access_field_def)
qed

definition wf_dl_usage :: "AccessAssignDlUsage \<Rightarrow> bool" where
  "wf_dl_usage u \<longleftrightarrow> (case u of AccessAssignDlUsage_Traffic m \<Rightarrow> 4 \<le> m \<and> m < 64 | _ \<Rightarrow> True)"

lemma dl_usage_marker_fits: "wf_dl_usage u \<Longrightarrow> fits 6 (AccessAssignDlUsage_to_usage_marker u)"
  by (cases u) (simp_all add: wf_dl_usage_def fits_unat word_less_nat_alt)

lemma dl_usage_marker_back:
  "wf_dl_usage u \<Longrightarrow> AccessAssignDlUsage_from_usage_marker (AccessAssignDlUsage_to_usage_marker u) = u"
  by (cases u) (auto simp: wf_dl_usage_def AccessAssignDlUsage_from_usage_marker_def word_le_nat_alt)

lemmas dl_usage_marker = dl_usage_marker_fits dl_usage_marker_back

lemma ul_traffic_marker:
  "4 \<le> m \<Longrightarrow> AccessAssignUlUsage_from_usage_marker m = Some (AccessAssignUlUsage_Traffic m)"
  "m < 64 \<Longrightarrow> fits 6 m" for m :: u8
  by (auto simp: AccessAssignUlUsage_from_usage_marker_def fits_unat word_less_nat_alt word_le_nat_alt)

lemma emits_access_field: "wf_af af \<Longrightarrow> emits (write_access_field af) (enc_af af)"
  unfolding write_access_field_def enc_af_def wf_af_def
  by (intro emits_seq_Cons emits_seq_last emits_write_bits) simp_all

lemma seq_ret [simp]: "seq (ret () # ms) = seq ms"
  by simp

lemma bind_ret_unit [simp]: "bind m (\<lambda>_. ret ()) = m" for m :: "unit bb"
  using bind_ret_right [of m] by (simp add: bind_def fun_eq_iff ret_def)

lemma parses_af_bind:
  "parses_on (f (of_bits (enc_af af))) ys rest y \<Longrightarrow> parses_on (bind (read_field 6 s) f) (enc_af af @ ys) rest y"
  by (rule parses_bind [OF parses_read_field]) simp_all

lemma parses_af_last:
  "parses_on (f (of_bits (enc_af af))) [] rest y \<Longrightarrow> parses_on (bind (read_field 6 s) f) (enc_af af) rest y"
  by (rule parses_bind_last [OF parses_read_field]) simp_all

definition AccessAssign_wf :: "AccessAssign \<Rightarrow> bool" where
  "AccessAssign_wf p \<longleftrightarrow>
     (case aa_ul_usage p of
        AccessAssignUlUsage_CommonOnly \<Rightarrow>
          aa_header p = 0 \<and> aa_dl_usage p = AccessAssignDlUsage_CommonControl \<and> aa_f2_af p = None \<and>
          (case (aa_f1_af1 p, aa_f2_af2 p) of (Some a, Some b) \<Rightarrow> wf_af a \<and> wf_af b | _ \<Rightarrow> False)
      | AccessAssignUlUsage_CommonAndAssigned \<Rightarrow>
          aa_header p = 1 \<and> wf_dl_usage (aa_dl_usage p) \<and> aa_f1_af1 p = None \<and> aa_f2_af2 p = None \<and>
          (case aa_f2_af p of Some a \<Rightarrow> wf_af a | None \<Rightarrow> False)
      | AccessAssignUlUsage_AssignedOnly \<Rightarrow>
          aa_header p = 2 \<and> wf_dl_usage (aa_dl_usage p) \<and> aa_f1_af1 p = None \<and> aa_f2_af2 p = None \<and>
          (case aa_f2_af p of Some a \<Rightarrow> wf_af a | None \<Rightarrow> False)
      | AccessAssignUlUsage_Unallocated \<Rightarrow>
          aa_header p = 3 \<and> wf_dl_usage (aa_dl_usage p) \<and> aa_f1_af1 p = None \<and> aa_f2_af2 p = None \<and> aa_f2_af p = None
      | AccessAssignUlUsage_Traffic m \<Rightarrow> 4 \<le> m \<and> m < 64 \<and>
          aa_header p = 3 \<and> wf_dl_usage (aa_dl_usage p) \<and> aa_f1_af1 p = None \<and> aa_f2_af2 p = None \<and> aa_f2_af p = None)"

definition enc_dl_usage :: "AccessAssignDlUsage \<Rightarrow> bool list" where
  "enc_dl_usage u = to_bits 6 (ucast (AccessAssignDlUsage_to_usage_marker u) :: u64)"

definition AccessAssign_enc :: "AccessAssign \<Rightarrow> bool list" where
  "AccessAssign_enc p =
     to_bits 2 (ucast (aa_header p) :: u64) @
     (case aa_ul_usage p of
        AccessAssignUlUsage_CommonOnly \<Rightarrow> enc_af (the (aa_f1_af1 p)) @ enc_af (the (aa_f2_af2 p))
      | AccessAssignUlUsage_CommonAndAssigned \<Rightarrow> enc_dl_usage (aa_dl_usage p) @ enc_af (the (aa_f2_af p))
      | AccessAssignUlUsage_AssignedOnly \<Rightarrow> enc_dl_usage (aa_dl_usage p) @ enc_af (the (aa_f2_af p))
      | u \<Rightarrow> enc_dl_usage (aa_dl_usage p) @ to_bits 6 (ucast (the (AccessAssignUlUsage_to_usage_marker u)) :: u64))"

lemma length_AccessAssign_enc: "length (AccessAssign_enc p) = 14"
  by (simp add: AccessAssign_enc_def enc_dl_usage_def split: AccessAssignUlUsage.split)

lemmas emits_aa = emits_seq_guard emits_seq_Cons emits_seq_last emits_write_bits emits_access_field
lemmas parses_aa = parses_field_bind parses_field_last parses_af_bind parses_af_last parses_ret

interpretation AccessAssign: safe_codec AccessAssign_wf AccessAssign_enc AccessAssign_to_bitbuf AccessAssign_from_bitbuf
proof
  show "emits (AccessAssign_to_bitbuf p) (AccessAssign_enc p)" if "AccessAssign_wf p" for p
    using that unfolding AccessAssign_wf_def AccessAssign_to_bitbuf_def AccessAssign_enc_def enc_dl_usage_def
    by (cases "aa_ul_usage p")
       (auto simp: dl_usage_marker ul_traffic_marker simp del: seq.simps intro!: emits_aa split: option.splits)
  show "parses AccessAssign_from_bitbuf (AccessAssign_enc p) p" if "AccessAssign_wf p" for p
    using that unfolding AccessAssign_wf_def AccessAssign_from_bitbuf_def AccessAssign_enc_def enc_dl_usage_def
    by (cases "aa_ul_usage p")
       (auto simp: dl_usage_marker ul_traffic_marker access_field_enc AccessAssign_default_def Let_def
          AccessAssignUlUsage_from_usage_marker_def
          intro!: parsesI parses_aa split: option.splits)
  show "safe AccessAssign_from_bitbuf"
    unfolding AccessAssign_from_bitbuf_def Let_def
    by (rule safe_field_bind) (auto dest!: fits_2_cases simp: AccessAssign_default_def intro!: safe_intros)
qed

definition AccessAssignFr18_wf :: "AccessAssignFr18 \<Rightarrow> bool" where
  "AccessAssignFr18_wf p \<longleftrightarrow> ab_f1_traf_um p = None \<and>
     (case ab_ul_usage p of
        AccessAssignUlUsage_Traffic m \<Rightarrow> 4 \<le> m \<and> m < 64 \<and>
          ab_header p = 3 \<and> ab_f1_af1 p = None \<and> ab_f2_af2 p = None \<and> (case ab_f2_af p of Some a \<Rightarrow> wf_af a | None \<Rightarrow> False)
      | AccessAssignUlUsage_Unallocated \<Rightarrow> False
      | u \<Rightarrow> ab_header p = (if u = AccessAssignUlUsage_CommonOnly then 0
                            else if u = AccessAssignUlUsage_CommonAndAssigned then 1 else 2) \<and>
          ab_f2_af p = None \<and> (case (ab_f1_af1 p, ab_f2_af2 p) of (Some a, Some b) \<Rightarrow> wf_af a \<and> wf_af b | _ \<Rightarrow> False))"

definition AccessAssignFr18_enc :: "AccessAssignFr18 \<Rightarrow> bool list" where
  "AccessAssignFr18_enc p =
     to_bits 2 (ucast (ab_header p) :: u64) @
     (case ab_ul_usage p of
        AccessAssignUlUsage_Traffic m \<Rightarrow> to_bits 6 (ucast m :: u64) @ enc_af (the (ab_f2_af p))
      | _ \<Rightarrow> enc_af (the (ab_f1_af1 p)) @ enc_af (the (ab_f2_af2 p)))"

lemma length_AccessAssignFr18_enc: "length (AccessAssignFr18_enc p) = 14"
  by (simp add: AccessAssignFr18_enc_def split: AccessAssignUlUsage.split)

lemma emits_fr18_fields:
  assumes "fits 2 h" and "ab_f1_af1 p = Some a" and "ab_f2_af2 p = Some b" and "wf_af a" and "wf_af b" and "ab_f2_af p = None"
  shows "emits (AccessAssignFr18_write_fields h p) (to_bits 2 h @ enc_af a @ enc_af b)"
proof -
  have "emits (seq [write_bits h 2, write_access_field a, write_access_field b]) (to_bits 2 h @ enc_af a @ enc_af b)"
    using assms by (intro emits_aa) simp_all
  with assms show ?thesis by (simp add: AccessAssignFr18_write_fields_def)
qed

interpretation AccessAssignFr18: safe_codec AccessAssignFr18_wf AccessAssignFr18_enc AccessAssignFr18_to_bitbuf AccessAssignFr18_from_bitbuf
proof
  show "emits (AccessAssignFr18_to_bitbuf p) (AccessAssignFr18_enc p)" if "AccessAssignFr18_wf p" for p
    using that unfolding AccessAssignFr18_wf_def AccessAssignFr18_to_bitbuf_def AccessAssignFr18_enc_def
    by (cases "ab_ul_usage p")
       (auto simp: AccessAssignUlUsage_is_traffic_def ul_traffic_marker simp del: seq.simps
          intro!: emits_fr18_fields emits_aa split: option.splits, simp add: emits_access_field)
  show "parses AccessAssignFr18_from_bitbuf (AccessAssignFr18_enc p) p" if "AccessAssignFr18_wf p" for p
    using that unfolding AccessAssignFr18_wf_def AccessAssignFr18_from_bitbuf_def AccessAssignFr18_enc_def
    by (cases "ab_ul_usage p")
       (auto simp: ul_traffic_marker access_field_enc AccessAssignFr18_default_def Let_def AccessAssignUlUsage_is_traffic_def
          intro!: parsesI parses_aa split: option.splits)
  show "safe AccessAssignFr18_from_bitbuf"
    unfolding AccessAssignFr18_from_bitbuf_def Let_def
    by (rule safe_field_bind) (auto dest!: fits_2_cases simp: AccessAssignFr18_default_def intro!: safe_intros)
qed

end
