(* ===== verification/Broadcast_Pdus.thy ===== *)
theory Broadcast_Pdus
  imports Access_Assign Tdma_Time
begin

text \<open>
  The broadcast PDUs of the base station: SYNC and SYSINFO of the MAC (\<open>tetra-pdus/src/umac/pdus/mac_sync.rs\<close>,
  \<open>mac_sysinfo.rs\<close>, \<open>access_define.rs\<close> and their fields in \<open>umac/fields\<close>) and the D-MLE-SYNC and D-MLE-SYSINFO they
  carry (\<open>tetra-pdus/src/mle/pdus/d_mle_sync.rs\<close>, \<open>d_mle_sysinfo.rs\<close>, \<open>mle/fields/bs_service_details.rs\<close>). The
  codecs give the lengths that the scheduler relies on: SYNC with D-MLE-SYNC fills the 60 bits of the BSCH block,
  SYSINFO with D-MLE-SYSINFO the 124 bits of a half slot.
\<close>

section \<open>SYNC\<close>

record MacSync =
  ms_system_code :: u8
  ms_colour_code :: u8
  ms_time :: TdmaTime
  ms_sharing_mode :: u8
  ms_ts_reserved_frames :: u8
  ms_u_plane_dtx :: bool
  ms_frame_18_ext :: bool

text \<open>\<open>assert_warn!\<close> only logs. The timeslot is sent as \<open>t - 1\<close>.\<close>

definition MacSync_from_bitbuf :: "MacSync bb" where
  "MacSync_from_bitbuf =
     bind (read_field 4 ''system_code'') (\<lambda>system_code.
     bind (read_field 6 ''colour_code'') (\<lambda>colour_code.
     bind (read_field 2 ''timeslot_number'') (\<lambda>t.
     bind (read_field 5 ''frame_number'') (\<lambda>f.
     bind (read_field 6 ''multiframe_number'') (\<lambda>m.
     bind (read_field 2 ''sharing_mode'') (\<lambda>sharing_mode.
     bind (read_field 3 ''ts_reserved_frames'') (\<lambda>ts_reserved_frames.
     bind (read_field 1 ''u_plane_dtx'') (\<lambda>u_plane_dtx.
     bind (read_field 1 ''frame_18_ext'') (\<lambda>frame_18_ext.
     bind (read_field 1 ''reserved'') (\<lambda>_.
     ret \<lparr>ms_system_code = ucast system_code, ms_colour_code = ucast colour_code,
          ms_time = \<lparr>tm_t = ucast t + 1, tm_f = ucast f, tm_m = ucast m, tm_h = 0\<rparr>,
          ms_sharing_mode = ucast sharing_mode, ms_ts_reserved_frames = ucast ts_reserved_frames,
          ms_u_plane_dtx = u_plane_dtx \<noteq> 0, ms_frame_18_ext = frame_18_ext \<noteq> 0\<rparr>))))))))))"

definition MacSync_to_bitbuf :: "MacSync \<Rightarrow> unit bb" where
  "MacSync_to_bitbuf p = seq
     [write_bits (ucast (ms_system_code p)) 4,
      write_bits (ucast (ms_colour_code p)) 6,
      write_bits (ucast (tm_t (ms_time p)) - 1) 2,
      write_bits (ucast (tm_f (ms_time p))) 5,
      write_bits (ucast (tm_m (ms_time p))) 6,
      write_bits (ucast (ms_sharing_mode p)) 2,
      write_bits (ucast (ms_ts_reserved_frames p)) 3,
      write_bits (of_bool (ms_u_plane_dtx p)) 1,
      write_bits (of_bool (ms_frame_18_ext p)) 1,
      write_bits 0 1]"

section \<open>Fields of SYSINFO\<close>

record TsCommonFrames =
  cf_f1 :: bool
  cf_f2 :: bool
  cf_f3 :: bool
  cf_f4 :: bool
  cf_f5 :: bool
  cf_f6 :: bool
  cf_f7 :: bool
  cf_f8 :: bool
  cf_f9 :: bool
  cf_f10 :: bool
  cf_f11 :: bool
  cf_f12 :: bool
  cf_f13 :: bool
  cf_f14 :: bool
  cf_f15 :: bool
  cf_f16 :: bool
  cf_f17 :: bool
  cf_f18 :: bool

definition TsCommonFrames_from_bitbuf :: "TsCommonFrames bb" where
  "TsCommonFrames_from_bitbuf =
     bind (read_field 1 ''f1'') (\<lambda>f1. bind (read_field 1 ''f2'') (\<lambda>f2. bind (read_field 1 ''f3'') (\<lambda>f3.
     bind (read_field 1 ''f4'') (\<lambda>f4. bind (read_field 1 ''f5'') (\<lambda>f5. bind (read_field 1 ''f6'') (\<lambda>f6.
     bind (read_field 1 ''f7'') (\<lambda>f7. bind (read_field 1 ''f8'') (\<lambda>f8. bind (read_field 1 ''f9'') (\<lambda>f9.
     bind (read_field 1 ''f10'') (\<lambda>f10. bind (read_field 1 ''f11'') (\<lambda>f11. bind (read_field 1 ''f12'') (\<lambda>f12.
     bind (read_field 1 ''f13'') (\<lambda>f13. bind (read_field 1 ''f14'') (\<lambda>f14. bind (read_field 1 ''f15'') (\<lambda>f15.
     bind (read_field 1 ''f16'') (\<lambda>f16. bind (read_field 1 ''f17'') (\<lambda>f17. bind (read_field 1 ''f18'') (\<lambda>f18.
     bind (read_field 2 ''reserved'') (\<lambda>_.
     ret \<lparr>cf_f1 = f1 \<noteq> 0, cf_f2 = f2 \<noteq> 0, cf_f3 = f3 \<noteq> 0, cf_f4 = f4 \<noteq> 0, cf_f5 = f5 \<noteq> 0, cf_f6 = f6 \<noteq> 0,
          cf_f7 = f7 \<noteq> 0, cf_f8 = f8 \<noteq> 0, cf_f9 = f9 \<noteq> 0, cf_f10 = f10 \<noteq> 0, cf_f11 = f11 \<noteq> 0, cf_f12 = f12 \<noteq> 0,
          cf_f13 = f13 \<noteq> 0, cf_f14 = f14 \<noteq> 0, cf_f15 = f15 \<noteq> 0, cf_f16 = f16 \<noteq> 0, cf_f17 = f17 \<noteq> 0, cf_f18 = f18 \<noteq> 0\<rparr>)))))))))))))))))))"

definition TsCommonFrames_to_bitbuf :: "TsCommonFrames \<Rightarrow> unit bb" where
  "TsCommonFrames_to_bitbuf p = seq
     [write_bits (of_bool (cf_f1 p)) 1, write_bits (of_bool (cf_f2 p)) 1, write_bits (of_bool (cf_f3 p)) 1,
      write_bits (of_bool (cf_f4 p)) 1, write_bits (of_bool (cf_f5 p)) 1, write_bits (of_bool (cf_f6 p)) 1,
      write_bits (of_bool (cf_f7 p)) 1, write_bits (of_bool (cf_f8 p)) 1, write_bits (of_bool (cf_f9 p)) 1,
      write_bits (of_bool (cf_f10 p)) 1, write_bits (of_bool (cf_f11 p)) 1, write_bits (of_bool (cf_f12 p)) 1,
      write_bits (of_bool (cf_f13 p)) 1, write_bits (of_bool (cf_f14 p)) 1, write_bits (of_bool (cf_f15 p)) 1,
      write_bits (of_bool (cf_f16 p)) 1, write_bits (of_bool (cf_f17 p)) 1, write_bits (of_bool (cf_f18 p)) 1,
      write_bits 0 2]"

record SysinfoDefaultDefForAccessCodeA =
  ac_imm :: u8
  ac_wt :: u8
  ac_nu :: u8
  ac_fl_factor :: bool
  ac_ts_ptr :: u8
  ac_min_pdu_prio :: u8

definition SysinfoDefaultDefForAccessCodeA_from_bitbuf :: "SysinfoDefaultDefForAccessCodeA bb" where
  "SysinfoDefaultDefForAccessCodeA_from_bitbuf =
     bind (read_field 4 ''imm'') (\<lambda>imm.
     bind (read_field 4 ''wt'') (\<lambda>wt.
     bind (read_field 4 ''nu'') (\<lambda>nu.
     bind (read_field 1 ''fl_factor'') (\<lambda>fl_factor.
     bind (read_field 4 ''ts_ptr'') (\<lambda>ts_ptr.
     bind (read_field 3 ''min_pdu_prio'') (\<lambda>min_pdu_prio.
     ret \<lparr>ac_imm = ucast imm, ac_wt = ucast wt, ac_nu = ucast nu, ac_fl_factor = fl_factor \<noteq> 0,
          ac_ts_ptr = ucast ts_ptr, ac_min_pdu_prio = ucast min_pdu_prio\<rparr>))))))"

definition SysinfoDefaultDefForAccessCodeA_to_bitbuf :: "SysinfoDefaultDefForAccessCodeA \<Rightarrow> unit bb" where
  "SysinfoDefaultDefForAccessCodeA_to_bitbuf p = seq
     [write_bits (ucast (ac_imm p)) 4,
      write_bits (ucast (ac_wt p)) 4,
      write_bits (ucast (ac_nu p)) 4,
      write_bits (of_bool (ac_fl_factor p)) 1,
      write_bits (ucast (ac_ts_ptr p)) 4,
      write_bits (ucast (ac_min_pdu_prio p)) 3]"

record SysinfoExtendedServices =
  xs_auth_required :: bool
  xs_class1_supported :: bool
  xs_class2_supported :: bool
  xs_class3_supported :: bool
  xs_sck_n :: "u8 option"
  xs_dck_select :: "bool option"
  xs_dck_reselect :: "bool option"
  xs_linked_gck :: "bool option"
  xs_short_gck_vn :: "u8 option"
  xs_sdstl_addressing_method :: u8
  xs_gck_supported :: bool
  xs_section :: u8
  xs_section_data :: u8

definition read_security_classes :: "bool \<Rightarrow> (bool \<times> bool \<times> bool) bb" where
  "read_security_classes aie_enabled =
     (if aie_enabled then
        bind (read_field 1 ''class1_supported'') (\<lambda>c1.
        bind (read_field 1 ''class2_supported'') (\<lambda>c2.
        ret (c1 = 1, c2 = 0, \<not> c2 = 0)))
      else bind (read_field 2 ''security_classes_reserved'') (\<lambda>_. ret (False, False, False)))"

definition read_security_info ::
    "bool \<Rightarrow> bool \<Rightarrow> (u8 option \<times> bool option \<times> bool option \<times> bool option \<times> u8 option) bb" where
  "read_security_info class2 class3 =
     (if class2 then
        bind (read_field 5 ''sck_n'') (\<lambda>v. ret (Some (ucast v), None, None, None, None))
      else if class3 then
        bind (read_field 1 ''dck_retrieval_during_cell_select'') (\<lambda>d.
        bind (read_field 1 ''dck_retrieval_during_cell_reselect'') (\<lambda>r.
        bind (read_field 1 ''linked_gck_crypto_periods'') (\<lambda>l.
        bind (read_field 2 ''short_gck_vn'') (\<lambda>s.
        ret (None, Some (d \<noteq> 0), Some (r \<noteq> 0), Some (l \<noteq> 0), Some (ucast s))))))
      else bind (read_field 5 ''security_info_reserved'') (\<lambda>_. ret (None, None, None, None, None)))"

definition SysinfoExtendedServices_from_bitbuf :: "bool \<Rightarrow> SysinfoExtendedServices bb" where
  "SysinfoExtendedServices_from_bitbuf aie_enabled =
     bind (read_field 1 ''auth_required'') (\<lambda>auth.
     bind (read_security_classes aie_enabled) (\<lambda>(class1, class2, class3).
     bind (read_security_info class2 class3) (\<lambda>(sck, dck_select, dck_reselect, linked_gck, short_gck).
     bind (read_field 2 ''sdstl_addressing_method'') (\<lambda>sdstl.
     bind (read_field 1 ''gck_supported'') (\<lambda>gck.
     bind (read_field 2 ''section'') (\<lambda>section.
     bind (read_field 7 ''section_data'') (\<lambda>section_data.
     ret \<lparr>xs_auth_required = auth \<noteq> 0, xs_class1_supported = class1, xs_class2_supported = class2,
          xs_class3_supported = class3, xs_sck_n = sck, xs_dck_select = dck_select, xs_dck_reselect = dck_reselect,
          xs_linked_gck = linked_gck, xs_short_gck_vn = short_gck, xs_sdstl_addressing_method = ucast sdstl,
          xs_gck_supported = gck \<noteq> 0, xs_section = ucast section, xs_section_data = ucast section_data\<rparr>)))))))"

definition SysinfoExtendedServices_to_bitbuf :: "SysinfoExtendedServices \<Rightarrow> unit bb" where
  "SysinfoExtendedServices_to_bitbuf p = seq
     [guard (\<not> (xs_class2_supported p \<and> xs_class3_supported p)),
      write_bits (of_bool (xs_auth_required p)) 1,
      write_bits (of_bool (xs_class1_supported p)) 1,
      write_bits (of_bool (xs_class3_supported p)) 1,
      (if xs_class2_supported p then bind (unwrap (xs_sck_n p)) (\<lambda>v. write_bits (ucast v) 5)
       else if xs_class3_supported p then seq
         [bind (unwrap (xs_dck_select p)) (\<lambda>v. write_bits (of_bool v) 1),
          bind (unwrap (xs_dck_reselect p)) (\<lambda>v. write_bits (of_bool v) 1),
          bind (unwrap (xs_linked_gck p)) (\<lambda>v. write_bits (of_bool v) 1),
          bind (unwrap (xs_short_gck_vn p)) (\<lambda>v. write_bits (ucast v) 2)]
       else write_bits 0 5),
      write_bits (ucast (xs_sdstl_addressing_method p)) 2,
      write_bits (of_bool (xs_gck_supported p)) 1,
      write_bits (ucast (xs_section p)) 2,
      write_bits (ucast (xs_section_data p)) 7]"

section \<open>SYSINFO\<close>

record MacSysinfo =
  si_main_carrier :: u16
  si_freq_band :: u8
  si_freq_offset_index :: u8
  si_duplex_spacing :: u8
  si_reverse_operation :: bool
  si_num_of_csch :: u8
  si_ms_txpwr_max_cell :: u8
  si_rxlev_access_min :: u8
  si_access_parameter :: u8
  si_radio_dl_timeout :: u8
  si_cck_id :: "u16 option"
  si_hyperframe_number :: "u16 option"
  si_option_field :: SysinfoOptFieldFlag
  si_ts_common_frames :: "TsCommonFrames option"
  si_default_access_code :: "SysinfoDefaultDefForAccessCodeA option"
  si_ext_services :: "SysinfoExtendedServices option"

text \<open>The reader skips the twenty bits of a multiframe definition.\<close>

definition MacSysinfo_from_bitbuf :: "MacSysinfo bb" where
  "MacSysinfo_from_bitbuf =
     bind (read_field 2 ''pdu_type'') (\<lambda>_.
     bind (read_field 2 ''pdu_subtype'') (\<lambda>_.
     bind (read_field 12 ''main_carrier'') (\<lambda>main_carrier.
     bind (read_field 4 ''freq_band'') (\<lambda>freq_band.
     bind (read_field 2 ''freq_offset'') (\<lambda>freq_offset.
     bind (read_field 3 ''duplex_spacing'') (\<lambda>duplex_spacing.
     bind (read_field 1 ''reverse_operation'') (\<lambda>reverse_operation.
     bind (read_field 2 ''num_of_csch'') (\<lambda>num_of_csch.
     bind (read_field 3 ''ms_txpwr_max_cell'') (\<lambda>ms_txpwr_max_cell.
     bind (read_field 4 ''rxlev_access_min'') (\<lambda>rxlev_access_min.
     bind (read_field 4 ''access_parameter'') (\<lambda>access_parameter.
     bind (read_field 4 ''radio_dl_timeout'') (\<lambda>radio_dl_timeout.
     bind (read_field 1 ''has_cck_field'') (\<lambda>has_cck_field.
     bind (if has_cck_field = 1 then bind (read_field 16 ''cck_id'') (\<lambda>v. ret (Some (ucast v), None))
           else bind (read_field 16 ''hyperframe_number'') (\<lambda>v. ret (None, Some (ucast v)))) (\<lambda>(cck_id, hyperframe_number).
     bind (read_enum SysinfoOptFieldFlag_try_from 2 ''option_field'') (\<lambda>option_field.
     bind (case option_field of
             SysinfoOptFieldFlag_EvenMfDefForTsMode \<Rightarrow> bind (seek_rel 20) (\<lambda>_. ret (None, None))
           | SysinfoOptFieldFlag_OddMfDefForTsMode \<Rightarrow> bind (seek_rel 20) (\<lambda>_. ret (None, None))
           | SysinfoOptFieldFlag_DefaultDefForAccCodeA \<Rightarrow>
               bind SysinfoDefaultDefForAccessCodeA_from_bitbuf (\<lambda>d. ret (Some d, None))
           | SysinfoOptFieldFlag_ExtServicesBroadcast \<Rightarrow>
               bind (SysinfoExtendedServices_from_bitbuf True) (\<lambda>x. ret (None, Some x))) (\<lambda>(default_access_code, ext_services).
     ret \<lparr>si_main_carrier = ucast main_carrier, si_freq_band = ucast freq_band, si_freq_offset_index = ucast freq_offset,
          si_duplex_spacing = ucast duplex_spacing, si_reverse_operation = reverse_operation \<noteq> 0,
          si_num_of_csch = ucast num_of_csch, si_ms_txpwr_max_cell = ucast ms_txpwr_max_cell,
          si_rxlev_access_min = ucast rxlev_access_min, si_access_parameter = ucast access_parameter,
          si_radio_dl_timeout = ucast radio_dl_timeout, si_cck_id = cck_id, si_hyperframe_number = hyperframe_number,
          si_option_field = option_field, si_ts_common_frames = None, si_default_access_code = default_access_code,
          si_ext_services = ext_services\<rparr>))))))))))))))))"

definition MacSysinfo_write_option :: "MacSysinfo \<Rightarrow> unit bb" where
  "MacSysinfo_write_option p =
     (case si_option_field p of
        SysinfoOptFieldFlag_EvenMfDefForTsMode \<Rightarrow> seq
          [guard (si_default_access_code p = None), guard (si_ext_services p = None)]
      | SysinfoOptFieldFlag_OddMfDefForTsMode \<Rightarrow> seq
          [guard (si_default_access_code p = None), guard (si_ext_services p = None),
           bind (unwrap (si_ts_common_frames p)) TsCommonFrames_to_bitbuf]
      | SysinfoOptFieldFlag_DefaultDefForAccCodeA \<Rightarrow> seq
          [guard (si_ts_common_frames p = None), guard (si_ext_services p = None),
           bind (unwrap (si_default_access_code p)) SysinfoDefaultDefForAccessCodeA_to_bitbuf]
      | SysinfoOptFieldFlag_ExtServicesBroadcast \<Rightarrow> seq
          [guard (si_ts_common_frames p = None), guard (si_default_access_code p = None),
           bind (unwrap (si_ext_services p)) SysinfoExtendedServices_to_bitbuf])"

definition MacSysinfo_to_bitbuf :: "MacSysinfo \<Rightarrow> unit bb" where
  "MacSysinfo_to_bitbuf p = seq
     [write_bits 2 2,
      write_bits 0 2,
      write_bits (ucast (si_main_carrier p)) 12,
      write_bits (ucast (si_freq_band p)) 4,
      write_bits (ucast (si_freq_offset_index p)) 2,
      write_bits (ucast (si_duplex_spacing p)) 3,
      write_bits (of_bool (si_reverse_operation p)) 1,
      write_bits (ucast (si_num_of_csch p)) 2,
      write_bits (ucast (si_ms_txpwr_max_cell p)) 3,
      write_bits (ucast (si_rxlev_access_min p)) 4,
      write_bits (ucast (si_access_parameter p)) 4,
      write_bits (ucast (si_radio_dl_timeout p)) 4,
      guard ((si_cck_id p \<noteq> None) \<noteq> (si_hyperframe_number p \<noteq> None)),
      (case si_cck_id p of
         Some cck_id \<Rightarrow> seq [write_bits 1 1, write_bits (ucast cck_id) 16]
       | None \<Rightarrow> seq [write_bits 0 1, bind (unwrap (si_hyperframe_number p)) (\<lambda>h. write_bits (ucast h) 16)]),
      write_bits (SysinfoOptFieldFlag_into_raw (si_option_field p)) 2,
      MacSysinfo_write_option p]"

section \<open>D-MLE-SYNC and D-MLE-SYSINFO\<close>

record DMleSync =
  sy_mcc :: u16
  sy_mnc :: u16
  sy_neighbor_cell_broadcast :: u8
  sy_cell_load_ca :: u8
  sy_late_entry_supported :: bool

definition DMleSync_from_bitbuf :: "DMleSync bb" where
  "DMleSync_from_bitbuf =
     bind (read_field 10 ''mcc'') (\<lambda>mcc.
     bind (read_field 14 ''mnc'') (\<lambda>mnc.
     bind (read_field 2 ''neighbor_cell_broadcast'') (\<lambda>ncb.
     bind (read_field 2 ''cell_load_ca'') (\<lambda>cell_load_ca.
     bind (read_field 1 ''late_entry_supported'') (\<lambda>late_entry.
     ret \<lparr>sy_mcc = ucast mcc, sy_mnc = ucast mnc, sy_neighbor_cell_broadcast = ucast ncb,
          sy_cell_load_ca = ucast cell_load_ca, sy_late_entry_supported = late_entry \<noteq> 0\<rparr>)))))"

definition DMleSync_to_bitbuf :: "DMleSync \<Rightarrow> unit bb" where
  "DMleSync_to_bitbuf p = seq
     [write_bits (ucast (sy_mcc p)) 10,
      write_bits (ucast (sy_mnc p)) 14,
      write_bits (ucast (sy_neighbor_cell_broadcast p)) 2,
      write_bits (ucast (sy_cell_load_ca p)) 2,
      write_bits (of_bool (sy_late_entry_supported p)) 1]"

record BsServiceDetails =
  sd_registration :: bool
  sd_deregistration :: bool
  sd_priority_cell :: bool
  sd_no_minimum_mode :: bool
  sd_migration :: bool
  sd_system_wide_services :: bool
  sd_voice_service :: bool
  sd_circuit_mode_data_service :: bool
  sd_sndcp_service :: bool
  sd_aie_service :: bool
  sd_advanced_link :: bool

definition BsServiceDetails_from_bitbuf :: "BsServiceDetails bb" where
  "BsServiceDetails_from_bitbuf =
     bind (read_field 1 ''registration'') (\<lambda>registration.
     bind (read_field 1 ''deregistration'') (\<lambda>deregistration.
     bind (read_field 1 ''priority_cell'') (\<lambda>priority_cell.
     bind (read_field 1 ''no_minimum_mode'') (\<lambda>no_minimum_mode.
     bind (read_field 1 ''migration'') (\<lambda>migration.
     bind (read_field 1 ''system_wide_services'') (\<lambda>system_wide_services.
     bind (read_field 1 ''voice_service'') (\<lambda>voice_service.
     bind (read_field 1 ''circuit_mode_data_service'') (\<lambda>circuit_mode_data_service.
     bind (read_field 1 ''reserved'') (\<lambda>_.
     bind (read_field 1 ''sndcp_service'') (\<lambda>sndcp_service.
     bind (read_field 1 ''aie_service'') (\<lambda>aie_service.
     bind (read_field 1 ''advanced_link'') (\<lambda>advanced_link.
     ret \<lparr>sd_registration = registration \<noteq> 0, sd_deregistration = deregistration \<noteq> 0, sd_priority_cell = priority_cell \<noteq> 0,
          sd_no_minimum_mode = no_minimum_mode \<noteq> 0, sd_migration = migration \<noteq> 0,
          sd_system_wide_services = system_wide_services \<noteq> 0, sd_voice_service = voice_service \<noteq> 0,
          sd_circuit_mode_data_service = circuit_mode_data_service \<noteq> 0, sd_sndcp_service = sndcp_service \<noteq> 0,
          sd_aie_service = aie_service \<noteq> 0, sd_advanced_link = advanced_link \<noteq> 0\<rparr>))))))))))))"

definition BsServiceDetails_to_bitbuf :: "BsServiceDetails \<Rightarrow> unit bb" where
  "BsServiceDetails_to_bitbuf p = seq
     [write_bits (of_bool (sd_registration p)) 1,
      write_bits (of_bool (sd_deregistration p)) 1,
      write_bits (of_bool (sd_priority_cell p)) 1,
      write_bits (of_bool (sd_no_minimum_mode p)) 1,
      write_bits (of_bool (sd_migration p)) 1,
      write_bits (of_bool (sd_system_wide_services p)) 1,
      write_bits (of_bool (sd_voice_service p)) 1,
      write_bits (of_bool (sd_circuit_mode_data_service p)) 1,
      write_bits 0 1,
      write_bits (of_bool (sd_sndcp_service p)) 1,
      write_bits (of_bool (sd_aie_service p)) 1,
      write_bits (of_bool (sd_advanced_link p)) 1]"

record DMleSysinfo =
  ml_location_area :: u16
  ml_subscriber_class :: u16
  ml_bs_service_details :: BsServiceDetails

definition DMleSysinfo_from_bitbuf :: "DMleSysinfo bb" where
  "DMleSysinfo_from_bitbuf =
     bind (read_field 14 ''location_area'') (\<lambda>location_area.
     bind (read_field 16 ''subscriber_class'') (\<lambda>subscriber_class.
     bind BsServiceDetails_from_bitbuf (\<lambda>details.
     ret \<lparr>ml_location_area = ucast location_area, ml_subscriber_class = ucast subscriber_class,
          ml_bs_service_details = details\<rparr>)))"

definition DMleSysinfo_to_bitbuf :: "DMleSysinfo \<Rightarrow> unit bb" where
  "DMleSysinfo_to_bitbuf p = seq
     [write_bits (ucast (ml_location_area p)) 14,
      write_bits (ucast (ml_subscriber_class p)) 16,
      BsServiceDetails_to_bitbuf (ml_bs_service_details p)]"

section \<open>ACCESS-DEFINE\<close>

record AccessDefine =
  ad_common_or_assigned_control :: bool
  ad_access_code :: u8
  ad_imm :: u8
  ad_wt :: u8
  ad_nu :: u8
  ad_frame_len_factor :: bool
  ad_ts_pointer :: u8
  ad_min_pdu_prio :: u8
  ad_opt_field_flag :: u8
  ad_subscriber_class :: "u16 option"
  ad_gssi :: "u32 option"

definition AccessDefine_from_bitbuf :: "AccessDefine bb" where
  "AccessDefine_from_bitbuf =
     bind (read_field 2 ''mac_pdu_type'') (\<lambda>ty. bind (guard (ty = 2)) (\<lambda>_.
     bind (read_field 2 ''broadcast_type'') (\<lambda>bt. bind (guard (bt = 1)) (\<lambda>_.
     bind (read_field 1 ''common_or_assigned_control'') (\<lambda>common.
     bind (read_field 2 ''access_code'') (\<lambda>access_code.
     bind (read_field 4 ''imm'') (\<lambda>imm.
     bind (read_field 4 ''wt'') (\<lambda>wt.
     bind (read_field 4 ''nu'') (\<lambda>nu.
     bind (read_field 1 ''frame_len_factor'') (\<lambda>frame_len_factor.
     bind (read_field 4 ''ts_pointer'') (\<lambda>ts_pointer.
     bind (read_field 3 ''min_pdu_prio'') (\<lambda>min_pdu_prio.
     bind (read_field 2 ''opt_field_flag'') (\<lambda>flag.
     bind (if flag = 1 then bind (read_field 16 ''subscriber_class'') (\<lambda>v. ret (Some (ucast v))) else ret None) (\<lambda>subscriber_class.
     bind (if flag = 2 then bind (read_field 24 ''gssi'') (\<lambda>v. ret (Some (ucast v))) else ret None) (\<lambda>gssi.
     bind (read_field 3 ''filler'') (\<lambda>filler. bind (guard (filler = 4)) (\<lambda>_.
     ret \<lparr>ad_common_or_assigned_control = common \<noteq> 0, ad_access_code = ucast access_code, ad_imm = ucast imm,
          ad_wt = ucast wt, ad_nu = ucast nu, ad_frame_len_factor = frame_len_factor \<noteq> 0,
          ad_ts_pointer = ucast ts_pointer, ad_min_pdu_prio = ucast min_pdu_prio, ad_opt_field_flag = ucast flag,
          ad_subscriber_class = subscriber_class, ad_gssi = gssi\<rparr>)))))))))))))))))"

definition AccessDefine_to_bitbuf :: "AccessDefine \<Rightarrow> unit bb" where
  "AccessDefine_to_bitbuf p = seq
     [write_bits 2 2,
      write_bits 1 2,
      write_bits (of_bool (ad_common_or_assigned_control p)) 1,
      write_bits (ucast (ad_access_code p)) 2,
      write_bits (ucast (ad_imm p)) 4,
      write_bits (ucast (ad_wt p)) 4,
      write_bits (ucast (ad_nu p)) 4,
      write_bits (of_bool (ad_frame_len_factor p)) 1,
      write_bits (ucast (ad_ts_pointer p)) 4,
      write_bits (ucast (ad_min_pdu_prio p)) 3,
      write_bits (ucast (ad_opt_field_flag p)) 2,
      (case ad_subscriber_class p of Some v \<Rightarrow> write_bits (ucast v) 16 | None \<Rightarrow> ret ()),
      (case ad_gssi p of Some v \<Rightarrow> write_bits (ucast v) 24 | None \<Rightarrow> ret ()),
      write_bits 4 3]"

end
