(* ===== verification/Broadcast_Pdus_Spec.thy ===== *)
theory Broadcast_Pdus_Spec
  imports Broadcast_Pdus
begin

text \<open>
  The broadcast PDUs as codecs, with the widths of their encodings.
\<close>

lemma parses_split: "parses_on (f a b) xs rest y \<Longrightarrow> parses_on (case (a, b) of (x, z) \<Rightarrow> f x z) xs rest y"
  by simp

section \<open>SYNC\<close>

definition MacSync_wf :: "MacSync \<Rightarrow> bool" where
  "MacSync_wf p \<longleftrightarrow> fits 4 (ms_system_code p) \<and> fits 6 (ms_colour_code p) \<and>
     1 \<le> tm_t (ms_time p) \<and> tm_t (ms_time p) \<le> 4 \<and> fits 5 (tm_f (ms_time p)) \<and> fits 6 (tm_m (ms_time p)) \<and>
     fits 2 (ms_sharing_mode p) \<and> fits 3 (ms_ts_reserved_frames p)"

definition MacSync_enc :: "MacSync \<Rightarrow> bool list" where
  "MacSync_enc p =
     to_bits 4 (ucast (ms_system_code p) :: u64) @ to_bits 6 (ucast (ms_colour_code p) :: u64) @
     to_bits 2 (ucast (tm_t (ms_time p)) - 1 :: u64) @ to_bits 5 (ucast (tm_f (ms_time p)) :: u64) @
     to_bits 6 (ucast (tm_m (ms_time p)) :: u64) @ to_bits 2 (ucast (ms_sharing_mode p) :: u64) @
     to_bits 3 (ucast (ms_ts_reserved_frames p) :: u64) @ to_bits 1 (of_bool (ms_u_plane_dtx p) :: u64) @
     to_bits 1 (of_bool (ms_frame_18_ext p) :: u64) @ to_bits 1 (0 :: u64)"

lemma length_MacSync_enc [simp]: "length (MacSync_enc p) = 31"
  by (simp add: MacSync_enc_def)

lemma slot_cases: "1 \<le> t \<Longrightarrow> t \<le> 4 \<Longrightarrow> t = 1 \<or> t = 2 \<or> t = 3 \<or> t = 4" for t :: u8
proof -
  assume "1 \<le> t" "t \<le> 4"
  then have "unat t = 1 \<or> unat t = 2 \<or> unat t = 3 \<or> unat t = 4" by (auto simp: word_le_nat_alt)
  then show ?thesis by (auto simp: word_unat_eq_iff)
qed

text \<open>The hyperframe is not part of SYNC: the reader returns hyperframe 0.\<close>

lemma emits_MacSync: "MacSync_wf p \<Longrightarrow> emits (MacSync_to_bitbuf p) (MacSync_enc p)"
  unfolding MacSync_to_bitbuf_def MacSync_enc_def MacSync_wf_def
  by (intro emits_seq_Cons emits_seq_last emits_write_bits) (auto dest!: slot_cases)

lemma parses_MacSync:
  assumes "MacSync_wf p"
  shows "parses MacSync_from_bitbuf (MacSync_enc p) (p\<lparr>ms_time := (ms_time p)\<lparr>tm_h := 0\<rparr>\<rparr>)"
proof -
  have t: "fits 2 (ucast (tm_t (ms_time p)) - 1 :: u64)" "ucast (ucast (tm_t (ms_time p)) - 1 :: u64) + 1 = tm_t (ms_time p)"
    using assms unfolding MacSync_wf_def by (auto dest!: slot_cases)
  show ?thesis
    using assms t(1) unfolding MacSync_from_bitbuf_def MacSync_enc_def MacSync_wf_def
    by (intro parsesI parses_field_bind parses_field_last parses_ret) (simp_all add: t(2))
qed

interpretation MacSync: safe_codec "\<lambda>p. MacSync_wf p \<and> tm_h (ms_time p) = 0" MacSync_enc MacSync_to_bitbuf MacSync_from_bitbuf
proof
  show "emits (MacSync_to_bitbuf p) (MacSync_enc p)" if "MacSync_wf p \<and> tm_h (ms_time p) = 0" for p
    using that emits_MacSync by blast
  show "parses MacSync_from_bitbuf (MacSync_enc p) p" if "MacSync_wf p \<and> tm_h (ms_time p) = 0" for p
  proof -
    from that have "p\<lparr>ms_time := (ms_time p)\<lparr>tm_h := 0\<rparr>\<rparr> = p" by (cases p; cases "ms_time p") simp
    with that parses_MacSync [of p] show ?thesis by simp
  qed
  show "safe MacSync_from_bitbuf"
    unfolding MacSync_from_bitbuf_def by (intro safe_intros)
qed

section \<open>Fields of SYSINFO\<close>

definition flag_bits :: "bool list \<Rightarrow> bool list" where
  "flag_bits fs = concat (map (\<lambda>f. to_bits 1 (of_bool f :: u64)) fs)"

lemma flag_bits_simps [simp]: "flag_bits [] = []" "flag_bits (f # fs) = to_bits 1 (of_bool f :: u64) @ flag_bits fs"
  by (simp_all add: flag_bits_def)

definition TsCommonFrames_enc :: "TsCommonFrames \<Rightarrow> bool list" where
  "TsCommonFrames_enc p =
     flag_bits [cf_f1 p, cf_f2 p, cf_f3 p, cf_f4 p, cf_f5 p, cf_f6 p, cf_f7 p, cf_f8 p, cf_f9 p, cf_f10 p, cf_f11 p,
       cf_f12 p, cf_f13 p, cf_f14 p, cf_f15 p, cf_f16 p, cf_f17 p, cf_f18 p] @ to_bits 2 (0 :: u64)"

lemma length_TsCommonFrames_enc [simp]: "length (TsCommonFrames_enc p) = 20"
  by (simp add: TsCommonFrames_enc_def)

interpretation TsCommonFrames: safe_codec "\<lambda>_. True" TsCommonFrames_enc TsCommonFrames_to_bitbuf TsCommonFrames_from_bitbuf
proof
  show "emits (TsCommonFrames_to_bitbuf p) (TsCommonFrames_enc p)" for p
    unfolding TsCommonFrames_to_bitbuf_def TsCommonFrames_enc_def flag_bits_simps append.append_Nil append_assoc
    by (intro emits_seq_Cons emits_seq_last emits_write_bits) simp_all
  show "parses TsCommonFrames_from_bitbuf (TsCommonFrames_enc p) p" for p
    unfolding TsCommonFrames_from_bitbuf_def TsCommonFrames_enc_def flag_bits_simps append.append_Nil append_assoc
    by (intro parsesI parses_field_bind parses_field_last parses_ret) simp_all
  show "safe TsCommonFrames_from_bitbuf"
    unfolding TsCommonFrames_from_bitbuf_def by (intro safe_intros)
qed

definition SysinfoDefaultDefForAccessCodeA_wf :: "SysinfoDefaultDefForAccessCodeA \<Rightarrow> bool" where
  "SysinfoDefaultDefForAccessCodeA_wf p \<longleftrightarrow>
     fits 4 (ac_imm p) \<and> fits 4 (ac_wt p) \<and> fits 4 (ac_nu p) \<and> fits 4 (ac_ts_ptr p) \<and> fits 3 (ac_min_pdu_prio p)"

definition SysinfoDefaultDefForAccessCodeA_enc :: "SysinfoDefaultDefForAccessCodeA \<Rightarrow> bool list" where
  "SysinfoDefaultDefForAccessCodeA_enc p =
     to_bits 4 (ucast (ac_imm p) :: u64) @ to_bits 4 (ucast (ac_wt p) :: u64) @ to_bits 4 (ucast (ac_nu p) :: u64) @
     to_bits 1 (of_bool (ac_fl_factor p) :: u64) @ to_bits 4 (ucast (ac_ts_ptr p) :: u64) @
     to_bits 3 (ucast (ac_min_pdu_prio p) :: u64)"

lemma length_SysinfoDefaultDefForAccessCodeA_enc [simp]: "length (SysinfoDefaultDefForAccessCodeA_enc p) = 20"
  by (simp add: SysinfoDefaultDefForAccessCodeA_enc_def)

interpretation SysinfoDefaultDefForAccessCodeA: safe_codec SysinfoDefaultDefForAccessCodeA_wf
  SysinfoDefaultDefForAccessCodeA_enc SysinfoDefaultDefForAccessCodeA_to_bitbuf SysinfoDefaultDefForAccessCodeA_from_bitbuf
proof
  show "emits (SysinfoDefaultDefForAccessCodeA_to_bitbuf p) (SysinfoDefaultDefForAccessCodeA_enc p)"
    if "SysinfoDefaultDefForAccessCodeA_wf p" for p
    using that unfolding SysinfoDefaultDefForAccessCodeA_to_bitbuf_def SysinfoDefaultDefForAccessCodeA_enc_def
      SysinfoDefaultDefForAccessCodeA_wf_def
    by (intro emits_seq_Cons emits_seq_last emits_write_bits) simp_all
  show "parses SysinfoDefaultDefForAccessCodeA_from_bitbuf (SysinfoDefaultDefForAccessCodeA_enc p) p"
    if "SysinfoDefaultDefForAccessCodeA_wf p" for p
    using that unfolding SysinfoDefaultDefForAccessCodeA_from_bitbuf_def SysinfoDefaultDefForAccessCodeA_enc_def
      SysinfoDefaultDefForAccessCodeA_wf_def
    by (intro parsesI parses_field_bind parses_field_last parses_ret) simp_all
  show "safe SysinfoDefaultDefForAccessCodeA_from_bitbuf"
    unfolding SysinfoDefaultDefForAccessCodeA_from_bitbuf_def by (intro safe_intros)
qed

text \<open>
  Extended services. The writer accepts the three cases of the security information (class 2, class 3, neither);
  a reader that assumes encryption (\<open>aie_enabled\<close>) knows only the first two.
\<close>

definition security_info_ok :: "SysinfoExtendedServices \<Rightarrow> bool" where
  "security_info_ok p \<longleftrightarrow>
     \<not> (xs_class2_supported p \<and> xs_class3_supported p) \<and>
     (xs_class2_supported p \<longrightarrow> (case xs_sck_n p of Some v \<Rightarrow> fits 5 v | None \<Rightarrow> False)) \<and>
     (xs_class3_supported p \<longrightarrow> xs_dck_select p \<noteq> None \<and> xs_dck_reselect p \<noteq> None \<and> xs_linked_gck p \<noteq> None \<and>
        (case xs_short_gck_vn p of Some v \<Rightarrow> fits 2 v | None \<Rightarrow> False)) \<and>
     fits 2 (xs_sdstl_addressing_method p) \<and> fits 2 (xs_section p) \<and> fits 7 (xs_section_data p)"

definition security_info_enc :: "SysinfoExtendedServices \<Rightarrow> bool list" where
  "security_info_enc p =
     (if xs_class2_supported p then to_bits 5 (ucast (the (xs_sck_n p)) :: u64)
      else if xs_class3_supported p then
        to_bits 1 (of_bool (the (xs_dck_select p)) :: u64) @ to_bits 1 (of_bool (the (xs_dck_reselect p)) :: u64) @
        to_bits 1 (of_bool (the (xs_linked_gck p)) :: u64) @ to_bits 2 (ucast (the (xs_short_gck_vn p)) :: u64)
      else to_bits 5 (0 :: u64))"

definition SysinfoExtendedServices_enc :: "SysinfoExtendedServices \<Rightarrow> bool list" where
  "SysinfoExtendedServices_enc p =
     to_bits 1 (of_bool (xs_auth_required p) :: u64) @ to_bits 1 (of_bool (xs_class1_supported p) :: u64) @
     to_bits 1 (of_bool (xs_class3_supported p) :: u64) @ security_info_enc p @
     to_bits 2 (ucast (xs_sdstl_addressing_method p) :: u64) @ to_bits 1 (of_bool (xs_gck_supported p) :: u64) @
     to_bits 2 (ucast (xs_section p) :: u64) @ to_bits 7 (ucast (xs_section_data p) :: u64)"

lemma length_SysinfoExtendedServices_enc [simp]: "length (SysinfoExtendedServices_enc p) = 20"
  by (simp add: SysinfoExtendedServices_enc_def security_info_enc_def)

lemma emits_security_info:
  assumes "security_info_ok p"
  shows "emits (if xs_class2_supported p then bind (unwrap (xs_sck_n p)) (\<lambda>v. write_bits (ucast v) 5)
       else if xs_class3_supported p then seq
         [bind (unwrap (xs_dck_select p)) (\<lambda>v. write_bits (of_bool v) 1),
          bind (unwrap (xs_dck_reselect p)) (\<lambda>v. write_bits (of_bool v) 1),
          bind (unwrap (xs_linked_gck p)) (\<lambda>v. write_bits (of_bool v) 1),
          bind (unwrap (xs_short_gck_vn p)) (\<lambda>v. write_bits (ucast v) 2)]
       else write_bits 0 5) (security_info_enc p)"
  using assms unfolding security_info_ok_def security_info_enc_def
  by (auto simp del: seq.simps intro!: emits_seq_Cons emits_seq_last emits_write_bits split: option.splits)

lemma emits_SysinfoExtendedServices:
  "security_info_ok p \<Longrightarrow> emits (SysinfoExtendedServices_to_bitbuf p) (SysinfoExtendedServices_enc p)"
  unfolding SysinfoExtendedServices_to_bitbuf_def SysinfoExtendedServices_enc_def
  by (intro emits_seq_guard emits_seq_Cons emits_seq_last emits_write_bits emits_security_info)
     (simp_all add: security_info_ok_def)

definition SysinfoExtendedServices_wf :: "SysinfoExtendedServices \<Rightarrow> bool" where
  "SysinfoExtendedServices_wf p \<longleftrightarrow>
     security_info_ok p \<and> xs_class3_supported p = (\<not> xs_class2_supported p) \<and>
     (xs_class2_supported p \<longrightarrow>
        xs_dck_select p = None \<and> xs_dck_reselect p = None \<and> xs_linked_gck p = None \<and> xs_short_gck_vn p = None) \<and>
     (xs_class3_supported p \<longrightarrow> xs_sck_n p = None)"

lemma parses_security_info:
  assumes "SysinfoExtendedServices_wf p"
  shows "parses (read_security_info (xs_class2_supported p) (xs_class3_supported p)) (security_info_enc p)
     (xs_sck_n p, xs_dck_select p, xs_dck_reselect p, xs_linked_gck p, xs_short_gck_vn p)"
  using assms unfolding SysinfoExtendedServices_wf_def security_info_ok_def read_security_info_def security_info_enc_def
  by (auto intro!: parsesI parses_field_bind parses_field_last parses_ret split: option.splits)

interpretation SysinfoExtendedServices: safe_codec SysinfoExtendedServices_wf SysinfoExtendedServices_enc
  SysinfoExtendedServices_to_bitbuf "SysinfoExtendedServices_from_bitbuf True"
proof
  show "emits (SysinfoExtendedServices_to_bitbuf p) (SysinfoExtendedServices_enc p)" if "SysinfoExtendedServices_wf p" for p
    using that by (simp add: SysinfoExtendedServices_wf_def emits_SysinfoExtendedServices)
  show "parses (SysinfoExtendedServices_from_bitbuf True) (SysinfoExtendedServices_enc p) p"
    if wf: "SysinfoExtendedServices_wf p" for p
  proof -
    have c: "parses (read_security_classes True)
        (to_bits 1 (of_bool (xs_class1_supported p) :: u64) @ to_bits 1 (of_bool (xs_class3_supported p) :: u64))
        (xs_class1_supported p, xs_class2_supported p, xs_class3_supported p)"
      using wf unfolding read_security_classes_def SysinfoExtendedServices_wf_def
      by (auto intro!: parsesI parses_field_bind parses_field_last parses_ret)
    have "parses (SysinfoExtendedServices_from_bitbuf True)
       (to_bits 1 (of_bool (xs_auth_required p) :: u64) @
        (to_bits 1 (of_bool (xs_class1_supported p) :: u64) @ to_bits 1 (of_bool (xs_class3_supported p) :: u64)) @
        security_info_enc p @ to_bits 2 (ucast (xs_sdstl_addressing_method p) :: u64) @
        to_bits 1 (of_bool (xs_gck_supported p) :: u64) @ to_bits 2 (ucast (xs_section p) :: u64) @
        to_bits 7 (ucast (xs_section_data p) :: u64)) p"
      using wf unfolding SysinfoExtendedServices_from_bitbuf_def
      by (intro parsesI parses_field_bind parses_field_last parses_ret parses_split parses_bind [OF c]
            parses_bind [OF parses_security_info [OF wf]])
         (simp_all add: SysinfoExtendedServices_wf_def security_info_ok_def)
    then show ?thesis by (simp add: SysinfoExtendedServices_enc_def)
  qed
  show "safe (SysinfoExtendedServices_from_bitbuf True)"
    unfolding SysinfoExtendedServices_from_bitbuf_def read_security_classes_def read_security_info_def
    by (auto intro!: safe_intros split: prod.split)
qed

section \<open>SYSINFO\<close>

definition MacSysinfo_option_enc :: "MacSysinfo \<Rightarrow> bool list" where
  "MacSysinfo_option_enc p =
     (case si_option_field p of
        SysinfoOptFieldFlag_EvenMfDefForTsMode \<Rightarrow> []
      | SysinfoOptFieldFlag_OddMfDefForTsMode \<Rightarrow> TsCommonFrames_enc (the (si_ts_common_frames p))
      | SysinfoOptFieldFlag_DefaultDefForAccCodeA \<Rightarrow> SysinfoDefaultDefForAccessCodeA_enc (the (si_default_access_code p))
      | SysinfoOptFieldFlag_ExtServicesBroadcast \<Rightarrow> SysinfoExtendedServices_enc (the (si_ext_services p)))"

definition enc_cck_or_hyperframe :: "MacSysinfo \<Rightarrow> bool list" where
  "enc_cck_or_hyperframe p =
     (case si_cck_id p of
        Some c \<Rightarrow> to_bits 1 (1 :: u64) @ to_bits 16 (ucast c :: u64)
      | None \<Rightarrow> to_bits 1 (0 :: u64) @ to_bits 16 (ucast (the (si_hyperframe_number p)) :: u64))"

definition MacSysinfo_enc :: "MacSysinfo \<Rightarrow> bool list" where
  "MacSysinfo_enc p =
     to_bits 2 (2 :: u64) @ to_bits 2 (0 :: u64) @ to_bits 12 (ucast (si_main_carrier p) :: u64) @
     to_bits 4 (ucast (si_freq_band p) :: u64) @ to_bits 2 (ucast (si_freq_offset_index p) :: u64) @
     to_bits 3 (ucast (si_duplex_spacing p) :: u64) @ to_bits 1 (of_bool (si_reverse_operation p) :: u64) @
     to_bits 2 (ucast (si_num_of_csch p) :: u64) @ to_bits 3 (ucast (si_ms_txpwr_max_cell p) :: u64) @
     to_bits 4 (ucast (si_rxlev_access_min p) :: u64) @ to_bits 4 (ucast (si_access_parameter p) :: u64) @
     to_bits 4 (ucast (si_radio_dl_timeout p) :: u64) @ enc_cck_or_hyperframe p @
     to_bits 2 (SysinfoOptFieldFlag_into_raw (si_option_field p)) @ MacSysinfo_option_enc p"

text \<open>What the writer accepts: widths, one of the two sixteen-bit fields, and the element that the option field announces.\<close>

definition MacSysinfo_ok :: "MacSysinfo \<Rightarrow> bool" where
  "MacSysinfo_ok p \<longleftrightarrow>
     fits 12 (si_main_carrier p) \<and> fits 4 (si_freq_band p) \<and> fits 2 (si_freq_offset_index p) \<and>
     fits 3 (si_duplex_spacing p) \<and> fits 2 (si_num_of_csch p) \<and> fits 3 (si_ms_txpwr_max_cell p) \<and>
     fits 4 (si_rxlev_access_min p) \<and> fits 4 (si_access_parameter p) \<and> fits 4 (si_radio_dl_timeout p) \<and>
     (si_cck_id p \<noteq> None) \<noteq> (si_hyperframe_number p \<noteq> None) \<and>
     (case si_option_field p of
        SysinfoOptFieldFlag_EvenMfDefForTsMode \<Rightarrow> si_default_access_code p = None \<and> si_ext_services p = None
      | SysinfoOptFieldFlag_OddMfDefForTsMode \<Rightarrow>
          si_default_access_code p = None \<and> si_ext_services p = None \<and> si_ts_common_frames p \<noteq> None
      | SysinfoOptFieldFlag_DefaultDefForAccCodeA \<Rightarrow>
          si_ts_common_frames p = None \<and> si_ext_services p = None \<and>
          (case si_default_access_code p of Some d \<Rightarrow> SysinfoDefaultDefForAccessCodeA_wf d | None \<Rightarrow> False)
      | SysinfoOptFieldFlag_ExtServicesBroadcast \<Rightarrow>
          si_ts_common_frames p = None \<and> si_default_access_code p = None \<and>
          (case si_ext_services p of Some x \<Rightarrow> security_info_ok x | None \<Rightarrow> False))"

lemma length_MacSysinfo_enc:
  "si_option_field p \<noteq> SysinfoOptFieldFlag_EvenMfDefForTsMode \<Longrightarrow> length (MacSysinfo_enc p) = 82"
  by (simp add: MacSysinfo_enc_def enc_cck_or_hyperframe_def MacSysinfo_option_enc_def
      split: option.split SysinfoOptFieldFlag.split)

lemma emits_MacSysinfo_option: "MacSysinfo_ok p \<Longrightarrow> emits (MacSysinfo_write_option p) (MacSysinfo_option_enc p)"
  unfolding MacSysinfo_ok_def MacSysinfo_write_option_def MacSysinfo_option_enc_def
  by (cases "si_option_field p")
     (auto intro: emits_ret TsCommonFrames.emits SysinfoDefaultDefForAccessCodeA.emits emits_SysinfoExtendedServices split: option.splits)

lemma emits_cck_or_hyperframe:
  assumes "MacSysinfo_ok p"
  shows "emits (case si_cck_id p of
         Some cck_id \<Rightarrow> seq [write_bits 1 1, write_bits (ucast cck_id) 16]
       | None \<Rightarrow> seq [write_bits 0 1, bind (unwrap (si_hyperframe_number p)) (\<lambda>h. write_bits (ucast h) 16)])
     (enc_cck_or_hyperframe p)"
  using assms unfolding MacSysinfo_ok_def enc_cck_or_hyperframe_def
  by (auto simp del: seq.simps intro!: emits_seq_Cons emits_seq_last emits_write_bits split: option.splits)

lemma emits_MacSysinfo: "MacSysinfo_ok p \<Longrightarrow> emits (MacSysinfo_to_bitbuf p) (MacSysinfo_enc p)"
  unfolding MacSysinfo_to_bitbuf_def MacSysinfo_enc_def
  by (intro emits_seq_Cons emits_seq_guard emits_seq_last emits_write_bits emits_cck_or_hyperframe emits_MacSysinfo_option)
     (simp_all add: MacSysinfo_ok_def SysinfoOptFieldFlag.fits_raw)

text \<open>What comes back: the reader knows the default access code and the extended services.\<close>

definition MacSysinfo_wf :: "MacSysinfo \<Rightarrow> bool" where
  "MacSysinfo_wf p \<longleftrightarrow> MacSysinfo_ok p \<and> si_ts_common_frames p = None \<and>
     si_option_field p \<in> {SysinfoOptFieldFlag_DefaultDefForAccCodeA, SysinfoOptFieldFlag_ExtServicesBroadcast} \<and>
     pred_option SysinfoExtendedServices_wf (si_ext_services p)"

lemma parses_cck_or_hyperframe:
  assumes "MacSysinfo_ok p" and "\<And>v. v = (si_cck_id p, si_hyperframe_number p) \<Longrightarrow> parses_on (f v) ys rest y"
  shows "parses_on (bind (read_field 1 ''has_cck_field'') (\<lambda>has_cck_field.
     bind (if has_cck_field = 1 then bind (read_field 16 ''cck_id'') (\<lambda>v. ret (Some (ucast v), None))
           else bind (read_field 16 ''hyperframe_number'') (\<lambda>v. ret (None, Some (ucast v)))) f))
     (enc_cck_or_hyperframe p @ ys) rest y"
  using assms unfolding MacSysinfo_ok_def enc_cck_or_hyperframe_def
  by (cases "si_cck_id p"; cases "si_hyperframe_number p") (simp_all add: bind_assoc parses_field_bind)

lemma parses_MacSysinfo_option:
  assumes "MacSysinfo_wf p"
  shows "parses (case si_option_field p of
             SysinfoOptFieldFlag_EvenMfDefForTsMode \<Rightarrow> bind (seek_rel 20) (\<lambda>_. ret (None, None))
           | SysinfoOptFieldFlag_OddMfDefForTsMode \<Rightarrow> bind (seek_rel 20) (\<lambda>_. ret (None, None))
           | SysinfoOptFieldFlag_DefaultDefForAccCodeA \<Rightarrow>
               bind SysinfoDefaultDefForAccessCodeA_from_bitbuf (\<lambda>d. ret (Some d, None))
           | SysinfoOptFieldFlag_ExtServicesBroadcast \<Rightarrow>
               bind (SysinfoExtendedServices_from_bitbuf True) (\<lambda>x. ret (None, Some x)))
     (MacSysinfo_option_enc p) (si_default_access_code p, si_ext_services p)"
  using assms unfolding MacSysinfo_wf_def MacSysinfo_ok_def MacSysinfo_option_enc_def
  by (auto intro!: parsesI SysinfoDefaultDefForAccessCodeA.parses_last SysinfoExtendedServices.parses_last parses_ret
      split: option.splits)

interpretation MacSysinfo: codec MacSysinfo_wf MacSysinfo_enc MacSysinfo_to_bitbuf MacSysinfo_from_bitbuf
proof
  show "emits (MacSysinfo_to_bitbuf p) (MacSysinfo_enc p)" if "MacSysinfo_wf p" for p
    using that by (simp add: MacSysinfo_wf_def emits_MacSysinfo)
  show "parses MacSysinfo_from_bitbuf (MacSysinfo_enc p) p" if wf: "MacSysinfo_wf p" for p
  proof -
    have ok: "MacSysinfo_ok p" and t: "si_ts_common_frames p = None" using wf by (simp_all add: MacSysinfo_wf_def)
    show ?thesis
      using ok [unfolded MacSysinfo_ok_def] unfolding MacSysinfo_from_bitbuf_def MacSysinfo_enc_def
      by (intro parsesI parses_field_bind parses_cck_or_hyperframe [OF ok] SysinfoOptFieldFlag.raw_bind
            parses_bind_last [OF parses_MacSysinfo_option [OF wf]] parses_ret)
         (simp_all add: SysinfoOptFieldFlag.raw_bind parses_bind_last [OF parses_MacSysinfo_option [OF wf]] parses_ret t)
  qed
qed

section \<open>D-MLE-SYNC and D-MLE-SYSINFO\<close>

definition DMleSync_wf :: "DMleSync \<Rightarrow> bool" where
  "DMleSync_wf p \<longleftrightarrow> fits 10 (sy_mcc p) \<and> fits 14 (sy_mnc p) \<and> fits 2 (sy_neighbor_cell_broadcast p) \<and> fits 2 (sy_cell_load_ca p)"

definition DMleSync_enc :: "DMleSync \<Rightarrow> bool list" where
  "DMleSync_enc p =
     to_bits 10 (ucast (sy_mcc p) :: u64) @ to_bits 14 (ucast (sy_mnc p) :: u64) @
     to_bits 2 (ucast (sy_neighbor_cell_broadcast p) :: u64) @ to_bits 2 (ucast (sy_cell_load_ca p) :: u64) @
     to_bits 1 (of_bool (sy_late_entry_supported p) :: u64)"

lemma length_DMleSync_enc [simp]: "length (DMleSync_enc p) = 29"
  by (simp add: DMleSync_enc_def)

interpretation DMleSync: safe_codec DMleSync_wf DMleSync_enc DMleSync_to_bitbuf DMleSync_from_bitbuf
proof
  show "emits (DMleSync_to_bitbuf p) (DMleSync_enc p)" if "DMleSync_wf p" for p
    using that unfolding DMleSync_to_bitbuf_def DMleSync_enc_def DMleSync_wf_def
    by (intro emits_seq_Cons emits_seq_last emits_write_bits) simp_all
  show "parses DMleSync_from_bitbuf (DMleSync_enc p) p" if "DMleSync_wf p" for p
    using that unfolding DMleSync_from_bitbuf_def DMleSync_enc_def DMleSync_wf_def
    by (intro parsesI parses_field_bind parses_field_last parses_ret) simp_all
  show "safe DMleSync_from_bitbuf"
    unfolding DMleSync_from_bitbuf_def by (intro safe_intros)
qed

definition BsServiceDetails_enc :: "BsServiceDetails \<Rightarrow> bool list" where
  "BsServiceDetails_enc p =
     flag_bits [sd_registration p, sd_deregistration p, sd_priority_cell p, sd_no_minimum_mode p, sd_migration p,
       sd_system_wide_services p, sd_voice_service p, sd_circuit_mode_data_service p] @ to_bits 1 (0 :: u64) @
     flag_bits [sd_sndcp_service p, sd_aie_service p] @ to_bits 1 (of_bool (sd_advanced_link p) :: u64)"

lemma length_BsServiceDetails_enc [simp]: "length (BsServiceDetails_enc p) = 12"
  by (simp add: BsServiceDetails_enc_def)

interpretation BsServiceDetails: safe_codec "\<lambda>_. True" BsServiceDetails_enc BsServiceDetails_to_bitbuf BsServiceDetails_from_bitbuf
proof
  show "emits (BsServiceDetails_to_bitbuf p) (BsServiceDetails_enc p)" for p
    unfolding BsServiceDetails_to_bitbuf_def BsServiceDetails_enc_def flag_bits_simps append.append_Nil append_assoc
    by (intro emits_seq_Cons emits_seq_last emits_write_bits) simp_all
  show "parses BsServiceDetails_from_bitbuf (BsServiceDetails_enc p) p" for p
    unfolding BsServiceDetails_from_bitbuf_def BsServiceDetails_enc_def flag_bits_simps append.append_Nil append_assoc
    by (intro parsesI parses_field_bind parses_field_last parses_ret) simp_all
  show "safe BsServiceDetails_from_bitbuf"
    unfolding BsServiceDetails_from_bitbuf_def by (intro safe_intros)
qed

definition DMleSysinfo_wf :: "DMleSysinfo \<Rightarrow> bool" where
  "DMleSysinfo_wf p \<longleftrightarrow> fits 14 (ml_location_area p)"

definition DMleSysinfo_enc :: "DMleSysinfo \<Rightarrow> bool list" where
  "DMleSysinfo_enc p =
     to_bits 14 (ucast (ml_location_area p) :: u64) @ to_bits 16 (ucast (ml_subscriber_class p) :: u64) @
     BsServiceDetails_enc (ml_bs_service_details p)"

lemma length_DMleSysinfo_enc [simp]: "length (DMleSysinfo_enc p) = 42"
  by (simp add: DMleSysinfo_enc_def)

interpretation DMleSysinfo: safe_codec DMleSysinfo_wf DMleSysinfo_enc DMleSysinfo_to_bitbuf DMleSysinfo_from_bitbuf
proof
  show "emits (DMleSysinfo_to_bitbuf p) (DMleSysinfo_enc p)" if "DMleSysinfo_wf p" for p
    using that unfolding DMleSysinfo_to_bitbuf_def DMleSysinfo_enc_def DMleSysinfo_wf_def
    by (intro emits_seq_Cons emits_seq_last emits_write_bits BsServiceDetails.emits) simp_all
  show "parses DMleSysinfo_from_bitbuf (DMleSysinfo_enc p) p" if "DMleSysinfo_wf p" for p
    using that unfolding DMleSysinfo_from_bitbuf_def DMleSysinfo_enc_def DMleSysinfo_wf_def
    by (intro parsesI parses_field_bind BsServiceDetails.parses_last parses_ret) simp_all
  show "safe DMleSysinfo_from_bitbuf"
    unfolding DMleSysinfo_from_bitbuf_def by (intro safe_intros BsServiceDetails.safe)
qed

section \<open>ACCESS-DEFINE\<close>

definition AccessDefine_wf :: "AccessDefine \<Rightarrow> bool" where
  "AccessDefine_wf p \<longleftrightarrow>
     fits 2 (ad_access_code p) \<and> fits 4 (ad_imm p) \<and> fits 4 (ad_wt p) \<and> fits 4 (ad_nu p) \<and> fits 4 (ad_ts_pointer p) \<and>
     fits 3 (ad_min_pdu_prio p) \<and> fits 2 (ad_opt_field_flag p) \<and>
     (ad_subscriber_class p \<noteq> None) = (ad_opt_field_flag p = 1) \<and> (ad_gssi p \<noteq> None) = (ad_opt_field_flag p = 2) \<and>
     pred_option (fits 24) (ad_gssi p)"

definition AccessDefine_enc :: "AccessDefine \<Rightarrow> bool list" where
  "AccessDefine_enc p =
     to_bits 2 (2 :: u64) @ to_bits 2 (1 :: u64) @ to_bits 1 (of_bool (ad_common_or_assigned_control p) :: u64) @
     to_bits 2 (ucast (ad_access_code p) :: u64) @ to_bits 4 (ucast (ad_imm p) :: u64) @ to_bits 4 (ucast (ad_wt p) :: u64) @
     to_bits 4 (ucast (ad_nu p) :: u64) @ to_bits 1 (of_bool (ad_frame_len_factor p) :: u64) @
     to_bits 4 (ucast (ad_ts_pointer p) :: u64) @ to_bits 3 (ucast (ad_min_pdu_prio p) :: u64) @
     to_bits 2 (ucast (ad_opt_field_flag p) :: u64) @
     (case ad_subscriber_class p of Some v \<Rightarrow> to_bits 16 (ucast v :: u64) | None \<Rightarrow> []) @
     (case ad_gssi p of Some v \<Rightarrow> to_bits 24 (ucast v :: u64) | None \<Rightarrow> []) @ to_bits 3 (4 :: u64)"

lemma parses_optional_field:
  "(x \<noteq> None) = c \<Longrightarrow> n \<le> 64 \<Longrightarrow> pred_option (\<lambda>v. fits n v) x \<Longrightarrow>
   parses (if c then bind (read_field n s) (\<lambda>v. ret (Some (ucast v))) else ret None)
     (case x of Some v \<Rightarrow> to_bits n (ucast v :: u64) | None \<Rightarrow> []) x" if "LENGTH('a) \<le> 64" for x :: "'a::len word option"
  using that by (cases x) (auto intro!: parsesI parses_field_last parses_ret)

interpretation AccessDefine: codec AccessDefine_wf AccessDefine_enc AccessDefine_to_bitbuf AccessDefine_from_bitbuf
proof
  show "emits (AccessDefine_to_bitbuf p) (AccessDefine_enc p)" if "AccessDefine_wf p" for p
    using that unfolding AccessDefine_to_bitbuf_def AccessDefine_enc_def AccessDefine_wf_def
    by (intro emits_seq_Cons emits_seq_last emits_write_bits) (auto intro!: emits_write_bits emits_ret split: option.splits)
  show "parses AccessDefine_from_bitbuf (AccessDefine_enc p) p" if wf: "AccessDefine_wf p" for p
  proof -
    have inj: "(ucast w :: u64) = ucast v \<longleftrightarrow> w = v" for w v :: u8
    proof -
      have "(ucast (ucast w :: u64) :: u8) = w" "(ucast (ucast v :: u64) :: u8) = v" by simp_all
      then show ?thesis by metis
    qed
    have u: "(ucast (ad_opt_field_flag p) :: u64) = 1 \<longleftrightarrow> ad_opt_field_flag p = 1"
      "(ucast (ad_opt_field_flag p) :: u64) = 2 \<longleftrightarrow> ad_opt_field_flag p = 2"
      using inj [of "ad_opt_field_flag p" 1] inj [of "ad_opt_field_flag p" 2] by simp_all
    have s: "parses (if (ucast (ad_opt_field_flag p) :: u64) = 1 then bind (read_field 16 s) (\<lambda>v. ret (Some (ucast v))) else ret None)
        (case ad_subscriber_class p of Some v \<Rightarrow> to_bits 16 (ucast v :: u64) | None \<Rightarrow> []) (ad_subscriber_class p)" for s
      using wf unfolding u by (intro parses_optional_field) (auto simp: AccessDefine_wf_def option.pred_set)
    have g: "parses (if (ucast (ad_opt_field_flag p) :: u64) = 2 then bind (read_field 24 s) (\<lambda>v. ret (Some (ucast v))) else ret None)
        (case ad_gssi p of Some v \<Rightarrow> to_bits 24 (ucast v :: u64) | None \<Rightarrow> []) (ad_gssi p)" for s
      using wf unfolding u by (intro parses_optional_field) (auto simp: AccessDefine_wf_def)
    show ?thesis
      using wf unfolding AccessDefine_from_bitbuf_def AccessDefine_enc_def AccessDefine_wf_def
      by (intro parsesI parses_field_bind parses_field_last parses_guard_bind parses_ret parses_bind [OF s] parses_bind [OF g])
         simp_all
  qed
qed

end
