(* ===== verification/Circuit_Mgr.thy ===== *)
theory Circuit_Mgr
  imports Prelude
begin

text \<open>
  \<open>umac/subcomp/circuit_mgr.rs\<close>: the table of active circuits per direction, carrier and timeslot, and the queues
  of downlink voice blocks. A \<open>HashMap\<close> is a map from its keys. Two interfaces are locales: \<open>keyed_table\<close> for the
  circuit tables and \<open>bounded_fifo\<close> for a voice queue that drops its oldest blocks on overflow.
\<close>

section \<open>Interfaces\<close>

text \<open>A table of values that carry their own key.\<close>

locale keyed_table =
  fixes lookup :: "'m \<Rightarrow> 'k \<Rightarrow> 'v option"
    and insert :: "'m \<Rightarrow> 'v \<Rightarrow> 'm"
    and remove :: "'m \<Rightarrow> 'k \<Rightarrow> 'm"
    and key :: "'v \<Rightarrow> 'k"
  assumes lookup_insert: "lookup (insert m v) k = (if k = key v then Some v else lookup m k)"
    and lookup_remove: "lookup (remove m k) k' = (if k' = k then None else lookup m k')"
begin

lemma insert_replaces: "lookup (insert (insert m v) w) k = (if key v = key w then lookup (insert m w) k
    else if k = key w then Some w else lookup (insert m v) k)"
  by (simp add: lookup_insert)

lemma remove_insert: "lookup (remove (insert m v) (key v)) k = lookup (remove m (key v)) k"
  by (simp add: lookup_insert lookup_remove)

lemma inserts_lookup: "lookup (foldl insert m vs) k = (case find (\<lambda>v. key v = k) (rev vs) of Some v \<Rightarrow> Some v | None \<Rightarrow> lookup m k)"
  by (induction vs rule: rev_induct) (auto simp: lookup_insert)

end

lemma drop_latest:
  "drop (length (drop (length l - c) l) + 1 - c) (drop (length l - c) l @ [x]) = drop (length (l @ [x]) - c) (l @ [x])"
proof (cases "length l \<le> c")
  case False
  then have "length l - (length l - c) = c" and "length l + 1 - c = Suc (length l - c)" by simp_all
  then show ?thesis using False by (simp add: drop_Suc)
qed simp

text \<open>A queue of at most \<open>cap\<close> elements: the oldest ones give way.\<close>

locale bounded_fifo =
  fixes queue :: "'m \<Rightarrow> 'a list"
    and push :: "'m \<Rightarrow> 'a \<Rightarrow> 'm"
    and pop :: "'m \<Rightarrow> 'a option \<times> 'm"
    and ready :: "'m \<Rightarrow> bool"
    and cap :: nat
  assumes queue_push: "ready m \<Longrightarrow> queue (push m x) = drop (length (queue m) + 1 - cap) (queue m @ [x])"
    and ready_push: "ready m \<Longrightarrow> ready (push m x)"
    and pop_spec: "ready m \<Longrightarrow> fst (pop m) = (case queue m of [] \<Rightarrow> None | x # _ \<Rightarrow> Some x) \<and> queue (snd (pop m)) = tl (queue m)"
    and ready_pop: "ready m \<Longrightarrow> ready (snd (pop m))"
begin

lemma pushes:
  assumes "ready m" and "length (queue m) \<le> cap"
  shows "queue (foldl push m xs) = drop (length (queue m @ xs) - cap) (queue m @ xs) \<and> ready (foldl push m xs)"
proof (induction xs rule: rev_induct)
  case Nil
  with assms show ?case by simp
next
  case (snoc x xs)
  let ?m = "foldl push m xs" and ?all = "queue m @ xs"
  have q: "queue ?m = drop (length ?all - cap) ?all" and r: "ready ?m" using snoc by auto
  have "queue (push ?m x) = drop (length (queue ?m) + 1 - cap) (queue ?m @ [x])" using r by (rule queue_push)
  also have "\<dots> = drop (length (?all @ [x]) - cap) (?all @ [x])" unfolding q by (rule drop_latest)
  finally show ?case using r by (simp add: ready_push)
qed

text \<open>The values that \<open>n\<close> pops return.\<close>

primrec pops :: "nat \<Rightarrow> 'm \<Rightarrow> 'a option list" where
  "pops 0 m = []"
| "pops (Suc n) m = fst (pop m) # pops n (snd (pop m))"

lemma pops_queue:
  "ready m \<Longrightarrow> pops n m = map Some (take n (queue m)) @ replicate (n - length (queue m)) None"
proof (induction n arbitrary: m)
  case 0
  then show ?case by simp
next
  case (Suc n)
  then have "pops n (snd (pop m)) = map Some (take n (tl (queue m))) @ replicate (n - length (tl (queue m))) None"
    using pop_spec ready_pop by (metis Suc.IH)
  with pop_spec [OF Suc.prems] show ?case by (cases "queue m") simp_all
qed

end

section \<open>State\<close>

datatype Direction = Direction_None | Direction_Ul | Direction_Dl | Direction_Both

datatype CircuitDlMediaSource = LocalLoopback | SwMI

datatype CircuitModeType = CircuitModeType_TchS | CircuitModeType_Tch72 | CircuitModeType_Tch48n1 | CircuitModeType_Tch48n4
  | CircuitModeType_Tch48n8 | CircuitModeType_Tch24n1 | CircuitModeType_Tch24n4 | CircuitModeType_Tch24n8

record Circuit =
  ci_direction :: Direction
  ci_ts :: u8
  ci_carrier_num :: u16
  ci_peer_carrier_num :: "u16 option"
  ci_peer_ts :: "u8 option"
  ci_usage :: u8
  ci_circuit_mode :: CircuitModeType
  ci_speech_service :: "u8 option"
  ci_etee_encrypted :: bool
  ci_dl_media_source :: CircuitDlMediaSource

definition MAX_QUEUED_DL_BLOCKS :: nat where
  "MAX_QUEUED_DL_BLOCKS = 4"

type_synonym slot_key = "u16 \<times> u8"

record CircuitMgr =
  cm_dl :: "slot_key \<rightharpoonup> Circuit"
  cm_ul :: "slot_key \<rightharpoonup> Circuit"
  cm_tx_data :: "slot_key \<rightharpoonup> u8 list list"
  cm_tx_data_drops :: "slot_key \<rightharpoonup> u64"

definition CircuitMgr_new :: CircuitMgr where
  "CircuitMgr_new = \<lparr>cm_dl = Map.empty, cm_ul = Map.empty, cm_tx_data = Map.empty, cm_tx_data_drops = Map.empty\<rparr>"

section \<open>Operations\<close>

definition cm_is_active :: "CircuitMgr \<Rightarrow> Direction \<Rightarrow> u16 \<Rightarrow> u8 \<Rightarrow> bool" where
  "cm_is_active m dir carrier_num ts =
     (let key = (carrier_num, ts)
      in case dir of
           Direction_Dl \<Rightarrow> cm_dl m key \<noteq> None
         | Direction_Ul \<Rightarrow> cm_ul m key \<noteq> None
         | _ \<Rightarrow> False)"

definition get_usage :: "CircuitMgr \<Rightarrow> Direction \<Rightarrow> u16 \<Rightarrow> u8 \<Rightarrow> u8 option" where
  "get_usage m dir carrier_num ts =
     (let key = (carrier_num, ts)
      in case dir of
           Direction_Dl \<Rightarrow> map_option ci_usage (cm_dl m key)
         | Direction_Ul \<Rightarrow> map_option ci_usage (cm_ul m key)
         | _ \<Rightarrow> None)"

definition get_ul_peer_route :: "CircuitMgr \<Rightarrow> u16 \<Rightarrow> u8 \<Rightarrow> slot_key option" where
  "get_ul_peer_route m carrier_num ts =
     (let key = (carrier_num, ts);
          circuit = (case cm_dl m key of
                       Some dl \<Rightarrow> if ci_direction dl = Direction_Both then Some dl else cm_ul m key
                     | None \<Rightarrow> cm_ul m key)
      in case circuit of
           None \<Rightarrow> None
         | Some c \<Rightarrow> map_option (\<lambda>peer_ts.
             (case ci_peer_carrier_num c of Some p \<Rightarrow> p | None \<Rightarrow> carrier_num, peer_ts)) (ci_peer_ts c))"

definition get_dl_media_source :: "CircuitMgr \<Rightarrow> u16 \<Rightarrow> u8 \<Rightarrow> CircuitDlMediaSource option" where
  "get_dl_media_source m carrier_num ts = map_option ci_dl_media_source (cm_dl m (carrier_num, ts))"

definition cm_close_circuit :: "CircuitMgr \<Rightarrow> Direction \<Rightarrow> u16 \<Rightarrow> u8 \<Rightarrow> Circuit option \<times> CircuitMgr" where
  "cm_close_circuit m dir carrier_num ts =
     (let key = (carrier_num, ts)
      in case dir of
           Direction_Dl \<Rightarrow>
             (cm_dl m key,
              m\<lparr>cm_tx_data := (cm_tx_data m)(key := None), cm_tx_data_drops := (cm_tx_data_drops m)(key := None),
                cm_dl := (cm_dl m)(key := None)\<rparr>)
         | Direction_Ul \<Rightarrow> (cm_ul m key, m\<lparr>cm_ul := (cm_ul m)(key := None)\<rparr>)
         | _ \<Rightarrow> (None, m))"

definition cm_create_circuit :: "CircuitMgr \<Rightarrow> Direction \<Rightarrow> Circuit \<Rightarrow> CircuitMgr" where
  "cm_create_circuit m dir circuit =
     (let key = (ci_carrier_num circuit, ci_ts circuit);
          m = (if cm_is_active m dir (ci_carrier_num circuit) (ci_ts circuit)
               then snd (cm_close_circuit m dir (ci_carrier_num circuit) (ci_ts circuit)) else m)
      in case dir of
           Direction_Dl \<Rightarrow>
             let m = (if (case cm_tx_data m key of Some q \<Rightarrow> q \<noteq> [] | None \<Rightarrow> False)
                      then m\<lparr>cm_tx_data := (cm_tx_data m)(key := None)\<rparr> else m)
             in m\<lparr>cm_tx_data_drops := (cm_tx_data_drops m)(key := None), cm_dl := (cm_dl m)(key \<mapsto> circuit)\<rparr>
         | Direction_Ul \<Rightarrow> m\<lparr>cm_ul := (cm_ul m)(key \<mapsto> circuit)\<rparr>
         | _ \<Rightarrow> m)"

definition put_block :: "CircuitMgr \<Rightarrow> u16 \<Rightarrow> u8 \<Rightarrow> u8 list \<Rightarrow> CircuitMgr" where
  "put_block m carrier_num ts block =
     (if \<not> cm_is_active m Direction_Dl carrier_num ts then m
      else
        let key = (carrier_num, ts);
            queue = (case cm_tx_data m key of Some q \<Rightarrow> q | None \<Rightarrow> []) @ [block];
            overflow = length queue - MAX_QUEUED_DL_BLOCKS
        in if overflow = 0 then m\<lparr>cm_tx_data := (cm_tx_data m)(key \<mapsto> queue)\<rparr>
           else
             let drops = (case cm_tx_data_drops m key of Some d \<Rightarrow> d | None \<Rightarrow> 0)
             in m\<lparr>cm_tx_data := (cm_tx_data m)(key \<mapsto> drop overflow queue),
                  cm_tx_data_drops := (cm_tx_data_drops m)(key \<mapsto> drops + of_nat overflow)\<rparr>)"

definition queued_block_count :: "CircuitMgr \<Rightarrow> u16 \<Rightarrow> u8 \<Rightarrow> nat" where
  "queued_block_count m carrier_num ts = (case cm_tx_data m (carrier_num, ts) of Some q \<Rightarrow> length q | None \<Rightarrow> 0)"

definition take_block :: "CircuitMgr \<Rightarrow> u16 \<Rightarrow> u8 \<Rightarrow> u8 list option \<times> CircuitMgr" where
  "take_block m carrier_num ts =
     (if \<not> cm_is_active m Direction_Dl carrier_num ts then (None, m)
      else
        let key = (carrier_num, ts)
        in case cm_tx_data m key of
             Some (b # q) \<Rightarrow> (Some b, m\<lparr>cm_tx_data := (cm_tx_data m)(key \<mapsto> q)\<rparr>)
           | _ \<Rightarrow> (None, m))"

section \<open>Invariant\<close>

definition voice_queue :: "u16 \<Rightarrow> u8 \<Rightarrow> CircuitMgr \<Rightarrow> u8 list list" where
  "voice_queue carrier ts m = (case cm_tx_data m (carrier, ts) of Some q \<Rightarrow> q | None \<Rightarrow> [])"

text \<open>Voice is queued, and losses are counted, on open downlink circuits only, and no queue is over its bound.\<close>

definition cm_inv :: "CircuitMgr \<Rightarrow> bool" where
  "cm_inv m \<longleftrightarrow>
     (\<forall>k q. cm_tx_data m k = Some q \<longrightarrow> cm_dl m k \<noteq> None \<and> length q \<le> MAX_QUEUED_DL_BLOCKS) \<and>
     (\<forall>k. cm_tx_data_drops m k \<noteq> None \<longrightarrow> cm_dl m k \<noteq> None) \<and>
     (\<forall>k c. cm_dl m k = Some c \<longrightarrow> k = (ci_carrier_num c, ci_ts c)) \<and>
     (\<forall>k c. cm_ul m k = Some c \<longrightarrow> k = (ci_carrier_num c, ci_ts c))"

lemma cm_inv_queue: "cm_inv m \<Longrightarrow> cm_tx_data m k = Some q \<Longrightarrow> cm_dl m k \<noteq> None \<and> length q \<le> MAX_QUEUED_DL_BLOCKS"
  unfolding cm_inv_def by blast

lemma cm_inv_new: "cm_inv CircuitMgr_new"
  by (simp add: cm_inv_def CircuitMgr_new_def)

lemma cm_inv_close: "cm_inv m \<Longrightarrow> cm_inv (snd (cm_close_circuit m dir carrier ts))"
  by (cases dir) (auto simp: cm_inv_def cm_close_circuit_def Let_def)

lemma cm_inv_open_dl:
  assumes "cm_inv m"
  shows "cm_inv (m\<lparr>cm_tx_data_drops := (cm_tx_data_drops m)((ci_carrier_num c, ci_ts c) := None),
    cm_dl := (cm_dl m)((ci_carrier_num c, ci_ts c) \<mapsto> c)\<rparr>)"
  using assms unfolding cm_inv_def by auto

lemma cm_inv_open_ul: "cm_inv m \<Longrightarrow> cm_inv (m\<lparr>cm_ul := (cm_ul m)((ci_carrier_num c, ci_ts c) \<mapsto> c)\<rparr>)"
  by (simp add: cm_inv_def)

lemma cm_inv_purge: "cm_inv m \<Longrightarrow> cm_inv (m\<lparr>cm_tx_data := (cm_tx_data m)(k := None)\<rparr>)"
  by (simp add: cm_inv_def)

lemma cm_inv_create:
  assumes "cm_inv m"
  shows "cm_inv (cm_create_circuit m dir c)"
proof -
  define m' where "m' = (if cm_is_active m dir (ci_carrier_num c) (ci_ts c)
      then snd (cm_close_circuit m dir (ci_carrier_num c) (ci_ts c)) else m)"
  have "cm_inv m'" using assms by (simp add: m'_def cm_inv_close)
  then show ?thesis
    using cm_inv_open_dl [OF cm_inv_purge, of m' "(ci_carrier_num c, ci_ts c)" c]
    unfolding cm_create_circuit_def Let_def m'_def [symmetric]
    by (cases dir) (simp_all add: cm_inv_open_dl cm_inv_open_ul)
qed

lemma cm_inv_put: "cm_inv m \<Longrightarrow> cm_inv (put_block m carrier ts b)"
  by (auto simp: cm_inv_def put_block_def cm_is_active_def Let_def split: option.splits)

lemma cm_inv_take: "cm_inv m \<Longrightarrow> cm_inv (snd (take_block m carrier ts))"
proof (cases "cm_is_active m Direction_Dl carrier ts \<and> voice_queue carrier ts m \<noteq> []")
  case True
  moreover assume inv: "cm_inv m"
  ultimately obtain b q where q: "cm_tx_data m (carrier, ts) = Some (b # q)"
    by (cases "voice_queue carrier ts m") (auto simp: voice_queue_def split: option.splits)
  then have "length q \<le> MAX_QUEUED_DL_BLOCKS" "cm_dl m (carrier, ts) \<noteq> None"
    using cm_inv_queue [OF inv q] by simp_all
  with inv q True show ?thesis unfolding cm_inv_def take_block_def by (simp split: option.split)
next
  case False
  moreover assume "cm_inv m"
  ultimately show ?thesis by (auto simp: take_block_def voice_queue_def Let_def split: option.splits list.splits)
qed

lemmas cm_inv_intros = cm_inv_new cm_inv_close cm_inv_create cm_inv_put cm_inv_take

section \<open>The tables and queues implement their interfaces\<close>

definition circuit_key :: "Circuit \<Rightarrow> slot_key" where
  "circuit_key c = (ci_carrier_num c, ci_ts c)"

interpretation dl_table: keyed_table cm_dl "\<lambda>m. cm_create_circuit m Direction_Dl"
  "\<lambda>m (c, t). snd (cm_close_circuit m Direction_Dl c t)" circuit_key
  by unfold_locales (auto simp: cm_create_circuit_def cm_close_circuit_def circuit_key_def Let_def)

interpretation ul_table: keyed_table cm_ul "\<lambda>m. cm_create_circuit m Direction_Ul"
  "\<lambda>m (c, t). snd (cm_close_circuit m Direction_Ul c t)" circuit_key
  by unfold_locales (auto simp: cm_create_circuit_def cm_close_circuit_def circuit_key_def Let_def)

interpretation voice: bounded_fifo "voice_queue carrier ts" "\<lambda>m. put_block m carrier ts" "\<lambda>m. take_block m carrier ts"
  "\<lambda>m. cm_is_active m Direction_Dl carrier ts" MAX_QUEUED_DL_BLOCKS for carrier ts
proof
  fix m and x :: "u8 list"
  assume r: "cm_is_active m Direction_Dl carrier ts"
  show "voice_queue carrier ts (put_block m carrier ts x) =
      drop (length (voice_queue carrier ts m) + 1 - MAX_QUEUED_DL_BLOCKS) (voice_queue carrier ts m @ [x])"
    using r by (auto simp: voice_queue_def put_block_def Let_def split: option.split)
  show "cm_is_active (put_block m carrier ts x) Direction_Dl carrier ts"
    using r by (auto simp: put_block_def cm_is_active_def Let_def)
  show "fst (take_block m carrier ts) = (case voice_queue carrier ts m of [] \<Rightarrow> None | x # _ \<Rightarrow> Some x) \<and>
      voice_queue carrier ts (snd (take_block m carrier ts)) = tl (voice_queue carrier ts m)"
    using r by (auto simp: voice_queue_def take_block_def Let_def split: option.split list.split)
  show "cm_is_active (snd (take_block m carrier ts)) Direction_Dl carrier ts"
    using r by (auto simp: take_block_def cm_is_active_def Let_def split: option.split list.split)
qed

text \<open>What the next \<open>n\<close> calls of \<open>take_block\<close> return.\<close>

primrec taken :: "u16 \<Rightarrow> u8 \<Rightarrow> nat \<Rightarrow> CircuitMgr \<Rightarrow> u8 list option list" where
  "taken carrier ts 0 m = []"
| "taken carrier ts (Suc n) m = fst (take_block m carrier ts) # taken carrier ts n (snd (take_block m carrier ts))"

lemma taken_pops: "taken carrier ts n m = voice.pops carrier ts n m"
  by (induction n arbitrary: m) simp_all

lemma voice_queue_bounded: "cm_inv m \<Longrightarrow> length (voice_queue carrier ts m) \<le> MAX_QUEUED_DL_BLOCKS"
  by (auto simp: voice_queue_def cm_inv_def split: option.split)

text \<open>Closing a downlink circuit discards its voice; opening one starts with an empty queue.\<close>

lemma voice_queue_close [simp]: "voice_queue c t (snd (cm_close_circuit m Direction_Dl c t)) = []"
  by (simp add: voice_queue_def cm_close_circuit_def Let_def)

lemma voice_queue_create:
  "cm_inv m \<Longrightarrow> voice_queue (ci_carrier_num c) (ci_ts c) (cm_create_circuit m Direction_Dl c) = []"
  by (auto simp: voice_queue_def cm_create_circuit_def cm_close_circuit_def cm_is_active_def cm_inv_def Let_def
      split: option.split)

text \<open>The loss counter is exact (modulo its width): what was offered is queued, taken or counted.\<close>

definition drops :: "u16 \<Rightarrow> u8 \<Rightarrow> CircuitMgr \<Rightarrow> u64" where
  "drops carrier ts m = (case cm_tx_data_drops m (carrier, ts) of Some d \<Rightarrow> d | None \<Rightarrow> 0)"

lemma drops_put:
  "cm_is_active m Direction_Dl carrier ts \<Longrightarrow>
   drops carrier ts (put_block m carrier ts b) + of_nat (length (voice_queue carrier ts (put_block m carrier ts b))) =
   drops carrier ts m + of_nat (length (voice_queue carrier ts m)) + 1"
  by (auto simp: drops_def voice_queue_def put_block_def Let_def split: option.split)
     (auto simp: of_nat_diff MAX_QUEUED_DL_BLOCKS_def)

end
