(* ===== verification/Bs_Sched.thy ===== *)
theory Bs_Sched
  imports Bs_Frag_Spec Error_Control Broadcast_Pdus_Spec Circuit_Mgr
begin

text \<open>
  \<open>umac/subcomp/bs_sched.rs\<close>, part 1: the state of the channel scheduler of the base station and its uplink half,
  the schedule of the next eighteen frames in which capacity requests are granted. The operations are programs over
  the scheduler's state. An index \<open>ts as usize - 1\<close> is \<open>ts_idx ts\<close>; \<open>None\<close> and an index out of range panic.

  A \<open>TxReporter\<close> is shared with the layer that waits for it. The field \<open>sc_reports\<close> is not in the source: it collects
  the reporters that left the scheduler, in the state they were left in, which is what that layer sees.
\<close>

section \<open>State\<close>

definition MACSCHED_TX_AHEAD :: nat where "MACSCHED_TX_AHEAD = 1"
definition MACSCHED_NUM_FRAMES :: nat where "MACSCHED_NUM_FRAMES = 18"
definition MAX_GRANTING_DELAY_OPPORTUNITIES :: nat where "MAX_GRANTING_DELAY_OPPORTUNITIES = 13"
definition NULL_PDU_LEN_BITS :: nat where "NULL_PDU_LEN_BITS = 16"
definition SCH_HD_CAP :: nat where "SCH_HD_CAP = 124"
definition SCH_F_CAP :: nat where "SCH_F_CAP = 268"
definition TCH_S_CAP :: nat where "TCH_S_CAP = 274"
definition NUM_TIMESLOTS :: nat where "NUM_TIMESLOTS = 4"

datatype PhyBlockNum = PhyBlockNum_Both | PhyBlockNum_Block1 | PhyBlockNum_Block2 | PhyBlockNum_Undefined

datatype PhysicalChannel = PhysicalChannel_Tp | PhysicalChannel_Cp | PhysicalChannel_Unallocated

datatype CarrierDownlinkMode = PrimaryMcch | SecondaryBcchNoMcch | TrafficOnly

definition emit_bcch :: "CarrierDownlinkMode \<Rightarrow> bool" where
  "emit_bcch mode = (mode = PrimaryMcch \<or> mode = SecondaryBcchNoMcch)"

definition mode_allow_mcch :: "CarrierDownlinkMode \<Rightarrow> bool" where
  "mode_allow_mcch mode = (mode = PrimaryMcch)"

definition mode_allow_common_control_aach :: "CarrierDownlinkMode \<Rightarrow> bool" where
  "mode_allow_common_control_aach mode = (mode = PrimaryMcch)"

definition allow_assigned_traffic_ts1 :: "CarrierDownlinkMode \<Rightarrow> bool" where
  "allow_assigned_traffic_ts1 mode = (mode = SecondaryBcchNoMcch \<or> mode = TrafficOnly)"

record PrecomputedUmacPdus =
  pc_mac_sysinfo1 :: MacSysinfo
  pc_mac_sysinfo2 :: MacSysinfo
  pc_mle_sysinfo :: DMleSysinfo
  pc_mac_sync :: MacSync
  pc_mle_sync :: DMleSync

record TimeslotSchedule =
  ul1 :: "u32 option"
  ul2 :: "u32 option"
  usage_marker :: "u8 option"

datatype DlSchedElem =
    DlSchedElem_Broadcast int
  | DlSchedElem_RandomAccessAck TetraAddress
  | DlSchedElem_Grant TetraAddress BasicSlotgrant "u8 option"
  | DlSchedElem_Resource MacResource bitbuffer "TxReporter option"
  | DlSchedElem_FragBuf BsFragger
  | DlSchedElem_Stealing bitbuffer "TxReporter option"

record BsChannelScheduler =
  sc_cur_dltime :: TdmaTime
  sc_carrier_num :: u16
  sc_downlink_mode :: CarrierDownlinkMode
  sc_scrambling_code :: u32
  sc_precomps :: PrecomputedUmacPdus
  sc_dltx_next_slot_queue :: "DlSchedElem list"
  sc_dltx_queues :: "DlSchedElem list list"
  sc_ulsched :: "TimeslotSchedule list list"
  sc_circuits :: CircuitMgr
  sc_hangtime :: "bool list"
  sc_pending_ra_acks :: "u32 list list"
  sc_mcch_chan_alloc_sent_this_frame :: bool
  sc_next_usage_marker :: "u8 list"
  sc_reports :: "TxReporter list"

type_synonym 'a sched = "(BsChannelScheduler, pdu_parse_err, 'a) prog"

definition EMPTY_SCHED_ELEM :: TimeslotSchedule where
  "EMPTY_SCHED_ELEM = \<lparr>ul1 = None, ul2 = None, usage_marker = None\<rparr>"

definition EMPTY_SCHED_CHANNEL :: "TimeslotSchedule list" where
  "EMPTY_SCHED_CHANNEL = replicate MACSCHED_NUM_FRAMES EMPTY_SCHED_ELEM"

definition EMPTY_SCHED :: "TimeslotSchedule list list" where
  "EMPTY_SCHED = replicate 4 EMPTY_SCHED_CHANNEL"

definition BsChannelScheduler_new :: "u32 \<Rightarrow> PrecomputedUmacPdus \<Rightarrow> BsChannelScheduler" where
  "BsChannelScheduler_new scrambling_code precomps =
     \<lparr>sc_cur_dltime = \<lparr>tm_t = 0, tm_f = 0, tm_m = 0, tm_h = 0\<rparr>,
      sc_carrier_num = si_main_carrier (pc_mac_sysinfo1 precomps),
      sc_downlink_mode = PrimaryMcch,
      sc_scrambling_code = scrambling_code,
      sc_precomps = precomps,
      sc_dltx_next_slot_queue = [],
      sc_dltx_queues = [[], [], [], []],
      sc_ulsched = EMPTY_SCHED,
      sc_circuits = CircuitMgr_new,
      sc_hangtime = [False, False, False, False],
      sc_pending_ra_acks = [[], [], [], []],
      sc_mcch_chan_alloc_sent_this_frame = False,
      sc_next_usage_marker = [4, 4, 4, 4],
      sc_reports = []\<rparr>"

section \<open>Indices\<close>

definition ts_idx :: "u8 \<Rightarrow> nat option" where
  "ts_idx ts = (if ts = 0 then None else Some (unat ts - 1))"

definition entry :: "'a list \<Rightarrow> nat option \<Rightarrow> 'a option" where
  "entry xs i = (case i of Some k \<Rightarrow> if k < length xs then Some (xs ! k) else None | None \<Rightarrow> None)"

definition valid_ts :: "u8 \<Rightarrow> bool" where
  "valid_ts ts \<longleftrightarrow> 1 \<le> ts \<and> ts \<le> 4"

definition set_entry :: "'a list \<Rightarrow> u8 \<Rightarrow> 'a \<Rightarrow> 'a list" where
  "set_entry xs ts x = xs[unat ts - 1 := x]"

text \<open>\<open>usize\<close> arithmetic, with its wrap-around for a frame or multiframe 0.\<close>

definition ul_ts_to_sched_index :: "TdmaTime \<Rightarrow> nat" where
  "ul_ts_to_sched_index ts =
     nat ((uint (tm_f ts) - 1) mod 2 ^ 64 + (uint (tm_m ts) - 1) mod 2 ^ 64 * 18 + uint (tm_h ts) * 18 * 60) mod 2 ^ 64
       mod MACSCHED_NUM_FRAMES"

definition ul_elem :: "BsChannelScheduler \<Rightarrow> u8 \<Rightarrow> TdmaTime \<Rightarrow> TimeslotSchedule option" where
  "ul_elem s t c =
     (case entry (sc_ulsched s) (ts_idx t) of
        Some frames \<Rightarrow> entry frames (Some (ul_ts_to_sched_index c))
      | None \<Rightarrow> None)"

definition set_ul_elem :: "u8 \<Rightarrow> TdmaTime \<Rightarrow> TimeslotSchedule \<Rightarrow> unit sched" where
  "set_ul_elem t c e s =
     Ok ((), s\<lparr>sc_ulsched := set_entry (sc_ulsched s) t ((sc_ulsched s ! (unat t - 1))[ul_ts_to_sched_index c := e])\<rparr>)"

section \<open>Uplink grants\<close>

text \<open>The loop over the next seventeen frames: the slots collected so far and the opportunities passed over.\<close>

fun grant_search ::
    "BsChannelScheduler \<Rightarrow> u8 \<Rightarrow> nat \<Rightarrow> bool \<Rightarrow> TdmaTime \<Rightarrow> nat list \<Rightarrow> TdmaTime list \<Rightarrow> nat \<Rightarrow>
     (pdu_parse_err, (nat \<times> TdmaTime list) option) outcome" where
  "grant_search s t num_slots is_halfslot first_opportunity [] grant_timeslots skipped = Ok None"
| "grant_search s t num_slots is_halfslot first_opportunity (dist # dists) grant_timeslots skipped =
     (let candidate_t = TdmaTime_add_timeslots first_opportunity (int dist * 4)
      in if tm_t candidate_t \<noteq> tm_t first_opportunity then Panic
         else if TdmaTime_is_mandatory_clch candidate_t then
           grant_search s t num_slots is_halfslot first_opportunity dists grant_timeslots skipped
         else if tm_f candidate_t = 18 then
           grant_search s t num_slots is_halfslot first_opportunity dists grant_timeslots skipped
         else
           (case ul_elem s t candidate_t of
              None \<Rightarrow> Panic
            | Some elem \<Rightarrow>
                let free = ul1 elem = None \<and> ul2 elem = None \<or> is_halfslot \<and> (ul1 elem = None \<or> ul2 elem = None);
                    slots' = (if free then grant_timeslots @ [candidate_t] else []);
                    skipped' = (if free then skipped else skipped + length grant_timeslots + 1)
                in if length slots' = num_slots then Ok (Some (skipped', slots'))
                   else grant_search s t num_slots is_halfslot first_opportunity dists slots' skipped'))"

definition ul_find_grant_opportunity ::
    "BsChannelScheduler \<Rightarrow> u8 \<Rightarrow> nat \<Rightarrow> bool \<Rightarrow> (pdu_parse_err, (nat \<times> TdmaTime list) option) outcome" where
  "ul_find_grant_opportunity s t num_slots is_halfslot =
     (let first_opportunity = TdmaTime_forward_to_timeslot (sc_cur_dltime s) t
      in if is_halfslot \<and> num_slots \<noteq> 1 then Panic
         else grant_search s t num_slots is_halfslot first_opportunity [0..<MACSCHED_NUM_FRAMES - 1] [] 0)"

text \<open>The loop over the granted slots; a half slot returns from inside it.\<close>

fun reserve_slots :: "u32 \<Rightarrow> TdmaTime list \<Rightarrow> bool \<Rightarrow> u8 option \<Rightarrow> u8 sched" where
  "reserve_slots ssi [] is_halfslot marker = ret 0"
| "reserve_slots ssi (ts # rest) is_halfslot marker =
     bind (gets (\<lambda>s. ul_elem s (tm_t ts) ts)) (\<lambda>e. bind (unwrap e) (\<lambda>elem.
     let elem = (case marker of Some m \<Rightarrow> elem\<lparr>usage_marker := Some m\<rparr> | None \<Rightarrow> elem)
     in if is_halfslot then
          if ul1 elem = None then
            bind (set_ul_elem (tm_t ts) ts (elem\<lparr>ul1 := Some ssi\<rparr>)) (\<lambda>_. ret 1)
          else
            bind (guard (ul2 elem = None)) (\<lambda>_.
            bind (set_ul_elem (tm_t ts) ts (elem\<lparr>ul2 := Some ssi\<rparr>)) (\<lambda>_. ret 2))
        else
          bind (guard (ul1 elem = None)) (\<lambda>_.
          bind (guard (ul2 elem = None)) (\<lambda>_.
          bind (set_ul_elem (tm_t ts) ts (elem\<lparr>ul1 := Some ssi, ul2 := Some ssi\<rparr>)) (\<lambda>_.
          reserve_slots ssi rest is_halfslot marker)))))"

definition ul_reserve_grant :: "u32 \<Rightarrow> TdmaTime list \<Rightarrow> bool \<Rightarrow> u8 option \<Rightarrow> u8 sched" where
  "ul_reserve_grant ssi grant_timestamps is_halfslot marker =
     bind (guard (grant_timestamps \<noteq> [])) (\<lambda>_.
     bind (guard (\<not> is_halfslot \<or> length grant_timestamps = 1)) (\<lambda>_.
     reserve_slots ssi grant_timestamps is_halfslot marker))"

text \<open>\<open>(timeslot as usize - 1).min(3)\<close>.\<close>

definition alloc_usage_marker :: "u8 \<Rightarrow> u8 sched" where
  "alloc_usage_marker timeslot s =
     (let idx = (case ts_idx timeslot of Some i \<Rightarrow> min i 3 | None \<Rightarrow> 3)
      in case entry (sc_next_usage_marker s) (Some idx) of
           None \<Rightarrow> Panic
         | Some marker \<Rightarrow>
             let next = (if marker \<ge> 62 then 4 else marker + 1)
             in Ok (marker, s\<lparr>sc_next_usage_marker := (sc_next_usage_marker s)[idx := next]\<rparr>))"

definition ul_process_cap_req ::
    "u8 \<Rightarrow> TetraAddress \<Rightarrow> ReservationRequirement \<Rightarrow> (BasicSlotgrant \<times> u8 option) option sched" where
  "ul_process_cap_req timeslot addr res_req =
     (let is_halfslot = (res_req = ReservationRequirement_Req1Subslot);
          requested_cap = (if is_halfslot then 1 else ReservationRequirement_to_req_slotcount res_req)
      in bind (\<lambda>s. case ul_find_grant_opportunity s timeslot requested_cap is_halfslot of
                 Ok op \<Rightarrow> Ok (op, s) | Err e \<Rightarrow> Err e | Panic \<Rightarrow> Panic) (\<lambda>grant_op.
         case grant_op of
           None \<Rightarrow> ret None
         | Some (skips, grant_timestamps) \<Rightarrow>
             if skips > MAX_GRANTING_DELAY_OPPORTUNITIES then ret None
             else
               bind (if \<not> is_halfslot \<and> requested_cap \<ge> 2
                     then bind (alloc_usage_marker timeslot) (\<lambda>m. ret (Some m)) else ret None) (\<lambda>marker.
               bind (ul_reserve_grant (ta_ssi addr) grant_timestamps is_halfslot marker) (\<lambda>subslot.
               bind (if res_req = ReservationRequirement_Req1Subslot then
                       if subslot = 1 then ret BasicSlotgrantCapAlloc_FirstSubslotGranted
                       else if subslot = 2 then ret BasicSlotgrantCapAlloc_SecondSubslotGranted
                       else panic
                     else unwrap (BasicSlotgrantCapAlloc_from_req_slotcount requested_cap)) (\<lambda>cap_alloc.
               let grant_delay =
                     (if skips = 0 then CapAllocAtNextOpportunity
                      else DelayNOpportunities (of_nat skips))
               in ret (Some (\<lparr>capacity_allocation = cap_alloc, granting_delay = grant_delay\<rparr>, marker)))))))"

definition ul_get_slot_owner :: "BsChannelScheduler \<Rightarrow> TdmaTime \<Rightarrow> PhyBlockNum \<Rightarrow> (pdu_parse_err, u32 option) outcome" where
  "ul_get_slot_owner s ts slot =
     (case ul_elem s (tm_t ts) ts of
        None \<Rightarrow> Panic
      | Some sched \<Rightarrow>
          (case slot of
             PhyBlockNum_Block1 \<Rightarrow> Ok (ul1 sched)
           | PhyBlockNum_Block2 \<Rightarrow> Ok (ul2 sched)
           | PhyBlockNum_Both \<Rightarrow> if ul1 sched \<noteq> ul2 sched then Ok None else Ok (ul1 sched)
           | PhyBlockNum_Undefined \<Rightarrow> Panic))"

definition ul_get_usage :: "BsChannelScheduler \<Rightarrow> TdmaTime \<Rightarrow> (pdu_parse_err, AccessAssignUlUsage) outcome" where
  "ul_get_usage s ts =
     (case ul_elem s (tm_t ts) ts of
        None \<Rightarrow> Panic
      | Some sched \<Rightarrow>
          (case (ul1 sched, ul2 sched) of
             (Some _, Some _) \<Rightarrow>
               Ok (case usage_marker sched of
                     Some marker \<Rightarrow> AccessAssignUlUsage_Traffic marker | None \<Rightarrow> AccessAssignUlUsage_AssignedOnly)
           | (Some _, None) \<Rightarrow>
               Ok (case usage_marker sched of
                     Some marker \<Rightarrow> AccessAssignUlUsage_Traffic marker | None \<Rightarrow> AccessAssignUlUsage_CommonAndAssigned)
           | (None, None) \<Rightarrow> Ok AccessAssignUlUsage_CommonOnly
           | (None, Some _) \<Rightarrow> Panic))"

definition clear_ul_schedule_for_tx_time :: "TdmaTime \<Rightarrow> unit sched" where
  "clear_ul_schedule_for_tx_time ts =
     (let before = TdmaTime_add_timeslots ts (- 4)
      in bind (gets (\<lambda>s. ul_elem s (tm_t ts) before)) (\<lambda>e. bind (unwrap e) (\<lambda>elem.
         set_ul_elem (tm_t ts) before (elem\<lparr>ul1 := None, ul2 := None, usage_marker := None\<rparr>))))"

end
