(* ===== verification/Bs_Sched_Ul_Spec.thy ===== *)
theory Bs_Sched_Ul_Spec
  imports Bs_Sched
begin

text \<open>
  The uplink half of the scheduler. The abstract view of a request is a first fit in the list of the coming
  opportunities: \<open>grant_search\<close> implements it, a grant reserves exactly the opportunities it announces, the invariant
  \<open>ul_inv\<close> holds in all states, and under it no operation panics.
\<close>

section \<open>First fit\<close>

text \<open>The search of the code on an abstract list of opportunities.\<close>

fun fit_search :: "nat \<Rightarrow> ('a \<Rightarrow> bool) \<Rightarrow> 'a list \<Rightarrow> 'a list \<Rightarrow> nat \<Rightarrow> (nat \<times> 'a list) option" where
  "fit_search n P [] g k = None"
| "fit_search n P (x # xs) g k =
     (let g' = (if P x then g @ [x] else []); k' = (if P x then k else k + length g + 1)
      in if length g' = n then Some (k', g') else fit_search n P xs g' k')"

text \<open>\<open>run_at n xs k\<close>: the \<open>n\<close> opportunities from number \<open>k\<close> on.\<close>

definition run_at :: "nat \<Rightarrow> 'a list \<Rightarrow> nat \<Rightarrow> 'a list" where
  "run_at n xs k = take n (drop k xs)"

definition fits_at :: "nat \<Rightarrow> ('a \<Rightarrow> bool) \<Rightarrow> 'a list \<Rightarrow> nat \<Rightarrow> bool" where
  "fits_at n P xs k \<longleftrightarrow> k + n \<le> length xs \<and> list_all P (run_at n xs k)"

lemma blocked:
  assumes "i < length xs" and "\<not> P (xs ! i)" and "j \<le> i" and "i < j + n"
  shows "\<not> fits_at n P xs j"
proof -
  have "run_at n xs j ! (i - j) = xs ! i" and "i - j < length (run_at n xs j)" if "j + n \<le> length xs"
    using assms that by (simp_all add: run_at_def)
  with assms(2) show ?thesis by (auto simp: fits_at_def list_all_length)
qed

lemma fit_search_correct:
  assumes "0 < n" and "k \<le> length pre" and "g = drop k pre" and "length g < n" and "list_all P g"
    and "\<And>j. j < k \<Longrightarrow> \<not> fits_at n P (pre @ xs) j"
  shows "case fit_search n P xs g k of
      None \<Rightarrow> \<forall>j. \<not> fits_at n P (pre @ xs) j
    | Some (j, ys) \<Rightarrow> fits_at n P (pre @ xs) j \<and> ys = run_at n (pre @ xs) j \<and> (\<forall>i < j. \<not> fits_at n P (pre @ xs) i)"
  using assms
proof (induction xs arbitrary: pre g k)
  case Nil
  have "\<not> fits_at n P pre j" for j
  proof (cases "j < k")
    case True
    with Nil show ?thesis by auto
  next
    case False
    with Nil have "length pre < j + n" by simp
    then show ?thesis by (simp add: fits_at_def)
  qed
  then show ?case by simp
next
  case (Cons x xs)
  have len: "length g = length pre - k" using Cons.prems by simp
  have app: "(pre @ [x]) @ xs = pre @ x # xs" by simp
  show ?case
  proof (cases "P x")
    case True
    have g: "g @ [x] = drop k (pre @ [x])" "list_all P (g @ [x])" using Cons.prems True by auto
    show ?thesis
    proof (cases "length (g @ [x]) = n")
      case full: True
      have "run_at n (pre @ x # xs) k = g @ [x]"
      proof -
        have "n + k - length pre = 1" using full Cons.prems len by simp
        then show ?thesis using full Cons.prems len by (simp add: run_at_def)
      qed
      moreover have "k + n \<le> length (pre @ x # xs)" using full len Cons.prems by simp
      ultimately have "fits_at n P (pre @ x # xs) k" and "g @ [x] = run_at n (pre @ x # xs) k"
        using g(2) by (simp_all add: fits_at_def)
      moreover have "fit_search n P (x # xs) g k = Some (k, g @ [x])" using True full by simp
      ultimately show ?thesis using Cons.prems(6) by simp
    next
      case False
      with Cons.prems have lt: "length (g @ [x]) < n" by simp
      show ?thesis
        using Cons.IH [of k "pre @ [x]" "g @ [x]", unfolded app] Cons.prems True lt g by simp
    qed
  next
    case False
    have "\<not> fits_at n P (pre @ x # xs) j" if "j < k + length g + 1" for j
    proof (cases "j < k")
      case True
      with Cons.prems show ?thesis by simp
    next
      case j: False
      show ?thesis
      proof (rule blocked)
        show "length pre < length (pre @ x # xs)" "\<not> P ((pre @ x # xs) ! length pre)" using False by simp_all
        show "j \<le> length pre" "length pre < j + n" using that j len Cons.prems by simp_all
      qed
    qed
    moreover have "k + length g + 1 = length (pre @ [x])" using len Cons.prems by simp
    ultimately show ?thesis
      using Cons.IH [of "k + length g + 1" "pre @ [x]" "[]", unfolded app] Cons.prems False by simp
  qed
qed

lemma fit_search_from_start:
  "0 < n \<Longrightarrow> case fit_search n P xs [] 0 of
      None \<Rightarrow> \<forall>j. \<not> fits_at n P xs j
    | Some (j, ys) \<Rightarrow> fits_at n P xs j \<and> ys = run_at n xs j \<and> (\<forall>i < j. \<not> fits_at n P xs i)"
  using fit_search_correct [of n 0 "[]" "[]" P xs, unfolded append.append_Nil] by simp

section \<open>Opportunities\<close>

declare One_nat_def [simp del]

text \<open>The same slot of the next seventeen frames, without frame 18.\<close>

definition candidates :: "TdmaTime \<Rightarrow> u8 \<Rightarrow> TdmaTime list" where
  "candidates now t = map (\<lambda>d. TdmaTime_add_timeslots (TdmaTime_forward_to_timeslot now t) (int d * 4)) [0..<17]"

definition opportunities :: "TdmaTime \<Rightarrow> u8 \<Rightarrow> TdmaTime list" where
  "opportunities now t = filter (\<lambda>c. tm_f c \<noteq> 18) (candidates now t)"

lemma forward_valid: "TdmaTime_is_valid (TdmaTime_forward_to_timeslot x t)"
  by (simp add: TdmaTime_forward_to_timeslot_def add_timeslots_valid)

lemma add_frames:
  assumes "TdmaTime_is_valid x" and "\<bar>d\<bar> < 2 ^ 20"
  shows "tm_t (TdmaTime_add_timeslots x (d * 4)) = tm_t x"
    and "uint (tm_f (TdmaTime_add_timeslots x (d * 4))) = (uint (tm_f x) - 1 + d) mod 18 + 1"
proof -
  let ?y = "TdmaTime_to_int x" and ?x = "TdmaTime_add_timeslots x (d * 4)"
  have i: "TdmaTime_to_int ?x = (?y + d * 4) mod TIME_INT_WRAP"
    using assms by (intro to_int_add_timeslots) simp_all
  have x': "TdmaTime_from_int (TdmaTime_to_int ?x) = ?x" by (rule from_int_to_int [OF add_timeslots_valid])
  have x: "TdmaTime_from_int ?y = x" by (rule from_int_to_int [OF assms(1)])
  have "uint (tm_t ?x) = TdmaTime_to_int ?x mod 4 + 1" using from_int_fields(1) [of "TdmaTime_to_int ?x"] x' by simp
  also have "\<dots> = ?y mod 4 + 1" unfolding i by (subst wrap_mod) (simp_all add: TIME_INT_WRAP_def)
  also have "\<dots> = uint (tm_t x)" using from_int_fields(1) [of ?y] x by simp
  finally show "tm_t ?x = tm_t x" by (simp add: word_uint_eq_iff)
  have dv: "(z mod TIME_INT_WRAP) div 4 mod 18 = z div 4 mod 18" for z :: int
  proof -
    have "z mod TIME_INT_WRAP = z mod (4 * (18 * (60 * 65536)))" by (simp add: TIME_INT_WRAP_def)
    also have "\<dots> = 4 * (z div 4 mod (18 * (60 * 65536))) + z mod 4" by (rule zmod_zmult2_eq) simp
    finally have "(z mod TIME_INT_WRAP) div 4 = z div 4 mod (18 * (60 * 65536))" by simp
    then show ?thesis by (simp add: mod_mod_cancel)
  qed
  have "uint (tm_f ?x) = TdmaTime_to_int ?x div 4 mod 18 + 1" using from_int_fields(2) [of "TdmaTime_to_int ?x"] x' by simp
  also have "\<dots> = (?y + d * 4) div 4 mod 18 + 1" unfolding i dv by simp
  also have "(?y + d * 4) div 4 = ?y div 4 + d" by simp
  also have "(?y div 4 + d) mod 18 = (?y div 4 mod 18 + d) mod 18" by (rule mod_add_left_eq [symmetric])
  also have "?y div 4 mod 18 = uint (tm_f x) - 1" using from_int_fields(2) [of ?y] x by simp
  finally show "uint (tm_f ?x) = (uint (tm_f x) - 1 + d) mod 18 + 1" .
qed

lemma sched_index:
  assumes "TdmaTime_is_valid c"
  shows "ul_ts_to_sched_index c = unat (tm_f c) - 1" and "ul_ts_to_sched_index c < 18"
proof -
  let ?f = "uint (tm_f c)" and ?m = "uint (tm_m c)" and ?h = "uint (tm_h c)"
  have b: "1 \<le> ?f" "?f \<le> 18" "1 \<le> ?m" "?m \<le> 60" "0 \<le> ?h" "?h < 65536"
    using assms uint_16_less [of "tm_h c"] unfolding valid_uint by simp_all
  have "(?f - 1) mod 2 ^ 64 = ?f - 1" "(?m - 1) mod 2 ^ 64 = ?m - 1" using b by simp_all
  moreover have "nat (?f - 1 + (?m - 1) * 18 + ?h * 18 * 60) = nat (?f - 1) + 18 * nat (?m - 1 + ?h * 60)"
  proof -
    have "?f - 1 + (?m - 1) * 18 + ?h * 18 * 60 = (?f - 1) + 18 * (?m - 1 + ?h * 60)" by simp
    also have "nat \<dots> = nat (?f - 1) + nat (18 * (?m - 1 + ?h * 60))" using b by (intro nat_add_distrib) simp_all
    also have "nat (18 * (?m - 1 + ?h * 60)) = 18 * nat (?m - 1 + ?h * 60)" using b by (subst nat_mult_distrib) simp_all
    finally show ?thesis .
  qed
  moreover have "nat (?f - 1) + 18 * nat (?m - 1 + ?h * 60) < 2 ^ 64"
  proof -
    have "?m - 1 + ?h * 60 \<le> 60 + 65536 * 60" using b by linarith
    then have "nat (?m - 1 + ?h * 60) \<le> 3932220" by simp
    moreover have "nat (?f - 1) \<le> 17" using b by simp
    ultimately show ?thesis by simp
  qed
  ultimately have "ul_ts_to_sched_index c = (nat (?f - 1) + 18 * nat (?m - 1 + ?h * 60)) mod 18"
    unfolding ul_ts_to_sched_index_def MACSCHED_NUM_FRAMES_def by simp
  also have "\<dots> = nat (?f - 1)" using b by simp
  finally have e: "ul_ts_to_sched_index c = nat (?f - 1)" .
  then show "ul_ts_to_sched_index c < 18" using b by simp
  show "ul_ts_to_sched_index c = unat (tm_f c) - 1" unfolding e unsigned_def by (simp add: nat_diff_distrib)
qed

section \<open>The schedule as a table of slots\<close>

definition valid_frame :: "u8 \<Rightarrow> bool" where
  "valid_frame f \<longleftrightarrow> 1 \<le> f \<and> f \<le> 18"

definition shape :: "TimeslotSchedule list list \<Rightarrow> bool" where
  "shape X \<longleftrightarrow> length X = 4 \<and> (\<forall>i < 4. length (X ! i) = 18)"

definition at_slot :: "TimeslotSchedule list list \<Rightarrow> u8 \<Rightarrow> u8 \<Rightarrow> TimeslotSchedule" where
  "at_slot X t f = X ! (unat t - 1) ! (unat f - 1)"

definition put_slot :: "TimeslotSchedule list list \<Rightarrow> u8 \<Rightarrow> u8 \<Rightarrow> TimeslotSchedule \<Rightarrow> TimeslotSchedule list list" where
  "put_slot X t f e = X[unat t - 1 := (X ! (unat t - 1))[unat f - 1 := e]]"

lemma valid_ts_unat: "valid_ts t \<longleftrightarrow> 1 \<le> unat t \<and> unat t \<le> 4"
  and valid_frame_unat: "valid_frame f \<longleftrightarrow> 1 \<le> unat f \<and> unat f \<le> 18"
  by (simp_all add: valid_ts_def valid_frame_def word_le_nat_alt)

lemma valid_time: "TdmaTime_is_valid c \<Longrightarrow> valid_ts (tm_t c) \<and> valid_frame (tm_f c)"
  by (simp add: TdmaTime_is_valid_def valid_ts_def valid_frame_def)

lemma shape_put [simp]: "shape X \<Longrightarrow> shape (put_slot X t f e)"
  by (cases "unat t - 1 < length X") (auto simp: shape_def put_slot_def nth_list_update list_update_beyond)

lemma valid_idx: "valid_ts t \<Longrightarrow> unat t - 1 < 4" "valid_frame f \<Longrightarrow> unat f - 1 < 18"
  unfolding valid_ts_unat valid_frame_unat by arith+

lemma at_put:
  assumes "shape X" and "valid_ts t" and "valid_ts t'" and "valid_frame f" and "valid_frame f'"
  shows "at_slot (put_slot X t f e) t' f' = (if t' = t \<and> f' = f then e else at_slot X t' f')"
proof -
  have "unat t' - 1 = unat t - 1 \<longleftrightarrow> t' = t" "unat f' - 1 = unat f - 1 \<longleftrightarrow> f' = f"
    using assms unfolding valid_ts_unat valid_frame_unat by (auto simp: word_unat_eq_iff)
  moreover have "unat t - 1 < 4" "unat t' - 1 < 4" "unat f - 1 < 18"
    using assms by (simp_all add: valid_idx)
  ultimately show ?thesis
    using assms(1) by (auto simp: at_slot_def put_slot_def shape_def nth_list_update)
qed

lemma ul_elem_at:
  assumes "shape (sc_ulsched s)" and "valid_ts t" and "TdmaTime_is_valid c"
  shows "ul_elem s t c = Some (at_slot (sc_ulsched s) t (tm_f c))"
proof -
  have "t \<noteq> 0" "unat t - 1 < 4" using assms(2) valid_idx by (auto simp: valid_ts_unat)
  with assms(1) sched_index [OF assms(3)] show ?thesis
    by (simp add: ul_elem_def entry_def ts_idx_def shape_def at_slot_def)
qed

lemma set_ul_elem_put:
  "TdmaTime_is_valid c \<Longrightarrow> set_ul_elem t c e s = Ok ((), s\<lparr>sc_ulsched := put_slot (sc_ulsched s) t (tm_f c) e\<rparr>)"
  by (simp add: set_ul_elem_def put_slot_def set_entry_def sched_index)

section \<open>The search implements first fit\<close>

definition slot_free :: "bool \<Rightarrow> TimeslotSchedule list list \<Rightarrow> u8 \<Rightarrow> TdmaTime \<Rightarrow> bool" where
  "slot_free is_halfslot X t c \<longleftrightarrow>
     (let e = at_slot X t (tm_f c)
      in ul1 e = None \<and> ul2 e = None \<or> is_halfslot \<and> (ul1 e = None \<or> ul2 e = None))"

lemma clch_frame: "TdmaTime_is_mandatory_clch c \<Longrightarrow> tm_f c = 18"
  by (simp add: TdmaTime_is_mandatory_clch_def)

lemma grant_search_fit:
  assumes "shape (sc_ulsched s)" and "valid_ts t" and "TdmaTime_is_valid first" and "\<forall>d \<in> set ds. d < 2 ^ 20"
  shows "grant_search s t n half first ds g k =
     Ok (fit_search n (slot_free half (sc_ulsched s) t)
       (filter (\<lambda>c. tm_f c \<noteq> 18) (map (\<lambda>d. TdmaTime_add_timeslots first (int d * 4)) ds)) g k)"
  using assms(4)
proof (induction ds arbitrary: g k)
  case Nil
  then show ?case by simp
next
  case (Cons d ds)
  let ?c = "TdmaTime_add_timeslots first (int d * 4)"
  have c: "tm_t ?c = tm_t first" "ul_elem s t ?c = Some (at_slot (sc_ulsched s) t (tm_f ?c))"
    using assms(1,2,3) Cons.prems by (auto intro!: add_frames ul_elem_at add_timeslots_valid)
  show ?case
  proof (cases "tm_f ?c = 18")
    case True
    with Cons show ?thesis by (simp add: c(1) Let_def)
  next
    case False
    then have "\<not> TdmaTime_is_mandatory_clch ?c" using clch_frame by blast
    with Cons False show ?thesis by (simp add: c Let_def slot_free_def)
  qed
qed

lemma find_grant_first_fit:
  assumes "shape (sc_ulsched s)" and "valid_ts t" and "half \<longrightarrow> n = 1"
  shows "ul_find_grant_opportunity s t n half =
     Ok (fit_search n (slot_free half (sc_ulsched s) t) (opportunities (sc_cur_dltime s) t) [] 0)"
  using grant_search_fit [OF assms(1,2) forward_valid, of "[0..<17]"] assms(3)
  by (auto simp: ul_find_grant_opportunity_def opportunities_def candidates_def MACSCHED_NUM_FRAMES_def Let_def)

text \<open>The opportunities are in the requested slot, in distinct frames, and never in frame 18.\<close>

lemma candidate_frames:
  assumes "d < 18" and "d' < 18" and "TdmaTime_is_valid x"
    and "tm_f (TdmaTime_add_timeslots x (int d * 4)) = tm_f (TdmaTime_add_timeslots x (int d' * 4))"
  shows "d = d'"
proof -
  let ?f = "uint (tm_f x) - 1"
  have "(?f + int d) mod 18 = (?f + int d') mod 18"
    using assms add_frames(2) [OF assms(3), of "int d"] add_frames(2) [OF assms(3), of "int d'"] by simp
  then have "int d mod 18 = int d' mod 18" by (metis add_diff_cancel_left' mod_diff_left_eq)
  with assms(1,2) show ?thesis by simp
qed

lemma opportunities_spec:
  assumes "TdmaTime_is_valid now" and "valid_ts t"
  shows "c \<in> set (opportunities now t) \<Longrightarrow> TdmaTime_is_valid c \<and> tm_t c = t \<and> tm_f c \<noteq> 18"
    and "distinct (map tm_f (opportunities now t))"
    and "length (opportunities now t) \<le> 17"
proof -
  let ?x = "TdmaTime_forward_to_timeslot now t"
  have x: "TdmaTime_is_valid ?x" "tm_t ?x = t"
    using assms forward_to_timeslot_spec(1) [OF assms(1)] by (simp_all add: forward_valid valid_ts_def)
  show "c \<in> set (opportunities now t) \<Longrightarrow> TdmaTime_is_valid c \<and> tm_t c = t \<and> tm_f c \<noteq> 18"
    using x add_frames(1) [OF x(1)] by (auto simp: opportunities_def candidates_def add_timeslots_valid)
  have "distinct (map tm_f (candidates now t))"
    using candidate_frames [OF _ _ x(1)] by (auto simp: candidates_def distinct_map inj_on_def)
  then show "distinct (map tm_f (opportunities now t))"
    unfolding opportunities_def by (rule distinct_map_filter)
  show "length (opportunities now t) \<le> 17"
    using length_filter_le [of _ "candidates now t"] by (auto simp: opportunities_def candidates_def)
qed

section \<open>Invariant\<close>

text \<open>
  The second half of a slot is only taken after the first, a usage marker is one that the standard leaves to the
  base station, and it is on slots that belong to one mobile as a whole.
\<close>

definition marker_ok :: "u8 \<Rightarrow> bool" where
  "marker_ok m \<longleftrightarrow> 4 \<le> m \<and> m \<le> 62"

definition ul_elem_ok :: "TimeslotSchedule \<Rightarrow> bool" where
  "ul_elem_ok e \<longleftrightarrow> (ul1 e = None \<longrightarrow> ul2 e = None) \<and>
     (case usage_marker e of Some m \<Rightarrow> marker_ok m \<and> ul1 e \<noteq> None \<and> ul1 e = ul2 e | None \<Rightarrow> True)"

definition sched_ok :: "TimeslotSchedule list list \<Rightarrow> bool" where
  "sched_ok X \<longleftrightarrow> shape X \<and> (\<forall>t f. valid_ts t \<longrightarrow> valid_frame f \<longrightarrow> ul_elem_ok (at_slot X t f))"

definition ul_inv :: "BsChannelScheduler \<Rightarrow> bool" where
  "ul_inv s \<longleftrightarrow> sched_ok (sc_ulsched s) \<and> length (sc_next_usage_marker s) = 4 \<and> list_all marker_ok (sc_next_usage_marker s)"

lemma sched_ok_empty: "sched_ok EMPTY_SCHED"
proof -
  have "at_slot EMPTY_SCHED t f = EMPTY_SCHED_ELEM" if "valid_ts t" "valid_frame f" for t f
    using valid_idx(1) [of t] valid_idx(2) [of f] that
    by (simp add: at_slot_def EMPTY_SCHED_def EMPTY_SCHED_CHANNEL_def MACSCHED_NUM_FRAMES_def)
  then show ?thesis
    by (auto simp: sched_ok_def shape_def EMPTY_SCHED_def EMPTY_SCHED_CHANNEL_def MACSCHED_NUM_FRAMES_def ul_elem_ok_def
        EMPTY_SCHED_ELEM_def)
qed

lemma ul_inv_new: "ul_inv (BsChannelScheduler_new code pre)"
  by (simp add: ul_inv_def BsChannelScheduler_new_def sched_ok_empty marker_ok_def word_le_nat_alt)

section \<open>Reservation\<close>

definition stamp :: "u8 option \<Rightarrow> TimeslotSchedule \<Rightarrow> TimeslotSchedule" where
  "stamp marker e = (case marker of Some m \<Rightarrow> e\<lparr>usage_marker := Some m\<rparr> | None \<Rightarrow> e)"

lemma stamp_simps [simp]: "ul1 (stamp mk e) = ul1 e" "ul2 (stamp mk e) = ul2 e"
  by (simp_all add: stamp_def split: option.split)

definition take_slot :: "u32 \<Rightarrow> u8 option \<Rightarrow> TimeslotSchedule \<Rightarrow> TimeslotSchedule" where
  "take_slot ssi marker e = (stamp marker e)\<lparr>ul1 := Some ssi, ul2 := Some ssi\<rparr>"

definition take_half :: "u32 \<Rightarrow> TimeslotSchedule \<Rightarrow> TimeslotSchedule" where
  "take_half ssi e = (if ul1 e = None then e\<lparr>ul1 := Some ssi\<rparr> else e\<lparr>ul2 := Some ssi\<rparr>)"

text \<open>\<open>X'\<close> is \<open>X\<close> with the slots \<open>cs\<close> of timeslot \<open>t\<close> changed by \<open>g\<close>, and nothing else.\<close>

definition changed_slots ::
    "(TimeslotSchedule \<Rightarrow> TimeslotSchedule) \<Rightarrow> u8 \<Rightarrow> TdmaTime list \<Rightarrow> TimeslotSchedule list list \<Rightarrow> TimeslotSchedule list list \<Rightarrow> bool" where
  "changed_slots g t cs X X' \<longleftrightarrow> shape X' \<and>
     (\<forall>t' f'. valid_ts t' \<longrightarrow> valid_frame f' \<longrightarrow>
        at_slot X' t' f' = (if t' = t \<and> f' \<in> tm_f ` set cs then g (at_slot X t' f') else at_slot X t' f'))"

lemma bind_run: "bind m f s = (case m s of Ok (x, s') \<Rightarrow> f x s' | Err e \<Rightarrow> Err e | Panic \<Rightarrow> Panic)"
  by (rule bind_def)

lemma reserve_full:
  assumes "shape (sc_ulsched s)" and "valid_ts t" and "\<forall>c \<in> set cs. TdmaTime_is_valid c \<and> tm_t c = t"
    and "distinct (map tm_f cs)" and "\<forall>c \<in> set cs. slot_free False (sc_ulsched s) t c"
  shows "\<exists>X. reserve_slots ssi cs False marker s = Ok (0, s\<lparr>sc_ulsched := X\<rparr>) \<and>
     changed_slots (take_slot ssi marker) t cs (sc_ulsched s) X"
  using assms
proof (induction cs arbitrary: s)
  case Nil
  then show ?case by (intro exI [of _ "sc_ulsched s"]) (simp add: ret_def changed_slots_def)
next
  case (Cons c cs)
  let ?X = "sc_ulsched s" and ?e = "at_slot (sc_ulsched s) t (tm_f c)"
  let ?s = "s\<lparr>sc_ulsched := put_slot ?X t (tm_f c) (take_slot ssi marker ?e)\<rparr>"
  have c: "TdmaTime_is_valid c" "tm_t c = t" "ul1 ?e = None" "ul2 ?e = None" "valid_frame (tm_f c)"
    using Cons.prems valid_time [of c] by (auto simp: slot_free_def Let_def)
  have fr: "slot_free False (sc_ulsched ?s) t c'" if "c' \<in> set cs" for c'
  proof -
    have "tm_f c' \<noteq> tm_f c" using that Cons.prems(4) by (auto simp: image_iff)
    with that Cons.prems c valid_time [of c'] show ?thesis by (auto simp: slot_free_def Let_def at_put)
  qed
  have step: "reserve_slots ssi (c # cs) False marker s = reserve_slots ssi cs False marker ?s"
    using c ul_elem_at [OF Cons.prems(1,2) c(1)]
    by (simp add: bind_run gets_def unwrap_def ret_def guard_def set_ul_elem_put stamp_def [symmetric] take_slot_def Let_def)
  have "\<exists>X. reserve_slots ssi cs False marker ?s = Ok (0, ?s\<lparr>sc_ulsched := X\<rparr>) \<and>
     changed_slots (take_slot ssi marker) t cs (sc_ulsched ?s) X"
    using Cons.prems fr by (intro Cons.IH) auto
  then obtain X where X: "reserve_slots ssi cs False marker ?s = Ok (0, s\<lparr>sc_ulsched := X\<rparr>)"
    "changed_slots (take_slot ssi marker) t cs (put_slot ?X t (tm_f c) (take_slot ssi marker ?e)) X" by auto
  have "changed_slots (take_slot ssi marker) t (c # cs) ?X X"
    using X(2) Cons.prems(1,2,4) c(5) unfolding changed_slots_def by (auto simp: at_put)
  with X(1) step show ?case by auto
qed

lemma reserve_half:
  assumes "shape (sc_ulsched s)" and "valid_ts t" and "TdmaTime_is_valid c" and "tm_t c = t"
    and "slot_free True (sc_ulsched s) t c"
  shows "\<exists>X. reserve_slots ssi [c] True None s =
        Ok (if ul1 (at_slot (sc_ulsched s) t (tm_f c)) = None then 1 else 2, s\<lparr>sc_ulsched := X\<rparr>) \<and>
     changed_slots (take_half ssi) t [c] (sc_ulsched s) X"
proof -
  let ?X = "sc_ulsched s" and ?e = "at_slot (sc_ulsched s) t (tm_f c)"
  have "reserve_slots ssi [c] True None s =
      Ok (if ul1 ?e = None then 1 else 2, s\<lparr>sc_ulsched := put_slot ?X t (tm_f c) (take_half ssi ?e)\<rparr>)"
    using assms(4,5) ul_elem_at [OF assms(1-3)]
    by (auto simp: bind_run gets_def unwrap_def ret_def guard_def set_ul_elem_put [OF assms(3)] take_half_def slot_free_def Let_def)
  moreover have "changed_slots (take_half ssi) t [c] ?X (put_slot ?X t (tm_f c) (take_half ssi ?e))"
    using assms valid_time [OF assms(3)] by (auto simp: changed_slots_def at_put)
  ultimately show ?thesis by blast
qed

declare reserve_slots.simps [simp del]

lemma changed_slots_ok:
  assumes "sched_ok X" and "changed_slots g t cs X X'" and "valid_ts t"
    and "\<And>c. c \<in> set cs \<Longrightarrow> valid_frame (tm_f c) \<and> ul_elem_ok (g (at_slot X t (tm_f c)))"
  shows "sched_ok X'"
  using assms unfolding sched_ok_def changed_slots_def by auto

section \<open>Capacity requests\<close>

definition req_slots :: "ReservationRequirement \<Rightarrow> nat" where
  "req_slots req = (if req = ReservationRequirement_Req1Subslot then 1 else ReservationRequirement_to_req_slotcount req)"

definition request_fit :: "BsChannelScheduler \<Rightarrow> u8 \<Rightarrow> ReservationRequirement \<Rightarrow> (nat \<times> TdmaTime list) option" where
  "request_fit s t req =
     fit_search (req_slots req) (slot_free (req = ReservationRequirement_Req1Subslot) (sc_ulsched s) t)
       (opportunities (sc_cur_dltime s) t) [] 0"

definition delay_of :: "nat \<Rightarrow> BasicSlotgrantGrantingDelay" where
  "delay_of k = (if k = 0 then CapAllocAtNextOpportunity else DelayNOpportunities (of_nat k))"

lemma req_slots_pos: "0 < req_slots req"
  by (cases req) (simp_all add: req_slots_def)

lemma request_fit_slots:
  assumes "request_fit s t req = Some (k, cs)" and "TdmaTime_is_valid (sc_cur_dltime s)" and "valid_ts t"
  shows "length cs = req_slots req" and "cs = run_at (req_slots req) (opportunities (sc_cur_dltime s) t) k"
    and "c \<in> set cs \<Longrightarrow> TdmaTime_is_valid c \<and> tm_t c = t \<and> tm_f c \<noteq> 18 \<and>
           slot_free (req = ReservationRequirement_Req1Subslot) (sc_ulsched s) t c"
    and "distinct (map tm_f cs)"
proof -
  let ?n = "req_slots req" and ?o = "opportunities (sc_cur_dltime s) t"
  let ?P = "slot_free (req = ReservationRequirement_Req1Subslot) (sc_ulsched s) t"
  have f: "fits_at ?n ?P ?o k" and cs: "cs = run_at ?n ?o k"
    using fit_search_from_start [OF req_slots_pos, of req ?P ?o] assms(1) by (auto simp: request_fit_def)
  show "length cs = ?n" using f cs by (auto simp: fits_at_def run_at_def)
  show "cs = run_at ?n ?o k" by (rule cs)
  have sub: "set cs \<subseteq> set ?o" unfolding cs run_at_def by (meson order_trans set_drop_subset set_take_subset)
  have "list_all ?P cs" using f cs by (simp add: fits_at_def)
  with sub show "c \<in> set cs \<Longrightarrow> TdmaTime_is_valid c \<and> tm_t c = t \<and> tm_f c \<noteq> 18 \<and> ?P c"
    using opportunities_spec(1) [OF assms(2,3), of c] by (auto simp: list_all_iff)
  show "distinct (map tm_f cs)"
    using opportunities_spec(2) [OF assms(2,3)] unfolding cs run_at_def by (simp add: take_map [symmetric] drop_map [symmetric])
qed

lemma next_marker_ok: "marker_ok m \<Longrightarrow> marker_ok (if m \<ge> 62 then 4 else m + 1)"
proof -
  assume "marker_ok m"
  then have m: "4 \<le> unat m" "unat m \<le> 62" by (simp_all add: marker_ok_def word_le_nat_alt)
  then have "unat (m + 1) = unat m + 1" by (simp add: unat_plus_if_size word_size)
  with m show ?thesis by (auto simp: marker_ok_def word_le_nat_alt)
qed

lemma alloc_usage_marker_run:
  assumes "ul_inv s" and "valid_ts t"
  shows "\<exists>m ms. alloc_usage_marker t s = Ok (m, s\<lparr>sc_next_usage_marker := ms\<rparr>) \<and> marker_ok m \<and> length ms = 4 \<and> list_all marker_ok ms"
proof -
  let ?i = "unat t - 1" and ?ms = "sc_next_usage_marker s"
  have i: "t \<noteq> 0" "?i < 4" using assms(2) valid_idx(1) by (auto simp: valid_ts_unat)
  have ms: "length ?ms = 4" "list_all marker_ok ?ms" using assms(1) by (simp_all add: ul_inv_def)
  then have ok: "marker_ok (?ms ! ?i)" using i by (simp add: list_all_length)
  have "alloc_usage_marker t s =
      Ok (?ms ! ?i, s\<lparr>sc_next_usage_marker := ?ms[?i := if ?ms ! ?i \<ge> 62 then 4 else ?ms ! ?i + 1]\<rparr>)"
    using i ms(1) by (simp add: alloc_usage_marker_def ts_idx_def entry_def min_def Let_def)
  moreover have "list_all marker_ok (?ms[?i := if ?ms ! ?i \<ge> 62 then 4 else ?ms ! ?i + 1])"
    using ms i(2) next_marker_ok [OF ok] by (auto simp: list_all_length nth_list_update)
  ultimately show ?thesis using ok ms(1) by (intro exI conjI) (assumption | simp)+
qed

text \<open>What a granted request does to the state.\<close>

definition grant_effect :: "u8 \<Rightarrow> u32 \<Rightarrow> ReservationRequirement \<Rightarrow> nat \<Rightarrow> TdmaTime list \<Rightarrow> BsChannelScheduler \<Rightarrow>
    BasicSlotgrant \<Rightarrow> u8 option \<Rightarrow> BsChannelScheduler \<Rightarrow> bool" where
  "grant_effect t ssi req k cs s g mk s' \<longleftrightarrow>
     s' = s\<lparr>sc_ulsched := sc_ulsched s', sc_next_usage_marker := sc_next_usage_marker s'\<rparr> \<and>
     granting_delay g = delay_of k \<and> pred_option marker_ok mk \<and>
     (if req = ReservationRequirement_Req1Subslot then
        mk = None \<and> changed_slots (take_half ssi) t cs (sc_ulsched s) (sc_ulsched s') \<and>
        capacity_allocation g =
          (if ul1 (at_slot (sc_ulsched s) t (tm_f (hd cs))) = None
           then BasicSlotgrantCapAlloc_FirstSubslotGranted else BasicSlotgrantCapAlloc_SecondSubslotGranted)
      else
        (mk \<noteq> None) = (2 \<le> req_slots req) \<and>
        changed_slots (take_slot ssi mk) t cs (sc_ulsched s) (sc_ulsched s') \<and>
        BasicSlotgrantCapAlloc_to_req_slotcount (capacity_allocation g) = Some (req_slots req))"

lemma take_slot_ok: "pred_option marker_ok mk \<Longrightarrow> usage_marker e = None \<Longrightarrow> ul_elem_ok (take_slot ssi mk e)"
  by (cases mk) (simp_all add: ul_elem_ok_def take_slot_def stamp_def)

lemma take_half_ok: "ul_elem_ok e \<Longrightarrow> ul1 e = None \<or> ul2 e = None \<Longrightarrow> ul_elem_ok (take_half ssi e)"
  by (auto simp: ul_elem_ok_def take_half_def split: option.splits)

lemma free_no_marker: "ul_elem_ok e \<Longrightarrow> ul1 e = None \<Longrightarrow> usage_marker e = None"
  by (auto simp: ul_elem_ok_def split: option.splits)

text \<open>The part of \<open>ul_process_cap_req\<close> behind the search.\<close>

definition grant_tail :: "u8 \<Rightarrow> TetraAddress \<Rightarrow> ReservationRequirement \<Rightarrow> nat \<Rightarrow> TdmaTime list \<Rightarrow>
    (BasicSlotgrant \<times> u8 option) option sched" where
  "grant_tail t addr req k cs =
     (let half = (req = ReservationRequirement_Req1Subslot); n = req_slots req
      in bind (if \<not> half \<and> n \<ge> 2 then bind (alloc_usage_marker t) (\<lambda>m. ret (Some m)) else ret None) (\<lambda>marker.
         bind (ul_reserve_grant (ta_ssi addr) cs half marker) (\<lambda>subslot.
         bind (if half then
                 if subslot = 1 then ret BasicSlotgrantCapAlloc_FirstSubslotGranted
                 else if subslot = 2 then ret BasicSlotgrantCapAlloc_SecondSubslotGranted
                 else panic
               else unwrap (BasicSlotgrantCapAlloc_from_req_slotcount n)) (\<lambda>cap_alloc.
         ret (Some (\<lparr>capacity_allocation = cap_alloc, granting_delay = delay_of k\<rparr>, marker))))))"

lemma cap_req_search:
  assumes "shape (sc_ulsched s)" and "valid_ts t"
  shows "ul_process_cap_req t addr req s =
     (case request_fit s t req of
        None \<Rightarrow> Ok (None, s)
      | Some (k, cs) \<Rightarrow> if k > MAX_GRANTING_DELAY_OPPORTUNITIES then Ok (None, s) else grant_tail t addr req k cs s)"
proof -
  have "ul_find_grant_opportunity s t (req_slots req) (req = ReservationRequirement_Req1Subslot) = Ok (request_fit s t req)"
    unfolding request_fit_def by (rule find_grant_first_fit [OF assms]) (simp add: req_slots_def)
  then show ?thesis
    unfolding ul_process_cap_req_def Let_def req_slots_def [symmetric] grant_tail_def delay_of_def
    by (simp add: bind_run [of "\<lambda>s. case ul_find_grant_opportunity s t n h of Ok op \<Rightarrow> Ok (op, s) | Err e \<Rightarrow> Err e | Panic \<Rightarrow> Panic" for n h]
        ret_def split: option.split)
qed

lemma grant_half:
  assumes "ul_inv s" and "valid_ts t" and "TdmaTime_is_valid (sc_cur_dltime s)"
    and "request_fit s t ReservationRequirement_Req1Subslot = Some (k, cs)"
  shows "\<exists>g s'. grant_tail t addr ReservationRequirement_Req1Subslot k cs s = Ok (Some (g, None), s') \<and> ul_inv s' \<and>
     grant_effect t (ta_ssi addr) ReservationRequirement_Req1Subslot k cs s g None s'"
proof -
  note sl = request_fit_slots [OF assms(4,3,2)]
  obtain c where c: "cs = [c]" using sl(1) by (auto simp: req_slots_def length_Suc_conv One_nat_def)
  let ?e = "at_slot (sc_ulsched s) t (tm_f c)"
  have v: "TdmaTime_is_valid c" "tm_t c = t" "slot_free True (sc_ulsched s) t c" using sl(3) [of c] c by auto
  have ok: "sched_ok (sc_ulsched s)" using assms(1) by (simp add: ul_inv_def)
  then have sh: "shape (sc_ulsched s)" by (simp add: sched_ok_def)
  from reserve_half [OF sh assms(2) v] obtain X where
    X: "reserve_slots (ta_ssi addr) [c] True None s = Ok (if ul1 ?e = None then 1 else 2, s\<lparr>sc_ulsched := X\<rparr>)"
    "changed_slots (take_half (ta_ssi addr)) t [c] (sc_ulsched s) X" by blast
  have e: "ul_elem_ok ?e" "valid_frame (tm_f c)" "ul1 ?e = None \<or> ul2 ?e = None"
    using ok assms(2) valid_time [OF v(1)] v(3) by (auto simp: sched_ok_def slot_free_def Let_def)
  then have "sched_ok X" using changed_slots_ok [OF ok X(2) assms(2)] by (simp add: take_half_ok)
  with assms(1) have "ul_inv (s\<lparr>sc_ulsched := X\<rparr>)" by (simp add: ul_inv_def)
  then show ?thesis
    using X by (auto simp: grant_tail_def grant_effect_def bind_run ret_def ul_reserve_grant_def guard_def c Let_def)
qed

lemma grant_full:
  assumes "ul_inv s" and "valid_ts t" and "TdmaTime_is_valid (sc_cur_dltime s)"
    and "request_fit s t req = Some (k, cs)" and "req \<noteq> ReservationRequirement_Req1Subslot"
  shows "\<exists>g mk s'. grant_tail t addr req k cs s = Ok (Some (g, mk), s') \<and> ul_inv s' \<and>
     grant_effect t (ta_ssi addr) req k cs s g mk s'"
proof -
  note sl = request_fit_slots [OF assms(4,3,2)]
  obtain mk ms where mk: "(if 2 \<le> req_slots req then bind (alloc_usage_marker t) (\<lambda>m. ret (Some m)) else ret None) s =
      Ok (mk, s\<lparr>sc_next_usage_marker := ms\<rparr>)" "pred_option marker_ok mk" "(mk \<noteq> None) = (2 \<le> req_slots req)"
      "length ms = 4" "list_all marker_ok ms"
  proof (cases "2 \<le> req_slots req")
    case True
    obtain m ms where a: "alloc_usage_marker t s = Ok (m, s\<lparr>sc_next_usage_marker := ms\<rparr>)" "marker_ok m" "length ms = 4"
      "list_all marker_ok ms" using alloc_usage_marker_run [OF assms(1,2)] by blast
    show ?thesis by (rule that [of "Some m" ms]) (use True a in \<open>simp_all add: bind_run ret_def\<close>)
  next
    case False
    show ?thesis
      by (rule that [of None "sc_next_usage_marker s"]) (use False assms(1) in \<open>simp_all add: ret_def ul_inv_def\<close>)
  qed
  let ?s = "s\<lparr>sc_next_usage_marker := ms\<rparr>"
  have ok: "sched_ok (sc_ulsched s)" using assms(1) by (simp add: ul_inv_def)
  have "\<exists>X. reserve_slots (ta_ssi addr) cs False mk ?s = Ok (0, ?s\<lparr>sc_ulsched := X\<rparr>) \<and>
      changed_slots (take_slot (ta_ssi addr) mk) t cs (sc_ulsched ?s) X"
  proof (rule reserve_full)
    show "shape (sc_ulsched ?s)" using ok by (simp add: sched_ok_def)
    show "\<forall>c \<in> set cs. TdmaTime_is_valid c \<and> tm_t c = t" using sl(3) by blast
    show "\<forall>c \<in> set cs. slot_free False (sc_ulsched ?s) t c" using sl(3) assms(5) by simp
  qed (rule assms(2) sl(4))+
  then obtain X where X: "reserve_slots (ta_ssi addr) cs False mk ?s = Ok (0, ?s\<lparr>sc_ulsched := X\<rparr>)"
    "changed_slots (take_slot (ta_ssi addr) mk) t cs (sc_ulsched s) X" by auto
  have "sched_ok X"
  proof (rule changed_slots_ok [OF ok X(2) assms(2)])
    fix c assume "c \<in> set cs"
    then have v: "valid_frame (tm_f c)" "slot_free False (sc_ulsched s) t c"
      using sl(3) [of c] valid_time [of c] assms(5) by auto
    then have "ul_elem_ok (at_slot (sc_ulsched s) t (tm_f c))" "ul1 (at_slot (sc_ulsched s) t (tm_f c)) = None"
      using ok assms(2) by (auto simp: sched_ok_def slot_free_def Let_def)
    with v(1) mk(2) show "valid_frame (tm_f c) \<and> ul_elem_ok (take_slot (ta_ssi addr) mk (at_slot (sc_ulsched s) t (tm_f c)))"
      by (simp add: take_slot_ok free_no_marker)
  qed
  with mk(4,5) have inv: "ul_inv (?s\<lparr>sc_ulsched := X\<rparr>)" by (simp add: ul_inv_def)
  obtain g where g: "BasicSlotgrantCapAlloc_from_req_slotcount (req_slots req) = Some g"
    "BasicSlotgrantCapAlloc_to_req_slotcount g = Some (req_slots req)"
    using grant_of_requirement [of req] assms(5) by (auto simp: req_slots_def)
  have "cs \<noteq> []" using sl(1) req_slots_pos [of req] by auto
  then have "grant_tail t addr req k cs s =
      Ok (Some (\<lparr>capacity_allocation = g, granting_delay = delay_of k\<rparr>, mk), ?s\<lparr>sc_ulsched := X\<rparr>)"
    using mk(1) X(1) g(1) assms(5)
    by (simp add: grant_tail_def bind_run ul_reserve_grant_def guard_def ret_def Let_def)
  moreover have "grant_effect t (ta_ssi addr) req k cs s \<lparr>capacity_allocation = g, granting_delay = delay_of k\<rparr> mk (?s\<lparr>sc_ulsched := X\<rparr>)"
    using mk(2,3) X(2) g(2) assms(5) by (simp add: grant_effect_def)
  ultimately show ?thesis using inv by blast
qed

text \<open>Every request is answered: granted at the first fit, or deferred without a change of the state.\<close>

lemma cap_req_run:
  assumes "ul_inv s" and "valid_ts t" and "TdmaTime_is_valid (sc_cur_dltime s)"
  shows "(\<exists>k cs g mk s'. request_fit s t req = Some (k, cs) \<and> k \<le> MAX_GRANTING_DELAY_OPPORTUNITIES \<and>
       ul_process_cap_req t addr req s = Ok (Some (g, mk), s') \<and> ul_inv s' \<and> grant_effect t (ta_ssi addr) req k cs s g mk s') \<or>
     (ul_process_cap_req t addr req s = Ok (None, s) \<and>
       (\<forall>k cs. request_fit s t req = Some (k, cs) \<longrightarrow> k > MAX_GRANTING_DELAY_OPPORTUNITIES))"
proof -
  have sh: "shape (sc_ulsched s)" using assms(1) by (simp add: ul_inv_def sched_ok_def)
  show ?thesis
  proof (cases "\<exists>k cs. request_fit s t req = Some (k, cs) \<and> k \<le> MAX_GRANTING_DELAY_OPPORTUNITIES")
    case True
    then obtain k cs where f: "request_fit s t req = Some (k, cs)" "k \<le> MAX_GRANTING_DELAY_OPPORTUNITIES" by blast
    with grant_half [OF assms] grant_full [OF assms]
    obtain g mk s' where "grant_tail t addr req k cs s = Ok (Some (g, mk), s')" "ul_inv s'"
        "grant_effect t (ta_ssi addr) req k cs s g mk s'" by metis
    with f cap_req_search [OF sh assms(2), of addr req] show ?thesis by (auto simp: not_less)
  next
    case False
    then show ?thesis
      using cap_req_search [OF sh assms(2), of addr req] by (auto split: option.splits simp: not_le)
  qed
qed

text \<open>Looking a slot up and clearing the past frame.\<close>

lemma ul_get_usage_run:
  assumes "ul_inv s" and "TdmaTime_is_valid c"
  shows "\<exists>u. ul_get_usage s c = Ok u \<and> (\<forall>m. u = AccessAssignUlUsage_Traffic m \<longrightarrow> marker_ok m) \<and> u \<noteq> AccessAssignUlUsage_Unallocated"
proof -
  let ?e = "at_slot (sc_ulsched s) (tm_t c) (tm_f c)"
  have sh: "shape (sc_ulsched s)" using assms(1) by (simp add: ul_inv_def sched_ok_def)
  have "ul_elem_ok ?e" using assms(1) valid_time [OF assms(2)] by (simp add: ul_inv_def sched_ok_def)
  with ul_elem_at [OF sh _ assms(2)] valid_time [OF assms(2)] show ?thesis
    by (cases "ul1 ?e"; cases "ul2 ?e"; cases "usage_marker ?e") (simp_all add: ul_get_usage_def ul_elem_ok_def)
qed

definition freed :: "TimeslotSchedule \<Rightarrow> TimeslotSchedule" where
  "freed e = EMPTY_SCHED_ELEM"

lemma freed_fields: "e\<lparr>ul1 := None, ul2 := None, usage_marker := None\<rparr> = EMPTY_SCHED_ELEM" for e :: TimeslotSchedule
  by (cases e) (simp add: EMPTY_SCHED_ELEM_def)

lemma clear_run:
  assumes "ul_inv s" and "TdmaTime_is_valid ts"
  shows "\<exists>X. clear_ul_schedule_for_tx_time ts s = Ok ((), s\<lparr>sc_ulsched := X\<rparr>) \<and> ul_inv (s\<lparr>sc_ulsched := X\<rparr>) \<and>
     changed_slots freed (tm_t ts) [TdmaTime_add_timeslots ts (- 4)] (sc_ulsched s) X"
proof -
  let ?b = "TdmaTime_add_timeslots ts (- 4)" and ?X = "sc_ulsched s"
  let ?Y = "put_slot ?X (tm_t ts) (tm_f ?b) EMPTY_SCHED_ELEM"
  have ok: "sched_ok ?X" "shape ?X" using assms(1) by (simp_all add: ul_inv_def sched_ok_def)
  have v: "valid_ts (tm_t ts)" "valid_frame (tm_f ?b)" using valid_time [OF assms(2)] valid_time [OF add_timeslots_valid] by auto
  have "clear_ul_schedule_for_tx_time ts s = Ok ((), s\<lparr>sc_ulsched := ?Y\<rparr>)"
    using ul_elem_at [OF ok(2) v(1) add_timeslots_valid]
    by (simp add: clear_ul_schedule_for_tx_time_def bind_run gets_def unwrap_def ret_def set_ul_elem_put [OF add_timeslots_valid]
        freed_fields Let_def)
  moreover have ch: "changed_slots freed (tm_t ts) [?b] ?X ?Y"
    using ok(2) v by (auto simp: changed_slots_def at_put freed_def)
  moreover have "sched_ok ?Y"
    using changed_slots_ok [OF ok(1) ch v(1)] v(2) by (simp add: freed_def ul_elem_ok_def EMPTY_SCHED_ELEM_def)
  ultimately show ?thesis using assms(1) by (auto simp: ul_inv_def)
qed

end
