(* ===== verification/Sched_Properties.thy ===== *)
theory Sched_Properties
  imports Bs_Sched_Ul_Spec
begin

text \<open>Properties of the broadcast PDUs, of the circuit table and of the channel scheduler, each with a witness.\<close>

section \<open>A scheduler to try the properties on\<close>

definition sample_sysinfo :: MacSysinfo where
  "sample_sysinfo =
     \<lparr>si_main_carrier = 1001, si_freq_band = 4, si_freq_offset_index = 0, si_duplex_spacing = 0, si_reverse_operation = False,
      si_num_of_csch = 0, si_ms_txpwr_max_cell = 5, si_rxlev_access_min = 3, si_access_parameter = 7, si_radio_dl_timeout = 3,
      si_cck_id = None, si_hyperframe_number = Some 0, si_option_field = SysinfoOptFieldFlag_DefaultDefForAccCodeA,
      si_ts_common_frames = None,
      si_default_access_code = Some \<lparr>ac_imm = 8, ac_wt = 5, ac_nu = 5, ac_fl_factor = False, ac_ts_ptr = 0, ac_min_pdu_prio = 0\<rparr>,
      si_ext_services = None\<rparr>"

definition sample_services :: BsServiceDetails where
  "sample_services =
     \<lparr>sd_registration = True, sd_deregistration = True, sd_priority_cell = False, sd_no_minimum_mode = True, sd_migration = False,
      sd_system_wide_services = False, sd_voice_service = True, sd_circuit_mode_data_service = False, sd_sndcp_service = False,
      sd_aie_service = False, sd_advanced_link = False\<rparr>"

definition sample_precomps :: PrecomputedUmacPdus where
  "sample_precomps =
     \<lparr>pc_mac_sysinfo1 = sample_sysinfo, pc_mac_sysinfo2 = sample_sysinfo,
      pc_mle_sysinfo = \<lparr>ml_location_area = 2, ml_subscriber_class = 65535, ml_bs_service_details = sample_services\<rparr>,
      pc_mac_sync = \<lparr>ms_system_code = 1, ms_colour_code = 1, ms_time = TdmaTime_default, ms_sharing_mode = 0,
        ms_ts_reserved_frames = 0, ms_u_plane_dtx = False, ms_frame_18_ext = False\<rparr>,
      pc_mle_sync = \<lparr>sy_mcc = 204, sy_mnc = 1337, sy_neighbor_cell_broadcast = 2, sy_cell_load_ca = 0, sy_late_entry_supported = True\<rparr>\<rparr>"

definition sample_sched :: BsChannelScheduler where
  "sample_sched = (BsChannelScheduler_new 3 sample_precomps)\<lparr>sc_cur_dltime := TdmaTime_default\<rparr>"

definition sample_issi :: TetraAddress where
  "sample_issi = \<lparr>ta_ssi = 1234, ta_ssi_type = SsiType_Issi\<rparr>"

lemma sample_sched_ok: "ul_inv sample_sched" "TdmaTime_is_valid (sc_cur_dltime sample_sched)" "valid_ts 1" "valid_ts 2"
  using ul_inv_new [of 3 sample_precomps]
  by (simp_all add: sample_sched_def ul_inv_def TdmaTime_default_def TdmaTime_is_valid_def valid_ts_def word_le_nat_alt)

lemma sample_free: "slot_free False (sc_ulsched sample_sched) 1 c" if "TdmaTime_is_valid c"
proof -
  have "at_slot EMPTY_SCHED 1 (tm_f c) = EMPTY_SCHED_ELEM"
    using valid_idx(2) [of "tm_f c"] valid_time [OF that]
    by (simp add: at_slot_def EMPTY_SCHED_def EMPTY_SCHED_CHANNEL_def MACSCHED_NUM_FRAMES_def)
  then show ?thesis
    by (simp add: slot_free_def sample_sched_def BsChannelScheduler_new_def EMPTY_SCHED_ELEM_def Let_def)
qed

lemma sample_opportunities: "length (opportunities TdmaTime_default 1) = 17"
proof -
  have x: "TdmaTime_forward_to_timeslot TdmaTime_default 1 = TdmaTime_default"
    using from_int_to_int [of TdmaTime_default]
    by (simp add: TdmaTime_forward_to_timeslot_def TdmaTime_add_timeslots_def TdmaTime_default_def TdmaTime_to_int_def
        TdmaTime_is_valid_def wrap32_def word_le_nat_alt)
  have "tm_f (TdmaTime_add_timeslots TdmaTime_default (int d * 4)) \<noteq> 18" if "d < 17" for d
  proof -
    have "uint (tm_f (TdmaTime_add_timeslots TdmaTime_default (int d * 4))) = int d + 1"
      using that add_frames(2) [of TdmaTime_default "int d"] by (simp add: TdmaTime_default_def TdmaTime_is_valid_def word_le_nat_alt)
    with that show ?thesis by auto
  qed
  then have "opportunities TdmaTime_default 1 = candidates TdmaTime_default 1"
    unfolding opportunities_def candidates_def x by (intro filter_True) auto
  then show ?thesis by (simp add: candidates_def)
qed

lemma sample_request: "\<exists>cs. request_fit sample_sched 1 ReservationRequirement_Req2Slots = Some (0, cs)"
proof -
  let ?o = "opportunities TdmaTime_default 1" and ?P = "slot_free False (sc_ulsched sample_sched) 1"
  have t: "sc_cur_dltime sample_sched = TdmaTime_default" by (simp add: sample_sched_def)
  have "list_all ?P ?o"
    using opportunities_spec(1) [OF sample_sched_ok(2,3)] sample_free by (auto simp: list_all_iff t)
  then have "fits_at 2 ?P ?o 0"
    using sample_opportunities by (auto simp: fits_at_def run_at_def list_all_iff dest: in_set_takeD)
  with fit_search_from_start [of 2 ?P ?o] show ?thesis
    by (auto simp: request_fit_def req_slots_def t split: option.splits)
qed

section \<open>Uplink capacity\<close>

text \<open>C39. The search for uplink capacity finds the first run of free opportunities in the coming seventeen frames (frame 18 is
  none) that is long enough, counts the opportunities before it, and finds nothing exactly when there is no such run.\<close>

theorem grant_search_first_fit:
  assumes "shape (sc_ulsched s)" and "valid_ts t" and "0 < n" and "half \<longrightarrow> n = 1"
  shows "\<exists>res. ul_find_grant_opportunity s t n half = Ok res \<and>
    (let xs = opportunities (sc_cur_dltime s) t; free = slot_free half (sc_ulsched s) t
     in case res of
          None \<Rightarrow> \<forall>j. \<not> fits_at n free xs j
        | Some (j, ys) \<Rightarrow> fits_at n free xs j \<and> ys = run_at n xs j \<and> (\<forall>i < j. \<not> fits_at n free xs i))"
  using find_grant_first_fit [OF assms(1,2,4)] fit_search_from_start [OF assms(3)] by (simp add: Let_def)

theorem grant_search_first_fit_witness:
  "\<exists>res. ul_find_grant_opportunity sample_sched 1 2 False = Ok res"
  using grant_search_first_fit [of sample_sched 1 2 False] sample_sched_ok by (auto simp: ul_inv_def sched_ok_def)

text \<open>Every capacity request is answered without a panic, whatever the schedule holds, and the invariant of the schedule
  survives it; a request that is not granted leaves the scheduler as it was.\<close>

theorem capacity_request_answered:
  assumes "ul_inv s" and "valid_ts t" and "TdmaTime_is_valid (sc_cur_dltime s)"
  shows "\<exists>r s'. ul_process_cap_req t addr req s = Ok (r, s') \<and> ul_inv s' \<and> (r = None \<longrightarrow> s' = s)"
  using cap_req_run [OF assms, of req addr] assms(1) by auto

theorem capacity_request_answered_witness:
  "\<exists>r s'. ul_process_cap_req 1 sample_issi ReservationRequirement_Req4Slots sample_sched = Ok (r, s') \<and> ul_inv s'"
  using capacity_request_answered [OF sample_sched_ok(1,3,2)] by blast

text \<open>C38. A grant of whole slots announces what it reserves: the slots are the opportunities behind as many as the granting delay
  says (at most thirteen), as many as the capacity allocation says; each was free and now belongs to the requesting mobile alone; no
  other slot or half slot changes its owner.\<close>

theorem capacity_grant_reserves_announced_slots:
  assumes "ul_inv s" and "valid_ts t" and "TdmaTime_is_valid (sc_cur_dltime s)" and "req \<noteq> ReservationRequirement_Req1Subslot"
    and "ul_process_cap_req t addr req s = Ok (Some (g, mk), s')"
  shows "\<exists>k \<le> 13. let cs = run_at (req_slots req) (opportunities (sc_cur_dltime s) t) k in
    granting_delay g = delay_of k \<and> length cs = req_slots req \<and>
    BasicSlotgrantCapAlloc_to_req_slotcount (capacity_allocation g) = Some (length cs) \<and>
    (\<forall>c \<in> set cs. ul_get_slot_owner s c PhyBlockNum_Block1 = Ok None \<and> ul_get_slot_owner s c PhyBlockNum_Block2 = Ok None \<and>
       ul_get_slot_owner s' c PhyBlockNum_Both = Ok (Some (ta_ssi addr))) \<and>
    (\<forall>c b. TdmaTime_is_valid c \<longrightarrow> tm_t c \<noteq> t \<or> tm_f c \<notin> tm_f ` set cs \<longrightarrow> ul_get_slot_owner s' c b = ul_get_slot_owner s c b)"
proof -
  obtain k cs where k: "request_fit s t req = Some (k, cs)" "k \<le> 13" "ul_inv s'" "grant_effect t (ta_ssi addr) req k cs s g mk s'"
    using cap_req_run [OF assms(1-3), of req addr] assms(5) by (auto simp: MAX_GRANTING_DELAY_OPPORTUNITIES_def)
  note sl = request_fit_slots [OF k(1) assms(3,2)]
  have e: "granting_delay g = delay_of k" "changed_slots (take_slot (ta_ssi addr) mk) t cs (sc_ulsched s) (sc_ulsched s')"
    "BasicSlotgrantCapAlloc_to_req_slotcount (capacity_allocation g) = Some (req_slots req)"
    using k(4) assms(4) by (simp_all add: grant_effect_def)
  have sh: "shape (sc_ulsched s)" "shape (sc_ulsched s')" using assms(1) k(3) by (simp_all add: ul_inv_def sched_ok_def)
  have own: "ul_get_slot_owner s c PhyBlockNum_Block1 = Ok None \<and> ul_get_slot_owner s c PhyBlockNum_Block2 = Ok None \<and>
      ul_get_slot_owner s' c PhyBlockNum_Both = Ok (Some (ta_ssi addr))" if "c \<in> set cs" for c
    using sl(3) [OF that] that e(2) assms(2,4) valid_time [of c]
    by (auto simp: ul_get_slot_owner_def ul_elem_at [OF sh(1)] ul_elem_at [OF sh(2)] slot_free_def changed_slots_def take_slot_def Let_def)
  have other: "ul_get_slot_owner s' c b = ul_get_slot_owner s c b"
    if "TdmaTime_is_valid c" "tm_t c \<noteq> t \<or> tm_f c \<notin> tm_f ` set cs" for c b
    using that e(2) valid_time [OF that(1)]
    by (auto simp: ul_get_slot_owner_def ul_elem_at [OF sh(1)] ul_elem_at [OF sh(2)] changed_slots_def)
  show ?thesis using k(2) e(1,3) sl(1,2) own other by (auto simp: Let_def intro!: exI [of _ k])
qed

theorem capacity_grant_reserves_announced_slots_witness:
  "\<exists>g mk s' k. ul_process_cap_req 1 sample_issi ReservationRequirement_Req2Slots sample_sched = Ok (Some (g, mk), s') \<and> k \<le> 13 \<and>
     (\<forall>c \<in> set (run_at 2 (opportunities TdmaTime_default 1) k). ul_get_slot_owner s' c PhyBlockNum_Both = Ok (Some 1234))"
proof -
  have t: "sc_cur_dltime sample_sched = TdmaTime_default" by (simp add: sample_sched_def)
  obtain g mk s' where r: "ul_process_cap_req 1 sample_issi ReservationRequirement_Req2Slots sample_sched = Ok (Some (g, mk), s')"
    using cap_req_run [OF sample_sched_ok(1,3,2), of ReservationRequirement_Req2Slots sample_issi] sample_request by auto
  from capacity_grant_reserves_announced_slots [OF sample_sched_ok(1,3,2) _ r]
  obtain k where "k \<le> 13" "\<forall>c \<in> set (run_at (req_slots ReservationRequirement_Req2Slots) (opportunities (sc_cur_dltime sample_sched) 1) k).
      ul_get_slot_owner s' c PhyBlockNum_Both = Ok (Some (ta_ssi sample_issi))" by (auto simp: Let_def)
  then show ?thesis using r by (auto simp: t req_slots_def sample_issi_def)
qed

section \<open>Circuits\<close>

text \<open>Blocks of voice put on an open circuit come out again in their order; when more arrive than the queue holds, it is the
  oldest that are missing, and the four latest that are played.\<close>

theorem voice_queue_plays_latest:
  assumes "cm_inv m" and "cm_is_active m Direction_Dl carrier ts"
  shows "let q = voice_queue carrier ts m @ bs;
       m' = foldl (\<lambda>m. put_block m carrier ts) m bs
     in cm_inv m' \<and> voice_queue carrier ts m' = drop (length q - 4) q \<and>
        taken carrier ts n m' = map Some (take n (drop (length q - 4) q)) @ replicate (n - length (drop (length q - 4) q)) None"
proof -
  let ?m = "foldl (\<lambda>m. put_block m carrier ts) m bs"
  have p: "voice_queue carrier ts ?m = drop (length (voice_queue carrier ts m @ bs) - 4) (voice_queue carrier ts m @ bs)"
    "cm_is_active ?m Direction_Dl carrier ts"
    using voice.pushes [OF assms(2) voice_queue_bounded [OF assms(1)], of bs] by (simp_all add: MAX_QUEUED_DL_BLOCKS_def)
  have "cm_inv (foldl (\<lambda>m. put_block m carrier ts) m bs)"
    using assms(1) by (induction bs arbitrary: m) (simp_all add: cm_inv_put)
  with p voice.pops_queue [OF p(2), of n] show ?thesis by (simp add: taken_pops Let_def)
qed

definition sample_circuit :: Circuit where
  "sample_circuit = \<lparr>ci_direction = Direction_Both, ci_ts = 2, ci_carrier_num = 1001, ci_peer_carrier_num = None, ci_peer_ts = None,
     ci_usage = 5, ci_circuit_mode = CircuitModeType_TchS, ci_speech_service = Some 0, ci_etee_encrypted = False,
     ci_dl_media_source = LocalLoopback\<rparr>"

theorem voice_queue_plays_latest_witness:
  "taken 1001 2 5 (foldl (\<lambda>m. put_block m 1001 2) (cm_create_circuit CircuitMgr_new Direction_Dl sample_circuit) [[1], [2], [3], [4], [5]])
     = [Some [2], Some [3], Some [4], Some [5], None]"
proof -
  let ?m = "cm_create_circuit CircuitMgr_new Direction_Dl sample_circuit"
  have m: "cm_is_active ?m Direction_Dl 1001 2" "voice_queue 1001 2 ?m = []"
    by (simp_all add: cm_create_circuit_def cm_is_active_def sample_circuit_def voice_queue_def CircuitMgr_new_def Let_def)
  show ?thesis
    using voice_queue_plays_latest [OF cm_inv_create [OF cm_inv_new] m(1), of "[[1], [2], [3], [4], [5]]" 5] m(2)
    by (simp add: Let_def One_nat_def)
qed

section \<open>Broadcast PDUs\<close>

text \<open>Every well-formed ACCESS-ASSIGN fills the fourteen bits of the broadcast block and is read back unchanged, and no received
  block makes the reader panic.\<close>

theorem access_assign_roundtrip:
  assumes "AccessAssign_wf p"
  shows "\<exists>b. AccessAssign_to_bitbuf p (BitBuffer_new 14) = Ok ((), b) \<and> get_len_remaining b = 0 \<and>
    AccessAssign_from_bitbuf (b\<lparr>bb_pos := 0\<rparr>) = Ok (p, b) \<and> (\<forall>b'. bb_inv b' \<longrightarrow> AccessAssign_from_bitbuf b' \<noteq> Panic)"
proof -
  have b: "bb_inv (BitBuffer_new 14)" "room (BitBuffer_new 14) (length (AccessAssign_enc p))" "bb_pos (BitBuffer_new 14) = 0"
    "bb_end (BitBuffer_new 14) = 14"
    by (simp_all add: room_def length_AccessAssign_enc BitBuffer_new_def bb_inv_def div_ceil8_def)
  from AccessAssign.emits [OF assms] b(1,2) obtain b' where
    b': "AccessAssign_to_bitbuf p (BitBuffer_new 14) = Ok ((), b')" "wrote (BitBuffer_new 14) (AccessAssign_enc p) b'" by (rule emitsE)
  have "get_len_remaining b' = 0"
    using wrote_end [OF b'(2) b(1)] b'(2) b(3,4) by (simp add: get_len_remaining_def wrote_def length_AccessAssign_enc)
  with b' wrote_readback [OF b(1) b'(2) AccessAssign.parses [OF assms]] b(3) AccessAssign.no_panic show ?thesis by auto
qed

definition sample_aach :: AccessAssign where
  "sample_aach = AccessAssign_default\<lparr>aa_header := 3, aa_dl_usage := AccessAssignDlUsage_Traffic 5, aa_ul_usage := AccessAssignUlUsage_Traffic 5\<rparr>"

theorem access_assign_roundtrip_witness:
  "\<exists>b. AccessAssign_to_bitbuf sample_aach (BitBuffer_new 14) = Ok ((), b) \<and> AccessAssign_from_bitbuf (b\<lparr>bb_pos := 0\<rparr>) = Ok (sample_aach, b)"
  using access_assign_roundtrip [of sample_aach]
  by (auto simp: AccessAssign_wf_def sample_aach_def AccessAssign_default_def wf_dl_usage_def word_le_nat_alt word_less_nat_alt)

end
