(* ===== verification/Bs_Sched_Dl.thy ===== *)
theory Bs_Sched_Dl
  imports Bs_Sched
begin

text \<open>
  \<open>umac/subcomp/bs_sched.rs\<close>, part 2: the downlink half of the channel scheduler. Signalling waits in one queue per
  timeslot; every tick finalizes one slot from the queue, from the voice of a circuit, or with broadcast PDUs.
  An element that leaves a queue is dropped at the end of the arm that took it: its reporter, if it has one, is
  then appended to \<open>sc_reports\<close> in the state it was left in.
\<close>

section \<open>Vocabulary\<close>

type_synonym LinkId = u32

primrec position :: "('a \<Rightarrow> bool) \<Rightarrow> 'a list \<Rightarrow> nat option" where
  "position P [] = None"
| "position P (x # xs) = (if P x then Some 0 else map_option Suc (position P xs))"

definition remove_at :: "nat \<Rightarrow> 'a list \<Rightarrow> 'a list" where
  "remove_at i xs = take i xs @ drop (Suc i) xs"

definition is_stealing :: "DlSchedElem \<Rightarrow> bool" where
  "is_stealing e = (case e of DlSchedElem_Stealing _ _ \<Rightarrow> True | _ \<Rightarrow> False)"

definition is_grant :: "DlSchedElem \<Rightarrow> bool" where
  "is_grant e = (case e of DlSchedElem_Grant _ _ _ \<Rightarrow> True | _ \<Rightarrow> False)"

definition is_ack :: "DlSchedElem \<Rightarrow> bool" where
  "is_ack e = (case e of DlSchedElem_RandomAccessAck _ \<Rightarrow> True | _ \<Rightarrow> False)"

definition is_fragbuf :: "DlSchedElem \<Rightarrow> bool" where
  "is_fragbuf e = (case e of DlSchedElem_FragBuf _ \<Rightarrow> True | _ \<Rightarrow> False)"

definition is_resource :: "DlSchedElem \<Rightarrow> bool" where
  "is_resource e = (case e of DlSchedElem_Resource _ _ _ \<Rightarrow> True | _ \<Rightarrow> False)"

definition queue_of :: "BsChannelScheduler \<Rightarrow> u8 \<Rightarrow> DlSchedElem list option" where
  "queue_of s ts = entry (sc_dltx_queues s) (ts_idx ts)"

definition get_queue :: "u8 \<Rightarrow> DlSchedElem list sched" where
  "get_queue ts = bind (gets (\<lambda>s. queue_of s ts)) unwrap"

definition put_queue :: "u8 \<Rightarrow> DlSchedElem list \<Rightarrow> unit sched" where
  "put_queue ts q = upd (\<lambda>s. s\<lparr>sc_dltx_queues := set_entry (sc_dltx_queues s) ts q\<rparr>)"

definition push_queue :: "u8 \<Rightarrow> DlSchedElem \<Rightarrow> unit sched" where
  "push_queue ts e = bind (get_queue ts) (\<lambda>q. put_queue ts (q @ [e]))"

definition push_next :: "DlSchedElem \<Rightarrow> unit sched" where
  "push_next e = upd (\<lambda>s. s\<lparr>sc_dltx_next_slot_queue := sc_dltx_next_slot_queue s @ [e]\<rparr>)"

definition report :: "TxReporter option \<Rightarrow> unit sched" where
  "report r = upd (\<lambda>s. s\<lparr>sc_reports := sc_reports s @ (case r of Some r \<Rightarrow> [r] | None \<Rightarrow> [])\<rparr>)"

text \<open>\<open>if let Some(tx_reporter) = tx_reporter { tx_reporter.mark_...() }\<close>, then the end of the reporter's scope.\<close>

definition report_marked :: "(TxReporter, pdu_parse_err, unit) prog \<Rightarrow> TxReporter option \<Rightarrow> unit sched" where
  "report_marked mk r =
     (case r of
        None \<Rightarrow> ret ()
      | Some r \<Rightarrow> (\<lambda>s. case mk r of Ok (_, r) \<Rightarrow> report (Some r) s | Err e \<Rightarrow> Err e | Panic \<Rightarrow> Panic))"

definition drop_fragger :: "BsFragger \<Rightarrow> unit sched" where
  "drop_fragger f s =
     (case BsFragger_drop f of Ok f \<Rightarrow> report (bf_tx_reporter f) s | Err e \<Rightarrow> Err e | Panic \<Rightarrow> Panic)"

text \<open>The end of the scope of an element that nobody looked at.\<close>

definition drop_elem :: "DlSchedElem \<Rightarrow> unit sched" where
  "drop_elem e =
     (case e of
        DlSchedElem_Resource _ _ r \<Rightarrow> report r
      | DlSchedElem_Stealing _ r \<Rightarrow> report r
      | DlSchedElem_FragBuf f \<Rightarrow> drop_fragger f
      | _ \<Rightarrow> ret ())"

text \<open>A fresh buffer filled by a writer.\<close>

definition write_new :: "nat \<Rightarrow> unit bb \<Rightarrow> bitbuffer sched" where
  "write_new len w s = (case w (BitBuffer_new len) of Ok (_, b) \<Rightarrow> Ok (b, s) | Err e \<Rightarrow> Err e | Panic \<Rightarrow> Panic)"

section \<open>Modes and hangtime\<close>

definition set_carrier_num :: "u16 \<Rightarrow> unit sched" where
  "set_carrier_num n = upd (\<lambda>s. s\<lparr>sc_carrier_num := n\<rparr>)"

definition set_downlink_mode :: "CarrierDownlinkMode \<Rightarrow> unit sched" where
  "set_downlink_mode mode = upd (\<lambda>s. s\<lparr>sc_downlink_mode := mode\<rparr>)"

definition allow_mcch :: "BsChannelScheduler \<Rightarrow> bool" where
  "allow_mcch s = mode_allow_mcch (sc_downlink_mode s)"

definition allow_common_control_aach :: "BsChannelScheduler \<Rightarrow> bool" where
  "allow_common_control_aach s = mode_allow_common_control_aach (sc_downlink_mode s)"

text \<open>One removed element of \<open>dl_drop_all_except_stolen\<close>.\<close>

definition discard_elem :: "u8 \<Rightarrow> DlSchedElem \<Rightarrow> unit sched" where
  "discard_elem timeslot e =
     (case e of
        DlSchedElem_Resource _ _ tx_reporter \<Rightarrow> report_marked mark_discarded tx_reporter
      | DlSchedElem_FragBuf f \<Rightarrow> drop_fragger f
      | DlSchedElem_RandomAccessAck addr \<Rightarrow>
          bind (gets (\<lambda>s. entry (sc_pending_ra_acks s) (ts_idx timeslot))) (\<lambda>p. bind (unwrap p) (\<lambda>acks.
          upd (\<lambda>s. s\<lparr>sc_pending_ra_acks := set_entry (sc_pending_ra_acks s) timeslot (acks @ [ta_ssi addr])\<rparr>)))
      | DlSchedElem_Grant _ _ _ \<Rightarrow> ret ()
      | DlSchedElem_Broadcast _ \<Rightarrow> ret ()
      | DlSchedElem_Stealing _ _ \<Rightarrow> panic)"

text \<open>The loop: what stays in the queue, and whether an element was discarded.\<close>

fun drop_loop :: "u8 \<Rightarrow> DlSchedElem list \<Rightarrow> (bool \<times> DlSchedElem list) sched" where
  "drop_loop timeslot [] = ret (False, [])"
| "drop_loop timeslot (e # q) =
     (if is_stealing e then
        bind (drop_loop timeslot q) (\<lambda>(discarded, kept). ret (discarded, e # kept))
      else
        bind (discard_elem timeslot e) (\<lambda>_.
        bind (drop_loop timeslot q) (\<lambda>(_, kept). ret (True, kept))))"

definition dl_drop_all_except_stolen :: "u8 \<Rightarrow> bool sched" where
  "dl_drop_all_except_stolen timeslot =
     bind (get_queue timeslot) (\<lambda>q.
     bind (drop_loop timeslot q) (\<lambda>(item_was_discarded, kept).
     bind (put_queue timeslot kept) (\<lambda>_.
     ret item_was_discarded)))"

definition set_hangtime :: "u8 \<Rightarrow> bool \<Rightarrow> unit sched" where
  "set_hangtime ts active =
     (if \<not> valid_ts ts then ret ()
      else
        bind (upd (\<lambda>s. s\<lparr>sc_hangtime := set_entry (sc_hangtime s) ts active\<rparr>)) (\<lambda>_.
        if \<not> active then bind (dl_drop_all_except_stolen ts) (\<lambda>_. ret ()) else ret ()))"

definition is_hangtime :: "BsChannelScheduler \<Rightarrow> u8 \<Rightarrow> bool" where
  "is_hangtime s ts = (valid_ts ts \<and> entry (sc_hangtime s) (ts_idx ts) = Some True)"

definition has_pending_stealing :: "BsChannelScheduler \<Rightarrow> u8 \<Rightarrow> bool" where
  "has_pending_stealing s ts = (case queue_of s ts of Some q \<Rightarrow> list_ex is_stealing q | None \<Rightarrow> False)"

definition is_hangtime_effective :: "BsChannelScheduler \<Rightarrow> u8 \<Rightarrow> bool" where
  "is_hangtime_effective s ts =
     (if \<not> valid_ts ts then False
      else if entry (sc_hangtime s) (ts_idx ts) \<noteq> Some True then False
      else \<not> has_pending_stealing s ts)"

definition supports_assigned_traffic_ts :: "BsChannelScheduler \<Rightarrow> u8 \<Rightarrow> bool" where
  "supports_assigned_traffic_ts s ts =
     (if ts = 1 then allow_assigned_traffic_ts1 (sc_downlink_mode s) else 2 \<le> ts \<and> ts \<le> 4)"

definition circuit_is_active :: "BsChannelScheduler \<Rightarrow> Direction \<Rightarrow> u8 \<Rightarrow> bool" where
  "circuit_is_active s dir ts = cm_is_active (sc_circuits s) dir (sc_carrier_num s) ts"

definition can_deliver_stealing :: "BsChannelScheduler \<Rightarrow> u8 \<Rightarrow> bool" where
  "can_deliver_stealing s ts = (supports_assigned_traffic_ts s ts \<and> circuit_is_active s Direction_Dl ts)"

definition generate_hangtime_idle_schf :: "bitbuffer sched" where
  "generate_hangtime_idle_schf = write_new SCH_F_CAP (MacResource_to_bitbuf MacResource_null_pdu)"

definition set_system_wide_services_state :: "bool \<Rightarrow> unit sched" where
  "set_system_wide_services_state enabled =
     upd (sc_precomps_update (pc_mle_sysinfo_update (ml_bs_service_details_update (sd_system_wide_services_update (\<lambda>_. enabled)))))"

fun drop_elems :: "DlSchedElem list \<Rightarrow> unit sched" where
  "drop_elems [] = ret ()"
| "drop_elems (e # q) = bind (drop_elem e) (\<lambda>_. drop_elems q)"

definition purge_schedule :: "unit sched" where
  "purge_schedule =
     bind (gets (\<lambda>s. concat (sc_dltx_queues s))) (\<lambda>old.
     bind (upd (\<lambda>s. s\<lparr>sc_dltx_queues := [[], [], [], []]\<rparr>)) (\<lambda>_.
     bind (drop_elems old) (\<lambda>_.
     upd (\<lambda>s. s\<lparr>sc_ulsched := EMPTY_SCHED\<rparr>))))"

definition set_dl_time :: "TdmaTime \<Rightarrow> unit sched" where
  "set_dl_time new_ts = bind (upd (\<lambda>s. s\<lparr>sc_cur_dltime := new_ts\<rparr>)) (\<lambda>_. purge_schedule)"

section \<open>Queueing\<close>

definition dl_queue_depth :: "BsChannelScheduler \<Rightarrow> nat" where
  "dl_queue_depth s = sum_list (map length (sc_dltx_queues s)) + length (sc_dltx_next_slot_queue s)"

text \<open>The MCCH is off on this carrier and TS1 carries no circuit.\<close>

definition ts1_closed :: "BsChannelScheduler \<Rightarrow> u8 \<Rightarrow> bool" where
  "ts1_closed s ts = (ts = 1 \<and> \<not> allow_mcch s \<and> \<not> circuit_is_active s Direction_Dl ts)"

definition dl_enqueue_grant :: "u8 \<Rightarrow> TetraAddress \<Rightarrow> BasicSlotgrant \<Rightarrow> u8 option \<Rightarrow> unit sched" where
  "dl_enqueue_grant ts addr grant marker =
     bind (gets (\<lambda>s. ts1_closed s ts)) (\<lambda>closed.
     if closed then ret () else push_queue ts (DlSchedElem_Grant addr grant marker))"

definition dl_enqueue_random_access_ack :: "u8 \<Rightarrow> TetraAddress \<Rightarrow> unit sched" where
  "dl_enqueue_random_access_ack ts addr =
     bind (gets (\<lambda>s. ts1_closed s ts)) (\<lambda>closed.
     if closed then ret () else push_queue ts (DlSchedElem_RandomAccessAck addr))"

definition identify_timeslots_for_ssi :: "BsChannelScheduler \<Rightarrow> TetraAddress option \<Rightarrow> LinkId \<Rightarrow> u8 list" where
  "identify_timeslots_for_ssi s addr link_id =
     (case addr of
        None \<Rightarrow> [0, 0, 0, 0]
      | Some addr \<Rightarrow>
          let mcch = (if allow_mcch s then [1, 0, 0, 0] else [0, 0, 0, 0])
          in if ta_ssi_type addr = SsiType_Gssi \<or> link_id = 0 then mcch
             else if 255 < link_id then mcch
             else
               let link_ts = (ucast link_id :: u8)
               in if \<not> (1 \<le> link_ts \<and> link_ts \<le> of_nat NUM_TIMESLOTS) then mcch
                  else if circuit_is_active s Direction_Dl link_ts then
                    (if allow_mcch s then [1, 0, 0, 0] else [link_ts, 0, 0, 0])
                  else if \<not> allow_mcch s \<and> link_ts = 1 then [0, 0, 0, 0]
                  else [link_ts, 0, 0, 0])"

text \<open>
  The loop over the timeslots. With a further timeslot to come the message is cloned; the clone shares the atomic byte of
  the reporter, which copies in two queues do not show: \<open>identify_timeslots_for_ssi\<close> names one timeslot at most.
\<close>

fun enqueue_loop :: "u8 list \<Rightarrow> MacResource \<Rightarrow> bitbuffer \<Rightarrow> TxReporter option \<Rightarrow> unit sched" where
  "enqueue_loop [] pdu sdu tx_reporter = report tx_reporter"
| "enqueue_loop (ts # rest) pdu sdu tx_reporter =
     (if ts = 0 then report tx_reporter
      else
        let next_ts = (case rest of [] \<Rightarrow> 0 | t # _ \<Rightarrow> t)
        in bind (gets (\<lambda>s. ts = 1 \<and> allow_mcch s \<and> mr_chan_alloc_element pdu \<noteq> None)) (\<lambda>mcch_alloc.
           bind (gets (\<lambda>s. mcch_alloc \<and> sc_mcch_chan_alloc_sent_this_frame s)) (\<lambda>deferred.
           bind (if mcch_alloc \<and> \<not> deferred
                 then upd (\<lambda>s. s\<lparr>sc_mcch_chan_alloc_sent_this_frame := True\<rparr>) else ret ()) (\<lambda>_.
           if deferred then push_next (DlSchedElem_Resource pdu sdu tx_reporter)
           else if 0 < next_ts then
             bind (push_queue ts (DlSchedElem_Resource pdu sdu tx_reporter)) (\<lambda>_. enqueue_loop rest pdu sdu tx_reporter)
           else push_queue ts (DlSchedElem_Resource pdu sdu tx_reporter)))))"

definition dl_enqueue_tma_on_timeslots :: "u8 list \<Rightarrow> MacResource \<Rightarrow> bitbuffer \<Rightarrow> TxReporter option \<Rightarrow> unit sched" where
  "dl_enqueue_tma_on_timeslots timeslots pdu sdu tx_reporter = enqueue_loop timeslots pdu sdu tx_reporter"

definition dl_enqueue_tma_for_link :: "LinkId \<Rightarrow> MacResource \<Rightarrow> bitbuffer \<Rightarrow> TxReporter option \<Rightarrow> unit sched" where
  "dl_enqueue_tma_for_link link_id pdu sdu tx_reporter =
     bind (gets (\<lambda>s. identify_timeslots_for_ssi s (mr_addr pdu) link_id)) (\<lambda>timeslots.
     dl_enqueue_tma_on_timeslots timeslots pdu sdu tx_reporter)"

definition dl_enqueue_tma :: "MacResource \<Rightarrow> bitbuffer \<Rightarrow> TxReporter option \<Rightarrow> unit sched" where
  "dl_enqueue_tma pdu sdu tx_reporter =
     bind (gets (\<lambda>s. identify_timeslots_for_ssi s (mr_addr pdu) 0)) (\<lambda>timeslots.
     dl_enqueue_tma_on_timeslots timeslots pdu sdu tx_reporter)"

definition take_pending_ra_ack :: "u8 \<Rightarrow> u32 \<Rightarrow> bool sched" where
  "take_pending_ra_ack ts ssi =
     bind (gets (\<lambda>s. entry (sc_pending_ra_acks s) (ts_idx ts))) (\<lambda>p. bind (unwrap p) (\<lambda>pending.
     case position (\<lambda>x. x = ssi) pending of
       Some pos \<Rightarrow>
         bind (upd (\<lambda>s. s\<lparr>sc_pending_ra_acks := set_entry (sc_pending_ra_acks s) ts (remove_at pos pending)\<rparr>)) (\<lambda>_. ret True)
     | None \<Rightarrow> ret False))"

definition dl_enqueue_stealing :: "u8 \<Rightarrow> bitbuffer \<Rightarrow> TxReporter option \<Rightarrow> unit sched" where
  "dl_enqueue_stealing ts block tx_reporter = push_queue ts (DlSchedElem_Stealing block tx_reporter)"

definition dl_enqueue_tma_frag_next_frame :: "BsFragger \<Rightarrow> unit sched" where
  "dl_enqueue_tma_frag_next_frame fragger = push_next (DlSchedElem_FragBuf fragger)"

definition dl_enqueue_tma_next_frame :: "MacResource \<Rightarrow> bitbuffer \<Rightarrow> TxReporter option \<Rightarrow> unit sched" where
  "dl_enqueue_tma_next_frame pdu sdu tx_reporter = push_next (DlSchedElem_Resource pdu sdu tx_reporter)"

definition dl_schedule_tmb :: "bitbuffer \<Rightarrow> TdmaTime \<Rightarrow> unit sched" where
  "dl_schedule_tmb traffic ts = panic"

section \<open>Circuits of this carrier\<close>

definition dl_schedule_tmd :: "u8 \<Rightarrow> u8 list \<Rightarrow> unit sched" where
  "dl_schedule_tmd ts block = upd (\<lambda>s. s\<lparr>sc_circuits := put_block (sc_circuits s) (sc_carrier_num s) ts block\<rparr>)"

definition dl_queued_block_count :: "BsChannelScheduler \<Rightarrow> u8 \<Rightarrow> nat" where
  "dl_queued_block_count s ts = queued_block_count (sc_circuits s) (sc_carrier_num s) ts"

definition duplex_peer_route :: "BsChannelScheduler \<Rightarrow> u8 \<Rightarrow> slot_key option" where
  "duplex_peer_route s ts = get_ul_peer_route (sc_circuits s) (sc_carrier_num s) ts"

definition dl_media_source :: "BsChannelScheduler \<Rightarrow> u8 \<Rightarrow> CircuitDlMediaSource option" where
  "dl_media_source s ts = get_dl_media_source (sc_circuits s) (sc_carrier_num s) ts"

definition leave_hangtime :: "u8 \<Rightarrow> BsChannelScheduler \<Rightarrow> BsChannelScheduler" where
  "leave_hangtime ts s = (if valid_ts ts then s\<lparr>sc_hangtime := set_entry (sc_hangtime s) ts False\<rparr> else s)"

definition close_circuit :: "Direction \<Rightarrow> u8 \<Rightarrow> Circuit option sched" where
  "close_circuit dir ts s =
     (let s = leave_hangtime ts s; (circuit, m) = cm_close_circuit (sc_circuits s) dir (sc_carrier_num s) ts
      in Ok (circuit, s\<lparr>sc_circuits := m\<rparr>))"

definition create_circuit :: "Direction \<Rightarrow> Circuit \<Rightarrow> unit sched" where
  "create_circuit dir circuit s =
     (if \<not> supports_assigned_traffic_ts s (ci_ts circuit) then Ok ((), s)
      else
        let s = leave_hangtime (ci_ts circuit) s
        in Ok ((), s\<lparr>sc_circuits := cm_create_circuit (sc_circuits s) dir circuit\<rparr>))"

end
