(* ===== verification/Bs_Sched_Slot.thy ===== *)
theory Bs_Sched_Slot
  imports Bs_Sched_Dl
begin

text \<open>
  \<open>umac/subcomp/bs_sched.rs\<close>, part 3: how a downlink slot is made. \<open>finalize_ts_for_tick_inner\<close> takes voice and stolen
  half slots for a circuit, or empties the signalling queue into a full slot as far as there is room, adds the
  access assignment, and fills what is left with broadcast PDUs.
\<close>

section \<open>Grants and acknowledgements\<close>

definition dl_make_minimal_resource :: "TetraAddress \<Rightarrow> BasicSlotgrant option \<Rightarrow> bool \<Rightarrow> MacResource option" where
  "dl_make_minimal_resource addr grant random_access_ack =
     map_option fst (MacResource_update_len_and_fill_ind
       \<lparr>mr_fill_bits = False, mr_pos_of_grant = 0, mr_encryption_mode = 0, mr_random_access_flag = random_access_ack,
        mr_length_ind = 0, mr_addr = Some addr, mr_event_label = None, mr_usage_marker = None,
        mr_power_control_element = None, mr_slot_granting_element = grant, mr_chan_alloc_element = None\<rparr> 0)"

text \<open>The loop: elements passed over, elements to look at, elements taken.\<close>

fun take_loop :: "DlSchedElem list \<Rightarrow> DlSchedElem list \<Rightarrow> DlSchedElem list \<Rightarrow> DlSchedElem list \<times> DlSchedElem list" where
  "take_loop passed [] got = (got, passed)"
| "take_loop passed (e # q) got =
     (if is_grant e \<or> is_ack e then take_loop passed q (got @ [e]) else take_loop (passed @ [e]) q got)"

definition dl_take_all_grants_and_acks :: "u8 \<Rightarrow> DlSchedElem list sched" where
  "dl_take_all_grants_and_acks timeslot =
     bind (get_queue timeslot) (\<lambda>q.
     let (got, rest) = take_loop [] q []
     in bind (put_queue timeslot rest) (\<lambda>_. ret got))"

definition resource_for :: "u32 \<Rightarrow> DlSchedElem \<Rightarrow> bool" where
  "resource_for ssi e =
     (case e of
        DlSchedElem_Resource pdu _ _ \<Rightarrow> (case mr_addr pdu of Some a \<Rightarrow> ta_ssi a = ssi | None \<Rightarrow> False)
      | _ \<Rightarrow> False)"

text \<open>The mutable reference is the index of the element.\<close>

definition dl_get_scheduled_resource_for_ssi :: "TdmaTime \<Rightarrow> TetraAddress \<Rightarrow> nat option sched" where
  "dl_get_scheduled_resource_for_ssi ts addr =
     bind (get_queue (tm_t ts)) (\<lambda>q. ret (position (resource_for (ta_ssi addr)) q))"

definition integrate_into :: "DlSchedElem \<Rightarrow> MacResource \<Rightarrow> MacResource option" where
  "integrate_into elem pdu =
     (case elem of
        DlSchedElem_Grant _ grant marker \<Rightarrow>
          Some (pdu\<lparr>mr_slot_granting_element := Some grant,
                    mr_usage_marker := (if mr_usage_marker pdu = None then marker else mr_usage_marker pdu)\<rparr>)
      | DlSchedElem_RandomAccessAck _ \<Rightarrow> Some (pdu\<lparr>mr_random_access_flag := True\<rparr>)
      | _ \<Rightarrow> None)"

definition resource_of :: "DlSchedElem \<Rightarrow> MacResource option" where
  "resource_of elem =
     (case elem of
        DlSchedElem_Grant addr grant marker \<Rightarrow>
          map_option (\<lambda>pdu. pdu\<lparr>mr_usage_marker := marker\<rparr>) (dl_make_minimal_resource addr (Some grant) False)
      | DlSchedElem_RandomAccessAck addr \<Rightarrow> dl_make_minimal_resource addr None True
      | _ \<Rightarrow> None)"

definition elem_addr :: "DlSchedElem \<Rightarrow> TetraAddress option" where
  "elem_addr elem =
     (case elem of
        DlSchedElem_Grant addr _ _ \<Rightarrow> Some addr | DlSchedElem_RandomAccessAck addr \<Rightarrow> Some addr | _ \<Rightarrow> None)"

text \<open>One turn of the loop of \<open>dl_integrate_sched_elems_for_timeslot\<close>.\<close>

definition integrate_elem :: "TdmaTime \<Rightarrow> DlSchedElem \<Rightarrow> unit sched" where
  "integrate_elem ts elem =
     bind (unwrap (elem_addr elem)) (\<lambda>addr.
     bind (dl_get_scheduled_resource_for_ssi ts addr) (\<lambda>mac_resource.
     bind (get_queue (tm_t ts)) (\<lambda>q.
     case mac_resource of
       Some i \<Rightarrow>
         (case q ! i of
            DlSchedElem_Resource pdu sdu r \<Rightarrow>
              bind (unwrap (integrate_into elem pdu)) (\<lambda>pdu.
              put_queue (tm_t ts) (q[i := DlSchedElem_Resource pdu sdu r]))
          | _ \<Rightarrow> panic)
     | None \<Rightarrow>
         bind (unwrap (resource_of elem)) (\<lambda>pdu.
         push_queue (tm_t ts) (DlSchedElem_Resource pdu (BitBuffer_new 0) None)))))"

fun integrate_loop :: "TdmaTime \<Rightarrow> DlSchedElem list \<Rightarrow> unit sched" where
  "integrate_loop ts [] = ret ()"
| "integrate_loop ts (elem # elems) = bind (integrate_elem ts elem) (\<lambda>_. integrate_loop ts elems)"

definition dl_integrate_sched_elems_for_timeslot :: "TdmaTime \<Rightarrow> unit sched" where
  "dl_integrate_sched_elems_for_timeslot ts =
     bind (dl_take_all_grants_and_acks (tm_t ts)) (\<lambda>grants_and_acks. integrate_loop ts grants_and_acks)"

section \<open>A signalling slot\<close>

text \<open>Whose turn it is: grants, then fragments, then resources, then stolen blocks.\<close>

definition prioritized :: "DlSchedElem list \<Rightarrow> nat option" where
  "prioritized q =
     (case position is_grant q of Some i \<Rightarrow> Some i | None \<Rightarrow>
      (case position is_fragbuf q of Some i \<Rightarrow> Some i | None \<Rightarrow>
       (case position is_resource q of Some i \<Rightarrow> Some i | None \<Rightarrow> position is_stealing q)))"

definition dl_take_prioritized_sched_item :: "TdmaTime \<Rightarrow> DlSchedElem option sched" where
  "dl_take_prioritized_sched_item ts s =
     (if tm_f ts = 18 then Ok (None, s)
      else case queue_of s (tm_t ts) of
        None \<Rightarrow> Ok (None, s)
      | Some q \<Rightarrow>
          (case prioritized q of
             None \<Rightarrow> Ok (None, s)
           | Some i \<Rightarrow> Ok (Some (q ! i), s\<lparr>sc_dltx_queues := set_entry (sc_dltx_queues s) (tm_t ts) (remove_at i q)\<rparr>)))"

text \<open>One chunk of a message; what is left of it goes to the next-slot queue.\<close>

definition send_chunk :: "BsFragger \<Rightarrow> bitbuffer \<Rightarrow> bitbuffer sched" where
  "send_chunk fragger buf s =
     (case get_next_chunk (fragger, buf) of
        Ok (finished, (fragger, buf)) \<Rightarrow>
          bind (if \<not> finished then dl_enqueue_tma_frag_next_frame fragger else drop_fragger fragger) (\<lambda>_. ret buf) s
      | Err e \<Rightarrow> Err e
      | Panic \<Rightarrow> Panic)"

definition block_or_new :: "bitbuffer option \<Rightarrow> bitbuffer" where
  "block_or_new buf_opt = (case buf_opt of Some buf \<Rightarrow> buf | None \<Rightarrow> BitBuffer_new SCH_F_CAP)"

definition build_elem :: "DlSchedElem \<Rightarrow> bitbuffer option \<Rightarrow> bitbuffer option sched" where
  "build_elem sched_elem buf_opt =
     (case sched_elem of
        DlSchedElem_Broadcast _ \<Rightarrow> ret buf_opt
      | DlSchedElem_Resource pdu sdu tx_reporter \<Rightarrow>
          (\<lambda>s. case BsFragger_new pdu sdu tx_reporter of
             Ok fragger \<Rightarrow> bind (send_chunk fragger (block_or_new buf_opt)) (\<lambda>buf. ret (Some buf)) s
           | Err e \<Rightarrow> Err e
           | Panic \<Rightarrow> Panic)
      | DlSchedElem_FragBuf fragger \<Rightarrow> bind (send_chunk fragger (block_or_new buf_opt)) (\<lambda>buf. ret (Some buf))
      | DlSchedElem_Stealing _ tx_reporter \<Rightarrow> bind (report_marked mark_discarded tx_reporter) (\<lambda>_. ret buf_opt)
      | DlSchedElem_Grant _ _ _ \<Rightarrow> ret buf_opt
      | DlSchedElem_RandomAccessAck _ \<Rightarrow> ret buf_opt)"

lemma position_less: "position P xs = Some i \<Longrightarrow> i < length xs \<and> P (xs ! i)"
  by (induction xs arbitrary: i) (auto split: if_splits)

lemma prioritized_less: "prioritized q = Some i \<Longrightarrow> i < length q"
  by (auto simp: prioritized_def split: option.splits dest: position_less)

lemma length_remove_at: "i < length xs \<Longrightarrow> length (remove_at i xs) = length xs - 1"
  by (simp add: remove_at_def)

text \<open>A program that leaves a part of the state alone.\<close>

definition keeps :: "('s \<Rightarrow> 'b) \<Rightarrow> ('s, 'e, 'a) prog \<Rightarrow> bool" where
  "keeps g m \<longleftrightarrow> (\<forall>s x s'. m s = Ok (x, s') \<longrightarrow> g s' = g s)"

lemma keepsD: "keeps g m \<Longrightarrow> m s = Ok (x, s') \<Longrightarrow> g s' = g s"
  unfolding keeps_def by blast

lemma keeps_bind: "keeps g m \<Longrightarrow> (\<And>x. keeps g (f x)) \<Longrightarrow> keeps g (bind m f)"
  unfolding keeps_def bind_def by (fastforce split: outcome.splits)

lemma keeps_ret: "keeps g (ret x)" and keeps_panic: "keeps g panic" and keeps_gets: "keeps g (gets h)"
  by (simp_all add: keeps_def ret_def panic_def gets_def)

lemma keeps_unwrap: "keeps g (unwrap x)" and keeps_guard: "keeps g (guard c)"
  by (cases x) (simp_all add: unwrap_def guard_def keeps_ret keeps_panic)

lemma keeps_upd: "(\<And>s. g (h s) = g s) \<Longrightarrow> keeps g (upd h)"
  by (auto simp: keeps_def upd_def)

lemmas keeps_intros = keeps_bind keeps_ret keeps_panic keeps_gets keeps_unwrap keeps_guard keeps_upd

lemma keeps_report: "keeps sc_dltx_queues (report r)"
  unfolding report_def by (intro keeps_intros) simp

lemma keeps_report_marked: "keeps sc_dltx_queues (report_marked mk r)"
  using keeps_report by (auto simp: report_marked_def keeps_def ret_def split: option.splits outcome.splits)

lemma keeps_drop_fragger: "keeps sc_dltx_queues (drop_fragger f)"
  using keeps_report by (auto simp: drop_fragger_def keeps_def split: outcome.splits)

lemma keeps_send_chunk: "keeps sc_dltx_queues (send_chunk f buf)"
proof -
  have "keeps sc_dltx_queues (bind (if \<not> fin then dl_enqueue_tma_frag_next_frame f' else drop_fragger f') (\<lambda>_. ret buf'))"
    for fin f' and buf' :: bitbuffer
    by (cases fin) (auto simp: dl_enqueue_tma_frag_next_frame_def push_next_def intro!: keeps_intros keeps_drop_fragger)
  then show ?thesis by (auto simp: keeps_def send_chunk_def split: outcome.splits)
qed

lemma keeps_build_elem: "keeps sc_dltx_queues (build_elem e buf)"
proof -
  have send: "keeps sc_dltx_queues (bind (send_chunk f b) (\<lambda>buf. ret (Some buf)))" for f b
    by (intro keeps_intros keeps_send_chunk)
  then show ?thesis
    by (cases e) (auto simp: build_elem_def keeps_ret intro: keeps_bind keeps_report_marked, auto simp: keeps_def split: outcome.splits)
qed

lemma take_prioritized_queue:
  assumes "dl_take_prioritized_sched_item ts s = Ok (Some e, s')"
  shows "\<exists>q i. queue_of s (tm_t ts) = Some q \<and> prioritized q = Some i \<and> e = q ! i \<and>
    queue_of s' (tm_t ts) = Some (remove_at i q) \<and> i < length q \<and>
    s' = s\<lparr>sc_dltx_queues := set_entry (sc_dltx_queues s) (tm_t ts) (remove_at i q)\<rparr>"
proof -
  from assms obtain q i where q: "queue_of s (tm_t ts) = Some q" "prioritized q = Some i" "e = q ! i"
    "s' = s\<lparr>sc_dltx_queues := set_entry (sc_dltx_queues s) (tm_t ts) (remove_at i q)\<rparr>"
    by (auto simp: dl_take_prioritized_sched_item_def split: if_splits option.splits)
  moreover from q have "queue_of s' (tm_t ts) = Some (remove_at i q)"
    by (auto simp: queue_of_def entry_def ts_idx_def set_entry_def split: if_splits)
  ultimately show ?thesis using prioritized_less [OF q(2)] by blast
qed

text \<open>The \<open>while\<close> loop. Every turn takes one element out of the queue.\<close>

function build_loop :: "TdmaTime \<Rightarrow> bitbuffer option \<Rightarrow> BsChannelScheduler \<Rightarrow> (pdu_parse_err, bitbuffer option \<times> BsChannelScheduler) outcome" where
  "build_loop ts buf_opt s =
     (case queue_of s (tm_t ts) of
        None \<Rightarrow> Panic
      | Some q \<Rightarrow>
          if q = [] then Ok (buf_opt, s)
          else case dl_take_prioritized_sched_item ts s of
            Ok (None, s) \<Rightarrow> Ok (buf_opt, s)
          | Ok (Some e, s) \<Rightarrow>
              (case build_elem e buf_opt s of
                 Ok (buf_opt, s) \<Rightarrow> build_loop ts buf_opt s
               | Err e \<Rightarrow> Err e
               | Panic \<Rightarrow> Panic)
          | Err e \<Rightarrow> Err e
          | Panic \<Rightarrow> Panic)"
  by auto

termination
proof (relation "measure (\<lambda>(ts, buf, s). length (the (queue_of s (tm_t ts))))")
  fix ts buf s q p e e' s' s'' buf' x
  assume "queue_of s (tm_t ts) = Some q" "dl_take_prioritized_sched_item ts s = Ok p" "(e', s') = p" "e' = Some e"
    "build_elem e buf s' = Ok x" "(buf', s'') = x"
  then show "((ts, buf', s''), ts, buf, s) \<in> measure (\<lambda>(ts, buf, s). length (the (queue_of s (tm_t ts))))"
    using take_prioritized_queue [of ts s e s'] keepsD [OF keeps_build_elem, of e buf s' buf' s'']
    by (auto simp: queue_of_def length_remove_at)
qed simp

declare build_loop.simps [simp del]

text \<open>What could not be sent goes in front of what is still queued.\<close>

definition merge_next_slot_queue :: "u8 \<Rightarrow> unit sched" where
  "merge_next_slot_queue ts =
     bind (gets sc_dltx_next_slot_queue) (\<lambda>deferred.
     if deferred = [] then ret ()
     else
       bind (get_queue ts) (\<lambda>current.
       bind (upd (\<lambda>s. s\<lparr>sc_dltx_next_slot_queue := []\<rparr>)) (\<lambda>_.
       put_queue ts (deferred @ current))))"

definition dl_build_block_from_signalling_schedule :: "TdmaTime \<Rightarrow> bitbuffer option sched" where
  "dl_build_block_from_signalling_schedule ts =
     bind (build_loop ts None) (\<lambda>buf_opt.
     bind (merge_next_slot_queue (tm_t ts)) (\<lambda>_.
     ret buf_opt))"

section \<open>A traffic slot\<close>

definition voice_block :: "u8 list option \<Rightarrow> bitbuffer sched" where
  "voice_block block s =
     (case block of
        Some block \<Rightarrow>
          if TCH_S_CAP \<le> length block * 8 then
            (case set_raw_end (bb_start (from_vec block) + TCH_S_CAP) (from_vec block) of
               Ok (_, buf) \<Rightarrow> Ok (buf, s) | Err e \<Rightarrow> Err e | Panic \<Rightarrow> Panic)
          else Ok (BitBuffer_new TCH_S_CAP, s)
      | None \<Rightarrow> Ok (BitBuffer_new TCH_S_CAP, s))"

definition take_voice :: "u8 \<Rightarrow> u8 list option sched" where
  "take_voice ts s =
     (let (block, m) = take_block (sc_circuits s) (sc_carrier_num s) ts in Ok (block, s\<lparr>sc_circuits := m\<rparr>))"

definition take_stealing :: "u8 \<Rightarrow> (bitbuffer option \<times> TxReporter option) sched" where
  "take_stealing ts =
     bind (get_queue ts) (\<lambda>q.
     case position is_stealing q of
       Some i \<Rightarrow>
         (case q ! i of
            DlSchedElem_Stealing buf tx_reporter \<Rightarrow> bind (put_queue ts (remove_at i q)) (\<lambda>_. ret (Some buf, tx_reporter))
          | _ \<Rightarrow> panic)
     | None \<Rightarrow> ret (None, None))"

definition dl_build_traffic_block :: "TdmaTime \<Rightarrow> (bitbuffer \<times> bitbuffer option) sched" where
  "dl_build_traffic_block ts =
     bind (take_voice (tm_t ts)) (\<lambda>block.
     bind (voice_block block) (\<lambda>tch_buf.
     bind (take_stealing (tm_t ts)) (\<lambda>(stch_opt, tx_reporter_opt).
     bind (report_marked mark_transmitted tx_reporter_opt) (\<lambda>_.
     ret (tch_buf, stch_opt)))))"

section \<open>The access assignment\<close>

definition common_af :: "u8 \<Rightarrow> AccessField option" where
  "common_af len = Some \<lparr>af_access_code = 0, af_base_frame_len = len\<rparr>"

text \<open>The access assignment of a slot that may carry a circuit.\<close>

definition assigned_aach :: "bool \<Rightarrow> u8 option \<Rightarrow> u8 option \<Rightarrow> AccessAssign" where
  "assigned_aach in_hangtime dl_traffic_usage ul_traffic_usage =
     (if in_hangtime \<and> (dl_traffic_usage \<noteq> None \<or> ul_traffic_usage \<noteq> None) then
        AccessAssign_default\<lparr>aa_dl_usage := AccessAssignDlUsage_AssignedControl, aa_ul_usage := AccessAssignUlUsage_AssignedOnly,
          aa_f2_af := common_af 4\<rparr>
      else
        AccessAssign_default\<lparr>
          aa_dl_usage := (case dl_traffic_usage of Some u \<Rightarrow> AccessAssignDlUsage_Traffic u | None \<Rightarrow> AccessAssignDlUsage_Unallocated),
          aa_ul_usage := (case ul_traffic_usage of Some u \<Rightarrow> AccessAssignUlUsage_Traffic u | None \<Rightarrow> AccessAssignUlUsage_Unallocated)\<rparr>)"

definition mcch_aach :: "AccessAssignUlUsage \<Rightarrow> AccessAssign" where
  "mcch_aach ul_usage_for_slot =
     (case ul_usage_for_slot of
        AccessAssignUlUsage_Traffic _ \<Rightarrow>
          AccessAssign_default\<lparr>aa_dl_usage := AccessAssignDlUsage_CommonControl, aa_ul_usage := ul_usage_for_slot\<rparr>
      | _ \<Rightarrow>
          AccessAssign_default\<lparr>aa_dl_usage := AccessAssignDlUsage_CommonControl, aa_ul_usage := AccessAssignUlUsage_CommonOnly,
            aa_f1_af1 := common_af 4, aa_f2_af2 := common_af 4\<rparr>)"

definition aach_fr18 :: "bool \<Rightarrow> AccessAssignFr18" where
  "aach_fr18 common =
     (if common then
        AccessAssignFr18_default\<lparr>ab_ul_usage := AccessAssignUlUsage_CommonOnly, ab_f1_af1 := common_af 1, ab_f2_af2 := common_af 0\<rparr>
      else
        AccessAssignFr18_default\<lparr>ab_ul_usage := AccessAssignUlUsage_AssignedOnly, ab_f1_af1 := common_af 0, ab_f2_af2 := common_af 0\<rparr>)"

definition generate_bbk_block :: "TdmaTime \<Rightarrow> TmvUnitdataReq sched" where
  "generate_bbk_block ts s =
     (let ul_traffic_usage = (if tm_f ts = 18 then None else get_usage (sc_circuits s) Direction_Ul (sc_carrier_num s) (tm_t ts));
          dl_traffic_usage = (if tm_f ts = 18 then None else get_usage (sc_circuits s) Direction_Dl (sc_carrier_num s) (tm_t ts));
          bbk = (\<lambda>buf. \<lparr>rq_mac_block = buf, rq_logical_channel = Aach, rq_scrambling_code = sc_scrambling_code s\<rparr>)
      in if tm_f ts \<noteq> 18 then
           if tm_t ts = 1 then
             if allow_common_control_aach s then
               (case ul_get_usage s ts of
                  Ok ul_usage \<Rightarrow> bind (write_new 14 (AccessAssign_to_bitbuf (mcch_aach ul_usage))) (\<lambda>buf. ret (bbk buf)) s
                | Err e \<Rightarrow> Err e
                | Panic \<Rightarrow> Panic)
             else
               let in_hangtime = supports_assigned_traffic_ts s (tm_t ts) \<and> entry (sc_hangtime s) (ts_idx (tm_t ts)) = Some True
               in bind (write_new 14 (AccessAssign_to_bitbuf (assigned_aach in_hangtime dl_traffic_usage ul_traffic_usage)))
                    (\<lambda>buf. ret (bbk buf)) s
           else if 2 \<le> tm_t ts \<and> tm_t ts \<le> 4 then
             let in_hangtime = (2 \<le> tm_t ts \<and> tm_t ts \<le> 4) \<and> entry (sc_hangtime s) (ts_idx (tm_t ts)) = Some True
             in bind (write_new 14 (AccessAssign_to_bitbuf (assigned_aach in_hangtime dl_traffic_usage ul_traffic_usage)))
                  (\<lambda>buf. ret (bbk buf)) s
           else Ok (bbk (BitBuffer_new 14), s)
         else
           bind (guard (ul_traffic_usage = None \<and> dl_traffic_usage = None)) (\<lambda>_.
           bind (write_new 14 (AccessAssignFr18_to_bitbuf (aach_fr18 (allow_common_control_aach s)))) (\<lambda>buf.
           ret (bbk buf))) s)"

section \<open>Broadcast blocks\<close>

definition generate_default_blks :: "TdmaTime \<Rightarrow> TmvUnitdataReq sched" where
  "generate_default_blks ts s =
     (if 1 \<le> tm_f ts \<and> tm_f ts \<le> 17 \<and> tm_t ts = 1 then
        if \<not> allow_mcch s \<or> tm_f ts mod 2 = 0 then
          bind (write_new SCH_HD_CAP (MacResource_to_bitbuf MacResource_null_pdu)) (\<lambda>buf.
          ret \<lparr>rq_mac_block = buf, rq_logical_channel = SchHd, rq_scrambling_code = sc_scrambling_code s\<rparr>) s
        else
          bind (write_new SCH_F_CAP (MacResource_to_bitbuf MacResource_null_pdu)) (\<lambda>buf.
          ret \<lparr>rq_mac_block = buf, rq_logical_channel = SchF, rq_scrambling_code = sc_scrambling_code s\<rparr>) s
      else if 1 \<le> tm_f ts \<and> tm_f ts \<le> 17 \<and> 2 \<le> tm_t ts \<and> tm_t ts \<le> 4 \<or> tm_f ts = 18 then
        bind (write_new 60 (seq [MacSync_to_bitbuf (pc_mac_sync (sc_precomps s)), DMleSync_to_bitbuf (pc_mle_sync (sc_precomps s))])) (\<lambda>buf.
        ret \<lparr>rq_mac_block = buf, rq_logical_channel = Bsch, rq_scrambling_code = SCRAMB_INIT\<rparr>) s
      else Panic)"

definition try_add_null_pdus :: "TmvUnitdataReq option \<Rightarrow> TmvUnitdataReq option sched" where
  "try_add_null_pdus blk =
     (case blk of
        None \<Rightarrow> ret None
      | Some b \<Rightarrow>
          if (rq_logical_channel b = SchHd \<or> rq_logical_channel b = SchF) \<and> NULL_PDU_LEN_BITS \<le> get_len_remaining (rq_mac_block b) then
            bind (unwrap (MacResource_update_len_and_fill_ind (MacResource_null_pdu\<lparr>mr_length_ind := 2\<rparr>) 0)) (\<lambda>(null_pdu, _).
            (\<lambda>s. case MacResource_to_bitbuf null_pdu (rq_mac_block b) of
               Ok (_, buf) \<Rightarrow> Ok (Some (b\<lparr>rq_mac_block := buf\<rparr>), s) | Err e \<Rightarrow> Err e | Panic \<Rightarrow> Panic))
          else ret (Some b))"

section \<open>The slot\<close>

record TmvUnitdataReqSlot =
  sl_carrier_num :: u16
  sl_ts :: TdmaTime
  sl_ul_phy_chan :: PhysicalChannel
  sl_blk1 :: "TmvUnitdataReq option"
  sl_blk2 :: "TmvUnitdataReq option"
  sl_bbk :: "TmvUnitdataReq option"

definition tick_start :: "TdmaTime \<Rightarrow> unit sched" where
  "tick_start ts =
     bind (upd (\<lambda>s. s\<lparr>sc_cur_dltime := TdmaTime_add_timeslots (sc_cur_dltime s) 1\<rparr>)) (\<lambda>_.
     bind (gets sc_cur_dltime) (\<lambda>now.
     guard (ts = now)))"

text \<open>The new hyperframe and the new time in the precomputed broadcasts, and the flag of the MCCH.\<close>

definition start_slot :: "TdmaTime \<Rightarrow> BsChannelScheduler \<Rightarrow> BsChannelScheduler" where
  "start_slot ts s =
     (let p = sc_precomps s;
          s = (if tm_t ts = 1 \<and> allow_mcch s then s\<lparr>sc_mcch_chan_alloc_sent_this_frame := False\<rparr> else s)
      in s\<lparr>sc_precomps := p\<lparr>
           pc_mac_sync := (pc_mac_sync p)\<lparr>ms_time := ts\<rparr>,
           pc_mac_sysinfo1 := (pc_mac_sysinfo1 p)\<lparr>si_hyperframe_number := Some (tm_h ts)\<rparr>,
           pc_mac_sysinfo2 := (pc_mac_sysinfo2 p)\<lparr>si_hyperframe_number := Some (tm_h ts)\<rparr>\<rparr>\<rparr>)"

text \<open>The user blocks of the slot: traffic, signalling, idle, or none.\<close>

definition user_blocks :: "TdmaTime \<Rightarrow> bool \<Rightarrow> (TmvUnitdataReq option \<times> TmvUnitdataReq option) sched" where
  "user_blocks ts bcch s =
     (let dl_circuit_active = cm_is_active (sc_circuits s) Direction_Dl (sc_carrier_num s) (tm_t ts) \<and> tm_f ts \<noteq> 18;
          hang_effective = (if supports_assigned_traffic_ts s (tm_t ts) then is_hangtime_effective s (tm_t ts) else False);
          dl_is_traffic = dl_circuit_active \<and> \<not> hang_effective;
          req = (\<lambda>lchan buf. \<lparr>rq_mac_block = buf, rq_logical_channel = lchan, rq_scrambling_code = sc_scrambling_code s\<rparr>)
      in if dl_is_traffic then
           bind (dl_build_traffic_block ts) (\<lambda>(tch_buf, stch_opt).
           case stch_opt of
             Some stch_buf \<Rightarrow> ret (Some (req Stch stch_buf), Some (req TchS tch_buf))
           | None \<Rightarrow> ret (Some (req TchS tch_buf), None)) s
         else
           bind (dl_integrate_sched_elems_for_timeslot ts) (\<lambda>_.
           bind (dl_build_block_from_signalling_schedule ts) (\<lambda>buf.
           case buf of
             Some buf \<Rightarrow> ret (Some (req SchF buf), None)
           | None \<Rightarrow>
               if hang_effective \<and> dl_circuit_active then
                 bind generate_hangtime_idle_schf (\<lambda>buf. ret (Some (req SchF buf), None))
               else if \<not> bcch then
                 bind generate_hangtime_idle_schf (\<lambda>buf. ret (Some (req SchF buf), None))
               else ret (None, None))) s)"

text \<open>The second block: SYSINFO beside a half slot; a whole slot must be long enough.\<close>

definition second_block :: "TdmaTime \<Rightarrow> TmvUnitdataReq \<Rightarrow> TmvUnitdataReq option \<Rightarrow> TmvUnitdataReq option sched" where
  "second_block ts blk1 blk2 s =
     (if rq_logical_channel blk1 = Stch then bind (guard (blk2 \<noteq> None)) (\<lambda>_. ret blk2) s
      else if blk2 = None \<and> (rq_logical_channel blk1 = Bsch \<or> rq_logical_channel blk1 = SchHd) then
        bind (guard (get_len (rq_mac_block blk1) \<le> 124)) (\<lambda>_.
        bind (write_new 124 (seq
          [MacSysinfo_to_bitbuf (if tm_t ts mod 2 = 1 then pc_mac_sysinfo1 (sc_precomps s) else pc_mac_sysinfo2 (sc_precomps s)),
           DMleSysinfo_to_bitbuf (pc_mle_sysinfo (sc_precomps s))])) (\<lambda>buf.
        ret (Some \<lparr>rq_mac_block = buf, rq_logical_channel = Bnch, rq_scrambling_code = sc_scrambling_code s\<rparr>))) s
      else if blk2 = None then bind (guard (268 \<le> get_len (rq_mac_block blk1))) (\<lambda>_. ret blk2) s
      else Ok (blk2, s))"

definition seek_start :: "TmvUnitdataReq option \<Rightarrow> TmvUnitdataReq option sched" where
  "seek_start blk s =
     (case blk of
        None \<Rightarrow> Ok (None, s)
      | Some b \<Rightarrow>
          (case seek 0 (rq_mac_block b) of
             Ok (_, buf) \<Rightarrow> Ok (Some (b\<lparr>rq_mac_block := buf\<rparr>), s) | Err e \<Rightarrow> Err e | Panic \<Rightarrow> Panic))"

definition finalize_ts_for_tick_inner :: "bool \<Rightarrow> TmvUnitdataReqSlot option sched" where
  "finalize_ts_for_tick_inner bcch =
     bind (gets (\<lambda>s. TdmaTime_add_timeslots (sc_cur_dltime s) (int MACSCHED_TX_AHEAD))) (\<lambda>ts.
     bind (upd (start_slot ts)) (\<lambda>_.
     bind (gets (\<lambda>s. cm_is_active (sc_circuits s) Direction_Ul (sc_carrier_num s) (tm_t ts) \<and> tm_f ts \<noteq> 18 \<and>
       \<not> (supports_assigned_traffic_ts s (tm_t ts) \<and> is_hangtime_effective s (tm_t ts)))) (\<lambda>ul_is_traffic.
     bind (user_blocks ts bcch) (\<lambda>(blk1, blk2).
     bind (guard (blk1 \<noteq> None \<and> bcch \<longrightarrow> tm_f ts \<noteq> 18)) (\<lambda>_.
     bind (generate_bbk_block ts) (\<lambda>bbk.
     bind (case blk1 of Some b \<Rightarrow> ret b | None \<Rightarrow> generate_default_blks ts) (\<lambda>blk1.
     bind (second_block ts blk1 blk2) (\<lambda>blk2.
     bind (try_add_null_pdus (Some blk1)) (\<lambda>blk1.
     bind (try_add_null_pdus blk2) (\<lambda>blk2.
     bind (seek_start (Some bbk)) (\<lambda>bbk.
     bind (seek_start blk1) (\<lambda>blk1.
     bind (seek_start blk2) (\<lambda>blk2.
     bind (clear_ul_schedule_for_tx_time ts) (\<lambda>_.
     bind (gets sc_carrier_num) (\<lambda>carrier_num.
     ret (Some \<lparr>sl_carrier_num = carrier_num, sl_ts = ts,
       sl_ul_phy_chan = (if ul_is_traffic then PhysicalChannel_Tp else PhysicalChannel_Cp),
       sl_blk1 = blk1, sl_blk2 = blk2, sl_bbk = bbk\<rparr>))))))))))))))))"

definition finalize_ts_for_tick :: "TmvUnitdataReqSlot sched" where
  "finalize_ts_for_tick = bind (finalize_ts_for_tick_inner True) unwrap"

definition finalize_secondary_ts_for_tick :: "TmvUnitdataReqSlot option sched" where
  "finalize_secondary_ts_for_tick = bind (gets (\<lambda>s. emit_bcch (sc_downlink_mode s))) finalize_ts_for_tick_inner"

end
