(* ===== verification/Bs_Sched_Slot_Spec.thy ===== *)
theory Bs_Sched_Slot_Spec
  imports Bs_Sched_Slot Bs_Sched_Ul_Spec "HOL-Library.Multiset"
begin

text \<open>
  How a signalling slot is filled. The abstract view: the messages of the queue stand in one line, fragments first; each
  takes a chunk of what room is left (\<open>chunk\<close>), and those that are not done form the next line (\<open>fill_slot\<close>).
  \<open>build_loop_run\<close> shows that the \<open>while\<close> loop with its priority search implements it, for every queue.
\<close>

declare One_nat_def [simp del]

section \<open>The abstract slot\<close>

text \<open>A message: the header that has not been sent yet, if so, and the SDU bits left.\<close>

type_synonym msg = "MacResource option \<times> bool list"

fun chunk :: "nat \<Rightarrow> msg \<Rightarrow> bool list \<times> msg option" where
  "chunk cap (Some r, sdu) =
     (let n = mr_hdr_len r + length sdu; k = compute_required n cap; m = cap - mr_hdr_len r
      in if n \<le> cap then (MacResource_enc (res_chunk r ((n + k) div 8) (0 < k)) @ sdu @ fill_bits_of k, None)
         else if cap < 32 \<or> cap < mr_hdr_len r then ([], Some (Some r, sdu))
         else (MacResource_enc (res_chunk r 63 False) @ take m sdu, Some (None, drop m sdu)))"
| "chunk cap (None, sdu) =
     (let l = div_ceil8 (13 + length sdu); e = compute_required (13 + length sdu) cap;
          m = min (cap - 4) (length sdu); k = cap - 4 - m
      in if 8 * l \<le> cap then (MacEndDl_enc (end_chunk l (0 < e)) @ sdu @ fill_bits_of e, None)
         else if cap < 16 then ([], Some (None, sdu))
         else (MacFragDl_enc \<lparr>MacFragDl_fill_bits = 0 < k\<rparr> @ take m sdu @ fill_bits_of k, Some (None, drop m sdu)))"

fun fill_slot :: "nat \<Rightarrow> msg list \<Rightarrow> bool list \<times> msg list" where
  "fill_slot cap [] = ([], [])"
| "fill_slot cap (m # ms) =
     (let (bits, m') = chunk cap m; (rest, left) = fill_slot (cap - length bits) ms
      in (bits @ rest, case m' of Some m' \<Rightarrow> m' # left | None \<Rightarrow> left))"

declare chunk.simps [simp del]

definition frag_msg :: "BsFragger \<Rightarrow> msg" where
  "frag_msg f = (if mac_hdr_is_written f then None else Some (bf_resource f), unread (bf_sdu f))"

lemma frag_step_chunk:
  assumes "frag_step r cap st bits part fin st'" and "fst m = (if fst st then None else Some r)" and "snd m = snd st"
  shows "fst (chunk cap m) = bits \<and> (fin \<longleftrightarrow> snd (chunk cap m) = None) \<and>
    (\<not> fin \<longrightarrow> snd (chunk cap m) = Some (if fst st' then None else Some r, snd st'))"
  using assms by (induction rule: frag_step.induct) (cases m; simp add: chunk.simps Let_def)+

lemma chunk_length: "length (fst (chunk cap m)) \<le> cap"
proof -
  obtain h sdu where m: "m = (h, sdu)" by (cases m)
  show ?thesis
  proof (cases h)
    case None
    have "13 + length sdu + compute_required (13 + length sdu) cap \<le> cap" if "8 * div_ceil8 (13 + length sdu) \<le> cap"
      using that by (intro compute_required) (simp add: div_ceil8_def)
    then show ?thesis using None m by (auto simp: chunk.simps Let_def)
  next
    case (Some r)
    then show ?thesis using m compute_required(2) [of "mr_hdr_len r + length sdu" cap] by (auto simp: chunk.simps Let_def)
  qed
qed

text \<open>Nothing of a message is lost: what the chunk carries and what is left are the message.\<close>

lemma fill_slot_length: "length (fst (fill_slot cap ms)) \<le> cap"
proof (induction ms arbitrary: cap)
  case (Cons m ms)
  have "length (fst (fill_slot (cap - length (fst (chunk cap m))) ms)) \<le> cap - length (fst (chunk cap m))" by (rule Cons.IH)
  with chunk_length [of cap m] show ?case by (simp add: case_prod_beta)
qed simp

section \<open>The order in which the loop takes the elements\<close>

definition signalling :: "DlSchedElem \<Rightarrow> bool" where
  "signalling e \<longleftrightarrow> is_fragbuf e \<or> is_resource e \<or> is_stealing e"

definition order :: "DlSchedElem list \<Rightarrow> DlSchedElem list" where
  "order q = filter is_fragbuf q @ filter is_resource q @ filter is_stealing q"

lemma kinds:
  "is_fragbuf e \<Longrightarrow> \<not> is_resource e \<and> \<not> is_stealing e \<and> \<not> is_grant e \<and> \<not> is_ack e"
  "is_resource e \<Longrightarrow> \<not> is_stealing e \<and> \<not> is_grant e \<and> \<not> is_ack e \<and> \<not> is_fragbuf e"
  "is_stealing e \<Longrightarrow> \<not> is_grant e \<and> \<not> is_ack e \<and> \<not> is_fragbuf e \<and> \<not> is_resource e"
  by (cases e; simp add: is_fragbuf_def is_resource_def is_stealing_def is_grant_def is_ack_def)+

lemma signalling_kinds: "signalling e \<Longrightarrow> \<not> is_grant e \<and> \<not> is_ack e"
  unfolding signalling_def using kinds by blast

lemma elem_position_None: "position P xs = None \<longleftrightarrow> (\<forall>x \<in> set xs. \<not> P x)"
  by (induction xs) auto

lemma elem_position_Some:
  "position P xs = Some i \<Longrightarrow> filter P xs = (xs ! i) # filter P (remove_at i xs) \<and>
     (\<forall>Q. \<not> Q (xs ! i) \<longrightarrow> filter Q (remove_at i xs) = filter Q xs)"
proof (induction xs arbitrary: i)
  case (Cons x xs)
  show ?case
  proof (cases "P x")
    case True
    with Cons.prems show ?thesis by (auto simp: remove_at_def)
  next
    case False
    with Cons.prems obtain j where j: "i = Suc j" "position P xs = Some j" by auto
    have "remove_at i (x # xs) = x # remove_at j xs" by (simp add: remove_at_def j)
    with Cons.IH [OF j(2)] False j show ?thesis by auto
  qed
qed simp

lemma set_remove_at: "set (remove_at i q) \<subseteq> set q"
  unfolding remove_at_def by (auto dest: in_set_takeD in_set_dropD)

lemma prioritized_order:
  assumes "\<forall>e \<in> set q. signalling e" and "q \<noteq> []"
  shows "\<exists>i. prioritized q = Some i \<and> i < length q \<and> order q = (q ! i) # order (remove_at i q)"
proof -
  have g: "position is_grant q = None" using assms(1) signalling_kinds by (simp add: elem_position_None)
  consider (f) i where "position is_fragbuf q = Some i"
    | (r) i where "position is_fragbuf q = None" "position is_resource q = Some i"
    | (s) i where "position is_fragbuf q = None" "position is_resource q = None" "position is_stealing q = Some i"
    | (none) "position is_fragbuf q = None" "position is_resource q = None" "position is_stealing q = None"
    by (cases "position is_fragbuf q"; cases "position is_resource q"; cases "position is_stealing q") auto
  then show ?thesis
  proof cases
    case f
    note p = elem_position_Some [OF f] and l = position_less [OF f]
    have "prioritized q = Some i" using g f by (simp add: prioritized_def)
    moreover have "order q = (q ! i) # order (remove_at i q)" using p l kinds(1) [of "q ! i"] by (simp add: order_def)
    ultimately show ?thesis using l by blast
  next
    case r
    note p = elem_position_Some [OF r(2)] and l = position_less [OF r(2)]
    have "prioritized q = Some i" using g r by (simp add: prioritized_def)
    moreover have "filter is_fragbuf q = []" using r(1) by (simp add: elem_position_None filter_empty_conv)
    then have "order q = (q ! i) # order (remove_at i q)" using p l kinds(2) [of "q ! i"] by (simp add: order_def)
    ultimately show ?thesis using l by blast
  next
    case s
    note p = elem_position_Some [OF s(3)] and l = position_less [OF s(3)]
    have "prioritized q = Some i" using g s by (simp add: prioritized_def)
    moreover have "filter is_fragbuf q = []" "filter is_resource q = []" using s(1,2) by (simp_all add: elem_position_None filter_empty_conv)
    then have "order q = (q ! i) # order (remove_at i q)" using p l kinds(3) [of "q ! i"] by (simp add: order_def)
    ultimately show ?thesis using l by blast
  next
    case none
    with assms show ?thesis by (cases q) (auto simp: elem_position_None signalling_def)
  qed
qed

lemma order_Nil: "\<forall>e \<in> set q. signalling e \<Longrightarrow> order q = [] \<longleftrightarrow> q = []"
  by (auto simp: order_def filter_empty_conv signalling_def)

section \<open>One element\<close>

definition opt_list :: "'a option \<Rightarrow> 'a list" where
  "opt_list x = (case x of Some y \<Rightarrow> [y] | None \<Rightarrow> [])"

lemma opt_list_simps [simp]: "opt_list None = []" "opt_list (Some x) = [x]"
  by (simp_all add: opt_list_def)

definition unmarked :: "TxReporter option \<Rightarrow> bool" where
  "unmarked r = pred_option (\<lambda>r. tx_state r = TxState_as_u8 Pending) r"

definition reporters :: "DlSchedElem \<Rightarrow> TxReporter list" where
  "reporters e =
     (case e of
        DlSchedElem_Resource _ _ r \<Rightarrow> opt_list r
      | DlSchedElem_FragBuf f \<Rightarrow> opt_list (bf_tx_reporter f)
      | DlSchedElem_Stealing _ r \<Rightarrow> opt_list r
      | _ \<Rightarrow> [])"

text \<open>The shared cells that reporters stand for, as a multiset: no cell is lost, and none is counted twice.\<close>

definition cells :: "TxReporter list \<Rightarrow> nat multiset" where
  "cells rs = mset (map tx_cell rs)"

lemma cells_simps [simp]: "cells [] = {#}" "cells (r # rs) = add_mset (tx_cell r) (cells rs)" "cells (rs @ ts) = cells rs + cells ts"
  by (simp_all add: cells_def)

definition receipts :: "DlSchedElem list \<Rightarrow> nat multiset" where
  "receipts q = cells (concat (map reporters q))"

lemma receipts_simps [simp]:
  "receipts [] = {#}" "receipts (e # q) = cells (reporters e) + receipts q" "receipts (q @ q') = receipts q + receipts q'"
  by (simp_all add: receipts_def)

lemma balance_add: "a + x = m \<Longrightarrow> b + y = n \<Longrightarrow> (a + b) + (x + y) = m + n" for a :: "'a multiset"
  by (auto simp: ac_simps)

lemma balance_cancel: "a + q = b + (n + x) \<Longrightarrow> r + x = q \<Longrightarrow> a + r = b + n" for a :: "'a multiset"
  by (metis (no_types) add.assoc add_right_cancel)

text \<open>What the loop relies on of an element.\<close>

definition sendable :: "DlSchedElem \<Rightarrow> bool" where
  "sendable e =
     (case e of
        DlSchedElem_Resource pdu sdu r \<Rightarrow> frag_ready pdu \<and> bb_inv sdu \<and> get_pos sdu = 0 \<and> unmarked r
      | DlSchedElem_FragBuf f \<Rightarrow> frag_active f
      | DlSchedElem_Stealing b r \<Rightarrow> bb_inv b \<and> unmarked r
      | _ \<Rightarrow> False)"

lemma sendable_signalling: "sendable e \<Longrightarrow> signalling e"
  by (cases e) (simp_all add: sendable_def signalling_def is_fragbuf_def is_resource_def is_stealing_def)

definition elem_msg :: "DlSchedElem \<Rightarrow> msg option" where
  "elem_msg e =
     (case e of
        DlSchedElem_Resource pdu sdu _ \<Rightarrow> Some (Some pdu, unread sdu)
      | DlSchedElem_FragBuf f \<Rightarrow> Some (frag_msg f)
      | _ \<Rightarrow> None)"

definition msgs :: "DlSchedElem list \<Rightarrow> msg list" where
  "msgs q = concat (map (\<lambda>e. opt_list (elem_msg e)) q)"

lemma msgs_simps [simp]: "msgs [] = []" "msgs (e # q) = opt_list (elem_msg e) @ msgs q" "msgs (q @ q') = msgs q @ msgs q'"
  by (simp_all add: msgs_def)

text \<open>The effect on the state: elements for the next slot, and reporters that leave.\<close>

definition sent :: "DlSchedElem list \<Rightarrow> TxReporter list \<Rightarrow> BsChannelScheduler \<Rightarrow> BsChannelScheduler" where
  "sent xs rs s = s\<lparr>sc_dltx_next_slot_queue := sc_dltx_next_slot_queue s @ xs, sc_reports := sc_reports s @ rs\<rparr>"

lemma sent_simps [simp]:
  "sent [] [] s = s" "sent xs rs (sent ys ts s) = sent (ys @ xs) (ts @ rs) s"
  "queue_of (sent xs rs s) t = queue_of s t" "sc_dltx_queues (sent xs rs s) = sc_dltx_queues s"
  by (simp_all add: sent_def queue_of_def)

lemma report_sent: "report r s = Ok ((), sent [] (opt_list r) s)"
  by (simp add: report_def upd_def sent_def opt_list_def split: option.split)

lemma push_next_sent: "push_next e s = Ok ((), sent [e] [] s)"
  by (simp add: push_next_def upd_def sent_def)

definition settled :: "TxReporter list \<Rightarrow> bool" where
  "settled rs \<longleftrightarrow> (\<forall>r \<in> set rs. get_state r = Transmitted \<or> get_state r = Discarded)"

lemma settled_simps [simp]: "settled []" "settled (rs @ ts) \<longleftrightarrow> settled rs \<and> settled ts"
  by (auto simp: settled_def)

lemma report_marked_run:
  assumes "unmarked r" and "mk = mark_discarded \<or> mk = mark_transmitted"
  shows "\<exists>rs. report_marked mk r s = Ok ((), sent [] rs s) \<and> settled rs \<and> cells rs = cells (opt_list r)"
proof (cases r)
  case None
  then show ?thesis by (intro exI [of _ "[]"]) (simp add: report_marked_def ret_def)
next
  case (Some x)
  obtain st where "mk x = Ok ((), x\<lparr>tx_state := TxState_as_u8 st\<rparr>)" "st = Discarded \<or> st = Transmitted"
    using assms Some by (auto simp: unmarked_def mark_discarded_def mark_transmitted_def mark_def)
  then show ?thesis using Some
    by (intro exI [of _ "[x\<lparr>tx_state := TxState_as_u8 st\<rparr>]"]) (auto simp: report_marked_def report_sent settled_def)
qed

text \<open>The fragmenter keeps its reporter, which is marked with the last chunk only.\<close>

lemma keeps_on_block: "keeps (bf_tx_reporter \<circ> fst) (on_block m)"
  by (auto simp: keeps_def on_block_def split: outcome.splits)

lemma keeps_on_fragger: "(\<And>f. bf_tx_reporter (g f) = bf_tx_reporter f) \<Longrightarrow> keeps (bf_tx_reporter \<circ> fst) (on_fragger g)"
  by (auto simp: keeps_def on_fragger_def)

lemma keeps_copy_sdu: "keeps (bf_tx_reporter \<circ> fst) (copy_sdu n)"
  by (auto simp: keeps_def copy_sdu_def split: outcome.splits)

lemma keeps_chunks: "keeps (bf_tx_reporter \<circ> fst) get_resource_chunk" "keeps (bf_tx_reporter \<circ> fst) get_frag_or_end_chunk"
proof -
  show "keeps (bf_tx_reporter \<circ> fst) get_resource_chunk"
    unfolding get_resource_chunk_def Let_def
    by (intro keeps_bind keeps_gets keeps_guard keeps_unwrap)
       (auto intro!: keeps_intros keeps_on_block keeps_on_fragger keeps_copy_sdu)
  show "keeps (bf_tx_reporter \<circ> fst) get_frag_or_end_chunk"
    unfolding get_frag_or_end_chunk_def Let_def
    by (intro keeps_bind keeps_gets keeps_guard keeps_unwrap)
       (auto intro!: keeps_intros keeps_on_block keeps_on_fragger keeps_copy_sdu)
qed

lemma next_chunk_reporter:
  assumes "get_next_chunk (f, b) = Ok (fin, (f', b'))"
  shows "cells (opt_list (bf_tx_reporter f')) = cells (opt_list (bf_tx_reporter f))"
proof -
  let ?n = "\<lambda>x :: BsFragger \<times> bitbuffer. cells (opt_list (bf_tx_reporter (fst x)))"
  have k: "keeps ?n get_resource_chunk" "keeps ?n get_frag_or_end_chunk"
    using keeps_chunks unfolding keeps_def comp_def by fastforce+
  have "keeps ?n report_transmitted"
    by (auto simp: keeps_def report_transmitted_def mark_transmitted_def mark_def split: option.splits outcome.splits if_splits)
  moreover have "keeps ?n (on_fragger (is_fully_transmitted_update (\<lambda>_. x)))" for x
    by (auto simp: keeps_def on_fragger_def)
  ultimately have "keeps ?n get_next_chunk"
    unfolding get_next_chunk_def using k
    by (intro keeps_bind keeps_gets keeps_guard keeps_ret) (auto intro: keeps_ret)
  from keepsD [OF this assms] show ?thesis by simp
qed

definition frag_only :: "DlSchedElem list \<Rightarrow> bool" where
  "frag_only xs \<longleftrightarrow> (\<forall>x \<in> set xs. sendable x \<and> is_fragbuf x)"

lemma frag_only_simps [simp]: "frag_only []" "frag_only (xs @ ys) \<longleftrightarrow> frag_only xs \<and> frag_only ys"
  by (auto simp: frag_only_def)

lemma drop_finished: "is_fully_transmitted f \<Longrightarrow> drop_fragger f s = Ok ((), sent [] (opt_list (bf_tx_reporter f)) s)"
  by (simp add: drop_fragger_def BsFragger_drop_def report_sent)

lemma send_chunk_run:
  assumes "frag_active f" and "block_ready b" and "get_len_remaining b < 512"
  shows "\<exists>b' xs rs. send_chunk f b s = Ok (b', sent xs rs s) \<and> block_ready b' \<and>
    wrote b (fst (chunk (get_len_remaining b) (frag_msg f))) b' \<and> msgs xs = opt_list (snd (chunk (get_len_remaining b) (frag_msg f))) \<and>
    frag_only xs \<and> settled rs \<and> cells rs + receipts xs = cells (opt_list (bf_tx_reporter f))"
proof -
  let ?c = "chunk (get_len_remaining b) (frag_msg f)"
  from get_next_chunk_refines [OF assms] obtain fin f' b' bits part where
    n: "get_next_chunk (f, b) = Ok (fin, (f', b'))" "wrote b bits b'" "block_ready b'"
      "mac_hdr_is_written f' \<or> bf_resource f' = bf_resource f" "if fin then is_fully_transmitted f' \<and> reporter_done f' else frag_active f'"
    and st: "frag_step (bf_resource f) (get_len_remaining b) (frag_abs f) bits part fin (frag_abs f')" by auto
  have m': "(if fst (frag_abs f') then None else Some (bf_resource f), snd (frag_abs f')) = frag_msg f'"
    using n(4) by (auto simp: frag_msg_def frag_abs_def)
  have mf: "fst (frag_msg f) = (if fst (frag_abs f) then None else Some (bf_resource f))" "snd (frag_msg f) = snd (frag_abs f)"
    by (simp_all add: frag_msg_def frag_abs_def)
  have c: "fst ?c = bits" "fin \<longleftrightarrow> snd ?c = None" "\<not> fin \<longrightarrow> snd ?c = Some (frag_msg f')"
    using frag_step_chunk [OF st mf, unfolded m'] by blast+
  note r = next_chunk_reporter [OF n(1)]
  show ?thesis
  proof (cases fin)
    case True
    with n(5) have "settled (opt_list (bf_tx_reporter f'))"
      by (cases "bf_tx_reporter f'") (auto simp: reporter_done_def settled_def)
    moreover have "send_chunk f b s = Ok (b', sent [] (opt_list (bf_tx_reporter f')) s)"
      using True n(1,5) by (simp add: send_chunk_def bind_def drop_finished ret_def)
    moreover have "snd ?c = None" using True c(2) by blast
    ultimately show ?thesis using n(2,3) c(1) r
      by (intro exI [of _ b'] exI [of _ "[]"] exI [of _ "opt_list (bf_tx_reporter f')"]) simp
  next
    case False
    have "send_chunk f b s = Ok (b', sent [DlSchedElem_FragBuf f'] [] s)"
      using False n(1) by (simp add: send_chunk_def bind_def dl_enqueue_tma_frag_next_frame_def push_next_sent ret_def)
    moreover have "snd ?c = Some (frag_msg f')" using False c(3) by blast
    moreover have "frag_only [DlSchedElem_FragBuf f']" using False n(5) by (simp add: frag_only_def sendable_def is_fragbuf_def)
    ultimately show ?thesis using n(2,3) c(1) r
      by (intro exI [of _ b'] exI [of _ "[DlSchedElem_FragBuf f']"] exI [of _ "[]"]) (simp add: elem_msg_def reporters_def)
  qed
qed

text \<open>The block so far, and what one element or a line of elements makes of it.\<close>

definition block_ok :: "bitbuffer option \<Rightarrow> bool" where
  "block_ok buf \<longleftrightarrow> block_ready (block_or_new buf) \<and> get_len_remaining (block_or_new buf) < 512"

definition filled :: "msg list \<Rightarrow> bitbuffer option \<Rightarrow> bitbuffer option \<Rightarrow> DlSchedElem list \<Rightarrow> bool" where
  "filled ms buf buf' xs \<longleftrightarrow>
     (let (bits, left) = fill_slot (get_len_remaining (block_or_new buf)) ms
      in wrote (block_or_new buf) bits (block_or_new buf') \<and> msgs xs = left) \<and>
     block_ok buf' \<and> frag_only xs \<and> (buf' = None \<longleftrightarrow> buf = None \<and> ms = [])"

lemma wrote_block_ok:
  assumes "block_ok buf" and "wrote (block_or_new buf) bits b'" and "length bits \<le> get_len_remaining (block_or_new buf)"
  shows "get_len_remaining b' = get_len_remaining (block_or_new buf) - length bits" "get_len_remaining b' < 512"
  using wrote_remaining(1) [of "block_or_new buf" bits b'] assms by (auto simp: block_ok_def block_ready_def)

lemma filled_Nil: "block_ok buf \<Longrightarrow> filled [] buf buf []"
  by (simp add: filled_def block_ok_def wrote_refl block_ready_def)

lemma filled_chunk:
  assumes "block_ok buf" and "block_ready b'" and "wrote (block_or_new buf) (fst (chunk (get_len_remaining (block_or_new buf)) m)) b'"
    and "msgs xs = opt_list (snd (chunk (get_len_remaining (block_or_new buf)) m))" and "frag_only xs"
  shows "filled [m] buf (Some b') xs"
  using assms wrote_block_ok(2) [OF assms(1,3) chunk_length]
  by (auto simp: filled_def block_ok_def block_or_new_def case_prod_beta opt_list_def split: option.splits)

lemma filled_trans:
  assumes "block_ok buf" and "filled [m] buf buf1 xs" and "filled ms buf1 buf2 ys"
  shows "filled (m # ms) buf buf2 (xs @ ys)"
proof -
  let ?b = "block_or_new buf" and ?b1 = "block_or_new buf1" and ?c = "chunk (get_len_remaining (block_or_new buf)) m"
  have f1: "wrote ?b (fst ?c) ?b1" "msgs xs = opt_list (snd ?c)" "frag_only xs" "block_ok buf1" "buf1 \<noteq> None"
    using assms(2) by (auto simp: filled_def case_prod_beta opt_list_def split: option.splits)
  have rem: "get_len_remaining ?b1 = get_len_remaining ?b - length (fst ?c)"
    using wrote_block_ok(1) [OF assms(1) f1(1) chunk_length] by simp
  let ?f = "fill_slot (get_len_remaining ?b - length (fst ?c)) ms"
  have f2: "wrote ?b1 (fst ?f) (block_or_new buf2)" "msgs ys = snd ?f" "block_ok buf2" "frag_only ys" "buf2 \<noteq> None"
    using assms(3) f1(5) rem by (auto simp: filled_def case_prod_beta)
  have "wrote ?b (fst ?c @ fst ?f) (block_or_new buf2)"
    using wrote_trans [OF _ f1(1) f2(1)] assms(1) by (simp add: block_ok_def block_ready_def)
  with f1 f2 show ?thesis by (auto simp: filled_def case_prod_beta opt_list_def split: option.splits)
qed

lemma filled_Nil_trans:
  assumes "block_ok buf" and "filled [] buf buf1 xs" and "filled ms buf1 buf2 ys"
  shows "filled ms buf buf2 (xs @ ys)"
proof -
  let ?b = "block_or_new buf" and ?b1 = "block_or_new buf1"
  have f1: "wrote ?b [] ?b1" "msgs xs = []" "frag_only xs" "buf1 = None \<longleftrightarrow> buf = None" using assms(2) by (auto simp: filled_def)
  have rem: "get_len_remaining ?b1 = get_len_remaining ?b" using wrote_block_ok(1) [OF assms(1) f1(1)] by simp
  let ?f = "fill_slot (get_len_remaining ?b) ms"
  have f2: "wrote ?b1 (fst ?f) (block_or_new buf2)" "msgs ys = snd ?f" "block_ok buf2" "frag_only ys" "buf2 = None \<longleftrightarrow> buf1 = None \<and> ms = []"
    using assms(3) rem by (auto simp: filled_def case_prod_beta)
  have "wrote ?b (fst ?f) (block_or_new buf2)"
    using wrote_trans [OF _ f1(1) f2(1)] assms(1) by (simp add: block_ok_def block_ready_def)
  with f1 f2 show ?thesis by (auto simp: filled_def case_prod_beta)
qed

lemma build_elem_run:
  assumes "sendable e" and "block_ok buf"
  shows "\<exists>buf' xs rs. build_elem e buf s = Ok (buf', sent xs rs s) \<and> filled (msgs [e]) buf buf' xs \<and> settled rs \<and>
    cells rs + receipts xs = receipts [e]"
proof -
  let ?b = "block_or_new buf"
  have b: "block_ready ?b" "get_len_remaining ?b < 512" using assms(2) by (simp_all add: block_ok_def)
  have send: ?thesis if f: "frag_active f" "build_elem e buf s = bind (send_chunk f ?b) (\<lambda>buf. ret (Some buf)) s"
    "msgs [e] = [frag_msg f]" "receipts [e] = cells (opt_list (bf_tx_reporter f))" for f
  proof -
    from send_chunk_run [OF f(1) b, of s] obtain b' xs rs where r: "send_chunk f ?b s = Ok (b', sent xs rs s)" "block_ready b'"
      "wrote ?b (fst (chunk (get_len_remaining ?b) (frag_msg f))) b'" "msgs xs = opt_list (snd (chunk (get_len_remaining ?b) (frag_msg f)))"
      "frag_only xs" "settled rs" "cells rs + receipts xs = cells (opt_list (bf_tx_reporter f))" by blast
    from filled_chunk [OF assms(2) r(2-5)] r f show ?thesis
      by (intro exI [of _ "Some b'"] exI [of _ xs] exI [of _ rs]) (simp add: bind_def ret_def)
  qed
  show ?thesis
  proof (cases e)
    case (DlSchedElem_Resource pdu sdu r)
    let ?f = "\<lparr>bf_resource = pdu, mac_hdr_is_written = False, is_fully_transmitted = False, bf_sdu = sdu, bf_tx_reporter = r\<rparr>"
    have "frag_active ?f"
      using assms(1) DlSchedElem_Resource by (simp add: sendable_def frag_active_def frag_inv_def reporter_pending_def unmarked_def)
    moreover have "build_elem e buf s = bind (send_chunk ?f ?b) (\<lambda>buf. ret (Some buf)) s"
      using assms(1) DlSchedElem_Resource by (simp add: build_elem_def BsFragger_new_def sendable_def)
    ultimately show ?thesis by (rule send) (simp_all add: DlSchedElem_Resource elem_msg_def frag_msg_def reporters_def)
  next
    case (DlSchedElem_FragBuf f)
    then show ?thesis using assms(1)
      by (intro send [of f]) (simp_all add: sendable_def build_elem_def elem_msg_def reporters_def)
  next
    case (DlSchedElem_Stealing b r)
    with assms(1) report_marked_run [of r mark_discarded s] obtain rs where
      "report_marked mark_discarded r s = Ok ((), sent [] rs s)" "settled rs" "cells rs = cells (opt_list r)" by (auto simp: sendable_def)
    then show ?thesis using filled_Nil [OF assms(2)] DlSchedElem_Stealing
      by (intro exI [of _ buf] exI [of _ "[]"] exI [of _ rs]) (simp add: build_elem_def bind_def ret_def elem_msg_def reporters_def)
  qed (use assms(1) in \<open>simp_all add: sendable_def\<close>)
qed

section \<open>The loop\<close>

definition with_queue :: "u8 \<Rightarrow> DlSchedElem list \<Rightarrow> BsChannelScheduler \<Rightarrow> BsChannelScheduler" where
  "with_queue t q s = s\<lparr>sc_dltx_queues := set_entry (sc_dltx_queues s) t q\<rparr>"

lemma with_queue_same: "queue_of s t = Some q \<Longrightarrow> with_queue t q s = s"
  by (cases s) (auto simp: with_queue_def queue_of_def entry_def ts_idx_def set_entry_def split: if_splits)

lemma with_queue_simps [simp]:
  "with_queue t q (with_queue t q' s) = with_queue t q s"
  "with_queue t q (sent xs rs s) = sent xs rs (with_queue t q s)"
  "queue_of s t \<noteq> None \<Longrightarrow> queue_of (with_queue t q s) t = Some q"
  by (auto simp: with_queue_def sent_def queue_of_def entry_def ts_idx_def set_entry_def split: if_splits)

lemma queue_of_with_queue:
  assumes "t \<noteq> t'" and "t \<noteq> 0"
  shows "queue_of (with_queue t q s) t' = queue_of s t'"
proof -
  have "unat t - 1 \<noteq> unat t' - 1" if "t' \<noteq> 0"
    using assms that by (metis One_nat_def Suc_pred unat_eq_zero unat_gt_0 word_unat_eq_iff neq0_conv)
  then show ?thesis
    by (auto simp: with_queue_def queue_of_def entry_def ts_idx_def set_entry_def)
qed

lemma put_queue_run: "put_queue t q s = Ok ((), with_queue t q s)"
  by (simp add: put_queue_def upd_def with_queue_def)

lemma get_queue_run: "queue_of s t = Some q \<Longrightarrow> get_queue t s = Ok (q, s)"
  by (simp add: get_queue_def bind_def gets_def unwrap_def ret_def)

lemma push_queue_run: "queue_of s t = Some q \<Longrightarrow> push_queue t e s = Ok ((), with_queue t (q @ [e]) s)"
  by (simp add: push_queue_def bind_def get_queue_run put_queue_run)

lemma take_prioritized_run:
  assumes "queue_of s (tm_t ts) = Some q" and "tm_f ts \<noteq> 18" and "prioritized q = Some i"
  shows "dl_take_prioritized_sched_item ts s = Ok (Some (q ! i), with_queue (tm_t ts) (remove_at i q) s)"
  using assms by (simp add: dl_take_prioritized_sched_item_def with_queue_def)

lemma build_loop_run:
  assumes "queue_of s (tm_t ts) = Some q" and "\<forall>e \<in> set q. sendable e" and "tm_f ts \<noteq> 18" and "block_ok buf"
  shows "\<exists>buf' xs rs. build_loop ts buf s = Ok (buf', sent xs rs (with_queue (tm_t ts) [] s)) \<and>
    filled (msgs (order q)) buf buf' xs \<and> settled rs \<and> cells rs + receipts xs = receipts (order q)"
  using assms
proof (induction "length q" arbitrary: q s buf)
  case 0
  then show ?case
    by (intro exI [of _ buf] exI [of _ "[]"])
       (simp add: build_loop.simps with_queue_same order_def filled_Nil)
next
  case (Suc n)
  let ?t = "tm_t ts"
  have "\<forall>e \<in> set q. signalling e" "q \<noteq> []" using Suc.prems(2) Suc.hyps(2) sendable_signalling by auto
  from prioritized_order [OF this] obtain i where i: "prioritized q = Some i" "i < length q" "order q = q ! i # order (remove_at i q)" by blast
  let ?q = "remove_at i q" and ?s = "with_queue ?t (remove_at i q) s"
  have ok: "sendable (q ! i)" "\<forall>e \<in> set ?q. sendable e" using Suc.prems(2) i(2) set_remove_at [of i q] by auto
  have len: "n = length ?q" using Suc.hyps(2) i(2) by (simp add: length_remove_at)
  from build_elem_run [OF ok(1) Suc.prems(4), of ?s] obtain b1 xs rs where
    e: "build_elem (q ! i) buf ?s = Ok (b1, sent xs rs ?s)" "filled (msgs [q ! i]) buf b1 xs" "settled rs"
      "cells rs + receipts xs = receipts [q ! i]" by blast
  have b1: "block_ok b1" using e(2) by (simp add: filled_def)
  have qs: "queue_of (sent xs rs ?s) ?t = Some ?q" using Suc.prems(1) by simp
  from Suc.hyps(1) [OF len qs ok(2) Suc.prems(3) b1] obtain b2 ys us where
    l: "build_loop ts b1 (sent xs rs ?s) = Ok (b2, sent ys us (with_queue ?t [] (sent xs rs ?s)))" "filled (msgs (order ?q)) b1 b2 ys"
      "settled us" "cells us + receipts ys = receipts (order ?q)" by blast
  have "build_loop ts buf s = Ok (b2, sent (xs @ ys) (rs @ us) (with_queue ?t [] s))"
    using Suc.prems(1) \<open>q \<noteq> []\<close> e(1) l(1) take_prioritized_run [OF Suc.prems(1,3) i(1)] by (subst build_loop.simps) simp
  moreover have "filled (msgs (order q)) buf b2 (xs @ ys)"
  proof (cases "elem_msg (q ! i)")
    case None
    then show ?thesis using filled_Nil_trans [OF Suc.prems(4), of b1 xs] e(2) l(2) i(3) by simp
  next
    case (Some m)
    then show ?thesis using filled_trans [OF Suc.prems(4), of m b1 xs] e(2) l(2) i(3) by simp
  qed
  moreover have "cells (rs @ us) + receipts (xs @ ys) = receipts (order q)"
    using balance_add [OF e(4) l(4)] i(3) by simp
  ultimately show ?case using e(3) l(3) by (intro exI [of _ b2] exI [of _ "xs @ ys"] exI [of _ "rs @ us"]) simp
qed

end
