(* ===== verification/Bs_Sched_Inv.thy ===== *)
theory Bs_Sched_Inv
  imports Bs_Sched_Slot_Spec
begin

text \<open>
  The invariant of the channel scheduler and the operations on its downlink queues: under the invariant none of them panics,
  and each keeps it.
\<close>

declare One_nat_def [simp del]

section \<open>Invariant\<close>

definition addr_ok :: "TetraAddress \<Rightarrow> bool" where
  "addr_ok a \<longleftrightarrow> fits 24 (ta_ssi a) \<and> ta_ssi_type a \<in> {SsiType_Ssi, SsiType_Issi, SsiType_Gssi}"

text \<open>A resource into which a grant may still be merged: a plain address, and no event label beside it.\<close>

definition resource_ok :: "MacResource \<Rightarrow> bool" where
  "resource_ok p \<longleftrightarrow> frag_ready p \<and> mr_event_label p = None \<and> pred_option addr_ok (mr_addr p) \<and> mr_addr p \<noteq> None"

definition elem_ok :: "DlSchedElem \<Rightarrow> bool" where
  "elem_ok e =
     (case e of
        DlSchedElem_Broadcast _ \<Rightarrow> False
      | DlSchedElem_RandomAccessAck addr \<Rightarrow> addr_ok addr
      | DlSchedElem_Grant addr grant marker \<Rightarrow> addr_ok addr \<and> BasicSlotgrant_wf grant \<and> pred_option (fits 6) marker
      | DlSchedElem_Resource pdu sdu r \<Rightarrow> resource_ok pdu \<and> bb_inv sdu \<and> get_pos sdu = 0 \<and> unmarked r
      | DlSchedElem_FragBuf f \<Rightarrow> frag_active f
      | DlSchedElem_Stealing b r \<Rightarrow> bb_inv b \<and> get_len b = SCH_HD_CAP \<and> unmarked r)"

definition queue_ok :: "DlSchedElem list \<Rightarrow> bool" where
  "queue_ok q \<longleftrightarrow> (\<forall>e \<in> set q. elem_ok e)"

lemma queue_ok_simps [simp]:
  "queue_ok []" "queue_ok (e # q) \<longleftrightarrow> elem_ok e \<and> queue_ok q" "queue_ok (q @ q') \<longleftrightarrow> queue_ok q \<and> queue_ok q'"
  by (auto simp: queue_ok_def)

lemma queue_ok_filter [simp]: "queue_ok q \<Longrightarrow> queue_ok (filter P q)"
  by (simp add: queue_ok_def)

lemma elem_ok_sendable: "elem_ok e \<Longrightarrow> \<not> is_grant e \<Longrightarrow> \<not> is_ack e \<Longrightarrow> sendable e"
  by (cases e) (simp_all add: elem_ok_def sendable_def is_grant_def is_ack_def resource_ok_def)

lemma frag_only_ok: "frag_only xs \<Longrightarrow> queue_ok xs"
proof -
  have "elem_ok e" if "sendable e" "is_fragbuf e" for e
    using that by (cases e) (simp_all add: elem_ok_def sendable_def is_fragbuf_def)
  then show "frag_only xs \<Longrightarrow> queue_ok xs" by (simp add: frag_only_def queue_ok_def)
qed

definition circuits_ok :: "CircuitMgr \<Rightarrow> bool" where
  "circuits_ok m \<longleftrightarrow> cm_inv m \<and> (\<forall>c \<in> ran (cm_dl m) \<union> ran (cm_ul m). 4 \<le> ci_usage c \<and> ci_usage c < 64)"

text \<open>The precomputed broadcasts, whatever time the next slot puts into them.\<close>

definition precomps_ok :: "PrecomputedUmacPdus \<Rightarrow> bool" where
  "precomps_ok p \<longleftrightarrow>
     (\<forall>ts. TdmaTime_is_valid ts \<longrightarrow> MacSync_wf ((pc_mac_sync p)\<lparr>ms_time := ts\<rparr>)) \<and>
     (\<forall>h. MacSysinfo_ok ((pc_mac_sysinfo1 p)\<lparr>si_hyperframe_number := Some h\<rparr>)) \<and>
     (\<forall>h. MacSysinfo_ok ((pc_mac_sysinfo2 p)\<lparr>si_hyperframe_number := Some h\<rparr>)) \<and>
     DMleSync_wf (pc_mle_sync p) \<and> DMleSysinfo_wf (pc_mle_sysinfo p)"

definition queues_ok :: "BsChannelScheduler \<Rightarrow> bool" where
  "queues_ok s \<longleftrightarrow> length (sc_dltx_queues s) = 4 \<and> (\<forall>q \<in> set (sc_dltx_queues s). queue_ok q) \<and>
     queue_ok (sc_dltx_next_slot_queue s) \<and> list_all is_resource (sc_dltx_next_slot_queue s)"

definition sched_inv :: "BsChannelScheduler \<Rightarrow> bool" where
  "sched_inv s \<longleftrightarrow> ul_inv s \<and> queues_ok s \<and> circuits_ok (sc_circuits s) \<and> precomps_ok (sc_precomps s) \<and>
     length (sc_hangtime s) = 4 \<and> length (sc_pending_ra_acks s) = 4 \<and> TdmaTime_is_valid (sc_cur_dltime s)"

lemma queues_ok_queue:
  assumes "queues_ok s" and "valid_ts t"
  obtains q where "queue_of s t = Some q" "queue_ok q"
proof
  have i: "t \<noteq> 0" "unat t - 1 < length (sc_dltx_queues s)"
    using assms valid_idx(1) by (auto simp: queues_ok_def valid_ts_unat)
  show "queue_of s t = Some (sc_dltx_queues s ! (unat t - 1))"
    using i by (simp add: queue_of_def entry_def ts_idx_def)
  show "queue_ok (sc_dltx_queues s ! (unat t - 1))"
    using assms(1) i by (simp add: queues_ok_def)
qed

lemma queues_ok_with_queue [simp]: "queues_ok s \<Longrightarrow> queue_ok q \<Longrightarrow> queues_ok (with_queue t q s)"
  by (auto simp: queues_ok_def with_queue_def set_entry_def dest!: set_update_subset_insert [THEN subsetD])

text \<open>The invariant in terms of the parts an operation changes.\<close>

lemma sched_inv_queues: "sched_inv s \<Longrightarrow> queue_ok q \<Longrightarrow> sched_inv (with_queue t q s)"
proof -
  assume s: "sched_inv s" and q: "queue_ok q"
  then have "queues_ok (with_queue t q s)" by (simp add: sched_inv_def)
  with s show ?thesis by (simp add: sched_inv_def ul_inv_def with_queue_def)
qed

lemma queues_ok_sent: "queues_ok s \<Longrightarrow> queue_ok xs \<Longrightarrow> list_all is_resource xs \<Longrightarrow> queues_ok (sent xs rs s)"
  by (simp add: queues_ok_def sent_def)

lemma sched_inv_sent: "sched_inv s \<Longrightarrow> queue_ok xs \<Longrightarrow> list_all is_resource xs \<Longrightarrow> sched_inv (sent xs rs s)"
proof -
  assume s: "sched_inv s" and xs: "queue_ok xs" "list_all is_resource xs"
  then have "queues_ok (sent xs rs s)" by (simp add: sched_inv_def queues_ok_sent)
  with s show ?thesis by (simp add: sched_inv_def ul_inv_def sent_def)
qed

lemma sched_inv_report: "sched_inv s \<Longrightarrow> sched_inv (sent [] rs s)"
  by (rule sched_inv_sent) simp_all

section \<open>Leaving hangtime\<close>

lemma drop_fragger_run:
  assumes "frag_active f"
  shows "\<exists>rs. drop_fragger f s = Ok ((), sent [] rs s) \<and> settled rs \<and> cells rs = cells (opt_list (bf_tx_reporter f))"
proof (cases "bf_tx_reporter f")
  case None
  then show ?thesis by (intro exI [of _ "[]"]) (simp add: drop_fragger_def BsFragger_drop_def report_sent)
next
  case (Some r)
  with assms have "tx_state r = TxState_as_u8 Pending" "\<not> is_fully_transmitted f"
    by (simp_all add: frag_active_def reporter_pending_def)
  then show ?thesis using Some
    by (intro exI [of _ "[r\<lparr>tx_state := TxState_as_u8 Discarded\<rparr>]"])
       (simp add: drop_fragger_def BsFragger_drop_def get_state_def mark_discarded_def mark_def report_sent settled_def)
qed

definition acked :: "u32 list \<Rightarrow> u8 \<Rightarrow> BsChannelScheduler \<Rightarrow> BsChannelScheduler" where
  "acked as t s = s\<lparr>sc_pending_ra_acks := set_entry (sc_pending_ra_acks s) t (sc_pending_ra_acks s ! (unat t - 1) @ as)\<rparr>"

definition ack_ssis :: "DlSchedElem list \<Rightarrow> u32 list" where
  "ack_ssis q = concat (map (\<lambda>e. case e of DlSchedElem_RandomAccessAck a \<Rightarrow> [ta_ssi a] | _ \<Rightarrow> []) q)"

lemma acked_simps:
  "valid_ts t \<Longrightarrow> length (sc_pending_ra_acks s) = 4 \<Longrightarrow> acked as t (acked bs t s) = acked (bs @ as) t s"
  "acked as t (sent xs rs s) = sent xs rs (acked as t s)"
  "valid_ts t \<Longrightarrow> length (sc_pending_ra_acks s) = 4 \<Longrightarrow> acked [] t s = s"
  using valid_idx(1) [of t] by (simp_all add: acked_def sent_def set_entry_def)

lemma discard_elem_run:
  assumes "elem_ok e" and "\<not> is_stealing e" and "valid_ts t" and "length (sc_pending_ra_acks s) = 4"
  shows "\<exists>rs. discard_elem t e s = Ok ((), sent [] rs (acked (ack_ssis [e]) t s)) \<and> settled rs \<and> cells rs = cells (reporters e)"
proof -
  have i: "t \<noteq> 0" "unat t - 1 < 4" using assms(3) valid_idx(1) by (auto simp: valid_ts_unat)
  show ?thesis
  proof (cases e)
    case (DlSchedElem_Resource p d r)
    with assms(1) report_marked_run [of r mark_discarded s] show ?thesis
      by (auto simp: elem_ok_def discard_elem_def ack_ssis_def acked_simps assms(3,4) reporters_def)
  next
    case (DlSchedElem_FragBuf f)
    with assms(1) drop_fragger_run [of f s] show ?thesis
      by (auto simp: elem_ok_def discard_elem_def ack_ssis_def acked_simps assms(3,4) reporters_def)
  next
    case (DlSchedElem_RandomAccessAck a)
    then show ?thesis using i assms(4)
      by (intro exI [of _ "[]"]) (simp add: discard_elem_def bind_def gets_def unwrap_def ret_def upd_def entry_def ts_idx_def
          acked_def ack_ssis_def reporters_def)
  next
    case (DlSchedElem_Grant a g m)
    then show ?thesis using assms(3,4)
      by (intro exI [of _ "[]"]) (simp add: discard_elem_def ret_def acked_simps ack_ssis_def reporters_def)
  qed (use assms(1,2) in \<open>simp_all add: elem_ok_def is_stealing_def\<close>)
qed

lemma length_acked [simp]: "length (sc_pending_ra_acks (acked as t s)) = length (sc_pending_ra_acks s)"
  by (simp add: acked_def set_entry_def)

lemma length_acked_sent [simp]: "length (sc_pending_ra_acks (sent xs rs s)) = length (sc_pending_ra_acks s)"
  by (simp add: sent_def)

lemma drop_loop_run:
  assumes "queue_ok q" and "valid_ts t" and "length (sc_pending_ra_acks s) = 4"
  shows "\<exists>rs. drop_loop t q s = Ok ((filter is_stealing q \<noteq> q, filter is_stealing q), sent [] rs (acked (ack_ssis q) t s)) \<and>
    settled rs \<and> cells rs = receipts (filter (\<lambda>e. \<not> is_stealing e) q)"
  using assms
proof (induction q arbitrary: s)
  case Nil
  then show ?case by (intro exI [of _ "[]"]) (simp add: ret_def acked_simps ack_ssis_def)
next
  case (Cons e q)
  have ack: "ack_ssis (e # q) = ack_ssis [e] @ ack_ssis q" by (simp add: ack_ssis_def)
  show ?case
  proof (cases "is_stealing e")
    case True
    then have "ack_ssis [e] = []" by (cases e) (simp_all add: is_stealing_def ack_ssis_def)
    moreover from Cons obtain rs where "drop_loop t q s = Ok ((filter is_stealing q \<noteq> q, filter is_stealing q), sent [] rs (acked (ack_ssis q) t s))"
      "settled rs" "cells rs = receipts (filter (\<lambda>e. \<not> is_stealing e) q)" by fastforce
    ultimately show ?thesis using True ack by (intro exI [of _ rs]) (simp add: bind_def ret_def)
  next
    case False
    from discard_elem_run [of e t s] Cons.prems False obtain rs where
      d: "discard_elem t e s = Ok ((), sent [] rs (acked (ack_ssis [e]) t s))" "settled rs" "cells rs = cells (reporters e)" by auto
    let ?s = "sent [] rs (acked (ack_ssis [e]) t s)"
    from Cons.IH [of ?s] Cons.prems obtain us where
      l: "drop_loop t q ?s = Ok ((filter is_stealing q \<noteq> q, filter is_stealing q), sent [] us (acked (ack_ssis q) t ?s))"
        "settled us" "cells us = receipts (filter (\<lambda>e. \<not> is_stealing e) q)" by auto
    have ne: "filter is_stealing q \<noteq> e # q"
      using length_filter_le [of is_stealing q] by (metis impossible_Cons)
    show ?thesis using False d l ack ne Cons.prems
      by (intro exI [of _ "rs @ us"]) (simp add: bind_def ret_def acked_simps)
  qed
qed

lemma queue_of_acked [simp]: "queue_of (acked as t s) t' = queue_of s t'"
  by (simp add: queue_of_def acked_def)

lemma drop_all_run:
  assumes "queue_of s t = Some q" and "queue_ok q" and "valid_ts t" and "length (sc_pending_ra_acks s) = 4"
  shows "\<exists>rs. dl_drop_all_except_stolen t s =
      Ok (filter is_stealing q \<noteq> q, with_queue t (filter is_stealing q) (sent [] rs (acked (ack_ssis q) t s))) \<and>
    settled rs \<and> cells rs = receipts (filter (\<lambda>e. \<not> is_stealing e) q)"
  using drop_loop_run [OF assms(2-4)] assms(1)
  by (auto simp: dl_drop_all_except_stolen_def bind_def get_queue_run put_queue_run ret_def)

lemma sched_inv_acked: "sched_inv s \<Longrightarrow> sched_inv (acked as t s)"
  by (simp add: sched_inv_def ul_inv_def queues_ok_def acked_def set_entry_def)

lemma sched_inv_hangtime: "sched_inv s \<Longrightarrow> sched_inv (s\<lparr>sc_hangtime := set_entry (sc_hangtime s) t b\<rparr>)"
  by (simp add: sched_inv_def ul_inv_def queues_ok_def set_entry_def)

lemma set_hangtime_run:
  assumes "sched_inv s"
  shows "\<exists>s'. set_hangtime t b s = Ok ((), s') \<and> sched_inv s'"
proof (cases "valid_ts t \<and> \<not> b")
  case True
  let ?s = "s\<lparr>sc_hangtime := set_entry (sc_hangtime s) t b\<rparr>"
  have inv: "sched_inv ?s" by (rule sched_inv_hangtime [OF assms])
  then obtain q where q: "queue_of ?s t = Some q" "queue_ok q" using True queues_ok_queue [of ?s t] by (auto simp: sched_inv_def)
  from drop_all_run [OF q] True inv obtain rs where
    "dl_drop_all_except_stolen t ?s = Ok (filter is_stealing q \<noteq> q, with_queue t (filter is_stealing q) (sent [] rs (acked (ack_ssis q) t ?s)))"
    by (auto simp: sched_inv_def)
  moreover have "sched_inv (with_queue t (filter is_stealing q) (sent [] rs (acked (ack_ssis q) t ?s)))"
    using inv q(2) by (intro sched_inv_queues sched_inv_report sched_inv_acked) simp_all
  ultimately show ?thesis using True by (simp add: set_hangtime_def bind_def upd_def ret_def)
next
  case False
  then show ?thesis using assms sched_inv_hangtime [OF assms, of t b]
    by (cases "valid_ts t") (auto simp: set_hangtime_def bind_def upd_def ret_def)
qed

section \<open>Queueing\<close>

lemma push_queue_inv:
  assumes "sched_inv s" and "valid_ts t" and "elem_ok e"
  shows "\<exists>s'. push_queue t e s = Ok ((), s') \<and> sched_inv s'"
proof -
  obtain q where q: "queue_of s t = Some q" "queue_ok q" using assms queues_ok_queue [of s t] by (auto simp: sched_inv_def)
  then show ?thesis using assms by (auto simp: push_queue_run intro!: sched_inv_queues)
qed

lemma enqueue_grant_inv:
  assumes "sched_inv s" and "valid_ts t" and "addr_ok a" and "BasicSlotgrant_wf g" and "pred_option (fits 6) m"
  shows "\<exists>s'. dl_enqueue_grant t a g m s = Ok ((), s') \<and> sched_inv s'"
  using push_queue_inv [OF assms(1,2), of "DlSchedElem_Grant a g m"] assms
  by (auto simp: dl_enqueue_grant_def bind_gets ret_def elem_ok_def)

lemma enqueue_ack_inv:
  assumes "sched_inv s" and "valid_ts t" and "addr_ok a"
  shows "\<exists>s'. dl_enqueue_random_access_ack t a s = Ok ((), s') \<and> sched_inv s'"
  using push_queue_inv [OF assms(1,2), of "DlSchedElem_RandomAccessAck a"] assms
  by (auto simp: dl_enqueue_random_access_ack_def bind_gets ret_def elem_ok_def)

lemma enqueue_stealing_inv:
  assumes "sched_inv s" and "valid_ts t" and "bb_inv b" and "get_len b = SCH_HD_CAP" and "unmarked r"
  shows "\<exists>s'. dl_enqueue_stealing t b r s = Ok ((), s') \<and> sched_inv s'"
  using push_queue_inv [OF assms(1,2), of "DlSchedElem_Stealing b r"] assms
  by (auto simp: dl_enqueue_stealing_def elem_ok_def)

text \<open>A message is sent in one timeslot or in none, so that the clone of the loop is never made.\<close>

lemma identify_one_slot: "\<exists>t. identify_timeslots_for_ssi s a l = [t, 0, 0, 0] \<and> (t = 0 \<or> valid_ts t)"
proof -
  have "valid_ts 1" by (simp add: valid_ts_def word_le_nat_alt)
  then show ?thesis
    by (auto simp: identify_timeslots_for_ssi_def valid_ts_def NUM_TIMESLOTS_def Let_def split: option.split)
qed

lemma sched_inv_flag: "sched_inv s \<Longrightarrow> sched_inv (s\<lparr>sc_mcch_chan_alloc_sent_this_frame := b\<rparr>)"
  by (simp add: sched_inv_def ul_inv_def queues_ok_def)

lemma enqueue_loop_inv:
  assumes "sched_inv s" and "t = 0 \<or> valid_ts t" and "elem_ok (DlSchedElem_Resource p d r)"
  shows "\<exists>s'. enqueue_loop [t, 0, 0, 0] p d r s = Ok ((), s') \<and> sched_inv s'"
proof (cases "t = 0")
  case True
  then show ?thesis using sched_inv_report [OF assms(1)] by (auto simp: report_sent)
next
  case False
  let ?e = "DlSchedElem_Resource p d r" and ?alloc = "t = 1 \<and> allow_mcch s \<and> mr_chan_alloc_element p \<noteq> None"
  let ?s = "s\<lparr>sc_mcch_chan_alloc_sent_this_frame := True\<rparr>"
  have t: "valid_ts t" using False assms(2) by simp
  have next_inv: "sched_inv (sent [?e] [] s)"
    using assms(1,3) by (intro sched_inv_sent) (simp_all add: is_resource_def)
  show ?thesis
  proof (cases "?alloc")
    case True
    then show ?thesis
    proof (cases "sc_mcch_chan_alloc_sent_this_frame s")
      case True
      with \<open>?alloc\<close> False next_inv show ?thesis by (simp add: bind_def gets_def ret_def push_next_sent)
    next
      case not_sent: False
      with \<open>?alloc\<close> False push_queue_inv [OF sched_inv_flag [OF assms(1), of True] t assms(3)] show ?thesis
        by (simp add: bind_def gets_def ret_def upd_def)
    qed
  next
    case no: False
    with False push_queue_inv [OF assms(1) t assms(3)] show ?thesis by (auto simp: bind_def gets_def ret_def upd_def)
  qed
qed

lemma enqueue_tma_inv:
  assumes "sched_inv s" and "elem_ok (DlSchedElem_Resource p d r)"
  shows "\<exists>s'. dl_enqueue_tma_for_link l p d r s = Ok ((), s') \<and> sched_inv s'"
    and "\<exists>s'. dl_enqueue_tma p d r s = Ok ((), s') \<and> sched_inv s'"
    and "\<exists>s'. dl_enqueue_tma_next_frame p d r s = Ok ((), s') \<and> sched_inv s'"
proof -
  have loop: "\<exists>s'. enqueue_loop (identify_timeslots_for_ssi s a l) p d r s = Ok ((), s') \<and> sched_inv s'" for a l
  proof -
    obtain t where "identify_timeslots_for_ssi s a l = [t, 0, 0, 0]" "t = 0 \<or> valid_ts t" using identify_one_slot [of s a l] by blast
    then show ?thesis using enqueue_loop_inv [OF assms(1) _ assms(2), of t] by (simp del: enqueue_loop.simps)
  qed
  then show "\<exists>s'. dl_enqueue_tma_for_link l p d r s = Ok ((), s') \<and> sched_inv s'"
    "\<exists>s'. dl_enqueue_tma p d r s = Ok ((), s') \<and> sched_inv s'"
    by (simp_all add: dl_enqueue_tma_for_link_def dl_enqueue_tma_def bind_gets dl_enqueue_tma_on_timeslots_def del: enqueue_loop.simps)
  have "sched_inv (sent [DlSchedElem_Resource p d r] [] s)"
    using assms by (intro sched_inv_sent) (simp_all add: is_resource_def)
  then show "\<exists>s'. dl_enqueue_tma_next_frame p d r s = Ok ((), s') \<and> sched_inv s'"
    by (simp add: dl_enqueue_tma_next_frame_def push_next_sent)
qed

lemma take_pending_inv:
  assumes "sched_inv s" and "valid_ts t"
  shows "\<exists>b s'. take_pending_ra_ack t ssi s = Ok (b, s') \<and> sched_inv s'"
proof -
  have "t \<noteq> 0" "unat t - 1 < length (sc_pending_ra_acks s)" using assms valid_idx(1) by (auto simp: valid_ts_unat sched_inv_def)
  moreover have "sched_inv (s\<lparr>sc_pending_ra_acks := set_entry (sc_pending_ra_acks s) t x\<rparr>)" for x
    using assms(1) by (simp add: sched_inv_def ul_inv_def queues_ok_def set_entry_def)
  ultimately show ?thesis using assms(1)
    by (auto simp: take_pending_ra_ack_def bind_def gets_def unwrap_def ret_def upd_def entry_def ts_idx_def split: option.splits)
qed

section \<open>Purging\<close>

lemma drop_elems_run:
  assumes "queue_ok q"
  shows "\<exists>rs. drop_elems q s = Ok ((), sent [] rs s) \<and> cells rs = receipts q"
  using assms
proof (induction q arbitrary: s)
  case Nil
  then show ?case by (intro exI [of _ "[]"]) (simp add: ret_def)
next
  case (Cons e q)
  have "\<exists>rs. drop_elem e s = Ok ((), sent [] rs s) \<and> cells rs = cells (reporters e)"
  proof (cases e)
    case (DlSchedElem_FragBuf f)
    with Cons.prems drop_fragger_run [of f s] show ?thesis by (auto simp: drop_elem_def elem_ok_def reporters_def)
  next
    case (DlSchedElem_Grant a g m)
    then show ?thesis by (intro exI [of _ "[]"]) (simp add: drop_elem_def ret_def reporters_def)
  next
    case (DlSchedElem_RandomAccessAck a)
    then show ?thesis by (intro exI [of _ "[]"]) (simp add: drop_elem_def ret_def reporters_def)
  qed (use Cons.prems in \<open>auto simp: drop_elem_def report_sent reporters_def elem_ok_def\<close>)
  then obtain rs where rs: "drop_elem e s = Ok ((), sent [] rs s)" "cells rs = cells (reporters e)" by blast
  from Cons.IH [of "sent [] rs s"] Cons.prems obtain us where "drop_elems q (sent [] rs s) = Ok ((), sent [] (rs @ us) s)" "cells us = receipts q"
    by auto
  with rs show ?case by (intro exI [of _ "rs @ us"]) (simp add: bind_def)
qed

lemma purge_inv:
  assumes "sched_inv s"
  shows "\<exists>s'. purge_schedule s = Ok ((), s') \<and> sched_inv s' \<and> sc_cur_dltime s' = sc_cur_dltime s"
proof -
  let ?s = "s\<lparr>sc_dltx_queues := [[], [], [], []]\<rparr>"
  have "queue_ok (concat (sc_dltx_queues s))" using assms by (auto simp: sched_inv_def queues_ok_def queue_ok_def)
  from drop_elems_run [OF this, of ?s] obtain rs where r: "drop_elems (concat (sc_dltx_queues s)) ?s = Ok ((), sent [] rs ?s)" by blast
  have "sched_inv ((sent [] rs ?s)\<lparr>sc_ulsched := EMPTY_SCHED\<rparr>)"
    using assms sched_ok_empty by (simp add: sched_inv_def ul_inv_def queues_ok_def sent_def)
  with r show ?thesis by (simp add: purge_schedule_def bind_def gets_def upd_def sent_def)
qed

lemma set_dl_time_inv: "sched_inv s \<Longrightarrow> TdmaTime_is_valid t \<Longrightarrow> \<exists>s'. set_dl_time t s = Ok ((), s') \<and> sched_inv s'"
  using purge_inv [of "s\<lparr>sc_cur_dltime := t\<rparr>"]
  by (simp add: set_dl_time_def bind_def upd_def) (auto simp: sched_inv_def ul_inv_def queues_ok_def)

section \<open>Modes and circuits\<close>

lemma circuits_ok_close: "circuits_ok m \<Longrightarrow> circuits_ok (snd (cm_close_circuit m dir c t))"
proof -
  assume m: "circuits_ok m"
  have "ran (cm_dl (snd (cm_close_circuit m dir c t))) \<subseteq> ran (cm_dl m)" "ran (cm_ul (snd (cm_close_circuit m dir c t))) \<subseteq> ran (cm_ul m)"
    by (cases dir; auto simp: cm_close_circuit_def Let_def ran_def split: if_splits)+
  with m cm_inv_close [of m dir c t] show ?thesis by (auto simp: circuits_ok_def)
qed

lemma circuits_ok_create:
  assumes "circuits_ok m" and "4 \<le> ci_usage c" and "ci_usage c < 64"
  shows "circuits_ok (cm_create_circuit m dir c)"
proof -
  let ?k = "(ci_carrier_num c, ci_ts c)"
  have sub: "ran (cm_dl (cm_create_circuit m dir c)) \<subseteq> insert c (ran (cm_dl m))"
    "ran (cm_ul (cm_create_circuit m dir c)) \<subseteq> insert c (ran (cm_ul m))"
    by (cases dir; auto simp: cm_create_circuit_def cm_close_circuit_def Let_def ran_def split: if_splits)+
  with assms cm_inv_create [of m dir c] show ?thesis by (auto simp: circuits_ok_def)
qed

lemma circuits_ok_put: "circuits_ok m \<Longrightarrow> circuits_ok (put_block m c t b)"
  using cm_inv_put [of m c t b] by (simp add: circuits_ok_def put_block_def Let_def)

lemma circuits_ok_take: "circuits_ok m \<Longrightarrow> circuits_ok (snd (take_block m c t))"
  using cm_inv_take [of m c t] by (simp add: circuits_ok_def take_block_def Let_def split: option.split list.split)

lemma sched_inv_circuits: "sched_inv s \<Longrightarrow> circuits_ok m \<Longrightarrow> sched_inv (s\<lparr>sc_circuits := m\<rparr>)"
  by (simp add: sched_inv_def ul_inv_def queues_ok_def)

lemma sched_inv_leave_hangtime: "sched_inv s \<Longrightarrow> sched_inv (leave_hangtime t s)"
  by (simp add: leave_hangtime_def sched_inv_hangtime)

lemma sched_inv_ok: "sched_inv s \<Longrightarrow> circuits_ok (sc_circuits s)"
  by (simp add: sched_inv_def)

lemma circuit_ops_inv:
  assumes "sched_inv s"
  shows "\<exists>s'. dl_schedule_tmd t b s = Ok ((), s') \<and> sched_inv s'"
    and "\<exists>c s'. close_circuit dir t s = Ok (c, s') \<and> sched_inv s'"
    and "4 \<le> ci_usage c \<Longrightarrow> ci_usage c < 64 \<Longrightarrow> \<exists>s'. create_circuit dir c s = Ok ((), s') \<and> sched_inv s'"
proof -
  note lh = sched_inv_leave_hangtime [OF assms]
  show "\<exists>s'. dl_schedule_tmd t b s = Ok ((), s') \<and> sched_inv s'"
    using sched_inv_circuits [OF assms circuits_ok_put [OF sched_inv_ok [OF assms]]] by (simp add: dl_schedule_tmd_def upd_def)
  show "\<exists>c s'. close_circuit dir t s = Ok (c, s') \<and> sched_inv s'"
    using sched_inv_circuits [OF lh circuits_ok_close [OF sched_inv_ok [OF lh]], of t dir] by (simp add: close_circuit_def case_prod_beta Let_def)
  show "4 \<le> ci_usage c \<Longrightarrow> ci_usage c < 64 \<Longrightarrow> \<exists>s'. create_circuit dir c s = Ok ((), s') \<and> sched_inv s'"
    using sched_inv_circuits [OF lh circuits_ok_create [OF sched_inv_ok [OF lh]]] assms by (simp add: create_circuit_def Let_def)
qed

lemma mode_ops_inv:
  assumes "sched_inv s"
  shows "\<exists>s'. set_carrier_num n s = Ok ((), s') \<and> sched_inv s'"
    and "\<exists>s'. set_downlink_mode mode s = Ok ((), s') \<and> sched_inv s'"
    and "\<exists>s'. set_system_wide_services_state b s = Ok ((), s') \<and> sched_inv s'"
  using assms by (simp_all add: set_carrier_num_def set_downlink_mode_def set_system_wide_services_state_def upd_def
      sched_inv_def ul_inv_def queues_ok_def precomps_ok_def DMleSysinfo_wf_def)

end
