(* ===== verification/Bs_Sched_Finalize.thy ===== *)
theory Bs_Sched_Finalize
  imports Bs_Sched_Inv
begin

text \<open>
  A tick of the scheduler: grants and acknowledgements are merged into resources, the slot is filled, the access
  assignment and the broadcasts are written. Under the invariant the tick succeeds, the slot has one of five formats, and the
  invariant holds again.
\<close>

declare One_nat_def [simp del]

section \<open>Merging grants and acknowledgements\<close>

lemma take_loop_filter:
  "take_loop ks q ts = (ts @ filter (\<lambda>e. is_grant e \<or> is_ack e) q, ks @ filter (\<lambda>e. \<not> (is_grant e \<or> is_ack e)) q)"
  by (induction q arbitrary: ks ts) auto

text \<open>The address of the element has a resource that carries it.\<close>

definition served :: "DlSchedElem \<Rightarrow> DlSchedElem list \<Rightarrow> bool" where
  "served e q \<longleftrightarrow>
     (\<exists>p d r a. DlSchedElem_Resource p d r \<in> set q \<and> mr_addr p = Some a \<and> Some (ta_ssi a) = map_option ta_ssi (elem_addr e) \<and>
        (if is_ack e then mr_random_access_flag p else mr_slot_granting_element p \<noteq> None))"

lemma integrate_into_ok:
  assumes "resource_ok p" and "elem_ok e" and "is_grant e \<or> is_ack e"
  obtains p' where "integrate_into e p = Some p'" "resource_ok p'" "mr_addr p' = mr_addr p"
    "if is_ack e then mr_random_access_flag p' else mr_slot_granting_element p' \<noteq> None"
    "mr_random_access_flag p \<longrightarrow> mr_random_access_flag p'" "mr_slot_granting_element p \<noteq> None \<longrightarrow> mr_slot_granting_element p' \<noteq> None"
proof (cases e)
  case (DlSchedElem_Grant a g m)
  let ?p = "p\<lparr>mr_slot_granting_element := Some g, mr_usage_marker := (if mr_usage_marker p = None then m else mr_usage_marker p)\<rparr>"
  have "resource_ok ?p"
    using assms(1,2) DlSchedElem_Grant
    by (auto simp: resource_ok_def frag_ready_def MacResource_writable_def mr_addr_ok_def mr_null_ok_def MacResource_is_null_pdu_def
        elem_ok_def addr_ok_def)
  then show ?thesis using DlSchedElem_Grant by (intro that [of ?p]) (simp_all add: integrate_into_def is_ack_def)
next
  case (DlSchedElem_RandomAccessAck a)
  let ?p = "p\<lparr>mr_random_access_flag := True\<rparr>"
  have "resource_ok ?p"
    using assms(1)
    by (auto simp: resource_ok_def frag_ready_def MacResource_writable_def mr_addr_ok_def mr_null_ok_def MacResource_is_null_pdu_def)
  then show ?thesis using DlSchedElem_RandomAccessAck by (intro that [of ?p]) (simp_all add: integrate_into_def is_ack_def)
qed (use assms(3) in \<open>simp_all add: is_grant_def is_ack_def\<close>)

lemma minimal_resource:
  obtains l f where "dl_make_minimal_resource a g b = Some \<lparr>mr_fill_bits = f, mr_pos_of_grant = 0, mr_encryption_mode = 0,
      mr_random_access_flag = b, mr_length_ind = l, mr_addr = Some a, mr_event_label = None, mr_usage_marker = None,
      mr_power_control_element = None, mr_slot_granting_element = g, mr_chan_alloc_element = None\<rparr>"
  by (simp add: dl_make_minimal_resource_def MacResource_update_len_and_fill_ind_def MacResource_compute_header_len_def
      MacResource_is_null_pdu_def Let_def)

lemmas resource_ok_defs = resource_ok_def frag_ready_def MacResource_writable_def mr_addr_ok_def mr_null_ok_def
  MacResource_is_null_pdu_def elem_ok_def addr_ok_def

lemma resource_of_ok:
  assumes "elem_ok e" and "is_grant e \<or> is_ack e"
  obtains p where "resource_of e = Some p" "resource_ok p" "mr_addr p = elem_addr e"
    "if is_ack e then mr_random_access_flag p else mr_slot_granting_element p \<noteq> None"
proof (cases e)
  case (DlSchedElem_Grant a g m)
  obtain l f where p: "dl_make_minimal_resource a (Some g) False = Some \<lparr>mr_fill_bits = f, mr_pos_of_grant = 0,
      mr_encryption_mode = 0, mr_random_access_flag = False, mr_length_ind = l, mr_addr = Some a, mr_event_label = None,
      mr_usage_marker = None, mr_power_control_element = None, mr_slot_granting_element = Some g, mr_chan_alloc_element = None\<rparr>"
    by (rule minimal_resource)
  then show ?thesis using assms(1) DlSchedElem_Grant
    by (intro that) (auto simp: resource_of_def elem_addr_def is_ack_def resource_ok_defs fits_unat)
next
  case (DlSchedElem_RandomAccessAck a)
  obtain l f where p: "dl_make_minimal_resource a None True = Some \<lparr>mr_fill_bits = f, mr_pos_of_grant = 0,
      mr_encryption_mode = 0, mr_random_access_flag = True, mr_length_ind = l, mr_addr = Some a, mr_event_label = None,
      mr_usage_marker = None, mr_power_control_element = None, mr_slot_granting_element = None, mr_chan_alloc_element = None\<rparr>"
    by (rule minimal_resource)
  then show ?thesis using assms(1) DlSchedElem_RandomAccessAck
    by (intro that) (auto simp: resource_of_def elem_addr_def is_ack_def resource_ok_defs fits_unat)
qed (use assms(2) in \<open>simp_all add: is_grant_def is_ack_def\<close>)

text \<open>The queue after a merge: as many messages to report, everything served before still served, and the new element too.\<close>

definition merged :: "DlSchedElem list \<Rightarrow> DlSchedElem list \<Rightarrow> bool" where
  "merged q q' \<longleftrightarrow> queue_ok q' \<and> receipts q' = receipts q \<and> (list_all signalling q \<longrightarrow> list_all signalling q') \<and>
     (\<forall>e. served e q \<longrightarrow> served e q')"

lemma merged_trans: "merged q q' \<Longrightarrow> merged q' q'' \<Longrightarrow> merged q q''"
  by (auto simp: merged_def)

lemma receipts_update: "i < length q \<Longrightarrow> reporters e = reporters (q ! i) \<Longrightarrow> receipts (q[i := e]) = receipts q"
  by (induction q arbitrary: i) (auto simp: nth_Cons split: nat.splits)

lemma merged_update:
  assumes "queue_ok q" and "i < length q" and "q ! i = DlSchedElem_Resource p d r" and "resource_ok p'" and "mr_addr p' = mr_addr p"
    and "mr_random_access_flag p \<longrightarrow> mr_random_access_flag p'" "mr_slot_granting_element p \<noteq> None \<longrightarrow> mr_slot_granting_element p' \<noteq> None"
  shows "merged q (q[i := DlSchedElem_Resource p' d r])"
proof -
  let ?e = "DlSchedElem_Resource p' d r"
  have in': "?e \<in> set (q[i := ?e])" using assms(2) by (simp add: set_update_memI)
  have "elem_ok (q ! i)" using assms(1,2) by (simp add: queue_ok_def)
  then have "elem_ok ?e" using assms(3,4) by (simp add: elem_ok_def)
  then have "queue_ok (q[i := ?e])"
    using assms(1) set_update_subset_insert [of q i ?e] by (auto simp: queue_ok_def)
  moreover have "receipts (q[i := ?e]) = receipts q" using assms(2,3) by (intro receipts_update) (simp_all add: reporters_def)
  moreover have "list_all signalling (q[i := ?e])" if "list_all signalling q"
    using that set_update_subset_insert [of q i ?e] by (auto simp: list_all_iff signalling_def is_resource_def)
  moreover have "served e (q[i := ?e])" if sv: "served e q" for e
  proof -
    from sv obtain p0 d0 r0 a where s: "DlSchedElem_Resource p0 d0 r0 \<in> set q" "mr_addr p0 = Some a"
      "Some (ta_ssi a) = map_option ta_ssi (elem_addr e)" "if is_ack e then mr_random_access_flag p0 else mr_slot_granting_element p0 \<noteq> None"
      unfolding served_def by blast
    then obtain j where j: "j < length q" "q ! j = DlSchedElem_Resource p0 d0 r0" by (auto simp: in_set_conv_nth)
    show ?thesis
    proof (cases "j = i")
      case True
      then show ?thesis unfolding served_def using s j assms(3,5-7) in' by (intro exI [of _ p'] exI [of _ d] exI [of _ r] exI [of _ a]) auto
    next
      case False
      then have "DlSchedElem_Resource p0 d0 r0 \<in> set (q[i := ?e])"
        using j by (metis length_list_update nth_list_update_neq nth_mem)
      then show ?thesis unfolding served_def using s(2-4) by blast
    qed
  qed
  ultimately show ?thesis by (simp add: merged_def)
qed

lemma merged_append:
  assumes "queue_ok q" and "resource_ok p"
  shows "merged q (q @ [DlSchedElem_Resource p (BitBuffer_new 0) None])"
proof -
  have "elem_ok (DlSchedElem_Resource p (BitBuffer_new 0) None)"
    using assms(2) by (simp add: elem_ok_def unmarked_def BitBuffer_new_def bb_inv_def get_pos_def div_ceil8_def)
  then show ?thesis using assms(1) by (auto simp: merged_def signalling_def is_resource_def reporters_def served_def)
qed

lemma integrate_elem_run:
  assumes "queue_of s (tm_t ts) = Some q" and "queue_ok q" and "elem_ok e" and "is_grant e \<or> is_ack e"
  shows "\<exists>q'. integrate_elem ts e s = Ok ((), with_queue (tm_t ts) q' s) \<and> merged q q' \<and> served e q'"
proof -
  obtain a where a: "elem_addr e = Some a" using assms(4) by (cases e) (simp_all add: elem_addr_def is_grant_def is_ack_def)
  show ?thesis
  proof (cases "position (resource_for (ta_ssi a)) q")
    case None
    from resource_of_ok [OF assms(3,4)] obtain p where p: "resource_of e = Some p" "resource_ok p" "mr_addr p = elem_addr e"
      "if is_ack e then mr_random_access_flag p else mr_slot_granting_element p \<noteq> None" by blast
    let ?q = "q @ [DlSchedElem_Resource p (BitBuffer_new 0) None]"
    have "integrate_elem ts e s = Ok ((), with_queue (tm_t ts) ?q s)"
      using assms(1) a None p(1)
      by (simp add: integrate_elem_def dl_get_scheduled_resource_for_ssi_def bind_def unwrap_def ret_def get_queue_run push_queue_run)
    moreover have "served e ?q" using p(3,4) a
      by (auto simp: served_def intro!: exI [of _ p] exI [of _ "BitBuffer_new 0"] exI [of _ None])
    ultimately show ?thesis using merged_append [OF assms(2) p(2)] by blast
  next
    case (Some i)
    from position_less [OF Some] have i: "i < length q" "resource_for (ta_ssi a) (q ! i)" by simp_all
    then obtain p d r b where e: "q ! i = DlSchedElem_Resource p d r" "mr_addr p = Some b" "ta_ssi b = ta_ssi a"
      by (cases "q ! i") (auto simp: resource_for_def split: option.splits)
    have "elem_ok (q ! i)" using assms(2) i(1) by (simp add: queue_ok_def)
    then have "resource_ok p" using e(1) by (simp add: elem_ok_def)
    from integrate_into_ok [OF this assms(3,4)] obtain p' where p': "integrate_into e p = Some p'" "resource_ok p'" "mr_addr p' = mr_addr p"
      "if is_ack e then mr_random_access_flag p' else mr_slot_granting_element p' \<noteq> None"
      "mr_random_access_flag p \<longrightarrow> mr_random_access_flag p'" "mr_slot_granting_element p \<noteq> None \<longrightarrow> mr_slot_granting_element p' \<noteq> None" by metis
    let ?q = "q[i := DlSchedElem_Resource p' d r]"
    have "integrate_elem ts e s = Ok ((), with_queue (tm_t ts) ?q s)"
      using assms(1) a Some e(1) p'(1)
      by (simp add: integrate_elem_def dl_get_scheduled_resource_for_ssi_def bind_def unwrap_def ret_def get_queue_run put_queue_run)
    moreover have "DlSchedElem_Resource p' d r \<in> set ?q" using i(1) by (simp add: set_update_memI)
    then have "served e ?q" unfolding served_def using p'(3,4) e(2,3) a by (intro exI [of _ p'] exI [of _ d] exI [of _ r] exI [of _ b]) auto
    ultimately show ?thesis using merged_update [OF assms(2) i(1) e(1) p'(2,3,5,6)] by blast
  qed
qed

lemma integrate_loop_run:
  assumes "queue_of s (tm_t ts) = Some q" and "queue_ok q" and "queue_ok es" and "\<forall>e \<in> set es. is_grant e \<or> is_ack e"
  shows "\<exists>q'. integrate_loop ts es s = Ok ((), with_queue (tm_t ts) q' s) \<and> merged q q' \<and> (\<forall>e \<in> set es. served e q')"
  using assms
proof (induction es arbitrary: s q)
  case Nil
  then show ?case by (intro exI [of _ q]) (simp add: ret_def with_queue_same merged_def)
next
  case (Cons e es)
  from integrate_elem_run [OF Cons.prems(1,2), of e] Cons.prems(3,4) obtain q1 where
    q1: "integrate_elem ts e s = Ok ((), with_queue (tm_t ts) q1 s)" "merged q q1" "served e q1" by auto
  let ?s = "with_queue (tm_t ts) q1 s"
  have "queue_of ?s (tm_t ts) = Some q1" "queue_ok q1" using Cons.prems(1) q1(2) by (simp_all add: merged_def)
  from Cons.IH [OF this] Cons.prems(3,4) obtain q2 where
    q2: "integrate_loop ts es ?s = Ok ((), with_queue (tm_t ts) q2 ?s)" "merged q1 q2" "\<forall>e \<in> set es. served e q2" by auto
  have "served e q2" using q1(3) q2(2) by (simp add: merged_def)
  with q1 q2 show ?case using merged_trans [OF q1(2) q2(2)] by (intro exI [of _ q2]) (simp add: bind_def)
qed

lemma integrate_run:
  assumes "queue_of s (tm_t ts) = Some q" and "queue_ok q"
  shows "\<exists>q'. dl_integrate_sched_elems_for_timeslot ts s = Ok ((), with_queue (tm_t ts) q' s) \<and>
    queue_ok q' \<and> receipts q' = receipts q \<and> (\<forall>e \<in> set q'. sendable e) \<and>
    (\<forall>e \<in> set q. is_grant e \<or> is_ack e \<longrightarrow> served e q')"
proof -
  let ?ga = "\<lambda>e. is_grant e \<or> is_ack e"
  let ?es = "filter ?ga q" and ?q = "filter (\<lambda>e. \<not> ?ga e) q"
  let ?s = "with_queue (tm_t ts) ?q s"
  have "queue_of ?s (tm_t ts) = Some ?q" "queue_ok ?q" "queue_ok ?es" "\<forall>e \<in> set ?es. ?ga e" using assms by simp_all
  from integrate_loop_run [OF this] obtain q' where
    l: "integrate_loop ts ?es ?s = Ok ((), with_queue (tm_t ts) q' ?s)" "merged ?q q'" "\<forall>e \<in> set ?es. served e q'" by blast
  have run: "dl_integrate_sched_elems_for_timeslot ts s = Ok ((), with_queue (tm_t ts) q' s)"
    using assms(1) l(1)
    by (simp add: dl_integrate_sched_elems_for_timeslot_def dl_take_all_grants_and_acks_def bind_def get_queue_run put_queue_run
        take_loop_filter ret_def)
  have "receipts ?q = receipts q"
  proof (induction q)
    case (Cons e q)
    then show ?case by (cases e) (simp_all add: is_grant_def is_ack_def reporters_def)
  qed simp
  moreover have sig: "list_all signalling ?q"
    using assms(2) elem_ok_sendable sendable_signalling by (auto simp: list_all_iff queue_ok_def)
  moreover have "\<forall>e \<in> set q'. sendable e"
  proof
    fix e assume "e \<in> set q'"
    then have "elem_ok e" "signalling e" using l(2) sig by (auto simp: merged_def queue_ok_def list_all_iff)
    then show "sendable e" using elem_ok_sendable signalling_kinds by blast
  qed
  ultimately show ?thesis using run l(2,3) by (auto simp: merged_def)
qed

section \<open>A signalling slot\<close>

lemma new_block: "n < 2 ^ 64 \<Longrightarrow> bb_inv (BitBuffer_new n)" "get_len_remaining (BitBuffer_new n) = n" "get_len (BitBuffer_new n) = n"
  "get_len_written (BitBuffer_new n) = 0" "room (BitBuffer_new n) n"
  by (simp_all add: BitBuffer_new_def bb_inv_def div_ceil8_def get_len_remaining_def get_len_def get_len_written_def room_def)

lemma block_ok_None: "block_ok None"
  by (simp add: block_ok_def block_or_new_def block_ready_def new_block SCH_F_CAP_def)

lemma wrote_len: "bb_inv b \<Longrightarrow> wrote b bs b' \<Longrightarrow> length bs \<le> get_len_remaining b \<Longrightarrow> get_len b' = get_len b"
proof -
  assume b: "bb_inv b" "wrote b bs b'" "length bs \<le> get_len_remaining b"
  then have "bb_end b' = max (bb_end b) (bb_pos b + length bs)" using wrote_end by blast
  moreover have "bb_pos b + length bs \<le> bb_end b" using b(1,3) unfolding get_len_remaining_def bb_inv_def by linarith
  ultimately show ?thesis using b(2) by (simp add: wrote_def get_len_def max_absorb1)
qed

lemma build_loop_fr18:
  assumes "queue_of s (tm_t ts) = Some q" and "tm_f ts = 18"
  shows "build_loop ts buf s = Ok (buf, s)"
  using assms by (subst build_loop.simps) (simp add: dl_take_prioritized_sched_item_def)

lemma merge_next_run:
  assumes "queue_of s t = Some q"
  shows "merge_next_slot_queue t s =
    Ok ((), with_queue t (sc_dltx_next_slot_queue s @ q) (s\<lparr>sc_dltx_next_slot_queue := []\<rparr>))"
proof (cases "sc_dltx_next_slot_queue s = []")
  case True
  then have e: "s\<lparr>sc_dltx_next_slot_queue := []\<rparr> = s" by (cases s) simp
  show ?thesis unfolding e using True with_queue_same [OF assms] by (simp add: merge_next_slot_queue_def bind_def gets_def ret_def)
next
  case False
  with assms show ?thesis by (simp add: merge_next_slot_queue_def bind_def gets_def get_queue_run upd_def put_queue_run)
qed

text \<open>What a signalling slot does, on a frame that carries user data and on frame 18.\<close>

lemma build_block_run:
  assumes "queue_of s (tm_t ts) = Some q" and "\<forall>e \<in> set q. sendable e" and "tm_f ts \<noteq> 18"
  shows "\<exists>buf xs rs. dl_build_block_from_signalling_schedule ts s =
      Ok (buf, sent [] rs (with_queue (tm_t ts) (sc_dltx_next_slot_queue s @ xs) (s\<lparr>sc_dltx_next_slot_queue := []\<rparr>))) \<and>
    filled (msgs (order q)) None buf xs \<and> settled rs \<and> cells rs + receipts xs = receipts (order q)"
proof -
  from build_loop_run [OF assms block_ok_None] obtain buf xs rs where
    l: "build_loop ts None s = Ok (buf, sent xs rs (with_queue (tm_t ts) [] s))" "filled (msgs (order q)) None buf xs"
      "settled rs" "cells rs + receipts xs = receipts (order q)" by blast
  let ?s = "sent xs rs (with_queue (tm_t ts) [] s)"
  have "queue_of ?s (tm_t ts) = Some []" using assms(1) by simp
  from merge_next_run [OF this]
  have "merge_next_slot_queue (tm_t ts) ?s =
      Ok ((), sent [] rs (with_queue (tm_t ts) (sc_dltx_next_slot_queue s @ xs) (s\<lparr>sc_dltx_next_slot_queue := []\<rparr>)))"
    by (simp add: with_queue_def sent_def set_entry_def)
  with l show ?thesis
    by (intro exI [of _ buf] exI [of _ xs] exI [of _ rs]) (simp add: dl_build_block_from_signalling_schedule_def bind_def ret_def)
qed

lemma build_block_fr18:
  assumes "queue_of s (tm_t ts) = Some q" and "tm_f ts = 18"
  shows "dl_build_block_from_signalling_schedule ts s =
      Ok (None, with_queue (tm_t ts) (sc_dltx_next_slot_queue s @ q) (s\<lparr>sc_dltx_next_slot_queue := []\<rparr>))"
  using build_loop_fr18 [OF assms, of None] merge_next_run [OF assms(1)]
  by (simp add: dl_build_block_from_signalling_schedule_def bind_def ret_def)

lemma receipts_order: "\<forall>e \<in> set q. signalling e \<Longrightarrow> receipts (order q) = receipts q"
proof (induction q)
  case (Cons e q)
  then have "receipts (order (e # q)) = cells (reporters e) + receipts (order q)"
    by (cases e) (simp_all add: order_def signalling_def is_fragbuf_def is_resource_def is_stealing_def)
  with Cons show ?case by simp
qed (simp add: order_def)

section \<open>Accounting for receipts\<close>

text \<open>The cells of the reporters that are still in the scheduler.\<close>

definition held :: "BsChannelScheduler \<Rightarrow> nat multiset" where
  "held s = sum_list (map receipts (sc_dltx_queues s)) + receipts (sc_dltx_next_slot_queue s)"

definition accounted :: "BsChannelScheduler \<Rightarrow> BsChannelScheduler \<Rightarrow> bool" where
  "accounted s s' \<longleftrightarrow> (\<exists>rs. sc_reports s' = sc_reports s @ rs \<and> settled rs \<and> held s' + cells rs = held s)"

lemma accounted_trans: "accounted s s' \<Longrightarrow> accounted s' s'' \<Longrightarrow> accounted s s''"
proof -
  assume "accounted s s'" "accounted s' s''"
  then obtain rs us where "sc_reports s' = sc_reports s @ rs" "settled rs" "held s' + cells rs = held s"
    "sc_reports s'' = sc_reports s' @ us" "settled us" "held s'' + cells us = held s'" unfolding accounted_def by blast
  moreover from this have "held s'' + cells (rs @ us) = held s" by (metis add.assoc add.commute cells_simps(3))
  ultimately show ?thesis unfolding accounted_def by (intro exI [of _ "rs @ us"]) auto
qed

lemma held_with_queue:
  assumes "queue_of s t = Some q"
  shows "held (with_queue t q' s) + receipts q = held s + receipts q'"
proof -
  have i: "unat t - 1 < length (sc_dltx_queues s)" "sc_dltx_queues s ! (unat t - 1) = q"
    using assms by (auto simp: queue_of_def entry_def ts_idx_def split: if_splits)
  have "sum_list (map receipts (X[i := q'])) + receipts (X ! i) = sum_list (map receipts X) + receipts q'" if "i < length X" for X i
    using that by (induction X arbitrary: i) (auto simp: nth_Cons split: nat.splits)
  from this [OF i(1)] i(2) show ?thesis by (simp add: held_def with_queue_def set_entry_def)
qed

lemma accounted_merge:
  assumes "queue_of s t = Some q" and "settled rs" and "cells rs + receipts xs = receipts q"
  shows "accounted s (sent [] rs (with_queue t (sc_dltx_next_slot_queue s @ xs) (s\<lparr>sc_dltx_next_slot_queue := []\<rparr>)))"
proof -
  let ?s = "s\<lparr>sc_dltx_next_slot_queue := []\<rparr>"
  have "queue_of ?s t = Some q" using assms(1) by (simp add: queue_of_def)
  from held_with_queue [OF this, of "sc_dltx_next_slot_queue s @ xs"]
  have "held (sent [] rs (with_queue t (sc_dltx_next_slot_queue s @ xs) ?s)) + cells rs = held s"
    using balance_cancel [OF _ assms(3)] by (simp add: held_def sent_def with_queue_def)
  then show ?thesis using assms(2) by (simp add: accounted_def sent_def with_queue_def)
qed

lemma accounted_same: "receipts q' = receipts q \<Longrightarrow> queue_of s t = Some q \<Longrightarrow> accounted s (with_queue t q' s)"
  using held_with_queue [of s t q q'] by (simp add: accounted_def with_queue_def)

section \<open>Blocks\<close>

definition block_is :: "LogicalChannel \<Rightarrow> nat \<Rightarrow> TmvUnitdataReq \<Rightarrow> bool" where
  "block_is lchan n b \<longleftrightarrow> rq_logical_channel b = lchan \<and> bb_inv (rq_mac_block b) \<and> get_len (rq_mac_block b) = n"

lemma write_new_run:
  assumes "emits w bs" and "length bs \<le> n" and "n < 2 ^ 64"
  shows "\<exists>b. write_new n w s = Ok (b, s) \<and> bb_inv b \<and> get_len b = n \<and> wrote (BitBuffer_new n) bs b"
proof -
  have inv: "bb_inv (BitBuffer_new n)" using new_block(1) assms(3) by blast
  have "room (BitBuffer_new n) (length bs)" using room_mono [OF new_block(5) assms(2)] .
  from emitsE [OF assms(1) inv this] obtain b where b: "w (BitBuffer_new n) = Ok ((), b)" "wrote (BitBuffer_new n) bs b" by blast
  moreover have "get_len b = n" using wrote_len [OF inv b(2)] assms(2) by (simp add: new_block)
  ultimately show ?thesis by (auto simp: write_new_def wrote_def)
qed

lemma null_pdu: "emits (MacResource_to_bitbuf MacResource_null_pdu) (MacResource_enc MacResource_null_pdu)"
  "length (MacResource_enc MacResource_null_pdu) = 16"
proof -
  have "MacResource_writable MacResource_null_pdu"
    by (simp add: MacResource_writable_def MacResource_null_pdu_def mr_addr_ok_def mr_null_ok_def fits_unat word_less_nat_alt)
  then show "emits (MacResource_to_bitbuf MacResource_null_pdu) (MacResource_enc MacResource_null_pdu)" by (rule emits_MacResource)
  show "length (MacResource_enc MacResource_null_pdu) = 16"
    by (simp add: MacResource_enc_def MacResource_is_null_pdu_def MacResource_null_pdu_def mr_enc_addr_def mr_type_def)
qed

lemma idle_run: "\<exists>b. generate_hangtime_idle_schf s = Ok (b, s) \<and> bb_inv b \<and> get_len b = SCH_F_CAP"
  using write_new_run [OF null_pdu(1), of SCH_F_CAP s] by (auto simp: generate_hangtime_idle_schf_def null_pdu(2) SCH_F_CAP_def)

text \<open>The access assignment is always one that its writer accepts.\<close>

lemma header_irrelevant: "AccessAssign_to_bitbuf (p\<lparr>aa_header := h\<rparr>) = AccessAssign_to_bitbuf p"
  by (simp add: AccessAssign_to_bitbuf_def)

lemma emits_aach_header: "AccessAssign_wf (p\<lparr>aa_header := h\<rparr>) \<Longrightarrow> \<exists>bs. emits (AccessAssign_to_bitbuf p) bs \<and> length bs = 14"
  using AccessAssign.emits [of "p\<lparr>aa_header := h\<rparr>"] length_AccessAssign_enc [of "p\<lparr>aa_header := h\<rparr>"] by (auto simp: header_irrelevant)

lemma emits_assigned_aach:
  assumes "pred_option (\<lambda>u. 4 \<le> u \<and> u < 64) dl" and "pred_option (\<lambda>u. 4 \<le> u \<and> u < 64) ul"
  shows "\<exists>bs. emits (AccessAssign_to_bitbuf (assigned_aach hang dl ul)) bs \<and> length bs = 14"
proof (cases "hang \<and> (dl \<noteq> None \<or> ul \<noteq> None)")
  case True
  then show ?thesis
    by (intro emits_aach_header [where h = 2])
       (auto simp: assigned_aach_def AccessAssign_wf_def AccessAssign_default_def common_af_def wf_af_def wf_dl_usage_def fits_unat)
next
  case False
  then show ?thesis using assms
    by (intro emits_aach_header [where h = 3])
       (auto simp: assigned_aach_def AccessAssign_wf_def AccessAssign_default_def common_af_def wf_af_def wf_dl_usage_def split: option.splits)
qed

lemma emits_mcch_aach:
  assumes "case u of AccessAssignUlUsage_Traffic m \<Rightarrow> 4 \<le> m \<and> m < 64 | _ \<Rightarrow> True"
  shows "\<exists>bs. emits (AccessAssign_to_bitbuf (mcch_aach u)) bs \<and> length bs = 14"
proof (cases u)
  case (AccessAssignUlUsage_Traffic m)
  then show ?thesis using assms
    by (intro emits_aach_header [where h = 3])
       (auto simp: mcch_aach_def AccessAssign_wf_def AccessAssign_default_def wf_dl_usage_def)
qed (intro emits_aach_header [where h = 0];
     simp add: mcch_aach_def AccessAssign_wf_def AccessAssign_default_def common_af_def wf_af_def fits_unat)+

lemma emits_aach_fr18: "\<exists>bs. emits (AccessAssignFr18_to_bitbuf (aach_fr18 b)) bs \<and> length bs = 14"
proof -
  let ?p = "(aach_fr18 b)\<lparr>ab_header := if b then 0 else 2\<rparr>"
  have "AccessAssignFr18_wf ?p"
    by (auto simp: AccessAssignFr18_wf_def aach_fr18_def AccessAssignFr18_default_def common_af_def wf_af_def fits_unat)
  moreover have "AccessAssignFr18_to_bitbuf ?p = AccessAssignFr18_to_bitbuf (aach_fr18 b)"
    by (simp add: AccessAssignFr18_to_bitbuf_def AccessAssignFr18_write_fields_def)
  ultimately show ?thesis using AccessAssignFr18.emits [of ?p] length_AccessAssignFr18_enc [of ?p] by auto
qed

section \<open>The user blocks\<close>

text \<open>What a step of the slot leaves in place.\<close>

definition slot_step :: "BsChannelScheduler \<Rightarrow> BsChannelScheduler \<Rightarrow> bool" where
  "slot_step s s' \<longleftrightarrow> sched_inv s' \<and> accounted s s' \<and> sc_precomps s' = sc_precomps s"

lemma slot_step_trans: "slot_step s s' \<Longrightarrow> slot_step s' s'' \<Longrightarrow> slot_step s s''"
  using accounted_trans by (auto simp: slot_step_def)

definition user_format :: "TmvUnitdataReq option \<Rightarrow> TmvUnitdataReq option \<Rightarrow> bool" where
  "user_format b1 b2 \<longleftrightarrow>
     (case (b1, b2) of
        (None, None) \<Rightarrow> True
      | (Some a, None) \<Rightarrow> block_is TchS 274 a \<or> block_is SchF 268 a
      | (Some a, Some b) \<Rightarrow> block_is Stch 124 a \<and> block_is TchS 274 b
      | _ \<Rightarrow> False)"

lemma voice_block_run: "\<exists>b. voice_block v s = Ok (b, s) \<and> bb_inv b \<and> get_len b = 274"
proof (cases "v \<noteq> None \<and> TCH_S_CAP \<le> length (the v) * 8")
  case True
  then obtain x where x: "v = Some x" "274 \<le> length x * 8" by (auto simp: TCH_S_CAP_def)
  then show ?thesis
    by (auto simp: voice_block_def set_raw_end_def from_vec_def TCH_S_CAP_def bb_inv_def get_len_def)
next
  case False
  then show ?thesis using new_block(1) [of 274] new_block(3) [of 274] by (auto simp: voice_block_def TCH_S_CAP_def split: option.splits)
qed

lemma take_voice_run:
  assumes "sched_inv s"
  shows "\<exists>v m. take_voice t s = Ok (v, s\<lparr>sc_circuits := m\<rparr>) \<and> slot_step s (s\<lparr>sc_circuits := m\<rparr>)"
proof -
  have "sched_inv (s\<lparr>sc_circuits := snd (take_block (sc_circuits s) (sc_carrier_num s) t)\<rparr>)"
    by (rule sched_inv_circuits [OF assms circuits_ok_take [OF sched_inv_ok [OF assms]]])
  then show ?thesis
    by (auto simp: take_voice_def case_prod_beta slot_step_def accounted_def held_def)
qed

lemma remove_at_receipts: "i < length q \<Longrightarrow> receipts (remove_at i q) + cells (reporters (q ! i)) = receipts q"
  by (induction q arbitrary: i) (auto simp: remove_at_def nth_Cons add.assoc split: nat.splits)

lemma slot_step_report:
  assumes "sched_inv s" and "queue_of s t = Some q" and "i < length q" and "settled rs" and "cells rs = cells (reporters (q ! i))"
  shows "slot_step s (sent [] rs (with_queue t (remove_at i q) s))"
proof -
  let ?s = "with_queue t (remove_at i q) s"
  have "queue_ok q"
  proof -
    have "q \<in> set (sc_dltx_queues s)" using assms(2) by (auto simp: queue_of_def entry_def ts_idx_def split: if_splits)
    then show ?thesis using assms(1) by (simp add: sched_inv_def queues_ok_def)
  qed
  then have "queue_ok (remove_at i q)" using set_remove_at [of i q] by (auto simp: queue_ok_def)
  then have inv: "sched_inv (sent [] rs ?s)" using assms(1) by (intro sched_inv_report sched_inv_queues)
  have "held ?s + cells rs + receipts (remove_at i q) = held ?s + receipts q"
    using remove_at_receipts [OF assms(3)] assms(5) by (simp add: add.assoc add.commute)
  moreover have "\<dots> = held s + receipts (remove_at i q)" by (rule held_with_queue [OF assms(2)])
  ultimately have "held ?s + cells rs = held s" by (metis add_right_cancel)
  then have "accounted s (sent [] rs ?s)"
    using assms(4) by (auto simp: accounted_def sent_def with_queue_def held_def)
  with inv show ?thesis by (simp add: slot_step_def sent_def with_queue_def)
qed

lemma slot_step_refl: "sched_inv s \<Longrightarrow> slot_step s s"
  by (auto simp: slot_step_def accounted_def)

lemma stealing_run:
  assumes "sched_inv s" and "valid_ts t"
  shows "\<exists>b s'. bind (take_stealing t) (\<lambda>(b, r). bind (report_marked mark_transmitted r) (\<lambda>_. k b)) s = k b s' \<and>
    slot_step s s' \<and> pred_option (\<lambda>b. bb_inv b \<and> get_len b = 124) b"
proof -
  obtain q where q: "queue_of s t = Some q" "queue_ok q" using assms queues_ok_queue [of s t] by (auto simp: sched_inv_def)
  show ?thesis
  proof (cases "position is_stealing q")
    case None
    with q(1) slot_step_refl [OF assms(1)] show ?thesis
      by (intro exI [of _ None] exI [of _ s]) (simp add: take_stealing_def bind_def get_queue_run ret_def report_marked_def)
  next
    case (Some i)
    from position_less [OF Some] obtain b r where i: "i < length q" "q ! i = DlSchedElem_Stealing b r"
      by (cases "q ! i") (auto simp: is_stealing_def)
    have "elem_ok (q ! i)" using q(2) i(1) by (simp add: queue_ok_def)
    then have b: "bb_inv b" "get_len b = 124" "unmarked r" using i(2) by (simp_all add: elem_ok_def SCH_HD_CAP_def)
    from report_marked_run [OF b(3), of mark_transmitted "with_queue t (remove_at i q) s"] obtain rs where
      r: "report_marked mark_transmitted r (with_queue t (remove_at i q) s) = Ok ((), sent [] rs (with_queue t (remove_at i q) s))"
        "settled rs" "cells rs = cells (opt_list r)" by blast
    have "slot_step s (sent [] rs (with_queue t (remove_at i q) s))"
      using r(2,3) i(2) by (intro slot_step_report [OF assms(1) q(1) i(1)]) (simp_all add: reporters_def)
    with Some q(1) i r(1) b show ?thesis
      by (intro exI [of _ "Some b"] exI [of _ "sent [] rs (with_queue t (remove_at i q) s)"])
         (simp add: take_stealing_def bind_def get_queue_run put_queue_run ret_def)
  qed
qed

lemma traffic_run:
  assumes "sched_inv s" and "valid_ts (tm_t ts)"
  shows "\<exists>tch stch s'. dl_build_traffic_block ts s = Ok ((tch, stch), s') \<and> slot_step s s' \<and>
    bb_inv tch \<and> get_len tch = 274 \<and> pred_option (\<lambda>b. bb_inv b \<and> get_len b = 124) stch"
proof -
  from take_voice_run [OF assms(1), of "tm_t ts"] obtain v m where
    v: "take_voice (tm_t ts) s = Ok (v, s\<lparr>sc_circuits := m\<rparr>)" "slot_step s (s\<lparr>sc_circuits := m\<rparr>)" by blast
  let ?s = "s\<lparr>sc_circuits := m\<rparr>"
  from voice_block_run [of v ?s] obtain b where b: "voice_block v ?s = Ok (b, ?s)" "bb_inv b" "get_len b = 274" by blast
  from stealing_run [of ?s "tm_t ts" "\<lambda>stch. ret (b, stch)"] v(2) assms(2) obtain st s' where
    st: "bind (take_stealing (tm_t ts)) (\<lambda>(stch, r). bind (report_marked mark_transmitted r) (\<lambda>_. ret (b, stch))) ?s = ret (b, st) s'"
      "slot_step ?s s'" "pred_option (\<lambda>b. bb_inv b \<and> get_len b = 124) st" by (auto simp: slot_step_def)
  have "dl_build_traffic_block ts s = Ok ((b, st), s')"
    using v(1) b(1) st(1) by (simp add: dl_build_traffic_block_def bind_def [of "take_voice _"] bind_def [of "voice_block _"] ret_def)
  then show ?thesis using b st(3) slot_step_trans [OF v(2) st(2)] by blast
qed

lemma sched_inv_no_next: "sched_inv s \<Longrightarrow> sched_inv (s\<lparr>sc_dltx_next_slot_queue := []\<rparr>)"
  by (simp add: sched_inv_def ul_inv_def queues_ok_def)

lemma signalling_run:
  assumes "sched_inv s" and "valid_ts (tm_t ts)"
  shows "\<exists>buf s'. bind (dl_integrate_sched_elems_for_timeslot ts) (\<lambda>_. bind (dl_build_block_from_signalling_schedule ts) k) s = k buf s' \<and>
    slot_step s s' \<and> pred_option (\<lambda>b. bb_inv b \<and> get_len b = 268) buf \<and> (tm_f ts = 18 \<longrightarrow> buf = None)"
proof -
  let ?t = "tm_t ts" and ?n = "sc_dltx_next_slot_queue s"
  obtain q where q: "queue_of s ?t = Some q" "queue_ok q" using assms queues_ok_queue [of s ?t] by (auto simp: sched_inv_def)
  from integrate_run [OF q] obtain q1 where
    i: "dl_integrate_sched_elems_for_timeslot ts s = Ok ((), with_queue ?t q1 s)" "queue_ok q1" "receipts q1 = receipts q" "\<forall>e \<in> set q1. sendable e"
    by blast
  let ?s = "with_queue ?t q1 s"
  have "sc_precomps ?s = sc_precomps s" by (simp add: with_queue_def)
  then have s1: "queue_of ?s ?t = Some q1" "slot_step s ?s" "sc_dltx_next_slot_queue ?s = ?n"
    using q(1) accounted_same [OF i(3) q(1)] sched_inv_queues [OF assms(1) i(2)] by (simp_all add: slot_step_def, simp add: with_queue_def)
  have nx: "queue_ok ?n" using assms(1) by (simp add: sched_inv_def queues_ok_def)
  have inv: "sched_inv (sent [] rs (with_queue ?t q' (?s\<lparr>sc_dltx_next_slot_queue := []\<rparr>)))" if "queue_ok q'" for rs q'
    using assms(1) i(2) that by (intro sched_inv_report sched_inv_queues sched_inv_no_next)
  show ?thesis
  proof (cases "tm_f ts = 18")
    case True
    let ?s' = "with_queue ?t (?n @ q1) (?s\<lparr>sc_dltx_next_slot_queue := []\<rparr>)"
    have "slot_step ?s ?s'"
      using accounted_merge [OF s1(1), of "[]" q1] inv [of "?n @ q1" "[]"] nx i(2) s1(3)
      by (simp add: slot_step_def, simp add: with_queue_def)
    then show ?thesis using build_block_fr18 [OF s1(1) True] i(1) s1(3) slot_step_trans [OF s1(2)]
      by (intro exI [of _ None] exI [of _ ?s']) (simp add: bind_def)
  next
    case False
    from build_block_run [OF s1(1) i(4) False] obtain buf xs rs where
      b: "dl_build_block_from_signalling_schedule ts ?s = Ok (buf, sent [] rs (with_queue ?t (?n @ xs) (?s\<lparr>sc_dltx_next_slot_queue := []\<rparr>)))"
        "filled (msgs (order q1)) None buf xs" "settled rs" "cells rs + receipts xs = receipts (order q1)" unfolding s1(3) by blast
    let ?s' = "sent [] rs (with_queue ?t (?n @ xs) (?s\<lparr>sc_dltx_next_slot_queue := []\<rparr>))"
    have "receipts (order q1) = receipts q1" using i(4) sendable_signalling by (intro receipts_order) blast
    then have "accounted ?s ?s'" using accounted_merge [OF s1(1) b(3)] b(4) unfolding s1(3) by simp
    moreover have "sched_inv ?s'" using b(2) nx frag_only_ok by (intro inv) (simp add: filled_def)
    ultimately have "slot_step ?s ?s'" by (simp add: slot_step_def, simp add: with_queue_def sent_def)
    moreover have "pred_option (\<lambda>b. bb_inv b \<and> get_len b = 268) buf"
    proof (cases buf)
      case (Some x)
      let ?b = "BitBuffer_new SCH_F_CAP" and ?f = "fill_slot 268 (msgs (order q1))"
      have "wrote ?b (fst ?f) x" "bb_inv x"
        using b(2) Some by (auto simp: filled_def block_or_new_def new_block case_prod_beta block_ok_def block_ready_def SCH_F_CAP_def)
      moreover have "bb_inv ?b" using new_block(1) by (simp add: SCH_F_CAP_def)
      ultimately have "get_len x = 268"
        using wrote_len [of ?b "fst ?f" x] fill_slot_length [of 268] by (simp add: new_block SCH_F_CAP_def)
      with Some \<open>bb_inv x\<close> show ?thesis by simp
    qed simp
    ultimately show ?thesis using b(1) i(1) slot_step_trans [OF s1(2)] False
      by (intro exI [of _ buf] exI [of _ ?s']) (simp add: bind_def)
  qed
qed

lemma user_blocks_run:
  assumes "sched_inv s" and "valid_ts (tm_t ts)"
  shows "\<exists>b1 b2 s'. user_blocks ts bcch s = Ok ((b1, b2), s') \<and> slot_step s s' \<and> user_format b1 b2 \<and>
    (bcch \<longrightarrow> tm_f ts = 18 \<longrightarrow> b1 = None) \<and> (b1 = None \<longrightarrow> bcch)"
proof -
  let ?act = "cm_is_active (sc_circuits s) Direction_Dl (sc_carrier_num s) (tm_t ts) \<and> tm_f ts \<noteq> 18"
  let ?hang = "if supports_assigned_traffic_ts s (tm_t ts) then is_hangtime_effective s (tm_t ts) else False"
  let ?req = "\<lambda>lchan buf. \<lparr>rq_mac_block = buf, rq_logical_channel = lchan, rq_scrambling_code = sc_scrambling_code s\<rparr>"
  show ?thesis
  proof (cases "?act \<and> \<not> ?hang")
    case True
    from traffic_run [OF assms] obtain tch stch s' where
      t: "dl_build_traffic_block ts s = Ok ((tch, stch), s')" "slot_step s s'" "bb_inv tch" "get_len tch = 274"
        "pred_option (\<lambda>b. bb_inv b \<and> get_len b = 124) stch" by blast
    show ?thesis
    proof (cases stch)
      case None
      then have "user_blocks ts bcch s = Ok ((Some (?req TchS tch), None), s')"
        using True t(1) by (simp add: user_blocks_def Let_def bind_def ret_def)
      then show ?thesis using t True by (auto simp: user_format_def block_is_def)
    next
      case (Some b)
      then have "user_blocks ts bcch s = Ok ((Some (?req Stch b), Some (?req TchS tch)), s')"
        using True t(1) by (simp add: user_blocks_def Let_def bind_def ret_def)
      then show ?thesis using t Some True by (auto simp: user_format_def block_is_def)
    qed
  next
    case False
    let ?k = "\<lambda>buf. case buf of
             Some buf \<Rightarrow> ret (Some (?req SchF buf), None :: TmvUnitdataReq option)
           | None \<Rightarrow>
               if ?hang \<and> ?act then bind generate_hangtime_idle_schf (\<lambda>buf. ret (Some (?req SchF buf), None))
               else if \<not> bcch then bind generate_hangtime_idle_schf (\<lambda>buf. ret (Some (?req SchF buf), None))
               else ret (None, None)"
    from signalling_run [OF assms, of ?k] obtain buf s' where
      b: "bind (dl_integrate_sched_elems_for_timeslot ts) (\<lambda>_. bind (dl_build_block_from_signalling_schedule ts) ?k) s = ?k buf s'"
        "slot_step s s'" "pred_option (\<lambda>b. bb_inv b \<and> get_len b = 268) buf" "tm_f ts = 18 \<longrightarrow> buf = None" by blast
    have u: "user_blocks ts bcch s = ?k buf s'"
      unfolding user_blocks_def Let_def if_not_P [OF False] by (rule b(1))
    from idle_run [of s'] obtain i where i: "generate_hangtime_idle_schf s' = Ok (i, s')" "bb_inv i" "get_len i = 268" by (auto simp: SCH_F_CAP_def)
    have "\<exists>b1. user_blocks ts bcch s = Ok ((b1, None), s') \<and> user_format b1 None \<and> (bcch \<longrightarrow> tm_f ts = 18 \<longrightarrow> b1 = None) \<and> (b1 = None \<longrightarrow> bcch)"
      unfolding u using b(3,4) i by (cases buf) (auto simp: ret_def bind_def user_format_def block_is_def)
    with b(2) show ?thesis by blast
  qed
qed

section \<open>The tick\<close>

definition broadcasts_ok :: "BsChannelScheduler \<Rightarrow> bool" where
  "broadcasts_ok s \<longleftrightarrow> MacSync_wf (pc_mac_sync (sc_precomps s)) \<and> MacSysinfo_ok (pc_mac_sysinfo1 (sc_precomps s)) \<and>
     MacSysinfo_ok (pc_mac_sysinfo2 (sc_precomps s))"

lemma start_slot_inv:
  assumes "sched_inv s" and "TdmaTime_is_valid ts"
  shows "sched_inv (start_slot ts s)" and "broadcasts_ok (start_slot ts s)" and "accounted s (start_slot ts s)"
proof -
  let ?p = "sc_precomps s"
  let ?p' = "?p\<lparr>pc_mac_sync := (pc_mac_sync ?p)\<lparr>ms_time := ts\<rparr>, pc_mac_sysinfo1 := (pc_mac_sysinfo1 ?p)\<lparr>si_hyperframe_number := Some (tm_h ts)\<rparr>,
      pc_mac_sysinfo2 := (pc_mac_sysinfo2 ?p)\<lparr>si_hyperframe_number := Some (tm_h ts)\<rparr>\<rparr>"
  have p: "precomps_ok ?p" using assms(1) by (simp add: sched_inv_def)
  then have p': "precomps_ok ?p'" by (simp add: precomps_ok_def)
  have eq: "start_slot ts s = s\<lparr>sc_mcch_chan_alloc_sent_this_frame := sc_mcch_chan_alloc_sent_this_frame (start_slot ts s), sc_precomps := ?p'\<rparr>"
    by (simp add: start_slot_def Let_def)
  show "sched_inv (start_slot ts s)"
    using assms(1) p' by (subst eq) (simp add: sched_inv_def ul_inv_def queues_ok_def)
  show "broadcasts_ok (start_slot ts s)"
    using p assms(2) by (subst eq) (simp add: broadcasts_ok_def precomps_ok_def)
  show "accounted s (start_slot ts s)" by (subst eq) (simp add: accounted_def held_def)
qed

lemma usage_ok:
  assumes "circuits_ok m"
  shows "pred_option (\<lambda>u. 4 \<le> u \<and> u < 64) (get_usage m dir c t)"
proof -
  have "pred_option (\<lambda>u. 4 \<le> u \<and> u < 64) (map_option ci_usage (cm_dl m (c, t)))"
    "pred_option (\<lambda>u. 4 \<le> u \<and> u < 64) (map_option ci_usage (cm_ul m (c, t)))"
    using assms by (auto simp: circuits_ok_def option.pred_map ranI pred_option_def elim!: option.set_cases)
  then show ?thesis by (cases dir) (simp_all add: get_usage_def)
qed

lemma bbk_run:
  assumes "sched_inv s" and "TdmaTime_is_valid ts"
  shows "\<exists>b. generate_bbk_block ts s = Ok (b, s) \<and> block_is Aach 14 b"
proof -
  let ?dl = "get_usage (sc_circuits s) Direction_Dl (sc_carrier_num s) (tm_t ts)"
  let ?ul = "get_usage (sc_circuits s) Direction_Ul (sc_carrier_num s) (tm_t ts)"
  let ?bbk = "\<lambda>buf. \<lparr>rq_mac_block = buf, rq_logical_channel = Aach, rq_scrambling_code = sc_scrambling_code s\<rparr>"
  have w: "\<exists>b. bind (write_new 14 m) (\<lambda>buf. ret (?bbk buf)) s = Ok (b, s) \<and> block_is Aach 14 b"
    if "\<exists>bs. emits m bs \<and> length bs = 14" for m
  proof -
    from that obtain bs where "emits m bs" "length bs = 14" by blast
    with write_new_run [of m bs 14 s] show ?thesis by (auto simp: bind_def ret_def block_is_def)
  qed
  have u: "pred_option (\<lambda>u. 4 \<le> u \<and> u < 64) ?dl" "pred_option (\<lambda>u. 4 \<le> u \<and> u < 64) ?ul"
    using assms(1) usage_ok by (auto simp: sched_inv_def)
  obtain v where v: "ul_get_usage s ts = Ok v" "case v of AccessAssignUlUsage_Traffic m \<Rightarrow> 4 \<le> m \<and> m < 64 | _ \<Rightarrow> True"
  proof -
    obtain v where v: "ul_get_usage s ts = Ok v" "\<forall>m. v = AccessAssignUlUsage_Traffic m \<longrightarrow> marker_ok m"
      using ul_get_usage_run [of s ts] assms by (auto simp: sched_inv_def)
    then show ?thesis by (intro that [of v]) (cases v; simp add: marker_ok_def word_le_nat_alt word_less_nat_alt)+
  qed
  have "tm_t ts = 1 \<or> 2 \<le> tm_t ts \<and> tm_t ts \<le> 4"
    using assms(2) slot_cases [of "tm_t ts"] by (auto simp: TdmaTime_is_valid_def word_le_nat_alt)
  then show ?thesis
    using w [OF emits_mcch_aach [OF v(2)]] w [OF emits_assigned_aach [OF u]] w [OF emits_aach_fr18 [of "allow_common_control_aach s"]] v(1)
    by (auto simp: generate_bbk_block_def Let_def guard_def)
qed

lemma default_run:
  assumes "sched_inv s" and "broadcasts_ok s" and "TdmaTime_is_valid ts"
  shows "\<exists>b. generate_default_blks ts s = Ok (b, s) \<and> (block_is SchHd 124 b \<or> block_is SchF 268 b \<or> block_is Bsch 60 b) \<and>
    (tm_f ts = 18 \<longrightarrow> block_is Bsch 60 b)"
proof -
  have null: "\<exists>b. bind (write_new n (MacResource_to_bitbuf MacResource_null_pdu)) (\<lambda>buf.
      ret \<lparr>rq_mac_block = buf, rq_logical_channel = c, rq_scrambling_code = sc_scrambling_code s\<rparr>) s = Ok (b, s) \<and> block_is c n b"
    if "16 \<le> n" "n < 2 ^ 64" for n c
    using write_new_run [OF null_pdu(1), of n s] that by (auto simp: bind_def ret_def block_is_def null_pdu(2))
  let ?p = "sc_precomps s"
  have "emits (seq [MacSync_to_bitbuf (pc_mac_sync ?p), DMleSync_to_bitbuf (pc_mle_sync ?p)]) (MacSync_enc (pc_mac_sync ?p) @ DMleSync_enc (pc_mle_sync ?p))"
    using assms(1,2) by (intro emits_seq_Cons emits_seq_last emits_MacSync DMleSync.emits) (simp_all add: broadcasts_ok_def sched_inv_def precomps_ok_def)
  from write_new_run [OF this, of 60 s]
  have sync: "\<exists>b. bind (write_new 60 (seq [MacSync_to_bitbuf (pc_mac_sync ?p), DMleSync_to_bitbuf (pc_mle_sync ?p)])) (\<lambda>buf.
      ret \<lparr>rq_mac_block = buf, rq_logical_channel = Bsch, rq_scrambling_code = SCRAMB_INIT\<rparr>) s = Ok (b, s) \<and> block_is Bsch 60 b"
    by (auto simp: bind_def ret_def block_is_def simp del: seq.simps)
  have f: "1 \<le> tm_f ts \<and> tm_f ts \<le> 17 \<or> tm_f ts = 18" "tm_t ts = 1 \<or> 2 \<le> tm_t ts \<and> tm_t ts \<le> 4"
    using assms(3) slot_cases [of "tm_t ts"] by (auto simp: TdmaTime_is_valid_def word_le_nat_alt word_unat_eq_iff)
  have n18: "tm_f ts \<le> 17 \<Longrightarrow> tm_f ts \<noteq> 18" by (auto simp: word_le_nat_alt)
  show ?thesis
    using f n18 null [of SCH_HD_CAP SchHd] null [of SCH_F_CAP SchF] sync
    by (auto simp: generate_default_blks_def SCH_HD_CAP_def SCH_F_CAP_def simp del: seq.simps)
qed

definition half_or_full :: "TmvUnitdataReq \<Rightarrow> bool" where
  "half_or_full b \<longleftrightarrow> block_is SchHd 124 b \<or> block_is Bsch 60 b \<or> block_is TchS 274 b \<or> block_is SchF 268 b"

text \<open>The five formats of a slot.\<close>

definition slot_blocks :: "TmvUnitdataReq \<Rightarrow> TmvUnitdataReq option \<Rightarrow> bool" where
  "slot_blocks b1 b2 \<longleftrightarrow>
     (case b2 of
        None \<Rightarrow> block_is TchS 274 b1 \<or> block_is SchF 268 b1
      | Some b2 \<Rightarrow> block_is Stch 124 b1 \<and> block_is TchS 274 b2 \<or>
          (block_is SchHd 124 b1 \<or> block_is Bsch 60 b1) \<and> block_is Bnch 124 b2)"

lemma sysinfo_length: "length (MacSysinfo_enc p) \<le> 82"
  by (simp add: MacSysinfo_enc_def enc_cck_or_hyperframe_def MacSysinfo_option_enc_def split: option.split SysinfoOptFieldFlag.split)

lemma second_run:
  assumes "sched_inv s" and "broadcasts_ok s"
    and "half_or_full b1 \<and> b2 = None \<or> (block_is Stch 124 b1 \<and> (\<exists>b. b2 = Some b \<and> block_is TchS 274 b))"
  shows "\<exists>b2'. second_block ts b1 b2 s = Ok (b2', s) \<and> slot_blocks b1 b2'"
proof -
  let ?p = "sc_precomps s"
  let ?w = "\<lambda>m. bind (write_new 124 (seq [MacSysinfo_to_bitbuf m, DMleSysinfo_to_bitbuf (pc_mle_sysinfo ?p)])) (\<lambda>buf.
      ret (Some \<lparr>rq_mac_block = buf, rq_logical_channel = Bnch, rq_scrambling_code = sc_scrambling_code s\<rparr>)) s"
  have info: "\<exists>b. ?w m = Ok (Some b, s) \<and> block_is Bnch 124 b" if "MacSysinfo_ok m" for m
  proof -
    have "emits (seq [MacSysinfo_to_bitbuf m, DMleSysinfo_to_bitbuf (pc_mle_sysinfo ?p)]) (MacSysinfo_enc m @ DMleSysinfo_enc (pc_mle_sysinfo ?p))"
      using assms(1) that by (intro emits_seq_Cons emits_seq_last emits_MacSysinfo DMleSysinfo.emits) (simp_all add: sched_inv_def precomps_ok_def)
    from write_new_run [OF this, of 124 s] sysinfo_length [of m] show ?thesis by (auto simp: bind_def ret_def block_is_def simp del: seq.simps)
  qed
  consider (half) "block_is SchHd 124 b1 \<or> block_is Bsch 60 b1" "b2 = None" | (full) "block_is TchS 274 b1 \<or> block_is SchF 268 b1" "b2 = None"
    | (stolen) b where "block_is Stch 124 b1" "b2 = Some b" "block_is TchS 274 b"
    using assms(3) unfolding half_or_full_def by blast
  then show ?thesis
  proof cases
    case half
    then have "second_block ts b1 b2 s = ?w (if tm_t ts mod 2 = 1 then pc_mac_sysinfo1 ?p else pc_mac_sysinfo2 ?p)"
      by (auto simp: second_block_def guard_def block_is_def simp del: seq.simps)
    moreover have "MacSysinfo_ok (if tm_t ts mod 2 = 1 then pc_mac_sysinfo1 ?p else pc_mac_sysinfo2 ?p)" using assms(2) by (simp add: broadcasts_ok_def)
    then obtain b where "?w (if tm_t ts mod 2 = 1 then pc_mac_sysinfo1 ?p else pc_mac_sysinfo2 ?p) = Ok (Some b, s)" "block_is Bnch 124 b"
      using info by blast
    moreover have "slot_blocks b1 (Some b)" using half(1) \<open>block_is Bnch 124 b\<close> by (simp add: slot_blocks_def)
    ultimately show ?thesis by (intro exI [of _ "Some b"]) simp
  next
    case full
    then show ?thesis by (intro exI [of _ None]) (auto simp: second_block_def guard_def block_is_def slot_blocks_def ret_def)
  next
    case stolen
    then show ?thesis by (intro exI [of _ "Some b"]) (auto simp: second_block_def guard_def block_is_def slot_blocks_def ret_def)
  qed
qed

lemma null_run:
  assumes "block_is c n b"
  shows "\<exists>b'. try_add_null_pdus (Some b) s = Ok (Some b', s) \<and> block_is c n b'"
proof (cases "(c = SchHd \<or> c = SchF) \<and> 16 \<le> get_len_remaining (rq_mac_block b)")
  case True
  have u: "MacResource_update_len_and_fill_ind (MacResource_null_pdu\<lparr>mr_length_ind := 2\<rparr>) 0 = Some (MacResource_null_pdu, 0)"
    by (simp add: MacResource_update_len_and_fill_ind_def MacResource_compute_header_len_def MacResource_is_null_pdu_def
        MacResource_null_pdu_def div_ceil8_def)
  have inv: "bb_inv (rq_mac_block b)" using assms by (simp add: block_is_def)
  from emitsE [OF null_pdu(1) inv room_remaining [OF inv]] True obtain buf where
    w: "MacResource_to_bitbuf MacResource_null_pdu (rq_mac_block b) = Ok ((), buf)" "wrote (rq_mac_block b) (MacResource_enc MacResource_null_pdu) buf"
    by (auto simp: null_pdu(2))
  then have "get_len buf = get_len (rq_mac_block b)" "bb_inv buf" using wrote_len [OF inv w(2)] True by (simp_all add: null_pdu(2) wrote_def)
  with True assms u w(1) show ?thesis
    by (intro exI [of _ "b\<lparr>rq_mac_block := buf\<rparr>"]) (simp add: try_add_null_pdus_def NULL_PDU_LEN_BITS_def block_is_def bind_def unwrap_def ret_def)
next
  case False
  with assms show ?thesis by (auto simp: try_add_null_pdus_def NULL_PDU_LEN_BITS_def block_is_def ret_def)
qed

lemma seek_run:
  assumes "block_is c n b"
  shows "\<exists>b'. seek_start (Some b) s = Ok (Some b', s) \<and> block_is c n b' \<and> get_pos (rq_mac_block b') = 0"
proof -
  let ?m = "rq_mac_block b"
  have "bb_inv ?m" using assms by (simp add: block_is_def)
  then have "seek 0 ?m = Ok ((), ?m\<lparr>bb_pos := bb_start ?m\<rparr>)" "bb_inv (?m\<lparr>bb_pos := bb_start ?m\<rparr>)"
    by (auto simp: seek_def try_seek_def checked_add_def bind_def guard_def ret_def bb_inv_def)
  with assms show ?thesis
    by (intro exI [of _ "b\<lparr>rq_mac_block := ?m\<lparr>bb_pos := bb_start ?m\<rparr>\<rparr>"]) (simp add: seek_start_def block_is_def get_len_def get_pos_def)
qed

text \<open>Closing with a null PDU and rewinding keep the channel and the length.\<close>

definition alike :: "TmvUnitdataReq \<Rightarrow> TmvUnitdataReq \<Rightarrow> bool" where
  "alike b b' \<longleftrightarrow> (\<forall>c n. block_is c n b \<longrightarrow> block_is c n b')"

lemma slot_blocks_alike: "slot_blocks b1 b2 \<Longrightarrow> alike b1 b1' \<Longrightarrow> rel_option alike b2 b2' \<Longrightarrow> slot_blocks b1' b2'"
  by (cases b2; cases b2') (auto simp: slot_blocks_def alike_def)

definition rewound :: "TmvUnitdataReq \<Rightarrow> bool" where
  "rewound b \<longleftrightarrow> get_pos (rq_mac_block b) = 0"

lemma close_run:
  assumes "bb_inv (rq_mac_block b)"
  shows "\<exists>b'. try_add_null_pdus (Some b) s = Ok (Some b', s) \<and> alike b b' \<and> bb_inv (rq_mac_block b')"
    and "\<exists>b'. seek_start (Some b) s = Ok (Some b', s) \<and> alike b b' \<and> rewound b'"
proof -
  let ?c = "rq_logical_channel b" and ?n = "get_len (rq_mac_block b)"
  have b: "block_is ?c ?n b" using assms by (simp add: block_is_def)
  from null_run [OF b, of s] show "\<exists>b'. try_add_null_pdus (Some b) s = Ok (Some b', s) \<and> alike b b' \<and> bb_inv (rq_mac_block b')"
    by (auto simp: alike_def block_is_def)
  from seek_run [OF b, of s] show "\<exists>b'. seek_start (Some b) s = Ok (Some b', s) \<and> alike b b' \<and> rewound b'"
    by (auto simp: alike_def block_is_def rewound_def)
qed

lemma alike_trans: "alike a b \<Longrightarrow> alike b c \<Longrightarrow> alike a c"
  by (simp add: alike_def)

lemma close_option_run:
  assumes "pred_option (\<lambda>b. bb_inv (rq_mac_block b)) o1"
  shows "\<exists>o2. try_add_null_pdus o1 s = Ok (o2, s) \<and> rel_option alike o1 o2 \<and> pred_option (\<lambda>b. bb_inv (rq_mac_block b)) o2"
    and "\<exists>o2. seek_start o1 s = Ok (o2, s) \<and> rel_option alike o1 o2 \<and> pred_option rewound o2"
proof -
  show "\<exists>o2. try_add_null_pdus o1 s = Ok (o2, s) \<and> rel_option alike o1 o2 \<and> pred_option (\<lambda>b. bb_inv (rq_mac_block b)) o2"
  proof (cases o1)
    case None
    then show ?thesis by (simp add: try_add_null_pdus_def ret_def)
  next
    case (Some b)
    with close_run(1) [of b s] assms obtain b' where "try_add_null_pdus (Some b) s = Ok (Some b', s)" "alike b b'" "bb_inv (rq_mac_block b')" by auto
    then show ?thesis using Some by (intro exI [of _ "Some b'"]) simp
  qed
  show "\<exists>o2. seek_start o1 s = Ok (o2, s) \<and> rel_option alike o1 o2 \<and> pred_option rewound o2"
  proof (cases o1)
    case None
    then show ?thesis by (simp add: seek_start_def)
  next
    case (Some b)
    with close_run(2) [of b s] assms obtain b' where "seek_start (Some b) s = Ok (Some b', s)" "alike b b'" "rewound b'" by auto
    then show ?thesis using Some by (intro exI [of _ "Some b'"]) simp
  qed
qed

lemma slot_blocks_inv: "slot_blocks b1 b2 \<Longrightarrow> bb_inv (rq_mac_block b1) \<and> pred_option (\<lambda>b. bb_inv (rq_mac_block b)) b2"
  by (cases b2) (auto simp: slot_blocks_def block_is_def)

text \<open>The finished slot.\<close>

definition slot_ok :: "TmvUnitdataReqSlot \<Rightarrow> bool" where
  "slot_ok slot \<longleftrightarrow>
     (\<exists>bbk b1. sl_bbk slot = Some bbk \<and> block_is Aach 14 bbk \<and> rewound bbk \<and> sl_blk1 slot = Some b1 \<and> rewound b1 \<and>
        slot_blocks b1 (sl_blk2 slot) \<and> pred_option rewound (sl_blk2 slot))"

lemma accounted_ul: "accounted s s' \<Longrightarrow> accounted s (s'\<lparr>sc_ulsched := X\<rparr>)"
  by (simp add: accounted_def held_def)

lemma sched_inv_ul: "sched_inv s \<Longrightarrow> ul_inv (s\<lparr>sc_ulsched := X\<rparr>) \<Longrightarrow> sched_inv (s\<lparr>sc_ulsched := X\<rparr>)"
  by (simp add: sched_inv_def queues_ok_def)

lemma first_block_run:
  assumes "sched_inv s" and "broadcasts_ok s" and "TdmaTime_is_valid ts" and "user_format b1 b2" and "bcch \<longrightarrow> tm_f ts = 18 \<longrightarrow> b1 = None"
  shows "\<exists>b. (case b1 of Some b \<Rightarrow> ret b | None \<Rightarrow> generate_default_blks ts) s = Ok (b, s) \<and>
    (half_or_full b \<and> b2 = None \<or> (block_is Stch 124 b \<and> (\<exists>b'. b2 = Some b' \<and> block_is TchS 274 b'))) \<and>
    (bcch \<longrightarrow> tm_f ts = 18 \<longrightarrow> block_is Bsch 60 b)"
proof (cases b1)
  case None
  then have "b2 = None" using assms(4) by (cases b2) (simp_all add: user_format_def)
  with default_run [OF assms(1-3)] None show ?thesis by (auto simp: half_or_full_def)
next
  case (Some b)
  with assms(4,5) show ?thesis by (cases b2) (auto simp: user_format_def half_or_full_def ret_def)
qed

lemma finalize_run:
  fixes s bcch
  defines "ts \<equiv> TdmaTime_add_timeslots (sc_cur_dltime s) 1"
  assumes "sched_inv s"
  shows "\<exists>slot s'. finalize_ts_for_tick_inner bcch s = Ok (Some slot, s') \<and> sched_inv s' \<and> accounted s s' \<and>
    sl_ts slot = ts \<and> slot_ok slot \<and> (bcch \<longrightarrow> tm_f ts = 18 \<longrightarrow> pred_option (block_is Bsch 60) (sl_blk1 slot))"
proof -
  have v: "TdmaTime_is_valid ts" "valid_ts (tm_t ts)" using add_timeslots_valid valid_time unfolding ts_def by blast+
  let ?s = "start_slot ts s"
  note st = start_slot_inv [OF assms(2) v(1)]
  from user_blocks_run [OF st(1) v(2), of bcch] obtain u1 u2 s1 where
    u: "user_blocks ts bcch ?s = Ok ((u1, u2), s1)" "slot_step ?s s1" "user_format u1 u2" "bcch \<longrightarrow> tm_f ts = 18 \<longrightarrow> u1 = None" by blast
  have s1: "sched_inv s1" "accounted s s1" "broadcasts_ok s1"
    using u(2) accounted_trans [OF st(3)] st(2) by (auto simp: slot_step_def broadcasts_ok_def)
  obtain bbk where bbk: "generate_bbk_block ts s1 = Ok (bbk, s1)" "block_is Aach 14 bbk" using bbk_run [OF s1(1) v(1)] by blast
  from first_block_run [OF s1(1,3) v(1) u(3,4)] obtain b1 where
    b1: "(case u1 of Some b \<Rightarrow> ret b | None \<Rightarrow> generate_default_blks ts) s1 = Ok (b1, s1)"
      "half_or_full b1 \<and> u2 = None \<or> (block_is Stch 124 b1 \<and> (\<exists>b'. u2 = Some b' \<and> block_is TchS 274 b'))"
      "bcch \<longrightarrow> tm_f ts = 18 \<longrightarrow> block_is Bsch 60 b1" by blast
  from second_run [OF s1(1,3) b1(2), of ts] obtain b2 where b2: "second_block ts b1 u2 s1 = Ok (b2, s1)" "slot_blocks b1 b2" by blast
  note inv = slot_blocks_inv [OF b2(2)]
  from close_run(1) [of b1 s1] inv obtain c1 where c1: "try_add_null_pdus (Some b1) s1 = Ok (Some c1, s1)" "alike b1 c1" "bb_inv (rq_mac_block c1)" by blast
  from close_option_run(1) [of b2 s1] inv obtain c2 where
    c2: "try_add_null_pdus b2 s1 = Ok (c2, s1)" "rel_option alike b2 c2" "pred_option (\<lambda>b. bb_inv (rq_mac_block b)) c2" by blast
  from close_run(2) [of bbk s1] bbk(2) obtain d0 where d0: "seek_start (Some bbk) s1 = Ok (Some d0, s1)" "alike bbk d0" "rewound d0"
    by (auto simp: block_is_def)
  from close_run(2) [OF c1(3), of s1] obtain d1 where d1: "seek_start (Some c1) s1 = Ok (Some d1, s1)" "alike c1 d1" "rewound d1" by blast
  from close_option_run(2) [OF c2(3), of s1] obtain d2 where d2: "seek_start c2 s1 = Ok (d2, s1)" "rel_option alike c2 d2" "pred_option rewound d2" by blast
  from clear_run [of s1 ts] s1(1) v(1) obtain X where
    X: "clear_ul_schedule_for_tx_time ts s1 = Ok ((), s1\<lparr>sc_ulsched := X\<rparr>)" "ul_inv (s1\<lparr>sc_ulsched := X\<rparr>)" by (auto simp: sched_inv_def)
  have g: "guard (u1 \<noteq> None \<and> bcch \<longrightarrow> tm_f ts \<noteq> 18) s1 = Ok ((), s1)" using u(4) by (auto simp: guard_def ret_def)
  let ?ul = "cm_is_active (sc_circuits ?s) Direction_Ul (sc_carrier_num ?s) (tm_t ts) \<and> tm_f ts \<noteq> 18 \<and>
       \<not> (supports_assigned_traffic_ts ?s (tm_t ts) \<and> is_hangtime_effective ?s (tm_t ts))"
  let ?slot = "\<lparr>sl_carrier_num = sc_carrier_num s1, sl_ts = ts, sl_ul_phy_chan = (if ?ul then PhysicalChannel_Tp else PhysicalChannel_Cp),
       sl_blk1 = Some d1, sl_blk2 = d2, sl_bbk = Some d0\<rparr>"
  have tx: "TdmaTime_add_timeslots (sc_cur_dltime s) (int MACSCHED_TX_AHEAD) = ts" by (simp add: ts_def MACSCHED_TX_AHEAD_def)
  have "finalize_ts_for_tick_inner bcch s = Ok (Some ?slot, s1\<lparr>sc_ulsched := X\<rparr>)"
    unfolding finalize_ts_for_tick_inner_def bind_gets tx
    by (simp only: bind_def upd_def gets_def u(1) g bbk(1) b1(1) b2(1) c1(1) c2(1) d0(1) d1(1) d2(1) X(1) ret_def outcome.case prod.case) simp
  moreover have "slot_ok ?slot"
  proof -
    have "slot_blocks c1 c2" by (rule slot_blocks_alike [OF b2(2) c1(2) c2(2)])
    from slot_blocks_alike [OF this d1(2) d2(2)] show ?thesis
      using d0(2,3) d1(3) d2(3) bbk(2) by (auto simp: slot_ok_def alike_def)
  qed
  moreover have "bcch \<longrightarrow> tm_f ts = 18 \<longrightarrow> pred_option (block_is Bsch 60) (sl_blk1 ?slot)"
    using b1(3) alike_trans [OF c1(2) d1(2)] by (auto simp: alike_def)
  ultimately show ?thesis using sched_inv_ul [OF s1(1) X(2)] accounted_ul [OF s1(2), of X] by fastforce
qed

end
