(* ===== verification/Bs_Sched_Run.thy ===== *)
theory Bs_Sched_Run
  imports Bs_Sched_Finalize
begin

text \<open>
  The scheduler as a state machine: its operations as steps that the upper MAC takes in any order, with what it owes the
  scheduler in each (\<open>op_ok\<close>). In the reachable states no such step panics, and every slot is well formed.
\<close>

declare One_nat_def [simp del]

section \<open>Steps\<close>

datatype sched_op =
    Op_set_carrier u16
  | Op_set_mode CarrierDownlinkMode
  | Op_set_hangtime u8 bool
  | Op_set_services bool
  | Op_purge
  | Op_set_time TdmaTime
  | Op_cap_req u8 TetraAddress ReservationRequirement
  | Op_grant u8 TetraAddress BasicSlotgrant "u8 option"
  | Op_ack u8 TetraAddress
  | Op_tma LinkId MacResource bitbuffer "TxReporter option"
  | Op_tma_next_frame MacResource bitbuffer "TxReporter option"
  | Op_take_ack u8 u32
  | Op_stealing u8 bitbuffer "TxReporter option"
  | Op_broadcast bitbuffer TdmaTime
  | Op_voice u8 "u8 list"
  | Op_close Direction u8
  | Op_create Direction Circuit
  | Op_tick
  | Op_secondary_tick

definition then_none :: "'a sched \<Rightarrow> TmvUnitdataReqSlot option sched" where
  "then_none m = bind m (\<lambda>_. ret None)"

definition tick :: "TmvUnitdataReqSlot option sched \<Rightarrow> TmvUnitdataReqSlot option sched" where
  "tick m = bind (gets (\<lambda>s. TdmaTime_add_timeslots (sc_cur_dltime s) 1)) (\<lambda>now. bind (tick_start now) (\<lambda>_. m))"

fun run_op :: "sched_op \<Rightarrow> TmvUnitdataReqSlot option sched" where
  "run_op (Op_set_carrier n) = then_none (set_carrier_num n)"
| "run_op (Op_set_mode m) = then_none (set_downlink_mode m)"
| "run_op (Op_set_hangtime t b) = then_none (set_hangtime t b)"
| "run_op (Op_set_services b) = then_none (set_system_wide_services_state b)"
| "run_op Op_purge = then_none purge_schedule"
| "run_op (Op_set_time t) = then_none (set_dl_time t)"
| "run_op (Op_cap_req t a r) = then_none (ul_process_cap_req t a r)"
| "run_op (Op_grant t a g m) = then_none (dl_enqueue_grant t a g m)"
| "run_op (Op_ack t a) = then_none (dl_enqueue_random_access_ack t a)"
| "run_op (Op_tma l p d r) = then_none (dl_enqueue_tma_for_link l p d r)"
| "run_op (Op_tma_next_frame p d r) = then_none (dl_enqueue_tma_next_frame p d r)"
| "run_op (Op_take_ack t a) = then_none (take_pending_ra_ack t a)"
| "run_op (Op_stealing t b r) = then_none (dl_enqueue_stealing t b r)"
| "run_op (Op_broadcast b t) = then_none (dl_schedule_tmb b t)"
| "run_op (Op_voice t b) = then_none (dl_schedule_tmd t b)"
| "run_op (Op_close d t) = then_none (close_circuit d t)"
| "run_op (Op_create d c) = then_none (create_circuit d c)"
| "run_op Op_tick = tick (bind finalize_ts_for_tick (\<lambda>slot. ret (Some slot)))"
| "run_op Op_secondary_tick = tick finalize_secondary_ts_for_tick"

fun op_ok :: "sched_op \<Rightarrow> bool" where
  "op_ok (Op_set_time t) = TdmaTime_is_valid t"
| "op_ok (Op_cap_req t a r) = valid_ts t"
| "op_ok (Op_grant t a g m) = (valid_ts t \<and> addr_ok a \<and> BasicSlotgrant_wf g \<and> pred_option (fits 6) m)"
| "op_ok (Op_ack t a) = (valid_ts t \<and> addr_ok a)"
| "op_ok (Op_tma l p d r) = elem_ok (DlSchedElem_Resource p d r)"
| "op_ok (Op_tma_next_frame p d r) = elem_ok (DlSchedElem_Resource p d r)"
| "op_ok (Op_take_ack t a) = valid_ts t"
| "op_ok (Op_stealing t b r) = (valid_ts t \<and> bb_inv b \<and> get_len b = SCH_HD_CAP \<and> unmarked r)"
| "op_ok (Op_broadcast b t) = False"
| "op_ok (Op_create d c) = (4 \<le> ci_usage c \<and> ci_usage c < 64)"
| "op_ok _ = True"

inductive sched_reach :: "BsChannelScheduler \<Rightarrow> TmvUnitdataReqSlot list \<Rightarrow> bool" where
  reach_start: "precomps_ok pre \<Longrightarrow> TdmaTime_is_valid t \<Longrightarrow> set_dl_time t (BsChannelScheduler_new code pre) = Ok ((), s) \<Longrightarrow> sched_reach s []"
| reach_step: "sched_reach s out \<Longrightarrow> op_ok op \<Longrightarrow> run_op op s = Ok (slot, s') \<Longrightarrow> sched_reach s' (out @ opt_list slot)"

section \<open>Every step succeeds and keeps the invariant\<close>

lemma then_none_ok: "\<exists>x s'. m s = Ok (x, s') \<and> P s' \<Longrightarrow> \<exists>x s'. then_none m s = Ok (x, s') \<and> P s' \<and> pred_option Q x"
  by (auto simp: then_none_def bind_def ret_def)

lemma cap_req_inv:
  assumes "sched_inv s" and "valid_ts t"
  shows "\<exists>r s'. ul_process_cap_req t a req s = Ok (r, s') \<and> sched_inv s'"
proof -
  have inv: "sched_inv s'" if u: "ul_inv s'" "s' = s\<lparr>sc_ulsched := X, sc_next_usage_marker := Y\<rparr>" for s' X Y
  proof -
    have "queues_ok s' \<and> circuits_ok (sc_circuits s') \<and> precomps_ok (sc_precomps s') \<and> length (sc_hangtime s') = 4 \<and>
        length (sc_pending_ra_acks s') = 4 \<and> TdmaTime_is_valid (sc_cur_dltime s')"
      using assms(1) unfolding u(2) by (simp add: sched_inv_def queues_ok_def)
    with u(1) show ?thesis by (simp add: sched_inv_def)
  qed
  have "ul_inv s" "TdmaTime_is_valid (sc_cur_dltime s)" using assms(1) by (simp_all add: sched_inv_def)
  from cap_req_run [OF this(1) assms(2) this(2), of req a] show ?thesis
    using assms(1) inv by (metis grant_effect_def)
qed

lemma tick_run:
  assumes "sched_inv s"
  shows "\<exists>slot s'. tick (finalize_ts_for_tick_inner b) s = Ok (Some slot, s') \<and> sched_inv s' \<and> accounted s s' \<and> slot_ok slot \<and>
    (b \<longrightarrow> tm_f (TdmaTime_add_timeslots (TdmaTime_add_timeslots (sc_cur_dltime s) 1) 1) = 18 \<longrightarrow>
      pred_option (block_is Bsch 60) (sl_blk1 slot))"
proof -
  let ?s = "s\<lparr>sc_cur_dltime := TdmaTime_add_timeslots (sc_cur_dltime s) 1\<rparr>"
  have "sched_inv ?s" using assms by (simp add: sched_inv_def ul_inv_def queues_ok_def add_timeslots_valid)
  from finalize_run [OF this, of b] obtain slot s' where
    "finalize_ts_for_tick_inner b ?s = Ok (Some slot, s')" "sched_inv s'" "accounted ?s s'" "slot_ok slot"
    "b \<longrightarrow> tm_f (TdmaTime_add_timeslots (sc_cur_dltime ?s) 1) = 18 \<longrightarrow> pred_option (block_is Bsch 60) (sl_blk1 slot)" by blast
  then show ?thesis
    by (intro exI [of _ slot] exI [of _ s']) (simp add: tick_def tick_start_def bind_def gets_def upd_def guard_def ret_def accounted_def held_def)
qed

lemma tick_kinds:
  "tick (bind finalize_ts_for_tick (\<lambda>slot. ret (Some slot))) s = tick (finalize_ts_for_tick_inner True) s"
  if "\<exists>slot s'. tick (finalize_ts_for_tick_inner True) s = Ok (Some slot, s')"
  using that by (auto simp: finalize_ts_for_tick_def tick_def bind_def unwrap_def ret_def gets_def split: outcome.splits)

lemma secondary_tick: "tick finalize_secondary_ts_for_tick s = tick (finalize_ts_for_tick_inner (emit_bcch (sc_downlink_mode s))) s"
  by (simp add: finalize_secondary_ts_for_tick_def tick_def tick_start_def bind_def gets_def upd_def guard_def ret_def panic_def)

lemma run_op_ok:
  assumes "sched_inv s" and "op_ok op"
  shows "\<exists>slot s'. run_op op s = Ok (slot, s') \<and> sched_inv s' \<and> pred_option slot_ok slot"
proof (cases op)
  case Op_tick
  from tick_run [OF assms(1), of True] obtain slot s' where
    t: "tick (finalize_ts_for_tick_inner True) s = Ok (Some slot, s')" "sched_inv s'" "slot_ok slot" by blast
  then show ?thesis using Op_tick tick_kinds [of s] by auto
next
  case Op_secondary_tick
  with tick_run [OF assms(1), of "emit_bcch (sc_downlink_mode s)"] show ?thesis by (auto simp: secondary_tick)
qed (use assms in \<open>auto intro!: then_none_ok
    simp: mode_ops_inv circuit_ops_inv set_hangtime_run set_dl_time_inv cap_req_inv enqueue_grant_inv enqueue_ack_inv
      enqueue_tma_inv take_pending_inv enqueue_stealing_inv dest: purge_inv\<close>)

lemma new_inv:
  assumes "precomps_ok pre" and "TdmaTime_is_valid t"
  shows "\<exists>s. set_dl_time t (BsChannelScheduler_new code pre) = Ok ((), s) \<and> sched_inv s"
proof -
  let ?s = "(BsChannelScheduler_new code pre)\<lparr>sc_cur_dltime := t\<rparr>"
  have "ul_inv ?s" using ul_inv_new [of code pre] by (simp add: ul_inv_def)
  then have "sched_inv ?s"
    using assms cm_inv_new by (simp add: sched_inv_def queues_ok_def circuits_ok_def BsChannelScheduler_new_def CircuitMgr_new_def)
  from purge_inv [OF this] show ?thesis by (auto simp: set_dl_time_def bind_def upd_def)
qed

lemma reach_inv: "sched_reach s out \<Longrightarrow> sched_inv s \<and> list_all slot_ok out"
proof (induction rule: sched_reach.induct)
  case (reach_start pre t code s)
  with new_inv [of pre t code] show ?case by auto
next
  case (reach_step s out op slot s')
  with run_op_ok [of s op] have "sched_inv s'" "pred_option slot_ok slot" by auto
  with reach_step.IH show ?case by (cases slot) simp_all
qed

end
