(* ===== verification/Slot_Properties.thy ===== *)
theory Slot_Properties
  imports Bs_Sched_Run Sched_Properties Error_Control_Spec
begin

text \<open>Properties of the downlink side of the channel scheduler, each with a witness.\<close>

declare One_nat_def [simp del]

section \<open>Samples\<close>

lemma sample_precomps_ok: "precomps_ok sample_precomps"
  by (simp add: precomps_ok_def sample_precomps_def MacSync_wf_def MacSysinfo_ok_def sample_sysinfo_def DMleSync_wf_def DMleSysinfo_wf_def
      SysinfoDefaultDefForAccessCodeA_wf_def TdmaTime_is_valid_def fits_unat word_le_nat_alt)

definition sample_pdu :: "BasicSlotgrant option \<Rightarrow> MacResource" where
  "sample_pdu grant =
     \<lparr>mr_fill_bits = False, mr_pos_of_grant = 0, mr_encryption_mode = 0, mr_random_access_flag = False, mr_length_ind = 0,
      mr_addr = Some sample_issi, mr_event_label = None, mr_usage_marker = None, mr_power_control_element = None,
      mr_slot_granting_element = grant, mr_chan_alloc_element = None\<rparr>"

definition sample_grant :: BasicSlotgrant where
  "sample_grant = \<lparr>capacity_allocation = BasicSlotgrantCapAlloc_Grant1Slot, granting_delay = CapAllocAtNextOpportunity\<rparr>"

lemma sample_pdu_ok: "pred_option BasicSlotgrant_wf g \<Longrightarrow> resource_ok (sample_pdu g)"
  by (simp add: resource_ok_def frag_ready_def MacResource_writable_def mr_addr_ok_def mr_null_ok_def MacResource_is_null_pdu_def
      addr_ok_def sample_pdu_def sample_issi_def fits_unat)

lemma sample_hdr_len: "mr_hdr_len (sample_pdu None) = 43" "mr_hdr_len (sample_pdu (Some sample_grant)) = 51"
proof -
  have "BasicSlotgrant_wf sample_grant" by (simp add: BasicSlotgrant_wf_def sample_grant_def wf_delay_def)
  then have "frag_ready (sample_pdu None)" "frag_ready (sample_pdu (Some sample_grant))"
    using sample_pdu_ok [of None] sample_pdu_ok [of "Some sample_grant"] by (simp_all add: resource_ok_def)
  from this [THEN frag_ready_header_len] show "mr_hdr_len (sample_pdu None) = 43" "mr_hdr_len (sample_pdu (Some sample_grant)) = 51"
    by (simp_all add: MacResource_compute_header_len_def MacResource_is_null_pdu_def sample_pdu_def)
qed

lemma sample_elem_ok:
  assumes "n < 1000" and "pred_option BasicSlotgrant_wf g"
  shows "elem_ok (DlSchedElem_Resource (sample_pdu g) (BitBuffer_new n) None)"
proof -
  have "bb_inv (BitBuffer_new n)" using assms(1) by (intro new_block) simp
  then show ?thesis using sample_pdu_ok [OF assms(2)] by (simp add: elem_ok_def unmarked_def) (simp add: BitBuffer_new_def get_pos_def)
qed

lemma sample_reach_at:
  assumes "TdmaTime_is_valid t"
  shows "\<exists>s. sched_reach s [] \<and> sc_cur_dltime s = t"
proof -
  have "\<exists>s. set_dl_time t (BsChannelScheduler_new 3 sample_precomps) = Ok ((), s) \<and> sc_cur_dltime s = t"
    by (simp add: set_dl_time_def purge_schedule_def bind_def upd_def gets_def ret_def BsChannelScheduler_new_def)
  with reach_start [OF sample_precomps_ok assms] show ?thesis by blast
qed

lemma sample_reach: "\<exists>s. sched_reach s []"
  using sample_reach_at [of TdmaTime_default] by (auto simp: TdmaTime_default_def TdmaTime_is_valid_def word_le_nat_alt)

lemma tick_reach:
  assumes "sched_reach s []"
  shows "\<exists>s' slot. sched_reach s' [slot] \<and> run_op Op_tick s = Ok (Some slot, s') \<and>
    (tm_f (TdmaTime_add_timeslots (TdmaTime_add_timeslots (sc_cur_dltime s) 1) 1) = 18 \<longrightarrow> pred_option (block_is Bsch 60) (sl_blk1 slot))"
proof -
  have "sched_inv s" using reach_inv [OF assms] by simp
  from tick_run [OF this, of True] obtain slot s' where t: "tick (finalize_ts_for_tick_inner True) s = Ok (Some slot, s')"
    "tm_f (TdmaTime_add_timeslots (TdmaTime_add_timeslots (sc_cur_dltime s) 1) 1) = 18 \<longrightarrow> pred_option (block_is Bsch 60) (sl_blk1 slot)"
    by blast
  then have r: "run_op Op_tick s = Ok (Some slot, s')" using tick_kinds [of s] by simp
  from reach_step [OF assms _ r] r t(2) show ?thesis by auto
qed

section \<open>The state machine\<close>

text \<open>C9. Whatever operations the upper MAC has used, in any order, the scheduler is in a well-formed state, and every slot that it has
  handed to the lower MAC has one of five formats: traffic, a stolen half slot beside traffic, full-slot signalling, half-slot
  signalling or SYNC with SYSINFO beside it, each of exactly its length, with an access assignment of 14 bits.\<close>

theorem scheduler_slots_well_formed:
  assumes "sched_reach s out"
  shows "sched_inv s \<and> list_all slot_ok out"
  using reach_inv [OF assms] .

theorem scheduler_slots_well_formed_witness:
  "\<exists>s slot. sched_reach s [slot] \<and> slot_ok slot"
proof -
  obtain s slot where r: "sched_reach s [slot]" using sample_reach tick_reach by blast
  from scheduler_slots_well_formed [OF r] r show ?thesis by auto
qed



text \<open>C13. A tick loses no receipt and reports none twice. A reporter is known by the shared cell it writes to; the cells of the reporters
  that are in the scheduler after a tick, together with the cells of those that left it in the tick, are as a multiset the
  cells of the reporters that were in it before, and each that left has been marked transmitted or discarded.\<close>

theorem tick_accounts_for_receipts:
  assumes "sched_reach s out" and "op = Op_tick \<or> op = Op_secondary_tick" and "run_op op s = Ok (slot, s')"
  shows "\<exists>rs. sc_reports s' = sc_reports s @ rs \<and> held s' + cells rs = held s \<and>
    (\<forall>r \<in> set rs. get_state r = Transmitted \<or> get_state r = Discarded)"
proof -
  have "sched_inv s" using reach_inv [OF assms(1)] by simp
  from tick_run [OF this, of True] tick_run [OF this, of "emit_bcch (sc_downlink_mode s)"] assms(2,3) have "accounted s s'"
    using tick_kinds [of s] by (auto simp: secondary_tick)
  then show ?thesis by (auto simp: accounted_def settled_def)
qed

text \<open>A scheduler to which two messages with reporters, of the cells 7 and 8, have been handed.\<close>

lemma sample_reach_receipts: "\<exists>s. sched_reach s [] \<and> held s = {#7, 8#}"
proof -
  let ?s0 = "(BsChannelScheduler_new 3 sample_precomps)\<lparr>sc_cur_dltime := TdmaTime_default\<rparr>"
  let ?op = "\<lambda>c. Op_tma_next_frame (sample_pdu None) (BitBuffer_new 20) (Some (TxReporter_new c))"
  let ?e = "\<lambda>c. DlSchedElem_Resource (sample_pdu None) (BitBuffer_new 20) (Some (TxReporter_new c))"
  have "\<exists>s. set_dl_time TdmaTime_default (BsChannelScheduler_new 3 sample_precomps) = Ok ((), s) \<and> held s = {#}"
    by (simp add: set_dl_time_def purge_schedule_def bind_def upd_def gets_def ret_def BsChannelScheduler_new_def held_def)
  with reach_start [OF sample_precomps_ok, of TdmaTime_default] obtain s where s: "sched_reach s []" "held s = {#}"
    by (auto simp: TdmaTime_default_def TdmaTime_is_valid_def word_le_nat_alt)
  have ok: "op_ok (?op c)" for c
    using sample_elem_ok [of 20 None] by (simp add: elem_ok_def unmarked_def TxReporter_new_def)
  have run: "run_op (?op c) s = Ok (None, sent [?e c] [] s)" for c s
    by (simp add: then_none_def dl_enqueue_tma_next_frame_def push_next_sent bind_def ret_def)
  have "sched_reach (sent [?e 8] [] (sent [?e 7] [] s)) []"
    using reach_step [OF reach_step [OF s(1) ok run] ok run] by simp
  moreover have "held (sent [?e 8] [] (sent [?e 7] [] s)) = {#7, 8#}"
    using s(2) by (simp add: held_def sent_def reporters_def TxReporter_new_def add_mset_commute)
  ultimately show ?thesis by blast
qed

theorem tick_accounts_for_receipts_witness:
  "\<exists>s slot s' rs. held s = {#7, 8#} \<and> run_op Op_tick s = Ok (slot, s') \<and> sc_reports s' = sc_reports s @ rs \<and> held s' + cells rs = {#7, 8#}"
proof -
  obtain s where s: "sched_reach s []" "held s = {#7, 8#}" using sample_reach_receipts by blast
  from tick_reach [OF s(1)] obtain slot s' where "run_op Op_tick s = Ok (slot, s')" by blast
  with tick_accounts_for_receipts [OF s(1), of Op_tick slot s'] s(2) show ?thesis by auto
qed

section \<open>The signalling slot\<close>

lemma window_new: "wrote (BitBuffer_new n) bs b \<Longrightarrow> length bs \<le> n \<Longrightarrow> window b = bs @ replicate (n - length bs) False"
  by (simp add: wrote_def window_def content_new overwrite_def) (simp add: BitBuffer_new_def)

text \<open>C10. A signalling slot packs the queue: the messages stand in one line, fragments first, each takes what it can of the room the ones
  before it left; the bits of the block are those chunks and zeros behind them, and what is left of the messages is queued for
  the same timeslot, behind what had been put off.\<close>

theorem signalling_slot_packs_queue:
  assumes "queue_of s (tm_t ts) = Some q" and "\<forall>e \<in> set q. sendable e" and "tm_f ts \<noteq> 18"
  shows "\<exists>buf xs s'. dl_build_block_from_signalling_schedule ts s = Ok (buf, s') \<and>
    queue_of s' (tm_t ts) = Some (sc_dltx_next_slot_queue s @ xs) \<and> sc_dltx_next_slot_queue s' = [] \<and>
    (let (bits, left) = fill_slot 268 (msgs (order q))
     in msgs xs = left \<and> list_all is_fragbuf xs \<and>
        (case buf of None \<Rightarrow> msgs (order q) = [] | Some b \<Rightarrow> window b = bits @ replicate (268 - length bits) False))"
proof -
  from build_block_run [OF assms] obtain buf xs rs where
    b: "dl_build_block_from_signalling_schedule ts s =
      Ok (buf, sent [] rs (with_queue (tm_t ts) (sc_dltx_next_slot_queue s @ xs) (s\<lparr>sc_dltx_next_slot_queue := []\<rparr>)))"
      "filled (msgs (order q)) None buf xs" by blast
  let ?f = "fill_slot 268 (msgs (order q))"
  have f: "wrote (BitBuffer_new 268) (fst ?f) (block_or_new buf)" "msgs xs = snd ?f" "frag_only xs" "buf = None \<longleftrightarrow> msgs (order q) = []"
    using b(2) by (auto simp: filled_def case_prod_beta block_or_new_def new_block SCH_F_CAP_def)
  let ?s0 = "s\<lparr>sc_dltx_next_slot_queue := []\<rparr>" and ?q = "sc_dltx_next_slot_queue s @ xs"
  let ?s' = "sent [] rs (with_queue (tm_t ts) ?q ?s0)"
  have "queue_of ?s0 (tm_t ts) \<noteq> None" using assms(1) by (simp add: queue_of_def)
  then have q: "queue_of ?s' (tm_t ts) = Some ?q" by simp
  have n: "sc_dltx_next_slot_queue ?s' = []" by (simp add: sent_def with_queue_def)
  have "list_all is_fragbuf xs" using f(3) by (simp add: frag_only_def list_all_iff)
  moreover have "window (block_or_new buf) = fst ?f @ replicate (268 - length (fst ?f)) False"
    using window_new [OF f(1) fill_slot_length] .
  then have "case buf of None \<Rightarrow> msgs (order q) = [] | Some b \<Rightarrow> window b = fst ?f @ replicate (268 - length (fst ?f)) False"
    using f(4) by (cases buf) (simp_all add: block_or_new_def)
  ultimately show ?thesis unfolding case_prod_beta Let_def
    using b(1) q n f(2) by blast
qed

definition sample_queued :: "DlSchedElem list \<Rightarrow> BsChannelScheduler" where
  "sample_queued q = sample_sched\<lparr>sc_dltx_queues := [q, [], [], []]\<rparr>"

lemma sample_queued: "queue_of (sample_queued q) 1 = Some q" "sc_dltx_next_slot_queue (sample_queued q) = []"
  by (simp_all add: sample_queued_def queue_of_def entry_def ts_idx_def sample_sched_def BsChannelScheduler_new_def)

lemma sample_slot_time: "tm_t TdmaTime_default = 1" "tm_f TdmaTime_default \<noteq> 18"
  by (simp_all add: TdmaTime_default_def)

lemma sample_sendable:
  "n < 1000 \<Longrightarrow> pred_option BasicSlotgrant_wf g \<Longrightarrow> sendable (DlSchedElem_Resource (sample_pdu g) (BitBuffer_new n) None)"
  using sample_elem_ok [of n g] by (intro elem_ok_sendable) (simp_all add: is_grant_def is_ack_def)

lemma unread_new: "unread (BitBuffer_new n) = replicate n False"
  by (simp add: unread_def content_new) (simp add: BitBuffer_new_def)

theorem signalling_slot_packs_queue_witness:
  "\<exists>b s'. dl_build_block_from_signalling_schedule TdmaTime_default
      (sample_queued [DlSchedElem_Resource (sample_pdu None) (BitBuffer_new 100) None]) = Ok (Some b, s') \<and> queue_of s' 1 = Some []"
proof -
  let ?q = "[DlSchedElem_Resource (sample_pdu None) (BitBuffer_new 100) None]"
  have "fill_slot 268 (msgs (order ?q)) = (fst (chunk 268 (Some (sample_pdu None), replicate 100 False)), [])"
    by (simp add: order_def is_fragbuf_def is_resource_def is_stealing_def elem_msg_def unread_new chunk.simps sample_hdr_len Let_def)
  moreover have "msgs (order ?q) \<noteq> []" by (simp add: order_def is_fragbuf_def is_resource_def is_stealing_def elem_msg_def)
  moreover obtain buf xs s' where
    r: "dl_build_block_from_signalling_schedule TdmaTime_default (sample_queued ?q) = Ok (buf, s')" "queue_of s' 1 = Some xs"
      "let (bits, left) = fill_slot 268 (msgs (order ?q)) in msgs xs = left \<and> list_all is_fragbuf xs \<and>
        (case buf of None \<Rightarrow> msgs (order ?q) = [] | Some b \<Rightarrow> window b = bits @ replicate (268 - length bits) False)"
    using signalling_slot_packs_queue [of "sample_queued ?q" TdmaTime_default ?q, unfolded sample_queued sample_slot_time(1),
        OF refl _ sample_slot_time(2)] sample_sendable [of 100 None] by auto
  ultimately have "msgs xs = []" "list_all is_fragbuf xs" "buf \<noteq> None" by (auto simp: case_prod_beta split: option.splits)
  then have "xs = []" by (cases xs; cases "hd xs") (auto simp: elem_msg_def is_fragbuf_def)
  then show ?thesis using r(1,2) \<open>buf \<noteq> None\<close> by blast
qed

lemma slot_run:
  assumes "queue_of s (tm_t ts) = Some q" and "\<forall>e \<in> set q. sendable e" and "order q = q" and "msgs q \<noteq> []"
    and "sc_dltx_next_slot_queue s = []" and "tm_f ts \<noteq> 18"
  shows "\<exists>b s' xs. dl_build_block_from_signalling_schedule ts s = Ok (Some b, s') \<and> queue_of s' (tm_t ts) = Some xs \<and>
    sc_dltx_next_slot_queue s' = [] \<and> msgs xs = snd (fill_slot 268 (msgs q)) \<and> list_all is_fragbuf xs \<and> (\<forall>e \<in> set xs. sendable e) \<and>
    order xs = xs \<and> window b = fst (fill_slot 268 (msgs q)) @ replicate (268 - length (fst (fill_slot 268 (msgs q)))) False"
proof -
  let ?t = "tm_t ts" and ?f = "fill_slot 268 (msgs q)"
  from build_block_run [OF assms(1,2,6)] obtain buf xs rs where
    r: "dl_build_block_from_signalling_schedule ts s = Ok (buf, sent [] rs (with_queue ?t xs (s\<lparr>sc_dltx_next_slot_queue := []\<rparr>)))"
      "filled (msgs q) None buf xs" unfolding assms(3,5) by auto
  have f: "wrote (BitBuffer_new 268) (fst ?f) (block_or_new buf)" "msgs xs = snd ?f" "frag_only xs" "buf \<noteq> None"
    using r(2) assms(4) by (auto simp: filled_def case_prod_beta block_or_new_def new_block SCH_F_CAP_def)
  then obtain b where b: "buf = Some b" by blast
  have "queue_of (s\<lparr>sc_dltx_next_slot_queue := []\<rparr>) ?t \<noteq> None" using assms(1) by (simp add: queue_of_def)
  then have q: "queue_of (sent [] rs (with_queue ?t xs (s\<lparr>sc_dltx_next_slot_queue := []\<rparr>))) ?t = Some xs" by simp
  have n: "sc_dltx_next_slot_queue (sent [] rs (with_queue ?t xs (s\<lparr>sc_dltx_next_slot_queue := []\<rparr>))) = []"
    by (simp add: sent_def with_queue_def)
  have x: "list_all is_fragbuf xs" "\<forall>e \<in> set xs. sendable e" "order xs = xs"
    using f(3) kinds(1) by (auto simp: frag_only_def list_all_iff order_def filter_id_conv filter_empty_conv)
  have "window b = fst ?f @ replicate (268 - length (fst ?f)) False"
    using window_new [OF f(1) fill_slot_length] b by (simp add: block_or_new_def)
  with r(1) b q n x f(2) show ?thesis by blast
qed

lemma chunk_all:
  "mr_hdr_len r + length sdu = 224 \<Longrightarrow> chunk 268 (Some r, sdu) = (MacResource_enc (res_chunk r 28 False) @ sdu, None)"
  by (simp add: chunk.simps Let_def compute_required_def compute_required_bytealigned_def fill_bits_of_def)

lemma chunk_none: "44 < mr_hdr_len r \<Longrightarrow> chunk 44 (Some r, sdu) = ([], Some (Some r, sdu))"
  by (simp add: chunk.simps Let_def)

lemma chunk_start:
  "mr_hdr_len r \<le> cap \<Longrightarrow> 32 \<le> cap \<Longrightarrow> cap < mr_hdr_len r + length sdu \<Longrightarrow>
     chunk cap (Some r, sdu) = (MacResource_enc (res_chunk r 63 False) @ take (cap - mr_hdr_len r) sdu, Some (None, drop (cap - mr_hdr_len r) sdu))"
  by (simp add: chunk.simps Let_def)

lemma chunk_full: "chunk 0 (None, sdu) = ([], Some (None, sdu))"
  by (simp add: chunk.simps Let_def div_ceil8_def)

lemma two_fragbufs:
  assumes "list_all is_fragbuf xs" and "msgs xs = [m, m']"
  shows "\<exists>f f'. xs = [DlSchedElem_FragBuf f, DlSchedElem_FragBuf f'] \<and> frag_msg f = m \<and> frag_msg f' = m'"
proof -
  have all: "\<exists>fs. ys = map DlSchedElem_FragBuf fs \<and> msgs ys = map frag_msg fs" if "list_all is_fragbuf ys" for ys
    using that
  proof (induction ys)
    case (Cons e ys)
    then obtain fs f where "ys = map DlSchedElem_FragBuf fs" "msgs ys = map frag_msg fs" "e = DlSchedElem_FragBuf f"
      by (cases e) (auto simp: is_fragbuf_def)
    then show ?case by (intro exI [of _ "f # fs"]) (simp add: elem_msg_def)
  qed simp
  from all [OF assms(1)] assms(2) show ?thesis by (auto simp: map_eq_Cons_conv)
qed

text \<open>C37. Fragments of two messages mix. Three messages stand in one timeslot's queue: the first takes 224 of the 268 bits of its slot, the
  second has a header of 51 bits and an SDU of more than 217 bits, the third a header of 43 bits and an SDU of more than one
  bit. The first slot then holds the whole of the first message and the start of the third, whose header still fits; the
  second has not started. The next slot is the start of the second, and the third waits. From there on both are queued with
  their headers sent, and the slot after that begins with more of the second message, under a MAC-FRAG or MAC-END header, which
  has no address field: nothing in it says which of the two started messages it continues.\<close>

theorem fragment_streams_mix:
  assumes "queue_of s (tm_t ts) = Some [DlSchedElem_Resource p1 d1 r1, DlSchedElem_Resource p2 d2 r2, DlSchedElem_Resource p3 d3 r3]"
    and "sendable (DlSchedElem_Resource p1 d1 r1)" "sendable (DlSchedElem_Resource p2 d2 r2)" "sendable (DlSchedElem_Resource p3 d3 r3)"
    and "sc_dltx_next_slot_queue s = []" and "tm_f ts \<noteq> 18" "tm_f ts' \<noteq> 18" "tm_f ts'' \<noteq> 18" and "tm_t ts' = tm_t ts" "tm_t ts'' = tm_t ts"
    and "mr_hdr_len p1 + length (unread d1) = 224" and "mr_hdr_len p2 = 51" and "217 < length (unread d2)"
    and "mr_hdr_len p3 = 43" and "1 < length (unread d3)"
  shows "\<exists>b s1 g g' b' s2 f f' b'' s3 rest.
    dl_build_block_from_signalling_schedule ts s = Ok (Some b, s1) \<and>
    window b = MacResource_enc (res_chunk p1 28 False) @ unread d1 @ MacResource_enc (res_chunk p3 63 False) @ take 1 (unread d3) \<and>
    queue_of s1 (tm_t ts) = Some [DlSchedElem_FragBuf g, DlSchedElem_FragBuf g'] \<and>
    frag_msg g = (Some p2, unread d2) \<and> frag_msg g' = (None, drop 1 (unread d3)) \<and>
    dl_build_block_from_signalling_schedule ts' s1 = Ok (Some b', s2) \<and>
    window b' = MacResource_enc (res_chunk p2 63 False) @ take 217 (unread d2) \<and>
    queue_of s2 (tm_t ts) = Some [DlSchedElem_FragBuf f, DlSchedElem_FragBuf f'] \<and>
    frag_msg f = (None, drop 217 (unread d2)) \<and> frag_msg f' = (None, drop 1 (unread d3)) \<and>
    dl_build_block_from_signalling_schedule ts'' s2 = Ok (Some b'', s3) \<and>
    ((\<exists>e. window b'' = MacEndDl_enc e @ drop 217 (unread d2) @ rest) \<or>
     (\<exists>h. window b'' = MacFragDl_enc h @ take 264 (drop 217 (unread d2)) @ rest))"
proof -
  let ?q = "[DlSchedElem_Resource p1 d1 r1, DlSchedElem_Resource p2 d2 r2, DlSchedElem_Resource p3 d3 r3]"
  let ?m = "[(Some p2, unread d2), (None, drop 1 (unread d3))]" and ?m' = "[(None, drop 217 (unread d2)), (None, drop 1 (unread d3))]"
  let ?c1 = "MacResource_enc (res_chunk p1 28 False) @ unread d1 @ MacResource_enc (res_chunk p3 63 False) @ take 1 (unread d3)"
  let ?c2 = "MacResource_enc (res_chunk p2 63 False) @ take 217 (unread d2)"
  have o: "order ?q = ?q" "msgs ?q \<noteq> []" by (simp_all add: order_def is_fragbuf_def is_resource_def is_stealing_def elem_msg_def)
  have "fill_slot 268 (msgs ?q) = (?c1, ?m)" "length ?c1 = 268"
    using chunk_all [OF assms(11)] chunk_none [of p2 "unread d2"] chunk_start [of p3 44 "unread d3"] assms(11,12,14,15)
    by (simp_all add: elem_msg_def One_nat_def)
  with slot_run [OF assms(1) _ o assms(5,6)] assms(2-4) obtain b s1 xs where
    1: "dl_build_block_from_signalling_schedule ts s = Ok (Some b, s1)" "queue_of s1 (tm_t ts) = Some xs" "sc_dltx_next_slot_queue s1 = []"
      "msgs xs = ?m" "list_all is_fragbuf xs" "\<forall>e \<in> set xs. sendable e" "order xs = xs" "window b = ?c1" by auto
  have "fill_slot 268 ?m = (?c2, ?m')" "length ?c2 = 268"
    using chunk_start [of p2 268 "unread d2"] chunk_full [of "drop 1 (unread d3)"] assms(12,13) by (simp_all add: One_nat_def)
  with slot_run [of s1 ts' xs, unfolded assms(9) 1(4), OF 1(2,6,7) _ 1(3) assms(7)] obtain b' s2 ys where
    2: "dl_build_block_from_signalling_schedule ts' s1 = Ok (Some b', s2)" "queue_of s2 (tm_t ts) = Some ys" "sc_dltx_next_slot_queue s2 = []"
      "msgs ys = ?m'" "list_all is_fragbuf ys" "\<forall>e \<in> set ys. sendable e" "order ys = ys" "window b' = ?c2" by auto
  let ?d = "drop 217 (unread d2)" and ?f = "fill_slot 268 ?m'"
  from slot_run [of s2 ts'' ys, unfolded assms(10) 2(4), OF 2(2,6,7) _ 2(3) assms(8)] obtain b'' s3 where
    3: "dl_build_block_from_signalling_schedule ts'' s2 = Ok (Some b'', s3)" "window b'' = fst ?f @ replicate (268 - length (fst ?f)) False" by blast
  obtain rest where r: "window b'' = fst (chunk 268 (None, ?d)) @ rest" using 3(2) by (auto simp: case_prod_beta)
  have "(\<exists>e rest. window b'' = MacEndDl_enc e @ ?d @ rest) \<or> (\<exists>h rest. window b'' = MacFragDl_enc h @ take 264 ?d @ rest)"
    unfolding r by (auto simp: chunk.simps Let_def min_def)
  with 1(1,2,8) 2(1,2,8) 3(1) two_fragbufs [OF 1(5,4)] two_fragbufs [OF 2(5,4)] show ?thesis by blast
qed

theorem fragment_streams_mix_witness:
  "\<exists>s b s1 g g' b' s2 f f'. queue_of s 1 \<noteq> None \<and> dl_build_block_from_signalling_schedule TdmaTime_default s = Ok (Some b, s1) \<and>
    queue_of s1 1 = Some [DlSchedElem_FragBuf g, DlSchedElem_FragBuf g'] \<and> fst (frag_msg g) = Some (sample_pdu (Some sample_grant)) \<and>
    fst (frag_msg g') = None \<and> dl_build_block_from_signalling_schedule TdmaTime_default s1 = Ok (Some b', s2) \<and>
    queue_of s2 1 = Some [DlSchedElem_FragBuf f, DlSchedElem_FragBuf f'] \<and> fst (frag_msg f) = None \<and> fst (frag_msg f') = None"
proof -
  let ?e = "\<lambda>g n. DlSchedElem_Resource (sample_pdu g) (BitBuffer_new n) None"
  let ?q = "[?e None 181, ?e (Some sample_grant) 300, ?e None 100]"
  have g: "BasicSlotgrant_wf sample_grant" by (simp add: BasicSlotgrant_wf_def sample_grant_def wf_delay_def)
  have "sendable (?e None 181)" "sendable (?e (Some sample_grant) 300)" "sendable (?e None 100)"
    using sample_sendable [of 181 None] sample_sendable [of 300 "Some sample_grant"] sample_sendable [of 100 None] g by simp_all
  note m = fragment_streams_mix [of "sample_queued ?q" TdmaTime_default _ _ _ _ _ _ _ _ _ TdmaTime_default TdmaTime_default,
      unfolded sample_slot_time(1), OF sample_queued(1) this sample_queued(2) sample_slot_time(2) sample_slot_time(2) sample_slot_time(2) refl refl]
  have "217 < length (unread (BitBuffer_new 300))" "1 < length (unread (BitBuffer_new 100))"
    "mr_hdr_len (sample_pdu None) + length (unread (BitBuffer_new 181)) = 224" by (simp_all add: unread_new sample_hdr_len)
  from m [OF this(3) sample_hdr_len(2) this(1) sample_hdr_len(1) this(2)] sample_queued(1) [of ?q] show ?thesis
    by (metis fst_conv option.distinct(1))
qed

text \<open>The queue for the next frame belongs to no timeslot: a second channel allocation for the MCCH, put off because timeslot 1
  had one in this frame, goes to whichever timeslot's slot is built next, here any one whose queue is empty.\<close>

theorem put_off_pdu_changes_timeslot:
  assumes "allow_mcch s" and "sc_mcch_chan_alloc_sent_this_frame s" and "mr_addr pdu = Some addr" and "mr_chan_alloc_element pdu \<noteq> None"
    and "queue_of s (tm_t ts) = Some []" and "sc_dltx_next_slot_queue s = []" and "tm_f ts \<noteq> 18"
  shows "\<exists>s1 s2. dl_enqueue_tma pdu sdu r s = Ok ((), s1) \<and> dl_build_block_from_signalling_schedule ts s1 = Ok (None, s2) \<and>
    queue_of s2 (tm_t ts) = Some [DlSchedElem_Resource pdu sdu r]"
proof -
  let ?e = "DlSchedElem_Resource pdu sdu r"
  have "dl_enqueue_tma pdu sdu r s = Ok ((), sent [?e] [] s)"
    using assms(1-4) by (simp add: dl_enqueue_tma_def identify_timeslots_for_ssi_def dl_enqueue_tma_on_timeslots_def bind_def gets_def
        ret_def push_next_sent)
  moreover have "queue_of (sent [?e] [] s) (tm_t ts) = Some []" using assms(5) by simp
  from build_block_run [OF this _ assms(7)] obtain buf xs rs where
    b: "dl_build_block_from_signalling_schedule ts (sent [?e] [] s) =
        Ok (buf, sent [] rs (with_queue (tm_t ts) ([?e] @ xs) (sent [?e] [] s\<lparr>sc_dltx_next_slot_queue := []\<rparr>)))"
      "filled (msgs (order [])) None buf xs" using assms(6) by (auto simp: sent_def)
  have "buf = None" "msgs xs = []" "list_all is_fragbuf xs"
    using b(2) by (auto simp: filled_def order_def frag_only_def list_all_iff)
  moreover from this(2,3) have "xs = []" by (cases xs; cases "hd xs") (auto simp: elem_msg_def is_fragbuf_def)
  moreover have "queue_of (sent [?e] [] s\<lparr>sc_dltx_next_slot_queue := []\<rparr>) (tm_t ts) \<noteq> None" using assms(5) by (simp add: queue_of_def sent_def)
  ultimately show ?thesis using b(1) by (intro exI) (auto simp: with_queue_simps(3))
qed

theorem put_off_pdu_changes_timeslot_witness:
  "\<exists>s pdu s1 s2. sc_dltx_next_slot_queue s = [] \<and> dl_enqueue_tma pdu (BitBuffer_new 50) None s = Ok ((), s1) \<and>
    dl_build_block_from_signalling_schedule (TdmaTime_default\<lparr>tm_t := 2\<rparr>) s1 = Ok (None, s2) \<and>
    queue_of s2 2 = Some [DlSchedElem_Resource pdu (BitBuffer_new 50) None]"
proof -
  let ?s = "sample_sched\<lparr>sc_mcch_chan_alloc_sent_this_frame := True\<rparr>" and ?ts = "TdmaTime_default\<lparr>tm_t := 2\<rparr>"
  let ?pdu = "sample_pdu None\<lparr>mr_chan_alloc_element :=
    Some \<lparr>alloc_type = ChanAllocType_Replace, ts_assigned = (False, True, False, False), ul_dl_assigned = UlDlAssignment_Both,
      clch_permission = True, cell_change_flag = False, carrier_num = 3, chan_ext = None, mon_pattern = 3, frame18_mon_pattern = None\<rparr>\<rparr>"
  have "allow_mcch ?s" "queue_of ?s 2 = Some []" "sc_dltx_next_slot_queue ?s = []"
    by (simp_all add: allow_mcch_def queue_of_def entry_def ts_idx_def sample_sched_def BsChannelScheduler_new_def mode_allow_mcch_def)
  moreover have "sc_mcch_chan_alloc_sent_this_frame ?s" "mr_addr ?pdu = Some sample_issi" "mr_chan_alloc_element ?pdu \<noteq> None"
    "tm_f ?ts \<noteq> 18" "tm_t ?ts = 2" using sample_slot_time(2) by (simp_all add: sample_pdu_def)
  ultimately show ?thesis using put_off_pdu_changes_timeslot [of ?s ?pdu sample_issi ?ts "BitBuffer_new 50" None] by metis
qed

section \<open>The slot on the air\<close>

text \<open>C12. From the scheduler to the receiver: the lower MAC accepts every block of signalling of every slot that the scheduler hands it,
  and the receiver decodes the bits that the scheduler wrote, with the checksum right.\<close>

theorem scheduled_blocks_are_received:
  assumes "sched_reach s out" and "slot \<in> set out" and "sl_blk1 slot = Some b \<or> sl_blk2 slot = Some b"
    and "rq_logical_channel b \<noteq> TchS" and "(if bt = SB1 then Some SCRAMB_INIT else dsc) = Some (rq_scrambling_code b)"
  shows "\<exists>t5 r. encode_cp b = Ok t5 \<and> decode_cp (rq_logical_channel b) bt t5 dsc = Ok (Some r, True) \<and> window r = window (rq_mac_block b)"
proof -
  have b: "b = \<lparr>rq_mac_block = rq_mac_block b, rq_logical_channel = rq_logical_channel b, rq_scrambling_code = rq_scrambling_code b\<rparr>" by simp
  from reach_inv [OF assms(1)] assms(2) have "slot_ok slot" by (simp add: list_all_iff)
  then obtain b1 where "sl_blk1 slot = Some b1" "slot_blocks b1 (sl_blk2 slot)" by (auto simp: slot_ok_def)
  then have "slot_blocks b (sl_blk2 slot) \<or> slot_blocks b1 (Some b)" using assms(3) by fastforce
  then consider "block_is SchF 268 b" | "block_is Stch 124 b" | "block_is SchHd 124 b" | "block_is Bsch 60 b" | "block_is Bnch 124 b"
    using assms(4) by (cases "sl_blk2 slot") (auto simp: slot_blocks_def block_is_def [of TchS])
  then obtain p where "is_control_channel (rq_logical_channel b)" "rq_logical_channel b \<noteq> Aach" "get_params (rq_logical_channel b) = Ok p"
    "bb_inv (rq_mac_block b)" "get_len (rq_mac_block b) = type1_bits p"
    by cases (auto simp: block_is_def is_control_channel_def SCH_F_PARAMS_def SCH_HD_PARAMS_def BSCH_PARAMS_def)
  from cp_roundtrip [OF this assms(5)] show ?thesis using b by metis
qed

theorem scheduled_blocks_are_received_witness:
  "\<exists>s slot b t5 r. sched_reach s [slot] \<and> sl_blk1 slot = Some b \<and> encode_cp b = Ok t5 \<and>
    decode_cp Bsch SB2 t5 (Some (rq_scrambling_code b)) = Ok (Some r, True) \<and> window r = window (rq_mac_block b)"
proof -
  let ?t = "\<lparr>tm_t = 1, tm_f = 18, tm_m = 1, tm_h = 0\<rparr>"
  obtain s where s: "sched_reach s []" "sc_cur_dltime s = ?t"
    using sample_reach_at [of ?t] by (auto simp: TdmaTime_is_valid_def word_le_nat_alt)
  have "tm_f (TdmaTime_add_timeslots (TdmaTime_add_timeslots ?t 1) 1) = 18" by code_simp
  with tick_reach [OF s(1)] s(2) obtain s' slot where r: "sched_reach s' [slot]" "pred_option (block_is Bsch 60) (sl_blk1 slot)" by auto
  moreover obtain b where b: "sl_blk1 slot = Some b" using reach_inv [OF r(1)] by (auto simp: slot_ok_def)
  moreover have c: "rq_logical_channel b = Bsch" using r(2) b by (simp add: block_is_def)
  ultimately show ?thesis using scheduled_blocks_are_received [OF r(1), of slot b SB2 "Some (rq_scrambling_code b)", unfolded c] by (metis LogicalChannel.distinct list.set_intros(1) PhyBlockType.distinct)
qed

end
