(* ===== verification/Sap_Msgs.thy ===== *)
theory Sap_Msgs
  imports Llc_Pdus Address Tx_Reporter Tdma_Time
begin

text \<open>
  The messages that the link layer and mobility management exchange with their neighbours (\<open>tetra-saps/src/tma\<close>,
  \<open>tetra-saps/src/tla\<close>, \<open>tetra-saps/src/lmm\<close>, \<open>tetra-saps/src/control/brew.rs\<close>, \<open>tetra-saps/src/sapmsg.rs\<close>). A transmit reporter in a message is a reference into a store of reporters: its clones share one atomic
  byte. The placeholder type \<open>Todo\<close> of the source is \<open>i32\<close>; the code only passes it along.
\<close>

datatype Sap =
    TpSap | TpcSap | TmvSap | TmaSap | TmdSap | TlaSap | TlmbSap | TlmcSap | LmmSap | LcmcSap | TnccSap | TnssSap | TnsdsSap
  | TlpdSap | TnmmSap | Sap_Control

datatype TetraEntity =
    Entity_Phy | Entity_Lmac | Entity_Umac | Entity_Llc | Entity_Mle | Entity_Mm | Entity_Cmce | Entity_Sndcp | Entity_User
  | Entity_Brew | Entity_Asterisk

datatype Layer2Service = Layer2Todo | Layer2Acknowledged | Layer2Unacknowledged

type_synonym Todo = int
type_synonym EndpointId = u32
type_synonym tx_ref = nat

record CmceChanAllocReq =
  ca_usage :: "u8 option"
  ca_carrier :: "u16 option"
  ca_timeslots :: "bool list"
  ca_alloc_type :: ChanAllocType
  ca_ul_dl_assigned :: UlDlAssignment

record TmaUnitdataReq =
  tq_carrier_num :: "u16 option"
  tq_req_handle :: Todo
  tq_pdu :: bitbuffer
  tq_main_address :: TetraAddress
  tq_link_id :: u32
  tq_endpoint_id :: EndpointId
  tq_stealing_permission :: bool
  tq_subscriber_class :: Todo
  tq_air_interface_encryption :: "Todo option"
  tq_stealing_repeats_flag :: "bool option"
  tq_data_category :: "Todo option"
  tq_chan_alloc :: "CmceChanAllocReq option"
  tq_tx_reporter :: "tx_ref option"

record TmaUnitdataInd =
  ti_carrier_num :: u16
  ti_pdu :: "bitbuffer option"
  ti_main_address :: TetraAddress
  ti_scrambling_code :: u32
  ti_link_id :: u32
  ti_endpoint_id :: EndpointId
  ti_new_endpoint_id :: "EndpointId option"
  ti_css_endpoint_id :: "EndpointId option"
  ti_air_interface_encryption :: Todo
  ti_chan_change_response_req :: bool
  ti_chan_change_handle :: "Todo option"
  ti_chan_info :: "Todo option"

record TlaTlDataReqBl =
  dq_main_address :: TetraAddress
  dq_link_id :: u32
  dq_endpoint_id :: EndpointId
  dq_tl_sdu :: bitbuffer
  dq_stealing_permission :: bool
  dq_subscriber_class :: Todo
  dq_fcs_flag :: bool
  dq_air_interface_encryption :: "Todo option"
  dq_stealing_repeats_flag :: "bool option"
  dq_data_class_info :: "Todo option"
  dq_req_handle :: Todo
  dq_graceful_degradation :: "Todo option"
  dq_chan_alloc :: "CmceChanAllocReq option"
  dq_tx_reporter :: "tx_ref option"

record TlaTlUnitdataReqBl =
  uq_main_address :: TetraAddress
  uq_link_id :: u32
  uq_endpoint_id :: EndpointId
  uq_tl_sdu :: bitbuffer
  uq_stealing_permission :: bool
  uq_subscriber_class :: Todo
  uq_fcs_flag :: bool
  uq_air_interface_encryption :: "Todo option"
  uq_packet_data_flag :: bool
  uq_n_tlsdu_repeats :: u8
  uq_data_class_info :: "Todo option"
  uq_req_handle :: Todo
  uq_chan_alloc :: "CmceChanAllocReq option"
  uq_tx_reporter :: "tx_ref option"

record TlaTlDataIndBl =
  di_main_address :: TetraAddress
  di_link_id :: u32
  di_endpoint_id :: EndpointId
  di_new_endpoint_id :: "EndpointId option"
  di_css_endpoint_id :: "EndpointId option"
  di_tl_sdu :: "bitbuffer option"
  di_scrambling_code :: u32
  di_fcs_flag :: bool
  di_air_interface_encryption :: Todo
  di_chan_change_resp_req :: bool
  di_chan_change_handle :: "Todo option"
  di_chan_info :: "Todo option"
  di_req_handle :: Todo

record TlaTlUnitdataIndBl =
  ui_main_address :: TetraAddress
  ui_link_id :: u32
  ui_endpoint_id :: EndpointId
  ui_new_endpoint_id :: "EndpointId option"
  ui_css_endpoint_id :: "EndpointId option"
  ui_tl_sdu :: "bitbuffer option"
  ui_scrambling_code :: u32
  ui_fcs_flag :: bool
  ui_air_interface_encryption :: Todo
  ui_chan_change_resp_req :: bool
  ui_chan_change_handle :: "Todo option"
  ui_chan_info :: "Todo option"
  ui_report :: "Todo option"

text \<open>The LMM SAP and the control messages of mobility management. An \<open>f32\<close> is its bit pattern.\<close>

record LmmMleUnitdataReq =
  lq_sdu :: bitbuffer
  lq_handle :: u32
  lq_address :: TetraAddress
  lq_layer2service :: Layer2Service
  lq_stealing_permission :: bool
  lq_stealing_repeats_flag :: bool
  lq_encryption_flag :: bool
  lq_is_null_pdu :: bool
  lq_tx_reporter :: "tx_ref option"

record LmmMleUnitdataInd =
  li_sdu :: bitbuffer
  li_handle :: u32
  li_received_address :: TetraAddress

datatype BrewSubscriberAction = Action_Register | Action_Deregister | Action_Affiliate | Action_Deaffiliate

record MmSubscriberUpdate =
  su_issi :: u32
  su_groups :: "u32 list"
  su_action :: BrewSubscriberAction

text \<open>The messages of the TMA, TLA and LMM SAPs and those to and from mobility management; every other message of the enumeration is
  \<open>Sap_other\<close>.\<close>

datatype SapMsgInner =
    Msg_TmaUnitdataInd TmaUnitdataInd
  | Msg_TmaUnitdataReq TmaUnitdataReq
  | Msg_TmaReportInd
  | Msg_TlaTlDataIndBl TlaTlDataIndBl
  | Msg_TlaTlDataReqBl TlaTlDataReqBl
  | Msg_TlaTlUnitdataIndBl TlaTlUnitdataIndBl
  | Msg_TlaTlUnitdataReqBl TlaTlUnitdataReqBl
  | Msg_LmmMleUnitdataInd LmmMleUnitdataInd
  | Msg_LmmMleUnitdataReq LmmMleUnitdataReq
  | Msg_MmSubscriberUpdate MmSubscriberUpdate
  | Msg_MmDgnaRequest u32 u32 "string option" u8 bool
  | Msg_CmceSsDgnaAssign u32 u32 "string option" u8 "u32 option" bool
  | Msg_MsRssiUpdate u32 u32
  | Msg_BrewReconnected
  | Sap_other

record SapMsg =
  sm_sap :: Sap
  sm_src :: TetraEntity
  sm_dest :: TetraEntity
  sm_msg :: SapMsgInner

end
