(* ===== verification/Llc_Fcs.thy ===== *)
theory Llc_Fcs
  imports Codec
begin

text \<open>
  \<open>tetra-entities/src/llc/components/fcs.rs\<close>: the 32-bit frame check sequence of the LLC. The register is linear and one step of it is
  invertible; a received SDU is accepted with exactly one sequence behind it, and no burst of up to 32 wrong bits is accepted.
\<close>

declare One_nat_def [simp del]

section \<open>Operations\<close>

definition FCS_POLY :: u32 where
  "FCS_POLY = 0x04C11DB7"

text \<open>The body of the loop.\<close>

definition fcs_step :: "u32 \<Rightarrow> u8 \<Rightarrow> u32" where
  "fcs_step crc b =
     (let feedback = (b XOR ucast (drop_bit 31 crc)) AND 1; crc = push_bit 1 crc
      in if feedback \<noteq> 0 then crc XOR FCS_POLY else crc)"

primrec fcs_loop :: "nat list \<Rightarrow> bitbuffer \<Rightarrow> u32 \<Rightarrow> (pdu_parse_err, u32) outcome" where
  "fcs_loop [] bitbuf crc = Ok crc"
| "fcs_loop (bit_pos # ps) bitbuf crc =
     (case peek_bits_startoffset bit_pos 1 bitbuf of
        Ok (Some v, _) \<Rightarrow> fcs_loop ps bitbuf (fcs_step crc (ucast v)) | Ok (None, _) \<Rightarrow> Panic | Err e \<Rightarrow> Err e | Panic \<Rightarrow> Panic)"

definition compute_fcs :: "bitbuffer \<Rightarrow> nat \<Rightarrow> nat \<Rightarrow> (pdu_parse_err, u32) outcome" where
  "compute_fcs bitbuf start stop =
     (if \<not> (start \<le> stop \<and> stop \<le> get_len bitbuf) then Panic
      else
        let len = stop - start;
            crc = (if 0 < len \<and> len < 32 then push_bit (32 - len) 0xFFFFFFFF else 0xFFFFFFFF)
        in case fcs_loop [start..<stop] bitbuf crc of Ok crc \<Rightarrow> Ok (NOT crc) | Err e \<Rightarrow> Err e | Panic \<Rightarrow> Panic)"

definition check_fcs :: "bitbuffer \<Rightarrow> (pdu_parse_err, bool) outcome" where
  "check_fcs bitbuf =
     (if get_len_remaining bitbuf < 32 then Ok False
      else case compute_fcs bitbuf (get_pos bitbuf) (get_len bitbuf - 32) of
        Ok fcs_computed \<Rightarrow>
          (case peek_bits_startoffset (get_len bitbuf - 32) 32 bitbuf of
             Ok (Some v, _) \<Rightarrow> Ok (fcs_computed = ucast v) | Ok (None, _) \<Rightarrow> Panic | Err e \<Rightarrow> Err e | Panic \<Rightarrow> Panic)
      | Err e \<Rightarrow> Err e
      | Panic \<Rightarrow> Panic)"

section \<open>The register over bit strings\<close>

definition fcs_shift :: "u32 \<Rightarrow> bool \<Rightarrow> u32" where
  "fcs_shift c b = push_bit 1 c XOR (if b \<noteq> bit c 31 then FCS_POLY else 0)"

definition fcs_run :: "u32 \<Rightarrow> bool list \<Rightarrow> u32" where
  "fcs_run = foldl fcs_shift"

lemma fcs_run_simps [simp]: "fcs_run c [] = c" "fcs_run c (b # bs) = fcs_run (fcs_shift c b) bs"
  "fcs_run c (xs @ ys) = fcs_run (fcs_run c xs) ys"
  by (simp_all add: fcs_run_def)

definition fcs_init :: "nat \<Rightarrow> u32" where
  "fcs_init n = (if 0 < n \<and> n < 32 then push_bit (32 - n) 0xFFFFFFFF else 0xFFFFFFFF)"

definition fcs_of :: "bool list \<Rightarrow> u32" where
  "fcs_of bs = NOT (fcs_run (fcs_init (length bs)) bs)"

lemma fcs_step_shift: "fcs_step c (of_bool b) = fcs_shift c b"
proof -
  have "drop_bit 31 c = of_bool (bit c 31)"
  proof (rule bit_word_eqI)
    fix i assume "i < LENGTH(32)"
    have "\<not> bit c (31 + i)" if "0 < i" using that bit_imp_le_length [of c "31 + i"] by auto
    then show "bit (drop_bit 31 c) i = bit (of_bool (bit c 31) :: u32) i" by (cases "i = 0") (simp_all add: bit_drop_bit_eq bit_1_iff)
  qed
  then show ?thesis by (cases b; cases "bit c 31") (simp_all add: fcs_step_def fcs_shift_def Let_def)
qed

lemma peek_one_bit:
  assumes "bb_inv b" and "p < length (window b)"
  shows "peek_bits_startoffset p 1 b = Ok (Some (of_bool (window b ! p)), b)"
proof -
  have "take 1 (drop p (window b)) = [window b ! p]" using assms(2) by (simp add: take_Suc_conv_app_nth One_nat_def Cons_nth_drop_Suc [symmetric])
  moreover have "of_bits [x] = (of_bool x :: u64)" for x
    using of_bits_snoc [of "[]" x] by simp
  ultimately show ?thesis using assms by (simp add: peek_bits_startoffset_spec)
qed

lemma fcs_loop_spec:
  "bb_inv b \<Longrightarrow> \<forall>p \<in> set ps. p < length (window b) \<Longrightarrow> fcs_loop ps b c = Ok (fcs_run c (map (\<lambda>p. window b ! p) ps))"
proof (induction ps arbitrary: c)
  case (Cons p ps)
  have "fcs_loop (p # ps) b c = fcs_loop ps b (fcs_step c (of_bool (window b ! p)))" using Cons.prems by (simp add: peek_one_bit)
  then show ?case unfolding fcs_step_shift using Cons by simp
qed simp

lemma compute_fcs_spec:
  assumes "bb_inv b" and "s \<le> e" and "e \<le> length (window b)"
  shows "compute_fcs b s e = Ok (fcs_of (take (e - s) (drop s (window b))))"
proof -
  have m: "map (\<lambda>p. window b ! p) [s..<e] = take (e - s) (drop s (window b))"
    using assms(2,3) by (intro nth_equalityI) auto
  have "fcs_loop [s..<e] b c = Ok (fcs_run c (take (e - s) (drop s (window b))))" for c
    using assms fcs_loop_spec [of b "[s..<e]"] by (auto simp: m)
  moreover have "length (take (e - s) (drop s (window b))) = e - s" using assms by simp
  ultimately show ?thesis using assms
    by (simp only: compute_fcs_def length_window [symmetric] fcs_of_def fcs_init_def Let_def outcome.case if_True if_False simp_thms)
qed

text \<open>The check on the unread bits: the last 32 of them are the sequence of the others.\<close>

definition fcs_ok :: "bool list \<Rightarrow> bool" where
  "fcs_ok bs \<longleftrightarrow> 32 \<le> length bs \<and> fcs_of (take (length bs - 32) bs) = of_bits (drop (length bs - 32) bs)"

lemma check_fcs_spec:
  assumes "bb_inv b"
  shows "check_fcs b = Ok (fcs_ok (unread b))"
proof (cases "32 \<le> length (unread b)")
  case False
  then show ?thesis using assms by (simp add: check_fcs_def fcs_ok_def length_unread)
next
  case True
  let ?w = "window b" and ?p = "get_pos b"
  have u: "unread b = drop ?p ?w" using assms by (simp add: unread_def window_def get_pos_def bb_inv_def)
  have len: "get_len b = length ?w" using assms by (simp add: length_window)
  have le: "?p \<le> length ?w - 32" "32 \<le> length ?w" "length (unread b) = length ?w - ?p" using True u by auto
  have e: "take (length ?w - 32 - ?p) (drop ?p ?w) = take (length (unread b) - 32) (unread b)"
    "take 32 (drop (length ?w - 32) ?w) = drop (length (unread b) - 32) (unread b)"
    unfolding u using le by (simp_all add: add.commute)
  have "(ucast (of_bits bs :: u64) :: u32) = of_bits bs" if "length bs = 32" for bs
    using that by (simp add: ucast_of_bits)
  moreover have "compute_fcs b ?p (length ?w - 32) = Ok (fcs_of (take (length (unread b) - 32) (unread b)))"
    using compute_fcs_spec [OF assms le(1), unfolded e(1)] by simp
  moreover have "peek_bits_startoffset (length ?w - 32) 32 b = Ok (Some (of_bits (drop (length (unread b) - 32) (unread b))), b)"
    using le(2) by (simp add: peek_bits_startoffset_spec [OF assms] e)
  ultimately show ?thesis using True
    by (simp add: check_fcs_def len fcs_ok_def length_unread [OF assms, symmetric])
qed

section \<open>Error detection\<close>

definition top_bits :: "bool list \<Rightarrow> u32" where
  "top_bits u = push_bit (32 - length u) (of_bits u)"

lemma bit_top:
  assumes "length u \<le> 32"
  shows "bit (top_bits u) i \<longleftrightarrow> i < 32 \<and> 31 - i < length u \<and> u ! (31 - i)"
proof -
  have "length u - 1 - (i - (32 - length u)) = 31 - i" if "32 - length u \<le> i" "i < 32" using that assms by auto
  with assms show ?thesis by (auto simp: top_bits_def bit_push_bit_iff bit_of_bits)
qed

lemma bit_fcs_shift:
  "i < 32 \<Longrightarrow> bit (fcs_shift c b) i \<longleftrightarrow> (0 < i \<and> bit c (i - 1)) \<noteq> (b \<noteq> bit c 31 \<and> bit FCS_POLY i)"
  by (auto simp: fcs_shift_def bit_xor_iff bit_push_bit_iff)

lemma poly_low: "bit FCS_POLY 0"
  by (simp add: FCS_POLY_def)

lemma shift_top:
  assumes "length u < 32"
  shows "fcs_shift c b = top_bits u \<longleftrightarrow> c = top_bits (b # u)"
proof
  assume l: "fcs_shift c b = top_bits u"
  have "bit (fcs_shift c b) 0 = bit (top_bits u) 0" using l by simp
  then have b: "b = bit c 31" using assms poly_low by (simp add: bit_fcs_shift bit_top)
  show "c = top_bits (b # u)"
  proof (rule bit_word_eqI)
    fix i assume "i < LENGTH(32)"
    then consider "i = 31" | "i < 31" by fastforce
    then show "bit c i = bit (top_bits (b # u)) i"
    proof cases
      case 1
      then show ?thesis using assms b by (simp add: bit_top)
    next
      case 2
      have "bit (fcs_shift c b) (Suc i) = bit (top_bits u) (Suc i)" using l by simp
      then have "bit c i = bit (top_bits u) (Suc i)" using 2 b by (simp add: bit_fcs_shift)
      moreover have "31 - i = Suc (31 - Suc i)" using 2 by simp
      ultimately show ?thesis using 2 assms by (simp add: bit_top)
    qed
  qed
next
  assume r: "c = top_bits (b # u)"
  then have b: "b = bit c 31" using assms by (simp add: bit_top)
  show "fcs_shift c b = top_bits u"
  proof (rule bit_word_eqI)
    fix i assume i: "i < LENGTH(32)"
    show "bit (fcs_shift c b) i = bit (top_bits u) i"
    proof (cases i)
      case 0
      then show ?thesis using assms b by (simp add: bit_fcs_shift bit_top)
    next
      case (Suc j)
      moreover have "31 - j = Suc (31 - Suc j)" using Suc i by simp
      ultimately show ?thesis using assms b i r by (simp add: bit_fcs_shift bit_top)
    qed
  qed
qed

text \<open>Up to 32 bits clear the register only when they are its topmost bits and the rest of it is clear.\<close>

lemma fcs_run_zero: "length u \<le> 32 \<Longrightarrow> fcs_run c u = 0 \<longleftrightarrow> c = top_bits u"
proof (induction u arbitrary: c)
  case Nil
  have "top_bits [] = 0" by (rule bit_word_eqI) (simp add: bit_top)
  then show ?case by simp
next
  case (Cons b u)
  then show ?case using shift_top [of u c b] by simp
qed

lemma fcs_run_False: "fcs_run c (replicate n False) = 0 \<longleftrightarrow> c = 0"
proof (induction n arbitrary: c)
  case (Suc n)
  have "top_bits [] = 0" "top_bits [False] = 0" by (rule bit_word_eqI, simp add: bit_top)+
  then have "fcs_shift c False = 0 \<longleftrightarrow> c = 0" using shift_top [of "[]" c False] by simp
  then show ?case using Suc by simp
qed simp

definition xor_list :: "bool list \<Rightarrow> bool list \<Rightarrow> bool list" where
  "xor_list xs ys = map2 (\<noteq>) xs ys"

lemma fcs_shift_xor: "fcs_shift (c XOR d) (b \<noteq> e) = fcs_shift c b XOR fcs_shift d e"
  by (rule bit_word_eqI) (auto simp: bit_fcs_shift bit_xor_iff)

lemma fcs_run_xor: "length xs = length ys \<Longrightarrow> fcs_run (c XOR d) (xor_list xs ys) = fcs_run c xs XOR fcs_run d ys"
proof (induction xs ys arbitrary: c d rule: list_induct2)
  case (Cons x xs y ys)
  have "fcs_run (c XOR d) (xor_list (x # xs) (y # ys)) = fcs_run (fcs_shift (c XOR d) (x \<noteq> y)) (xor_list xs ys)"
    by (simp add: xor_list_def)
  then show ?case unfolding fcs_shift_xor Cons.IH by simp
qed (simp add: xor_list_def)

lemma top_full: "length u = 32 \<Longrightarrow> top_bits u = of_bits u"
  by (simp add: top_bits_def)

lemma of_bits_xor_list: "length xs = length ys \<Longrightarrow> of_bits (xor_list xs ys) = (of_bits xs XOR of_bits ys :: u32)"
  by (rule bit_word_eqI) (auto simp: bit_of_bits bit_xor_iff xor_list_def)

text \<open>Two accepted strings of one length differ by a string that clears the empty register.\<close>

lemma fcs_ok_difference:
  assumes "fcs_ok xs" and "fcs_ok ys" and "length xs = length ys"
  shows "fcs_run 0 (xor_list xs ys) = 0"
proof -
  let ?n = "length xs - 32"
  let ?p = "take ?n xs" and ?q = "take ?n ys" and ?f = "drop ?n xs" and ?g = "drop ?n ys"
  have n: "32 \<le> length xs" "length ?f = 32" "length ?g = 32" using assms by (auto simp: fcs_ok_def)
  have split: "xor_list xs ys = xor_list ?p ?q @ xor_list ?f ?g"
    using assms(3) by (simp add: xor_list_def flip: map_append zip_append)
  have "fcs_run 0 (xor_list ?p ?q) = fcs_run (fcs_init ?n) ?p XOR fcs_run (fcs_init ?n) ?q"
    using fcs_run_xor [of ?p ?q "fcs_init ?n" "fcs_init ?n"] assms(3) by simp
  also have "\<dots> = NOT (of_bits ?f) XOR NOT (of_bits ?g)"
  proof -
    have "NOT (fcs_run (fcs_init ?n) ?p) = of_bits ?f" "NOT (fcs_run (fcs_init ?n) ?q) = of_bits ?g"
      using assms n(1) by (simp_all add: fcs_ok_def fcs_of_def)
    then show ?thesis by (metis bit.double_compl)
  qed
  also have "\<dots> = of_bits (xor_list ?f ?g)"
    using n by (simp add: of_bits_xor_list)
  finally have "fcs_run 0 (xor_list ?p ?q) = top_bits (xor_list ?f ?g)"
    using n by (simp add: top_full xor_list_def)
  moreover have "length (xor_list ?f ?g) \<le> 32" using n by (simp add: xor_list_def)
  ultimately show ?thesis unfolding split fcs_run_simps using fcs_run_zero by blast
qed

text \<open>No error burst of up to 32 bits passes.\<close>

lemma burst_detected:
  assumes "fcs_ok xs" and "length ys = length xs" and "xor_list xs ys = replicate i False @ u @ replicate j False"
    and "length u \<le> 32" and "xs \<noteq> ys"
  shows "\<not> fcs_ok ys"
proof
  assume "fcs_ok ys"
  with fcs_ok_difference [OF assms(1) this] assms(2,3) have "fcs_run (fcs_run 0 (replicate i False)) u = 0"
    using fcs_run_False by simp
  then have "top_bits u = 0" using fcs_run_zero [OF assms(4)] fcs_run_False [of 0 i] by simp
  have "u = replicate (length u) False"
  proof (rule nth_equalityI)
    fix k assume k: "k < length u"
    have "\<not> bit (top_bits u) (31 - k)" using \<open>top_bits u = 0\<close> by simp
    then show "u ! k = replicate (length u) False ! k" using k assms(4) by (simp add: bit_top)
  qed simp
  then have "xor_list xs ys = replicate i False @ replicate (length u) False @ replicate j False" using assms(3) by metis
  then have "set (xor_list xs ys) \<subseteq> {False}" by auto
  then have "\<forall>k < length xs. xs ! k = ys ! k" using assms(2) by (fastforce simp: xor_list_def set_conv_nth)
  then have "xs = ys" using assms(2) by (simp add: list_eq_iff_nth_eq)
  with assms(5) show False by simp
qed

end
