(* ===== verification/Llc_Entity.thy ===== *)
theory Llc_Entity
  imports Sap_Msgs Llc_Fcs BitBuffer_Bulk
begin

text \<open>
  \<open>tetra-entities/src/llc/llc_bs_ms.rs\<close>: the logical link control. A message that is to be acknowledged waits in
  \<open>ll_outbound_messages\<close> until no earlier message to its SSI is under way, and then until its acknowledgement arrives or the last
  retransmission has expired. The router's message queue, which the methods take as an argument, and the store of the shared reporters are
  fields of the state.
\<close>

declare One_nat_def [simp del]

section \<open>State\<close>

definition N252_BL_MAX_TLSDU_RETRANSMITS_ACKED :: u8 where
  "N252_BL_MAX_TLSDU_RETRANSMITS_ACKED = 3"

definition T251_SENDER_RETRY_TIMER :: int where
  "T251_SENDER_RETRY_TIMER = 4 * 4"

record ExpectedInAck =
  ea_carrier_num :: u16
  ea_ts :: u8
  ea_addr :: TetraAddress
  ea_ns :: u8
  ea_bl_type :: Layer2Service
  ea_t_first :: TdmaTime
  ea_t_submitted_to_umac :: "TdmaTime option"
  ea_t_umac_done :: "TdmaTime option"
  ea_tx_reporter :: tx_ref
  ea_retransmission_buf :: SapMsg
  ea_retransmit_count :: u8

record ScheduledOutAck =
  oa_addr :: TetraAddress
  oa_t_start :: TdmaTime
  oa_nr :: u8
  oa_carrier_num :: u16
  oa_ts :: u8

record Llc =
  ll_main_carrier :: u16
  ll_dltime :: TdmaTime
  ll_scheduled_out_acks :: "ScheduledOutAck list"
  ll_outbound_messages :: "ExpectedInAck list"
  ll_outbound_udata_messages :: "SapMsg list"
  ll_link_send_seq :: "u32 \<rightharpoonup> u8"
  ll_queue :: "SapMsg list"
  ll_reporters :: "TxReporter list"

type_synonym 'a llc = "(Llc, pdu_parse_err, 'a) prog"

definition Llc_new :: "u16 \<Rightarrow> Llc" where
  "Llc_new main_carrier =
     \<lparr>ll_main_carrier = main_carrier, ll_dltime = TdmaTime_default, ll_scheduled_out_acks = [], ll_outbound_messages = [],
      ll_outbound_udata_messages = [], ll_link_send_seq = Map.empty, ll_queue = [], ll_reporters = []\<rparr>"

text \<open>Access to a shared reporter, and a new one.\<close>

definition reporter :: "tx_ref \<Rightarrow> TxReporter llc" where
  "reporter r s = (if r < length (ll_reporters s) then Ok (ll_reporters s ! r, s) else Panic)"

definition on_reporter :: "tx_ref \<Rightarrow> (TxReporter, pdu_parse_err, unit) prog \<Rightarrow> unit llc" where
  "on_reporter r m =
     bind (reporter r) (\<lambda>t. bind (calc (m t)) (\<lambda>(_, t). upd (\<lambda>s. s\<lparr>ll_reporters := (ll_reporters s)[r := t]\<rparr>)))"

definition new_reporter :: "tx_ref llc" where
  "new_reporter s = Ok (length (ll_reporters s), s\<lparr>ll_reporters := ll_reporters s @ [TxReporter_new (length (ll_reporters s))]\<rparr>)"

definition push_back :: "SapMsg \<Rightarrow> unit llc" where
  "push_back m = upd (\<lambda>s. s\<lparr>ll_queue := ll_queue s @ [m]\<rparr>)"

definition push_udata :: "SapMsg \<Rightarrow> unit llc" where
  "push_udata m = upd (\<lambda>s. s\<lparr>ll_outbound_udata_messages := ll_outbound_udata_messages s @ [m]\<rparr>)"

text \<open>The first element with a property, and the list without it.\<close>

fun take_first :: "('a \<Rightarrow> bool) \<Rightarrow> 'a list \<Rightarrow> ('a \<times> 'a list) option" where
  "take_first P [] = None"
| "take_first P (x # xs) = (if P x then Some (x, xs) else map_option (\<lambda>(y, ys). (y, x # ys)) (take_first P xs))"

section \<open>Acknowledgements and sequence numbers\<close>

definition schedule_outgoing_ack :: "TdmaTime \<Rightarrow> TetraAddress \<Rightarrow> u16 \<Rightarrow> u8 \<Rightarrow> u8 \<Rightarrow> unit llc" where
  "schedule_outgoing_ack dltime addr carrier_num ts ns =
     upd (\<lambda>s. s\<lparr>ll_scheduled_out_acks := ll_scheduled_out_acks s @
       [\<lparr>oa_addr = addr, oa_t_start = dltime, oa_nr = ns, oa_carrier_num = carrier_num, oa_ts = ts\<rparr>]\<rparr>)"

definition get_out_ack_seq_if_any :: "TetraAddress \<Rightarrow> u16 \<Rightarrow> u8 option llc" where
  "get_out_ack_seq_if_any addr carrier_num s =
     (case take_first (\<lambda>a. ta_ssi (oa_addr a) = ta_ssi addr \<and> oa_carrier_num a = carrier_num) (ll_scheduled_out_acks s) of
        Some (a, rest) \<Rightarrow> Ok (Some (oa_nr a), s\<lparr>ll_scheduled_out_acks := rest\<rparr>)
      | None \<Rightarrow> Ok (None, s))"

definition get_next_send_seq :: "TetraAddress \<Rightarrow> u8 llc" where
  "get_next_send_seq addr s =
     (let ns = (case ll_link_send_seq s (ta_ssi addr) of Some v \<Rightarrow> v | None \<Rightarrow> 0)
      in Ok (ns, s\<lparr>ll_link_send_seq := (ll_link_send_seq s)(ta_ssi addr \<mapsto> ns XOR 1)\<rparr>))"

definition awaits_ack :: "u32 \<Rightarrow> u16 \<Rightarrow> ExpectedInAck \<Rightarrow> bool" where
  "awaits_ack ssi carrier_num m \<longleftrightarrow>
     ta_ssi (ea_addr m) = ssi \<and> ea_carrier_num m = carrier_num \<and> ea_t_submitted_to_umac m \<noteq> None"

definition take_expected_ack_for_ssi :: "u32 \<Rightarrow> u16 \<Rightarrow> ExpectedInAck option llc" where
  "take_expected_ack_for_ssi ssi carrier_num s =
     (case take_first (awaits_ack ssi carrier_num) (ll_outbound_messages s) of
        Some (m, rest) \<Rightarrow> Ok (Some m, s\<lparr>ll_outbound_messages := rest\<rparr>)
      | None \<Rightarrow> Ok (None, s))"

definition process_incoming_ack :: "TetraAddress \<Rightarrow> u16 \<Rightarrow> u8 \<Rightarrow> unit llc" where
  "process_incoming_ack addr carrier_num nr =
     bind (take_expected_ack_for_ssi (ta_ssi addr) carrier_num) (\<lambda>expected_ack.
     case expected_ack of
       None \<Rightarrow> ret ()
     | Some m \<Rightarrow>
         if ea_t_umac_done m = None then upd (\<lambda>s. s\<lparr>ll_outbound_messages := m # ll_outbound_messages s\<rparr>)
         else if ea_ns m = nr then on_reporter (ea_tx_reporter m) mark_acknowledged
         else upd (\<lambda>s. s\<lparr>ll_outbound_messages := m # ll_outbound_messages s\<rparr>))"

section \<open>Requests from the MLE\<close>

text \<open>A PDU: the header, the unread bits of the SDU behind it, and the cursor back at the start.\<close>

definition make_pdu :: "unit bb \<Rightarrow> bitbuffer \<Rightarrow> (pdu_parse_err, bitbuffer) outcome" where
  "make_pdu header sdu =
     (case header (new_autoexpand 32) of
        Ok (_, pdu_buf) \<Rightarrow>
          (case copy_bits (get_len_remaining sdu) (pdu_buf, sdu) of
             Ok (_, (pdu_buf, _)) \<Rightarrow> (case seek 0 pdu_buf of Ok (_, b) \<Rightarrow> Ok b | Err e \<Rightarrow> Err e | Panic \<Rightarrow> Panic)
           | Err e \<Rightarrow> Err e
           | Panic \<Rightarrow> Panic)
      | Err e \<Rightarrow> Err e
      | Panic \<Rightarrow> Panic)"

definition to_umac :: "TmaUnitdataReq \<Rightarrow> SapMsg" where
  "to_umac req = \<lparr>sm_sap = TmaSap, sm_src = Entity_Llc, sm_dest = Entity_Umac, sm_msg = Msg_TmaUnitdataReq req\<rparr>"

definition preferred_carrier :: "CmceChanAllocReq option \<Rightarrow> Llc \<Rightarrow> u16" where
  "preferred_carrier chan_alloc s =
     (case chan_alloc of
        Some ca \<Rightarrow> (case ca_carrier ca of Some c \<Rightarrow> c | None \<Rightarrow> ll_main_carrier s)
      | None \<Rightarrow> ll_main_carrier s)"

definition rx_tla_tlunitdata_req_bl :: "TlaTlUnitdataReqBl \<Rightarrow> unit llc" where
  "rx_tla_tlunitdata_req_bl prim =
     bind (calc (make_pdu (BlUdata_to_bitbuf \<lparr>BlUdata_has_fcs = False\<rparr>) (uq_tl_sdu prim))) (\<lambda>pdu_buf.
     bind (gets (preferred_carrier (uq_chan_alloc prim))) (\<lambda>carrier.
     push_udata (to_umac
       \<lparr>tq_carrier_num = Some carrier, tq_req_handle = uq_req_handle prim, tq_pdu = pdu_buf, tq_main_address = uq_main_address prim,
        tq_link_id = uq_link_id prim, tq_endpoint_id = uq_endpoint_id prim, tq_stealing_permission = uq_stealing_permission prim,
        tq_subscriber_class = uq_subscriber_class prim, tq_air_interface_encryption = uq_air_interface_encryption prim,
        tq_stealing_repeats_flag = None, tq_data_category = uq_data_class_info prim, tq_chan_alloc = uq_chan_alloc prim,
        tq_tx_reporter = uq_tx_reporter prim\<rparr>)))"

text \<open>The request that \<open>rx_tla_tldata_req_bl\<close> builds in each of its three branches.\<close>

definition data_req :: "TlaTlDataReqBl \<Rightarrow> u16 \<Rightarrow> bitbuffer \<Rightarrow> u32 \<Rightarrow> tx_ref option \<Rightarrow> TmaUnitdataReq" where
  "data_req prim carrier pdu_buf link_id tx_reporter =
     \<lparr>tq_carrier_num = Some carrier, tq_req_handle = dq_req_handle prim, tq_pdu = pdu_buf, tq_main_address = dq_main_address prim,
      tq_link_id = link_id, tq_endpoint_id = dq_endpoint_id prim, tq_stealing_permission = dq_stealing_permission prim,
      tq_subscriber_class = dq_subscriber_class prim, tq_air_interface_encryption = dq_air_interface_encryption prim,
      tq_stealing_repeats_flag = dq_stealing_repeats_flag prim, tq_data_category = dq_data_class_info prim,
      tq_chan_alloc = dq_chan_alloc prim, tq_tx_reporter = tx_reporter\<rparr>"

fun first_set :: "nat \<Rightarrow> bool list \<Rightarrow> nat option" where
  "first_set i [] = None"
| "first_set i (b # bs) = (if b then Some i else first_set (Suc i) bs)"

definition derived_ts :: "CmceChanAllocReq option \<Rightarrow> u8" where
  "derived_ts chan_alloc =
     (case chan_alloc of
        Some ca \<Rightarrow> (case first_set 0 (ca_timeslots ca) of Some i \<Rightarrow> of_nat (i + 1) | None \<Rightarrow> 1)
      | None \<Rightarrow> 1)"

definition rx_tla_tldata_req_bl :: "TlaTlDataReqBl \<Rightarrow> unit llc" where
  "rx_tla_tldata_req_bl prim =
     bind (gets (preferred_carrier (dq_chan_alloc prim))) (\<lambda>carrier.
     bind (if dq_stealing_permission prim then get_out_ack_seq_if_any (dq_main_address prim) carrier else ret None) (\<lambda>piggyback.
     case piggyback of
       Some out_ack_n \<Rightarrow>
         bind (calc (make_pdu (BlAck_to_bitbuf \<lparr>BlAck_has_fcs = dq_fcs_flag prim, BlAck_nr = out_ack_n\<rparr>) (dq_tl_sdu prim))) (\<lambda>pdu_buf.
         push_udata (to_umac (data_req prim carrier pdu_buf (dq_link_id prim) (dq_tx_reporter prim))))
     | None \<Rightarrow>
         if dq_stealing_permission prim \<or> ta_ssi_type (dq_main_address prim) = SsiType_Gssi then
           bind (calc (make_pdu (BlUdata_to_bitbuf \<lparr>BlUdata_has_fcs = False\<rparr>) (dq_tl_sdu prim))) (\<lambda>pdu_buf.
           push_udata (to_umac (data_req prim carrier pdu_buf 0 (dq_tx_reporter prim))))
         else
           bind (get_out_ack_seq_if_any (dq_main_address prim) carrier) (\<lambda>out_ack_n.
           bind (get_next_send_seq (dq_main_address prim)) (\<lambda>ns.
           bind (calc (make_pdu
             (case out_ack_n of
                Some nr \<Rightarrow> BlAdata_to_bitbuf \<lparr>BlAdata_has_fcs = dq_fcs_flag prim, BlAdata_nr = nr, BlAdata_ns = ns\<rparr>
              | None \<Rightarrow> BlData_to_bitbuf \<lparr>BlData_has_fcs = dq_fcs_flag prim, BlData_ns = ns\<rparr>) (dq_tl_sdu prim))) (\<lambda>pdu_buf.
           bind (case dq_tx_reporter prim of Some r \<Rightarrow> ret r | None \<Rightarrow> new_reporter) (\<lambda>tx_reporter.
           upd (\<lambda>s. s\<lparr>ll_outbound_messages := ll_outbound_messages s @
             [\<lparr>ea_carrier_num = carrier, ea_ts = derived_ts (dq_chan_alloc prim), ea_addr = dq_main_address prim, ea_ns = ns,
               ea_bl_type = Layer2Acknowledged, ea_t_first = ll_dltime s, ea_t_submitted_to_umac = None, ea_t_umac_done = None,
               ea_tx_reporter = tx_reporter,
               ea_retransmission_buf = to_umac (data_req prim carrier pdu_buf 0 (Some tx_reporter)),
               ea_retransmit_count = 0\<rparr>]\<rparr>)))))))"

definition rx_tla_prim :: "SapMsg \<Rightarrow> unit llc" where
  "rx_tla_prim message =
     (case sm_msg message of
        Msg_TlaTlDataReqBl prim \<Rightarrow> rx_tla_tldata_req_bl prim
      | Msg_TlaTlUnitdataReqBl prim \<Rightarrow> rx_tla_tlunitdata_req_bl prim
      | _ \<Rightarrow> ret ())"

section \<open>Indications from the upper MAC\<close>

text \<open>The header of a basic-link PDU: the FCS flag, N(S) and N(R).\<close>

definition bl_header :: "LlcPduType \<Rightarrow> (bool \<times> u8 option \<times> u8 option) option bb" where
  "bl_header pdu_type =
     (case pdu_type of
        LlcPduType_BlAdata \<Rightarrow> bind BlAdata_from_bitbuf (\<lambda>p. ret (Some (BlAdata_has_fcs p, Some (BlAdata_ns p), Some (BlAdata_nr p))))
      | LlcPduType_BlAdataFcs \<Rightarrow> bind BlAdata_from_bitbuf (\<lambda>p. ret (Some (BlAdata_has_fcs p, Some (BlAdata_ns p), Some (BlAdata_nr p))))
      | LlcPduType_BlData \<Rightarrow> bind BlData_from_bitbuf (\<lambda>p. ret (Some (BlData_has_fcs p, Some (BlData_ns p), None)))
      | LlcPduType_BlDataFcs \<Rightarrow> bind BlData_from_bitbuf (\<lambda>p. ret (Some (BlData_has_fcs p, Some (BlData_ns p), None)))
      | LlcPduType_BlAck \<Rightarrow> bind BlAck_from_bitbuf (\<lambda>p. ret (Some (BlAck_has_fcs p, None, Some (BlAck_nr p))))
      | LlcPduType_BlAckFcs \<Rightarrow> bind BlAck_from_bitbuf (\<lambda>p. ret (Some (BlAck_has_fcs p, None, Some (BlAck_nr p))))
      | LlcPduType_BlUdata \<Rightarrow> bind BlUdata_from_bitbuf (\<lambda>p. ret (Some (BlUdata_has_fcs p, None, None)))
      | LlcPduType_BlUdataFcs \<Rightarrow> bind BlUdata_from_bitbuf (\<lambda>p. ret (Some (BlUdata_has_fcs p, None, None)))
      | _ \<Rightarrow> ret None)"

definition to_mle :: "SapMsgInner \<Rightarrow> SapMsg" where
  "to_mle m = \<lparr>sm_sap = TlaSap, sm_src = Entity_Llc, sm_dest = Entity_Mle, sm_msg = m\<rparr>"

definition data_ind :: "TmaUnitdataInd \<Rightarrow> u32 \<Rightarrow> bitbuffer option \<Rightarrow> bool \<Rightarrow> TlaTlDataIndBl" where
  "data_ind prim link_id tl_sdu has_fcs =
     \<lparr>di_main_address = ti_main_address prim, di_link_id = link_id, di_endpoint_id = ti_endpoint_id prim,
      di_new_endpoint_id = ti_new_endpoint_id prim, di_css_endpoint_id = ti_css_endpoint_id prim, di_tl_sdu = tl_sdu,
      di_scrambling_code = ti_scrambling_code prim, di_fcs_flag = has_fcs,
      di_air_interface_encryption = ti_air_interface_encryption prim, di_chan_change_resp_req = ti_chan_change_response_req prim,
      di_chan_change_handle = ti_chan_change_handle prim, di_chan_info = ti_chan_info prim, di_req_handle = 0\<rparr>"

definition unitdata_ind :: "TmaUnitdataInd \<Rightarrow> bitbuffer option \<Rightarrow> bool \<Rightarrow> TlaTlUnitdataIndBl" where
  "unitdata_ind prim tl_sdu has_fcs =
     \<lparr>ui_main_address = ti_main_address prim, ui_link_id = 0, ui_endpoint_id = ti_endpoint_id prim,
      ui_new_endpoint_id = ti_new_endpoint_id prim, ui_css_endpoint_id = ti_css_endpoint_id prim, ui_tl_sdu = tl_sdu,
      ui_scrambling_code = ti_scrambling_code prim, ui_fcs_flag = has_fcs,
      ui_air_interface_encryption = ti_air_interface_encryption prim, ui_chan_change_resp_req = ti_chan_change_response_req prim,
      ui_chan_change_handle = ti_chan_change_handle prim, ui_chan_info = ti_chan_info prim, ui_report = None\<rparr>"

text \<open>The SDU is what follows the header; the message to the MLE depends on the PDU type.\<close>

definition deliver :: "TmaUnitdataInd \<Rightarrow> LlcPduType \<Rightarrow> bool \<Rightarrow> bitbuffer \<Rightarrow> unit llc" where
  "deliver prim pdu_type has_fcs pdu =
     (if pdu_type = LlcPduType_BlAck \<or> pdu_type = LlcPduType_BlAckFcs then
        if get_len_remaining pdu = 0 then ret ()
        else
          bind (calc (set_raw_start (bb_pos pdu) pdu)) (\<lambda>(_, pdu).
          push_back (to_mle (Msg_TlaTlDataIndBl (data_ind prim 0 (Some pdu) has_fcs))))
      else
        bind (calc (set_raw_start (bb_pos pdu) pdu)) (\<lambda>(_, pdu).
        let tl_sdu = (if 0 < get_len_remaining pdu then Some pdu else None)
        in if pdu_type = LlcPduType_BlUdata \<or> pdu_type = LlcPduType_BlUdataFcs
           then push_back (to_mle (Msg_TlaTlUnitdataIndBl (unitdata_ind prim tl_sdu has_fcs)))
           else push_back (to_mle (Msg_TlaTlDataIndBl (data_ind prim (ti_link_id prim) tl_sdu has_fcs)))))"

definition rx_tma_unitdata_ind_bl :: "TmaUnitdataInd \<Rightarrow> unit llc" where
  "rx_tma_unitdata_ind_bl prim =
     (case ti_pdu prim of
        None \<Rightarrow> ret ()
      | Some pdu \<Rightarrow>
          bind (calc (peek_bits 4 pdu)) (\<lambda>(bits, _).
          case bits of
            None \<Rightarrow> ret ()
          | Some bits \<Rightarrow>
              (case LlcPduType_try_from bits of
                 None \<Rightarrow> ret ()
               | Some pdu_type \<Rightarrow>
                   (case bl_header pdu_type pdu of
                      Err _ \<Rightarrow> ret ()
                    | Panic \<Rightarrow> panic
                    | Ok (None, _) \<Rightarrow> ret ()
                    | Ok (Some (has_fcs, ns, nr), pdu) \<Rightarrow>
                        bind (if has_fcs then calc (check_fcs pdu) else ret True) (\<lambda>fcs_ok.
                        if \<not> fcs_ok then ret ()
                        else
                          bind (gets (\<lambda>s. TdmaTime_add_timeslots (ll_dltime s) (- 2))) (\<lambda>msg_dltime.
                          bind (case ns of
                                  Some ns \<Rightarrow>
                                    schedule_outgoing_ack msg_dltime (ti_main_address prim) (ti_carrier_num prim) (tm_t msg_dltime) ns
                                | None \<Rightarrow> ret ()) (\<lambda>_.
                          bind (case nr of
                                  Some nr \<Rightarrow> process_incoming_ack (ti_main_address prim) (ti_carrier_num prim) nr
                                | None \<Rightarrow> ret ()) (\<lambda>_.
                          deliver prim pdu_type has_fcs pdu))))))))"

definition is_basic_link :: "LlcPduType \<Rightarrow> bool" where
  "is_basic_link t \<longleftrightarrow> t \<in> {LlcPduType_BlAdata, LlcPduType_BlAdataFcs, LlcPduType_BlData, LlcPduType_BlDataFcs,
     LlcPduType_BlUdata, LlcPduType_BlUdataFcs, LlcPduType_BlAck, LlcPduType_BlAckFcs}"

definition rx_tma_unitdata_ind :: "TmaUnitdataInd \<Rightarrow> unit llc" where
  "rx_tma_unitdata_ind prim =
     (case ti_pdu prim of
        None \<Rightarrow> ret ()
      | Some pdu \<Rightarrow>
          bind (calc (peek_bits 4 pdu)) (\<lambda>(bits, _).
          case bits of
            None \<Rightarrow> ret ()
          | Some bits \<Rightarrow>
              (case LlcPduType_try_from bits of
                 None \<Rightarrow> ret ()
               | Some pdu_type \<Rightarrow> if is_basic_link pdu_type then rx_tma_unitdata_ind_bl prim else ret ())))"

definition rx_tma_prim :: "SapMsg \<Rightarrow> unit llc" where
  "rx_tma_prim message =
     (case sm_msg message of
        Msg_TmaUnitdataInd prim \<Rightarrow> rx_tma_unitdata_ind prim
      | _ \<Rightarrow> ret ())"

definition Llc_rx_prim :: "SapMsg \<Rightarrow> unit llc" where
  "Llc_rx_prim message =
     (case sm_sap message of
        TmaSap \<Rightarrow> rx_tma_prim message
      | TlaSap \<Rightarrow> rx_tla_prim message
      | _ \<Rightarrow> ret ())"

section \<open>The end of a tick\<close>

definition submit_for_acknowledged_transmission :: "ExpectedInAck \<Rightarrow> TdmaTime \<Rightarrow> ExpectedInAck llc" where
  "submit_for_acknowledged_transmission ack dltime =
     bind (on_reporter (ea_tx_reporter ack) reset) (\<lambda>_.
     bind (push_back (ea_retransmission_buf ack)) (\<lambda>_.
     ret (ack\<lparr>ea_t_submitted_to_umac := Some dltime, ea_t_umac_done := None\<rparr>)))"

text \<open>One turn of the first loop: the element, whether it was sent again, and whether it is to be removed.\<close>

definition retry_elem :: "ExpectedInAck \<Rightarrow> (ExpectedInAck \<times> bool \<times> bool) llc" where
  "retry_elem ack =
     bind (reporter (ea_tx_reporter ack)) (\<lambda>r.
     bind (gets ll_dltime) (\<lambda>dltime.
     let ack = (if ea_t_umac_done ack = None \<and> (is_transmitted r \<or> is_discarded r) then ack\<lparr>ea_t_umac_done := Some dltime\<rparr> else ack)
     in case ea_t_umac_done ack of
          None \<Rightarrow> ret (ack, False, False)
        | Some t_umac_done \<Rightarrow>
            if T251_SENDER_RETRY_TIMER \<le> TdmaTime_diff dltime t_umac_done mod 2 ^ 32 then
              if ea_retransmit_count ack < N252_BL_MAX_TLSDU_RETRANSMITS_ACKED then
                bind (submit_for_acknowledged_transmission (ack\<lparr>ea_retransmit_count := ea_retransmit_count ack + 1\<rparr>)
                  (TdmaTime_forward_to_timeslot dltime (tm_t (ea_t_first ack)))) (\<lambda>ack.
                ret (ack, True, False))
              else ret (ack, False, True)
            else ret (ack, False, False)))"

fun retry_loop :: "ExpectedInAck list \<Rightarrow> (ExpectedInAck list \<times> bool \<times> (u32 \<times> u16) list) llc" where
  "retry_loop [] = ret ([], False, [])"
| "retry_loop (ack # acks) =
     bind (retry_elem ack) (\<lambda>(ack, sent, expired).
     bind (retry_loop acks) (\<lambda>(acks, had_activity, removals).
     ret (ack # acks, sent \<or> had_activity,
       if expired then (ta_ssi (ea_addr ack), ea_carrier_num ack) # removals else removals)))"

fun remove_expired :: "(u32 \<times> u16) list \<Rightarrow> unit llc" where
  "remove_expired [] = ret ()"
| "remove_expired ((ssi, carrier_num) # removals) =
     bind (take_expected_ack_for_ssi ssi carrier_num) (\<lambda>ack.
     case ack of
       None \<Rightarrow> remove_expired removals
     | Some ack \<Rightarrow>
         bind (reporter (ea_tx_reporter ack)) (\<lambda>r.
         bind (if get_state r = Transmitted then on_reporter (ea_tx_reporter ack) mark_lost else ret ()) (\<lambda>_.
         remove_expired removals)))"

definition submit_retransmissions_to_umac :: "bool llc" where
  "submit_retransmissions_to_umac =
     bind (gets ll_outbound_messages) (\<lambda>acks.
     bind (retry_loop acks) (\<lambda>(acks, had_activity, removals).
     bind (upd (\<lambda>s. s\<lparr>ll_outbound_messages := acks\<rparr>)) (\<lambda>_.
     bind (remove_expired removals) (\<lambda>_.
     ret had_activity))))"

fun free_loop :: "u32 set \<Rightarrow> ExpectedInAck list \<Rightarrow> (ExpectedInAck list \<times> bool) llc" where
  "free_loop ssi_blocked [] = ret ([], False)"
| "free_loop ssi_blocked (ack # acks) =
     (let ssi = ta_ssi (ea_addr ack)
      in if ea_t_submitted_to_umac ack \<noteq> None then
           bind (free_loop (insert ssi ssi_blocked) acks) (\<lambda>(acks, had_activity). ret (ack # acks, had_activity))
         else if ssi \<in> ssi_blocked then
           bind (free_loop ssi_blocked acks) (\<lambda>(acks, had_activity). ret (ack # acks, had_activity))
         else
           bind (gets (\<lambda>s. TdmaTime_forward_to_timeslot (ll_dltime s) (tm_t (ea_t_first ack)))) (\<lambda>dltime.
           bind (submit_for_acknowledged_transmission ack dltime) (\<lambda>ack.
           bind (free_loop (insert ssi ssi_blocked) acks) (\<lambda>(acks, _). ret (ack # acks, True)))))"

definition submit_free_messages_to_umac :: "bool llc" where
  "submit_free_messages_to_umac =
     bind (gets ll_outbound_messages) (\<lambda>acks.
     bind (free_loop {} acks) (\<lambda>(acks, had_activity).
     bind (upd (\<lambda>s. s\<lparr>ll_outbound_messages := acks\<rparr>)) (\<lambda>_.
     ret had_activity)))"

definition ack_reply :: "ScheduledOutAck \<Rightarrow> bitbuffer \<Rightarrow> TmaUnitdataReq" where
  "ack_reply ack pdu_buf =
     (let steal = oa_ts ack \<in> {2, 3, 4}
      in \<lparr>tq_carrier_num = Some (oa_carrier_num ack), tq_req_handle = 0, tq_pdu = pdu_buf, tq_main_address = oa_addr ack,
          tq_link_id = (if steal then ucast (oa_ts ack) else 0), tq_endpoint_id = 0, tq_stealing_permission = steal,
          tq_subscriber_class = 0, tq_air_interface_encryption = None, tq_stealing_repeats_flag = None, tq_data_category = None,
          tq_chan_alloc =
            (if steal then Some \<lparr>ca_usage = None, ca_carrier = Some (oa_carrier_num ack),
               ca_timeslots = [False, False, False, False][unat (oa_ts ack) - 1 := True],
               ca_alloc_type = ChanAllocType_Replace, ca_ul_dl_assigned = UlDlAssignment_Both\<rparr>
             else None),
          tq_tx_reporter = None\<rparr>)"

fun ack_loop :: "ScheduledOutAck list \<Rightarrow> unit llc" where
  "ack_loop [] = ret ()"
| "ack_loop (ack # acks) =
     bind (calc (case BlAck_to_bitbuf \<lparr>BlAck_has_fcs = False, BlAck_nr = oa_nr ack\<rparr> (new_autoexpand 5) of
        Ok (_, b) \<Rightarrow> seek 0 b | Err e \<Rightarrow> Err e | Panic \<Rightarrow> Panic)) (\<lambda>(_, pdu_buf).
     bind (push_back (to_umac (ack_reply ack pdu_buf))) (\<lambda>_.
     ack_loop acks))"

definition submit_ack_replies_to_umac :: "bool llc" where
  "submit_ack_replies_to_umac =
     bind (gets ll_scheduled_out_acks) (\<lambda>acks.
     bind (upd (\<lambda>s. s\<lparr>ll_scheduled_out_acks := []\<rparr>)) (\<lambda>_.
     bind (ack_loop acks) (\<lambda>_.
     ret (acks \<noteq> []))))"

definition submit_udata_msgs_to_umac :: "bool llc" where
  "submit_udata_msgs_to_umac =
     bind (gets ll_outbound_udata_messages) (\<lambda>msgs.
     bind (upd (\<lambda>s. s\<lparr>ll_outbound_udata_messages := [], ll_queue := ll_queue s @ msgs\<rparr>)) (\<lambda>_.
     ret (msgs \<noteq> [])))"

definition Llc_set_config :: "u16 \<Rightarrow> unit llc" where
  "Llc_set_config main_carrier = upd (\<lambda>s. s\<lparr>ll_main_carrier := main_carrier\<rparr>)"

definition Llc_tick_start :: "TdmaTime \<Rightarrow> unit llc" where
  "Llc_tick_start ts = upd (\<lambda>s. s\<lparr>ll_dltime := ts\<rparr>)"

definition Llc_tick_end :: "bool llc" where
  "Llc_tick_end =
     bind submit_retransmissions_to_umac (\<lambda>a.
     bind submit_free_messages_to_umac (\<lambda>b.
     bind submit_ack_replies_to_umac (\<lambda>c.
     bind submit_udata_msgs_to_umac (\<lambda>d.
     ret (a \<or> b \<or> c \<or> d)))))"

end
