(* ===== verification/Llc_Inv.thy ===== *)
theory Llc_Inv
  imports Llc_Entity
begin

text \<open>
  The invariant of the link layer: at most one message to an SSI is under way and it is the oldest one (\<open>stop_and_wait\<close>), the send
  sequence numbers of one link alternate (\<open>numbered\<close>), and the reporter of a message agrees with the times the link layer keeps
  (\<open>msg_ok\<close>). The loops of \<open>tick_end\<close> are described by what they do to the list of messages.
\<close>

declare One_nat_def [simp del]

section \<open>Programs\<close>

lemma calc_simps [simp]: "calc (Ok x) = ret x" "calc (Err e) = fail e" "calc Panic = panic"
  by (simp_all add: calc_def ret_def fail_def panic_def fun_eq_iff)

lemma take_first_Some:
  "take_first P xs = Some (y, ys) \<Longrightarrow> \<exists>as bs. xs = as @ y # bs \<and> ys = as @ bs \<and> P y \<and> (\<forall>a \<in> set as. \<not> P a)"
proof (induction xs arbitrary: ys)
  case (Cons x xs)
  show ?case
  proof (cases "P x")
    case True
    then show ?thesis using Cons.prems by (intro exI [of _ "[]"] exI [of _ xs]) auto
  next
    case False
    with Cons.prems obtain zs where "take_first P xs = Some (y, zs)" "ys = x # zs" by auto
    with Cons.IH obtain as bs where "xs = as @ y # bs" "zs = as @ bs" "P y" "\<forall>a \<in> set as. \<not> P a" by blast
    then show ?thesis using False \<open>ys = x # zs\<close> by (intro exI [of _ "x # as"] exI [of _ bs]) auto
  qed
qed simp

lemma take_first_found: "P y \<Longrightarrow> \<forall>a \<in> set as. \<not> P a \<Longrightarrow> take_first P (as @ y # bs) = Some (y, as @ bs)"
  by (induction as) auto

lemma take_first_None: "take_first P xs = None \<longleftrightarrow> (\<forall>x \<in> set xs. \<not> P x)"
  by (induction xs) auto

section \<open>The invariant\<close>

definition in_flight :: "ExpectedInAck \<Rightarrow> bool" where
  "in_flight m \<longleftrightarrow> ea_t_submitted_to_umac m \<noteq> None"

definition for_ssi :: "u32 \<Rightarrow> ExpectedInAck list \<Rightarrow> ExpectedInAck list" where
  "for_ssi a ms = filter (\<lambda>m. ta_ssi (ea_addr m) = a) ms"

lemma for_ssi_simps [simp]: "for_ssi a [] = []" "for_ssi a (ms @ ns) = for_ssi a ms @ for_ssi a ns"
  "for_ssi a (m # ms) = (if ta_ssi (ea_addr m) = a then m # for_ssi a ms else for_ssi a ms)"
  by (simp_all add: for_ssi_def)

definition stop_and_wait :: "ExpectedInAck list \<Rightarrow> bool" where
  "stop_and_wait ms \<longleftrightarrow> (\<forall>a. \<forall>m \<in> set (tl (for_ssi a ms)). \<not> in_flight m)"

text \<open>Each number is the other one than its successor's; the last one's successor is the next number to be sent.\<close>

fun alternates :: "u8 list \<Rightarrow> u8 \<Rightarrow> bool" where
  "alternates [] v = (v = 0 \<or> v = 1)"
| "alternates (n # ns) v = (alternates ns v \<and> n = (case ns of [] \<Rightarrow> v | m # _ \<Rightarrow> m) XOR 1)"

definition next_seq :: "Llc \<Rightarrow> u32 \<Rightarrow> u8" where
  "next_seq s a = (case ll_link_send_seq s a of Some v \<Rightarrow> v | None \<Rightarrow> 0)"

definition numbered :: "Llc \<Rightarrow> bool" where
  "numbered s \<longleftrightarrow> (\<forall>a. alternates (map ea_ns (for_ssi a (ll_outbound_messages s))) (next_seq s a))"

text \<open>A message against the state of its reporter.\<close>

definition msg_ok :: "TxReporter list \<Rightarrow> ExpectedInAck \<Rightarrow> bool" where
  "msg_ok rs m \<longleftrightarrow>
     ea_tx_reporter m < length rs \<and>
     (let r = rs ! ea_tx_reporter m
      in tx_valid r \<and> expects_ack r \<and> ea_retransmit_count m \<le> 3 \<and>
         (if \<not> in_flight m then ea_t_umac_done m = None \<and> get_state r = Pending
          else if ea_t_umac_done m = None then get_state r \<in> {Pending, Transmitted, Discarded}
          else get_state r \<in> {Transmitted, Discarded})) \<and>
     TdmaTime_is_valid (ea_t_first m)"

definition refs :: "ExpectedInAck list \<Rightarrow> tx_ref list" where
  "refs ms = map ea_tx_reporter ms"

definition llc_inv :: "Llc \<Rightarrow> bool" where
  "llc_inv s \<longleftrightarrow>
     stop_and_wait (ll_outbound_messages s) \<and> numbered s \<and> distinct (refs (ll_outbound_messages s)) \<and>
     (\<forall>m \<in> set (ll_outbound_messages s). msg_ok (ll_reporters s) m) \<and>
     (\<forall>a \<in> set (ll_scheduled_out_acks s). fits 1 (oa_nr a)) \<and> TdmaTime_is_valid (ll_dltime s)"

lemma alternates_snoc: "alternates ns v \<Longrightarrow> alternates (ns @ [v]) (v XOR 1)"
proof (induction ns)
  case (Cons n ns)
  then show ?case by (cases ns) auto
qed auto

lemma alternates_bits: "alternates ns v \<Longrightarrow> (v = 0 \<or> v = 1) \<and> (\<forall>n \<in> set ns. n = 0 \<or> n = 1)"
proof (induction ns)
  case (Cons n ns)
  then show ?case by (cases ns) auto
qed auto

lemma stop_and_wait_filter: "stop_and_wait ms \<Longrightarrow> stop_and_wait (filter P ms)"
proof -
  have "set (tl ys) \<subseteq> set ys" for ys :: "ExpectedInAck list" by (cases ys) auto
  then have "set (tl (filter P xs)) \<subseteq> set (tl xs)" for xs :: "ExpectedInAck list"
  proof (cases xs)
    case (Cons x l)
    have "set (tl (filter P l)) \<subseteq> set (filter P l)" by fact
    with Cons show ?thesis by auto
  qed simp
  moreover have "for_ssi a (filter P ms) = filter P (for_ssi a ms)" for a
    by (simp add: for_ssi_def conj_commute)
  ultimately show "stop_and_wait ms \<Longrightarrow> stop_and_wait (filter P ms)" by (fastforce simp: stop_and_wait_def)
qed

text \<open>The message in flight is the oldest of its link, and the only one.\<close>

lemma in_flight_first:
  assumes "stop_and_wait (as @ m # bs)" and "in_flight m"
  shows "for_ssi (ta_ssi (ea_addr m)) as = []" "\<forall>n \<in> set (as @ bs). in_flight n \<longrightarrow> ta_ssi (ea_addr n) \<noteq> ta_ssi (ea_addr m)"
proof -
  let ?a = "ta_ssi (ea_addr m)"
  have t: "\<forall>n \<in> set (tl (for_ssi ?a as @ m # for_ssi ?a bs)). \<not> in_flight n"
    using assms(1) unfolding stop_and_wait_def by (metis for_ssi_simps(2,3))
  show e: "for_ssi ?a as = []"
  proof (rule ccontr)
    assume "for_ssi ?a as \<noteq> []"
    then have "m \<in> set (tl (for_ssi ?a as @ m # for_ssi ?a bs))" by (simp add: tl_append split: list.split)
    with t assms(2) show False by blast
  qed
  then show "\<forall>n \<in> set (as @ bs). in_flight n \<longrightarrow> ta_ssi (ea_addr n) \<noteq> ?a"
    using t by (auto simp: for_ssi_def filter_empty_conv)
qed

section \<open>The first loop of a tick\<close>

text \<open>What the loop makes of a message, given the reporters at its start.\<close>

definition noted :: "TdmaTime \<Rightarrow> TxReporter list \<Rightarrow> ExpectedInAck \<Rightarrow> ExpectedInAck" where
  "noted now rs m =
     (if ea_t_umac_done m = None \<and> (is_transmitted (rs ! ea_tx_reporter m) \<or> is_discarded (rs ! ea_tx_reporter m))
      then m\<lparr>ea_t_umac_done := Some now\<rparr> else m)"

definition due :: "TdmaTime \<Rightarrow> TxReporter list \<Rightarrow> ExpectedInAck \<Rightarrow> bool" where
  "due now rs m \<longleftrightarrow>
     (case ea_t_umac_done (noted now rs m) of None \<Rightarrow> False | Some t \<Rightarrow> T251_SENDER_RETRY_TIMER \<le> TdmaTime_diff now t mod 2 ^ 32)"

definition again :: "TdmaTime \<Rightarrow> TxReporter list \<Rightarrow> ExpectedInAck \<Rightarrow> bool" where
  "again now rs m \<longleftrightarrow> due now rs m \<and> ea_retransmit_count m < 3"

definition expired :: "TdmaTime \<Rightarrow> TxReporter list \<Rightarrow> ExpectedInAck \<Rightarrow> bool" where
  "expired now rs m \<longleftrightarrow> due now rs m \<and> \<not> ea_retransmit_count m < 3"

definition sent_at :: "TdmaTime \<Rightarrow> ExpectedInAck \<Rightarrow> ExpectedInAck" where
  "sent_at now m =
     m\<lparr>ea_t_submitted_to_umac := Some (TdmaTime_forward_to_timeslot now (tm_t (ea_t_first m))), ea_t_umac_done := None\<rparr>"

definition retried :: "TdmaTime \<Rightarrow> TxReporter list \<Rightarrow> ExpectedInAck \<Rightarrow> ExpectedInAck" where
  "retried now rs m =
     (if again now rs m then sent_at now (m\<lparr>ea_retransmit_count := ea_retransmit_count m + 1\<rparr>) else noted now rs m)"

definition key :: "ExpectedInAck \<Rightarrow> u32 \<times> u16" where
  "key m = (ta_ssi (ea_addr m), ea_carrier_num m)"

text \<open>Reporters set back to pending.\<close>

definition pending_at :: "tx_ref set \<Rightarrow> TxReporter list \<Rightarrow> TxReporter list" where
  "pending_at R rs = map (\<lambda>i. if i \<in> R then (rs ! i)\<lparr>tx_state := TxState_as_u8 Pending\<rparr> else rs ! i) [0..<length rs]"

lemma pending_at_simps [simp]: "length (pending_at R rs) = length rs" "pending_at {} rs = rs"
  "i < length rs \<Longrightarrow> pending_at R rs ! i = (if i \<in> R then (rs ! i)\<lparr>tx_state := TxState_as_u8 Pending\<rparr> else rs ! i)"
  by (simp_all add: pending_at_def map_nth)

lemma pending_at_insert: "r < length rs \<Longrightarrow> pending_at R (rs[r := (rs ! r)\<lparr>tx_state := TxState_as_u8 Pending\<rparr>]) = pending_at (insert r R) rs"
  by (rule nth_equalityI) (auto simp: nth_list_update)

lemma submit_run:
  assumes "ea_tx_reporter m < length (ll_reporters s)"
  shows "submit_for_acknowledged_transmission m t s =
    Ok (m\<lparr>ea_t_submitted_to_umac := Some t, ea_t_umac_done := None\<rparr>,
      s\<lparr>ll_reporters := pending_at {ea_tx_reporter m} (ll_reporters s), ll_queue := ll_queue s @ [ea_retransmission_buf m]\<rparr>)"
  using assms pending_at_insert [of "ea_tx_reporter m" "ll_reporters s" "{}"]
  by (simp add: submit_for_acknowledged_transmission_def on_reporter_def reporter_def bind_def reset_def mark_unchecked_def ret_def upd_def
      push_back_def)

lemma retry_elem_run:
  assumes "ea_tx_reporter m < length (ll_reporters s)"
  shows "retry_elem m s =
    (let now = ll_dltime s; rs = ll_reporters s
     in Ok ((retried now rs m, again now rs m, expired now rs m),
       if again now rs m then s\<lparr>ll_reporters := pending_at {ea_tx_reporter m} rs, ll_queue := ll_queue s @ [ea_retransmission_buf m]\<rparr> else s))"
proof -
  let ?now = "ll_dltime s" and ?rs = "ll_reporters s"
  let ?n = "noted ?now ?rs m"
  have f: "ea_retransmit_count ?n = ea_retransmit_count m" "ea_tx_reporter ?n = ea_tx_reporter m" "ea_t_first ?n = ea_t_first m"
    "ea_retransmission_buf ?n = ea_retransmission_buf m"
    "sent_at ?now (?n\<lparr>ea_retransmit_count := x\<rparr>) = sent_at ?now (m\<lparr>ea_retransmit_count := x\<rparr>)" for x
    by (simp_all add: noted_def sent_at_def)
  let ?m' = "?n\<lparr>ea_retransmit_count := ea_retransmit_count m + 1\<rparr>"
  have sub: "submit_for_acknowledged_transmission ?m' (TdmaTime_forward_to_timeslot ?now (tm_t (ea_t_first m))) s =
    Ok (sent_at ?now (m\<lparr>ea_retransmit_count := ea_retransmit_count m + 1\<rparr>),
      s\<lparr>ll_reporters := pending_at {ea_tx_reporter m} ?rs, ll_queue := ll_queue s @ [ea_retransmission_buf m]\<rparr>)"
    using submit_run [of ?m' s] assms f by (simp add: sent_at_def [of ?now ?m', symmetric] f) (simp add: sent_at_def noted_def)
  show ?thesis
    using assms f sub
    by (cases "ea_t_umac_done ?n")
       (simp_all add: retry_elem_def reporter_def bind_def gets_def noted_def [of ?now ?rs m, symmetric] Let_def ret_def
         again_def due_def expired_def retried_def N252_BL_MAX_TLSDU_RETRANSMITS_ACKED_def)
qed

lemma pending_at_union: "pending_at R (pending_at {r} rs) = pending_at (insert r R) rs"
  by (rule nth_equalityI) auto

lemma loop_cong:
  assumes "rs ! ea_tx_reporter m = rs' ! ea_tx_reporter m"
  shows "retried now rs m = retried now rs' m" "again now rs m = again now rs' m" "expired now rs m = expired now rs' m"
  using assms by (simp_all add: retried_def again_def expired_def due_def noted_def)

lemma loop_fields [simp]:
  "ea_addr (noted now rs m) = ea_addr m" "ea_carrier_num (noted now rs m) = ea_carrier_num m" "ea_ns (noted now rs m) = ea_ns m"
  "ea_tx_reporter (noted now rs m) = ea_tx_reporter m" "in_flight (noted now rs m) = in_flight m"
  "ea_addr (sent_at now m) = ea_addr m" "ea_carrier_num (sent_at now m) = ea_carrier_num m" "ea_ns (sent_at now m) = ea_ns m"
  "ea_tx_reporter (sent_at now m) = ea_tx_reporter m" "in_flight (sent_at now m)"
  "ea_addr (retried now rs m) = ea_addr m" "ea_carrier_num (retried now rs m) = ea_carrier_num m" "ea_ns (retried now rs m) = ea_ns m"
  "ea_tx_reporter (retried now rs m) = ea_tx_reporter m" "key (retried now rs m) = key m"
  by (simp_all add: noted_def sent_at_def retried_def key_def in_flight_def)

lemma refs_simps [simp]: "refs [] = []" "refs (m # ms) = ea_tx_reporter m # refs ms" "refs (ms @ ns) = refs ms @ refs ns"
  by (simp_all add: refs_def)

lemma retry_loop_run:
  assumes "\<forall>m \<in> set ms. ea_tx_reporter m < length (ll_reporters s)" and "distinct (refs ms)"
  shows "retry_loop ms s =
    (let now = ll_dltime s; rs = ll_reporters s
     in Ok ((map (retried now rs) ms, list_ex (again now rs) ms, map key (filter (expired now rs) ms)),
       s\<lparr>ll_reporters := pending_at (set (refs (filter (again now rs) ms))) rs,
         ll_queue := ll_queue s @ map ea_retransmission_buf (filter (again now rs) ms)\<rparr>))"
  using assms
proof (induction ms arbitrary: s)
  case Nil
  then show ?case by (simp add: ret_def Let_def)
next
  case (Cons m ms)
  let ?now = "ll_dltime s" and ?rs = "ll_reporters s"
  let ?s = "if again ?now ?rs m then s\<lparr>ll_reporters := pending_at {ea_tx_reporter m} ?rs, ll_queue := ll_queue s @ [ea_retransmission_buf m]\<rparr> else s"
  have m: "retry_elem m s = Ok ((retried ?now ?rs m, again ?now ?rs m, expired ?now ?rs m), ?s)"
    using retry_elem_run [of m s] Cons.prems by (simp add: Let_def)
  have now: "ll_dltime ?s = ?now" by simp
  have same: "ll_reporters ?s ! ea_tx_reporter n = ?rs ! ea_tx_reporter n" if "n \<in> set ms" for n
  proof -
    have "ea_tx_reporter n \<in> set (refs ms)" using that by (simp add: refs_def)
    then have "ea_tx_reporter n \<noteq> ea_tx_reporter m" using Cons.prems(2) by auto
    then show ?thesis using that Cons.prems(1) by simp
  qed
  have cong: "map (retried ?now (ll_reporters ?s)) ms = map (retried ?now ?rs) ms" "list_ex (again ?now (ll_reporters ?s)) ms = list_ex (again ?now ?rs) ms"
    "filter (expired ?now (ll_reporters ?s)) ms = filter (expired ?now ?rs) ms" "filter (again ?now (ll_reporters ?s)) ms = filter (again ?now ?rs) ms"
    using loop_cong [OF same] by (auto simp: list_ex_iff cong: filter_cong)
  have "\<forall>n \<in> set ms. ea_tx_reporter n < length (ll_reporters ?s)" "distinct (refs ms)" using Cons.prems by auto
  note IH = Cons.IH [OF this, unfolded Let_def now cong]
  show ?case
    by (simp add: m bind_def IH Let_def ret_def key_def [of "retried ?now ?rs m", symmetric] key_def [symmetric] pending_at_union)
qed

text \<open>The expired messages leave the list, and what had been transmitted is lost.\<close>

definition lost_at :: "tx_ref set \<Rightarrow> TxReporter list \<Rightarrow> TxReporter list" where
  "lost_at R rs = map (\<lambda>i. if i \<in> R \<and> get_state (rs ! i) = Transmitted then (rs ! i)\<lparr>tx_state := TxState_as_u8 Lost\<rparr> else rs ! i) [0..<length rs]"

lemma lost_at_simps [simp]: "length (lost_at R rs) = length rs" "lost_at {} rs = rs"
  "i < length rs \<Longrightarrow> lost_at R rs ! i = (if i \<in> R \<and> get_state (rs ! i) = Transmitted then (rs ! i)\<lparr>tx_state := TxState_as_u8 Lost\<rparr> else rs ! i)"
  by (simp_all add: lost_at_def map_nth)

lemma lost_at_insert: "lost_at R (lost_at {r} rs) = lost_at (insert r R) rs"
  by (rule nth_equalityI) auto

definition lossy :: "TxReporter list \<Rightarrow> ExpectedInAck \<Rightarrow> bool" where
  "lossy rs m \<longleftrightarrow> ea_tx_reporter m < length rs \<and> tx_valid (rs ! ea_tx_reporter m) \<and> expects_ack (rs ! ea_tx_reporter m)"

lemma lossy_lost: "lossy rs m \<Longrightarrow> lossy (lost_at R rs) m"
  by (auto simp: lossy_def tx_valid_def)

lemma mark_lost_run:
  assumes "lossy (ll_reporters s) m"
  shows "(if get_state (ll_reporters s ! ea_tx_reporter m) = Transmitted then on_reporter (ea_tx_reporter m) mark_lost else ret ()) s =
    Ok ((), s\<lparr>ll_reporters := lost_at {ea_tx_reporter m} (ll_reporters s)\<rparr>)"
proof -
  let ?r = "ea_tx_reporter m" and ?rs = "ll_reporters s"
  have l: "lost_at {?r} ?rs = (if get_state (?rs ! ?r) = Transmitted then ?rs[?r := (?rs ! ?r)\<lparr>tx_state := TxState_as_u8 Lost\<rparr>] else ?rs)"
    using assms by (intro nth_equalityI) (auto simp: lossy_def nth_list_update)
  obtain ack c st where "?rs ! ?r = \<lparr>expects_ack = ack, tx_cell = c, tx_state = TxState_as_u8 st\<rparr>" "get_state (?rs ! ?r) = st"
    using assms tx_validE [of "?rs ! ?r"] by (auto simp: lossy_def)
  then show ?thesis using assms
    by (auto simp: l lossy_def on_reporter_def reporter_def bind_def mark_defs upd_def)
qed

lemma remove_expired_run:
  assumes "stop_and_wait (ll_outbound_messages s)" and "distinct (refs (ll_outbound_messages s))" and "distinct E"
    and "\<forall>m \<in> set E. m \<in> set (ll_outbound_messages s) \<and> in_flight m \<and> lossy (ll_reporters s) m"
  shows "remove_expired (map key E) s =
    Ok ((), s\<lparr>ll_outbound_messages := filter (\<lambda>m. m \<notin> set E) (ll_outbound_messages s), ll_reporters := lost_at (set (refs E)) (ll_reporters s)\<rparr>)"
  using assms
proof (induction E arbitrary: s)
  case Nil
  then show ?case by (simp add: ret_def)
next
  case (Cons e E)
  let ?L = "ll_outbound_messages s"
  obtain as bs where L: "?L = as @ e # bs" using Cons.prems(4) by (auto dest: split_list)
  have d: "distinct ?L" using Cons.prems(2) by (simp add: refs_def distinct_map)
  have f: "as @ bs = filter (\<lambda>m. m \<noteq> e) ?L" 
  proof -
    have "filter (\<lambda>m. m \<noteq> e) as = as" "filter (\<lambda>m. m \<noteq> e) bs = bs" using d unfolding L by (auto simp: filter_id_conv)
    then show ?thesis by (simp add: L)
  qed
  have fl: "in_flight e" "lossy (ll_reporters s) e" using Cons.prems(4) by simp_all
  have "\<forall>a \<in> set as. \<not> awaits_ack (ta_ssi (ea_addr e)) (ea_carrier_num e) a"
    using in_flight_first(2) [of as e bs] Cons.prems(1) fl(1) unfolding L by (auto simp: awaits_ack_def in_flight_def)
  moreover have "awaits_ack (ta_ssi (ea_addr e)) (ea_carrier_num e) e" using fl(1) by (simp add: awaits_ack_def in_flight_def)
  ultimately have t: "take_expected_ack_for_ssi (ta_ssi (ea_addr e)) (ea_carrier_num e) s = Ok (Some e, s\<lparr>ll_outbound_messages := as @ bs\<rparr>)"
    by (simp add: take_expected_ack_for_ssi_def L take_first_found)
  let ?s1 = "s\<lparr>ll_outbound_messages := as @ bs\<rparr>"
  let ?s = "?s1\<lparr>ll_reporters := lost_at {ea_tx_reporter e} (ll_reporters s)\<rparr>"
  have "stop_and_wait (ll_outbound_messages ?s)" using stop_and_wait_filter [OF Cons.prems(1)] f by simp
  moreover have "distinct (refs (ll_outbound_messages ?s))" using Cons.prems(2) L by simp
  moreover have "\<forall>m \<in> set E. m \<in> set (ll_outbound_messages ?s) \<and> in_flight m \<and> lossy (ll_reporters ?s) m"
    using Cons.prems(3,4) f by (auto intro: lossy_lost)
  ultimately have IH: "remove_expired (map key E) ?s = Ok ((), ?s\<lparr>ll_outbound_messages := filter (\<lambda>m. m \<notin> set E) (as @ bs),
      ll_reporters := lost_at (set (refs E)) (lost_at {ea_tx_reporter e} (ll_reporters s))\<rparr>)"
    using Cons.IH [of ?s] Cons.prems(3) by simp
  have "lossy (ll_reporters ?s1) e" using fl(2) by simp
  from mark_lost_run [OF this] have ml: "(if get_state (ll_reporters s ! ea_tx_reporter e) = Transmitted
      then on_reporter (ea_tx_reporter e) mark_lost else ret ()) ?s1 = Ok ((), ?s)" by simp
  have "reporter (ea_tx_reporter e) ?s1 = Ok (ll_reporters s ! ea_tx_reporter e, ?s1)" using fl(2) by (simp add: reporter_def lossy_def)
  with t ml IH have "remove_expired (map key (e # E)) s = Ok ((), ?s\<lparr>ll_outbound_messages := filter (\<lambda>m. m \<notin> set E) (as @ bs),
      ll_reporters := lost_at (set (refs E)) (lost_at {ea_tx_reporter e} (ll_reporters s))\<rparr>)"
    by (simp add: key_def bind_def)
  moreover have "filter (\<lambda>m. m \<notin> set E) (as @ bs) = filter (\<lambda>m. m \<notin> set (e # E)) ?L" unfolding f by (auto intro: filter_cong)
  ultimately show ?case by (simp add: lost_at_insert)
qed

section \<open>Retransmissions as a whole\<close>

lemma reported: "tx_valid r \<Longrightarrow> is_transmitted r \<or> is_discarded r \<longleftrightarrow> get_state r \<noteq> Pending"
  by (erule tx_validE, rename_tac st, case_tac st)
     (simp_all add: is_transmitted_def is_discarded_def TxState_as_u8.simps get_state_def TxState_from_raw_def)

lemma noted_alt:
  "msg_ok rs m \<Longrightarrow> noted now rs m =
     (if ea_t_umac_done m = None \<and> get_state (rs ! ea_tx_reporter m) \<noteq> Pending then m\<lparr>ea_t_umac_done := Some now\<rparr> else m)"
  using reported [of "rs ! ea_tx_reporter m"] by (simp add: msg_ok_def noted_def Let_def)

lemma msg_ok_flight: "msg_ok rs m \<Longrightarrow> due now rs m \<Longrightarrow> in_flight m"
  by (auto simp: noted_alt due_def msg_ok_def Let_def split: if_splits option.splits)

lemma msg_ok_lossy: "msg_ok rs m \<Longrightarrow> lossy rs m"
  by (simp add: msg_ok_def lossy_def Let_def)

lemma lossy_pending: "lossy rs m \<Longrightarrow> lossy (pending_at R rs) m"
  by (auto simp: lossy_def tx_valid_def)

lemma lossy_retried [simp]: "lossy R (retried now rs m) = lossy R m"
  by (simp add: lossy_def)

lemma retried_flight: "msg_ok rs m \<Longrightarrow> in_flight (retried now rs m) = in_flight m"
  using msg_ok_flight [of rs m now] by (simp add: retried_def again_def)

lemma for_ssi_map: "(\<And>m. ea_addr (f m) = ea_addr m) \<Longrightarrow> for_ssi a (map f ms) = map f (for_ssi a ms)"
  by (induction ms) simp_all

lemma for_ssi_filter: "for_ssi a (filter P ms) = filter P (for_ssi a ms)"
  by (simp add: for_ssi_def conj_commute)

lemma set_for_ssi: "set (for_ssi a ms) = {m \<in> set ms. ta_ssi (ea_addr m) = a}"
  by (simp add: for_ssi_def)

lemma stop_and_wait_map:
  assumes "stop_and_wait ms" and "\<And>m. m \<in> set ms \<Longrightarrow> ea_addr (f m) = ea_addr m \<and> in_flight (f m) = in_flight m"
  shows "stop_and_wait (map f ms)"
proof -
  have e: "for_ssi a (map f ms) = map f (for_ssi a ms)" for a using assms(2) by (induction ms) auto
  have s: "set (tl (for_ssi a ms)) \<subseteq> set ms" for a by (cases "for_ssi a ms") (use set_for_ssi [of a ms] in auto)
  show ?thesis unfolding stop_and_wait_def e using assms s by (fastforce simp: stop_and_wait_def map_tl [symmetric])
qed

definition after_retries :: "Llc \<Rightarrow> Llc" where
  "after_retries s =
     (let ms = ll_outbound_messages s; now = ll_dltime s; rs = ll_reporters s
      in s\<lparr>ll_outbound_messages := map (retried now rs) (filter (\<lambda>m. \<not> expired now rs m) ms),
          ll_reporters := lost_at (set (refs (filter (expired now rs) ms))) (pending_at (set (refs (filter (again now rs) ms))) rs),
          ll_queue := ll_queue s @ map ea_retransmission_buf (filter (again now rs) ms)\<rparr>)"

lemma retransmissions_run:
  assumes "llc_inv s"
  shows "submit_retransmissions_to_umac s =
    Ok (list_ex (again (ll_dltime s) (ll_reporters s)) (ll_outbound_messages s), after_retries s)"
proof -
  let ?ms = "ll_outbound_messages s" and ?now = "ll_dltime s" and ?rs = "ll_reporters s"
  let ?f = "retried ?now ?rs" and ?R = "pending_at (set (refs (filter (again ?now ?rs) ?ms))) ?rs" and ?E = "filter (expired ?now ?rs) ?ms"
  have ok: "\<forall>m \<in> set ?ms. msg_ok ?rs m" and d: "distinct (refs ?ms)" and sw: "stop_and_wait ?ms" using assms by (simp_all add: llc_inv_def)
  have inj: "inj_on ?f (set ?ms)"
    using d by (intro inj_onI) (metis loop_fields(14) distinct_map inj_onD refs_def)
  have "\<forall>m \<in> set ?ms. ea_tx_reporter m < length ?rs" using ok by (simp add: msg_ok_def)
  note r = retry_loop_run [OF this d, unfolded Let_def]
  let ?s = "s\<lparr>ll_reporters := ?R, ll_queue := ll_queue s @ map ea_retransmission_buf (filter (again ?now ?rs) ?ms), ll_outbound_messages := map ?f ?ms\<rparr>"
  have k: "map key (map ?f ?E) = map key ?E" by simp
  have "remove_expired (map key (map ?f ?E)) ?s =
    Ok ((), ?s\<lparr>ll_outbound_messages := filter (\<lambda>m. m \<notin> set (map ?f ?E)) (map ?f ?ms), ll_reporters := lost_at (set (refs (map ?f ?E))) ?R\<rparr>)"
  proof (subst remove_expired_run)
    show "stop_and_wait (ll_outbound_messages ?s)" using stop_and_wait_map [OF sw, of ?f] ok retried_flight by simp
    show "distinct (refs (ll_outbound_messages ?s))" using d by (simp add: refs_def comp_def)
    show "distinct (map ?f ?E)" using inj d by (auto simp: distinct_map refs_def intro: inj_on_subset)
    show "\<forall>m \<in> set (map ?f ?E). m \<in> set (ll_outbound_messages ?s) \<and> in_flight m \<and> lossy (ll_reporters ?s) m"
    proof
      fix m assume "m \<in> set (map ?f ?E)"
      then obtain n where n: "n \<in> set ?ms" "expired ?now ?rs n" "m = ?f n" by auto
      with ok have "msg_ok ?rs n" by blast
      then have "in_flight m" "lossy ?R n" using n(2,3) msg_ok_flight retried_flight lossy_pending [OF msg_ok_lossy] by (auto simp: expired_def)
      with n show "m \<in> set (ll_outbound_messages ?s) \<and> in_flight m \<and> lossy (ll_reporters ?s) m" by simp
    qed
  qed simp
  moreover have "filter (\<lambda>m. m \<notin> set (map ?f ?E)) (map ?f ?ms) = map ?f (filter (\<lambda>m. \<not> expired ?now ?rs m) ?ms)"
    using inj by (auto simp: filter_map comp_def inj_on_eq_iff intro!: arg_cong [of _ _ "map ?f"] filter_cong dest: inj_onD)
  moreover have "refs (map ?f ?E) = refs ?E" by (simp add: refs_def comp_def)
  ultimately show ?thesis
    by (simp add: submit_retransmissions_to_umac_def bind_def gets_def r upd_def k ret_def after_retries_def Let_def del: map_map)
qed

lemma after_retries_inv:
  assumes "llc_inv s"
  shows "llc_inv (after_retries s)"
proof -
  let ?ms = "ll_outbound_messages s" and ?now = "ll_dltime s" and ?rs = "ll_reporters s"
  let ?f = "retried ?now ?rs" and ?ms' = "filter (\<lambda>m. \<not> expired (ll_dltime s) (ll_reporters s) m) (ll_outbound_messages s)"
  let ?rs' = "ll_reporters (after_retries s)"
  have ok: "\<forall>m \<in> set ?ms. msg_ok ?rs m" and d: "distinct (refs ?ms)" and sw: "stop_and_wait ?ms" and num: "numbered s"
    using assms by (simp_all add: llc_inv_def)
  have L: "ll_outbound_messages (after_retries s) = map ?f ?ms'" by (simp add: after_retries_def Let_def)
  have other: "ll_scheduled_out_acks (after_retries s) = ll_scheduled_out_acks s" "ll_dltime (after_retries s) = ?now"
    "ll_link_send_seq (after_retries s) = ll_link_send_seq s" by (simp_all add: after_retries_def Let_def)
  have "stop_and_wait (map ?f ?ms')"
    using stop_and_wait_filter [OF sw] ok retried_flight by (intro stop_and_wait_map) auto
  moreover have "numbered (after_retries s)"
    unfolding numbered_def
  proof
    fix a
    let ?l = "for_ssi a ?ms"
    have "\<forall>m \<in> set (tl ?l). \<not> expired ?now ?rs m"
    proof
      fix m assume m: "m \<in> set (tl ?l)"
      then have "\<not> in_flight m" using sw by (simp add: stop_and_wait_def)
      moreover have "m \<in> set ?l" using m by (cases ?l) auto
      then have "msg_ok ?rs m" using ok by (simp add: set_for_ssi)
      ultimately show "\<not> expired ?now ?rs m" using msg_ok_flight by (auto simp: expired_def)
    qed
    then have "filter (\<lambda>m. \<not> expired ?now ?rs m) (tl ?l) = tl ?l" by (simp add: filter_id_conv)
    then have "for_ssi a ?ms' = ?l \<or> for_ssi a ?ms' = tl ?l" unfolding for_ssi_filter by (cases ?l) auto
    moreover have "alternates (map ea_ns ?l) (next_seq s a)" using num by (simp add: numbered_def)
    then have "alternates (map ea_ns (tl ?l)) (next_seq s a)" by (cases ?l) auto
    ultimately have "alternates (map ea_ns (for_ssi a ?ms')) (next_seq s a)"
      using \<open>alternates (map ea_ns ?l) (next_seq s a)\<close> by metis
    moreover have "map ea_ns (for_ssi a (map ?f ?ms')) = map ea_ns (for_ssi a ?ms')" by (simp add: for_ssi_map)
    ultimately show "alternates (map ea_ns (for_ssi a (ll_outbound_messages (after_retries s)))) (next_seq (after_retries s) a)"
      by (simp add: L next_seq_def other)
  qed
  moreover have "distinct (refs (map ?f ?ms'))" using d by (simp add: refs_def comp_def distinct_map_filter)
  moreover have "msg_ok ?rs' (?f m)" if "m \<in> set ?ms'" for m
  proof -
    have m: "msg_ok ?rs m" "\<not> expired ?now ?rs m" "m \<in> set ?ms" using that ok by auto
    have uniq: "n = m" if "n \<in> set ?ms" "ea_tx_reporter n = ea_tx_reporter m" for n
      using d that m(3) by (metis distinct_map inj_onD refs_def)
    have len: "ea_tx_reporter m < length ?rs" using m(1) by (simp add: msg_ok_def)
    have "ea_tx_reporter m \<notin> set (refs (filter (expired ?now ?rs) ?ms))"
      using uniq m(2) by (auto simp: refs_def)
    moreover have "ea_tx_reporter m \<in> set (refs (filter (again ?now ?rs) ?ms)) \<longleftrightarrow> again ?now ?rs m"
      using uniq m(3) by (auto simp: refs_def)
    ultimately have r: "?rs' ! ea_tx_reporter m =
      (if again ?now ?rs m then (?rs ! ea_tx_reporter m)\<lparr>tx_state := TxState_as_u8 Pending\<rparr> else ?rs ! ea_tx_reporter m)"
      using len by (simp add: after_retries_def Let_def)
    have len': "length ?rs' = length ?rs" by (simp add: after_retries_def Let_def)
    show ?thesis
    proof (cases "again ?now ?rs m")
      case True
      then have "ea_retransmit_count m + 1 \<le> 3" by (simp add: again_def word_less_nat_alt word_le_nat_alt unat_word_ariths)
      with True m(1) len r len' show ?thesis
        by (simp add: msg_ok_def retried_def sent_at_def in_flight_def Let_def) (auto simp: tx_valid_def)
    next
      case False
      then have f: "?f m = (if ea_t_umac_done m = None \<and> get_state (?rs ! ea_tx_reporter m) \<noteq> Pending then m\<lparr>ea_t_umac_done := Some ?now\<rparr> else m)"
        using noted_alt [OF m(1)] by (simp add: retried_def)
      show ?thesis unfolding f using False m(1) len r len' by (auto simp: msg_ok_def in_flight_def Let_def split: if_splits)
    qed
  qed
  ultimately show ?thesis using assms by (simp add: llc_inv_def L other)
qed

section \<open>The second loop: messages whose link is free\<close>

fun freed :: "TdmaTime \<Rightarrow> u32 set \<Rightarrow> ExpectedInAck list \<Rightarrow> ExpectedInAck list" where
  "freed now B [] = []"
| "freed now B (m # ms) =
     (if in_flight m \<or> ta_ssi (ea_addr m) \<in> B then m else sent_at now m) # freed now (insert (ta_ssi (ea_addr m)) B) ms"

fun free_msgs :: "u32 set \<Rightarrow> ExpectedInAck list \<Rightarrow> ExpectedInAck list" where
  "free_msgs B [] = []"
| "free_msgs B (m # ms) =
     (if in_flight m \<or> ta_ssi (ea_addr m) \<in> B then [] else [m]) @ free_msgs (insert (ta_ssi (ea_addr m)) B) ms"

lemma free_loop_run:
  assumes "\<forall>m \<in> set ms. ea_tx_reporter m < length (ll_reporters s)"
  shows "free_loop B ms s =
    Ok ((freed (ll_dltime s) B ms, free_msgs B ms \<noteq> []),
      s\<lparr>ll_reporters := pending_at (set (refs (free_msgs B ms))) (ll_reporters s),
        ll_queue := ll_queue s @ map ea_retransmission_buf (free_msgs B ms)\<rparr>)"
  using assms
proof (induction ms arbitrary: s B)
  case Nil
  then show ?case by (simp add: ret_def)
next
  case (Cons m ms)
  let ?a = "ta_ssi (ea_addr m)"
  show ?case
  proof (cases "in_flight m \<or> ?a \<in> B")
    case True
    then have i: "?a \<in> B \<Longrightarrow> insert ?a B = B" by auto
    have "free_loop B (m # ms) s = bind (free_loop (insert ?a B) ms) (\<lambda>(acks, had_activity). ret (m # acks, had_activity)) s"
      using True i by (auto simp: in_flight_def Let_def)
    then show ?thesis using True Cons by (simp add: bind_def ret_def)
  next
    case False
    let ?s = "s\<lparr>ll_reporters := pending_at {ea_tx_reporter m} (ll_reporters s), ll_queue := ll_queue s @ [ea_retransmission_buf m]\<rparr>"
    have "submit_for_acknowledged_transmission m (TdmaTime_forward_to_timeslot (ll_dltime s) (tm_t (ea_t_first m))) s = Ok (sent_at (ll_dltime s) m, ?s)"
      using submit_run [of m s] Cons.prems by (simp add: sent_at_def)
    then have "free_loop B (m # ms) s = bind (free_loop (insert ?a B) ms) (\<lambda>(acks, _). ret (sent_at (ll_dltime s) m # acks, True)) ?s"
      using False by (simp add: in_flight_def Let_def bind_def gets_def)
    then show ?thesis using False Cons.prems Cons.IH [of ?s "insert ?a B"] by (simp add: bind_def ret_def pending_at_union)
  qed
qed

text \<open>On each link that is not blocked the oldest message is under way afterwards, and no other has been started.\<close>

lemma for_ssi_freed:
  "for_ssi a (freed now B ms) =
     (if a \<in> B then for_ssi a ms
      else case for_ssi a ms of [] \<Rightarrow> [] | m # r \<Rightarrow> (if in_flight m then m else sent_at now m) # r)"
  by (induction ms arbitrary: B) auto

lemma free_msgs_first: "m \<in> set (free_msgs B ms) \<Longrightarrow> \<not> in_flight m \<and> m \<in> set ms"
  by (induction ms arbitrary: B) (auto split: if_splits)

lemma freed_elems: "m' \<in> set (freed now B ms) \<Longrightarrow> (m' \<in> set ms) \<or> (\<exists>m \<in> set (free_msgs B ms). m' = sent_at now m)"
  by (induction ms arbitrary: B) (auto split: if_splits)

lemma refs_freed: "refs (freed now B ms) = refs ms"
  by (induction ms arbitrary: B) simp_all

lemma ns_freed: "map ea_ns (for_ssi a (freed now B ms)) = map ea_ns (for_ssi a ms)"
  by (auto simp: for_ssi_freed split: list.split)

definition after_free :: "Llc \<Rightarrow> Llc" where
  "after_free s =
     (let ms = ll_outbound_messages s
      in s\<lparr>ll_outbound_messages := freed (ll_dltime s) {} ms,
          ll_reporters := pending_at (set (refs (free_msgs {} ms))) (ll_reporters s),
          ll_queue := ll_queue s @ map ea_retransmission_buf (free_msgs {} ms)\<rparr>)"

lemma free_run:
  assumes "llc_inv s"
  shows "submit_free_messages_to_umac s = Ok (free_msgs {} (ll_outbound_messages s) \<noteq> [], after_free s)"
proof -
  have "\<forall>m \<in> set (ll_outbound_messages s). ea_tx_reporter m < length (ll_reporters s)" using assms by (simp add: llc_inv_def msg_ok_def)
  from free_loop_run [OF this, of "{}"] show ?thesis
    by (simp add: submit_free_messages_to_umac_def bind_def gets_def upd_def ret_def after_free_def Let_def)
qed

lemma msg_ok_sent: "msg_ok rs m \<Longrightarrow> \<not> in_flight m \<Longrightarrow> msg_ok rs (sent_at now m)"
  by (simp add: msg_ok_def sent_at_def in_flight_def Let_def)

lemma after_free_inv:
  assumes "llc_inv s"
  shows "llc_inv (after_free s)"
proof -
  let ?ms = "ll_outbound_messages s" and ?now = "ll_dltime s" and ?rs = "ll_reporters s" and ?F = "free_msgs {} (ll_outbound_messages s)"
  have L: "ll_outbound_messages (after_free s) = freed ?now {} ?ms" "ll_reporters (after_free s) = pending_at (set (refs ?F)) ?rs"
    and other: "ll_scheduled_out_acks (after_free s) = ll_scheduled_out_acks s" "ll_dltime (after_free s) = ?now"
    "ll_link_send_seq (after_free s) = ll_link_send_seq s" by (simp_all add: after_free_def Let_def)
  have ok: "\<forall>m \<in> set ?ms. msg_ok ?rs m" and d: "distinct (refs ?ms)" and sw: "stop_and_wait ?ms" and num: "numbered s"
    using assms by (simp_all add: llc_inv_def)
  have "stop_and_wait (freed ?now {} ?ms)"
    unfolding stop_and_wait_def for_ssi_freed using sw by (auto simp: stop_and_wait_def split: list.split) (metis list.sel(3))
  moreover have "numbered (after_free s)"
    using num by (simp add: numbered_def L ns_freed next_seq_def other)
  moreover have "msg_ok (pending_at (set (refs ?F)) ?rs) m'" if m': "m' \<in> set (freed ?now {} ?ms)" for m'
  proof -
    have pend: "msg_ok (pending_at (set (refs ?F)) ?rs) m" if "msg_ok ?rs m" "ea_tx_reporter m \<notin> set (refs ?F) \<or> \<not> in_flight m" for m
      using that by (auto simp: msg_ok_def Let_def tx_valid_def)
    from freed_elems [OF m'] show ?thesis
    proof
      assume m: "m' \<in> set ?ms"
      have "in_flight m' \<Longrightarrow> ea_tx_reporter m' \<notin> set (refs ?F)"
        using d m free_msgs_first by (fastforce simp: refs_def distinct_map dest: inj_onD)
      then show ?thesis using pend ok m by blast
    next
      assume "\<exists>m \<in> set ?F. m' = sent_at ?now m"
      then obtain m where m: "m \<in> set ?F" "m' = sent_at ?now m" by blast
      then have "msg_ok ?rs m" "\<not> in_flight m" using ok free_msgs_first by blast+
      then have "msg_ok (pending_at (set (refs ?F)) ?rs) m" using pend by blast
      then show ?thesis using m(2) \<open>\<not> in_flight m\<close> msg_ok_sent by blast
    qed
  qed
  ultimately show ?thesis using assms d by (simp add: llc_inv_def L other refs_freed)
qed

end
