(* ===== verification/Llc_Run.thy ===== *)
theory Llc_Run
  imports Llc_Inv
begin

text \<open>
  The link layer as a state machine: the primitives it receives and the ticks keep the invariant. The only panic is the one of an
  acknowledgement that meets a message which the upper MAC has discarded.
\<close>

declare One_nat_def [simp del]

section \<open>PDUs\<close>

definition pdu_is :: "bitbuffer \<Rightarrow> bool list \<Rightarrow> bool" where
  "pdu_is b bs \<longleftrightarrow> bb_inv b \<and> bb_start b = 0 \<and> bb_pos b = 0 \<and> content b = bs"

lemma pdu_is_unread: "pdu_is b bs \<Longrightarrow> unread b = bs"
  by (simp add: pdu_is_def unread_def)

lemma new_autoexpand_room: "k < 2 ^ 64 \<Longrightarrow> room (new_autoexpand n) k"
  by (simp add: room_def new_autoexpand_def)

lemma wrote_start:
  assumes "wrote (new_autoexpand n) bs b"
  shows "\<exists>b'. seek 0 b = Ok ((), b') \<and> pdu_is b' bs"
proof -
  have n: "bb_start (new_autoexpand n) = 0" "bb_pos (new_autoexpand n) = 0" by (simp_all add: new_autoexpand_def)
  have b: "bb_inv b" "bb_start b = 0" "content b = bs" using assms by (simp_all add: wrote_def overwrite_def n)
  then have "seek 0 b = Ok ((), b\<lparr>bb_pos := 0\<rparr>)" by (simp add: seek_def bind_def guard_def ret_def try_seek_def checked_add_def bb_inv_def)
  with b show ?thesis by (auto simp: pdu_is_def bb_inv_def content_def)
qed

lemma make_pdu_run:
  assumes "emits header hs" and "bb_inv sdu" and "length hs + length (unread sdu) < 2 ^ 64"
  shows "\<exists>b. make_pdu header sdu = Ok b \<and> pdu_is b (hs @ unread sdu)"
proof -
  let ?n = "new_autoexpand 32" and ?k = "length (unread sdu)"
  have "room ?n (length hs)" using assms(3) by (simp add: new_autoexpand_room)
  from emitsE [OF assms(1) bb_inv_new_autoexpand this] obtain b1 where b1: "header ?n = Ok ((), b1)" "wrote ?n hs b1" by blast
  have r: "room b1 ?k" using wrote_room [OF _ b1(2)] assms(3) new_autoexpand_room [of "length hs + ?k" 32] by simp
  have "bb_inv b1" using b1(2) by (simp add: wrote_def)
  from copy_bits_spec [OF assms(2) order.refl this r] obtain b2 where
    b2: "copy_bits ?k (b1, sdu) = Ok ((), (b2, sdu\<lparr>bb_pos := bb_pos sdu + ?k\<rparr>))" "wrote b1 (unread sdu) b2" by auto
  have "wrote ?n (hs @ unread sdu) b2" using wrote_trans [OF _ b1(2) b2(2)] by simp
  from wrote_start [OF this] obtain b where "seek 0 b2 = Ok ((), b)" "pdu_is b (hs @ unread sdu)" by blast
  with b1(1) b2(1) show ?thesis by (simp add: make_pdu_def length_unread [OF assms(2)])
qed

section \<open>The other two loops\<close>

definition ack_bits :: "u8 \<Rightarrow> bool list" where
  "ack_bits nr = enc_BlAck \<lparr>BlAck_has_fcs = False, BlAck_nr = nr\<rparr>"

definition acks_out :: "ScheduledOutAck list \<Rightarrow> SapMsg list \<Rightarrow> bool" where
  "acks_out acks qs \<longleftrightarrow> list_all2 (\<lambda>a q. \<exists>p. q = to_umac (ack_reply a p) \<and> pdu_is p (ack_bits (oa_nr a))) acks qs"

lemma ack_loop_run:
  assumes "\<forall>a \<in> set acks. fits 1 (oa_nr a)"
  shows "\<exists>qs. ack_loop acks s = Ok ((), s\<lparr>ll_queue := ll_queue s @ qs\<rparr>) \<and> acks_out acks qs"
  using assms
proof (induction acks arbitrary: s)
  case Nil
  then show ?case by (simp add: ret_def acks_out_def)
next
  case (Cons a acks)
  let ?p = "\<lparr>BlAck_has_fcs = False, BlAck_nr = oa_nr a\<rparr>"
  have e: "emits (BlAck_to_bitbuf ?p) (ack_bits (oa_nr a))"
    unfolding ack_bits_def using Cons.prems by (intro BlAck.emits) (simp add: wf_BlAck_def)
  have "room (new_autoexpand 5) (length (ack_bits (oa_nr a)))" by (intro new_autoexpand_room) (simp add: ack_bits_def enc_BlAck_def)
  from emitsE [OF e bb_inv_new_autoexpand this] obtain b where b: "BlAck_to_bitbuf ?p (new_autoexpand 5) = Ok ((), b)"
    "wrote (new_autoexpand 5) (ack_bits (oa_nr a)) b" by blast
  from wrote_start [OF b(2)] obtain b' where b': "seek 0 b = Ok ((), b')" "pdu_is b' (ack_bits (oa_nr a))" by blast
  let ?q = "to_umac (ack_reply a b')" and ?s = "s\<lparr>ll_queue := ll_queue s @ [to_umac (ack_reply a b')]\<rparr>"
  from Cons.IH [of ?s] Cons.prems obtain qs where qs: "ack_loop acks ?s = Ok ((), s\<lparr>ll_queue := ll_queue s @ ?q # qs\<rparr>)" "acks_out acks qs" by auto
  have "ack_loop (a # acks) s = Ok ((), s\<lparr>ll_queue := ll_queue s @ ?q # qs\<rparr>)"
    using b(1) b'(1) qs(1) by (simp add: bind_def ret_def push_back_def upd_def)
  then show ?case using qs(2) b'(2) by (intro exI [of _ "?q # qs"]) (auto simp: acks_out_def)
qed

lemma llc_inv_cong:
  assumes "llc_inv s" and "ll_outbound_messages s' = ll_outbound_messages s" and "ll_link_send_seq s' = ll_link_send_seq s"
    and "ll_reporters s' = ll_reporters s" and "set (ll_scheduled_out_acks s') \<subseteq> set (ll_scheduled_out_acks s)" and "ll_dltime s' = ll_dltime s"
  shows "llc_inv s'"
  using assms by (auto simp: llc_inv_def numbered_def next_seq_def)

text \<open>A whole tick: retransmissions, then free links, then acknowledgements, then unacknowledged messages.\<close>

lemma tick_end_run:
  assumes "llc_inv s"
  defines "t \<equiv> after_free (after_retries s)"
  shows "\<exists>act qs. Llc_tick_end s =
      Ok (act, t\<lparr>ll_scheduled_out_acks := [], ll_outbound_udata_messages := [], ll_queue := ll_queue t @ qs @ ll_outbound_udata_messages s\<rparr>) \<and>
    acks_out (ll_scheduled_out_acks s) qs"
proof -
  have r: "llc_inv (after_retries s)" by (rule after_retries_inv [OF assms(1)])
  have same: "ll_scheduled_out_acks t = ll_scheduled_out_acks s" "ll_outbound_udata_messages t = ll_outbound_udata_messages s"
    by (simp_all add: t_def after_free_def after_retries_def Let_def)
  have "\<forall>a \<in> set (ll_scheduled_out_acks s). fits 1 (oa_nr a)" using assms(1) by (simp add: llc_inv_def)
  from ack_loop_run [OF this, of "t\<lparr>ll_scheduled_out_acks := []\<rparr>"] obtain qs where
    qs: "ack_loop (ll_scheduled_out_acks s) (t\<lparr>ll_scheduled_out_acks := []\<rparr>) = Ok ((), t\<lparr>ll_scheduled_out_acks := [], ll_queue := ll_queue t @ qs\<rparr>)"
      "acks_out (ll_scheduled_out_acks s) qs" by auto
  have "\<exists>act. Llc_tick_end s =
      Ok (act, t\<lparr>ll_scheduled_out_acks := [], ll_outbound_udata_messages := [], ll_queue := ll_queue t @ qs @ ll_outbound_udata_messages s\<rparr>)"
    using qs(1)
    by (simp add: Llc_tick_end_def bind_def retransmissions_run [OF assms(1)] free_run [OF r] t_def [symmetric] submit_ack_replies_to_umac_def
        gets_def upd_def same submit_udata_msgs_to_umac_def ret_def)
  with qs(2) show ?thesis by blast
qed

lemma tick_end_inv:
  assumes "llc_inv s" and "Llc_tick_end s = Ok (act, s')"
  shows "llc_inv s'"
  using tick_end_run [OF assms(1)] assms(2) after_free_inv [OF after_retries_inv [OF assms(1)]]
  by (auto intro!: llc_inv_cong [of "after_free (after_retries s)"])

section \<open>Requests\<close>

lemma out_ack_run:
  "\<exists>n acks. get_out_ack_seq_if_any addr c s = Ok (n, s\<lparr>ll_scheduled_out_acks := acks\<rparr>) \<and> set acks \<subseteq> set (ll_scheduled_out_acks s) \<and>
     (\<forall>v. n = Some v \<longrightarrow> (\<exists>a \<in> set (ll_scheduled_out_acks s). v = oa_nr a)) \<and> (n = None \<longrightarrow> acks = ll_scheduled_out_acks s)"
proof (cases "take_first (\<lambda>a. ta_ssi (oa_addr a) = ta_ssi addr \<and> oa_carrier_num a = c) (ll_scheduled_out_acks s)")
  case None
  then show ?thesis by (intro exI [of _ None] exI [of _ "ll_scheduled_out_acks s"]) (simp add: get_out_ack_seq_if_any_def)
next
  case (Some p)
  obtain a rest where p: "p = (a, rest)" by (cases p)
  with take_first_Some [of _ "ll_scheduled_out_acks s" a rest] Some show ?thesis
    by (intro exI [of _ "Some (oa_nr a)"] exI [of _ rest]) (force simp: get_out_ack_seq_if_any_def)
qed

definition fresh_reporter :: "Llc \<Rightarrow> tx_ref \<Rightarrow> bool" where
  "fresh_reporter s r \<longleftrightarrow> r < length (ll_reporters s) \<and> r \<notin> set (refs (ll_outbound_messages s)) \<and>
     tx_valid (ll_reporters s ! r) \<and> expects_ack (ll_reporters s ! r) \<and> get_state (ll_reporters s ! r) = Pending"

definition sdu_ok :: "bitbuffer \<Rightarrow> bool" where
  "sdu_ok b \<longleftrightarrow> bb_inv b \<and> length (unread b) < 2 ^ 63"

lemma msg_ok_cong: "msg_ok rs m \<Longrightarrow> length rs \<le> length rs' \<Longrightarrow> rs' ! ea_tx_reporter m = rs ! ea_tx_reporter m \<Longrightarrow> msg_ok rs' m"
  by (simp only: msg_ok_def Let_def) auto

lemma llc_inv_reporters:
  assumes "llc_inv s" and "length (ll_reporters s) \<le> length rs"
    and "\<And>m. m \<in> set (ll_outbound_messages s) \<Longrightarrow> rs ! ea_tx_reporter m = ll_reporters s ! ea_tx_reporter m"
  shows "llc_inv (s\<lparr>ll_reporters := rs\<rparr>)"
  using assms msg_ok_cong [OF _ assms(2)] by (simp add: llc_inv_def numbered_def next_seq_def)

text \<open>A new message joins the end of its link with the next number.\<close>

lemma push_outbound_inv:
  assumes "llc_inv s" and "ea_ns m = next_seq s (ta_ssi (ea_addr m))" and "\<not> in_flight m" and "msg_ok (ll_reporters s) m"
    and "ea_tx_reporter m \<notin> set (refs (ll_outbound_messages s))"
  shows "llc_inv (s\<lparr>ll_link_send_seq := (ll_link_send_seq s)(ta_ssi (ea_addr m) \<mapsto> ea_ns m XOR 1),
    ll_outbound_messages := ll_outbound_messages s @ [m]\<rparr>)"
proof -
  let ?a = "ta_ssi (ea_addr m)" and ?ms = "ll_outbound_messages s"
  let ?s = "s\<lparr>ll_link_send_seq := (ll_link_send_seq s)(?a \<mapsto> ea_ns m XOR 1), ll_outbound_messages := ?ms @ [m]\<rparr>"
  have sw: "stop_and_wait ?ms" and num: "numbered s" using assms(1) by (simp_all add: llc_inv_def)
  have "stop_and_wait (?ms @ [m])"
    unfolding stop_and_wait_def
  proof (intro allI ballI)
    fix a n assume n: "n \<in> set (tl (for_ssi a (?ms @ [m])))"
    have "n = m \<or> n \<in> set (tl (for_ssi a ?ms))" using n by (cases "for_ssi a ?ms") (auto split: if_splits)
    then show "\<not> in_flight n" using assms(3) sw by (auto simp: stop_and_wait_def)
  qed
  moreover have "numbered ?s"
    unfolding numbered_def
  proof
    fix a
    have "alternates (map ea_ns (for_ssi a ?ms)) (next_seq s a)" using num by (simp add: numbered_def)
    then show "alternates (map ea_ns (for_ssi a (ll_outbound_messages ?s))) (next_seq ?s a)"
      using assms(2) alternates_snoc by (auto simp: next_seq_def)
  qed
  ultimately show ?thesis using assms by (auto simp: llc_inv_def)
qed

text \<open>The PDU of an acknowledged message, with or without an acknowledgement of its own.\<close>

definition data_bits :: "bool \<Rightarrow> u8 option \<Rightarrow> u8 \<Rightarrow> bool list" where
  "data_bits fcs nr ns =
     (case nr of
        Some nr \<Rightarrow> enc_BlAdata \<lparr>BlAdata_has_fcs = fcs, BlAdata_nr = nr, BlAdata_ns = ns\<rparr>
      | None \<Rightarrow> enc_BlData \<lparr>BlData_has_fcs = fcs, BlData_ns = ns\<rparr>)"

lemma data_pdu_run:
  assumes "sdu_ok sdu" and "fits 1 ns" and "pred_option (fits 1) nr"
  shows "\<exists>b. make_pdu (case nr of
        Some nr \<Rightarrow> BlAdata_to_bitbuf \<lparr>BlAdata_has_fcs = fcs, BlAdata_nr = nr, BlAdata_ns = ns\<rparr>
      | None \<Rightarrow> BlData_to_bitbuf \<lparr>BlData_has_fcs = fcs, BlData_ns = ns\<rparr>) sdu = Ok b \<and> pdu_is b (data_bits fcs nr ns @ unread sdu)"
proof (rule make_pdu_run)
  show "emits (case nr of
        Some nr \<Rightarrow> BlAdata_to_bitbuf \<lparr>BlAdata_has_fcs = fcs, BlAdata_nr = nr, BlAdata_ns = ns\<rparr>
      | None \<Rightarrow> BlData_to_bitbuf \<lparr>BlData_has_fcs = fcs, BlData_ns = ns\<rparr>) (data_bits fcs nr ns)"
    using assms(2,3) BlData.emits [of "\<lparr>BlData_has_fcs = fcs, BlData_ns = ns\<rparr>"]
      BlAdata.emits [of "\<lparr>BlAdata_has_fcs = fcs, BlAdata_nr = the nr, BlAdata_ns = ns\<rparr>"]
    by (cases nr) (simp_all add: data_bits_def wf_BlData_def wf_BlAdata_def)
  show "bb_inv sdu" using assms(1) by (simp add: sdu_ok_def)
  have "length (data_bits fcs nr ns) \<le> 6" by (simp add: data_bits_def enc_BlAdata_def enc_BlData_def split: option.split)
  then show "length (data_bits fcs nr ns) + length (unread sdu) < 2 ^ 64" using assms(1) by (simp add: sdu_ok_def)
qed

lemma fits_bit: "v = 0 \<or> v = 1 \<Longrightarrow> fits 1 (v :: u8)"
  by (auto simp: fits_0)

text \<open>What the request appends.\<close>

definition queued :: "TlaTlDataReqBl \<Rightarrow> Llc \<Rightarrow> u8 option \<Rightarrow> bitbuffer \<Rightarrow> tx_ref \<Rightarrow> ExpectedInAck" where
  "queued prim s nr pdu r =
     (let carrier = preferred_carrier (dq_chan_alloc prim) s
      in \<lparr>ea_carrier_num = carrier, ea_ts = derived_ts (dq_chan_alloc prim), ea_addr = dq_main_address prim,
          ea_ns = next_seq s (ta_ssi (dq_main_address prim)), ea_bl_type = Layer2Acknowledged, ea_t_first = ll_dltime s,
          ea_t_submitted_to_umac = None, ea_t_umac_done = None, ea_tx_reporter = r,
          ea_retransmission_buf = to_umac (data_req prim carrier pdu 0 (Some r)), ea_retransmit_count = 0\<rparr>)"

lemma acked_request_run:
  assumes "llc_inv s" and "sdu_ok (dq_tl_sdu prim)" and "\<And>r. dq_tx_reporter prim = Some r \<Longrightarrow> fresh_reporter s r"
    and "\<not> dq_stealing_permission prim" and "ta_ssi_type (dq_main_address prim) \<noteq> SsiType_Gssi"
  defines "a \<equiv> ta_ssi (dq_main_address prim)"
  shows "\<exists>nr acks pdu r rs. get_out_ack_seq_if_any (dq_main_address prim) (preferred_carrier (dq_chan_alloc prim) s) s =
      Ok (nr, s\<lparr>ll_scheduled_out_acks := acks\<rparr>) \<and>
    rx_tla_tldata_req_bl prim s = Ok ((), s\<lparr>ll_scheduled_out_acks := acks, ll_reporters := rs,
      ll_link_send_seq := (ll_link_send_seq s)(a \<mapsto> next_seq s a XOR 1),
      ll_outbound_messages := ll_outbound_messages s @ [queued prim s nr pdu r]\<rparr>) \<and>
    pdu_is pdu (data_bits (dq_fcs_flag prim) nr (next_seq s a) @ unread (dq_tl_sdu prim)) \<and>
    llc_inv (s\<lparr>ll_scheduled_out_acks := acks, ll_reporters := rs,
      ll_link_send_seq := (ll_link_send_seq s)(a \<mapsto> next_seq s a XOR 1),
      ll_outbound_messages := ll_outbound_messages s @ [queued prim s nr pdu r]\<rparr>)"
proof -
  let ?c = "preferred_carrier (dq_chan_alloc prim) s" and ?ns = "next_seq s a"
  obtain nr acks where nr: "get_out_ack_seq_if_any (dq_main_address prim) ?c s = Ok (nr, s\<lparr>ll_scheduled_out_acks := acks\<rparr>)"
    "set acks \<subseteq> set (ll_scheduled_out_acks s)" "\<forall>v. nr = Some v \<longrightarrow> (\<exists>x \<in> set (ll_scheduled_out_acks s). v = oa_nr x)"
    using out_ack_run [of "dq_main_address prim" ?c s] by blast
  have "alternates (map ea_ns (for_ssi a (ll_outbound_messages s))) ?ns" using assms(1) by (simp add: llc_inv_def numbered_def)
  then have "fits 1 ?ns" using alternates_bits fits_bit by blast
  moreover have "pred_option (fits 1) nr" using nr(3) assms(1) by (cases nr) (auto simp: llc_inv_def)
  ultimately obtain pdu where pdu: "make_pdu (case nr of
        Some nr \<Rightarrow> BlAdata_to_bitbuf \<lparr>BlAdata_has_fcs = dq_fcs_flag prim, BlAdata_nr = nr, BlAdata_ns = ?ns\<rparr>
      | None \<Rightarrow> BlData_to_bitbuf \<lparr>BlData_has_fcs = dq_fcs_flag prim, BlData_ns = ?ns\<rparr>) (dq_tl_sdu prim) = Ok pdu"
      "pdu_is pdu (data_bits (dq_fcs_flag prim) nr ?ns @ unread (dq_tl_sdu prim))"
    using data_pdu_run [OF assms(2)] by blast
  let ?r = "case dq_tx_reporter prim of Some r \<Rightarrow> r | None \<Rightarrow> length (ll_reporters s)"
  let ?rs = "case dq_tx_reporter prim of Some r \<Rightarrow> ll_reporters s | None \<Rightarrow> ll_reporters s @ [TxReporter_new (length (ll_reporters s))]"
  let ?s1 = "s\<lparr>ll_scheduled_out_acks := acks, ll_reporters := ?rs\<rparr>"
  let ?m = "queued prim s nr pdu ?r"
  let ?s = "?s1\<lparr>ll_link_send_seq := (ll_link_send_seq s)(a \<mapsto> ?ns XOR 1), ll_outbound_messages := ll_outbound_messages s @ [?m]\<rparr>"
  have n: "get_next_send_seq (dq_main_address prim) (s\<lparr>ll_scheduled_out_acks := acks\<rparr>) =
      Ok (?ns, s\<lparr>ll_scheduled_out_acks := acks, ll_link_send_seq := (ll_link_send_seq s)(a \<mapsto> ?ns XOR 1)\<rparr>)"
    by (simp add: get_next_send_seq_def next_seq_def a_def Let_def)
  have run: "rx_tla_tldata_req_bl prim s = Ok ((), ?s)"
    using assms(4,5) nr(1) n pdu(1)
    by (cases "dq_tx_reporter prim")
       (simp_all add: rx_tla_tldata_req_bl_def bind_def gets_def calc_def upd_def ret_def new_reporter_def queued_def Let_def a_def [symmetric])
  have "llc_inv ?s1"
  proof -
    have "ea_tx_reporter m < length (ll_reporters s)" if "m \<in> set (ll_outbound_messages s)" for m
      using that assms(1) by (simp add: llc_inv_def msg_ok_def)
    then have "llc_inv (s\<lparr>ll_reporters := ?rs\<rparr>)"
      by (intro llc_inv_reporters [OF assms(1)]) (simp_all add: nth_append split: option.split)
    then show ?thesis by (rule llc_inv_cong) (use nr(2) in simp_all)
  qed
  moreover have "ea_ns ?m = next_seq ?s1 (ta_ssi (ea_addr ?m))" by (simp add: queued_def a_def next_seq_def Let_def)
  moreover have "msg_ok (ll_reporters ?s1) ?m"
    using assms(1) assms(3) by (auto simp: msg_ok_def queued_def in_flight_def Let_def fresh_reporter_def llc_inv_def TxReporter_new_def
        tx_valid_def get_state_def split: option.split)
  moreover have "ea_tx_reporter ?m \<notin> set (refs (ll_outbound_messages ?s1))"
    using assms(1,3) by (auto simp: queued_def Let_def fresh_reporter_def llc_inv_def msg_ok_def refs_def split: option.split)
  moreover have "\<not> in_flight ?m" by (simp add: in_flight_def queued_def Let_def)
  ultimately have "llc_inv (?s1\<lparr>ll_link_send_seq := (ll_link_send_seq ?s1)(ta_ssi (ea_addr ?m) \<mapsto> ea_ns ?m XOR 1),
      ll_outbound_messages := ll_outbound_messages ?s1 @ [?m]\<rparr>)"
    by (intro push_outbound_inv)
  moreover have "ta_ssi (ea_addr ?m) = a" "ea_ns ?m = ?ns" by (simp_all add: queued_def a_def Let_def)
  ultimately have "llc_inv ?s" by simp
  with run nr(1) pdu(2) show ?thesis by (intro exI [of _ nr] exI [of _ acks] exI [of _ pdu] exI [of _ ?r] exI [of _ ?rs]) simp
qed

text \<open>Every request is accepted and keeps the invariant.\<close>

lemma push_udata_inv: "llc_inv s \<Longrightarrow> \<exists>s'. push_udata q s = Ok ((), s') \<and> llc_inv s'"
  by (auto simp: push_udata_def upd_def intro: llc_inv_cong)

lemma udata_pdu_run:
  assumes "sdu_ok sdu"
  shows "\<exists>b. make_pdu (BlUdata_to_bitbuf p) sdu = Ok b \<and> pdu_is b (enc_BlUdata p @ unread sdu)"
proof (rule make_pdu_run)
  show "emits (BlUdata_to_bitbuf p) (enc_BlUdata p)" by (rule BlUdata.emits) simp
  show "bb_inv sdu" "length (enc_BlUdata p) + length (unread sdu) < 2 ^ 64" using assms by (simp_all add: sdu_ok_def enc_BlUdata_def)
qed

lemma ack_pdu_run:
  assumes "sdu_ok sdu" and "fits 1 (BlAck_nr p)"
  shows "\<exists>b. make_pdu (BlAck_to_bitbuf p) sdu = Ok b \<and> pdu_is b (enc_BlAck p @ unread sdu)"
proof (rule make_pdu_run)
  show "emits (BlAck_to_bitbuf p) (enc_BlAck p)" using assms(2) by (intro BlAck.emits) (simp add: wf_BlAck_def)
  show "bb_inv sdu" "length (enc_BlAck p) + length (unread sdu) < 2 ^ 64" using assms(1) by (simp_all add: sdu_ok_def enc_BlAck_def)
qed

lemma unitdata_req_inv:
  assumes "llc_inv s" and "sdu_ok (uq_tl_sdu prim)"
  shows "\<exists>s'. rx_tla_tlunitdata_req_bl prim s = Ok ((), s') \<and> llc_inv s'"
proof -
  obtain b where "make_pdu (BlUdata_to_bitbuf \<lparr>BlUdata_has_fcs = False\<rparr>) (uq_tl_sdu prim) = Ok b" using udata_pdu_run [OF assms(2)] by blast
  then show ?thesis by (simp add: rx_tla_tlunitdata_req_bl_def bind_def gets_def calc_def push_udata_inv [OF assms(1)])
qed

lemma data_req_inv:
  assumes "llc_inv s" and "sdu_ok (dq_tl_sdu prim)" and "\<And>r. dq_tx_reporter prim = Some r \<Longrightarrow> fresh_reporter s r"
  shows "\<exists>s'. rx_tla_tldata_req_bl prim s = Ok ((), s') \<and> llc_inv s'"
proof (cases "dq_stealing_permission prim \<or> ta_ssi_type (dq_main_address prim) = SsiType_Gssi")
  case False
  with acked_request_run [OF assms] show ?thesis by blast
next
  case True
  let ?c = "preferred_carrier (dq_chan_alloc prim) s"
  obtain n acks where n: "get_out_ack_seq_if_any (dq_main_address prim) ?c s = Ok (n, s\<lparr>ll_scheduled_out_acks := acks\<rparr>)"
    "set acks \<subseteq> set (ll_scheduled_out_acks s)" "\<forall>v. n = Some v \<longrightarrow> (\<exists>x \<in> set (ll_scheduled_out_acks s). v = oa_nr x)"
    "n = None \<longrightarrow> acks = ll_scheduled_out_acks s" using out_ack_run [of "dq_main_address prim" ?c s] by blast
  have inv: "llc_inv (s\<lparr>ll_scheduled_out_acks := acks\<rparr>)" by (rule llc_inv_cong [OF assms(1)]) (use n(2) in simp_all)
  obtain u where u: "make_pdu (BlUdata_to_bitbuf \<lparr>BlUdata_has_fcs = False\<rparr>) (dq_tl_sdu prim) = Ok u" using udata_pdu_run [OF assms(2)] by blast
  show ?thesis
  proof (cases "if dq_stealing_permission prim then n else None")
    case None
    then have "rx_tla_tldata_req_bl prim s = push_udata (to_umac (data_req prim ?c u 0 (dq_tx_reporter prim))) s"
      using True n(1,4) u by (auto simp: rx_tla_tldata_req_bl_def bind_def gets_def calc_def ret_def split: if_splits)
    then show ?thesis using push_udata_inv [OF assms(1)] by simp
  next
    case (Some v)
    then have st: "dq_stealing_permission prim" "n = Some v" by (simp_all split: if_splits)
    then have "fits 1 v" using n(3) assms(1) by (auto simp: llc_inv_def)
    then obtain b where b: "make_pdu (BlAck_to_bitbuf \<lparr>BlAck_has_fcs = dq_fcs_flag prim, BlAck_nr = v\<rparr>) (dq_tl_sdu prim) = Ok b"
      using ack_pdu_run [OF assms(2), of "\<lparr>BlAck_has_fcs = dq_fcs_flag prim, BlAck_nr = v\<rparr>"] by auto
    have "rx_tla_tldata_req_bl prim s =
        push_udata (to_umac (data_req prim ?c b (dq_link_id prim) (dq_tx_reporter prim))) (s\<lparr>ll_scheduled_out_acks := acks\<rparr>)"
      using st n(1) b by (simp add: rx_tla_tldata_req_bl_def bind_def gets_def calc_def)
    then show ?thesis using push_udata_inv [OF inv] by simp
  qed
qed

section \<open>Indications\<close>

text \<open>An acknowledgement on a link: when it arrives too early or with the other number nothing changes but the order of the list.\<close>

lemma front_inv:
  assumes "llc_inv s" and "ll_outbound_messages s = as @ m # bs" and "in_flight m"
  shows "llc_inv (s\<lparr>ll_outbound_messages := m # as @ bs\<rparr>)"
proof -
  have sw: "stop_and_wait (as @ m # bs)" using assms(1,2) by (simp add: llc_inv_def)
  note first = in_flight_first(1) [OF sw assms(3)]
  have same: "for_ssi a (m # as @ bs) = for_ssi a (as @ m # bs)" for a using first by auto
  then have "stop_and_wait (m # as @ bs)" using sw by (simp only: stop_and_wait_def)
  moreover have "numbered (s\<lparr>ll_outbound_messages := m # as @ bs\<rparr>)"
    using assms(1,2) same unfolding llc_inv_def numbered_def next_seq_def by (simp del: for_ssi_simps)
  ultimately show ?thesis using assms(1,2) by (auto simp: llc_inv_def)
qed

lemma remove_inv:
  assumes "llc_inv s" and "ll_outbound_messages s = as @ m # bs" and "in_flight m"
  shows "llc_inv (s\<lparr>ll_outbound_messages := as @ bs\<rparr>)"
proof -
  have sw: "stop_and_wait (as @ m # bs)" using assms(1,2) by (simp add: llc_inv_def)
  note first = in_flight_first(1) [OF sw assms(3)]
  have rest: "for_ssi a (as @ bs) = (if a = ta_ssi (ea_addr m) then tl (for_ssi a (as @ m # bs)) else for_ssi a (as @ m # bs))" for a
    using first by auto
  have tl: "set (tl xs) \<subseteq> set xs" for xs :: "ExpectedInAck list" by (cases xs) auto
  have "stop_and_wait (as @ bs)"
    unfolding stop_and_wait_def
  proof (intro allI ballI)
    fix a n assume "n \<in> set (tl (for_ssi a (as @ bs)))"
    then have "n \<in> set (tl (for_ssi a (as @ m # bs)))"
      unfolding rest using tl [of "tl (for_ssi a (as @ m # bs))"] by (cases "a = ta_ssi (ea_addr m)") (auto simp del: for_ssi_simps)
    then show "\<not> in_flight n" using sw unfolding stop_and_wait_def by blast
  qed
  moreover have "numbered (s\<lparr>ll_outbound_messages := as @ bs\<rparr>)"
    unfolding numbered_def
  proof
    fix a
    have "alternates (map ea_ns (for_ssi a (as @ m # bs))) (next_seq s a)" using assms(1,2) by (simp add: llc_inv_def numbered_def)
    then have "alternates (map ea_ns (for_ssi a (as @ bs))) (next_seq s a)"
      unfolding rest by (cases "a = ta_ssi (ea_addr m)"; cases "for_ssi a (as @ m # bs)") (simp_all del: for_ssi_simps)
    then show "alternates (map ea_ns (for_ssi a (ll_outbound_messages (s\<lparr>ll_outbound_messages := as @ bs\<rparr>))))
      (next_seq (s\<lparr>ll_outbound_messages := as @ bs\<rparr>) a)" by (simp add: next_seq_def)
  qed
  ultimately show ?thesis using assms(1,2) by (auto simp: llc_inv_def)
qed

text \<open>The acknowledgement hits a message that the upper MAC has discarded.\<close>

definition meets_discarded :: "Llc \<Rightarrow> u32 \<Rightarrow> u16 \<Rightarrow> u8 \<Rightarrow> bool" where
  "meets_discarded s ssi c nr \<longleftrightarrow>
     (\<exists>m \<in> set (ll_outbound_messages s). awaits_ack ssi c m \<and> ea_t_umac_done m \<noteq> None \<and> ea_ns m = nr \<and>
        get_state (ll_reporters s ! ea_tx_reporter m) = Discarded)"

definition acknowledged_at :: "tx_ref \<Rightarrow> TxReporter list \<Rightarrow> TxReporter list" where
  "acknowledged_at r rs = rs[r := (rs ! r)\<lparr>tx_state := TxState_as_u8 Acknowledged\<rparr>]"

lemma mark_acknowledged_run:
  assumes "lossy (ll_reporters s) m"
  shows "on_reporter (ea_tx_reporter m) mark_acknowledged s =
    (if get_state (ll_reporters s ! ea_tx_reporter m) = Transmitted
     then Ok ((), s\<lparr>ll_reporters := acknowledged_at (ea_tx_reporter m) (ll_reporters s)\<rparr>) else Panic)"
proof -
  let ?r = "ea_tx_reporter m" and ?rs = "ll_reporters s"
  obtain ack c st where "?rs ! ?r = \<lparr>expects_ack = ack, tx_cell = c, tx_state = TxState_as_u8 st\<rparr>" "get_state (?rs ! ?r) = st"
    using assms tx_validE [of "?rs ! ?r"] by (auto simp: lossy_def)
  then show ?thesis using assms
    by (auto simp: lossy_def on_reporter_def reporter_def bind_def mark_defs upd_def calc_def acknowledged_at_def)
qed

lemma ack_run:
  assumes "llc_inv s" and "ll_outbound_messages s = as @ m # bs" and "awaits_ack (ta_ssi addr) c m"
  shows "process_incoming_ack addr c nr s =
    (if ea_t_umac_done m = None \<or> ea_ns m \<noteq> nr then Ok ((), s\<lparr>ll_outbound_messages := m # as @ bs\<rparr>)
     else if get_state (ll_reporters s ! ea_tx_reporter m) = Transmitted
     then Ok ((), s\<lparr>ll_outbound_messages := as @ bs, ll_reporters := acknowledged_at (ea_tx_reporter m) (ll_reporters s)\<rparr>)
     else Panic)"
proof -
  have fl: "in_flight m" using assms(3) by (simp add: awaits_ack_def in_flight_def)
  have sw: "stop_and_wait (as @ m # bs)" and ok: "msg_ok (ll_reporters s) m" using assms(1,2) by (simp_all add: llc_inv_def)
  have "\<forall>n \<in> set as. \<not> awaits_ack (ta_ssi addr) c n"
    using in_flight_first(2) [OF sw fl] assms(3) by (auto simp: awaits_ack_def in_flight_def)
  then have t: "take_expected_ack_for_ssi (ta_ssi addr) c s = Ok (Some m, s\<lparr>ll_outbound_messages := as @ bs\<rparr>)"
    using assms(2,3) by (simp add: take_expected_ack_for_ssi_def take_first_found)
  have "lossy (ll_reporters (s\<lparr>ll_outbound_messages := as @ bs\<rparr>)) m" using msg_ok_lossy [OF ok] by simp
  from mark_acknowledged_run [OF this] show ?thesis by (simp add: process_incoming_ack_def bind_def t upd_def)
qed

lemma acked_inv:
  assumes "llc_inv s" and "ll_outbound_messages s = as @ m # bs" and "in_flight m"
  shows "llc_inv (s\<lparr>ll_outbound_messages := as @ bs, ll_reporters := acknowledged_at (ea_tx_reporter m) (ll_reporters s)\<rparr>)"
proof -
  let ?rs = "acknowledged_at (ea_tx_reporter m) (ll_reporters s)"
  have "ea_tx_reporter n \<noteq> ea_tx_reporter m" if "n \<in> set (as @ bs)" for n
  proof
    assume "ea_tx_reporter n = ea_tx_reporter m"
    then have "ea_tx_reporter m \<in> set (map ea_tx_reporter (as @ bs))" using that by (metis image_eqI set_map)
    moreover have "distinct (map ea_tx_reporter (as @ m # bs))" using assms(1,2) by (simp add: llc_inv_def refs_def)
    ultimately show False by auto
  qed
  note other = this
  have "llc_inv (s\<lparr>ll_outbound_messages := as @ bs, ll_reporters := ?rs\<rparr>)"
  proof (rule llc_inv_reporters [OF remove_inv [OF assms]])
    fix n assume "n \<in> set (ll_outbound_messages (s\<lparr>ll_outbound_messages := as @ bs\<rparr>))"
    then have "ea_tx_reporter m \<noteq> ea_tx_reporter n" using other [of n] by auto
    then show "?rs ! ea_tx_reporter n = ll_reporters (s\<lparr>ll_outbound_messages := as @ bs\<rparr>) ! ea_tx_reporter n"
      by (simp add: acknowledged_at_def)
  qed (simp add: acknowledged_at_def)
  then show ?thesis by simp
qed

lemma incoming_ack_inv:
  assumes "llc_inv s"
  shows "if meets_discarded s (ta_ssi addr) c nr then process_incoming_ack addr c nr s = Panic
    else \<exists>s'. process_incoming_ack addr c nr s = Ok ((), s') \<and> llc_inv s' \<and> ll_scheduled_out_acks s' = ll_scheduled_out_acks s"
proof (cases "meets_discarded s (ta_ssi addr) c nr")
  case True
  then obtain m as bs where "ll_outbound_messages s = as @ m # bs" "awaits_ack (ta_ssi addr) c m" "ea_t_umac_done m \<noteq> None" "ea_ns m = nr"
    "get_state (ll_reporters s ! ea_tx_reporter m) = Discarded" unfolding meets_discarded_def by (metis split_list)
  with ack_run [OF assms this(1,2)] True show ?thesis by simp
next
  case no: False
  show ?thesis
  proof (cases "take_first (awaits_ack (ta_ssi addr) c) (ll_outbound_messages s)")
    case None
    then show ?thesis using assms no by (simp add: process_incoming_ack_def take_expected_ack_for_ssi_def bind_def ret_def)
  next
    case (Some p)
    obtain m rest where p: "p = (m, rest)" by (cases p)
    from take_first_Some [OF Some [unfolded p]] obtain as bs where
      m: "ll_outbound_messages s = as @ m # bs" "awaits_ack (ta_ssi addr) c m" by blast
    have fl: "in_flight m" using m(2) by (simp add: awaits_ack_def in_flight_def)
    have "msg_ok (ll_reporters s) m" using assms m(1) by (simp add: llc_inv_def)
    then have "ea_t_umac_done m \<noteq> None \<Longrightarrow> get_state (ll_reporters s ! ea_tx_reporter m) \<in> {Transmitted, Discarded}"
      using fl by (simp add: msg_ok_def Let_def split: if_splits)
    then show ?thesis
      using ack_run [OF assms m, of nr] front_inv [OF assms m(1) fl] acked_inv [OF assms m(1) fl] m no
      by (auto simp: meets_discarded_def split: if_splits)
  qed
qed

text \<open>The header of whatever arrives: it is read without a panic, and its sequence numbers are bits.\<close>

lemma bind_Ok: "bind m f s = Ok r \<longleftrightarrow> (\<exists>x s'. m s = Ok (x, s') \<and> f x s' = Ok r)"
  by (auto simp: bind_def split: outcome.splits)

lemma read_field_fits: "read_field n s b = Ok (v, b') \<Longrightarrow> bb_inv b \<Longrightarrow> fits n v \<and> bb_inv b'"
  by (auto simp: read_field_spec length_unread bb_inv_def get_len_remaining_def fits_of_bits split: if_splits)

lemma expect_value_Ok: "expect_value v w s b = Ok (x, b') \<Longrightarrow> b' = b"
  by (auto simp: expect_value_def ret_def fail_def split: if_splits)

lemma fits_ucast_bit: "fits 1 (v :: u64) \<Longrightarrow> fits 1 (ucast v :: u8)"
  by (simp add: fits_iff bit_unsigned_iff)

lemma BlAck_bits: "BlAck_from_bitbuf b = Ok (p, b') \<Longrightarrow> bb_inv b \<Longrightarrow> fits 1 (BlAck_nr p)"
  unfolding BlAck_from_bitbuf_def bind_Ok by (auto simp: ret_def dest!: read_field_fits expect_value_Ok intro: fits_ucast_bit)

lemma BlData_bits: "BlData_from_bitbuf b = Ok (p, b') \<Longrightarrow> bb_inv b \<Longrightarrow> fits 1 (BlData_ns p)"
  unfolding BlData_from_bitbuf_def bind_Ok by (auto simp: ret_def dest!: read_field_fits expect_value_Ok intro: fits_ucast_bit)

lemma BlAdata_bits: "BlAdata_from_bitbuf b = Ok (p, b') \<Longrightarrow> bb_inv b \<Longrightarrow> fits 1 (BlAdata_nr p) \<and> fits 1 (BlAdata_ns p)"
  unfolding BlAdata_from_bitbuf_def bind_Ok by (auto simp: ret_def dest!: read_field_fits expect_value_Ok intro: fits_ucast_bit)

lemma safe_bl_header: "safe (bl_header t)"
  unfolding bl_header_def
  by (cases t) (auto intro!: safe_bind safe_ret BlAdata.safe BlData.safe BlAck.safe BlUdata.safe)

lemma bl_header_bits: "bl_header t b = Ok (Some (f, ns, nr), b') \<Longrightarrow> bb_inv b \<Longrightarrow> pred_option (fits 1) ns \<and> pred_option (fits 1) nr"
  by (cases t) (auto simp: bl_header_def bind_Ok ret_def dest: BlAck_bits BlData_bits BlAdata_bits)

lemma deliver_inv:
  assumes "llc_inv s" and "bb_inv pdu"
  shows "\<exists>s'. deliver prim t f pdu s = Ok ((), s') \<and> llc_inv s'"
proof -
  have r: "set_raw_start (bb_pos pdu) pdu = Ok ((), pdu\<lparr>bb_start := bb_pos pdu\<rparr>)" using assms(2) by (simp add: set_raw_start_def bb_inv_def)
  have p: "\<exists>s'. push_back q s = Ok ((), s') \<and> llc_inv s'" for q
    using assms(1) by (auto simp: push_back_def upd_def intro: llc_inv_cong)
  show ?thesis using p assms(1) by (auto simp: deliver_def r bind_def ret_def Let_def)
qed

lemma schedule_ack_inv:
  assumes "llc_inv s" and "fits 1 ns"
  shows "\<exists>s'. schedule_outgoing_ack d addr c ts ns s = Ok ((), s') \<and> llc_inv s' \<and> ll_outbound_messages s' = ll_outbound_messages s \<and>
    ll_reporters s' = ll_reporters s"
  using assms by (simp add: schedule_outgoing_ack_def upd_def llc_inv_def numbered_def next_seq_def)

definition heard_at :: "Llc \<Rightarrow> TdmaTime" where
  "heard_at s = TdmaTime_add_timeslots (ll_dltime s) (- 2)"

lemma rx_bl_run:
  assumes "ti_pdu prim = Some pdu" and "bb_inv pdu" and "4 \<le> length (unread pdu)"
    and "LlcPduType_try_from (of_bits (take 4 (unread pdu))) = Some t" and "bl_header t pdu = Ok (Some (f, ns, nr), b)" and "bb_inv b"
  shows "rx_tma_unitdata_ind_bl prim s =
    (if f \<and> \<not> fcs_ok (unread b) then Ok ((), s)
     else bind (case ns of Some ns \<Rightarrow> schedule_outgoing_ack (heard_at s) (ti_main_address prim) (ti_carrier_num prim) (tm_t (heard_at s)) ns | None \<Rightarrow> ret ()) (\<lambda>_.
       bind (case nr of Some nr \<Rightarrow> process_incoming_ack (ti_main_address prim) (ti_carrier_num prim) nr | None \<Rightarrow> ret ()) (\<lambda>_.
       deliver prim t f b)) s)"
  unfolding heard_at_def
  using assms by (cases f) (simp_all add: rx_tma_unitdata_ind_bl_def peek_bits_spec [OF assms(2)] bind_def ret_def gets_def check_fcs_spec [OF assms(6)])

text \<open>A PDU that carries the acknowledgement number: by its type it is a BL-ACK or a BL-ADATA, it reads as one, and the check sequence, if
  it has one, is right.\<close>

definition carries_ack :: "bitbuffer \<Rightarrow> u8 \<Rightarrow> bool" where
  "carries_ack pdu nr \<longleftrightarrow>
     4 \<le> length (unread pdu) \<and>
     (case LlcPduType_try_from (of_bits (take 4 (unread pdu))) of
        None \<Rightarrow> False
      | Some t \<Rightarrow>
          t \<in> {LlcPduType_BlAck, LlcPduType_BlAckFcs} \<and>
            (\<exists>p b. BlAck_from_bitbuf pdu = Ok (p, b) \<and> BlAck_nr p = nr \<and> (BlAck_has_fcs p \<longrightarrow> fcs_ok (unread b))) \<or>
          t \<in> {LlcPduType_BlAdata, LlcPduType_BlAdataFcs} \<and>
            (\<exists>p b. BlAdata_from_bitbuf pdu = Ok (p, b) \<and> BlAdata_nr p = nr \<and> (BlAdata_has_fcs p \<longrightarrow> fcs_ok (unread b))))"

lemma carries_ack_header:
  assumes "4 \<le> length (unread pdu)" and "LlcPduType_try_from (of_bits (take 4 (unread pdu))) = Some t"
  shows "carries_ack pdu v \<longleftrightarrow> (\<exists>f ns b. bl_header t pdu = Ok (Some (f, ns, Some v), b) \<and> (f \<longrightarrow> fcs_ok (unread b)))"
  using assms by (cases t) (auto simp: carries_ack_def bl_header_def bind_Ok ret_def)

text \<open>What is received is handled, unless it carries the acknowledgement of a discarded message, on which the handler panics.\<close>

definition acks_discarded :: "Llc \<Rightarrow> TmaUnitdataInd \<Rightarrow> bool" where
  "acks_discarded s prim \<longleftrightarrow>
     (\<exists>pdu nr. ti_pdu prim = Some pdu \<and> carries_ack pdu nr \<and> meets_discarded s (ta_ssi (ti_main_address prim)) (ti_carrier_num prim) nr)"

lemma rx_header_inv:
  assumes "llc_inv s" and "ti_pdu prim = Some pdu" and "bb_inv pdu" and "4 \<le> length (unread pdu)"
    and "LlcPduType_try_from (of_bits (take 4 (unread pdu))) = Some t" and "bl_header t pdu = Ok (Some (f, ns, nr), b)" and "bb_inv b"
  shows "if acks_discarded s prim then rx_tma_unitdata_ind_bl prim s = Panic
    else \<exists>s'. rx_tma_unitdata_ind_bl prim s = Ok ((), s') \<and> llc_inv s'"
proof -
  let ?d = "heard_at s" and ?a = "ti_main_address prim" and ?c = "ti_carrier_num prim"
  note run = rx_bl_run [OF assms(2-7)]
  have fits: "pred_option (fits 1) ns" using bl_header_bits [OF assms(6,3)] by simp
  obtain s1 where s1: "(case ns of Some ns \<Rightarrow> schedule_outgoing_ack ?d ?a ?c (tm_t ?d) ns | None \<Rightarrow> ret ()) s = Ok ((), s1)"
    "llc_inv s1" "ll_outbound_messages s1 = ll_outbound_messages s" "ll_reporters s1 = ll_reporters s"
    using schedule_ack_inv [OF assms(1), where d = ?d and addr = ?a and c = ?c and ts = "tm_t ?d"] fits assms(1)
    by (cases ns) (fastforce simp: ret_def)+
  have acks: "acks_discarded s prim \<longleftrightarrow> (f \<longrightarrow> fcs_ok (unread b)) \<and> (\<exists>v. nr = Some v \<and> meets_discarded s (ta_ssi ?a) ?c v)"
    using assms(2,6) carries_ack_header [OF assms(4,5)] by (auto simp: acks_discarded_def)
  have same: "meets_discarded s1 (ta_ssi ?a) ?c v = meets_discarded s (ta_ssi ?a) ?c v" for v by (simp add: meets_discarded_def s1(3,4))
  show ?thesis
  proof (cases nr)
    case None
    then show ?thesis using run s1 assms(1) acks deliver_inv [OF s1(2) assms(7)] by (auto simp: bind_def ret_def)
  next
    case (Some v)
    then show ?thesis
      using run s1(1) assms(1) acks incoming_ack_inv [OF s1(2), of ?a ?c v, unfolded same] deliver_inv [OF _ assms(7)]
      by (auto simp: bind_def split: if_splits)
  qed
qed

lemma rx_bl_inv:
  assumes "llc_inv s" and "pred_option bb_inv (ti_pdu prim)"
  shows "if acks_discarded s prim then rx_tma_unitdata_ind_bl prim s = Panic
    else \<exists>s'. rx_tma_unitdata_ind_bl prim s = Ok ((), s') \<and> llc_inv s'"
proof (cases "ti_pdu prim")
  case None
  then show ?thesis using assms(1) by (simp add: rx_tma_unitdata_ind_bl_def ret_def acks_discarded_def)
next
  case (Some pdu)
  have inv: "bb_inv pdu" using assms(2) Some by simp
  note def = rx_tma_unitdata_ind_bl_def Some bind_def peek_bits_spec [OF inv]
  let ?t = "LlcPduType_try_from (of_bits (take 4 (unread pdu)))"
  show ?thesis
  proof (cases "4 \<le> length (unread pdu) \<and> ?t \<noteq> None")
    case False
    then have "\<not> acks_discarded s prim" using Some by (auto simp: acks_discarded_def carries_ack_def)
    then show ?thesis using assms(1) False by (auto simp: def ret_def)
  next
    case True
    then obtain t where t: "4 \<le> length (unread pdu)" "?t = Some t" by blast
    have quiet: "\<not> acks_discarded s prim" if "\<And>q b. bl_header t pdu \<noteq> Ok (Some q, b)"
      using that Some carries_ack_header [OF t] by (auto simp: acks_discarded_def)
    from safe_bl_header inv show ?thesis
    proof (cases rule: safeE [where m = "bl_header t"])
      case (err e)
      then show ?thesis using assms(1) t quiet by (simp add: def ret_def)
    next
      case (ok h p)
      then have b: "bb_inv (pdu\<lparr>bb_pos := p\<rparr>)" using inv by auto
      show ?thesis
      proof (cases h)
        case None
        then show ?thesis using assms(1) t ok(1) quiet by (simp add: def ret_def)
      next
        case (Some q)
        then show ?thesis using rx_header_inv [OF assms(1) \<open>ti_pdu prim = Some pdu\<close> inv t _ b] ok(1) by (cases q) simp
      qed
    qed
  qed
qed

end
