(* ===== verification/Llc_Link.thy ===== *)
theory Llc_Link
  imports Llc_Run
begin

text \<open>
  The reachable states of a link layer and the two ends of a link: the messages it receives, the ticks, and what the upper MAC and the
  router do to the shared reporters and to the queue are the steps; every reachable state satisfies the invariant.
\<close>

declare One_nat_def [simp del]

section \<open>Reachable states\<close>

text \<open>What the neighbours hand over: bit buffers with their invariant, and a reporter that no other message uses.\<close>

definition prim_ok :: "Llc \<Rightarrow> SapMsg \<Rightarrow> bool" where
  "prim_ok s message \<longleftrightarrow>
     (case sm_msg message of
        Msg_TmaUnitdataInd ind \<Rightarrow> pred_option bb_inv (ti_pdu ind)
      | Msg_TlaTlDataReqBl req \<Rightarrow> sdu_ok (dq_tl_sdu req) \<and> pred_option (fresh_reporter s) (dq_tx_reporter req)
      | Msg_TlaTlUnitdataReqBl req \<Rightarrow> sdu_ok (uq_tl_sdu req)
      | _ \<Rightarrow> True)"

inductive llc_step :: "Llc \<Rightarrow> Llc \<Rightarrow> bool" where
  step_prim: "prim_ok s message \<Longrightarrow> Llc_rx_prim message s = Ok ((), s') \<Longrightarrow> llc_step s s'"
| step_start: "TdmaTime_is_valid ts \<Longrightarrow> Llc_tick_start ts s = Ok ((), s') \<Longrightarrow> llc_step s s'"
| step_end: "Llc_tick_end s = Ok (act, s') \<Longrightarrow> llc_step s s'"
| step_config: "Llc_set_config c s = Ok ((), s') \<Longrightarrow> llc_step s s'"
| step_transmitted: "m \<in> set (ll_outbound_messages s) \<Longrightarrow> in_flight m \<Longrightarrow> on_reporter (ea_tx_reporter m) mark_transmitted s = Ok ((), s') \<Longrightarrow>
    llc_step s s'"
| step_discarded: "m \<in> set (ll_outbound_messages s) \<Longrightarrow> in_flight m \<Longrightarrow> on_reporter (ea_tx_reporter m) mark_discarded s = Ok ((), s') \<Longrightarrow>
    llc_step s s'"
| step_others: "length (ll_reporters s) \<le> length rs \<Longrightarrow> \<forall>m \<in> set (ll_outbound_messages s). rs ! ea_tx_reporter m = ll_reporters s ! ea_tx_reporter m \<Longrightarrow>
    llc_step s (s\<lparr>ll_reporters := rs, ll_queue := q\<rparr>)"

inductive llc_reach :: "Llc \<Rightarrow> bool" where
  reach_new: "llc_reach (Llc_new c)"
| reach_step: "llc_reach s \<Longrightarrow> llc_step s s' \<Longrightarrow> llc_reach s'"

lemma llc_inv_new: "llc_inv (Llc_new c)"
  by (simp add: llc_inv_def Llc_new_def stop_and_wait_def numbered_def next_seq_def TdmaTime_default_def TdmaTime_is_valid_def word_le_nat_alt)

text \<open>The upper MAC reports on a message that it has been given.\<close>

lemma on_reporter_Ok:
  assumes "on_reporter r m s = Ok ((), s')"
  shows "r < length (ll_reporters s) \<and> (\<exists>t. m (ll_reporters s ! r) = Ok ((), t) \<and> s' = s\<lparr>ll_reporters := (ll_reporters s)[r := t]\<rparr>)"
  using assms by (auto simp: on_reporter_def reporter_def bind_def upd_def calc_def split: if_splits outcome.splits)

lemma report_inv:
  assumes "llc_inv s" and "m \<in> set (ll_outbound_messages s)" and "in_flight m"
    and "on_reporter (ea_tx_reporter m) (mark Pending st) s = Ok ((), s')" and "st = Transmitted \<or> st = Discarded"
  shows "llc_inv s'"
proof -
  let ?rs = "ll_reporters s" and ?r = "ea_tx_reporter m"
  let ?t = "(?rs ! ?r)\<lparr>tx_state := TxState_as_u8 st\<rparr>"
  have ok: "msg_ok ?rs m" and d: "distinct (refs (ll_outbound_messages s))" using assms(1,2) by (simp_all add: llc_inv_def)
  from on_reporter_Ok [OF assms(4)] have len: "?r < length ?rs" and s': "s' = s\<lparr>ll_reporters := ?rs[?r := ?t]\<rparr>"
    and p: "tx_state (?rs ! ?r) = TxState_as_u8 Pending" by (auto simp: mark_def split: if_splits)
  have "get_state (?rs ! ?r) = Pending" using p by (simp add: get_state_def from_raw_as_u8)
  then have fresh: "ea_t_umac_done m = None" using ok assms(3) by (auto simp: msg_ok_def Let_def split: if_splits)
  have "tx_valid ?t" by (auto simp: tx_valid_def)
  then have marked: "msg_ok (?rs[?r := ?t]) m" using ok fresh assms(3,5) len by (simp add: msg_ok_def Let_def)
  have inj: "inj_on ea_tx_reporter (set (ll_outbound_messages s))" using d by (simp add: refs_def distinct_map)
  have "msg_ok (?rs[?r := ?t]) n" if n: "n \<in> set (ll_outbound_messages s)" for n
  proof (cases "n = m")
    case False
    then have "?r \<noteq> ea_tx_reporter n" using inj_onD [OF inj _ assms(2) n] by metis
    then have "?rs[?r := ?t] ! ea_tx_reporter n = ?rs ! ea_tx_reporter n" by (rule nth_list_update_neq)
    moreover have "msg_ok ?rs n" using n assms(1) by (simp add: llc_inv_def)
    ultimately show ?thesis using msg_ok_cong [of ?rs n "?rs[?r := ?t]"] by simp
  qed (use marked in simp)
  then show ?thesis using assms(1) unfolding s' by (simp add: llc_inv_def numbered_def next_seq_def)
qed

text \<open>A primitive is handled, unless it carries the acknowledgement of a discarded message.\<close>

definition late_ack :: "Llc \<Rightarrow> SapMsg \<Rightarrow> bool" where
  "late_ack s message \<longleftrightarrow>
     sm_sap message = TmaSap \<and> (case sm_msg message of Msg_TmaUnitdataInd ind \<Rightarrow> acks_discarded s ind | _ \<Rightarrow> False)"

lemma rx_unitdata_inv:
  assumes "llc_inv s" and pdu: "pred_option bb_inv (ti_pdu ind)"
  shows "if acks_discarded s ind then rx_tma_unitdata_ind ind s = Panic
    else \<exists>s'. rx_tma_unitdata_ind ind s = Ok ((), s') \<and> llc_inv s'"
proof (cases "ti_pdu ind")
  case None
  then show ?thesis using assms(1) by (simp add: rx_tma_unitdata_ind_def ret_def acks_discarded_def)
next
  case (Some b)
  let ?t = "LlcPduType_try_from (of_bits (take 4 (unread b)))"
  have inv: "bb_inv b" using pdu Some by simp
  show ?thesis
  proof (cases "4 \<le> length (unread b) \<and> (\<exists>t. ?t = Some t \<and> is_basic_link t)")
    case True
    then have "rx_tma_unitdata_ind ind s = rx_tma_unitdata_ind_bl ind s"
      using Some by (auto simp: rx_tma_unitdata_ind_def bind_def peek_bits_spec [OF inv])
    then show ?thesis using rx_bl_inv [OF assms] by simp
  next
    case False
    then have "\<not> acks_discarded s ind" using Some by (auto simp: acks_discarded_def carries_ack_def is_basic_link_def split: option.splits)
    then show ?thesis
      using False Some assms(1) by (auto simp: rx_tma_unitdata_ind_def bind_def ret_def peek_bits_spec [OF inv] split: option.split)
  qed
qed

lemma rx_prim_inv:
  assumes "llc_inv s" and "prim_ok s message"
  shows "if late_ack s message then Llc_rx_prim message s = Panic else \<exists>s'. Llc_rx_prim message s = Ok ((), s') \<and> llc_inv s'"
proof -
  have r: "\<exists>s'. ret () s = Ok ((), s') \<and> llc_inv s'" using assms(1) by (simp add: ret_def)
  have tla: "\<exists>s'. rx_tla_prim message s = Ok ((), s') \<and> llc_inv s'"
    using assms(2) r by (auto simp: rx_tla_prim_def prim_ok_def intro!: data_req_inv [OF assms(1)] unitdata_req_inv [OF assms(1)] split: SapMsgInner.split)
  have tma: "if late_ack s message then rx_tma_prim message s = Panic else \<exists>s'. rx_tma_prim message s = Ok ((), s') \<and> llc_inv s'"
    if "sm_sap message = TmaSap"
  proof (cases "\<exists>ind. sm_msg message = Msg_TmaUnitdataInd ind")
    case True
    then obtain ind where ind: "sm_msg message = Msg_TmaUnitdataInd ind" by blast
    with assms(2) have "pred_option bb_inv (ti_pdu ind)" by (simp add: prim_ok_def)
    from rx_unitdata_inv [OF assms(1) this] show ?thesis using ind that by (simp add: rx_tma_prim_def late_ack_def)
  next
    case False
    then show ?thesis using r by (cases "sm_msg message") (simp_all add: rx_tma_prim_def late_ack_def)
  qed
  show ?thesis
  proof (cases "sm_sap message = TmaSap")
    case True
    then show ?thesis using tma by (simp add: Llc_rx_prim_def)
  next
    case False
    then have "\<not> late_ack s message" by (simp add: late_ack_def)
    then show ?thesis using tla r False by (cases "sm_sap message") (simp_all add: Llc_rx_prim_def)
  qed
qed

lemma step_inv: "llc_step s s' \<Longrightarrow> llc_inv s \<Longrightarrow> llc_inv s'"
proof (induction rule: llc_step.induct)
  case (step_prim s message s')
  then show ?case using rx_prim_inv [of s message] by (auto split: if_splits)
next
  case (step_start ts s s')
  then show ?case by (auto simp: Llc_tick_start_def upd_def llc_inv_def numbered_def next_seq_def)
next
  case (step_end s act s')
  then show ?case by (rule tick_end_inv [rotated])
next
  case (step_config c s s')
  then show ?case by (auto simp: Llc_set_config_def upd_def intro: llc_inv_cong)
next
  case (step_transmitted m s s')
  then show ?case using report_inv by (simp add: mark_transmitted_def)
next
  case (step_discarded m s s')
  then show ?case using report_inv by (simp add: mark_discarded_def)
next
  case (step_others s rs q)
  then have "llc_inv (s\<lparr>ll_reporters := rs\<rparr>)" by (intro llc_inv_reporters) auto
  then show ?case by (rule llc_inv_cong) simp_all
qed

lemma llc_reach_inv: "llc_reach s \<Longrightarrow> llc_inv s"
  by (induction rule: llc_reach.induct) (auto intro: llc_inv_new step_inv)

section \<open>The two ends of a link\<close>

lemma header_types:
  "of_bits (to_bits 1 (0 :: u64) @ to_bits 1 (of_bool False :: u64) @ to_bits 2 (1 :: u64)) = (1 :: u64)"
  "of_bits (to_bits 1 (0 :: u64) @ to_bits 1 (of_bool False :: u64) @ to_bits 2 (3 :: u64)) = (3 :: u64)"
  by code_simp+

text \<open>A data PDU without a check sequence: an acknowledgement with its number is noted and its SDU handed up.\<close>

lemma data_received:
  assumes "pdu_is pdu (data_bits False None ns @ xs)" and "fits 1 ns" and "ti_pdu ind = Some pdu"
  defines "b \<equiv> pdu\<lparr>bb_pos := 5, bb_start := 5\<rparr>"
  shows "rx_tma_unitdata_ind ind p =
      Ok ((), p\<lparr>ll_scheduled_out_acks := ll_scheduled_out_acks p @
          [\<lparr>oa_addr = ti_main_address ind, oa_t_start = heard_at p, oa_nr = ns, oa_carrier_num = ti_carrier_num ind, oa_ts = tm_t (heard_at p)\<rparr>],
        ll_queue := ll_queue p @
          [to_mle (Msg_TlaTlDataIndBl (data_ind ind (ti_link_id ind) (if xs = [] then None else Some b) False))]\<rparr>)"
    "bb_inv b" "window b = xs"
proof -
  let ?h = "enc_BlData \<lparr>BlData_has_fcs = False, BlData_ns = ns\<rparr>"
  have u: "unread pdu = ?h @ xs" and inv: "bb_inv pdu" and pos: "bb_pos pdu = 0" "bb_start pdu = 0" "content pdu = ?h @ xs"
    using assms(1) pdu_is_unread by (simp_all add: pdu_is_def data_bits_def)
  have len: "length ?h = 5" by (simp add: enc_BlData_def)
  have "take 4 (unread pdu) = to_bits 1 (0 :: u64) @ to_bits 1 (of_bool False :: u64) @ to_bits 2 (1 :: u64)"
    unfolding u by (simp add: enc_BlData_def)
  then have t: "LlcPduType_try_from (of_bits (take 4 (unread pdu))) = Some LlcPduType_BlData"
    using header_types(1) by (simp add: LlcPduType_try_from_def)
  let ?b = "pdu\<lparr>bb_pos := 5\<rparr>"
  have e: "bb_end pdu = 5 + length xs" using length_content [OF inv] pos(3) len by simp
  have invb: "bb_inv ?b" using inv e pos by (intro bb_inv_advance) simp_all
  have "BlData_from_bitbuf pdu = Ok (\<lparr>BlData_has_fcs = False, BlData_ns = ns\<rparr>, ?b)"
    using parsesD [OF BlData.parses inv u] assms(2) len pos(1) by (simp add: wf_BlData_def)
  then have h: "bl_header LlcPduType_BlData pdu = Ok (Some (False, Some ns, None), ?b)" by (simp add: bl_header_def bind_def ret_def)
  have len4: "4 \<le> length (unread pdu)" using u len by simp
  have s: "set_raw_start 5 ?b = Ok ((), b)" using e by (simp add: set_raw_start_def b_def)
  have "0 < get_len_remaining b \<longleftrightarrow> xs \<noteq> []" using e by (simp add: get_len_remaining_def b_def)
  then have "deliver ind LlcPduType_BlData False ?b s' =
      push_back (to_mle (Msg_TlaTlDataIndBl (data_ind ind (ti_link_id ind) (if xs = [] then None else Some b) False))) s'" for s'
    using s by (simp add: deliver_def bind_def ret_def Let_def)
  then show "rx_tma_unitdata_ind ind p =
      Ok ((), p\<lparr>ll_scheduled_out_acks := ll_scheduled_out_acks p @
          [\<lparr>oa_addr = ti_main_address ind, oa_t_start = heard_at p, oa_nr = ns, oa_carrier_num = ti_carrier_num ind, oa_ts = tm_t (heard_at p)\<rparr>],
        ll_queue := ll_queue p @
          [to_mle (Msg_TlaTlDataIndBl (data_ind ind (ti_link_id ind) (if xs = [] then None else Some b) False))]\<rparr>)"
    using rx_bl_run [OF assms(3) inv len4 t h invb] t len4 assms(3)
    by (simp add: rx_tma_unitdata_ind_def peek_bits_spec [OF inv] is_basic_link_def bind_def ret_def schedule_outgoing_ack_def push_back_def upd_def)
  show "bb_inv b" using inv e by (simp add: b_def bb_inv_def)
  have "content b = content pdu" by (simp add: b_def content_def)
  then show "window b = xs" using pos(3) len e by (simp add: window_def b_def)
qed

text \<open>The reply to it at the first end.\<close>

lemma ack_parsed:
  assumes "pdu_is pdu (ack_bits nr)" and "fits 1 nr"
  shows "LlcPduType_try_from (of_bits (take 4 (unread pdu))) = Some LlcPduType_BlAck" "4 \<le> length (unread pdu)" "bb_inv pdu"
    "BlAck_from_bitbuf pdu = Ok (\<lparr>BlAck_has_fcs = False, BlAck_nr = nr\<rparr>, pdu\<lparr>bb_pos := 5\<rparr>)" "bb_inv (pdu\<lparr>bb_pos := 5\<rparr>)" "bb_end pdu = 5"
proof -
  let ?h = "enc_BlAck \<lparr>BlAck_has_fcs = False, BlAck_nr = nr\<rparr>"
  have u: "unread pdu = ?h @ []" and inv: "bb_inv pdu" and pos: "bb_pos pdu = 0" "bb_start pdu = 0" "content pdu = ?h"
    using assms(1) pdu_is_unread by (simp_all add: pdu_is_def ack_bits_def)
  have len: "length ?h = 5" by (simp add: enc_BlAck_def)
  have "take 4 (unread pdu) = to_bits 1 (0 :: u64) @ to_bits 1 (of_bool False :: u64) @ to_bits 2 (3 :: u64)"
    unfolding u by (simp add: enc_BlAck_def)
  then show "LlcPduType_try_from (of_bits (take 4 (unread pdu))) = Some LlcPduType_BlAck"
    using header_types(2) by (simp add: LlcPduType_try_from_def)
  show e: "bb_end pdu = 5" using length_content [OF inv] pos(3) len by simp
  then show "bb_inv (pdu\<lparr>bb_pos := 5\<rparr>)" using inv pos by (intro bb_inv_advance) simp_all
  show "BlAck_from_bitbuf pdu = Ok (\<lparr>BlAck_has_fcs = False, BlAck_nr = nr\<rparr>, pdu\<lparr>bb_pos := 5\<rparr>)"
    using parsesD [OF BlAck.parses inv u] assms(2) len pos(1) by (simp add: wf_BlAck_def)
  show "4 \<le> length (unread pdu)" using u len by simp
  show "bb_inv pdu" by (rule inv)
qed

lemma ack_carried: "pdu_is pdu (ack_bits nr) \<Longrightarrow> fits 1 nr \<Longrightarrow> carries_ack pdu nr"
  using ack_parsed [of pdu nr] by (simp add: carries_ack_def)

lemma ack_received:
  assumes "pdu_is pdu (ack_bits nr)" and "fits 1 nr" and "ti_pdu ind = Some pdu"
  shows "rx_tma_unitdata_ind ind s = process_incoming_ack (ti_main_address ind) (ti_carrier_num ind) nr s"
proof -
  let ?b = "pdu\<lparr>bb_pos := 5\<rparr>"
  note p = ack_parsed [OF assms(1,2)]
  have h: "bl_header LlcPduType_BlAck pdu = Ok (Some (False, None, Some nr), ?b)" using p(4) by (simp add: bl_header_def bind_def ret_def)
  have "deliver ind LlcPduType_BlAck False ?b s' = Ok ((), s')" for s' using p(6) by (simp add: deliver_def ret_def get_len_remaining_def)
  then show ?thesis
    using rx_bl_run [OF assms(3) p(3,2,1) h p(5)] p(1,2) assms(3)
    by (simp add: rx_tma_unitdata_ind_def peek_bits_spec [OF p(3)] is_basic_link_def bind_def ret_def split: outcome.split)
qed

section \<open>The retry timer\<close>

lemma due_when: "ea_t_umac_done m = Some t \<Longrightarrow> T251_SENDER_RETRY_TIMER \<le> TdmaTime_diff now t mod 2 ^ 32 \<Longrightarrow> due now rs m"
  by (simp add: due_def noted_def)

lemma freed_flight: "m \<in> set ms \<Longrightarrow> in_flight m \<Longrightarrow> m \<in> set (freed now B ms)"
  by (induction ms arbitrary: B) auto

lemma refs_free_msgs: "set (refs (free_msgs B ms)) \<subseteq> set (refs ms)"
  using free_msgs_first by (fastforce simp: refs_def)

lemma refs_retried: "refs (map (retried now rs) ms) = refs ms"
  by (simp add: refs_def)

lemma refs_inj: "llc_inv s \<Longrightarrow> m \<in> set (ll_outbound_messages s) \<Longrightarrow> n \<in> set (ll_outbound_messages s) \<Longrightarrow>
  ea_tx_reporter m = ea_tx_reporter n \<Longrightarrow> m = n"
  by (metis (mono_tags, lifting) distinct_map inj_onD llc_inv_def refs_def)

lemma tick_end_state:
  assumes "llc_inv s" and "Llc_tick_end s = Ok (act, s')"
  defines "t \<equiv> after_free (after_retries s)"
  shows "ll_outbound_messages s' = ll_outbound_messages t" "ll_reporters s' = ll_reporters t" "\<exists>qs. ll_queue s' = ll_queue t @ qs"
  using tick_end_run [OF assms(1)] assms(2) by (auto simp: t_def)

lemma retransmitted:
  assumes "llc_inv s" and "m \<in> set (ll_outbound_messages s)" and "ea_t_umac_done m = Some t"
    and "T251_SENDER_RETRY_TIMER \<le> TdmaTime_diff (ll_dltime s) t mod 2 ^ 32" and "Llc_tick_end s = Ok (act, s')"
    and "ea_retransmit_count m < N252_BL_MAX_TLSDU_RETRANSMITS_ACKED"
  shows "get_state (ll_reporters s' ! ea_tx_reporter m) = Pending"
    "ea_retransmission_buf m \<in> set (drop (length (ll_queue s)) (ll_queue s'))"
    "\<exists>m' \<in> set (ll_outbound_messages s'). ea_tx_reporter m' = ea_tx_reporter m \<and> in_flight m' \<and> ea_t_umac_done m' = None \<and>
       ea_retransmit_count m' = ea_retransmit_count m + 1"
proof -
  let ?now = "ll_dltime s" and ?rs = "ll_reporters s" and ?ms = "ll_outbound_messages s"
  have "again ?now ?rs m" using due_when [OF assms(3,4)] assms(6) by (simp add: again_def N252_BL_MAX_TLSDU_RETRANSMITS_ACKED_def)
  then have mem: "m \<in> set (filter (again ?now ?rs) ?ms)" "m \<in> set (filter (\<lambda>m. \<not> expired ?now ?rs m) ?ms)"
    using assms(2) by (simp_all add: again_def expired_def)
  let ?m = "sent_at ?now (m\<lparr>ea_retransmit_count := ea_retransmit_count m + 1\<rparr>)"
  have r: "retried ?now ?rs m = ?m" using \<open>again ?now ?rs m\<close> by (simp add: retried_def)
  have len: "ea_tx_reporter m < length ?rs" using assms(1,2) by (simp add: llc_inv_def msg_ok_def)
  note st = tick_end_state [OF assms(1,5)]
  have "ea_tx_reporter m \<in> set (refs (filter (again ?now ?rs) ?ms))" unfolding refs_def using mem(1) by (metis image_eqI set_map)
  then show "get_state (ll_reporters s' ! ea_tx_reporter m) = Pending"
    using len by (simp add: st(2) after_free_def after_retries_def Let_def)
  obtain qs where "ll_queue s' = ll_queue s @ map ea_retransmission_buf (filter (again ?now ?rs) ?ms) @ qs"
    using st(3) by (auto simp: after_free_def after_retries_def Let_def)
  then show "ea_retransmission_buf m \<in> set (drop (length (ll_queue s)) (ll_queue s'))" using mem(1) by auto
  have "retried ?now ?rs m \<in> set (ll_outbound_messages (after_retries s))" using mem(2) by (simp add: after_retries_def Let_def)
  then have "?m \<in> set (ll_outbound_messages (after_retries s))" unfolding r .
  then have "?m \<in> set (ll_outbound_messages s')"
    unfolding st(1) using freed_flight [of ?m] by (simp add: after_free_def Let_def in_flight_def sent_at_def)
  then show "\<exists>m' \<in> set (ll_outbound_messages s'). ea_tx_reporter m' = ea_tx_reporter m \<and> in_flight m' \<and> ea_t_umac_done m' = None \<and>
       ea_retransmit_count m' = ea_retransmit_count m + 1"
    by (intro bexI [of _ ?m]) (simp_all add: in_flight_def sent_at_def)
qed

lemma given_up:
  assumes "llc_inv s" and "m \<in> set (ll_outbound_messages s)" and "ea_t_umac_done m = Some t"
    and "T251_SENDER_RETRY_TIMER \<le> TdmaTime_diff (ll_dltime s) t mod 2 ^ 32" and "Llc_tick_end s = Ok (act, s')"
    and "\<not> ea_retransmit_count m < N252_BL_MAX_TLSDU_RETRANSMITS_ACKED"
  shows "ea_tx_reporter m \<notin> set (refs (ll_outbound_messages s'))"
    "get_state (ll_reporters s' ! ea_tx_reporter m) =
       (if get_state (ll_reporters s ! ea_tx_reporter m) = Transmitted then Lost else get_state (ll_reporters s ! ea_tx_reporter m))"
proof -
  let ?now = "ll_dltime s" and ?rs = "ll_reporters s" and ?ms = "ll_outbound_messages s" and ?r = "ea_tx_reporter m"
  have e: "expired ?now ?rs m" "\<not> again ?now ?rs m"
    using due_when [OF assms(3,4)] assms(6) by (simp_all add: expired_def again_def N252_BL_MAX_TLSDU_RETRANSMITS_ACKED_def)
  have only: "n = m" if "n \<in> set ?ms" "ea_tx_reporter n = ?r" for n using refs_inj [OF assms(1) that(1) assms(2) that(2)] .
  have len: "?r < length ?rs" using assms(1,2) by (simp add: llc_inv_def msg_ok_def)
  note st = tick_end_state [OF assms(1,5)]
  have gone: "?r \<notin> set (refs (filter (\<lambda>m. \<not> expired ?now ?rs m) ?ms))" and quiet: "?r \<notin> set (refs (filter (again ?now ?rs) ?ms))"
    unfolding refs_def using only e by auto
  then show "?r \<notin> set (refs (ll_outbound_messages s'))"
    by (simp add: st(1) after_free_def after_retries_def Let_def refs_freed refs_retried)
  have "?r \<in> set (refs (filter (expired ?now ?rs) ?ms))" unfolding refs_def using e(1) assms(2) by simp
  moreover have "?r \<notin> set (refs (free_msgs {} (map (retried ?now ?rs) (filter (\<lambda>m. \<not> expired ?now ?rs m) ?ms))))"
    using refs_free_msgs gone refs_retried by (metis subsetD)
  ultimately show "get_state (ll_reporters s' ! ?r) = (if get_state (?rs ! ?r) = Transmitted then Lost else get_state (?rs ! ?r))"
    using len quiet by (simp add: st(2) after_free_def after_retries_def Let_def)
qed

end
