(* ===== verification/Llc_Properties.thy ===== *)
theory Llc_Properties
  imports Llc_Link
begin

text \<open>Properties of the logical link control, each with a witness.\<close>

declare One_nat_def [simp del]

section \<open>A link with one message\<close>

definition sample_station :: TetraAddress where
  "sample_station = \<lparr>ta_ssi = 1001, ta_ssi_type = SsiType_Issi\<rparr>"

definition sample_request :: TlaTlDataReqBl where
  "sample_request =
     \<lparr>dq_main_address = sample_station, dq_link_id = 0, dq_endpoint_id = 0, dq_tl_sdu = BitBuffer_new 40, dq_stealing_permission = False,
      dq_subscriber_class = 0, dq_fcs_flag = False, dq_air_interface_encryption = None, dq_stealing_repeats_flag = None,
      dq_data_class_info = None, dq_req_handle = 0, dq_graceful_degradation = None, dq_chan_alloc = None, dq_tx_reporter = None\<rparr>"

definition sample_ind :: "bitbuffer \<Rightarrow> TmaUnitdataInd" where
  "sample_ind pdu =
     \<lparr>ti_carrier_num = 7, ti_pdu = Some pdu, ti_main_address = sample_station, ti_scrambling_code = 0, ti_link_id = 0, ti_endpoint_id = 0,
      ti_new_endpoint_id = None, ti_css_endpoint_id = None, ti_air_interface_encryption = 0, ti_chan_change_response_req = False,
      ti_chan_change_handle = None, ti_chan_info = None\<rparr>"

lemma sample_request_fields:
  "sdu_ok (dq_tl_sdu sample_request)" "\<not> dq_stealing_permission sample_request" "ta_ssi_type (dq_main_address sample_request) \<noteq> SsiType_Gssi"
  "dq_tx_reporter sample_request = None" "dq_main_address sample_request = sample_station" "\<not> dq_fcs_flag sample_request"
  "dq_chan_alloc sample_request = None"
proof -
  have "bb_inv (BitBuffer_new 40)" by simp
  then have "sdu_ok (BitBuffer_new 40)" unfolding sdu_ok_def by (simp add: length_unread get_len_remaining_def BitBuffer_new_def)
  then show "sdu_ok (dq_tl_sdu sample_request)" by (simp add: sample_request_def)
qed (simp_all add: sample_request_def sample_station_def)

definition sample_message :: SapMsg where
  "sample_message = \<lparr>sm_sap = TlaSap, sm_src = Entity_Mle, sm_dest = Entity_Llc, sm_msg = Msg_TlaTlDataReqBl sample_request\<rparr>"

text \<open>The request, the tick that submits it, the report of the upper MAC and the tick that notes it.\<close>

lemma sample_outbound:
  "\<exists>s m. llc_reach s \<and> ll_outbound_messages s = [m] \<and> \<not> in_flight m \<and> ea_t_umac_done m = None \<and> ea_addr m = sample_station \<and>
     ea_carrier_num m = 7 \<and> ea_ns m = 0 \<and> ea_retransmit_count m = 0 \<and> ll_dltime s = TdmaTime_default \<and> ll_scheduled_out_acks s = [] \<and>
     Llc_rx_prim sample_message (Llc_new 7) = Ok ((), s)"
proof -
  let ?s = "Llc_new 7"
  have none: "dq_tx_reporter sample_request = Some r \<Longrightarrow> fresh_reporter ?s r" for r using sample_request_fields(4) by simp
  from acked_request_run [OF llc_inv_new sample_request_fields(1) none sample_request_fields(2,3)] obtain nr acks pdu r rs s where
    s: "rx_tla_tldata_req_bl sample_request ?s = Ok ((), s)" "ll_outbound_messages s = [queued sample_request ?s nr pdu r]"
      "ll_dltime s = TdmaTime_default" "ll_scheduled_out_acks s = acks"
      "get_out_ack_seq_if_any (dq_main_address sample_request) (preferred_carrier (dq_chan_alloc sample_request) ?s) ?s =
        Ok (nr, ?s\<lparr>ll_scheduled_out_acks := acks\<rparr>)"
    by (auto simp: Llc_new_def)
  have "acks = []" using s(5) by (auto simp: get_out_ack_seq_if_any_def Llc_new_def)
  have run: "Llc_rx_prim sample_message ?s = Ok ((), s)" using s(1) by (simp add: sample_message_def Llc_rx_prim_def rx_tla_prim_def)
  moreover have "prim_ok ?s sample_message" using sample_request_fields(1,4) by (simp add: sample_message_def prim_ok_def)
  ultimately have "llc_reach s" by (blast intro: reach_new reach_step step_prim)
  then show ?thesis using run s(2,3,4) \<open>acks = []\<close> sample_request_fields(5,7)
    by (intro exI [of _ s] exI [of _ "queued sample_request ?s nr pdu r"])
       (simp add: queued_def in_flight_def Let_def next_seq_def Llc_new_def preferred_carrier_def)
qed

lemma sample_run:
  assumes "st = Transmitted \<or> st = Discarded"
  shows "\<exists>s1 m1 act s2 s3 act' s m. Llc_rx_prim sample_message (Llc_new 7) = Ok ((), s1) \<and> ll_outbound_messages s1 = [m1] \<and> ea_ns m1 = 0 \<and>
     Llc_tick_end s1 = Ok (act, s2) \<and> ea_retransmission_buf m1 \<in> set (ll_queue s2) \<and>
     on_reporter (ea_tx_reporter m1) (mark Pending st) s2 = Ok ((), s3) \<and> Llc_tick_end s3 = Ok (act', s) \<and>
     llc_reach s \<and> ll_outbound_messages s = [m] \<and> in_flight m \<and> ea_t_umac_done m = Some TdmaTime_default \<and> ea_addr m = sample_station \<and>
     ea_carrier_num m = 7 \<and> ea_ns m = 0 \<and> ea_retransmit_count m = 0 \<and> ll_dltime s = TdmaTime_default \<and>
     get_state (ll_reporters s ! ea_tx_reporter m) = st \<and> ll_scheduled_out_acks s = []"
proof -
  from sample_outbound obtain s1 m1 where
    s1: "llc_reach s1" "ll_outbound_messages s1 = [m1]" "\<not> in_flight m1" "ea_t_umac_done m1 = None" "ea_addr m1 = sample_station"
      "ea_carrier_num m1 = 7" "ea_ns m1 = 0" "ea_retransmit_count m1 = 0" "ll_dltime s1 = TdmaTime_default" "ll_scheduled_out_acks s1 = []"
      "Llc_rx_prim sample_message (Llc_new 7) = Ok ((), s1)" by blast
  let ?r = "ea_tx_reporter m1" and ?m2 = "sent_at TdmaTime_default m1"
  have ok: "msg_ok (ll_reporters s1) m1" using llc_reach_inv [OF s1(1)] s1(2) by (simp add: llc_inv_def)
  then have r: "?r < length (ll_reporters s1)" "get_state (ll_reporters s1 ! ?r) = Pending" "tx_valid (ll_reporters s1 ! ?r)"
    using s1(3) by (simp_all add: msg_ok_def Let_def)
  have n1: "\<not> due TdmaTime_default (ll_reporters s1) m1" "noted TdmaTime_default (ll_reporters s1) m1 = m1"
    using reported [OF r(3)] r(2) s1(4) by (simp_all add: due_def noted_def)
  have t1: "after_retries s1 = s1" using n1 s1(2,9) by (simp add: after_retries_def Let_def again_def expired_def retried_def)
  from tick_end_run [OF llc_reach_inv [OF s1(1)]] obtain act0 s2 where
    s2: "Llc_tick_end s1 = Ok (act0, s2)" "ll_outbound_messages s2 = [?m2]" "ll_dltime s2 = TdmaTime_default"
      "ll_reporters s2 = pending_at {?r} (ll_reporters s1)" "ll_scheduled_out_acks s2 = []" "ea_retransmission_buf m1 \<in> set (ll_queue s2)"
    unfolding t1 using s1(2,3,9) by (auto simp: after_free_def Let_def)
  have r2: "llc_reach s2" using s1(1) s2(1) by (blast intro: reach_step step_end)
  have fl: "in_flight ?m2" by (simp add: in_flight_def sent_at_def)
  let ?s3 = "s2\<lparr>ll_reporters := (ll_reporters s2)[?r := (ll_reporters s2 ! ?r)\<lparr>tx_state := TxState_as_u8 st\<rparr>]\<rparr>"
  have m: "on_reporter ?r (mark Pending st) s2 = Ok ((), ?s3)"
    using r(1) by (simp add: on_reporter_def reporter_def bind_def s2(4) mark_def calc_def upd_def)
  have r3: "llc_reach ?s3"
  proof (rule reach_step [OF r2])
    have "?m2 \<in> set (ll_outbound_messages s2)" "ea_tx_reporter ?m2 = ?r" using s2(2) by (simp_all add: sent_at_def)
    then show "llc_step s2 ?s3"
      using assms m fl step_transmitted [of ?m2 s2 ?s3] step_discarded [of ?m2 s2 ?s3] unfolding mark_transmitted_def mark_discarded_def by metis
  qed
  let ?m4 = "?m2\<lparr>ea_t_umac_done := Some TdmaTime_default\<rparr>"
  have g: "get_state (ll_reporters ?s3 ! ?r) = st" "tx_valid (ll_reporters ?s3 ! ?r)" using r(1) by (auto simp: s2(4) tx_valid_def)
  have n: "noted TdmaTime_default (ll_reporters ?s3) ?m2 = ?m4"
    using reported [OF g(2)] g(1) assms by (auto simp: noted_def sent_at_def)
  have "TdmaTime_diff TdmaTime_default TdmaTime_default = 0" by code_simp
  then have d: "\<not> due TdmaTime_default (ll_reporters ?s3) ?m2" unfolding due_def n by (simp add: T251_SENDER_RETRY_TIMER_def)
  have t3: "after_retries ?s3 = ?s3\<lparr>ll_outbound_messages := [?m4]\<rparr>"
    using n d s2(2,3) by (simp add: after_retries_def Let_def again_def expired_def retried_def)
  from tick_end_run [OF llc_reach_inv [OF r3]] obtain act s4 where
    s4: "Llc_tick_end ?s3 = Ok (act, s4)" "ll_outbound_messages s4 = [?m4]" "ll_dltime s4 = TdmaTime_default"
      "ll_reporters s4 = ll_reporters ?s3" "ll_scheduled_out_acks s4 = []"
    unfolding t3 using fl s2(3) by (auto simp: after_free_def Let_def in_flight_def)
  have "llc_reach s4" using r3 s4(1) by (blast intro: reach_step step_end)
  then show ?thesis using s1(2,11) s2(1,6) m s4 fl g(1) s1(5-8)
    by (intro exI [of _ s1] exI [of _ m1] exI [of _ act0] exI [of _ s2] exI [of _ ?s3] exI [of _ act] exI [of _ s4] exI [of _ ?m4])
       (simp add: in_flight_def sent_at_def)
qed

lemma sample_reported:
  assumes "st = Transmitted \<or> st = Discarded"
  shows "\<exists>s m. llc_reach s \<and> ll_outbound_messages s = [m] \<and> in_flight m \<and> ea_t_umac_done m = Some TdmaTime_default \<and> ea_addr m = sample_station \<and>
     ea_carrier_num m = 7 \<and> ea_ns m = 0 \<and> ea_retransmit_count m = 0 \<and> ll_dltime s = TdmaTime_default \<and>
     get_state (ll_reporters s ! ea_tx_reporter m) = st \<and> ll_scheduled_out_acks s = []"
  using sample_run [OF assms] by blast

lemma ack_pdu: "fits 1 nr \<Longrightarrow> \<exists>pdu. pdu_is pdu (ack_bits nr)"
  using ack_loop_run [of "[\<lparr>oa_addr = sample_station, oa_t_start = TdmaTime_default, oa_nr = nr, oa_carrier_num = 7, oa_ts = 1\<rparr>]" "Llc_new 7"]
  by (auto simp: acks_out_def list_all2_Cons1)

text \<open>A peer that has heard the request.\<close>

lemma sample_heard: "\<exists>p a. llc_reach p \<and> ll_scheduled_out_acks p = [a] \<and> oa_nr a = 0"
proof -
  obtain pdu where pdu: "pdu_is pdu (data_bits False None 0 @ [])"
    using data_pdu_run [of "BitBuffer_new 0" 0 None False] by (auto simp: sdu_ok_def unread_def content_def BitBuffer_new_def bb_inv_def)
  let ?q = "\<lparr>sm_sap = TmaSap, sm_src = Entity_Umac, sm_dest = Entity_Llc, sm_msg = Msg_TmaUnitdataInd (sample_ind pdu)\<rparr>"
  have i: "ti_pdu (sample_ind pdu) = Some pdu" by (simp add: sample_ind_def)
  obtain p a where p: "rx_tma_unitdata_ind (sample_ind pdu) (Llc_new 7) = Ok ((), p)" "ll_scheduled_out_acks p = [a]" "oa_nr a = 0"
    using data_received(1) [OF pdu _ i, of "Llc_new 7"] by (simp add: Llc_new_def)
  have "Llc_rx_prim ?q (Llc_new 7) = Ok ((), p)" using p(1) by (simp add: Llc_rx_prim_def rx_tma_prim_def)
  moreover have "prim_ok (Llc_new 7) ?q" using pdu i by (simp add: prim_ok_def pdu_is_def)
  ultimately show ?thesis using p(2,3) by (blast intro: reach_new reach_step step_prim)
qed

section \<open>Acknowledged transmission\<close>

text \<open>C14. In every reachable state at most one message to an SSI is under way and it is the oldest one queued for that SSI, and the send
  sequence numbers of the queued messages alternate and continue with the number that the next request will get.
\<close>

theorem link_stop_and_wait:
  assumes "llc_reach s"
  shows "length (filter in_flight (for_ssi a (ll_outbound_messages s))) \<le> 1 \<and>
    (\<forall>m \<in> set (tl (for_ssi a (ll_outbound_messages s))). \<not> in_flight m) \<and>
    alternates (map ea_ns (for_ssi a (ll_outbound_messages s))) (next_seq s a)"
proof -
  let ?link = "for_ssi a (ll_outbound_messages s)"
  have inv: "llc_inv s" by (rule llc_reach_inv [OF assms(1)])
  then have t: "\<forall>m \<in> set (tl ?link). \<not> in_flight m" by (simp add: llc_inv_def stop_and_wait_def)
  then have "filter in_flight (tl ?link) = []" by (simp add: filter_empty_conv)
  then have "length (filter in_flight ?link) \<le> 1" by (cases ?link) auto
  moreover have "alternates (map ea_ns ?link) (next_seq s a)" using inv by (simp add: llc_inv_def numbered_def)
  ultimately show ?thesis using t by blast
qed

theorem link_stop_and_wait_witness:
  "\<exists>s m. llc_reach s \<and> ll_outbound_messages s = [m] \<and> in_flight m \<and> alternates [ea_ns m] (next_seq s 1001)"
proof -
  from sample_reported [of Transmitted] obtain s m where
    s: "llc_reach s" "ll_outbound_messages s = [m]" "in_flight m" "ea_addr m = sample_station" by auto
  from link_stop_and_wait [OF s(1), of 1001] s(2-4) show ?thesis using s(1) by (auto simp: sample_station_def)
qed

text \<open>C17. In every reachable state a primitive is handled and leads to a reachable state, except that the handler panics exactly when a
  received PDU carries an acknowledgement (it is a BL-ACK or BL-ADATA, with a right check sequence if it has one) whose number is
  that of the message under way to the sender on that carrier and the upper MAC is known to have discarded that message. The end
  of a tick always returns. The primitives are those the neighbours may hand over (\<open>prim_ok\<close>): well-formed bit buffers, an SDU of
  fewer than \<open>2^63\<close> bits, and with a data request no reporter or one that expects an acknowledgement, is pending and is used by no
  queued message.
\<close>

theorem llc_panics_only_on_late_ack:
  assumes "llc_reach s" and "prim_ok s message"
  shows "(if late_ack s message then Llc_rx_prim message s = Panic
     else \<exists>s'. Llc_rx_prim message s = Ok ((), s') \<and> llc_reach s') \<and>
    (\<exists>act s'. Llc_tick_end s = Ok (act, s') \<and> llc_reach s')"
proof
  note inv = llc_reach_inv [OF assms(1)]
  from rx_prim_inv [OF inv assms(2)]
  show "if late_ack s message then Llc_rx_prim message s = Panic else \<exists>s'. Llc_rx_prim message s = Ok ((), s') \<and> llc_reach s'"
    using reach_step [OF assms(1) step_prim [OF assms(2)]] by (auto split: if_splits)
  from tick_end_run [OF inv] show "\<exists>act s'. Llc_tick_end s = Ok (act, s') \<and> llc_reach s'"
    using reach_step [OF assms(1) step_end] by blast
qed

theorem llc_panics_only_on_late_ack_witness:
  "llc_reach (Llc_new 7) \<and> prim_ok (Llc_new 7) sample_message \<and> (\<exists>s'. Llc_rx_prim sample_message (Llc_new 7) = Ok ((), s') \<and> llc_reach s')"
proof -
  have ok: "prim_ok (Llc_new 7) sample_message" using sample_request_fields(1,4) by (simp add: prim_ok_def sample_message_def)
  have "\<not> late_ack (Llc_new 7) sample_message" by (simp add: late_ack_def sample_message_def)
  with llc_panics_only_on_late_ack [OF reach_new ok] reach_new ok show ?thesis by auto
qed

text \<open>C20. A link layer can be driven into that panic: in a new link layer a request of the MLE queues a message, the end of the tick
  submits it to the upper MAC, the upper MAC discards it, the end of the next tick notes that, and then a PDU arrives from the
  message's addressee which acknowledges the message's number; on it the handler panics. Every primitive is one its neighbour may
  hand over.
\<close>

theorem late_ack_reachable:
  "\<exists>s1 m act s2 s3 act' s4 pdu ack. prim_ok (Llc_new 7) sample_message \<and> Llc_rx_prim sample_message (Llc_new 7) = Ok ((), s1) \<and>
     ll_outbound_messages s1 = [m] \<and> Llc_tick_end s1 = Ok (act, s2) \<and> ea_retransmission_buf m \<in> set (ll_queue s2) \<and>
     on_reporter (ea_tx_reporter m) mark_discarded s2 = Ok ((), s3) \<and> Llc_tick_end s3 = Ok (act', s4) \<and> llc_reach s4 \<and>
     sm_sap ack = TmaSap \<and> sm_msg ack = Msg_TmaUnitdataInd (sample_ind pdu) \<and> carries_ack pdu (ea_ns m) \<and> prim_ok s4 ack \<and>
     Llc_rx_prim ack s4 = Panic"
proof -
  from sample_run [of Discarded] obtain s1 m1 act s2 s3 act' s m where
    r: "Llc_rx_prim sample_message (Llc_new 7) = Ok ((), s1)" "ll_outbound_messages s1 = [m1]" "ea_ns m1 = 0" "Llc_tick_end s1 = Ok (act, s2)"
      "ea_retransmission_buf m1 \<in> set (ll_queue s2)" "on_reporter (ea_tx_reporter m1) (mark Pending Discarded) s2 = Ok ((), s3)"
      "Llc_tick_end s3 = Ok (act', s)" and
    s: "llc_reach s" "ll_outbound_messages s = [m]" "in_flight m" "ea_t_umac_done m = Some TdmaTime_default" "ea_addr m = sample_station"
      "ea_carrier_num m = 7" "ea_ns m = 0" "get_state (ll_reporters s ! ea_tx_reporter m) = Discarded" by auto
  obtain pdu where pdu: "pdu_is pdu (ack_bits 0)" using ack_pdu [of 0] by auto
  let ?q = "\<lparr>sm_sap = TmaSap, sm_src = Entity_Umac, sm_dest = Entity_Llc, sm_msg = Msg_TmaUnitdataInd (sample_ind pdu)\<rparr>"
  have a: "awaits_ack (ta_ssi sample_station) 7 m" using s(3,5,6) by (simp add: awaits_ack_def in_flight_def)
  have "rx_tma_unitdata_ind (sample_ind pdu) s = process_incoming_ack sample_station 7 0 s"
    using ack_received [OF pdu, of "sample_ind pdu"] by (simp add: sample_ind_def)
  also have "\<dots> = Panic" using ack_run [OF llc_reach_inv [OF s(1)], of "[]" m "[]" sample_station 7 0] s(2,4,7,8) a by simp
  finally have "Llc_rx_prim ?q s = Panic" by (simp add: Llc_rx_prim_def rx_tma_prim_def)
  moreover have "prim_ok s ?q" using pdu by (simp add: prim_ok_def sample_ind_def pdu_is_def)
  moreover have "prim_ok (Llc_new 7) sample_message" using sample_request_fields(1,4) by (simp add: prim_ok_def sample_message_def)
  moreover have "carries_ack pdu (ea_ns m1)" using ack_carried [OF pdu] r(3) by simp
  ultimately show ?thesis using r s(1) unfolding mark_discarded_def
    by (intro exI [of _ s1] exI [of _ m1] exI [of _ act] exI [of _ s2] exI [of _ s3] exI [of _ act'] exI [of _ s] exI [of _ pdu] exI [of _ ?q]) simp
qed

section \<open>Ticks\<close>

text \<open>C18. The end of a tick leaves no link idle that has a message queued: the oldest message of every link is under way. It answers every
  acknowledgement that was scheduled, each with its number and in the order of the list, hands on every unacknowledged message, and
  leaves both lists empty.
\<close>

theorem tick_serves_every_link:
  assumes "llc_reach s"
  shows "\<exists>act s' sent acks. Llc_tick_end s = Ok (act, s') \<and>
    (\<forall>a. for_ssi a (ll_outbound_messages s') = [] \<or> in_flight (hd (for_ssi a (ll_outbound_messages s')))) \<and>
    ll_queue s' = ll_queue s @ sent @ acks @ ll_outbound_udata_messages s \<and> acks_out (ll_scheduled_out_acks s) acks \<and>
    ll_scheduled_out_acks s' = [] \<and> ll_outbound_udata_messages s' = []"
proof -
  let ?t = "after_free (after_retries s)"
  from tick_end_run [OF llc_reach_inv [OF assms]] obtain act qs where run: "Llc_tick_end s =
      Ok (act, ?t\<lparr>ll_scheduled_out_acks := [], ll_outbound_udata_messages := [], ll_queue := ll_queue ?t @ qs @ ll_outbound_udata_messages s\<rparr>)"
    "acks_out (ll_scheduled_out_acks s) qs" by blast
  obtain sent where sent: "ll_queue ?t = ll_queue s @ sent" by (simp add: after_free_def after_retries_def Let_def)
  have "for_ssi a (ll_outbound_messages ?t) = [] \<or> in_flight (hd (for_ssi a (ll_outbound_messages ?t)))" for a
    by (auto simp: after_free_def Let_def for_ssi_freed in_flight_def sent_at_def split: list.split)
  note flying = allI [of "\<lambda>a. for_ssi a (ll_outbound_messages ?t) = [] \<or> in_flight (hd (for_ssi a (ll_outbound_messages ?t)))", OF this]
  let ?s' = "?t\<lparr>ll_scheduled_out_acks := [], ll_outbound_udata_messages := [], ll_queue := ll_queue ?t @ qs @ ll_outbound_udata_messages s\<rparr>"
  show ?thesis using run sent flying by (intro exI [of _ act] exI [of _ ?s'] exI [of _ sent] exI [of _ qs]) simp
qed

theorem tick_serves_every_link_witness:
  "\<exists>s m act s'. llc_reach s \<and> ll_outbound_messages s = [m] \<and> \<not> in_flight m \<and> Llc_tick_end s = Ok (act, s') \<and>
    (for_ssi 1001 (ll_outbound_messages s') = [] \<or> in_flight (hd (for_ssi 1001 (ll_outbound_messages s'))))"
proof -
  from sample_outbound obtain s m where s: "llc_reach s" "ll_outbound_messages s = [m]" "\<not> in_flight m" by blast
  from tick_serves_every_link [OF s(1)] s show ?thesis by blast
qed

text \<open>C19. A message whose retry timer has run out is submitted again, with its reporter pending again, as long as it has been sent again
  fewer than three times; after that it leaves the list, and its reporter says that it is lost if the upper MAC had transmitted it.
\<close>

theorem retransmission_or_loss:
  assumes "llc_reach s" and "m \<in> set (ll_outbound_messages s)" and "ea_t_umac_done m = Some t"
    and "T251_SENDER_RETRY_TIMER \<le> TdmaTime_diff (ll_dltime s) t mod 2 ^ 32" and "Llc_tick_end s = Ok (act, s')"
  defines "r \<equiv> ea_tx_reporter m"
  shows "if ea_retransmit_count m < N252_BL_MAX_TLSDU_RETRANSMITS_ACKED
    then get_state (ll_reporters s' ! r) = Pending \<and> ea_retransmission_buf m \<in> set (drop (length (ll_queue s)) (ll_queue s')) \<and>
      (\<exists>m' \<in> set (ll_outbound_messages s'). ea_tx_reporter m' = r \<and> in_flight m' \<and> ea_t_umac_done m' = None \<and>
         ea_retransmit_count m' = ea_retransmit_count m + 1)
    else r \<notin> set (refs (ll_outbound_messages s')) \<and>
      get_state (ll_reporters s' ! r) = (if get_state (ll_reporters s ! r) = Transmitted then Lost else get_state (ll_reporters s ! r))"
proof -
  note inv = llc_reach_inv [OF assms(1)]
  show ?thesis
    using retransmitted [OF inv assms(2-5)] given_up [OF inv assms(2-5)] unfolding r_def
    by (cases "ea_retransmit_count m < N252_BL_MAX_TLSDU_RETRANSMITS_ACKED") simp_all
qed

theorem retransmission_or_loss_witness:
  "\<exists>s m act s'. llc_reach s \<and> m \<in> set (ll_outbound_messages s) \<and> Llc_tick_end s = Ok (act, s') \<and>
    get_state (ll_reporters s ! ea_tx_reporter m) = Transmitted \<and> get_state (ll_reporters s' ! ea_tx_reporter m) = Pending"
proof -
  from sample_reported [of Transmitted] obtain s0 m where
    s: "llc_reach s0" "ll_outbound_messages s0 = [m]" "in_flight m" "ea_t_umac_done m = Some TdmaTime_default"
      "ea_retransmit_count m = 0" "get_state (ll_reporters s0 ! ea_tx_reporter m) = Transmitted" by auto
  let ?now = "\<lparr>tm_t = 1, tm_f = 7, tm_m = 1, tm_h = 0\<rparr>"
  let ?s = "s0\<lparr>ll_dltime := ?now\<rparr>"
  have "TdmaTime_is_valid ?now" by (simp add: TdmaTime_is_valid_def word_le_nat_alt)
  then have r: "llc_reach ?s" by (intro reach_step [OF s(1)] step_start [of ?now]) (simp_all add: Llc_tick_start_def upd_def)
  obtain act s' where t: "Llc_tick_end ?s = Ok (act, s')" using tick_end_run [OF llc_reach_inv [OF r]] by blast
  have d: "T251_SENDER_RETRY_TIMER \<le> TdmaTime_diff ?now TdmaTime_default mod 2 ^ 32" by code_simp
  have "m \<in> set (ll_outbound_messages ?s)" using s(2) by simp
  from retransmission_or_loss [OF r this s(4) _ t] d s(5) have "get_state (ll_reporters s' ! ea_tx_reporter m) = Pending"
    by (simp add: N252_BL_MAX_TLSDU_RETRANSMITS_ACKED_def)
  then show ?thesis using r t s(2,6) by (intro exI [of _ ?s] exI [of _ m] exI [of _ act] exI [of _ s']) simp
qed

section \<open>The two ends of a link\<close>

text \<open>C15. A plain data request for an individual address arrives. When the request asks for no frame check sequence and no stealing, its SDU
  is a well-formed buffer of fewer than \<open>2^63\<close> bits, its reporter (if it has one) expects an acknowledgement, is pending and is
  used by no queued message, and no acknowledgement waits to be piggybacked on it (so that
  it goes out as BL-DATA, not BL-ADATA), then its message is queued, and the queued PDU, received by a peer in any reachable
  state, makes the peer hand exactly the bits of the request up to its MLE and schedule an acknowledgement with the number of the
  message.
\<close>

theorem data_reaches_the_peer:
  assumes "llc_reach s" and "llc_reach p" and "sdu_ok (dq_tl_sdu prim)" and "pred_option (fresh_reporter s) (dq_tx_reporter prim)"
    and "\<not> dq_stealing_permission prim" and "ta_ssi_type (dq_main_address prim) \<noteq> SsiType_Gssi" and "\<not> dq_fcs_flag prim"
    and "get_out_ack_seq_if_any (dq_main_address prim) (preferred_carrier (dq_chan_alloc prim) s) s = Ok (None, s)"
  shows "\<exists>s' m req. rx_tla_tldata_req_bl prim s = Ok ((), s') \<and> ll_outbound_messages s' = ll_outbound_messages s @ [m] \<and>
    ea_retransmission_buf m = to_umac req \<and> tq_main_address req = dq_main_address prim \<and>
    (\<forall>ind. ti_pdu ind = Some (tq_pdu req) \<longrightarrow>
       (\<exists>p' sdu a. rx_tma_unitdata_ind ind p = Ok ((), p') \<and>
          ll_queue p' = ll_queue p @ [to_mle (Msg_TlaTlDataIndBl (data_ind ind (ti_link_id ind) sdu False))] \<and>
          (case sdu of None \<Rightarrow> [] | Some b \<Rightarrow> window b) = unread (dq_tl_sdu prim) \<and>
          ll_scheduled_out_acks p' = ll_scheduled_out_acks p @ [a] \<and>
          oa_addr a = ti_main_address ind \<and> oa_nr a = ea_ns m \<and> oa_carrier_num a = ti_carrier_num ind))"
proof -
  let ?a = "ta_ssi (dq_main_address prim)" and ?xs = "unread (dq_tl_sdu prim)"
  have inv: "llc_inv s" by (rule llc_reach_inv [OF assms(1)])
  have "fresh_reporter s r" if "dq_tx_reporter prim = Some r" for r using assms(4) that by simp
  from acked_request_run [OF inv assms(3) this assms(5,6)] assms(7,8) obtain s' pdu r where
    s': "rx_tla_tldata_req_bl prim s = Ok ((), s')" "ll_outbound_messages s' = ll_outbound_messages s @ [queued prim s None pdu r]"
      and pdu: "pdu_is pdu (data_bits False None (next_seq s ?a) @ ?xs)" by auto
  let ?m = "queued prim s None pdu r" and ?req = "data_req prim (preferred_carrier (dq_chan_alloc prim) s) pdu 0 (Some r)"
  have m: "ea_retransmission_buf ?m = to_umac ?req" "ea_ns ?m = next_seq s ?a" "tq_pdu ?req = pdu" "tq_main_address ?req = dq_main_address prim"
    by (simp_all add: queued_def Let_def data_req_def)
  have "alternates (map ea_ns (for_ssi ?a (ll_outbound_messages s))) (next_seq s ?a)" using inv by (simp add: llc_inv_def numbered_def)
  then have "fits 1 (next_seq s ?a)" using alternates_bits fits_bit by blast
  note received = data_received [OF pdu this]
  let ?sdu = "if ?xs = [] then None else Some (pdu\<lparr>bb_pos := 5, bb_start := 5\<rparr>)"
  have "\<exists>p' sdu a. rx_tma_unitdata_ind ind p = Ok ((), p') \<and>
          ll_queue p' = ll_queue p @ [to_mle (Msg_TlaTlDataIndBl (data_ind ind (ti_link_id ind) sdu False))] \<and>
          (case sdu of None \<Rightarrow> [] | Some b \<Rightarrow> window b) = ?xs \<and> ll_scheduled_out_acks p' = ll_scheduled_out_acks p @ [a] \<and>
          oa_addr a = ti_main_address ind \<and> oa_nr a = ea_ns ?m \<and> oa_carrier_num a = ti_carrier_num ind"
    if "ti_pdu ind = Some pdu" for ind
  proof -
    let ?ack = "\<lparr>oa_addr = ti_main_address ind, oa_t_start = heard_at p, oa_nr = next_seq s ?a, oa_carrier_num = ti_carrier_num ind, oa_ts = tm_t (heard_at p)\<rparr>"
    let ?p' = "p\<lparr>ll_scheduled_out_acks := ll_scheduled_out_acks p @ [?ack],
        ll_queue := ll_queue p @ [to_mle (Msg_TlaTlDataIndBl (data_ind ind (ti_link_id ind) ?sdu False))]\<rparr>"
    show ?thesis using received(1) [OF that, of p] received(3) [OF that] m(2)
      by (intro exI [of _ ?p'] exI [of _ ?sdu] exI [of _ ?ack]) simp
  qed
  then show ?thesis using s' m by (intro exI [of _ s'] exI [of _ ?m] exI [of _ ?req]) simp
qed

theorem data_reaches_the_peer_witness:
  "\<exists>s' m req p' sdu. rx_tla_tldata_req_bl sample_request (Llc_new 7) = Ok ((), s') \<and> ll_outbound_messages s' = [m] \<and>
    ea_retransmission_buf m = to_umac req \<and> rx_tma_unitdata_ind (sample_ind (tq_pdu req)) (Llc_new 7) = Ok ((), p') \<and>
    ll_queue p' = [to_mle (Msg_TlaTlDataIndBl (data_ind (sample_ind (tq_pdu req)) 0 (Some sdu) False))] \<and> window sdu = replicate 40 False"
proof -
  have "get_out_ack_seq_if_any (dq_main_address sample_request) (preferred_carrier (dq_chan_alloc sample_request) (Llc_new 7)) (Llc_new 7) =
      Ok (None, Llc_new 7)" by (simp add: get_out_ack_seq_if_any_def Llc_new_def)
  moreover have "pred_option (fresh_reporter (Llc_new 7)) (dq_tx_reporter sample_request)" using sample_request_fields(4) by simp
  ultimately obtain s' m req where
    s': "rx_tla_tldata_req_bl sample_request (Llc_new 7) = Ok ((), s')" "ll_outbound_messages s' = ll_outbound_messages (Llc_new 7) @ [m]"
      "ea_retransmission_buf m = to_umac req"
    and peer: "\<forall>ind. ti_pdu ind = Some (tq_pdu req) \<longrightarrow>
       (\<exists>p' sdu a. rx_tma_unitdata_ind ind (Llc_new 7) = Ok ((), p') \<and>
          ll_queue p' = ll_queue (Llc_new 7) @ [to_mle (Msg_TlaTlDataIndBl (data_ind ind (ti_link_id ind) sdu False))] \<and>
          (case sdu of None \<Rightarrow> [] | Some b \<Rightarrow> window b) = unread (dq_tl_sdu sample_request) \<and>
          ll_scheduled_out_acks p' = ll_scheduled_out_acks (Llc_new 7) @ [a] \<and>
          oa_addr a = ti_main_address ind \<and> oa_nr a = ea_ns m \<and> oa_carrier_num a = ti_carrier_num ind)"
    using data_reaches_the_peer [OF reach_new [of 7] reach_new [of 7] sample_request_fields(1) _ sample_request_fields(2,3,6)] by blast
  from peer [rule_format, of "sample_ind (tq_pdu req)"] obtain p' sdu where
    p': "rx_tma_unitdata_ind (sample_ind (tq_pdu req)) (Llc_new 7) = Ok ((), p')"
      "ll_queue p' = [to_mle (Msg_TlaTlDataIndBl (data_ind (sample_ind (tq_pdu req)) 0 sdu False))]"
      "(case sdu of None \<Rightarrow> [] | Some b \<Rightarrow> window b) = unread (dq_tl_sdu sample_request)"
    by (auto simp: sample_ind_def Llc_new_def)
  have u: "unread (dq_tl_sdu sample_request) = replicate 40 False"
    using content_new [of 40] by (simp add: sample_request_def unread_def BitBuffer_new_def)
  then obtain b where "sdu = Some b" "window b = replicate 40 False" using p'(3) by (cases sdu) auto
  then show ?thesis using s' p'(1,2) by (auto simp: Llc_new_def)
qed

text \<open>C16. The reply comes back: for every acknowledgement that a reachable link layer has scheduled, the end of its tick sends a PDU which,
  received by the other end while the message with that number is under way and transmitted, takes the message off the list and marks its
  reporter as acknowledged.
\<close>

theorem reply_acknowledges:
  assumes "llc_reach p" and "a \<in> set (ll_scheduled_out_acks p)" and "llc_reach s" and "ll_outbound_messages s = ms @ m # ns"
    and "awaits_ack ssi c m" and "ea_t_umac_done m = Some t" and "ea_ns m = oa_nr a"
    and "get_state (ll_reporters s ! ea_tx_reporter m) = Transmitted"
  shows "\<exists>act p' req. Llc_tick_end p = Ok (act, p') \<and> to_umac req \<in> set (ll_queue p') \<and> tq_main_address req = oa_addr a \<and>
    tq_carrier_num req = Some (oa_carrier_num a) \<and>
    (\<forall>ind. ti_pdu ind = Some (tq_pdu req) \<and> ta_ssi (ti_main_address ind) = ssi \<and> ti_carrier_num ind = c \<longrightarrow>
       (\<exists>s'. rx_tma_unitdata_ind ind s = Ok ((), s') \<and> ll_outbound_messages s' = ms @ ns \<and>
          get_state (ll_reporters s' ! ea_tx_reporter m) = Acknowledged))"
proof -
  have invp: "llc_inv p" and inv: "llc_inv s" using assms(1,3) llc_reach_inv by blast+
  let ?t = "after_free (after_retries p)"
  from tick_end_run [OF invp] obtain act p' qs where p': "Llc_tick_end p = Ok (act, p')"
    "ll_queue p' = ll_queue ?t @ qs @ ll_outbound_udata_messages p" "acks_out (ll_scheduled_out_acks p) qs" by fastforce
  obtain i where i: "i < length (ll_scheduled_out_acks p)" "ll_scheduled_out_acks p ! i = a" using assms(2) by (auto simp: in_set_conv_nth)
  with p'(3) have "i < length qs" "\<exists>b. qs ! i = to_umac (ack_reply a b) \<and> pdu_is b (ack_bits (oa_nr a))"
    by (auto simp: acks_out_def list_all2_conv_all_nth)
  moreover from this(1) have "qs ! i \<in> set (ll_queue p')" by (simp add: p'(2))
  ultimately obtain b where b: "to_umac (ack_reply a b) \<in> set (ll_queue p')" "pdu_is b (ack_bits (oa_nr a))" by auto
  have nr: "fits 1 (oa_nr a)" using invp assms(2) by (simp add: llc_inv_def)
  have len: "ea_tx_reporter m < length (ll_reporters s)" using inv assms(4) by (simp add: llc_inv_def msg_ok_def)
  have "rx_tma_unitdata_ind ind s = Ok ((), s\<lparr>ll_outbound_messages := ms @ ns, ll_reporters := acknowledged_at (ea_tx_reporter m) (ll_reporters s)\<rparr>)"
    if "ti_pdu ind = Some b" "ta_ssi (ti_main_address ind) = ssi" "ti_carrier_num ind = c" for ind
    using ack_received [OF b(2) nr that(1)] ack_run [OF inv assms(4), of "ti_main_address ind" c "oa_nr a"] assms(5-8) that(2,3) by simp
  then have acked: "\<exists>s'. rx_tma_unitdata_ind ind s = Ok ((), s') \<and> ll_outbound_messages s' = ms @ ns \<and>
      get_state (ll_reporters s' ! ea_tx_reporter m) = Acknowledged"
    if "ti_pdu ind = Some b" "ta_ssi (ti_main_address ind) = ssi" "ti_carrier_num ind = c" for ind
    using that len by (simp add: acknowledged_at_def)
  have "tq_pdu (ack_reply a b) = b" "tq_main_address (ack_reply a b) = oa_addr a" "tq_carrier_num (ack_reply a b) = Some (oa_carrier_num a)"
    by (simp_all add: ack_reply_def Let_def)
  then show ?thesis using p'(1) b(1) acked by (intro exI [of _ act] exI [of _ p'] exI [of _ "ack_reply a b"]) simp
qed

theorem reply_acknowledges_witness:
  "\<exists>p a s m act p' req s'. llc_reach p \<and> ll_scheduled_out_acks p = [a] \<and> llc_reach s \<and> ll_outbound_messages s = [m] \<and>
    Llc_tick_end p = Ok (act, p') \<and> to_umac req \<in> set (ll_queue p') \<and> rx_tma_unitdata_ind (sample_ind (tq_pdu req)) s = Ok ((), s') \<and>
    ll_outbound_messages s' = [] \<and> get_state (ll_reporters s' ! ea_tx_reporter m) = Acknowledged"
proof -
  from sample_reported [of Transmitted] obtain s m where
    s: "llc_reach s" "ll_outbound_messages s = [] @ m # []" "in_flight m" "ea_t_umac_done m = Some TdmaTime_default" "ea_addr m = sample_station"
      "ea_carrier_num m = 7" "ea_ns m = 0" "get_state (ll_reporters s ! ea_tx_reporter m) = Transmitted" by auto
  have aw: "awaits_ack 1001 7 m" using s(3,5,6) by (simp add: awaits_ack_def in_flight_def sample_station_def)
  from sample_heard obtain p a where p: "llc_reach p" "ll_scheduled_out_acks p = [a]" "oa_nr a = 0" by blast
  then have "a \<in> set (ll_scheduled_out_acks p)" "ea_ns m = oa_nr a" using s(7) by simp_all
  from reply_acknowledges [OF p(1) this(1) s(1,2) aw s(4) this(2) s(8)] obtain act p' req where
    r: "Llc_tick_end p = Ok (act, p')" "to_umac req \<in> set (ll_queue p')"
      "\<forall>ind. ti_pdu ind = Some (tq_pdu req) \<and> ta_ssi (ti_main_address ind) = 1001 \<and> ti_carrier_num ind = 7 \<longrightarrow>
         (\<exists>s'. rx_tma_unitdata_ind ind s = Ok ((), s') \<and> ll_outbound_messages s' = [] @ [] \<and>
          get_state (ll_reporters s' ! ea_tx_reporter m) = Acknowledged)" by blast
  have "ti_pdu (sample_ind (tq_pdu req)) = Some (tq_pdu req) \<and> ta_ssi (ti_main_address (sample_ind (tq_pdu req))) = 1001 \<and>
      ti_carrier_num (sample_ind (tq_pdu req)) = 7" by (simp add: sample_ind_def sample_station_def)
  with r(3) obtain s' where "rx_tma_unitdata_ind (sample_ind (tq_pdu req)) s = Ok ((), s')" "ll_outbound_messages s' = []"
    "get_state (ll_reporters s' ! ea_tx_reporter m) = Acknowledged" by fastforce
  then show ?thesis using p(1,2) s(1,2) r(1,2) by (metis append_Nil)
qed

section \<open>The frame check sequence\<close>

text \<open>C21. A PDU with a correct frame check sequence in which a burst of at most 32 consecutive bits has been changed (some of them at least) is
  rejected, wherever the burst is.
\<close>

theorem fcs_detects_bursts:
  assumes "bb_inv b" and "bb_inv c" and "check_fcs b = Ok True" and "length (unread c) = length (unread b)"
    and "xor_list (unread b) (unread c) = replicate i False @ u @ replicate j False" and "length u \<le> 32" and "unread b \<noteq> unread c"
  shows "check_fcs c = Ok False"
proof -
  have "fcs_ok (unread b)" using assms(3) check_fcs_spec [OF assms(1)] by simp
  from burst_detected [OF this assms(4,5,6,7)] show ?thesis using check_fcs_spec [OF assms(2)] by simp
qed

theorem fcs_detects_bursts_witness:
  "\<exists>b c. bb_inv b \<and> bb_inv c \<and> check_fcs b = Ok True \<and> unread b = replicate 32 False \<and> unread c = replicate 3 False @ [True] @ replicate 28 False \<and>
    check_fcs c = Ok False"
proof -
  obtain b where b: "bb_inv b" "unread b = replicate 32 False" using buffer_of_bits [of "replicate 32 False"] by auto
  obtain c where c: "bb_inv c" "unread c = replicate 3 False @ [True] @ replicate 28 False"
    using buffer_of_bits [of "replicate 3 False @ [True] @ replicate 28 False"] by auto
  have "fcs_ok (replicate 32 False)" by code_simp
  then have ok: "check_fcs b = Ok True" using check_fcs_spec [OF b(1)] b(2) by simp
  have "xor_list (unread b) (unread c) = replicate 3 False @ [True] @ replicate 28 False" unfolding b(2) c(2) by code_simp
  moreover have "unread b \<noteq> unread c" unfolding b(2) c(2) by code_simp
  ultimately have "check_fcs c = Ok False"
    by (intro fcs_detects_bursts [OF b(1) c(1) ok, of 3 "[True]" 28]) (simp_all add: b(2) c(2))
  then show ?thesis using b c ok by blast
qed

end
