(* ===== verification/L3_Codec.thy ===== *)
theory L3_Codec
  imports Lower_Enums
begin

text \<open>
  What the layer-3 PDUs (\<open>tetra-pdus/src/mm\<close>, \<open>tetra-pdus/src/cmce\<close>) share: after the fixed fields an o-bit says whether
  optional elements follow; these stand in a fixed order, each present or absent, and a last m-bit of 0 closes the PDU. The rules below
  compose the readers and writers of the elements, so that a PDU's codec is proved by applying them in the order of its definition.
\<close>

text \<open>The end of \<open>from_bitbuf\<close>: the m-bit behind the last optional element.\<close>

definition read_trailing_mbit :: "bool \<Rightarrow> unit bb" where
  "read_trailing_mbit obit =
     bind (if obit then bind (read_field 1 ''trailing_obit'') (\<lambda>v. ret (v = 1)) else ret obit) (\<lambda>obit.
     if obit then fail InvalidTrailingMbitValue else ret ())"

text \<open>\<open>T::try_from(v).unwrap()\<close> on a value that has just been read, and on an optional one.\<close>

definition unwrap_enum :: "(u64 \<Rightarrow> 'a option) \<Rightarrow> u64 \<Rightarrow> 'a bb" where
  "unwrap_enum try_from v = (case try_from v of Some e \<Rightarrow> ret e | None \<Rightarrow> panic)"

definition read_enum_unwrap :: "(u64 \<Rightarrow> 'a option) \<Rightarrow> nat \<Rightarrow> string \<Rightarrow> 'a bb" where
  "read_enum_unwrap try_from n s = bind (read_field n s) (unwrap_enum try_from)"

definition parse_type2_enum_unwrap :: "bool \<Rightarrow> (u64 \<Rightarrow> 'a option) \<Rightarrow> nat \<Rightarrow> string \<Rightarrow> 'a option bb" where
  "parse_type2_enum_unwrap obit try_from n s =
     bind (parse_type2_generic obit n s) (\<lambda>v. case v of
       None \<Rightarrow> ret None
     | Some v \<Rightarrow> bind (unwrap_enum try_from v) (\<lambda>e. ret (Some e)))"

text \<open>An optional coded element whose unknown codes are reported as errors.\<close>

definition parse_type2_enum :: "bool \<Rightarrow> (u64 \<Rightarrow> 'a option) \<Rightarrow> nat \<Rightarrow> string \<Rightarrow> 'a option bb" where
  "parse_type2_enum obit try_from n s =
     bind (parse_type2_generic obit n s) (\<lambda>v. case v of
       None \<Rightarrow> ret None
     | Some v \<Rightarrow> (case try_from v of Some e \<Rightarrow> ret (Some e) | None \<Rightarrow> fail (InvalidValue s v)))"

text \<open>A field that the reader expects only under a condition.\<close>

definition read_field_if :: "bool \<Rightarrow> nat \<Rightarrow> string \<Rightarrow> u64 option bb" where
  "read_field_if c n s = (if c then bind (read_field n s) (\<lambda>v. ret (Some v)) else ret None)"

definition write_field_opt :: "u64 option \<Rightarrow> nat \<Rightarrow> unit bb" where
  "write_field_opt v n = (case v of Some x \<Rightarrow> write_bits x n | None \<Rightarrow> ret ())"

definition enc_opt :: "nat \<Rightarrow> u64 option \<Rightarrow> bool list" where
  "enc_opt n v = (case v of Some x \<Rightarrow> to_bits n x | None \<Rightarrow> [])"

text \<open>A generic type-4 element: the writer has no case for a present one, so it contributes nothing.\<close>

definition enc_todo :: "type4_field_generic option \<Rightarrow> bool list" where
  "enc_todo w = []"

section \<open>Writers\<close>

named_theorems l3_emits \<open>emitted bits of layer-3 elements\<close>
named_theorems l3_parses \<open>parsed bits of layer-3 elements\<close>
named_theorems l3_simps \<open>side conditions of layer-3 elements\<close>
named_theorems l3_codecs \<open>the codecs of structured layer-3 elements\<close>

lemma emits_field_opt [l3_emits]: "n \<le> 64 \<Longrightarrow> pred_option (fits n) v \<Longrightarrow> emits (write_field_opt v n) (enc_opt n v)"
  by (cases v) (auto simp: write_field_opt_def enc_opt_def intro!: emits_intros)

lemma emits_type2_struct [l3_emits]:
  "obit \<Longrightarrow> (\<And>x. v = Some x \<Longrightarrow> emits (w x) (f x)) \<Longrightarrow> emits (write_type2_struct obit v w) (enc_type2 obit f v)"
  by (cases v) (auto simp: write_type2_struct_def enc_type2_def intro!: emits_bind [where xs = "[b]" for b, simplified] emits_delimiters)

lemma emits_type2_fields [l3_emits]:
  "obit \<Longrightarrow> n \<le> 64 \<Longrightarrow> pred_option (fits n) v \<Longrightarrow> emits (write_type2_generic obit v n) (enc_type2 obit (to_bits n) v)"
  by (cases v) (auto simp: write_type2_generic_def enc_type2_def intro!: emits_bind [where xs = "[b]" for b, simplified] emits_delimiters emits_write_bits)

lemma emits_type3_fields [l3_emits]:
  "obit \<Longrightarrow> fits 4 i \<Longrightarrow> pred_option (wf_type3_generic i) v \<Longrightarrow> emits (write_type3_generic obit v i) (enc_type3_generic i v)"
  by (rule emits_type3_generic) simp_all

lemma emits_type3_structs [l3_emits]:
  "obit \<Longrightarrow> fits 4 i \<Longrightarrow> (\<And>x. v = Some x \<Longrightarrow> emits (w x) (f x) \<and> length (f x) < 2048) \<Longrightarrow> emits (write_type3_struct obit v i w) (enc_type3 i f v)"
  by (rule emits_type3_struct) auto

lemma emits_type4_structs [l3_emits]:
  "obit \<Longrightarrow> fits 4 i \<Longrightarrow> (\<And>xs x. v = Some xs \<Longrightarrow> x \<in> set xs \<Longrightarrow> emits (w x) (f x)) \<Longrightarrow>
   (\<And>xs. v = Some xs \<Longrightarrow> 6 + length (concat (map f xs)) < 2048 \<and> length xs < 64) \<Longrightarrow>
   emits (write_type4_struct obit v i w) (enc_type4 i f v)"
  by (rule emits_type4_struct) auto

lemma emits_type4_absent [l3_emits]: "v = None \<Longrightarrow> emits (write_type4_todo obit v i) (enc_todo v)"
  by (simp add: write_type4_todo_def enc_todo_def emits_ret)

text \<open>The optional part: nothing behind an o-bit of 0.\<close>

lemma emits_optional:
  assumes "obit \<Longrightarrow> emits (seq ms) bs" and "\<not> obit \<Longrightarrow> bs = []"
  shows "emits (bind (write_obit (of_bool obit)) (\<lambda>_. if \<not> obit then ret () else seq ms)) (obit # bs)"
proof -
  have "emits (if \<not> obit then ret () else seq ms) bs" using assms by (cases obit) (auto intro: emits_ret)
  from emits_bind [OF emits_delimiters(1) this] show ?thesis by simp
qed

declare option.pred_map [l3_simps] comp_def [l3_simps] option.map_comp [l3_simps] option.map_ident [l3_simps] list_all_iff [l3_simps] option.pred_True [l3_simps]

section \<open>Readers\<close>

lemma parses_field_if [l3_parses]:
  assumes "n \<le> 64" and "c = (v \<noteq> None)" and "pred_option (fits n) v" and "parses_on (f v) ys rest y"
  shows "parses_on (bind (read_field_if c n s) f) (enc_opt n v @ ys) rest y"
proof -
  have "parses (read_field_if c n s) (enc_opt n v) v"
    using assms(1-3) by (cases v) (auto simp: read_field_if_def enc_opt_def intro!: parsesI parses_ret parses_field_last)
  then show ?thesis using assms(4) by (rule parses_bind)
qed

lemma parses_field_if_last [l3_parses]:
  "n \<le> 64 \<Longrightarrow> c = (v \<noteq> None) \<Longrightarrow> pred_option (fits n) v \<Longrightarrow> parses_on (f v) [] rest y \<Longrightarrow>
   parses_on (bind (read_field_if c n s) f) (enc_opt n v) rest y"
  using parses_field_if [of n c v f "[]" rest y s] by simp

lemma parses_flag [l3_parses]:
  "parses_on (f (of_bool v)) ys rest y \<Longrightarrow> parses_on (bind (read_field 1 s) f) ([v] @ ys) rest y"
  using parses_field_bind [of 1 "of_bool v :: u64" f ys rest y s] by (simp add: to_bits_bit)

lemma parses_type2_struct [l3_parses]:
  assumes "\<not> obit \<Longrightarrow> v = None" and "\<And>x. v = Some x \<Longrightarrow> parses p (e x) x" and "parses_on (f v) ys rest y"
  shows "parses_on (bind (parse_type2_struct obit p) f) (enc_type2 obit e v @ ys) rest y"
proof -
  have "parses (parse_type2_struct obit p) (enc_type2 obit e v) v"
  proof (cases v)
    case None
    then show ?thesis by (auto simp: parse_type2_struct_def enc_type2_def intro!: parsesI parses_ret parses_delimiter_bind)
  next
    case (Some x)
    have "parses_on (bind p (\<lambda>v. ret (Some v))) (e x) rest (Some x)" for rest
      by (rule parses_bind_last [OF assms(2) [OF Some]]) (simp add: parses_ret)
    with Some assms(1) show ?thesis by (auto simp: parse_type2_struct_def enc_type2_def intro!: parsesI parses_delimiter_bind)
  qed
  then show ?thesis using assms(3) by (rule parses_bind)
qed

lemma parses_type2_fields [l3_parses]:
  "(\<not> obit \<Longrightarrow> v = None) \<Longrightarrow> n \<le> 64 \<Longrightarrow> pred_option (fits n) v \<Longrightarrow> parses_on (f v) ys rest y \<Longrightarrow>
   parses_on (bind (parse_type2_generic obit n s) f) (enc_type2 obit (to_bits n) v @ ys) rest y"
  by (rule parses_type2_generic_bind) auto

lemma parses_type3_fields [l3_parses]:
  assumes "\<not> obit \<Longrightarrow> v = None" and "fits 4 i" and "pred_option (wf_type3_generic i) v" and "obit \<Longrightarrow> no_elem i (ys @ rest)" and "parses_on (f v) ys rest y"
  shows "parses_on (bind (parse_type3_generic obit i) f) (enc_type3_generic i v @ ys) rest y"
proof (rule parses_on_bind)
  show "parses_on (parse_type3_generic obit i) (enc_type3_generic i v) (ys @ rest) v" using assms by (intro parses_type3_generic_opt) auto
qed (rule assms(5))

lemma parses_type3_structs [l3_parses]:
  assumes "\<not> obit \<Longrightarrow> v = None" and "fits 4 i" and "\<And>x. v = Some x \<Longrightarrow> parses p (e x) x \<and> length (e x) < 2048"
    and "obit \<Longrightarrow> no_elem i (ys @ rest)" and "parses_on (f v) ys rest y"
  shows "parses_on (bind (parse_type3_struct obit i p) f) (enc_type3 i e v @ ys) rest y"
proof (rule parses_on_bind)
  show "parses_on (parse_type3_struct obit i p) (enc_type3 i e v) (ys @ rest) v" using assms by (intro Typed_Fields_Spec.parses_type3_struct) auto
qed (rule assms(5))

lemma parses_type4_structs [l3_parses]:
  assumes "\<not> obit \<Longrightarrow> v = None" and "fits 4 i" and "\<And>xs x. v = Some xs \<Longrightarrow> x \<in> set xs \<Longrightarrow> parses p (e x) x"
    and "\<And>xs. v = Some xs \<Longrightarrow> 6 + length (concat (map e xs)) < 2048 \<and> length xs < 64"
    and "obit \<Longrightarrow> no_elem i (ys @ rest)" and "parses_on (f v) ys rest y"
  shows "parses_on (bind (parse_type4_struct obit i p) f) (enc_type4 i e v @ ys) rest y"
proof (rule parses_on_bind)
  show "parses_on (parse_type4_struct obit i p) (enc_type4 i e v) (ys @ rest) v" using assms by (intro Typed_Fields_Spec.parses_type4_struct) auto
qed (rule assms(6))

lemma parses_type4_absent [l3_parses]:
  assumes "v = None" and "obit \<Longrightarrow> no_elem i (ys @ rest)" and "parses_on (f v) ys rest y"
  shows "parses_on (bind (parse_type4_generic obit i) f) (enc_todo v @ ys) rest y"
proof -
  have "parses_on (parse_type4_generic obit i) [] (ys @ rest) None"
  proof (cases obit)
    case True
    have "parses_on (parse_type4_header i) [] (ys @ rest) None"
      unfolding parse_type4_header_def using assms(2) True by (auto intro!: parses_peek_absent parses_ret)
    then have "parses_on (bind (parse_type4_header i) k) ([] @ []) (ys @ rest) z" if "parses_on (k None) [] (ys @ rest) z" for k and z :: "type4_field_generic option"
      using that by (intro parses_on_bind) simp_all
    from this [of "case_option (ret None) _"] True show ?thesis by (simp add: parse_type4_generic_def parses_ret)
  qed (simp add: parse_type4_generic_def parses_ret)
  then have "parses_on (bind (parse_type4_generic obit i) f) ([] @ ys) rest y" using assms(1,3) by (intro parses_on_bind) simp_all
  then show ?thesis by (simp add: enc_todo_def)
qed

lemma parses_trailing [l3_parses]:
  "parses_on (f ()) [] rest y \<Longrightarrow> parses_on (bind (read_trailing_mbit obit) f) (if obit then [False] else []) rest y"
proof (cases obit)
  case True
  assume "parses_on (f ()) [] rest y"
  then have "parses_on (bind (bind (read_field 1 ''trailing_obit'') (\<lambda>v. ret (v = 1))) (\<lambda>obit. if obit then fail InvalidTrailingMbitValue else f ())) [False] rest y"
    by (intro parses_bind_last [OF parses_bit]) simp
  moreover have "bind (if obit then fail e else ret ()) f = (if obit then fail e else f ())" for obit e by simp
  ultimately show ?thesis using True by (simp add: read_trailing_mbit_def bind_assoc)
qed (simp add: read_trailing_mbit_def)

lemma parses_expect [l3_parses]:
  "parses_on (f ()) ys rest y \<Longrightarrow> parses_on (bind (expect_pdu_type v v) f) ys rest y"
  "parses_on (f ()) ys rest y \<Longrightarrow> parses_on (bind (expect_value v v s) f) ys rest y"
  by simp_all

lemma enc_absent [simp]: "enc_type3_generic i None = []" "enc_type3 i f None = []" "enc_type4 i f None = []" "enc_type2 False f v = []" "enc_opt n None = []"
  "enc_todo w = []"
  by (simp_all add: enc_todo_def enc_type3_generic_def enc_type3_def enc_type4_def enc_type2_def enc_opt_def)

lemma emits_last_mbit [l3_emits]: "obit \<Longrightarrow> emits (seq [write_mbit 0]) (if obit then [False] else [])"
  by (auto intro: emits_delimiters)

declare emits_seq_Cons [l3_emits] emits_seq_last [l3_emits] emits_write_bits [l3_emits] emits_optional [l3_emits]
declare parses_field_bind [l3_parses] parses_delimiter_bind [l3_parses]

lemma safe_l3 [safe_intros]: "safe (read_trailing_mbit obit)" "safe (read_field_if c n s)" "safe (parse_type2_enum obit f n s)"
  unfolding read_trailing_mbit_def read_field_if_def parse_type2_enum_def by (intro safe_intros)+

section \<open>Coded elements\<close>

text \<open>A reader that unwraps the enumeration is safe when every code of its field decodes.\<close>

lemma safe_read_enum_unwrap: "(\<And>v. fits n v \<Longrightarrow> try_from v \<noteq> None) \<Longrightarrow> safe (read_enum_unwrap try_from n s)"
  unfolding read_enum_unwrap_def by (rule safe_field_bind) (force simp: unwrap_enum_def intro: safe_ret split: option.split)

lemma safe_type2_enum_unwrap:
  assumes "\<And>v. fits n v \<Longrightarrow> try_from v \<noteq> None"
  shows "safe (parse_type2_enum_unwrap obit try_from n s)"
proof -
  have "safe (bind (read_field n s) (\<lambda>v. bind (ret (Some v)) (\<lambda>v. case v of None \<Rightarrow> ret None
     | Some v \<Rightarrow> bind (unwrap_enum try_from v) (\<lambda>e. ret (Some e)))))"
    by (rule safe_field_bind) (use assms in \<open>force simp: unwrap_enum_def intro: safe_ret split: option.split\<close>)
  then show ?thesis
    unfolding parse_type2_enum_unwrap_def parse_type2_generic_def
    by (auto simp: bind_assoc if_distrib [of "\<lambda>m. bind m f" for f] intro!: safe_intros cong: if_cong)
qed

context raw_enum
begin

lemma parses_unwrap: "wf e \<Longrightarrow> parses (read_enum_unwrap try_from n s) (to_bits n (into_raw e)) e"
  unfolding read_enum_unwrap_def
  by (intro parsesI parses_field_last width fits_raw) (simp_all add: unwrap_enum_def try_from_raw parses_ret)

lemma enum_bind [l3_parses]:
  "wf e \<Longrightarrow> parses_on (f e) ys rest y \<Longrightarrow> parses_on (bind (read_enum_unwrap try_from n s) f) (to_bits n (into_raw e) @ ys) rest y"
  by (rule parses_bind [OF parses_unwrap])

lemma type2_enum:
  assumes "\<not> obit \<Longrightarrow> v = None" and "pred_option wf v"
  shows "parses (parse_type2_enum obit try_from n s) (enc_type2 obit (to_bits n) (map_option into_raw v)) v"
    "parses (parse_type2_enum_unwrap obit try_from n s) (enc_type2 obit (to_bits n) (map_option into_raw v)) v"
proof -
  have *: "parses_on (bind (parse_type2_generic obit n s) f) (enc_type2 obit (to_bits n) (map_option into_raw v) @ []) rest y"
    if "parses_on (f (map_option into_raw v)) [] rest y" for f rest and y :: "'a option"
    by (rule parses_type2_fields) (use assms that width in \<open>cases v; simp add: fits_raw\<close>)+
  show "parses (parse_type2_enum obit try_from n s) (enc_type2 obit (to_bits n) (map_option into_raw v)) v"
    unfolding parse_type2_enum_def
    by (rule parsesI, rule * [simplified]) (use assms in \<open>cases v; simp add: try_from_raw parses_ret\<close>)
  show "parses (parse_type2_enum_unwrap obit try_from n s) (enc_type2 obit (to_bits n) (map_option into_raw v)) v"
    unfolding parse_type2_enum_unwrap_def
    by (rule parsesI, rule * [simplified]) (use assms in \<open>cases v; simp add: try_from_raw unwrap_enum_def parses_ret\<close>)
qed

lemma type2_enum_bind [l3_parses]:
  "(\<not> obit \<Longrightarrow> v = None) \<Longrightarrow> pred_option wf v \<Longrightarrow> parses_on (f v) ys rest y \<Longrightarrow>
   parses_on (bind (parse_type2_enum obit try_from n s) f) (enc_type2 obit (to_bits n) (map_option into_raw v) @ ys) rest y"
  by (rule parses_bind [OF type2_enum(1)])

lemma type2_enum_unwrap_bind [l3_parses]:
  "(\<not> obit \<Longrightarrow> v = None) \<Longrightarrow> pred_option wf v \<Longrightarrow> parses_on (f v) ys rest y \<Longrightarrow>
   parses_on (bind (parse_type2_enum_unwrap obit try_from n s) f) (enc_type2 obit (to_bits n) (map_option into_raw v) @ ys) rest y"
  by (rule parses_bind [OF type2_enum(2)])

lemmas raw_bind_l3 [l3_parses] = raw_bind

end

text \<open>A location area is sent with a zero bit behind it.\<close>

lemma fits_push_zero: "fits n v \<Longrightarrow> fits (Suc n) (push_bit 1 v)" for v :: u64
  by (auto simp: fits_iff bit_push_bit_iff)

lemma div_push_zero: "fits n v \<Longrightarrow> n < 64 \<Longrightarrow> push_bit 1 v div 2 = v" for v :: u64
proof -
  assume v: "fits n v" "n < 64"
  have "k < n" if "bit v k" for k using v(1) that by (auto simp: fits_iff not_less [symmetric])
  with v(2) have "drop_bit 1 (push_bit 1 v) = v"
    by (intro bit_word_eqI) (fastforce simp: bit_drop_bit_eq bit_push_bit_iff)
  then show ?thesis by (simp add: drop_bit_Suc One_nat_def)
qed

lemma area_option [l3_simps]:
  "pred_option (fits 14) v \<Longrightarrow> pred_option (\<lambda>x. fits 15 (push_bit 1 x)) v"
  "pred_option (fits 14) v \<Longrightarrow> map_option (\<lambda>x. push_bit 1 x div 2) v = v" for v :: "u64 option"
  using fits_push_zero [of 14] div_push_zero [of 14] by (cases v; simp)+

text \<open>The values of a small field.\<close>

lemma fits_upto: "fits n v \<Longrightarrow> v \<in> of_nat ` {..< 2 ^ n}" for v :: u64
  by (rule image_eqI [of _ _ "unat v"]) (simp_all add: fits_unat)

lemma fits_cases:
  "fits 2 v \<Longrightarrow> v \<in> {0, 1, 2, 3}"
  "fits 3 v \<Longrightarrow> v \<in> {0, 1, 2, 3, 4, 5, 6, 7}"
  "fits 4 v \<Longrightarrow> v \<in> {0, 1, 2, 3, 4, 5, 6, 7, 8, 9, 10, 11, 12, 13, 14, 15}" for v :: u64
  by (drule fits_upto, simp add: lessThan_nat_numeral lessThan_Suc, blast)+

lemma no_elem_types [simp]:
  "fits 4 j \<Longrightarrow> i \<noteq> j \<Longrightarrow> no_elem i r \<Longrightarrow> no_elem i (enc_type3_generic j v @ r)"
  by (simp add: enc_type3_generic_def)

end
