(* ===== verification/L3_Enums.thy ===== *)
theory L3_Enums
  imports L3_Codec Circuit_Mgr
begin

text \<open>
  The coded enumerations of mobility management and circuit mode control (\<open>tetra-pdus/src/mm/enums\<close>, \<open>tetra-pdus/src/cmce/enums\<close>)
  and of the control interface (\<open>tetra-saps/src/control/enums\<close>), each with its interpretation of \<open>raw_enum\<close>. Where the readers unwrap the
  conversion, the enumeration is shown to cover its field.
\<close>

declare One_nat_def [simp del] split_of_bool [split del] split_of_bool_asm [split del]

section \<open>EnergySavingMode\<close>

text \<open>\<open>tetra-pdus/src/mm/enums/energy_saving_mode.rs\<close>.\<close>

datatype EnergySavingMode =
    EnergySavingMode_StayAlive
  | EnergySavingMode_Eg1
  | EnergySavingMode_Eg2
  | EnergySavingMode_Eg3
  | EnergySavingMode_Eg4
  | EnergySavingMode_Eg5
  | EnergySavingMode_Eg6
  | EnergySavingMode_Eg7

primrec EnergySavingMode_into_raw :: "EnergySavingMode \<Rightarrow> u64" where
    "EnergySavingMode_into_raw EnergySavingMode_StayAlive = 0"
  | "EnergySavingMode_into_raw EnergySavingMode_Eg1 = 1"
  | "EnergySavingMode_into_raw EnergySavingMode_Eg2 = 2"
  | "EnergySavingMode_into_raw EnergySavingMode_Eg3 = 3"
  | "EnergySavingMode_into_raw EnergySavingMode_Eg4 = 4"
  | "EnergySavingMode_into_raw EnergySavingMode_Eg5 = 5"
  | "EnergySavingMode_into_raw EnergySavingMode_Eg6 = 6"
  | "EnergySavingMode_into_raw EnergySavingMode_Eg7 = 7"

definition EnergySavingMode_try_from :: "u64 \<Rightarrow> EnergySavingMode option" where
  "EnergySavingMode_try_from x =
     (if x = 0 then Some EnergySavingMode_StayAlive
      else if x = 1 then Some EnergySavingMode_Eg1
      else if x = 2 then Some EnergySavingMode_Eg2
      else if x = 3 then Some EnergySavingMode_Eg3
      else if x = 4 then Some EnergySavingMode_Eg4
      else if x = 5 then Some EnergySavingMode_Eg5
      else if x = 6 then Some EnergySavingMode_Eg6
      else if x = 7 then Some EnergySavingMode_Eg7
      else None)"

interpretation EnergySavingMode: raw_enum "\<lambda>_. True" 3 EnergySavingMode_into_raw EnergySavingMode_try_from
proof
  show "fits 3 (EnergySavingMode_into_raw e)" for e
    by (cases e) simp_all
  show "EnergySavingMode_try_from (EnergySavingMode_into_raw e) = Some e" for e
    by (cases e) (simp_all add: EnergySavingMode_try_from_def)
  show "True \<and> EnergySavingMode_into_raw e = x" if "EnergySavingMode_try_from x = Some e" for x e
    using that by (auto simp: EnergySavingMode_try_from_def split: if_splits)
qed simp

lemma EnergySavingMode_fits [simp]: "fits 3 (EnergySavingMode_into_raw e)"
  by (rule EnergySavingMode.fits_raw) simp

text \<open>Every value of the field is a code: unwrapping the conversion cannot panic.\<close>

lemma EnergySavingMode_total: "fits 3 v \<Longrightarrow> EnergySavingMode_try_from v \<noteq> None"
  by (drule fits_cases) (auto simp: EnergySavingMode_try_from_def)

lemmas safe_EnergySavingMode [safe_intros] = safe_read_enum_unwrap [OF EnergySavingMode_total] safe_type2_enum_unwrap [OF EnergySavingMode_total]

section \<open>LocationUpdateAcceptType\<close>

text \<open>\<open>tetra-pdus/src/mm/enums/location_update_accept_type.rs\<close>.\<close>

datatype LocationUpdateAcceptType =
    LocationUpdateAcceptType_RoamingLocationUpdating
  | LocationUpdateAcceptType_TemporaryRegistration
  | LocationUpdateAcceptType_PeriodicLocationUpdating
  | LocationUpdateAcceptType_ItsiAttach
  | LocationUpdateAcceptType_ServiceRestorationRoamingLocationUpdating
  | LocationUpdateAcceptType_MigratingOrServiceRestorationMigratingLocationUpdating
  | LocationUpdateAcceptType_DemandLocationUpdating
  | LocationUpdateAcceptType_DisabledMsUpdating

primrec LocationUpdateAcceptType_into_raw :: "LocationUpdateAcceptType \<Rightarrow> u64" where
    "LocationUpdateAcceptType_into_raw LocationUpdateAcceptType_RoamingLocationUpdating = 0"
  | "LocationUpdateAcceptType_into_raw LocationUpdateAcceptType_TemporaryRegistration = 1"
  | "LocationUpdateAcceptType_into_raw LocationUpdateAcceptType_PeriodicLocationUpdating = 2"
  | "LocationUpdateAcceptType_into_raw LocationUpdateAcceptType_ItsiAttach = 3"
  | "LocationUpdateAcceptType_into_raw LocationUpdateAcceptType_ServiceRestorationRoamingLocationUpdating = 4"
  | "LocationUpdateAcceptType_into_raw LocationUpdateAcceptType_MigratingOrServiceRestorationMigratingLocationUpdating = 5"
  | "LocationUpdateAcceptType_into_raw LocationUpdateAcceptType_DemandLocationUpdating = 6"
  | "LocationUpdateAcceptType_into_raw LocationUpdateAcceptType_DisabledMsUpdating = 7"

definition LocationUpdateAcceptType_try_from :: "u64 \<Rightarrow> LocationUpdateAcceptType option" where
  "LocationUpdateAcceptType_try_from x =
     (if x = 0 then Some LocationUpdateAcceptType_RoamingLocationUpdating
      else if x = 1 then Some LocationUpdateAcceptType_TemporaryRegistration
      else if x = 2 then Some LocationUpdateAcceptType_PeriodicLocationUpdating
      else if x = 3 then Some LocationUpdateAcceptType_ItsiAttach
      else if x = 4 then Some LocationUpdateAcceptType_ServiceRestorationRoamingLocationUpdating
      else if x = 5 then Some LocationUpdateAcceptType_MigratingOrServiceRestorationMigratingLocationUpdating
      else if x = 6 then Some LocationUpdateAcceptType_DemandLocationUpdating
      else if x = 7 then Some LocationUpdateAcceptType_DisabledMsUpdating
      else None)"

interpretation LocationUpdateAcceptType: raw_enum "\<lambda>_. True" 3 LocationUpdateAcceptType_into_raw LocationUpdateAcceptType_try_from
proof
  show "fits 3 (LocationUpdateAcceptType_into_raw e)" for e
    by (cases e) simp_all
  show "LocationUpdateAcceptType_try_from (LocationUpdateAcceptType_into_raw e) = Some e" for e
    by (cases e) (simp_all add: LocationUpdateAcceptType_try_from_def)
  show "True \<and> LocationUpdateAcceptType_into_raw e = x" if "LocationUpdateAcceptType_try_from x = Some e" for x e
    using that by (auto simp: LocationUpdateAcceptType_try_from_def split: if_splits)
qed simp

lemma LocationUpdateAcceptType_fits [simp]: "fits 3 (LocationUpdateAcceptType_into_raw e)"
  by (rule LocationUpdateAcceptType.fits_raw) simp

text \<open>Every value of the field is a code: unwrapping the conversion cannot panic.\<close>

lemma LocationUpdateAcceptType_total: "fits 3 v \<Longrightarrow> LocationUpdateAcceptType_try_from v \<noteq> None"
  by (drule fits_cases) (auto simp: LocationUpdateAcceptType_try_from_def)

lemmas safe_LocationUpdateAcceptType [safe_intros] = safe_read_enum_unwrap [OF LocationUpdateAcceptType_total] safe_type2_enum_unwrap [OF LocationUpdateAcceptType_total]

section \<open>LocationUpdateType\<close>

text \<open>\<open>tetra-pdus/src/mm/enums/location_update_type.rs\<close>.\<close>

datatype LocationUpdateType =
    LocationUpdateType_RoamingLocationUpdating
  | LocationUpdateType_MigratingLocationUpdating
  | LocationUpdateType_PeriodicLocationUpdating
  | LocationUpdateType_ItsiAttach
  | LocationUpdateType_ServiceRestorationRoamingLocationUpdating
  | LocationUpdateType_ServiceRestorationMigratingLocationUpdating
  | LocationUpdateType_DemandLocationUpdating
  | LocationUpdateType_DisabledMsUpdating

primrec LocationUpdateType_into_raw :: "LocationUpdateType \<Rightarrow> u64" where
    "LocationUpdateType_into_raw LocationUpdateType_RoamingLocationUpdating = 0"
  | "LocationUpdateType_into_raw LocationUpdateType_MigratingLocationUpdating = 1"
  | "LocationUpdateType_into_raw LocationUpdateType_PeriodicLocationUpdating = 2"
  | "LocationUpdateType_into_raw LocationUpdateType_ItsiAttach = 3"
  | "LocationUpdateType_into_raw LocationUpdateType_ServiceRestorationRoamingLocationUpdating = 4"
  | "LocationUpdateType_into_raw LocationUpdateType_ServiceRestorationMigratingLocationUpdating = 5"
  | "LocationUpdateType_into_raw LocationUpdateType_DemandLocationUpdating = 6"
  | "LocationUpdateType_into_raw LocationUpdateType_DisabledMsUpdating = 7"

definition LocationUpdateType_try_from :: "u64 \<Rightarrow> LocationUpdateType option" where
  "LocationUpdateType_try_from x =
     (if x = 0 then Some LocationUpdateType_RoamingLocationUpdating
      else if x = 1 then Some LocationUpdateType_MigratingLocationUpdating
      else if x = 2 then Some LocationUpdateType_PeriodicLocationUpdating
      else if x = 3 then Some LocationUpdateType_ItsiAttach
      else if x = 4 then Some LocationUpdateType_ServiceRestorationRoamingLocationUpdating
      else if x = 5 then Some LocationUpdateType_ServiceRestorationMigratingLocationUpdating
      else if x = 6 then Some LocationUpdateType_DemandLocationUpdating
      else if x = 7 then Some LocationUpdateType_DisabledMsUpdating
      else None)"

interpretation LocationUpdateType: raw_enum "\<lambda>_. True" 3 LocationUpdateType_into_raw LocationUpdateType_try_from
proof
  show "fits 3 (LocationUpdateType_into_raw e)" for e
    by (cases e) simp_all
  show "LocationUpdateType_try_from (LocationUpdateType_into_raw e) = Some e" for e
    by (cases e) (simp_all add: LocationUpdateType_try_from_def)
  show "True \<and> LocationUpdateType_into_raw e = x" if "LocationUpdateType_try_from x = Some e" for x e
    using that by (auto simp: LocationUpdateType_try_from_def split: if_splits)
qed simp

lemma LocationUpdateType_fits [simp]: "fits 3 (LocationUpdateType_into_raw e)"
  by (rule LocationUpdateType.fits_raw) simp

text \<open>Every value of the field is a code: unwrapping the conversion cannot panic.\<close>

lemma LocationUpdateType_total: "fits 3 v \<Longrightarrow> LocationUpdateType_try_from v \<noteq> None"
  by (drule fits_cases) (auto simp: LocationUpdateType_try_from_def)

lemmas safe_LocationUpdateType [safe_intros] = safe_read_enum_unwrap [OF LocationUpdateType_total] safe_type2_enum_unwrap [OF LocationUpdateType_total]

section \<open>MmPduTypeDl\<close>

text \<open>\<open>tetra-pdus/src/mm/enums/mm_pdu_type_dl.rs\<close>.\<close>

datatype MmPduTypeDl =
    MmPduTypeDl_DOtar
  | MmPduTypeDl_DAuthentication
  | MmPduTypeDl_DCkChangeDemand
  | MmPduTypeDl_DDisable
  | MmPduTypeDl_DEnable
  | MmPduTypeDl_DLocationUpdateAccept
  | MmPduTypeDl_DLocationUpdateCommand
  | MmPduTypeDl_DLocationUpdateReject
  | MmPduTypeDl_DLocationUpdateProceeding
  | MmPduTypeDl_DAttachDetachGroupIdentity
  | MmPduTypeDl_DAttachDetachGroupIdentityAcknowledgement
  | MmPduTypeDl_DMmStatus
  | MmPduTypeDl_MmPduFunctionNotSupported

primrec MmPduTypeDl_into_raw :: "MmPduTypeDl \<Rightarrow> u64" where
    "MmPduTypeDl_into_raw MmPduTypeDl_DOtar = 0"
  | "MmPduTypeDl_into_raw MmPduTypeDl_DAuthentication = 1"
  | "MmPduTypeDl_into_raw MmPduTypeDl_DCkChangeDemand = 2"
  | "MmPduTypeDl_into_raw MmPduTypeDl_DDisable = 3"
  | "MmPduTypeDl_into_raw MmPduTypeDl_DEnable = 4"
  | "MmPduTypeDl_into_raw MmPduTypeDl_DLocationUpdateAccept = 5"
  | "MmPduTypeDl_into_raw MmPduTypeDl_DLocationUpdateCommand = 6"
  | "MmPduTypeDl_into_raw MmPduTypeDl_DLocationUpdateReject = 7"
  | "MmPduTypeDl_into_raw MmPduTypeDl_DLocationUpdateProceeding = 9"
  | "MmPduTypeDl_into_raw MmPduTypeDl_DAttachDetachGroupIdentity = 10"
  | "MmPduTypeDl_into_raw MmPduTypeDl_DAttachDetachGroupIdentityAcknowledgement = 11"
  | "MmPduTypeDl_into_raw MmPduTypeDl_DMmStatus = 12"
  | "MmPduTypeDl_into_raw MmPduTypeDl_MmPduFunctionNotSupported = 15"

definition MmPduTypeDl_try_from :: "u64 \<Rightarrow> MmPduTypeDl option" where
  "MmPduTypeDl_try_from x =
     (if x = 0 then Some MmPduTypeDl_DOtar
      else if x = 1 then Some MmPduTypeDl_DAuthentication
      else if x = 2 then Some MmPduTypeDl_DCkChangeDemand
      else if x = 3 then Some MmPduTypeDl_DDisable
      else if x = 4 then Some MmPduTypeDl_DEnable
      else if x = 5 then Some MmPduTypeDl_DLocationUpdateAccept
      else if x = 6 then Some MmPduTypeDl_DLocationUpdateCommand
      else if x = 7 then Some MmPduTypeDl_DLocationUpdateReject
      else if x = 9 then Some MmPduTypeDl_DLocationUpdateProceeding
      else if x = 10 then Some MmPduTypeDl_DAttachDetachGroupIdentity
      else if x = 11 then Some MmPduTypeDl_DAttachDetachGroupIdentityAcknowledgement
      else if x = 12 then Some MmPduTypeDl_DMmStatus
      else if x = 15 then Some MmPduTypeDl_MmPduFunctionNotSupported
      else None)"

interpretation MmPduTypeDl: raw_enum "\<lambda>_. True" 4 MmPduTypeDl_into_raw MmPduTypeDl_try_from
proof
  show "fits 4 (MmPduTypeDl_into_raw e)" for e
    by (cases e) simp_all
  show "MmPduTypeDl_try_from (MmPduTypeDl_into_raw e) = Some e" for e
    by (cases e) (simp_all add: MmPduTypeDl_try_from_def)
  show "True \<and> MmPduTypeDl_into_raw e = x" if "MmPduTypeDl_try_from x = Some e" for x e
    using that by (auto simp: MmPduTypeDl_try_from_def split: if_splits)
qed simp

lemma MmPduTypeDl_fits [simp]: "fits 4 (MmPduTypeDl_into_raw e)"
  by (rule MmPduTypeDl.fits_raw) simp

section \<open>MmPduTypeUl\<close>

text \<open>\<open>tetra-pdus/src/mm/enums/mm_pdu_type_ul.rs\<close>.\<close>

datatype MmPduTypeUl =
    MmPduTypeUl_UAuthentication
  | MmPduTypeUl_UItsiDetach
  | MmPduTypeUl_ULocationUpdateDemand
  | MmPduTypeUl_UMmStatus
  | MmPduTypeUl_UCkChangeResult
  | MmPduTypeUl_UOtar
  | MmPduTypeUl_UInformationProvide
  | MmPduTypeUl_UAttachDetachGroupIdentity
  | MmPduTypeUl_UAttachDetachGroupIdentityAcknowledgement
  | MmPduTypeUl_UTeiProvide
  | MmPduTypeUl_UDisableStatus
  | MmPduTypeUl_MmPduFunctionNotSupported

primrec MmPduTypeUl_into_raw :: "MmPduTypeUl \<Rightarrow> u64" where
    "MmPduTypeUl_into_raw MmPduTypeUl_UAuthentication = 0"
  | "MmPduTypeUl_into_raw MmPduTypeUl_UItsiDetach = 1"
  | "MmPduTypeUl_into_raw MmPduTypeUl_ULocationUpdateDemand = 2"
  | "MmPduTypeUl_into_raw MmPduTypeUl_UMmStatus = 3"
  | "MmPduTypeUl_into_raw MmPduTypeUl_UCkChangeResult = 4"
  | "MmPduTypeUl_into_raw MmPduTypeUl_UOtar = 5"
  | "MmPduTypeUl_into_raw MmPduTypeUl_UInformationProvide = 6"
  | "MmPduTypeUl_into_raw MmPduTypeUl_UAttachDetachGroupIdentity = 7"
  | "MmPduTypeUl_into_raw MmPduTypeUl_UAttachDetachGroupIdentityAcknowledgement = 8"
  | "MmPduTypeUl_into_raw MmPduTypeUl_UTeiProvide = 9"
  | "MmPduTypeUl_into_raw MmPduTypeUl_UDisableStatus = 11"
  | "MmPduTypeUl_into_raw MmPduTypeUl_MmPduFunctionNotSupported = 15"

definition MmPduTypeUl_try_from :: "u64 \<Rightarrow> MmPduTypeUl option" where
  "MmPduTypeUl_try_from x =
     (if x = 0 then Some MmPduTypeUl_UAuthentication
      else if x = 1 then Some MmPduTypeUl_UItsiDetach
      else if x = 2 then Some MmPduTypeUl_ULocationUpdateDemand
      else if x = 3 then Some MmPduTypeUl_UMmStatus
      else if x = 4 then Some MmPduTypeUl_UCkChangeResult
      else if x = 5 then Some MmPduTypeUl_UOtar
      else if x = 6 then Some MmPduTypeUl_UInformationProvide
      else if x = 7 then Some MmPduTypeUl_UAttachDetachGroupIdentity
      else if x = 8 then Some MmPduTypeUl_UAttachDetachGroupIdentityAcknowledgement
      else if x = 9 then Some MmPduTypeUl_UTeiProvide
      else if x = 11 then Some MmPduTypeUl_UDisableStatus
      else if x = 15 then Some MmPduTypeUl_MmPduFunctionNotSupported
      else None)"

interpretation MmPduTypeUl: raw_enum "\<lambda>_. True" 4 MmPduTypeUl_into_raw MmPduTypeUl_try_from
proof
  show "fits 4 (MmPduTypeUl_into_raw e)" for e
    by (cases e) simp_all
  show "MmPduTypeUl_try_from (MmPduTypeUl_into_raw e) = Some e" for e
    by (cases e) (simp_all add: MmPduTypeUl_try_from_def)
  show "True \<and> MmPduTypeUl_into_raw e = x" if "MmPduTypeUl_try_from x = Some e" for x e
    using that by (auto simp: MmPduTypeUl_try_from_def split: if_splits)
qed simp

lemma MmPduTypeUl_fits [simp]: "fits 4 (MmPduTypeUl_into_raw e)"
  by (rule MmPduTypeUl.fits_raw) simp

section \<open>RejectCause\<close>

text \<open>\<open>tetra-pdus/src/mm/enums/reject_cause.rs\<close>.\<close>

datatype RejectCause =
    RejectCause_ItsiAtsiUnknown
  | RejectCause_IllegalMs
  | RejectCause_LaNotAllowed
  | RejectCause_LaUnknown
  | RejectCause_NetworkFailure
  | RejectCause_Congestion
  | RejectCause_ForwardRegistrationFailure
  | RejectCause_ServiceNotSubscribed
  | RejectCause_MandatoryElementError
  | RejectCause_MessageConsistencyError
  | RejectCause_RoamingNotSupported
  | RejectCause_MigrationNotSupported
  | RejectCause_NoCipherKsg
  | RejectCause_IdentifiedCipherKsgNotSupported
  | RejectCause_RequestedCipherKeyTypeNotAvailable
  | RejectCause_IdentifiedCipherKeyNotAvailable
  | RejectCause_ExpiryOfTimer
  | RejectCause_CipheringRequired
  | RejectCause_AuthenticationFailure
  | RejectCause_UseCaCellNotPermitted
  | RejectCause_UseDaCellNotPermitted

primrec RejectCause_into_raw :: "RejectCause \<Rightarrow> u64" where
    "RejectCause_into_raw RejectCause_ItsiAtsiUnknown = 1"
  | "RejectCause_into_raw RejectCause_IllegalMs = 2"
  | "RejectCause_into_raw RejectCause_LaNotAllowed = 3"
  | "RejectCause_into_raw RejectCause_LaUnknown = 4"
  | "RejectCause_into_raw RejectCause_NetworkFailure = 5"
  | "RejectCause_into_raw RejectCause_Congestion = 6"
  | "RejectCause_into_raw RejectCause_ForwardRegistrationFailure = 7"
  | "RejectCause_into_raw RejectCause_ServiceNotSubscribed = 8"
  | "RejectCause_into_raw RejectCause_MandatoryElementError = 9"
  | "RejectCause_into_raw RejectCause_MessageConsistencyError = 10"
  | "RejectCause_into_raw RejectCause_RoamingNotSupported = 11"
  | "RejectCause_into_raw RejectCause_MigrationNotSupported = 12"
  | "RejectCause_into_raw RejectCause_NoCipherKsg = 13"
  | "RejectCause_into_raw RejectCause_IdentifiedCipherKsgNotSupported = 14"
  | "RejectCause_into_raw RejectCause_RequestedCipherKeyTypeNotAvailable = 15"
  | "RejectCause_into_raw RejectCause_IdentifiedCipherKeyNotAvailable = 16"
  | "RejectCause_into_raw RejectCause_ExpiryOfTimer = 17"
  | "RejectCause_into_raw RejectCause_CipheringRequired = 18"
  | "RejectCause_into_raw RejectCause_AuthenticationFailure = 19"
  | "RejectCause_into_raw RejectCause_UseCaCellNotPermitted = 20"
  | "RejectCause_into_raw RejectCause_UseDaCellNotPermitted = 21"

definition RejectCause_try_from :: "u64 \<Rightarrow> RejectCause option" where
  "RejectCause_try_from x =
     (if x = 1 then Some RejectCause_ItsiAtsiUnknown
      else if x = 2 then Some RejectCause_IllegalMs
      else if x = 3 then Some RejectCause_LaNotAllowed
      else if x = 4 then Some RejectCause_LaUnknown
      else if x = 5 then Some RejectCause_NetworkFailure
      else if x = 6 then Some RejectCause_Congestion
      else if x = 7 then Some RejectCause_ForwardRegistrationFailure
      else if x = 8 then Some RejectCause_ServiceNotSubscribed
      else if x = 9 then Some RejectCause_MandatoryElementError
      else if x = 10 then Some RejectCause_MessageConsistencyError
      else if x = 11 then Some RejectCause_RoamingNotSupported
      else if x = 12 then Some RejectCause_MigrationNotSupported
      else if x = 13 then Some RejectCause_NoCipherKsg
      else if x = 14 then Some RejectCause_IdentifiedCipherKsgNotSupported
      else if x = 15 then Some RejectCause_RequestedCipherKeyTypeNotAvailable
      else if x = 16 then Some RejectCause_IdentifiedCipherKeyNotAvailable
      else if x = 17 then Some RejectCause_ExpiryOfTimer
      else if x = 18 then Some RejectCause_CipheringRequired
      else if x = 19 then Some RejectCause_AuthenticationFailure
      else if x = 20 then Some RejectCause_UseCaCellNotPermitted
      else if x = 21 then Some RejectCause_UseDaCellNotPermitted
      else None)"

interpretation RejectCause: raw_enum "\<lambda>_. True" 5 RejectCause_into_raw RejectCause_try_from
proof
  show "fits 5 (RejectCause_into_raw e)" for e
    by (cases e) simp_all
  show "RejectCause_try_from (RejectCause_into_raw e) = Some e" for e
    by (cases e) (simp_all add: RejectCause_try_from_def)
  show "True \<and> RejectCause_into_raw e = x" if "RejectCause_try_from x = Some e" for x e
    using that by (auto simp: RejectCause_try_from_def split: if_splits)
qed simp

lemma RejectCause_fits [simp]: "fits 5 (RejectCause_into_raw e)"
  by (rule RejectCause.fits_raw) simp

section \<open>StatusDownlink\<close>

text \<open>\<open>tetra-pdus/src/mm/enums/status_downlink.rs\<close>.\<close>

datatype StatusDownlink =
    StatusDownlink_ChangeOfEnergySavingModeRequest
  | StatusDownlink_ChangeOfEnergySavingModeResponse
  | StatusDownlink_DualWatchModeResponse
  | StatusDownlink_TerminatingDualWatchModeResponse
  | StatusDownlink_ChangeOfDualWatchModeRequest
  | StatusDownlink_MsFrequencyBandsRequest
  | StatusDownlink_PeriodicDistanceReporting
  | StatusDownlink_AcceptanceToStartDmGatewayOperation
  | StatusDownlink_RejectionToStartDmGatewayOperation
  | StatusDownlink_AcceptanceToContinueDmGatewayOperation
  | StatusDownlink_RejectionToContinueDmGatewayOperation
  | StatusDownlink_AcceptanceToStopDmGatewayOperation
  | StatusDownlink_AcceptanceOfDmMsAddresses
  | StatusDownlink_CommandToRemoveDmMsAddresses
  | StatusDownlink_CommandToChangeRegistrationLabel
  | StatusDownlink_CommandToStopDmGatewayOperation
  | StatusDownlink_NetworkOrUserSpecific32
  | StatusDownlink_NetworkOrUserSpecific33
  | StatusDownlink_NetworkOrUserSpecific34
  | StatusDownlink_NetworkOrUserSpecific35
  | StatusDownlink_NetworkOrUserSpecific36
  | StatusDownlink_NetworkOrUserSpecific37
  | StatusDownlink_NetworkOrUserSpecific38
  | StatusDownlink_NetworkOrUserSpecific39
  | StatusDownlink_NetworkOrUserSpecific40
  | StatusDownlink_NetworkOrUserSpecific41
  | StatusDownlink_NetworkOrUserSpecific42
  | StatusDownlink_NetworkOrUserSpecific43
  | StatusDownlink_NetworkOrUserSpecific44
  | StatusDownlink_NetworkOrUserSpecific45
  | StatusDownlink_NetworkOrUserSpecific46
  | StatusDownlink_NetworkOrUserSpecific47
  | StatusDownlink_NetworkOrUserSpecific48
  | StatusDownlink_NetworkOrUserSpecific49
  | StatusDownlink_NetworkOrUserSpecific50
  | StatusDownlink_NetworkOrUserSpecific51
  | StatusDownlink_NetworkOrUserSpecific52
  | StatusDownlink_NetworkOrUserSpecific53
  | StatusDownlink_NetworkOrUserSpecific54
  | StatusDownlink_NetworkOrUserSpecific55
  | StatusDownlink_NetworkOrUserSpecific56
  | StatusDownlink_NetworkOrUserSpecific57
  | StatusDownlink_NetworkOrUserSpecific58
  | StatusDownlink_NetworkOrUserSpecific59
  | StatusDownlink_NetworkOrUserSpecific60
  | StatusDownlink_NetworkOrUserSpecific61
  | StatusDownlink_NetworkOrUserSpecific62
  | StatusDownlink_NetworkOrUserSpecific63

primrec StatusDownlink_into_raw :: "StatusDownlink \<Rightarrow> u64" where
    "StatusDownlink_into_raw StatusDownlink_ChangeOfEnergySavingModeRequest = 1"
  | "StatusDownlink_into_raw StatusDownlink_ChangeOfEnergySavingModeResponse = 2"
  | "StatusDownlink_into_raw StatusDownlink_DualWatchModeResponse = 3"
  | "StatusDownlink_into_raw StatusDownlink_TerminatingDualWatchModeResponse = 4"
  | "StatusDownlink_into_raw StatusDownlink_ChangeOfDualWatchModeRequest = 5"
  | "StatusDownlink_into_raw StatusDownlink_MsFrequencyBandsRequest = 7"
  | "StatusDownlink_into_raw StatusDownlink_PeriodicDistanceReporting = 8"
  | "StatusDownlink_into_raw StatusDownlink_AcceptanceToStartDmGatewayOperation = 16"
  | "StatusDownlink_into_raw StatusDownlink_RejectionToStartDmGatewayOperation = 17"
  | "StatusDownlink_into_raw StatusDownlink_AcceptanceToContinueDmGatewayOperation = 18"
  | "StatusDownlink_into_raw StatusDownlink_RejectionToContinueDmGatewayOperation = 19"
  | "StatusDownlink_into_raw StatusDownlink_AcceptanceToStopDmGatewayOperation = 20"
  | "StatusDownlink_into_raw StatusDownlink_AcceptanceOfDmMsAddresses = 21"
  | "StatusDownlink_into_raw StatusDownlink_CommandToRemoveDmMsAddresses = 22"
  | "StatusDownlink_into_raw StatusDownlink_CommandToChangeRegistrationLabel = 23"
  | "StatusDownlink_into_raw StatusDownlink_CommandToStopDmGatewayOperation = 24"
  | "StatusDownlink_into_raw StatusDownlink_NetworkOrUserSpecific32 = 32"
  | "StatusDownlink_into_raw StatusDownlink_NetworkOrUserSpecific33 = 33"
  | "StatusDownlink_into_raw StatusDownlink_NetworkOrUserSpecific34 = 34"
  | "StatusDownlink_into_raw StatusDownlink_NetworkOrUserSpecific35 = 35"
  | "StatusDownlink_into_raw StatusDownlink_NetworkOrUserSpecific36 = 36"
  | "StatusDownlink_into_raw StatusDownlink_NetworkOrUserSpecific37 = 37"
  | "StatusDownlink_into_raw StatusDownlink_NetworkOrUserSpecific38 = 38"
  | "StatusDownlink_into_raw StatusDownlink_NetworkOrUserSpecific39 = 39"
  | "StatusDownlink_into_raw StatusDownlink_NetworkOrUserSpecific40 = 40"
  | "StatusDownlink_into_raw StatusDownlink_NetworkOrUserSpecific41 = 41"
  | "StatusDownlink_into_raw StatusDownlink_NetworkOrUserSpecific42 = 42"
  | "StatusDownlink_into_raw StatusDownlink_NetworkOrUserSpecific43 = 43"
  | "StatusDownlink_into_raw StatusDownlink_NetworkOrUserSpecific44 = 44"
  | "StatusDownlink_into_raw StatusDownlink_NetworkOrUserSpecific45 = 45"
  | "StatusDownlink_into_raw StatusDownlink_NetworkOrUserSpecific46 = 46"
  | "StatusDownlink_into_raw StatusDownlink_NetworkOrUserSpecific47 = 47"
  | "StatusDownlink_into_raw StatusDownlink_NetworkOrUserSpecific48 = 48"
  | "StatusDownlink_into_raw StatusDownlink_NetworkOrUserSpecific49 = 49"
  | "StatusDownlink_into_raw StatusDownlink_NetworkOrUserSpecific50 = 50"
  | "StatusDownlink_into_raw StatusDownlink_NetworkOrUserSpecific51 = 51"
  | "StatusDownlink_into_raw StatusDownlink_NetworkOrUserSpecific52 = 52"
  | "StatusDownlink_into_raw StatusDownlink_NetworkOrUserSpecific53 = 53"
  | "StatusDownlink_into_raw StatusDownlink_NetworkOrUserSpecific54 = 54"
  | "StatusDownlink_into_raw StatusDownlink_NetworkOrUserSpecific55 = 55"
  | "StatusDownlink_into_raw StatusDownlink_NetworkOrUserSpecific56 = 56"
  | "StatusDownlink_into_raw StatusDownlink_NetworkOrUserSpecific57 = 57"
  | "StatusDownlink_into_raw StatusDownlink_NetworkOrUserSpecific58 = 58"
  | "StatusDownlink_into_raw StatusDownlink_NetworkOrUserSpecific59 = 59"
  | "StatusDownlink_into_raw StatusDownlink_NetworkOrUserSpecific60 = 60"
  | "StatusDownlink_into_raw StatusDownlink_NetworkOrUserSpecific61 = 61"
  | "StatusDownlink_into_raw StatusDownlink_NetworkOrUserSpecific62 = 62"
  | "StatusDownlink_into_raw StatusDownlink_NetworkOrUserSpecific63 = 63"

definition StatusDownlink_try_from :: "u64 \<Rightarrow> StatusDownlink option" where
  "StatusDownlink_try_from x =
     (if x = 1 then Some StatusDownlink_ChangeOfEnergySavingModeRequest
      else if x = 2 then Some StatusDownlink_ChangeOfEnergySavingModeResponse
      else if x = 3 then Some StatusDownlink_DualWatchModeResponse
      else if x = 4 then Some StatusDownlink_TerminatingDualWatchModeResponse
      else if x = 5 then Some StatusDownlink_ChangeOfDualWatchModeRequest
      else if x = 7 then Some StatusDownlink_MsFrequencyBandsRequest
      else if x = 8 then Some StatusDownlink_PeriodicDistanceReporting
      else if x = 16 then Some StatusDownlink_AcceptanceToStartDmGatewayOperation
      else if x = 17 then Some StatusDownlink_RejectionToStartDmGatewayOperation
      else if x = 18 then Some StatusDownlink_AcceptanceToContinueDmGatewayOperation
      else if x = 19 then Some StatusDownlink_RejectionToContinueDmGatewayOperation
      else if x = 20 then Some StatusDownlink_AcceptanceToStopDmGatewayOperation
      else if x = 21 then Some StatusDownlink_AcceptanceOfDmMsAddresses
      else if x = 22 then Some StatusDownlink_CommandToRemoveDmMsAddresses
      else if x = 23 then Some StatusDownlink_CommandToChangeRegistrationLabel
      else if x = 24 then Some StatusDownlink_CommandToStopDmGatewayOperation
      else if x = 32 then Some StatusDownlink_NetworkOrUserSpecific32
      else if x = 33 then Some StatusDownlink_NetworkOrUserSpecific33
      else if x = 34 then Some StatusDownlink_NetworkOrUserSpecific34
      else if x = 35 then Some StatusDownlink_NetworkOrUserSpecific35
      else if x = 36 then Some StatusDownlink_NetworkOrUserSpecific36
      else if x = 37 then Some StatusDownlink_NetworkOrUserSpecific37
      else if x = 38 then Some StatusDownlink_NetworkOrUserSpecific38
      else if x = 39 then Some StatusDownlink_NetworkOrUserSpecific39
      else if x = 40 then Some StatusDownlink_NetworkOrUserSpecific40
      else if x = 41 then Some StatusDownlink_NetworkOrUserSpecific41
      else if x = 42 then Some StatusDownlink_NetworkOrUserSpecific42
      else if x = 43 then Some StatusDownlink_NetworkOrUserSpecific43
      else if x = 44 then Some StatusDownlink_NetworkOrUserSpecific44
      else if x = 45 then Some StatusDownlink_NetworkOrUserSpecific45
      else if x = 46 then Some StatusDownlink_NetworkOrUserSpecific46
      else if x = 47 then Some StatusDownlink_NetworkOrUserSpecific47
      else if x = 48 then Some StatusDownlink_NetworkOrUserSpecific48
      else if x = 49 then Some StatusDownlink_NetworkOrUserSpecific49
      else if x = 50 then Some StatusDownlink_NetworkOrUserSpecific50
      else if x = 51 then Some StatusDownlink_NetworkOrUserSpecific51
      else if x = 52 then Some StatusDownlink_NetworkOrUserSpecific52
      else if x = 53 then Some StatusDownlink_NetworkOrUserSpecific53
      else if x = 54 then Some StatusDownlink_NetworkOrUserSpecific54
      else if x = 55 then Some StatusDownlink_NetworkOrUserSpecific55
      else if x = 56 then Some StatusDownlink_NetworkOrUserSpecific56
      else if x = 57 then Some StatusDownlink_NetworkOrUserSpecific57
      else if x = 58 then Some StatusDownlink_NetworkOrUserSpecific58
      else if x = 59 then Some StatusDownlink_NetworkOrUserSpecific59
      else if x = 60 then Some StatusDownlink_NetworkOrUserSpecific60
      else if x = 61 then Some StatusDownlink_NetworkOrUserSpecific61
      else if x = 62 then Some StatusDownlink_NetworkOrUserSpecific62
      else if x = 63 then Some StatusDownlink_NetworkOrUserSpecific63
      else None)"

interpretation StatusDownlink: raw_enum "\<lambda>_. True" 6 StatusDownlink_into_raw StatusDownlink_try_from
proof
  show "fits 6 (StatusDownlink_into_raw e)" for e
    by (cases e) simp_all
  show "StatusDownlink_try_from (StatusDownlink_into_raw e) = Some e" for e
    by (cases e) (simp_all add: StatusDownlink_try_from_def)
  show "True \<and> StatusDownlink_into_raw e = x" if "StatusDownlink_try_from x = Some e" for x e
    using that by (auto simp: StatusDownlink_try_from_def split: if_splits)
qed simp

lemma StatusDownlink_fits [simp]: "fits 6 (StatusDownlink_into_raw e)"
  by (rule StatusDownlink.fits_raw) simp

section \<open>StatusUplink\<close>

text \<open>\<open>tetra-pdus/src/mm/enums/status_uplink.rs\<close>.\<close>

datatype StatusUplink =
    StatusUplink_ChangeOfEnergySavingModeRequest
  | StatusUplink_ChangeOfEnergySavingModeResponse
  | StatusUplink_DualWatchModeRequest
  | StatusUplink_TerminatingDualWatchModeRequest
  | StatusUplink_ChangeOfDualWatchModeResponse
  | StatusUplink_StartOfDirectModeOperation
  | StatusUplink_MsFrequencyBandsInformation
  | StatusUplink_RequestToStartDmGatewayOperation
  | StatusUplink_RequestToContinuedmGatewayOperation
  | StatusUplink_RequestToStopDmGatewayOperation
  | StatusUplink_RequestToAddDmMsAddresses
  | StatusUplink_RequestToRemoveDmMsAddresses
  | StatusUplink_RequestToReplaceDmMsAddresses
  | StatusUplink_AcceptanceToRemovalOfDmMsAddresses
  | StatusUplink_AcceptanceToChangeRegistrationLabel
  | StatusUplink_AcceptanceToStopDmGatewayOperation
  | StatusUplink_NetworkOrUserSpecific32
  | StatusUplink_NetworkOrUserSpecific33
  | StatusUplink_NetworkOrUserSpecific34
  | StatusUplink_NetworkOrUserSpecific35
  | StatusUplink_NetworkOrUserSpecific36
  | StatusUplink_NetworkOrUserSpecific37
  | StatusUplink_NetworkOrUserSpecific38
  | StatusUplink_NetworkOrUserSpecific39
  | StatusUplink_NetworkOrUserSpecific40
  | StatusUplink_NetworkOrUserSpecific41
  | StatusUplink_NetworkOrUserSpecific42
  | StatusUplink_NetworkOrUserSpecific43
  | StatusUplink_NetworkOrUserSpecific44
  | StatusUplink_NetworkOrUserSpecific45
  | StatusUplink_NetworkOrUserSpecific46
  | StatusUplink_NetworkOrUserSpecific47
  | StatusUplink_NetworkOrUserSpecific48
  | StatusUplink_NetworkOrUserSpecific49
  | StatusUplink_NetworkOrUserSpecific50
  | StatusUplink_NetworkOrUserSpecific51
  | StatusUplink_NetworkOrUserSpecific52
  | StatusUplink_NetworkOrUserSpecific53
  | StatusUplink_NetworkOrUserSpecific54
  | StatusUplink_NetworkOrUserSpecific55
  | StatusUplink_NetworkOrUserSpecific56
  | StatusUplink_NetworkOrUserSpecific57
  | StatusUplink_NetworkOrUserSpecific58
  | StatusUplink_NetworkOrUserSpecific59
  | StatusUplink_NetworkOrUserSpecific60
  | StatusUplink_NetworkOrUserSpecific61
  | StatusUplink_NetworkOrUserSpecific62
  | StatusUplink_NetworkOrUserSpecific63

primrec StatusUplink_into_raw :: "StatusUplink \<Rightarrow> u64" where
    "StatusUplink_into_raw StatusUplink_ChangeOfEnergySavingModeRequest = 1"
  | "StatusUplink_into_raw StatusUplink_ChangeOfEnergySavingModeResponse = 2"
  | "StatusUplink_into_raw StatusUplink_DualWatchModeRequest = 3"
  | "StatusUplink_into_raw StatusUplink_TerminatingDualWatchModeRequest = 4"
  | "StatusUplink_into_raw StatusUplink_ChangeOfDualWatchModeResponse = 5"
  | "StatusUplink_into_raw StatusUplink_StartOfDirectModeOperation = 6"
  | "StatusUplink_into_raw StatusUplink_MsFrequencyBandsInformation = 7"
  | "StatusUplink_into_raw StatusUplink_RequestToStartDmGatewayOperation = 16"
  | "StatusUplink_into_raw StatusUplink_RequestToContinuedmGatewayOperation = 17"
  | "StatusUplink_into_raw StatusUplink_RequestToStopDmGatewayOperation = 18"
  | "StatusUplink_into_raw StatusUplink_RequestToAddDmMsAddresses = 19"
  | "StatusUplink_into_raw StatusUplink_RequestToRemoveDmMsAddresses = 20"
  | "StatusUplink_into_raw StatusUplink_RequestToReplaceDmMsAddresses = 21"
  | "StatusUplink_into_raw StatusUplink_AcceptanceToRemovalOfDmMsAddresses = 22"
  | "StatusUplink_into_raw StatusUplink_AcceptanceToChangeRegistrationLabel = 23"
  | "StatusUplink_into_raw StatusUplink_AcceptanceToStopDmGatewayOperation = 24"
  | "StatusUplink_into_raw StatusUplink_NetworkOrUserSpecific32 = 32"
  | "StatusUplink_into_raw StatusUplink_NetworkOrUserSpecific33 = 33"
  | "StatusUplink_into_raw StatusUplink_NetworkOrUserSpecific34 = 34"
  | "StatusUplink_into_raw StatusUplink_NetworkOrUserSpecific35 = 35"
  | "StatusUplink_into_raw StatusUplink_NetworkOrUserSpecific36 = 36"
  | "StatusUplink_into_raw StatusUplink_NetworkOrUserSpecific37 = 37"
  | "StatusUplink_into_raw StatusUplink_NetworkOrUserSpecific38 = 38"
  | "StatusUplink_into_raw StatusUplink_NetworkOrUserSpecific39 = 39"
  | "StatusUplink_into_raw StatusUplink_NetworkOrUserSpecific40 = 40"
  | "StatusUplink_into_raw StatusUplink_NetworkOrUserSpecific41 = 41"
  | "StatusUplink_into_raw StatusUplink_NetworkOrUserSpecific42 = 42"
  | "StatusUplink_into_raw StatusUplink_NetworkOrUserSpecific43 = 43"
  | "StatusUplink_into_raw StatusUplink_NetworkOrUserSpecific44 = 44"
  | "StatusUplink_into_raw StatusUplink_NetworkOrUserSpecific45 = 45"
  | "StatusUplink_into_raw StatusUplink_NetworkOrUserSpecific46 = 46"
  | "StatusUplink_into_raw StatusUplink_NetworkOrUserSpecific47 = 47"
  | "StatusUplink_into_raw StatusUplink_NetworkOrUserSpecific48 = 48"
  | "StatusUplink_into_raw StatusUplink_NetworkOrUserSpecific49 = 49"
  | "StatusUplink_into_raw StatusUplink_NetworkOrUserSpecific50 = 50"
  | "StatusUplink_into_raw StatusUplink_NetworkOrUserSpecific51 = 51"
  | "StatusUplink_into_raw StatusUplink_NetworkOrUserSpecific52 = 52"
  | "StatusUplink_into_raw StatusUplink_NetworkOrUserSpecific53 = 53"
  | "StatusUplink_into_raw StatusUplink_NetworkOrUserSpecific54 = 54"
  | "StatusUplink_into_raw StatusUplink_NetworkOrUserSpecific55 = 55"
  | "StatusUplink_into_raw StatusUplink_NetworkOrUserSpecific56 = 56"
  | "StatusUplink_into_raw StatusUplink_NetworkOrUserSpecific57 = 57"
  | "StatusUplink_into_raw StatusUplink_NetworkOrUserSpecific58 = 58"
  | "StatusUplink_into_raw StatusUplink_NetworkOrUserSpecific59 = 59"
  | "StatusUplink_into_raw StatusUplink_NetworkOrUserSpecific60 = 60"
  | "StatusUplink_into_raw StatusUplink_NetworkOrUserSpecific61 = 61"
  | "StatusUplink_into_raw StatusUplink_NetworkOrUserSpecific62 = 62"
  | "StatusUplink_into_raw StatusUplink_NetworkOrUserSpecific63 = 63"

definition StatusUplink_try_from :: "u64 \<Rightarrow> StatusUplink option" where
  "StatusUplink_try_from x =
     (if x = 1 then Some StatusUplink_ChangeOfEnergySavingModeRequest
      else if x = 2 then Some StatusUplink_ChangeOfEnergySavingModeResponse
      else if x = 3 then Some StatusUplink_DualWatchModeRequest
      else if x = 4 then Some StatusUplink_TerminatingDualWatchModeRequest
      else if x = 5 then Some StatusUplink_ChangeOfDualWatchModeResponse
      else if x = 6 then Some StatusUplink_StartOfDirectModeOperation
      else if x = 7 then Some StatusUplink_MsFrequencyBandsInformation
      else if x = 16 then Some StatusUplink_RequestToStartDmGatewayOperation
      else if x = 17 then Some StatusUplink_RequestToContinuedmGatewayOperation
      else if x = 18 then Some StatusUplink_RequestToStopDmGatewayOperation
      else if x = 19 then Some StatusUplink_RequestToAddDmMsAddresses
      else if x = 20 then Some StatusUplink_RequestToRemoveDmMsAddresses
      else if x = 21 then Some StatusUplink_RequestToReplaceDmMsAddresses
      else if x = 22 then Some StatusUplink_AcceptanceToRemovalOfDmMsAddresses
      else if x = 23 then Some StatusUplink_AcceptanceToChangeRegistrationLabel
      else if x = 24 then Some StatusUplink_AcceptanceToStopDmGatewayOperation
      else if x = 32 then Some StatusUplink_NetworkOrUserSpecific32
      else if x = 33 then Some StatusUplink_NetworkOrUserSpecific33
      else if x = 34 then Some StatusUplink_NetworkOrUserSpecific34
      else if x = 35 then Some StatusUplink_NetworkOrUserSpecific35
      else if x = 36 then Some StatusUplink_NetworkOrUserSpecific36
      else if x = 37 then Some StatusUplink_NetworkOrUserSpecific37
      else if x = 38 then Some StatusUplink_NetworkOrUserSpecific38
      else if x = 39 then Some StatusUplink_NetworkOrUserSpecific39
      else if x = 40 then Some StatusUplink_NetworkOrUserSpecific40
      else if x = 41 then Some StatusUplink_NetworkOrUserSpecific41
      else if x = 42 then Some StatusUplink_NetworkOrUserSpecific42
      else if x = 43 then Some StatusUplink_NetworkOrUserSpecific43
      else if x = 44 then Some StatusUplink_NetworkOrUserSpecific44
      else if x = 45 then Some StatusUplink_NetworkOrUserSpecific45
      else if x = 46 then Some StatusUplink_NetworkOrUserSpecific46
      else if x = 47 then Some StatusUplink_NetworkOrUserSpecific47
      else if x = 48 then Some StatusUplink_NetworkOrUserSpecific48
      else if x = 49 then Some StatusUplink_NetworkOrUserSpecific49
      else if x = 50 then Some StatusUplink_NetworkOrUserSpecific50
      else if x = 51 then Some StatusUplink_NetworkOrUserSpecific51
      else if x = 52 then Some StatusUplink_NetworkOrUserSpecific52
      else if x = 53 then Some StatusUplink_NetworkOrUserSpecific53
      else if x = 54 then Some StatusUplink_NetworkOrUserSpecific54
      else if x = 55 then Some StatusUplink_NetworkOrUserSpecific55
      else if x = 56 then Some StatusUplink_NetworkOrUserSpecific56
      else if x = 57 then Some StatusUplink_NetworkOrUserSpecific57
      else if x = 58 then Some StatusUplink_NetworkOrUserSpecific58
      else if x = 59 then Some StatusUplink_NetworkOrUserSpecific59
      else if x = 60 then Some StatusUplink_NetworkOrUserSpecific60
      else if x = 61 then Some StatusUplink_NetworkOrUserSpecific61
      else if x = 62 then Some StatusUplink_NetworkOrUserSpecific62
      else if x = 63 then Some StatusUplink_NetworkOrUserSpecific63
      else None)"

interpretation StatusUplink: raw_enum "\<lambda>_. True" 6 StatusUplink_into_raw StatusUplink_try_from
proof
  show "fits 6 (StatusUplink_into_raw e)" for e
    by (cases e) simp_all
  show "StatusUplink_try_from (StatusUplink_into_raw e) = Some e" for e
    by (cases e) (simp_all add: StatusUplink_try_from_def)
  show "True \<and> StatusUplink_into_raw e = x" if "StatusUplink_try_from x = Some e" for x e
    using that by (auto simp: StatusUplink_try_from_def split: if_splits)
qed simp

lemma StatusUplink_fits [simp]: "fits 6 (StatusUplink_into_raw e)"
  by (rule StatusUplink.fits_raw) simp

section \<open>MmType34ElemIdDl\<close>

text \<open>\<open>tetra-pdus/src/mm/enums/type34_elem_id_dl.rs\<close>.\<close>

datatype MmType34ElemIdDl =
    MmType34ElemIdDl_DefaultGroupAttachLifetime
  | MmType34ElemIdDl_NewRegisteredArea
  | MmType34ElemIdDl_SecurityDownlink
  | MmType34ElemIdDl_GroupReportResponse
  | MmType34ElemIdDl_GroupIdentityLocationAccept
  | MmType34ElemIdDl_DmMsAddress
  | MmType34ElemIdDl_GroupIdentityDownlink
  | MmType34ElemIdDl_AuthenticationDownlink
  | MmType34ElemIdDl_GroupIdentitySecurityRelatedInformation
  | MmType34ElemIdDl_CellTypeControl
  | MmType34ElemIdDl_Proprietary

primrec MmType34ElemIdDl_into_raw :: "MmType34ElemIdDl \<Rightarrow> u64" where
    "MmType34ElemIdDl_into_raw MmType34ElemIdDl_DefaultGroupAttachLifetime = 1"
  | "MmType34ElemIdDl_into_raw MmType34ElemIdDl_NewRegisteredArea = 2"
  | "MmType34ElemIdDl_into_raw MmType34ElemIdDl_SecurityDownlink = 3"
  | "MmType34ElemIdDl_into_raw MmType34ElemIdDl_GroupReportResponse = 4"
  | "MmType34ElemIdDl_into_raw MmType34ElemIdDl_GroupIdentityLocationAccept = 5"
  | "MmType34ElemIdDl_into_raw MmType34ElemIdDl_DmMsAddress = 6"
  | "MmType34ElemIdDl_into_raw MmType34ElemIdDl_GroupIdentityDownlink = 7"
  | "MmType34ElemIdDl_into_raw MmType34ElemIdDl_AuthenticationDownlink = 10"
  | "MmType34ElemIdDl_into_raw MmType34ElemIdDl_GroupIdentitySecurityRelatedInformation = 12"
  | "MmType34ElemIdDl_into_raw MmType34ElemIdDl_CellTypeControl = 13"
  | "MmType34ElemIdDl_into_raw MmType34ElemIdDl_Proprietary = 15"

definition MmType34ElemIdDl_try_from :: "u64 \<Rightarrow> MmType34ElemIdDl option" where
  "MmType34ElemIdDl_try_from x =
     (if x = 1 then Some MmType34ElemIdDl_DefaultGroupAttachLifetime
      else if x = 2 then Some MmType34ElemIdDl_NewRegisteredArea
      else if x = 3 then Some MmType34ElemIdDl_SecurityDownlink
      else if x = 4 then Some MmType34ElemIdDl_GroupReportResponse
      else if x = 5 then Some MmType34ElemIdDl_GroupIdentityLocationAccept
      else if x = 6 then Some MmType34ElemIdDl_DmMsAddress
      else if x = 7 then Some MmType34ElemIdDl_GroupIdentityDownlink
      else if x = 10 then Some MmType34ElemIdDl_AuthenticationDownlink
      else if x = 12 then Some MmType34ElemIdDl_GroupIdentitySecurityRelatedInformation
      else if x = 13 then Some MmType34ElemIdDl_CellTypeControl
      else if x = 15 then Some MmType34ElemIdDl_Proprietary
      else None)"

interpretation MmType34ElemIdDl: raw_enum "\<lambda>_. True" 4 MmType34ElemIdDl_into_raw MmType34ElemIdDl_try_from
proof
  show "fits 4 (MmType34ElemIdDl_into_raw e)" for e
    by (cases e) simp_all
  show "MmType34ElemIdDl_try_from (MmType34ElemIdDl_into_raw e) = Some e" for e
    by (cases e) (simp_all add: MmType34ElemIdDl_try_from_def)
  show "True \<and> MmType34ElemIdDl_into_raw e = x" if "MmType34ElemIdDl_try_from x = Some e" for x e
    using that by (auto simp: MmType34ElemIdDl_try_from_def split: if_splits)
qed simp

lemma MmType34ElemIdDl_fits [simp]: "fits 4 (MmType34ElemIdDl_into_raw e)"
  by (rule MmType34ElemIdDl.fits_raw) simp

section \<open>MmType34ElemIdUl\<close>

text \<open>\<open>tetra-pdus/src/mm/enums/type34_elem_id_ul.rs\<close>.\<close>

datatype MmType34ElemIdUl =
    MmType34ElemIdUl_GroupIdentityLocationDemand
  | MmType34ElemIdUl_GroupReportResponse
  | MmType34ElemIdUl_DmMsAddress
  | MmType34ElemIdUl_GroupIdentityUplink
  | MmType34ElemIdUl_AuthenticationUplink
  | MmType34ElemIdUl_ExtendedCapabilities
  | MmType34ElemIdUl_Proprietary

primrec MmType34ElemIdUl_into_raw :: "MmType34ElemIdUl \<Rightarrow> u64" where
    "MmType34ElemIdUl_into_raw MmType34ElemIdUl_GroupIdentityLocationDemand = 3"
  | "MmType34ElemIdUl_into_raw MmType34ElemIdUl_GroupReportResponse = 4"
  | "MmType34ElemIdUl_into_raw MmType34ElemIdUl_DmMsAddress = 6"
  | "MmType34ElemIdUl_into_raw MmType34ElemIdUl_GroupIdentityUplink = 8"
  | "MmType34ElemIdUl_into_raw MmType34ElemIdUl_AuthenticationUplink = 9"
  | "MmType34ElemIdUl_into_raw MmType34ElemIdUl_ExtendedCapabilities = 11"
  | "MmType34ElemIdUl_into_raw MmType34ElemIdUl_Proprietary = 15"

definition MmType34ElemIdUl_try_from :: "u64 \<Rightarrow> MmType34ElemIdUl option" where
  "MmType34ElemIdUl_try_from x =
     (if x = 3 then Some MmType34ElemIdUl_GroupIdentityLocationDemand
      else if x = 4 then Some MmType34ElemIdUl_GroupReportResponse
      else if x = 6 then Some MmType34ElemIdUl_DmMsAddress
      else if x = 8 then Some MmType34ElemIdUl_GroupIdentityUplink
      else if x = 9 then Some MmType34ElemIdUl_AuthenticationUplink
      else if x = 11 then Some MmType34ElemIdUl_ExtendedCapabilities
      else if x = 15 then Some MmType34ElemIdUl_Proprietary
      else None)"

interpretation MmType34ElemIdUl: raw_enum "\<lambda>_. True" 4 MmType34ElemIdUl_into_raw MmType34ElemIdUl_try_from
proof
  show "fits 4 (MmType34ElemIdUl_into_raw e)" for e
    by (cases e) simp_all
  show "MmType34ElemIdUl_try_from (MmType34ElemIdUl_into_raw e) = Some e" for e
    by (cases e) (simp_all add: MmType34ElemIdUl_try_from_def)
  show "True \<and> MmType34ElemIdUl_into_raw e = x" if "MmType34ElemIdUl_try_from x = Some e" for x e
    using that by (auto simp: MmType34ElemIdUl_try_from_def split: if_splits)
qed simp

lemma MmType34ElemIdUl_fits [simp]: "fits 4 (MmType34ElemIdUl_into_raw e)"
  by (rule MmType34ElemIdUl.fits_raw) simp

section \<open>CallStatus\<close>

text \<open>\<open>tetra-pdus/src/cmce/enums/call_status.rs\<close>.\<close>

datatype CallStatus =
    CallStatus_Callproceeding
  | CallStatus_Callqueued
  | CallStatus_Requestedsubscriberpaged
  | CallStatus_Callcontinue
  | CallStatus_Hangtimeexpired

primrec CallStatus_into_raw :: "CallStatus \<Rightarrow> u64" where
    "CallStatus_into_raw CallStatus_Callproceeding = 0"
  | "CallStatus_into_raw CallStatus_Callqueued = 1"
  | "CallStatus_into_raw CallStatus_Requestedsubscriberpaged = 2"
  | "CallStatus_into_raw CallStatus_Callcontinue = 3"
  | "CallStatus_into_raw CallStatus_Hangtimeexpired = 4"

definition CallStatus_try_from :: "u64 \<Rightarrow> CallStatus option" where
  "CallStatus_try_from x =
     (if x = 0 then Some CallStatus_Callproceeding
      else if x = 1 then Some CallStatus_Callqueued
      else if x = 2 then Some CallStatus_Requestedsubscriberpaged
      else if x = 3 then Some CallStatus_Callcontinue
      else if x = 4 then Some CallStatus_Hangtimeexpired
      else None)"

interpretation CallStatus: raw_enum "\<lambda>_. True" 3 CallStatus_into_raw CallStatus_try_from
proof
  show "fits 3 (CallStatus_into_raw e)" for e
    by (cases e) simp_all
  show "CallStatus_try_from (CallStatus_into_raw e) = Some e" for e
    by (cases e) (simp_all add: CallStatus_try_from_def)
  show "True \<and> CallStatus_into_raw e = x" if "CallStatus_try_from x = Some e" for x e
    using that by (auto simp: CallStatus_try_from_def split: if_splits)
qed simp

lemma CallStatus_fits [simp]: "fits 3 (CallStatus_into_raw e)"
  by (rule CallStatus.fits_raw) simp

section \<open>CallTimeout\<close>

text \<open>\<open>tetra-pdus/src/cmce/enums/call_timeout.rs\<close>.\<close>

datatype CallTimeout =
    CallTimeout_Infinite
  | CallTimeout_T30s
  | CallTimeout_T45s
  | CallTimeout_T60s
  | CallTimeout_T2m
  | CallTimeout_T3m
  | CallTimeout_T4m
  | CallTimeout_T5m
  | CallTimeout_T6m
  | CallTimeout_T8m
  | CallTimeout_T10m
  | CallTimeout_T12m
  | CallTimeout_T15m
  | CallTimeout_T20m
  | CallTimeout_T30m
  | CallTimeout_Reserved

primrec CallTimeout_into_raw :: "CallTimeout \<Rightarrow> u64" where
    "CallTimeout_into_raw CallTimeout_Infinite = 0"
  | "CallTimeout_into_raw CallTimeout_T30s = 1"
  | "CallTimeout_into_raw CallTimeout_T45s = 2"
  | "CallTimeout_into_raw CallTimeout_T60s = 3"
  | "CallTimeout_into_raw CallTimeout_T2m = 4"
  | "CallTimeout_into_raw CallTimeout_T3m = 5"
  | "CallTimeout_into_raw CallTimeout_T4m = 6"
  | "CallTimeout_into_raw CallTimeout_T5m = 7"
  | "CallTimeout_into_raw CallTimeout_T6m = 8"
  | "CallTimeout_into_raw CallTimeout_T8m = 9"
  | "CallTimeout_into_raw CallTimeout_T10m = 10"
  | "CallTimeout_into_raw CallTimeout_T12m = 11"
  | "CallTimeout_into_raw CallTimeout_T15m = 12"
  | "CallTimeout_into_raw CallTimeout_T20m = 13"
  | "CallTimeout_into_raw CallTimeout_T30m = 14"
  | "CallTimeout_into_raw CallTimeout_Reserved = 15"

definition CallTimeout_try_from :: "u64 \<Rightarrow> CallTimeout option" where
  "CallTimeout_try_from x =
     (if x = 0 then Some CallTimeout_Infinite
      else if x = 1 then Some CallTimeout_T30s
      else if x = 2 then Some CallTimeout_T45s
      else if x = 3 then Some CallTimeout_T60s
      else if x = 4 then Some CallTimeout_T2m
      else if x = 5 then Some CallTimeout_T3m
      else if x = 6 then Some CallTimeout_T4m
      else if x = 7 then Some CallTimeout_T5m
      else if x = 8 then Some CallTimeout_T6m
      else if x = 9 then Some CallTimeout_T8m
      else if x = 10 then Some CallTimeout_T10m
      else if x = 11 then Some CallTimeout_T12m
      else if x = 12 then Some CallTimeout_T15m
      else if x = 13 then Some CallTimeout_T20m
      else if x = 14 then Some CallTimeout_T30m
      else if x = 15 then Some CallTimeout_Reserved
      else None)"

interpretation CallTimeout: raw_enum "\<lambda>_. True" 4 CallTimeout_into_raw CallTimeout_try_from
proof
  show "fits 4 (CallTimeout_into_raw e)" for e
    by (cases e) simp_all
  show "CallTimeout_try_from (CallTimeout_into_raw e) = Some e" for e
    by (cases e) (simp_all add: CallTimeout_try_from_def)
  show "True \<and> CallTimeout_into_raw e = x" if "CallTimeout_try_from x = Some e" for x e
    using that by (auto simp: CallTimeout_try_from_def split: if_splits)
qed simp

lemma CallTimeout_fits [simp]: "fits 4 (CallTimeout_into_raw e)"
  by (rule CallTimeout.fits_raw) simp

text \<open>Every value of the field is a code: unwrapping the conversion cannot panic.\<close>

lemma CallTimeout_total: "fits 4 v \<Longrightarrow> CallTimeout_try_from v \<noteq> None"
  by (drule fits_cases) (auto simp: CallTimeout_try_from_def)

lemmas safe_CallTimeout [safe_intros] = safe_read_enum_unwrap [OF CallTimeout_total] safe_type2_enum_unwrap [OF CallTimeout_total]

section \<open>CallTimeoutSetupPhase\<close>

text \<open>\<open>tetra-pdus/src/cmce/enums/call_timeout_setup_phase.rs\<close>.\<close>

datatype CallTimeoutSetupPhase =
    CallTimeoutSetupPhase_Predefined
  | CallTimeoutSetupPhase_T1s
  | CallTimeoutSetupPhase_T2s
  | CallTimeoutSetupPhase_T5s
  | CallTimeoutSetupPhase_T10s
  | CallTimeoutSetupPhase_T20s
  | CallTimeoutSetupPhase_T30s
  | CallTimeoutSetupPhase_T60s

primrec CallTimeoutSetupPhase_into_raw :: "CallTimeoutSetupPhase \<Rightarrow> u64" where
    "CallTimeoutSetupPhase_into_raw CallTimeoutSetupPhase_Predefined = 0"
  | "CallTimeoutSetupPhase_into_raw CallTimeoutSetupPhase_T1s = 1"
  | "CallTimeoutSetupPhase_into_raw CallTimeoutSetupPhase_T2s = 2"
  | "CallTimeoutSetupPhase_into_raw CallTimeoutSetupPhase_T5s = 3"
  | "CallTimeoutSetupPhase_into_raw CallTimeoutSetupPhase_T10s = 4"
  | "CallTimeoutSetupPhase_into_raw CallTimeoutSetupPhase_T20s = 5"
  | "CallTimeoutSetupPhase_into_raw CallTimeoutSetupPhase_T30s = 6"
  | "CallTimeoutSetupPhase_into_raw CallTimeoutSetupPhase_T60s = 7"

definition CallTimeoutSetupPhase_try_from :: "u64 \<Rightarrow> CallTimeoutSetupPhase option" where
  "CallTimeoutSetupPhase_try_from x =
     (if x = 0 then Some CallTimeoutSetupPhase_Predefined
      else if x = 1 then Some CallTimeoutSetupPhase_T1s
      else if x = 2 then Some CallTimeoutSetupPhase_T2s
      else if x = 3 then Some CallTimeoutSetupPhase_T5s
      else if x = 4 then Some CallTimeoutSetupPhase_T10s
      else if x = 5 then Some CallTimeoutSetupPhase_T20s
      else if x = 6 then Some CallTimeoutSetupPhase_T30s
      else if x = 7 then Some CallTimeoutSetupPhase_T60s
      else None)"

interpretation CallTimeoutSetupPhase: raw_enum "\<lambda>_. True" 3 CallTimeoutSetupPhase_into_raw CallTimeoutSetupPhase_try_from
proof
  show "fits 3 (CallTimeoutSetupPhase_into_raw e)" for e
    by (cases e) simp_all
  show "CallTimeoutSetupPhase_try_from (CallTimeoutSetupPhase_into_raw e) = Some e" for e
    by (cases e) (simp_all add: CallTimeoutSetupPhase_try_from_def)
  show "True \<and> CallTimeoutSetupPhase_into_raw e = x" if "CallTimeoutSetupPhase_try_from x = Some e" for x e
    using that by (auto simp: CallTimeoutSetupPhase_try_from_def split: if_splits)
qed simp

lemma CallTimeoutSetupPhase_fits [simp]: "fits 3 (CallTimeoutSetupPhase_into_raw e)"
  by (rule CallTimeoutSetupPhase.fits_raw) simp

text \<open>Every value of the field is a code: unwrapping the conversion cannot panic.\<close>

lemma CallTimeoutSetupPhase_total: "fits 3 v \<Longrightarrow> CallTimeoutSetupPhase_try_from v \<noteq> None"
  by (drule fits_cases) (auto simp: CallTimeoutSetupPhase_try_from_def)

lemmas safe_CallTimeoutSetupPhase [safe_intros] = safe_read_enum_unwrap [OF CallTimeoutSetupPhase_total] safe_type2_enum_unwrap [OF CallTimeoutSetupPhase_total]

section \<open>CmcePduTypeDl\<close>

text \<open>\<open>tetra-pdus/src/cmce/enums/cmce_pdu_type_dl.rs\<close>.\<close>

datatype CmcePduTypeDl =
    CmcePduTypeDl_DAlert
  | CmcePduTypeDl_DCallProceeding
  | CmcePduTypeDl_DConnect
  | CmcePduTypeDl_DConnectAcknowledge
  | CmcePduTypeDl_DDisconnect
  | CmcePduTypeDl_DInfo
  | CmcePduTypeDl_DRelease
  | CmcePduTypeDl_DSetup
  | CmcePduTypeDl_DStatus
  | CmcePduTypeDl_DTxCeased
  | CmcePduTypeDl_DTxContinue
  | CmcePduTypeDl_DTxGranted
  | CmcePduTypeDl_DTxWait
  | CmcePduTypeDl_DTxInterrupt
  | CmcePduTypeDl_DCallRestore
  | CmcePduTypeDl_DSdsData
  | CmcePduTypeDl_DFacility
  | CmcePduTypeDl_CmceFunctionNotSupported

primrec CmcePduTypeDl_into_raw :: "CmcePduTypeDl \<Rightarrow> u64" where
    "CmcePduTypeDl_into_raw CmcePduTypeDl_DAlert = 0"
  | "CmcePduTypeDl_into_raw CmcePduTypeDl_DCallProceeding = 1"
  | "CmcePduTypeDl_into_raw CmcePduTypeDl_DConnect = 2"
  | "CmcePduTypeDl_into_raw CmcePduTypeDl_DConnectAcknowledge = 3"
  | "CmcePduTypeDl_into_raw CmcePduTypeDl_DDisconnect = 4"
  | "CmcePduTypeDl_into_raw CmcePduTypeDl_DInfo = 5"
  | "CmcePduTypeDl_into_raw CmcePduTypeDl_DRelease = 6"
  | "CmcePduTypeDl_into_raw CmcePduTypeDl_DSetup = 7"
  | "CmcePduTypeDl_into_raw CmcePduTypeDl_DStatus = 8"
  | "CmcePduTypeDl_into_raw CmcePduTypeDl_DTxCeased = 9"
  | "CmcePduTypeDl_into_raw CmcePduTypeDl_DTxContinue = 10"
  | "CmcePduTypeDl_into_raw CmcePduTypeDl_DTxGranted = 11"
  | "CmcePduTypeDl_into_raw CmcePduTypeDl_DTxWait = 12"
  | "CmcePduTypeDl_into_raw CmcePduTypeDl_DTxInterrupt = 13"
  | "CmcePduTypeDl_into_raw CmcePduTypeDl_DCallRestore = 14"
  | "CmcePduTypeDl_into_raw CmcePduTypeDl_DSdsData = 15"
  | "CmcePduTypeDl_into_raw CmcePduTypeDl_DFacility = 16"
  | "CmcePduTypeDl_into_raw CmcePduTypeDl_CmceFunctionNotSupported = 31"

definition CmcePduTypeDl_try_from :: "u64 \<Rightarrow> CmcePduTypeDl option" where
  "CmcePduTypeDl_try_from x =
     (if x = 0 then Some CmcePduTypeDl_DAlert
      else if x = 1 then Some CmcePduTypeDl_DCallProceeding
      else if x = 2 then Some CmcePduTypeDl_DConnect
      else if x = 3 then Some CmcePduTypeDl_DConnectAcknowledge
      else if x = 4 then Some CmcePduTypeDl_DDisconnect
      else if x = 5 then Some CmcePduTypeDl_DInfo
      else if x = 6 then Some CmcePduTypeDl_DRelease
      else if x = 7 then Some CmcePduTypeDl_DSetup
      else if x = 8 then Some CmcePduTypeDl_DStatus
      else if x = 9 then Some CmcePduTypeDl_DTxCeased
      else if x = 10 then Some CmcePduTypeDl_DTxContinue
      else if x = 11 then Some CmcePduTypeDl_DTxGranted
      else if x = 12 then Some CmcePduTypeDl_DTxWait
      else if x = 13 then Some CmcePduTypeDl_DTxInterrupt
      else if x = 14 then Some CmcePduTypeDl_DCallRestore
      else if x = 15 then Some CmcePduTypeDl_DSdsData
      else if x = 16 then Some CmcePduTypeDl_DFacility
      else if x = 31 then Some CmcePduTypeDl_CmceFunctionNotSupported
      else None)"

interpretation CmcePduTypeDl: raw_enum "\<lambda>_. True" 5 CmcePduTypeDl_into_raw CmcePduTypeDl_try_from
proof
  show "fits 5 (CmcePduTypeDl_into_raw e)" for e
    by (cases e) simp_all
  show "CmcePduTypeDl_try_from (CmcePduTypeDl_into_raw e) = Some e" for e
    by (cases e) (simp_all add: CmcePduTypeDl_try_from_def)
  show "True \<and> CmcePduTypeDl_into_raw e = x" if "CmcePduTypeDl_try_from x = Some e" for x e
    using that by (auto simp: CmcePduTypeDl_try_from_def split: if_splits)
qed simp

lemma CmcePduTypeDl_fits [simp]: "fits 5 (CmcePduTypeDl_into_raw e)"
  by (rule CmcePduTypeDl.fits_raw) simp

section \<open>CmcePduTypeUl\<close>

text \<open>\<open>tetra-pdus/src/cmce/enums/cmce_pdu_type_ul.rs\<close>.\<close>

datatype CmcePduTypeUl =
    CmcePduTypeUl_UAlert
  | CmcePduTypeUl_UConnect
  | CmcePduTypeUl_UDisconnect
  | CmcePduTypeUl_UInfo
  | CmcePduTypeUl_URelease
  | CmcePduTypeUl_USetup
  | CmcePduTypeUl_UStatus
  | CmcePduTypeUl_UTxCeased
  | CmcePduTypeUl_UTxDemand
  | CmcePduTypeUl_UCallRestore
  | CmcePduTypeUl_USdsData
  | CmcePduTypeUl_UFacility
  | CmcePduTypeUl_CmceFunctionNotSupported

primrec CmcePduTypeUl_into_raw :: "CmcePduTypeUl \<Rightarrow> u64" where
    "CmcePduTypeUl_into_raw CmcePduTypeUl_UAlert = 0"
  | "CmcePduTypeUl_into_raw CmcePduTypeUl_UConnect = 2"
  | "CmcePduTypeUl_into_raw CmcePduTypeUl_UDisconnect = 4"
  | "CmcePduTypeUl_into_raw CmcePduTypeUl_UInfo = 5"
  | "CmcePduTypeUl_into_raw CmcePduTypeUl_URelease = 6"
  | "CmcePduTypeUl_into_raw CmcePduTypeUl_USetup = 7"
  | "CmcePduTypeUl_into_raw CmcePduTypeUl_UStatus = 8"
  | "CmcePduTypeUl_into_raw CmcePduTypeUl_UTxCeased = 9"
  | "CmcePduTypeUl_into_raw CmcePduTypeUl_UTxDemand = 10"
  | "CmcePduTypeUl_into_raw CmcePduTypeUl_UCallRestore = 14"
  | "CmcePduTypeUl_into_raw CmcePduTypeUl_USdsData = 15"
  | "CmcePduTypeUl_into_raw CmcePduTypeUl_UFacility = 16"
  | "CmcePduTypeUl_into_raw CmcePduTypeUl_CmceFunctionNotSupported = 31"

definition CmcePduTypeUl_try_from :: "u64 \<Rightarrow> CmcePduTypeUl option" where
  "CmcePduTypeUl_try_from raw =
     (let x = (ucast raw :: u8) in
      if x = 0 then Some CmcePduTypeUl_UAlert
      else if x = 2 then Some CmcePduTypeUl_UConnect
      else if x = 4 then Some CmcePduTypeUl_UDisconnect
      else if x = 5 then Some CmcePduTypeUl_UInfo
      else if x = 6 then Some CmcePduTypeUl_URelease
      else if x = 7 then Some CmcePduTypeUl_USetup
      else if x = 8 then Some CmcePduTypeUl_UStatus
      else if x = 9 then Some CmcePduTypeUl_UTxCeased
      else if x = 10 then Some CmcePduTypeUl_UTxDemand
      else if x = 14 then Some CmcePduTypeUl_UCallRestore
      else if x = 15 then Some CmcePduTypeUl_USdsData
      else if x = 16 then Some CmcePduTypeUl_UFacility
      else if x = 31 then Some CmcePduTypeUl_CmceFunctionNotSupported
      else None)"

text \<open>The reader of this code keeps the low eight bits only, so it agrees with the code on the values of its five-bit field.\<close>

lemma CmcePduTypeUl_try_from_raw: "CmcePduTypeUl_try_from (CmcePduTypeUl_into_raw e) = Some e"
  by (cases e) (simp_all add: CmcePduTypeUl_try_from_def)

section \<open>DisconnectCause\<close>

text \<open>\<open>tetra-pdus/src/cmce/enums/disconnect_cause.rs\<close>.\<close>

datatype DisconnectCause =
    DisconnectCause_CauseNotDefinedOrUnknown
  | DisconnectCause_UserRequestedDisconnection
  | DisconnectCause_CalledPartyBusy
  | DisconnectCause_CalledPartyNotReachable
  | DisconnectCause_CalledPartyDoesNotSupportEncryption
  | DisconnectCause_CongestionInInfrastructure
  | DisconnectCause_NotAllowedTrafficCase
  | DisconnectCause_IncompatibleTrafficCase
  | DisconnectCause_RequestedServiceNotAvailable
  | DisconnectCause_PreEmptiveUseOfResource
  | DisconnectCause_InvalidCallIdentifier
  | DisconnectCause_CallRejectedByTheCalledParty
  | DisconnectCause_NoIdleCcEntity
  | DisconnectCause_ExpiryOfTimer
  | DisconnectCause_SwmiRequestedDisconnection
  | DisconnectCause_AcknowledgedServiceNotComplete
  | DisconnectCause_UnknownTetraIdentity
  | DisconnectCause_SsSpecificDisconnection
  | DisconnectCause_UnknownExternalSubscriberIdentity
  | DisconnectCause_CallRestorationOfTheOtherUserFailed
  | DisconnectCause_CalledPartyRequiresEncryption
  | DisconnectCause_ConcurrentSetUpNotSupported
  | DisconnectCause_CalledPartyIsUnderTheSameDmGateOfTheCallingParty
  | DisconnectCause_NonCallOwnerRequestedDisconnection

primrec DisconnectCause_into_raw :: "DisconnectCause \<Rightarrow> u64" where
    "DisconnectCause_into_raw DisconnectCause_CauseNotDefinedOrUnknown = 0"
  | "DisconnectCause_into_raw DisconnectCause_UserRequestedDisconnection = 1"
  | "DisconnectCause_into_raw DisconnectCause_CalledPartyBusy = 2"
  | "DisconnectCause_into_raw DisconnectCause_CalledPartyNotReachable = 3"
  | "DisconnectCause_into_raw DisconnectCause_CalledPartyDoesNotSupportEncryption = 4"
  | "DisconnectCause_into_raw DisconnectCause_CongestionInInfrastructure = 5"
  | "DisconnectCause_into_raw DisconnectCause_NotAllowedTrafficCase = 6"
  | "DisconnectCause_into_raw DisconnectCause_IncompatibleTrafficCase = 7"
  | "DisconnectCause_into_raw DisconnectCause_RequestedServiceNotAvailable = 8"
  | "DisconnectCause_into_raw DisconnectCause_PreEmptiveUseOfResource = 9"
  | "DisconnectCause_into_raw DisconnectCause_InvalidCallIdentifier = 10"
  | "DisconnectCause_into_raw DisconnectCause_CallRejectedByTheCalledParty = 11"
  | "DisconnectCause_into_raw DisconnectCause_NoIdleCcEntity = 12"
  | "DisconnectCause_into_raw DisconnectCause_ExpiryOfTimer = 13"
  | "DisconnectCause_into_raw DisconnectCause_SwmiRequestedDisconnection = 14"
  | "DisconnectCause_into_raw DisconnectCause_AcknowledgedServiceNotComplete = 15"
  | "DisconnectCause_into_raw DisconnectCause_UnknownTetraIdentity = 16"
  | "DisconnectCause_into_raw DisconnectCause_SsSpecificDisconnection = 17"
  | "DisconnectCause_into_raw DisconnectCause_UnknownExternalSubscriberIdentity = 18"
  | "DisconnectCause_into_raw DisconnectCause_CallRestorationOfTheOtherUserFailed = 19"
  | "DisconnectCause_into_raw DisconnectCause_CalledPartyRequiresEncryption = 20"
  | "DisconnectCause_into_raw DisconnectCause_ConcurrentSetUpNotSupported = 21"
  | "DisconnectCause_into_raw DisconnectCause_CalledPartyIsUnderTheSameDmGateOfTheCallingParty = 22"
  | "DisconnectCause_into_raw DisconnectCause_NonCallOwnerRequestedDisconnection = 23"

definition DisconnectCause_try_from :: "u64 \<Rightarrow> DisconnectCause option" where
  "DisconnectCause_try_from x =
     (if x = 0 then Some DisconnectCause_CauseNotDefinedOrUnknown
      else if x = 1 then Some DisconnectCause_UserRequestedDisconnection
      else if x = 2 then Some DisconnectCause_CalledPartyBusy
      else if x = 3 then Some DisconnectCause_CalledPartyNotReachable
      else if x = 4 then Some DisconnectCause_CalledPartyDoesNotSupportEncryption
      else if x = 5 then Some DisconnectCause_CongestionInInfrastructure
      else if x = 6 then Some DisconnectCause_NotAllowedTrafficCase
      else if x = 7 then Some DisconnectCause_IncompatibleTrafficCase
      else if x = 8 then Some DisconnectCause_RequestedServiceNotAvailable
      else if x = 9 then Some DisconnectCause_PreEmptiveUseOfResource
      else if x = 10 then Some DisconnectCause_InvalidCallIdentifier
      else if x = 11 then Some DisconnectCause_CallRejectedByTheCalledParty
      else if x = 12 then Some DisconnectCause_NoIdleCcEntity
      else if x = 13 then Some DisconnectCause_ExpiryOfTimer
      else if x = 14 then Some DisconnectCause_SwmiRequestedDisconnection
      else if x = 15 then Some DisconnectCause_AcknowledgedServiceNotComplete
      else if x = 16 then Some DisconnectCause_UnknownTetraIdentity
      else if x = 17 then Some DisconnectCause_SsSpecificDisconnection
      else if x = 18 then Some DisconnectCause_UnknownExternalSubscriberIdentity
      else if x = 19 then Some DisconnectCause_CallRestorationOfTheOtherUserFailed
      else if x = 20 then Some DisconnectCause_CalledPartyRequiresEncryption
      else if x = 21 then Some DisconnectCause_ConcurrentSetUpNotSupported
      else if x = 22 then Some DisconnectCause_CalledPartyIsUnderTheSameDmGateOfTheCallingParty
      else if x = 23 then Some DisconnectCause_NonCallOwnerRequestedDisconnection
      else None)"

interpretation DisconnectCause: raw_enum "\<lambda>_. True" 5 DisconnectCause_into_raw DisconnectCause_try_from
proof
  show "fits 5 (DisconnectCause_into_raw e)" for e
    by (cases e) simp_all
  show "DisconnectCause_try_from (DisconnectCause_into_raw e) = Some e" for e
    by (cases e) (simp_all add: DisconnectCause_try_from_def)
  show "True \<and> DisconnectCause_into_raw e = x" if "DisconnectCause_try_from x = Some e" for x e
    using that by (auto simp: DisconnectCause_try_from_def split: if_splits)
qed simp

lemma DisconnectCause_fits [simp]: "fits 5 (DisconnectCause_into_raw e)"
  by (rule DisconnectCause.fits_raw) simp

section \<open>PartyTypeIdentifier\<close>

text \<open>\<open>tetra-pdus/src/cmce/enums/party_type_identifier.rs\<close>.\<close>

datatype PartyTypeIdentifier =
    PartyTypeIdentifier_Sna
  | PartyTypeIdentifier_Ssi
  | PartyTypeIdentifier_Tsi
  | PartyTypeIdentifier_Reserved

primrec PartyTypeIdentifier_into_raw :: "PartyTypeIdentifier \<Rightarrow> u64" where
    "PartyTypeIdentifier_into_raw PartyTypeIdentifier_Sna = 0"
  | "PartyTypeIdentifier_into_raw PartyTypeIdentifier_Ssi = 1"
  | "PartyTypeIdentifier_into_raw PartyTypeIdentifier_Tsi = 2"
  | "PartyTypeIdentifier_into_raw PartyTypeIdentifier_Reserved = 3"

definition PartyTypeIdentifier_try_from :: "u64 \<Rightarrow> PartyTypeIdentifier option" where
  "PartyTypeIdentifier_try_from x =
     (if x = 0 then Some PartyTypeIdentifier_Sna
      else if x = 1 then Some PartyTypeIdentifier_Ssi
      else if x = 2 then Some PartyTypeIdentifier_Tsi
      else if x = 3 then Some PartyTypeIdentifier_Reserved
      else None)"

interpretation PartyTypeIdentifier: raw_enum "\<lambda>_. True" 2 PartyTypeIdentifier_into_raw PartyTypeIdentifier_try_from
proof
  show "fits 2 (PartyTypeIdentifier_into_raw e)" for e
    by (cases e) simp_all
  show "PartyTypeIdentifier_try_from (PartyTypeIdentifier_into_raw e) = Some e" for e
    by (cases e) (simp_all add: PartyTypeIdentifier_try_from_def)
  show "True \<and> PartyTypeIdentifier_into_raw e = x" if "PartyTypeIdentifier_try_from x = Some e" for x e
    using that by (auto simp: PartyTypeIdentifier_try_from_def split: if_splits)
qed simp

lemma PartyTypeIdentifier_fits [simp]: "fits 2 (PartyTypeIdentifier_into_raw e)"
  by (rule PartyTypeIdentifier.fits_raw) simp

text \<open>Every value of the field is a code: unwrapping the conversion cannot panic.\<close>

lemma PartyTypeIdentifier_total: "fits 2 v \<Longrightarrow> PartyTypeIdentifier_try_from v \<noteq> None"
  by (drule fits_cases) (auto simp: PartyTypeIdentifier_try_from_def)

lemmas safe_PartyTypeIdentifier [safe_intros] = safe_read_enum_unwrap [OF PartyTypeIdentifier_total] safe_type2_enum_unwrap [OF PartyTypeIdentifier_total]

section \<open>ShortReportType\<close>

text \<open>\<open>tetra-pdus/src/cmce/enums/short_report_type.rs\<close>.\<close>

datatype ShortReportType =
    ShortReportType_ProtOrEncodingNotSupported
  | ShortReportType_DestMemFull
  | ShortReportType_MessageReceived
  | ShortReportType_MessageConsumed

primrec ShortReportType_into_raw :: "ShortReportType \<Rightarrow> u64" where
    "ShortReportType_into_raw ShortReportType_ProtOrEncodingNotSupported = 0"
  | "ShortReportType_into_raw ShortReportType_DestMemFull = 1"
  | "ShortReportType_into_raw ShortReportType_MessageReceived = 2"
  | "ShortReportType_into_raw ShortReportType_MessageConsumed = 3"

definition ShortReportType_try_from :: "u64 \<Rightarrow> ShortReportType option" where
  "ShortReportType_try_from x =
     (if x = 0 then Some ShortReportType_ProtOrEncodingNotSupported
      else if x = 1 then Some ShortReportType_DestMemFull
      else if x = 2 then Some ShortReportType_MessageReceived
      else if x = 3 then Some ShortReportType_MessageConsumed
      else None)"

interpretation ShortReportType: raw_enum "\<lambda>_. True" 2 ShortReportType_into_raw ShortReportType_try_from
proof
  show "fits 2 (ShortReportType_into_raw e)" for e
    by (cases e) simp_all
  show "ShortReportType_try_from (ShortReportType_into_raw e) = Some e" for e
    by (cases e) (simp_all add: ShortReportType_try_from_def)
  show "True \<and> ShortReportType_into_raw e = x" if "ShortReportType_try_from x = Some e" for x e
    using that by (auto simp: ShortReportType_try_from_def split: if_splits)
qed simp

lemma ShortReportType_fits [simp]: "fits 2 (ShortReportType_into_raw e)"
  by (rule ShortReportType.fits_raw) simp

text \<open>Every value of the field is a code: unwrapping the conversion cannot panic.\<close>

lemma ShortReportType_total: "fits 2 v \<Longrightarrow> ShortReportType_try_from v \<noteq> None"
  by (drule fits_cases) (auto simp: ShortReportType_try_from_def)

lemmas safe_ShortReportType [safe_intros] = safe_read_enum_unwrap [OF ShortReportType_total] safe_type2_enum_unwrap [OF ShortReportType_total]

section \<open>TransmissionGrant\<close>

text \<open>\<open>tetra-pdus/src/cmce/enums/transmission_grant.rs\<close>.\<close>

datatype TransmissionGrant =
    TransmissionGrant_Granted
  | TransmissionGrant_NotGranted
  | TransmissionGrant_RequestQueued
  | TransmissionGrant_GrantedToOtherUser

primrec TransmissionGrant_into_raw :: "TransmissionGrant \<Rightarrow> u64" where
    "TransmissionGrant_into_raw TransmissionGrant_Granted = 0"
  | "TransmissionGrant_into_raw TransmissionGrant_NotGranted = 1"
  | "TransmissionGrant_into_raw TransmissionGrant_RequestQueued = 2"
  | "TransmissionGrant_into_raw TransmissionGrant_GrantedToOtherUser = 3"

definition TransmissionGrant_try_from :: "u64 \<Rightarrow> TransmissionGrant option" where
  "TransmissionGrant_try_from x =
     (if x = 0 then Some TransmissionGrant_Granted
      else if x = 1 then Some TransmissionGrant_NotGranted
      else if x = 2 then Some TransmissionGrant_RequestQueued
      else if x = 3 then Some TransmissionGrant_GrantedToOtherUser
      else None)"

interpretation TransmissionGrant: raw_enum "\<lambda>_. True" 2 TransmissionGrant_into_raw TransmissionGrant_try_from
proof
  show "fits 2 (TransmissionGrant_into_raw e)" for e
    by (cases e) simp_all
  show "TransmissionGrant_try_from (TransmissionGrant_into_raw e) = Some e" for e
    by (cases e) (simp_all add: TransmissionGrant_try_from_def)
  show "True \<and> TransmissionGrant_into_raw e = x" if "TransmissionGrant_try_from x = Some e" for x e
    using that by (auto simp: TransmissionGrant_try_from_def split: if_splits)
qed simp

lemma TransmissionGrant_fits [simp]: "fits 2 (TransmissionGrant_into_raw e)"
  by (rule TransmissionGrant.fits_raw) simp

text \<open>Every value of the field is a code: unwrapping the conversion cannot panic.\<close>

lemma TransmissionGrant_total: "fits 2 v \<Longrightarrow> TransmissionGrant_try_from v \<noteq> None"
  by (drule fits_cases) (auto simp: TransmissionGrant_try_from_def)

lemmas safe_TransmissionGrant [safe_intros] = safe_read_enum_unwrap [OF TransmissionGrant_total] safe_type2_enum_unwrap [OF TransmissionGrant_total]

section \<open>CmceType3ElemId\<close>

text \<open>\<open>tetra-pdus/src/cmce/enums/type3_elem_id.rs\<close>.\<close>

datatype CmceType3ElemId =
    CmceType3ElemId_Dtmf
  | CmceType3ElemId_ExtSubscriberNum
  | CmceType3ElemId_Facility
  | CmceType3ElemId_PollResponseAddr
  | CmceType3ElemId_TempAddr
  | CmceType3ElemId_DmMsAddr
  | CmceType3ElemId_Proprietary

primrec CmceType3ElemId_into_raw :: "CmceType3ElemId \<Rightarrow> u64" where
    "CmceType3ElemId_into_raw CmceType3ElemId_Dtmf = 1"
  | "CmceType3ElemId_into_raw CmceType3ElemId_ExtSubscriberNum = 2"
  | "CmceType3ElemId_into_raw CmceType3ElemId_Facility = 3"
  | "CmceType3ElemId_into_raw CmceType3ElemId_PollResponseAddr = 4"
  | "CmceType3ElemId_into_raw CmceType3ElemId_TempAddr = 5"
  | "CmceType3ElemId_into_raw CmceType3ElemId_DmMsAddr = 6"
  | "CmceType3ElemId_into_raw CmceType3ElemId_Proprietary = 15"

definition CmceType3ElemId_try_from :: "u64 \<Rightarrow> CmceType3ElemId option" where
  "CmceType3ElemId_try_from x =
     (if x = 1 then Some CmceType3ElemId_Dtmf
      else if x = 2 then Some CmceType3ElemId_ExtSubscriberNum
      else if x = 3 then Some CmceType3ElemId_Facility
      else if x = 4 then Some CmceType3ElemId_PollResponseAddr
      else if x = 5 then Some CmceType3ElemId_TempAddr
      else if x = 6 then Some CmceType3ElemId_DmMsAddr
      else if x = 15 then Some CmceType3ElemId_Proprietary
      else None)"

interpretation CmceType3ElemId: raw_enum "\<lambda>_. True" 4 CmceType3ElemId_into_raw CmceType3ElemId_try_from
proof
  show "fits 4 (CmceType3ElemId_into_raw e)" for e
    by (cases e) simp_all
  show "CmceType3ElemId_try_from (CmceType3ElemId_into_raw e) = Some e" for e
    by (cases e) (simp_all add: CmceType3ElemId_try_from_def)
  show "True \<and> CmceType3ElemId_into_raw e = x" if "CmceType3ElemId_try_from x = Some e" for x e
    using that by (auto simp: CmceType3ElemId_try_from_def split: if_splits)
qed simp

lemma CmceType3ElemId_fits [simp]: "fits 4 (CmceType3ElemId_into_raw e)"
  by (rule CmceType3ElemId.fits_raw) simp

section \<open>CircuitModeType\<close>

text \<open>\<open>tetra-saps/src/control/enums/circuit_mode_type.rs\<close>.\<close>

primrec CircuitModeType_into_raw :: "CircuitModeType \<Rightarrow> u64" where
    "CircuitModeType_into_raw CircuitModeType_TchS = 0"
  | "CircuitModeType_into_raw CircuitModeType_Tch72 = 1"
  | "CircuitModeType_into_raw CircuitModeType_Tch48n1 = 2"
  | "CircuitModeType_into_raw CircuitModeType_Tch48n4 = 3"
  | "CircuitModeType_into_raw CircuitModeType_Tch48n8 = 4"
  | "CircuitModeType_into_raw CircuitModeType_Tch24n1 = 5"
  | "CircuitModeType_into_raw CircuitModeType_Tch24n4 = 6"
  | "CircuitModeType_into_raw CircuitModeType_Tch24n8 = 7"

definition CircuitModeType_try_from :: "u64 \<Rightarrow> CircuitModeType option" where
  "CircuitModeType_try_from x =
     (if x = 0 then Some CircuitModeType_TchS
      else if x = 1 then Some CircuitModeType_Tch72
      else if x = 2 then Some CircuitModeType_Tch48n1
      else if x = 3 then Some CircuitModeType_Tch48n4
      else if x = 4 then Some CircuitModeType_Tch48n8
      else if x = 5 then Some CircuitModeType_Tch24n1
      else if x = 6 then Some CircuitModeType_Tch24n4
      else if x = 7 then Some CircuitModeType_Tch24n8
      else None)"

interpretation CircuitModeType: raw_enum "\<lambda>_. True" 3 CircuitModeType_into_raw CircuitModeType_try_from
proof
  show "fits 3 (CircuitModeType_into_raw e)" for e
    by (cases e) simp_all
  show "CircuitModeType_try_from (CircuitModeType_into_raw e) = Some e" for e
    by (cases e) (simp_all add: CircuitModeType_try_from_def)
  show "True \<and> CircuitModeType_into_raw e = x" if "CircuitModeType_try_from x = Some e" for x e
    using that by (auto simp: CircuitModeType_try_from_def split: if_splits)
qed simp

lemma CircuitModeType_fits [simp]: "fits 3 (CircuitModeType_into_raw e)"
  by (rule CircuitModeType.fits_raw) simp

text \<open>Every value of the field is a code: unwrapping the conversion cannot panic.\<close>

lemma CircuitModeType_total: "fits 3 v \<Longrightarrow> CircuitModeType_try_from v \<noteq> None"
  by (drule fits_cases) (auto simp: CircuitModeType_try_from_def)

lemmas safe_CircuitModeType [safe_intros] = safe_read_enum_unwrap [OF CircuitModeType_total] safe_type2_enum_unwrap [OF CircuitModeType_total]

section \<open>CommunicationType\<close>

text \<open>\<open>tetra-saps/src/control/enums/communication_type.rs\<close>.\<close>

datatype CommunicationType =
    CommunicationType_P2p
  | CommunicationType_P2Mp
  | CommunicationType_P2MpAcked
  | CommunicationType_Broadcast

primrec CommunicationType_into_raw :: "CommunicationType \<Rightarrow> u64" where
    "CommunicationType_into_raw CommunicationType_P2p = 0"
  | "CommunicationType_into_raw CommunicationType_P2Mp = 1"
  | "CommunicationType_into_raw CommunicationType_P2MpAcked = 2"
  | "CommunicationType_into_raw CommunicationType_Broadcast = 3"

definition CommunicationType_try_from :: "u64 \<Rightarrow> CommunicationType option" where
  "CommunicationType_try_from x =
     (if x = 0 then Some CommunicationType_P2p
      else if x = 1 then Some CommunicationType_P2Mp
      else if x = 2 then Some CommunicationType_P2MpAcked
      else if x = 3 then Some CommunicationType_Broadcast
      else None)"

interpretation CommunicationType: raw_enum "\<lambda>_. True" 2 CommunicationType_into_raw CommunicationType_try_from
proof
  show "fits 2 (CommunicationType_into_raw e)" for e
    by (cases e) simp_all
  show "CommunicationType_try_from (CommunicationType_into_raw e) = Some e" for e
    by (cases e) (simp_all add: CommunicationType_try_from_def)
  show "True \<and> CommunicationType_into_raw e = x" if "CommunicationType_try_from x = Some e" for x e
    using that by (auto simp: CommunicationType_try_from_def split: if_splits)
qed simp

lemma CommunicationType_fits [simp]: "fits 2 (CommunicationType_into_raw e)"
  by (rule CommunicationType.fits_raw) simp

text \<open>Every value of the field is a code: unwrapping the conversion cannot panic.\<close>

lemma CommunicationType_total: "fits 2 v \<Longrightarrow> CommunicationType_try_from v \<noteq> None"
  by (drule fits_cases) (auto simp: CommunicationType_try_from_def)

lemmas safe_CommunicationType [safe_intros] = safe_read_enum_unwrap [OF CommunicationType_total] safe_type2_enum_unwrap [OF CommunicationType_total]

end
