(* ===== verification/Mm_Fields.thy ===== *)
theory Mm_Fields
  imports L3_Enums
begin

text \<open>
  The structured elements of the mobility management PDUs (\<open>tetra-pdus/src/mm/fields\<close>): class of MS, energy saving information and the
  group identities that a terminal attaches to or detaches from. Each is a codec; the predicates \<open>_wf\<close> say which values the writer
  accepts and the reader returns.
\<close>

unbundle bit_operations_syntax

declare One_nat_def [simp del] split_of_bool [split del] split_of_bool_asm [split del]

section \<open>Class of MS\<close>

record ClassOfMs =
  ClassOfMs_freq_simplex_duplex :: bool
  ClassOfMs_multislot_phase_mod :: bool
  ClassOfMs_concurrent_multicarrier :: bool
  ClassOfMs_voice :: bool
  ClassOfMs_e2e_encryption_not_supported :: bool
  ClassOfMs_circuit_mode_data :: bool
  ClassOfMs_tetra_packet_data :: bool
  ClassOfMs_fast_switching :: bool
  ClassOfMs_dck_encryption :: bool
  ClassOfMs_clch_needed :: bool
  ClassOfMs_concurrent_circuit_mode :: bool
  ClassOfMs_original_advanced_link :: bool
  ClassOfMs_minimum_mode :: bool
  ClassOfMs_carrier_specific_signalling :: bool
  ClassOfMs_authentication :: bool
  ClassOfMs_sck_encryption :: bool
  ClassOfMs_air_interface_version :: u8
  ClassOfMs_common_scch :: bool
  ClassOfMs_reserved_21 :: bool
  ClassOfMs_mac_d_blck :: bool
  ClassOfMs_extended_advanced_link :: bool
  ClassOfMs_d8psk :: bool

text \<open>The 24 bits are read as one number and taken apart; the writer ORs them together.\<close>

definition ClassOfMs_from_bitbuf :: "ClassOfMs bb" where
  "ClassOfMs_from_bitbuf =
     bind (read_field 24 ''class_of_ms'') (\<lambda>v.
     let val = (ucast v :: u32) in
     ret \<lparr>ClassOfMs_freq_simplex_duplex = drop_bit 23 val AND 1 \<noteq> 0, ClassOfMs_multislot_phase_mod = drop_bit 22 val AND 1 \<noteq> 0,
          ClassOfMs_concurrent_multicarrier = drop_bit 21 val AND 1 \<noteq> 0, ClassOfMs_voice = drop_bit 20 val AND 1 \<noteq> 0,
          ClassOfMs_e2e_encryption_not_supported = drop_bit 19 val AND 1 \<noteq> 0, ClassOfMs_circuit_mode_data = drop_bit 18 val AND 1 \<noteq> 0,
          ClassOfMs_tetra_packet_data = drop_bit 17 val AND 1 \<noteq> 0, ClassOfMs_fast_switching = drop_bit 16 val AND 1 \<noteq> 0,
          ClassOfMs_dck_encryption = drop_bit 15 val AND 1 \<noteq> 0, ClassOfMs_clch_needed = drop_bit 14 val AND 1 \<noteq> 0,
          ClassOfMs_concurrent_circuit_mode = drop_bit 13 val AND 1 \<noteq> 0, ClassOfMs_original_advanced_link = drop_bit 12 val AND 1 \<noteq> 0,
          ClassOfMs_minimum_mode = drop_bit 11 val AND 1 \<noteq> 0, ClassOfMs_carrier_specific_signalling = drop_bit 10 val AND 1 \<noteq> 0,
          ClassOfMs_authentication = drop_bit 9 val AND 1 \<noteq> 0, ClassOfMs_sck_encryption = drop_bit 8 val AND 1 \<noteq> 0,
          ClassOfMs_air_interface_version = ucast (drop_bit 5 val AND 0b111), ClassOfMs_common_scch = drop_bit 4 val AND 1 \<noteq> 0,
          ClassOfMs_reserved_21 = drop_bit 3 val AND 1 \<noteq> 0, ClassOfMs_mac_d_blck = drop_bit 2 val AND 1 \<noteq> 0,
          ClassOfMs_extended_advanced_link = drop_bit 1 val AND 1 \<noteq> 0, ClassOfMs_d8psk = val AND 1 \<noteq> 0\<rparr>)"

definition ClassOfMs_val :: "ClassOfMs \<Rightarrow> u32" where
  "ClassOfMs_val p =
     0 OR push_bit 23 (of_bool (ClassOfMs_freq_simplex_duplex p)) OR
     push_bit 22 (of_bool (ClassOfMs_multislot_phase_mod p)) OR
     push_bit 21 (of_bool (ClassOfMs_concurrent_multicarrier p)) OR
     push_bit 20 (of_bool (ClassOfMs_voice p)) OR
     push_bit 19 (of_bool (ClassOfMs_e2e_encryption_not_supported p)) OR
     push_bit 18 (of_bool (ClassOfMs_circuit_mode_data p)) OR
     push_bit 17 (of_bool (ClassOfMs_tetra_packet_data p)) OR
     push_bit 16 (of_bool (ClassOfMs_fast_switching p)) OR
     push_bit 15 (of_bool (ClassOfMs_dck_encryption p)) OR
     push_bit 14 (of_bool (ClassOfMs_clch_needed p)) OR
     push_bit 13 (of_bool (ClassOfMs_concurrent_circuit_mode p)) OR
     push_bit 12 (of_bool (ClassOfMs_original_advanced_link p)) OR
     push_bit 11 (of_bool (ClassOfMs_minimum_mode p)) OR
     push_bit 10 (of_bool (ClassOfMs_carrier_specific_signalling p)) OR
     push_bit 9 (of_bool (ClassOfMs_authentication p)) OR
     push_bit 8 (of_bool (ClassOfMs_sck_encryption p)) OR
     push_bit 5 (ucast (ClassOfMs_air_interface_version p) AND 0b111) OR
     push_bit 4 (of_bool (ClassOfMs_common_scch p)) OR
     push_bit 3 (of_bool (ClassOfMs_reserved_21 p)) OR
     push_bit 2 (of_bool (ClassOfMs_mac_d_blck p)) OR
     push_bit 1 (of_bool (ClassOfMs_extended_advanced_link p)) OR
     of_bool (ClassOfMs_d8psk p)"

definition ClassOfMs_to_bitbuf :: "ClassOfMs \<Rightarrow> unit bb" where
  "ClassOfMs_to_bitbuf p = write_bits (ucast (ClassOfMs_val p)) 24"

definition ClassOfMs_wf :: "ClassOfMs \<Rightarrow> bool" where
  "ClassOfMs_wf p \<longleftrightarrow> fits 3 (ClassOfMs_air_interface_version p)"

definition ClassOfMs_enc :: "ClassOfMs \<Rightarrow> bool list" where
  "ClassOfMs_enc p = to_bits 24 (ucast (ClassOfMs_val p) :: u64)"

lemma seven_mask: "(7 :: u32) = mask 3"
  by (simp add: mask_eq_exp_minus_1)

text \<open>The bit of a flag and the bits of the version.\<close>

lemma bit_flag: "n < 32 \<Longrightarrow> bit (push_bit n (of_bool b) :: u32) k \<longleftrightarrow> b \<and> k = n"
  by (auto simp: bit_push_bit_iff bit_of_bool_iff)

lemma bit_version: "fits 3 v \<Longrightarrow> bit (push_bit 5 (ucast (v :: u8) AND 7) :: u32) k \<longleftrightarrow> 5 \<le> k \<and> k < 8 \<and> bit v (k - 5)"
  unfolding seven_mask by (auto simp: bit_push_bit_iff bit_and_iff bit_mask_iff bit_unsigned_iff dest: bit_imp_le_length)

lemma bit_ClassOfMs_val:
  "ClassOfMs_wf p \<Longrightarrow> bit (ClassOfMs_val p) k \<longleftrightarrow>
     ClassOfMs_freq_simplex_duplex p \<and> k = 23 \<or>
     ClassOfMs_multislot_phase_mod p \<and> k = 22 \<or>
     ClassOfMs_concurrent_multicarrier p \<and> k = 21 \<or>
     ClassOfMs_voice p \<and> k = 20 \<or>
     ClassOfMs_e2e_encryption_not_supported p \<and> k = 19 \<or>
     ClassOfMs_circuit_mode_data p \<and> k = 18 \<or>
     ClassOfMs_tetra_packet_data p \<and> k = 17 \<or>
     ClassOfMs_fast_switching p \<and> k = 16 \<or>
     ClassOfMs_dck_encryption p \<and> k = 15 \<or>
     ClassOfMs_clch_needed p \<and> k = 14 \<or>
     ClassOfMs_concurrent_circuit_mode p \<and> k = 13 \<or>
     ClassOfMs_original_advanced_link p \<and> k = 12 \<or>
     ClassOfMs_minimum_mode p \<and> k = 11 \<or>
     ClassOfMs_carrier_specific_signalling p \<and> k = 10 \<or>
     ClassOfMs_authentication p \<and> k = 9 \<or>
     ClassOfMs_sck_encryption p \<and> k = 8 \<or>
     5 \<le> k \<and> k < 8 \<and> bit (ClassOfMs_air_interface_version p) (k - 5) \<or>
     ClassOfMs_common_scch p \<and> k = 4 \<or>
     ClassOfMs_reserved_21 p \<and> k = 3 \<or>
     ClassOfMs_mac_d_blck p \<and> k = 2 \<or>
     ClassOfMs_extended_advanced_link p \<and> k = 1 \<or>
     k = 0 \<and> ClassOfMs_d8psk p"
  unfolding ClassOfMs_val_def ClassOfMs_wf_def
  by (simp only: bit_or_iff bit_flag bit_version bit_of_bool_iff bit_0_eq bot_fun_def bot_bool_def simp_thms disj_assoc)

lemma and_one_iff: "(v AND 1 \<noteq> 0) = bit v 0" for v :: u32
  by (simp only: and_one_eq mod_2_eq_odd of_bool_word bit_0 not_not)

interpretation ClassOfMs: safe_codec ClassOfMs_wf ClassOfMs_enc ClassOfMs_to_bitbuf ClassOfMs_from_bitbuf
proof
  fix p assume wf: "ClassOfMs_wf p"
  have fits: "fits 24 (ucast (ClassOfMs_val p) :: u64)"
    unfolding fits_iff bit_unsigned_iff bit_ClassOfMs_val [OF wf] by auto
  then show "emits (ClassOfMs_to_bitbuf p) (ClassOfMs_enc p)"
    unfolding ClassOfMs_to_bitbuf_def ClassOfMs_enc_def by (intro emits_write_bits) simp_all
  have "ucast (drop_bit 5 (ClassOfMs_val p) AND 7) = ClassOfMs_air_interface_version p"
    using wf unfolding seven_mask
    by (intro bit_word_eqI) (auto simp: bit_unsigned_iff bit_and_iff bit_mask_iff bit_drop_bit_eq bit_ClassOfMs_val [OF wf] ClassOfMs_wf_def fits_iff not_less [symmetric])
  then show "parses ClassOfMs_from_bitbuf (ClassOfMs_enc p) p"
    unfolding ClassOfMs_from_bitbuf_def ClassOfMs_enc_def Let_def
    by (intro parsesI parses_field_last parses_ret fits) (simp_all add: and_one_iff bit_drop_bit_eq bit_ClassOfMs_val [OF wf])
next
  show "safe ClassOfMs_from_bitbuf"
    unfolding ClassOfMs_from_bitbuf_def Let_def by (intro safe_intros)
qed

lemma length_ClassOfMs_enc [simp]: "length (ClassOfMs_enc p) = 24"
  by (simp add: ClassOfMs_enc_def)

section \<open>Energy saving information\<close>

record EnergySavingInformation =
  EnergySavingInformation_energy_saving_mode :: EnergySavingMode
  EnergySavingInformation_frame_number :: "u8 option"
  EnergySavingInformation_multiframe_number :: "u8 option"

definition EnergySavingInformation_from_bitbuf :: "EnergySavingInformation bb" where
  "EnergySavingInformation_from_bitbuf =
     bind (read_enum_unwrap EnergySavingMode_try_from 3 ''energy_saving_mode'') (\<lambda>energy_saving_mode.
     bind (read_field 5 ''frame_number'') (\<lambda>fn_val.
     bind (read_field 6 ''multiframe_number'') (\<lambda>mn_val.
     let (f, m) = (if energy_saving_mode = EnergySavingMode_StayAlive then (None, None) else (Some (ucast fn_val), Some (ucast mn_val)))
     in ret \<lparr>EnergySavingInformation_energy_saving_mode = energy_saving_mode, EnergySavingInformation_frame_number = f,
            EnergySavingInformation_multiframe_number = m\<rparr>)))"

text \<open>A value that does not fit its mode is an error after the mode has been written.\<close>

definition EnergySavingInformation_to_bitbuf :: "EnergySavingInformation \<Rightarrow> unit bb" where
  "EnergySavingInformation_to_bitbuf p =
     bind (write_bits (EnergySavingMode_into_raw (EnergySavingInformation_energy_saving_mode p)) 3) (\<lambda>_.
     if EnergySavingInformation_energy_saving_mode p = EnergySavingMode_StayAlive then
       (case EnergySavingInformation_frame_number p of
          Some f \<Rightarrow> fail (InvalidValue ''frame_number'' (ucast f))
        | None \<Rightarrow> (case EnergySavingInformation_multiframe_number p of
            Some f \<Rightarrow> fail (InvalidValue ''multiframe_number'' (ucast f))
          | None \<Rightarrow> write_bits 0 (5 + 6)))
     else
       (case EnergySavingInformation_frame_number p of
          None \<Rightarrow> fail (FieldNotPresent (Some ''frame_number''))
        | Some f \<Rightarrow> bind (write_bits (ucast f) 5) (\<lambda>_.
            case EnergySavingInformation_multiframe_number p of
              None \<Rightarrow> fail (FieldNotPresent (Some ''multiframe_number''))
            | Some m \<Rightarrow> write_bits (ucast m) 6)))"

definition EnergySavingInformation_wf :: "EnergySavingInformation \<Rightarrow> bool" where
  "EnergySavingInformation_wf p \<longleftrightarrow>
     (case (EnergySavingInformation_frame_number p, EnergySavingInformation_multiframe_number p) of
        (None, None) \<Rightarrow> EnergySavingInformation_energy_saving_mode p = EnergySavingMode_StayAlive
      | (Some f, Some m) \<Rightarrow> EnergySavingInformation_energy_saving_mode p \<noteq> EnergySavingMode_StayAlive \<and> fits 5 f \<and> fits 6 m
      | _ \<Rightarrow> False)"

definition EnergySavingInformation_enc :: "EnergySavingInformation \<Rightarrow> bool list" where
  "EnergySavingInformation_enc p =
     to_bits 3 (EnergySavingMode_into_raw (EnergySavingInformation_energy_saving_mode p)) @
     to_bits 5 (case EnergySavingInformation_frame_number p of Some f \<Rightarrow> ucast f | None \<Rightarrow> (0 :: u64)) @
     to_bits 6 (case EnergySavingInformation_multiframe_number p of Some m \<Rightarrow> ucast m | None \<Rightarrow> (0 :: u64))"

lemma zero_fields: "to_bits 5 (0 :: u64) @ to_bits 6 (0 :: u64) = to_bits 11 (0 :: u64)"
  using to_bits_append [of 5 6 "0 :: u64"] by simp

interpretation EnergySavingInformation: safe_codec EnergySavingInformation_wf EnergySavingInformation_enc
  EnergySavingInformation_to_bitbuf EnergySavingInformation_from_bitbuf
proof
  show "emits (EnergySavingInformation_to_bitbuf p) (EnergySavingInformation_enc p)" if "EnergySavingInformation_wf p" for p
    using that unfolding EnergySavingInformation_to_bitbuf_def EnergySavingInformation_enc_def EnergySavingInformation_wf_def
    by (auto simp: zero_fields intro!: emits_bind emits_write_bits split: option.splits prod.splits)
  show "parses EnergySavingInformation_from_bitbuf (EnergySavingInformation_enc p) p" if "EnergySavingInformation_wf p" for p
    using that unfolding EnergySavingInformation_from_bitbuf_def EnergySavingInformation_enc_def EnergySavingInformation_wf_def
    by (intro parsesI EnergySavingMode.enum_bind parses_field_bind parses_field_last)
       (auto simp: Let_def intro!: parses_ret split: option.splits prod.splits)
  show "safe EnergySavingInformation_from_bitbuf"
    unfolding EnergySavingInformation_from_bitbuf_def Let_def case_prod_unfold by (intro safe_intros)
qed

lemma length_EnergySavingInformation_enc [simp]: "length (EnergySavingInformation_enc p) = 14"
  by (simp add: EnergySavingInformation_enc_def)

section \<open>Group identities\<close>

record GroupIdentityAttachment =
  GroupIdentityAttachment_group_identity_attachment_lifetime :: u8
  GroupIdentityAttachment_class_of_usage :: u8

definition GroupIdentityAttachment_from_bitbuf :: "GroupIdentityAttachment bb" where
  "GroupIdentityAttachment_from_bitbuf =
     bind (read_field 2 ''group_identity_attachment_lifetime'') (\<lambda>lifetime.
     bind (read_field 3 ''class_of_usage'') (\<lambda>class_of_usage.
     ret \<lparr>GroupIdentityAttachment_group_identity_attachment_lifetime = ucast lifetime,
          GroupIdentityAttachment_class_of_usage = ucast class_of_usage\<rparr>))"

definition GroupIdentityAttachment_to_bitbuf :: "GroupIdentityAttachment \<Rightarrow> unit bb" where
  "GroupIdentityAttachment_to_bitbuf p = seq
     [write_bits (ucast (GroupIdentityAttachment_group_identity_attachment_lifetime p)) 2,
      write_bits (ucast (GroupIdentityAttachment_class_of_usage p)) 3]"

definition GroupIdentityAttachment_wf :: "GroupIdentityAttachment \<Rightarrow> bool" where
  "GroupIdentityAttachment_wf p \<longleftrightarrow>
     fits 2 (GroupIdentityAttachment_group_identity_attachment_lifetime p) \<and> fits 3 (GroupIdentityAttachment_class_of_usage p)"

definition GroupIdentityAttachment_enc :: "GroupIdentityAttachment \<Rightarrow> bool list" where
  "GroupIdentityAttachment_enc p =
     to_bits 2 (ucast (GroupIdentityAttachment_group_identity_attachment_lifetime p) :: u64) @
     to_bits 3 (ucast (GroupIdentityAttachment_class_of_usage p) :: u64)"

interpretation GroupIdentityAttachment: safe_codec GroupIdentityAttachment_wf GroupIdentityAttachment_enc
  GroupIdentityAttachment_to_bitbuf GroupIdentityAttachment_from_bitbuf
proof
  show "emits (GroupIdentityAttachment_to_bitbuf p) (GroupIdentityAttachment_enc p)" if "GroupIdentityAttachment_wf p" for p
    using that unfolding GroupIdentityAttachment_to_bitbuf_def GroupIdentityAttachment_enc_def GroupIdentityAttachment_wf_def
    by (intro l3_emits) simp_all
  show "parses GroupIdentityAttachment_from_bitbuf (GroupIdentityAttachment_enc p) p" if "GroupIdentityAttachment_wf p" for p
    using that unfolding GroupIdentityAttachment_from_bitbuf_def GroupIdentityAttachment_enc_def GroupIdentityAttachment_wf_def
    by (intro parsesI parses_field_bind parses_field_last parses_ret) simp_all
  show "safe GroupIdentityAttachment_from_bitbuf"
    unfolding GroupIdentityAttachment_from_bitbuf_def by (intro safe_intros)
qed

subsection \<open>Uplink\<close>

record GroupIdentityUplink =
  GroupIdentityUplink_class_of_usage :: "u8 option"
  GroupIdentityUplink_group_identity_detachment_uplink :: "u8 option"
  GroupIdentityUplink_gssi :: "u32 option"
  GroupIdentityUplink_address_extension :: "u32 option"
  GroupIdentityUplink_vgssi :: "u32 option"

definition GroupIdentityUplink_from_bitbuf :: "GroupIdentityUplink bb" where
  "GroupIdentityUplink_from_bitbuf =
     bind (read_field 1 ''attach_detach_type_identifier'') (\<lambda>type_identifier.
     bind (read_field_if (type_identifier = 0) 3 ''class_of_usage'') (\<lambda>class_of_usage.
     bind (read_field_if (type_identifier = 1) 2 ''group_identity_detachment_uplink'') (\<lambda>detachment.
     bind (read_field 2 ''address_type'') (\<lambda>address_type.
     bind (read_field_if (address_type = 0 \<or> address_type = 1) 24 ''gssi'') (\<lambda>gssi.
     bind (read_field_if (address_type = 1) 24 ''address_extension'') (\<lambda>address_extension.
     bind (read_field_if (address_type = 2) 24 ''vgssi'') (\<lambda>vgssi.
     ret \<lparr>GroupIdentityUplink_class_of_usage = map_option ucast class_of_usage,
          GroupIdentityUplink_group_identity_detachment_uplink = map_option ucast detachment,
          GroupIdentityUplink_gssi = map_option ucast gssi, GroupIdentityUplink_address_extension = map_option ucast address_extension,
          GroupIdentityUplink_vgssi = map_option ucast vgssi\<rparr>)))))))"

text \<open>The writer's \<open>assert!\<close>s are the panics of the model.\<close>

definition GroupIdentityUplink_address_type :: "GroupIdentityUplink \<Rightarrow> u64 bb" where
  "GroupIdentityUplink_address_type p =
     (if GroupIdentityUplink_gssi p \<noteq> None then
        bind (guard (GroupIdentityUplink_vgssi p = None)) (\<lambda>_. ret (if GroupIdentityUplink_address_extension p \<noteq> None then 1 else 0))
      else bind (guard (GroupIdentityUplink_vgssi p \<noteq> None)) (\<lambda>_. ret 2))"

definition GroupIdentityUplink_to_bitbuf :: "GroupIdentityUplink \<Rightarrow> unit bb" where
  "GroupIdentityUplink_to_bitbuf p =
     bind (guard ((GroupIdentityUplink_class_of_usage p \<noteq> None) \<noteq> (GroupIdentityUplink_group_identity_detachment_uplink p \<noteq> None))) (\<lambda>_.
     bind (write_bits (if GroupIdentityUplink_class_of_usage p \<noteq> None then 0 else 1) 1) (\<lambda>_.
     bind (write_field_opt (map_option ucast (GroupIdentityUplink_class_of_usage p)) 3) (\<lambda>_.
     bind (write_field_opt (map_option ucast (GroupIdentityUplink_group_identity_detachment_uplink p)) 2) (\<lambda>_.
     bind (GroupIdentityUplink_address_type p) (\<lambda>address_type. seq
       [write_bits address_type 2,
        write_field_opt (map_option ucast (GroupIdentityUplink_gssi p)) 24,
        write_field_opt (map_option ucast (GroupIdentityUplink_address_extension p)) 24,
        write_field_opt (map_option ucast (GroupIdentityUplink_vgssi p)) 24])))))"

definition GroupIdentityUplink_wf :: "GroupIdentityUplink \<Rightarrow> bool" where
  "GroupIdentityUplink_wf p \<longleftrightarrow>
     (GroupIdentityUplink_class_of_usage p = None) \<noteq> (GroupIdentityUplink_group_identity_detachment_uplink p = None) \<and>
     (GroupIdentityUplink_gssi p = None) \<noteq> (GroupIdentityUplink_vgssi p = None) \<and>
     (GroupIdentityUplink_address_extension p = None \<or> GroupIdentityUplink_gssi p \<noteq> None) \<and>
     pred_option (fits 3) (GroupIdentityUplink_class_of_usage p) \<and>
     pred_option (fits 2) (GroupIdentityUplink_group_identity_detachment_uplink p) \<and>
     pred_option (fits 24) (GroupIdentityUplink_gssi p) \<and> pred_option (fits 24) (GroupIdentityUplink_address_extension p) \<and>
     pred_option (fits 24) (GroupIdentityUplink_vgssi p)"

definition GroupIdentityUplink_kind :: "GroupIdentityUplink \<Rightarrow> u64" where
  "GroupIdentityUplink_kind p =
     (if GroupIdentityUplink_gssi p \<noteq> None then (if GroupIdentityUplink_address_extension p \<noteq> None then 1 else 0) else 2)"

definition GroupIdentityUplink_enc :: "GroupIdentityUplink \<Rightarrow> bool list" where
  "GroupIdentityUplink_enc p =
     to_bits 1 (if GroupIdentityUplink_class_of_usage p \<noteq> None then 0 else 1 :: u64) @
     enc_opt 3 (map_option ucast (GroupIdentityUplink_class_of_usage p)) @
     enc_opt 2 (map_option ucast (GroupIdentityUplink_group_identity_detachment_uplink p)) @
     to_bits 2 (GroupIdentityUplink_kind p) @
     enc_opt 24 (map_option ucast (GroupIdentityUplink_gssi p)) @
     enc_opt 24 (map_option ucast (GroupIdentityUplink_address_extension p)) @
     enc_opt 24 (map_option ucast (GroupIdentityUplink_vgssi p))"

lemma GroupIdentityUplink_address_type_wf:
  "GroupIdentityUplink_wf p \<Longrightarrow> GroupIdentityUplink_address_type p = ret (GroupIdentityUplink_kind p)"
  by (auto simp: GroupIdentityUplink_address_type_def GroupIdentityUplink_kind_def GroupIdentityUplink_wf_def)

interpretation GroupIdentityUplink: safe_codec GroupIdentityUplink_wf GroupIdentityUplink_enc
  GroupIdentityUplink_to_bitbuf GroupIdentityUplink_from_bitbuf
proof
  fix p assume wf: "GroupIdentityUplink_wf p"
  have kind: "fits 2 (GroupIdentityUplink_kind p)" by (simp add: GroupIdentityUplink_kind_def)
  have xor: "(GroupIdentityUplink_class_of_usage p \<noteq> None) \<noteq> (GroupIdentityUplink_group_identity_detachment_uplink p \<noteq> None)"
    using wf unfolding GroupIdentityUplink_wf_def by metis
  show "emits (GroupIdentityUplink_to_bitbuf p) (GroupIdentityUplink_enc p)"
    unfolding GroupIdentityUplink_to_bitbuf_def GroupIdentityUplink_enc_def GroupIdentityUplink_address_type_wf [OF wf] bind_ret
    by (intro emits_guard_bind xor emits_bind l3_emits)
       (use wf kind in \<open>auto simp: GroupIdentityUplink_wf_def l3_simps\<close>)
  show "parses GroupIdentityUplink_from_bitbuf (GroupIdentityUplink_enc p) p"
    unfolding GroupIdentityUplink_from_bitbuf_def GroupIdentityUplink_enc_def
    by (intro parsesI l3_parses parses_field_if_last)
       (use wf kind xor in \<open>auto simp: GroupIdentityUplink_wf_def GroupIdentityUplink_kind_def l3_simps intro!: parses_ret GroupIdentityUplink.equality\<close>)
next
  show "safe GroupIdentityUplink_from_bitbuf"
    unfolding GroupIdentityUplink_from_bitbuf_def by (intro safe_intros)
qed

subsection \<open>Downlink\<close>

record GroupIdentityDownlink =
  GroupIdentityDownlink_group_identity_attachment :: "GroupIdentityAttachment option"
  GroupIdentityDownlink_group_identity_detachment_uplink :: "u8 option"
  GroupIdentityDownlink_gssi :: "u32 option"
  GroupIdentityDownlink_address_extension :: "u32 option"
  GroupIdentityDownlink_vgssi :: "u32 option"

definition read_attachment_if :: "bool \<Rightarrow> GroupIdentityAttachment option bb" where
  "read_attachment_if c = (if c then bind GroupIdentityAttachment_from_bitbuf (\<lambda>v. ret (Some v)) else ret None)"

definition GroupIdentityDownlink_from_bitbuf :: "GroupIdentityDownlink bb" where
  "GroupIdentityDownlink_from_bitbuf =
     bind (read_field 1 ''attach_detach_type_identifier'') (\<lambda>type_identifier.
     bind (read_attachment_if (type_identifier = 0)) (\<lambda>attachment.
     bind (read_field_if (type_identifier = 1) 2 ''attach_detach_type_identifier'') (\<lambda>detachment.
     bind (read_field 2 ''address_type'') (\<lambda>address_type.
     bind (read_field_if (address_type = 0 \<or> address_type = 1 \<or> address_type = 3) 24 ''gssi'') (\<lambda>gssi.
     bind (read_field_if (address_type = 1 \<or> address_type = 3) 24 ''address_extension'') (\<lambda>address_extension.
     bind (read_field_if (address_type = 2 \<or> address_type = 3) 24 ''vgssi'') (\<lambda>vgssi.
     ret \<lparr>GroupIdentityDownlink_group_identity_attachment = attachment,
          GroupIdentityDownlink_group_identity_detachment_uplink = map_option ucast detachment,
          GroupIdentityDownlink_gssi = map_option ucast gssi, GroupIdentityDownlink_address_extension = map_option ucast address_extension,
          GroupIdentityDownlink_vgssi = map_option ucast vgssi\<rparr>)))))))"

definition GroupIdentityDownlink_address_type :: "GroupIdentityDownlink \<Rightarrow> u64 bb" where
  "GroupIdentityDownlink_address_type p =
     (if GroupIdentityDownlink_gssi p \<noteq> None then
        if GroupIdentityDownlink_address_extension p \<noteq> None then ret (if GroupIdentityDownlink_vgssi p \<noteq> None then 3 else 1)
        else if GroupIdentityDownlink_vgssi p \<noteq> None then
          fail (Inconsistency ''vgssi'' ''vgssi must be None if gssi is Some and address_extension is None'')
        else ret 0
      else if GroupIdentityDownlink_address_extension p \<noteq> None then
        fail (Inconsistency ''address_extension'' ''address_extension must be None if gssi is None'')
      else if GroupIdentityDownlink_vgssi p = None then fail (Inconsistency ''vgssi'' ''vgssi must be Some if gssi is None'')
      else ret 2)"

definition write_attachment_opt :: "GroupIdentityAttachment option \<Rightarrow> unit bb" where
  "write_attachment_opt v = (case v of Some v \<Rightarrow> GroupIdentityAttachment_to_bitbuf v | None \<Rightarrow> ret ())"

definition GroupIdentityDownlink_to_bitbuf :: "GroupIdentityDownlink \<Rightarrow> unit bb" where
  "GroupIdentityDownlink_to_bitbuf p =
     bind (guard ((GroupIdentityDownlink_group_identity_attachment p \<noteq> None) \<noteq> (GroupIdentityDownlink_group_identity_detachment_uplink p \<noteq> None))) (\<lambda>_.
     bind (write_bits (if GroupIdentityDownlink_group_identity_attachment p \<noteq> None then 0 else 1) 1) (\<lambda>_.
     bind (write_attachment_opt (GroupIdentityDownlink_group_identity_attachment p)) (\<lambda>_.
     bind (write_field_opt (map_option ucast (GroupIdentityDownlink_group_identity_detachment_uplink p)) 2) (\<lambda>_.
     bind (GroupIdentityDownlink_address_type p) (\<lambda>address_type. seq
       [write_bits address_type 2,
        write_field_opt (map_option ucast (GroupIdentityDownlink_gssi p)) 24,
        write_field_opt (map_option ucast (GroupIdentityDownlink_address_extension p)) 24,
        write_field_opt (map_option ucast (GroupIdentityDownlink_vgssi p)) 24])))))"

text \<open>The address of an element: a GSSI with an optional extension, or both with a visitor GSSI, or the visitor GSSI alone.\<close>

definition GroupIdentityDownlink_wf :: "GroupIdentityDownlink \<Rightarrow> bool" where
  "GroupIdentityDownlink_wf p \<longleftrightarrow>
     (GroupIdentityDownlink_group_identity_attachment p = None) \<noteq> (GroupIdentityDownlink_group_identity_detachment_uplink p = None) \<and>
     (if GroupIdentityDownlink_gssi p = None
      then GroupIdentityDownlink_address_extension p = None \<and> GroupIdentityDownlink_vgssi p \<noteq> None
      else GroupIdentityDownlink_address_extension p \<noteq> None \<or> GroupIdentityDownlink_vgssi p = None) \<and>
     pred_option GroupIdentityAttachment_wf (GroupIdentityDownlink_group_identity_attachment p) \<and>
     pred_option (fits 2) (GroupIdentityDownlink_group_identity_detachment_uplink p) \<and>
     pred_option (fits 24) (GroupIdentityDownlink_gssi p) \<and> pred_option (fits 24) (GroupIdentityDownlink_address_extension p) \<and>
     pred_option (fits 24) (GroupIdentityDownlink_vgssi p)"

definition GroupIdentityDownlink_kind :: "GroupIdentityDownlink \<Rightarrow> u64" where
  "GroupIdentityDownlink_kind p =
     (if GroupIdentityDownlink_gssi p = None then 2
      else if GroupIdentityDownlink_address_extension p = None then 0
      else if GroupIdentityDownlink_vgssi p = None then 1 else 3)"

definition GroupIdentityDownlink_enc :: "GroupIdentityDownlink \<Rightarrow> bool list" where
  "GroupIdentityDownlink_enc p =
     to_bits 1 (if GroupIdentityDownlink_group_identity_attachment p \<noteq> None then 0 else 1 :: u64) @
     (case GroupIdentityDownlink_group_identity_attachment p of Some v \<Rightarrow> GroupIdentityAttachment_enc v | None \<Rightarrow> []) @
     enc_opt 2 (map_option ucast (GroupIdentityDownlink_group_identity_detachment_uplink p)) @
     to_bits 2 (GroupIdentityDownlink_kind p) @
     enc_opt 24 (map_option ucast (GroupIdentityDownlink_gssi p)) @
     enc_opt 24 (map_option ucast (GroupIdentityDownlink_address_extension p)) @
     enc_opt 24 (map_option ucast (GroupIdentityDownlink_vgssi p))"

lemma GroupIdentityDownlink_address_type_wf:
  "GroupIdentityDownlink_wf p \<Longrightarrow> GroupIdentityDownlink_address_type p = ret (GroupIdentityDownlink_kind p)"
  by (auto simp: GroupIdentityDownlink_address_type_def GroupIdentityDownlink_kind_def GroupIdentityDownlink_wf_def)

lemma parses_attachment_if:
  assumes "c = (v \<noteq> None)" and "pred_option GroupIdentityAttachment_wf v" and "parses_on (f v) ys rest y"
  shows "parses_on (bind (read_attachment_if c) f) ((case v of Some v \<Rightarrow> GroupIdentityAttachment_enc v | None \<Rightarrow> []) @ ys) rest y"
proof -
  have "parses (read_attachment_if c) (case v of Some v \<Rightarrow> GroupIdentityAttachment_enc v | None \<Rightarrow> []) v"
    using assms(1,2) by (cases v) (auto simp: read_attachment_if_def intro!: parsesI parses_ret GroupIdentityAttachment.parses_last)
  then show ?thesis using assms(3) by (rule parses_bind)
qed

lemma emits_attachment_opt:
  "pred_option GroupIdentityAttachment_wf v \<Longrightarrow>
   emits (write_attachment_opt v) (case v of Some v \<Rightarrow> GroupIdentityAttachment_enc v | None \<Rightarrow> [])"
  by (cases v) (auto simp: write_attachment_opt_def intro: emits_ret GroupIdentityAttachment.emits)

interpretation GroupIdentityDownlink: safe_codec GroupIdentityDownlink_wf GroupIdentityDownlink_enc
  GroupIdentityDownlink_to_bitbuf GroupIdentityDownlink_from_bitbuf
proof
  fix p assume wf: "GroupIdentityDownlink_wf p"
  have kind: "fits 2 (GroupIdentityDownlink_kind p)" by (simp add: GroupIdentityDownlink_kind_def)
  have xor: "(GroupIdentityDownlink_group_identity_attachment p \<noteq> None) \<noteq> (GroupIdentityDownlink_group_identity_detachment_uplink p \<noteq> None)"
    using wf unfolding GroupIdentityDownlink_wf_def by metis
  show "emits (GroupIdentityDownlink_to_bitbuf p) (GroupIdentityDownlink_enc p)"
    unfolding GroupIdentityDownlink_to_bitbuf_def GroupIdentityDownlink_enc_def GroupIdentityDownlink_address_type_wf [OF wf] bind_ret
    by (intro emits_guard_bind xor emits_bind emits_attachment_opt l3_emits)
       (use wf kind in \<open>auto simp: GroupIdentityDownlink_wf_def l3_simps\<close>)
  show "parses GroupIdentityDownlink_from_bitbuf (GroupIdentityDownlink_enc p) p"
    unfolding GroupIdentityDownlink_from_bitbuf_def GroupIdentityDownlink_enc_def
    by (intro parsesI parses_attachment_if l3_parses)
       (use wf kind xor in \<open>auto simp: GroupIdentityDownlink_wf_def GroupIdentityDownlink_kind_def l3_simps intro!: parses_ret GroupIdentityDownlink.equality split: if_splits\<close>)
next
  show "safe GroupIdentityDownlink_from_bitbuf"
    unfolding GroupIdentityDownlink_from_bitbuf_def read_attachment_if_def by (intro safe_intros GroupIdentityAttachment.safe)
qed

lemmas mm_field_codecs [l3_codecs] = ClassOfMs.emits ClassOfMs.parses EnergySavingInformation.emits EnergySavingInformation.parses
  GroupIdentityUplink.emits GroupIdentityUplink.parses GroupIdentityDownlink.emits GroupIdentityDownlink.parses

lemmas mm_field_safe [safe_intros] = ClassOfMs.safe EnergySavingInformation.safe GroupIdentityUplink.safe GroupIdentityDownlink.safe

section \<open>GroupIdentityLocationDemand\<close>

record GroupIdentityLocationDemand =
  GroupIdentityLocationDemand_group_identity_attach_detach_mode :: u8
  GroupIdentityLocationDemand_group_identity_uplink :: "GroupIdentityUplink list option"

definition GroupIdentityLocationDemand_from_bitbuf :: "GroupIdentityLocationDemand bb" where
  "GroupIdentityLocationDemand_from_bitbuf =
     bind (read_field 1 ''reserved'') (\<lambda>reserved.
     bind (expect_value reserved 0 ''reserved'') (\<lambda>_.
     bind (read_field 1 ''group_identity_attach_detach_mode'') (\<lambda>group_identity_attach_detach_mode.
     bind read_obit (\<lambda>obit.
     bind (parse_type4_struct obit (MmType34ElemIdUl_into_raw MmType34ElemIdUl_GroupIdentityUplink) GroupIdentityUplink_from_bitbuf) (\<lambda>group_identity_uplink.
     bind (read_trailing_mbit obit) (\<lambda>_.
     ret \<lparr>GroupIdentityLocationDemand_group_identity_attach_detach_mode = ucast group_identity_attach_detach_mode,
          GroupIdentityLocationDemand_group_identity_uplink = group_identity_uplink\<rparr>))))))"

definition GroupIdentityLocationDemand_to_bitbuf :: "GroupIdentityLocationDemand \<Rightarrow> unit bb" where
  "GroupIdentityLocationDemand_to_bitbuf p =
     (let obit = GroupIdentityLocationDemand_group_identity_uplink p \<noteq> None
      in seq
        [write_bits 0 1,
         write_bits (ucast (GroupIdentityLocationDemand_group_identity_attach_detach_mode p)) 1,
         bind (write_obit (of_bool obit)) (\<lambda>_. if \<not> obit then ret () else seq
           [write_type4_struct obit (GroupIdentityLocationDemand_group_identity_uplink p) (MmType34ElemIdUl_into_raw MmType34ElemIdUl_GroupIdentityUplink) GroupIdentityUplink_to_bitbuf,
            write_mbit 0])])"

definition GroupIdentityLocationDemand_wf :: "GroupIdentityLocationDemand \<Rightarrow> bool" where
  "GroupIdentityLocationDemand_wf p \<longleftrightarrow>
     fits 1 (GroupIdentityLocationDemand_group_identity_attach_detach_mode p) \<and>
     pred_option (\<lambda>xs. list_all GroupIdentityUplink_wf xs \<and> 6 + length (concat (map GroupIdentityUplink_enc xs)) < 2048 \<and> length xs < 64) (GroupIdentityLocationDemand_group_identity_uplink p)"

definition GroupIdentityLocationDemand_enc :: "GroupIdentityLocationDemand \<Rightarrow> bool list" where
  "GroupIdentityLocationDemand_enc p =
     (let obit = GroupIdentityLocationDemand_group_identity_uplink p \<noteq> None
      in to_bits 1 (0 :: u64) @ to_bits 1 (ucast (GroupIdentityLocationDemand_group_identity_attach_detach_mode p) :: u64) @ obit #
         
         enc_type4 (MmType34ElemIdUl_into_raw MmType34ElemIdUl_GroupIdentityUplink) GroupIdentityUplink_enc (GroupIdentityLocationDemand_group_identity_uplink p) @
         (if obit then [False] else []))"

interpretation GroupIdentityLocationDemand: safe_codec GroupIdentityLocationDemand_wf GroupIdentityLocationDemand_enc GroupIdentityLocationDemand_to_bitbuf GroupIdentityLocationDemand_from_bitbuf
proof
  show "emits (GroupIdentityLocationDemand_to_bitbuf p) (GroupIdentityLocationDemand_enc p)" if "GroupIdentityLocationDemand_wf p" for p
    using that unfolding GroupIdentityLocationDemand_to_bitbuf_def GroupIdentityLocationDemand_enc_def GroupIdentityLocationDemand_wf_def Let_def append_assoc append_Cons append_Nil
    by (intro l3_emits) (auto simp: l3_simps intro: l3_codecs)
  show "parses GroupIdentityLocationDemand_from_bitbuf (GroupIdentityLocationDemand_enc p) p" if "GroupIdentityLocationDemand_wf p" for p
    using that unfolding GroupIdentityLocationDemand_from_bitbuf_def GroupIdentityLocationDemand_enc_def GroupIdentityLocationDemand_wf_def Let_def append_assoc append_Cons append_Nil
    by (intro parsesI parses_ret l3_parses) (auto simp: l3_simps intro: l3_codecs)
  show "safe GroupIdentityLocationDemand_from_bitbuf"
    unfolding GroupIdentityLocationDemand_from_bitbuf_def by (intro safe_intros)
qed

section \<open>GroupIdentityLocationAccept\<close>

record GroupIdentityLocationAccept =
  GroupIdentityLocationAccept_group_identity_accept_reject :: u8
  GroupIdentityLocationAccept_group_identity_downlink :: "GroupIdentityDownlink list option"

definition GroupIdentityLocationAccept_from_bitbuf :: "GroupIdentityLocationAccept bb" where
  "GroupIdentityLocationAccept_from_bitbuf =
     bind (read_field 1 ''group_identity_accept_reject'') (\<lambda>group_identity_accept_reject.
     bind (read_field 1 ''reserved'') (\<lambda>_.
     bind read_obit (\<lambda>obit.
     bind (parse_type4_struct obit (MmType34ElemIdDl_into_raw MmType34ElemIdDl_GroupIdentityDownlink) GroupIdentityDownlink_from_bitbuf) (\<lambda>group_identity_downlink.
     bind (read_trailing_mbit obit) (\<lambda>_.
     ret \<lparr>GroupIdentityLocationAccept_group_identity_accept_reject = ucast group_identity_accept_reject,
          GroupIdentityLocationAccept_group_identity_downlink = group_identity_downlink\<rparr>)))))"

definition GroupIdentityLocationAccept_to_bitbuf :: "GroupIdentityLocationAccept \<Rightarrow> unit bb" where
  "GroupIdentityLocationAccept_to_bitbuf p =
     (let obit = GroupIdentityLocationAccept_group_identity_downlink p \<noteq> None
      in seq
        [write_bits (ucast (GroupIdentityLocationAccept_group_identity_accept_reject p)) 1,
         write_bits 0 1,
         bind (write_obit (of_bool obit)) (\<lambda>_. if \<not> obit then ret () else seq
           [write_type4_struct obit (GroupIdentityLocationAccept_group_identity_downlink p) (MmType34ElemIdDl_into_raw MmType34ElemIdDl_GroupIdentityDownlink) GroupIdentityDownlink_to_bitbuf,
            write_mbit 0])])"

definition GroupIdentityLocationAccept_wf :: "GroupIdentityLocationAccept \<Rightarrow> bool" where
  "GroupIdentityLocationAccept_wf p \<longleftrightarrow>
     fits 1 (GroupIdentityLocationAccept_group_identity_accept_reject p) \<and>
     pred_option (\<lambda>xs. list_all GroupIdentityDownlink_wf xs \<and> 6 + length (concat (map GroupIdentityDownlink_enc xs)) < 2048 \<and> length xs < 64) (GroupIdentityLocationAccept_group_identity_downlink p)"

definition GroupIdentityLocationAccept_enc :: "GroupIdentityLocationAccept \<Rightarrow> bool list" where
  "GroupIdentityLocationAccept_enc p =
     (let obit = GroupIdentityLocationAccept_group_identity_downlink p \<noteq> None
      in to_bits 1 (ucast (GroupIdentityLocationAccept_group_identity_accept_reject p) :: u64) @ to_bits 1 (0 :: u64) @ obit #
         
         enc_type4 (MmType34ElemIdDl_into_raw MmType34ElemIdDl_GroupIdentityDownlink) GroupIdentityDownlink_enc (GroupIdentityLocationAccept_group_identity_downlink p) @
         (if obit then [False] else []))"

interpretation GroupIdentityLocationAccept: safe_codec GroupIdentityLocationAccept_wf GroupIdentityLocationAccept_enc GroupIdentityLocationAccept_to_bitbuf GroupIdentityLocationAccept_from_bitbuf
proof
  show "emits (GroupIdentityLocationAccept_to_bitbuf p) (GroupIdentityLocationAccept_enc p)" if "GroupIdentityLocationAccept_wf p" for p
    using that unfolding GroupIdentityLocationAccept_to_bitbuf_def GroupIdentityLocationAccept_enc_def GroupIdentityLocationAccept_wf_def Let_def append_assoc append_Cons append_Nil
    by (intro l3_emits) (auto simp: l3_simps intro: l3_codecs)
  show "parses GroupIdentityLocationAccept_from_bitbuf (GroupIdentityLocationAccept_enc p) p" if "GroupIdentityLocationAccept_wf p" for p
    using that unfolding GroupIdentityLocationAccept_from_bitbuf_def GroupIdentityLocationAccept_enc_def GroupIdentityLocationAccept_wf_def Let_def append_assoc append_Cons append_Nil
    by (intro parsesI parses_ret l3_parses) (auto simp: l3_simps intro: l3_codecs)
  show "safe GroupIdentityLocationAccept_from_bitbuf"
    unfolding GroupIdentityLocationAccept_from_bitbuf_def by (intro safe_intros)
qed

lemmas mm_location_codecs [l3_codecs] = GroupIdentityLocationDemand.emits GroupIdentityLocationDemand.parses
  GroupIdentityLocationAccept.emits GroupIdentityLocationAccept.parses

lemmas mm_location_safe [safe_intros] = GroupIdentityLocationDemand.safe GroupIdentityLocationAccept.safe

end
