(* ===== verification/Mm_Pdus_Ul.thy ===== *)
theory Mm_Pdus_Ul
  imports Mm_Fields
begin

text \<open>
  The uplink PDUs of mobility management (\<open>tetra-pdus/src/mm/pdus/u_*.rs\<close>): what a terminal sends to register, to attach and detach
  groups and to leave.
\<close>

unbundle bit_operations_syntax

declare One_nat_def [simp del] split_of_bool [split del] split_of_bool_asm [split del]

section \<open>UAttachDetachGroupIdentity\<close>

text \<open>\<open>tetra-pdus/src/mm/pdus/u_attach_detach_group_identity.rs\<close>.\<close>

record UAttachDetachGroupIdentity =
  UAttachDetachGroupIdentity_group_identity_report :: bool
  UAttachDetachGroupIdentity_group_identity_attach_detach_mode :: bool
  UAttachDetachGroupIdentity_group_report_response :: "type3_field_generic option"
  UAttachDetachGroupIdentity_group_identity_uplink :: "GroupIdentityUplink list option"
  UAttachDetachGroupIdentity_proprietary :: "type3_field_generic option"

definition UAttachDetachGroupIdentity_from_bitbuf :: "UAttachDetachGroupIdentity bb" where
  "UAttachDetachGroupIdentity_from_bitbuf =
     bind (read_field 4 ''pdu_type'') (\<lambda>pdu_type.
     bind (expect_pdu_type pdu_type (MmPduTypeUl_into_raw MmPduTypeUl_UAttachDetachGroupIdentity)) (\<lambda>_.
     bind (read_field 1 ''group_identity_report'') (\<lambda>group_identity_report.
     bind (read_field 1 ''group_identity_attach_detach_mode'') (\<lambda>group_identity_attach_detach_mode.
     bind read_obit (\<lambda>obit.
     bind (parse_type3_generic obit (MmType34ElemIdUl_into_raw MmType34ElemIdUl_GroupReportResponse)) (\<lambda>group_report_response.
     bind (parse_type4_struct obit (MmType34ElemIdUl_into_raw MmType34ElemIdUl_GroupIdentityUplink) GroupIdentityUplink_from_bitbuf) (\<lambda>group_identity_uplink.
     bind (parse_type3_generic obit (MmType34ElemIdUl_into_raw MmType34ElemIdUl_Proprietary)) (\<lambda>proprietary.
     bind (read_trailing_mbit obit) (\<lambda>_.
     ret \<lparr>UAttachDetachGroupIdentity_group_identity_report = group_identity_report \<noteq> 0,
          UAttachDetachGroupIdentity_group_identity_attach_detach_mode = group_identity_attach_detach_mode \<noteq> 0,
          UAttachDetachGroupIdentity_group_report_response = group_report_response, UAttachDetachGroupIdentity_group_identity_uplink = group_identity_uplink,
          UAttachDetachGroupIdentity_proprietary = proprietary\<rparr>)))))))))"

definition UAttachDetachGroupIdentity_to_bitbuf :: "UAttachDetachGroupIdentity \<Rightarrow> unit bb" where
  "UAttachDetachGroupIdentity_to_bitbuf p =
     (let obit = UAttachDetachGroupIdentity_group_report_response p \<noteq> None \<or> UAttachDetachGroupIdentity_group_identity_uplink p \<noteq> None \<or>
          UAttachDetachGroupIdentity_proprietary p \<noteq> None
      in seq
        [write_bits (MmPduTypeUl_into_raw MmPduTypeUl_UAttachDetachGroupIdentity) 4,
         write_bits (of_bool (UAttachDetachGroupIdentity_group_identity_report p)) 1,
         write_bits (of_bool (UAttachDetachGroupIdentity_group_identity_attach_detach_mode p)) 1,
         bind (write_obit (of_bool obit)) (\<lambda>_. if \<not> obit then ret () else seq
           [write_type3_generic obit (UAttachDetachGroupIdentity_group_report_response p) (MmType34ElemIdUl_into_raw MmType34ElemIdUl_GroupReportResponse),
            write_type4_struct obit (UAttachDetachGroupIdentity_group_identity_uplink p) (MmType34ElemIdUl_into_raw MmType34ElemIdUl_GroupIdentityUplink) GroupIdentityUplink_to_bitbuf,
            write_type3_generic obit (UAttachDetachGroupIdentity_proprietary p) (MmType34ElemIdUl_into_raw MmType34ElemIdUl_Proprietary),
            write_mbit 0])])"

definition UAttachDetachGroupIdentity_wf :: "UAttachDetachGroupIdentity \<Rightarrow> bool" where
  "UAttachDetachGroupIdentity_wf p \<longleftrightarrow>
     pred_option (wf_type3_generic (MmType34ElemIdUl_into_raw MmType34ElemIdUl_GroupReportResponse)) (UAttachDetachGroupIdentity_group_report_response p) \<and>
     pred_option (\<lambda>xs. list_all GroupIdentityUplink_wf xs \<and> 6 + length (concat (map GroupIdentityUplink_enc xs)) < 2048 \<and> length xs < 64) (UAttachDetachGroupIdentity_group_identity_uplink p) \<and>
     pred_option (wf_type3_generic (MmType34ElemIdUl_into_raw MmType34ElemIdUl_Proprietary)) (UAttachDetachGroupIdentity_proprietary p)"

definition UAttachDetachGroupIdentity_enc :: "UAttachDetachGroupIdentity \<Rightarrow> bool list" where
  "UAttachDetachGroupIdentity_enc p =
     (let obit = UAttachDetachGroupIdentity_group_report_response p \<noteq> None \<or> UAttachDetachGroupIdentity_group_identity_uplink p \<noteq> None \<or>
          UAttachDetachGroupIdentity_proprietary p \<noteq> None
      in to_bits 4 (MmPduTypeUl_into_raw MmPduTypeUl_UAttachDetachGroupIdentity :: u64) @
         to_bits 1 (of_bool (UAttachDetachGroupIdentity_group_identity_report p) :: u64) @
         to_bits 1 (of_bool (UAttachDetachGroupIdentity_group_identity_attach_detach_mode p) :: u64) @ obit #
         enc_type3_generic (MmType34ElemIdUl_into_raw MmType34ElemIdUl_GroupReportResponse) (UAttachDetachGroupIdentity_group_report_response p) @
         enc_type4 (MmType34ElemIdUl_into_raw MmType34ElemIdUl_GroupIdentityUplink) GroupIdentityUplink_enc (UAttachDetachGroupIdentity_group_identity_uplink p) @
         enc_type3_generic (MmType34ElemIdUl_into_raw MmType34ElemIdUl_Proprietary) (UAttachDetachGroupIdentity_proprietary p) @
         (if obit then [False] else []))"

interpretation UAttachDetachGroupIdentity: safe_codec UAttachDetachGroupIdentity_wf UAttachDetachGroupIdentity_enc UAttachDetachGroupIdentity_to_bitbuf UAttachDetachGroupIdentity_from_bitbuf
proof
  show "emits (UAttachDetachGroupIdentity_to_bitbuf p) (UAttachDetachGroupIdentity_enc p)" if "UAttachDetachGroupIdentity_wf p" for p
    using that unfolding UAttachDetachGroupIdentity_to_bitbuf_def UAttachDetachGroupIdentity_enc_def UAttachDetachGroupIdentity_wf_def Let_def append_assoc append_Cons append_Nil
    by (intro l3_emits) (simp_all add: l3_simps l3_codecs)
  show "parses UAttachDetachGroupIdentity_from_bitbuf (UAttachDetachGroupIdentity_enc p) p" if "UAttachDetachGroupIdentity_wf p" for p
    unfolding UAttachDetachGroupIdentity_from_bitbuf_def UAttachDetachGroupIdentity_enc_def Let_def append_assoc append_Cons append_Nil
    by (rule parsesI) (intro parses_ret l3_parses, use that in \<open>simp_all add: UAttachDetachGroupIdentity_wf_def l3_simps l3_codecs\<close>)
  show "safe UAttachDetachGroupIdentity_from_bitbuf"
    unfolding UAttachDetachGroupIdentity_from_bitbuf_def by (intro safe_intros)
qed

section \<open>UAttachDetachGroupIdentityAcknowledgement\<close>

text \<open>\<open>tetra-pdus/src/mm/pdus/u_attach_detach_group_identity_acknowledgement.rs\<close>.\<close>

record UAttachDetachGroupIdentityAcknowledgement =
  UAttachDetachGroupIdentityAcknowledgement_group_identity_acknowledgement_type :: bool
  UAttachDetachGroupIdentityAcknowledgement_group_identity_uplink :: "GroupIdentityUplink list option"
  UAttachDetachGroupIdentityAcknowledgement_proprietary :: "type3_field_generic option"

definition UAttachDetachGroupIdentityAcknowledgement_from_bitbuf :: "UAttachDetachGroupIdentityAcknowledgement bb" where
  "UAttachDetachGroupIdentityAcknowledgement_from_bitbuf =
     bind (read_field 4 ''pdu_type'') (\<lambda>pdu_type.
     bind (expect_pdu_type pdu_type (MmPduTypeUl_into_raw MmPduTypeUl_UAttachDetachGroupIdentityAcknowledgement)) (\<lambda>_.
     bind (read_field 1 ''group_identity_acknowledgement_type'') (\<lambda>group_identity_acknowledgement_type.
     bind read_obit (\<lambda>obit.
     bind (parse_type4_struct obit (MmType34ElemIdUl_into_raw MmType34ElemIdUl_GroupIdentityUplink) GroupIdentityUplink_from_bitbuf) (\<lambda>group_identity_uplink.
     bind (parse_type3_generic obit (MmType34ElemIdUl_into_raw MmType34ElemIdUl_Proprietary)) (\<lambda>proprietary.
     bind (read_trailing_mbit obit) (\<lambda>_.
     ret \<lparr>UAttachDetachGroupIdentityAcknowledgement_group_identity_acknowledgement_type = group_identity_acknowledgement_type \<noteq> 0,
          UAttachDetachGroupIdentityAcknowledgement_group_identity_uplink = group_identity_uplink,
          UAttachDetachGroupIdentityAcknowledgement_proprietary = proprietary\<rparr>)))))))"

definition UAttachDetachGroupIdentityAcknowledgement_to_bitbuf :: "UAttachDetachGroupIdentityAcknowledgement \<Rightarrow> unit bb" where
  "UAttachDetachGroupIdentityAcknowledgement_to_bitbuf p =
     (let obit = UAttachDetachGroupIdentityAcknowledgement_group_identity_uplink p \<noteq> None \<or>
          UAttachDetachGroupIdentityAcknowledgement_proprietary p \<noteq> None
      in seq
        [write_bits (MmPduTypeUl_into_raw MmPduTypeUl_UAttachDetachGroupIdentityAcknowledgement) 4,
         write_bits (of_bool (UAttachDetachGroupIdentityAcknowledgement_group_identity_acknowledgement_type p)) 1,
         bind (write_obit (of_bool obit)) (\<lambda>_. if \<not> obit then ret () else seq
           [write_type4_struct obit (UAttachDetachGroupIdentityAcknowledgement_group_identity_uplink p) (MmType34ElemIdUl_into_raw MmType34ElemIdUl_GroupIdentityUplink) GroupIdentityUplink_to_bitbuf,
            write_type3_generic obit (UAttachDetachGroupIdentityAcknowledgement_proprietary p) (MmType34ElemIdUl_into_raw MmType34ElemIdUl_Proprietary),
            write_mbit 0])])"

definition UAttachDetachGroupIdentityAcknowledgement_wf :: "UAttachDetachGroupIdentityAcknowledgement \<Rightarrow> bool" where
  "UAttachDetachGroupIdentityAcknowledgement_wf p \<longleftrightarrow>
     pred_option (\<lambda>xs. list_all GroupIdentityUplink_wf xs \<and> 6 + length (concat (map GroupIdentityUplink_enc xs)) < 2048 \<and> length xs < 64) (UAttachDetachGroupIdentityAcknowledgement_group_identity_uplink p) \<and>
     pred_option (wf_type3_generic (MmType34ElemIdUl_into_raw MmType34ElemIdUl_Proprietary)) (UAttachDetachGroupIdentityAcknowledgement_proprietary p)"

definition UAttachDetachGroupIdentityAcknowledgement_enc :: "UAttachDetachGroupIdentityAcknowledgement \<Rightarrow> bool list" where
  "UAttachDetachGroupIdentityAcknowledgement_enc p =
     (let obit = UAttachDetachGroupIdentityAcknowledgement_group_identity_uplink p \<noteq> None \<or>
          UAttachDetachGroupIdentityAcknowledgement_proprietary p \<noteq> None
      in to_bits 4 (MmPduTypeUl_into_raw MmPduTypeUl_UAttachDetachGroupIdentityAcknowledgement :: u64) @
         to_bits 1 (of_bool (UAttachDetachGroupIdentityAcknowledgement_group_identity_acknowledgement_type p) :: u64) @ obit #
         
         enc_type4 (MmType34ElemIdUl_into_raw MmType34ElemIdUl_GroupIdentityUplink) GroupIdentityUplink_enc (UAttachDetachGroupIdentityAcknowledgement_group_identity_uplink p) @
         enc_type3_generic (MmType34ElemIdUl_into_raw MmType34ElemIdUl_Proprietary) (UAttachDetachGroupIdentityAcknowledgement_proprietary p) @
         (if obit then [False] else []))"

interpretation UAttachDetachGroupIdentityAcknowledgement: safe_codec UAttachDetachGroupIdentityAcknowledgement_wf UAttachDetachGroupIdentityAcknowledgement_enc UAttachDetachGroupIdentityAcknowledgement_to_bitbuf UAttachDetachGroupIdentityAcknowledgement_from_bitbuf
proof
  show "emits (UAttachDetachGroupIdentityAcknowledgement_to_bitbuf p) (UAttachDetachGroupIdentityAcknowledgement_enc p)" if "UAttachDetachGroupIdentityAcknowledgement_wf p" for p
    using that unfolding UAttachDetachGroupIdentityAcknowledgement_to_bitbuf_def UAttachDetachGroupIdentityAcknowledgement_enc_def UAttachDetachGroupIdentityAcknowledgement_wf_def Let_def append_assoc append_Cons append_Nil
    by (intro l3_emits) (simp_all add: l3_simps l3_codecs)
  show "parses UAttachDetachGroupIdentityAcknowledgement_from_bitbuf (UAttachDetachGroupIdentityAcknowledgement_enc p) p" if "UAttachDetachGroupIdentityAcknowledgement_wf p" for p
    unfolding UAttachDetachGroupIdentityAcknowledgement_from_bitbuf_def UAttachDetachGroupIdentityAcknowledgement_enc_def Let_def append_assoc append_Cons append_Nil
    by (rule parsesI) (intro parses_ret l3_parses, use that in \<open>simp_all add: UAttachDetachGroupIdentityAcknowledgement_wf_def l3_simps l3_codecs\<close>)
  show "safe UAttachDetachGroupIdentityAcknowledgement_from_bitbuf"
    unfolding UAttachDetachGroupIdentityAcknowledgement_from_bitbuf_def by (intro safe_intros)
qed

section \<open>UItsiDetach\<close>

text \<open>\<open>tetra-pdus/src/mm/pdus/u_itsi_detach.rs\<close>.\<close>

record UItsiDetach =
  UItsiDetach_address_extension :: "u64 option"
  UItsiDetach_proprietary :: "type3_field_generic option"

definition UItsiDetach_from_bitbuf :: "UItsiDetach bb" where
  "UItsiDetach_from_bitbuf =
     bind (read_field 4 ''pdu_type'') (\<lambda>pdu_type.
     bind (expect_pdu_type pdu_type (MmPduTypeUl_into_raw MmPduTypeUl_UItsiDetach)) (\<lambda>_.
     bind read_obit (\<lambda>obit.
     bind (parse_type2_generic obit 24 ''address_extension'') (\<lambda>address_extension.
     bind (parse_type3_generic obit (MmType34ElemIdUl_into_raw MmType34ElemIdUl_Proprietary)) (\<lambda>proprietary.
     bind (read_trailing_mbit obit) (\<lambda>_.
     ret \<lparr>UItsiDetach_address_extension = address_extension, UItsiDetach_proprietary = proprietary\<rparr>))))))"

definition UItsiDetach_to_bitbuf :: "UItsiDetach \<Rightarrow> unit bb" where
  "UItsiDetach_to_bitbuf p =
     (let obit = UItsiDetach_address_extension p \<noteq> None \<or> UItsiDetach_proprietary p \<noteq> None
      in seq
        [write_bits (MmPduTypeUl_into_raw MmPduTypeUl_UItsiDetach) 4,
         bind (write_obit (of_bool obit)) (\<lambda>_. if \<not> obit then ret () else seq
           [write_type2_generic obit (UItsiDetach_address_extension p) 24,
            write_type3_generic obit (UItsiDetach_proprietary p) (MmType34ElemIdUl_into_raw MmType34ElemIdUl_Proprietary),
            write_mbit 0])])"

definition UItsiDetach_wf :: "UItsiDetach \<Rightarrow> bool" where
  "UItsiDetach_wf p \<longleftrightarrow>
     pred_option (fits 24) (UItsiDetach_address_extension p) \<and>
     pred_option (wf_type3_generic (MmType34ElemIdUl_into_raw MmType34ElemIdUl_Proprietary)) (UItsiDetach_proprietary p)"

definition UItsiDetach_enc :: "UItsiDetach \<Rightarrow> bool list" where
  "UItsiDetach_enc p =
     (let obit = UItsiDetach_address_extension p \<noteq> None \<or> UItsiDetach_proprietary p \<noteq> None
      in to_bits 4 (MmPduTypeUl_into_raw MmPduTypeUl_UItsiDetach :: u64) @ obit #
         enc_type2 obit (to_bits 24) (UItsiDetach_address_extension p) @
         enc_type3_generic (MmType34ElemIdUl_into_raw MmType34ElemIdUl_Proprietary) (UItsiDetach_proprietary p) @ (if obit then [False] else []))"

interpretation UItsiDetach: safe_codec UItsiDetach_wf UItsiDetach_enc UItsiDetach_to_bitbuf UItsiDetach_from_bitbuf
proof
  show "emits (UItsiDetach_to_bitbuf p) (UItsiDetach_enc p)" if "UItsiDetach_wf p" for p
    using that unfolding UItsiDetach_to_bitbuf_def UItsiDetach_enc_def UItsiDetach_wf_def Let_def append_assoc append_Cons append_Nil
    by (intro l3_emits) (simp_all add: l3_simps l3_codecs)
  show "parses UItsiDetach_from_bitbuf (UItsiDetach_enc p) p" if "UItsiDetach_wf p" for p
    unfolding UItsiDetach_from_bitbuf_def UItsiDetach_enc_def Let_def append_assoc append_Cons append_Nil
    by (rule parsesI) (intro parses_ret l3_parses, use that in \<open>simp_all add: UItsiDetach_wf_def l3_simps l3_codecs\<close>)
  show "safe UItsiDetach_from_bitbuf"
    unfolding UItsiDetach_from_bitbuf_def by (intro safe_intros)
qed

section \<open>ULocationUpdateDemand\<close>

text \<open>\<open>tetra-pdus/src/mm/pdus/u_location_update_demand.rs\<close>.\<close>

record ULocationUpdateDemand =
  ULocationUpdateDemand_location_update_type :: LocationUpdateType
  ULocationUpdateDemand_request_to_append_la :: bool
  ULocationUpdateDemand_cipher_control :: bool
  ULocationUpdateDemand_ciphering_parameters :: "u64 option"
  ULocationUpdateDemand_class_of_ms :: "ClassOfMs option"
  ULocationUpdateDemand_energy_saving_mode :: "EnergySavingMode option"
  ULocationUpdateDemand_la_information :: "u64 option"
  ULocationUpdateDemand_ssi :: "u64 option"
  ULocationUpdateDemand_address_extension :: "u64 option"
  ULocationUpdateDemand_group_identity_location_demand :: "GroupIdentityLocationDemand option"
  ULocationUpdateDemand_group_report_response :: "type3_field_generic option"
  ULocationUpdateDemand_authentication_uplink :: "type3_field_generic option"
  ULocationUpdateDemand_extended_capabilities :: "type3_field_generic option"
  ULocationUpdateDemand_proprietary :: "type3_field_generic option"

definition ULocationUpdateDemand_from_bitbuf :: "ULocationUpdateDemand bb" where
  "ULocationUpdateDemand_from_bitbuf =
     bind (read_field 4 ''pdu_type'') (\<lambda>pdu_type.
     bind (expect_pdu_type pdu_type (MmPduTypeUl_into_raw MmPduTypeUl_ULocationUpdateDemand)) (\<lambda>_.
     bind (read_enum LocationUpdateType_try_from 3 ''location_update_type'') (\<lambda>location_update_type.
     bind (read_field 1 ''request_to_append_la'') (\<lambda>request_to_append_la.
     bind (read_field 1 ''cipher_control'') (\<lambda>cipher_control.
     bind (read_field_if ((cipher_control \<noteq> 0)) 10 ''ciphering_parameters'') (\<lambda>ciphering_parameters.
     bind read_obit (\<lambda>obit.
     bind (parse_type2_struct obit ClassOfMs_from_bitbuf) (\<lambda>class_of_ms.
     bind (parse_type2_enum_unwrap obit EnergySavingMode_try_from 3 ''energy_saving_mode'') (\<lambda>energy_saving_mode.
     bind (parse_type2_generic obit 15 ''la_information'') (\<lambda>la_information.
     bind (parse_type2_generic obit 24 ''ssi'') (\<lambda>ssi.
     bind (parse_type2_generic obit 24 ''address_extension'') (\<lambda>address_extension.
     bind (parse_type3_struct obit (MmType34ElemIdUl_into_raw MmType34ElemIdUl_GroupIdentityLocationDemand) GroupIdentityLocationDemand_from_bitbuf) (\<lambda>group_identity_location_demand.
     bind (parse_type3_generic obit (MmType34ElemIdUl_into_raw MmType34ElemIdUl_GroupReportResponse)) (\<lambda>group_report_response.
     bind (parse_type3_generic obit (MmType34ElemIdUl_into_raw MmType34ElemIdUl_AuthenticationUplink)) (\<lambda>authentication_uplink.
     bind (parse_type3_generic obit (MmType34ElemIdUl_into_raw MmType34ElemIdUl_ExtendedCapabilities)) (\<lambda>extended_capabilities.
     bind (parse_type3_generic obit (MmType34ElemIdUl_into_raw MmType34ElemIdUl_Proprietary)) (\<lambda>proprietary.
     bind (read_trailing_mbit obit) (\<lambda>_.
     ret \<lparr>ULocationUpdateDemand_location_update_type = location_update_type, ULocationUpdateDemand_request_to_append_la = request_to_append_la \<noteq> 0,
          ULocationUpdateDemand_cipher_control = cipher_control \<noteq> 0, ULocationUpdateDemand_ciphering_parameters = ciphering_parameters,
          ULocationUpdateDemand_class_of_ms = class_of_ms, ULocationUpdateDemand_energy_saving_mode = energy_saving_mode,
          ULocationUpdateDemand_la_information = map_option (\<lambda>v. v div 2) la_information, ULocationUpdateDemand_ssi = ssi,
          ULocationUpdateDemand_address_extension = address_extension, ULocationUpdateDemand_group_identity_location_demand = group_identity_location_demand,
          ULocationUpdateDemand_group_report_response = group_report_response, ULocationUpdateDemand_authentication_uplink = authentication_uplink,
          ULocationUpdateDemand_extended_capabilities = extended_capabilities, ULocationUpdateDemand_proprietary = proprietary\<rparr>))))))))))))))))))"

definition ULocationUpdateDemand_to_bitbuf :: "ULocationUpdateDemand \<Rightarrow> unit bb" where
  "ULocationUpdateDemand_to_bitbuf p =
     (let obit = ULocationUpdateDemand_class_of_ms p \<noteq> None \<or> ULocationUpdateDemand_energy_saving_mode p \<noteq> None \<or>
          ULocationUpdateDemand_la_information p \<noteq> None \<or> ULocationUpdateDemand_ssi p \<noteq> None \<or>
          ULocationUpdateDemand_address_extension p \<noteq> None \<or> ULocationUpdateDemand_group_identity_location_demand p \<noteq> None \<or>
          ULocationUpdateDemand_group_report_response p \<noteq> None \<or> ULocationUpdateDemand_authentication_uplink p \<noteq> None \<or>
          ULocationUpdateDemand_extended_capabilities p \<noteq> None \<or> ULocationUpdateDemand_proprietary p \<noteq> None
      in seq
        [write_bits (MmPduTypeUl_into_raw MmPduTypeUl_ULocationUpdateDemand) 4,
         write_bits (LocationUpdateType_into_raw (ULocationUpdateDemand_location_update_type p)) 3,
         write_bits (of_bool (ULocationUpdateDemand_request_to_append_la p)) 1,
         write_bits (of_bool (ULocationUpdateDemand_cipher_control p)) 1,
         write_field_opt (ULocationUpdateDemand_ciphering_parameters p) 10,
         bind (write_obit (of_bool obit)) (\<lambda>_. if \<not> obit then ret () else seq
           [write_type2_struct obit (ULocationUpdateDemand_class_of_ms p) ClassOfMs_to_bitbuf,
            write_type2_generic obit (map_option EnergySavingMode_into_raw (ULocationUpdateDemand_energy_saving_mode p)) 3,
            write_type2_generic obit (map_option (push_bit 1) (ULocationUpdateDemand_la_information p)) 15,
            write_type2_generic obit (ULocationUpdateDemand_ssi p) 24,
            write_type2_generic obit (ULocationUpdateDemand_address_extension p) 24,
            write_type3_struct obit (ULocationUpdateDemand_group_identity_location_demand p) (MmType34ElemIdUl_into_raw MmType34ElemIdUl_GroupIdentityLocationDemand) GroupIdentityLocationDemand_to_bitbuf,
            write_type3_generic obit (ULocationUpdateDemand_group_report_response p) (MmType34ElemIdUl_into_raw MmType34ElemIdUl_GroupReportResponse),
            write_type3_generic obit (ULocationUpdateDemand_authentication_uplink p) (MmType34ElemIdUl_into_raw MmType34ElemIdUl_AuthenticationUplink),
            write_type3_generic obit (ULocationUpdateDemand_extended_capabilities p) (MmType34ElemIdUl_into_raw MmType34ElemIdUl_ExtendedCapabilities),
            write_type3_generic obit (ULocationUpdateDemand_proprietary p) (MmType34ElemIdUl_into_raw MmType34ElemIdUl_Proprietary),
            write_mbit 0])])"

definition ULocationUpdateDemand_wf :: "ULocationUpdateDemand \<Rightarrow> bool" where
  "ULocationUpdateDemand_wf p \<longleftrightarrow>
     pred_option (fits 10) (ULocationUpdateDemand_ciphering_parameters p) \<and>
     (ULocationUpdateDemand_cipher_control p) = (ULocationUpdateDemand_ciphering_parameters p \<noteq> None) \<and>
     pred_option ClassOfMs_wf (ULocationUpdateDemand_class_of_ms p) \<and>
     pred_option (fits 14) (ULocationUpdateDemand_la_information p) \<and>
     pred_option (fits 24) (ULocationUpdateDemand_ssi p) \<and>
     pred_option (fits 24) (ULocationUpdateDemand_address_extension p) \<and>
     pred_option (\<lambda>x. GroupIdentityLocationDemand_wf x \<and> length (GroupIdentityLocationDemand_enc x) < 2048) (ULocationUpdateDemand_group_identity_location_demand p) \<and>
     pred_option (wf_type3_generic (MmType34ElemIdUl_into_raw MmType34ElemIdUl_GroupReportResponse)) (ULocationUpdateDemand_group_report_response p) \<and>
     pred_option (wf_type3_generic (MmType34ElemIdUl_into_raw MmType34ElemIdUl_AuthenticationUplink)) (ULocationUpdateDemand_authentication_uplink p) \<and>
     pred_option (wf_type3_generic (MmType34ElemIdUl_into_raw MmType34ElemIdUl_ExtendedCapabilities)) (ULocationUpdateDemand_extended_capabilities p) \<and>
     pred_option (wf_type3_generic (MmType34ElemIdUl_into_raw MmType34ElemIdUl_Proprietary)) (ULocationUpdateDemand_proprietary p)"

definition ULocationUpdateDemand_enc :: "ULocationUpdateDemand \<Rightarrow> bool list" where
  "ULocationUpdateDemand_enc p =
     (let obit = ULocationUpdateDemand_class_of_ms p \<noteq> None \<or> ULocationUpdateDemand_energy_saving_mode p \<noteq> None \<or>
          ULocationUpdateDemand_la_information p \<noteq> None \<or> ULocationUpdateDemand_ssi p \<noteq> None \<or>
          ULocationUpdateDemand_address_extension p \<noteq> None \<or> ULocationUpdateDemand_group_identity_location_demand p \<noteq> None \<or>
          ULocationUpdateDemand_group_report_response p \<noteq> None \<or> ULocationUpdateDemand_authentication_uplink p \<noteq> None \<or>
          ULocationUpdateDemand_extended_capabilities p \<noteq> None \<or> ULocationUpdateDemand_proprietary p \<noteq> None
      in to_bits 4 (MmPduTypeUl_into_raw MmPduTypeUl_ULocationUpdateDemand :: u64) @
         to_bits 3 (LocationUpdateType_into_raw (ULocationUpdateDemand_location_update_type p) :: u64) @
         to_bits 1 (of_bool (ULocationUpdateDemand_request_to_append_la p) :: u64) @
         to_bits 1 (of_bool (ULocationUpdateDemand_cipher_control p) :: u64) @ enc_opt 10 (ULocationUpdateDemand_ciphering_parameters p) @ obit #
         enc_type2 obit ClassOfMs_enc (ULocationUpdateDemand_class_of_ms p) @
         enc_type2 obit (to_bits 3) (map_option EnergySavingMode_into_raw (ULocationUpdateDemand_energy_saving_mode p)) @
         enc_type2 obit (to_bits 15) (map_option (push_bit 1) (ULocationUpdateDemand_la_information p)) @
         enc_type2 obit (to_bits 24) (ULocationUpdateDemand_ssi p) @ enc_type2 obit (to_bits 24) (ULocationUpdateDemand_address_extension p) @
         enc_type3 (MmType34ElemIdUl_into_raw MmType34ElemIdUl_GroupIdentityLocationDemand) GroupIdentityLocationDemand_enc (ULocationUpdateDemand_group_identity_location_demand p) @
         enc_type3_generic (MmType34ElemIdUl_into_raw MmType34ElemIdUl_GroupReportResponse) (ULocationUpdateDemand_group_report_response p) @
         enc_type3_generic (MmType34ElemIdUl_into_raw MmType34ElemIdUl_AuthenticationUplink) (ULocationUpdateDemand_authentication_uplink p) @
         enc_type3_generic (MmType34ElemIdUl_into_raw MmType34ElemIdUl_ExtendedCapabilities) (ULocationUpdateDemand_extended_capabilities p) @
         enc_type3_generic (MmType34ElemIdUl_into_raw MmType34ElemIdUl_Proprietary) (ULocationUpdateDemand_proprietary p) @
         (if obit then [False] else []))"

interpretation ULocationUpdateDemand: safe_codec ULocationUpdateDemand_wf ULocationUpdateDemand_enc ULocationUpdateDemand_to_bitbuf ULocationUpdateDemand_from_bitbuf
proof
  show "emits (ULocationUpdateDemand_to_bitbuf p) (ULocationUpdateDemand_enc p)" if "ULocationUpdateDemand_wf p" for p
    using that unfolding ULocationUpdateDemand_to_bitbuf_def ULocationUpdateDemand_enc_def ULocationUpdateDemand_wf_def Let_def append_assoc append_Cons append_Nil
    by (intro l3_emits) (simp_all add: l3_simps l3_codecs)
  show "parses ULocationUpdateDemand_from_bitbuf (ULocationUpdateDemand_enc p) p" if "ULocationUpdateDemand_wf p" for p
    unfolding ULocationUpdateDemand_from_bitbuf_def ULocationUpdateDemand_enc_def Let_def append_assoc append_Cons append_Nil
    by (rule parsesI) (intro parses_ret l3_parses, use that in \<open>simp_all add: ULocationUpdateDemand_wf_def l3_simps l3_codecs\<close>)
  show "safe ULocationUpdateDemand_from_bitbuf"
    unfolding ULocationUpdateDemand_from_bitbuf_def by (intro safe_intros)
qed

section \<open>UTeiProvide\<close>

text \<open>\<open>tetra-pdus/src/mm/pdus/u_tei_provide.rs\<close>.\<close>

record UTeiProvide =
  UTeiProvide_tei :: u64
  UTeiProvide_proprietary :: "type3_field_generic option"

definition UTeiProvide_from_bitbuf :: "UTeiProvide bb" where
  "UTeiProvide_from_bitbuf =
     bind (read_field 4 ''pdu_type'') (\<lambda>pdu_type.
     bind (expect_pdu_type pdu_type (MmPduTypeUl_into_raw MmPduTypeUl_UTeiProvide)) (\<lambda>_.
     bind (read_field 60 ''tei'') (\<lambda>tei.
     bind read_obit (\<lambda>obit.
     bind (parse_type3_generic obit (MmType34ElemIdUl_into_raw MmType34ElemIdUl_Proprietary)) (\<lambda>proprietary.
     bind (read_trailing_mbit obit) (\<lambda>_.
     ret \<lparr>UTeiProvide_tei = tei, UTeiProvide_proprietary = proprietary\<rparr>))))))"

definition UTeiProvide_to_bitbuf :: "UTeiProvide \<Rightarrow> unit bb" where
  "UTeiProvide_to_bitbuf p =
     (let obit = UTeiProvide_proprietary p \<noteq> None
      in seq
        [write_bits (MmPduTypeUl_into_raw MmPduTypeUl_UTeiProvide) 4,
         write_bits (UTeiProvide_tei p) 60,
         bind (write_obit (of_bool obit)) (\<lambda>_. if \<not> obit then ret () else seq
           [write_type3_generic obit (UTeiProvide_proprietary p) (MmType34ElemIdUl_into_raw MmType34ElemIdUl_Proprietary),
            write_mbit 0])])"

definition UTeiProvide_wf :: "UTeiProvide \<Rightarrow> bool" where
  "UTeiProvide_wf p \<longleftrightarrow>
     fits 60 (UTeiProvide_tei p) \<and>
     pred_option (wf_type3_generic (MmType34ElemIdUl_into_raw MmType34ElemIdUl_Proprietary)) (UTeiProvide_proprietary p)"

definition UTeiProvide_enc :: "UTeiProvide \<Rightarrow> bool list" where
  "UTeiProvide_enc p =
     (let obit = UTeiProvide_proprietary p \<noteq> None
      in to_bits 4 (MmPduTypeUl_into_raw MmPduTypeUl_UTeiProvide :: u64) @ to_bits 60 (UTeiProvide_tei p :: u64) @ obit #
         enc_type3_generic (MmType34ElemIdUl_into_raw MmType34ElemIdUl_Proprietary) (UTeiProvide_proprietary p) @ (if obit then [False] else []))"

interpretation UTeiProvide: safe_codec UTeiProvide_wf UTeiProvide_enc UTeiProvide_to_bitbuf UTeiProvide_from_bitbuf
proof
  show "emits (UTeiProvide_to_bitbuf p) (UTeiProvide_enc p)" if "UTeiProvide_wf p" for p
    using that unfolding UTeiProvide_to_bitbuf_def UTeiProvide_enc_def UTeiProvide_wf_def Let_def append_assoc append_Cons append_Nil
    by (intro l3_emits) (simp_all add: l3_simps l3_codecs)
  show "parses UTeiProvide_from_bitbuf (UTeiProvide_enc p) p" if "UTeiProvide_wf p" for p
    unfolding UTeiProvide_from_bitbuf_def UTeiProvide_enc_def Let_def append_assoc append_Cons append_Nil
    by (rule parsesI) (intro parses_ret l3_parses, use that in \<open>simp_all add: UTeiProvide_wf_def l3_simps l3_codecs\<close>)
  show "safe UTeiProvide_from_bitbuf"
    unfolding UTeiProvide_from_bitbuf_def by (intro safe_intros)
qed

end
