(* ===== verification/Mm_Pdus_Dl.thy ===== *)
theory Mm_Pdus_Dl
  imports Mm_Fields
begin

text \<open>
  The downlink PDUs of mobility management (\<open>tetra-pdus/src/mm/pdus/d_*.rs\<close>).
\<close>

unbundle bit_operations_syntax

declare One_nat_def [simp del] split_of_bool [split del] split_of_bool_asm [split del]

section \<open>DAttachDetachGroupIdentity\<close>

text \<open>\<open>tetra-pdus/src/mm/pdus/d_attach_detach_group_identity.rs\<close>.\<close>

record DAttachDetachGroupIdentity =
  DAttachDetachGroupIdentity_group_identity_report :: bool
  DAttachDetachGroupIdentity_group_identity_acknowledgement_request :: bool
  DAttachDetachGroupIdentity_group_identity_attach_detach_mode :: bool
  DAttachDetachGroupIdentity_proprietary :: "type3_field_generic option"
  DAttachDetachGroupIdentity_group_report_response :: "type3_field_generic option"
  DAttachDetachGroupIdentity_group_identity_downlink :: "GroupIdentityDownlink list option"
  DAttachDetachGroupIdentity_group_identity_security_related_information :: "type4_field_generic option"

definition DAttachDetachGroupIdentity_from_bitbuf :: "DAttachDetachGroupIdentity bb" where
  "DAttachDetachGroupIdentity_from_bitbuf =
     bind (read_field 4 ''pdu_type'') (\<lambda>pdu_type.
     bind (expect_pdu_type pdu_type (MmPduTypeDl_into_raw MmPduTypeDl_DAttachDetachGroupIdentity)) (\<lambda>_.
     bind (read_field 1 ''group_identity_report'') (\<lambda>group_identity_report.
     bind (read_field 1 ''group_identity_acknowledgement_request'') (\<lambda>group_identity_acknowledgement_request.
     bind (read_field 1 ''group_identity_attach_detach_mode'') (\<lambda>group_identity_attach_detach_mode.
     bind read_obit (\<lambda>obit.
     bind (parse_type3_generic obit (MmType34ElemIdDl_into_raw MmType34ElemIdDl_Proprietary)) (\<lambda>proprietary.
     bind (parse_type3_generic obit (MmType34ElemIdDl_into_raw MmType34ElemIdDl_GroupReportResponse)) (\<lambda>group_report_response.
     bind (parse_type4_struct obit (MmType34ElemIdDl_into_raw MmType34ElemIdDl_GroupIdentityDownlink) GroupIdentityDownlink_from_bitbuf) (\<lambda>group_identity_downlink.
     bind (parse_type4_generic obit (MmType34ElemIdDl_into_raw MmType34ElemIdDl_GroupIdentitySecurityRelatedInformation)) (\<lambda>group_identity_security_related_information.
     bind (read_trailing_mbit obit) (\<lambda>_.
     ret \<lparr>DAttachDetachGroupIdentity_group_identity_report = group_identity_report \<noteq> 0,
          DAttachDetachGroupIdentity_group_identity_acknowledgement_request = group_identity_acknowledgement_request \<noteq> 0,
          DAttachDetachGroupIdentity_group_identity_attach_detach_mode = group_identity_attach_detach_mode \<noteq> 0,
          DAttachDetachGroupIdentity_proprietary = proprietary, DAttachDetachGroupIdentity_group_report_response = group_report_response,
          DAttachDetachGroupIdentity_group_identity_downlink = group_identity_downlink,
          DAttachDetachGroupIdentity_group_identity_security_related_information = group_identity_security_related_information\<rparr>)))))))))))"

definition DAttachDetachGroupIdentity_to_bitbuf :: "DAttachDetachGroupIdentity \<Rightarrow> unit bb" where
  "DAttachDetachGroupIdentity_to_bitbuf p =
     (let obit = DAttachDetachGroupIdentity_proprietary p \<noteq> None \<or> DAttachDetachGroupIdentity_group_report_response p \<noteq> None \<or>
          DAttachDetachGroupIdentity_group_identity_downlink p \<noteq> None \<or>
          DAttachDetachGroupIdentity_group_identity_security_related_information p \<noteq> None
      in seq
        [write_bits (MmPduTypeDl_into_raw MmPduTypeDl_DAttachDetachGroupIdentity) 4,
         write_bits (of_bool (DAttachDetachGroupIdentity_group_identity_report p)) 1,
         write_bits (of_bool (DAttachDetachGroupIdentity_group_identity_acknowledgement_request p)) 1,
         write_bits (of_bool (DAttachDetachGroupIdentity_group_identity_attach_detach_mode p)) 1,
         bind (write_obit (of_bool obit)) (\<lambda>_. if \<not> obit then ret () else seq
           [write_type3_generic obit (DAttachDetachGroupIdentity_proprietary p) (MmType34ElemIdDl_into_raw MmType34ElemIdDl_Proprietary),
            write_type3_generic obit (DAttachDetachGroupIdentity_group_report_response p) (MmType34ElemIdDl_into_raw MmType34ElemIdDl_GroupReportResponse),
            write_type4_struct obit (DAttachDetachGroupIdentity_group_identity_downlink p) (MmType34ElemIdDl_into_raw MmType34ElemIdDl_GroupIdentityDownlink) GroupIdentityDownlink_to_bitbuf,
            write_type4_todo obit (DAttachDetachGroupIdentity_group_identity_security_related_information p) (MmType34ElemIdDl_into_raw MmType34ElemIdDl_GroupIdentitySecurityRelatedInformation),
            write_mbit 0])])"

definition DAttachDetachGroupIdentity_wf :: "DAttachDetachGroupIdentity \<Rightarrow> bool" where
  "DAttachDetachGroupIdentity_wf p \<longleftrightarrow>
     pred_option (wf_type3_generic (MmType34ElemIdDl_into_raw MmType34ElemIdDl_Proprietary)) (DAttachDetachGroupIdentity_proprietary p) \<and>
     pred_option (wf_type3_generic (MmType34ElemIdDl_into_raw MmType34ElemIdDl_GroupReportResponse)) (DAttachDetachGroupIdentity_group_report_response p) \<and>
     pred_option (\<lambda>xs. list_all GroupIdentityDownlink_wf xs \<and> 6 + length (concat (map GroupIdentityDownlink_enc xs)) < 2048 \<and> length xs < 64) (DAttachDetachGroupIdentity_group_identity_downlink p) \<and>
     DAttachDetachGroupIdentity_group_identity_security_related_information p = None"

definition DAttachDetachGroupIdentity_enc :: "DAttachDetachGroupIdentity \<Rightarrow> bool list" where
  "DAttachDetachGroupIdentity_enc p =
     (let obit = DAttachDetachGroupIdentity_proprietary p \<noteq> None \<or> DAttachDetachGroupIdentity_group_report_response p \<noteq> None \<or>
          DAttachDetachGroupIdentity_group_identity_downlink p \<noteq> None \<or>
          DAttachDetachGroupIdentity_group_identity_security_related_information p \<noteq> None
      in to_bits 4 (MmPduTypeDl_into_raw MmPduTypeDl_DAttachDetachGroupIdentity :: u64) @
         to_bits 1 (of_bool (DAttachDetachGroupIdentity_group_identity_report p) :: u64) @
         to_bits 1 (of_bool (DAttachDetachGroupIdentity_group_identity_acknowledgement_request p) :: u64) @
         to_bits 1 (of_bool (DAttachDetachGroupIdentity_group_identity_attach_detach_mode p) :: u64) @ obit #
         enc_type3_generic (MmType34ElemIdDl_into_raw MmType34ElemIdDl_Proprietary) (DAttachDetachGroupIdentity_proprietary p) @
         enc_type3_generic (MmType34ElemIdDl_into_raw MmType34ElemIdDl_GroupReportResponse) (DAttachDetachGroupIdentity_group_report_response p) @
         enc_type4 (MmType34ElemIdDl_into_raw MmType34ElemIdDl_GroupIdentityDownlink) GroupIdentityDownlink_enc (DAttachDetachGroupIdentity_group_identity_downlink p) @
         enc_todo (DAttachDetachGroupIdentity_group_identity_security_related_information p) @ (if obit then [False] else []))"

interpretation DAttachDetachGroupIdentity: safe_codec DAttachDetachGroupIdentity_wf DAttachDetachGroupIdentity_enc DAttachDetachGroupIdentity_to_bitbuf DAttachDetachGroupIdentity_from_bitbuf
proof
  show "emits (DAttachDetachGroupIdentity_to_bitbuf p) (DAttachDetachGroupIdentity_enc p)" if "DAttachDetachGroupIdentity_wf p" for p
    using that unfolding DAttachDetachGroupIdentity_to_bitbuf_def DAttachDetachGroupIdentity_enc_def DAttachDetachGroupIdentity_wf_def Let_def append_assoc append_Cons append_Nil
    by (intro l3_emits) (simp_all add: l3_simps l3_codecs)
  show "parses DAttachDetachGroupIdentity_from_bitbuf (DAttachDetachGroupIdentity_enc p) p" if "DAttachDetachGroupIdentity_wf p" for p
    unfolding DAttachDetachGroupIdentity_from_bitbuf_def DAttachDetachGroupIdentity_enc_def Let_def append_assoc append_Cons append_Nil
    by (rule parsesI) (intro parses_ret l3_parses, use that in \<open>simp_all add: DAttachDetachGroupIdentity_wf_def l3_simps l3_codecs\<close>)
  show "safe DAttachDetachGroupIdentity_from_bitbuf"
    unfolding DAttachDetachGroupIdentity_from_bitbuf_def by (intro safe_intros)
qed

section \<open>DAttachDetachGroupIdentityAcknowledgement\<close>

text \<open>\<open>tetra-pdus/src/mm/pdus/d_attach_detach_group_identity_acknowledgement.rs\<close>.\<close>

record DAttachDetachGroupIdentityAcknowledgement =
  DAttachDetachGroupIdentityAcknowledgement_group_identity_accept_reject :: u8
  DAttachDetachGroupIdentityAcknowledgement_reserved :: bool
  DAttachDetachGroupIdentityAcknowledgement_proprietary :: "type3_field_generic option"
  DAttachDetachGroupIdentityAcknowledgement_group_identity_downlink :: "GroupIdentityDownlink list option"
  DAttachDetachGroupIdentityAcknowledgement_group_identity_security_related_information :: "type4_field_generic option"

definition DAttachDetachGroupIdentityAcknowledgement_from_bitbuf :: "DAttachDetachGroupIdentityAcknowledgement bb" where
  "DAttachDetachGroupIdentityAcknowledgement_from_bitbuf =
     bind (read_field 4 ''pdu_type'') (\<lambda>pdu_type.
     bind (expect_pdu_type pdu_type (MmPduTypeDl_into_raw MmPduTypeDl_DAttachDetachGroupIdentityAcknowledgement)) (\<lambda>_.
     bind (read_field 1 ''group_identity_accept_reject'') (\<lambda>group_identity_accept_reject.
     bind (read_field 1 ''reserved'') (\<lambda>reserved.
     bind read_obit (\<lambda>obit.
     bind (parse_type3_generic obit (MmType34ElemIdDl_into_raw MmType34ElemIdDl_Proprietary)) (\<lambda>proprietary.
     bind (parse_type4_struct obit (MmType34ElemIdDl_into_raw MmType34ElemIdDl_GroupIdentityDownlink) GroupIdentityDownlink_from_bitbuf) (\<lambda>group_identity_downlink.
     bind (parse_type4_generic obit (MmType34ElemIdDl_into_raw MmType34ElemIdDl_GroupIdentitySecurityRelatedInformation)) (\<lambda>group_identity_security_related_information.
     bind (read_trailing_mbit obit) (\<lambda>_.
     ret \<lparr>DAttachDetachGroupIdentityAcknowledgement_group_identity_accept_reject = ucast group_identity_accept_reject,
          DAttachDetachGroupIdentityAcknowledgement_reserved = reserved \<noteq> 0, DAttachDetachGroupIdentityAcknowledgement_proprietary = proprietary,
          DAttachDetachGroupIdentityAcknowledgement_group_identity_downlink = group_identity_downlink,
          DAttachDetachGroupIdentityAcknowledgement_group_identity_security_related_information = group_identity_security_related_information\<rparr>)))))))))"

definition DAttachDetachGroupIdentityAcknowledgement_to_bitbuf :: "DAttachDetachGroupIdentityAcknowledgement \<Rightarrow> unit bb" where
  "DAttachDetachGroupIdentityAcknowledgement_to_bitbuf p =
     (let obit = DAttachDetachGroupIdentityAcknowledgement_proprietary p \<noteq> None \<or>
          DAttachDetachGroupIdentityAcknowledgement_group_identity_downlink p \<noteq> None \<or>
          DAttachDetachGroupIdentityAcknowledgement_group_identity_security_related_information p \<noteq> None
      in seq
        [write_bits (MmPduTypeDl_into_raw MmPduTypeDl_DAttachDetachGroupIdentityAcknowledgement) 4,
         write_bits (ucast (DAttachDetachGroupIdentityAcknowledgement_group_identity_accept_reject p)) 1,
         write_bits (of_bool (DAttachDetachGroupIdentityAcknowledgement_reserved p)) 1,
         bind (write_obit (of_bool obit)) (\<lambda>_. if \<not> obit then ret () else seq
           [write_type3_generic obit (DAttachDetachGroupIdentityAcknowledgement_proprietary p) (MmType34ElemIdDl_into_raw MmType34ElemIdDl_Proprietary),
            write_type4_struct obit (DAttachDetachGroupIdentityAcknowledgement_group_identity_downlink p) (MmType34ElemIdDl_into_raw MmType34ElemIdDl_GroupIdentityDownlink) GroupIdentityDownlink_to_bitbuf,
            write_type4_todo obit (DAttachDetachGroupIdentityAcknowledgement_group_identity_security_related_information p) (MmType34ElemIdDl_into_raw MmType34ElemIdDl_GroupIdentitySecurityRelatedInformation),
            write_mbit 0])])"

definition DAttachDetachGroupIdentityAcknowledgement_wf :: "DAttachDetachGroupIdentityAcknowledgement \<Rightarrow> bool" where
  "DAttachDetachGroupIdentityAcknowledgement_wf p \<longleftrightarrow>
     fits 1 (DAttachDetachGroupIdentityAcknowledgement_group_identity_accept_reject p) \<and>
     pred_option (wf_type3_generic (MmType34ElemIdDl_into_raw MmType34ElemIdDl_Proprietary)) (DAttachDetachGroupIdentityAcknowledgement_proprietary p) \<and>
     pred_option (\<lambda>xs. list_all GroupIdentityDownlink_wf xs \<and> 6 + length (concat (map GroupIdentityDownlink_enc xs)) < 2048 \<and> length xs < 64) (DAttachDetachGroupIdentityAcknowledgement_group_identity_downlink p) \<and>
     DAttachDetachGroupIdentityAcknowledgement_group_identity_security_related_information p = None"

definition DAttachDetachGroupIdentityAcknowledgement_enc :: "DAttachDetachGroupIdentityAcknowledgement \<Rightarrow> bool list" where
  "DAttachDetachGroupIdentityAcknowledgement_enc p =
     (let obit = DAttachDetachGroupIdentityAcknowledgement_proprietary p \<noteq> None \<or>
          DAttachDetachGroupIdentityAcknowledgement_group_identity_downlink p \<noteq> None \<or>
          DAttachDetachGroupIdentityAcknowledgement_group_identity_security_related_information p \<noteq> None
      in to_bits 4 (MmPduTypeDl_into_raw MmPduTypeDl_DAttachDetachGroupIdentityAcknowledgement :: u64) @
         to_bits 1 (ucast (DAttachDetachGroupIdentityAcknowledgement_group_identity_accept_reject p) :: u64) @
         to_bits 1 (of_bool (DAttachDetachGroupIdentityAcknowledgement_reserved p) :: u64) @ obit #
         enc_type3_generic (MmType34ElemIdDl_into_raw MmType34ElemIdDl_Proprietary) (DAttachDetachGroupIdentityAcknowledgement_proprietary p) @
         enc_type4 (MmType34ElemIdDl_into_raw MmType34ElemIdDl_GroupIdentityDownlink) GroupIdentityDownlink_enc (DAttachDetachGroupIdentityAcknowledgement_group_identity_downlink p) @
         enc_todo (DAttachDetachGroupIdentityAcknowledgement_group_identity_security_related_information p) @ (if obit then [False] else []))"

interpretation DAttachDetachGroupIdentityAcknowledgement: safe_codec DAttachDetachGroupIdentityAcknowledgement_wf DAttachDetachGroupIdentityAcknowledgement_enc DAttachDetachGroupIdentityAcknowledgement_to_bitbuf DAttachDetachGroupIdentityAcknowledgement_from_bitbuf
proof
  show "emits (DAttachDetachGroupIdentityAcknowledgement_to_bitbuf p) (DAttachDetachGroupIdentityAcknowledgement_enc p)" if "DAttachDetachGroupIdentityAcknowledgement_wf p" for p
    using that unfolding DAttachDetachGroupIdentityAcknowledgement_to_bitbuf_def DAttachDetachGroupIdentityAcknowledgement_enc_def DAttachDetachGroupIdentityAcknowledgement_wf_def Let_def append_assoc append_Cons append_Nil
    by (intro l3_emits) (simp_all add: l3_simps l3_codecs)
  show "parses DAttachDetachGroupIdentityAcknowledgement_from_bitbuf (DAttachDetachGroupIdentityAcknowledgement_enc p) p" if "DAttachDetachGroupIdentityAcknowledgement_wf p" for p
    unfolding DAttachDetachGroupIdentityAcknowledgement_from_bitbuf_def DAttachDetachGroupIdentityAcknowledgement_enc_def Let_def append_assoc append_Cons append_Nil
    by (rule parsesI) (intro parses_ret l3_parses, use that in \<open>simp_all add: DAttachDetachGroupIdentityAcknowledgement_wf_def l3_simps l3_codecs\<close>)
  show "safe DAttachDetachGroupIdentityAcknowledgement_from_bitbuf"
    unfolding DAttachDetachGroupIdentityAcknowledgement_from_bitbuf_def by (intro safe_intros)
qed

section \<open>DLocationUpdateAccept\<close>

text \<open>\<open>tetra-pdus/src/mm/pdus/d_location_update_accept.rs\<close>.\<close>

record DLocationUpdateAccept =
  DLocationUpdateAccept_location_update_accept_type :: LocationUpdateType
  DLocationUpdateAccept_ssi :: "u64 option"
  DLocationUpdateAccept_address_extension :: "u64 option"
  DLocationUpdateAccept_subscriber_class :: "u64 option"
  DLocationUpdateAccept_energy_saving_information :: "EnergySavingInformation option"
  DLocationUpdateAccept_scch_information_and_distribution_on_18th_frame :: "u64 option"
  DLocationUpdateAccept_new_registered_area :: "type4_field_generic option"
  DLocationUpdateAccept_security_downlink :: "type3_field_generic option"
  DLocationUpdateAccept_group_identity_location_accept :: "GroupIdentityLocationAccept option"
  DLocationUpdateAccept_default_group_attachment_lifetime :: "type3_field_generic option"
  DLocationUpdateAccept_authentication_downlink :: "type3_field_generic option"
  DLocationUpdateAccept_group_identity_security_related_information :: "type4_field_generic option"
  DLocationUpdateAccept_cell_type_control :: "type3_field_generic option"
  DLocationUpdateAccept_proprietary :: "type3_field_generic option"

definition DLocationUpdateAccept_from_bitbuf :: "DLocationUpdateAccept bb" where
  "DLocationUpdateAccept_from_bitbuf =
     bind (read_field 4 ''pdu_type'') (\<lambda>pdu_type.
     bind (expect_pdu_type pdu_type (MmPduTypeDl_into_raw MmPduTypeDl_DLocationUpdateAccept)) (\<lambda>_.
     bind (read_enum LocationUpdateType_try_from 3 ''location_update_accept_type'') (\<lambda>location_update_accept_type.
     bind read_obit (\<lambda>obit.
     bind (parse_type2_generic obit 24 ''ssi'') (\<lambda>ssi.
     bind (parse_type2_generic obit 24 ''address_extension'') (\<lambda>address_extension.
     bind (parse_type2_generic obit 16 ''subscriber_class'') (\<lambda>subscriber_class.
     bind (parse_type2_struct obit EnergySavingInformation_from_bitbuf) (\<lambda>energy_saving_information.
     bind (parse_type2_generic obit 6 ''scch_information_and_distribution_on_18th_frame'') (\<lambda>scch_information_and_distribution_on_18th_frame.
     bind (parse_type4_generic obit (MmType34ElemIdDl_into_raw MmType34ElemIdDl_NewRegisteredArea)) (\<lambda>new_registered_area.
     bind (parse_type3_generic obit (MmType34ElemIdDl_into_raw MmType34ElemIdDl_SecurityDownlink)) (\<lambda>security_downlink.
     bind (parse_type3_struct obit (MmType34ElemIdDl_into_raw MmType34ElemIdDl_GroupIdentityLocationAccept) GroupIdentityLocationAccept_from_bitbuf) (\<lambda>group_identity_location_accept.
     bind (parse_type3_generic obit (MmType34ElemIdDl_into_raw MmType34ElemIdDl_DefaultGroupAttachLifetime)) (\<lambda>default_group_attachment_lifetime.
     bind (parse_type3_generic obit (MmType34ElemIdDl_into_raw MmType34ElemIdDl_AuthenticationDownlink)) (\<lambda>authentication_downlink.
     bind (parse_type4_generic obit (MmType34ElemIdDl_into_raw MmType34ElemIdDl_GroupIdentitySecurityRelatedInformation)) (\<lambda>group_identity_security_related_information.
     bind (parse_type3_generic obit (MmType34ElemIdDl_into_raw MmType34ElemIdDl_CellTypeControl)) (\<lambda>cell_type_control.
     bind (parse_type3_generic obit (MmType34ElemIdDl_into_raw MmType34ElemIdDl_Proprietary)) (\<lambda>proprietary.
     bind (read_trailing_mbit obit) (\<lambda>_.
     ret \<lparr>DLocationUpdateAccept_location_update_accept_type = location_update_accept_type, DLocationUpdateAccept_ssi = ssi,
          DLocationUpdateAccept_address_extension = address_extension, DLocationUpdateAccept_subscriber_class = subscriber_class,
          DLocationUpdateAccept_energy_saving_information = energy_saving_information,
          DLocationUpdateAccept_scch_information_and_distribution_on_18th_frame = scch_information_and_distribution_on_18th_frame,
          DLocationUpdateAccept_new_registered_area = new_registered_area, DLocationUpdateAccept_security_downlink = security_downlink,
          DLocationUpdateAccept_group_identity_location_accept = group_identity_location_accept,
          DLocationUpdateAccept_default_group_attachment_lifetime = default_group_attachment_lifetime,
          DLocationUpdateAccept_authentication_downlink = authentication_downlink,
          DLocationUpdateAccept_group_identity_security_related_information = group_identity_security_related_information,
          DLocationUpdateAccept_cell_type_control = cell_type_control, DLocationUpdateAccept_proprietary = proprietary\<rparr>))))))))))))))))))"

definition DLocationUpdateAccept_to_bitbuf :: "DLocationUpdateAccept \<Rightarrow> unit bb" where
  "DLocationUpdateAccept_to_bitbuf p =
     (let obit = DLocationUpdateAccept_ssi p \<noteq> None \<or> DLocationUpdateAccept_address_extension p \<noteq> None \<or>
          DLocationUpdateAccept_subscriber_class p \<noteq> None \<or> DLocationUpdateAccept_energy_saving_information p \<noteq> None \<or>
          DLocationUpdateAccept_scch_information_and_distribution_on_18th_frame p \<noteq> None \<or>
          DLocationUpdateAccept_new_registered_area p \<noteq> None \<or> DLocationUpdateAccept_security_downlink p \<noteq> None \<or>
          DLocationUpdateAccept_group_identity_location_accept p \<noteq> None \<or>
          DLocationUpdateAccept_default_group_attachment_lifetime p \<noteq> None \<or> DLocationUpdateAccept_authentication_downlink p \<noteq> None \<or>
          DLocationUpdateAccept_group_identity_security_related_information p \<noteq> None \<or>
          DLocationUpdateAccept_cell_type_control p \<noteq> None \<or> DLocationUpdateAccept_proprietary p \<noteq> None
      in seq
        [write_bits (MmPduTypeDl_into_raw MmPduTypeDl_DLocationUpdateAccept) 4,
         write_bits (LocationUpdateType_into_raw (DLocationUpdateAccept_location_update_accept_type p)) 3,
         bind (write_obit (of_bool obit)) (\<lambda>_. if \<not> obit then ret () else seq
           [write_type2_generic obit (DLocationUpdateAccept_ssi p) 24,
            write_type2_generic obit (DLocationUpdateAccept_address_extension p) 24,
            write_type2_generic obit (DLocationUpdateAccept_subscriber_class p) 16,
            write_type2_struct obit (DLocationUpdateAccept_energy_saving_information p) EnergySavingInformation_to_bitbuf,
            write_type2_generic obit (DLocationUpdateAccept_scch_information_and_distribution_on_18th_frame p) 6,
            write_type4_todo obit (DLocationUpdateAccept_new_registered_area p) (MmType34ElemIdDl_into_raw MmType34ElemIdDl_NewRegisteredArea),
            write_type3_generic obit (DLocationUpdateAccept_security_downlink p) (MmType34ElemIdDl_into_raw MmType34ElemIdDl_SecurityDownlink),
            write_type3_struct obit (DLocationUpdateAccept_group_identity_location_accept p) (MmType34ElemIdDl_into_raw MmType34ElemIdDl_GroupIdentityLocationAccept) GroupIdentityLocationAccept_to_bitbuf,
            write_type3_generic obit (DLocationUpdateAccept_default_group_attachment_lifetime p) (MmType34ElemIdDl_into_raw MmType34ElemIdDl_DefaultGroupAttachLifetime),
            write_type3_generic obit (DLocationUpdateAccept_authentication_downlink p) (MmType34ElemIdDl_into_raw MmType34ElemIdDl_AuthenticationDownlink),
            write_type4_todo obit (DLocationUpdateAccept_group_identity_security_related_information p) (MmType34ElemIdDl_into_raw MmType34ElemIdDl_GroupIdentitySecurityRelatedInformation),
            write_type3_generic obit (DLocationUpdateAccept_cell_type_control p) (MmType34ElemIdDl_into_raw MmType34ElemIdDl_CellTypeControl),
            write_type3_generic obit (DLocationUpdateAccept_proprietary p) (MmType34ElemIdDl_into_raw MmType34ElemIdDl_Proprietary),
            write_mbit 0])])"

definition DLocationUpdateAccept_wf :: "DLocationUpdateAccept \<Rightarrow> bool" where
  "DLocationUpdateAccept_wf p \<longleftrightarrow>
     pred_option (fits 24) (DLocationUpdateAccept_ssi p) \<and>
     pred_option (fits 24) (DLocationUpdateAccept_address_extension p) \<and>
     pred_option (fits 16) (DLocationUpdateAccept_subscriber_class p) \<and>
     pred_option EnergySavingInformation_wf (DLocationUpdateAccept_energy_saving_information p) \<and>
     pred_option (fits 6) (DLocationUpdateAccept_scch_information_and_distribution_on_18th_frame p) \<and>
     DLocationUpdateAccept_new_registered_area p = None \<and>
     pred_option (wf_type3_generic (MmType34ElemIdDl_into_raw MmType34ElemIdDl_SecurityDownlink)) (DLocationUpdateAccept_security_downlink p) \<and>
     pred_option (\<lambda>x. GroupIdentityLocationAccept_wf x \<and> length (GroupIdentityLocationAccept_enc x) < 2048) (DLocationUpdateAccept_group_identity_location_accept p) \<and>
     pred_option (wf_type3_generic (MmType34ElemIdDl_into_raw MmType34ElemIdDl_DefaultGroupAttachLifetime)) (DLocationUpdateAccept_default_group_attachment_lifetime p) \<and>
     pred_option (wf_type3_generic (MmType34ElemIdDl_into_raw MmType34ElemIdDl_AuthenticationDownlink)) (DLocationUpdateAccept_authentication_downlink p) \<and>
     DLocationUpdateAccept_group_identity_security_related_information p = None \<and>
     pred_option (wf_type3_generic (MmType34ElemIdDl_into_raw MmType34ElemIdDl_CellTypeControl)) (DLocationUpdateAccept_cell_type_control p) \<and>
     pred_option (wf_type3_generic (MmType34ElemIdDl_into_raw MmType34ElemIdDl_Proprietary)) (DLocationUpdateAccept_proprietary p)"

definition DLocationUpdateAccept_enc :: "DLocationUpdateAccept \<Rightarrow> bool list" where
  "DLocationUpdateAccept_enc p =
     (let obit = DLocationUpdateAccept_ssi p \<noteq> None \<or> DLocationUpdateAccept_address_extension p \<noteq> None \<or>
          DLocationUpdateAccept_subscriber_class p \<noteq> None \<or> DLocationUpdateAccept_energy_saving_information p \<noteq> None \<or>
          DLocationUpdateAccept_scch_information_and_distribution_on_18th_frame p \<noteq> None \<or>
          DLocationUpdateAccept_new_registered_area p \<noteq> None \<or> DLocationUpdateAccept_security_downlink p \<noteq> None \<or>
          DLocationUpdateAccept_group_identity_location_accept p \<noteq> None \<or>
          DLocationUpdateAccept_default_group_attachment_lifetime p \<noteq> None \<or> DLocationUpdateAccept_authentication_downlink p \<noteq> None \<or>
          DLocationUpdateAccept_group_identity_security_related_information p \<noteq> None \<or>
          DLocationUpdateAccept_cell_type_control p \<noteq> None \<or> DLocationUpdateAccept_proprietary p \<noteq> None
      in to_bits 4 (MmPduTypeDl_into_raw MmPduTypeDl_DLocationUpdateAccept :: u64) @
         to_bits 3 (LocationUpdateType_into_raw (DLocationUpdateAccept_location_update_accept_type p) :: u64) @ obit #
         enc_type2 obit (to_bits 24) (DLocationUpdateAccept_ssi p) @ enc_type2 obit (to_bits 24) (DLocationUpdateAccept_address_extension p) @
         enc_type2 obit (to_bits 16) (DLocationUpdateAccept_subscriber_class p) @
         enc_type2 obit EnergySavingInformation_enc (DLocationUpdateAccept_energy_saving_information p) @
         enc_type2 obit (to_bits 6) (DLocationUpdateAccept_scch_information_and_distribution_on_18th_frame p) @
         enc_todo (DLocationUpdateAccept_new_registered_area p) @
         enc_type3_generic (MmType34ElemIdDl_into_raw MmType34ElemIdDl_SecurityDownlink) (DLocationUpdateAccept_security_downlink p) @
         enc_type3 (MmType34ElemIdDl_into_raw MmType34ElemIdDl_GroupIdentityLocationAccept) GroupIdentityLocationAccept_enc (DLocationUpdateAccept_group_identity_location_accept p) @
         enc_type3_generic (MmType34ElemIdDl_into_raw MmType34ElemIdDl_DefaultGroupAttachLifetime) (DLocationUpdateAccept_default_group_attachment_lifetime p) @
         enc_type3_generic (MmType34ElemIdDl_into_raw MmType34ElemIdDl_AuthenticationDownlink) (DLocationUpdateAccept_authentication_downlink p) @
         enc_todo (DLocationUpdateAccept_group_identity_security_related_information p) @
         enc_type3_generic (MmType34ElemIdDl_into_raw MmType34ElemIdDl_CellTypeControl) (DLocationUpdateAccept_cell_type_control p) @
         enc_type3_generic (MmType34ElemIdDl_into_raw MmType34ElemIdDl_Proprietary) (DLocationUpdateAccept_proprietary p) @
         (if obit then [False] else []))"

interpretation DLocationUpdateAccept: safe_codec DLocationUpdateAccept_wf DLocationUpdateAccept_enc DLocationUpdateAccept_to_bitbuf DLocationUpdateAccept_from_bitbuf
proof
  show "emits (DLocationUpdateAccept_to_bitbuf p) (DLocationUpdateAccept_enc p)" if "DLocationUpdateAccept_wf p" for p
    using that unfolding DLocationUpdateAccept_to_bitbuf_def DLocationUpdateAccept_enc_def DLocationUpdateAccept_wf_def Let_def append_assoc append_Cons append_Nil
    by (intro l3_emits) (simp_all add: l3_simps l3_codecs)
  show "parses DLocationUpdateAccept_from_bitbuf (DLocationUpdateAccept_enc p) p" if "DLocationUpdateAccept_wf p" for p
    unfolding DLocationUpdateAccept_from_bitbuf_def DLocationUpdateAccept_enc_def Let_def append_assoc append_Cons append_Nil
    by (rule parsesI) (intro parses_ret l3_parses, use that in \<open>simp_all add: DLocationUpdateAccept_wf_def l3_simps l3_codecs\<close>)
  show "safe DLocationUpdateAccept_from_bitbuf"
    unfolding DLocationUpdateAccept_from_bitbuf_def by (intro safe_intros)
qed

section \<open>DLocationUpdateProceeding\<close>

text \<open>\<open>tetra-pdus/src/mm/pdus/d_location_update_proceeding.rs\<close>.\<close>

record DLocationUpdateProceeding =
  DLocationUpdateProceeding_ssi :: u32
  DLocationUpdateProceeding_address_extension :: u32
  DLocationUpdateProceeding_proprietary :: "type3_field_generic option"

definition DLocationUpdateProceeding_from_bitbuf :: "DLocationUpdateProceeding bb" where
  "DLocationUpdateProceeding_from_bitbuf =
     bind (read_field 4 ''pdu_type'') (\<lambda>pdu_type.
     bind (expect_pdu_type pdu_type (MmPduTypeDl_into_raw MmPduTypeDl_DLocationUpdateProceeding)) (\<lambda>_.
     bind (read_field 24 ''ssi'') (\<lambda>ssi.
     bind (read_field 24 ''address_extension'') (\<lambda>address_extension.
     bind read_obit (\<lambda>obit.
     bind (parse_type3_generic obit (MmType34ElemIdDl_into_raw MmType34ElemIdDl_Proprietary)) (\<lambda>proprietary.
     bind (read_trailing_mbit obit) (\<lambda>_.
     ret \<lparr>DLocationUpdateProceeding_ssi = ucast ssi, DLocationUpdateProceeding_address_extension = ucast address_extension,
          DLocationUpdateProceeding_proprietary = proprietary\<rparr>)))))))"

definition DLocationUpdateProceeding_to_bitbuf :: "DLocationUpdateProceeding \<Rightarrow> unit bb" where
  "DLocationUpdateProceeding_to_bitbuf p =
     (let obit = DLocationUpdateProceeding_proprietary p \<noteq> None
      in seq
        [write_bits (MmPduTypeDl_into_raw MmPduTypeDl_DLocationUpdateProceeding) 4,
         write_bits (ucast (DLocationUpdateProceeding_ssi p)) 24,
         write_bits (ucast (DLocationUpdateProceeding_address_extension p)) 24,
         bind (write_obit (of_bool obit)) (\<lambda>_. if \<not> obit then ret () else seq
           [write_type3_generic obit (DLocationUpdateProceeding_proprietary p) (MmType34ElemIdDl_into_raw MmType34ElemIdDl_Proprietary),
            write_mbit 0])])"

definition DLocationUpdateProceeding_wf :: "DLocationUpdateProceeding \<Rightarrow> bool" where
  "DLocationUpdateProceeding_wf p \<longleftrightarrow>
     fits 24 (DLocationUpdateProceeding_ssi p) \<and>
     fits 24 (DLocationUpdateProceeding_address_extension p) \<and>
     pred_option (wf_type3_generic (MmType34ElemIdDl_into_raw MmType34ElemIdDl_Proprietary)) (DLocationUpdateProceeding_proprietary p)"

definition DLocationUpdateProceeding_enc :: "DLocationUpdateProceeding \<Rightarrow> bool list" where
  "DLocationUpdateProceeding_enc p =
     (let obit = DLocationUpdateProceeding_proprietary p \<noteq> None
      in to_bits 4 (MmPduTypeDl_into_raw MmPduTypeDl_DLocationUpdateProceeding :: u64) @ to_bits 24 (ucast (DLocationUpdateProceeding_ssi p) :: u64) @
         to_bits 24 (ucast (DLocationUpdateProceeding_address_extension p) :: u64) @ obit #
         enc_type3_generic (MmType34ElemIdDl_into_raw MmType34ElemIdDl_Proprietary) (DLocationUpdateProceeding_proprietary p) @
         (if obit then [False] else []))"

interpretation DLocationUpdateProceeding: safe_codec DLocationUpdateProceeding_wf DLocationUpdateProceeding_enc DLocationUpdateProceeding_to_bitbuf DLocationUpdateProceeding_from_bitbuf
proof
  show "emits (DLocationUpdateProceeding_to_bitbuf p) (DLocationUpdateProceeding_enc p)" if "DLocationUpdateProceeding_wf p" for p
    using that unfolding DLocationUpdateProceeding_to_bitbuf_def DLocationUpdateProceeding_enc_def DLocationUpdateProceeding_wf_def Let_def append_assoc append_Cons append_Nil
    by (intro l3_emits) (simp_all add: l3_simps l3_codecs)
  show "parses DLocationUpdateProceeding_from_bitbuf (DLocationUpdateProceeding_enc p) p" if "DLocationUpdateProceeding_wf p" for p
    unfolding DLocationUpdateProceeding_from_bitbuf_def DLocationUpdateProceeding_enc_def Let_def append_assoc append_Cons append_Nil
    by (rule parsesI) (intro parses_ret l3_parses, use that in \<open>simp_all add: DLocationUpdateProceeding_wf_def l3_simps l3_codecs\<close>)
  show "safe DLocationUpdateProceeding_from_bitbuf"
    unfolding DLocationUpdateProceeding_from_bitbuf_def by (intro safe_intros)
qed

end
