(* ===== verification/Mm_Pdus_Misc.thy ===== *)
theory Mm_Pdus_Misc
  imports Mm_Fields
begin

text \<open>
  The PDUs of mobility management whose codecs are not symmetric: D-LOCATION-UPDATE-REJECT and -COMMAND, whose readers stop at an
  \<open>unimplemented!()\<close>, D-MM-STATUS, of which two sub-PDUs are implemented, U-MM-STATUS, whose payload runs to the end of the buffer, and
  MM PDU/FUNCTION NOT SUPPORTED, whose optional part is written but not read.
\<close>

declare One_nat_def [simp del] split_of_bool [split del] split_of_bool_asm [split del]

section \<open>DLocationUpdateReject\<close>

record DLocationUpdateReject =
  DLocationUpdateReject_location_update_type :: LocationUpdateType
  DLocationUpdateReject_reject_cause :: u8
  DLocationUpdateReject_cipher_control :: bool
  DLocationUpdateReject_ciphering_parameters :: "u64 option"
  DLocationUpdateReject_address_extension :: "u64 option"
  DLocationUpdateReject_cell_type_control :: "type3_field_generic option"
  DLocationUpdateReject_proprietary :: "type3_field_generic option"

text \<open>What follows the \<open>unimplemented!()\<close> is never reached.\<close>

definition DLocationUpdateReject_from_bitbuf :: "DLocationUpdateReject bb" where
  "DLocationUpdateReject_from_bitbuf =
     bind (read_field 4 ''pdu_type'') (\<lambda>pdu_type.
     bind (expect_pdu_type pdu_type (MmPduTypeDl_into_raw MmPduTypeDl_DLocationUpdateReject)) (\<lambda>_.
     bind (read_enum_unwrap LocationUpdateType_try_from 3 ''location_update_type'') (\<lambda>location_update_type.
     bind (read_field 5 ''reject_cause'') (\<lambda>reject_cause.
     bind (read_field 1 ''cipher_control'') (\<lambda>cipher_control.
     panic)))))"

definition DLocationUpdateReject_to_bitbuf :: "DLocationUpdateReject \<Rightarrow> unit bb" where
  "DLocationUpdateReject_to_bitbuf p =
     (let obit = DLocationUpdateReject_address_extension p \<noteq> None \<or> DLocationUpdateReject_cell_type_control p \<noteq> None \<or>
          DLocationUpdateReject_proprietary p \<noteq> None
      in seq
        [write_bits (MmPduTypeDl_into_raw MmPduTypeDl_DLocationUpdateReject) 4,
         write_bits (LocationUpdateType_into_raw (DLocationUpdateReject_location_update_type p)) 3,
         write_bits (ucast (DLocationUpdateReject_reject_cause p)) 5,
         write_bits (of_bool (DLocationUpdateReject_cipher_control p)) 1,
         write_field_opt (DLocationUpdateReject_ciphering_parameters p) 10,
         bind (write_obit (of_bool obit)) (\<lambda>_. if \<not> obit then ret () else seq
           [write_type2_generic obit (DLocationUpdateReject_address_extension p) 24,
            write_type3_generic obit (DLocationUpdateReject_cell_type_control p) (MmType34ElemIdDl_into_raw MmType34ElemIdDl_CellTypeControl),
            write_type3_generic obit (DLocationUpdateReject_proprietary p) (MmType34ElemIdDl_into_raw MmType34ElemIdDl_Proprietary),
            write_mbit 0])])"

definition DLocationUpdateReject_wf :: "DLocationUpdateReject \<Rightarrow> bool" where
  "DLocationUpdateReject_wf p \<longleftrightarrow>
     fits 5 (DLocationUpdateReject_reject_cause p) \<and> pred_option (fits 10) (DLocationUpdateReject_ciphering_parameters p) \<and>
     pred_option (fits 24) (DLocationUpdateReject_address_extension p) \<and>
     pred_option (wf_type3_generic (MmType34ElemIdDl_into_raw MmType34ElemIdDl_CellTypeControl)) (DLocationUpdateReject_cell_type_control p) \<and>
     pred_option (wf_type3_generic (MmType34ElemIdDl_into_raw MmType34ElemIdDl_Proprietary)) (DLocationUpdateReject_proprietary p)"

definition DLocationUpdateReject_enc :: "DLocationUpdateReject \<Rightarrow> bool list" where
  "DLocationUpdateReject_enc p =
     (let obit = DLocationUpdateReject_address_extension p \<noteq> None \<or> DLocationUpdateReject_cell_type_control p \<noteq> None \<or>
          DLocationUpdateReject_proprietary p \<noteq> None
      in to_bits 4 (MmPduTypeDl_into_raw MmPduTypeDl_DLocationUpdateReject :: u64) @
         to_bits 3 (LocationUpdateType_into_raw (DLocationUpdateReject_location_update_type p) :: u64) @
         to_bits 5 (ucast (DLocationUpdateReject_reject_cause p) :: u64) @ to_bits 1 (of_bool (DLocationUpdateReject_cipher_control p) :: u64) @
         enc_opt 10 (DLocationUpdateReject_ciphering_parameters p) @ obit #
         enc_type2 obit (to_bits 24) (DLocationUpdateReject_address_extension p) @
         enc_type3_generic (MmType34ElemIdDl_into_raw MmType34ElemIdDl_CellTypeControl) (DLocationUpdateReject_cell_type_control p) @
         enc_type3_generic (MmType34ElemIdDl_into_raw MmType34ElemIdDl_Proprietary) (DLocationUpdateReject_proprietary p) @
         (if obit then [False] else []))"

lemma emits_DLocationUpdateReject: "DLocationUpdateReject_wf p \<Longrightarrow> emits (DLocationUpdateReject_to_bitbuf p) (DLocationUpdateReject_enc p)"
  unfolding DLocationUpdateReject_to_bitbuf_def DLocationUpdateReject_enc_def DLocationUpdateReject_wf_def Let_def append_assoc append_Cons append_Nil
  by (intro l3_emits) (simp_all add: l3_simps)

text \<open>A reader that fails with a panic after a prefix: composition with the rules for the prefix.\<close>

definition panics_on :: "'a bb \<Rightarrow> bool list \<Rightarrow> bool" where
  "panics_on m bs \<longleftrightarrow> (\<forall>b rest. bb_inv b \<longrightarrow> unread b = bs @ rest \<longrightarrow> m b = Panic)"

lemma panics_bind: "parses m xs a \<Longrightarrow> panics_on (f a) ys \<Longrightarrow> panics_on (bind m f) (xs @ ys)"
  unfolding panics_on_def
proof (intro allI impI)
  fix b rest assume p: "parses m xs a" and f: "\<forall>b rest. bb_inv b \<longrightarrow> unread b = ys @ rest \<longrightarrow> f a b = Panic"
    and b: "bb_inv b" "unread b = (xs @ ys) @ rest"
  let ?b = "b\<lparr>bb_pos := bb_pos b + length xs\<rparr>"
  have "m b = Ok (a, ?b)" using parsesD [OF p b(1), of "ys @ rest"] b(2) by simp
  moreover have "bb_inv ?b" "unread ?b = ys @ rest" using bb_inv_skip [OF b(1)] b(2) by simp_all
  ultimately show "bind m f b = Panic" using f by (simp add: bind_def)
qed

lemma panics_expect: "panics_on (f ()) ys \<Longrightarrow> panics_on (bind (expect_pdu_type v v) f) ys"
  by simp

lemma panics_panic: "panics_on panic ys"
  by (simp add: panics_on_def panic_def)

lemma DLocationUpdateReject_reader_panics:
  assumes "DLocationUpdateReject_wf p"
  shows "panics_on DLocationUpdateReject_from_bitbuf (DLocationUpdateReject_enc p)"
  unfolding DLocationUpdateReject_from_bitbuf_def DLocationUpdateReject_enc_def Let_def
  by (intro panics_bind [OF parses_field] panics_bind [OF LocationUpdateType.parses_unwrap] panics_expect panics_panic)
     (use assms in \<open>simp_all add: DLocationUpdateReject_wf_def\<close>)

section \<open>DLocationUpdateCommand\<close>

record DLocationUpdateCommand =
  DLocationUpdateCommand_group_identity_report :: bool
  DLocationUpdateCommand_cipher_control :: bool
  DLocationUpdateCommand_ciphering_parameters :: "u64 option"
  DLocationUpdateCommand_address_extension :: "u64 option"
  DLocationUpdateCommand_cell_type_control :: "u64 option"
  DLocationUpdateCommand_proprietary :: "u64 option"

definition DLocationUpdateCommand_from_bitbuf :: "DLocationUpdateCommand bb" where
  "DLocationUpdateCommand_from_bitbuf =
     bind (read_field 4 ''pdu_type'') (\<lambda>pdu_type.
     bind (expect_pdu_type pdu_type (MmPduTypeDl_into_raw MmPduTypeDl_DLocationUpdateCommand)) (\<lambda>_.
     bind (read_field 1 ''group_identity_report'') (\<lambda>group_identity_report.
     bind (read_field 1 ''cipher_control'') (\<lambda>cipher_control.
     panic))))"

definition DLocationUpdateCommand_to_bitbuf :: "DLocationUpdateCommand \<Rightarrow> unit bb" where
  "DLocationUpdateCommand_to_bitbuf p =
     (let obit = DLocationUpdateCommand_address_extension p \<noteq> None
      in seq
        [write_bits (MmPduTypeDl_into_raw MmPduTypeDl_DLocationUpdateCommand) 4,
         write_bits (of_bool (DLocationUpdateCommand_group_identity_report p)) 1,
         write_bits (of_bool (DLocationUpdateCommand_cipher_control p)) 1,
         write_field_opt (DLocationUpdateCommand_ciphering_parameters p) 10,
         bind (write_obit (of_bool obit)) (\<lambda>_. if \<not> obit then ret () else seq
           [write_type2_generic obit (DLocationUpdateCommand_address_extension p) 24,
            write_field_opt (DLocationUpdateCommand_cell_type_control p) 3,
            write_field_opt (DLocationUpdateCommand_proprietary p) 3,
            write_mbit 0])])"

text \<open>Without an address extension the two conditional fields are dropped without notice.\<close>

lemma DLocationUpdateCommand_drops_conditionals:
  "DLocationUpdateCommand_address_extension p = None \<Longrightarrow>
   DLocationUpdateCommand_to_bitbuf p =
   DLocationUpdateCommand_to_bitbuf (p\<lparr>DLocationUpdateCommand_cell_type_control := None, DLocationUpdateCommand_proprietary := None\<rparr>)"
  by (simp add: DLocationUpdateCommand_to_bitbuf_def)

lemma DLocationUpdateCommand_reader_panics:
  "panics_on DLocationUpdateCommand_from_bitbuf
     (to_bits 4 (MmPduTypeDl_into_raw MmPduTypeDl_DLocationUpdateCommand) @ to_bits 1 (of_bool r :: u64) @ to_bits 1 (of_bool c :: u64) @ ys)"
  unfolding DLocationUpdateCommand_from_bitbuf_def
  by (intro panics_bind [OF parses_field] panics_expect panics_panic) simp_all

section \<open>DMmStatus\<close>

record DMmStatus =
  DMmStatus_status_downlink :: StatusDownlink
  DMmStatus_energy_saving_information :: "EnergySavingInformation option"

definition DMmStatus_from_bitbuf :: "DMmStatus bb" where
  "DMmStatus_from_bitbuf =
     bind (read_field 4 ''pdu_type'') (\<lambda>pdu_type.
     bind (expect_pdu_type pdu_type (MmPduTypeDl_into_raw MmPduTypeDl_DMmStatus)) (\<lambda>_.
     bind (read_enum StatusDownlink_try_from 6 ''status_downlink'') (\<lambda>status_downlink.
     bind (if status_downlink = StatusDownlink_ChangeOfEnergySavingModeRequest \<or> status_downlink = StatusDownlink_ChangeOfEnergySavingModeResponse
           then bind EnergySavingInformation_from_bitbuf (\<lambda>v. ret (Some v))
           else panic) (\<lambda>energy_saving_information.
     ret \<lparr>DMmStatus_status_downlink = status_downlink, DMmStatus_energy_saving_information = energy_saving_information\<rparr>))))"

definition DMmStatus_to_bitbuf :: "DMmStatus \<Rightarrow> unit bb" where
  "DMmStatus_to_bitbuf p = seq
     [write_bits (MmPduTypeDl_into_raw MmPduTypeDl_DMmStatus) 4,
      write_bits (StatusDownlink_into_raw (DMmStatus_status_downlink p)) 6,
      (if DMmStatus_status_downlink p = StatusDownlink_ChangeOfEnergySavingModeRequest \<or>
          DMmStatus_status_downlink p = StatusDownlink_ChangeOfEnergySavingModeResponse
       then (case DMmStatus_energy_saving_information p of
               Some esi \<Rightarrow> EnergySavingInformation_to_bitbuf esi
             | None \<Rightarrow> fail (FieldNotPresent (Some ''energy_saving_information'')))
       else panic)]"

definition DMmStatus_wf :: "DMmStatus \<Rightarrow> bool" where
  "DMmStatus_wf p \<longleftrightarrow>
     (DMmStatus_status_downlink p = StatusDownlink_ChangeOfEnergySavingModeRequest \<or>
      DMmStatus_status_downlink p = StatusDownlink_ChangeOfEnergySavingModeResponse) \<and>
     DMmStatus_energy_saving_information p \<noteq> None \<and> pred_option EnergySavingInformation_wf (DMmStatus_energy_saving_information p)"

definition DMmStatus_enc :: "DMmStatus \<Rightarrow> bool list" where
  "DMmStatus_enc p =
     to_bits 4 (MmPduTypeDl_into_raw MmPduTypeDl_DMmStatus) @ to_bits 6 (StatusDownlink_into_raw (DMmStatus_status_downlink p)) @
     (case DMmStatus_energy_saving_information p of Some esi \<Rightarrow> EnergySavingInformation_enc esi | None \<Rightarrow> [])"

interpretation DMmStatus: codec DMmStatus_wf DMmStatus_enc DMmStatus_to_bitbuf DMmStatus_from_bitbuf
proof
  fix p assume wf: "DMmStatus_wf p"
  then obtain e where e: "DMmStatus_energy_saving_information p = Some e" "EnergySavingInformation_wf e" by (auto simp: DMmStatus_wf_def)
  show "emits (DMmStatus_to_bitbuf p) (DMmStatus_enc p)"
    unfolding DMmStatus_to_bitbuf_def DMmStatus_enc_def e(1) option.case
    by (intro emits_seq_Cons emits_seq_last emits_write_bits)
       (use wf e EnergySavingInformation.emits in \<open>simp_all add: DMmStatus_wf_def\<close>)
  have "parses_on (bind EnergySavingInformation_from_bitbuf (\<lambda>v. bind (ret (Some v)) (\<lambda>energy_saving_information.
     ret \<lparr>DMmStatus_status_downlink = DMmStatus_status_downlink p, DMmStatus_energy_saving_information = energy_saving_information\<rparr>)))
     (EnergySavingInformation_enc e) rest p" for rest
    by (rule EnergySavingInformation.parses_last) (use e in \<open>simp_all add: parses_ret\<close>)
  then show "parses DMmStatus_from_bitbuf (DMmStatus_enc p) p"
    unfolding DMmStatus_from_bitbuf_def DMmStatus_enc_def e(1) option.case
    by (intro parsesI parses_field_bind parses_expect StatusDownlink.raw_bind)
       (use wf in \<open>simp_all add: DMmStatus_wf_def bind_assoc\<close>)
qed

section \<open>UMmStatus\<close>

record UMmStatus =
  UMmStatus_status_uplink :: StatusUplink
  UMmStatus_status_uplink_dependent_information :: "u64 option"
  UMmStatus_status_uplink_dependent_information_len :: "nat option"

definition UMmStatus_from_bitbuf :: "UMmStatus bb" where
  "UMmStatus_from_bitbuf =
     bind (read_field 4 ''pdu_type'') (\<lambda>pdu_type.
     bind (expect_pdu_type pdu_type (MmPduTypeUl_into_raw MmPduTypeUl_UMmStatus)) (\<lambda>_.
     bind (read_enum StatusUplink_try_from 6 ''status_uplink'') (\<lambda>status_uplink.
     bind (gets get_len_remaining) (\<lambda>bits_left.
     bind (read_field_if (bits_left > 0) bits_left ''status_uplink_dependent_information'') (\<lambda>information.
     ret \<lparr>UMmStatus_status_uplink = status_uplink, UMmStatus_status_uplink_dependent_information = information,
          UMmStatus_status_uplink_dependent_information_len = (if bits_left > 0 then Some bits_left else None)\<rparr>)))))"

text \<open>The writer unwraps the length of a present payload.\<close>

definition UMmStatus_to_bitbuf :: "UMmStatus \<Rightarrow> unit bb" where
  "UMmStatus_to_bitbuf p = seq
     [write_bits (MmPduTypeUl_into_raw MmPduTypeUl_UMmStatus) 4,
      write_bits (StatusUplink_into_raw (UMmStatus_status_uplink p)) 6,
      (case UMmStatus_status_uplink_dependent_information p of
         Some v \<Rightarrow> (case UMmStatus_status_uplink_dependent_information_len p of Some n \<Rightarrow> write_bits v n | None \<Rightarrow> panic)
       | None \<Rightarrow> ret ())]"

definition UMmStatus_wf :: "UMmStatus \<Rightarrow> bool" where
  "UMmStatus_wf p \<longleftrightarrow>
     (case (UMmStatus_status_uplink_dependent_information p, UMmStatus_status_uplink_dependent_information_len p) of
        (None, None) \<Rightarrow> True
      | (Some v, Some n) \<Rightarrow> 0 < n \<and> n \<le> 64 \<and> fits n v
      | _ \<Rightarrow> False)"

definition UMmStatus_enc :: "UMmStatus \<Rightarrow> bool list" where
  "UMmStatus_enc p =
     to_bits 4 (MmPduTypeUl_into_raw MmPduTypeUl_UMmStatus) @ to_bits 6 (StatusUplink_into_raw (UMmStatus_status_uplink p)) @
     (case (UMmStatus_status_uplink_dependent_information p, UMmStatus_status_uplink_dependent_information_len p) of
        (Some v, Some n) \<Rightarrow> to_bits n v
      | _ \<Rightarrow> [])"

lemma emits_UMmStatus: "UMmStatus_wf p \<Longrightarrow> emits (UMmStatus_to_bitbuf p) (UMmStatus_enc p)"
  unfolding UMmStatus_to_bitbuf_def UMmStatus_enc_def
  by (intro emits_seq_Cons emits_seq_last emits_write_bits)
     (auto simp: UMmStatus_wf_def intro!: emits_write_bits emits_ret split: option.splits)

text \<open>The payload has no length field: the reader takes what is left of the buffer, so nothing may follow the PDU.\<close>

lemma parses_remaining:
  assumes "parses_on (f (length xs)) xs [] y"
  shows "parses_on (bind (gets get_len_remaining) f) xs [] y"
proof (rule parses_onI)
  fix b assume b: "bb_inv b" "unread b = xs @ []"
  then have "get_len_remaining b = length xs" using length_unread [OF b(1)] by simp
  then show "bind (gets get_len_remaining) f b = Ok (y, b\<lparr>bb_pos := bb_pos b + length xs\<rparr>)"
    using parses_onD [OF assms b] by (simp add: bind_def gets_def)
qed

lemma parses_UMmStatus:
  assumes "UMmStatus_wf p"
  shows "parses_on UMmStatus_from_bitbuf (UMmStatus_enc p) [] p"
  unfolding UMmStatus_from_bitbuf_def UMmStatus_enc_def
proof (intro parses_field_bind parses_expect StatusUplink.raw_bind parses_remaining)
  let ?xs = "case (UMmStatus_status_uplink_dependent_information p, UMmStatus_status_uplink_dependent_information_len p) of
        (Some v, Some n) \<Rightarrow> to_bits n v | _ \<Rightarrow> []"
  have "?xs = enc_opt (length ?xs) (UMmStatus_status_uplink_dependent_information p)"
    using assms by (auto simp: UMmStatus_wf_def enc_opt_def split: option.splits)
  moreover have "parses_on (bind (read_field_if (length ?xs > 0) (length ?xs) ''status_uplink_dependent_information'') (\<lambda>information.
     ret \<lparr>UMmStatus_status_uplink = UMmStatus_status_uplink p, UMmStatus_status_uplink_dependent_information = information,
          UMmStatus_status_uplink_dependent_information_len = (if length ?xs > 0 then Some (length ?xs) else None)\<rparr>))
     (enc_opt (length ?xs) (UMmStatus_status_uplink_dependent_information p)) [] p"
    by (rule parses_field_if_last)
       (use assms in \<open>auto simp: UMmStatus_wf_def to_bits_def intro!: parses_ret UMmStatus.equality split: option.splits\<close>)
  ultimately show "parses_on (bind (read_field_if (length ?xs > 0) (length ?xs) ''status_uplink_dependent_information'') (\<lambda>information.
     ret \<lparr>UMmStatus_status_uplink = UMmStatus_status_uplink p, UMmStatus_status_uplink_dependent_information = information,
          UMmStatus_status_uplink_dependent_information_len = (if length ?xs > 0 then Some (length ?xs) else None)\<rparr>)) ?xs [] p"
    by simp
qed simp_all

lemma safe_gets_bind: "(\<And>v. safe (f v)) \<Longrightarrow> safe (bind (gets g) f)"
  by (auto simp: safe_def bind_def gets_def)

lemma safe_UMmStatus: "safe UMmStatus_from_bitbuf"
  unfolding UMmStatus_from_bitbuf_def by (intro safe_bind safe_gets_bind safe_intros)

section \<open>MmPduFunctionNotSupported\<close>

record MmPduFunctionNotSupported =
  MmPduFunctionNotSupported_not_supported_pdu_type :: u8
  MmPduFunctionNotSupported_not_supported_sub_pdu_type :: "(nat \<times> u64) option"

definition MmPduFunctionNotSupported_from_bitbuf :: "MmPduFunctionNotSupported bb" where
  "MmPduFunctionNotSupported_from_bitbuf =
     bind (read_field 4 ''pdu_type'') (\<lambda>pdu_type.
     bind (expect_pdu_type pdu_type (MmPduTypeDl_into_raw MmPduTypeDl_MmPduFunctionNotSupported)) (\<lambda>_.
     bind (read_field 4 ''not_supported_pdu_type'') (\<lambda>not_supported_pdu_type.
     bind read_obit (\<lambda>obit.
     if \<not> obit
     then ret \<lparr>MmPduFunctionNotSupported_not_supported_pdu_type = ucast not_supported_pdu_type,
               MmPduFunctionNotSupported_not_supported_sub_pdu_type = None\<rparr>
     else fail (NotImplemented (Some ''MmPduFunctionNotSupported''))))))"

definition MmPduFunctionNotSupported_to_bitbuf :: "MmPduFunctionNotSupported \<Rightarrow> unit bb" where
  "MmPduFunctionNotSupported_to_bitbuf p =
     (let obit = MmPduFunctionNotSupported_not_supported_sub_pdu_type p \<noteq> None
      in seq
        [write_bits (MmPduTypeDl_into_raw MmPduTypeDl_MmPduFunctionNotSupported) 4,
         write_bits (ucast (MmPduFunctionNotSupported_not_supported_pdu_type p)) 4,
         bind (write_obit (of_bool obit)) (\<lambda>_. if \<not> obit then ret () else
           case MmPduFunctionNotSupported_not_supported_sub_pdu_type p of
             Some (len, val) \<Rightarrow> seq [write_type2_generic obit (Some val) len, write_mbit 0]
           | None \<Rightarrow> panic)])"

definition MmPduFunctionNotSupported_wf :: "MmPduFunctionNotSupported \<Rightarrow> bool" where
  "MmPduFunctionNotSupported_wf p \<longleftrightarrow> fits 4 (MmPduFunctionNotSupported_not_supported_pdu_type p) \<and>
     MmPduFunctionNotSupported_not_supported_sub_pdu_type p = None"

definition MmPduFunctionNotSupported_enc :: "MmPduFunctionNotSupported \<Rightarrow> bool list" where
  "MmPduFunctionNotSupported_enc p =
     to_bits 4 (MmPduTypeDl_into_raw MmPduTypeDl_MmPduFunctionNotSupported) @
     to_bits 4 (ucast (MmPduFunctionNotSupported_not_supported_pdu_type p) :: u64) @ [False]"

lemma emits_no_obit: "emits (bind (write_obit 0) (\<lambda>_. ret ())) [False]"
  using emits_optional [of False "[]" "[]"] by simp

interpretation MmPduFunctionNotSupported: safe_codec MmPduFunctionNotSupported_wf MmPduFunctionNotSupported_enc
  MmPduFunctionNotSupported_to_bitbuf MmPduFunctionNotSupported_from_bitbuf
proof
  show "emits (MmPduFunctionNotSupported_to_bitbuf p) (MmPduFunctionNotSupported_enc p)" if "MmPduFunctionNotSupported_wf p" for p
    unfolding MmPduFunctionNotSupported_to_bitbuf_def MmPduFunctionNotSupported_enc_def Let_def
    by (intro emits_seq_Cons emits_seq_last emits_write_bits)
       (use that emits_no_obit in \<open>simp_all add: MmPduFunctionNotSupported_wf_def\<close>)
  show "parses MmPduFunctionNotSupported_from_bitbuf (MmPduFunctionNotSupported_enc p) p" if "MmPduFunctionNotSupported_wf p" for p
    unfolding MmPduFunctionNotSupported_from_bitbuf_def MmPduFunctionNotSupported_enc_def
    by (intro parsesI parses_field_bind parses_expect parses_delimiter_bind)
       (use that in \<open>auto simp: MmPduFunctionNotSupported_wf_def intro!: parses_ret\<close>)
  show "safe MmPduFunctionNotSupported_from_bitbuf"
    unfolding MmPduFunctionNotSupported_from_bitbuf_def by (intro safe_intros)
qed

end
