(* ===== verification/Cmce_Fields.thy ===== *)
theory Cmce_Fields
  imports L3_Enums
begin

text \<open>
  The structured elements of the circuit mode control PDUs: the basic service information
  (\<open>tetra-pdus/src/cmce/fields/basic_service_information.rs\<close>) and the pre-coded status with the SDS short report inside it
  (\<open>cmce/enums/pre_coded_status.rs\<close>, \<open>cmce/fields/sds_short_report.rs\<close>).
\<close>

unbundle bit_operations_syntax

declare One_nat_def [simp del] split_of_bool [split del] split_of_bool_asm [split del]

section \<open>Basic service information\<close>

record BasicServiceInformation =
  BasicServiceInformation_circuit_mode_type :: CircuitModeType
  BasicServiceInformation_encryption_flag :: bool
  BasicServiceInformation_communication_type :: CommunicationType
  BasicServiceInformation_slots_per_frame :: "u8 option"
  BasicServiceInformation_speech_service :: "u8 option"

definition BasicServiceInformation_from_bitbuf :: "BasicServiceInformation bb" where
  "BasicServiceInformation_from_bitbuf =
     bind (read_enum_unwrap CircuitModeType_try_from 3 ''circuit_mode_type'') (\<lambda>circuit_mode_type.
     bind (read_field 1 ''encryption_flag'') (\<lambda>encryption_flag.
     bind (read_enum_unwrap CommunicationType_try_from 2 ''communication_type'') (\<lambda>communication_type.
     bind (if circuit_mode_type = CircuitModeType_TchS
           then bind (read_field 2 ''speech_service'') (\<lambda>v. ret (Some (ucast v), None))
           else bind (read_field 2 ''slots_per_frame'') (\<lambda>v. ret (None, Some (ucast v)))) (\<lambda>(speech_service, slots_per_frame).
     ret \<lparr>BasicServiceInformation_circuit_mode_type = circuit_mode_type, BasicServiceInformation_encryption_flag = encryption_flag \<noteq> 0,
          BasicServiceInformation_communication_type = communication_type, BasicServiceInformation_slots_per_frame = slots_per_frame,
          BasicServiceInformation_speech_service = speech_service\<rparr>))))"

text \<open>The writer's check, and then whichever of the two fields is there.\<close>

definition BasicServiceInformation_check :: "BasicServiceInformation \<Rightarrow> unit bb" where
  "BasicServiceInformation_check p =
     (case (BasicServiceInformation_circuit_mode_type p, BasicServiceInformation_slots_per_frame p, BasicServiceInformation_speech_service p) of
        (CircuitModeType_TchS, None, Some _) \<Rightarrow> ret ()
      | (_, Some _, None) \<Rightarrow> ret ()
      | (m, _, _) \<Rightarrow> fail (InvalidValue ''circuit_mode_type'' (CircuitModeType_into_raw m)))"

definition BasicServiceInformation_to_bitbuf :: "BasicServiceInformation \<Rightarrow> unit bb" where
  "BasicServiceInformation_to_bitbuf p = seq
     [write_bits (CircuitModeType_into_raw (BasicServiceInformation_circuit_mode_type p)) 3,
      write_bits (of_bool (BasicServiceInformation_encryption_flag p)) 1,
      write_bits (CommunicationType_into_raw (BasicServiceInformation_communication_type p)) 2,
      BasicServiceInformation_check p,
      write_field_opt (map_option ucast (BasicServiceInformation_slots_per_frame p)) 2,
      write_field_opt (map_option ucast (BasicServiceInformation_speech_service p)) 2]"

definition BasicServiceInformation_wf :: "BasicServiceInformation \<Rightarrow> bool" where
  "BasicServiceInformation_wf p \<longleftrightarrow>
     (case (BasicServiceInformation_slots_per_frame p, BasicServiceInformation_speech_service p) of
        (None, Some s) \<Rightarrow> BasicServiceInformation_circuit_mode_type p = CircuitModeType_TchS \<and> fits 2 s
      | (Some n, None) \<Rightarrow> BasicServiceInformation_circuit_mode_type p \<noteq> CircuitModeType_TchS \<and> fits 2 n
      | _ \<Rightarrow> False)"

definition BasicServiceInformation_enc :: "BasicServiceInformation \<Rightarrow> bool list" where
  "BasicServiceInformation_enc p =
     to_bits 3 (CircuitModeType_into_raw (BasicServiceInformation_circuit_mode_type p)) @
     to_bits 1 (of_bool (BasicServiceInformation_encryption_flag p) :: u64) @
     to_bits 2 (CommunicationType_into_raw (BasicServiceInformation_communication_type p)) @
     to_bits 2 (case BasicServiceInformation_slots_per_frame p of Some n \<Rightarrow> (ucast n :: u64)
                | None \<Rightarrow> (case BasicServiceInformation_speech_service p of Some s \<Rightarrow> ucast s | None \<Rightarrow> 0))"

text \<open>The check accepts a speech circuit that carries a slot count: \<open>BasicServiceInformation_wf\<close> excludes it.\<close>

lemma BasicServiceInformation_check_ok:
  "BasicServiceInformation_check p = ret () \<longleftrightarrow>
     (if BasicServiceInformation_speech_service p = None then BasicServiceInformation_slots_per_frame p \<noteq> None
      else BasicServiceInformation_slots_per_frame p = None \<and> BasicServiceInformation_circuit_mode_type p = CircuitModeType_TchS)"
  by (cases "BasicServiceInformation_circuit_mode_type p")
     (auto simp: BasicServiceInformation_check_def ret_def fail_def fun_eq_iff split: option.splits)

lemma emits_BasicServiceInformation:
  assumes "BasicServiceInformation_wf p"
  shows "emits (BasicServiceInformation_to_bitbuf p) (BasicServiceInformation_enc p)"
proof -
  have "BasicServiceInformation_check p = ret ()"
    unfolding BasicServiceInformation_check_ok using assms by (auto simp: BasicServiceInformation_wf_def split: option.splits)
  then have *: "BasicServiceInformation_to_bitbuf p = seq
     [write_bits (CircuitModeType_into_raw (BasicServiceInformation_circuit_mode_type p)) 3,
      write_bits (of_bool (BasicServiceInformation_encryption_flag p)) 1,
      write_bits (CommunicationType_into_raw (BasicServiceInformation_communication_type p)) 2,
      write_bits (case BasicServiceInformation_slots_per_frame p of Some n \<Rightarrow> (ucast n :: u64)
                | None \<Rightarrow> (case BasicServiceInformation_speech_service p of Some s \<Rightarrow> ucast s | None \<Rightarrow> 0)) 2]"
    using assms by (auto simp: BasicServiceInformation_to_bitbuf_def BasicServiceInformation_wf_def write_field_opt_def split: option.splits)
  show ?thesis
    unfolding * BasicServiceInformation_enc_def
    by (intro l3_emits) (use assms in \<open>auto simp: BasicServiceInformation_wf_def split: option.splits\<close>)
qed

interpretation BasicServiceInformation: safe_codec BasicServiceInformation_wf BasicServiceInformation_enc
  BasicServiceInformation_to_bitbuf BasicServiceInformation_from_bitbuf
proof
  show "emits (BasicServiceInformation_to_bitbuf p) (BasicServiceInformation_enc p)" if "BasicServiceInformation_wf p" for p
    using that by (rule emits_BasicServiceInformation)
  show "parses BasicServiceInformation_from_bitbuf (BasicServiceInformation_enc p) p" if "BasicServiceInformation_wf p" for p
    unfolding BasicServiceInformation_from_bitbuf_def BasicServiceInformation_enc_def if_distrib [of "\<lambda>m. bind m f" for f] bind_assoc bind_ret prod.case
    by (rule parsesI) (intro CircuitModeType.enum_bind CommunicationType.enum_bind parses_field_bind,
        use that in \<open>auto simp: BasicServiceInformation_wf_def intro!: parses_field_last parses_ret split: option.splits\<close>)
  show "safe BasicServiceInformation_from_bitbuf"
    unfolding BasicServiceInformation_from_bitbuf_def case_prod_unfold by (intro safe_intros)
qed

lemma length_BasicServiceInformation_enc [simp]: "length (BasicServiceInformation_enc p) = 8"
  by (simp add: BasicServiceInformation_enc_def)

lemmas BasicServiceInformation_codec [l3_codecs] = BasicServiceInformation.emits BasicServiceInformation.parses

declare BasicServiceInformation.safe [safe_intros] BasicServiceInformation.emits [l3_emits] BasicServiceInformation.parses_first [l3_parses]

section \<open>Pre-coded status\<close>

record SdsShortReport =
  SdsShortReport_short_report_type :: ShortReportType
  SdsShortReport_message_reference :: u8

definition SdsShortReport_from_u16 :: "u16 \<Rightarrow> (pdu_parse_err, SdsShortReport) outcome" where
  "SdsShortReport_from_u16 val =
     (if drop_bit 10 val \<noteq> 0b011111 then Err (InvalidValue ''pdu_type'' (ucast (drop_bit 10 val)))
      else case ShortReportType_try_from (ucast (drop_bit 8 val AND 0x3)) of
        None \<Rightarrow> Err (InvalidValue ''short_report_type'' (ucast (drop_bit 8 val AND 0x3)))
      | Some t \<Rightarrow> Ok \<lparr>SdsShortReport_short_report_type = t, SdsShortReport_message_reference = ucast (val AND 0xFF)\<rparr>)"

definition SdsShortReport_to_u16 :: "SdsShortReport \<Rightarrow> (pdu_parse_err, u16) outcome" where
  "SdsShortReport_to_u16 p =
     (if ShortReportType_into_raw (SdsShortReport_short_report_type p) \<le> 0b11
      then Ok (push_bit 10 0b011111 OR push_bit 8 (ucast (ShortReportType_into_raw (SdsShortReport_short_report_type p))) OR
               (ucast (SdsShortReport_message_reference p) AND 0xFF))
      else Panic)"

datatype PreCodedStatus =
    PreCodedStatus_Emergency
  | PreCodedStatus_Reserved u16
  | PreCodedStatus_SdsTl SdsShortReport
  | PreCodedStatus_NetworkUserSpecific u16

definition PreCodedStatus_from :: "u16 \<Rightarrow> PreCodedStatus" where
  "PreCodedStatus_from x =
     (if x = 0 then PreCodedStatus_Emergency
      else if x \<le> 31743 then PreCodedStatus_Reserved x
      else if x \<le> 32767 then
        (case SdsShortReport_from_u16 x of Ok report \<Rightarrow> PreCodedStatus_SdsTl report | _ \<Rightarrow> PreCodedStatus_Reserved x)
      else PreCodedStatus_NetworkUserSpecific x)"

primrec PreCodedStatus_into_raw :: "PreCodedStatus \<Rightarrow> (pdu_parse_err, u16) outcome" where
  "PreCodedStatus_into_raw PreCodedStatus_Emergency = Ok 0"
| "PreCodedStatus_into_raw (PreCodedStatus_Reserved x) = Ok x"
| "PreCodedStatus_into_raw (PreCodedStatus_SdsTl x) = SdsShortReport_to_u16 x"
| "PreCodedStatus_into_raw (PreCodedStatus_NetworkUserSpecific x) = Ok x"

text \<open>Every value of the field is the code of what it decodes to, and the range of the short reports holds only short reports.\<close>

lemma short_report_range: "31744 \<le> x \<Longrightarrow> x \<le> 32767 \<Longrightarrow> drop_bit 10 x = 31" for x :: u16
proof -
  assume "31744 \<le> x" "x \<le> 32767"
  then have "31744 \<le> unat x" "unat x \<le> 32767" by (simp_all add: word_le_nat_alt)
  then have "unat x div 2 ^ 10 = 31" by auto
  then have "unat (drop_bit 10 x) = 31" by (simp add: drop_bit_eq_div unat_div)
  then show ?thesis by (simp add: word_unat_eq_iff)
qed

lemma raw_two_bits: "ShortReportType_try_from (ucast (v AND 3 :: u16)) \<noteq> None"
proof (rule ShortReportType_total)
  have m: "(3 :: u16) = mask 2" by (simp add: mask_eq_exp_minus_1)
  show "fits 2 (ucast (v AND 3) :: u64)" unfolding m fits_iff bit_unsigned_iff bit_and_iff bit_mask_iff by simp
qed

lemma short_report_parts:
  assumes "drop_bit 10 x = 31"
  shows "push_bit 10 31 OR push_bit 8 (drop_bit 8 x AND 3) OR (x AND 0xFF) = (x :: u16)"
proof (rule bit_word_eqI)
  fix k assume "k < LENGTH(16)"
  have m: "(31 :: u16) = mask 5" "(3 :: u16) = mask 2" "(255 :: u16) = mask 8" by (simp_all add: mask_eq_exp_minus_1)
  show "bit (push_bit 10 31 OR push_bit 8 (drop_bit 8 x AND 3) OR (x AND 0xFF)) k = bit x k"
  proof (cases "10 \<le> k")
    case True
    have "bit (drop_bit 10 x) (k - 10) = bit x k" using True by (simp only: bit_drop_bit_eq comp_apply le_add_diff_inverse)
    then have "bit x k = bit (31 :: u16) (k - 10)" unfolding assms by (rule sym)
    with True \<open>k < LENGTH(16)\<close> show ?thesis
      unfolding m bit_or_iff bit_push_bit_iff bit_and_iff bit_mask_iff by auto
  next
    case False
    then show ?thesis
      unfolding m bit_or_iff bit_push_bit_iff bit_and_iff bit_mask_iff bit_drop_bit_eq using \<open>k < LENGTH(16)\<close> by auto
  qed
qed

lemma SdsShortReport_roundtrip:
  assumes "SdsShortReport_from_u16 x = Ok r"
  shows "SdsShortReport_to_u16 r = Ok x"
proof -
  from assms obtain t where top: "drop_bit 10 x = 31" and t: "ShortReportType_try_from (ucast (drop_bit 8 x AND 3)) = Some t"
    and r: "r = \<lparr>SdsShortReport_short_report_type = t, SdsShortReport_message_reference = ucast (x AND 0xFF)\<rparr>"
    by (auto simp: SdsShortReport_from_u16_def split: if_splits option.splits)
  have raw: "ShortReportType_into_raw t = ucast (drop_bit 8 x AND 3)" using ShortReportType.raw_try_from [OF t] by simp
  have "ShortReportType_into_raw t \<le> 3" by (cases t) simp_all
  moreover have m: "(255 :: u16) = mask 8" by (simp add: mask_eq_exp_minus_1)
  have "ucast (ucast (x AND 0xFF) :: u8) AND 0xFF = x AND (0xFF :: u16)"
    unfolding m by (rule bit_word_eqI) (unfold bit_unsigned_iff bit_and_iff bit_mask_iff, auto)
  ultimately show ?thesis
    using short_report_parts [OF top] by (simp add: SdsShortReport_to_u16_def r raw)
qed

lemma PreCodedStatus_raw_from: "PreCodedStatus_into_raw (PreCodedStatus_from x) = Ok x"
proof (cases "31743 < x \<and> x \<le> 32767")
  case True
  then have "31744 \<le> x" by (simp add: word_less_nat_alt word_le_nat_alt)
  with True have "drop_bit 10 x = 31" by (intro short_report_range) simp_all
  then obtain r where r: "SdsShortReport_from_u16 x = Ok r"
    using raw_two_bits [of "drop_bit 8 x"] by (auto simp: SdsShortReport_from_u16_def)
  from True have "x \<noteq> 0" "\<not> x \<le> 31743" by auto
  with True r SdsShortReport_roundtrip [OF r] show ?thesis by (simp add: PreCodedStatus_from_def)
next
  case False
  then show ?thesis by (auto simp: PreCodedStatus_from_def)
qed

text \<open>The reader of the 16-bit field, and the writer.\<close>

definition read_pre_coded_status :: "PreCodedStatus bb" where
  "read_pre_coded_status = bind (read_field 16 ''pre_coded_status'') (\<lambda>val. ret (PreCodedStatus_from (ucast val)))"

definition write_pre_coded_status :: "PreCodedStatus \<Rightarrow> unit bb" where
  "write_pre_coded_status p = (case PreCodedStatus_into_raw p of Ok v \<Rightarrow> write_bits (ucast v) 16 | Err e \<Rightarrow> fail e | Panic \<Rightarrow> panic)"

text \<open>The statuses that are read: those that are the decoding of their code.\<close>

definition PreCodedStatus_wf :: "PreCodedStatus \<Rightarrow> bool" where
  "PreCodedStatus_wf p \<longleftrightarrow> (\<exists>x. p = PreCodedStatus_from x)"

definition PreCodedStatus_enc :: "PreCodedStatus \<Rightarrow> bool list" where
  "PreCodedStatus_enc p = (case PreCodedStatus_into_raw p of Ok v \<Rightarrow> to_bits 16 (ucast v :: u64) | _ \<Rightarrow> [])"

interpretation PreCodedStatus: safe_codec PreCodedStatus_wf PreCodedStatus_enc write_pre_coded_status read_pre_coded_status
proof
  show "emits (write_pre_coded_status p) (PreCodedStatus_enc p)" if "PreCodedStatus_wf p" for p
    using that by (auto simp: PreCodedStatus_wf_def write_pre_coded_status_def PreCodedStatus_enc_def PreCodedStatus_raw_from intro!: emits_write_bits)
  show "parses read_pre_coded_status (PreCodedStatus_enc p) p" if "PreCodedStatus_wf p" for p
    using that unfolding read_pre_coded_status_def
    by (auto simp: PreCodedStatus_wf_def PreCodedStatus_enc_def PreCodedStatus_raw_from intro!: parsesI parses_field_last parses_ret)
  show "safe read_pre_coded_status"
    unfolding read_pre_coded_status_def by (intro safe_intros)
qed

declare PreCodedStatus.safe [safe_intros] PreCodedStatus.emits [l3_emits] PreCodedStatus.parses_first [l3_parses]

end
