(* ===== verification/Cmce_Pdus_Ul.thy ===== *)
theory Cmce_Pdus_Ul
  imports Cmce_Fields
begin

text \<open>
  The uplink PDUs of circuit mode control (\<open>tetra-pdus/src/cmce/pdus/u_*.rs\<close>): set-up, release, floor control and status messages of a
  terminal.
\<close>

unbundle bit_operations_syntax

declare One_nat_def [simp del] split_of_bool [split del] split_of_bool_asm [split del]

section \<open>UAlert\<close>

text \<open>\<open>tetra-pdus/src/cmce/pdus/u_alert.rs\<close>.\<close>

record UAlert =
  UAlert_call_identifier :: u16
  UAlert_reserved :: bool
  UAlert_simplex_duplex_selection :: bool
  UAlert_basic_service_information :: "BasicServiceInformation option"
  UAlert_facility :: "type3_field_generic option"
  UAlert_proprietary :: "type3_field_generic option"

definition UAlert_from_bitbuf :: "UAlert bb" where
  "UAlert_from_bitbuf =
     bind (read_field 5 ''pdu_type'') (\<lambda>pdu_type.
     bind (expect_pdu_type pdu_type (CmcePduTypeUl_into_raw CmcePduTypeUl_UAlert)) (\<lambda>_.
     bind (read_field 14 ''call_identifier'') (\<lambda>call_identifier.
     bind (read_field 1 ''reserved'') (\<lambda>reserved.
     bind (read_field 1 ''simplex_duplex_selection'') (\<lambda>simplex_duplex_selection.
     bind read_obit (\<lambda>obit.
     bind (parse_type2_struct obit BasicServiceInformation_from_bitbuf) (\<lambda>basic_service_information.
     bind (parse_type3_generic obit (CmceType3ElemId_into_raw CmceType3ElemId_Facility)) (\<lambda>facility.
     bind (parse_type3_generic obit (CmceType3ElemId_into_raw CmceType3ElemId_Proprietary)) (\<lambda>proprietary.
     bind (read_trailing_mbit obit) (\<lambda>_.
     ret \<lparr>UAlert_call_identifier = ucast call_identifier, UAlert_reserved = reserved \<noteq> 0,
          UAlert_simplex_duplex_selection = simplex_duplex_selection \<noteq> 0, UAlert_basic_service_information = basic_service_information,
          UAlert_facility = facility, UAlert_proprietary = proprietary\<rparr>))))))))))"

definition UAlert_to_bitbuf :: "UAlert \<Rightarrow> unit bb" where
  "UAlert_to_bitbuf p =
     (let obit = UAlert_basic_service_information p \<noteq> None \<or> UAlert_facility p \<noteq> None \<or> UAlert_proprietary p \<noteq> None
      in seq
        [write_bits (CmcePduTypeUl_into_raw CmcePduTypeUl_UAlert) 5,
         write_bits (ucast (UAlert_call_identifier p)) 14,
         write_bits (of_bool (UAlert_reserved p)) 1,
         write_bits (of_bool (UAlert_simplex_duplex_selection p)) 1,
         bind (write_obit (of_bool obit)) (\<lambda>_. if \<not> obit then ret () else seq
           [write_type2_struct obit (UAlert_basic_service_information p) BasicServiceInformation_to_bitbuf,
            write_type3_generic obit (UAlert_facility p) (CmceType3ElemId_into_raw CmceType3ElemId_Facility),
            write_type3_generic obit (UAlert_proprietary p) (CmceType3ElemId_into_raw CmceType3ElemId_Proprietary),
            write_mbit 0])])"

definition UAlert_wf :: "UAlert \<Rightarrow> bool" where
  "UAlert_wf p \<longleftrightarrow>
     fits 14 (UAlert_call_identifier p) \<and>
     pred_option BasicServiceInformation_wf (UAlert_basic_service_information p) \<and>
     pred_option (wf_type3_generic (CmceType3ElemId_into_raw CmceType3ElemId_Facility)) (UAlert_facility p) \<and>
     pred_option (wf_type3_generic (CmceType3ElemId_into_raw CmceType3ElemId_Proprietary)) (UAlert_proprietary p)"

definition UAlert_enc :: "UAlert \<Rightarrow> bool list" where
  "UAlert_enc p =
     (let obit = UAlert_basic_service_information p \<noteq> None \<or> UAlert_facility p \<noteq> None \<or> UAlert_proprietary p \<noteq> None
      in to_bits 5 (CmcePduTypeUl_into_raw CmcePduTypeUl_UAlert :: u64) @ to_bits 14 (ucast (UAlert_call_identifier p) :: u64) @
         to_bits 1 (of_bool (UAlert_reserved p) :: u64) @ to_bits 1 (of_bool (UAlert_simplex_duplex_selection p) :: u64) @ obit #
         enc_type2 obit BasicServiceInformation_enc (UAlert_basic_service_information p) @
         enc_type3_generic (CmceType3ElemId_into_raw CmceType3ElemId_Facility) (UAlert_facility p) @
         enc_type3_generic (CmceType3ElemId_into_raw CmceType3ElemId_Proprietary) (UAlert_proprietary p) @ (if obit then [False] else []))"

interpretation UAlert: safe_codec UAlert_wf UAlert_enc UAlert_to_bitbuf UAlert_from_bitbuf
proof
  show "emits (UAlert_to_bitbuf p) (UAlert_enc p)" if "UAlert_wf p" for p
    using that unfolding UAlert_to_bitbuf_def UAlert_enc_def UAlert_wf_def Let_def append_assoc append_Cons append_Nil
    by (intro l3_emits) (simp_all add: l3_simps l3_codecs)
  show "parses UAlert_from_bitbuf (UAlert_enc p) p" if "UAlert_wf p" for p
    unfolding UAlert_from_bitbuf_def UAlert_enc_def Let_def append_assoc append_Cons append_Nil
    by (rule parsesI) (intro parses_ret l3_parses, use that in \<open>simp_all add: UAlert_wf_def l3_simps l3_codecs\<close>)
  show "safe UAlert_from_bitbuf"
    unfolding UAlert_from_bitbuf_def by (intro safe_intros)
qed

section \<open>UCallRestore\<close>

text \<open>\<open>tetra-pdus/src/cmce/pdus/u_call_restore.rs\<close>.\<close>

record UCallRestore =
  UCallRestore_call_identifier :: u16
  UCallRestore_request_to_transmit_send_data :: bool
  UCallRestore_other_party_type_identifier :: u8
  UCallRestore_other_party_short_number_address :: "u64 option"
  UCallRestore_other_party_ssi :: "u64 option"
  UCallRestore_other_party_extension :: "u64 option"
  UCallRestore_basic_service_information :: "BasicServiceInformation option"
  UCallRestore_facility :: "type3_field_generic option"
  UCallRestore_dm_ms_address :: "type3_field_generic option"
  UCallRestore_proprietary :: "type3_field_generic option"

definition UCallRestore_from_bitbuf :: "UCallRestore bb" where
  "UCallRestore_from_bitbuf =
     bind (read_field 5 ''pdu_type'') (\<lambda>pdu_type.
     bind (expect_pdu_type pdu_type (CmcePduTypeUl_into_raw CmcePduTypeUl_UCallRestore)) (\<lambda>_.
     bind (read_field 14 ''call_identifier'') (\<lambda>call_identifier.
     bind (read_field 1 ''request_to_transmit_send_data'') (\<lambda>request_to_transmit_send_data.
     bind (read_field 2 ''other_party_type_identifier'') (\<lambda>other_party_type_identifier.
     bind (read_field_if ((ucast other_party_type_identifier :: u8) = 0) 8 ''other_party_short_number_address'') (\<lambda>other_party_short_number_address.
     bind (read_field_if ((ucast other_party_type_identifier :: u8) = 1 \<or> (ucast other_party_type_identifier :: u8) = 2) 24 ''other_party_ssi'') (\<lambda>other_party_ssi.
     bind (read_field_if ((ucast other_party_type_identifier :: u8) = 2) 24 ''other_party_extension'') (\<lambda>other_party_extension.
     bind read_obit (\<lambda>obit.
     bind (parse_type2_struct obit BasicServiceInformation_from_bitbuf) (\<lambda>basic_service_information.
     bind (parse_type3_generic obit (CmceType3ElemId_into_raw CmceType3ElemId_Facility)) (\<lambda>facility.
     bind (parse_type3_generic obit (CmceType3ElemId_into_raw CmceType3ElemId_DmMsAddr)) (\<lambda>dm_ms_address.
     bind (parse_type3_generic obit (CmceType3ElemId_into_raw CmceType3ElemId_Proprietary)) (\<lambda>proprietary.
     bind (read_trailing_mbit obit) (\<lambda>_.
     ret \<lparr>UCallRestore_call_identifier = ucast call_identifier, UCallRestore_request_to_transmit_send_data = request_to_transmit_send_data \<noteq> 0,
          UCallRestore_other_party_type_identifier = ucast other_party_type_identifier,
          UCallRestore_other_party_short_number_address = other_party_short_number_address, UCallRestore_other_party_ssi = other_party_ssi,
          UCallRestore_other_party_extension = other_party_extension, UCallRestore_basic_service_information = basic_service_information,
          UCallRestore_facility = facility, UCallRestore_dm_ms_address = dm_ms_address, UCallRestore_proprietary = proprietary\<rparr>))))))))))))))"

definition UCallRestore_to_bitbuf :: "UCallRestore \<Rightarrow> unit bb" where
  "UCallRestore_to_bitbuf p =
     (let obit = UCallRestore_basic_service_information p \<noteq> None \<or> UCallRestore_facility p \<noteq> None \<or>
          UCallRestore_dm_ms_address p \<noteq> None \<or> UCallRestore_proprietary p \<noteq> None
      in seq
        [write_bits (CmcePduTypeUl_into_raw CmcePduTypeUl_UCallRestore) 5,
         write_bits (ucast (UCallRestore_call_identifier p)) 14,
         write_bits (of_bool (UCallRestore_request_to_transmit_send_data p)) 1,
         write_bits (ucast (UCallRestore_other_party_type_identifier p)) 2,
         write_field_opt (UCallRestore_other_party_short_number_address p) 8,
         write_field_opt (UCallRestore_other_party_ssi p) 24,
         write_field_opt (UCallRestore_other_party_extension p) 24,
         bind (write_obit (of_bool obit)) (\<lambda>_. if \<not> obit then ret () else seq
           [write_type2_struct obit (UCallRestore_basic_service_information p) BasicServiceInformation_to_bitbuf,
            write_type3_generic obit (UCallRestore_facility p) (CmceType3ElemId_into_raw CmceType3ElemId_Facility),
            write_type3_generic obit (UCallRestore_dm_ms_address p) (CmceType3ElemId_into_raw CmceType3ElemId_DmMsAddr),
            write_type3_generic obit (UCallRestore_proprietary p) (CmceType3ElemId_into_raw CmceType3ElemId_Proprietary),
            write_mbit 0])])"

definition UCallRestore_wf :: "UCallRestore \<Rightarrow> bool" where
  "UCallRestore_wf p \<longleftrightarrow>
     fits 14 (UCallRestore_call_identifier p) \<and>
     fits 2 (UCallRestore_other_party_type_identifier p) \<and>
     pred_option (fits 8) (UCallRestore_other_party_short_number_address p) \<and>
     (UCallRestore_other_party_type_identifier p = 0) = (UCallRestore_other_party_short_number_address p \<noteq> None) \<and>
     pred_option (fits 24) (UCallRestore_other_party_ssi p) \<and>
     (UCallRestore_other_party_type_identifier p = 1 \<or> UCallRestore_other_party_type_identifier p = 2) = (UCallRestore_other_party_ssi p \<noteq> None) \<and>
     pred_option (fits 24) (UCallRestore_other_party_extension p) \<and>
     (UCallRestore_other_party_type_identifier p = 2) = (UCallRestore_other_party_extension p \<noteq> None) \<and>
     pred_option BasicServiceInformation_wf (UCallRestore_basic_service_information p) \<and>
     pred_option (wf_type3_generic (CmceType3ElemId_into_raw CmceType3ElemId_Facility)) (UCallRestore_facility p) \<and>
     pred_option (wf_type3_generic (CmceType3ElemId_into_raw CmceType3ElemId_DmMsAddr)) (UCallRestore_dm_ms_address p) \<and>
     pred_option (wf_type3_generic (CmceType3ElemId_into_raw CmceType3ElemId_Proprietary)) (UCallRestore_proprietary p)"

definition UCallRestore_enc :: "UCallRestore \<Rightarrow> bool list" where
  "UCallRestore_enc p =
     (let obit = UCallRestore_basic_service_information p \<noteq> None \<or> UCallRestore_facility p \<noteq> None \<or>
          UCallRestore_dm_ms_address p \<noteq> None \<or> UCallRestore_proprietary p \<noteq> None
      in to_bits 5 (CmcePduTypeUl_into_raw CmcePduTypeUl_UCallRestore :: u64) @ to_bits 14 (ucast (UCallRestore_call_identifier p) :: u64) @
         to_bits 1 (of_bool (UCallRestore_request_to_transmit_send_data p) :: u64) @
         to_bits 2 (ucast (UCallRestore_other_party_type_identifier p) :: u64) @ enc_opt 8 (UCallRestore_other_party_short_number_address p) @
         enc_opt 24 (UCallRestore_other_party_ssi p) @ enc_opt 24 (UCallRestore_other_party_extension p) @ obit #
         enc_type2 obit BasicServiceInformation_enc (UCallRestore_basic_service_information p) @
         enc_type3_generic (CmceType3ElemId_into_raw CmceType3ElemId_Facility) (UCallRestore_facility p) @
         enc_type3_generic (CmceType3ElemId_into_raw CmceType3ElemId_DmMsAddr) (UCallRestore_dm_ms_address p) @
         enc_type3_generic (CmceType3ElemId_into_raw CmceType3ElemId_Proprietary) (UCallRestore_proprietary p) @ (if obit then [False] else []))"

interpretation UCallRestore: safe_codec UCallRestore_wf UCallRestore_enc UCallRestore_to_bitbuf UCallRestore_from_bitbuf
proof
  show "emits (UCallRestore_to_bitbuf p) (UCallRestore_enc p)" if "UCallRestore_wf p" for p
    using that unfolding UCallRestore_to_bitbuf_def UCallRestore_enc_def UCallRestore_wf_def Let_def append_assoc append_Cons append_Nil
    by (intro l3_emits) (auto simp: l3_simps l3_codecs)
  show "parses UCallRestore_from_bitbuf (UCallRestore_enc p) p" if "UCallRestore_wf p" for p
    unfolding UCallRestore_from_bitbuf_def UCallRestore_enc_def Let_def append_assoc append_Cons append_Nil
    by (rule parsesI) (intro parses_ret l3_parses, use that in \<open>auto simp: UCallRestore_wf_def l3_simps l3_codecs\<close>)
  show "safe UCallRestore_from_bitbuf"
    unfolding UCallRestore_from_bitbuf_def by (intro safe_intros)
qed

section \<open>UConnect\<close>

text \<open>\<open>tetra-pdus/src/cmce/pdus/u_connect.rs\<close>.\<close>

record UConnect =
  UConnect_call_identifier :: u16
  UConnect_hook_method_selection :: bool
  UConnect_simplex_duplex_selection :: bool
  UConnect_basic_service_information :: "BasicServiceInformation option"
  UConnect_facility :: "type3_field_generic option"
  UConnect_proprietary :: "type3_field_generic option"

definition UConnect_from_bitbuf :: "UConnect bb" where
  "UConnect_from_bitbuf =
     bind (read_field 5 ''pdu_type'') (\<lambda>pdu_type.
     bind (expect_pdu_type pdu_type (CmcePduTypeUl_into_raw CmcePduTypeUl_UConnect)) (\<lambda>_.
     bind (read_field 14 ''call_identifier'') (\<lambda>call_identifier.
     bind (read_field 1 ''hook_method_selection'') (\<lambda>hook_method_selection.
     bind (read_field 1 ''simplex_duplex_selection'') (\<lambda>simplex_duplex_selection.
     bind read_obit (\<lambda>obit.
     bind (parse_type2_struct obit BasicServiceInformation_from_bitbuf) (\<lambda>basic_service_information.
     bind (parse_type3_generic obit (CmceType3ElemId_into_raw CmceType3ElemId_Facility)) (\<lambda>facility.
     bind (parse_type3_generic obit (CmceType3ElemId_into_raw CmceType3ElemId_Proprietary)) (\<lambda>proprietary.
     bind (read_trailing_mbit obit) (\<lambda>_.
     ret \<lparr>UConnect_call_identifier = ucast call_identifier, UConnect_hook_method_selection = hook_method_selection \<noteq> 0,
          UConnect_simplex_duplex_selection = simplex_duplex_selection \<noteq> 0, UConnect_basic_service_information = basic_service_information,
          UConnect_facility = facility, UConnect_proprietary = proprietary\<rparr>))))))))))"

definition UConnect_to_bitbuf :: "UConnect \<Rightarrow> unit bb" where
  "UConnect_to_bitbuf p =
     (let obit = UConnect_basic_service_information p \<noteq> None \<or> UConnect_facility p \<noteq> None \<or> UConnect_proprietary p \<noteq> None
      in seq
        [write_bits (CmcePduTypeUl_into_raw CmcePduTypeUl_UConnect) 5,
         write_bits (ucast (UConnect_call_identifier p)) 14,
         write_bits (of_bool (UConnect_hook_method_selection p)) 1,
         write_bits (of_bool (UConnect_simplex_duplex_selection p)) 1,
         bind (write_obit (of_bool obit)) (\<lambda>_. if \<not> obit then ret () else seq
           [write_type2_struct obit (UConnect_basic_service_information p) BasicServiceInformation_to_bitbuf,
            write_type3_generic obit (UConnect_facility p) (CmceType3ElemId_into_raw CmceType3ElemId_Facility),
            write_type3_generic obit (UConnect_proprietary p) (CmceType3ElemId_into_raw CmceType3ElemId_Proprietary),
            write_mbit 0])])"

definition UConnect_wf :: "UConnect \<Rightarrow> bool" where
  "UConnect_wf p \<longleftrightarrow>
     fits 14 (UConnect_call_identifier p) \<and>
     pred_option BasicServiceInformation_wf (UConnect_basic_service_information p) \<and>
     pred_option (wf_type3_generic (CmceType3ElemId_into_raw CmceType3ElemId_Facility)) (UConnect_facility p) \<and>
     pred_option (wf_type3_generic (CmceType3ElemId_into_raw CmceType3ElemId_Proprietary)) (UConnect_proprietary p)"

definition UConnect_enc :: "UConnect \<Rightarrow> bool list" where
  "UConnect_enc p =
     (let obit = UConnect_basic_service_information p \<noteq> None \<or> UConnect_facility p \<noteq> None \<or> UConnect_proprietary p \<noteq> None
      in to_bits 5 (CmcePduTypeUl_into_raw CmcePduTypeUl_UConnect :: u64) @ to_bits 14 (ucast (UConnect_call_identifier p) :: u64) @
         to_bits 1 (of_bool (UConnect_hook_method_selection p) :: u64) @ to_bits 1 (of_bool (UConnect_simplex_duplex_selection p) :: u64) @ obit #
         enc_type2 obit BasicServiceInformation_enc (UConnect_basic_service_information p) @
         enc_type3_generic (CmceType3ElemId_into_raw CmceType3ElemId_Facility) (UConnect_facility p) @
         enc_type3_generic (CmceType3ElemId_into_raw CmceType3ElemId_Proprietary) (UConnect_proprietary p) @ (if obit then [False] else []))"

interpretation UConnect: safe_codec UConnect_wf UConnect_enc UConnect_to_bitbuf UConnect_from_bitbuf
proof
  show "emits (UConnect_to_bitbuf p) (UConnect_enc p)" if "UConnect_wf p" for p
    using that unfolding UConnect_to_bitbuf_def UConnect_enc_def UConnect_wf_def Let_def append_assoc append_Cons append_Nil
    by (intro l3_emits) (simp_all add: l3_simps l3_codecs)
  show "parses UConnect_from_bitbuf (UConnect_enc p) p" if "UConnect_wf p" for p
    unfolding UConnect_from_bitbuf_def UConnect_enc_def Let_def append_assoc append_Cons append_Nil
    by (rule parsesI) (intro parses_ret l3_parses, use that in \<open>simp_all add: UConnect_wf_def l3_simps l3_codecs\<close>)
  show "safe UConnect_from_bitbuf"
    unfolding UConnect_from_bitbuf_def by (intro safe_intros)
qed

section \<open>UDisconnect\<close>

text \<open>\<open>tetra-pdus/src/cmce/pdus/u_disconnect.rs\<close>.\<close>

record UDisconnect =
  UDisconnect_call_identifier :: u16
  UDisconnect_disconnect_cause :: DisconnectCause
  UDisconnect_facility :: "type3_field_generic option"
  UDisconnect_proprietary :: "type3_field_generic option"

definition UDisconnect_from_bitbuf :: "UDisconnect bb" where
  "UDisconnect_from_bitbuf =
     bind (read_field 5 ''pdu_type'') (\<lambda>pdu_type.
     bind (expect_pdu_type pdu_type (CmcePduTypeUl_into_raw CmcePduTypeUl_UDisconnect)) (\<lambda>_.
     bind (read_field 14 ''call_identifier'') (\<lambda>call_identifier.
     bind (read_enum DisconnectCause_try_from 5 ''disconnect_cause'') (\<lambda>disconnect_cause.
     bind read_obit (\<lambda>obit.
     bind (parse_type3_generic obit (CmceType3ElemId_into_raw CmceType3ElemId_Facility)) (\<lambda>facility.
     bind (parse_type3_generic obit (CmceType3ElemId_into_raw CmceType3ElemId_Proprietary)) (\<lambda>proprietary.
     bind (read_trailing_mbit obit) (\<lambda>_.
     ret \<lparr>UDisconnect_call_identifier = ucast call_identifier, UDisconnect_disconnect_cause = disconnect_cause, UDisconnect_facility = facility,
          UDisconnect_proprietary = proprietary\<rparr>))))))))"

definition UDisconnect_to_bitbuf :: "UDisconnect \<Rightarrow> unit bb" where
  "UDisconnect_to_bitbuf p =
     (let obit = UDisconnect_facility p \<noteq> None \<or> UDisconnect_proprietary p \<noteq> None
      in seq
        [write_bits (CmcePduTypeUl_into_raw CmcePduTypeUl_UDisconnect) 5,
         write_bits (ucast (UDisconnect_call_identifier p)) 14,
         write_bits (DisconnectCause_into_raw (UDisconnect_disconnect_cause p)) 5,
         bind (write_obit (of_bool obit)) (\<lambda>_. if \<not> obit then ret () else seq
           [write_type3_generic obit (UDisconnect_facility p) (CmceType3ElemId_into_raw CmceType3ElemId_Facility),
            write_type3_generic obit (UDisconnect_proprietary p) (CmceType3ElemId_into_raw CmceType3ElemId_Proprietary),
            write_mbit 0])])"

definition UDisconnect_wf :: "UDisconnect \<Rightarrow> bool" where
  "UDisconnect_wf p \<longleftrightarrow>
     fits 14 (UDisconnect_call_identifier p) \<and>
     pred_option (wf_type3_generic (CmceType3ElemId_into_raw CmceType3ElemId_Facility)) (UDisconnect_facility p) \<and>
     pred_option (wf_type3_generic (CmceType3ElemId_into_raw CmceType3ElemId_Proprietary)) (UDisconnect_proprietary p)"

definition UDisconnect_enc :: "UDisconnect \<Rightarrow> bool list" where
  "UDisconnect_enc p =
     (let obit = UDisconnect_facility p \<noteq> None \<or> UDisconnect_proprietary p \<noteq> None
      in to_bits 5 (CmcePduTypeUl_into_raw CmcePduTypeUl_UDisconnect :: u64) @ to_bits 14 (ucast (UDisconnect_call_identifier p) :: u64) @
         to_bits 5 (DisconnectCause_into_raw (UDisconnect_disconnect_cause p) :: u64) @ obit #
         enc_type3_generic (CmceType3ElemId_into_raw CmceType3ElemId_Facility) (UDisconnect_facility p) @
         enc_type3_generic (CmceType3ElemId_into_raw CmceType3ElemId_Proprietary) (UDisconnect_proprietary p) @ (if obit then [False] else []))"

interpretation UDisconnect: safe_codec UDisconnect_wf UDisconnect_enc UDisconnect_to_bitbuf UDisconnect_from_bitbuf
proof
  show "emits (UDisconnect_to_bitbuf p) (UDisconnect_enc p)" if "UDisconnect_wf p" for p
    using that unfolding UDisconnect_to_bitbuf_def UDisconnect_enc_def UDisconnect_wf_def Let_def append_assoc append_Cons append_Nil
    by (intro l3_emits) (simp_all add: l3_simps l3_codecs)
  show "parses UDisconnect_from_bitbuf (UDisconnect_enc p) p" if "UDisconnect_wf p" for p
    unfolding UDisconnect_from_bitbuf_def UDisconnect_enc_def Let_def append_assoc append_Cons append_Nil
    by (rule parsesI) (intro parses_ret l3_parses, use that in \<open>simp_all add: UDisconnect_wf_def l3_simps l3_codecs\<close>)
  show "safe UDisconnect_from_bitbuf"
    unfolding UDisconnect_from_bitbuf_def by (intro safe_intros)
qed

section \<open>UInfo\<close>

text \<open>\<open>tetra-pdus/src/cmce/pdus/u_info.rs\<close>.\<close>

record UInfo =
  UInfo_call_identifier :: u16
  UInfo_poll_response :: bool
  UInfo_modify :: "u64 option"
  UInfo_dtmf :: "type3_field_generic option"
  UInfo_facility :: "type3_field_generic option"
  UInfo_proprietary :: "type3_field_generic option"

definition UInfo_from_bitbuf :: "UInfo bb" where
  "UInfo_from_bitbuf =
     bind (read_field 5 ''pdu_type'') (\<lambda>pdu_type.
     bind (expect_pdu_type pdu_type (CmcePduTypeUl_into_raw CmcePduTypeUl_UInfo)) (\<lambda>_.
     bind (read_field 14 ''call_identifier'') (\<lambda>call_identifier.
     bind (read_field 1 ''poll_response'') (\<lambda>poll_response.
     bind read_obit (\<lambda>obit.
     bind (parse_type2_generic obit 9 ''modify'') (\<lambda>modify.
     bind (parse_type3_generic obit (CmceType3ElemId_into_raw CmceType3ElemId_Dtmf)) (\<lambda>dtmf.
     bind (parse_type3_generic obit (CmceType3ElemId_into_raw CmceType3ElemId_Facility)) (\<lambda>facility.
     bind (parse_type3_generic obit (CmceType3ElemId_into_raw CmceType3ElemId_Proprietary)) (\<lambda>proprietary.
     bind (read_trailing_mbit obit) (\<lambda>_.
     ret \<lparr>UInfo_call_identifier = ucast call_identifier, UInfo_poll_response = poll_response \<noteq> 0, UInfo_modify = modify, UInfo_dtmf = dtmf,
          UInfo_facility = facility, UInfo_proprietary = proprietary\<rparr>))))))))))"

definition UInfo_to_bitbuf :: "UInfo \<Rightarrow> unit bb" where
  "UInfo_to_bitbuf p =
     (let obit = UInfo_modify p \<noteq> None \<or> UInfo_dtmf p \<noteq> None \<or> UInfo_facility p \<noteq> None \<or> UInfo_proprietary p \<noteq> None
      in seq
        [write_bits (CmcePduTypeUl_into_raw CmcePduTypeUl_UInfo) 5,
         write_bits (ucast (UInfo_call_identifier p)) 14,
         write_bits (of_bool (UInfo_poll_response p)) 1,
         bind (write_obit (of_bool obit)) (\<lambda>_. if \<not> obit then ret () else seq
           [write_type2_generic obit (UInfo_modify p) 9,
            write_type3_generic obit (UInfo_dtmf p) (CmceType3ElemId_into_raw CmceType3ElemId_Dtmf),
            write_type3_generic obit (UInfo_facility p) (CmceType3ElemId_into_raw CmceType3ElemId_Facility),
            write_type3_generic obit (UInfo_proprietary p) (CmceType3ElemId_into_raw CmceType3ElemId_Proprietary),
            write_mbit 0])])"

definition UInfo_wf :: "UInfo \<Rightarrow> bool" where
  "UInfo_wf p \<longleftrightarrow>
     fits 14 (UInfo_call_identifier p) \<and>
     pred_option (fits 9) (UInfo_modify p) \<and>
     pred_option (wf_type3_generic (CmceType3ElemId_into_raw CmceType3ElemId_Dtmf)) (UInfo_dtmf p) \<and>
     pred_option (wf_type3_generic (CmceType3ElemId_into_raw CmceType3ElemId_Facility)) (UInfo_facility p) \<and>
     pred_option (wf_type3_generic (CmceType3ElemId_into_raw CmceType3ElemId_Proprietary)) (UInfo_proprietary p)"

definition UInfo_enc :: "UInfo \<Rightarrow> bool list" where
  "UInfo_enc p =
     (let obit = UInfo_modify p \<noteq> None \<or> UInfo_dtmf p \<noteq> None \<or> UInfo_facility p \<noteq> None \<or> UInfo_proprietary p \<noteq> None
      in to_bits 5 (CmcePduTypeUl_into_raw CmcePduTypeUl_UInfo :: u64) @ to_bits 14 (ucast (UInfo_call_identifier p) :: u64) @
         to_bits 1 (of_bool (UInfo_poll_response p) :: u64) @ obit #
         enc_type2 obit (to_bits 9) (UInfo_modify p) @ enc_type3_generic (CmceType3ElemId_into_raw CmceType3ElemId_Dtmf) (UInfo_dtmf p) @
         enc_type3_generic (CmceType3ElemId_into_raw CmceType3ElemId_Facility) (UInfo_facility p) @
         enc_type3_generic (CmceType3ElemId_into_raw CmceType3ElemId_Proprietary) (UInfo_proprietary p) @ (if obit then [False] else []))"

interpretation UInfo: safe_codec UInfo_wf UInfo_enc UInfo_to_bitbuf UInfo_from_bitbuf
proof
  show "emits (UInfo_to_bitbuf p) (UInfo_enc p)" if "UInfo_wf p" for p
    using that unfolding UInfo_to_bitbuf_def UInfo_enc_def UInfo_wf_def Let_def append_assoc append_Cons append_Nil
    by (intro l3_emits) (simp_all add: l3_simps l3_codecs)
  show "parses UInfo_from_bitbuf (UInfo_enc p) p" if "UInfo_wf p" for p
    unfolding UInfo_from_bitbuf_def UInfo_enc_def Let_def append_assoc append_Cons append_Nil
    by (rule parsesI) (intro parses_ret l3_parses, use that in \<open>simp_all add: UInfo_wf_def l3_simps l3_codecs\<close>)
  show "safe UInfo_from_bitbuf"
    unfolding UInfo_from_bitbuf_def by (intro safe_intros)
qed

section \<open>URelease\<close>

text \<open>\<open>tetra-pdus/src/cmce/pdus/u_release.rs\<close>.\<close>

record URelease =
  URelease_call_identifier :: u16
  URelease_disconnect_cause :: DisconnectCause
  URelease_facility :: "type3_field_generic option"
  URelease_proprietary :: "type3_field_generic option"

definition URelease_from_bitbuf :: "URelease bb" where
  "URelease_from_bitbuf =
     bind (read_field 5 ''pdu_type'') (\<lambda>pdu_type.
     bind (expect_pdu_type pdu_type (CmcePduTypeUl_into_raw CmcePduTypeUl_URelease)) (\<lambda>_.
     bind (read_field 14 ''call_identifier'') (\<lambda>call_identifier.
     bind (read_enum DisconnectCause_try_from 5 ''disconnect_cause'') (\<lambda>disconnect_cause.
     bind read_obit (\<lambda>obit.
     bind (parse_type3_generic obit (CmceType3ElemId_into_raw CmceType3ElemId_Facility)) (\<lambda>facility.
     bind (parse_type3_generic obit (CmceType3ElemId_into_raw CmceType3ElemId_Proprietary)) (\<lambda>proprietary.
     bind (read_trailing_mbit obit) (\<lambda>_.
     ret \<lparr>URelease_call_identifier = ucast call_identifier, URelease_disconnect_cause = disconnect_cause, URelease_facility = facility,
          URelease_proprietary = proprietary\<rparr>))))))))"

definition URelease_to_bitbuf :: "URelease \<Rightarrow> unit bb" where
  "URelease_to_bitbuf p =
     (let obit = URelease_facility p \<noteq> None \<or> URelease_proprietary p \<noteq> None
      in seq
        [write_bits (CmcePduTypeUl_into_raw CmcePduTypeUl_URelease) 5,
         write_bits (ucast (URelease_call_identifier p)) 14,
         write_bits (DisconnectCause_into_raw (URelease_disconnect_cause p)) 5,
         bind (write_obit (of_bool obit)) (\<lambda>_. if \<not> obit then ret () else seq
           [write_type3_generic obit (URelease_facility p) (CmceType3ElemId_into_raw CmceType3ElemId_Facility),
            write_type3_generic obit (URelease_proprietary p) (CmceType3ElemId_into_raw CmceType3ElemId_Proprietary),
            write_mbit 0])])"

definition URelease_wf :: "URelease \<Rightarrow> bool" where
  "URelease_wf p \<longleftrightarrow>
     fits 14 (URelease_call_identifier p) \<and>
     pred_option (wf_type3_generic (CmceType3ElemId_into_raw CmceType3ElemId_Facility)) (URelease_facility p) \<and>
     pred_option (wf_type3_generic (CmceType3ElemId_into_raw CmceType3ElemId_Proprietary)) (URelease_proprietary p)"

definition URelease_enc :: "URelease \<Rightarrow> bool list" where
  "URelease_enc p =
     (let obit = URelease_facility p \<noteq> None \<or> URelease_proprietary p \<noteq> None
      in to_bits 5 (CmcePduTypeUl_into_raw CmcePduTypeUl_URelease :: u64) @ to_bits 14 (ucast (URelease_call_identifier p) :: u64) @
         to_bits 5 (DisconnectCause_into_raw (URelease_disconnect_cause p) :: u64) @ obit #
         enc_type3_generic (CmceType3ElemId_into_raw CmceType3ElemId_Facility) (URelease_facility p) @
         enc_type3_generic (CmceType3ElemId_into_raw CmceType3ElemId_Proprietary) (URelease_proprietary p) @ (if obit then [False] else []))"

interpretation URelease: safe_codec URelease_wf URelease_enc URelease_to_bitbuf URelease_from_bitbuf
proof
  show "emits (URelease_to_bitbuf p) (URelease_enc p)" if "URelease_wf p" for p
    using that unfolding URelease_to_bitbuf_def URelease_enc_def URelease_wf_def Let_def append_assoc append_Cons append_Nil
    by (intro l3_emits) (simp_all add: l3_simps l3_codecs)
  show "parses URelease_from_bitbuf (URelease_enc p) p" if "URelease_wf p" for p
    unfolding URelease_from_bitbuf_def URelease_enc_def Let_def append_assoc append_Cons append_Nil
    by (rule parsesI) (intro parses_ret l3_parses, use that in \<open>simp_all add: URelease_wf_def l3_simps l3_codecs\<close>)
  show "safe URelease_from_bitbuf"
    unfolding URelease_from_bitbuf_def by (intro safe_intros)
qed

section \<open>USetup\<close>

text \<open>\<open>tetra-pdus/src/cmce/pdus/u_setup.rs\<close>.\<close>

record USetup =
  USetup_area_selection :: u8
  USetup_hook_method_selection :: bool
  USetup_simplex_duplex_selection :: bool
  USetup_basic_service_information :: BasicServiceInformation
  USetup_request_to_transmit_send_data :: bool
  USetup_call_priority :: u8
  USetup_clir_control :: u8
  USetup_called_party_type_identifier :: PartyTypeIdentifier
  USetup_called_party_short_number_address :: "u64 option"
  USetup_called_party_ssi :: "u64 option"
  USetup_called_party_extension :: "u64 option"
  USetup_external_subscriber_number :: "type3_field_generic option"
  USetup_facility :: "type3_field_generic option"
  USetup_dm_ms_address :: "type3_field_generic option"
  USetup_proprietary :: "type3_field_generic option"

definition USetup_from_bitbuf :: "USetup bb" where
  "USetup_from_bitbuf =
     bind (read_field 5 ''pdu_type'') (\<lambda>pdu_type.
     bind (expect_pdu_type pdu_type (CmcePduTypeUl_into_raw CmcePduTypeUl_USetup)) (\<lambda>_.
     bind (read_field 4 ''area_selection'') (\<lambda>area_selection.
     bind (read_field 1 ''hook_method_selection'') (\<lambda>hook_method_selection.
     bind (read_field 1 ''simplex_duplex_selection'') (\<lambda>simplex_duplex_selection.
     bind BasicServiceInformation_from_bitbuf (\<lambda>basic_service_information.
     bind (read_field 1 ''request_to_transmit_send_data'') (\<lambda>request_to_transmit_send_data.
     bind (read_field 4 ''call_priority'') (\<lambda>call_priority.
     bind (read_field 2 ''clir_control'') (\<lambda>clir_control.
     bind (read_enum PartyTypeIdentifier_try_from 2 ''called_party_type_identifier'') (\<lambda>called_party_type_identifier.
     bind (read_field_if (called_party_type_identifier = PartyTypeIdentifier_Sna) 8 ''called_party_short_number_address'') (\<lambda>called_party_short_number_address.
     bind (read_field_if (called_party_type_identifier = PartyTypeIdentifier_Ssi \<or> called_party_type_identifier = PartyTypeIdentifier_Tsi) 24 ''called_party_ssi'') (\<lambda>called_party_ssi.
     bind (read_field_if (called_party_type_identifier = PartyTypeIdentifier_Tsi) 24 ''called_party_extension'') (\<lambda>called_party_extension.
     bind read_obit (\<lambda>obit.
     bind (parse_type3_generic obit (CmceType3ElemId_into_raw CmceType3ElemId_ExtSubscriberNum)) (\<lambda>external_subscriber_number.
     bind (parse_type3_generic obit (CmceType3ElemId_into_raw CmceType3ElemId_Facility)) (\<lambda>facility.
     bind (parse_type3_generic obit (CmceType3ElemId_into_raw CmceType3ElemId_DmMsAddr)) (\<lambda>dm_ms_address.
     bind (parse_type3_generic obit (CmceType3ElemId_into_raw CmceType3ElemId_Proprietary)) (\<lambda>proprietary.
     bind (read_trailing_mbit obit) (\<lambda>_.
     ret \<lparr>USetup_area_selection = ucast area_selection, USetup_hook_method_selection = hook_method_selection \<noteq> 0,
          USetup_simplex_duplex_selection = simplex_duplex_selection \<noteq> 0, USetup_basic_service_information = basic_service_information,
          USetup_request_to_transmit_send_data = request_to_transmit_send_data \<noteq> 0, USetup_call_priority = ucast call_priority,
          USetup_clir_control = ucast clir_control, USetup_called_party_type_identifier = called_party_type_identifier,
          USetup_called_party_short_number_address = called_party_short_number_address, USetup_called_party_ssi = called_party_ssi,
          USetup_called_party_extension = called_party_extension, USetup_external_subscriber_number = external_subscriber_number, USetup_facility = facility,
          USetup_dm_ms_address = dm_ms_address, USetup_proprietary = proprietary\<rparr>)))))))))))))))))))"

definition USetup_to_bitbuf :: "USetup \<Rightarrow> unit bb" where
  "USetup_to_bitbuf p =
     (let obit = USetup_external_subscriber_number p \<noteq> None \<or> USetup_facility p \<noteq> None \<or> USetup_dm_ms_address p \<noteq> None \<or>
          USetup_proprietary p \<noteq> None
      in seq
        [write_bits (CmcePduTypeUl_into_raw CmcePduTypeUl_USetup) 5,
         write_bits (ucast (USetup_area_selection p)) 4,
         write_bits (of_bool (USetup_hook_method_selection p)) 1,
         write_bits (of_bool (USetup_simplex_duplex_selection p)) 1,
         BasicServiceInformation_to_bitbuf (USetup_basic_service_information p),
         write_bits (of_bool (USetup_request_to_transmit_send_data p)) 1,
         write_bits (ucast (USetup_call_priority p)) 4,
         write_bits (ucast (USetup_clir_control p)) 2,
         write_bits (PartyTypeIdentifier_into_raw (USetup_called_party_type_identifier p)) 2,
         write_field_opt (USetup_called_party_short_number_address p) 8,
         write_field_opt (USetup_called_party_ssi p) 24,
         write_field_opt (USetup_called_party_extension p) 24,
         bind (write_obit (of_bool obit)) (\<lambda>_. if \<not> obit then ret () else seq
           [write_type3_generic obit (USetup_external_subscriber_number p) (CmceType3ElemId_into_raw CmceType3ElemId_ExtSubscriberNum),
            write_type3_generic obit (USetup_facility p) (CmceType3ElemId_into_raw CmceType3ElemId_Facility),
            write_type3_generic obit (USetup_dm_ms_address p) (CmceType3ElemId_into_raw CmceType3ElemId_DmMsAddr),
            write_type3_generic obit (USetup_proprietary p) (CmceType3ElemId_into_raw CmceType3ElemId_Proprietary),
            write_mbit 0])])"

definition USetup_wf :: "USetup \<Rightarrow> bool" where
  "USetup_wf p \<longleftrightarrow>
     fits 4 (USetup_area_selection p) \<and>
     BasicServiceInformation_wf (USetup_basic_service_information p) \<and>
     fits 4 (USetup_call_priority p) \<and>
     fits 2 (USetup_clir_control p) \<and>
     pred_option (fits 8) (USetup_called_party_short_number_address p) \<and>
     (USetup_called_party_type_identifier p = PartyTypeIdentifier_Sna) = (USetup_called_party_short_number_address p \<noteq> None) \<and>
     pred_option (fits 24) (USetup_called_party_ssi p) \<and>
     (USetup_called_party_type_identifier p = PartyTypeIdentifier_Ssi \<or> USetup_called_party_type_identifier p = PartyTypeIdentifier_Tsi) = (USetup_called_party_ssi p \<noteq> None) \<and>
     pred_option (fits 24) (USetup_called_party_extension p) \<and>
     (USetup_called_party_type_identifier p = PartyTypeIdentifier_Tsi) = (USetup_called_party_extension p \<noteq> None) \<and>
     pred_option (wf_type3_generic (CmceType3ElemId_into_raw CmceType3ElemId_ExtSubscriberNum)) (USetup_external_subscriber_number p) \<and>
     pred_option (wf_type3_generic (CmceType3ElemId_into_raw CmceType3ElemId_Facility)) (USetup_facility p) \<and>
     pred_option (wf_type3_generic (CmceType3ElemId_into_raw CmceType3ElemId_DmMsAddr)) (USetup_dm_ms_address p) \<and>
     pred_option (wf_type3_generic (CmceType3ElemId_into_raw CmceType3ElemId_Proprietary)) (USetup_proprietary p)"

definition USetup_enc :: "USetup \<Rightarrow> bool list" where
  "USetup_enc p =
     (let obit = USetup_external_subscriber_number p \<noteq> None \<or> USetup_facility p \<noteq> None \<or> USetup_dm_ms_address p \<noteq> None \<or>
          USetup_proprietary p \<noteq> None
      in to_bits 5 (CmcePduTypeUl_into_raw CmcePduTypeUl_USetup :: u64) @ to_bits 4 (ucast (USetup_area_selection p) :: u64) @
         to_bits 1 (of_bool (USetup_hook_method_selection p) :: u64) @ to_bits 1 (of_bool (USetup_simplex_duplex_selection p) :: u64) @
         BasicServiceInformation_enc (USetup_basic_service_information p) @ to_bits 1 (of_bool (USetup_request_to_transmit_send_data p) :: u64) @
         to_bits 4 (ucast (USetup_call_priority p) :: u64) @ to_bits 2 (ucast (USetup_clir_control p) :: u64) @
         to_bits 2 (PartyTypeIdentifier_into_raw (USetup_called_party_type_identifier p) :: u64) @
         enc_opt 8 (USetup_called_party_short_number_address p) @ enc_opt 24 (USetup_called_party_ssi p) @
         enc_opt 24 (USetup_called_party_extension p) @ obit #
         enc_type3_generic (CmceType3ElemId_into_raw CmceType3ElemId_ExtSubscriberNum) (USetup_external_subscriber_number p) @
         enc_type3_generic (CmceType3ElemId_into_raw CmceType3ElemId_Facility) (USetup_facility p) @
         enc_type3_generic (CmceType3ElemId_into_raw CmceType3ElemId_DmMsAddr) (USetup_dm_ms_address p) @
         enc_type3_generic (CmceType3ElemId_into_raw CmceType3ElemId_Proprietary) (USetup_proprietary p) @ (if obit then [False] else []))"

interpretation USetup: safe_codec USetup_wf USetup_enc USetup_to_bitbuf USetup_from_bitbuf
proof
  show "emits (USetup_to_bitbuf p) (USetup_enc p)" if "USetup_wf p" for p
    using that unfolding USetup_to_bitbuf_def USetup_enc_def USetup_wf_def Let_def append_assoc append_Cons append_Nil
    by (intro l3_emits) (auto simp: l3_simps l3_codecs)
  show "parses USetup_from_bitbuf (USetup_enc p) p" if "USetup_wf p" for p
    unfolding USetup_from_bitbuf_def USetup_enc_def Let_def append_assoc append_Cons append_Nil
    by (rule parsesI) (intro parses_ret l3_parses, use that in \<open>auto simp: USetup_wf_def l3_simps l3_codecs\<close>)
  show "safe USetup_from_bitbuf"
    unfolding USetup_from_bitbuf_def by (intro safe_intros)
qed

section \<open>UStatus\<close>

text \<open>\<open>tetra-pdus/src/cmce/pdus/u_status.rs\<close>.\<close>

record UStatus =
  UStatus_area_selection :: u8
  UStatus_called_party_type_identifier :: PartyTypeIdentifier
  UStatus_called_party_short_number_address :: "u64 option"
  UStatus_called_party_ssi :: "u64 option"
  UStatus_called_party_extension :: "u64 option"
  UStatus_pre_coded_status :: PreCodedStatus
  UStatus_external_subscriber_number :: "type3_field_generic option"
  UStatus_dm_ms_address :: "type3_field_generic option"

definition UStatus_from_bitbuf :: "UStatus bb" where
  "UStatus_from_bitbuf =
     bind (read_field 5 ''pdu_type'') (\<lambda>pdu_type.
     bind (expect_pdu_type pdu_type (CmcePduTypeUl_into_raw CmcePduTypeUl_UStatus)) (\<lambda>_.
     bind (read_field 4 ''area_selection'') (\<lambda>area_selection.
     bind (read_enum PartyTypeIdentifier_try_from 2 ''called_party_type_identifier'') (\<lambda>called_party_type_identifier.
     bind (read_field_if (called_party_type_identifier = PartyTypeIdentifier_Sna) 8 ''called_party_short_number_address'') (\<lambda>called_party_short_number_address.
     bind (read_field_if (called_party_type_identifier = PartyTypeIdentifier_Ssi \<or> called_party_type_identifier = PartyTypeIdentifier_Tsi) 24 ''called_party_ssi'') (\<lambda>called_party_ssi.
     bind (read_field_if (called_party_type_identifier = PartyTypeIdentifier_Tsi) 24 ''called_party_extension'') (\<lambda>called_party_extension.
     bind read_pre_coded_status (\<lambda>pre_coded_status.
     bind read_obit (\<lambda>obit.
     bind (parse_type3_generic obit (CmceType3ElemId_into_raw CmceType3ElemId_ExtSubscriberNum)) (\<lambda>external_subscriber_number.
     bind (parse_type3_generic obit (CmceType3ElemId_into_raw CmceType3ElemId_DmMsAddr)) (\<lambda>dm_ms_address.
     bind (read_trailing_mbit obit) (\<lambda>_.
     ret \<lparr>UStatus_area_selection = ucast area_selection, UStatus_called_party_type_identifier = called_party_type_identifier,
          UStatus_called_party_short_number_address = called_party_short_number_address, UStatus_called_party_ssi = called_party_ssi,
          UStatus_called_party_extension = called_party_extension, UStatus_pre_coded_status = pre_coded_status,
          UStatus_external_subscriber_number = external_subscriber_number, UStatus_dm_ms_address = dm_ms_address\<rparr>))))))))))))"

definition UStatus_to_bitbuf :: "UStatus \<Rightarrow> unit bb" where
  "UStatus_to_bitbuf p =
     (let obit = UStatus_external_subscriber_number p \<noteq> None \<or> UStatus_dm_ms_address p \<noteq> None
      in seq
        [write_bits (CmcePduTypeUl_into_raw CmcePduTypeUl_UStatus) 5,
         write_bits (ucast (UStatus_area_selection p)) 4,
         write_bits (PartyTypeIdentifier_into_raw (UStatus_called_party_type_identifier p)) 2,
         write_field_opt (UStatus_called_party_short_number_address p) 8,
         write_field_opt (UStatus_called_party_ssi p) 24,
         write_field_opt (UStatus_called_party_extension p) 24,
         write_pre_coded_status (UStatus_pre_coded_status p),
         bind (write_obit (of_bool obit)) (\<lambda>_. if \<not> obit then ret () else seq
           [write_type3_generic obit (UStatus_external_subscriber_number p) (CmceType3ElemId_into_raw CmceType3ElemId_ExtSubscriberNum),
            write_type3_generic obit (UStatus_dm_ms_address p) (CmceType3ElemId_into_raw CmceType3ElemId_DmMsAddr),
            write_mbit 0])])"

definition UStatus_wf :: "UStatus \<Rightarrow> bool" where
  "UStatus_wf p \<longleftrightarrow>
     fits 4 (UStatus_area_selection p) \<and>
     pred_option (fits 8) (UStatus_called_party_short_number_address p) \<and>
     (UStatus_called_party_type_identifier p = PartyTypeIdentifier_Sna) = (UStatus_called_party_short_number_address p \<noteq> None) \<and>
     pred_option (fits 24) (UStatus_called_party_ssi p) \<and>
     (UStatus_called_party_type_identifier p = PartyTypeIdentifier_Ssi \<or> UStatus_called_party_type_identifier p = PartyTypeIdentifier_Tsi) = (UStatus_called_party_ssi p \<noteq> None) \<and>
     pred_option (fits 24) (UStatus_called_party_extension p) \<and>
     (UStatus_called_party_type_identifier p = PartyTypeIdentifier_Tsi) = (UStatus_called_party_extension p \<noteq> None) \<and>
     PreCodedStatus_wf (UStatus_pre_coded_status p) \<and>
     pred_option (wf_type3_generic (CmceType3ElemId_into_raw CmceType3ElemId_ExtSubscriberNum)) (UStatus_external_subscriber_number p) \<and>
     pred_option (wf_type3_generic (CmceType3ElemId_into_raw CmceType3ElemId_DmMsAddr)) (UStatus_dm_ms_address p)"

definition UStatus_enc :: "UStatus \<Rightarrow> bool list" where
  "UStatus_enc p =
     (let obit = UStatus_external_subscriber_number p \<noteq> None \<or> UStatus_dm_ms_address p \<noteq> None
      in to_bits 5 (CmcePduTypeUl_into_raw CmcePduTypeUl_UStatus :: u64) @ to_bits 4 (ucast (UStatus_area_selection p) :: u64) @
         to_bits 2 (PartyTypeIdentifier_into_raw (UStatus_called_party_type_identifier p) :: u64) @
         enc_opt 8 (UStatus_called_party_short_number_address p) @ enc_opt 24 (UStatus_called_party_ssi p) @
         enc_opt 24 (UStatus_called_party_extension p) @ PreCodedStatus_enc (UStatus_pre_coded_status p) @ obit #
         enc_type3_generic (CmceType3ElemId_into_raw CmceType3ElemId_ExtSubscriberNum) (UStatus_external_subscriber_number p) @
         enc_type3_generic (CmceType3ElemId_into_raw CmceType3ElemId_DmMsAddr) (UStatus_dm_ms_address p) @ (if obit then [False] else []))"

interpretation UStatus: safe_codec UStatus_wf UStatus_enc UStatus_to_bitbuf UStatus_from_bitbuf
proof
  show "emits (UStatus_to_bitbuf p) (UStatus_enc p)" if "UStatus_wf p" for p
    using that unfolding UStatus_to_bitbuf_def UStatus_enc_def UStatus_wf_def Let_def append_assoc append_Cons append_Nil
    by (intro l3_emits) (auto simp: l3_simps l3_codecs)
  show "parses UStatus_from_bitbuf (UStatus_enc p) p" if "UStatus_wf p" for p
    unfolding UStatus_from_bitbuf_def UStatus_enc_def Let_def append_assoc append_Cons append_Nil
    by (rule parsesI) (intro parses_ret l3_parses, use that in \<open>auto simp: UStatus_wf_def l3_simps l3_codecs\<close>)
  show "safe UStatus_from_bitbuf"
    unfolding UStatus_from_bitbuf_def by (intro safe_intros)
qed

section \<open>UTxCeased\<close>

text \<open>\<open>tetra-pdus/src/cmce/pdus/u_tx_ceased.rs\<close>.\<close>

record UTxCeased =
  UTxCeased_call_identifier :: u16
  UTxCeased_facility :: "type3_field_generic option"
  UTxCeased_dm_ms_address :: "type3_field_generic option"
  UTxCeased_proprietary :: "type3_field_generic option"

definition UTxCeased_from_bitbuf :: "UTxCeased bb" where
  "UTxCeased_from_bitbuf =
     bind (read_field 5 ''pdu_type'') (\<lambda>pdu_type.
     bind (expect_pdu_type pdu_type (CmcePduTypeUl_into_raw CmcePduTypeUl_UTxCeased)) (\<lambda>_.
     bind (read_field 14 ''call_identifier'') (\<lambda>call_identifier.
     bind read_obit (\<lambda>obit.
     bind (parse_type3_generic obit (CmceType3ElemId_into_raw CmceType3ElemId_Facility)) (\<lambda>facility.
     bind (parse_type3_generic obit (CmceType3ElemId_into_raw CmceType3ElemId_DmMsAddr)) (\<lambda>dm_ms_address.
     bind (parse_type3_generic obit (CmceType3ElemId_into_raw CmceType3ElemId_Proprietary)) (\<lambda>proprietary.
     bind (read_trailing_mbit obit) (\<lambda>_.
     ret \<lparr>UTxCeased_call_identifier = ucast call_identifier, UTxCeased_facility = facility, UTxCeased_dm_ms_address = dm_ms_address,
          UTxCeased_proprietary = proprietary\<rparr>))))))))"

definition UTxCeased_to_bitbuf :: "UTxCeased \<Rightarrow> unit bb" where
  "UTxCeased_to_bitbuf p =
     (let obit = UTxCeased_facility p \<noteq> None \<or> UTxCeased_dm_ms_address p \<noteq> None \<or> UTxCeased_proprietary p \<noteq> None
      in seq
        [write_bits (CmcePduTypeUl_into_raw CmcePduTypeUl_UTxCeased) 5,
         write_bits (ucast (UTxCeased_call_identifier p)) 14,
         bind (write_obit (of_bool obit)) (\<lambda>_. if \<not> obit then ret () else seq
           [write_type3_generic obit (UTxCeased_facility p) (CmceType3ElemId_into_raw CmceType3ElemId_Facility),
            write_type3_generic obit (UTxCeased_dm_ms_address p) (CmceType3ElemId_into_raw CmceType3ElemId_DmMsAddr),
            write_type3_generic obit (UTxCeased_proprietary p) (CmceType3ElemId_into_raw CmceType3ElemId_Proprietary),
            write_mbit 0])])"

definition UTxCeased_wf :: "UTxCeased \<Rightarrow> bool" where
  "UTxCeased_wf p \<longleftrightarrow>
     fits 14 (UTxCeased_call_identifier p) \<and>
     pred_option (wf_type3_generic (CmceType3ElemId_into_raw CmceType3ElemId_Facility)) (UTxCeased_facility p) \<and>
     pred_option (wf_type3_generic (CmceType3ElemId_into_raw CmceType3ElemId_DmMsAddr)) (UTxCeased_dm_ms_address p) \<and>
     pred_option (wf_type3_generic (CmceType3ElemId_into_raw CmceType3ElemId_Proprietary)) (UTxCeased_proprietary p)"

definition UTxCeased_enc :: "UTxCeased \<Rightarrow> bool list" where
  "UTxCeased_enc p =
     (let obit = UTxCeased_facility p \<noteq> None \<or> UTxCeased_dm_ms_address p \<noteq> None \<or> UTxCeased_proprietary p \<noteq> None
      in to_bits 5 (CmcePduTypeUl_into_raw CmcePduTypeUl_UTxCeased :: u64) @ to_bits 14 (ucast (UTxCeased_call_identifier p) :: u64) @ obit #
         enc_type3_generic (CmceType3ElemId_into_raw CmceType3ElemId_Facility) (UTxCeased_facility p) @
         enc_type3_generic (CmceType3ElemId_into_raw CmceType3ElemId_DmMsAddr) (UTxCeased_dm_ms_address p) @
         enc_type3_generic (CmceType3ElemId_into_raw CmceType3ElemId_Proprietary) (UTxCeased_proprietary p) @ (if obit then [False] else []))"

interpretation UTxCeased: safe_codec UTxCeased_wf UTxCeased_enc UTxCeased_to_bitbuf UTxCeased_from_bitbuf
proof
  show "emits (UTxCeased_to_bitbuf p) (UTxCeased_enc p)" if "UTxCeased_wf p" for p
    using that unfolding UTxCeased_to_bitbuf_def UTxCeased_enc_def UTxCeased_wf_def Let_def append_assoc append_Cons append_Nil
    by (intro l3_emits) (simp_all add: l3_simps l3_codecs)
  show "parses UTxCeased_from_bitbuf (UTxCeased_enc p) p" if "UTxCeased_wf p" for p
    unfolding UTxCeased_from_bitbuf_def UTxCeased_enc_def Let_def append_assoc append_Cons append_Nil
    by (rule parsesI) (intro parses_ret l3_parses, use that in \<open>simp_all add: UTxCeased_wf_def l3_simps l3_codecs\<close>)
  show "safe UTxCeased_from_bitbuf"
    unfolding UTxCeased_from_bitbuf_def by (intro safe_intros)
qed

section \<open>UTxDemand\<close>

text \<open>\<open>tetra-pdus/src/cmce/pdus/u_tx_demand.rs\<close>.\<close>

record UTxDemand =
  UTxDemand_call_identifier :: u16
  UTxDemand_tx_demand_priority :: u8
  UTxDemand_encryption_control :: bool
  UTxDemand_reserved :: bool
  UTxDemand_facility :: "type3_field_generic option"
  UTxDemand_dm_ms_address :: "type3_field_generic option"
  UTxDemand_proprietary :: "type3_field_generic option"

definition UTxDemand_from_bitbuf :: "UTxDemand bb" where
  "UTxDemand_from_bitbuf =
     bind (read_field 5 ''pdu_type'') (\<lambda>pdu_type.
     bind (expect_pdu_type pdu_type (CmcePduTypeUl_into_raw CmcePduTypeUl_UTxDemand)) (\<lambda>_.
     bind (read_field 14 ''call_identifier'') (\<lambda>call_identifier.
     bind (read_field 2 ''tx_demand_priority'') (\<lambda>tx_demand_priority.
     bind (read_field 1 ''encryption_control'') (\<lambda>encryption_control.
     bind (read_field 1 ''reserved'') (\<lambda>reserved.
     bind read_obit (\<lambda>obit.
     bind (parse_type3_generic obit (CmceType3ElemId_into_raw CmceType3ElemId_Facility)) (\<lambda>facility.
     bind (parse_type3_generic obit (CmceType3ElemId_into_raw CmceType3ElemId_DmMsAddr)) (\<lambda>dm_ms_address.
     bind (parse_type3_generic obit (CmceType3ElemId_into_raw CmceType3ElemId_Proprietary)) (\<lambda>proprietary.
     bind (read_trailing_mbit obit) (\<lambda>_.
     ret \<lparr>UTxDemand_call_identifier = ucast call_identifier, UTxDemand_tx_demand_priority = ucast tx_demand_priority,
          UTxDemand_encryption_control = encryption_control \<noteq> 0, UTxDemand_reserved = reserved \<noteq> 0, UTxDemand_facility = facility,
          UTxDemand_dm_ms_address = dm_ms_address, UTxDemand_proprietary = proprietary\<rparr>)))))))))))"

definition UTxDemand_to_bitbuf :: "UTxDemand \<Rightarrow> unit bb" where
  "UTxDemand_to_bitbuf p =
     (let obit = UTxDemand_facility p \<noteq> None \<or> UTxDemand_dm_ms_address p \<noteq> None \<or> UTxDemand_proprietary p \<noteq> None
      in seq
        [write_bits (CmcePduTypeUl_into_raw CmcePduTypeUl_UTxDemand) 5,
         write_bits (ucast (UTxDemand_call_identifier p)) 14,
         write_bits (ucast (UTxDemand_tx_demand_priority p)) 2,
         write_bits (of_bool (UTxDemand_encryption_control p)) 1,
         write_bits (of_bool (UTxDemand_reserved p)) 1,
         bind (write_obit (of_bool obit)) (\<lambda>_. if \<not> obit then ret () else seq
           [write_type3_generic obit (UTxDemand_facility p) (CmceType3ElemId_into_raw CmceType3ElemId_Facility),
            write_type3_generic obit (UTxDemand_dm_ms_address p) (CmceType3ElemId_into_raw CmceType3ElemId_DmMsAddr),
            write_type3_generic obit (UTxDemand_proprietary p) (CmceType3ElemId_into_raw CmceType3ElemId_Proprietary),
            write_mbit 0])])"

definition UTxDemand_wf :: "UTxDemand \<Rightarrow> bool" where
  "UTxDemand_wf p \<longleftrightarrow>
     fits 14 (UTxDemand_call_identifier p) \<and>
     fits 2 (UTxDemand_tx_demand_priority p) \<and>
     pred_option (wf_type3_generic (CmceType3ElemId_into_raw CmceType3ElemId_Facility)) (UTxDemand_facility p) \<and>
     pred_option (wf_type3_generic (CmceType3ElemId_into_raw CmceType3ElemId_DmMsAddr)) (UTxDemand_dm_ms_address p) \<and>
     pred_option (wf_type3_generic (CmceType3ElemId_into_raw CmceType3ElemId_Proprietary)) (UTxDemand_proprietary p)"

definition UTxDemand_enc :: "UTxDemand \<Rightarrow> bool list" where
  "UTxDemand_enc p =
     (let obit = UTxDemand_facility p \<noteq> None \<or> UTxDemand_dm_ms_address p \<noteq> None \<or> UTxDemand_proprietary p \<noteq> None
      in to_bits 5 (CmcePduTypeUl_into_raw CmcePduTypeUl_UTxDemand :: u64) @ to_bits 14 (ucast (UTxDemand_call_identifier p) :: u64) @
         to_bits 2 (ucast (UTxDemand_tx_demand_priority p) :: u64) @ to_bits 1 (of_bool (UTxDemand_encryption_control p) :: u64) @
         to_bits 1 (of_bool (UTxDemand_reserved p) :: u64) @ obit #
         enc_type3_generic (CmceType3ElemId_into_raw CmceType3ElemId_Facility) (UTxDemand_facility p) @
         enc_type3_generic (CmceType3ElemId_into_raw CmceType3ElemId_DmMsAddr) (UTxDemand_dm_ms_address p) @
         enc_type3_generic (CmceType3ElemId_into_raw CmceType3ElemId_Proprietary) (UTxDemand_proprietary p) @ (if obit then [False] else []))"

interpretation UTxDemand: safe_codec UTxDemand_wf UTxDemand_enc UTxDemand_to_bitbuf UTxDemand_from_bitbuf
proof
  show "emits (UTxDemand_to_bitbuf p) (UTxDemand_enc p)" if "UTxDemand_wf p" for p
    using that unfolding UTxDemand_to_bitbuf_def UTxDemand_enc_def UTxDemand_wf_def Let_def append_assoc append_Cons append_Nil
    by (intro l3_emits) (simp_all add: l3_simps l3_codecs)
  show "parses UTxDemand_from_bitbuf (UTxDemand_enc p) p" if "UTxDemand_wf p" for p
    unfolding UTxDemand_from_bitbuf_def UTxDemand_enc_def Let_def append_assoc append_Cons append_Nil
    by (rule parsesI) (intro parses_ret l3_parses, use that in \<open>simp_all add: UTxDemand_wf_def l3_simps l3_codecs\<close>)
  show "safe UTxDemand_from_bitbuf"
    unfolding UTxDemand_from_bitbuf_def by (intro safe_intros)
qed

end
