(* ===== verification/Cmce_Pdus_Dl.thy ===== *)
theory Cmce_Pdus_Dl
  imports Cmce_Fields
begin

text \<open>
  The downlink PDUs of circuit mode control (\<open>tetra-pdus/src/cmce/pdus/d_*.rs\<close>): call progress, connection and release.
\<close>

unbundle bit_operations_syntax

declare One_nat_def [simp del] split_of_bool [split del] split_of_bool_asm [split del]

section \<open>DAlert\<close>

text \<open>\<open>tetra-pdus/src/cmce/pdus/d_alert.rs\<close>.\<close>

record DAlert =
  DAlert_call_identifier :: u16
  DAlert_call_time_out_set_up_phase :: u8
  DAlert_reserved :: bool
  DAlert_simplex_duplex_selection :: bool
  DAlert_call_queued :: bool
  DAlert_basic_service_information :: "BasicServiceInformation option"
  DAlert_notification_indicator :: "u64 option"
  DAlert_facility :: "type3_field_generic option"
  DAlert_proprietary :: "type3_field_generic option"

definition DAlert_from_bitbuf :: "DAlert bb" where
  "DAlert_from_bitbuf =
     bind (read_field 5 ''pdu_type'') (\<lambda>pdu_type.
     bind (expect_pdu_type pdu_type (CmcePduTypeDl_into_raw CmcePduTypeDl_DAlert)) (\<lambda>_.
     bind (read_field 14 ''call_identifier'') (\<lambda>call_identifier.
     bind (read_field 3 ''call_time_out_set_up_phase'') (\<lambda>call_time_out_set_up_phase.
     bind (read_field 1 ''reserved'') (\<lambda>reserved.
     bind (read_field 1 ''simplex_duplex_selection'') (\<lambda>simplex_duplex_selection.
     bind (read_field 1 ''call_queued'') (\<lambda>call_queued.
     bind read_obit (\<lambda>obit.
     bind (parse_type2_struct obit BasicServiceInformation_from_bitbuf) (\<lambda>basic_service_information.
     bind (parse_type2_generic obit 6 ''notification_indicator'') (\<lambda>notification_indicator.
     bind (parse_type3_generic obit (CmceType3ElemId_into_raw CmceType3ElemId_Facility)) (\<lambda>facility.
     bind (parse_type3_generic obit (CmceType3ElemId_into_raw CmceType3ElemId_Proprietary)) (\<lambda>proprietary.
     bind (read_trailing_mbit obit) (\<lambda>_.
     ret \<lparr>DAlert_call_identifier = ucast call_identifier, DAlert_call_time_out_set_up_phase = ucast call_time_out_set_up_phase,
          DAlert_reserved = reserved \<noteq> 0, DAlert_simplex_duplex_selection = simplex_duplex_selection \<noteq> 0,
          DAlert_call_queued = call_queued \<noteq> 0, DAlert_basic_service_information = basic_service_information,
          DAlert_notification_indicator = notification_indicator, DAlert_facility = facility, DAlert_proprietary = proprietary\<rparr>)))))))))))))"

definition DAlert_to_bitbuf :: "DAlert \<Rightarrow> unit bb" where
  "DAlert_to_bitbuf p =
     (let obit = DAlert_basic_service_information p \<noteq> None \<or> DAlert_notification_indicator p \<noteq> None \<or> DAlert_facility p \<noteq> None \<or>
          DAlert_proprietary p \<noteq> None
      in seq
        [write_bits (CmcePduTypeDl_into_raw CmcePduTypeDl_DAlert) 5,
         write_bits (ucast (DAlert_call_identifier p)) 14,
         write_bits (ucast (DAlert_call_time_out_set_up_phase p)) 3,
         write_bits (of_bool (DAlert_reserved p)) 1,
         write_bits (of_bool (DAlert_simplex_duplex_selection p)) 1,
         write_bits (of_bool (DAlert_call_queued p)) 1,
         bind (write_obit (of_bool obit)) (\<lambda>_. if \<not> obit then ret () else seq
           [write_type2_struct obit (DAlert_basic_service_information p) BasicServiceInformation_to_bitbuf,
            write_type2_generic obit (DAlert_notification_indicator p) 6,
            write_type3_generic obit (DAlert_facility p) (CmceType3ElemId_into_raw CmceType3ElemId_Facility),
            write_type3_generic obit (DAlert_proprietary p) (CmceType3ElemId_into_raw CmceType3ElemId_Proprietary),
            write_mbit 0])])"

definition DAlert_wf :: "DAlert \<Rightarrow> bool" where
  "DAlert_wf p \<longleftrightarrow>
     fits 14 (DAlert_call_identifier p) \<and>
     fits 3 (DAlert_call_time_out_set_up_phase p) \<and>
     pred_option BasicServiceInformation_wf (DAlert_basic_service_information p) \<and>
     pred_option (fits 6) (DAlert_notification_indicator p) \<and>
     pred_option (wf_type3_generic (CmceType3ElemId_into_raw CmceType3ElemId_Facility)) (DAlert_facility p) \<and>
     pred_option (wf_type3_generic (CmceType3ElemId_into_raw CmceType3ElemId_Proprietary)) (DAlert_proprietary p)"

definition DAlert_enc :: "DAlert \<Rightarrow> bool list" where
  "DAlert_enc p =
     (let obit = DAlert_basic_service_information p \<noteq> None \<or> DAlert_notification_indicator p \<noteq> None \<or> DAlert_facility p \<noteq> None \<or>
          DAlert_proprietary p \<noteq> None
      in to_bits 5 (CmcePduTypeDl_into_raw CmcePduTypeDl_DAlert :: u64) @ to_bits 14 (ucast (DAlert_call_identifier p) :: u64) @
         to_bits 3 (ucast (DAlert_call_time_out_set_up_phase p) :: u64) @ to_bits 1 (of_bool (DAlert_reserved p) :: u64) @
         to_bits 1 (of_bool (DAlert_simplex_duplex_selection p) :: u64) @ to_bits 1 (of_bool (DAlert_call_queued p) :: u64) @ obit #
         enc_type2 obit BasicServiceInformation_enc (DAlert_basic_service_information p) @
         enc_type2 obit (to_bits 6) (DAlert_notification_indicator p) @
         enc_type3_generic (CmceType3ElemId_into_raw CmceType3ElemId_Facility) (DAlert_facility p) @
         enc_type3_generic (CmceType3ElemId_into_raw CmceType3ElemId_Proprietary) (DAlert_proprietary p) @ (if obit then [False] else []))"

interpretation DAlert: safe_codec DAlert_wf DAlert_enc DAlert_to_bitbuf DAlert_from_bitbuf
proof
  show "emits (DAlert_to_bitbuf p) (DAlert_enc p)" if "DAlert_wf p" for p
    using that unfolding DAlert_to_bitbuf_def DAlert_enc_def DAlert_wf_def Let_def append_assoc append_Cons append_Nil
    by (intro l3_emits) (simp_all add: l3_simps l3_codecs)
  show "parses DAlert_from_bitbuf (DAlert_enc p) p" if "DAlert_wf p" for p
    unfolding DAlert_from_bitbuf_def DAlert_enc_def Let_def append_assoc append_Cons append_Nil
    by (rule parsesI) (intro parses_ret l3_parses, use that in \<open>simp_all add: DAlert_wf_def l3_simps l3_codecs\<close>)
  show "safe DAlert_from_bitbuf"
    unfolding DAlert_from_bitbuf_def by (intro safe_intros)
qed

section \<open>DCallProceeding\<close>

text \<open>\<open>tetra-pdus/src/cmce/pdus/d_call_proceeding.rs\<close>.\<close>

record DCallProceeding =
  DCallProceeding_call_identifier :: u16
  DCallProceeding_call_time_out_set_up_phase :: CallTimeoutSetupPhase
  DCallProceeding_hook_method_selection :: bool
  DCallProceeding_simplex_duplex_selection :: bool
  DCallProceeding_basic_service_information :: "BasicServiceInformation option"
  DCallProceeding_call_status :: "CallStatus option"
  DCallProceeding_notification_indicator :: "u64 option"
  DCallProceeding_facility :: "type3_field_generic option"
  DCallProceeding_proprietary :: "type3_field_generic option"

definition DCallProceeding_from_bitbuf :: "DCallProceeding bb" where
  "DCallProceeding_from_bitbuf =
     bind (read_field 5 ''pdu_type'') (\<lambda>pdu_type.
     bind (expect_pdu_type pdu_type (CmcePduTypeDl_into_raw CmcePduTypeDl_DCallProceeding)) (\<lambda>_.
     bind (read_field 14 ''call_identifier'') (\<lambda>call_identifier.
     bind (read_enum_unwrap CallTimeoutSetupPhase_try_from 3 ''call_time_out_set_up_phase'') (\<lambda>call_time_out_set_up_phase.
     bind (read_field 1 ''hook_method_selection'') (\<lambda>hook_method_selection.
     bind (read_field 1 ''simplex_duplex_selection'') (\<lambda>simplex_duplex_selection.
     bind read_obit (\<lambda>obit.
     bind (parse_type2_struct obit BasicServiceInformation_from_bitbuf) (\<lambda>basic_service_information.
     bind (parse_type2_enum obit CallStatus_try_from 3 ''call_status'') (\<lambda>call_status.
     bind (parse_type2_generic obit 6 ''notification_indicator'') (\<lambda>notification_indicator.
     bind (parse_type3_generic obit (CmceType3ElemId_into_raw CmceType3ElemId_Facility)) (\<lambda>facility.
     bind (parse_type3_generic obit (CmceType3ElemId_into_raw CmceType3ElemId_Proprietary)) (\<lambda>proprietary.
     bind (read_trailing_mbit obit) (\<lambda>_.
     ret \<lparr>DCallProceeding_call_identifier = ucast call_identifier, DCallProceeding_call_time_out_set_up_phase = call_time_out_set_up_phase,
          DCallProceeding_hook_method_selection = hook_method_selection \<noteq> 0,
          DCallProceeding_simplex_duplex_selection = simplex_duplex_selection \<noteq> 0, DCallProceeding_basic_service_information = basic_service_information,
          DCallProceeding_call_status = call_status, DCallProceeding_notification_indicator = notification_indicator, DCallProceeding_facility = facility,
          DCallProceeding_proprietary = proprietary\<rparr>)))))))))))))"

definition DCallProceeding_to_bitbuf :: "DCallProceeding \<Rightarrow> unit bb" where
  "DCallProceeding_to_bitbuf p =
     (let obit = DCallProceeding_basic_service_information p \<noteq> None \<or> DCallProceeding_call_status p \<noteq> None \<or>
          DCallProceeding_notification_indicator p \<noteq> None \<or> DCallProceeding_facility p \<noteq> None \<or>
          DCallProceeding_proprietary p \<noteq> None
      in seq
        [write_bits (CmcePduTypeDl_into_raw CmcePduTypeDl_DCallProceeding) 5,
         write_bits (ucast (DCallProceeding_call_identifier p)) 14,
         write_bits (CallTimeoutSetupPhase_into_raw (DCallProceeding_call_time_out_set_up_phase p)) 3,
         write_bits (of_bool (DCallProceeding_hook_method_selection p)) 1,
         write_bits (of_bool (DCallProceeding_simplex_duplex_selection p)) 1,
         bind (write_obit (of_bool obit)) (\<lambda>_. if \<not> obit then ret () else seq
           [write_type2_struct obit (DCallProceeding_basic_service_information p) BasicServiceInformation_to_bitbuf,
            write_type2_generic obit (map_option CallStatus_into_raw (DCallProceeding_call_status p)) 3,
            write_type2_generic obit (DCallProceeding_notification_indicator p) 6,
            write_type3_generic obit (DCallProceeding_facility p) (CmceType3ElemId_into_raw CmceType3ElemId_Facility),
            write_type3_generic obit (DCallProceeding_proprietary p) (CmceType3ElemId_into_raw CmceType3ElemId_Proprietary),
            write_mbit 0])])"

definition DCallProceeding_wf :: "DCallProceeding \<Rightarrow> bool" where
  "DCallProceeding_wf p \<longleftrightarrow>
     fits 14 (DCallProceeding_call_identifier p) \<and>
     pred_option BasicServiceInformation_wf (DCallProceeding_basic_service_information p) \<and>
     pred_option (fits 6) (DCallProceeding_notification_indicator p) \<and>
     pred_option (wf_type3_generic (CmceType3ElemId_into_raw CmceType3ElemId_Facility)) (DCallProceeding_facility p) \<and>
     pred_option (wf_type3_generic (CmceType3ElemId_into_raw CmceType3ElemId_Proprietary)) (DCallProceeding_proprietary p)"

definition DCallProceeding_enc :: "DCallProceeding \<Rightarrow> bool list" where
  "DCallProceeding_enc p =
     (let obit = DCallProceeding_basic_service_information p \<noteq> None \<or> DCallProceeding_call_status p \<noteq> None \<or>
          DCallProceeding_notification_indicator p \<noteq> None \<or> DCallProceeding_facility p \<noteq> None \<or>
          DCallProceeding_proprietary p \<noteq> None
      in to_bits 5 (CmcePduTypeDl_into_raw CmcePduTypeDl_DCallProceeding :: u64) @ to_bits 14 (ucast (DCallProceeding_call_identifier p) :: u64) @
         to_bits 3 (CallTimeoutSetupPhase_into_raw (DCallProceeding_call_time_out_set_up_phase p) :: u64) @
         to_bits 1 (of_bool (DCallProceeding_hook_method_selection p) :: u64) @
         to_bits 1 (of_bool (DCallProceeding_simplex_duplex_selection p) :: u64) @ obit #
         enc_type2 obit BasicServiceInformation_enc (DCallProceeding_basic_service_information p) @
         enc_type2 obit (to_bits 3) (map_option CallStatus_into_raw (DCallProceeding_call_status p)) @
         enc_type2 obit (to_bits 6) (DCallProceeding_notification_indicator p) @
         enc_type3_generic (CmceType3ElemId_into_raw CmceType3ElemId_Facility) (DCallProceeding_facility p) @
         enc_type3_generic (CmceType3ElemId_into_raw CmceType3ElemId_Proprietary) (DCallProceeding_proprietary p) @ (if obit then [False] else []))"

interpretation DCallProceeding: safe_codec DCallProceeding_wf DCallProceeding_enc DCallProceeding_to_bitbuf DCallProceeding_from_bitbuf
proof
  show "emits (DCallProceeding_to_bitbuf p) (DCallProceeding_enc p)" if "DCallProceeding_wf p" for p
    using that unfolding DCallProceeding_to_bitbuf_def DCallProceeding_enc_def DCallProceeding_wf_def Let_def append_assoc append_Cons append_Nil
    by (intro l3_emits) (simp_all add: l3_simps l3_codecs)
  show "parses DCallProceeding_from_bitbuf (DCallProceeding_enc p) p" if "DCallProceeding_wf p" for p
    unfolding DCallProceeding_from_bitbuf_def DCallProceeding_enc_def Let_def append_assoc append_Cons append_Nil
    by (rule parsesI) (intro parses_ret l3_parses, use that in \<open>simp_all add: DCallProceeding_wf_def l3_simps l3_codecs\<close>)
  show "safe DCallProceeding_from_bitbuf"
    unfolding DCallProceeding_from_bitbuf_def by (intro safe_intros)
qed

section \<open>DCallRestore\<close>

text \<open>\<open>tetra-pdus/src/cmce/pdus/d_call_restore.rs\<close>.\<close>

record DCallRestore =
  DCallRestore_call_identifier :: u16
  DCallRestore_transmission_grant :: u8
  DCallRestore_transmission_request_permission :: bool
  DCallRestore_reset_call_time_out_timer_t310 :: bool
  DCallRestore_new_call_identifier :: "u64 option"
  DCallRestore_call_time_out :: "u64 option"
  DCallRestore_call_status :: "u64 option"
  DCallRestore_modify :: "u64 option"
  DCallRestore_notification_indicator :: "u64 option"
  DCallRestore_facility :: "type3_field_generic option"
  DCallRestore_temporary_address :: "type3_field_generic option"
  DCallRestore_dm_ms_address :: "type3_field_generic option"
  DCallRestore_proprietary :: "type3_field_generic option"

definition DCallRestore_from_bitbuf :: "DCallRestore bb" where
  "DCallRestore_from_bitbuf =
     bind (read_field 5 ''pdu_type'') (\<lambda>pdu_type.
     bind (expect_pdu_type pdu_type (CmcePduTypeDl_into_raw CmcePduTypeDl_DCallRestore)) (\<lambda>_.
     bind (read_field 14 ''call_identifier'') (\<lambda>call_identifier.
     bind (read_field 2 ''transmission_grant'') (\<lambda>transmission_grant.
     bind (read_field 1 ''transmission_request_permission'') (\<lambda>transmission_request_permission.
     bind (read_field 1 ''reset_call_time_out_timer_t310_'') (\<lambda>reset_call_time_out_timer_t310.
     bind read_obit (\<lambda>obit.
     bind (parse_type2_generic obit 14 ''new_call_identifier'') (\<lambda>new_call_identifier.
     bind (parse_type2_generic obit 4 ''call_time_out'') (\<lambda>call_time_out.
     bind (parse_type2_generic obit 3 ''call_status'') (\<lambda>call_status.
     bind (parse_type2_generic obit 9 ''modify'') (\<lambda>modify.
     bind (parse_type2_generic obit 6 ''notification_indicator'') (\<lambda>notification_indicator.
     bind (parse_type3_generic obit (CmceType3ElemId_into_raw CmceType3ElemId_Facility)) (\<lambda>facility.
     bind (parse_type3_generic obit (CmceType3ElemId_into_raw CmceType3ElemId_TempAddr)) (\<lambda>temporary_address.
     bind (parse_type3_generic obit (CmceType3ElemId_into_raw CmceType3ElemId_DmMsAddr)) (\<lambda>dm_ms_address.
     bind (parse_type3_generic obit (CmceType3ElemId_into_raw CmceType3ElemId_Proprietary)) (\<lambda>proprietary.
     bind (read_trailing_mbit obit) (\<lambda>_.
     ret \<lparr>DCallRestore_call_identifier = ucast call_identifier, DCallRestore_transmission_grant = ucast transmission_grant,
          DCallRestore_transmission_request_permission = transmission_request_permission \<noteq> 0,
          DCallRestore_reset_call_time_out_timer_t310 = reset_call_time_out_timer_t310 \<noteq> 0, DCallRestore_new_call_identifier = new_call_identifier,
          DCallRestore_call_time_out = call_time_out, DCallRestore_call_status = call_status, DCallRestore_modify = modify,
          DCallRestore_notification_indicator = notification_indicator, DCallRestore_facility = facility, DCallRestore_temporary_address = temporary_address,
          DCallRestore_dm_ms_address = dm_ms_address, DCallRestore_proprietary = proprietary\<rparr>)))))))))))))))))"

definition DCallRestore_to_bitbuf :: "DCallRestore \<Rightarrow> unit bb" where
  "DCallRestore_to_bitbuf p =
     (let obit = DCallRestore_new_call_identifier p \<noteq> None \<or> DCallRestore_call_time_out p \<noteq> None \<or>
          DCallRestore_call_status p \<noteq> None \<or> DCallRestore_modify p \<noteq> None \<or> DCallRestore_notification_indicator p \<noteq> None \<or>
          DCallRestore_facility p \<noteq> None \<or> DCallRestore_temporary_address p \<noteq> None \<or> DCallRestore_dm_ms_address p \<noteq> None \<or>
          DCallRestore_proprietary p \<noteq> None
      in seq
        [write_bits (CmcePduTypeDl_into_raw CmcePduTypeDl_DCallRestore) 5,
         write_bits (ucast (DCallRestore_call_identifier p)) 14,
         write_bits (ucast (DCallRestore_transmission_grant p)) 2,
         write_bits (of_bool (DCallRestore_transmission_request_permission p)) 1,
         write_bits (of_bool (DCallRestore_reset_call_time_out_timer_t310 p)) 1,
         bind (write_obit (of_bool obit)) (\<lambda>_. if \<not> obit then ret () else seq
           [write_type2_generic obit (DCallRestore_new_call_identifier p) 14,
            write_type2_generic obit (DCallRestore_call_time_out p) 4,
            write_type2_generic obit (DCallRestore_call_status p) 3,
            write_type2_generic obit (DCallRestore_modify p) 9,
            write_type2_generic obit (DCallRestore_notification_indicator p) 6,
            write_type3_generic obit (DCallRestore_facility p) (CmceType3ElemId_into_raw CmceType3ElemId_Facility),
            write_type3_generic obit (DCallRestore_temporary_address p) (CmceType3ElemId_into_raw CmceType3ElemId_TempAddr),
            write_type3_generic obit (DCallRestore_dm_ms_address p) (CmceType3ElemId_into_raw CmceType3ElemId_DmMsAddr),
            write_type3_generic obit (DCallRestore_proprietary p) (CmceType3ElemId_into_raw CmceType3ElemId_Proprietary),
            write_mbit 0])])"

definition DCallRestore_wf :: "DCallRestore \<Rightarrow> bool" where
  "DCallRestore_wf p \<longleftrightarrow>
     fits 14 (DCallRestore_call_identifier p) \<and>
     fits 2 (DCallRestore_transmission_grant p) \<and>
     pred_option (fits 14) (DCallRestore_new_call_identifier p) \<and>
     pred_option (fits 4) (DCallRestore_call_time_out p) \<and>
     pred_option (fits 3) (DCallRestore_call_status p) \<and>
     pred_option (fits 9) (DCallRestore_modify p) \<and>
     pred_option (fits 6) (DCallRestore_notification_indicator p) \<and>
     pred_option (wf_type3_generic (CmceType3ElemId_into_raw CmceType3ElemId_Facility)) (DCallRestore_facility p) \<and>
     pred_option (wf_type3_generic (CmceType3ElemId_into_raw CmceType3ElemId_TempAddr)) (DCallRestore_temporary_address p) \<and>
     pred_option (wf_type3_generic (CmceType3ElemId_into_raw CmceType3ElemId_DmMsAddr)) (DCallRestore_dm_ms_address p) \<and>
     pred_option (wf_type3_generic (CmceType3ElemId_into_raw CmceType3ElemId_Proprietary)) (DCallRestore_proprietary p)"

definition DCallRestore_enc :: "DCallRestore \<Rightarrow> bool list" where
  "DCallRestore_enc p =
     (let obit = DCallRestore_new_call_identifier p \<noteq> None \<or> DCallRestore_call_time_out p \<noteq> None \<or>
          DCallRestore_call_status p \<noteq> None \<or> DCallRestore_modify p \<noteq> None \<or> DCallRestore_notification_indicator p \<noteq> None \<or>
          DCallRestore_facility p \<noteq> None \<or> DCallRestore_temporary_address p \<noteq> None \<or> DCallRestore_dm_ms_address p \<noteq> None \<or>
          DCallRestore_proprietary p \<noteq> None
      in to_bits 5 (CmcePduTypeDl_into_raw CmcePduTypeDl_DCallRestore :: u64) @ to_bits 14 (ucast (DCallRestore_call_identifier p) :: u64) @
         to_bits 2 (ucast (DCallRestore_transmission_grant p) :: u64) @ to_bits 1 (of_bool (DCallRestore_transmission_request_permission p) :: u64) @
         to_bits 1 (of_bool (DCallRestore_reset_call_time_out_timer_t310 p) :: u64) @ obit #
         enc_type2 obit (to_bits 14) (DCallRestore_new_call_identifier p) @ enc_type2 obit (to_bits 4) (DCallRestore_call_time_out p) @
         enc_type2 obit (to_bits 3) (DCallRestore_call_status p) @ enc_type2 obit (to_bits 9) (DCallRestore_modify p) @
         enc_type2 obit (to_bits 6) (DCallRestore_notification_indicator p) @
         enc_type3_generic (CmceType3ElemId_into_raw CmceType3ElemId_Facility) (DCallRestore_facility p) @
         enc_type3_generic (CmceType3ElemId_into_raw CmceType3ElemId_TempAddr) (DCallRestore_temporary_address p) @
         enc_type3_generic (CmceType3ElemId_into_raw CmceType3ElemId_DmMsAddr) (DCallRestore_dm_ms_address p) @
         enc_type3_generic (CmceType3ElemId_into_raw CmceType3ElemId_Proprietary) (DCallRestore_proprietary p) @ (if obit then [False] else []))"

interpretation DCallRestore: safe_codec DCallRestore_wf DCallRestore_enc DCallRestore_to_bitbuf DCallRestore_from_bitbuf
proof
  show "emits (DCallRestore_to_bitbuf p) (DCallRestore_enc p)" if "DCallRestore_wf p" for p
    using that unfolding DCallRestore_to_bitbuf_def DCallRestore_enc_def DCallRestore_wf_def Let_def append_assoc append_Cons append_Nil
    by (intro l3_emits) (simp_all add: l3_simps l3_codecs)
  show "parses DCallRestore_from_bitbuf (DCallRestore_enc p) p" if "DCallRestore_wf p" for p
    unfolding DCallRestore_from_bitbuf_def DCallRestore_enc_def Let_def append_assoc append_Cons append_Nil
    by (rule parsesI) (intro parses_ret l3_parses, use that in \<open>simp_all add: DCallRestore_wf_def l3_simps l3_codecs\<close>)
  show "safe DCallRestore_from_bitbuf"
    unfolding DCallRestore_from_bitbuf_def by (intro safe_intros)
qed

section \<open>DConnect\<close>

text \<open>\<open>tetra-pdus/src/cmce/pdus/d_connect.rs\<close>.\<close>

record DConnect =
  DConnect_call_identifier :: u16
  DConnect_call_time_out :: CallTimeout
  DConnect_hook_method_selection :: bool
  DConnect_simplex_duplex_selection :: bool
  DConnect_transmission_grant :: TransmissionGrant
  DConnect_transmission_request_permission :: bool
  DConnect_call_ownership :: bool
  DConnect_call_priority :: "u64 option"
  DConnect_basic_service_information :: "BasicServiceInformation option"
  DConnect_temporary_address :: "u64 option"
  DConnect_notification_indicator :: "u64 option"
  DConnect_facility :: "type3_field_generic option"
  DConnect_proprietary :: "type3_field_generic option"

definition DConnect_from_bitbuf :: "DConnect bb" where
  "DConnect_from_bitbuf =
     bind (read_field 5 ''pdu_type'') (\<lambda>pdu_type.
     bind (expect_pdu_type pdu_type (CmcePduTypeDl_into_raw CmcePduTypeDl_DConnect)) (\<lambda>_.
     bind (read_field 14 ''call_identifier'') (\<lambda>call_identifier.
     bind (read_enum_unwrap CallTimeout_try_from 4 ''call_time_out'') (\<lambda>call_time_out.
     bind (read_field 1 ''hook_method_selection'') (\<lambda>hook_method_selection.
     bind (read_field 1 ''simplex_duplex_selection'') (\<lambda>simplex_duplex_selection.
     bind (read_enum_unwrap TransmissionGrant_try_from 2 ''transmission_grant'') (\<lambda>transmission_grant.
     bind (read_field 1 ''transmission_request_permission'') (\<lambda>transmission_request_permission.
     bind (read_field 1 ''call_ownership'') (\<lambda>call_ownership.
     bind read_obit (\<lambda>obit.
     bind (parse_type2_generic obit 4 ''call_priority'') (\<lambda>call_priority.
     bind (parse_type2_struct obit BasicServiceInformation_from_bitbuf) (\<lambda>basic_service_information.
     bind (parse_type2_generic obit 24 ''temporary_address'') (\<lambda>temporary_address.
     bind (parse_type2_generic obit 6 ''notification_indicator'') (\<lambda>notification_indicator.
     bind (parse_type3_generic obit (CmceType3ElemId_into_raw CmceType3ElemId_Facility)) (\<lambda>facility.
     bind (parse_type3_generic obit (CmceType3ElemId_into_raw CmceType3ElemId_Proprietary)) (\<lambda>proprietary.
     bind (read_trailing_mbit obit) (\<lambda>_.
     ret \<lparr>DConnect_call_identifier = ucast call_identifier, DConnect_call_time_out = call_time_out,
          DConnect_hook_method_selection = hook_method_selection \<noteq> 0, DConnect_simplex_duplex_selection = simplex_duplex_selection \<noteq> 0,
          DConnect_transmission_grant = transmission_grant, DConnect_transmission_request_permission = transmission_request_permission \<noteq> 0,
          DConnect_call_ownership = call_ownership \<noteq> 0, DConnect_call_priority = call_priority,
          DConnect_basic_service_information = basic_service_information, DConnect_temporary_address = temporary_address,
          DConnect_notification_indicator = notification_indicator, DConnect_facility = facility, DConnect_proprietary = proprietary\<rparr>)))))))))))))))))"

definition DConnect_to_bitbuf :: "DConnect \<Rightarrow> unit bb" where
  "DConnect_to_bitbuf p =
     (let obit = DConnect_call_priority p \<noteq> None \<or> DConnect_basic_service_information p \<noteq> None \<or>
          DConnect_temporary_address p \<noteq> None \<or> DConnect_notification_indicator p \<noteq> None \<or> DConnect_facility p \<noteq> None \<or>
          DConnect_proprietary p \<noteq> None
      in seq
        [write_bits (CmcePduTypeDl_into_raw CmcePduTypeDl_DConnect) 5,
         write_bits (ucast (DConnect_call_identifier p)) 14,
         write_bits (CallTimeout_into_raw (DConnect_call_time_out p)) 4,
         write_bits (of_bool (DConnect_hook_method_selection p)) 1,
         write_bits (of_bool (DConnect_simplex_duplex_selection p)) 1,
         write_bits (TransmissionGrant_into_raw (DConnect_transmission_grant p)) 2,
         write_bits (of_bool (DConnect_transmission_request_permission p)) 1,
         write_bits (of_bool (DConnect_call_ownership p)) 1,
         bind (write_obit (of_bool obit)) (\<lambda>_. if \<not> obit then ret () else seq
           [write_type2_generic obit (DConnect_call_priority p) 4,
            write_type2_struct obit (DConnect_basic_service_information p) BasicServiceInformation_to_bitbuf,
            write_type2_generic obit (DConnect_temporary_address p) 24,
            write_type2_generic obit (DConnect_notification_indicator p) 6,
            write_type3_generic obit (DConnect_facility p) (CmceType3ElemId_into_raw CmceType3ElemId_Facility),
            write_type3_generic obit (DConnect_proprietary p) (CmceType3ElemId_into_raw CmceType3ElemId_Proprietary),
            write_mbit 0])])"

definition DConnect_wf :: "DConnect \<Rightarrow> bool" where
  "DConnect_wf p \<longleftrightarrow>
     fits 14 (DConnect_call_identifier p) \<and>
     pred_option (fits 4) (DConnect_call_priority p) \<and>
     pred_option BasicServiceInformation_wf (DConnect_basic_service_information p) \<and>
     pred_option (fits 24) (DConnect_temporary_address p) \<and>
     pred_option (fits 6) (DConnect_notification_indicator p) \<and>
     pred_option (wf_type3_generic (CmceType3ElemId_into_raw CmceType3ElemId_Facility)) (DConnect_facility p) \<and>
     pred_option (wf_type3_generic (CmceType3ElemId_into_raw CmceType3ElemId_Proprietary)) (DConnect_proprietary p)"

definition DConnect_enc :: "DConnect \<Rightarrow> bool list" where
  "DConnect_enc p =
     (let obit = DConnect_call_priority p \<noteq> None \<or> DConnect_basic_service_information p \<noteq> None \<or>
          DConnect_temporary_address p \<noteq> None \<or> DConnect_notification_indicator p \<noteq> None \<or> DConnect_facility p \<noteq> None \<or>
          DConnect_proprietary p \<noteq> None
      in to_bits 5 (CmcePduTypeDl_into_raw CmcePduTypeDl_DConnect :: u64) @ to_bits 14 (ucast (DConnect_call_identifier p) :: u64) @
         to_bits 4 (CallTimeout_into_raw (DConnect_call_time_out p) :: u64) @ to_bits 1 (of_bool (DConnect_hook_method_selection p) :: u64) @
         to_bits 1 (of_bool (DConnect_simplex_duplex_selection p) :: u64) @
         to_bits 2 (TransmissionGrant_into_raw (DConnect_transmission_grant p) :: u64) @
         to_bits 1 (of_bool (DConnect_transmission_request_permission p) :: u64) @ to_bits 1 (of_bool (DConnect_call_ownership p) :: u64) @ obit #
         enc_type2 obit (to_bits 4) (DConnect_call_priority p) @ enc_type2 obit BasicServiceInformation_enc (DConnect_basic_service_information p) @
         enc_type2 obit (to_bits 24) (DConnect_temporary_address p) @ enc_type2 obit (to_bits 6) (DConnect_notification_indicator p) @
         enc_type3_generic (CmceType3ElemId_into_raw CmceType3ElemId_Facility) (DConnect_facility p) @
         enc_type3_generic (CmceType3ElemId_into_raw CmceType3ElemId_Proprietary) (DConnect_proprietary p) @ (if obit then [False] else []))"

interpretation DConnect: safe_codec DConnect_wf DConnect_enc DConnect_to_bitbuf DConnect_from_bitbuf
proof
  show "emits (DConnect_to_bitbuf p) (DConnect_enc p)" if "DConnect_wf p" for p
    using that unfolding DConnect_to_bitbuf_def DConnect_enc_def DConnect_wf_def Let_def append_assoc append_Cons append_Nil
    by (intro l3_emits) (simp_all add: l3_simps l3_codecs)
  show "parses DConnect_from_bitbuf (DConnect_enc p) p" if "DConnect_wf p" for p
    unfolding DConnect_from_bitbuf_def DConnect_enc_def Let_def append_assoc append_Cons append_Nil
    by (rule parsesI) (intro parses_ret l3_parses, use that in \<open>simp_all add: DConnect_wf_def l3_simps l3_codecs\<close>)
  show "safe DConnect_from_bitbuf"
    unfolding DConnect_from_bitbuf_def by (intro safe_intros)
qed

section \<open>DConnectAcknowledge\<close>

text \<open>\<open>tetra-pdus/src/cmce/pdus/d_connect_acknowledge.rs\<close>.\<close>

record DConnectAcknowledge =
  DConnectAcknowledge_call_identifier :: u16
  DConnectAcknowledge_call_time_out :: u8
  DConnectAcknowledge_transmission_grant :: u8
  DConnectAcknowledge_transmission_request_permission :: bool
  DConnectAcknowledge_notification_indicator :: "u64 option"
  DConnectAcknowledge_facility :: "type3_field_generic option"
  DConnectAcknowledge_proprietary :: "type3_field_generic option"

definition DConnectAcknowledge_from_bitbuf :: "DConnectAcknowledge bb" where
  "DConnectAcknowledge_from_bitbuf =
     bind (read_field 5 ''pdu_type'') (\<lambda>pdu_type.
     bind (expect_pdu_type pdu_type (CmcePduTypeDl_into_raw CmcePduTypeDl_DConnectAcknowledge)) (\<lambda>_.
     bind (read_field 14 ''call_identifier'') (\<lambda>call_identifier.
     bind (read_field 4 ''call_time_out'') (\<lambda>call_time_out.
     bind (read_field 2 ''transmission_grant'') (\<lambda>transmission_grant.
     bind (read_field 1 ''transmission_request_permission'') (\<lambda>transmission_request_permission.
     bind read_obit (\<lambda>obit.
     bind (parse_type2_generic obit 6 ''notification_indicator'') (\<lambda>notification_indicator.
     bind (parse_type3_generic obit (CmceType3ElemId_into_raw CmceType3ElemId_Facility)) (\<lambda>facility.
     bind (parse_type3_generic obit (CmceType3ElemId_into_raw CmceType3ElemId_Proprietary)) (\<lambda>proprietary.
     bind (read_trailing_mbit obit) (\<lambda>_.
     ret \<lparr>DConnectAcknowledge_call_identifier = ucast call_identifier, DConnectAcknowledge_call_time_out = ucast call_time_out,
          DConnectAcknowledge_transmission_grant = ucast transmission_grant,
          DConnectAcknowledge_transmission_request_permission = transmission_request_permission \<noteq> 0,
          DConnectAcknowledge_notification_indicator = notification_indicator, DConnectAcknowledge_facility = facility,
          DConnectAcknowledge_proprietary = proprietary\<rparr>)))))))))))"

definition DConnectAcknowledge_to_bitbuf :: "DConnectAcknowledge \<Rightarrow> unit bb" where
  "DConnectAcknowledge_to_bitbuf p =
     (let obit = DConnectAcknowledge_notification_indicator p \<noteq> None \<or> DConnectAcknowledge_facility p \<noteq> None \<or>
          DConnectAcknowledge_proprietary p \<noteq> None
      in seq
        [write_bits (CmcePduTypeDl_into_raw CmcePduTypeDl_DConnectAcknowledge) 5,
         write_bits (ucast (DConnectAcknowledge_call_identifier p)) 14,
         write_bits (ucast (DConnectAcknowledge_call_time_out p)) 4,
         write_bits (ucast (DConnectAcknowledge_transmission_grant p)) 2,
         write_bits (of_bool (DConnectAcknowledge_transmission_request_permission p)) 1,
         bind (write_obit (of_bool obit)) (\<lambda>_. if \<not> obit then ret () else seq
           [write_type2_generic obit (DConnectAcknowledge_notification_indicator p) 6,
            write_type3_generic obit (DConnectAcknowledge_facility p) (CmceType3ElemId_into_raw CmceType3ElemId_Facility),
            write_type3_generic obit (DConnectAcknowledge_proprietary p) (CmceType3ElemId_into_raw CmceType3ElemId_Proprietary),
            write_mbit 0])])"

definition DConnectAcknowledge_wf :: "DConnectAcknowledge \<Rightarrow> bool" where
  "DConnectAcknowledge_wf p \<longleftrightarrow>
     fits 14 (DConnectAcknowledge_call_identifier p) \<and>
     fits 4 (DConnectAcknowledge_call_time_out p) \<and>
     fits 2 (DConnectAcknowledge_transmission_grant p) \<and>
     pred_option (fits 6) (DConnectAcknowledge_notification_indicator p) \<and>
     pred_option (wf_type3_generic (CmceType3ElemId_into_raw CmceType3ElemId_Facility)) (DConnectAcknowledge_facility p) \<and>
     pred_option (wf_type3_generic (CmceType3ElemId_into_raw CmceType3ElemId_Proprietary)) (DConnectAcknowledge_proprietary p)"

definition DConnectAcknowledge_enc :: "DConnectAcknowledge \<Rightarrow> bool list" where
  "DConnectAcknowledge_enc p =
     (let obit = DConnectAcknowledge_notification_indicator p \<noteq> None \<or> DConnectAcknowledge_facility p \<noteq> None \<or>
          DConnectAcknowledge_proprietary p \<noteq> None
      in to_bits 5 (CmcePduTypeDl_into_raw CmcePduTypeDl_DConnectAcknowledge :: u64) @
         to_bits 14 (ucast (DConnectAcknowledge_call_identifier p) :: u64) @ to_bits 4 (ucast (DConnectAcknowledge_call_time_out p) :: u64) @
         to_bits 2 (ucast (DConnectAcknowledge_transmission_grant p) :: u64) @
         to_bits 1 (of_bool (DConnectAcknowledge_transmission_request_permission p) :: u64) @ obit #
         enc_type2 obit (to_bits 6) (DConnectAcknowledge_notification_indicator p) @
         enc_type3_generic (CmceType3ElemId_into_raw CmceType3ElemId_Facility) (DConnectAcknowledge_facility p) @
         enc_type3_generic (CmceType3ElemId_into_raw CmceType3ElemId_Proprietary) (DConnectAcknowledge_proprietary p) @
         (if obit then [False] else []))"

interpretation DConnectAcknowledge: safe_codec DConnectAcknowledge_wf DConnectAcknowledge_enc DConnectAcknowledge_to_bitbuf DConnectAcknowledge_from_bitbuf
proof
  show "emits (DConnectAcknowledge_to_bitbuf p) (DConnectAcknowledge_enc p)" if "DConnectAcknowledge_wf p" for p
    using that unfolding DConnectAcknowledge_to_bitbuf_def DConnectAcknowledge_enc_def DConnectAcknowledge_wf_def Let_def append_assoc append_Cons append_Nil
    by (intro l3_emits) (simp_all add: l3_simps l3_codecs)
  show "parses DConnectAcknowledge_from_bitbuf (DConnectAcknowledge_enc p) p" if "DConnectAcknowledge_wf p" for p
    unfolding DConnectAcknowledge_from_bitbuf_def DConnectAcknowledge_enc_def Let_def append_assoc append_Cons append_Nil
    by (rule parsesI) (intro parses_ret l3_parses, use that in \<open>simp_all add: DConnectAcknowledge_wf_def l3_simps l3_codecs\<close>)
  show "safe DConnectAcknowledge_from_bitbuf"
    unfolding DConnectAcknowledge_from_bitbuf_def by (intro safe_intros)
qed

section \<open>DDisconnect\<close>

text \<open>\<open>tetra-pdus/src/cmce/pdus/d_disconnect.rs\<close>.\<close>

record DDisconnect =
  DDisconnect_call_identifier :: u16
  DDisconnect_disconnect_cause :: DisconnectCause
  DDisconnect_notification_indicator :: "u64 option"
  DDisconnect_facility :: "type3_field_generic option"
  DDisconnect_proprietary :: "type3_field_generic option"

definition DDisconnect_from_bitbuf :: "DDisconnect bb" where
  "DDisconnect_from_bitbuf =
     bind (read_field 5 ''pdu_type'') (\<lambda>pdu_type.
     bind (expect_pdu_type pdu_type (CmcePduTypeDl_into_raw CmcePduTypeDl_DDisconnect)) (\<lambda>_.
     bind (read_field 14 ''call_identifier'') (\<lambda>call_identifier.
     bind (read_enum DisconnectCause_try_from 5 ''disconnect_cause'') (\<lambda>disconnect_cause.
     bind read_obit (\<lambda>obit.
     bind (parse_type2_generic obit 6 ''notification_indicator'') (\<lambda>notification_indicator.
     bind (parse_type3_generic obit (CmceType3ElemId_into_raw CmceType3ElemId_Facility)) (\<lambda>facility.
     bind (parse_type3_generic obit (CmceType3ElemId_into_raw CmceType3ElemId_Proprietary)) (\<lambda>proprietary.
     bind (read_trailing_mbit obit) (\<lambda>_.
     ret \<lparr>DDisconnect_call_identifier = ucast call_identifier, DDisconnect_disconnect_cause = disconnect_cause,
          DDisconnect_notification_indicator = notification_indicator, DDisconnect_facility = facility, DDisconnect_proprietary = proprietary\<rparr>)))))))))"

definition DDisconnect_to_bitbuf :: "DDisconnect \<Rightarrow> unit bb" where
  "DDisconnect_to_bitbuf p =
     (let obit = DDisconnect_notification_indicator p \<noteq> None \<or> DDisconnect_facility p \<noteq> None \<or> DDisconnect_proprietary p \<noteq> None
      in seq
        [write_bits (CmcePduTypeDl_into_raw CmcePduTypeDl_DDisconnect) 5,
         write_bits (ucast (DDisconnect_call_identifier p)) 14,
         write_bits (DisconnectCause_into_raw (DDisconnect_disconnect_cause p)) 5,
         bind (write_obit (of_bool obit)) (\<lambda>_. if \<not> obit then ret () else seq
           [write_type2_generic obit (DDisconnect_notification_indicator p) 6,
            write_type3_generic obit (DDisconnect_facility p) (CmceType3ElemId_into_raw CmceType3ElemId_Facility),
            write_type3_generic obit (DDisconnect_proprietary p) (CmceType3ElemId_into_raw CmceType3ElemId_Proprietary),
            write_mbit 0])])"

definition DDisconnect_wf :: "DDisconnect \<Rightarrow> bool" where
  "DDisconnect_wf p \<longleftrightarrow>
     fits 14 (DDisconnect_call_identifier p) \<and>
     pred_option (fits 6) (DDisconnect_notification_indicator p) \<and>
     pred_option (wf_type3_generic (CmceType3ElemId_into_raw CmceType3ElemId_Facility)) (DDisconnect_facility p) \<and>
     pred_option (wf_type3_generic (CmceType3ElemId_into_raw CmceType3ElemId_Proprietary)) (DDisconnect_proprietary p)"

definition DDisconnect_enc :: "DDisconnect \<Rightarrow> bool list" where
  "DDisconnect_enc p =
     (let obit = DDisconnect_notification_indicator p \<noteq> None \<or> DDisconnect_facility p \<noteq> None \<or> DDisconnect_proprietary p \<noteq> None
      in to_bits 5 (CmcePduTypeDl_into_raw CmcePduTypeDl_DDisconnect :: u64) @ to_bits 14 (ucast (DDisconnect_call_identifier p) :: u64) @
         to_bits 5 (DisconnectCause_into_raw (DDisconnect_disconnect_cause p) :: u64) @ obit #
         enc_type2 obit (to_bits 6) (DDisconnect_notification_indicator p) @
         enc_type3_generic (CmceType3ElemId_into_raw CmceType3ElemId_Facility) (DDisconnect_facility p) @
         enc_type3_generic (CmceType3ElemId_into_raw CmceType3ElemId_Proprietary) (DDisconnect_proprietary p) @ (if obit then [False] else []))"

interpretation DDisconnect: safe_codec DDisconnect_wf DDisconnect_enc DDisconnect_to_bitbuf DDisconnect_from_bitbuf
proof
  show "emits (DDisconnect_to_bitbuf p) (DDisconnect_enc p)" if "DDisconnect_wf p" for p
    using that unfolding DDisconnect_to_bitbuf_def DDisconnect_enc_def DDisconnect_wf_def Let_def append_assoc append_Cons append_Nil
    by (intro l3_emits) (simp_all add: l3_simps l3_codecs)
  show "parses DDisconnect_from_bitbuf (DDisconnect_enc p) p" if "DDisconnect_wf p" for p
    unfolding DDisconnect_from_bitbuf_def DDisconnect_enc_def Let_def append_assoc append_Cons append_Nil
    by (rule parsesI) (intro parses_ret l3_parses, use that in \<open>simp_all add: DDisconnect_wf_def l3_simps l3_codecs\<close>)
  show "safe DDisconnect_from_bitbuf"
    unfolding DDisconnect_from_bitbuf_def by (intro safe_intros)
qed

section \<open>DInfo\<close>

text \<open>\<open>tetra-pdus/src/cmce/pdus/d_info.rs\<close>.\<close>

record DInfo =
  DInfo_call_identifier :: u16
  DInfo_reset_call_time_out_timer_t310 :: bool
  DInfo_poll_request :: bool
  DInfo_new_call_identifier :: "u64 option"
  DInfo_call_time_out :: "u64 option"
  DInfo_call_time_out_set_up_phase_t301_t302 :: "u64 option"
  DInfo_call_ownership :: "u64 option"
  DInfo_modify :: "u64 option"
  DInfo_call_status :: "u64 option"
  DInfo_temporary_address :: "u64 option"
  DInfo_notification_indicator :: "u64 option"
  DInfo_poll_response_percentage :: "u64 option"
  DInfo_poll_response_number :: "u64 option"
  DInfo_dtmf :: "type3_field_generic option"
  DInfo_facility :: "type3_field_generic option"
  DInfo_poll_response_addresses :: "type3_field_generic option"
  DInfo_proprietary :: "type3_field_generic option"

definition DInfo_from_bitbuf :: "DInfo bb" where
  "DInfo_from_bitbuf =
     bind (read_field 5 ''pdu_type'') (\<lambda>pdu_type.
     bind (expect_pdu_type pdu_type (CmcePduTypeDl_into_raw CmcePduTypeDl_DInfo)) (\<lambda>_.
     bind (read_field 14 ''call_identifier'') (\<lambda>call_identifier.
     bind (read_field 1 ''reset_call_time_out_timer_t310_'') (\<lambda>reset_call_time_out_timer_t310.
     bind (read_field 1 ''poll_request'') (\<lambda>poll_request.
     bind read_obit (\<lambda>obit.
     bind (parse_type2_generic obit 14 ''new_call_identifier'') (\<lambda>new_call_identifier.
     bind (parse_type2_generic obit 4 ''call_time_out'') (\<lambda>call_time_out.
     bind (parse_type2_generic obit 3 ''call_time_out_set_up_phase_t301_t302_'') (\<lambda>call_time_out_set_up_phase_t301_t302.
     bind (parse_type2_generic obit 1 ''call_ownership'') (\<lambda>call_ownership.
     bind (parse_type2_generic obit 9 ''modify'') (\<lambda>modify.
     bind (parse_type2_generic obit 3 ''call_status'') (\<lambda>call_status.
     bind (parse_type2_generic obit 24 ''temporary_address'') (\<lambda>temporary_address.
     bind (parse_type2_generic obit 6 ''notification_indicator'') (\<lambda>notification_indicator.
     bind (parse_type2_generic obit 6 ''poll_response_percentage'') (\<lambda>poll_response_percentage.
     bind (parse_type2_generic obit 6 ''poll_response_number'') (\<lambda>poll_response_number.
     bind (parse_type3_generic obit (CmceType3ElemId_into_raw CmceType3ElemId_Dtmf)) (\<lambda>dtmf.
     bind (parse_type3_generic obit (CmceType3ElemId_into_raw CmceType3ElemId_Facility)) (\<lambda>facility.
     bind (parse_type3_generic obit (CmceType3ElemId_into_raw CmceType3ElemId_PollResponseAddr)) (\<lambda>poll_response_addresses.
     bind (parse_type3_generic obit (CmceType3ElemId_into_raw CmceType3ElemId_Proprietary)) (\<lambda>proprietary.
     bind (read_trailing_mbit obit) (\<lambda>_.
     ret \<lparr>DInfo_call_identifier = ucast call_identifier, DInfo_reset_call_time_out_timer_t310 = reset_call_time_out_timer_t310 \<noteq> 0,
          DInfo_poll_request = poll_request \<noteq> 0, DInfo_new_call_identifier = new_call_identifier, DInfo_call_time_out = call_time_out,
          DInfo_call_time_out_set_up_phase_t301_t302 = call_time_out_set_up_phase_t301_t302, DInfo_call_ownership = call_ownership, DInfo_modify = modify,
          DInfo_call_status = call_status, DInfo_temporary_address = temporary_address, DInfo_notification_indicator = notification_indicator,
          DInfo_poll_response_percentage = poll_response_percentage, DInfo_poll_response_number = poll_response_number, DInfo_dtmf = dtmf,
          DInfo_facility = facility, DInfo_poll_response_addresses = poll_response_addresses, DInfo_proprietary = proprietary\<rparr>)))))))))))))))))))))"

definition DInfo_to_bitbuf :: "DInfo \<Rightarrow> unit bb" where
  "DInfo_to_bitbuf p =
     (let obit = DInfo_new_call_identifier p \<noteq> None \<or> DInfo_call_time_out p \<noteq> None \<or>
          DInfo_call_time_out_set_up_phase_t301_t302 p \<noteq> None \<or> DInfo_call_ownership p \<noteq> None \<or> DInfo_modify p \<noteq> None \<or>
          DInfo_call_status p \<noteq> None \<or> DInfo_temporary_address p \<noteq> None \<or> DInfo_notification_indicator p \<noteq> None \<or>
          DInfo_poll_response_percentage p \<noteq> None \<or> DInfo_poll_response_number p \<noteq> None \<or> DInfo_dtmf p \<noteq> None \<or>
          DInfo_facility p \<noteq> None \<or> DInfo_poll_response_addresses p \<noteq> None \<or> DInfo_proprietary p \<noteq> None
      in seq
        [write_bits (CmcePduTypeDl_into_raw CmcePduTypeDl_DInfo) 5,
         write_bits (ucast (DInfo_call_identifier p)) 14,
         write_bits (of_bool (DInfo_reset_call_time_out_timer_t310 p)) 1,
         write_bits (of_bool (DInfo_poll_request p)) 1,
         bind (write_obit (of_bool obit)) (\<lambda>_. if \<not> obit then ret () else seq
           [write_type2_generic obit (DInfo_new_call_identifier p) 14,
            write_type2_generic obit (DInfo_call_time_out p) 4,
            write_type2_generic obit (DInfo_call_time_out_set_up_phase_t301_t302 p) 3,
            write_type2_generic obit (DInfo_call_ownership p) 1,
            write_type2_generic obit (DInfo_modify p) 9,
            write_type2_generic obit (DInfo_call_status p) 3,
            write_type2_generic obit (DInfo_temporary_address p) 24,
            write_type2_generic obit (DInfo_notification_indicator p) 6,
            write_type2_generic obit (DInfo_poll_response_percentage p) 6,
            write_type2_generic obit (DInfo_poll_response_number p) 6,
            write_type3_generic obit (DInfo_dtmf p) (CmceType3ElemId_into_raw CmceType3ElemId_Dtmf),
            write_type3_generic obit (DInfo_facility p) (CmceType3ElemId_into_raw CmceType3ElemId_Facility),
            write_type3_generic obit (DInfo_poll_response_addresses p) (CmceType3ElemId_into_raw CmceType3ElemId_PollResponseAddr),
            write_type3_generic obit (DInfo_proprietary p) (CmceType3ElemId_into_raw CmceType3ElemId_Proprietary),
            write_mbit 0])])"

definition DInfo_wf :: "DInfo \<Rightarrow> bool" where
  "DInfo_wf p \<longleftrightarrow>
     fits 14 (DInfo_call_identifier p) \<and>
     pred_option (fits 14) (DInfo_new_call_identifier p) \<and>
     pred_option (fits 4) (DInfo_call_time_out p) \<and>
     pred_option (fits 3) (DInfo_call_time_out_set_up_phase_t301_t302 p) \<and>
     pred_option (fits 1) (DInfo_call_ownership p) \<and>
     pred_option (fits 9) (DInfo_modify p) \<and>
     pred_option (fits 3) (DInfo_call_status p) \<and>
     pred_option (fits 24) (DInfo_temporary_address p) \<and>
     pred_option (fits 6) (DInfo_notification_indicator p) \<and>
     pred_option (fits 6) (DInfo_poll_response_percentage p) \<and>
     pred_option (fits 6) (DInfo_poll_response_number p) \<and>
     pred_option (wf_type3_generic (CmceType3ElemId_into_raw CmceType3ElemId_Dtmf)) (DInfo_dtmf p) \<and>
     pred_option (wf_type3_generic (CmceType3ElemId_into_raw CmceType3ElemId_Facility)) (DInfo_facility p) \<and>
     pred_option (wf_type3_generic (CmceType3ElemId_into_raw CmceType3ElemId_PollResponseAddr)) (DInfo_poll_response_addresses p) \<and>
     pred_option (wf_type3_generic (CmceType3ElemId_into_raw CmceType3ElemId_Proprietary)) (DInfo_proprietary p)"

definition DInfo_enc :: "DInfo \<Rightarrow> bool list" where
  "DInfo_enc p =
     (let obit = DInfo_new_call_identifier p \<noteq> None \<or> DInfo_call_time_out p \<noteq> None \<or>
          DInfo_call_time_out_set_up_phase_t301_t302 p \<noteq> None \<or> DInfo_call_ownership p \<noteq> None \<or> DInfo_modify p \<noteq> None \<or>
          DInfo_call_status p \<noteq> None \<or> DInfo_temporary_address p \<noteq> None \<or> DInfo_notification_indicator p \<noteq> None \<or>
          DInfo_poll_response_percentage p \<noteq> None \<or> DInfo_poll_response_number p \<noteq> None \<or> DInfo_dtmf p \<noteq> None \<or>
          DInfo_facility p \<noteq> None \<or> DInfo_poll_response_addresses p \<noteq> None \<or> DInfo_proprietary p \<noteq> None
      in to_bits 5 (CmcePduTypeDl_into_raw CmcePduTypeDl_DInfo :: u64) @ to_bits 14 (ucast (DInfo_call_identifier p) :: u64) @
         to_bits 1 (of_bool (DInfo_reset_call_time_out_timer_t310 p) :: u64) @ to_bits 1 (of_bool (DInfo_poll_request p) :: u64) @ obit #
         enc_type2 obit (to_bits 14) (DInfo_new_call_identifier p) @ enc_type2 obit (to_bits 4) (DInfo_call_time_out p) @
         enc_type2 obit (to_bits 3) (DInfo_call_time_out_set_up_phase_t301_t302 p) @ enc_type2 obit (to_bits 1) (DInfo_call_ownership p) @
         enc_type2 obit (to_bits 9) (DInfo_modify p) @ enc_type2 obit (to_bits 3) (DInfo_call_status p) @
         enc_type2 obit (to_bits 24) (DInfo_temporary_address p) @ enc_type2 obit (to_bits 6) (DInfo_notification_indicator p) @
         enc_type2 obit (to_bits 6) (DInfo_poll_response_percentage p) @ enc_type2 obit (to_bits 6) (DInfo_poll_response_number p) @
         enc_type3_generic (CmceType3ElemId_into_raw CmceType3ElemId_Dtmf) (DInfo_dtmf p) @
         enc_type3_generic (CmceType3ElemId_into_raw CmceType3ElemId_Facility) (DInfo_facility p) @
         enc_type3_generic (CmceType3ElemId_into_raw CmceType3ElemId_PollResponseAddr) (DInfo_poll_response_addresses p) @
         enc_type3_generic (CmceType3ElemId_into_raw CmceType3ElemId_Proprietary) (DInfo_proprietary p) @ (if obit then [False] else []))"

interpretation DInfo: safe_codec DInfo_wf DInfo_enc DInfo_to_bitbuf DInfo_from_bitbuf
proof
  show "emits (DInfo_to_bitbuf p) (DInfo_enc p)" if "DInfo_wf p" for p
    using that unfolding DInfo_to_bitbuf_def DInfo_enc_def DInfo_wf_def Let_def append_assoc append_Cons append_Nil
    by (intro l3_emits) (simp_all add: l3_simps l3_codecs)
  show "parses DInfo_from_bitbuf (DInfo_enc p) p" if "DInfo_wf p" for p
    unfolding DInfo_from_bitbuf_def DInfo_enc_def Let_def append_assoc append_Cons append_Nil
    by (rule parsesI) (intro parses_ret l3_parses, use that in \<open>simp_all add: DInfo_wf_def l3_simps l3_codecs\<close>)
  show "safe DInfo_from_bitbuf"
    unfolding DInfo_from_bitbuf_def by (intro safe_intros)
qed

section \<open>DRelease\<close>

text \<open>\<open>tetra-pdus/src/cmce/pdus/d_release.rs\<close>.\<close>

record DRelease =
  DRelease_call_identifier :: u16
  DRelease_disconnect_cause :: DisconnectCause
  DRelease_notification_indicator :: "u64 option"
  DRelease_facility :: "type3_field_generic option"
  DRelease_proprietary :: "type3_field_generic option"

definition DRelease_from_bitbuf :: "DRelease bb" where
  "DRelease_from_bitbuf =
     bind (read_field 5 ''pdu_type'') (\<lambda>pdu_type.
     bind (expect_pdu_type pdu_type (CmcePduTypeDl_into_raw CmcePduTypeDl_DRelease)) (\<lambda>_.
     bind (read_field 14 ''call_identifier'') (\<lambda>call_identifier.
     bind (read_enum DisconnectCause_try_from 5 ''disconnect_cause'') (\<lambda>disconnect_cause.
     bind read_obit (\<lambda>obit.
     bind (parse_type2_generic obit 6 ''notification_indicator'') (\<lambda>notification_indicator.
     bind (parse_type3_generic obit (CmceType3ElemId_into_raw CmceType3ElemId_Facility)) (\<lambda>facility.
     bind (parse_type3_generic obit (CmceType3ElemId_into_raw CmceType3ElemId_Proprietary)) (\<lambda>proprietary.
     bind (read_trailing_mbit obit) (\<lambda>_.
     ret \<lparr>DRelease_call_identifier = ucast call_identifier, DRelease_disconnect_cause = disconnect_cause,
          DRelease_notification_indicator = notification_indicator, DRelease_facility = facility, DRelease_proprietary = proprietary\<rparr>)))))))))"

definition DRelease_to_bitbuf :: "DRelease \<Rightarrow> unit bb" where
  "DRelease_to_bitbuf p =
     (let obit = DRelease_notification_indicator p \<noteq> None \<or> DRelease_facility p \<noteq> None \<or> DRelease_proprietary p \<noteq> None
      in seq
        [write_bits (CmcePduTypeDl_into_raw CmcePduTypeDl_DRelease) 5,
         write_bits (ucast (DRelease_call_identifier p)) 14,
         write_bits (DisconnectCause_into_raw (DRelease_disconnect_cause p)) 5,
         bind (write_obit (of_bool obit)) (\<lambda>_. if \<not> obit then ret () else seq
           [write_type2_generic obit (DRelease_notification_indicator p) 6,
            write_type3_generic obit (DRelease_facility p) (CmceType3ElemId_into_raw CmceType3ElemId_Facility),
            write_type3_generic obit (DRelease_proprietary p) (CmceType3ElemId_into_raw CmceType3ElemId_Proprietary),
            write_mbit 0])])"

definition DRelease_wf :: "DRelease \<Rightarrow> bool" where
  "DRelease_wf p \<longleftrightarrow>
     fits 14 (DRelease_call_identifier p) \<and>
     pred_option (fits 6) (DRelease_notification_indicator p) \<and>
     pred_option (wf_type3_generic (CmceType3ElemId_into_raw CmceType3ElemId_Facility)) (DRelease_facility p) \<and>
     pred_option (wf_type3_generic (CmceType3ElemId_into_raw CmceType3ElemId_Proprietary)) (DRelease_proprietary p)"

definition DRelease_enc :: "DRelease \<Rightarrow> bool list" where
  "DRelease_enc p =
     (let obit = DRelease_notification_indicator p \<noteq> None \<or> DRelease_facility p \<noteq> None \<or> DRelease_proprietary p \<noteq> None
      in to_bits 5 (CmcePduTypeDl_into_raw CmcePduTypeDl_DRelease :: u64) @ to_bits 14 (ucast (DRelease_call_identifier p) :: u64) @
         to_bits 5 (DisconnectCause_into_raw (DRelease_disconnect_cause p) :: u64) @ obit #
         enc_type2 obit (to_bits 6) (DRelease_notification_indicator p) @
         enc_type3_generic (CmceType3ElemId_into_raw CmceType3ElemId_Facility) (DRelease_facility p) @
         enc_type3_generic (CmceType3ElemId_into_raw CmceType3ElemId_Proprietary) (DRelease_proprietary p) @ (if obit then [False] else []))"

interpretation DRelease: safe_codec DRelease_wf DRelease_enc DRelease_to_bitbuf DRelease_from_bitbuf
proof
  show "emits (DRelease_to_bitbuf p) (DRelease_enc p)" if "DRelease_wf p" for p
    using that unfolding DRelease_to_bitbuf_def DRelease_enc_def DRelease_wf_def Let_def append_assoc append_Cons append_Nil
    by (intro l3_emits) (simp_all add: l3_simps l3_codecs)
  show "parses DRelease_from_bitbuf (DRelease_enc p) p" if "DRelease_wf p" for p
    unfolding DRelease_from_bitbuf_def DRelease_enc_def Let_def append_assoc append_Cons append_Nil
    by (rule parsesI) (intro parses_ret l3_parses, use that in \<open>simp_all add: DRelease_wf_def l3_simps l3_codecs\<close>)
  show "safe DRelease_from_bitbuf"
    unfolding DRelease_from_bitbuf_def by (intro safe_intros)
qed

section \<open>DStatus\<close>

text \<open>\<open>tetra-pdus/src/cmce/pdus/d_status.rs\<close>.\<close>

record DStatus =
  DStatus_calling_party_type_identifier :: PartyTypeIdentifier
  DStatus_calling_party_address_ssi :: "u64 option"
  DStatus_calling_party_extension :: "u64 option"
  DStatus_pre_coded_status :: PreCodedStatus
  DStatus_external_subscriber_number :: "type3_field_generic option"
  DStatus_dm_ms_address :: "type3_field_generic option"

definition DStatus_from_bitbuf :: "DStatus bb" where
  "DStatus_from_bitbuf =
     bind (read_field 5 ''pdu_type'') (\<lambda>pdu_type.
     bind (expect_pdu_type pdu_type (CmcePduTypeDl_into_raw CmcePduTypeDl_DStatus)) (\<lambda>_.
     bind (read_enum PartyTypeIdentifier_try_from 2 ''calling_party_type_identifier'') (\<lambda>calling_party_type_identifier.
     bind (read_field_if (calling_party_type_identifier = PartyTypeIdentifier_Ssi \<or> calling_party_type_identifier = PartyTypeIdentifier_Tsi) 24 ''calling_party_address_ssi'') (\<lambda>calling_party_address_ssi.
     bind (read_field_if (calling_party_type_identifier = PartyTypeIdentifier_Tsi) 24 ''calling_party_extension'') (\<lambda>calling_party_extension.
     bind read_pre_coded_status (\<lambda>pre_coded_status.
     bind read_obit (\<lambda>obit.
     bind (parse_type3_generic obit (CmceType3ElemId_into_raw CmceType3ElemId_ExtSubscriberNum)) (\<lambda>external_subscriber_number.
     bind (parse_type3_generic obit (CmceType3ElemId_into_raw CmceType3ElemId_DmMsAddr)) (\<lambda>dm_ms_address.
     bind (read_trailing_mbit obit) (\<lambda>_.
     ret \<lparr>DStatus_calling_party_type_identifier = calling_party_type_identifier, DStatus_calling_party_address_ssi = calling_party_address_ssi,
          DStatus_calling_party_extension = calling_party_extension, DStatus_pre_coded_status = pre_coded_status,
          DStatus_external_subscriber_number = external_subscriber_number, DStatus_dm_ms_address = dm_ms_address\<rparr>))))))))))"

definition DStatus_to_bitbuf :: "DStatus \<Rightarrow> unit bb" where
  "DStatus_to_bitbuf p =
     (let obit = DStatus_external_subscriber_number p \<noteq> None \<or> DStatus_dm_ms_address p \<noteq> None
      in seq
        [write_bits (CmcePduTypeDl_into_raw CmcePduTypeDl_DStatus) 5,
         write_bits (PartyTypeIdentifier_into_raw (DStatus_calling_party_type_identifier p)) 2,
         write_field_opt (DStatus_calling_party_address_ssi p) 24,
         write_field_opt (DStatus_calling_party_extension p) 24,
         write_pre_coded_status (DStatus_pre_coded_status p),
         bind (write_obit (of_bool obit)) (\<lambda>_. if \<not> obit then ret () else seq
           [write_type3_generic obit (DStatus_external_subscriber_number p) (CmceType3ElemId_into_raw CmceType3ElemId_ExtSubscriberNum),
            write_type3_generic obit (DStatus_dm_ms_address p) (CmceType3ElemId_into_raw CmceType3ElemId_DmMsAddr),
            write_mbit 0])])"

definition DStatus_wf :: "DStatus \<Rightarrow> bool" where
  "DStatus_wf p \<longleftrightarrow>
     pred_option (fits 24) (DStatus_calling_party_address_ssi p) \<and>
     (DStatus_calling_party_type_identifier p = PartyTypeIdentifier_Ssi \<or> DStatus_calling_party_type_identifier p = PartyTypeIdentifier_Tsi) = (DStatus_calling_party_address_ssi p \<noteq> None) \<and>
     pred_option (fits 24) (DStatus_calling_party_extension p) \<and>
     (DStatus_calling_party_type_identifier p = PartyTypeIdentifier_Tsi) = (DStatus_calling_party_extension p \<noteq> None) \<and>
     PreCodedStatus_wf (DStatus_pre_coded_status p) \<and>
     pred_option (wf_type3_generic (CmceType3ElemId_into_raw CmceType3ElemId_ExtSubscriberNum)) (DStatus_external_subscriber_number p) \<and>
     pred_option (wf_type3_generic (CmceType3ElemId_into_raw CmceType3ElemId_DmMsAddr)) (DStatus_dm_ms_address p)"

definition DStatus_enc :: "DStatus \<Rightarrow> bool list" where
  "DStatus_enc p =
     (let obit = DStatus_external_subscriber_number p \<noteq> None \<or> DStatus_dm_ms_address p \<noteq> None
      in to_bits 5 (CmcePduTypeDl_into_raw CmcePduTypeDl_DStatus :: u64) @
         to_bits 2 (PartyTypeIdentifier_into_raw (DStatus_calling_party_type_identifier p) :: u64) @ enc_opt 24 (DStatus_calling_party_address_ssi p) @
         enc_opt 24 (DStatus_calling_party_extension p) @ PreCodedStatus_enc (DStatus_pre_coded_status p) @ obit #
         enc_type3_generic (CmceType3ElemId_into_raw CmceType3ElemId_ExtSubscriberNum) (DStatus_external_subscriber_number p) @
         enc_type3_generic (CmceType3ElemId_into_raw CmceType3ElemId_DmMsAddr) (DStatus_dm_ms_address p) @ (if obit then [False] else []))"

interpretation DStatus: safe_codec DStatus_wf DStatus_enc DStatus_to_bitbuf DStatus_from_bitbuf
proof
  show "emits (DStatus_to_bitbuf p) (DStatus_enc p)" if "DStatus_wf p" for p
    using that unfolding DStatus_to_bitbuf_def DStatus_enc_def DStatus_wf_def Let_def append_assoc append_Cons append_Nil
    by (intro l3_emits) (auto simp: l3_simps l3_codecs)
  show "parses DStatus_from_bitbuf (DStatus_enc p) p" if "DStatus_wf p" for p
    unfolding DStatus_from_bitbuf_def DStatus_enc_def Let_def append_assoc append_Cons append_Nil
    by (rule parsesI) (intro parses_ret l3_parses, use that in \<open>auto simp: DStatus_wf_def l3_simps l3_codecs\<close>)
  show "safe DStatus_from_bitbuf"
    unfolding DStatus_from_bitbuf_def by (intro safe_intros)
qed

end
