(* ===== verification/Cmce_Pdus_Tx.thy ===== *)
theory Cmce_Pdus_Tx
  imports Cmce_Fields
begin

text \<open>
  The downlink PDUs of floor control (\<open>tetra-pdus/src/cmce/pdus/d_tx_*.rs\<close>).
\<close>

unbundle bit_operations_syntax

declare One_nat_def [simp del] split_of_bool [split del] split_of_bool_asm [split del]

section \<open>DTxCeased\<close>

text \<open>\<open>tetra-pdus/src/cmce/pdus/d_tx_ceased.rs\<close>.\<close>

record DTxCeased =
  DTxCeased_call_identifier :: u16
  DTxCeased_transmission_request_permission :: bool
  DTxCeased_notification_indicator :: "u64 option"
  DTxCeased_facility :: "type3_field_generic option"
  DTxCeased_dm_ms_address :: "type3_field_generic option"
  DTxCeased_proprietary :: "type3_field_generic option"

definition DTxCeased_from_bitbuf :: "DTxCeased bb" where
  "DTxCeased_from_bitbuf =
     bind (read_field 5 ''pdu_type'') (\<lambda>pdu_type.
     bind (expect_pdu_type pdu_type (CmcePduTypeDl_into_raw CmcePduTypeDl_DTxCeased)) (\<lambda>_.
     bind (read_field 14 ''call_identifier'') (\<lambda>call_identifier.
     bind (read_field 1 ''transmission_request_permission'') (\<lambda>transmission_request_permission.
     bind read_obit (\<lambda>obit.
     bind (parse_type2_generic obit 6 ''notification_indicator'') (\<lambda>notification_indicator.
     bind (parse_type3_generic obit (CmceType3ElemId_into_raw CmceType3ElemId_Facility)) (\<lambda>facility.
     bind (parse_type3_generic obit (CmceType3ElemId_into_raw CmceType3ElemId_DmMsAddr)) (\<lambda>dm_ms_address.
     bind (parse_type3_generic obit (CmceType3ElemId_into_raw CmceType3ElemId_Proprietary)) (\<lambda>proprietary.
     bind (read_trailing_mbit obit) (\<lambda>_.
     ret \<lparr>DTxCeased_call_identifier = ucast call_identifier, DTxCeased_transmission_request_permission = transmission_request_permission \<noteq> 0,
          DTxCeased_notification_indicator = notification_indicator, DTxCeased_facility = facility, DTxCeased_dm_ms_address = dm_ms_address,
          DTxCeased_proprietary = proprietary\<rparr>))))))))))"

definition DTxCeased_to_bitbuf :: "DTxCeased \<Rightarrow> unit bb" where
  "DTxCeased_to_bitbuf p =
     (let obit = DTxCeased_notification_indicator p \<noteq> None \<or> DTxCeased_facility p \<noteq> None \<or> DTxCeased_dm_ms_address p \<noteq> None \<or>
          DTxCeased_proprietary p \<noteq> None
      in seq
        [write_bits (CmcePduTypeDl_into_raw CmcePduTypeDl_DTxCeased) 5,
         write_bits (ucast (DTxCeased_call_identifier p)) 14,
         write_bits (of_bool (DTxCeased_transmission_request_permission p)) 1,
         bind (write_obit (of_bool obit)) (\<lambda>_. if \<not> obit then ret () else seq
           [write_type2_generic obit (DTxCeased_notification_indicator p) 6,
            write_type3_generic obit (DTxCeased_facility p) (CmceType3ElemId_into_raw CmceType3ElemId_Facility),
            write_type3_generic obit (DTxCeased_dm_ms_address p) (CmceType3ElemId_into_raw CmceType3ElemId_DmMsAddr),
            write_type3_generic obit (DTxCeased_proprietary p) (CmceType3ElemId_into_raw CmceType3ElemId_Proprietary),
            write_mbit 0])])"

definition DTxCeased_wf :: "DTxCeased \<Rightarrow> bool" where
  "DTxCeased_wf p \<longleftrightarrow>
     fits 14 (DTxCeased_call_identifier p) \<and>
     pred_option (fits 6) (DTxCeased_notification_indicator p) \<and>
     pred_option (wf_type3_generic (CmceType3ElemId_into_raw CmceType3ElemId_Facility)) (DTxCeased_facility p) \<and>
     pred_option (wf_type3_generic (CmceType3ElemId_into_raw CmceType3ElemId_DmMsAddr)) (DTxCeased_dm_ms_address p) \<and>
     pred_option (wf_type3_generic (CmceType3ElemId_into_raw CmceType3ElemId_Proprietary)) (DTxCeased_proprietary p)"

definition DTxCeased_enc :: "DTxCeased \<Rightarrow> bool list" where
  "DTxCeased_enc p =
     (let obit = DTxCeased_notification_indicator p \<noteq> None \<or> DTxCeased_facility p \<noteq> None \<or> DTxCeased_dm_ms_address p \<noteq> None \<or>
          DTxCeased_proprietary p \<noteq> None
      in to_bits 5 (CmcePduTypeDl_into_raw CmcePduTypeDl_DTxCeased :: u64) @ to_bits 14 (ucast (DTxCeased_call_identifier p) :: u64) @
         to_bits 1 (of_bool (DTxCeased_transmission_request_permission p) :: u64) @ obit #
         enc_type2 obit (to_bits 6) (DTxCeased_notification_indicator p) @
         enc_type3_generic (CmceType3ElemId_into_raw CmceType3ElemId_Facility) (DTxCeased_facility p) @
         enc_type3_generic (CmceType3ElemId_into_raw CmceType3ElemId_DmMsAddr) (DTxCeased_dm_ms_address p) @
         enc_type3_generic (CmceType3ElemId_into_raw CmceType3ElemId_Proprietary) (DTxCeased_proprietary p) @ (if obit then [False] else []))"

interpretation DTxCeased: safe_codec DTxCeased_wf DTxCeased_enc DTxCeased_to_bitbuf DTxCeased_from_bitbuf
proof
  show "emits (DTxCeased_to_bitbuf p) (DTxCeased_enc p)" if "DTxCeased_wf p" for p
    using that unfolding DTxCeased_to_bitbuf_def DTxCeased_enc_def DTxCeased_wf_def Let_def append_assoc append_Cons append_Nil
    by (intro l3_emits) (simp_all add: l3_simps l3_codecs)
  show "parses DTxCeased_from_bitbuf (DTxCeased_enc p) p" if "DTxCeased_wf p" for p
    unfolding DTxCeased_from_bitbuf_def DTxCeased_enc_def Let_def append_assoc append_Cons append_Nil
    by (rule parsesI) (intro parses_ret l3_parses, use that in \<open>simp_all add: DTxCeased_wf_def l3_simps l3_codecs\<close>)
  show "safe DTxCeased_from_bitbuf"
    unfolding DTxCeased_from_bitbuf_def by (intro safe_intros)
qed

section \<open>DTxContinue\<close>

text \<open>\<open>tetra-pdus/src/cmce/pdus/d_tx_continue.rs\<close>.\<close>

record DTxContinue =
  DTxContinue_call_identifier :: u16
  DTxContinue_do_continue :: bool
  DTxContinue_transmission_request_permission :: bool
  DTxContinue_notification_indicator :: "u64 option"
  DTxContinue_facility :: "type3_field_generic option"
  DTxContinue_dm_ms_address :: "type3_field_generic option"
  DTxContinue_proprietary :: "type3_field_generic option"

definition DTxContinue_from_bitbuf :: "DTxContinue bb" where
  "DTxContinue_from_bitbuf =
     bind (read_field 5 ''pdu_type'') (\<lambda>pdu_type.
     bind (expect_pdu_type pdu_type (CmcePduTypeDl_into_raw CmcePduTypeDl_DTxContinue)) (\<lambda>_.
     bind (read_field 14 ''call_identifier'') (\<lambda>call_identifier.
     bind (read_field 1 ''do_continue'') (\<lambda>do_continue.
     bind (read_field 1 ''transmission_request_permission'') (\<lambda>transmission_request_permission.
     bind read_obit (\<lambda>obit.
     bind (parse_type2_generic obit 6 ''notification_indicator'') (\<lambda>notification_indicator.
     bind (parse_type3_generic obit (CmceType3ElemId_into_raw CmceType3ElemId_Facility)) (\<lambda>facility.
     bind (parse_type3_generic obit (CmceType3ElemId_into_raw CmceType3ElemId_DmMsAddr)) (\<lambda>dm_ms_address.
     bind (parse_type3_generic obit (CmceType3ElemId_into_raw CmceType3ElemId_Proprietary)) (\<lambda>proprietary.
     bind (read_trailing_mbit obit) (\<lambda>_.
     ret \<lparr>DTxContinue_call_identifier = ucast call_identifier, DTxContinue_do_continue = do_continue \<noteq> 0,
          DTxContinue_transmission_request_permission = transmission_request_permission \<noteq> 0, DTxContinue_notification_indicator = notification_indicator,
          DTxContinue_facility = facility, DTxContinue_dm_ms_address = dm_ms_address, DTxContinue_proprietary = proprietary\<rparr>)))))))))))"

definition DTxContinue_to_bitbuf :: "DTxContinue \<Rightarrow> unit bb" where
  "DTxContinue_to_bitbuf p =
     (let obit = DTxContinue_notification_indicator p \<noteq> None \<or> DTxContinue_facility p \<noteq> None \<or>
          DTxContinue_dm_ms_address p \<noteq> None \<or> DTxContinue_proprietary p \<noteq> None
      in seq
        [write_bits (CmcePduTypeDl_into_raw CmcePduTypeDl_DTxContinue) 5,
         write_bits (ucast (DTxContinue_call_identifier p)) 14,
         write_bits (of_bool (DTxContinue_do_continue p)) 1,
         write_bits (of_bool (DTxContinue_transmission_request_permission p)) 1,
         bind (write_obit (of_bool obit)) (\<lambda>_. if \<not> obit then ret () else seq
           [write_type2_generic obit (DTxContinue_notification_indicator p) 6,
            write_type3_generic obit (DTxContinue_facility p) (CmceType3ElemId_into_raw CmceType3ElemId_Facility),
            write_type3_generic obit (DTxContinue_dm_ms_address p) (CmceType3ElemId_into_raw CmceType3ElemId_DmMsAddr),
            write_type3_generic obit (DTxContinue_proprietary p) (CmceType3ElemId_into_raw CmceType3ElemId_Proprietary),
            write_mbit 0])])"

definition DTxContinue_wf :: "DTxContinue \<Rightarrow> bool" where
  "DTxContinue_wf p \<longleftrightarrow>
     fits 14 (DTxContinue_call_identifier p) \<and>
     pred_option (fits 6) (DTxContinue_notification_indicator p) \<and>
     pred_option (wf_type3_generic (CmceType3ElemId_into_raw CmceType3ElemId_Facility)) (DTxContinue_facility p) \<and>
     pred_option (wf_type3_generic (CmceType3ElemId_into_raw CmceType3ElemId_DmMsAddr)) (DTxContinue_dm_ms_address p) \<and>
     pred_option (wf_type3_generic (CmceType3ElemId_into_raw CmceType3ElemId_Proprietary)) (DTxContinue_proprietary p)"

definition DTxContinue_enc :: "DTxContinue \<Rightarrow> bool list" where
  "DTxContinue_enc p =
     (let obit = DTxContinue_notification_indicator p \<noteq> None \<or> DTxContinue_facility p \<noteq> None \<or>
          DTxContinue_dm_ms_address p \<noteq> None \<or> DTxContinue_proprietary p \<noteq> None
      in to_bits 5 (CmcePduTypeDl_into_raw CmcePduTypeDl_DTxContinue :: u64) @ to_bits 14 (ucast (DTxContinue_call_identifier p) :: u64) @
         to_bits 1 (of_bool (DTxContinue_do_continue p) :: u64) @ to_bits 1 (of_bool (DTxContinue_transmission_request_permission p) :: u64) @ obit #
         enc_type2 obit (to_bits 6) (DTxContinue_notification_indicator p) @
         enc_type3_generic (CmceType3ElemId_into_raw CmceType3ElemId_Facility) (DTxContinue_facility p) @
         enc_type3_generic (CmceType3ElemId_into_raw CmceType3ElemId_DmMsAddr) (DTxContinue_dm_ms_address p) @
         enc_type3_generic (CmceType3ElemId_into_raw CmceType3ElemId_Proprietary) (DTxContinue_proprietary p) @ (if obit then [False] else []))"

interpretation DTxContinue: safe_codec DTxContinue_wf DTxContinue_enc DTxContinue_to_bitbuf DTxContinue_from_bitbuf
proof
  show "emits (DTxContinue_to_bitbuf p) (DTxContinue_enc p)" if "DTxContinue_wf p" for p
    using that unfolding DTxContinue_to_bitbuf_def DTxContinue_enc_def DTxContinue_wf_def Let_def append_assoc append_Cons append_Nil
    by (intro l3_emits) (simp_all add: l3_simps l3_codecs)
  show "parses DTxContinue_from_bitbuf (DTxContinue_enc p) p" if "DTxContinue_wf p" for p
    unfolding DTxContinue_from_bitbuf_def DTxContinue_enc_def Let_def append_assoc append_Cons append_Nil
    by (rule parsesI) (intro parses_ret l3_parses, use that in \<open>simp_all add: DTxContinue_wf_def l3_simps l3_codecs\<close>)
  show "safe DTxContinue_from_bitbuf"
    unfolding DTxContinue_from_bitbuf_def by (intro safe_intros)
qed

section \<open>DTxGranted\<close>

text \<open>\<open>tetra-pdus/src/cmce/pdus/d_tx_granted.rs\<close>.\<close>

record DTxGranted =
  DTxGranted_call_identifier :: u16
  DTxGranted_transmission_grant :: u8
  DTxGranted_transmission_request_permission :: bool
  DTxGranted_encryption_control :: bool
  DTxGranted_reserved :: bool
  DTxGranted_notification_indicator :: "u64 option"
  DTxGranted_transmitting_party_type_identifier :: "u64 option"
  DTxGranted_transmitting_party_address_ssi :: "u64 option"
  DTxGranted_transmitting_party_extension :: "u64 option"
  DTxGranted_external_subscriber_number :: "type3_field_generic option"
  DTxGranted_facility :: "type3_field_generic option"
  DTxGranted_dm_ms_address :: "type3_field_generic option"
  DTxGranted_proprietary :: "type3_field_generic option"

definition DTxGranted_from_bitbuf :: "DTxGranted bb" where
  "DTxGranted_from_bitbuf =
     bind (read_field 5 ''pdu_type'') (\<lambda>pdu_type.
     bind (expect_pdu_type pdu_type (CmcePduTypeDl_into_raw CmcePduTypeDl_DTxGranted)) (\<lambda>_.
     bind (read_field 14 ''call_identifier'') (\<lambda>call_identifier.
     bind (read_field 2 ''transmission_grant'') (\<lambda>transmission_grant.
     bind (read_field 1 ''transmission_request_permission'') (\<lambda>transmission_request_permission.
     bind (read_field 1 ''encryption_control'') (\<lambda>encryption_control.
     bind (read_field 1 ''reserved'') (\<lambda>reserved.
     bind read_obit (\<lambda>obit.
     bind (parse_type2_generic obit 6 ''notification_indicator'') (\<lambda>notification_indicator.
     bind (parse_type2_generic obit 2 ''transmitting_party_type_identifier'') (\<lambda>transmitting_party_type_identifier.
     bind (read_field_if (obit \<and> transmitting_party_type_identifier = Some 1 \<or> transmitting_party_type_identifier = Some 2) 24 ''transmitting_party_address_ssi'') (\<lambda>transmitting_party_address_ssi.
     bind (read_field_if (obit \<and> transmitting_party_type_identifier = Some 2) 24 ''transmitting_party_extension'') (\<lambda>transmitting_party_extension.
     bind (parse_type3_generic obit (CmceType3ElemId_into_raw CmceType3ElemId_ExtSubscriberNum)) (\<lambda>external_subscriber_number.
     bind (parse_type3_generic obit (CmceType3ElemId_into_raw CmceType3ElemId_Facility)) (\<lambda>facility.
     bind (parse_type3_generic obit (CmceType3ElemId_into_raw CmceType3ElemId_DmMsAddr)) (\<lambda>dm_ms_address.
     bind (parse_type3_generic obit (CmceType3ElemId_into_raw CmceType3ElemId_Proprietary)) (\<lambda>proprietary.
     bind (read_trailing_mbit obit) (\<lambda>_.
     ret \<lparr>DTxGranted_call_identifier = ucast call_identifier, DTxGranted_transmission_grant = ucast transmission_grant,
          DTxGranted_transmission_request_permission = transmission_request_permission \<noteq> 0, DTxGranted_encryption_control = encryption_control \<noteq> 0,
          DTxGranted_reserved = reserved \<noteq> 0, DTxGranted_notification_indicator = notification_indicator,
          DTxGranted_transmitting_party_type_identifier = transmitting_party_type_identifier,
          DTxGranted_transmitting_party_address_ssi = transmitting_party_address_ssi, DTxGranted_transmitting_party_extension = transmitting_party_extension,
          DTxGranted_external_subscriber_number = external_subscriber_number, DTxGranted_facility = facility, DTxGranted_dm_ms_address = dm_ms_address,
          DTxGranted_proprietary = proprietary\<rparr>)))))))))))))))))"

definition DTxGranted_to_bitbuf :: "DTxGranted \<Rightarrow> unit bb" where
  "DTxGranted_to_bitbuf p =
     (let obit = DTxGranted_notification_indicator p \<noteq> None \<or> DTxGranted_transmitting_party_type_identifier p \<noteq> None \<or>
          DTxGranted_external_subscriber_number p \<noteq> None \<or> DTxGranted_facility p \<noteq> None \<or>
          DTxGranted_dm_ms_address p \<noteq> None \<or> DTxGranted_proprietary p \<noteq> None
      in seq
        [write_bits (CmcePduTypeDl_into_raw CmcePduTypeDl_DTxGranted) 5,
         write_bits (ucast (DTxGranted_call_identifier p)) 14,
         write_bits (ucast (DTxGranted_transmission_grant p)) 2,
         write_bits (of_bool (DTxGranted_transmission_request_permission p)) 1,
         write_bits (of_bool (DTxGranted_encryption_control p)) 1,
         write_bits (of_bool (DTxGranted_reserved p)) 1,
         bind (write_obit (of_bool obit)) (\<lambda>_. if \<not> obit then ret () else seq
           [write_type2_generic obit (DTxGranted_notification_indicator p) 6,
            write_type2_generic obit (DTxGranted_transmitting_party_type_identifier p) 2,
            write_field_opt (DTxGranted_transmitting_party_address_ssi p) 24,
            write_field_opt (DTxGranted_transmitting_party_extension p) 24,
            write_type3_generic obit (DTxGranted_external_subscriber_number p) (CmceType3ElemId_into_raw CmceType3ElemId_ExtSubscriberNum),
            write_type3_generic obit (DTxGranted_facility p) (CmceType3ElemId_into_raw CmceType3ElemId_Facility),
            write_type3_generic obit (DTxGranted_dm_ms_address p) (CmceType3ElemId_into_raw CmceType3ElemId_DmMsAddr),
            write_type3_generic obit (DTxGranted_proprietary p) (CmceType3ElemId_into_raw CmceType3ElemId_Proprietary),
            write_mbit 0])])"

definition DTxGranted_wf :: "DTxGranted \<Rightarrow> bool" where
  "DTxGranted_wf p \<longleftrightarrow>
     fits 14 (DTxGranted_call_identifier p) \<and>
     fits 2 (DTxGranted_transmission_grant p) \<and>
     pred_option (fits 6) (DTxGranted_notification_indicator p) \<and>
     pred_option (fits 2) (DTxGranted_transmitting_party_type_identifier p) \<and>
     pred_option (fits 24) (DTxGranted_transmitting_party_address_ssi p) \<and>
     (DTxGranted_transmitting_party_type_identifier p = Some 1 \<or> DTxGranted_transmitting_party_type_identifier p = Some 2) = (DTxGranted_transmitting_party_address_ssi p \<noteq> None) \<and>
     pred_option (fits 24) (DTxGranted_transmitting_party_extension p) \<and>
     (DTxGranted_transmitting_party_type_identifier p = Some 2) = (DTxGranted_transmitting_party_extension p \<noteq> None) \<and>
     pred_option (wf_type3_generic (CmceType3ElemId_into_raw CmceType3ElemId_ExtSubscriberNum)) (DTxGranted_external_subscriber_number p) \<and>
     pred_option (wf_type3_generic (CmceType3ElemId_into_raw CmceType3ElemId_Facility)) (DTxGranted_facility p) \<and>
     pred_option (wf_type3_generic (CmceType3ElemId_into_raw CmceType3ElemId_DmMsAddr)) (DTxGranted_dm_ms_address p) \<and>
     pred_option (wf_type3_generic (CmceType3ElemId_into_raw CmceType3ElemId_Proprietary)) (DTxGranted_proprietary p)"

definition DTxGranted_enc :: "DTxGranted \<Rightarrow> bool list" where
  "DTxGranted_enc p =
     (let obit = DTxGranted_notification_indicator p \<noteq> None \<or> DTxGranted_transmitting_party_type_identifier p \<noteq> None \<or>
          DTxGranted_external_subscriber_number p \<noteq> None \<or> DTxGranted_facility p \<noteq> None \<or>
          DTxGranted_dm_ms_address p \<noteq> None \<or> DTxGranted_proprietary p \<noteq> None
      in to_bits 5 (CmcePduTypeDl_into_raw CmcePduTypeDl_DTxGranted :: u64) @ to_bits 14 (ucast (DTxGranted_call_identifier p) :: u64) @
         to_bits 2 (ucast (DTxGranted_transmission_grant p) :: u64) @ to_bits 1 (of_bool (DTxGranted_transmission_request_permission p) :: u64) @
         to_bits 1 (of_bool (DTxGranted_encryption_control p) :: u64) @ to_bits 1 (of_bool (DTxGranted_reserved p) :: u64) @ obit #
         enc_type2 obit (to_bits 6) (DTxGranted_notification_indicator p) @
         enc_type2 obit (to_bits 2) (DTxGranted_transmitting_party_type_identifier p) @ enc_opt 24 (DTxGranted_transmitting_party_address_ssi p) @
         enc_opt 24 (DTxGranted_transmitting_party_extension p) @
         enc_type3_generic (CmceType3ElemId_into_raw CmceType3ElemId_ExtSubscriberNum) (DTxGranted_external_subscriber_number p) @
         enc_type3_generic (CmceType3ElemId_into_raw CmceType3ElemId_Facility) (DTxGranted_facility p) @
         enc_type3_generic (CmceType3ElemId_into_raw CmceType3ElemId_DmMsAddr) (DTxGranted_dm_ms_address p) @
         enc_type3_generic (CmceType3ElemId_into_raw CmceType3ElemId_Proprietary) (DTxGranted_proprietary p) @ (if obit then [False] else []))"

interpretation DTxGranted: safe_codec DTxGranted_wf DTxGranted_enc DTxGranted_to_bitbuf DTxGranted_from_bitbuf
proof
  show "emits (DTxGranted_to_bitbuf p) (DTxGranted_enc p)" if "DTxGranted_wf p" for p
    using that unfolding DTxGranted_to_bitbuf_def DTxGranted_enc_def DTxGranted_wf_def Let_def append_assoc append_Cons append_Nil
    by (intro l3_emits) (auto simp: l3_simps l3_codecs)
  show "parses DTxGranted_from_bitbuf (DTxGranted_enc p) p" if "DTxGranted_wf p" for p
    unfolding DTxGranted_from_bitbuf_def DTxGranted_enc_def Let_def append_assoc append_Cons append_Nil
    by (rule parsesI) (intro parses_ret l3_parses, use that in \<open>auto simp: DTxGranted_wf_def l3_simps l3_codecs\<close>)
  show "safe DTxGranted_from_bitbuf"
    unfolding DTxGranted_from_bitbuf_def by (intro safe_intros)
qed

section \<open>DTxInterrupt\<close>

text \<open>\<open>tetra-pdus/src/cmce/pdus/d_tx_interrupt.rs\<close>.\<close>

record DTxInterrupt =
  DTxInterrupt_call_identifier :: u16
  DTxInterrupt_transmission_grant :: u8
  DTxInterrupt_transmission_request_permission :: bool
  DTxInterrupt_encryption_control :: bool
  DTxInterrupt_reserved :: bool
  DTxInterrupt_notification_indicator :: "u64 option"
  DTxInterrupt_transmitting_party_type_identifier :: "u64 option"
  DTxInterrupt_transmitting_party_address_ssi :: "u64 option"
  DTxInterrupt_transmitting_party_extension :: "u64 option"
  DTxInterrupt_external_subscriber_number :: "type3_field_generic option"
  DTxInterrupt_facility :: "type3_field_generic option"
  DTxInterrupt_dm_ms_address :: "type3_field_generic option"
  DTxInterrupt_proprietary :: "type3_field_generic option"

definition DTxInterrupt_from_bitbuf :: "DTxInterrupt bb" where
  "DTxInterrupt_from_bitbuf =
     bind (read_field 5 ''pdu_type'') (\<lambda>pdu_type.
     bind (expect_pdu_type pdu_type (CmcePduTypeDl_into_raw CmcePduTypeDl_DTxInterrupt)) (\<lambda>_.
     bind (read_field 14 ''call_identifier'') (\<lambda>call_identifier.
     bind (read_field 2 ''transmission_grant'') (\<lambda>transmission_grant.
     bind (read_field 1 ''transmission_request_permission'') (\<lambda>transmission_request_permission.
     bind (read_field 1 ''encryption_control'') (\<lambda>encryption_control.
     bind (read_field 1 ''reserved'') (\<lambda>reserved.
     bind read_obit (\<lambda>obit.
     bind (parse_type2_generic obit 6 ''notification_indicator'') (\<lambda>notification_indicator.
     bind (parse_type2_generic obit 2 ''transmitting_party_type_identifier'') (\<lambda>transmitting_party_type_identifier.
     bind (parse_type2_generic obit 24 ''transmitting_party_address_ssi'') (\<lambda>transmitting_party_address_ssi.
     bind (parse_type2_generic obit 24 ''transmitting_party_extension'') (\<lambda>transmitting_party_extension.
     bind (parse_type3_generic obit (CmceType3ElemId_into_raw CmceType3ElemId_ExtSubscriberNum)) (\<lambda>external_subscriber_number.
     bind (parse_type3_generic obit (CmceType3ElemId_into_raw CmceType3ElemId_Facility)) (\<lambda>facility.
     bind (parse_type3_generic obit (CmceType3ElemId_into_raw CmceType3ElemId_DmMsAddr)) (\<lambda>dm_ms_address.
     bind (parse_type3_generic obit (CmceType3ElemId_into_raw CmceType3ElemId_Proprietary)) (\<lambda>proprietary.
     bind (read_trailing_mbit obit) (\<lambda>_.
     ret \<lparr>DTxInterrupt_call_identifier = ucast call_identifier, DTxInterrupt_transmission_grant = ucast transmission_grant,
          DTxInterrupt_transmission_request_permission = transmission_request_permission \<noteq> 0,
          DTxInterrupt_encryption_control = encryption_control \<noteq> 0, DTxInterrupt_reserved = reserved \<noteq> 0,
          DTxInterrupt_notification_indicator = notification_indicator, DTxInterrupt_transmitting_party_type_identifier = transmitting_party_type_identifier,
          DTxInterrupt_transmitting_party_address_ssi = transmitting_party_address_ssi, DTxInterrupt_transmitting_party_extension = transmitting_party_extension,
          DTxInterrupt_external_subscriber_number = external_subscriber_number, DTxInterrupt_facility = facility, DTxInterrupt_dm_ms_address = dm_ms_address,
          DTxInterrupt_proprietary = proprietary\<rparr>)))))))))))))))))"

definition DTxInterrupt_to_bitbuf :: "DTxInterrupt \<Rightarrow> unit bb" where
  "DTxInterrupt_to_bitbuf p =
     (let obit = DTxInterrupt_notification_indicator p \<noteq> None \<or> DTxInterrupt_transmitting_party_type_identifier p \<noteq> None \<or>
          DTxInterrupt_transmitting_party_address_ssi p \<noteq> None \<or> DTxInterrupt_transmitting_party_extension p \<noteq> None \<or>
          DTxInterrupt_external_subscriber_number p \<noteq> None \<or> DTxInterrupt_facility p \<noteq> None \<or>
          DTxInterrupt_dm_ms_address p \<noteq> None \<or> DTxInterrupt_proprietary p \<noteq> None
      in seq
        [write_bits (CmcePduTypeDl_into_raw CmcePduTypeDl_DTxInterrupt) 5,
         write_bits (ucast (DTxInterrupt_call_identifier p)) 14,
         write_bits (ucast (DTxInterrupt_transmission_grant p)) 2,
         write_bits (of_bool (DTxInterrupt_transmission_request_permission p)) 1,
         write_bits (of_bool (DTxInterrupt_encryption_control p)) 1,
         write_bits (of_bool (DTxInterrupt_reserved p)) 1,
         bind (write_obit (of_bool obit)) (\<lambda>_. if \<not> obit then ret () else seq
           [write_type2_generic obit (DTxInterrupt_notification_indicator p) 6,
            write_type2_generic obit (DTxInterrupt_transmitting_party_type_identifier p) 2,
            write_type2_generic obit (DTxInterrupt_transmitting_party_address_ssi p) 24,
            write_type2_generic obit (DTxInterrupt_transmitting_party_extension p) 24,
            write_type3_generic obit (DTxInterrupt_external_subscriber_number p) (CmceType3ElemId_into_raw CmceType3ElemId_ExtSubscriberNum),
            write_type3_generic obit (DTxInterrupt_facility p) (CmceType3ElemId_into_raw CmceType3ElemId_Facility),
            write_type3_generic obit (DTxInterrupt_dm_ms_address p) (CmceType3ElemId_into_raw CmceType3ElemId_DmMsAddr),
            write_type3_generic obit (DTxInterrupt_proprietary p) (CmceType3ElemId_into_raw CmceType3ElemId_Proprietary),
            write_mbit 0])])"

definition DTxInterrupt_wf :: "DTxInterrupt \<Rightarrow> bool" where
  "DTxInterrupt_wf p \<longleftrightarrow>
     fits 14 (DTxInterrupt_call_identifier p) \<and>
     fits 2 (DTxInterrupt_transmission_grant p) \<and>
     pred_option (fits 6) (DTxInterrupt_notification_indicator p) \<and>
     pred_option (fits 2) (DTxInterrupt_transmitting_party_type_identifier p) \<and>
     pred_option (fits 24) (DTxInterrupt_transmitting_party_address_ssi p) \<and>
     pred_option (fits 24) (DTxInterrupt_transmitting_party_extension p) \<and>
     pred_option (wf_type3_generic (CmceType3ElemId_into_raw CmceType3ElemId_ExtSubscriberNum)) (DTxInterrupt_external_subscriber_number p) \<and>
     pred_option (wf_type3_generic (CmceType3ElemId_into_raw CmceType3ElemId_Facility)) (DTxInterrupt_facility p) \<and>
     pred_option (wf_type3_generic (CmceType3ElemId_into_raw CmceType3ElemId_DmMsAddr)) (DTxInterrupt_dm_ms_address p) \<and>
     pred_option (wf_type3_generic (CmceType3ElemId_into_raw CmceType3ElemId_Proprietary)) (DTxInterrupt_proprietary p)"

definition DTxInterrupt_enc :: "DTxInterrupt \<Rightarrow> bool list" where
  "DTxInterrupt_enc p =
     (let obit = DTxInterrupt_notification_indicator p \<noteq> None \<or> DTxInterrupt_transmitting_party_type_identifier p \<noteq> None \<or>
          DTxInterrupt_transmitting_party_address_ssi p \<noteq> None \<or> DTxInterrupt_transmitting_party_extension p \<noteq> None \<or>
          DTxInterrupt_external_subscriber_number p \<noteq> None \<or> DTxInterrupt_facility p \<noteq> None \<or>
          DTxInterrupt_dm_ms_address p \<noteq> None \<or> DTxInterrupt_proprietary p \<noteq> None
      in to_bits 5 (CmcePduTypeDl_into_raw CmcePduTypeDl_DTxInterrupt :: u64) @ to_bits 14 (ucast (DTxInterrupt_call_identifier p) :: u64) @
         to_bits 2 (ucast (DTxInterrupt_transmission_grant p) :: u64) @ to_bits 1 (of_bool (DTxInterrupt_transmission_request_permission p) :: u64) @
         to_bits 1 (of_bool (DTxInterrupt_encryption_control p) :: u64) @ to_bits 1 (of_bool (DTxInterrupt_reserved p) :: u64) @ obit #
         enc_type2 obit (to_bits 6) (DTxInterrupt_notification_indicator p) @
         enc_type2 obit (to_bits 2) (DTxInterrupt_transmitting_party_type_identifier p) @
         enc_type2 obit (to_bits 24) (DTxInterrupt_transmitting_party_address_ssi p) @
         enc_type2 obit (to_bits 24) (DTxInterrupt_transmitting_party_extension p) @
         enc_type3_generic (CmceType3ElemId_into_raw CmceType3ElemId_ExtSubscriberNum) (DTxInterrupt_external_subscriber_number p) @
         enc_type3_generic (CmceType3ElemId_into_raw CmceType3ElemId_Facility) (DTxInterrupt_facility p) @
         enc_type3_generic (CmceType3ElemId_into_raw CmceType3ElemId_DmMsAddr) (DTxInterrupt_dm_ms_address p) @
         enc_type3_generic (CmceType3ElemId_into_raw CmceType3ElemId_Proprietary) (DTxInterrupt_proprietary p) @ (if obit then [False] else []))"

interpretation DTxInterrupt: safe_codec DTxInterrupt_wf DTxInterrupt_enc DTxInterrupt_to_bitbuf DTxInterrupt_from_bitbuf
proof
  show "emits (DTxInterrupt_to_bitbuf p) (DTxInterrupt_enc p)" if "DTxInterrupt_wf p" for p
    using that unfolding DTxInterrupt_to_bitbuf_def DTxInterrupt_enc_def DTxInterrupt_wf_def Let_def append_assoc append_Cons append_Nil
    by (intro l3_emits) (simp_all add: l3_simps l3_codecs)
  show "parses DTxInterrupt_from_bitbuf (DTxInterrupt_enc p) p" if "DTxInterrupt_wf p" for p
    unfolding DTxInterrupt_from_bitbuf_def DTxInterrupt_enc_def Let_def append_assoc append_Cons append_Nil
    by (rule parsesI) (intro parses_ret l3_parses, use that in \<open>simp_all add: DTxInterrupt_wf_def l3_simps l3_codecs\<close>)
  show "safe DTxInterrupt_from_bitbuf"
    unfolding DTxInterrupt_from_bitbuf_def by (intro safe_intros)
qed

section \<open>DTxWait\<close>

text \<open>\<open>tetra-pdus/src/cmce/pdus/d_tx_wait.rs\<close>.\<close>

record DTxWait =
  DTxWait_call_identifier :: u16
  DTxWait_transmission_request_permission :: bool
  DTxWait_notification_indicator :: "u64 option"
  DTxWait_facility :: "type3_field_generic option"
  DTxWait_dm_ms_address :: "type3_field_generic option"
  DTxWait_proprietary :: "type3_field_generic option"

definition DTxWait_from_bitbuf :: "DTxWait bb" where
  "DTxWait_from_bitbuf =
     bind (read_field 5 ''pdu_type'') (\<lambda>pdu_type.
     bind (expect_pdu_type pdu_type (CmcePduTypeDl_into_raw CmcePduTypeDl_DTxWait)) (\<lambda>_.
     bind (read_field 14 ''call_identifier'') (\<lambda>call_identifier.
     bind (read_field 1 ''transmission_request_permission'') (\<lambda>transmission_request_permission.
     bind read_obit (\<lambda>obit.
     bind (parse_type2_generic obit 6 ''notification_indicator'') (\<lambda>notification_indicator.
     bind (parse_type3_generic obit (CmceType3ElemId_into_raw CmceType3ElemId_Facility)) (\<lambda>facility.
     bind (parse_type3_generic obit (CmceType3ElemId_into_raw CmceType3ElemId_DmMsAddr)) (\<lambda>dm_ms_address.
     bind (parse_type3_generic obit (CmceType3ElemId_into_raw CmceType3ElemId_Proprietary)) (\<lambda>proprietary.
     bind (read_trailing_mbit obit) (\<lambda>_.
     ret \<lparr>DTxWait_call_identifier = ucast call_identifier, DTxWait_transmission_request_permission = transmission_request_permission \<noteq> 0,
          DTxWait_notification_indicator = notification_indicator, DTxWait_facility = facility, DTxWait_dm_ms_address = dm_ms_address,
          DTxWait_proprietary = proprietary\<rparr>))))))))))"

definition DTxWait_to_bitbuf :: "DTxWait \<Rightarrow> unit bb" where
  "DTxWait_to_bitbuf p =
     (let obit = DTxWait_notification_indicator p \<noteq> None \<or> DTxWait_facility p \<noteq> None \<or> DTxWait_dm_ms_address p \<noteq> None \<or>
          DTxWait_proprietary p \<noteq> None
      in seq
        [write_bits (CmcePduTypeDl_into_raw CmcePduTypeDl_DTxWait) 5,
         write_bits (ucast (DTxWait_call_identifier p)) 14,
         write_bits (of_bool (DTxWait_transmission_request_permission p)) 1,
         bind (write_obit (of_bool obit)) (\<lambda>_. if \<not> obit then ret () else seq
           [write_type2_generic obit (DTxWait_notification_indicator p) 6,
            write_type3_generic obit (DTxWait_facility p) (CmceType3ElemId_into_raw CmceType3ElemId_Facility),
            write_type3_generic obit (DTxWait_dm_ms_address p) (CmceType3ElemId_into_raw CmceType3ElemId_DmMsAddr),
            write_type3_generic obit (DTxWait_proprietary p) (CmceType3ElemId_into_raw CmceType3ElemId_Proprietary),
            write_mbit 0])])"

definition DTxWait_wf :: "DTxWait \<Rightarrow> bool" where
  "DTxWait_wf p \<longleftrightarrow>
     fits 14 (DTxWait_call_identifier p) \<and>
     pred_option (fits 6) (DTxWait_notification_indicator p) \<and>
     pred_option (wf_type3_generic (CmceType3ElemId_into_raw CmceType3ElemId_Facility)) (DTxWait_facility p) \<and>
     pred_option (wf_type3_generic (CmceType3ElemId_into_raw CmceType3ElemId_DmMsAddr)) (DTxWait_dm_ms_address p) \<and>
     pred_option (wf_type3_generic (CmceType3ElemId_into_raw CmceType3ElemId_Proprietary)) (DTxWait_proprietary p)"

definition DTxWait_enc :: "DTxWait \<Rightarrow> bool list" where
  "DTxWait_enc p =
     (let obit = DTxWait_notification_indicator p \<noteq> None \<or> DTxWait_facility p \<noteq> None \<or> DTxWait_dm_ms_address p \<noteq> None \<or>
          DTxWait_proprietary p \<noteq> None
      in to_bits 5 (CmcePduTypeDl_into_raw CmcePduTypeDl_DTxWait :: u64) @ to_bits 14 (ucast (DTxWait_call_identifier p) :: u64) @
         to_bits 1 (of_bool (DTxWait_transmission_request_permission p) :: u64) @ obit #
         enc_type2 obit (to_bits 6) (DTxWait_notification_indicator p) @
         enc_type3_generic (CmceType3ElemId_into_raw CmceType3ElemId_Facility) (DTxWait_facility p) @
         enc_type3_generic (CmceType3ElemId_into_raw CmceType3ElemId_DmMsAddr) (DTxWait_dm_ms_address p) @
         enc_type3_generic (CmceType3ElemId_into_raw CmceType3ElemId_Proprietary) (DTxWait_proprietary p) @ (if obit then [False] else []))"

interpretation DTxWait: safe_codec DTxWait_wf DTxWait_enc DTxWait_to_bitbuf DTxWait_from_bitbuf
proof
  show "emits (DTxWait_to_bitbuf p) (DTxWait_enc p)" if "DTxWait_wf p" for p
    using that unfolding DTxWait_to_bitbuf_def DTxWait_enc_def DTxWait_wf_def Let_def append_assoc append_Cons append_Nil
    by (intro l3_emits) (simp_all add: l3_simps l3_codecs)
  show "parses DTxWait_from_bitbuf (DTxWait_enc p) p" if "DTxWait_wf p" for p
    unfolding DTxWait_from_bitbuf_def DTxWait_enc_def Let_def append_assoc append_Cons append_Nil
    by (rule parsesI) (intro parses_ret l3_parses, use that in \<open>simp_all add: DTxWait_wf_def l3_simps l3_codecs\<close>)
  show "safe DTxWait_from_bitbuf"
    unfolding DTxWait_from_bitbuf_def by (intro safe_intros)
qed

end
