(* ===== verification/Cmce_Setup.thy ===== *)
theory Cmce_Setup
  imports Cmce_Fields
begin

text \<open>
  D-SETUP (\<open>tetra-pdus/src/cmce/pdus/d_setup.rs\<close>), the PDU that opens a call at the called terminals and that the base station
  repeats for late entry. The type identifier of the calling party is not a field of the PDU's struct: the writer derives it from the
  two address fields, the reader from the bits.
\<close>

unbundle bit_operations_syntax

declare One_nat_def [simp del] split_of_bool [split del] split_of_bool_asm [split del]

record DSetup =
  DSetup_call_identifier :: u16
  DSetup_call_time_out :: CallTimeout
  DSetup_hook_method_selection :: bool
  DSetup_simplex_duplex_selection :: bool
  DSetup_basic_service_information :: BasicServiceInformation
  DSetup_transmission_grant :: TransmissionGrant
  DSetup_transmission_request_permission :: bool
  DSetup_call_priority :: u8
  DSetup_notification_indicator :: "u64 option"
  DSetup_temporary_address :: "u64 option"
  DSetup_calling_party_address_ssi :: "u32 option"
  DSetup_calling_party_extension :: "u32 option"
  DSetup_external_subscriber_number :: "type3_field_generic option"
  DSetup_facility :: "type3_field_generic option"
  DSetup_dm_ms_address :: "type3_field_generic option"
  DSetup_proprietary :: "type3_field_generic option"

definition DSetup_from_bitbuf :: "DSetup bb" where
  "DSetup_from_bitbuf =
     bind (read_field 5 ''pdu_type'') (\<lambda>pdu_type.
     bind (expect_pdu_type pdu_type (CmcePduTypeDl_into_raw CmcePduTypeDl_DSetup)) (\<lambda>_.
     bind (read_field 14 ''call_identifier'') (\<lambda>call_identifier.
     bind (read_enum_unwrap CallTimeout_try_from 4 ''call_time_out'') (\<lambda>call_time_out.
     bind (read_field 1 ''hook_method_selection'') (\<lambda>hook_method_selection.
     bind (read_field 1 ''simplex_duplex_selection'') (\<lambda>simplex_duplex_selection.
     bind BasicServiceInformation_from_bitbuf (\<lambda>basic_service_information.
     bind (read_enum_unwrap TransmissionGrant_try_from 2 ''transmission_grant'') (\<lambda>transmission_grant.
     bind (read_field 1 ''transmission_request_permission'') (\<lambda>transmission_request_permission.
     bind (read_field 4 ''call_priority'') (\<lambda>call_priority.
     bind read_obit (\<lambda>obit.
     bind (parse_type2_generic obit 6 ''notification_indicator'') (\<lambda>notification_indicator.
     bind (parse_type2_generic obit 24 ''temporary_address'') (\<lambda>temporary_address.
     bind (parse_type2_generic obit 2 ''calling_party_type_identifier'') (\<lambda>party_type.
     bind (read_field_if (obit \<and> party_type = Some 1 \<or> party_type = Some 2) 24 ''calling_party_address_ssi'') (\<lambda>ssi.
     bind (read_field_if (obit \<and> party_type = Some 2) 24 ''calling_party_extension'') (\<lambda>extension.
     bind (parse_type3_generic obit (CmceType3ElemId_into_raw CmceType3ElemId_ExtSubscriberNum)) (\<lambda>external_subscriber_number.
     bind (parse_type3_generic obit (CmceType3ElemId_into_raw CmceType3ElemId_Facility)) (\<lambda>facility.
     bind (parse_type3_generic obit (CmceType3ElemId_into_raw CmceType3ElemId_DmMsAddr)) (\<lambda>dm_ms_address.
     bind (parse_type3_generic obit (CmceType3ElemId_into_raw CmceType3ElemId_Proprietary)) (\<lambda>proprietary.
     bind (read_trailing_mbit obit) (\<lambda>_.
     ret \<lparr>DSetup_call_identifier = ucast call_identifier, DSetup_call_time_out = call_time_out,
          DSetup_hook_method_selection = hook_method_selection \<noteq> 0, DSetup_simplex_duplex_selection = simplex_duplex_selection \<noteq> 0,
          DSetup_basic_service_information = basic_service_information, DSetup_transmission_grant = transmission_grant,
          DSetup_transmission_request_permission = transmission_request_permission \<noteq> 0, DSetup_call_priority = ucast call_priority,
          DSetup_notification_indicator = notification_indicator, DSetup_temporary_address = temporary_address,
          DSetup_calling_party_address_ssi = map_option ucast ssi, DSetup_calling_party_extension = map_option ucast extension,
          DSetup_external_subscriber_number = external_subscriber_number, DSetup_facility = facility,
          DSetup_dm_ms_address = dm_ms_address, DSetup_proprietary = proprietary\<rparr>)))))))))))))))))))))"

definition DSetup_party_type :: "DSetup \<Rightarrow> u64 option bb" where
  "DSetup_party_type p =
     (case (DSetup_calling_party_address_ssi p, DSetup_calling_party_extension p) of
        (None, None) \<Rightarrow> ret None
      | (Some _, None) \<Rightarrow> ret (Some 1)
      | (Some _, Some _) \<Rightarrow> ret (Some 2)
      | (None, Some _) \<Rightarrow> fail (InvalidValue ''calling_party_type_identifier'' 0))"

definition DSetup_obit :: "DSetup \<Rightarrow> bool" where
  "DSetup_obit p \<longleftrightarrow> DSetup_notification_indicator p \<noteq> None \<or> DSetup_temporary_address p \<noteq> None \<or>
     DSetup_calling_party_address_ssi p \<noteq> None \<or> DSetup_calling_party_extension p \<noteq> None \<or>
     DSetup_external_subscriber_number p \<noteq> None \<or> DSetup_facility p \<noteq> None \<or> DSetup_dm_ms_address p \<noteq> None \<or>
     DSetup_proprietary p \<noteq> None"

definition DSetup_to_bitbuf :: "DSetup \<Rightarrow> unit bb" where
  "DSetup_to_bitbuf p =
     (let obit = DSetup_obit p
      in seq
        [write_bits (CmcePduTypeDl_into_raw CmcePduTypeDl_DSetup) 5,
         write_bits (ucast (DSetup_call_identifier p)) 14,
         write_bits (CallTimeout_into_raw (DSetup_call_time_out p)) 4,
         write_bits (of_bool (DSetup_hook_method_selection p)) 1,
         write_bits (of_bool (DSetup_simplex_duplex_selection p)) 1,
         BasicServiceInformation_to_bitbuf (DSetup_basic_service_information p),
         write_bits (TransmissionGrant_into_raw (DSetup_transmission_grant p)) 2,
         write_bits (of_bool (DSetup_transmission_request_permission p)) 1,
         write_bits (ucast (DSetup_call_priority p)) 4,
         bind (write_obit (of_bool obit)) (\<lambda>_. if \<not> obit then ret () else seq
           [write_type2_generic obit (DSetup_notification_indicator p) 6,
            write_type2_generic obit (DSetup_temporary_address p) 24,
            bind (DSetup_party_type p) (\<lambda>party_type. write_type2_generic obit party_type 2),
            write_field_opt (map_option ucast (DSetup_calling_party_address_ssi p)) 24,
            write_field_opt (map_option ucast (DSetup_calling_party_extension p)) 24,
            write_type3_generic obit (DSetup_external_subscriber_number p) (CmceType3ElemId_into_raw CmceType3ElemId_ExtSubscriberNum),
            write_type3_generic obit (DSetup_facility p) (CmceType3ElemId_into_raw CmceType3ElemId_Facility),
            write_type3_generic obit (DSetup_dm_ms_address p) (CmceType3ElemId_into_raw CmceType3ElemId_DmMsAddr),
            write_type3_generic obit (DSetup_proprietary p) (CmceType3ElemId_into_raw CmceType3ElemId_Proprietary),
            write_mbit 0])])"

text \<open>An extension comes with an address.\<close>

definition DSetup_wf :: "DSetup \<Rightarrow> bool" where
  "DSetup_wf p \<longleftrightarrow>
     fits 14 (DSetup_call_identifier p) \<and> BasicServiceInformation_wf (DSetup_basic_service_information p) \<and>
     fits 4 (DSetup_call_priority p) \<and> pred_option (fits 6) (DSetup_notification_indicator p) \<and>
     pred_option (fits 24) (DSetup_temporary_address p) \<and> pred_option (fits 24) (DSetup_calling_party_address_ssi p) \<and>
     pred_option (fits 24) (DSetup_calling_party_extension p) \<and>
     (DSetup_calling_party_extension p \<noteq> None \<longrightarrow> DSetup_calling_party_address_ssi p \<noteq> None) \<and>
     pred_option (wf_type3_generic (CmceType3ElemId_into_raw CmceType3ElemId_ExtSubscriberNum)) (DSetup_external_subscriber_number p) \<and>
     pred_option (wf_type3_generic (CmceType3ElemId_into_raw CmceType3ElemId_Facility)) (DSetup_facility p) \<and>
     pred_option (wf_type3_generic (CmceType3ElemId_into_raw CmceType3ElemId_DmMsAddr)) (DSetup_dm_ms_address p) \<and>
     pred_option (wf_type3_generic (CmceType3ElemId_into_raw CmceType3ElemId_Proprietary)) (DSetup_proprietary p)"

definition DSetup_party :: "DSetup \<Rightarrow> u64 option" where
  "DSetup_party p =
     (if DSetup_calling_party_address_ssi p = None then None else if DSetup_calling_party_extension p = None then Some 1 else Some 2)"

definition DSetup_enc :: "DSetup \<Rightarrow> bool list" where
  "DSetup_enc p =
     (let obit = DSetup_obit p
      in to_bits 5 (CmcePduTypeDl_into_raw CmcePduTypeDl_DSetup :: u64) @ to_bits 14 (ucast (DSetup_call_identifier p) :: u64) @
         to_bits 4 (CallTimeout_into_raw (DSetup_call_time_out p) :: u64) @ to_bits 1 (of_bool (DSetup_hook_method_selection p) :: u64) @
         to_bits 1 (of_bool (DSetup_simplex_duplex_selection p) :: u64) @
         BasicServiceInformation_enc (DSetup_basic_service_information p) @
         to_bits 2 (TransmissionGrant_into_raw (DSetup_transmission_grant p) :: u64) @
         to_bits 1 (of_bool (DSetup_transmission_request_permission p) :: u64) @ to_bits 4 (ucast (DSetup_call_priority p) :: u64) @ obit #
         enc_type2 obit (to_bits 6) (DSetup_notification_indicator p) @ enc_type2 obit (to_bits 24) (DSetup_temporary_address p) @
         enc_type2 obit (to_bits 2) (DSetup_party p) @
         enc_opt 24 (map_option ucast (DSetup_calling_party_address_ssi p)) @ enc_opt 24 (map_option ucast (DSetup_calling_party_extension p)) @
         enc_type3_generic (CmceType3ElemId_into_raw CmceType3ElemId_ExtSubscriberNum) (DSetup_external_subscriber_number p) @
         enc_type3_generic (CmceType3ElemId_into_raw CmceType3ElemId_Facility) (DSetup_facility p) @
         enc_type3_generic (CmceType3ElemId_into_raw CmceType3ElemId_DmMsAddr) (DSetup_dm_ms_address p) @
         enc_type3_generic (CmceType3ElemId_into_raw CmceType3ElemId_Proprietary) (DSetup_proprietary p) @ (if obit then [False] else []))"

lemma DSetup_party_facts:
  assumes "DSetup_wf p"
  shows "DSetup_party_type p = ret (DSetup_party p)" and "pred_option (fits 2) (DSetup_party p)"
    and "DSetup_party p \<noteq> None \<Longrightarrow> DSetup_obit p"
    and "(DSetup_obit p \<and> DSetup_party p = Some 1 \<or> DSetup_party p = Some 2) = (DSetup_calling_party_address_ssi p \<noteq> None)"
    and "(DSetup_obit p \<and> DSetup_party p = Some 2) = (DSetup_calling_party_extension p \<noteq> None)"
  using assms by (auto simp: DSetup_wf_def DSetup_party_type_def DSetup_party_def DSetup_obit_def split: option.splits)

lemma DSetup_no_obit:
  assumes "\<not> DSetup_obit p"
  shows "DSetup_notification_indicator p = None" "DSetup_temporary_address p = None" "DSetup_party p = None"
    "DSetup_calling_party_address_ssi p = None" "DSetup_calling_party_extension p = None"
    "DSetup_external_subscriber_number p = None" "DSetup_facility p = None" "DSetup_dm_ms_address p = None" "DSetup_proprietary p = None"
  using assms by (simp_all add: DSetup_obit_def DSetup_party_def)

interpretation DSetup: safe_codec DSetup_wf DSetup_enc DSetup_to_bitbuf DSetup_from_bitbuf
proof
  fix p assume wf: "DSetup_wf p"
  note party = DSetup_party_facts [OF wf]
  show "emits (DSetup_to_bitbuf p) (DSetup_enc p)"
    unfolding DSetup_to_bitbuf_def DSetup_enc_def Let_def append_assoc append_Cons append_Nil party(1) bind_ret
    by (intro l3_emits) (use wf party(2) in \<open>simp_all add: DSetup_wf_def DSetup_no_obit l3_simps\<close>)
  show "parses DSetup_from_bitbuf (DSetup_enc p) p"
    unfolding DSetup_from_bitbuf_def DSetup_enc_def Let_def append_assoc append_Cons append_Nil
    by (rule parsesI) (intro parses_ret l3_parses,
        use wf party(2,4,5) in \<open>simp_all add: DSetup_wf_def DSetup_no_obit l3_simps\<close>)
next
  show "safe DSetup_from_bitbuf"
    unfolding DSetup_from_bitbuf_def by (intro safe_intros)
qed

end
