(* ===== verification/Cmce_Sds.thy ===== *)
theory Cmce_Sds
  imports Cmce_Fields BitBuffer_Bulk
begin

text \<open>
  Short data: \<open>SdsUserData\<close> (\<open>tetra-saps/src/control/enums/sds_user_data.rs\<close>) and its encoding inside D-SDS-DATA and U-SDS-DATA
  (\<open>tetra-pdus/src/cmce/pdus/d_sds_data.rs\<close>, \<open>u_sds_data.rs\<close>). Types 1 to 3 are numbers of a fixed width; type 4 is a bit string of up
  to 2047 bits, kept in bytes whose unused low bits are zero.
\<close>

unbundle bit_operations_syntax

declare One_nat_def [simp del] split_of_bool [split del] split_of_bool_asm [split del]

section \<open>User data\<close>

datatype SdsUserData =
    SdsUserData_Type1 u16
  | SdsUserData_Type2 u32
  | SdsUserData_Type3 u64
  | SdsUserData_Type4 u16 "u8 list"

primrec SdsUserData_type_identifier :: "SdsUserData \<Rightarrow> u8" where
  "SdsUserData_type_identifier (SdsUserData_Type1 _) = 0"
| "SdsUserData_type_identifier (SdsUserData_Type2 _) = 1"
| "SdsUserData_type_identifier (SdsUserData_Type3 _) = 2"
| "SdsUserData_type_identifier (SdsUserData_Type4 _ _) = 3"

primrec SdsUserData_length_bits :: "SdsUserData \<Rightarrow> u16" where
  "SdsUserData_length_bits (SdsUserData_Type1 _) = 16"
| "SdsUserData_length_bits (SdsUserData_Type2 _) = 32"
| "SdsUserData_length_bits (SdsUserData_Type3 _) = 64"
| "SdsUserData_length_bits (SdsUserData_Type4 len_bits _) = len_bits"

text \<open>\<open>to_be_bytes\<close> on the fixed widths.\<close>

definition to_be_bytes :: "nat \<Rightarrow> u64 \<Rightarrow> u8 list" where
  "to_be_bytes n v = map (\<lambda>i. ucast (drop_bit (8 * (n - 1 - i)) v)) [0..<n]"

primrec SdsUserData_to_arr :: "SdsUserData \<Rightarrow> u8 list" where
  "SdsUserData_to_arr (SdsUserData_Type1 v) = to_be_bytes 2 (ucast v)"
| "SdsUserData_to_arr (SdsUserData_Type2 v) = to_be_bytes 4 (ucast v)"
| "SdsUserData_to_arr (SdsUserData_Type3 v) = to_be_bytes 8 v"
| "SdsUserData_to_arr (SdsUserData_Type4 _ data) = data"

definition read_sds_type4 :: "SdsUserData bb" where
  "read_sds_type4 =
     bind (read_field 11 ''length_indicator'') (\<lambda>l.
     let len_bits = (ucast l :: u16); num_bytes = div_ceil8 (unat len_bits)
     in bind (read_bits_into_slice (unat len_bits) (replicate num_bytes 0)) (\<lambda>(r, data).
        case r of None \<Rightarrow> fail (BufferEnded (Some ''user_defined_data_4''))
        | Some _ \<Rightarrow> ret (SdsUserData_Type4 len_bits data)))"

definition read_sds_user_data :: "SdsUserData bb" where
  "read_sds_user_data =
     bind (read_field 2 ''short_data_type_identifier'') (\<lambda>v.
     let short_data_type_identifier = (ucast v :: u8)
     in if short_data_type_identifier = 0 then
          bind (read_field 16 ''user_defined_data_1'') (\<lambda>v. ret (SdsUserData_Type1 (ucast v)))
        else if short_data_type_identifier = 1 then
          bind (read_field 32 ''user_defined_data_2'') (\<lambda>v. ret (SdsUserData_Type2 (ucast v)))
        else if short_data_type_identifier = 2 then
          bind (read_field 64 ''user_defined_data_3'') (\<lambda>v. ret (SdsUserData_Type3 v))
        else if short_data_type_identifier = 3 then read_sds_type4
        else panic)"

text \<open>The loop over the full bytes, and the bits of the last one.\<close>

primrec write_byte_list :: "u8 list \<Rightarrow> unit bb" where
  "write_byte_list [] = ret ()"
| "write_byte_list (x # xs) = bind (write_bits (ucast x) 8) (\<lambda>_. write_byte_list xs)"

definition write_sds_type4 :: "u16 \<Rightarrow> u8 list \<Rightarrow> unit bb" where
  "write_sds_type4 len_bits data =
     (if len_bits > 2047 then fail (InvalidValue ''sds_type4_length_bits'' (ucast len_bits))
      else
        let used_bits = min (unat len_bits) (length data * 8);
            full_bytes = used_bits div 8;
            remaining_bits = used_bits mod 8
        in seq
          [write_bits (ucast len_bits) 11,
           write_byte_list (take full_bytes data),
           (if remaining_bits > 0
            then write_bits (ucast (drop_bit (8 - remaining_bits) (data ! full_bytes))) remaining_bits
            else ret ())])"

definition write_sds_user_data :: "SdsUserData \<Rightarrow> unit bb" where
  "write_sds_user_data p = seq
     [write_bits (ucast (SdsUserData_type_identifier p)) 2,
      (case p of
         SdsUserData_Type1 v \<Rightarrow> write_bits (ucast v) 16
       | SdsUserData_Type2 v \<Rightarrow> write_bits (ucast v) 32
       | SdsUserData_Type3 v \<Rightarrow> write_bits v 64
       | SdsUserData_Type4 len_bits data \<Rightarrow> write_sds_type4 len_bits data)]"

section \<open>Bit strings in bytes\<close>

text \<open>A bit string packed into bytes, the last one filled up with zeros.\<close>

fun pack :: "bool list \<Rightarrow> u8 list" where
  "pack [] = []"
| "pack (b # bs) = of_bits (take 8 (b # bs) @ replicate (8 - length (b # bs)) False) # pack (drop 8 (b # bs))"

declare pack.simps(2) [simp del]

lemma pack_step: "bs \<noteq> [] \<Longrightarrow> pack bs = of_bits (take 8 bs @ replicate (8 - length bs) False) # pack (drop 8 bs)"
  by (cases bs) (simp_all add: pack.simps(2))

lemma div_ceil8_step: "0 < n \<Longrightarrow> div_ceil8 n = Suc (div_ceil8 (n - 8))"
proof -
  assume "0 < n"
  then obtain m where m: "n = Suc m" by (cases n) auto
  have "m div 8 = (Suc m - 8 + 7) div 8" by (cases "7 \<le> m") auto
  moreover have "(8 + m) div 8 = Suc (m div 8)" by simp
  ultimately show ?thesis by (simp add: m div_ceil8_def)
qed

lemma length_pack [simp]: "length (pack bs) = div_ceil8 (length bs)"
proof (induction bs rule: pack.induct)
  case (2 b bs)
  then show ?case using div_ceil8_step [of "length (b # bs)"] by (simp add: pack.simps(2))
qed (simp add: div_ceil8_def)

lemma bytes_bits_Cons [simp]: "bytes_bits (x # xs) = to_bits 8 x @ bytes_bits xs"
  by (simp add: bytes_bits_def)

lemma take_bytes_pack: "take (length bs) (bytes_bits (pack bs)) = bs"
proof (induction bs rule: pack.induct)
  case (2 b bs)
  let ?bs = "b # bs"
  have "to_bits 8 (of_bits (take 8 ?bs @ replicate (8 - length ?bs) False) :: u8) = take 8 ?bs @ replicate (8 - length ?bs) False"
    by (rule to_bits_of_bits) auto
  then have b: "bytes_bits (pack ?bs) = (take 8 ?bs @ replicate (8 - length ?bs) False) @ bytes_bits (pack (drop 8 ?bs))"
    by (simp add: pack.simps(2))
  show ?case
  proof (cases "length ?bs \<le> 8")
    case True
    then show ?thesis unfolding b by simp
  next
    case False
    then have "take (length ?bs) (bytes_bits (pack ?bs)) = take 8 ?bs @ take (length (drop 8 ?bs)) (bytes_bits (pack (drop 8 ?bs)))"
      unfolding b by simp
    then show ?thesis unfolding 2 append_take_drop_id .
  qed
qed (simp add: bytes_bits_def)

section \<open>Reading\<close>

lemma safe_read_slice_loop [safe_intros]: "safe (read_slice_loop is n buf)"
  by (induction "is" arbitrary: n buf) (auto simp: Let_def intro!: safe_intros safe_read_bits)

lemma safe_read_bits_into_slice [safe_intros]: "safe (read_bits_into_slice n buf)"
  unfolding read_bits_into_slice_def by (intro safe_intros)

lemma shifted_chunk:
  assumes "length c \<le> 8"
  shows "push_bit (8 - length c) (ucast (of_bits c :: u64)) = (of_bits (c @ replicate (8 - length c) False) :: u8)"
proof -
  have "of_bits (replicate n False) = (0 :: u8)" for n
    by (rule bit_word_eqI) (auto simp: bit_of_bits)
  then show ?thesis using assms by (simp add: of_bits_append ucast_of_bits)
qed

lemma parses_slice_loop:
  "length xs + div_ceil8 (length bs) = n \<Longrightarrow>
   parses (read_slice_loop [length xs..<n] (length bs) (xs @ replicate (div_ceil8 (length bs)) 0)) bs (Some (), xs @ pack bs)"
proof (induction bs arbitrary: xs rule: pack.induct)
  case 1
  then show ?case by (simp add: div_ceil8_def parsesI parses_ret)
next
  case (2 b bs)
  let ?bs = "b # bs" and ?k = "min (length (b # bs)) 8"
  let ?c = "take 8 ?bs" and ?x = "of_bits (take 8 (b # bs) @ replicate (8 - length (b # bs)) False) :: u8"
  have k: "div_ceil8 (length ?bs) = Suc (div_ceil8 (length ?bs - 8))" by (rule div_ceil8_step) simp
  have c: "length ?c = ?k" "8 - ?k = 8 - length ?bs" by auto
  have upt: "[length xs..<n] = length xs # [length (xs @ [?x])..<n]"
    using 2(2) k by (simp add: upt_conv_Cons)
  have buf: "(xs @ replicate (div_ceil8 (length ?bs)) 0)[length xs := ?x] = (xs @ [?x]) @ replicate (div_ceil8 (length (drop 8 ?bs))) 0"
    unfolding k by simp
  have rest: "parses (read_slice_loop [length (xs @ [?x])..<n] (length (drop 8 ?bs)) ((xs @ [?x]) @ replicate (div_ceil8 (length (drop 8 ?bs))) 0))
     (drop 8 ?bs) (Some (), (xs @ [?x]) @ pack (drop 8 ?bs))"
    by (rule 2(1)) (use 2(2) k in simp)
  have d: "length ?bs - ?k = length (drop 8 ?bs)" by simp
  have p: "xs @ pack ?bs = (xs @ [?x]) @ pack (drop 8 ?bs)" by (simp only: pack.simps(2) append_assoc append_Cons append_Nil)
  have x: "push_bit (8 - ?k) (ucast (of_bits ?c :: u64)) = ?x" unfolding c(2) by (rule shifted_chunk [of ?c, unfolded c]) simp
  have "parses_on (read_slice_loop [length xs..<n] (length ?bs) (xs @ replicate (div_ceil8 (length ?bs)) 0))
      (to_bits ?k (of_bits ?c :: u64) @ drop 8 ?bs) r (Some (), xs @ pack ?bs)" for r
    unfolding upt read_slice_loop.simps Let_def
  proof (rule parses_bits_bind)
    show "fits ?k (of_bits ?c :: u64)" by (rule fits_of_bits) simp
    show "parses_on (case Some (of_bits ?c :: u64) of None \<Rightarrow> ret (None, xs @ replicate (div_ceil8 (length ?bs)) 0)
        | Some v \<Rightarrow> read_slice_loop [length (xs @ [?x])..<n] (length ?bs - ?k)
            ((xs @ replicate (div_ceil8 (length ?bs)) 0)[length xs := push_bit (8 - ?k) (ucast v)])) (drop 8 ?bs) r (Some (), xs @ pack ?bs)"
      unfolding option.case x buf d p by (rule rest [THEN parses_on])
  qed simp
  moreover have "to_bits ?k (of_bits ?c :: u64) = ?c" by (rule to_bits_of_bits) simp_all
  ultimately show ?case by (intro parsesI) simp
qed

lemma parses_slice: "parses (read_bits_into_slice (length bs) (replicate (div_ceil8 (length bs)) 0)) bs (Some (), pack bs)"
  using parses_slice_loop [of "[]" bs] by (simp add: read_bits_into_slice_def)

section \<open>Writing\<close>

lemma emits_byte_list: "emits (write_byte_list xs) (bytes_bits xs)"
proof (induction xs)
  case Nil
  then show ?case by (simp add: bytes_bits_def emits_ret)
next
  case (Cons x xs)
  have "emits (write_bits (ucast x) 8) (to_bits 8 (ucast x :: u64))" by (rule emits_write_bits) simp_all
  then have "emits (write_bits (ucast x) 8) (to_bits 8 x)" by (simp add: to_bits_ucast)
  from emits_bind [OF this Cons.IH] show ?case by simp
qed

lemma length_bytes_bits_mult: "length (bytes_bits xs) = 8 * length xs"
  by (induction xs) (simp_all add: bytes_bits_def)

lemma take_bits: "k \<le> 8 \<Longrightarrow> take k (to_bits 8 x) = to_bits k (drop_bit (8 - k) x)" for x :: u8
  by (rule nth_equalityI) (auto simp: bit_drop_bit_eq intro!: arg_cong [where f = "bit x"])

lemma take_bytes_bits:
  assumes "n < 8 * length xs"
  shows "take n (bytes_bits xs) = bytes_bits (take (n div 8) xs) @ take (n mod 8) (to_bits 8 (xs ! (n div 8)))"
proof -
  have d: "n div 8 < length xs" using assms by auto
  have "xs = take (n div 8) xs @ xs ! (n div 8) # drop (Suc (n div 8)) xs" using d by (rule id_take_nth_drop)
  then have b: "bytes_bits xs = bytes_bits (take (n div 8) xs) @ to_bits 8 (xs ! (n div 8)) @ bytes_bits (drop (Suc (n div 8)) xs)"
    by (metis bytes_bits_Cons bytes_bits_append)
  have l: "length (bytes_bits (take (n div 8) xs)) = 8 * (n div 8)" using d by (simp add: length_bytes_bits_mult)
  have "n = 8 * (n div 8) + n mod 8" by simp
  then have t: "take n (as @ ys) = as @ take (n mod 8) ys" if "length as = 8 * (n div 8)" for as ys :: "bool list"
    using that by (metis add_diff_cancel_left' take_append take_all_iff le_add1)
  show ?thesis unfolding b t [OF l] by simp
qed

lemma emits_sds_type4:
  assumes "unat len \<le> 2047" and "length data = div_ceil8 (unat len)"
  shows "emits (write_sds_type4 len data) (to_bits 11 (ucast len :: u64) @ take (unat len) (bytes_bits data))"
proof -
  have u: "min (unat len) (length data * 8) = unat len" using assms(2) by (simp add: div_ceil8_def)
  have "\<not> len > 2047" using assms(1) by (simp add: word_less_nat_alt)
  moreover have "fits 11 len" using assms(1) by (simp add: fits_unat)
  moreover have "emits (seq [write_byte_list (take (unat len div 8) data),
      (if unat len mod 8 > 0 then write_bits (ucast (drop_bit (8 - unat len mod 8) (data ! (unat len div 8)))) (unat len mod 8) else ret ())])
     (take (unat len) (bytes_bits data))"
  proof (cases "unat len mod 8 = 0")
    case True
    then have "length data = unat len div 8" using assms(2) by (auto simp: div_ceil8_def elim!: dvdE)
    moreover from True this have "length (bytes_bits data) = unat len" by (auto simp: length_bytes_bits_mult)
    ultimately show ?thesis using True emits_bind [OF emits_byte_list [of data] emits_ret] by simp
  next
    case False
    then have lt: "unat len < 8 * length data" using assms(2) by (simp add: div_ceil8_def) presburger
    let ?k = "unat len mod 8" and ?x = "data ! (unat len div 8)"
    have "fits ?k (ucast (drop_bit (8 - ?k) ?x) :: u64)" by (auto simp: fits_iff bit_unsigned_iff bit_drop_bit_eq dest: bit_imp_le_length)
    then have "emits (write_bits (ucast (drop_bit (8 - ?k) ?x)) ?k) (to_bits ?k (ucast (drop_bit (8 - ?k) ?x) :: u64))"
      by (intro emits_write_bits) (simp_all add: less_imp_le)
    moreover have "to_bits ?k (ucast (drop_bit (8 - ?k) ?x) :: u64) = take ?k (to_bits 8 ?x)"
      by (simp add: to_bits_ucast take_bits less_imp_le)
    ultimately show ?thesis
      unfolding take_bytes_bits [OF lt] using False emits_bind [OF emits_byte_list] by simp
  qed
  ultimately show ?thesis
    unfolding write_sds_type4_def Let_def u by (simp only: if_False) (rule emits_seq_Cons [OF emits_write_bits]; simp)
qed

section \<open>The codec\<close>

primrec SdsUserData_wf :: "SdsUserData \<Rightarrow> bool" where
  "SdsUserData_wf (SdsUserData_Type1 _) \<longleftrightarrow> True"
| "SdsUserData_wf (SdsUserData_Type2 _) \<longleftrightarrow> True"
| "SdsUserData_wf (SdsUserData_Type3 _) \<longleftrightarrow> True"
| "SdsUserData_wf (SdsUserData_Type4 len data) \<longleftrightarrow>
     unat len \<le> 2047 \<and> length data = div_ceil8 (unat len) \<and> data = pack (take (unat len) (bytes_bits data))"

definition SdsUserData_enc :: "SdsUserData \<Rightarrow> bool list" where
  "SdsUserData_enc p =
     to_bits 2 (ucast (SdsUserData_type_identifier p) :: u64) @
     (case p of
        SdsUserData_Type1 v \<Rightarrow> to_bits 16 (ucast v :: u64)
      | SdsUserData_Type2 v \<Rightarrow> to_bits 32 (ucast v :: u64)
      | SdsUserData_Type3 v \<Rightarrow> to_bits 64 v
      | SdsUserData_Type4 len data \<Rightarrow> to_bits 11 (ucast len :: u64) @ take (unat len) (bytes_bits data))"

lemma parses_sds_type4:
  assumes "unat len \<le> 2047" and "length bs = unat len"
  shows "parses read_sds_type4 (to_bits 11 (ucast len :: u64) @ bs) (SdsUserData_Type4 len (pack bs))"
proof -
  have "fits 11 len" using assms(1) by (simp add: fits_unat)
  moreover have "parses_on (bind (read_bits_into_slice (unat len) (replicate (div_ceil8 (unat len)) 0)) (\<lambda>(r, data).
      case r of None \<Rightarrow> fail (BufferEnded (Some ''user_defined_data_4'')) | Some _ \<Rightarrow> ret (SdsUserData_Type4 len data)))
      bs rest (SdsUserData_Type4 len (pack bs))" for rest
    using parses_slice [of bs] unfolding assms(2) by (rule parses_bind_last) (simp add: parses_ret)
  ultimately show ?thesis
    unfolding read_sds_type4_def Let_def by (intro parsesI parses_field_bind) (simp_all cong: option.case_cong)
qed

interpretation SdsUserData: safe_codec SdsUserData_wf SdsUserData_enc write_sds_user_data read_sds_user_data
proof
  show "emits (write_sds_user_data p) (SdsUserData_enc p)" if "SdsUserData_wf p" for p
    unfolding write_sds_user_data_def SdsUserData_enc_def
    by (intro emits_seq_Cons emits_seq_last emits_write_bits)
       (use that in \<open>cases p; auto intro!: emits_write_bits emits_sds_type4\<close>)+
  show "parses read_sds_user_data (SdsUserData_enc p) p" if "SdsUserData_wf p" for p
  proof (cases p)
    case (SdsUserData_Type4 len data)
    then have t4: "parses read_sds_type4 (to_bits 11 (ucast len :: u64) @ take (unat len) (bytes_bits data)) p"
      using that parses_sds_type4 [of len "take (unat len) (bytes_bits data)"]
      by (simp add: length_bytes_bits_mult div_ceil8_def)
    then show ?thesis unfolding read_sds_user_data_def SdsUserData_enc_def Let_def SdsUserData_Type4
      by (intro parsesI parses_field_bind) auto
  qed (auto simp: read_sds_user_data_def SdsUserData_enc_def Let_def intro!: parsesI parses_field_bind parses_field_last parses_ret)
  show "safe read_sds_user_data"
    unfolding read_sds_user_data_def read_sds_type4_def Let_def case_prod_unfold
    by (rule safe_field_bind) (auto dest!: fits_cases intro!: safe_intros)
qed

declare SdsUserData.safe [safe_intros] SdsUserData.emits [l3_emits] SdsUserData.parses_first [l3_parses]

section \<open>DSdsData\<close>

text \<open>\<open>tetra-pdus/src/cmce/pdus/d_sds_data.rs\<close>.\<close>

record DSdsData =
  DSdsData_calling_party_type_identifier :: PartyTypeIdentifier
  DSdsData_calling_party_address_ssi :: "u64 option"
  DSdsData_calling_party_extension :: "u64 option"
  DSdsData_user_defined_data :: SdsUserData
  DSdsData_external_subscriber_number :: "type3_field_generic option"
  DSdsData_dm_ms_address :: "type3_field_generic option"

definition DSdsData_from_bitbuf :: "DSdsData bb" where
  "DSdsData_from_bitbuf =
     bind (read_field 5 ''pdu_type'') (\<lambda>pdu_type.
     bind (expect_pdu_type pdu_type (CmcePduTypeDl_into_raw CmcePduTypeDl_DSdsData)) (\<lambda>_.
     bind (read_enum PartyTypeIdentifier_try_from 2 ''calling_party_type_identifier'') (\<lambda>calling_party_type_identifier.
     bind (read_field_if (calling_party_type_identifier = PartyTypeIdentifier_Ssi \<or> calling_party_type_identifier = PartyTypeIdentifier_Tsi) 24 ''calling_party_address_ssi'') (\<lambda>calling_party_address_ssi.
     bind (read_field_if (calling_party_type_identifier = PartyTypeIdentifier_Tsi) 24 ''calling_party_extension'') (\<lambda>calling_party_extension.
     bind read_sds_user_data (\<lambda>user_defined_data.
     bind read_obit (\<lambda>obit.
     bind (parse_type3_generic obit (CmceType3ElemId_into_raw CmceType3ElemId_ExtSubscriberNum)) (\<lambda>external_subscriber_number.
     bind (parse_type3_generic obit (CmceType3ElemId_into_raw CmceType3ElemId_DmMsAddr)) (\<lambda>dm_ms_address.
     bind (read_trailing_mbit obit) (\<lambda>_.
     ret \<lparr>DSdsData_calling_party_type_identifier = calling_party_type_identifier, DSdsData_calling_party_address_ssi = calling_party_address_ssi,
          DSdsData_calling_party_extension = calling_party_extension, DSdsData_user_defined_data = user_defined_data,
          DSdsData_external_subscriber_number = external_subscriber_number, DSdsData_dm_ms_address = dm_ms_address\<rparr>))))))))))"

definition DSdsData_to_bitbuf :: "DSdsData \<Rightarrow> unit bb" where
  "DSdsData_to_bitbuf p =
     (let obit = DSdsData_external_subscriber_number p \<noteq> None \<or> DSdsData_dm_ms_address p \<noteq> None
      in seq
        [write_bits (CmcePduTypeDl_into_raw CmcePduTypeDl_DSdsData) 5,
         write_bits (PartyTypeIdentifier_into_raw (DSdsData_calling_party_type_identifier p)) 2,
         write_field_opt (DSdsData_calling_party_address_ssi p) 24,
         write_field_opt (DSdsData_calling_party_extension p) 24,
         write_sds_user_data (DSdsData_user_defined_data p),
         bind (write_obit (of_bool obit)) (\<lambda>_. if \<not> obit then ret () else seq
           [write_type3_generic obit (DSdsData_external_subscriber_number p) (CmceType3ElemId_into_raw CmceType3ElemId_ExtSubscriberNum),
            write_type3_generic obit (DSdsData_dm_ms_address p) (CmceType3ElemId_into_raw CmceType3ElemId_DmMsAddr),
            write_mbit 0])])"

definition DSdsData_wf :: "DSdsData \<Rightarrow> bool" where
  "DSdsData_wf p \<longleftrightarrow>
     pred_option (fits 24) (DSdsData_calling_party_address_ssi p) \<and>
     (DSdsData_calling_party_type_identifier p = PartyTypeIdentifier_Ssi \<or> DSdsData_calling_party_type_identifier p = PartyTypeIdentifier_Tsi) = (DSdsData_calling_party_address_ssi p \<noteq> None) \<and>
     pred_option (fits 24) (DSdsData_calling_party_extension p) \<and>
     (DSdsData_calling_party_type_identifier p = PartyTypeIdentifier_Tsi) = (DSdsData_calling_party_extension p \<noteq> None) \<and>
     SdsUserData_wf (DSdsData_user_defined_data p) \<and>
     pred_option (wf_type3_generic (CmceType3ElemId_into_raw CmceType3ElemId_ExtSubscriberNum)) (DSdsData_external_subscriber_number p) \<and>
     pred_option (wf_type3_generic (CmceType3ElemId_into_raw CmceType3ElemId_DmMsAddr)) (DSdsData_dm_ms_address p)"

definition DSdsData_enc :: "DSdsData \<Rightarrow> bool list" where
  "DSdsData_enc p =
     (let obit = DSdsData_external_subscriber_number p \<noteq> None \<or> DSdsData_dm_ms_address p \<noteq> None
      in to_bits 5 (CmcePduTypeDl_into_raw CmcePduTypeDl_DSdsData :: u64) @
         to_bits 2 (PartyTypeIdentifier_into_raw (DSdsData_calling_party_type_identifier p) :: u64) @
         enc_opt 24 (DSdsData_calling_party_address_ssi p) @ enc_opt 24 (DSdsData_calling_party_extension p) @
         SdsUserData_enc (DSdsData_user_defined_data p) @ obit #
         enc_type3_generic (CmceType3ElemId_into_raw CmceType3ElemId_ExtSubscriberNum) (DSdsData_external_subscriber_number p) @
         enc_type3_generic (CmceType3ElemId_into_raw CmceType3ElemId_DmMsAddr) (DSdsData_dm_ms_address p) @ (if obit then [False] else []))"

interpretation DSdsData: safe_codec DSdsData_wf DSdsData_enc DSdsData_to_bitbuf DSdsData_from_bitbuf
proof
  show "emits (DSdsData_to_bitbuf p) (DSdsData_enc p)" if "DSdsData_wf p" for p
    using that unfolding DSdsData_to_bitbuf_def DSdsData_enc_def DSdsData_wf_def Let_def append_assoc append_Cons append_Nil
    by (intro l3_emits) (auto simp: l3_simps l3_codecs)
  show "parses DSdsData_from_bitbuf (DSdsData_enc p) p" if "DSdsData_wf p" for p
    unfolding DSdsData_from_bitbuf_def DSdsData_enc_def Let_def append_assoc append_Cons append_Nil
    by (rule parsesI) (intro parses_ret l3_parses, use that in \<open>auto simp: DSdsData_wf_def l3_simps l3_codecs\<close>)
  show "safe DSdsData_from_bitbuf"
    unfolding DSdsData_from_bitbuf_def by (intro safe_intros)
qed

section \<open>USdsData\<close>

text \<open>\<open>tetra-pdus/src/cmce/pdus/u_sds_data.rs\<close>.\<close>

record USdsData =
  USdsData_area_selection :: u8
  USdsData_called_party_type_identifier :: PartyTypeIdentifier
  USdsData_called_party_short_number_address :: "u64 option"
  USdsData_called_party_ssi :: "u64 option"
  USdsData_called_party_extension :: "u64 option"
  USdsData_user_defined_data :: SdsUserData
  USdsData_external_subscriber_number :: "type3_field_generic option"
  USdsData_dm_ms_address :: "type3_field_generic option"

definition USdsData_from_bitbuf :: "USdsData bb" where
  "USdsData_from_bitbuf =
     bind (read_field 5 ''pdu_type'') (\<lambda>pdu_type.
     bind (expect_pdu_type pdu_type (CmcePduTypeUl_into_raw CmcePduTypeUl_USdsData)) (\<lambda>_.
     bind (read_field 4 ''area_selection'') (\<lambda>area_selection.
     bind (read_enum PartyTypeIdentifier_try_from 2 ''called_party_type_identifier'') (\<lambda>called_party_type_identifier.
     bind (read_field_if (called_party_type_identifier = PartyTypeIdentifier_Sna) 8 ''called_party_short_number_address'') (\<lambda>called_party_short_number_address.
     bind (read_field_if (called_party_type_identifier = PartyTypeIdentifier_Ssi \<or> called_party_type_identifier = PartyTypeIdentifier_Tsi) 24 ''called_party_ssi'') (\<lambda>called_party_ssi.
     bind (read_field_if (called_party_type_identifier = PartyTypeIdentifier_Tsi) 24 ''called_party_extension'') (\<lambda>called_party_extension.
     bind read_sds_user_data (\<lambda>user_defined_data.
     bind read_obit (\<lambda>obit.
     bind (parse_type3_generic obit (CmceType3ElemId_into_raw CmceType3ElemId_ExtSubscriberNum)) (\<lambda>external_subscriber_number.
     bind (parse_type3_generic obit (CmceType3ElemId_into_raw CmceType3ElemId_DmMsAddr)) (\<lambda>dm_ms_address.
     bind (read_trailing_mbit obit) (\<lambda>_.
     ret \<lparr>USdsData_area_selection = ucast area_selection, USdsData_called_party_type_identifier = called_party_type_identifier,
          USdsData_called_party_short_number_address = called_party_short_number_address, USdsData_called_party_ssi = called_party_ssi,
          USdsData_called_party_extension = called_party_extension, USdsData_user_defined_data = user_defined_data,
          USdsData_external_subscriber_number = external_subscriber_number, USdsData_dm_ms_address = dm_ms_address\<rparr>))))))))))))"

definition USdsData_to_bitbuf :: "USdsData \<Rightarrow> unit bb" where
  "USdsData_to_bitbuf p =
     (let obit = USdsData_external_subscriber_number p \<noteq> None \<or> USdsData_dm_ms_address p \<noteq> None
      in seq
        [write_bits (CmcePduTypeUl_into_raw CmcePduTypeUl_USdsData) 5,
         write_bits (ucast (USdsData_area_selection p)) 4,
         write_bits (PartyTypeIdentifier_into_raw (USdsData_called_party_type_identifier p)) 2,
         write_field_opt (USdsData_called_party_short_number_address p) 8,
         write_field_opt (USdsData_called_party_ssi p) 24,
         write_field_opt (USdsData_called_party_extension p) 24,
         write_sds_user_data (USdsData_user_defined_data p),
         bind (write_obit (of_bool obit)) (\<lambda>_. if \<not> obit then ret () else seq
           [write_type3_generic obit (USdsData_external_subscriber_number p) (CmceType3ElemId_into_raw CmceType3ElemId_ExtSubscriberNum),
            write_type3_generic obit (USdsData_dm_ms_address p) (CmceType3ElemId_into_raw CmceType3ElemId_DmMsAddr),
            write_mbit 0])])"

definition USdsData_wf :: "USdsData \<Rightarrow> bool" where
  "USdsData_wf p \<longleftrightarrow>
     fits 4 (USdsData_area_selection p) \<and>
     pred_option (fits 8) (USdsData_called_party_short_number_address p) \<and>
     (USdsData_called_party_type_identifier p = PartyTypeIdentifier_Sna) = (USdsData_called_party_short_number_address p \<noteq> None) \<and>
     pred_option (fits 24) (USdsData_called_party_ssi p) \<and>
     (USdsData_called_party_type_identifier p = PartyTypeIdentifier_Ssi \<or> USdsData_called_party_type_identifier p = PartyTypeIdentifier_Tsi) = (USdsData_called_party_ssi p \<noteq> None) \<and>
     pred_option (fits 24) (USdsData_called_party_extension p) \<and>
     (USdsData_called_party_type_identifier p = PartyTypeIdentifier_Tsi) = (USdsData_called_party_extension p \<noteq> None) \<and>
     SdsUserData_wf (USdsData_user_defined_data p) \<and>
     pred_option (wf_type3_generic (CmceType3ElemId_into_raw CmceType3ElemId_ExtSubscriberNum)) (USdsData_external_subscriber_number p) \<and>
     pred_option (wf_type3_generic (CmceType3ElemId_into_raw CmceType3ElemId_DmMsAddr)) (USdsData_dm_ms_address p)"

definition USdsData_enc :: "USdsData \<Rightarrow> bool list" where
  "USdsData_enc p =
     (let obit = USdsData_external_subscriber_number p \<noteq> None \<or> USdsData_dm_ms_address p \<noteq> None
      in to_bits 5 (CmcePduTypeUl_into_raw CmcePduTypeUl_USdsData :: u64) @ to_bits 4 (ucast (USdsData_area_selection p) :: u64) @
         to_bits 2 (PartyTypeIdentifier_into_raw (USdsData_called_party_type_identifier p) :: u64) @
         enc_opt 8 (USdsData_called_party_short_number_address p) @ enc_opt 24 (USdsData_called_party_ssi p) @
         enc_opt 24 (USdsData_called_party_extension p) @ SdsUserData_enc (USdsData_user_defined_data p) @ obit #
         enc_type3_generic (CmceType3ElemId_into_raw CmceType3ElemId_ExtSubscriberNum) (USdsData_external_subscriber_number p) @
         enc_type3_generic (CmceType3ElemId_into_raw CmceType3ElemId_DmMsAddr) (USdsData_dm_ms_address p) @ (if obit then [False] else []))"

interpretation USdsData: safe_codec USdsData_wf USdsData_enc USdsData_to_bitbuf USdsData_from_bitbuf
proof
  show "emits (USdsData_to_bitbuf p) (USdsData_enc p)" if "USdsData_wf p" for p
    using that unfolding USdsData_to_bitbuf_def USdsData_enc_def USdsData_wf_def Let_def append_assoc append_Cons append_Nil
    by (intro l3_emits) (auto simp: l3_simps l3_codecs)
  show "parses USdsData_from_bitbuf (USdsData_enc p) p" if "USdsData_wf p" for p
    unfolding USdsData_from_bitbuf_def USdsData_enc_def Let_def append_assoc append_Cons append_Nil
    by (rule parsesI) (intro parses_ret l3_parses, use that in \<open>auto simp: USdsData_wf_def l3_simps l3_codecs\<close>)
  show "safe USdsData_from_bitbuf"
    unfolding USdsData_from_bitbuf_def by (intro safe_intros)
qed

end
