(* ===== verification/Cmce_Circuits.thy ===== *)
theory Cmce_Circuits
  imports L3_Enums Tdma_Time Timeslot_Alloc "HOL-Library.Signed_Division"
begin

text \<open>
  The circuits of circuit mode control (\<open>tetra-entities/src/cmce/components/circuit_mgr.rs\<close>,
  \<open>tetra-pdus/src/cmce/structs/cmce_circuit.rs\<close>): which call occupies which slot, the call identifiers and usage numbers they get, the
  voice waiting for them, the expiry of simplex circuits and the repetition of D-SETUP for late entry. An operation that fails may have
  changed the manager before (an identifier is consumed, a queue is dropped), so every operation returns its result and the manager.
\<close>

declare One_nat_def [simp del]

section \<open>State\<close>

record CmceCircuit =
  qc_ts_created :: TdmaTime
  qc_direction :: Direction
  qc_ts :: u8
  qc_carrier_num :: u16
  qc_call_id :: u16
  qc_usage :: u8
  qc_circuit_mode :: CircuitModeType
  qc_comm_type :: CommunicationType
  qc_simplex_duplex :: bool
  qc_speech_service :: "u8 option"
  qc_etee_encrypted :: bool

datatype CircuitErr = NoCircuitFree | CircuitAlreadyInUse | CircuitNotActive

datatype CircuitMgrCmd =
    SendDSetup u16 u8 u16 u8
  | SendClose u16 CmceCircuit

record CmceCircuitMgr =
  qm_dltime :: TdmaTime
  qm_dl :: "CmceCircuit list"
  qm_ul_only :: "CmceCircuit list"
  qm_tx_data :: "slot_key \<rightharpoonup> u8 list list"
  qm_next_call_identifier :: u16
  qm_next_usage_number :: u8

definition CmceCircuitMgr_new :: CmceCircuitMgr where
  "CmceCircuitMgr_new =
     \<lparr>qm_dltime = TdmaTime_default, qm_dl = [], qm_ul_only = [], qm_tx_data = Map.empty, qm_next_call_identifier = 4,
      qm_next_usage_number = 4\<rparr>"

definition includes_ul :: "Direction \<Rightarrow> bool" where
  "includes_ul d \<longleftrightarrow> d = Direction_Ul \<or> d = Direction_Both"

definition includes_dl :: "Direction \<Rightarrow> bool" where
  "includes_dl d \<longleftrightarrow> d = Direction_Dl \<or> d = Direction_Both"

section \<open>Lookup\<close>

definition on_slot :: "u16 \<Rightarrow> u8 \<Rightarrow> CmceCircuit \<Rightarrow> bool" where
  "on_slot carrier_num ts c \<longleftrightarrow> qc_carrier_num c = carrier_num \<and> qc_ts c = ts"

definition find_dl :: "CmceCircuitMgr \<Rightarrow> u16 \<Rightarrow> u8 \<Rightarrow> CmceCircuit option" where
  "find_dl m carrier_num ts = find (on_slot carrier_num ts) (qm_dl m)"

definition find_ul_only :: "CmceCircuitMgr \<Rightarrow> u16 \<Rightarrow> u8 \<Rightarrow> CmceCircuit option" where
  "find_ul_only m carrier_num ts = find (on_slot carrier_num ts) (qm_ul_only m)"

text \<open>\<open>position\<close> followed by \<open>remove\<close>: the first match and the list without it.\<close>

primrec remove_first :: "('a \<Rightarrow> bool) \<Rightarrow> 'a list \<Rightarrow> 'a option \<times> 'a list" where
  "remove_first P [] = (None, [])"
| "remove_first P (x # xs) = (if P x then (Some x, xs) else map_prod id (Cons x) (remove_first P xs))"

definition remove_dl :: "u16 \<Rightarrow> u8 \<Rightarrow> CmceCircuitMgr \<Rightarrow> CmceCircuit option \<times> CmceCircuitMgr" where
  "remove_dl carrier_num ts m =
     (case remove_first (on_slot carrier_num ts) (qm_dl m) of (c, dl) \<Rightarrow> (c, m\<lparr>qm_dl := dl\<rparr>))"

definition remove_ul_only :: "u16 \<Rightarrow> u8 \<Rightarrow> CmceCircuitMgr \<Rightarrow> CmceCircuit option \<times> CmceCircuitMgr" where
  "remove_ul_only carrier_num ts m =
     (case remove_first (on_slot carrier_num ts) (qm_ul_only m) of (c, ul) \<Rightarrow> (c, m\<lparr>qm_ul_only := ul\<rparr>))"

definition is_active_slot :: "CmceCircuitMgr \<Rightarrow> u16 \<Rightarrow> u8 \<Rightarrow> bool \<times> bool" where
  "is_active_slot m carrier_num ts =
     (case find_dl m carrier_num ts of
        Some dl \<Rightarrow> if qc_direction dl = Direction_Both then (True, True) else (True, find_ul_only m carrier_num ts \<noteq> None)
      | None \<Rightarrow> (False, find_ul_only m carrier_num ts \<noteq> None))"

definition is_active_ts :: "CmceCircuitMgr \<Rightarrow> u8 \<Rightarrow> bool \<times> bool" where
  "is_active_ts m ts =
     (let dl_active = list_ex (\<lambda>c. qc_ts c = ts) (qm_dl m);
          ul_active = list_ex (\<lambda>c. qc_ts c = ts) (qm_ul_only m) \<or>
            list_ex (\<lambda>c. qc_ts c = ts \<and> qc_direction c = Direction_Both) (qm_dl m)
      in (dl_active, ul_active))"

definition is_active_dir_slot :: "CmceCircuitMgr \<Rightarrow> u16 \<Rightarrow> u8 \<Rightarrow> Direction \<Rightarrow> bool" where
  "is_active_dir_slot m carrier_num ts dir =
     (case dir of
        Direction_Dl \<Rightarrow> find_dl m carrier_num ts \<noteq> None
      | Direction_Ul \<Rightarrow> find_ul_only m carrier_num ts \<noteq> None \<or>
          (case find_dl m carrier_num ts of Some dl \<Rightarrow> qc_direction dl = Direction_Both | None \<Rightarrow> False)
      | _ \<Rightarrow> False)"

definition is_active_dir :: "CmceCircuitMgr \<Rightarrow> u8 \<Rightarrow> Direction \<Rightarrow> bool" where
  "is_active_dir m ts dir =
     (case dir of
        Direction_Dl \<Rightarrow> list_ex (\<lambda>c. qc_ts c = ts) (qm_dl m)
      | Direction_Ul \<Rightarrow> list_ex (\<lambda>c. qc_ts c = ts) (qm_ul_only m) \<or>
          list_ex (\<lambda>c. qc_ts c = ts \<and> qc_direction c = Direction_Both) (qm_dl m)
      | _ \<Rightarrow> False)"

definition get_usage_slot :: "CmceCircuitMgr \<Rightarrow> u16 \<Rightarrow> u8 \<Rightarrow> u8 option \<times> u8 option" where
  "get_usage_slot m carrier_num ts =
     (let (dl_usage, dl_is_both) =
            (case find_dl m carrier_num ts of
               Some dl \<Rightarrow> (Some (qc_usage dl), qc_direction dl = Direction_Both)
             | None \<Rightarrow> (None, False));
          ul_usage = (if dl_is_both then dl_usage else map_option qc_usage (find_ul_only m carrier_num ts))
      in (dl_usage, ul_usage))"

definition get_usage_ts :: "CmceCircuitMgr \<Rightarrow> u8 \<Rightarrow> u8 option \<times> u8 option" where
  "get_usage_ts m ts =
     (case (case find (\<lambda>c. qc_ts c = ts) (qm_dl m) of Some c \<Rightarrow> Some c | None \<Rightarrow> find (\<lambda>c. qc_ts c = ts) (qm_ul_only m)) of
        None \<Rightarrow> (None, None)
      | Some circuit \<Rightarrow> get_usage_slot m (qc_carrier_num circuit) ts)"

section \<open>Opening and closing\<close>

definition get_next_call_id :: "CmceCircuitMgr \<Rightarrow> u16 \<times> CmceCircuitMgr" where
  "get_next_call_id m =
     (let next = qm_next_call_identifier m + 1
      in (qm_next_call_identifier m, m\<lparr>qm_next_call_identifier := (if next > 0x3FFF then 1 else next)\<rparr>))"

definition get_next_usage_number :: "CmceCircuitMgr \<Rightarrow> u8 \<times> CmceCircuitMgr" where
  "get_next_usage_number m =
     (let next = qm_next_usage_number m + 1
      in (qm_next_usage_number m, m\<lparr>qm_next_usage_number := (if next > 63 then 4 else next)\<rparr>))"

definition make_circuit :: "CmceCircuitMgr \<Rightarrow> Direction \<Rightarrow> CarrierSlot \<Rightarrow> u16 \<Rightarrow> u8 \<Rightarrow> CommunicationType \<Rightarrow> bool \<Rightarrow> CmceCircuit" where
  "make_circuit m dir slot call_id usage comm_type simplex_duplex =
     \<lparr>qc_ts_created = qm_dltime m, qc_direction = dir, qc_ts = cs_ts slot, qc_carrier_num = cs_carrier_num slot, qc_call_id = call_id,
      qc_usage = usage, qc_circuit_mode = CircuitModeType_TchS, qc_comm_type = comm_type, qc_simplex_duplex = simplex_duplex,
      qc_speech_service = Some 0, qc_etee_encrypted = False\<rparr>"

text \<open>The two nested loops of \<open>get_free_slot\<close>; the body decides whether a slot is taken as the answer.\<close>

definition slot_usable :: "CmceCircuitMgr \<Rightarrow> Direction \<Rightarrow> u16 \<Rightarrow> u8 \<Rightarrow> bool" where
  "slot_usable m dir carrier_num ts =
     (case (dir, is_active_slot m carrier_num ts) of
        (Direction_Dl, False, _) \<Rightarrow> True
      | (Direction_Ul, False, False) \<Rightarrow> True
      | (Direction_Ul, True, False) \<Rightarrow>
          (case find_dl m carrier_num ts of Some dl \<Rightarrow> qc_direction dl \<noteq> Direction_Both | None \<Rightarrow> False)
      | (Direction_Both, False, False) \<Rightarrow> True
      | _ \<Rightarrow> False)"

definition get_free_slot :: "CmceCircuitMgr \<Rightarrow> Direction \<Rightarrow> (CircuitErr, CarrierSlot) outcome" where
  "get_free_slot m dir =
     (case find (\<lambda>s. slot_usable m dir (cs_carrier_num s) (cs_ts s))
        (concat (map (\<lambda>c. map (\<lambda>ts. \<lparr>cs_carrier_num = c, cs_ts = ts\<rparr>) [2, 3, 4])
          (map qc_carrier_num (qm_dl m) @ map qc_carrier_num (qm_ul_only m) @ [0]))) of
        Some slot \<Rightarrow> Ok slot
      | None \<Rightarrow> Err NoCircuitFree)"

definition open_circuit :: "Direction \<Rightarrow> CmceCircuit \<Rightarrow> CmceCircuitMgr \<Rightarrow> (CircuitErr, CmceCircuit) outcome \<times> CmceCircuitMgr" where
  "open_circuit dir circuit m =
     (let (dl_active, ul_active) = is_active_slot m (qc_carrier_num circuit) (qc_ts circuit)
      in if includes_dl dir \<and> dl_active then (Err CircuitAlreadyInUse, m)
         else if includes_ul dir \<and> ul_active then (Err CircuitAlreadyInUse, m)
         else case dir of
           Direction_None \<Rightarrow> (Panic, m)
         | Direction_Ul \<Rightarrow> (Ok circuit, m\<lparr>qm_ul_only := qm_ul_only m @ [circuit]\<rparr>)
         | _ \<Rightarrow>
             let key = (qc_carrier_num circuit, qc_ts circuit);
                 m = (if (case qm_tx_data m key of Some queue \<Rightarrow> queue \<noteq> [] | None \<Rightarrow> False)
                      then m\<lparr>qm_tx_data := (qm_tx_data m)(key := None)\<rparr> else m)
             in (Ok circuit, m\<lparr>qm_dl := qm_dl m @ [circuit]\<rparr>))"

definition close_circuit_slot :: "Direction \<Rightarrow> u16 \<Rightarrow> u8 \<Rightarrow> CmceCircuitMgr \<Rightarrow> (CircuitErr, CmceCircuit) outcome \<times> CmceCircuitMgr" where
  "close_circuit_slot dir carrier_num ts m =
     (case dir of
        Direction_None \<Rightarrow> (Panic, m)
      | Direction_Ul \<Rightarrow> map_prod (case_option (Err CircuitNotActive) Ok) id (remove_ul_only carrier_num ts m)
      | _ \<Rightarrow> map_prod (case_option (Err CircuitNotActive) Ok) id
              (remove_dl carrier_num ts (m\<lparr>qm_tx_data := (qm_tx_data m)((carrier_num, ts) := None)\<rparr>)))"

definition close_circuit :: "Direction \<Rightarrow> u8 \<Rightarrow> CmceCircuitMgr \<Rightarrow> (CircuitErr, CmceCircuit) outcome \<times> CmceCircuitMgr" where
  "close_circuit dir ts m =
     (case find (\<lambda>c. qc_ts c = ts) (qm_dl m @ qm_ul_only m) of
        None \<Rightarrow> (Err CircuitNotActive, m)
      | Some c \<Rightarrow> close_circuit_slot dir (qc_carrier_num c) ts m)"

definition allocate_circuit ::
  "Direction \<Rightarrow> CommunicationType \<Rightarrow> bool \<Rightarrow> CmceCircuitMgr \<Rightarrow> (CircuitErr, CmceCircuit) outcome \<times> CmceCircuitMgr" where
  "allocate_circuit dir comm_type simplex_duplex m =
     (case get_free_slot m dir of
        Ok slot \<Rightarrow>
          let (call_id, m) = get_next_call_id m;
              (usage, m) = get_next_usage_number m
          in open_circuit dir (make_circuit m dir slot call_id usage comm_type simplex_duplex) m
      | Err e \<Rightarrow> (Err e, m)
      | Panic \<Rightarrow> (Panic, m))"

definition allocate_circuit_for_call_with_allocator ::
  "u16 \<Rightarrow> Direction \<Rightarrow> CommunicationType \<Rightarrow> bool \<Rightarrow> TimeslotOwner \<Rightarrow> CmceCircuitMgr \<times> TimeslotAllocator \<Rightarrow>
   (CircuitErr, CmceCircuit) outcome \<times> CmceCircuitMgr \<times> TimeslotAllocator" where
  "allocate_circuit_for_call_with_allocator call_id dir comm_type simplex_duplex owner = (\<lambda>(m, a).
     case allocate_any_slot owner a of
       (None, a) \<Rightarrow> (Err NoCircuitFree, m, a)
     | (Some slot, a) \<Rightarrow>
         let (usage, m) = get_next_usage_number m;
             (r, m) = open_circuit dir (make_circuit m dir slot call_id usage comm_type simplex_duplex) m
         in (r, m, a))"

definition allocate_circuit_with_allocator ::
  "Direction \<Rightarrow> CommunicationType \<Rightarrow> bool \<Rightarrow> TimeslotOwner \<Rightarrow> CmceCircuitMgr \<times> TimeslotAllocator \<Rightarrow>
   (CircuitErr, CmceCircuit) outcome \<times> CmceCircuitMgr \<times> TimeslotAllocator" where
  "allocate_circuit_with_allocator dir comm_type simplex_duplex owner = (\<lambda>(m, a).
     case allocate_any_slot owner a of
       (None, a) \<Rightarrow> (Err NoCircuitFree, m, a)
     | (Some slot, a) \<Rightarrow>
         let (call_id, m) = get_next_call_id m;
             (usage, m) = get_next_usage_number m;
             (r, m) = open_circuit dir (make_circuit m dir slot call_id usage comm_type simplex_duplex) m
         in (r, m, a))"

section \<open>Voice\<close>

definition cmce_put_block :: "u16 \<Rightarrow> u8 \<Rightarrow> u8 list \<Rightarrow> CmceCircuitMgr \<Rightarrow> (CircuitErr, unit) outcome \<times> CmceCircuitMgr" where
  "cmce_put_block carrier_num ts block m =
     (if \<not> is_active_dir_slot m carrier_num ts Direction_Dl then (Err CircuitNotActive, m)
      else (Ok (), m\<lparr>qm_tx_data := (qm_tx_data m)((carrier_num, ts) \<mapsto>
              (case qm_tx_data m (carrier_num, ts) of Some q \<Rightarrow> q | None \<Rightarrow> []) @ [block])\<rparr>))"

definition cmce_take_block :: "u16 \<Rightarrow> u8 \<Rightarrow> CmceCircuitMgr \<Rightarrow> (CircuitErr, u8 list option) outcome \<times> CmceCircuitMgr" where
  "cmce_take_block carrier_num ts m =
     (if \<not> is_active_dir_slot m carrier_num ts Direction_Dl then (Err CircuitNotActive, m)
      else case qm_tx_data m (carrier_num, ts) of
        Some (b # q) \<Rightarrow> (Ok (Some b), m\<lparr>qm_tx_data := (qm_tx_data m)((carrier_num, ts) \<mapsto> q)\<rparr>)
      | _ \<Rightarrow> (Ok None, m))"

section \<open>The tick\<close>

definition D_SETUP_REPEATS :: int where
  "D_SETUP_REPEATS = 1"

definition LATE_ENTRY_INTERVAL_TIMESLOTS :: int where
  "LATE_ENTRY_INTERVAL_TIMESLOTS = multiframes 5"

definition CIRCUIT_EXPIRY_TIMESLOTS :: int where
  "CIRCUIT_EXPIRY_TIMESLOTS = 6 * 60 * 18 * 4"

definition frames :: "int \<Rightarrow> int" where
  "frames f = f * 4"

definition circuit_expired :: "TdmaTime \<Rightarrow> CmceCircuit \<Rightarrow> bool" where
  "circuit_expired now c \<longleftrightarrow> \<not> qc_simplex_duplex c \<and> TdmaTime_age (qc_ts_created c) now > CIRCUIT_EXPIRY_TIMESLOTS"

text \<open>The loop over what has to be closed; a task list is created with its first task.\<close>

primrec close_all ::
  "(Direction \<times> u16 \<times> u8 \<times> u16) list \<Rightarrow> CircuitMgrCmd list option \<Rightarrow> CmceCircuitMgr \<Rightarrow>
   (CircuitErr, CircuitMgrCmd list option) outcome \<times> CmceCircuitMgr" where
  "close_all [] tasks m = (Ok tasks, m)"
| "close_all (x # xs) tasks m =
     (case x of (dir, carrier_num, ts, call_id) \<Rightarrow>
        (case close_circuit_slot dir carrier_num ts m of
           (Ok circuit, m) \<Rightarrow> close_all xs (Some ((case tasks of Some l \<Rightarrow> l | None \<Rightarrow> []) @ [SendClose call_id circuit])) m
         | (Err _, m) \<Rightarrow> close_all xs tasks m
         | (Panic, m) \<Rightarrow> (Panic, m)))"

definition closing_key :: "CmceCircuit \<Rightarrow> Direction \<times> u16 \<times> u8 \<times> u16" where
  "closing_key c = (qc_direction c, qc_carrier_num c, qc_ts c, qc_call_id c)"

definition close_expired_circuits ::
  "CircuitMgrCmd list option \<Rightarrow> CmceCircuitMgr \<Rightarrow> (CircuitErr, CircuitMgrCmd list option) outcome \<times> CmceCircuitMgr" where
  "close_expired_circuits tasks m =
     close_all (map closing_key (filter (circuit_expired (qm_dltime m)) (qm_dl m)) @
                map closing_key (filter (circuit_expired (qm_dltime m)) (qm_ul_only m))) tasks m"

definition d_setup_due :: "TdmaTime \<Rightarrow> CmceCircuit \<Rightarrow> bool" where
  "d_setup_due now c \<longleftrightarrow>
     (let age = TdmaTime_age (qc_ts_created c) now
      in age < frames D_SETUP_REPEATS \<or> (age sdiv 4) smod (LATE_ENTRY_INTERVAL_TIMESLOTS sdiv 4) = 0)"

definition push_task :: "CircuitMgrCmd \<Rightarrow> CircuitMgrCmd list option \<Rightarrow> CircuitMgrCmd list option" where
  "push_task cmd tasks = Some ((case tasks of Some l \<Rightarrow> l | None \<Rightarrow> []) @ [cmd])"

definition tick_start_circuits ::
  "TdmaTime \<Rightarrow> CmceCircuitMgr \<Rightarrow> (CircuitErr, CircuitMgrCmd list option) outcome \<times> CmceCircuitMgr" where
  "tick_start_circuits dltime m =
     (let m = m\<lparr>qm_dltime := dltime\<rparr>
      in if tm_t dltime = 1 then
           (case close_expired_circuits None m of
              (Ok tasks, m) \<Rightarrow>
                (Ok (fold (\<lambda>c. if d_setup_due dltime c
                               then push_task (SendDSetup (qc_call_id c) (qc_usage c) (qc_carrier_num c) (qc_ts c)) else id)
                      (qm_dl m) tasks), m)
            | r \<Rightarrow> r)
         else (Ok None, m))"

end
