(* ===== verification/Cmce_Circuits_Spec.thy ===== *)
theory Cmce_Circuits_Spec
  imports Cmce_Circuits
begin

text \<open>
  What the circuit table of circuit mode control keeps: a slot carries at most one circuit per direction, voice waits only for open
  downlink circuits and the counters stay in their ranges. On top of it the joint invariant with the timeslot allocator, the exact effect
  of the expiry sweep and the schedule of the repeated D-SETUP.
\<close>

declare One_nat_def [simp del]

section \<open>Lists of circuits\<close>

definition slot_of :: "CmceCircuit \<Rightarrow> slot_key" where
  "slot_of c = (qc_carrier_num c, qc_ts c)"

lemma on_slot_iff: "on_slot cn ts c \<longleftrightarrow> slot_of c = (cn, ts)"
  by (auto simp: on_slot_def slot_of_def)

lemma find_None_slot: "find (on_slot cn ts) cs = None \<longleftrightarrow> (cn, ts) \<notin> slot_of ` set cs"
  by (induction cs) (auto simp: on_slot_iff)

lemma find_Some_slot: "find (on_slot cn ts) cs = Some c \<Longrightarrow> c \<in> set cs \<and> slot_of c = (cn, ts)"
  by (induction cs) (auto simp: on_slot_iff split: if_splits)

lemma find_distinct: "distinct (map slot_of cs) \<Longrightarrow> c \<in> set cs \<Longrightarrow> find (on_slot (qc_carrier_num c) (qc_ts c)) cs = Some c"
  by (induction cs) (auto simp: on_slot_iff slot_of_def)

lemma remove_first_filter:
  "distinct (map slot_of cs) \<Longrightarrow>
   remove_first (on_slot cn ts) cs = (find (on_slot cn ts) cs, filter (\<lambda>c. slot_of c \<noteq> (cn, ts)) cs)"
proof (induction cs)
  case (Cons c cs)
  show ?case
  proof (cases "on_slot cn ts c")
    case True
    then have "\<forall>d \<in> set cs. slot_of d \<noteq> (cn, ts)" using Cons.prems by (auto simp: on_slot_iff intro: rev_image_eqI)
    then have "filter (\<lambda>c. slot_of c \<noteq> (cn, ts)) cs = cs" by (simp add: filter_id_conv)
    with True show ?thesis by (simp add: on_slot_iff)
  qed (use Cons in \<open>simp add: on_slot_iff\<close>)
qed simp

section \<open>Invariant\<close>

definition qm_inv :: "CmceCircuitMgr \<Rightarrow> bool" where
  "qm_inv m \<longleftrightarrow>
     distinct (map slot_of (qm_dl m)) \<and> distinct (map slot_of (qm_ul_only m)) \<and>
     (\<forall>c \<in> set (qm_dl m). includes_dl (qc_direction c)) \<and> (\<forall>c \<in> set (qm_ul_only m). qc_direction c = Direction_Ul) \<and>
     (\<forall>c \<in> set (qm_dl m). qc_direction c = Direction_Both \<longrightarrow> slot_of c \<notin> slot_of ` set (qm_ul_only m)) \<and>
     dom (qm_tx_data m) \<subseteq> slot_of ` set (qm_dl m) \<and>
     1 \<le> qm_next_call_identifier m \<and> qm_next_call_identifier m \<le> 0x3FFF \<and>
     4 \<le> qm_next_usage_number m \<and> qm_next_usage_number m \<le> 63"

lemma qm_inv_new: "qm_inv CmceCircuitMgr_new"
  by (simp add: qm_inv_def CmceCircuitMgr_new_def)

lemma is_active_slot_sets:
  assumes "qm_inv m"
  shows "fst (is_active_slot m cn ts) \<longleftrightarrow> (cn, ts) \<in> slot_of ` set (qm_dl m)"
    and "\<not> snd (is_active_slot m cn ts) \<Longrightarrow> (cn, ts) \<notin> slot_of ` set (qm_ul_only m)"
    and "\<not> snd (is_active_slot m cn ts) \<Longrightarrow> c \<in> set (qm_dl m) \<Longrightarrow> slot_of c = (cn, ts) \<Longrightarrow> qc_direction c \<noteq> Direction_Both"
proof -
  have d: "find_dl m cn ts = None \<longleftrightarrow> (cn, ts) \<notin> slot_of ` set (qm_dl m)"
    "find_ul_only m cn ts = None \<longleftrightarrow> (cn, ts) \<notin> slot_of ` set (qm_ul_only m)"
    by (simp_all add: find_dl_def find_ul_only_def find_None_slot)
  show "fst (is_active_slot m cn ts) \<longleftrightarrow> (cn, ts) \<in> slot_of ` set (qm_dl m)"
    using d(1) by (auto simp: is_active_slot_def split: option.split)
  show "\<not> snd (is_active_slot m cn ts) \<Longrightarrow> (cn, ts) \<notin> slot_of ` set (qm_ul_only m)"
    using d(2) by (auto simp: is_active_slot_def split: option.splits if_splits)
  assume "\<not> snd (is_active_slot m cn ts)" and c: "c \<in> set (qm_dl m)" "slot_of c = (cn, ts)"
  moreover have "find_dl m cn ts = Some c"
    using find_distinct [of "qm_dl m" c] c assms by (simp add: find_dl_def qm_inv_def slot_of_def)
  ultimately show "qc_direction c \<noteq> Direction_Both" by (auto simp: is_active_slot_def)
qed

lemma is_active_slot_used:
  "fst (is_active_slot m cn ts) \<or> snd (is_active_slot m cn ts) \<Longrightarrow>
   (cn, ts) \<in> slot_of ` set (qm_dl m) \<or> (cn, ts) \<in> slot_of ` set (qm_ul_only m)"
  using find_None_slot [of cn ts "qm_dl m"] find_None_slot [of cn ts "qm_ul_only m"]
  by (auto simp: is_active_slot_def find_dl_def find_ul_only_def split: option.splits if_splits)

subsection \<open>Counters\<close>

lemma next_call_id:
  assumes "qm_inv m"
  shows "qm_inv (snd (get_next_call_id m))"
proof -
  have "qm_next_call_identifier m + 1 \<le> 0x3FFF \<Longrightarrow> 1 \<le> qm_next_call_identifier m + 1"
    using assms unfolding qm_inv_def word_le_nat_alt by (simp add: unat_word_ariths)
  then show ?thesis using assms by (auto simp: qm_inv_def get_next_call_id_def Let_def not_less)
qed

lemma next_usage_number:
  assumes "qm_inv m"
  shows "qm_inv (snd (get_next_usage_number m))"
proof -
  have "qm_next_usage_number m + 1 \<le> 63 \<Longrightarrow> 4 \<le> qm_next_usage_number m + 1"
    using assms unfolding qm_inv_def word_le_nat_alt by (simp add: unat_word_ariths)
  then show ?thesis using assms by (auto simp: qm_inv_def get_next_usage_number_def Let_def not_less)
qed

lemma counters_frame [simp]:
  "qm_dl (snd (get_next_call_id m)) = qm_dl m" "qm_ul_only (snd (get_next_call_id m)) = qm_ul_only m"
  "qm_tx_data (snd (get_next_call_id m)) = qm_tx_data m"
  "qm_dl (snd (get_next_usage_number m)) = qm_dl m" "qm_ul_only (snd (get_next_usage_number m)) = qm_ul_only m"
  "qm_tx_data (snd (get_next_usage_number m)) = qm_tx_data m"
  by (simp_all add: get_next_call_id_def get_next_usage_number_def Let_def)

subsection \<open>Opening\<close>

text \<open>When a circuit opens: its direction is free on its slot. Nothing changes otherwise.\<close>

lemma open_circuit_cases:
  assumes "dir \<noteq> Direction_None"
  shows "open_circuit dir c m =
    (if includes_dl dir \<and> fst (is_active_slot m (qc_carrier_num c) (qc_ts c)) \<or>
        includes_ul dir \<and> snd (is_active_slot m (qc_carrier_num c) (qc_ts c)) then (Err CircuitAlreadyInUse, m)
     else if dir = Direction_Ul then (Ok c, m\<lparr>qm_ul_only := qm_ul_only m @ [c]\<rparr>)
     else (Ok c, m\<lparr>qm_tx_data := (if (case qm_tx_data m (slot_of c) of Some q \<Rightarrow> q \<noteq> [] | None \<Rightarrow> False)
                                  then (qm_tx_data m)(slot_of c := None) else qm_tx_data m),
                  qm_dl := qm_dl m @ [c]\<rparr>))"
  using assms by (cases dir) (simp_all add: open_circuit_def slot_of_def Let_def case_prod_unfold includes_dl_def includes_ul_def)

lemma open_circuit_inv:
  assumes inv: "qm_inv m" and dir: "dir = qc_direction c" "dir \<noteq> Direction_None"
  shows "qm_inv (snd (open_circuit dir c m))"
proof (cases "includes_dl dir \<and> fst (is_active_slot m (qc_carrier_num c) (qc_ts c)) \<or>
    includes_ul dir \<and> snd (is_active_slot m (qc_carrier_num c) (qc_ts c))")
  case True
  then show ?thesis using inv by (simp add: open_circuit_cases [OF dir(2)])
next
  case False
  note act = is_active_slot_sets [OF inv, of "qc_carrier_num c" "qc_ts c", folded slot_of_def]
  show ?thesis
  proof (cases "dir = Direction_Ul")
    case True
    with False have "\<not> snd (is_active_slot m (qc_carrier_num c) (qc_ts c))" by (simp add: includes_ul_def)
    from act(2,3) [OF this] inv True dir show ?thesis
      by (auto simp: open_circuit_cases qm_inv_def includes_dl_def includes_ul_def)
  next
    case ul: False
    then have d: "includes_dl dir" using dir(2) by (cases dir) (simp_all add: includes_dl_def)
    with False have fresh: "slot_of c \<notin> slot_of ` set (qm_dl m)" using act(1) by simp
    have ul_free: "slot_of c \<notin> slot_of ` set (qm_ul_only m)" if "dir = Direction_Both"
      using False that act(2) by (simp add: includes_ul_def)
    have "snd (open_circuit dir c m) = m\<lparr>qm_tx_data := (if (case qm_tx_data m (slot_of c) of Some q \<Rightarrow> q \<noteq> [] | None \<Rightarrow> False)
        then (qm_tx_data m)(slot_of c := None) else qm_tx_data m), qm_dl := qm_dl m @ [c]\<rparr>"
      unfolding open_circuit_cases [OF dir(2)] if_not_P [OF False] using ul by simp
    then show ?thesis using inv d dir(1) fresh ul_free by (auto simp: qm_inv_def)
  qed
qed

subsection \<open>Closing\<close>

lemma close_dl_eq:
  assumes "qm_inv m" and "includes_dl dir"
  shows "close_circuit_slot dir cn ts m =
    (case find_dl m cn ts of Some c \<Rightarrow> Ok c | None \<Rightarrow> Err CircuitNotActive,
     m\<lparr>qm_tx_data := (qm_tx_data m)((cn, ts) := None), qm_dl := filter (\<lambda>c. slot_of c \<noteq> (cn, ts)) (qm_dl m)\<rparr>)"
proof -
  have "remove_first (on_slot cn ts) (qm_dl m) = (find_dl m cn ts, filter (\<lambda>c. slot_of c \<noteq> (cn, ts)) (qm_dl m))"
    using assms(1) by (simp add: qm_inv_def remove_first_filter find_dl_def)
  then show ?thesis using assms(2) by (cases dir) (auto simp: includes_dl_def close_circuit_slot_def remove_dl_def split: option.split)
qed

lemma close_ul_eq:
  assumes "qm_inv m"
  shows "close_circuit_slot Direction_Ul cn ts m =
    (case find_ul_only m cn ts of Some c \<Rightarrow> Ok c | None \<Rightarrow> Err CircuitNotActive,
     m\<lparr>qm_ul_only := filter (\<lambda>c. slot_of c \<noteq> (cn, ts)) (qm_ul_only m)\<rparr>)"
proof -
  have "remove_first (on_slot cn ts) (qm_ul_only m) = (find_ul_only m cn ts, filter (\<lambda>c. slot_of c \<noteq> (cn, ts)) (qm_ul_only m))"
    using assms by (simp add: qm_inv_def remove_first_filter find_ul_only_def)
  then show ?thesis by (auto simp: close_circuit_slot_def remove_ul_only_def split: option.split)
qed

lemma distinct_slot_filter: "distinct (map slot_of cs) \<Longrightarrow> distinct (map slot_of (filter P cs))"
  by (simp add: distinct_map_filter)

lemma dom_close:
  assumes "dom f \<subseteq> slot_of ` set cs"
  shows "dom (f(k := None)) \<subseteq> slot_of ` {c \<in> set cs. slot_of c \<noteq> k}"
proof
  fix x assume "x \<in> dom (f(k := None))"
  then have "x \<noteq> k" "x \<in> slot_of ` set cs" using assms by (auto split: if_splits)
  then show "x \<in> slot_of ` {c \<in> set cs. slot_of c \<noteq> k}" by auto
qed

lemma close_circuit_slot_inv:
  assumes "qm_inv m"
  shows "qm_inv (snd (close_circuit_slot dir cn ts m))"
proof (cases "includes_dl dir")
  case True
  from assms show ?thesis
    unfolding close_dl_eq [OF assms True] qm_inv_def by (simp add: distinct_slot_filter dom_close del: dom_fun_upd)
next
  case False
  then consider "dir = Direction_Ul" | "dir = Direction_None" by (cases dir) (auto simp: includes_dl_def)
  then show ?thesis
  proof cases
    case 1
    from assms show ?thesis unfolding 1 close_ul_eq [OF assms] qm_inv_def by (auto simp: distinct_slot_filter)
  qed (use assms in \<open>simp add: close_circuit_slot_def\<close>)
qed

lemma close_circuit_inv: "qm_inv m \<Longrightarrow> qm_inv (snd (close_circuit dir ts m))"
  by (auto simp: close_circuit_def close_circuit_slot_inv split: option.split)

subsection \<open>Allocation and voice\<close>

lemma allocate_circuit_inv:
  assumes "qm_inv m" and "dir \<noteq> Direction_None"
  shows "qm_inv (snd (allocate_circuit dir ct sd m))"
  using assms next_usage_number [OF next_call_id [OF assms(1)]]
  by (auto simp: allocate_circuit_def Let_def case_prod_unfold make_circuit_def intro!: open_circuit_inv split: outcome.split)

lemma is_active_dl: "is_active_dir_slot m cn ts Direction_Dl \<longleftrightarrow> (cn, ts) \<in> slot_of ` set (qm_dl m)"
  using find_None_slot [of cn ts "qm_dl m"] by (auto simp: is_active_dir_slot_def find_dl_def)

lemma cmce_put_block_inv: "qm_inv m \<Longrightarrow> qm_inv (snd (cmce_put_block cn ts b m))"
  by (auto simp: cmce_put_block_def is_active_dl qm_inv_def)

lemma cmce_take_block_inv: "qm_inv m \<Longrightarrow> qm_inv (snd (cmce_take_block cn ts m))"
  by (auto simp: cmce_take_block_def is_active_dl qm_inv_def split: option.split list.split)

section \<open>The expiry sweep\<close>

text \<open>The commands of the sweep, in order.\<close>

definition close_cmds :: "TdmaTime \<Rightarrow> CmceCircuit list \<Rightarrow> CircuitMgrCmd list" where
  "close_cmds now cs = map (\<lambda>c. SendClose (qc_call_id c) c) (filter (circuit_expired now) cs)"

definition add_tasks :: "CircuitMgrCmd list \<Rightarrow> CircuitMgrCmd list option \<Rightarrow> CircuitMgrCmd list option" where
  "add_tasks l tasks = (if l = [] then tasks else Some ((case tasks of Some t \<Rightarrow> t | None \<Rightarrow> []) @ l))"

lemma add_tasks_simps [simp]:
  "add_tasks [] t = t" "add_tasks l (add_tasks k t) = add_tasks (k @ l) t" "push_task x t = add_tasks [x] t"
  by (auto simp: add_tasks_def push_task_def split: option.split)

lemma close_all_append:
  "close_all (xs @ ys) t m = (case close_all xs t m of (Ok t, m) \<Rightarrow> close_all ys t m | r \<Rightarrow> r)"
  by (induction xs arbitrary: t m) (auto split: prod.split outcome.split)

lemma close_all_step:
  "close_circuit_slot (qc_direction c) (qc_carrier_num c) (qc_ts c) m = (Ok c, m') \<Longrightarrow>
   close_all (map closing_key (c # cs)) t m = close_all (map closing_key cs) (add_tasks [SendClose (qc_call_id c) c] t) m'"
  by (simp add: closing_key_def add_tasks_def)

lemma close_all_dl:
  assumes "qm_inv m" and "set cs \<subseteq> set (qm_dl m)" and "distinct (map slot_of cs)"
  shows "close_all (map closing_key cs) t m =
    (Ok (add_tasks (map (\<lambda>c. SendClose (qc_call_id c) c) cs) t),
     m\<lparr>qm_tx_data := qm_tx_data m |` (- (slot_of ` set cs)), qm_dl := filter (\<lambda>c. slot_of c \<notin> slot_of ` set cs) (qm_dl m)\<rparr>)"
  using assms
proof (induction cs arbitrary: t m)
  case Nil
  then show ?case by simp
next
  case (Cons c cs)
  have inv: "qm_inv m" and c: "c \<in> set (qm_dl m)" using Cons.prems by auto
  let ?m = "snd (close_circuit_slot (qc_direction c) (qc_carrier_num c) (qc_ts c) m)"
  have dir: "includes_dl (qc_direction c)" using inv c by (auto simp: qm_inv_def)
  have f: "find_dl m (qc_carrier_num c) (qc_ts c) = Some c" using inv c find_distinct by (simp add: qm_inv_def find_dl_def)
  have m': "?m = m\<lparr>qm_tx_data := (qm_tx_data m)(slot_of c := None), qm_dl := filter (\<lambda>d. slot_of d \<noteq> slot_of c) (qm_dl m)\<rparr>"
    using close_dl_eq [OF inv dir] by (simp add: slot_of_def)
  have r: "close_circuit_slot (qc_direction c) (qc_carrier_num c) (qc_ts c) m = (Ok c, ?m)"
    using close_dl_eq [OF inv dir] f by (simp add: slot_of_def)
  have sub: "set cs \<subseteq> set (qm_dl ?m)" using Cons.prems unfolding m' by (auto intro: rev_image_eqI)
  have "close_all (map closing_key cs) (add_tasks [SendClose (qc_call_id c) c] t) ?m =
    (Ok (add_tasks (map (\<lambda>c. SendClose (qc_call_id c) c) cs) (add_tasks [SendClose (qc_call_id c) c] t)),
     ?m\<lparr>qm_tx_data := qm_tx_data ?m |` (- (slot_of ` set cs)), qm_dl := filter (\<lambda>c. slot_of c \<notin> slot_of ` set cs) (qm_dl ?m)\<rparr>)"
    using close_circuit_slot_inv [OF inv] sub Cons.prems by (intro Cons.IH) simp_all
  moreover have "qm_tx_data ?m |` (- (slot_of ` set cs)) = qm_tx_data m |` (- (slot_of ` set (c # cs)))"
    unfolding m' by (auto simp: restrict_map_def fun_eq_iff)
  moreover have "filter (\<lambda>c. slot_of c \<notin> slot_of ` set cs) (qm_dl ?m) = filter (\<lambda>d. slot_of d \<notin> slot_of ` set (c # cs)) (qm_dl m)"
    unfolding m' by (simp add: conj_commute)
  ultimately show ?case
    unfolding close_all_step [OF r] by (simp add: m')
qed

lemma close_all_ul:
  assumes "qm_inv m" and "set cs \<subseteq> set (qm_ul_only m)" and "distinct (map slot_of cs)"
  shows "close_all (map closing_key cs) t m =
    (Ok (add_tasks (map (\<lambda>c. SendClose (qc_call_id c) c) cs) t),
     m\<lparr>qm_ul_only := filter (\<lambda>c. slot_of c \<notin> slot_of ` set cs) (qm_ul_only m)\<rparr>)"
  using assms
proof (induction cs arbitrary: t m)
  case Nil
  then show ?case by simp
next
  case (Cons c cs)
  have inv: "qm_inv m" and c: "c \<in> set (qm_ul_only m)" using Cons.prems by auto
  let ?m = "m\<lparr>qm_ul_only := filter (\<lambda>d. slot_of d \<noteq> slot_of c) (qm_ul_only m)\<rparr>"
  have dir: "qc_direction c = Direction_Ul" using inv c by (auto simp: qm_inv_def)
  have f: "find_ul_only m (qc_carrier_num c) (qc_ts c) = Some c" using inv c find_distinct by (simp add: qm_inv_def find_ul_only_def)
  have r: "close_circuit_slot (qc_direction c) (qc_carrier_num c) (qc_ts c) m = (Ok c, ?m)"
    using close_ul_eq [OF inv] f dir by (simp add: slot_of_def)
  have "set cs \<subseteq> set (qm_ul_only ?m)" using Cons.prems by (auto intro: rev_image_eqI)
  moreover have "qm_inv ?m" using close_circuit_slot_inv [OF inv, of "qc_direction c" "qc_carrier_num c" "qc_ts c"] r by simp
  ultimately have "close_all (map closing_key cs) (add_tasks [SendClose (qc_call_id c) c] t) ?m =
    (Ok (add_tasks (map (\<lambda>c. SendClose (qc_call_id c) c) cs) (add_tasks [SendClose (qc_call_id c) c] t)),
     ?m\<lparr>qm_ul_only := filter (\<lambda>c. slot_of c \<notin> slot_of ` set cs) (qm_ul_only ?m)\<rparr>)"
    using Cons.prems by (intro Cons.IH) simp_all
  then show ?case
    unfolding close_all_step [OF r] by (simp add: conj_commute)
qed

text \<open>On a table with distinct slots, what is kept by slot is what is kept by circuit.\<close>

lemma filter_slots:
  assumes "distinct (map slot_of cs)"
  shows "filter (\<lambda>c. slot_of c \<notin> slot_of ` {c \<in> set cs. P c}) cs = filter (\<lambda>c. \<not> P c) cs"
proof (rule filter_cong)
  fix c assume c: "c \<in> set cs"
  have "inj_on slot_of (set cs)" using assms by (simp add: distinct_map)
  with c show "(slot_of c \<notin> slot_of ` {c \<in> set cs. P c}) = (\<not> P c)" by (auto simp: inj_on_def)
qed simp

text \<open>The sweep closes exactly the expired simplex circuits, in table order, and reports each one once.\<close>

lemma dom_sweep:
  assumes "dom f \<subseteq> slot_of ` set cs"
  shows "dom (f |` (- (slot_of ` {c \<in> set cs. P c}))) \<subseteq> slot_of ` {c \<in> set cs. \<not> P c}"
proof
  fix x assume "x \<in> dom (f |` (- (slot_of ` {c \<in> set cs. P c})))"
  then have "x \<notin> slot_of ` {c \<in> set cs. P c}" "x \<in> dom f" by (auto simp: restrict_map_def split: if_splits)
  moreover from this(2) assms obtain c where "c \<in> set cs" "x = slot_of c" by blast
  ultimately show "x \<in> slot_of ` {c \<in> set cs. \<not> P c}" by blast
qed

lemma close_expired_spec:
  assumes inv: "qm_inv m"
  shows "close_expired_circuits t m =
    (Ok (add_tasks (close_cmds (qm_dltime m) (qm_dl m) @ close_cmds (qm_dltime m) (qm_ul_only m)) t),
     m\<lparr>qm_tx_data := qm_tx_data m |` (- (slot_of ` set (filter (circuit_expired (qm_dltime m)) (qm_dl m)))),
       qm_dl := filter (\<lambda>c. \<not> circuit_expired (qm_dltime m) c) (qm_dl m),
       qm_ul_only := filter (\<lambda>c. \<not> circuit_expired (qm_dltime m) c) (qm_ul_only m)\<rparr>)"
proof -
  let ?E = "circuit_expired (qm_dltime m)"
  let ?d = "filter ?E (qm_dl m)" and ?u = "filter ?E (qm_ul_only m)"
  let ?m = "m\<lparr>qm_tx_data := qm_tx_data m |` (- (slot_of ` set ?d)), qm_dl := filter (\<lambda>c. \<not> ?E c) (qm_dl m)\<rparr>"
  have dist: "distinct (map slot_of (qm_dl m))" "distinct (map slot_of (qm_ul_only m))" using inv by (auto simp: qm_inv_def)
  have dl: "close_all (map closing_key ?d) t m = (Ok (add_tasks (close_cmds (qm_dltime m) (qm_dl m)) t), ?m)"
    using close_all_dl [OF inv, of ?d t] dist(1) by (simp add: distinct_slot_filter filter_slots close_cmds_def)
  have "dom (qm_tx_data m |` (- (slot_of ` {c \<in> set (qm_dl m). ?E c}))) \<subseteq> slot_of ` {c \<in> set (qm_dl m). \<not> ?E c}"
    using inv by (intro dom_sweep) (simp add: qm_inv_def)
  then have "qm_inv ?m" using inv by (simp add: qm_inv_def distinct_slot_filter)
  then have "close_all (map closing_key ?u) (add_tasks (close_cmds (qm_dltime m) (qm_dl m)) t) ?m =
      (Ok (add_tasks (close_cmds (qm_dltime m) (qm_ul_only m)) (add_tasks (close_cmds (qm_dltime m) (qm_dl m)) t)),
       ?m\<lparr>qm_ul_only := filter (\<lambda>c. \<not> ?E c) (qm_ul_only m)\<rparr>)"
    using close_all_ul [of ?m ?u] dist(2) by (simp add: distinct_slot_filter filter_slots close_cmds_def)
  with dl show ?thesis by (simp add: close_expired_circuits_def close_all_append)
qed

lemma close_expired_inv:
  assumes inv: "qm_inv m"
  shows "qm_inv (snd (close_expired_circuits t m))"
proof -
  let ?E = "circuit_expired (qm_dltime m)"
  have "dom (qm_tx_data m |` (- (slot_of ` {c \<in> set (qm_dl m). ?E c}))) \<subseteq> slot_of ` {c \<in> set (qm_dl m). \<not> ?E c}"
    using inv by (intro dom_sweep) (simp add: qm_inv_def)
  moreover have "slot_of c \<notin> slot_of ` {c \<in> set (qm_ul_only m). \<not> ?E c}" if "slot_of c \<notin> slot_of ` set (qm_ul_only m)" for c
    using that by blast
  ultimately show ?thesis using inv unfolding close_expired_spec [OF inv] by (simp add: qm_inv_def distinct_slot_filter)
qed

section \<open>The tick\<close>

definition setup_cmds :: "TdmaTime \<Rightarrow> CmceCircuit list \<Rightarrow> CircuitMgrCmd list" where
  "setup_cmds now cs = map (\<lambda>c. SendDSetup (qc_call_id c) (qc_usage c) (qc_carrier_num c) (qc_ts c)) (filter (d_setup_due now) cs)"

lemma fold_setup:
  "fold (\<lambda>c. if d_setup_due now c then push_task (SendDSetup (qc_call_id c) (qc_usage c) (qc_carrier_num c) (qc_ts c)) else id) cs t =
   add_tasks (setup_cmds now cs) t"
  by (induction cs arbitrary: t) (auto simp: setup_cmds_def)

lemma tick_start_spec:
  assumes inv: "qm_inv m"
  shows "tick_start_circuits now m =
    (if tm_t now = 1
     then (Ok (add_tasks (close_cmds now (qm_dl m) @ close_cmds now (qm_ul_only m) @
                 setup_cmds now (filter (\<lambda>c. \<not> circuit_expired now c) (qm_dl m))) None),
           snd (close_expired_circuits None (m\<lparr>qm_dltime := now\<rparr>)))
     else (Ok None, m\<lparr>qm_dltime := now\<rparr>))"
proof -
  have "qm_inv (m\<lparr>qm_dltime := now\<rparr>)" using inv by (simp add: qm_inv_def)
  from close_expired_spec [OF this, of None] show ?thesis
    by (simp add: tick_start_circuits_def Let_def fold_setup)
qed

lemma tick_start_inv: "qm_inv m \<Longrightarrow> qm_inv (snd (tick_start_circuits now m))"
  using close_expired_inv [of "m\<lparr>qm_dltime := now\<rparr>" None] by (auto simp: tick_start_spec qm_inv_def)

text \<open>Late entry: with a non-negative age below the range of the clock, D-SETUP is due in every 90th frame of the circuit's life.\<close>

lemma d_setup_due_iff:
  assumes "0 \<le> TdmaTime_age (qc_ts_created c) now"
  shows "d_setup_due now c \<longleftrightarrow> TdmaTime_age (qc_ts_created c) now div 4 mod 90 = 0"
proof -
  let ?a = "TdmaTime_age (qc_ts_created c) now"
  have div: "x sdiv y = x div y" if "0 \<le> x" "0 < y" for x y :: int
    using that by (cases "x = 0") (simp_all add: signed_divide_int_def)
  then have "?a sdiv 4 = ?a div 4" using assms by simp
  moreover have "x smod y = x mod y" if "0 \<le> x" "0 < y" for x y :: int
    using that by (cases "x = 0") (simp_all add: signed_modulo_int_def)
  then have "(?a div 4) smod 90 = ?a div 4 mod 90" using assms by simp
  moreover have "LATE_ENTRY_INTERVAL_TIMESLOTS sdiv 4 = 90" by (simp add: LATE_ENTRY_INTERVAL_TIMESLOTS_def multiframes_def signed_divide_int_def)
  moreover have "?a < 4 \<Longrightarrow> ?a div 4 mod 90 = 0" using assms by simp
  ultimately show ?thesis by (auto simp: d_setup_due_def Let_def frames_def D_SETUP_REPEATS_def)
qed

text \<open>
  The ticks of a circuit that is still open: the \<open>k\<close>-th start of a frame after the first is \<open>4 * k\<close> slots later. Among any 90 of them in a
  row exactly one is due, so a terminal that tunes in late hears D-SETUP within five multiframes.
\<close>

lemma d_setup_once:
  assumes age: "\<And>k. k < 90 \<Longrightarrow> TdmaTime_age (qc_ts_created c) (now (j + k)) = a + 4 * int (j + k)" and a: "0 \<le> a"
  shows "\<exists>!k. k < 90 \<and> d_setup_due (now (j + k)) c"
proof -
  have due: "d_setup_due (now (j + k)) c \<longleftrightarrow> (nat (a div 4) + j + k) mod 90 = 0" if "k < 90" for k
  proof -
    have "(a + 4 * int (j + k)) div 4 = int (j + k) + a div 4" by (rule div_mult_self2) simp
    then have "(a + 4 * int (j + k)) div 4 = int (nat (a div 4) + j + k)" using a by (simp add: pos_imp_zdiv_nonneg_iff)
    then have "(a + 4 * int (j + k)) div 4 mod 90 = int ((nat (a div 4) + j + k) mod 90)" by (simp only: of_nat_mod of_nat_numeral)
    then show ?thesis using d_setup_due_iff [of c "now (j + k)"] age [OF that] a by simp
  qed
  have "\<exists>!k. k < 90 \<and> (nat (a div 4) + j + k) mod 90 = 0 mod 90" by (rule exactly_one_residue) simp
  then show ?thesis using due by (simp cong: conj_cong)
qed

section \<open>Circuits and the timeslot allocator\<close>

definition alloc_slot :: "CmceCircuit \<Rightarrow> CarrierSlot" where
  "alloc_slot c = \<lparr>cs_carrier_num = qc_carrier_num c, cs_ts = qc_ts c\<rparr>"

text \<open>Every circuit stands on a slot that the allocator has given away.\<close>

definition joint_inv :: "CmceCircuitMgr \<Rightarrow> TimeslotAllocator \<Rightarrow> bool" where
  "joint_inv m a \<longleftrightarrow> qm_inv m \<and> al_inv a \<and> (\<forall>c \<in> set (qm_dl m) \<union> set (qm_ul_only m). slot_owner a (alloc_slot c) \<noteq> None)"

lemma joint_free_slot:
  assumes "joint_inv m a" and "slot_owner a slot = None"
  shows "is_active_slot m (cs_carrier_num slot) (cs_ts slot) = (False, False)"
proof -
  have "(cs_carrier_num slot, cs_ts slot) \<notin> slot_of ` (set (qm_dl m) \<union> set (qm_ul_only m))"
  proof
    assume "(cs_carrier_num slot, cs_ts slot) \<in> slot_of ` (set (qm_dl m) \<union> set (qm_ul_only m))"
    then obtain c where c: "c \<in> set (qm_dl m) \<union> set (qm_ul_only m)" "slot_of c = (cs_carrier_num slot, cs_ts slot)"
      by (metis imageE)
    then have "alloc_slot c = slot" by (simp add: alloc_slot_def slot_of_def)
    moreover have "slot_owner a (alloc_slot c) \<noteq> None" using assms(1) c(1) unfolding joint_inv_def by blast
    ultimately show False using assms(2) by simp
  qed
  with is_active_slot_used [of m "cs_carrier_num slot" "cs_ts slot"] show ?thesis by (cases "is_active_slot m (cs_carrier_num slot) (cs_ts slot)") auto
qed

lemma open_on_free_slot:
  assumes j: "joint_inv m a" and alloc: "allocate_any_slot own a = (Some slot, a')" and dir: "dir \<noteq> Direction_None"
    and c: "qc_direction c = dir" "alloc_slot c = slot"
  shows "fst (open_circuit dir c m) = Ok c" and "joint_inv (snd (open_circuit dir c m)) a'"
    and "set (qm_dl (snd (open_circuit dir c m))) \<union> set (qm_ul_only (snd (open_circuit dir c m))) = insert c (set (qm_dl m) \<union> set (qm_ul_only m))"
proof -
  have inv: "qm_inv m" "al_inv a" using j by (auto simp: joint_inv_def)
  note sl = allocate_any_slot_Some [OF inv(2) alloc]
  have act: "is_active_slot m (qc_carrier_num c) (qc_ts c) = (False, False)" using joint_free_slot [OF j sl(2)] c(2) by (auto simp: alloc_slot_def)
  then show ok: "fst (open_circuit dir c m) = Ok c" by (simp add: open_circuit_cases [OF dir])
  from act show sets: "set (qm_dl (snd (open_circuit dir c m))) \<union> set (qm_ul_only (snd (open_circuit dir c m))) =
      insert c (set (qm_dl m) \<union> set (qm_ul_only m))" by (auto simp: open_circuit_cases [OF dir])
  obtain a'' where "reserve_slot own slot a = Ok ((), a'')" "al_inv a''" "slot_owner a'' = (slot_owner a)(slot := Some own)"
    using allocator.acquire_free [OF inv(2) sl(1,2), of own] by blast
  with sl(3) have a': "al_inv a'" "slot_owner a' = (slot_owner a)(slot := Some own)" by auto
  have "qm_inv (snd (open_circuit dir c m))" using open_circuit_inv [OF inv(1), of dir c] c(1) dir by simp
  with a' c(2) j show "joint_inv (snd (open_circuit dir c m)) a'" unfolding joint_inv_def sets by auto
qed

text \<open>Identifiers are consumed before the circuit opens; they do not touch the tables.\<close>

lemma joint_counters: "joint_inv m a \<Longrightarrow> joint_inv (snd (get_next_call_id m)) a" "joint_inv m a \<Longrightarrow> joint_inv (snd (get_next_usage_number m)) a"
  using next_call_id next_usage_number by (auto simp: joint_inv_def)

lemma alloc_slot_make [simp]: "alloc_slot (make_circuit m dir slot call_id usage ct sd) = slot" "qc_direction (make_circuit m dir slot call_id usage ct sd) = dir"
  by (simp_all add: alloc_slot_def make_circuit_def)

lemma allocate_with_allocator:
  assumes j: "joint_inv m a" and dir: "dir \<noteq> Direction_None"
  shows "(case allocate_circuit_with_allocator dir ct sd own (m, a) of (r, m', a') \<Rightarrow>
     joint_inv m' a' \<and>
     (if \<exists>slot. al_supported a slot \<and> slot_owner a slot = None
      then \<exists>c. r = Ok c \<and> slot_owner a (alloc_slot c) = None \<and> slot_owner a' (alloc_slot c) = Some own \<and> qc_direction c = dir \<and>
             qc_call_id c = qm_next_call_identifier m \<and> qc_usage c = qm_next_usage_number m \<and>
             set (qm_dl m') \<union> set (qm_ul_only m') = insert c (set (qm_dl m) \<union> set (qm_ul_only m))
      else r = Err NoCircuitFree \<and> m' = m \<and> a' = a))"
proof (cases "allocate_any_slot own a")
  case (Pair s a')
  have inv: "al_inv a" using j by (simp add: joint_inv_def)
  show ?thesis
  proof (cases s)
    case None
    with Pair have "allocate_any_slot own a = (None, a')" by simp
    from allocate_any_slot_None [OF inv this] j show ?thesis
      using None Pair by (auto simp: allocate_circuit_with_allocator_def)
  next
    case (Some slot)
    let ?m1 = "snd (get_next_call_id m)" and ?call = "fst (get_next_call_id m)"
    let ?m2 = "snd (get_next_usage_number ?m1)" and ?usage = "fst (get_next_usage_number ?m1)"
    let ?c = "make_circuit ?m2 dir slot ?call ?usage ct sd"
    have alloc: "allocate_any_slot own a = (Some slot, a')" using Pair Some by simp
    note sl = allocate_any_slot_Some [OF inv alloc]
    have j2: "joint_inv ?m2 a" using j by (intro joint_counters)
    note op = open_on_free_slot [OF j2 alloc dir, of ?c, simplified]
    have r: "allocate_circuit_with_allocator dir ct sd own (m, a) = (Ok ?c, snd (open_circuit dir ?c ?m2), a')"
      using op(1) by (simp add: allocate_circuit_with_allocator_def alloc Let_def case_prod_unfold)
    have own: "slot_owner a' slot = Some own" using allocator.acquired_exclusive(2) [OF inv sl(3)] .
    have ids: "?call = qm_next_call_identifier m" "?usage = qm_next_usage_number m"
      by (simp_all add: get_next_call_id_def get_next_usage_number_def Let_def)
    have f: "qc_call_id ?c = qm_next_call_identifier m" "qc_usage ?c = qm_next_usage_number m" by (simp_all add: make_circuit_def ids)
    have sets: "set (qm_dl ?m2) = set (qm_dl m)" "set (qm_ul_only ?m2) = set (qm_ul_only m)"
      by (simp_all add: get_next_call_id_def get_next_usage_number_def Let_def)
    have ex: "\<exists>slot. al_supported a slot \<and> slot_owner a slot = None" using sl(1,2) by blast
    show ?thesis
      unfolding r prod.case if_P [OF ex]
      by (intro conjI exI [of _ ?c]) (use op(2) op(3) [unfolded sets] f sl(2) own in \<open>simp_all\<close>)
  qed
qed

section \<open>Reachable tables\<close>

text \<open>
  The operations of the manager in any order; circuits are opened with the direction they carry, as \<open>make_circuit\<close> builds them, and none
  with direction \<open>None\<close>, for which the code is unreachable.
\<close>

inductive circuits_reach :: "CmceCircuitMgr \<Rightarrow> bool" where
  circuits_new: "circuits_reach CmceCircuitMgr_new"
| circuits_call_id: "circuits_reach m \<Longrightarrow> circuits_reach (snd (get_next_call_id m))"
| circuits_usage: "circuits_reach m \<Longrightarrow> circuits_reach (snd (get_next_usage_number m))"
| circuits_open: "circuits_reach m \<Longrightarrow> qc_direction c \<noteq> Direction_None \<Longrightarrow> circuits_reach (snd (open_circuit (qc_direction c) c m))"
| circuits_allocate: "circuits_reach m \<Longrightarrow> dir \<noteq> Direction_None \<Longrightarrow> circuits_reach (snd (allocate_circuit dir ct sd m))"
| circuits_for_call: "circuits_reach m \<Longrightarrow> dir \<noteq> Direction_None \<Longrightarrow>
    circuits_reach (fst (snd (allocate_circuit_for_call_with_allocator call_id dir ct sd own (m, a))))"
| circuits_with_allocator: "circuits_reach m \<Longrightarrow> dir \<noteq> Direction_None \<Longrightarrow>
    circuits_reach (fst (snd (allocate_circuit_with_allocator dir ct sd own (m, a))))"
| circuits_close_slot: "circuits_reach m \<Longrightarrow> circuits_reach (snd (close_circuit_slot dir cn ts m))"
| circuits_close: "circuits_reach m \<Longrightarrow> circuits_reach (snd (close_circuit dir ts m))"
| circuits_put: "circuits_reach m \<Longrightarrow> circuits_reach (snd (cmce_put_block cn ts b m))"
| circuits_take: "circuits_reach m \<Longrightarrow> circuits_reach (snd (cmce_take_block cn ts m))"
| circuits_tick: "circuits_reach m \<Longrightarrow> circuits_reach (snd (tick_start_circuits now m))"

lemma with_allocator_inv:
  assumes "qm_inv m" and "dir \<noteq> Direction_None"
  shows "qm_inv (fst (snd (allocate_circuit_for_call_with_allocator call_id dir ct sd own (m, a))))"
    and "qm_inv (fst (snd (allocate_circuit_with_allocator dir ct sd own (m, a))))"
  using assms
  by (simp_all add: allocate_circuit_for_call_with_allocator_def allocate_circuit_with_allocator_def case_prod_unfold Let_def
      split: option.split) (auto intro!: open_circuit_inv next_call_id next_usage_number)

lemma circuits_reach_inv: "circuits_reach m \<Longrightarrow> qm_inv m"
  by (induction rule: circuits_reach.induct)
     (auto intro: qm_inv_new next_call_id next_usage_number open_circuit_inv allocate_circuit_inv with_allocator_inv close_circuit_slot_inv close_circuit_inv
       cmce_put_block_inv cmce_take_block_inv tick_start_inv)

end
