(* ===== verification/Layer3_Properties.thy ===== *)
theory Layer3_Properties
  imports Core_Properties Umac_Properties Mm_Pdus_Ul Mm_Pdus_Dl Mm_Pdus_Misc Cmce_Pdus_Ul Cmce_Pdus_Dl Cmce_Pdus_Tx Cmce_Setup Cmce_Sds
    Cmce_Circuits_Spec
begin

text \<open>Properties of the layer-3 PDUs (mobility management, circuit mode control, short data) and of the circuits of circuit mode control.\<close>

declare One_nat_def [simp del]

section \<open>Readers\<close>

text \<open>C27. No sequence of received bits makes a reader of an uplink PDU of mobility management, of call control or of short data panic or
  leave the window: each returns a PDU or a parse error and changes nothing of the buffer but the cursor.\<close>

theorem layer3_uplink_readers_safe:
  "safe ULocationUpdateDemand_from_bitbuf \<and> safe UAttachDetachGroupIdentity_from_bitbuf \<and>
   safe UAttachDetachGroupIdentityAcknowledgement_from_bitbuf \<and> safe UItsiDetach_from_bitbuf \<and> safe UTeiProvide_from_bitbuf \<and>
   safe UMmStatus_from_bitbuf \<and> safe MmPduFunctionNotSupported_from_bitbuf \<and>
   safe UAlert_from_bitbuf \<and> safe UCallRestore_from_bitbuf \<and> safe UConnect_from_bitbuf \<and> safe UDisconnect_from_bitbuf \<and>
   safe UInfo_from_bitbuf \<and> safe URelease_from_bitbuf \<and> safe USetup_from_bitbuf \<and> safe UStatus_from_bitbuf \<and>
   safe UTxCeased_from_bitbuf \<and> safe UTxDemand_from_bitbuf \<and> safe USdsData_from_bitbuf"
  by (intro conjI ULocationUpdateDemand.safe UAttachDetachGroupIdentity.safe UAttachDetachGroupIdentityAcknowledgement.safe
      UItsiDetach.safe UTeiProvide.safe safe_UMmStatus MmPduFunctionNotSupported.safe UAlert.safe UCallRestore.safe UConnect.safe
      UDisconnect.safe UInfo.safe URelease.safe USetup.safe UStatus.safe UTxCeased.safe UTxDemand.safe USdsData.safe)

section \<open>Registration\<close>









lemma room_150: "n \<le> 150 \<Longrightarrow> room (BitBuffer_new 150) n"
  by (simp add: room_def BitBuffer_new_def)


section \<open>Calls and short data\<close>

text \<open>Call set-up: every well-formed U-SETUP and D-SETUP is read back from where it was written, whichever of the called or calling
  party's addresses it carries.\<close>

theorem call_setup_roundtrip:
  assumes "USetup_wf p" and "DSetup_wf q" and "bb_inv b" and "room b (length (USetup_enc p))" and "room b (length (DSetup_enc q))"
  shows "(\<exists>b'. USetup_to_bitbuf p b = Ok ((), b') \<and> USetup_from_bitbuf (b'\<lparr>bb_pos := bb_pos b\<rparr>) = Ok (p, b')) \<and>
    (\<exists>b'. DSetup_to_bitbuf q b = Ok ((), b') \<and> DSetup_from_bitbuf (b'\<lparr>bb_pos := bb_pos b\<rparr>) = Ok (q, b'))"
  using USetup.roundtrip [OF assms(1,3,4)] DSetup.roundtrip [OF assms(2,3,5)] by blast

definition sample_speech :: BasicServiceInformation where
  "sample_speech = \<lparr>BasicServiceInformation_circuit_mode_type = CircuitModeType_TchS, BasicServiceInformation_encryption_flag = False,
     BasicServiceInformation_communication_type = CommunicationType_P2Mp, BasicServiceInformation_slots_per_frame = None,
     BasicServiceInformation_speech_service = Some 0\<rparr>"

definition sample_usetup :: USetup where
  "sample_usetup = \<lparr>USetup_area_selection = 0, USetup_hook_method_selection = False, USetup_simplex_duplex_selection = False,
     USetup_basic_service_information = sample_speech, USetup_request_to_transmit_send_data = True, USetup_call_priority = 15,
     USetup_clir_control = 0, USetup_called_party_type_identifier = PartyTypeIdentifier_Ssi,
     USetup_called_party_short_number_address = None, USetup_called_party_ssi = Some 26, USetup_called_party_extension = None,
     USetup_external_subscriber_number = None, USetup_facility = None, USetup_dm_ms_address = None, USetup_proprietary = None\<rparr>"

definition sample_dsetup :: DSetup where
  "sample_dsetup = \<lparr>DSetup_call_identifier = 4, DSetup_call_time_out = CallTimeout_T2m, DSetup_hook_method_selection = False,
     DSetup_simplex_duplex_selection = False, DSetup_basic_service_information = sample_speech,
     DSetup_transmission_grant = TransmissionGrant_GrantedToOtherUser, DSetup_transmission_request_permission = False,
     DSetup_call_priority = 15, DSetup_notification_indicator = None, DSetup_temporary_address = None,
     DSetup_calling_party_address_ssi = Some 1001, DSetup_calling_party_extension = Some 901, DSetup_external_subscriber_number = None,
     DSetup_facility = None, DSetup_dm_ms_address = None, DSetup_proprietary = None\<rparr>"

lemmas call_encodings = BasicServiceInformation_enc_def BasicServiceInformation_wf_def enc_type2_def enc_type3_generic_def enc_type3_def elem34_def
  enc_opt_def

lemma sample_usetup_ok: "USetup_wf sample_usetup" "length (USetup_enc sample_usetup) \<le> 150"
  by (simp_all add: USetup_wf_def USetup_enc_def sample_usetup_def sample_speech_def call_encodings Let_def fits_unat)

lemma sample_dsetup_ok: "DSetup_wf sample_dsetup" "length (DSetup_enc sample_dsetup) \<le> 150"
  by (simp_all add: DSetup_wf_def DSetup_enc_def DSetup_obit_def DSetup_party_def sample_dsetup_def sample_speech_def call_encodings Let_def fits_unat)

theorem call_setup_roundtrip_witness:
  "\<exists>b'. DSetup_to_bitbuf sample_dsetup (BitBuffer_new 150) = Ok ((), b') \<and> DSetup_from_bitbuf (b'\<lparr>bb_pos := 0\<rparr>) = Ok (sample_dsetup, b')"
  using call_setup_roundtrip [OF sample_usetup_ok(1) sample_dsetup_ok(1) _ room_150 [OF sample_usetup_ok(2)] room_150 [OF sample_dsetup_ok(2)]]
  by (simp, simp add: BitBuffer_new_def)

text \<open>C26. Short data: every well-formed U-SDS-DATA and D-SDS-DATA is read back from where it was written, in particular user data of type 4 of
  any length up to 2047 bits, whole octets or not.\<close>

theorem short_data_roundtrip:
  assumes "USdsData_wf p" and "DSdsData_wf q" and "bb_inv b" and "room b (length (USdsData_enc p))" and "room b (length (DSdsData_enc q))"
  shows "(\<exists>b'. USdsData_to_bitbuf p b = Ok ((), b') \<and> USdsData_from_bitbuf (b'\<lparr>bb_pos := bb_pos b\<rparr>) = Ok (p, b')) \<and>
    (\<exists>b'. DSdsData_to_bitbuf q b = Ok ((), b') \<and> DSdsData_from_bitbuf (b'\<lparr>bb_pos := bb_pos b\<rparr>) = Ok (q, b'))"
  using USdsData.roundtrip [OF assms(1,3,4)] DSdsData.roundtrip [OF assms(2,3,5)] by blast

definition sample_usds :: USdsData where
  "sample_usds = \<lparr>USdsData_area_selection = 0, USdsData_called_party_type_identifier = PartyTypeIdentifier_Ssi,
     USdsData_called_party_short_number_address = None, USdsData_called_party_ssi = Some 1002, USdsData_called_party_extension = None,
     USdsData_user_defined_data = SdsUserData_Type4 13 [0x82, 0xA8], USdsData_external_subscriber_number = None,
     USdsData_dm_ms_address = None\<rparr>"

definition sample_dsds :: DSdsData where
  "sample_dsds = \<lparr>DSdsData_calling_party_type_identifier = PartyTypeIdentifier_Ssi, DSdsData_calling_party_address_ssi = Some 1001,
     DSdsData_calling_party_extension = None, DSdsData_user_defined_data = SdsUserData_Type4 13 [0x82, 0xA8],
     DSdsData_external_subscriber_number = None, DSdsData_dm_ms_address = None\<rparr>"

lemmas sds_simps = USdsData_wf_def USdsData_enc_def DSdsData_wf_def DSdsData_enc_def SdsUserData_enc_def call_encodings

lemma sample_pack: "div_ceil8 13 = 2 \<and> pack (take 13 (bytes_bits [0x82, 0xA8])) = [0x82, 0xA8]"
  by code_simp

lemma sample_sds_ok:
  "USdsData_wf sample_usds" "length (USdsData_enc sample_usds) \<le> 150" "DSdsData_wf sample_dsds" "length (DSdsData_enc sample_dsds) \<le> 150"
  using sample_pack by (simp_all add: sds_simps sample_usds_def sample_dsds_def Let_def fits_unat)

theorem short_data_roundtrip_witness:
  "\<exists>b'. USdsData_to_bitbuf sample_usds (BitBuffer_new 150) = Ok ((), b') \<and> USdsData_from_bitbuf (b'\<lparr>bb_pos := 0\<rparr>) = Ok (sample_usds, b')"
  using short_data_roundtrip [OF sample_sds_ok(1,3) _ room_150 [OF sample_sds_ok(2)] room_150 [OF sample_sds_ok(4)]]
  by (simp, simp add: BitBuffer_new_def)

section \<open>Circuits\<close>

text \<open>C22. Whatever operations of the circuit manager are used, in any order (a call identifier or a usage number on its own included), a
  slot carries at most one circuit per direction, the table finds every circuit under its slot, voice waits only for open downlink
  circuits, the next call identifier has 14 bits and is never 0, the next usage number is between 4 and 63 (the comments of the
  scheduler reserve 63), and no tick panics. Circuits are opened with a direction other than \<open>None\<close>, for which the code is
  \<open>unreachable!\<close>.\<close>

theorem circuit_table_exclusive:
  assumes "circuits_reach m"
  shows "distinct (map slot_of (qm_dl m)) \<and> distinct (map slot_of (qm_ul_only m)) \<and>
    (\<forall>c \<in> set (qm_dl m). find_dl m (qc_carrier_num c) (qc_ts c) = Some c \<and>
       (qc_direction c = Direction_Both \<longrightarrow> find_ul_only m (qc_carrier_num c) (qc_ts c) = None)) \<and>
    (\<forall>c \<in> set (qm_ul_only m). find_ul_only m (qc_carrier_num c) (qc_ts c) = Some c \<and> qc_direction c = Direction_Ul) \<and>
    dom (qm_tx_data m) \<subseteq> slot_of ` set (qm_dl m) \<and>
    1 \<le> qm_next_call_identifier m \<and> qm_next_call_identifier m \<le> 0x3FFF \<and>
    4 \<le> qm_next_usage_number m \<and> qm_next_usage_number m \<le> 63 \<and>
    (\<forall>now. fst (tick_start_circuits now m) \<noteq> Panic)"
proof -
  have inv: "qm_inv m" using assms by (rule circuits_reach_inv)
  have tick: "fst (tick_start_circuits now m) \<noteq> Panic" for now by (simp add: tick_start_spec [OF inv])
  have none: "find_ul_only m (qc_carrier_num c) (qc_ts c) = None" if "c \<in> set (qm_dl m)" "qc_direction c = Direction_Both" for c
    using inv that by (auto simp: qm_inv_def find_ul_only_def find_None_slot slot_of_def)
  show ?thesis
    using inv tick none find_distinct [of "qm_dl m"] find_distinct [of "qm_ul_only m"]
    by (auto simp: qm_inv_def find_dl_def find_ul_only_def)
qed

definition sample_call :: CmceCircuitMgr where
  "sample_call = snd (open_circuit Direction_Both
     (make_circuit CmceCircuitMgr_new Direction_Both \<lparr>cs_carrier_num = 7, cs_ts = 2\<rparr> 4 4 CommunicationType_P2Mp False) CmceCircuitMgr_new)"

lemma sample_call_reach: "circuits_reach sample_call"
  unfolding sample_call_def
  using circuits_open [OF circuits_new, of "make_circuit CmceCircuitMgr_new Direction_Both \<lparr>cs_carrier_num = 7, cs_ts = 2\<rparr> 4 4 CommunicationType_P2Mp False"]
  by simp

lemma sample_call_dl:
  "qm_dl sample_call = [make_circuit CmceCircuitMgr_new Direction_Both \<lparr>cs_carrier_num = 7, cs_ts = 2\<rparr> 4 4 CommunicationType_P2Mp False]"
  "qm_ul_only sample_call = []"
  by (simp_all add: sample_call_def open_circuit_def is_active_slot_def find_dl_def find_ul_only_def CmceCircuitMgr_new_def Let_def)

theorem circuit_table_exclusive_witness:
  "find_ul_only sample_call 7 2 = None \<and> find_dl sample_call 7 2 \<noteq> None"
  using circuit_table_exclusive [OF sample_call_reach] by (simp add: sample_call_dl) (simp add: make_circuit_def)

text \<open>C23. A tick at the start of a frame closes exactly the simplex circuits older than the expiry time, reports each of them once, downlink
  before uplink and in table order, then asks for D-SETUP for exactly those remaining downlink circuits for which it is due; all other
  circuits stay. A tick at another slot only sets the clock.\<close>

theorem circuit_tick_exact:
  assumes "circuits_reach m"
  shows "if tm_t now = 1
     then \<exists>m'. tick_start_circuits now m =
         (Ok (add_tasks
            (map (\<lambda>c. SendClose (qc_call_id c) c) (filter (circuit_expired now) (qm_dl m)) @
             map (\<lambda>c. SendClose (qc_call_id c) c) (filter (circuit_expired now) (qm_ul_only m)) @
             map (\<lambda>c. SendDSetup (qc_call_id c) (qc_usage c) (qc_carrier_num c) (qc_ts c))
               (filter (\<lambda>c. \<not> circuit_expired now c \<and> d_setup_due now c) (qm_dl m))) None), m') \<and>
         qm_dl m' = filter (\<lambda>c. \<not> circuit_expired now c) (qm_dl m) \<and>
         qm_ul_only m' = filter (\<lambda>c. \<not> circuit_expired now c) (qm_ul_only m)
     else tick_start_circuits now m = (Ok None, m\<lparr>qm_dltime := now\<rparr>)"
proof -
  have inv: "qm_inv m" using assms by (rule circuits_reach_inv)
  then have inv': "qm_inv (m\<lparr>qm_dltime := now\<rparr>)" by (simp add: qm_inv_def)
  show ?thesis
    unfolding tick_start_spec [OF inv] close_expired_spec [OF inv'] close_cmds_def setup_cmds_def filter_filter by simp
qed

lemma sample_call_expired:
  "circuit_expired \<lparr>tm_t = 1, tm_f = 2, tm_m = 1, tm_h = 6\<rparr>
     (make_circuit CmceCircuitMgr_new Direction_Both \<lparr>cs_carrier_num = 7, cs_ts = 2\<rparr> 4 4 CommunicationType_P2Mp False)"
  by code_simp

theorem circuit_tick_exact_witness:
  "\<exists>c. qm_dl sample_call = [c] \<and> fst (tick_start_circuits \<lparr>tm_t = 1, tm_f = 2, tm_m = 1, tm_h = 6\<rparr> sample_call) = Ok (Some [SendClose 4 c])"
  using circuit_tick_exact [OF sample_call_reach, of "\<lparr>tm_t = 1, tm_f = 2, tm_m = 1, tm_h = 6\<rparr>"]
  by (auto simp: sample_call_dl sample_call_expired) (simp add: make_circuit_def add_tasks_def)

text \<open>C24. Late entry: as long as a circuit is open, D-SETUP is repeated in exactly one of any 90 consecutive frames (five multiframes), counted from
  the slot in which the circuit was created, for any age within the range of the clock.\<close>

theorem late_entry_once:
  assumes "TdmaTime_is_valid (qc_ts_created c)" and "r < 4" and "int r + 4 * int (j + 90) < TIME_INT_WRAP div 2"
  shows "\<exists>!k. k < 90 \<and> d_setup_due (TdmaTime_add_timeslots (qc_ts_created c) (int r + 4 * int (j + k))) c"
proof (rule d_setup_once)
  fix k :: nat assume "k < 90"
  with assms(3) show "TdmaTime_age (qc_ts_created c) (TdmaTime_add_timeslots (qc_ts_created c) (int r + 4 * int (j + k))) = int r + 4 * int (j + k)"
    unfolding TdmaTime_age_def by (intro diff_add_timeslots assms(1)) (simp_all add: TIME_INT_WRAP_def)
qed simp

theorem late_entry_once_witness:
  "\<exists>!k. k < 90 \<and> d_setup_due (TdmaTime_add_timeslots TdmaTime_default (3 + 4 * int (100 + k))) (hd (qm_dl sample_call))"
  using late_entry_once [of "hd (qm_dl sample_call)" 3 100]
  by (simp add: sample_call_dl make_circuit_def CmceCircuitMgr_new_def TdmaTime_is_valid_def TdmaTime_default_def TIME_INT_WRAP_def)

end
