(* ===== verification/Subscribers.thy ===== *)
theory Subscribers
  imports Prelude "HOL-Library.AList"
begin

text \<open>
  The registry of subscribers that mobility management shares with call control and the network bridge
  (\<open>tetra-config/src/bluestation/state.rs\<close>) and the ranges of addresses (\<open>tetra-core/src/ranges.rs\<close>). A \<open>HashMap\<close> is an association list
  with distinct keys and a \<open>HashSet\<close> a list without duplicates, in an order of which nothing is assumed; a \<open>BTreeMap\<close> is sorted by its
  keys. The last part is the configuration that mobility management reads: access control (\<open>sec_security.rs\<close>), restart recovery
  (\<open>sec_recovery.rs\<close>) and the routing of addresses to the network bridge (\<open>tetra-entities/src/net_brew/components/brew_routable.rs\<close>).
\<close>

section \<open>Ranges of addresses\<close>

record SsiRange =
  rg_start :: u32
  rg_end :: u32

text \<open>The loop that checks the sorted ranges: a range that starts behind its end or inside its predecessor panics; the bound wraps at the
  largest address.\<close>

primrec ranges_disjoint :: "u32 \<Rightarrow> SsiRange list \<Rightarrow> bool" where
  "ranges_disjoint lower_bound [] = True"
| "ranges_disjoint lower_bound (r # rs) =
     (rg_start r \<le> rg_end r \<and> lower_bound \<le> rg_start r \<and> ranges_disjoint (rg_end r + 1) rs)"

definition from_vec_ssirange :: "SsiRange list \<Rightarrow> (unit, SsiRange list) outcome" where
  "from_vec_ssirange ranges =
     (let rs = sort_key rg_start ranges in if ranges_disjoint 0 rs then Ok rs else Panic)"

primrec ranges_contain :: "SsiRange list \<Rightarrow> u32 \<Rightarrow> bool" where
  "ranges_contain [] addr = False"
| "ranges_contain (r # rs) addr =
     (if addr \<ge> rg_start r \<and> addr \<le> rg_end r then True else if rg_end r > addr then False else ranges_contain rs addr)"

section \<open>State\<close>

record Subscriber =
  sb_issi :: u32
  sb_attached_groups :: "u32 list"

record DgnaGroup =
  dg_gssi :: u32
  dg_mnemonic :: "string option"
  dg_attachment_mode :: u8

record SubscriberRegistry =
  sr_subscribers :: "(u32 \<times> Subscriber) list"
  sr_all_attached_groups :: "u32 list"
  sr_dgna_groups :: "(u32 \<times> (u32 \<times> DgnaGroup) list) list"

definition SubscriberRegistry_new :: SubscriberRegistry where
  "SubscriberRegistry_new = \<lparr>sr_subscribers = [], sr_all_attached_groups = [], sr_dgna_groups = []\<rparr>"

definition is_registered :: "SubscriberRegistry \<Rightarrow> u32 \<Rightarrow> bool" where
  "is_registered r issi \<longleftrightarrow> map_of (sr_subscribers r) issi \<noteq> None"

definition still_has_members :: "(u32 \<times> Subscriber) list \<Rightarrow> u32 \<Rightarrow> bool" where
  "still_has_members subs gssi \<longleftrightarrow> list_ex (\<lambda>(_, s). gssi \<in> set (sb_attached_groups s)) subs"

definition sr_deregister :: "u32 \<Rightarrow> SubscriberRegistry \<Rightarrow> SubscriberRegistry" where
  "sr_deregister issi r =
     (case map_of (sr_subscribers r) issi of
        Some s \<Rightarrow>
          let subs = AList.delete issi (sr_subscribers r)
          in r\<lparr>sr_subscribers := subs,
               sr_all_attached_groups :=
                 fold (\<lambda>gssi gs. if still_has_members subs gssi then gs else removeAll gssi gs)
                   (sb_attached_groups s) (sr_all_attached_groups r)\<rparr>
      | None \<Rightarrow> r)"

definition sr_register :: "u32 \<Rightarrow> SubscriberRegistry \<Rightarrow> SubscriberRegistry" where
  "sr_register issi r =
     (let r = sr_deregister issi r
      in r\<lparr>sr_subscribers := AList.update issi \<lparr>sb_issi = issi, sb_attached_groups = []\<rparr> (sr_subscribers r)\<rparr>)"

definition get_subscriber :: "u32 \<Rightarrow> SubscriberRegistry \<Rightarrow> Subscriber" where
  "get_subscriber issi r =
     (case map_of (sr_subscribers r) issi of Some s \<Rightarrow> s | None \<Rightarrow> \<lparr>sb_issi = issi, sb_attached_groups = []\<rparr>)"

definition sr_affiliate :: "u32 \<Rightarrow> u32 \<Rightarrow> SubscriberRegistry \<Rightarrow> SubscriberRegistry" where
  "sr_affiliate issi gssi r =
     (let s = get_subscriber issi r
      in r\<lparr>sr_subscribers := AList.update issi (s\<lparr>sb_attached_groups := List.insert gssi (sb_attached_groups s)\<rparr>) (sr_subscribers r),
           sr_all_attached_groups := List.insert gssi (sr_all_attached_groups r)\<rparr>)"

definition sr_deaffiliate :: "u32 \<Rightarrow> u32 \<Rightarrow> SubscriberRegistry \<Rightarrow> SubscriberRegistry" where
  "sr_deaffiliate issi gssi r =
     (let s = get_subscriber issi r;
          subs = AList.update issi (s\<lparr>sb_attached_groups := removeAll gssi (sb_attached_groups s)\<rparr>) (sr_subscribers r)
      in r\<lparr>sr_subscribers := subs,
           sr_all_attached_groups :=
             (if gssi \<in> set (sb_attached_groups s) \<and> \<not> still_has_members subs gssi
              then removeAll gssi (sr_all_attached_groups r) else sr_all_attached_groups r)\<rparr>)"

definition has_group_members :: "SubscriberRegistry \<Rightarrow> u32 \<Rightarrow> bool" where
  "has_group_members r gssi \<longleftrightarrow> gssi \<in> set (sr_all_attached_groups r)"

definition all_registered_issis :: "SubscriberRegistry \<Rightarrow> u32 list" where
  "all_registered_issis r = map fst (sr_subscribers r)"

definition attached_groups_of :: "SubscriberRegistry \<Rightarrow> u32 \<Rightarrow> u32 list" where
  "attached_groups_of r issi = (case map_of (sr_subscribers r) issi of Some s \<Rightarrow> sb_attached_groups s | None \<Rightarrow> [])"

section \<open>Dynamic groups\<close>

primrec bt_insert :: "u32 \<Rightarrow> 'a \<Rightarrow> (u32 \<times> 'a) list \<Rightarrow> (u32 \<times> 'a) list" where
  "bt_insert k v [] = [(k, v)]"
| "bt_insert k v (x # xs) = (if k < fst x then (k, v) # x # xs else if k = fst x then (k, v) # xs else x # bt_insert k v xs)"

definition dgna_of :: "SubscriberRegistry \<Rightarrow> u32 \<Rightarrow> (u32 \<times> DgnaGroup) list" where
  "dgna_of r issi = (case map_of (sr_dgna_groups r) issi of Some gs \<Rightarrow> gs | None \<Rightarrow> [])"

definition remember_dgna_group :: "u32 \<Rightarrow> u32 \<Rightarrow> string option \<Rightarrow> u8 \<Rightarrow> SubscriberRegistry \<Rightarrow> SubscriberRegistry" where
  "remember_dgna_group issi gssi mnemonic attachment_mode r =
     r\<lparr>sr_dgna_groups := AList.update issi
         (bt_insert gssi \<lparr>dg_gssi = gssi, dg_mnemonic = mnemonic, dg_attachment_mode = attachment_mode\<rparr> (dgna_of r issi))
         (sr_dgna_groups r)\<rparr>"

definition forget_dgna_group :: "u32 \<Rightarrow> u32 \<Rightarrow> SubscriberRegistry \<Rightarrow> bool \<times> SubscriberRegistry" where
  "forget_dgna_group issi gssi r =
     (case map_of (sr_dgna_groups r) issi of
        None \<Rightarrow> (False, r)
      | Some groups \<Rightarrow>
          let groups' = AList.delete gssi groups
          in (map_of groups gssi \<noteq> None,
              r\<lparr>sr_dgna_groups := (if groups' = [] then AList.delete issi (sr_dgna_groups r) else AList.update issi groups' (sr_dgna_groups r))\<rparr>))"

definition has_dgna_group :: "SubscriberRegistry \<Rightarrow> u32 \<Rightarrow> u32 \<Rightarrow> bool" where
  "has_dgna_group r issi gssi \<longleftrightarrow> map_of (dgna_of r issi) gssi \<noteq> None"

definition dgna_groups_of :: "SubscriberRegistry \<Rightarrow> u32 \<Rightarrow> DgnaGroup list" where
  "dgna_groups_of r issi = map snd (dgna_of r issi)"

section \<open>Ranges: the scan with its early exit is membership\<close>

lemma ranges_contain_ordered:
  assumes "sorted (map rg_start rs)"
  shows "ranges_contain rs addr \<longleftrightarrow> (\<exists>r \<in> set rs. rg_start r \<le> addr \<and> addr \<le> rg_end r)"
  using assms
proof (induction rs)
  case (Cons r rs)
  have "\<not> rg_start q \<le> addr" if "q \<in> set rs" "\<not> rg_start r \<le> addr" for q
  proof -
    have "rg_start r \<le> rg_start q" using Cons.prems that(1) by simp
    with that(2) show ?thesis by simp
  qed
  with Cons show ?case by (auto simp: not_le)
qed simp

lemma from_vec_contains:
  "from_vec_ssirange ranges = Ok rs \<Longrightarrow> ranges_contain rs addr \<longleftrightarrow> (\<exists>r \<in> set ranges. rg_start r \<le> addr \<and> addr \<le> rg_end r)"
  using ranges_contain_ordered [of "sort_key rg_start ranges" addr] by (auto simp: from_vec_ssirange_def Let_def split: if_splits)

section \<open>Invariant\<close>

text \<open>The affiliations as a relation: who is attached to which group.\<close>

definition affiliations :: "SubscriberRegistry \<Rightarrow> (u32 \<times> u32) set" where
  "affiliations r = {(issi, gssi). gssi \<in> set (attached_groups_of r issi)}"

definition sr_inv :: "SubscriberRegistry \<Rightarrow> bool" where
  "sr_inv r \<longleftrightarrow> distinct (map fst (sr_subscribers r)) \<and> (\<forall>i s. map_of (sr_subscribers r) i = Some s \<longrightarrow> sb_issi s = i \<and> distinct (sb_attached_groups s)) \<and>
     set (sr_all_attached_groups r) = snd ` affiliations r"

lemma sr_inv_new: "sr_inv SubscriberRegistry_new"
  by (simp add: sr_inv_def SubscriberRegistry_new_def affiliations_def attached_groups_of_def)

lemma affiliations_iff: "(i, g) \<in> affiliations r \<longleftrightarrow> (\<exists>s. map_of (sr_subscribers r) i = Some s \<and> g \<in> set (sb_attached_groups s))"
  by (cases "map_of (sr_subscribers r) i") (simp_all add: affiliations_def attached_groups_of_def)

lemma still_has_members_iff:
  "distinct (map fst (sr_subscribers r)) \<Longrightarrow> still_has_members (sr_subscribers r) g \<longleftrightarrow> g \<in> snd ` affiliations r"
  by (auto simp: still_has_members_def list_ex_iff image_iff Bex_def affiliations_iff)

lemma snd_without: "{g \<in> snd ` A. (i, g) \<notin> A \<or> g \<in> snd ` (A - {i} \<times> UNIV)} = snd ` (A - {i} \<times> UNIV)"
  by force

lemma snd_but_one:
  "(if (i, g) \<in> A \<and> g \<notin> snd ` (A - {(i, g)}) then snd ` A - {g} else snd ` A) = snd ` (A - {(i, g)})"
proof (cases "(i, g) \<in> A")
  case True
  then have "snd ` A = insert g (snd ` (A - {(i, g)}))" by (metis image_insert insert_Diff snd_conv)
  with True show ?thesis by auto
qed simp

lemma fold_drop_groups:
  "set (fold (\<lambda>g gs. if P g then gs else removeAll g gs) xs ys) = {g \<in> set ys. g \<notin> set xs \<or> P g}"
  by (induction xs arbitrary: ys) auto

lemma sr_deregister_spec:
  assumes "sr_inv r"
  shows "sr_inv (sr_deregister issi r)" and "affiliations (sr_deregister issi r) = affiliations r - {issi} \<times> UNIV"
    and "is_registered (sr_deregister issi r) j \<longleftrightarrow> is_registered r j \<and> j \<noteq> issi"
proof -
  show aff: "affiliations (sr_deregister issi r) = affiliations r - {issi} \<times> UNIV"
    by (auto simp: sr_deregister_def affiliations_iff Let_def delete_conv' split: option.splits if_splits)
  show "is_registered (sr_deregister issi r) j \<longleftrightarrow> is_registered r j \<and> j \<noteq> issi"
    by (auto simp: sr_deregister_def is_registered_def Let_def delete_conv' split: option.splits)
  show "sr_inv (sr_deregister issi r)"
  proof (cases "map_of (sr_subscribers r) issi")
    case (Some s)
    let ?r = "sr_deregister issi r"
    have subs: "sr_subscribers ?r = AList.delete issi (sr_subscribers r)" using Some by (simp add: sr_deregister_def Let_def)
    have dist: "distinct (map fst (sr_subscribers ?r))" using assms by (simp add: subs sr_inv_def distinct_delete)
    have "set (sr_all_attached_groups ?r) =
        {g \<in> snd ` affiliations r. g \<notin> set (sb_attached_groups s) \<or> still_has_members (sr_subscribers ?r) g}"
      using Some assms by (simp add: sr_deregister_def Let_def fold_drop_groups sr_inv_def)
    moreover have "g \<in> set (sb_attached_groups s) \<longleftrightarrow> (issi, g) \<in> affiliations r" for g using Some by (simp add: affiliations_iff)
    ultimately have "set (sr_all_attached_groups ?r) = snd ` affiliations ?r"
      using snd_without [of "affiliations r" issi] by (simp add: still_has_members_iff [OF dist] aff)
    moreover have "map_of (sr_subscribers ?r) i = Some s \<longrightarrow> sb_issi s = i \<and> distinct (sb_attached_groups s)" for i s
      using assms unfolding subs delete_conv' by (auto simp: sr_inv_def)
    ultimately show ?thesis using dist unfolding sr_inv_def by blast
  qed (use assms in \<open>simp add: sr_deregister_def\<close>)
qed

lemma sr_register_spec:
  assumes "sr_inv r"
  shows "sr_inv (sr_register issi r)" and "affiliations (sr_register issi r) = affiliations r - {issi} \<times> UNIV"
    and "is_registered (sr_register issi r) j \<longleftrightarrow> is_registered r j \<or> j = issi"
proof -
  note d = sr_deregister_spec [OF assms, of issi]
  show aff: "affiliations (sr_register issi r) = affiliations r - {issi} \<times> UNIV"
    using d(2) by (auto simp: sr_register_def Let_def set_eq_iff affiliations_iff update_conv' split: if_splits)
  show "is_registered (sr_register issi r) j \<longleftrightarrow> is_registered r j \<or> j = issi"
    using d(3) by (auto simp: sr_register_def Let_def is_registered_def update_conv')
  show "sr_inv (sr_register issi r)"
    unfolding sr_inv_def aff
    using d(1,2) by (simp add: sr_inv_def sr_register_def Let_def distinct_update update_conv')
qed

lemma get_subscriber_groups: "set (sb_attached_groups (get_subscriber issi r)) = affiliations r `` {issi}"
  by (auto simp: get_subscriber_def affiliations_iff split: option.split)

lemma get_subscriber_ok: "sr_inv r \<Longrightarrow> sb_issi (get_subscriber issi r) = issi \<and> distinct (sb_attached_groups (get_subscriber issi r))"
  by (auto simp: sr_inv_def get_subscriber_def split: option.split dest: map_of_SomeD)

lemma sr_affiliate_spec:
  assumes "sr_inv r"
  shows "sr_inv (sr_affiliate issi gssi r)" and "affiliations (sr_affiliate issi gssi r) = insert (issi, gssi) (affiliations r)"
    and "is_registered (sr_affiliate issi gssi r) j \<longleftrightarrow> is_registered r j \<or> j = issi"
proof -
  show aff: "affiliations (sr_affiliate issi gssi r) = insert (issi, gssi) (affiliations r)"
    using get_subscriber_groups [of issi r]
    by (auto simp: sr_affiliate_def Let_def set_eq_iff affiliations_iff update_conv' split: if_splits)
  show "is_registered (sr_affiliate issi gssi r) j \<longleftrightarrow> is_registered r j \<or> j = issi"
    by (auto simp: sr_affiliate_def Let_def is_registered_def update_conv')
  show "sr_inv (sr_affiliate issi gssi r)"
    unfolding sr_inv_def aff
    using assms get_subscriber_ok [OF assms, of issi]
    by (auto simp: sr_inv_def sr_affiliate_def Let_def update_conv' intro!: distinct_update)
qed

lemma sr_deaffiliate_spec:
  assumes "sr_inv r"
  shows "sr_inv (sr_deaffiliate issi gssi r)" and "affiliations (sr_deaffiliate issi gssi r) = affiliations r - {(issi, gssi)}"
    and "is_registered (sr_deaffiliate issi gssi r) j \<longleftrightarrow> is_registered r j \<or> j = issi"
proof -
  let ?r = "sr_deaffiliate issi gssi r"
  show aff: "affiliations ?r = affiliations r - {(issi, gssi)}"
    using get_subscriber_groups [of issi r]
    by (auto simp: sr_deaffiliate_def Let_def set_eq_iff affiliations_iff update_conv' split: if_splits)
  show "is_registered ?r j \<longleftrightarrow> is_registered r j \<or> j = issi"
    by (auto simp: sr_deaffiliate_def Let_def is_registered_def update_conv')
  have dist: "distinct (map fst (sr_subscribers ?r))" using assms by (simp add: sr_deaffiliate_def Let_def sr_inv_def distinct_update)
  have "set (sr_all_attached_groups ?r) = (if (issi, gssi) \<in> affiliations r \<and> gssi \<notin> snd ` affiliations ?r
      then snd ` affiliations r - {gssi} else snd ` affiliations r)"
    using assms get_subscriber_groups [of issi r] still_has_members_iff [OF dist, of gssi]
    by (auto simp: sr_deaffiliate_def Let_def sr_inv_def)
  also have "\<dots> = snd ` affiliations ?r" unfolding aff by (rule snd_but_one)
  finally show "sr_inv ?r"
    using assms dist get_subscriber_ok [OF assms, of issi]
    by (simp add: sr_inv_def sr_deaffiliate_def Let_def update_conv' distinct_removeAll)
qed

lemma sr_dgna_frame [simp]:
  "affiliations (remember_dgna_group issi gssi m a r) = affiliations r" "sr_inv (remember_dgna_group issi gssi m a r) = sr_inv r"
  "is_registered (remember_dgna_group issi gssi m a r) j = is_registered r j"
  "affiliations (snd (forget_dgna_group issi gssi r)) = affiliations r" "sr_inv (snd (forget_dgna_group issi gssi r)) = sr_inv r"
  "is_registered (snd (forget_dgna_group issi gssi r)) j = is_registered r j"
  by (auto simp: remember_dgna_group_def forget_dgna_group_def affiliations_def attached_groups_of_def sr_inv_def is_registered_def Let_def
      split: option.split)

lemma has_group_members_iff: "sr_inv r \<Longrightarrow> has_group_members r gssi \<longleftrightarrow> (\<exists>issi. (issi, gssi) \<in> affiliations r)"
  by (auto simp: sr_inv_def has_group_members_def image_iff Bex_def)

lemma attached_groups_set: "set (attached_groups_of r issi) = affiliations r `` {issi}"
  by (auto simp: affiliations_def)

section \<open>The contract of the registry\<close>

text \<open>
  What mobility management relies on: each operation is the corresponding operation on the relation of affiliations and on the set of
  registered terminals. The loops of its handlers are derived from this contract alone.
\<close>

locale group_registry =
  fixes inv :: "'r \<Rightarrow> bool" and aff :: "'r \<Rightarrow> ('i \<times> 'g) set" and reg :: "'r \<Rightarrow> 'i \<Rightarrow> bool"
    and register :: "'i \<Rightarrow> 'r \<Rightarrow> 'r" and deregister :: "'i \<Rightarrow> 'r \<Rightarrow> 'r"
    and affiliate :: "'i \<Rightarrow> 'g \<Rightarrow> 'r \<Rightarrow> 'r" and deaffiliate :: "'i \<Rightarrow> 'g \<Rightarrow> 'r \<Rightarrow> 'r"
  assumes register: "inv r \<Longrightarrow> inv (register i r) \<and> aff (register i r) = aff r - {i} \<times> UNIV \<and> reg (register i r) j = (reg r j \<or> j = i)"
    and deregister: "inv r \<Longrightarrow> inv (deregister i r) \<and> aff (deregister i r) = aff r - {i} \<times> UNIV \<and> reg (deregister i r) j = (reg r j \<and> j \<noteq> i)"
    and affiliate: "inv r \<Longrightarrow> inv (affiliate i g r) \<and> aff (affiliate i g r) = insert (i, g) (aff r) \<and> reg (affiliate i g r) j = (reg r j \<or> j = i)"
    and deaffiliate: "inv r \<Longrightarrow> inv (deaffiliate i g r) \<and> aff (deaffiliate i g r) = aff r - {(i, g)} \<and> reg (deaffiliate i g r) j = (reg r j \<or> j = i)"
begin

lemma affiliate_all:
  "inv r \<Longrightarrow> inv (fold (affiliate i) gs r) \<and> aff (fold (affiliate i) gs r) = aff r \<union> {i} \<times> set gs \<and>
   reg (fold (affiliate i) gs r) j = (reg r j \<or> gs \<noteq> [] \<and> j = i)"
  using affiliate by (induction gs arbitrary: r) auto

lemma deaffiliate_all:
  "inv r \<Longrightarrow> inv (fold (deaffiliate i) gs r) \<and> aff (fold (deaffiliate i) gs r) = aff r - {i} \<times> set gs \<and>
   reg (fold (deaffiliate i) gs r) j = (reg r j \<or> gs \<noteq> [] \<and> j = i)"
  using deaffiliate by (induction gs arbitrary: r) auto

lemma deregister_all:
  "inv r \<Longrightarrow> inv (fold deregister is r) \<and> aff (fold deregister is r) = aff r - set is \<times> UNIV \<and>
   reg (fold deregister is r) j = (reg r j \<and> j \<notin> set is)"
  using deregister by (induction "is" arbitrary: r) auto

end

interpretation subscribers: group_registry sr_inv affiliations is_registered sr_register sr_deregister sr_affiliate sr_deaffiliate
  by unfold_locales (simp_all add: sr_register_spec sr_deregister_spec sr_affiliate_spec sr_deaffiliate_spec)

section \<open>Access control\<close>

datatype WhitelistMode = Whitelist_Auto | Whitelist_Open | Whitelist_Enforce

record CfgSecurity =
  cs_issi_whitelist :: "u32 list"
  cs_whitelist_mode :: WhitelistMode
  cs_honour_unauthenticated_detach :: bool
  cs_max_registered_clients :: nat
  cs_registration_rate_limit_per_min :: u32

definition CfgSecurity_default :: CfgSecurity where
  "CfgSecurity_default =
     \<lparr>cs_issi_whitelist = [], cs_whitelist_mode = Whitelist_Auto, cs_honour_unauthenticated_detach = True, cs_max_registered_clients = 2048,
      cs_registration_rate_limit_per_min = 30\<rparr>"

definition allows :: "CfgSecurity \<Rightarrow> u32 \<Rightarrow> u32 list option \<Rightarrow> bool" where
  "allows c issi override_list =
     (let xs = (case override_list of Some l \<Rightarrow> l | None \<Rightarrow> cs_issi_whitelist c)
      in case cs_whitelist_mode c of
           Whitelist_Open \<Rightarrow> True
         | Whitelist_Auto \<Rightarrow> xs = [] \<or> issi \<in> set xs
         | Whitelist_Enforce \<Rightarrow> issi \<in> set xs)"

definition is_issi_allowed :: "CfgSecurity \<Rightarrow> u32 \<Rightarrow> bool" where
  "is_issi_allowed c issi = allows c issi None"

section \<open>Restart recovery\<close>

record CfgRecovery =
  cr_issi_allowlist :: "u32 list"
  cr_max_replay_attempts :: nat
  cr_replay_per_frame :: nat
  cr_debounce_secs :: nat
  cr_max_cached_issis :: nat
  cr_reactive_enabled :: bool
  cr_reactive_cooldown_secs :: nat

definition CfgRecovery_default :: CfgRecovery where
  "CfgRecovery_default =
     \<lparr>cr_issi_allowlist = [], cr_max_replay_attempts = 150, cr_replay_per_frame = 1, cr_debounce_secs = 5, cr_max_cached_issis = 1024,
      cr_reactive_enabled = True, cr_reactive_cooldown_secs = 10\<rparr>"

section \<open>Routing to the network bridge\<close>

record CfgBrew =
  cb_host :: string
  cb_whitelisted_ssis :: "u32 list option"
  cb_pbx_gateway_issis :: "u32 list option"

record MmConfig =
  cfg_security :: CfgSecurity
  cfg_recovery :: CfgRecovery
  cfg_brew :: "CfgBrew option"
  cfg_local_ssi_ranges :: "SsiRange list"
  cfg_periodic_registration_secs :: nat
  cfg_dgna_use_ss_facility :: bool

definition brew_is_active :: "MmConfig \<Rightarrow> bool" where
  "brew_is_active c \<longleftrightarrow> cfg_brew c \<noteq> None"

definition is_tetrapack :: "MmConfig \<Rightarrow> bool" where
  "is_tetrapack c = (case cfg_brew c of Some b \<Rightarrow> cb_host b = ''core.tetrapack.online'' | None \<Rightarrow> False)"

definition is_pbx_gateway_issi :: "MmConfig \<Rightarrow> u32 \<Rightarrow> bool" where
  "is_pbx_gateway_issi c issi =
     (case Option.bind (cfg_brew c) cb_pbx_gateway_issis of Some allowed \<Rightarrow> issi \<in> set allowed | None \<Rightarrow> False)"

definition is_brew_gssi_routable :: "MmConfig \<Rightarrow> u32 \<Rightarrow> bool" where
  "is_brew_gssi_routable c ssi =
     (case cfg_brew c of
        None \<Rightarrow> False
      | Some b \<Rightarrow>
          if ranges_contain (cfg_local_ssi_ranges c) ssi then False
          else case cb_whitelisted_ssis b of Some whitelist \<Rightarrow> ssi \<in> set whitelist | None \<Rightarrow> True)"

definition is_brew_inbound_allowed :: "MmConfig \<Rightarrow> u32 \<Rightarrow> bool" where
  "is_brew_inbound_allowed c ssi \<longleftrightarrow> brew_is_active c \<and> \<not> ranges_contain (cfg_local_ssi_ranges c) ssi"

definition is_brew_external_subscriber_allowed :: "MmConfig \<Rightarrow> u32 \<Rightarrow> bool" where
  "is_brew_external_subscriber_allowed c issi \<longleftrightarrow> brew_is_active c \<and> \<not> ranges_contain (cfg_local_ssi_ranges c) issi"

definition is_brew_issi_routable :: "MmConfig \<Rightarrow> u32 \<Rightarrow> bool" where
  "is_brew_issi_routable c issi =
     (if cfg_brew c = None then False
      else if is_tetrapack c
      then issi \<ge> 1000000 \<and> issi \<le> 9999999 \<or> issi < 1000000 \<or> is_pbx_gateway_issi c issi
      else True)"

text \<open>What is forwarded outbound may also come back inbound.\<close>

lemma brew_outbound_inbound: "is_brew_gssi_routable c ssi \<Longrightarrow> is_brew_inbound_allowed c ssi"
  by (auto simp: is_brew_gssi_routable_def is_brew_inbound_allowed_def brew_is_active_def split: option.splits if_splits)

text \<open>An address that is barred is barred by a list: the effective one is enforced, or it is not empty.\<close>

lemma not_allows:
  "\<not> allows c issi ov \<Longrightarrow>
   issi \<notin> set (case ov of Some l \<Rightarrow> l | None \<Rightarrow> cs_issi_whitelist c) \<and> cs_whitelist_mode c \<noteq> Whitelist_Open"
  by (auto simp: allows_def Let_def split: WhitelistMode.splits)

end
