(* ===== verification/Mm_Clients.thy ===== *)
theory Mm_Clients
  imports Mm_Fields Tdma_Time "HOL-Library.AList"
begin

text \<open>
  The registry of terminals of mobility management (\<open>tetra-entities/src/mm/components/client_state.rs\<close>). An \<open>Instant\<close> is a number of
  nanoseconds, and an operation that reads the clock takes the current one as an argument. An \<open>f32\<close> is its bit pattern. What is sent to
  the dashboard is left out. The second half holds the invariant of the registry, what each operation does to the map from addresses to
  clients, which clients the cap evicts, and what the rate limit of registrations admits.
\<close>

declare One_nat_def [simp del]

definition secs :: "nat \<Rightarrow> nat" where
  "secs n = n * 1000000000"

definition ee_cycle_frames :: "EnergySavingMode \<Rightarrow> u8 option" where
  "ee_cycle_frames mode =
     (case mode of
        EnergySavingMode_StayAlive \<Rightarrow> None
      | EnergySavingMode_Eg1 \<Rightarrow> Some 2
      | EnergySavingMode_Eg2 \<Rightarrow> Some 3
      | _ \<Rightarrow> Some 6)"

section \<open>State\<close>

datatype ClientMgrErr = ClientNotFound u32 | GroupNotFound u32 | IssiInGroupRange u32 | GssiInClientRange u32

datatype MmClientState = Client_Unknown | Client_Attached | Client_Detached

record MmClientProperties =
  cl_issi :: u32
  cl_state :: MmClientState
  cl_groups :: "u32 list"
  cl_energy_saving_mode :: EnergySavingMode
  cl_monitoring_frame :: "u8 option"
  cl_monitoring_multiframe :: "u8 option"
  cl_last_rssi :: "u32 option"
  cl_last_uplink_time :: nat
  cl_last_registration_time :: nat
  cl_class_of_ms :: "ClassOfMs option"
  cl_last_handle :: u32
  cl_tei :: "u64 option"
  cl_pending_command_sent :: bool
  cl_grace_expires_at :: "nat option"

definition MmClientProperties_new :: "nat \<Rightarrow> u32 \<Rightarrow> MmClientProperties" where
  "MmClientProperties_new now ssi =
     \<lparr>cl_issi = ssi, cl_state = Client_Unknown, cl_groups = [], cl_energy_saving_mode = EnergySavingMode_StayAlive,
      cl_monitoring_frame = None, cl_monitoring_multiframe = None, cl_last_rssi = None, cl_last_uplink_time = now,
      cl_last_registration_time = now, cl_class_of_ms = None, cl_last_handle = 0, cl_tei = None, cl_pending_command_sent = False,
      cl_grace_expires_at = None\<rparr>"

text \<open>Stubs of the source, which are to be replaced by checks against the configuration.\<close>

definition is_individual :: "u32 \<Rightarrow> bool" where
  "is_individual issi = True"

definition in_group_range :: "u32 \<Rightarrow> bool" where
  "in_group_range gssi = True"

definition is_group :: "u32 \<Rightarrow> bool" where
  "is_group gssi = True"

definition may_attach :: "u32 \<Rightarrow> u32 \<Rightarrow> bool" where
  "may_attach issi gssi = True"

definition REGISTRATION_RATE_TABLE_CAP :: nat where
  "REGISTRATION_RATE_TABLE_CAP = 8192"

definition REGISTRATION_RATE_WINDOW :: nat where
  "REGISTRATION_RATE_WINDOW = secs 60"

definition DEFAULT_MAX_REGISTERED_CLIENTS :: nat where
  "DEFAULT_MAX_REGISTERED_CLIENTS = 2048"

definition DEFAULT_REGISTRATION_RATE_LIMIT_PER_MIN :: u32 where
  "DEFAULT_REGISTRATION_RATE_LIMIT_PER_MIN = 30"

record MmClientMgr =
  cm_clients :: "(u32 \<times> MmClientProperties) list"
  cm_max_clients :: nat
  cm_registration_rate :: "(u32 \<times> nat \<times> u32) list"
  cm_registrations_per_window :: u32

definition MmClientMgr_new :: MmClientMgr where
  "MmClientMgr_new =
     \<lparr>cm_clients = [], cm_max_clients = DEFAULT_MAX_REGISTERED_CLIENTS, cm_registration_rate = [],
      cm_registrations_per_window = DEFAULT_REGISTRATION_RATE_LIMIT_PER_MIN\<rparr>"

type_synonym 'a clients = "(MmClientMgr, ClientMgrErr, 'a) prog"

definition set_limits :: "nat \<Rightarrow> u32 \<Rightarrow> MmClientMgr \<Rightarrow> MmClientMgr" where
  "set_limits max_clients registrations_per_window m =
     m\<lparr>cm_max_clients := max_clients, cm_registrations_per_window := registrations_per_window\<rparr>"

definition client_count :: "MmClientMgr \<Rightarrow> nat" where
  "client_count m = length (cm_clients m)"

definition at_capacity :: "MmClientMgr \<Rightarrow> bool" where
  "at_capacity m \<longleftrightarrow> cm_max_clients m \<noteq> 0 \<and> length (cm_clients m) \<ge> cm_max_clients m"

definition get_client_by_issi :: "MmClientMgr \<Rightarrow> u32 \<Rightarrow> MmClientProperties option" where
  "get_client_by_issi m issi = map_of (cm_clients m) issi"

definition client_is_known :: "MmClientMgr \<Rightarrow> u32 \<Rightarrow> bool" where
  "client_is_known m issi \<longleftrightarrow> map_of (cm_clients m) issi \<noteq> None"

section \<open>Bounds\<close>

definition allow_registration :: "nat \<Rightarrow> u32 \<Rightarrow> MmClientMgr \<Rightarrow> bool \<times> MmClientMgr" where
  "allow_registration now issi m =
     (if cm_registrations_per_window m = 0 then (True, m)
      else
        let rates = (if length (cm_registration_rate m) \<ge> REGISTRATION_RATE_TABLE_CAP
                     then filter (\<lambda>(_, start, _). now - start < REGISTRATION_RATE_WINDOW) (cm_registration_rate m)
                     else cm_registration_rate m);
            entry = (case map_of rates issi of Some e \<Rightarrow> e | None \<Rightarrow> (now, 0));
            entry = (if now - fst entry \<ge> REGISTRATION_RATE_WINDOW then (now, 0) else entry)
        in if snd entry \<ge> cm_registrations_per_window m
           then (False, m\<lparr>cm_registration_rate := AList.update issi entry rates\<rparr>)
           else (True, m\<lparr>cm_registration_rate := AList.update issi (fst entry, snd entry + 1) rates\<rparr>))"

definition remove_client :: "u32 \<Rightarrow> MmClientMgr \<Rightarrow> MmClientProperties option \<times> MmClientMgr" where
  "remove_client ssi m =
     (case map_of (cm_clients m) ssi of
        Some client \<Rightarrow> (Some client, m\<lparr>cm_clients := AList.delete ssi (cm_clients m)\<rparr>)
      | None \<Rightarrow> (None, m))"

text \<open>The loop of \<open>enforce_client_cap\<close> over the candidates, least recently heard first.\<close>

primrec evict_loop :: "nat \<Rightarrow> (nat \<times> u32) list \<Rightarrow> MmClientMgr \<Rightarrow> u32 list \<times> MmClientMgr" where
  "evict_loop target [] m = ([], m)"
| "evict_loop target (c # cs) m =
     (if length (cm_clients m) \<le> target then ([], m)
      else case evict_loop target cs (snd (remove_client (snd c) m)) of (evicted, m) \<Rightarrow> (snd c # evicted, m))"

definition evictable :: "u32 list \<Rightarrow> MmClientProperties \<Rightarrow> bool" where
  "evictable protect c \<longleftrightarrow> cl_groups c = [] \<and> cl_issi c \<notin> set protect"

definition enforce_client_cap :: "u32 list \<Rightarrow> MmClientMgr \<Rightarrow> u32 list \<times> MmClientMgr" where
  "enforce_client_cap protect m =
     (if cm_max_clients m = 0 \<or> length (cm_clients m) < cm_max_clients m then ([], m)
      else
        let batch = max (cm_max_clients m div 16) 1;
            target = max (cm_max_clients m - batch) 1;
            candidates = map (\<lambda>c. (cl_last_uplink_time c, cl_issi c)) (filter (evictable protect) (map snd (cm_clients m)))
        in evict_loop target (sort_key fst candidates) m)"

section \<open>Setters\<close>

definition update_client :: "(MmClientProperties \<Rightarrow> MmClientProperties) \<Rightarrow> u32 \<Rightarrow> MmClientMgr \<Rightarrow> MmClientMgr" where
  "update_client f issi m =
     (case map_of (cm_clients m) issi of
        Some c \<Rightarrow> m\<lparr>cm_clients := AList.update issi (f c) (cm_clients m)\<rparr>
      | None \<Rightarrow> m)"

definition try_update_client :: "(MmClientProperties \<Rightarrow> MmClientProperties) \<Rightarrow> u32 \<Rightarrow> unit clients" where
  "try_update_client f issi m = (if client_is_known m issi then Ok ((), update_client f issi m) else Err (ClientNotFound issi))"

definition is_registered_on_handle :: "MmClientMgr \<Rightarrow> u32 \<Rightarrow> u32 \<Rightarrow> bool" where
  "is_registered_on_handle m issi handle =
     (case map_of (cm_clients m) issi of Some c \<Rightarrow> cl_state c = Client_Attached \<and> cl_last_handle c = handle | None \<Rightarrow> False)"

definition set_client_state :: "u32 \<Rightarrow> MmClientState \<Rightarrow> unit clients" where
  "set_client_state issi state = try_update_client (\<lambda>c. c\<lparr>cl_state := state\<rparr>) issi"

definition set_client_energy_saving_mode :: "u32 \<Rightarrow> EnergySavingMode \<Rightarrow> unit clients" where
  "set_client_energy_saving_mode issi mode = try_update_client (\<lambda>c. c\<lparr>cl_energy_saving_mode := mode\<rparr>) issi"

definition set_client_monitoring_window :: "u32 \<Rightarrow> u8 option \<Rightarrow> u8 option \<Rightarrow> unit clients" where
  "set_client_monitoring_window issi frame multiframe =
     try_update_client (\<lambda>c. c\<lparr>cl_monitoring_frame := frame, cl_monitoring_multiframe := multiframe\<rparr>) issi"

definition update_client_rssi :: "nat \<Rightarrow> u32 \<Rightarrow> u32 \<Rightarrow> MmClientMgr \<Rightarrow> MmClientMgr" where
  "update_client_rssi now issi rssi_dbfs =
     update_client (\<lambda>c. c\<lparr>cl_last_uplink_time := now, cl_last_rssi := Some rssi_dbfs\<rparr>) issi"

definition heard_on_air_within :: "nat \<Rightarrow> MmClientMgr \<Rightarrow> u32 \<Rightarrow> nat \<Rightarrow> bool" where
  "heard_on_air_within now m issi within =
     (case map_of (cm_clients m) issi of Some c \<Rightarrow> now - cl_last_uplink_time c < within | None \<Rightarrow> False)"

definition reset_registration_timer :: "nat \<Rightarrow> u32 \<Rightarrow> MmClientMgr \<Rightarrow> MmClientMgr" where
  "reset_registration_timer now issi =
     update_client (\<lambda>c. c\<lparr>cl_last_registration_time := now, cl_pending_command_sent := False, cl_grace_expires_at := None\<rparr>) issi"

definition is_pending_command :: "MmClientMgr \<Rightarrow> u32 \<Rightarrow> bool" where
  "is_pending_command m issi = (case map_of (cm_clients m) issi of Some c \<Rightarrow> cl_pending_command_sent c | None \<Rightarrow> False)"

definition set_pending_command :: "nat \<Rightarrow> u32 \<Rightarrow> nat \<Rightarrow> MmClientMgr \<Rightarrow> MmClientMgr" where
  "set_pending_command now issi grace_secs =
     update_client (\<lambda>c. c\<lparr>cl_pending_command_sent := True, cl_grace_expires_at := Some (now + secs grace_secs)\<rparr>) issi"

definition registration_expired :: "nat \<Rightarrow> nat \<Rightarrow> MmClientProperties \<Rightarrow> bool" where
  "registration_expired now threshold c =
     (if cl_pending_command_sent c then (case cl_grace_expires_at c of Some d \<Rightarrow> now \<ge> d | None \<Rightarrow> True)
      else now - cl_last_registration_time c > threshold)"

definition collect_expired_registrations :: "nat \<Rightarrow> MmClientMgr \<Rightarrow> nat \<Rightarrow> u32 list" where
  "collect_expired_registrations now m interval_secs =
     (if interval_secs = 0 then []
      else map fst (filter (\<lambda>(_, c). registration_expired now (secs interval_secs) c) (cm_clients m)))"

definition should_send_t351_command_now :: "nat \<Rightarrow> MmClientMgr \<Rightarrow> u32 \<Rightarrow> TdmaTime \<Rightarrow> nat \<Rightarrow> nat \<Rightarrow> bool" where
  "should_send_t351_command_now now m issi ts interval_secs window_wait_secs =
     (case map_of (cm_clients m) issi of
        None \<Rightarrow> True
      | Some c \<Rightarrow>
          (case ee_cycle_frames (cl_energy_saving_mode c) of
             None \<Rightarrow> True
           | Some cycle_len \<Rightarrow>
               (case (cl_monitoring_frame c, cl_monitoring_multiframe c) of
                  (Some f, Some mf) \<Rightarrow> TdmaTime_in_ee_monitoring_window ts f mf cycle_len
                | _ \<Rightarrow> True)) \<or>
          (now - cl_last_registration_time c) div secs 1 \<ge> interval_secs + window_wait_secs)"

definition set_client_class_of_ms :: "u32 \<Rightarrow> ClassOfMs option \<Rightarrow> unit clients" where
  "set_client_class_of_ms issi class_of_ms = try_update_client (\<lambda>c. c\<lparr>cl_class_of_ms := class_of_ms\<rparr>) issi"

definition set_client_tei :: "u32 \<Rightarrow> u64 \<Rightarrow> unit clients" where
  "set_client_tei issi tei = try_update_client (\<lambda>c. c\<lparr>cl_tei := Some tei\<rparr>) issi"

definition set_client_handle :: "u32 \<Rightarrow> u32 \<Rightarrow> MmClientMgr \<Rightarrow> MmClientMgr" where
  "set_client_handle issi handle = update_client (\<lambda>c. c\<lparr>cl_last_handle := handle\<rparr>) issi"

section \<open>Registration and groups\<close>

definition try_register_client :: "nat \<Rightarrow> u32 \<Rightarrow> bool \<Rightarrow> bool clients" where
  "try_register_client now issi attached m =
     (if \<not> is_individual issi then Err (IssiInGroupRange issi)
      else Ok (True, m\<lparr>cm_clients := AList.update issi
             ((MmClientProperties_new now issi)\<lparr>cl_state := (if attached then Client_Attached else Client_Unknown)\<rparr>)
             (AList.delete issi (cm_clients m))\<rparr>))"

definition all_known_issis :: "MmClientMgr \<Rightarrow> u32 list" where
  "all_known_issis m = map fst (cm_clients m)"

definition ee_window :: "MmClientProperties \<Rightarrow> (u32 \<times> u8 \<times> u8 \<times> u8) option" where
  "ee_window c =
     (case (ee_cycle_frames (cl_energy_saving_mode c), cl_monitoring_frame c, cl_monitoring_multiframe c) of
        (Some cycle_len, Some frame, Some mframe) \<Rightarrow>
          if cycle_len < 2 \<or> \<not> (1 \<le> frame \<and> frame \<le> 18) \<or> \<not> (1 \<le> mframe \<and> mframe \<le> 60) then None
          else Some (cl_issi c, frame, mframe, cycle_len)
      | _ \<Rightarrow> None)"

definition mgr_ee_windows :: "MmClientMgr \<Rightarrow> (u32 \<times> u8 \<times> u8 \<times> u8) list" where
  "mgr_ee_windows m = List.map_filter ee_window (map snd (cm_clients m))"

definition snapshot_for_recovery :: "MmClientMgr \<Rightarrow> (u32 \<times> u32 list \<times> EnergySavingMode) list" where
  "snapshot_for_recovery m = map (\<lambda>(_, c). (cl_issi c, cl_groups c, cl_energy_saving_mode c)) (cm_clients m)"

definition restore_client :: "nat \<Rightarrow> u32 \<Rightarrow> u32 list \<Rightarrow> EnergySavingMode \<Rightarrow> MmClientMgr \<Rightarrow> MmClientMgr" where
  "restore_client now issi groups esm m =
     m\<lparr>cm_clients := AList.update issi
         ((MmClientProperties_new now issi)\<lparr>cl_state := Client_Detached, cl_energy_saving_mode := esm,
            cl_groups := fold List.insert groups []\<rparr>)
         (cm_clients m)\<rparr>"

definition client_detach_all_groups :: "u32 \<Rightarrow> bool clients" where
  "client_detach_all_groups issi = bind (try_update_client (\<lambda>c. c\<lparr>cl_groups := []\<rparr>) issi) (\<lambda>_. ret True)"

definition client_group_attach :: "u32 \<Rightarrow> u32 \<Rightarrow> bool \<Rightarrow> bool clients" where
  "client_group_attach issi gssi do_attach m =
     (if \<not> in_group_range gssi then Err (GssiInClientRange gssi)
      else if \<not> is_group gssi then Err (GroupNotFound gssi)
      else if \<not> may_attach issi gssi then Err (GroupNotFound gssi)
      else case map_of (cm_clients m) issi of
        None \<Rightarrow> Err (ClientNotFound issi)
      | Some c \<Rightarrow>
          if do_attach
          then Ok (gssi \<notin> set (cl_groups c), update_client (\<lambda>c. c\<lparr>cl_groups := List.insert gssi (cl_groups c)\<rparr>) issi m)
          else Ok (gssi \<in> set (cl_groups c), update_client (\<lambda>c. c\<lparr>cl_groups := removeAll gssi (cl_groups c)\<rparr>) issi m))"

section \<open>Invariant\<close>

definition client_ok :: "u32 \<Rightarrow> MmClientProperties \<Rightarrow> bool" where
  "client_ok i c \<longleftrightarrow> cl_issi c = i \<and> distinct (cl_groups c)"

definition cm_ok :: "MmClientMgr \<Rightarrow> bool" where
  "cm_ok m \<longleftrightarrow> distinct (map fst (cm_clients m)) \<and> (\<forall>i c. get_client_by_issi m i = Some c \<longrightarrow> client_ok i c)"

lemma cm_okI: "distinct (map fst (cm_clients m)) \<Longrightarrow> (\<And>i c. get_client_by_issi m i = Some c \<Longrightarrow> client_ok i c) \<Longrightarrow> cm_ok m"
  by (simp add: cm_ok_def)

lemma cm_okD: "cm_ok m \<Longrightarrow> get_client_by_issi m i = Some c \<Longrightarrow> cl_issi c = i \<and> distinct (cl_groups c)"
  by (simp add: cm_ok_def client_ok_def)

lemma cm_ok_new: "cm_ok (set_limits n r MmClientMgr_new)"
  by (simp add: cm_ok_def set_limits_def MmClientMgr_new_def get_client_by_issi_def)

lemma known_iff: "client_is_known m i \<longleftrightarrow> get_client_by_issi m i \<noteq> None"
  by (simp add: client_is_known_def get_client_by_issi_def)

section \<open>Operations on the map of clients\<close>

lemma get_update_client:
  "get_client_by_issi (update_client f i m) j = (if j = i then map_option f (get_client_by_issi m i) else get_client_by_issi m j)"
  by (auto simp: update_client_def get_client_by_issi_def update_conv' split: option.split)

lemma cm_ok_update_client:
  assumes "cm_ok m" and "\<And>c. client_ok i c \<Longrightarrow> client_ok i (f c)"
  shows "cm_ok (update_client f i m)"
proof (rule cm_okI)
  show "distinct (map fst (cm_clients (update_client f i m)))"
    using assms(1) by (auto simp: update_client_def cm_ok_def distinct_update split: option.split)
  show "client_ok j c" if "get_client_by_issi (update_client f i m) j = Some c" for j c
    using that assms by (auto simp: get_update_client cm_ok_def split: if_splits)
qed

lemma update_client_limits [simp]:
  "cm_max_clients (update_client f i m) = cm_max_clients m" "map fst (cm_clients (update_client f i m)) = map fst (cm_clients m)"
proof -
  show "map fst (cm_clients (update_client f i m)) = map fst (cm_clients m)"
  proof (cases "map_of (cm_clients m) i")
    case (Some c)
    then have "i \<in> fst ` set (cm_clients m)" by (metis domI dom_map_of_conv_image_fst)
    with Some show ?thesis by (simp add: update_client_def update_keys)
  qed (simp add: update_client_def)
qed (simp add: update_client_def split: option.split)

lemma client_count_update [simp]: "client_count (update_client f i m) = client_count m"
  using update_client_limits(2) [of f i m] by (metis client_count_def length_map)

lemma try_update_client_eq:
  "try_update_client f i m = (if client_is_known m i then Ok ((), update_client f i m) else Err (ClientNotFound i))"
  by (simp add: try_update_client_def)

text \<open>The setters keep the groups.\<close>

lemma setter_effect:
  assumes "\<And>c. cl_groups (f c) = cl_groups c"
  shows "map_option cl_groups (get_client_by_issi (update_client f i m) j) = map_option cl_groups (get_client_by_issi m j)"
  using assms by (cases "get_client_by_issi m i") (auto simp: get_update_client)

lemma get_remove_client:
  "get_client_by_issi (snd (remove_client i m)) j = (if j = i then None else get_client_by_issi m j)"
  "fst (remove_client i m) = get_client_by_issi m i"
  by (auto simp: remove_client_def get_client_by_issi_def delete_conv' split: option.split)

lemma cm_ok_remove_client: "cm_ok m \<Longrightarrow> cm_ok (snd (remove_client i m))"
  by (rule cm_okI, simp add: cm_ok_def remove_client_def distinct_delete split: option.split) (auto simp: get_remove_client cm_ok_def split: if_splits)

lemma get_try_register:
  "try_register_client now i a m = Ok (x, m') \<Longrightarrow>
   get_client_by_issi m' j =
     (if j = i then Some ((MmClientProperties_new now i)\<lparr>cl_state := (if a then Client_Attached else Client_Unknown)\<rparr>)
      else get_client_by_issi m j)"
  by (auto simp: try_register_client_def is_individual_def get_client_by_issi_def update_conv' delete_conv')

lemma cm_ok_try_register: "cm_ok m \<Longrightarrow> try_register_client now i a m = Ok (x, m') \<Longrightarrow> cm_ok m'"
proof (rule cm_okI)
  assume m: "cm_ok m" and m': "try_register_client now i a m = Ok (x, m')"
  show "distinct (map fst (cm_clients m'))"
    using m m' by (auto simp: try_register_client_def is_individual_def cm_ok_def intro!: distinct_update distinct_delete)
  show "client_ok j c" if "get_client_by_issi m' j = Some c" for j c
    using that m unfolding get_try_register [OF m'] by (auto simp: client_ok_def MmClientProperties_new_def cm_ok_def split: if_splits)
qed

lemma fold_insert_set: "set (fold List.insert xs ys) = set xs \<union> set ys" "distinct ys \<Longrightarrow> distinct (fold List.insert xs ys)"
  by (induction xs arbitrary: ys) auto

lemma get_restore_client:
  "get_client_by_issi (restore_client now i gs esm m) j =
     (if j = i then Some ((MmClientProperties_new now i)\<lparr>cl_state := Client_Detached, cl_energy_saving_mode := esm,
        cl_groups := fold List.insert gs []\<rparr>) else get_client_by_issi m j)"
  by (simp add: restore_client_def get_client_by_issi_def update_conv')

lemma cm_ok_restore_client: "cm_ok m \<Longrightarrow> cm_ok (restore_client now i gs esm m)"
proof (rule cm_okI)
  assume m: "cm_ok m"
  show "distinct (map fst (cm_clients (restore_client now i gs esm m)))"
    using m by (simp add: restore_client_def cm_ok_def distinct_update)
  show "client_ok j c" if "get_client_by_issi (restore_client now i gs esm m) j = Some c" for j c
    using that m by (auto simp: get_restore_client client_ok_def MmClientProperties_new_def cm_ok_def fold_insert_set split: if_splits)
qed

lemma client_group_attach_eq:
  "client_group_attach i g a m =
     (case get_client_by_issi m i of
        None \<Rightarrow> Err (ClientNotFound i)
      | Some c \<Rightarrow> Ok (if a then g \<notin> set (cl_groups c) else g \<in> set (cl_groups c),
          update_client (\<lambda>c. c\<lparr>cl_groups := (if a then List.insert g (cl_groups c) else removeAll g (cl_groups c))\<rparr>) i m))"
  by (simp add: client_group_attach_def in_group_range_def is_group_def may_attach_def get_client_by_issi_def split: option.split)

lemma client_detach_all_groups_eq:
  "client_detach_all_groups i m =
     (if client_is_known m i then Ok (True, update_client (\<lambda>c. c\<lparr>cl_groups := []\<rparr>) i m) else Err (ClientNotFound i))"
  by (simp add: client_detach_all_groups_def bind_def ret_def try_update_client_eq)

section \<open>Eviction\<close>

lemma evict_loop_prefix:
  "evict_loop target cs m = (ev, m') \<Longrightarrow>
   \<exists>k \<le> length cs. ev = map snd (take k cs) \<and> m' = fold (\<lambda>i m. snd (remove_client i m)) ev m \<and>
     (k = length cs \<or> length (cm_clients m') \<le> target)"
proof (induction cs arbitrary: m ev m')
  case (Cons c cs)
  show ?case
  proof (cases "length (cm_clients m) \<le> target")
    case True
    with Cons.prems show ?thesis by (auto intro!: exI [of _ 0])
  next
    case False
    obtain ev1 m1 where r: "evict_loop target cs (snd (remove_client (snd c) m)) = (ev1, m1)" by fastforce
    then have eq: "ev = snd c # ev1" "m' = m1" using Cons.prems False by simp_all
    from Cons.IH [OF r] obtain k where k: "k \<le> length cs" "ev1 = map snd (take k cs)"
      "m1 = fold (\<lambda>i m. snd (remove_client i m)) ev1 (snd (remove_client (snd c) m))"
      "k = length cs \<or> length (cm_clients m1) \<le> target" by blast
    have "Suc k \<le> length (c # cs) \<and> ev = map snd (take (Suc k) (c # cs)) \<and> m' = fold (\<lambda>i m. snd (remove_client i m)) ev m \<and>
      (Suc k = length (c # cs) \<or> length (cm_clients m') \<le> target)" using k eq by auto
    then show ?thesis by blast
  qed
qed simp

lemma get_fold_remove:
  "get_client_by_issi (fold (\<lambda>i m. snd (remove_client i m)) xs m) j = (if j \<in> set xs then None else get_client_by_issi m j)"
  by (induction xs arbitrary: m) (auto simp: get_remove_client)

lemma cm_ok_fold_remove: "cm_ok m \<Longrightarrow> cm_ok (fold (\<lambda>i m. snd (remove_client i m)) xs m)"
  by (induction xs arbitrary: m) (auto simp: cm_ok_remove_client)

lemma max_clients_fold_remove: "cm_max_clients (fold (\<lambda>i m. snd (remove_client i m)) xs m) = cm_max_clients m"
proof (induction xs arbitrary: m)
  case (Cons i xs)
  have "cm_max_clients (snd (remove_client i m)) = cm_max_clients m" by (simp add: remove_client_def split: option.split)
  with Cons show ?case by simp
qed simp

definition evict_candidates :: "u32 list \<Rightarrow> MmClientMgr \<Rightarrow> (nat \<times> u32) list" where
  "evict_candidates protect m = map (\<lambda>c. (cl_last_uplink_time c, cl_issi c)) (filter (evictable protect) (map snd (cm_clients m)))"

lemma evict_candidates_set:
  assumes "cm_ok m"
  shows "(t, i) \<in> set (evict_candidates protect m) \<longleftrightarrow>
     (\<exists>c. get_client_by_issi m i = Some c \<and> cl_last_uplink_time c = t \<and> cl_groups c = [] \<and> i \<notin> set protect)"
proof -
  have d: "distinct (map fst (cm_clients m))" using assms by (simp add: cm_ok_def)
  have "(\<exists>j. (j, c) \<in> set (cm_clients m) \<and> cl_issi c = i) \<longleftrightarrow> get_client_by_issi m i = Some c" for c
    using assms d cm_okD [OF assms] by (metis get_client_by_issi_def map_of_eq_Some_iff)
  then show ?thesis by (fastforce simp: evict_candidates_def evictable_def image_iff)
qed

lemma enforce_client_cap_prefix:
  assumes "enforce_client_cap protect m = (ev, m')"
  obtains k where "ev = map snd (take k (sort_key fst (evict_candidates protect m)))"
    and "m' = fold (\<lambda>i m. snd (remove_client i m)) ev m"
    and "\<not> at_capacity m' \<or> cm_max_clients m = 1 \<or> k = length (sort_key fst (evict_candidates protect m))"
proof -
  let ?cs = "sort_key fst (evict_candidates protect m)"
  let ?target = "max (cm_max_clients m - max (cm_max_clients m div 16) 1) 1"
  show thesis
  proof (cases "cm_max_clients m = 0 \<or> length (cm_clients m) < cm_max_clients m")
    case True
    then have "ev = []" "m' = m" using assms by (simp_all add: enforce_client_cap_def)
    moreover have "\<not> at_capacity m" using True by (auto simp: at_capacity_def)
    ultimately show thesis using that [of 0] by simp
  next
    case False
    then have "evict_loop ?target ?cs m = (ev, m')" using assms by (simp add: enforce_client_cap_def evict_candidates_def Let_def)
    from evict_loop_prefix [OF this] obtain k where k: "ev = map snd (take k ?cs)" "m' = fold (\<lambda>i m. snd (remove_client i m)) ev m"
      "k = length ?cs \<or> length (cm_clients m') \<le> ?target" by blast
    have "?target < cm_max_clients m \<or> cm_max_clients m = 1" using False by (auto simp: max_def)
    moreover have "cm_max_clients m' = cm_max_clients m" by (simp add: k(2) max_clients_fold_remove)
    ultimately have "\<not> at_capacity m' \<or> cm_max_clients m = 1 \<or> k = length ?cs" using k(3) by (auto simp: at_capacity_def)
    with k(1,2) show thesis by (rule that)
  qed
qed

text \<open>What an enforcement of the cap removes: a prefix of the candidates, least recently heard first, and enough of them. (A cap of one
  client is never enforced: the target is then one client, too.)\<close>

lemma enforce_client_cap_effect:
  assumes ok: "cm_ok m" and e: "enforce_client_cap protect m = (ev, m')"
  shows "cm_ok m'" and "cm_max_clients m' = cm_max_clients m"
    and "get_client_by_issi m' j = (if j \<in> set ev then None else get_client_by_issi m j)"
    and "i \<in> set ev \<Longrightarrow> \<exists>c. get_client_by_issi m i = Some c \<and> cl_groups c = [] \<and> i \<notin> set protect"
proof -
  from e obtain k where k: "ev = map snd (take k (sort_key fst (evict_candidates protect m)))"
    "m' = fold (\<lambda>i m. snd (remove_client i m)) ev m" by (rule enforce_client_cap_prefix)
  show "cm_ok m'" and "cm_max_clients m' = cm_max_clients m"
    and "get_client_by_issi m' j = (if j \<in> set ev then None else get_client_by_issi m j)"
    by (simp_all only: k(2) cm_ok_fold_remove [OF ok] max_clients_fold_remove get_fold_remove)
  assume "i \<in> set ev"
  then obtain t where "(t, i) \<in> set (take k (sort_key fst (evict_candidates protect m)))" unfolding k(1) by auto
  then have "(t, i) \<in> set (evict_candidates protect m)" by (auto dest: in_set_takeD)
  with evict_candidates_set [OF ok] show "\<exists>c. get_client_by_issi m i = Some c \<and> cl_groups c = [] \<and> i \<notin> set protect" by blast
qed

lemma enforce_client_cap_lru:
  assumes ok: "cm_ok m" and e: "enforce_client_cap protect m = (ev, m')"
    and i: "i \<in> set ev" "get_client_by_issi m i = Some c"
    and j: "get_client_by_issi m' j = Some d" "cl_groups d = []" "j \<notin> set protect"
  shows "cl_last_uplink_time c \<le> cl_last_uplink_time d"
proof -
  let ?cs = "sort_key fst (evict_candidates protect m)"
  from e obtain k where ev: "ev = map snd (take k ?cs)" by (rule enforce_client_cap_prefix)
  have "j \<notin> set ev" "get_client_by_issi m j = Some d"
    using j(1) enforce_client_cap_effect(3) [OF ok e, of j] by (auto split: if_splits)
  then have "(cl_last_uplink_time d, j) \<in> set ?cs" using j(2,3) evict_candidates_set [OF ok] by auto
  moreover have "(cl_last_uplink_time d, j) \<notin> set (take k ?cs)" using \<open>j \<notin> set ev\<close> unfolding ev by force
  ultimately have jd: "(cl_last_uplink_time d, j) \<in> set (drop k ?cs)"
    by (metis append_take_drop_id Un_iff set_append)
  from i(1) obtain t where t: "(t, i) \<in> set (take k ?cs)" unfolding ev by auto
  then have "(t, i) \<in> set (evict_candidates protect m)" by (auto dest: in_set_takeD)
  then have tc: "t = cl_last_uplink_time c" using i(2) evict_candidates_set [OF ok] by auto
  have "sorted (map fst (take k ?cs) @ map fst (drop k ?cs))" by (simp flip: map_append)
  then have "\<forall>x \<in> set (map fst (take k ?cs)). \<forall>y \<in> set (map fst (drop k ?cs)). x \<le> y" unfolding sorted_append by blast
  moreover have "t \<in> set (map fst (take k ?cs))" using t by force
  moreover have "cl_last_uplink_time d \<in> set (map fst (drop k ?cs))" using jd by force
  ultimately show ?thesis unfolding tc by blast
qed

lemma enforce_client_cap_full:
  assumes ok: "cm_ok m" and e: "enforce_client_cap protect m = (ev, m')"
    and "cm_max_clients m \<noteq> 1" and "at_capacity m'" and j: "get_client_by_issi m' j = Some d"
  shows "cl_groups d \<noteq> [] \<or> j \<in> set protect"
proof (rule ccontr)
  assume nc: "\<not> ?thesis"
  let ?cs = "sort_key fst (evict_candidates protect m)"
  from e obtain k where ev: "ev = map snd (take k ?cs)"
    and "\<not> at_capacity m' \<or> cm_max_clients m = 1 \<or> k = length ?cs" by (rule enforce_client_cap_prefix)
  with assms(3,4) have all: "set ev = snd ` set (evict_candidates protect m)" by simp
  have "j \<notin> set ev" "get_client_by_issi m j = Some d"
    using j enforce_client_cap_effect(3) [OF ok e, of j] by (auto split: if_splits)
  moreover from this nc have "(cl_last_uplink_time d, j) \<in> set (evict_candidates protect m)" using evict_candidates_set [OF ok] by auto
  ultimately show False unfolding all by force
qed

section \<open>Rate limit\<close>

text \<open>A sequence of registration attempts: the addresses and the times of those that are let through.\<close>

primrec rate_run :: "(nat \<times> u32) list \<Rightarrow> MmClientMgr \<Rightarrow> (nat \<times> u32) list" where
  "rate_run [] m = []"
| "rate_run (a # as) m =
     (case allow_registration (fst a) (snd a) m of (allowed, m') \<Rightarrow> (if allowed then [a] else []) @ rate_run as m')"

definition rate_entry :: "MmClientMgr \<Rightarrow> u32 \<Rightarrow> (nat \<times> u32) option" where
  "rate_entry m i = map_of (cm_registration_rate m) i"

definition rate_distinct :: "MmClientMgr \<Rightarrow> bool" where
  "rate_distinct m \<longleftrightarrow> distinct (map fst (cm_registration_rate m)) \<and>
     (\<forall>i st n. rate_entry m i = Some (st, n) \<longrightarrow> n \<le> cm_registrations_per_window m)"

text \<open>The entry that counts at a time: a lapsed one is a fresh one.\<close>

definition live_entry :: "nat \<Rightarrow> (nat \<times> u32) option \<Rightarrow> nat \<times> u32" where
  "live_entry now e = (case e of Some (st, n) \<Rightarrow> if now - st \<ge> REGISTRATION_RATE_WINDOW then (now, 0) else (st, n) | None \<Rightarrow> (now, 0))"

lemma window_pos [simp]: "0 < REGISTRATION_RATE_WINDOW" "REGISTRATION_RATE_WINDOW \<noteq> 0"
  by (simp_all add: REGISTRATION_RATE_WINDOW_def secs_def)

lemma unat_add_1: "n < m \<Longrightarrow> unat (n + 1) = unat n + 1" for n m :: "'a::len word"
proof -
  assume "n < m"
  moreover have "unat m < 2 ^ LENGTH('a)" by (rule unsigned_less)
  ultimately have "unat n + 1 < 2 ^ LENGTH('a)" unfolding word_less_nat_alt by linarith
  then show ?thesis by (simp add: unat_word_ariths)
qed

lemma distinct_filter_keys: "distinct (map fst xs) \<Longrightarrow> distinct (map fst (filter P xs))"
  by (induction xs) auto

lemma map_of_filter_keys:
  "distinct (map fst xs) \<Longrightarrow> map_of (filter P xs) k = (case map_of xs k of Some v \<Rightarrow> if P (k, v) then Some v else None | None \<Rightarrow> None)"
proof (induction xs)
  case (Cons x xs)
  then have "fst x \<notin> fst ` set xs" by simp
  then have "map_of xs (fst x) = None" by (simp add: map_of_eq_None_iff)
  with Cons show ?case by (cases x) (auto split: option.splits)
qed simp

lemma allow_registration_spec:
  assumes "rate_distinct m" and "cm_registrations_per_window m \<noteq> 0" and "allow_registration now i m = (allowed, m')"
    and "live_entry now (rate_entry m i) = (st, n)"
  shows "allowed \<longleftrightarrow> n < cm_registrations_per_window m" and "rate_entry m' i = Some (st, if allowed then n + 1 else n)"
    and "j \<noteq> i \<Longrightarrow> rate_entry m' j = rate_entry m j \<or> rate_entry m' j = None"
    and "j \<noteq> i \<Longrightarrow> rate_entry m j = Some (st', n') \<Longrightarrow> now - st' < REGISTRATION_RATE_WINDOW \<Longrightarrow> rate_entry m' j = rate_entry m j"
    and "rate_distinct m'" and "cm_registrations_per_window m' = cm_registrations_per_window m"
proof -
  let ?L = "cm_registrations_per_window m"
  define rates where "rates = (if length (cm_registration_rate m) \<ge> REGISTRATION_RATE_TABLE_CAP
    then filter (\<lambda>(_, start, _). now - start < REGISTRATION_RATE_WINDOW) (cm_registration_rate m) else cm_registration_rate m)"
  have d: "distinct (map fst (cm_registration_rate m))" and le: "\<And>i st n. rate_entry m i = Some (st, n) \<Longrightarrow> n \<le> ?L"
    using assms(1) by (auto simp: rate_distinct_def)
  have dr: "distinct (map fst rates)" using d by (simp add: rates_def distinct_filter_keys)
  have look: "map_of rates k = rate_entry m k \<or> map_of rates k = None \<and>
      (\<exists>st n. rate_entry m k = Some (st, n) \<and> \<not> now - st < REGISTRATION_RATE_WINDOW)" for k
    unfolding rates_def rate_entry_def by (simp add: map_of_filter_keys [OF d] split: option.split prod.split)
  let ?e = "case map_of rates i of Some e \<Rightarrow> e | None \<Rightarrow> (now, 0)"
  have e: "(if now - fst ?e \<ge> REGISTRATION_RATE_WINDOW then (now, 0) else ?e) = (st, n)"
    using look [of i]
  proof (elim disjE conjE exE)
    assume "map_of rates i = rate_entry m i"
    then show ?thesis using assms(4) by (cases "rate_entry m i") (auto simp: live_entry_def split: if_splits)
  next
    fix st' n' assume "map_of rates i = None" "rate_entry m i = Some (st', n')" "\<not> now - st' < REGISTRATION_RATE_WINDOW"
    then show ?thesis using assms(4) by (simp add: live_entry_def)
  qed
  have ar: "(allowed, m') = (if n \<ge> ?L then (False, m\<lparr>cm_registration_rate := AList.update i (st, n) rates\<rparr>)
      else (True, m\<lparr>cm_registration_rate := AList.update i (st, n + 1) rates\<rparr>))"
    using assms(3) unfolding allow_registration_def Let_def rates_def [symmetric] e
    by (simp only: assms(2) if_False fst_conv snd_conv)
  then have a: "allowed = (n < ?L)" "m' = m\<lparr>cm_registration_rate := AList.update i (st, if allowed then n + 1 else n) rates\<rparr>"
    by (cases "n \<ge> ?L"; simp)+
  show "allowed \<longleftrightarrow> n < ?L" by (rule a(1))
  have re: "rate_entry m' k = (if k = i then Some (st, if allowed then n + 1 else n) else map_of rates k)" for k
    by (simp add: a(2) rate_entry_def update_conv')
  then show "rate_entry m' i = Some (st, if allowed then n + 1 else n)" by simp
  show "rate_entry m' j = rate_entry m j \<or> rate_entry m' j = None" if "j \<noteq> i" for j using that re look [of j] by auto
  show "rate_entry m' j = rate_entry m j" if "j \<noteq> i" "rate_entry m j = Some (st', n')" "now - st' < REGISTRATION_RATE_WINDOW" for j st' n'
    using that re look [of j] by auto
  show L: "cm_registrations_per_window m' = ?L" by (simp add: a(2))
  have "n \<le> ?L" using assms(4) le by (auto simp: live_entry_def split: option.splits if_splits)
  then have new: "(if allowed then n + 1 else n) \<le> ?L" using a(1) by (simp add: inc_le)
  have "k \<le> ?L" if "rate_entry m' x = Some (y, k)" for x y k
  proof (cases "x = i")
    case False
    then have "rate_entry m x = Some (y, k)" using that re [of x] look [of x] by auto
    then show ?thesis by (rule le)
  qed (use that re [of x] new in auto)
  moreover have "distinct (map fst (cm_registration_rate m'))" using dr by (simp add: a(2) distinct_update)
  ultimately show "rate_distinct m'" unfolding rate_distinct_def L by blast
qed

lemma rate_run_subset: "set (rate_run as m) \<subseteq> set as"
  by (induction as arbitrary: m) (auto split: prod.splits)

definition in_window :: "u32 \<Rightarrow> nat \<Rightarrow> nat \<times> u32 \<Rightarrow> bool" where
  "in_window i t a \<longleftrightarrow> snd a = i \<and> t \<le> fst a \<and> fst a < t + REGISTRATION_RATE_WINDOW"

lemma rate_run_past: "\<forall>a \<in> set as. \<not> in_window i t a \<Longrightarrow> filter (in_window i t) (rate_run as m) = []"
  using rate_run_subset [of as m] by (auto simp: filter_empty_conv)

text \<open>After a restart of the window inside the interval, the limit bounds what is left of it; before, one more window may be used up.\<close>

lemma rate_run_same_window:
  assumes "sorted (map fst as)" and "rate_distinct m" and "cm_registrations_per_window m \<noteq> 0"
    and "rate_entry m i = Some (st, n)" and "t \<le> st"
  shows "length (filter (in_window i t) (rate_run as m)) \<le> unat (cm_registrations_per_window m) - unat n"
  using assms
proof (induction as arbitrary: m n)
  case (Cons a as)
  let ?L = "cm_registrations_per_window m"
  show ?case
  proof (cases "fst a < t + REGISTRATION_RATE_WINDOW")
    case True
    obtain allowed m' where r: "allow_registration (fst a) (snd a) m = (allowed, m')" by fastforce
    obtain st1 n1 where l: "live_entry (fst a) (rate_entry m (snd a)) = (st1, n1)" by fastforce
    note s = allow_registration_spec [OF Cons.prems(2,3) r l]
    have n: "n \<le> ?L" using Cons.prems(2,4) by (auto simp: rate_distinct_def)
    have live: "fst a - st < REGISTRATION_RATE_WINDOW"
      using True Cons.prems(5) window_pos(1) by linarith
    note IH = Cons.IH [of m', OF _ s(5) _ _ Cons.prems(5), unfolded s(6)]
    have so: "sorted (map fst as)" using Cons.prems(1) by simp
    show ?thesis
    proof (cases "snd a = i")
      case True
      then have "st1 = st" "n1 = n" using l live Cons.prems(4) by (simp_all add: live_entry_def)
      then show ?thesis
        using IH [OF so Cons.prems(3), of "if allowed then n + 1 else n"] s(2) r s(1) n True unat_add_1 [of n ?L]
        by (cases allowed) (auto simp: word_less_nat_alt)
    next
      case False
      then have "rate_entry m' i = Some (st, n)" using s(4) [of i, OF _ Cons.prems(4) live] Cons.prems(4) by auto
      with IH [OF so Cons.prems(3)] r False show ?thesis by (auto simp: in_window_def)
    qed
  next
    case False
    then have "\<forall>b \<in> set (a # as). \<not> in_window i t b" using Cons.prems(1) by (auto simp: in_window_def)
    then show ?thesis by (simp only: rate_run_past) simp
  qed
qed simp

lemma rate_run_any_window:
  assumes "sorted (map fst as)" and "rate_distinct m" and "cm_registrations_per_window m \<noteq> 0" and "\<forall>a \<in> set as. t \<le> fst a"
  shows "length (filter (in_window i t) (rate_run as m)) \<le> unat (cm_registrations_per_window m) +
     (case rate_entry m i of Some (_, n) \<Rightarrow> unat (cm_registrations_per_window m) - unat n | None \<Rightarrow> 0)"
  using assms
proof (induction as arbitrary: m)
  case (Cons a as)
  let ?L = "cm_registrations_per_window m"
  obtain allowed m' where r: "allow_registration (fst a) (snd a) m = (allowed, m')" by fastforce
  obtain st1 n1 where l: "live_entry (fst a) (rate_entry m (snd a)) = (st1, n1)" by fastforce
  note s = allow_registration_spec [OF Cons.prems(2,3) r l]
  have so: "sorted (map fst as)" and after: "\<forall>a \<in> set as. t \<le> fst a" using Cons.prems(1,4) by simp_all
  note IH = Cons.IH [of m', OF so s(5), unfolded s(6), OF Cons.prems(3) after]
  note A = rate_run_same_window [OF so s(5), unfolded s(6), OF Cons.prems(3) s(2), of t]
  have step: "filter (in_window i t) (rate_run (a # as) m) =
      (if allowed \<and> in_window i t a then [a] else []) @ filter (in_window i t) (rate_run as m')" using r by simp
  have pos: "0 < unat ?L" using Cons.prems(3) by (simp add: unat_gt_0)
  consider (other) "snd a \<noteq> i" | (past) "snd a = i" "\<not> in_window i t a"
    | (fresh) "snd a = i" "in_window i t a" "(st1, n1) = (fst a, 0)" | (old) "snd a = i" "rate_entry m i = Some (st1, n1)"
  proof (cases "rate_entry m i")
    case None
    then show thesis using l that by (cases "snd a = i") (auto simp: live_entry_def)
  next
    case (Some e)
    then show thesis using l that by (cases e; cases "snd a = i") (auto simp: live_entry_def split: if_splits)
  qed
  then show ?case
  proof cases
    case other
    then have "filter (in_window i t) (rate_run (a # as) m) = filter (in_window i t) (rate_run as m')"
      unfolding step by (simp add: in_window_def)
    moreover have "rate_entry m' i = rate_entry m i \<or> rate_entry m' i = None" using other by (intro s(3)) simp
    ultimately show ?thesis using IH by (elim disjE) simp_all
  next
    case past
    then have "\<forall>b \<in> set (a # as). \<not> in_window i t b" using Cons.prems(1,4) by (auto simp: in_window_def)
    then show ?thesis by (simp only: rate_run_past) simp
  next
    case fresh
    then have "length (filter (in_window i t) (rate_run as m')) \<le> unat ?L - unat (if allowed then n1 + 1 else n1)"
      using A by (auto simp: in_window_def)
    then have "length (filter (in_window i t) (rate_run (a # as) m)) \<le> unat ?L" using fresh(3) pos unfolding step by (cases allowed) auto
    then show ?thesis by (rule order_trans) simp
  next
    case old
    then have n: "n1 \<le> ?L" using Cons.prems(2) by (auto simp: rate_distinct_def)
    have "length (filter (in_window i t) (rate_run (a # as) m)) \<le> of_bool allowed + length (filter (in_window i t) (rate_run as m'))"
      unfolding step by simp
    also have "\<dots> \<le> of_bool allowed + (unat ?L + (unat ?L - unat (if allowed then n1 + 1 else n1)))"
      using IH s(2) old(1) by simp
    also have "\<dots> \<le> unat ?L + (unat ?L - unat n1)"
    proof (cases allowed)
      case True
      then have "n1 < ?L" using s(1) by simp
      then show ?thesis using True unat_add_1 [of n1 ?L] unfolding word_less_nat_alt by simp
    qed simp
    finally show ?thesis using old(2) by simp
  qed
qed simp

lemma rate_run_bound:
  assumes "sorted (map fst as)" and "rate_distinct m" and "cm_registrations_per_window m \<noteq> 0"
  shows "length (filter (in_window i t) (rate_run as m)) \<le> 2 * unat (cm_registrations_per_window m)"
  using assms
proof (induction as arbitrary: m)
  case (Cons a as)
  show ?case
  proof (cases "t \<le> fst a")
    case True
    then have "\<forall>b \<in> set (a # as). t \<le> fst b" using Cons.prems(1) by auto
    from rate_run_any_window [OF Cons.prems this, of i] show ?thesis
      by (rule order_trans) (simp split: option.split prod.split)
  next
    case False
    obtain allowed m' where r: "allow_registration (fst a) (snd a) m = (allowed, m')" by fastforce
    obtain st1 n1 where l: "live_entry (fst a) (rate_entry m (snd a)) = (st1, n1)" by fastforce
    note s = allow_registration_spec [OF Cons.prems(2,3) r l]
    show ?thesis using Cons.IH [of m'] s(5,6) Cons.prems(1,3) r False by (auto simp: in_window_def)
  qed
qed simp

end
