(* ===== verification/Mm_Entity.thy ===== *)
theory Mm_Entity
  imports Subscribers Mm_Clients Mm_Pdus_Ul Mm_Pdus_Dl Mm_Pdus_Misc Sap_Msgs
begin

text \<open>
  Mobility management of the base station (\<open>tetra-entities/src/mm/mm_bs.rs\<close>, \<open>mm/components/recovery_cache.rs\<close>,
  \<open>mm/components/not_supported.rs\<close>): location updates, detach, group attachment, energy saving, dynamic groups, periodic registration
  and restart recovery.

  The state of the entity holds its client registry and recovery state, the parts of the shared \<open>StackState\<close> that it reads and writes, and
  the queue of messages to its neighbours. A handler is a program that ends with a new state or panics. The clock is read once per handler.
  Log lines and the telemetry for the dashboard are left out. The contents of the recovery file and the success of a write to it are
  arguments.
\<close>

declare One_nat_def [simp del]

section \<open>State\<close>

record TerminalRecord =
  tr_issi :: u32
  tr_groups :: "u32 list"
  tr_dgna_groups :: "DgnaGroup list"
  tr_energy_saving_mode :: u8

record RecoveryCache =
  rc_dirty :: bool
  rc_last_flush :: nat
  rc_debounce :: nat

definition RecoveryCache_new :: "nat \<Rightarrow> nat \<Rightarrow> RecoveryCache" where
  "RecoveryCache_new now debounce = \<lparr>rc_dirty = False, rc_last_flush = now, rc_debounce = debounce\<rparr>"

definition mark_dirty :: "RecoveryCache \<Rightarrow> RecoveryCache" where
  "mark_dirty c = c\<lparr>rc_dirty := True\<rparr>"

text \<open>A failed write keeps the dirty flag, but moves the debounce timer.\<close>

definition flush_now :: "nat \<Rightarrow> bool \<Rightarrow> RecoveryCache \<Rightarrow> RecoveryCache" where
  "flush_now now written c = (if written then c\<lparr>rc_dirty := False, rc_last_flush := now\<rparr> else c\<lparr>rc_last_flush := now\<rparr>)"

definition flush_due :: "nat \<Rightarrow> RecoveryCache \<Rightarrow> bool" where
  "flush_due now c \<longleftrightarrow> rc_dirty c \<and> \<not> now - rc_last_flush c < rc_debounce c"

record MmBs =
  mm_config :: MmConfig
  mm_client_mgr :: MmClientMgr
  mm_recovery :: "RecoveryCache option"
  mm_recovery_pending :: "u32 list"
  mm_recovery_attempts :: "(u32 \<times> nat) list"
  mm_recovery_last_frame :: "int option"
  mm_reactive_recovery_cooldown :: "(u32 \<times> nat) list"
  mm_subscribers :: SubscriberRegistry
  mm_active_call_ts :: "u32 list"
  mm_issi_whitelist_override :: "u32 list option"
  mm_ee_monitoring_windows :: "(u32 \<times> u8 \<times> u8 \<times> u8) list"
  mm_queue :: "SapMsg list"

type_synonym 'a mm = "(MmBs, unit, 'a) prog"

definition REACTIVE_RECOVERY_COOLDOWN_CAP :: nat where
  "REACTIVE_RECOVERY_COOLDOWN_CAP = 4096"

definition MmBs_new :: "MmConfig \<Rightarrow> MmBs" where
  "MmBs_new c =
     \<lparr>mm_config = c,
      mm_client_mgr = set_limits (cs_max_registered_clients (cfg_security c)) (cs_registration_rate_limit_per_min (cfg_security c)) MmClientMgr_new,
      mm_recovery = None, mm_recovery_pending = [], mm_recovery_attempts = [], mm_recovery_last_frame = None,
      mm_reactive_recovery_cooldown = [], mm_subscribers = SubscriberRegistry_new, mm_active_call_ts = [],
      mm_issi_whitelist_override = None, mm_ee_monitoring_windows = [], mm_queue = []\<rparr>"

text \<open>Access to the parts of the state.\<close>

definition push :: "SapMsg \<Rightarrow> unit mm" where
  "push msg = upd (\<lambda>s. s\<lparr>mm_queue := mm_queue s @ [msg]\<rparr>)"

definition on_mgr :: "(MmClientMgr \<Rightarrow> MmClientMgr) \<Rightarrow> unit mm" where
  "on_mgr f = upd (\<lambda>s. s\<lparr>mm_client_mgr := f (mm_client_mgr s)\<rparr>)"

definition on_subs :: "(SubscriberRegistry \<Rightarrow> SubscriberRegistry) \<Rightarrow> unit mm" where
  "on_subs f = upd (\<lambda>s. s\<lparr>mm_subscribers := f (mm_subscribers s)\<rparr>)"

definition call_mgr :: "(MmClientMgr \<Rightarrow> 'a \<times> MmClientMgr) \<Rightarrow> 'a mm" where
  "call_mgr f s = (case f (mm_client_mgr s) of (x, m) \<Rightarrow> Ok (x, s\<lparr>mm_client_mgr := m\<rparr>))"

definition try_mgr :: "'a clients \<Rightarrow> (ClientMgrErr + 'a) mm" where
  "try_mgr p s =
     (case p (mm_client_mgr s) of
        Ok (x, m) \<Rightarrow> Ok (Inr x, s\<lparr>mm_client_mgr := m\<rparr>) | Err e \<Rightarrow> Ok (Inl e, s) | Panic \<Rightarrow> Panic)"

definition ignore :: "'a mm \<Rightarrow> unit mm" where
  "ignore m = bind m (\<lambda>_. ret ())"

definition client_groups :: "MmBs \<Rightarrow> u32 \<Rightarrow> u32 list" where
  "client_groups s issi = (case get_client_by_issi (mm_client_mgr s) issi of Some c \<Rightarrow> cl_groups c | None \<Rightarrow> [])"

text \<open>The PDU of a received SDU; one that cannot be parsed is dropped.\<close>

definition received :: "'p bb \<Rightarrow> LmmMleUnitdataInd \<Rightarrow> ('p \<Rightarrow> unit mm) \<Rightarrow> unit mm" where
  "received reader prim k s = (case reader (li_sdu prim) of Ok (pdu, _) \<Rightarrow> k pdu s | Err _ \<Rightarrow> Ok ((), s) | Panic \<Rightarrow> Panic)"

text \<open>Writing a PDU into a fresh buffer, unwrapping the result, and going back to its start.\<close>

definition to_sdu :: "nat \<Rightarrow> unit bb \<Rightarrow> bitbuffer mm" where
  "to_sdu len writer s = (case bind writer (\<lambda>_. seek 0) (new_autoexpand len) of Ok (_, b) \<Rightarrow> Ok (b, s) | _ \<Rightarrow> Panic)"

definition lmm_req :: "Layer2Service \<Rightarrow> TetraAddress \<Rightarrow> u32 \<Rightarrow> bitbuffer \<Rightarrow> SapMsg" where
  "lmm_req service address handle sdu =
     \<lparr>sm_sap = LmmSap, sm_src = Entity_Mm, sm_dest = Entity_Mle,
      sm_msg = Msg_LmmMleUnitdataReq
        \<lparr>lq_sdu = sdu, lq_handle = handle, lq_address = address, lq_layer2service = service, lq_stealing_permission = False,
         lq_stealing_repeats_flag = False, lq_encryption_flag = False, lq_is_null_pdu = False, lq_tx_reporter = None\<rparr>\<rparr>"

definition send_to :: "u32 \<Rightarrow> u32 \<Rightarrow> bitbuffer \<Rightarrow> unit mm" where
  "send_to issi handle sdu = push (lmm_req Layer2Acknowledged (TetraAddress_issi issi) handle sdu)"

definition control_msg :: "TetraEntity \<Rightarrow> SapMsgInner \<Rightarrow> SapMsg" where
  "control_msg dest m = \<lparr>sm_sap = Sap_Control, sm_src = Entity_Mm, sm_dest = dest, sm_msg = m\<rparr>"

section \<open>Downlink PDUs\<close>

definition send_d_location_update_command :: "u32 \<Rightarrow> u32 \<Rightarrow> unit mm" where
  "send_d_location_update_command issi handle =
     bind (to_sdu 16 (DLocationUpdateCommand_to_bitbuf
       \<lparr>DLocationUpdateCommand_group_identity_report = True, DLocationUpdateCommand_cipher_control = False,
        DLocationUpdateCommand_ciphering_parameters = None, DLocationUpdateCommand_address_extension = None,
        DLocationUpdateCommand_cell_type_control = None, DLocationUpdateCommand_proprietary = None\<rparr>))
     (send_to issi handle)"

definition send_d_location_update_reject_cause :: "u32 \<Rightarrow> u32 \<Rightarrow> LocationUpdateType \<Rightarrow> u64 option \<Rightarrow> RejectCause \<Rightarrow> unit mm" where
  "send_d_location_update_reject_cause issi handle location_update_type address_extension reject_cause =
     bind (to_sdu 16 (DLocationUpdateReject_to_bitbuf
       \<lparr>DLocationUpdateReject_location_update_type = location_update_type,
        DLocationUpdateReject_reject_cause = ucast (RejectCause_into_raw reject_cause), DLocationUpdateReject_cipher_control = False,
        DLocationUpdateReject_ciphering_parameters = None, DLocationUpdateReject_address_extension = address_extension,
        DLocationUpdateReject_cell_type_control = None, DLocationUpdateReject_proprietary = None\<rparr>))
     (send_to issi handle)"

definition send_d_location_update_reject_migration :: "u32 \<Rightarrow> u32 \<Rightarrow> LocationUpdateType \<Rightarrow> u64 option \<Rightarrow> unit mm" where
  "send_d_location_update_reject_migration issi handle location_update_type address_extension =
     send_d_location_update_reject_cause issi handle location_update_type address_extension RejectCause_MigrationNotSupported"

definition send_d_mm_status_energy_saving :: "u32 \<Rightarrow> u32 \<Rightarrow> EnergySavingInformation \<Rightarrow> unit mm" where
  "send_d_mm_status_energy_saving issi handle esi =
     bind (to_sdu 32 (DMmStatus_to_bitbuf
       \<lparr>DMmStatus_status_downlink = StatusDownlink_ChangeOfEnergySavingModeResponse, DMmStatus_energy_saving_information = Some esi\<rparr>))
     (send_to issi handle)"

definition attach_detach_ack :: "u8 \<Rightarrow> GroupIdentityDownlink list option \<Rightarrow> DAttachDetachGroupIdentityAcknowledgement" where
  "attach_detach_ack reject gid =
     \<lparr>DAttachDetachGroupIdentityAcknowledgement_group_identity_accept_reject = reject,
      DAttachDetachGroupIdentityAcknowledgement_reserved = False, DAttachDetachGroupIdentityAcknowledgement_proprietary = None,
      DAttachDetachGroupIdentityAcknowledgement_group_identity_downlink = gid,
      DAttachDetachGroupIdentityAcknowledgement_group_identity_security_related_information = None\<rparr>"

definition send_d_attach_detach_ack_reject :: "u32 \<Rightarrow> u32 \<Rightarrow> unit mm" where
  "send_d_attach_detach_ack_reject issi handle =
     bind (to_sdu 16 (DAttachDetachGroupIdentityAcknowledgement_to_bitbuf (attach_detach_ack 1 None))) (send_to issi handle)"

definition attached_gid :: "u8 \<Rightarrow> u32 \<Rightarrow> GroupIdentityDownlink" where
  "attached_gid class_of_usage gssi =
     \<lparr>GroupIdentityDownlink_group_identity_attachment =
        Some \<lparr>GroupIdentityAttachment_group_identity_attachment_lifetime = 0, GroupIdentityAttachment_class_of_usage = class_of_usage\<rparr>,
      GroupIdentityDownlink_group_identity_detachment_uplink = None, GroupIdentityDownlink_gssi = Some gssi,
      GroupIdentityDownlink_address_extension = None, GroupIdentityDownlink_vgssi = None\<rparr>"

definition detached_gid :: "u8 option \<Rightarrow> u32 \<Rightarrow> GroupIdentityDownlink" where
  "detached_gid detachment gssi =
     \<lparr>GroupIdentityDownlink_group_identity_attachment = None, GroupIdentityDownlink_group_identity_detachment_uplink = detachment,
      GroupIdentityDownlink_gssi = Some gssi, GroupIdentityDownlink_address_extension = None, GroupIdentityDownlink_vgssi = None\<rparr>"

text \<open>This one is not sent when the writer reports an error; a panic of the writer is not caught.\<close>

definition send_if_written :: "u32 \<Rightarrow> u32 \<Rightarrow> unit bb \<Rightarrow> unit mm" where
  "send_if_written issi handle writer s =
     (case bind writer (\<lambda>_. seek 0) (new_autoexpand 32) of
        Ok (_, sdu) \<Rightarrow> send_to issi handle sdu s | Err _ \<Rightarrow> Ok ((), s) | Panic \<Rightarrow> Panic)"

definition send_d_attach_detach_ack :: "u32 \<Rightarrow> u32 \<Rightarrow> u32 list \<Rightarrow> unit mm" where
  "send_d_attach_detach_ack issi handle groups =
     (let gid = map (attached_gid 4) groups
      in send_if_written issi handle
           (DAttachDetachGroupIdentityAcknowledgement_to_bitbuf (attach_detach_ack 0 (if gid = [] then None else Some gid))))"

definition DGNA_CLASS_OF_USAGE :: u8 where
  "DGNA_CLASS_OF_USAGE = 4"

definition send_d_attach_detach_group_identity :: "u32 \<Rightarrow> u32 \<Rightarrow> bool \<Rightarrow> unit mm" where
  "send_d_attach_detach_group_identity issi gssi attach =
     (let gid = (if attach then attached_gid DGNA_CLASS_OF_USAGE gssi else detached_gid (Some 0) gssi)
      in send_if_written issi 0 (DAttachDetachGroupIdentity_to_bitbuf
           \<lparr>DAttachDetachGroupIdentity_group_identity_report = False, DAttachDetachGroupIdentity_group_identity_acknowledgement_request = True,
            DAttachDetachGroupIdentity_group_identity_attach_detach_mode = False, DAttachDetachGroupIdentity_proprietary = None,
            DAttachDetachGroupIdentity_group_report_response = None, DAttachDetachGroupIdentity_group_identity_downlink = Some [gid],
            DAttachDetachGroupIdentity_group_identity_security_related_information = None\<rparr>))"

definition make_ul_mm_pdu_function_not_supported :: "u32 \<Rightarrow> MmPduTypeUl \<Rightarrow> (nat \<times> u64) option \<Rightarrow> TetraAddress \<Rightarrow> SapMsg mm" where
  "make_ul_mm_pdu_function_not_supported handle pdu_type pdu_subtype ssi =
     bind (to_sdu 14 (MmPduFunctionNotSupported_to_bitbuf
       \<lparr>MmPduFunctionNotSupported_not_supported_pdu_type = ucast (MmPduTypeUl_into_raw pdu_type),
        MmPduFunctionNotSupported_not_supported_sub_pdu_type = pdu_subtype\<rparr>))
     (\<lambda>sdu. ret (lmm_req Layer2Todo ssi handle sdu))"

section \<open>Updates for call control and the bridge, and gates\<close>

definition brew_should_send :: "MmConfig \<Rightarrow> u32 \<Rightarrow> u32 list \<Rightarrow> BrewSubscriberAction \<Rightarrow> bool" where
  "brew_should_send c issi brew_groups action =
     (case action of
        Action_Register \<Rightarrow> is_brew_issi_routable c issi | Action_Deregister \<Rightarrow> is_brew_issi_routable c issi
      | Action_Affiliate \<Rightarrow> brew_groups \<noteq> [] | Action_Deaffiliate \<Rightarrow> brew_groups \<noteq> [])"

definition update_msg :: "TetraEntity \<Rightarrow> u32 \<Rightarrow> u32 list \<Rightarrow> BrewSubscriberAction \<Rightarrow> SapMsg" where
  "update_msg dest issi groups action = control_msg dest (Msg_MmSubscriberUpdate \<lparr>su_issi = issi, su_groups = groups, su_action = action\<rparr>)"

definition emit_subscriber_update :: "u32 \<Rightarrow> u32 list \<Rightarrow> BrewSubscriberAction \<Rightarrow> unit mm" where
  "emit_subscriber_update issi groups action =
     bind (gets mm_config) (\<lambda>c. seq
       [if brew_is_active c then
          (let brew_groups = filter (is_brew_gssi_routable c) groups
           in if brew_should_send c issi brew_groups action then push (update_msg Entity_Brew issi brew_groups action) else ret ())
        else ret (),
        push (update_msg Entity_Cmce issi groups action)])"

definition issi_allowed :: "MmBs \<Rightarrow> u32 \<Rightarrow> bool" where
  "issi_allowed s issi = allows (cfg_security (mm_config s)) issi (mm_issi_whitelist_override s)"

definition teardown_authorized :: "MmBs \<Rightarrow> u32 \<Rightarrow> u32 \<Rightarrow> bool" where
  "teardown_authorized s issi handle =
     (if \<not> cs_honour_unauthenticated_detach (cfg_security (mm_config s)) then False
      else if \<not> is_registered_on_handle (mm_client_mgr s) issi handle then False
      else True)"

definition call_protected_issis :: "MmBs \<Rightarrow> u32 list" where
  "call_protected_issis s = mm_active_call_ts s"

section \<open>Restart recovery\<close>

definition recovery_mark_dirty :: "unit mm" where
  "recovery_mark_dirty = upd (\<lambda>s. s\<lparr>mm_recovery := map_option mark_dirty (mm_recovery s)\<rparr>)"

definition recovery_confirm :: "u32 \<Rightarrow> unit mm" where
  "recovery_confirm issi = upd (\<lambda>s.
     let s = s\<lparr>mm_reactive_recovery_cooldown := AList.delete issi (mm_reactive_recovery_cooldown s)\<rparr>
     in if mm_recovery s = None then s
        else s\<lparr>mm_recovery_attempts := AList.delete issi (mm_recovery_attempts s),
               mm_recovery_pending := filter (\<lambda>i. i \<noteq> issi) (mm_recovery_pending s)\<rparr>)"

text \<open>The groups of a terminal that a restored record may put back into the registry of dynamic groups.\<close>

definition dgna_attachment_mode_valid :: "u8 \<Rightarrow> bool" where
  "dgna_attachment_mode_valid mode \<longleftrightarrow> mode \<le> 5"

definition restorable_group :: "DgnaGroup \<Rightarrow> bool" where
  "restorable_group g \<longleftrightarrow> \<not> (dg_gssi g = 0 \<or> dg_gssi g > 0xFFFFFF) \<and> dgna_attachment_mode_valid (dg_attachment_mode g)"

definition restore_record :: "nat \<Rightarrow> TerminalRecord \<Rightarrow> MmBs \<Rightarrow> MmBs" where
  "restore_record now r s =
     (let rec_cfg = cfg_recovery (mm_config s);
          whitelisted = is_issi_allowed (cfg_security (mm_config s)) (tr_issi r);
          in_allowlist = (cr_issi_allowlist rec_cfg = [] \<or> tr_issi r \<in> set (cr_issi_allowlist rec_cfg))
      in if \<not> whitelisted \<or> \<not> in_allowlist then s
         else
           let esm = (case EnergySavingMode_try_from (ucast (tr_energy_saving_mode r)) of Some m \<Rightarrow> m | None \<Rightarrow> EnergySavingMode_StayAlive)
           in s\<lparr>mm_client_mgr := restore_client now (tr_issi r) (tr_groups r) esm (mm_client_mgr s),
                mm_subscribers := fold (\<lambda>g. remember_dgna_group (tr_issi r) (dg_gssi g) (dg_mnemonic g) (dg_attachment_mode g))
                  (filter restorable_group (tr_dgna_groups r)) (mm_subscribers s),
                mm_recovery_pending := mm_recovery_pending s @ [tr_issi r],
                mm_recovery_attempts := AList.update (tr_issi r) 0 (mm_recovery_attempts s)\<rparr>)"

definition init_recovery :: "nat \<Rightarrow> TerminalRecord list \<Rightarrow> MmBs \<Rightarrow> MmBs" where
  "init_recovery now records s =
     (let rec_cfg = cfg_recovery (mm_config s)
      in (fold (restore_record now) (take (cr_max_cached_issis rec_cfg) records) s)
           \<lparr>mm_recovery := Some (RecoveryCache_new now (secs (cr_debounce_secs rec_cfg)))\<rparr>)"

text \<open>One turn of the replay queue.\<close>

definition replay_one :: "unit mm" where
  "replay_one = bind (gets mm_recovery_pending) (\<lambda>pending.
     case pending of
       [] \<Rightarrow> ret ()
     | issi # rest \<Rightarrow>
         bind (upd (\<lambda>s. s\<lparr>mm_recovery_pending := rest\<rparr>)) (\<lambda>_.
         bind (gets (\<lambda>s. map_of (mm_recovery_attempts s) issi)) (\<lambda>attempts.
         bind (gets (\<lambda>s. cr_max_replay_attempts (cfg_recovery (mm_config s)))) (\<lambda>limit.
         case attempts of
           None \<Rightarrow> ret ()
         | Some n \<Rightarrow>
             if n \<ge> limit then upd (\<lambda>s. s\<lparr>mm_recovery_attempts := AList.delete issi (mm_recovery_attempts s)\<rparr>)
             else seq
               [send_d_location_update_command issi 0,
                upd (\<lambda>s. s\<lparr>mm_recovery_attempts := AList.update issi (n + 1) (mm_recovery_attempts s),
                           mm_recovery_pending := mm_recovery_pending s @ [issi]\<rparr>)]))))"

definition drive_recovery_replay :: "TdmaTime \<Rightarrow> unit mm" where
  "drive_recovery_replay ts = bind (gets id) (\<lambda>s.
     let frame = TdmaTime_to_int ts div 4
     in if mm_recovery s = None \<or> mm_recovery_pending s = [] then ret ()
        else if mm_recovery_last_frame s = Some frame then ret ()
        else
          let budget = min (cr_replay_per_frame (cfg_recovery (mm_config s))) (length (mm_recovery_pending s))
          in seq (upd (\<lambda>s. s\<lparr>mm_recovery_last_frame := Some frame\<rparr>) # replicate budget replay_one))"

definition recovery_records :: "MmBs \<Rightarrow> TerminalRecord list" where
  "recovery_records s =
     map (\<lambda>(issi, groups, esm). \<lparr>tr_issi = issi, tr_groups = groups, tr_dgna_groups = dgna_groups_of (mm_subscribers s) issi,
            tr_energy_saving_mode = ucast (EnergySavingMode_into_raw esm)\<rparr>)
       (snapshot_for_recovery (mm_client_mgr s))"

text \<open>The records that a due flush writes.\<close>

definition recovery_maybe_flush :: "nat \<Rightarrow> bool \<Rightarrow> TerminalRecord list option mm" where
  "recovery_maybe_flush now written = bind (gets id) (\<lambda>s.
     case mm_recovery s of
       None \<Rightarrow> ret None
     | Some cache \<Rightarrow>
         if \<not> flush_due now cache then ret None
         else bind (upd (\<lambda>s. s\<lparr>mm_recovery := Some (flush_now now written cache)\<rparr>)) (\<lambda>_. ret (Some (recovery_records s))))"

definition maybe_reactive_recovery :: "nat \<Rightarrow> u32 \<Rightarrow> unit mm" where
  "maybe_reactive_recovery now issi = bind (gets id) (\<lambda>s.
     let rec_cfg = cfg_recovery (mm_config s);
         permitted = (is_issi_allowed (cfg_security (mm_config s)) issi \<and>
                      (cr_issi_allowlist rec_cfg = [] \<or> issi \<in> set (cr_issi_allowlist rec_cfg)));
         cooldown = secs (cr_reactive_cooldown_secs rec_cfg);
         table = mm_reactive_recovery_cooldown s
     in if client_is_known (mm_client_mgr s) issi then ret ()
        else if map_of (mm_recovery_attempts s) issi \<noteq> None then ret ()
        else if \<not> cr_reactive_enabled rec_cfg then ret ()
        else if \<not> permitted then ret ()
        else if (case map_of table issi of Some last_time \<Rightarrow> now - last_time < cooldown | None \<Rightarrow> False) then ret ()
        else seq
          [upd (\<lambda>s. s\<lparr>mm_reactive_recovery_cooldown := AList.update issi now
             (if length table \<ge> REACTIVE_RECOVERY_COOLDOWN_CAP then filter (\<lambda>(_, t). now - t < cooldown) table else table)\<rparr>),
           send_d_location_update_command issi 0])"

section \<open>Detach\<close>

definition feature_check_u_itsi_detach :: "UItsiDetach \<Rightarrow> bool" where
  "feature_check_u_itsi_detach pdu = True"

text \<open>Removing a terminal and telling its neighbours, as a detach and a migration do.\<close>

definition release_client :: "u32 \<Rightarrow> unit mm" where
  "release_client ssi = bind (call_mgr (remove_client ssi)) (\<lambda>detached_client.
     case detached_client of
       Some client \<Rightarrow> seq
         [on_subs (sr_deregister ssi),
          if cl_groups client \<noteq> [] then emit_subscriber_update ssi (cl_groups client) Action_Deaffiliate else ret (),
          emit_subscriber_update ssi [] Action_Deregister]
     | None \<Rightarrow> ret ())"

definition rx_u_itsi_detach :: "LmmMleUnitdataInd \<Rightarrow> unit mm" where
  "rx_u_itsi_detach prim = received UItsiDetach_from_bitbuf prim (\<lambda>pdu.
     if \<not> feature_check_u_itsi_detach pdu then ret ()
     else
       let ssi = ta_ssi (li_received_address prim)
       in bind (gets id) (\<lambda>s.
            if \<not> issi_allowed s ssi then ret ()
            else if \<not> teardown_authorized s ssi (li_handle prim) then ret ()
            else seq [release_client ssi, recovery_mark_dirty]))"

section \<open>Groups\<close>

text \<open>One element of a group report: the accepted element, and the group if the attachment changed.\<close>

definition attach_detach_group :: "u32 \<Rightarrow> GroupIdentityUplink \<Rightarrow> (GroupIdentityDownlink option \<times> u32 option \<times> u32 option) mm" where
  "attach_detach_group issi giu =
     (case GroupIdentityUplink_gssi giu of
        None \<Rightarrow> ret (None, None, None)
      | Some gssi \<Rightarrow>
          if GroupIdentityUplink_vgssi giu \<noteq> None \<or> GroupIdentityUplink_address_extension giu \<noteq> None then ret (None, None, None)
          else if GroupIdentityUplink_group_identity_detachment_uplink giu \<noteq> None
          then bind (try_mgr (client_group_attach issi gssi False)) (\<lambda>r.
            case r of
              Inr changed \<Rightarrow>
                bind (if changed then on_subs (sr_deaffiliate issi gssi) else ret ()) (\<lambda>_.
                ret (Some (detached_gid (GroupIdentityUplink_group_identity_detachment_uplink giu) gssi), None, if changed then Some gssi else None))
            | Inl e \<Rightarrow> ret (None, None, None))
          else bind (try_mgr (client_group_attach issi gssi True)) (\<lambda>r.
            case r of
              Inr changed \<Rightarrow>
                bind (if changed then on_subs (sr_affiliate issi gssi) else ret ()) (\<lambda>_.
                ret (Some (attached_gid (case GroupIdentityUplink_class_of_usage giu of Some u \<Rightarrow> u | None \<Rightarrow> 0) gssi),
                     if changed then Some gssi else None, None))
            | Inl e \<Rightarrow> ret (None, None, None)))"

primrec attach_detach_loop :: "u32 \<Rightarrow> GroupIdentityUplink list \<Rightarrow> (GroupIdentityDownlink list \<times> u32 list \<times> u32 list) mm" where
  "attach_detach_loop issi [] = ret ([], [], [])"
| "attach_detach_loop issi (giu # gius) =
     bind (attach_detach_group issi giu) (\<lambda>(gid, aff, deaff).
     bind (attach_detach_loop issi gius) (\<lambda>(gids, affs, deaffs).
     ret (case_option [] (\<lambda>g. [g]) gid @ gids, case_option [] (\<lambda>g. [g]) aff @ affs, case_option [] (\<lambda>g. [g]) deaff @ deaffs)))"

definition try_attach_detach_groups :: "u32 \<Rightarrow> GroupIdentityUplink list \<Rightarrow> GroupIdentityDownlink list mm" where
  "try_attach_detach_groups issi giu_vec =
     bind (attach_detach_loop issi giu_vec) (\<lambda>(accepted_groups, aff_groups, deaff_groups).
     bind (if aff_groups \<noteq> [] then emit_subscriber_update issi aff_groups Action_Affiliate else ret ()) (\<lambda>_.
     bind (if deaff_groups \<noteq> [] then emit_subscriber_update issi deaff_groups Action_Deaffiliate else ret ()) (\<lambda>_.
     ret accepted_groups)))"

text \<open>Detaching all groups before a report that replaces them; whether the client was found.\<close>

definition detach_all_first :: "u32 \<Rightarrow> bool mm" where
  "detach_all_first issi =
     bind (gets (\<lambda>s. client_groups s issi)) (\<lambda>prior_groups.
     bind (try_mgr (client_detach_all_groups issi)) (\<lambda>r.
     case r of
       Inl e \<Rightarrow> ret False
     | Inr _ \<Rightarrow>
         bind (if prior_groups \<noteq> [] then seq
                 [on_subs (fold (sr_deaffiliate issi) prior_groups), emit_subscriber_update issi prior_groups Action_Deaffiliate]
               else ret ()) (\<lambda>_. ret True)))"

definition MAX_GROUPS_PER_ATTACH :: nat where
  "MAX_GROUPS_PER_ATTACH = 12"

definition feature_check_u_attach_detach_group_identity :: "UAttachDetachGroupIdentity \<Rightarrow> bool" where
  "feature_check_u_attach_detach_group_identity pdu \<longleftrightarrow> UAttachDetachGroupIdentity_group_identity_uplink pdu \<noteq> None"

text \<open>The first part of a request in replacement mode: an unknown terminal is registered, the groups of a known one are detached. Whether
  the handler goes on.\<close>

definition replace_groups_first :: "nat \<Rightarrow> u32 \<Rightarrow> u32 \<Rightarrow> bool mm" where
  "replace_groups_first now issi handle = bind (gets (\<lambda>s. client_is_known (mm_client_mgr s) issi)) (\<lambda>known.
     if \<not> known
     then bind (try_mgr (try_register_client now issi True)) (\<lambda>r.
       case r of
         Inr _ \<Rightarrow> bind (seq [on_subs (sr_register issi), emit_subscriber_update issi [] Action_Register]) (\<lambda>_. ret True)
       | Inl e \<Rightarrow> bind (send_d_attach_detach_ack_reject issi handle) (\<lambda>_. ret False))
     else detach_all_first issi)"

definition rx_u_attach_detach_group_identity :: "nat \<Rightarrow> LmmMleUnitdataInd \<Rightarrow> unit mm" where
  "rx_u_attach_detach_group_identity now prim = received UAttachDetachGroupIdentity_from_bitbuf prim (\<lambda>pdu.
     let issi = ta_ssi (li_received_address prim)
     in bind (gets id) (\<lambda>s.
        if \<not> issi_allowed s issi then send_d_attach_detach_ack_reject issi (li_handle prim)
        else if \<not> feature_check_u_attach_detach_group_identity pdu
        then send_d_attach_detach_ack issi (li_handle prim) (client_groups s issi)
        else bind (if UAttachDetachGroupIdentity_group_identity_attach_detach_mode pdu
                   then replace_groups_first now issi (li_handle prim) else ret True) (\<lambda>go_on.
          if \<not> go_on then ret ()
          else case UAttachDetachGroupIdentity_group_identity_uplink pdu of
            None \<Rightarrow> ret ()
          | Some giu \<Rightarrow>
              bind (try_attach_detach_groups issi (take MAX_GROUPS_PER_ATTACH giu)) (\<lambda>accepted_gid.
              bind recovery_mark_dirty (\<lambda>_.
              bind (to_sdu 32 (DAttachDetachGroupIdentityAcknowledgement_to_bitbuf (attach_detach_ack 0 (Some accepted_gid))))
                (send_to issi (li_handle prim)))))))"

text \<open>The acknowledgement of a terminal to a group change is only reported to the dashboard.\<close>

definition rx_u_attach_detach_group_identity_ack :: "LmmMleUnitdataInd \<Rightarrow> unit mm" where
  "rx_u_attach_detach_group_identity_ack prim = received UAttachDetachGroupIdentityAcknowledgement_from_bitbuf prim (\<lambda>pdu. ret ())"

definition do_dgna :: "u32 \<Rightarrow> u32 \<Rightarrow> string option \<Rightarrow> u8 \<Rightarrow> bool \<Rightarrow> bool mm" where
  "do_dgna issi gssi mnemonic attachment_mode attach = bind (gets id) (\<lambda>s.
     let is_dynamic = has_dgna_group (mm_subscribers s) issi gssi;
         is_attached = gssi \<in> set (attached_groups_of (mm_subscribers s) issi);
         route_gssi_hint = (if \<not> attach \<and> is_attached then Some gssi else None)
     in if gssi = 0 \<or> gssi > 0xFFFFFF then ret False
        else if \<not> client_is_known (mm_client_mgr s) issi then ret False
        else if attach \<and> \<not> dgna_attachment_mode_valid attachment_mode then ret False
        else if \<not> attach \<and> \<not> is_dynamic \<and> \<not> is_attached then ret False
        else bind (try_mgr (client_group_attach issi gssi attach)) (\<lambda>r.
          case r of
            Inl e \<Rightarrow> ret False
          | Inr changed \<Rightarrow>
              bind (if attach then seq
                      [on_subs (remember_dgna_group issi gssi mnemonic attachment_mode), on_subs (sr_affiliate issi gssi),
                       emit_subscriber_update issi [gssi] Action_Affiliate]
                    else seq
                      [on_subs (sr_deaffiliate issi gssi),
                       if is_dynamic then on_subs (\<lambda>r. snd (forget_dgna_group issi gssi r)) else ret (),
                       emit_subscriber_update issi [gssi] Action_Deaffiliate]) (\<lambda>_.
              bind (if cfg_dgna_use_ss_facility (mm_config s)
                    then push (control_msg Entity_Cmce (Msg_CmceSsDgnaAssign issi gssi mnemonic attachment_mode route_gssi_hint attach))
                    else send_d_attach_detach_group_identity issi gssi attach) (\<lambda>_.
              bind recovery_mark_dirty (\<lambda>_. ret True)))))"

section \<open>Location update\<close>

definition grant_energy_saving :: "u32 \<Rightarrow> EnergySavingMode \<Rightarrow> EnergySavingInformation" where
  "grant_energy_saving issi requested =
     (let granted = (case requested of
            EnergySavingMode_StayAlive \<Rightarrow> EnergySavingMode_StayAlive | EnergySavingMode_Eg1 \<Rightarrow> EnergySavingMode_Eg1
          | EnergySavingMode_Eg2 \<Rightarrow> EnergySavingMode_Eg2 | EnergySavingMode_Eg3 \<Rightarrow> EnergySavingMode_Eg3 | _ \<Rightarrow> EnergySavingMode_Eg3);
          window = (case ee_cycle_frames granted of
            None \<Rightarrow> (None, None)
          | Some cycle_len \<Rightarrow>
              let phase = (ucast (issi mod ucast cycle_len) :: u8) in (Some (phase mod 18 + 1), Some (phase div 18 + 1)))
      in \<lparr>EnergySavingInformation_energy_saving_mode = granted, EnergySavingInformation_frame_number = fst window,
          EnergySavingInformation_multiframe_number = snd window\<rparr>)"

definition feature_check_u_location_update_demand :: "ULocationUpdateDemand \<Rightarrow> bool" where
  "feature_check_u_location_update_demand pdu \<longleftrightarrow>
     \<not> (ULocationUpdateDemand_location_update_type pdu = LocationUpdateType_MigratingLocationUpdating \<or>
        ULocationUpdateDemand_location_update_type pdu = LocationUpdateType_DisabledMsUpdating) \<and>
     \<not> ULocationUpdateDemand_request_to_append_la pdu \<and> \<not> ULocationUpdateDemand_cipher_control pdu \<and>
     ULocationUpdateDemand_ciphering_parameters pdu = None"

text \<open>Making room for a new terminal; whether the registry is still full.\<close>

definition make_room :: "u32 \<Rightarrow> bool mm" where
  "make_room issi = bind (gets id) (\<lambda>s.
     if client_is_known (mm_client_mgr s) issi then ret False
     else bind (call_mgr (enforce_client_cap (call_protected_issis s))) (\<lambda>evicted_issis.
          bind (seq (map (\<lambda>evicted. seq [on_subs (sr_deregister evicted), emit_subscriber_update evicted [] Action_Deregister]) evicted_issis)) (\<lambda>_.
          gets (\<lambda>s. at_capacity (mm_client_mgr s)))))"

text \<open>Entering a terminal into the registries, or refreshing it; whether that succeeded.\<close>

definition enter_client :: "nat \<Rightarrow> u32 \<Rightarrow> bool \<Rightarrow> bool mm" where
  "enter_client now issi is_new =
     (if is_new
      then bind (try_mgr (try_register_client now issi True)) (\<lambda>r.
        case r of Inr _ \<Rightarrow> bind (on_subs (sr_register issi)) (\<lambda>_. ret True) | Inl e \<Rightarrow> ret False)
      else bind (try_mgr (set_client_state issi Client_Attached)) (\<lambda>r. ret (\<not> isl r)))"

definition process_group_demand :: "u32 \<Rightarrow> GroupIdentityLocationDemand option \<Rightarrow> GroupIdentityLocationAccept option mm" where
  "process_group_demand issi demand =
     (case demand of
        None \<Rightarrow> ret None
      | Some gild \<Rightarrow>
          bind (if GroupIdentityLocationDemand_group_identity_attach_detach_mode gild = 1 then ignore (detach_all_first issi) else ret ()) (\<lambda>_.
          bind (case GroupIdentityLocationDemand_group_identity_uplink gild of
                  Some giu \<Rightarrow> bind (try_attach_detach_groups issi giu) (\<lambda>gs. ret (Some gs)) | None \<Rightarrow> ret None) (\<lambda>accepted_groups.
          ret (Some \<lparr>GroupIdentityLocationAccept_group_identity_accept_reject = 0,
                     GroupIdentityLocationAccept_group_identity_downlink = accepted_groups\<rparr>))))"

definition coverage_return :: "u32 \<Rightarrow> unit mm" where
  "coverage_return issi = bind (gets (\<lambda>s. client_groups s issi)) (\<lambda>stored_groups.
     if stored_groups \<noteq> [] then seq
       [on_subs (fold (sr_affiliate issi) stored_groups), emit_subscriber_update issi stored_groups Action_Affiliate]
     else ret ())"

definition scch_info :: "ULocationUpdateDemand \<Rightarrow> u64 option" where
  "scch_info pdu = Option.bind (ULocationUpdateDemand_class_of_ms pdu)
     (\<lambda>c. if ClassOfMs_clch_needed c \<or> ClassOfMs_common_scch c then Some 1 else None)"

definition accept_type :: "MmConfig \<Rightarrow> LocationUpdateType \<Rightarrow> LocationUpdateType" where
  "accept_type c t =
     (if cfg_periodic_registration_secs c > 0 \<and> t \<noteq> LocationUpdateType_ItsiAttach then LocationUpdateType_PeriodicLocationUpdating else t)"

definition location_update_accept ::
  "MmConfig \<Rightarrow> u32 \<Rightarrow> ULocationUpdateDemand \<Rightarrow> EnergySavingInformation option \<Rightarrow> GroupIdentityLocationAccept option \<Rightarrow> DLocationUpdateAccept" where
  "location_update_accept c issi pdu esi gila =
     \<lparr>DLocationUpdateAccept_location_update_accept_type = accept_type c (ULocationUpdateDemand_location_update_type pdu),
      DLocationUpdateAccept_ssi = Some (ucast issi), DLocationUpdateAccept_address_extension = None,
      DLocationUpdateAccept_subscriber_class = None, DLocationUpdateAccept_energy_saving_information = esi,
      DLocationUpdateAccept_scch_information_and_distribution_on_18th_frame = scch_info pdu,
      DLocationUpdateAccept_new_registered_area = None, DLocationUpdateAccept_security_downlink = None,
      DLocationUpdateAccept_group_identity_location_accept = gila, DLocationUpdateAccept_default_group_attachment_lifetime = None,
      DLocationUpdateAccept_authentication_downlink = None, DLocationUpdateAccept_group_identity_security_related_information = None,
      DLocationUpdateAccept_cell_type_control = None, DLocationUpdateAccept_proprietary = None\<rparr>"

definition send_location_update_accept ::
  "u32 \<Rightarrow> u32 \<Rightarrow> ULocationUpdateDemand \<Rightarrow> EnergySavingInformation option \<Rightarrow> GroupIdentityLocationAccept option \<Rightarrow> unit mm" where
  "send_location_update_accept issi handle pdu esi gila = bind (gets mm_config) (\<lambda>c.
     bind (to_sdu (4 + 3 + 24 + 1 + 1 + 1) (DLocationUpdateAccept_to_bitbuf (location_update_accept c issi pdu esi gila))) (send_to issi handle))"

text \<open>What follows once the terminal is in the registries.\<close>

definition complete_registration ::
  "nat \<Rightarrow> u32 \<Rightarrow> u32 \<Rightarrow> ULocationUpdateDemand \<Rightarrow> EnergySavingInformation option \<Rightarrow> bool \<Rightarrow> bool \<Rightarrow> unit mm" where
  "complete_registration now issi handle pdu esi is_new was_dropped =
     (let is_itsi_attach = (ULocationUpdateDemand_location_update_type pdu = LocationUpdateType_ItsiAttach);
          needs_brew_register = (is_new \<or> \<not> is_new \<and> is_itsi_attach \<or> was_dropped);
          has_groups = (ULocationUpdateDemand_group_identity_location_demand pdu \<noteq> None);
          esm = (case esi of Some e \<Rightarrow> EnergySavingInformation_energy_saving_mode e | None \<Rightarrow> EnergySavingMode_StayAlive)
      in bind (if needs_brew_register then emit_subscriber_update issi [] Action_Register else ret ()) (\<lambda>_.
         bind (on_mgr (set_client_handle issi handle)) (\<lambda>_.
         bind (ignore (try_mgr (set_client_energy_saving_mode issi esm))) (\<lambda>_.
         bind (ignore (try_mgr (set_client_monitoring_window issi (Option.bind esi EnergySavingInformation_frame_number)
           (Option.bind esi EnergySavingInformation_multiframe_number)))) (\<lambda>_.
         bind (process_group_demand issi (ULocationUpdateDemand_group_identity_location_demand pdu)) (\<lambda>gila.
         bind (if \<not> is_new \<and> \<not> has_groups then coverage_return issi else ret ()) (\<lambda>_.
         bind (ignore (try_mgr (set_client_class_of_ms issi (ULocationUpdateDemand_class_of_ms pdu)))) (\<lambda>_.
         bind (on_mgr (reset_registration_timer now issi)) (\<lambda>_.
         bind recovery_mark_dirty (\<lambda>_.
         bind (send_location_update_accept issi handle pdu esi gila) (\<lambda>_.
         if is_new \<and> \<not> is_itsi_attach \<and> \<not> has_groups then send_d_location_update_command issi handle else ret ())))))))))))"

text \<open>The registration itself, once the gates are passed.\<close>

definition register_location :: "nat \<Rightarrow> u32 \<Rightarrow> u32 \<Rightarrow> ULocationUpdateDemand \<Rightarrow> EnergySavingInformation option \<Rightarrow> unit mm" where
  "register_location now issi handle pdu esi =
     bind (gets (\<lambda>s. \<not> client_is_known (mm_client_mgr s) issi)) (\<lambda>is_new.
     bind (gets (\<lambda>s. \<not> is_new \<and> \<not> is_registered (mm_subscribers s) issi)) (\<lambda>was_dropped.
     bind (if \<not> is_new then on_mgr (reset_registration_timer now issi) else ret ()) (\<lambda>_.
     bind (enter_client now issi is_new) (\<lambda>entered.
     if \<not> entered then ret ()
     else
       bind (if was_dropped then on_subs (sr_register issi) else ret ()) (\<lambda>_.
       complete_registration now issi handle pdu esi is_new was_dropped)))))"

definition rx_u_location_update_demand :: "nat \<Rightarrow> LmmMleUnitdataInd \<Rightarrow> unit mm" where
  "rx_u_location_update_demand now prim = received ULocationUpdateDemand_from_bitbuf prim (\<lambda>pdu.
     let issi = ta_ssi (li_received_address prim);
         handle = li_handle prim;
         location_update_type = ULocationUpdateDemand_location_update_type pdu;
         address_extension = ULocationUpdateDemand_address_extension pdu
     in bind (gets (\<lambda>s. issi_allowed s issi)) (\<lambda>allowed.
        if \<not> allowed
        then send_d_location_update_reject_cause issi handle location_update_type address_extension RejectCause_ItsiAtsiUnknown
        else bind (recovery_confirm issi) (\<lambda>_.
          if location_update_type = LocationUpdateType_MigratingLocationUpdating \<or>
             location_update_type = LocationUpdateType_ServiceRestorationMigratingLocationUpdating
          then bind (gets (\<lambda>s. teardown_authorized s issi handle)) (\<lambda>authorized.
            bind (if authorized then seq [release_client issi, recovery_mark_dirty] else ret ()) (\<lambda>_.
            send_d_location_update_reject_migration issi handle location_update_type address_extension))
          else bind (call_mgr (allow_registration now issi)) (\<lambda>in_limit.
            if \<not> in_limit then ret ()
            else if \<not> feature_check_u_location_update_demand pdu then ret ()
            else bind (gets (\<lambda>s. map_option cl_energy_saving_mode (get_client_by_issi (mm_client_mgr s) issi))) (\<lambda>prior_esm.
              let request = (case ULocationUpdateDemand_energy_saving_mode pdu of Some m \<Rightarrow> Some m | None \<Rightarrow> prior_esm);
                  esi = map_option (grant_energy_saving issi) request
              in bind (make_room issi) (\<lambda>full.
                 if full
                 then send_d_location_update_reject_cause issi handle location_update_type address_extension RejectCause_Congestion
                 else seq [recovery_confirm issi, register_location now issi handle pdu esi]))))))"

section \<open>Status, equipment identity\<close>

definition requested_esm :: "UMmStatus \<Rightarrow> EnergySavingMode" where
  "requested_esm pdu =
     (case UMmStatus_status_uplink_dependent_information pdu of
        Some dep_info \<Rightarrow>
          let dep_len = (case UMmStatus_status_uplink_dependent_information_len pdu of Some n \<Rightarrow> n | None \<Rightarrow> 0)
          in if dep_len \<ge> 3
             then (case EnergySavingMode_try_from (drop_bit (dep_len - 3) dep_info) of Some m \<Rightarrow> m | None \<Rightarrow> EnergySavingMode_StayAlive)
             else EnergySavingMode_StayAlive
      | None \<Rightarrow> EnergySavingMode_StayAlive)"

definition rx_u_mm_status :: "LmmMleUnitdataInd \<Rightarrow> unit mm" where
  "rx_u_mm_status prim = received UMmStatus_from_bitbuf prim (\<lambda>pdu.
     let issi = ta_ssi (li_received_address prim);
         handle = li_handle prim
     in if UMmStatus_status_uplink pdu = StatusUplink_ChangeOfEnergySavingModeRequest
        then (let esi = grant_energy_saving issi (requested_esm pdu) in seq
          [ignore (try_mgr (set_client_energy_saving_mode issi (EnergySavingInformation_energy_saving_mode esi))),
           ignore (try_mgr (set_client_monitoring_window issi (EnergySavingInformation_frame_number esi) (EnergySavingInformation_multiframe_number esi))),
           recovery_mark_dirty,
           send_d_mm_status_energy_saving issi handle esi])
        else if UMmStatus_status_uplink pdu = StatusUplink_ChangeOfEnergySavingModeResponse
        then seq [ignore (try_mgr (set_client_energy_saving_mode issi (requested_esm pdu))), recovery_mark_dirty]
        else bind (make_ul_mm_pdu_function_not_supported handle MmPduTypeUl_UMmStatus
               (Some (6, StatusUplink_into_raw (UMmStatus_status_uplink pdu))) (li_received_address prim)) push)"

definition rx_u_tei_provide :: "LmmMleUnitdataInd \<Rightarrow> unit mm" where
  "rx_u_tei_provide prim = received UTeiProvide_from_bitbuf prim (\<lambda>pdu.
     ignore (try_mgr (set_client_tei (ta_ssi (li_received_address prim)) (UTeiProvide_tei pdu))))"

section \<open>Dispatch\<close>

definition rx_lmm_mle_unitdata_ind :: "nat \<Rightarrow> LmmMleUnitdataInd \<Rightarrow> unit mm" where
  "rx_lmm_mle_unitdata_ind now prim s =
     (case peek_bits 4 (li_sdu prim) of
        Ok (Some bits, _) \<Rightarrow>
          (case MmPduTypeUl_try_from bits of
             None \<Rightarrow> Ok ((), s)
           | Some pdu_type \<Rightarrow>
               (case pdu_type of
                  MmPduTypeUl_UItsiDetach \<Rightarrow> rx_u_itsi_detach prim s
                | MmPduTypeUl_ULocationUpdateDemand \<Rightarrow> rx_u_location_update_demand now prim s
                | MmPduTypeUl_UMmStatus \<Rightarrow> rx_u_mm_status prim s
                | MmPduTypeUl_UAttachDetachGroupIdentity \<Rightarrow> rx_u_attach_detach_group_identity now prim s
                | MmPduTypeUl_UAttachDetachGroupIdentityAcknowledgement \<Rightarrow> rx_u_attach_detach_group_identity_ack prim s
                | MmPduTypeUl_UTeiProvide \<Rightarrow> rx_u_tei_provide prim s
                | _ \<Rightarrow> Ok ((), s)))
      | Ok (None, _) \<Rightarrow> Ok ((), s)
      | _ \<Rightarrow> Panic)"

definition rx_brew_reconnected :: "unit mm" where
  "rx_brew_reconnected = bind (gets (\<lambda>s. all_known_issis (mm_client_mgr s))) (\<lambda>issis.
     seq (map (\<lambda>issi. send_d_location_update_command issi 0) issis))"

text \<open>A request of call control to deregister a terminal.\<close>

definition kick :: "u32 \<Rightarrow> unit mm" where
  "kick issi = bind (send_d_location_update_command issi 0) (\<lambda>_.
     bind (gets (\<lambda>s. client_groups s issi)) (\<lambda>groups. seq
       [if groups \<noteq> [] then emit_subscriber_update issi groups Action_Deaffiliate else ret (),
        emit_subscriber_update issi [] Action_Deregister,
        ignore (call_mgr (remove_client issi)),
        on_subs (sr_deregister issi),
        recovery_mark_dirty]))"

definition mm_rx_prim :: "nat \<Rightarrow> SapMsg \<Rightarrow> unit mm" where
  "mm_rx_prim now message =
     (case sm_sap message of
        LmmSap \<Rightarrow> (case sm_msg message of Msg_LmmMleUnitdataInd prim \<Rightarrow> rx_lmm_mle_unitdata_ind now prim | _ \<Rightarrow> ret ())
      | Sap_Control \<Rightarrow>
          (case sm_msg message of
             Msg_BrewReconnected \<Rightarrow> rx_brew_reconnected
           | Msg_MsRssiUpdate issi rssi_dbfs \<Rightarrow> seq
               [on_mgr (update_client_rssi now issi rssi_dbfs), maybe_reactive_recovery now issi,
                push (control_msg Entity_Brew (Msg_MsRssiUpdate issi rssi_dbfs))]
           | Msg_MmSubscriberUpdate update \<Rightarrow> if su_action update = Action_Deregister then kick (su_issi update) else ret ()
           | Msg_MmDgnaRequest issi gssi mnemonic attachment_mode attach \<Rightarrow> ignore (do_dgna issi gssi mnemonic attachment_mode attach)
           | _ \<Rightarrow> ret ())
      | _ \<Rightarrow> ret ())"

section \<open>Tick\<close>

definition T351_EE_WINDOW_WAIT_SECS :: nat where
  "T351_EE_WINDOW_WAIT_SECS = 6"

text \<open>The second expiry: a terminal that did not answer the command within the grace period.\<close>

definition second_expiry :: "nat \<Rightarrow> nat \<Rightarrow> u32 \<Rightarrow> unit mm" where
  "second_expiry now interval_secs issi =
     bind (send_d_location_update_command issi 0) (\<lambda>_.
     bind (gets (\<lambda>s. is_registered (mm_subscribers s) issi \<and> \<not> heard_on_air_within now (mm_client_mgr s) issi (secs interval_secs))) (\<lambda>gone.
     bind (if gone then
             bind (gets (\<lambda>s. client_groups s issi)) (\<lambda>groups. seq
               [if groups \<noteq> [] then emit_subscriber_update issi groups Action_Deaffiliate else ret (),
                emit_subscriber_update issi [] Action_Deregister,
                on_subs (sr_deregister issi)])
           else ret ()) (\<lambda>_.
     bind (gets (\<lambda>s. client_groups s issi \<noteq> [])) (\<lambda>has_groups.
     bind (gets (\<lambda>s. issi \<in> set (mm_active_call_ts s))) (\<lambda>in_call.
     if \<not> has_groups \<and> \<not> in_call
     then seq [ignore (call_mgr (remove_client issi)), on_subs (sr_deregister issi), recovery_mark_dirty]
     else seq [on_mgr (reset_registration_timer now issi), recovery_mark_dirty])))))"

definition expire_registration :: "nat \<Rightarrow> TdmaTime \<Rightarrow> nat \<Rightarrow> u32 \<Rightarrow> unit mm" where
  "expire_registration now ts interval_secs issi = bind (gets id) (\<lambda>s.
     if map_of (mm_recovery_attempts s) issi \<noteq> None then ret ()
     else if is_pending_command (mm_client_mgr s) issi then second_expiry now interval_secs issi
     else if should_send_t351_command_now now (mm_client_mgr s) issi ts interval_secs T351_EE_WINDOW_WAIT_SECS
     then seq [send_d_location_update_command issi 0, on_mgr (set_pending_command now issi 60)]
     else ret ())"

definition publish_monitoring_windows :: "unit mm" where
  "publish_monitoring_windows = upd (\<lambda>s. s\<lparr>mm_ee_monitoring_windows := mgr_ee_windows (mm_client_mgr s)\<rparr>)"

text \<open>The control commands that were received: requests for dynamic groups, and others, which are ignored.\<close>

datatype ControlCommand = Control_Dgna u32 u32 "string option" u8 bool | Control_other

definition run_control :: "ControlCommand \<Rightarrow> unit mm" where
  "run_control cmd =
     (case cmd of
        Control_Dgna issi gssi mnemonic attachment_mode attach \<Rightarrow> ignore (do_dgna issi gssi mnemonic attachment_mode attach)
      | Control_other \<Rightarrow> ret ())"

definition mm_tick_start :: "nat \<Rightarrow> bool \<Rightarrow> ControlCommand list \<Rightarrow> TdmaTime \<Rightarrow> unit mm" where
  "mm_tick_start now written cmds ts =
     bind (seq (map run_control cmds)) (\<lambda>_.
     bind (gets (\<lambda>s. cfg_periodic_registration_secs (mm_config s))) (\<lambda>interval_secs.
     bind (gets (\<lambda>s. collect_expired_registrations now (mm_client_mgr s) interval_secs)) (\<lambda>expired. seq
       [seq (map (expire_registration now ts interval_secs) expired),
        drive_recovery_replay ts,
        ignore (recovery_maybe_flush now written),
        publish_monitoring_windows])))"

definition mm_set_config :: "MmConfig \<Rightarrow> unit mm" where
  "mm_set_config c = upd (\<lambda>s. s\<lparr>mm_config := c,
     mm_client_mgr := set_limits (cs_max_registered_clients (cfg_security c)) (cs_registration_rate_limit_per_min (cfg_security c)) (mm_client_mgr s)\<rparr>)"

end
