(* ===== verification/Mm_Invariant.thy ===== *)
theory Mm_Invariant
  imports Mm_Entity
begin

text \<open>
  The client registry of mobility management and the subscriber registry it shares with call control, side by side: every registered
  subscriber is a known client, and every affiliation of a subscriber is a group of its client. Each pair of updates that the handlers make
  keeps this, so every handler does, and the registries are coherent in every state that the entity reaches, whatever the terminals, the
  call control, the bridge and the operator send it.
\<close>

declare One_nat_def [simp del]

section \<open>Coherence of the two registries\<close>

definition groups_of :: "MmClientMgr \<Rightarrow> u32 \<Rightarrow> u32 set" where
  "groups_of m i = (case get_client_by_issi m i of Some c \<Rightarrow> set (cl_groups c) | None \<Rightarrow> {})"

definition coherent :: "MmClientMgr \<Rightarrow> SubscriberRegistry \<Rightarrow> bool" where
  "coherent m r \<longleftrightarrow> cm_ok m \<and> sr_inv r \<and> (\<forall>i. is_registered r i \<longrightarrow> client_is_known m i) \<and>
     (\<forall>i g. (i, g) \<in> affiliations r \<longrightarrow> g \<in> groups_of m i)"

lemma coherentI:
  "cm_ok m \<Longrightarrow> sr_inv r \<Longrightarrow> (\<And>i. is_registered r i \<Longrightarrow> client_is_known m i) \<Longrightarrow> (\<And>i g. (i, g) \<in> affiliations r \<Longrightarrow> g \<in> groups_of m i) \<Longrightarrow>
   coherent m r"
  by (simp add: coherent_def)

lemma coherent_new: "coherent (set_limits n k MmClientMgr_new) SubscriberRegistry_new"
  using sr_inv_new cm_ok_new [of n k]
  by (simp add: coherent_def is_registered_def affiliations_def attached_groups_of_def SubscriberRegistry_new_def)

lemma groups_of_update:
  "groups_of (update_client f i m) j =
     (if j = i then (case get_client_by_issi m i of Some c \<Rightarrow> set (cl_groups (f c)) | None \<Rightarrow> {}) else groups_of m j)"
  by (simp add: groups_of_def get_update_client split: option.split)

lemma known_update [simp]: "client_is_known (update_client f i m) j = client_is_known m j"
  by (simp add: known_iff get_update_client)

lemma known_groups: "g \<in> groups_of m i \<Longrightarrow> client_is_known m i"
  by (auto simp: groups_of_def known_iff split: option.splits)

text \<open>A change of one client that keeps its address and its groups.\<close>

lemma coherent_setter:
  assumes "coherent m r" and "\<And>c. cl_issi (f c) = cl_issi c" "\<And>c. cl_groups (f c) = cl_groups c"
  shows "coherent (update_client f i m) r"
proof (rule coherentI)
  show "cm_ok (update_client f i m)" using assms by (intro cm_ok_update_client) (auto simp: coherent_def client_ok_def)
  have "groups_of (update_client f i m) j = groups_of m j" for j
    unfolding groups_of_update by (auto simp: assms(3) groups_of_def split: option.split)
  then show "g \<in> groups_of (update_client f i m) j" if "(j, g) \<in> affiliations r" for j g
    using that assms(1) by (simp add: coherent_def)
qed (use assms(1) in \<open>auto simp: coherent_def\<close>)

text \<open>Changes that concern neither the clients nor the affiliations.\<close>

lemma coherent_same:
  assumes "coherent m r" and "cm_clients m' = cm_clients m"
  shows "coherent m' r"
proof -
  have "get_client_by_issi m' i = get_client_by_issi m i" for i using assms(2) by (simp add: get_client_by_issi_def)
  with assms show ?thesis by (simp add: coherent_def cm_ok_def known_iff groups_of_def)
qed

lemma allow_registration_clients: "cm_clients (snd (allow_registration now i m)) = cm_clients m"
  by (simp add: allow_registration_def Let_def)

lemma coherent_drop: "coherent m r \<Longrightarrow> coherent (snd (remove_client i m)) (sr_deregister i r)"
  by (rule coherentI)
    (auto simp: coherent_def cm_ok_remove_client sr_deregister_spec known_iff groups_of_def get_remove_client)

lemma coherent_deregister: "coherent m r \<Longrightarrow> coherent m (sr_deregister i r)"
  by (auto simp: coherent_def sr_deregister_spec)

lemma coherent_register: "coherent m r \<Longrightarrow> client_is_known m i \<Longrightarrow> coherent m (sr_register i r)"
  by (auto simp: coherent_def sr_register_spec)

lemma coherent_enter:
  assumes "coherent m r" and m': "try_register_client now i a m = Ok (x, m')"
  shows "coherent m' (sr_register i r)"
proof (rule coherentI)
  show "client_is_known m' j" if "is_registered (sr_register i r) j" for j
    using that assms(1) by (auto simp: coherent_def known_iff get_try_register [OF m'] sr_register_spec split: if_splits)
  show "g \<in> groups_of m' j" if "(j, g) \<in> affiliations (sr_register i r)" for j g
    using that assms(1) by (auto simp: coherent_def groups_of_def get_try_register [OF m'] sr_register_spec)
qed (use assms cm_ok_try_register [OF _ m'] in \<open>auto simp: coherent_def sr_register_spec\<close>)

lemma coherent_detach_all:
  assumes "coherent m r" and "client_is_known m i" and "groups_of m i \<subseteq> set gs"
  shows "coherent (update_client (\<lambda>c. c\<lparr>cl_groups := []\<rparr>) i m) (fold (sr_deaffiliate i) gs r)"
proof (rule coherentI)
  have r: "sr_inv r" using assms(1) by (simp add: coherent_def)
  note d = subscribers.deaffiliate_all [OF r, of i gs]
  show "cm_ok (update_client (\<lambda>c. c\<lparr>cl_groups := []\<rparr>) i m)"
    using assms(1) by (intro cm_ok_update_client) (auto simp: coherent_def client_ok_def)
  show "client_is_known (update_client (\<lambda>c. c\<lparr>cl_groups := []\<rparr>) i m) j" if "is_registered (fold (sr_deaffiliate i) gs r) j" for j
    using that assms d [of j] by (auto simp: coherent_def)
  show "g \<in> groups_of (update_client (\<lambda>c. c\<lparr>cl_groups := []\<rparr>) i m) j" if "(j, g) \<in> affiliations (fold (sr_deaffiliate i) gs r)" for j g
  proof (cases "j = i")
    case True
    then have "(i, g) \<in> affiliations r" "g \<notin> set gs" using that d [of j] by auto
    then have False using assms(1,3) unfolding coherent_def by blast
    then show ?thesis ..
  qed (use that assms(1) d in \<open>auto simp: coherent_def groups_of_update\<close>)
qed (use subscribers.deaffiliate_all [of r i gs] assms(1) in \<open>simp add: coherent_def\<close>)

abbreviation attach_client :: "u32 \<Rightarrow> u32 \<Rightarrow> MmClientMgr \<Rightarrow> MmClientMgr" where
  "attach_client i g \<equiv> update_client (\<lambda>c. c\<lparr>cl_groups := List.insert g (cl_groups c)\<rparr>) i"

abbreviation detach_client :: "u32 \<Rightarrow> u32 \<Rightarrow> MmClientMgr \<Rightarrow> MmClientMgr" where
  "detach_client i g \<equiv> update_client (\<lambda>c. c\<lparr>cl_groups := removeAll g (cl_groups c)\<rparr>) i"

lemma groups_of_attach:
  "groups_of (attach_client i g m) j = (if j = i \<and> client_is_known m i then insert g (groups_of m i) else groups_of m j)"
  "groups_of (detach_client i g m) j = (if j = i then groups_of m i - {g} else groups_of m j)"
  unfolding groups_of_update by (auto simp: groups_of_def known_iff split: option.split)

lemma cm_ok_attach: "cm_ok m \<Longrightarrow> cm_ok (attach_client i g m)" "cm_ok m \<Longrightarrow> cm_ok (detach_client i g m)"
  by (auto intro!: cm_ok_update_client simp: client_ok_def distinct_removeAll)

lemma coherent_attach:
  assumes "coherent m r" and "client_is_known m i"
  shows "coherent (attach_client i g m) r" and "coherent (attach_client i g m) (sr_affiliate i g r)"
  using assms by (auto simp: coherent_def groups_of_attach cm_ok_attach sr_affiliate_spec)

lemma coherent_detach:
  assumes "coherent m r" and "client_is_known m i"
  shows "g \<notin> groups_of m i \<Longrightarrow> coherent (detach_client i g m) r" and "coherent (detach_client i g m) (sr_deaffiliate i g r)"
  using assms by (auto simp: coherent_def groups_of_attach cm_ok_attach sr_deaffiliate_spec)

lemma coherent_affiliate_all:
  assumes "coherent m r" and "set gs \<subseteq> groups_of m i"
  shows "coherent m (fold (sr_affiliate i) gs r)"
proof (rule coherentI)
  have r: "sr_inv r" using assms(1) by (simp add: coherent_def)
  note d = subscribers.affiliate_all [OF r, of i gs]
  show "client_is_known m j" if "is_registered (fold (sr_affiliate i) gs r) j" for j
    using that assms d [of j] known_groups [of _ m i] by (cases gs) (auto simp: coherent_def)
  show "g \<in> groups_of m j" if "(j, g) \<in> affiliations (fold (sr_affiliate i) gs r)" for j g
    using that assms d [of j] by (auto simp: coherent_def)
qed (use subscribers.affiliate_all [of r i gs] assms(1) in \<open>auto simp: coherent_def\<close>)

lemma coherent_evict:
  assumes "coherent m r" and e: "enforce_client_cap protect m = (ev, m')"
  shows "coherent m' (fold sr_deregister ev r)"
proof -
  have ok: "cm_ok m" and r: "sr_inv r" using assms(1) by (auto simp: coherent_def)
  note d = subscribers.deregister_all [OF r, of ev] and c = enforce_client_cap_effect [OF ok e]
  show ?thesis
  proof (rule coherentI)
    show "client_is_known m' j" if "is_registered (fold sr_deregister ev r) j" for j
      using that assms(1) d [of j] by (auto simp: coherent_def known_iff c(3))
    show "g \<in> groups_of m' j" if "(j, g) \<in> affiliations (fold sr_deregister ev r)" for j g
      using that assms(1) d [of j] by (auto simp: coherent_def groups_of_def c(3))
  qed (use c(1) d in auto)
qed

lemma coherent_dgna [simp]:
  "coherent m (remember_dgna_group i g n a r) = coherent m r" "coherent m (snd (forget_dgna_group i g r)) = coherent m r"
  by (simp_all add: coherent_def)

section \<open>Programs\<close>

definition mm_inv :: "MmBs \<Rightarrow> bool" where
  "mm_inv s \<longleftrightarrow> coherent (mm_client_mgr s) (mm_subscribers s)"

text \<open>What holds after a program, if it ends.\<close>

definition wlp :: "'a mm \<Rightarrow> ('a \<Rightarrow> MmBs \<Rightarrow> bool) \<Rightarrow> MmBs \<Rightarrow> bool" where
  "wlp m Q s \<longleftrightarrow> (\<forall>x s'. m s = Ok (x, s') \<longrightarrow> Q x s')"

named_theorems wlp_simps \<open>the weakest liberal preconditions of the basic programs\<close>

lemma wlp_mono: "wlp m P s \<Longrightarrow> (\<And>x s'. P x s' \<Longrightarrow> Q x s') \<Longrightarrow> wlp m Q s"
  by (auto simp: wlp_def)

lemma wlp_bind [wlp_simps]: "wlp (bind m f) Q = wlp m (\<lambda>x. wlp (f x) Q)"
  by (auto simp: wlp_def bind_def fun_eq_iff split: outcome.splits prod.splits)

lemma wlp_basic [wlp_simps]:
  "wlp (ret x) Q = Q x" "wlp (upd f) Q' = (\<lambda>s. Q' () (f s))" "wlp (gets g) Q'' = (\<lambda>s. Q'' (g s) s)"
  by (auto simp: wlp_def ret_def upd_def gets_def fun_eq_iff)

lemma wlp_parts [wlp_simps]:
  "wlp (on_mgr f) Q = (\<lambda>s. Q () (s\<lparr>mm_client_mgr := f (mm_client_mgr s)\<rparr>))"
  "wlp (on_subs g) Q = (\<lambda>s. Q () (s\<lparr>mm_subscribers := g (mm_subscribers s)\<rparr>))"
  "wlp (push msg) Q = (\<lambda>s. Q () (s\<lparr>mm_queue := mm_queue s @ [msg]\<rparr>))"
  by (simp_all add: on_mgr_def on_subs_def push_def wlp_basic)

lemma wlp_call_mgr [wlp_simps]:
  "wlp (call_mgr h) Q = (\<lambda>s. Q (fst (h (mm_client_mgr s))) (s\<lparr>mm_client_mgr := snd (h (mm_client_mgr s))\<rparr>))"
  by (auto simp: call_mgr_def wlp_def fun_eq_iff split: prod.splits)

lemma wlp_ignore [wlp_simps]: "wlp (ignore m) Q = wlp m (\<lambda>_. Q ())"
  by (simp add: ignore_def wlp_simps)

lemma wlp_seq [wlp_simps]: "wlp (seq []) Q = Q ()" "wlp (seq (m # ms)) Q = wlp m (\<lambda>_. wlp (seq ms) Q)"
  by (simp_all add: wlp_simps)

lemma wlp_try_mgr [wlp_simps]:
  "wlp (try_mgr p) Q = (\<lambda>s. case p (mm_client_mgr s) of
     Ok (x, m) \<Rightarrow> Q (Inr x) (s\<lparr>mm_client_mgr := m\<rparr>) | Err e \<Rightarrow> Q (Inl e) s | Panic \<Rightarrow> True)"
  by (auto simp: wlp_def try_mgr_def fun_eq_iff split: outcome.splits)

lemma wlp_mark_dirty [wlp_simps]: "wlp recovery_mark_dirty Q = (\<lambda>s. Q () (s\<lparr>mm_recovery := map_option mark_dirty (mm_recovery s)\<rparr>))"
  by (simp add: recovery_mark_dirty_def wlp_simps)

text \<open>Programs that only add messages to the queue.\<close>

definition sends :: "'a mm \<Rightarrow> bool" where
  "sends m \<longleftrightarrow> (\<forall>s x s'. m s = Ok (x, s') \<longrightarrow> (\<exists>ms. s' = s\<lparr>mm_queue := mm_queue s @ ms\<rparr>))"

lemma wlp_sends: "sends m \<Longrightarrow> (\<And>x ms. Q x (s\<lparr>mm_queue := mm_queue s @ ms\<rparr>)) \<Longrightarrow> wlp m Q s"
  unfolding sends_def wlp_def by metis

named_theorems sends_intros \<open>programs that only add messages\<close>

lemma sends_ret [sends_intros]: "sends (ret x)"
  by (auto simp: sends_def ret_def intro!: exI [of _ "[]"])

lemma sends_push [sends_intros]: "sends (push msg)"
  by (auto simp: sends_def push_def upd_def)

lemma sends_gets [sends_intros]: "sends (gets f)"
  by (auto simp: sends_def gets_def intro!: exI [of _ "[]"])

lemma sends_bind [sends_intros]:
  assumes m: "sends m" and f: "\<And>x. sends (f x)"
  shows "sends (bind m f)"
  unfolding sends_def
proof (intro allI impI)
  fix s y s' assume "bind m f s = Ok (y, s')"
  then obtain x s1 where "m s = Ok (x, s1)" and r: "f x s1 = Ok (y, s')" by (auto simp: bind_def split: outcome.splits prod.splits)
  with m obtain ms where "s1 = s\<lparr>mm_queue := mm_queue s @ ms\<rparr>" unfolding sends_def by blast
  moreover from f [of x] r obtain ns where "s' = s1\<lparr>mm_queue := mm_queue s1 @ ns\<rparr>" unfolding sends_def by blast
  ultimately show "\<exists>ms. s' = s\<lparr>mm_queue := mm_queue s @ ms\<rparr>" by (intro exI [of _ "ms @ ns"]) simp
qed

lemma sends_seq [sends_intros]: "(\<And>m. m \<in> set ms \<Longrightarrow> sends m) \<Longrightarrow> sends (seq ms)"
  by (induction ms) (auto intro!: sends_intros)

lemma sends_if [sends_intros]: "sends m \<Longrightarrow> sends n \<Longrightarrow> sends (if b then m else n)"
  by simp

lemma sends_to_sdu [sends_intros]: "sends (to_sdu n w)"
  by (auto simp: sends_def to_sdu_def intro!: exI [of _ "[]"] split: outcome.splits)

lemma sends_if_written [sends_intros]: "sends (send_if_written i h w)"
  by (auto simp: sends_def send_if_written_def send_to_def push_def upd_def intro: exI [of _ "[]"] split: outcome.splits)

lemma sends_send_to [sends_intros]: "sends (send_to i h b)"
  by (simp add: send_to_def sends_push)

lemma sends_pdus [sends_intros]:
  "sends (send_d_location_update_command i h)" "sends (send_d_location_update_reject_cause i h t x c)"
  "sends (send_d_location_update_reject_migration i h t x)" "sends (send_d_mm_status_energy_saving i h e)"
  "sends (send_d_attach_detach_ack_reject i h)" "sends (send_d_attach_detach_ack i h gs)"
  "sends (send_d_attach_detach_group_identity i g a)" "sends (make_ul_mm_pdu_function_not_supported h ty u adr)"
  "sends (send_location_update_accept i h pdu esi gila)"
  unfolding send_d_location_update_command_def send_d_location_update_reject_cause_def send_d_location_update_reject_migration_def
    send_d_mm_status_energy_saving_def send_d_attach_detach_ack_reject_def send_d_attach_detach_ack_def send_location_update_accept_def
    send_d_attach_detach_group_identity_def make_ul_mm_pdu_function_not_supported_def Let_def
  by (intro sends_intros)+

lemma sends_update [sends_intros]: "sends (emit_subscriber_update i gs a)"
  unfolding emit_subscriber_update_def Let_def
  by (intro sends_bind sends_gets sends_seq) (auto intro!: sends_intros)

section \<open>Keeping the invariant\<close>

definition keeps :: "'a mm \<Rightarrow> bool" where
  "keeps m \<longleftrightarrow> (\<forall>s. mm_inv s \<longrightarrow> wlp m (\<lambda>_. mm_inv) s)"

named_theorems keeps_intros \<open>programs that keep the registries coherent\<close>

lemma keepsI: "(\<And>s. mm_inv s \<Longrightarrow> wlp m (\<lambda>_. mm_inv) s) \<Longrightarrow> keeps m"
  by (simp add: keeps_def)

lemma keeps_wlp: "keeps m \<Longrightarrow> mm_inv s \<Longrightarrow> wlp m (\<lambda>_. mm_inv) s"
  by (simp add: keeps_def)

lemma mm_inv_frame [simp]:
  "mm_inv (s\<lparr>mm_queue := q\<rparr>) = mm_inv s" "mm_inv (s\<lparr>mm_recovery := rc\<rparr>) = mm_inv s"
  "mm_inv (s\<lparr>mm_recovery_pending := ps\<rparr>) = mm_inv s" "mm_inv (s\<lparr>mm_recovery_attempts := as\<rparr>) = mm_inv s"
  "mm_inv (s\<lparr>mm_recovery_last_frame := f\<rparr>) = mm_inv s" "mm_inv (s\<lparr>mm_reactive_recovery_cooldown := cs\<rparr>) = mm_inv s"
  "mm_inv (s\<lparr>mm_ee_monitoring_windows := ws\<rparr>) = mm_inv s" "mm_inv (s\<lparr>mm_config := c\<rparr>) = mm_inv s"
  "mm_inv (s\<lparr>mm_active_call_ts := xs\<rparr>) = mm_inv s" "mm_inv (s\<lparr>mm_issi_whitelist_override := w\<rparr>) = mm_inv s"
  by (simp_all add: mm_inv_def)

lemma keeps_sends: "sends m \<Longrightarrow> keeps m"
  by (auto simp: keeps_def intro: wlp_sends)

lemmas keeps_senders [keeps_intros] =
  sends_ret [THEN keeps_sends] sends_push [THEN keeps_sends] sends_gets [THEN keeps_sends] sends_to_sdu [THEN keeps_sends]
  sends_if_written [THEN keeps_sends] sends_send_to [THEN keeps_sends] sends_pdus [THEN keeps_sends] sends_update [THEN keeps_sends]

lemmas wlp_senders = wlp_sends [OF sends_ret] wlp_sends [OF sends_pdus(1)] wlp_sends [OF sends_pdus(2)] wlp_sends [OF sends_pdus(3)]
  wlp_sends [OF sends_pdus(4)] wlp_sends [OF sends_pdus(5)] wlp_sends [OF sends_pdus(6)] wlp_sends [OF sends_pdus(7)]
  wlp_sends [OF sends_pdus(8)] wlp_sends [OF sends_pdus(9)] wlp_sends [OF sends_update]

lemma mm_keeps_bind [keeps_intros]: "keeps m \<Longrightarrow> (\<And>x. keeps (f x)) \<Longrightarrow> keeps (bind m f)"
  by (auto simp: keeps_def wlp_simps intro: wlp_mono)

lemma keeps_gets_bind: "(\<And>s. mm_inv s \<Longrightarrow> wlp (f (g s)) (\<lambda>_. mm_inv) s) \<Longrightarrow> keeps (bind (gets g) f)"
  by (simp add: keeps_def wlp_simps)

lemma keeps_seq [keeps_intros]: "(\<And>m. m \<in> set ms \<Longrightarrow> keeps m) \<Longrightarrow> keeps (seq ms)"
  by (induction ms) (auto intro!: mm_keeps_bind keeps_senders(1))

lemma keeps_if [keeps_intros]: "keeps m \<Longrightarrow> keeps n \<Longrightarrow> keeps (if b then m else n)"
  by simp

lemma keeps_ignore [keeps_intros]: "keeps m \<Longrightarrow> keeps (ignore m)"
  by (simp add: keeps_def wlp_simps)

lemma keeps_option [keeps_intros]: "keeps m \<Longrightarrow> (\<And>x. keeps (f x)) \<Longrightarrow> keeps (case v of None \<Rightarrow> m | Some x \<Rightarrow> f x)"
  by (simp split: option.split)

lemma keeps_mark_dirty [keeps_intros]: "keeps recovery_mark_dirty"
  by (simp add: keeps_def recovery_mark_dirty_def wlp_simps)

lemma keeps_confirm [keeps_intros]: "keeps (recovery_confirm i)"
  by (simp add: keeps_def recovery_confirm_def wlp_simps Let_def)

lemma keeps_received [keeps_intros]: "(\<And>pdu. keeps (k pdu)) \<Longrightarrow> keeps (received reader prim k)"
  by (auto simp: keeps_def wlp_def received_def split: outcome.splits)

section \<open>Setters of the client registry\<close>

lemma keeps_on_mgr:
  "(\<And>m r. coherent m r \<Longrightarrow> coherent (f m) r) \<Longrightarrow> keeps (on_mgr f)"
  by (simp add: keeps_def wlp_simps mm_inv_def)

lemma keeps_setters [keeps_intros]:
  "keeps (on_mgr (reset_registration_timer now i))" "keeps (on_mgr (set_client_handle i h))"
  "keeps (on_mgr (update_client_rssi now i v))" "keeps (on_mgr (set_pending_command now i g))"
  unfolding reset_registration_timer_def set_client_handle_def update_client_rssi_def set_pending_command_def
  by (intro keeps_on_mgr coherent_setter; simp)+

lemma keeps_try_update:
  "(\<And>c. cl_issi (f c) = cl_issi c) \<Longrightarrow> (\<And>c. cl_groups (f c) = cl_groups c) \<Longrightarrow> keeps (try_mgr (try_update_client f i))"
  by (simp add: keeps_def wlp_simps mm_inv_def try_update_client_eq coherent_setter)

lemma keeps_try_setters [keeps_intros]:
  "keeps (try_mgr (set_client_state i st))" "keeps (try_mgr (set_client_energy_saving_mode i e))"
  "keeps (try_mgr (set_client_monitoring_window i f mf))" "keeps (try_mgr (set_client_class_of_ms i c))"
  "keeps (try_mgr (set_client_tei i t))"
  unfolding set_client_state_def set_client_energy_saving_mode_def set_client_monitoring_window_def set_client_class_of_ms_def set_client_tei_def
  by (intro keeps_try_update; simp)+

lemma keeps_allow [keeps_intros]: "keeps (call_mgr (allow_registration now i))"
  by (auto simp: keeps_def wlp_simps mm_inv_def allow_registration_clients intro: coherent_same)

section \<open>Detach, groups\<close>

lemma keeps_release [keeps_intros]: "keeps (release_client i)"
proof (rule keepsI)
  fix s assume s: "mm_inv s"
  let ?s = "s\<lparr>mm_client_mgr := snd (remove_client i (mm_client_mgr s))\<rparr>"
  have drop: "mm_inv (?s\<lparr>mm_subscribers := sr_deregister i (mm_subscribers ?s)\<rparr>)"
    using s coherent_drop by (simp add: mm_inv_def)
  have "keeps (seq [if gs \<noteq> [] then emit_subscriber_update i gs Action_Deaffiliate else ret (), emit_subscriber_update i [] Action_Deregister])" for gs
    by (intro keeps_sends sends_seq) (auto intro: sends_intros)
  from keeps_wlp [OF this drop] show "wlp (release_client i) (\<lambda>_. mm_inv) s"
  proof (cases "get_client_by_issi (mm_client_mgr s) i")
    case None
    then have "mm_inv ?s" using s by (simp add: remove_client_def get_client_by_issi_def mm_inv_def)
    with None show ?thesis by (simp add: release_client_def wlp_simps get_remove_client)
  qed (simp add: release_client_def wlp_simps get_remove_client)
qed

lemma groups_of_client_groups: "set (client_groups s i) = groups_of (mm_client_mgr s) i"
  by (simp add: client_groups_def groups_of_def split: option.split)

lemma keeps_attach_group [keeps_intros]: "keeps (attach_detach_group i giu)"
proof -
  have att: "keeps (bind (try_mgr (client_group_attach i g True)) (\<lambda>r. case r of Inr changed \<Rightarrow>
      bind (if changed then on_subs (sr_affiliate i g) else ret ()) (\<lambda>_. ret (x changed)) | Inl e \<Rightarrow> ret y))" for g x y
    by (auto simp: keeps_def wlp_simps client_group_attach_eq mm_inv_def known_iff coherent_attach split: option.split)
  have det: "keeps (bind (try_mgr (client_group_attach i g False)) (\<lambda>r. case r of Inr changed \<Rightarrow>
      bind (if changed then on_subs (sr_deaffiliate i g) else ret ()) (\<lambda>_. ret (x changed)) | Inl e \<Rightarrow> ret y))" for g x y
    by (auto simp: keeps_def wlp_simps client_group_attach_eq mm_inv_def known_iff coherent_detach groups_of_def split: option.split)
  show ?thesis
    unfolding attach_detach_group_def by (intro keeps_option keeps_if att det keeps_senders)
qed

lemma keeps_attach_loop [keeps_intros]: "keeps (attach_detach_loop i gius)"
  by (induction gius) (auto split: prod.split intro!: keeps_intros)

lemma keeps_try_attach [keeps_intros]: "keeps (try_attach_detach_groups i gius)"
  unfolding try_attach_detach_groups_def by (auto split: prod.split intro!: keeps_intros)

lemma keeps_detach_all [keeps_intros]: "keeps (detach_all_first i)"
proof (rule keepsI)
  fix s assume s: "mm_inv s"
  let ?m = "update_client (\<lambda>c. c\<lparr>cl_groups := []\<rparr>) i (mm_client_mgr s)"
  have c: "coherent ?m (fold (sr_deaffiliate i) (client_groups s i) (mm_subscribers s))" if "client_is_known (mm_client_mgr s) i"
    using s that by (intro coherent_detach_all) (simp_all add: mm_inv_def groups_of_client_groups)
  show "wlp (detach_all_first i) (\<lambda>_. mm_inv) s"
    using s c by (auto simp: detach_all_first_def wlp_simps client_detach_all_groups_eq mm_inv_def intro!: wlp_senders)
qed

lemma keeps_replace_first [keeps_intros]: "keeps (replace_groups_first now i h)"
proof (rule keepsI)
  fix s assume s: "mm_inv s"
  obtain x m where r: "try_register_client now i True (mm_client_mgr s) = Ok (x, m)" by (simp add: try_register_client_def is_individual_def)
  have "coherent m (sr_register i (mm_subscribers s))" using s coherent_enter [OF _ r] by (simp add: mm_inv_def)
  then show "wlp (replace_groups_first now i h) (\<lambda>_. mm_inv) s"
    using keeps_wlp [OF keeps_detach_all s]
    by (auto simp: replace_groups_first_def wlp_simps r mm_inv_def intro!: wlp_senders)
qed

lemma keeps_rx_attach [keeps_intros]: "keeps (rx_u_attach_detach_group_identity now prim)"
  unfolding rx_u_attach_detach_group_identity_def Let_def
  by (intro keeps_received mm_keeps_bind keeps_if keeps_option keeps_try_attach keeps_replace_first keeps_mark_dirty keeps_senders)

lemma keeps_rx_detach [keeps_intros]: "keeps (rx_u_itsi_detach prim)"
  unfolding rx_u_itsi_detach_def Let_def
  by (intro keeps_received mm_keeps_bind keeps_if keeps_seq keeps_senders) (auto intro!: keeps_intros)

lemma keeps_rx_ack [keeps_intros]: "keeps (rx_u_attach_detach_group_identity_ack prim)"
  unfolding rx_u_attach_detach_group_identity_ack_def by (intro keeps_received keeps_sends sends_ret)

lemma keeps_dgna [keeps_intros]: "keeps (do_dgna i g mn a attach)"
proof (rule keepsI)
  fix s assume s: "mm_inv s"
  show "wlp (do_dgna i g mn a attach) (\<lambda>_. mm_inv) s"
  proof (cases "get_client_by_issi (mm_client_mgr s) i")
    case None
    then show ?thesis using s by (simp add: do_dgna_def wlp_simps Let_def known_iff)
  next
    case (Some c)
    have rest: "keeps (bind (if cfg_dgna_use_ss_facility (mm_config s)
          then push (control_msg Entity_Cmce (Msg_CmceSsDgnaAssign i g mn a h attach))
          else send_d_attach_detach_group_identity i g attach) (\<lambda>_. bind recovery_mark_dirty (\<lambda>_. ret True)))" for h
      by (intro keeps_intros)
    let ?s = "\<lambda>r. s\<lparr>mm_client_mgr := (if attach then attach_client i g else detach_client i g) (mm_client_mgr s), mm_subscribers := r\<rparr>"
    have att: "attach \<Longrightarrow> mm_inv (?s (sr_affiliate i g (remember_dgna_group i g mn a (mm_subscribers s))))"
      using s Some by (simp add: mm_inv_def coherent_attach known_iff)
    have det: "\<not> attach \<Longrightarrow> mm_inv (?s (sr_deaffiliate i g (mm_subscribers s)))"
      "\<not> attach \<Longrightarrow> mm_inv (?s (snd (forget_dgna_group i g (sr_deaffiliate i g (mm_subscribers s)))))"
      using s Some by (simp_all add: mm_inv_def coherent_detach known_iff)
    show ?thesis
      using s Some att det
      unfolding do_dgna_def
      by (auto simp: wlp_simps Let_def client_group_attach_eq
          intro!: wlp_senders keeps_wlp [OF rest, unfolded wlp_bind])
  qed
qed

section \<open>Location update, status\<close>

lemma keeps_evictions:
  "mm_inv (s\<lparr>mm_subscribers := fold sr_deregister xs (mm_subscribers s)\<rparr>) \<Longrightarrow>
   wlp (seq (map (\<lambda>e. seq [on_subs (sr_deregister e), emit_subscriber_update e [] Action_Deregister]) xs)) (\<lambda>_. mm_inv) s"
proof (induction xs arbitrary: s)
  case (Cons x xs)
  have "wlp (seq (map (\<lambda>e. seq [on_subs (sr_deregister e), emit_subscriber_update e [] Action_Deregister]) xs)) (\<lambda>_. mm_inv)
      (s\<lparr>mm_subscribers := sr_deregister x (mm_subscribers s), mm_queue := q\<rparr>)" for q
    by (rule Cons.IH) (use Cons.prems in \<open>simp add: mm_inv_def\<close>)
  then show ?case by (simp add: wlp_simps) (intro wlp_senders, simp)
qed (simp add: wlp_simps)

lemma keeps_make_room [keeps_intros]: "keeps (make_room i)"
proof (rule keepsI)
  fix s assume s: "mm_inv s"
  obtain ev m where e: "enforce_client_cap (call_protected_issis s) (mm_client_mgr s) = (ev, m)" by fastforce
  have "mm_inv (s\<lparr>mm_client_mgr := m, mm_subscribers := fold sr_deregister ev (mm_subscribers (s\<lparr>mm_client_mgr := m\<rparr>))\<rparr>)"
    using s coherent_evict [OF _ e] by (simp add: mm_inv_def)
  from keeps_evictions [OF this] show "wlp (make_room i) (\<lambda>_. mm_inv) s"
    using s by (simp add: make_room_def wlp_simps e)
qed

lemma enter_client_wlp:
  assumes "mm_inv s" and "is_new \<longleftrightarrow> \<not> client_is_known (mm_client_mgr s) i"
  shows "wlp (enter_client now i is_new) (\<lambda>entered s. mm_inv s \<and> client_is_known (mm_client_mgr s) i) s"
proof -
  obtain x m where r: "try_register_client now i True (mm_client_mgr s) = Ok (x, m)" by (simp add: try_register_client_def is_individual_def)
  have "coherent m (sr_register i (mm_subscribers s))" using assms coherent_enter [OF _ r] by (simp add: mm_inv_def)
  moreover have "client_is_known m i" by (simp add: known_iff get_try_register [OF r])
  moreover have "coherent (update_client (\<lambda>c. c\<lparr>cl_state := Client_Attached\<rparr>) i (mm_client_mgr s)) (mm_subscribers s)"
    using assms by (intro coherent_setter) (simp_all add: mm_inv_def)
  ultimately show ?thesis
    using assms by (auto simp: enter_client_def wlp_simps r mm_inv_def set_client_state_def try_update_client_eq)
qed

lemma keeps_group_demand [keeps_intros]: "keeps (process_group_demand i demand)"
  unfolding process_group_demand_def by (intro keeps_intros)

lemma keeps_coverage_return [keeps_intros]: "keeps (coverage_return i)"
proof (rule keepsI)
  fix s assume s: "mm_inv s"
  then have "coherent (mm_client_mgr s) (fold (sr_affiliate i) (client_groups s i) (mm_subscribers s))"
    by (intro coherent_affiliate_all) (simp_all add: mm_inv_def groups_of_client_groups)
  then show "wlp (coverage_return i) (\<lambda>_. mm_inv) s"
    using s by (auto simp: coverage_return_def wlp_simps mm_inv_def intro!: wlp_senders)
qed

lemma keeps_complete [keeps_intros]: "keeps (complete_registration now i h pdu esi is_new dropped)"
  unfolding complete_registration_def Let_def by (intro keeps_intros)

lemma keeps_register_location [keeps_intros]: "keeps (register_location now i h pdu esi)"
proof (rule keepsI)
  fix s assume s: "mm_inv s"
  let ?new = "\<not> client_is_known (mm_client_mgr s) i"
  let ?s = "if ?new then s else s\<lparr>mm_client_mgr := reset_registration_timer now i (mm_client_mgr s)\<rparr>"
  have s': "mm_inv ?s" using s keeps_wlp [OF keeps_setters(1) s] by (simp add: wlp_simps)
  have k: "?new \<longleftrightarrow> \<not> client_is_known (mm_client_mgr ?s) i" by (simp add: reset_registration_timer_def)
  have upd: "wlp (if \<not> ?new then on_mgr (reset_registration_timer now i) else ret ()) Q s = Q () ?s" for Q
    by (simp add: wlp_simps)
  have done1: "wlp (if \<not> e then ret () else bind (if d then on_subs (sr_register i) else ret ())
      (\<lambda>_. complete_registration now i h pdu esi n d)) (\<lambda>_. mm_inv) t"
    if "mm_inv t" "client_is_known (mm_client_mgr t) i" for e d n t
  proof -
    have "mm_inv (t\<lparr>mm_subscribers := sr_register i (mm_subscribers t)\<rparr>)" using that by (simp add: mm_inv_def coherent_register)
    then show ?thesis using that keeps_wlp [OF keeps_complete] by (simp add: wlp_simps)
  qed
  have "wlp (enter_client now i ?new) (\<lambda>e. wlp (if \<not> e then ret () else bind (if d then on_subs (sr_register i) else ret ())
      (\<lambda>_. complete_registration now i h pdu esi n d)) (\<lambda>_. mm_inv)) ?s" for d n
    by (rule wlp_mono [OF enter_client_wlp [OF s' k]]) (use done1 in blast)
  then show "wlp (register_location now i h pdu esi) (\<lambda>_. mm_inv) s"
    unfolding register_location_def wlp_bind wlp_basic(3) upd .
qed

lemma keeps_rx_location [keeps_intros]: "keeps (rx_u_location_update_demand now prim)"
  unfolding rx_u_location_update_demand_def Let_def
  by (intro keeps_received mm_keeps_bind keeps_if keeps_seq keeps_senders keeps_confirm keeps_allow keeps_make_room) (auto intro: keeps_intros)

lemma keeps_rx_status [keeps_intros]: "keeps (rx_u_mm_status prim)"
  unfolding rx_u_mm_status_def Let_def
  by (intro keeps_received mm_keeps_bind keeps_if keeps_seq keeps_senders) (auto intro: keeps_intros)

lemma keeps_rx_tei [keeps_intros]: "keeps (rx_u_tei_provide prim)"
  unfolding rx_u_tei_provide_def by (intro keeps_intros)

lemma keeps_rx_ind [keeps_intros]: "keeps (rx_lmm_mle_unitdata_ind now prim)"
proof (rule keepsI)
  fix s assume s: "mm_inv s"
  note k = keeps_rx_location keeps_rx_status keeps_rx_tei keeps_rx_attach keeps_rx_detach keeps_rx_ack
  show "wlp (rx_lmm_mle_unitdata_ind now prim) (\<lambda>_. mm_inv) s"
    using s k [THEN keeps_wlp, OF s]
    by (auto simp: rx_lmm_mle_unitdata_ind_def wlp_def split: outcome.splits prod.splits option.splits MmPduTypeUl.splits)
qed

section \<open>Control, tick\<close>

lemma keeps_brew_reconnected [keeps_intros]: "keeps rx_brew_reconnected"
  unfolding rx_brew_reconnected_def by (intro mm_keeps_bind keeps_seq keeps_senders) (auto intro: keeps_intros)

lemma keeps_kick [keeps_intros]: "keeps (kick i)"
proof (rule keepsI)
  fix s assume s: "mm_inv s"
  then have "mm_inv (s\<lparr>mm_client_mgr := snd (remove_client i (mm_client_mgr s)), mm_subscribers := sr_deregister i (mm_subscribers s)\<rparr>)"
    using coherent_drop by (simp add: mm_inv_def)
  then show "wlp (kick i) (\<lambda>_. mm_inv) s"
    by (auto simp: kick_def wlp_simps mm_inv_def intro!: wlp_senders)
qed

lemma keeps_reactive [keeps_intros]: "keeps (maybe_reactive_recovery now i)"
  by (rule keepsI) (auto simp: maybe_reactive_recovery_def wlp_simps Let_def intro!: wlp_senders)

lemma keeps_rx_prim [keeps_intros]: "keeps (mm_rx_prim now msg)"
  unfolding mm_rx_prim_def
  by (auto split: Sap.split SapMsgInner.split intro!: keeps_intros)

lemma keeps_second_expiry [keeps_intros]: "keeps (second_expiry now n i)"
proof (rule keepsI)
  fix s assume s: "mm_inv s"
  have drop: "keeps (seq [ignore (call_mgr (remove_client i)), on_subs (sr_deregister i), recovery_mark_dirty])"
    by (rule keepsI) (simp add: wlp_simps mm_inv_def coherent_drop)
  have dereg: "keeps (on_subs (sr_deregister i))" by (rule keepsI) (simp add: wlp_simps mm_inv_def coherent_deregister)
  show "wlp (second_expiry now n i) (\<lambda>_. mm_inv) s"
    unfolding second_expiry_def
    by (rule keeps_wlp [OF _ s], intro mm_keeps_bind keeps_if drop keeps_seq keeps_senders) (auto intro: keeps_intros dereg)
qed

lemma keeps_expire [keeps_intros]: "keeps (expire_registration now ts n i)"
  unfolding expire_registration_def by (intro mm_keeps_bind keeps_if keeps_senders keeps_seq keeps_second_expiry) (auto intro: keeps_intros)

lemma keeps_replay_one [keeps_intros]: "keeps replay_one"
  by (rule keepsI) (auto simp: replay_one_def wlp_simps split: list.split option.split intro!: wlp_senders)

lemma keeps_replay [keeps_intros]: "keeps (drive_recovery_replay ts)"
proof -
  have frame: "keeps (upd (\<lambda>s. s\<lparr>mm_recovery_last_frame := f\<rparr>))" for f by (rule keepsI) (simp add: wlp_simps)
  show ?thesis
    unfolding drive_recovery_replay_def Let_def
    by (intro mm_keeps_bind keeps_if keeps_senders keeps_seq) (auto intro: keeps_intros frame)
qed

lemma keeps_flush [keeps_intros]: "keeps (recovery_maybe_flush now w)"
  by (rule keepsI) (auto simp: recovery_maybe_flush_def wlp_simps split: option.split)

lemma keeps_publish [keeps_intros]: "keeps publish_monitoring_windows"
  by (rule keepsI) (simp add: publish_monitoring_windows_def wlp_simps)

lemma keeps_control [keeps_intros]: "keeps (run_control cmd)"
  by (cases cmd) (simp_all add: run_control_def keeps_intros)

lemma keeps_tick [keeps_intros]: "keeps (mm_tick_start now w cmds ts)"
  unfolding mm_tick_start_def by (intro mm_keeps_bind keeps_seq keeps_senders) (auto intro!: keeps_seq intro: keeps_intros)

lemma keeps_set_config [keeps_intros]: "keeps (mm_set_config c)"
  by (rule keepsI) (auto simp: mm_set_config_def wlp_simps mm_inv_def set_limits_def intro: coherent_same)

section \<open>Reachable states\<close>

text \<open>The entity starts empty or with the records of the recovery file. Messages and ticks arrive in any order; the rest of the station
  takes messages from the queue and changes the calls and the whitelist of the shared state.\<close>

inductive mm_reach :: "MmBs \<Rightarrow> bool" where
  mm_boot: "mm_reach (MmBs_new c)"
| mm_recover: "mm_reach (init_recovery now records (MmBs_new c))"
| mm_message: "mm_reach s \<Longrightarrow> mm_rx_prim now msg s = Ok (u, s') \<Longrightarrow> mm_reach s'"
| mm_tick: "mm_reach s \<Longrightarrow> mm_tick_start now w cmds ts s = Ok (u, s') \<Longrightarrow> mm_reach s'"
| mm_config_change: "mm_reach s \<Longrightarrow> mm_set_config c s = Ok (u, s') \<Longrightarrow> mm_reach s'"
| mm_others: "mm_reach s \<Longrightarrow> mm_reach (s\<lparr>mm_queue := q, mm_active_call_ts := calls, mm_issi_whitelist_override := w\<rparr>)"

lemma restore_record_inv:
  assumes "mm_inv s" and "\<And>i. \<not> is_registered (mm_subscribers s) i"
  shows "mm_inv (restore_record now r s) \<and> (\<forall>i. \<not> is_registered (mm_subscribers (restore_record now r s)) i)"
proof -
  have reg: "is_registered (fold (\<lambda>g. remember_dgna_group (tr_issi r) (dg_gssi g) (dg_mnemonic g) (dg_attachment_mode g)) gs q) i = is_registered q i"
    and aff: "affiliations (fold (\<lambda>g. remember_dgna_group (tr_issi r) (dg_gssi g) (dg_mnemonic g) (dg_attachment_mode g)) gs q) = affiliations q"
    and inv: "sr_inv (fold (\<lambda>g. remember_dgna_group (tr_issi r) (dg_gssi g) (dg_mnemonic g) (dg_attachment_mode g)) gs q) = sr_inv q" for gs q i
    by (induction gs arbitrary: q) simp_all
  have none: "affiliations (mm_subscribers s) = {}"
    using assms(2) by (auto simp: affiliations_iff is_registered_def)
  show ?thesis
    using assms none by (auto simp: restore_record_def Let_def mm_inv_def coherent_def reg aff inv cm_ok_restore_client)
qed

lemma init_recovery_inv: "mm_inv (init_recovery now records (MmBs_new c))"
proof -
  have "mm_inv s \<Longrightarrow> (\<And>i. \<not> is_registered (mm_subscribers s) i) \<Longrightarrow>
      mm_inv (fold (restore_record now) rs s) \<and> (\<forall>i. \<not> is_registered (mm_subscribers (fold (restore_record now) rs s)) i)" for rs s
    by (induction rs arbitrary: s) (simp_all add: restore_record_inv)
  moreover have "mm_inv (MmBs_new c)" by (simp add: mm_inv_def MmBs_new_def coherent_new)
  moreover have "\<not> is_registered (mm_subscribers (MmBs_new c)) i" for i
    by (simp add: MmBs_new_def is_registered_def SubscriberRegistry_new_def)
  ultimately show ?thesis unfolding init_recovery_def Let_def mm_inv_frame by blast
qed

lemma mm_reach_inv: "mm_reach s \<Longrightarrow> mm_inv s"
proof (induction rule: mm_reach.induct)
  case (mm_boot c)
  show ?case by (simp add: mm_inv_def MmBs_new_def coherent_new)
next
  case (mm_recover now records c)
  show ?case by (rule init_recovery_inv)
next
  case (mm_message s now msg u s')
  then show ?case using keeps_rx_prim by (auto simp: keeps_def wlp_def)
next
  case (mm_tick s now w cmds ts u s')
  then show ?case using keeps_tick by (auto simp: keeps_def wlp_def)
next
  case (mm_config_change s c u s')
  then show ?case using keeps_set_config by (auto simp: keeps_def wlp_def)
qed simp

end
