(* ===== verification/Mm_Behaviour.thy ===== *)
theory Mm_Behaviour
  imports Mm_Invariant
begin

text \<open>
  What the handlers of mobility management do: the energy economy windows they grant, the groups of a terminal that registers again with
  and without a report, that every uplink message is handled to its end, and the one report whose writer panics.
\<close>

declare One_nat_def [simp del]

section \<open>Energy economy\<close>

lemma phase_small:
  fixes issi :: u32 and c :: u8
  assumes "c = 2 \<or> c = 3 \<or> c = 6"
  shows "unat (ucast (issi mod ucast c) :: u8) < unat c"
proof -
  have "unat (issi mod ucast c) = unat issi mod unat c"
    using assms by (auto simp: unat_mod_distrib)
  moreover have "unat issi mod unat c < unat c" using assms by auto
  moreover have "unat c \<le> 6" using assms by auto
  ultimately have "unat (issi mod ucast c) < 256" "unat (issi mod ucast c) < unat c" by linarith+
  then show ?thesis by (simp add: unsigned_ucast_eq take_bit_nat_eq_self)
qed

lemma phase_div: "unat (p :: u8) < 18 \<Longrightarrow> p mod 18 + 1 \<le> 18 \<and> 1 \<le> p mod 18 + 1 \<and> p div 18 + 1 = 1"
proof -
  assume p: "unat p < 18"
  then have "p < 18" by (simp add: word_less_nat_alt)
  have "p div 18 = 0" "p mod 18 = p" using p by (simp_all add: word_unat_eq_iff unat_div_distrib unat_mod_distrib)
  then show ?thesis using p by (simp add: word_le_nat_alt unat_word_ariths)
qed

lemma granted_window:
  assumes "requested \<noteq> EnergySavingMode_StayAlive"
  obtains f c where "EnergySavingInformation_frame_number (grant_energy_saving issi requested) = Some f"
    and "EnergySavingInformation_multiframe_number (grant_energy_saving issi requested) = Some 1"
    and "ee_cycle_frames (EnergySavingInformation_energy_saving_mode (grant_energy_saving issi requested)) = Some c"
    and "1 \<le> f" "f \<le> 18" "c = 2 \<or> c = 3 \<or> c = 6"
proof -
  let ?g = "EnergySavingInformation_energy_saving_mode (grant_energy_saving issi requested)"
  obtain c where c: "ee_cycle_frames ?g = Some c" "c = 2 \<or> c = 3 \<or> c = 6"
    using assms by (cases requested) (simp_all add: grant_energy_saving_def ee_cycle_frames_def Let_def)
  let ?p = "ucast (issi mod ucast c) :: u8"
  have "unat ?p < 18" using phase_small [OF c(2), of issi] c(2) by auto
  note d = phase_div [OF this]
  have "EnergySavingInformation_frame_number (grant_energy_saving issi requested) = Some (?p mod 18 + 1)"
    "EnergySavingInformation_multiframe_number (grant_energy_saving issi requested) = Some (?p div 18 + 1)"
    using c(1) by (simp_all add: grant_energy_saving_def Let_def)
  with c d show thesis by (intro that [of "?p mod 18 + 1" c]) simp_all
qed

lemma granted_window_opens:
  assumes "requested \<noteq> EnergySavingMode_StayAlive" and "TdmaTime_is_valid x"
  shows "\<exists>f mf c. EnergySavingInformation_frame_number (grant_energy_saving issi requested) = Some f \<and>
     EnergySavingInformation_multiframe_number (grant_energy_saving issi requested) = Some mf \<and>
     ee_cycle_frames (EnergySavingInformation_energy_saving_mode (grant_energy_saving issi requested)) = Some c \<and> c \<le> 6 \<and>
     (\<exists>!j. j < unat c \<and> TdmaTime_in_ee_monitoring_window (TdmaTime_add_timeslots x (4 * int j)) f mf c)"
proof -
  obtain f c where w: "EnergySavingInformation_frame_number (grant_energy_saving issi requested) = Some f"
    "EnergySavingInformation_multiframe_number (grant_energy_saving issi requested) = Some 1"
    "ee_cycle_frames (EnergySavingInformation_energy_saving_mode (grant_energy_saving issi requested)) = Some c"
    "1 \<le> f" "f \<le> 18" "c = 2 \<or> c = 3 \<or> c = 6" by (rule granted_window [OF assms(1)])
  have "unat c dvd 1080" "c \<le> 6" using w(6) by auto
  with ee_window_once [OF assms(2) w(4,5), of 1 c] w(1-3) show ?thesis by auto
qed

section \<open>The groups of a terminal that registers again\<close>

text \<open>What the groups depend on: those of each client, and the shared registry.\<close>

definition gview :: "MmBs \<Rightarrow> (u32 \<Rightarrow> u32 list option) \<times> SubscriberRegistry" where
  "gview s = (\<lambda>i. map_option cl_groups (get_client_by_issi (mm_client_mgr s) i), mm_subscribers s)"

lemma gviewD:
  assumes "gview s' = gview s"
  shows "client_groups s' i = client_groups s i" and "client_is_known (mm_client_mgr s') i = client_is_known (mm_client_mgr s) i"
    and "mm_subscribers s' = mm_subscribers s"
proof -
  have v: "map_option cl_groups (get_client_by_issi (mm_client_mgr s') i) = map_option cl_groups (get_client_by_issi (mm_client_mgr s) i)"
    and "mm_subscribers s' = mm_subscribers s" using assms by (auto simp: gview_def fun_eq_iff)
  then show "mm_subscribers s' = mm_subscribers s" by simp
  from v show "client_groups s' i = client_groups s i" "client_is_known (mm_client_mgr s') i = client_is_known (mm_client_mgr s) i"
    by (cases "get_client_by_issi (mm_client_mgr s) i"; cases "get_client_by_issi (mm_client_mgr s') i";
        simp add: client_groups_def known_iff)+
qed

definition neutral :: "'a mm \<Rightarrow> bool" where
  "neutral m \<longleftrightarrow> (\<forall>s x s'. m s = Ok (x, s') \<longrightarrow> gview s' = gview s \<and> mm_config s' = mm_config s)"

named_theorems neutral_intros \<open>programs that change no group\<close>

lemma wlp_neutral: "neutral m \<Longrightarrow> (\<And>x s'. gview s' = gview s \<Longrightarrow> mm_config s' = mm_config s \<Longrightarrow> Q x s') \<Longrightarrow> wlp m Q s"
  by (auto simp: neutral_def wlp_def)

lemma neutral_sends: "sends m \<Longrightarrow> neutral m"
  unfolding sends_def neutral_def gview_def by force

lemma neutral_bind [neutral_intros]: "neutral m \<Longrightarrow> (\<And>x. neutral (f x)) \<Longrightarrow> neutral (bind m f)"
  unfolding neutral_def bind_def by (fastforce split: outcome.splits prod.splits)

lemma wlp_bind_neutral:
  "neutral m \<Longrightarrow> (\<And>x s'. gview s' = gview s \<Longrightarrow> mm_config s' = mm_config s \<Longrightarrow> wlp (f x) Q s') \<Longrightarrow> wlp (bind m f) Q s"
  unfolding wlp_bind by (rule wlp_neutral)

lemma neutral_if [neutral_intros]: "neutral m \<Longrightarrow> neutral n \<Longrightarrow> neutral (if b then m else n)"
  by simp

lemma neutral_upd: "(\<And>s. gview (f s) = gview s) \<Longrightarrow> (\<And>s. mm_config (f s) = mm_config s) \<Longrightarrow> neutral (upd f)"
  by (simp add: neutral_def upd_def)

lemma gview_update:
  "(\<And>c. cl_groups (f c) = cl_groups c) \<Longrightarrow> gview (s\<lparr>mm_client_mgr := update_client f i (mm_client_mgr s)\<rparr>) = gview s"
  by (simp add: gview_def setter_effect fun_eq_iff)

lemma neutral_setters [neutral_intros]:
  "neutral (on_mgr (reset_registration_timer now i))" "neutral (on_mgr (set_client_handle i h))"
  unfolding reset_registration_timer_def set_client_handle_def on_mgr_def
  by (intro neutral_upd gview_update; simp)+

lemma neutral_try_update: "(\<And>c. cl_groups (f c) = cl_groups c) \<Longrightarrow> neutral (try_mgr (try_update_client f i))"
  by (auto simp: neutral_def try_mgr_def try_update_client_eq gview_update)

lemma neutral_try_setters [neutral_intros]:
  "neutral (try_mgr (set_client_state i st))" "neutral (try_mgr (set_client_energy_saving_mode i e))"
  "neutral (try_mgr (set_client_monitoring_window i f mf))" "neutral (try_mgr (set_client_class_of_ms i c))"
  unfolding set_client_state_def set_client_energy_saving_mode_def set_client_monitoring_window_def set_client_class_of_ms_def
  by (intro neutral_try_update; simp)+

lemma neutral_ignore [neutral_intros]: "neutral m \<Longrightarrow> neutral (ignore m)"
  unfolding ignore_def by (rule neutral_bind) (simp_all add: neutral_sends sends_ret)

lemma neutral_recovery [neutral_intros]: "neutral recovery_mark_dirty" "neutral (recovery_confirm i)"
  unfolding recovery_mark_dirty_def recovery_confirm_def by (intro neutral_upd; simp add: gview_def Let_def)+

lemma neutral_allow [neutral_intros]: "neutral (call_mgr (allow_registration now i))"
proof -
  have "get_client_by_issi (snd (allow_registration now i m)) j = get_client_by_issi m j" for m j
    by (simp add: get_client_by_issi_def allow_registration_clients)
  then show ?thesis by (auto simp: neutral_def call_mgr_def gview_def split: prod.splits) (metis snd_conv)+
qed

lemmas neutral_senders [neutral_intros] = sends_ret [THEN neutral_sends] sends_pdus [THEN neutral_sends] sends_update [THEN neutral_sends]

text \<open>Elements of a report that name only groups that the terminal holds already: each is confirmed, nothing changes.\<close>

definition held :: "MmBs \<Rightarrow> u32 \<Rightarrow> GroupIdentityUplink \<Rightarrow> bool" where
  "held s i giu \<longleftrightarrow> GroupIdentityUplink_gssi giu \<in> Some ` set (client_groups s i) \<and> GroupIdentityUplink_vgssi giu = None \<and>
     GroupIdentityUplink_address_extension giu = None \<and> GroupIdentityUplink_group_identity_detachment_uplink giu = None"

definition confirmed :: "GroupIdentityUplink \<Rightarrow> GroupIdentityDownlink" where
  "confirmed giu = attached_gid (case GroupIdentityUplink_class_of_usage giu of Some u \<Rightarrow> u | None \<Rightarrow> 0) (the (GroupIdentityUplink_gssi giu))"

lemma attach_held_group:
  assumes "held s i giu"
  shows "wlp (attach_detach_group i giu) (\<lambda>r s'. r = (Some (confirmed giu), None, None) \<and> gview s' = gview s \<and> mm_config s' = mm_config s) s"
proof -
  from assms obtain g where g: "GroupIdentityUplink_gssi giu = Some g" "g \<in> set (client_groups s i)" by (auto simp: held_def)
  then obtain c where c: "get_client_by_issi (mm_client_mgr s) i = Some c" "g \<in> set (cl_groups c)"
    by (cases "get_client_by_issi (mm_client_mgr s) i") (auto simp: client_groups_def)
  have "gview (s\<lparr>mm_client_mgr := attach_client i g (mm_client_mgr s)\<rparr>) = gview s"
    using c by (auto simp: gview_def fun_eq_iff get_update_client)
  then show ?thesis
    using assms g(1) c
    by (simp add: attach_detach_group_def held_def wlp_simps client_group_attach_eq confirmed_def)
qed

lemma attach_held_groups:
  assumes "\<forall>giu \<in> set gius. held s i giu"
  shows "wlp (attach_detach_loop i gius) (\<lambda>r s'. r = (map confirmed gius, [], []) \<and> gview s' = gview s \<and> mm_config s' = mm_config s) s"
  using assms
proof (induction gius arbitrary: s)
  case (Cons giu gius)
  have step: "wlp (attach_detach_loop i gius) (\<lambda>r t. r = (map confirmed gius, [], []) \<and> gview t = gview s \<and> mm_config t = mm_config s) s'"
    if "gview s' = gview s" "mm_config s' = mm_config s" for s'
    using Cons.IH [of s'] Cons.prems that by (simp add: held_def gviewD [OF that(1)])
  show ?case
    unfolding attach_detach_loop.simps wlp_bind
    by (rule wlp_mono [OF attach_held_group])
       (use Cons.prems step in \<open>auto simp: wlp_simps intro: wlp_mono [OF step]\<close>)
qed (simp add: wlp_simps)

lemma try_attach_held:
  assumes "\<forall>giu \<in> set gius. held s i giu"
  shows "wlp (try_attach_detach_groups i gius) (\<lambda>r s'. r = map confirmed gius \<and> gview s' = gview s \<and> mm_config s' = mm_config s) s"
  unfolding try_attach_detach_groups_def wlp_bind
  by (rule wlp_mono [OF attach_held_groups [OF assms]]) (auto simp: wlp_simps)

lemma wlp_accept:
  "wlp (send_location_update_accept i h pdu esi gila) Q s \<longleftrightarrow>
     (\<forall>sdu. bind (DLocationUpdateAccept_to_bitbuf (location_update_accept (mm_config s) i pdu esi gila)) (\<lambda>_. seek 0) (new_autoexpand 34)
        = Ok ((), sdu) \<longrightarrow> Q () (s\<lparr>mm_queue := mm_queue s @ [lmm_req Layer2Acknowledged (TetraAddress_issi i) h sdu]\<rparr>))"
  by (auto simp: send_location_update_accept_def wlp_simps send_to_def wlp_def to_sdu_def split: outcome.splits)

lemma gview_queue [simp]: "gview (s\<lparr>mm_queue := q\<rparr>) = gview s"
  by (simp add: gview_def)

text \<open>A view with another shared registry.\<close>

definition with_subs :: "SubscriberRegistry \<Rightarrow> (u32 \<Rightarrow> u32 list option) \<times> SubscriberRegistry \<Rightarrow> (u32 \<Rightarrow> u32 list option) \<times> SubscriberRegistry" where
  "with_subs r v = (fst v, r)"

text \<open>The steps of a renewed registration before and after its group report.\<close>

lemma bind_unit: "bind m (\<lambda>_. ret ()) = (m :: unit mm)"
  by (simp add: bind_def ret_def fun_eq_iff split: outcome.split prod.split)

definition renew_before :: "u32 \<Rightarrow> u32 \<Rightarrow> EnergySavingInformation option \<Rightarrow> bool \<Rightarrow> unit mm" where
  "renew_before i h esi brew =
     bind (if brew then emit_subscriber_update i [] Action_Register else ret ()) (\<lambda>_.
     bind (on_mgr (set_client_handle i h)) (\<lambda>_.
     bind (ignore (try_mgr (set_client_energy_saving_mode i
       (case esi of Some e \<Rightarrow> EnergySavingInformation_energy_saving_mode e | None \<Rightarrow> EnergySavingMode_StayAlive)))) (\<lambda>_.
     ignore (try_mgr (set_client_monitoring_window i (Option.bind esi EnergySavingInformation_frame_number)
       (Option.bind esi EnergySavingInformation_multiframe_number))))))"

definition renew_after :: "nat \<Rightarrow> u32 \<Rightarrow> ULocationUpdateDemand \<Rightarrow> unit mm" where
  "renew_after now i pdu =
     bind (ignore (try_mgr (set_client_class_of_ms i (ULocationUpdateDemand_class_of_ms pdu)))) (\<lambda>_.
     bind (on_mgr (reset_registration_timer now i)) (\<lambda>_. recovery_mark_dirty))"

lemma neutral_renew: "neutral (renew_before i h esi brew)" "neutral (renew_after now i pdu)"
  unfolding renew_before_def renew_after_def by (intro neutral_intros)+

lemma complete_renewal:
  "complete_registration now i h pdu esi False d =
     bind (renew_before i h esi (ULocationUpdateDemand_location_update_type pdu = LocationUpdateType_ItsiAttach \<or> d)) (\<lambda>_.
     bind (process_group_demand i (ULocationUpdateDemand_group_identity_location_demand pdu)) (\<lambda>gila.
     bind (if ULocationUpdateDemand_group_identity_location_demand pdu = None then coverage_return i else ret ()) (\<lambda>_.
     bind (renew_after now i pdu) (\<lambda>_. send_location_update_accept i h pdu esi gila))))"
  by (simp add: complete_registration_def Let_def renew_before_def renew_after_def bind_assoc bind_unit)

text \<open>A registration without a report affiliates the terminal to all groups that it holds.\<close>

lemma complete_without_report:
  assumes "ULocationUpdateDemand_group_identity_location_demand pdu = None"
  shows "wlp (complete_registration now i h pdu esi False d)
     (\<lambda>_ s'. gview s' = with_subs (fold (sr_affiliate i) (client_groups s i) (mm_subscribers s)) (gview s)) s"
proof -
  let ?post = "\<lambda>t. gview t = with_subs (fold (sr_affiliate i) (client_groups s i) (mm_subscribers s)) (gview s)"
  have cov: "wlp (coverage_return i) (\<lambda>_. ?post) s1" if "gview s1 = gview s" for s1
  proof -
    have "gview (s1\<lparr>mm_subscribers := r\<rparr>) = with_subs r (gview s)" for r using that by (auto simp: gview_def with_subs_def)
    moreover have "gview s1 = with_subs (mm_subscribers s) (gview s)" using that by (auto simp: gview_def with_subs_def)
    ultimately show ?thesis
      by (auto simp: coverage_return_def wlp_simps gviewD [OF that] intro!: wlp_senders)
  qed
  have "neutral (bind (renew_after now i pdu) (\<lambda>_. send_location_update_accept i h pdu esi None))"
    by (intro neutral_bind neutral_renew neutral_senders)
  then have tail: "wlp (bind (renew_after now i pdu) (\<lambda>_. send_location_update_accept i h pdu esi None)) (\<lambda>_. ?post) s1" if "?post s1" for s1
    using that by (auto intro: wlp_neutral)
  show ?thesis
    unfolding complete_renewal assms process_group_demand_def option.case bind_ret simp_thms if_True
    by (rule wlp_bind_neutral [OF neutral_renew(1)]) (auto simp: wlp_bind [of "coverage_return i"] intro!: wlp_mono [OF cov] tail)
qed

text \<open>A report in amendment mode of groups that the terminal holds already confirms them to the terminal and changes nothing.\<close>

lemma complete_with_held_report:
  assumes "ULocationUpdateDemand_group_identity_location_demand pdu = Some gild"
    and "GroupIdentityLocationDemand_group_identity_attach_detach_mode gild \<noteq> 1"
    and "GroupIdentityLocationDemand_group_identity_uplink gild = Some gius" and "\<forall>giu \<in> set gius. held s i giu"
  shows "wlp (complete_registration now i h pdu esi False d)
     (\<lambda>_ s'. gview s' = gview s \<and> mm_queue s' \<noteq> [] \<and>
        (\<exists>sdu. last (mm_queue s') = lmm_req Layer2Acknowledged (TetraAddress_issi i) h sdu \<and>
           bind (DLocationUpdateAccept_to_bitbuf (location_update_accept (mm_config s) i pdu esi
             (Some \<lparr>GroupIdentityLocationAccept_group_identity_accept_reject = 0,
                    GroupIdentityLocationAccept_group_identity_downlink = Some (map confirmed gius)\<rparr>))) (\<lambda>_. seek 0) (new_autoexpand 34) = Ok ((), sdu))) s"
    (is "wlp _ (\<lambda>_. ?post) s")
proof -
  let ?gila = "Some \<lparr>GroupIdentityLocationAccept_group_identity_accept_reject = 0,
                     GroupIdentityLocationAccept_group_identity_downlink = Some (map confirmed gius)\<rparr>"
  have report: "wlp (process_group_demand i (Some gild)) (\<lambda>r t. r = ?gila \<and> gview t = gview s \<and> mm_config t = mm_config s) s1"
    if "gview s1 = gview s" "mm_config s1 = mm_config s" for s1
  proof -
    have "\<forall>giu \<in> set gius. held s1 i giu" using assms(4) by (simp add: held_def gviewD [OF that(1)])
    from try_attach_held [OF this] show ?thesis
      using assms(2,3) that by (auto simp: process_group_demand_def wlp_simps elim: wlp_mono)
  qed
  have tail: "wlp (bind (renew_after now i pdu) (\<lambda>_. send_location_update_accept i h pdu esi ?gila)) (\<lambda>_. ?post) s1"
    if "gview s1 = gview s" "mm_config s1 = mm_config s" for s1
    by (rule wlp_bind_neutral [OF neutral_renew(2)]) (use that in \<open>simp add: wlp_accept\<close>)
  show ?thesis
    unfolding complete_renewal assms(1) option.distinct if_False bind_ret
    by (rule wlp_bind_neutral [OF neutral_renew(1)])
       (auto simp: wlp_bind [of "process_group_demand i _"] intro!: wlp_mono [OF report] tail)
qed

text \<open>The registration of a known terminal: if it had been dropped from the shared registry, it is entered again without groups.\<close>

lemma wlp_register_known:
  assumes known: "client_is_known (mm_client_mgr s) i"
    and "\<And>s1. gview s1 = with_subs (if is_registered (mm_subscribers s) i then mm_subscribers s else sr_register i (mm_subscribers s)) (gview s) \<Longrightarrow>
       mm_config s1 = mm_config s \<Longrightarrow> wlp (complete_registration now i h pdu esi False (\<not> is_registered (mm_subscribers s) i)) Q s1"
  shows "wlp (register_location now i h pdu esi) Q s"
proof -
  let ?d = "\<not> is_registered (mm_subscribers s) i"
  have known': "client_is_known (mm_client_mgr s) i = True" using known by simp
  have readd: "wlp (if ?d then on_subs (sr_register i) else ret ()) (\<lambda>_. wlp (complete_registration now i h pdu esi False ?d) Q) s1"
    if "gview s1 = gview s" "mm_config s1 = mm_config s" for s1
    using that assms(2) by (auto simp: wlp_simps gview_def with_subs_def)
  have enter: "wlp (enter_client now i False) (\<lambda>e s2. e \<and> gview s2 = gview s1 \<and> mm_config s2 = mm_config s1) s1"
    if "client_is_known (mm_client_mgr s1) i" for s1
    using that by (simp add: enter_client_def wlp_simps set_client_state_def try_update_client_eq gview_update)
  show ?thesis
    unfolding register_location_def wlp_bind wlp_basic(3) known' simp_thms if_True
  proof (rule wlp_neutral [OF neutral_setters(1)])
    fix s1 :: MmBs assume s1: "gview s1 = gview s" "mm_config s1 = mm_config s"
    then have "client_is_known (mm_client_mgr s1) i" using known gviewD(2) [OF s1(1)] by simp
    from wlp_mono [OF enter [OF this]] show "wlp (enter_client now i False) (\<lambda>x. wlp (if \<not> x then ret ()
       else bind (if ?d then on_subs (sr_register i) else ret ()) (\<lambda>_. complete_registration now i h pdu esi False ?d)) Q) s1"
      using readd s1 by (auto simp: wlp_bind)
  qed
qed

text \<open>The gates in front of it: the terminal is allowed and within its rate limit, and asks for a supported, non-migrating update.\<close>

definition registrable :: "nat \<Rightarrow> MmBs \<Rightarrow> u32 \<Rightarrow> ULocationUpdateDemand \<Rightarrow> bool" where
  "registrable now s i pdu \<longleftrightarrow> issi_allowed s i \<and> fst (allow_registration now i (mm_client_mgr s)) \<and>
     ULocationUpdateDemand_location_update_type pdu \<noteq> LocationUpdateType_ServiceRestorationMigratingLocationUpdating \<and>
     feature_check_u_location_update_demand pdu"

lemma wlp_received: "reader (li_sdu prim) = Ok (pdu, b) \<Longrightarrow> wlp (received reader prim k) Q s = wlp (k pdu) Q s"
  by (simp add: wlp_def received_def)

lemma wlp_confirm:
  "(\<And>s1. gview s1 = gview s \<Longrightarrow> mm_config s1 = mm_config s \<Longrightarrow> mm_client_mgr s1 = mm_client_mgr s \<Longrightarrow> Q () s1) \<Longrightarrow> wlp (recovery_confirm i) Q s"
  by (simp add: recovery_confirm_def wlp_simps Let_def gview_def)

lemma wlp_room_known: "client_is_known (mm_client_mgr s) i \<Longrightarrow> wlp (make_room i) Q s = Q False s"
  by (simp add: make_room_def wlp_simps)

lemma wlp_location_known:
  assumes rd: "ULocationUpdateDemand_from_bitbuf (li_sdu prim) = Ok (pdu, b)" and i: "ta_ssi (li_received_address prim) = i"
    and ok: "registrable now s i pdu" and known: "client_is_known (mm_client_mgr s) i"
    and reg: "\<And>s1 esi. gview s1 = gview s \<Longrightarrow> mm_config s1 = mm_config s \<Longrightarrow> wlp (register_location now i (li_handle prim) pdu esi) Q s1"
  shows "wlp (rx_u_location_update_demand now prim) Q s"
proof -
  have types: "ULocationUpdateDemand_location_update_type pdu \<noteq> LocationUpdateType_MigratingLocationUpdating"
    "ULocationUpdateDemand_location_update_type pdu \<noteq> LocationUpdateType_ServiceRestorationMigratingLocationUpdating"
    using ok by (auto simp: registrable_def feature_check_u_location_update_demand_def)
  have inner: "wlp (make_room i) (\<lambda>full. wlp (if full then send_d_location_update_reject_cause i (li_handle prim)
        (ULocationUpdateDemand_location_update_type pdu) (ULocationUpdateDemand_address_extension pdu) RejectCause_Congestion
      else seq [recovery_confirm i, register_location now i (li_handle prim) pdu esi]) Q) s1"
    if s1: "gview s1 = gview s" "mm_config s1 = mm_config s" for s1 esi
  proof -
    have k: "client_is_known (mm_client_mgr s1) i" using known gviewD(2) [OF s1(1)] by simp
    show ?thesis
      using reg s1 by (auto simp: wlp_bind wlp_basic wlp_room_known [OF k] bind_unit intro!: wlp_confirm)
  qed
  have limit: "wlp (call_mgr (allow_registration now i)) (\<lambda>in_limit s2. in_limit \<and> gview s2 = gview s \<and> mm_config s2 = mm_config s) s1"
    if "gview s1 = gview s" "mm_config s1 = mm_config s" "mm_client_mgr s1 = mm_client_mgr s" for s1
  proof -
    have "wlp (call_mgr (allow_registration now i)) (\<lambda>in_limit s2. gview s2 = gview s \<and> mm_config s2 = mm_config s) s1"
      using that by (intro wlp_neutral neutral_intros) simp_all
    with that ok show ?thesis by (simp add: wlp_call_mgr registrable_def)
  qed
  show ?thesis
    unfolding rx_u_location_update_demand_def wlp_received [of ULocationUpdateDemand_from_bitbuf, OF rd] Let_def i
    using ok types
    by (auto simp: wlp_bind wlp_basic registrable_def intro!: wlp_confirm wlp_mono [OF limit] inner)
qed

section \<open>What the readers return\<close>

text \<open>A reader yields values with a property: whatever follows it is safe if it is safe for such values.\<close>

definition yields :: "'a bb \<Rightarrow> ('a \<Rightarrow> bool) \<Rightarrow> bool" where
  "yields m P \<longleftrightarrow> (\<forall>f :: 'a \<Rightarrow> unit bb. (\<forall>x. P x \<longrightarrow> safe (f x)) \<longrightarrow> safe (bind m f))"

named_theorems yields_intros \<open>what readers return\<close>

lemma yieldsD:
  assumes "yields m P" and "bb_inv b" and "m b = Ok (x, b')"
  shows "P x"
proof (rule ccontr)
  assume "\<not> P x"
  have "safe (bind m (\<lambda>x. if P x then ret () else panic))" using assms(1) by (simp add: yields_def safe_ret)
  from safe_not_panic [OF this assms(2)] show False using assms(3) \<open>\<not> P x\<close> by (simp add: bind_def panic_def)
qed

lemma yields_mono: "yields m P \<Longrightarrow> (\<And>x. P x \<Longrightarrow> Q x) \<Longrightarrow> yields m Q"
  by (simp add: yields_def)

lemma yields_bind: "yields m P \<Longrightarrow> (\<And>x. P x \<Longrightarrow> yields (f x) Q) \<Longrightarrow> yields (bind m f) Q"
  by (simp add: yields_def bind_assoc)

lemma yields_safe: "safe m \<Longrightarrow> (\<And>x. yields (f x) Q) \<Longrightarrow> yields (bind m f) Q"
  by (simp add: yields_def bind_assoc safe_bind)

lemma yields_ret: "P x \<Longrightarrow> yields (ret x) P"
  by (simp add: yields_def)

lemma yields_fail: "yields (fail e) P"
  by (simp add: yields_def safe_fail)

lemma yields_if: "(c \<Longrightarrow> yields m P) \<Longrightarrow> (\<not> c \<Longrightarrow> yields n P) \<Longrightarrow> yields (if c then m else n) P"
  by simp

lemma yields_gets: "(\<And>x. yields (f x) P) \<Longrightarrow> yields (bind (gets g) f) P"
  by (simp add: yields_def bind_assoc safe_gets)

lemma yields_read_field: "yields (read_field n s) (fits n)"
  by (simp add: yields_def safe_field_bind)

lemma yields_read_field_if: "yields (read_field_if c n s) (pred_option (fits n))"
  unfolding read_field_if_def by (intro yields_if yields_bind [OF yields_read_field] yields_ret) simp_all

lemma yields_type2: "yields (parse_type2_generic obit n s) (pred_option (fits n))"
  unfolding parse_type2_generic_def
  by (intro yields_if yields_safe [OF safe_delimiters(2)] yields_bind [OF yields_read_field] yields_ret) simp_all

lemma yields_peek:
  assumes "yields n P" and "yields k P"
  shows "yields (bind (peek_type34_mbit_and_id i) (\<lambda>present. if \<not> present then n else bind (seek_rel 5) (\<lambda>_. k))) P"
  unfolding yields_def
proof (intro allI impI)
  fix f :: "'a \<Rightarrow> unit bb" assume f: "\<forall>x. P x \<longrightarrow> safe (f x)"
  have eq: "bind (bind (peek_type34_mbit_and_id i) (\<lambda>present. if \<not> present then n else bind (seek_rel 5) (\<lambda>_. k))) f =
      bind (peek_type34_mbit_and_id i) (\<lambda>present. if \<not> present then bind n f else bind (seek_rel 5) (\<lambda>_. bind k f))"
    by (simp add: bind_assoc if_distrib [of "\<lambda>m. bind m f"] cong: if_cong)
  show "safe (bind (bind (peek_type34_mbit_and_id i) (\<lambda>present. if \<not> present then n else bind (seek_rel 5) (\<lambda>_. k))) f)"
    unfolding eq using assms f by (intro safe_peek_type34) (simp_all add: yields_def)
qed

lemma yields_type3_struct: "yields p P \<Longrightarrow> yields (parse_type3_struct obit i p) (pred_option P)"
  unfolding parse_type3_struct_def read_or_ended_eq Let_def
  by (intro yields_if yields_peek yields_safe [OF safe_read_field] yields_gets yields_fail yields_ret yields_bind [of p P]) simp_all

lemma yields_type4_header: "yields (parse_type4_header i) (pred_option (\<lambda>h. fst h < 64))"
  unfolding parse_type4_header_def read_or_ended_eq
  by (intro yields_if yields_peek yields_bind [OF yields_read_field] yields_gets yields_fail yields_ret) (simp_all add: fits_unat)

lemma yields_elems: "yields p P \<Longrightarrow> yields (parse_elems n p) (\<lambda>xs. list_all P xs \<and> length xs = n)"
  by (induction n) (auto intro!: yields_bind yields_ret elim: yields_mono)

lemma yields_type4_struct: "yields p P \<Longrightarrow> yields (parse_type4_struct obit i p) (pred_option (\<lambda>xs. list_all P xs \<and> length xs < 64))"
  unfolding parse_type4_struct_def
  by (intro yields_if yields_ret yields_bind [OF yields_type4_header])
     (auto split: option.split prod.split intro!: yields_ret yields_gets yields_fail yields_bind [OF yields_elems])

text \<open>The elements of a report: 24 bits of address, two of detachment, three of class.\<close>

definition uplink_ok :: "GroupIdentityUplink \<Rightarrow> bool" where
  "uplink_ok giu \<longleftrightarrow> pred_option (fits 24) (GroupIdentityUplink_gssi giu) \<and>
     pred_option (fits 2) (GroupIdentityUplink_group_identity_detachment_uplink giu) \<and> pred_option (fits 3) (GroupIdentityUplink_class_of_usage giu)"

lemma fits_narrowed: "fits n v \<Longrightarrow> n \<le> LENGTH('b) \<Longrightarrow> fits n (ucast v :: 'b::len word)" for v :: u64
  by (simp add: fits_iff bit_unsigned_iff)

lemma yields_GroupIdentityUplink: "yields GroupIdentityUplink_from_bitbuf uplink_ok"
  unfolding GroupIdentityUplink_from_bitbuf_def
  by (rule yields_safe [OF safe_read_field] yields_bind [OF yields_read_field_if] yields_ret)+
     (auto simp: uplink_ok_def pred_option_def fits_narrowed)

lemma yields_demand:
  "yields GroupIdentityLocationDemand_from_bitbuf
     (\<lambda>p. pred_option (\<lambda>xs. list_all uplink_ok xs \<and> length xs < 64) (GroupIdentityLocationDemand_group_identity_uplink p))"
  unfolding GroupIdentityLocationDemand_from_bitbuf_def
  by (rule yields_safe [OF safe_read_field] yields_safe [OF safe_expect(1)] yields_safe [OF safe_delimiters(1)]
      yields_bind [OF yields_type4_struct [OF yields_GroupIdentityUplink]] yields_safe [OF safe_l3(1)] yields_ret)+ simp

definition report_ok :: "ULocationUpdateDemand \<Rightarrow> bool" where
  "report_ok p \<longleftrightarrow> pred_option (fits 24) (ULocationUpdateDemand_address_extension p) \<and>
     pred_option (\<lambda>d. pred_option (\<lambda>xs. list_all uplink_ok xs \<and> length xs < 64) (GroupIdentityLocationDemand_group_identity_uplink d))
       (ULocationUpdateDemand_group_identity_location_demand p)"

lemma yields_ULocationUpdateDemand: "yields ULocationUpdateDemand_from_bitbuf report_ok"
proof -
  have enum: "safe (parse_type2_enum_unwrap obit EnergySavingMode_try_from 3 s)" for obit s
    by (intro safe_intros)
  show ?thesis
    unfolding ULocationUpdateDemand_from_bitbuf_def
    by (rule yields_safe [OF safe_read_field] yields_safe [OF safe_expect(2)] yields_safe [OF safe_read_enum] yields_safe [OF safe_l3(2)]
        yields_safe [OF safe_delimiters(1)] yields_safe [OF safe_parse_type2_struct [OF ClassOfMs.safe]] yields_safe [OF enum]
        yields_bind [OF yields_type2] yields_bind [OF yields_type3_struct [OF yields_demand]] yields_safe [OF safe_parse_type3_generic]
        yields_safe [OF safe_l3(1)] yields_ret)+ (simp add: report_ok_def)
qed

lemma yields_UAttachDetachGroupIdentity:
  "yields UAttachDetachGroupIdentity_from_bitbuf (\<lambda>p. pred_option (list_all uplink_ok) (UAttachDetachGroupIdentity_group_identity_uplink p))"
  unfolding UAttachDetachGroupIdentity_from_bitbuf_def
  by (rule yields_safe [OF safe_read_field] yields_safe [OF safe_expect(2)] yields_safe [OF safe_delimiters(1)]
      yields_safe [OF safe_parse_type3_generic] yields_bind [OF yields_type4_struct [OF yields_GroupIdentityUplink]]
      yields_safe [OF safe_l3(1)] yields_ret)+ (auto simp: pred_option_def)

section \<open>Programs that always end\<close>

definition live :: "'a mm \<Rightarrow> bool" where
  "live m \<longleftrightarrow> (\<forall>s. \<exists>x s'. m s = Ok (x, s'))"

definition gives :: "'a mm \<Rightarrow> ('a \<Rightarrow> bool) \<Rightarrow> bool" where
  "gives m P \<longleftrightarrow> (\<forall>s x s'. m s = Ok (x, s') \<longrightarrow> P x)"

named_theorems live_intros \<open>programs that always end\<close>

lemma live_not_panic: "live m \<Longrightarrow> m s \<noteq> Panic"
  by (metis live_def outcome.distinct(3))

lemma live_bind_gives: "live m \<Longrightarrow> gives m P \<Longrightarrow> (\<And>x. P x \<Longrightarrow> live (f x)) \<Longrightarrow> live (bind m f)"
  unfolding live_def gives_def bind_def by (metis (no_types, lifting) outcome.case(1) prod.case)

lemma live_bind [live_intros]: "live m \<Longrightarrow> (\<And>x. live (f x)) \<Longrightarrow> live (bind m f)"
  by (rule live_bind_gives [of m "\<lambda>_. True"]) (simp_all add: gives_def)

lemma live_basic [live_intros]:
  "live (ret x)" "live (upd f)" "live (gets g)" "live (push msg)" "live (on_mgr h)" "live (on_subs k)"
  by (simp_all add: live_def ret_def upd_def gets_def push_def on_mgr_def on_subs_def)

lemma live_call_mgr [live_intros]: "live (call_mgr f)"
  by (simp add: live_def call_mgr_def split: prod.split)

lemma live_seq [live_intros]: "live (seq [])" "live m \<Longrightarrow> live (seq ms) \<Longrightarrow> live (seq (m # ms))"
  by (auto intro: live_intros)

lemma live_seq_map: "(\<And>x. x \<in> set xs \<Longrightarrow> live (f x)) \<Longrightarrow> live (seq (map f xs))"
  by (induction xs) (auto intro: live_intros)

lemma live_if [live_intros]: "(b \<Longrightarrow> live m) \<Longrightarrow> (\<not> b \<Longrightarrow> live n) \<Longrightarrow> live (if b then m else n)"
  by simp

lemma live_option [live_intros]: "live m \<Longrightarrow> (\<And>x. v = Some x \<Longrightarrow> live (f x)) \<Longrightarrow> live (case v of None \<Rightarrow> m | Some x \<Rightarrow> f x)"
  by (cases v) simp_all

lemma live_sum [live_intros]: "(\<And>e. live (f e)) \<Longrightarrow> (\<And>x. live (g x)) \<Longrightarrow> live (case r of Inl e \<Rightarrow> f e | Inr x \<Rightarrow> g x)"
  by (simp split: sum.split)

lemma live_ignore [live_intros]: "live m \<Longrightarrow> live (ignore m)"
  unfolding ignore_def by (intro live_intros)

lemma live_try_mgr: "(\<And>m. p m \<noteq> Panic) \<Longrightarrow> live (try_mgr p)"
  unfolding live_def try_mgr_def by (auto split: outcome.split)

lemma live_try [live_intros]:
  "live (try_mgr (set_client_state i st))" "live (try_mgr (set_client_energy_saving_mode i e))"
  "live (try_mgr (set_client_monitoring_window i f mf))" "live (try_mgr (set_client_class_of_ms i c))"
  "live (try_mgr (set_client_tei i t))" "live (try_mgr (client_group_attach i g a))" "live (try_mgr (client_detach_all_groups i))"
  "live (try_mgr (try_register_client now i b))"
  by (intro live_try_mgr; simp add: set_client_state_def set_client_energy_saving_mode_def set_client_monitoring_window_def
      set_client_class_of_ms_def set_client_tei_def try_update_client_eq client_group_attach_eq client_detach_all_groups_eq
      try_register_client_def is_individual_def split: option.split)+

lemma live_mark_dirty [live_intros]: "live recovery_mark_dirty" "live (recovery_confirm i)"
  by (simp_all add: recovery_mark_dirty_def recovery_confirm_def live_basic)

lemma live_update [live_intros]: "live (emit_subscriber_update i gs a)"
  unfolding emit_subscriber_update_def Let_def by (intro live_intros)

section \<open>Writing PDUs\<close>

lemma written_ok:
  assumes "emits w bs" and "length bs < 2 ^ 64"
  obtains b where "bind w (\<lambda>_. seek 0) (new_autoexpand n) = Ok ((), b)"
proof -
  have "room (new_autoexpand n) (length bs)" using assms(2) by (simp add: room_def new_autoexpand_def)
  then obtain b where b: "w (new_autoexpand n) = Ok ((), b)" "wrote (new_autoexpand n) bs b"
    using assms(1) bb_inv_new_autoexpand [of n] unfolding emits_def by blast
  then have "bb_start b = 0" "bb_inv b" by (auto simp: wrote_def new_autoexpand_def)
  with b(1) show thesis by (intro that) (simp add: bind_def seek_def try_seek_def checked_add_def guard_def ret_def)
qed

lemma live_to_sdu: "emits w bs \<Longrightarrow> length bs < 2 ^ 64 \<Longrightarrow> live (to_sdu n w)"
  unfolding live_def to_sdu_def by (auto elim!: written_ok [of w bs n])

lemma live_send_to [live_intros]: "live (send_to i h b)"
  by (simp add: send_to_def live_basic)

lemma live_if_written: "emits w bs \<Longrightarrow> length bs < 2 ^ 64 \<Longrightarrow> live (send_if_written i h w)"
  using live_send_to unfolding live_def send_if_written_def by (auto elim!: written_ok [of w bs 32])

lemma granted_wf: "EnergySavingInformation_wf (grant_energy_saving i m)"
proof (cases "m = EnergySavingMode_StayAlive")
  case True
  then show ?thesis by (simp add: grant_energy_saving_def ee_cycle_frames_def EnergySavingInformation_wf_def Let_def)
next
  case False
  then obtain f c where w: "EnergySavingInformation_frame_number (grant_energy_saving i m) = Some f"
    "EnergySavingInformation_multiframe_number (grant_energy_saving i m) = Some 1"
    "ee_cycle_frames (EnergySavingInformation_energy_saving_mode (grant_energy_saving i m)) = Some c" "1 \<le> f" "f \<le> 18" "c = 2 \<or> c = 3 \<or> c = 6"
    by (rule granted_window)
  have "EnergySavingInformation_energy_saving_mode (grant_energy_saving i m) \<noteq> EnergySavingMode_StayAlive"
    using w(3) by (auto simp: ee_cycle_frames_def)
  moreover have "fits 5 f" "fits 6 (1 :: u8)" using w(5) by (simp_all add: fits_unat word_le_nat_alt)
  ultimately show ?thesis using w(1,2) by (simp add: EnergySavingInformation_wf_def)
qed

lemma length_enc_opt: "length (enc_opt n v) \<le> n"
  by (simp add: enc_opt_def split: option.split)

lemma live_command [live_intros]: "live (send_d_location_update_command i h)"
proof -
  let ?p = "\<lparr>DLocationUpdateCommand_group_identity_report = True, DLocationUpdateCommand_cipher_control = False,
        DLocationUpdateCommand_ciphering_parameters = None, DLocationUpdateCommand_address_extension = None,
        DLocationUpdateCommand_cell_type_control = None, DLocationUpdateCommand_proprietary = None\<rparr>"
  have "DLocationUpdateCommand_to_bitbuf ?p = seq [write_bits (MmPduTypeDl_into_raw MmPduTypeDl_DLocationUpdateCommand) 4, write_bits 1 1,
      write_bits 0 1, write_field_opt None 10, bind (write_obit 0) (\<lambda>_. ret ())]"
    by (simp add: DLocationUpdateCommand_to_bitbuf_def)
  moreover have "emits \<dots> (to_bits 4 (MmPduTypeDl_into_raw MmPduTypeDl_DLocationUpdateCommand) @ to_bits 1 (1 :: u64) @ to_bits 1 (0 :: u64) @
       enc_opt 10 None @ [False])"
    by (intro emits_seq_Cons emits_seq_last emits_write_bits l3_emits(1-4) emits_no_obit) (simp_all add: fits_unat)
  ultimately have "emits (DLocationUpdateCommand_to_bitbuf ?p) (to_bits 4 (MmPduTypeDl_into_raw MmPduTypeDl_DLocationUpdateCommand) @
      to_bits 1 (1 :: u64) @ to_bits 1 (0 :: u64) @ enc_opt 10 None @ [False])" by (simp only:)
  from live_to_sdu [OF this] show ?thesis unfolding send_d_location_update_command_def by (intro live_bind live_send_to) simp_all
qed

lemma length_enc_type2: "(\<And>x. length (e x) \<le> n) \<Longrightarrow> length (enc_type2 obit e v) \<le> n + 1"
  by (auto simp: enc_type2_def split: option.split)

lemma live_reject [live_intros]:
  assumes "pred_option (fits 24) x"
  shows "live (send_d_location_update_reject_cause i h t x c)" "live (send_d_location_update_reject_migration i h t x)"
proof -
  have "fits 5 (ucast (RejectCause_into_raw c') :: u8)" for c' by (cases c') (simp_all add: fits_unat)
  then have "live (send_d_location_update_reject_cause i h t x c')" for c'
    unfolding send_d_location_update_reject_cause_def
    by (intro live_bind live_send_to live_to_sdu [OF emits_DLocationUpdateReject])
       (use assms in \<open>auto simp: DLocationUpdateReject_wf_def DLocationUpdateReject_enc_def Let_def enc_opt_def enc_type2_def enc_type3_generic_def
          split: option.split\<close>)
  then show "live (send_d_location_update_reject_cause i h t x c)" "live (send_d_location_update_reject_migration i h t x)"
    by (simp_all add: send_d_location_update_reject_migration_def)
qed

lemma live_status [live_intros]: "live (send_d_mm_status_energy_saving i h (grant_energy_saving j m))"
  unfolding send_d_mm_status_energy_saving_def
  by (intro live_bind live_send_to live_to_sdu [OF DMmStatus.emits])
     (simp_all add: DMmStatus_wf_def granted_wf DMmStatus_enc_def)

lemma live_ack_reject [live_intros]: "live (send_d_attach_detach_ack_reject i h)"
  unfolding send_d_attach_detach_ack_reject_def
  by (intro live_bind live_send_to live_to_sdu [OF DAttachDetachGroupIdentityAcknowledgement.emits])
     (simp_all add: DAttachDetachGroupIdentityAcknowledgement_wf_def DAttachDetachGroupIdentityAcknowledgement_enc_def attach_detach_ack_def
        fits_unat enc_type3_generic_def enc_type4_def enc_todo_def)

text \<open>The elements of a downlink list: at most 32 bits each, so 63 of them fit.\<close>

definition downlink_ok :: "GroupIdentityDownlink \<Rightarrow> bool" where
  "downlink_ok g \<longleftrightarrow> GroupIdentityDownlink_wf g \<and> length (GroupIdentityDownlink_enc g) \<le> 32"

lemma attached_gid_ok: "fits 3 u \<Longrightarrow> fits 24 g \<Longrightarrow> downlink_ok (attached_gid u g)"
  by (simp add: downlink_ok_def attached_gid_def GroupIdentityDownlink_wf_def GroupIdentityDownlink_enc_def GroupIdentityAttachment_wf_def
      GroupIdentityAttachment_enc_def enc_opt_def fits_unat)

lemma detached_gid_ok: "fits 2 u \<Longrightarrow> fits 24 g \<Longrightarrow> downlink_ok (detached_gid (Some u) g)"
  by (simp add: downlink_ok_def detached_gid_def GroupIdentityDownlink_wf_def GroupIdentityDownlink_enc_def enc_opt_def)

lemma downlink_list:
  assumes "list_all downlink_ok gs"
  shows "list_all GroupIdentityDownlink_wf gs" and "length (concat (map GroupIdentityDownlink_enc gs)) \<le> 32 * length gs"
  using assms by (induction gs) (auto simp: downlink_ok_def)

lemma ack_wf:
  assumes "pred_option (\<lambda>gs. list_all downlink_ok gs \<and> length gs < 64) gid" and "fits 1 r"
  shows "DAttachDetachGroupIdentityAcknowledgement_wf (attach_detach_ack r gid)"
    and "length (DAttachDetachGroupIdentityAcknowledgement_enc (attach_detach_ack r gid)) < 2 ^ 64"
proof -
  have b: "6 + length (concat (map GroupIdentityDownlink_enc gs)) < 2048 \<and> list_all GroupIdentityDownlink_wf gs" if "gid = Some gs" for gs
    using assms(1) downlink_list [of gs] that by auto
  then show "DAttachDetachGroupIdentityAcknowledgement_wf (attach_detach_ack r gid)"
    using assms by (auto simp: DAttachDetachGroupIdentityAcknowledgement_wf_def attach_detach_ack_def pred_option_def)
  show "length (DAttachDetachGroupIdentityAcknowledgement_enc (attach_detach_ack r gid)) < 2 ^ 64"
    using b by (cases gid) (simp_all add: DAttachDetachGroupIdentityAcknowledgement_enc_def attach_detach_ack_def enc_type3_generic_def enc_type4_def enc_todo_def elem34_def)
qed

lemma live_ack:
  "pred_option (\<lambda>gs. list_all downlink_ok gs \<and> length gs < 64) gid \<Longrightarrow>
   live (to_sdu 32 (DAttachDetachGroupIdentityAcknowledgement_to_bitbuf (attach_detach_ack 0 gid)))"
  by (intro live_to_sdu [OF DAttachDetachGroupIdentityAcknowledgement.emits] ack_wf) (simp_all add: fits_unat)

lemma live_group_report:
  assumes "length gs < 64" and "list_all (fits 24) gs"
  shows "live (send_d_attach_detach_ack i h gs)"
proof -
  have "list_all downlink_ok (map (attached_gid 4) gs)"
    using assms(2) by (induction gs) (auto intro: attached_gid_ok simp: fits_unat [of 3])
  then have "pred_option (\<lambda>gs. list_all downlink_ok gs \<and> length gs < 64)
      (if map (attached_gid 4) gs = [] then None else Some (map (attached_gid 4) gs))" using assms(1) by simp
  from ack_wf [OF this, of 0] show ?thesis
    unfolding send_d_attach_detach_ack_def Let_def
    by (intro live_if_written [OF DAttachDetachGroupIdentityAcknowledgement.emits]) (simp_all add: fits_unat)
qed

lemma live_accept:
  assumes "fits 24 i"
    and "pred_option (\<lambda>g. GroupIdentityLocationAccept_group_identity_accept_reject g = 0 \<and>
       pred_option (\<lambda>gs. list_all downlink_ok gs \<and> length gs < 64) (GroupIdentityLocationAccept_group_identity_downlink g)) gila"
  shows "live (send_location_update_accept i h pdu (map_option (grant_energy_saving i) esm) gila)"
proof -
  have g: "GroupIdentityLocationAccept_wf g \<and> length (GroupIdentityLocationAccept_enc g) < 2048" if "gila = Some g" for g
  proof (cases "GroupIdentityLocationAccept_group_identity_downlink g")
    case None
    then show ?thesis
      using assms(2) that by (simp add: GroupIdentityLocationAccept_wf_def GroupIdentityLocationAccept_enc_def fits_unat)
  next
    case (Some gs)
    then have "list_all downlink_ok gs" "length gs < 64" using assms(2) that by simp_all
    with downlink_list [of gs] Some show ?thesis
      using assms(2) that by (simp add: GroupIdentityLocationAccept_wf_def GroupIdentityLocationAccept_enc_def fits_unat enc_type4_def elem34_def)
  qed
  have "fits 6 (1 :: u64)" by (simp add: fits_unat)
  then have s: "pred_option (fits 6) (scch_info pdu)"
    by (cases "ULocationUpdateDemand_class_of_ms pdu") (auto simp: scch_info_def)
  have i: "fits 24 (ucast i :: u64)" using assms(1) by (simp add: fits_iff bit_unsigned_iff)
  have wf: "DLocationUpdateAccept_wf (location_update_accept c i pdu (map_option (grant_energy_saving i) esm) gila)" for c
    using g s i granted_wf by (auto simp: DLocationUpdateAccept_wf_def location_update_accept_def pred_option_def)
  have len: "length (DLocationUpdateAccept_enc (location_update_accept c i pdu (map_option (grant_energy_saving i) esm) gila)) < 2 ^ 64" for c
  proof -
    have a: "length (enc_type2 True (to_bits 24) (Some (ucast i :: u64))) \<le> 25" by (simp add: enc_type2_def)
    have b: "length (enc_type2 True EnergySavingInformation_enc (map_option (grant_energy_saving i) esm)) \<le> 15"
      by (simp add: enc_type2_def split: option.split)
    have d: "length (enc_type2 True (to_bits 6) (scch_info pdu)) \<le> 7" by (simp add: enc_type2_def split: option.split)
    have f: "length (enc_type3 j GroupIdentityLocationAccept_enc gila) \<le> 2064" for j
      using g by (cases gila) (auto simp: enc_type3_def elem34_def)
    show ?thesis
      using a b d f [of "MmType34ElemIdDl_into_raw MmType34ElemIdDl_GroupIdentityLocationAccept"]
      by (simp add: DLocationUpdateAccept_enc_def location_update_accept_def enc_type2_def)
  qed
  show ?thesis
    unfolding send_location_update_accept_def
    by (intro live_bind live_basic live_send_to live_to_sdu [OF DLocationUpdateAccept.emits [OF wf] len])
qed

lemma live_not_supported [live_intros]:
  "live (make_ul_mm_pdu_function_not_supported h MmPduTypeUl_UMmStatus (Some (6, StatusUplink_into_raw st)) a)"
proof -
  let ?p = "\<lparr>MmPduFunctionNotSupported_not_supported_pdu_type = ucast (MmPduTypeUl_into_raw MmPduTypeUl_UMmStatus),
      MmPduFunctionNotSupported_not_supported_sub_pdu_type = Some (6, StatusUplink_into_raw st)\<rparr>"
  have st: "fits 6 (StatusUplink_into_raw st)" by (cases st) (simp_all add: fits_unat)
  have "MmPduFunctionNotSupported_to_bitbuf ?p = seq [write_bits (MmPduTypeDl_into_raw MmPduTypeDl_MmPduFunctionNotSupported) 4, write_bits 3 4,
      bind (write_obit (of_bool True)) (\<lambda>_. if \<not> True then ret () else seq [write_type2_generic True (Some (StatusUplink_into_raw st)) 6, write_mbit 0])]"
    by (simp add: MmPduFunctionNotSupported_to_bitbuf_def)
  moreover have "emits \<dots> (to_bits 4 (MmPduTypeDl_into_raw MmPduTypeDl_MmPduFunctionNotSupported) @ to_bits 4 (3 :: u64) @ True #
      enc_type2 True (to_bits 6) (Some (StatusUplink_into_raw st)) @ (if True then [False] else []))"
    by (intro emits_seq_Cons emits_seq_last [of "bind _ _"] emits_write_bits emits_optional l3_emits(1-8) emits_last_mbit)
       (simp_all add: fits_unat [of 4] st)
  ultimately have "emits (MmPduFunctionNotSupported_to_bitbuf ?p) (to_bits 4 (MmPduTypeDl_into_raw MmPduTypeDl_MmPduFunctionNotSupported) @
      to_bits 4 (3 :: u64) @ True # enc_type2 True (to_bits 6) (Some (StatusUplink_into_raw st)) @ (if True then [False] else []))" by (simp only:)
  from live_to_sdu [OF this] show ?thesis
    unfolding make_ul_mm_pdu_function_not_supported_def by (intro live_bind live_basic) (simp_all add: enc_type2_def)
qed

section \<open>The uplink handlers end\<close>

lemma gives_bind: "gives m P \<Longrightarrow> (\<And>x. P x \<Longrightarrow> gives (f x) Q) \<Longrightarrow> gives (bind m f) Q"
  unfolding gives_def bind_def by (fastforce split: outcome.splits prod.splits)

lemma gives_any: "(\<And>x. gives (f x) Q) \<Longrightarrow> gives (bind m f) Q"
  by (rule gives_bind [of m "\<lambda>_. True"]) (simp_all add: gives_def)

lemma gives_ret: "P x \<Longrightarrow> gives (ret x) P"
  by (simp add: gives_def ret_def)

lemma gives_group:
  assumes "uplink_ok giu"
  shows "gives (attach_detach_group i giu) (\<lambda>r. pred_option downlink_ok (fst r))"
proof -
  have att: "downlink_ok (attached_gid (case GroupIdentityUplink_class_of_usage giu of Some u \<Rightarrow> u | None \<Rightarrow> 0) g)"
    if "GroupIdentityUplink_gssi giu = Some g" for g
    using assms that by (intro attached_gid_ok) (auto simp: uplink_ok_def fits_unat split: option.split)
  have det: "downlink_ok (detached_gid (GroupIdentityUplink_group_identity_detachment_uplink giu) g)"
    if "GroupIdentityUplink_gssi giu = Some g" "GroupIdentityUplink_group_identity_detachment_uplink giu \<noteq> None" for g
    using assms that detached_gid_ok [of _ g] by (auto simp: uplink_ok_def)
  show ?thesis
  proof (cases "GroupIdentityUplink_gssi giu")
    case (Some g)
    show ?thesis
      unfolding attach_detach_group_def Some option.case
      using att [OF Some] det [OF Some] by (auto intro!: gives_ret gives_any split: sum.split simp del: not_None_eq)
  qed (simp add: attach_detach_group_def gives_ret)
qed

lemma gives_loop:
  assumes "list_all uplink_ok gius"
  shows "gives (attach_detach_loop i gius) (\<lambda>r. list_all downlink_ok (fst r) \<and> length (fst r) \<le> length gius)"
  using assms
proof (induction gius)
  case (Cons giu gius)
  then show ?case
    unfolding attach_detach_loop.simps
    by (intro gives_bind [OF gives_group]) (auto split: option.split intro!: gives_bind [OF Cons.IH] gives_ret)
qed (simp add: gives_ret)

lemma gives_try_attach:
  "list_all uplink_ok gius \<Longrightarrow> gives (try_attach_detach_groups i gius) (\<lambda>gs. list_all downlink_ok gs \<and> length gs \<le> length gius)"
  unfolding try_attach_detach_groups_def by (rule gives_bind [OF gives_loop]) (auto intro!: gives_any gives_ret)

lemma live_group [live_intros]: "live (attach_detach_group i giu)"
  unfolding attach_detach_group_def by (intro live_intros)

lemma live_try_attach [live_intros]: "live (try_attach_detach_groups i gius)"
proof -
  have "live (attach_detach_loop i gius)" by (induction gius) (auto split: prod.split intro!: live_intros)
  then show ?thesis unfolding try_attach_detach_groups_def by (auto split: prod.split intro!: live_intros)
qed

lemma live_steps [live_intros]:
  "live (release_client i)" "live (detach_all_first i)" "live (replace_groups_first now i h)" "live (enter_client now i b)" "live (coverage_return i)"
  unfolding release_client_def detach_all_first_def replace_groups_first_def enter_client_def coverage_return_def by (intro live_intros)+

lemma live_make_room [live_intros]: "live (make_room i)"
  unfolding make_room_def by (intro live_intros live_seq_map)

lemma live_group_demand:
  assumes "pred_option (\<lambda>d. pred_option (\<lambda>xs. list_all uplink_ok xs \<and> length xs < 64) (GroupIdentityLocationDemand_group_identity_uplink d)) demand"
  shows "live (process_group_demand i demand)"
    and "gives (process_group_demand i demand) (pred_option (\<lambda>g. GroupIdentityLocationAccept_group_identity_accept_reject g = 0 \<and>
       pred_option (\<lambda>gs. list_all downlink_ok gs \<and> length gs < 64) (GroupIdentityLocationAccept_group_identity_downlink g)))"
proof -
  show "live (process_group_demand i demand)" unfolding process_group_demand_def by (intro live_intros)
  show "gives (process_group_demand i demand) (pred_option (\<lambda>g. GroupIdentityLocationAccept_group_identity_accept_reject g = 0 \<and>
       pred_option (\<lambda>gs. list_all downlink_ok gs \<and> length gs < 64) (GroupIdentityLocationAccept_group_identity_downlink g)))"
  proof (cases demand)
    case (Some d)
    have "gives (case GroupIdentityLocationDemand_group_identity_uplink d of
        Some giu \<Rightarrow> bind (try_attach_detach_groups i giu) (\<lambda>gs. ret (Some gs)) | None \<Rightarrow> ret None)
        (pred_option (\<lambda>gs. list_all downlink_ok gs \<and> length gs < 64))"
      using assms Some by (auto split: option.split intro!: gives_ret gives_bind [OF gives_try_attach])
    then show ?thesis unfolding process_group_demand_def Some option.case by (intro gives_any gives_bind [of _ "pred_option _"] gives_ret) simp_all
  qed (simp add: process_group_demand_def gives_ret)
qed

lemma live_complete:
  assumes "fits 24 i" and "report_ok pdu"
  shows "live (complete_registration now i h pdu (map_option (grant_energy_saving i) esm) is_new d)"
proof -
  note d = live_group_demand [of "ULocationUpdateDemand_group_identity_location_demand pdu" i]
  have "pred_option (\<lambda>d. pred_option (\<lambda>xs. list_all uplink_ok xs \<and> length xs < 64) (GroupIdentityLocationDemand_group_identity_uplink d))
      (ULocationUpdateDemand_group_identity_location_demand pdu)" using assms(2) by (simp add: report_ok_def)
  note d = d [OF this]
  show ?thesis
    unfolding complete_registration_def Let_def
    by (intro live_intros live_bind_gives [OF d] live_accept assms(1))
qed

lemma live_received:
  assumes "bb_inv (li_sdu prim)" and "safe reader" and "yields reader P" and "\<And>pdu. P pdu \<Longrightarrow> live (k pdu)"
  shows "live (received reader prim k)"
  unfolding live_def
proof
  fix s
  show "\<exists>x s'. received reader prim k s = Ok (x, s')"
  proof (cases "reader (li_sdu prim)")
    case (Ok xb)
    then have "live (k (fst xb))" using assms(4) yieldsD [OF assms(3,1)] by (metis prod.collapse)
    then show ?thesis using Ok by (auto simp: received_def live_def split: prod.split)
  qed (use safe_not_panic [OF assms(2,1)] in \<open>simp_all add: received_def\<close>)
qed

lemma yields_any: "safe m \<Longrightarrow> yields m (\<lambda>_. True)"
  by (simp add: yields_def safe_bind)

lemmas live_reader = live_received [OF _ _ yields_any]

lemma live_register:
  "fits 24 i \<Longrightarrow> report_ok pdu \<Longrightarrow> live (register_location now i h pdu (map_option (grant_energy_saving i) esm))"
  unfolding register_location_def by (intro live_intros live_complete)

lemma live_rx_location:
  assumes "bb_inv (li_sdu prim)" and "fits 24 (ta_ssi (li_received_address prim))"
  shows "live (rx_u_location_update_demand now prim)"
  unfolding rx_u_location_update_demand_def Let_def
  by (intro live_received [OF assms(1) ULocationUpdateDemand.safe yields_ULocationUpdateDemand] live_intros live_register assms(2))
     (simp_all add: report_ok_def)

lemma live_rx_status: "bb_inv (li_sdu prim) \<Longrightarrow> live (rx_u_mm_status prim)"
  unfolding rx_u_mm_status_def Let_def
  by (intro live_reader safe_UMmStatus live_intros)

lemma live_rx_others:
  assumes "bb_inv (li_sdu prim)"
  shows "live (rx_u_itsi_detach prim)" and "live (rx_u_attach_detach_group_identity_ack prim)" and "live (rx_u_tei_provide prim)"
  unfolding rx_u_itsi_detach_def rx_u_attach_detach_group_identity_ack_def rx_u_tei_provide_def Let_def
  by (intro live_reader assms UItsiDetach.safe UAttachDetachGroupIdentityAcknowledgement.safe UTeiProvide.safe live_intros)+

text \<open>The groups that a report lists: the writer panics if there are too many, or one is wider than 24 bits.\<close>

definition reportable :: "u32 list \<Rightarrow> bool" where
  "reportable gs \<longleftrightarrow> length gs < 64 \<and> list_all (fits 24) gs"

lemma live_rx_attach:
  assumes "bb_inv (li_sdu prim)" and "reportable (client_groups s (ta_ssi (li_received_address prim)))"
  shows "\<exists>s'. rx_u_attach_detach_group_identity now prim s = Ok ((), s')"
proof -
  let ?i = "ta_ssi (li_received_address prim)"
  have ack: "live (bind (try_attach_detach_groups ?i (take MAX_GROUPS_PER_ATTACH gius)) (\<lambda>gs. bind recovery_mark_dirty (\<lambda>_.
      bind (to_sdu 32 (DAttachDetachGroupIdentityAcknowledgement_to_bitbuf (attach_detach_ack 0 (Some gs)))) (send_to ?i (li_handle prim)))))"
    if "list_all uplink_ok gius" for gius
  proof -
    have "list_all uplink_ok (take n gius)" for n using that by (auto simp: list_all_iff dest: in_set_takeD)
    then show ?thesis
      by (intro live_bind_gives [OF live_try_attach gives_try_attach] live_bind live_mark_dirty live_send_to live_ack)
         (auto simp: MAX_GROUPS_PER_ATTACH_def)
  qed
  let ?k = "\<lambda>pdu. if \<not> issi_allowed s ?i then send_d_attach_detach_ack_reject ?i (li_handle prim)
        else if \<not> feature_check_u_attach_detach_group_identity pdu
        then send_d_attach_detach_ack ?i (li_handle prim) (client_groups s ?i)
        else bind (if UAttachDetachGroupIdentity_group_identity_attach_detach_mode pdu
                   then replace_groups_first now ?i (li_handle prim) else ret True) (\<lambda>go_on.
          if \<not> go_on then ret ()
          else case UAttachDetachGroupIdentity_group_identity_uplink pdu of
            None \<Rightarrow> ret ()
          | Some giu \<Rightarrow>
              bind (try_attach_detach_groups ?i (take MAX_GROUPS_PER_ATTACH giu)) (\<lambda>accepted_gid.
              bind recovery_mark_dirty (\<lambda>_.
              bind (to_sdu 32 (DAttachDetachGroupIdentityAcknowledgement_to_bitbuf (attach_detach_ack 0 (Some accepted_gid))))
                (send_to ?i (li_handle prim)))))"
  have "live (received UAttachDetachGroupIdentity_from_bitbuf prim ?k)"
    using assms(2)
    by (intro live_received [OF assms(1) UAttachDetachGroupIdentity.safe yields_UAttachDetachGroupIdentity] live_intros ack live_group_report)
       (auto simp: reportable_def)
  moreover have "rx_u_attach_detach_group_identity now prim s = received UAttachDetachGroupIdentity_from_bitbuf prim ?k s"
    by (simp add: rx_u_attach_detach_group_identity_def received_def Let_def bind_def gets_def cong: if_cong option.case_cong split: outcome.split)
  ultimately show ?thesis by (simp add: live_def)
qed

lemma rx_ind_ends:
  assumes sdu: "bb_inv (li_sdu prim)" and i: "fits 24 (ta_ssi (li_received_address prim))"
    and gs: "reportable (client_groups s (ta_ssi (li_received_address prim)))"
  shows "\<exists>s'. rx_lmm_mle_unitdata_ind now prim s = Ok ((), s')"
  using live_rx_location [OF sdu i, of now] live_rx_status [OF sdu] live_rx_others [OF sdu] live_rx_attach [OF sdu gs, of now]
  by (auto simp: rx_lmm_mle_unitdata_ind_def peek_bits_spec [OF sdu] live_def split: option.split MmPduTypeUl.split)

section \<open>A report of too many groups\<close>

text \<open>A writer that panics although the buffer has room for \<open>n\<close> bits.\<close>

definition breaks :: "unit bb \<Rightarrow> nat \<Rightarrow> bool" where
  "breaks m n \<longleftrightarrow> (\<forall>b. bb_inv b \<longrightarrow> room b n \<longrightarrow> m b = Panic)"

lemma breaks_first: "breaks m n \<Longrightarrow> breaks (bind m f) n"
  by (simp add: breaks_def bind_def)

lemma breaks_later: "emits m bs \<Longrightarrow> breaks k n \<Longrightarrow> breaks (bind m (\<lambda>_. k)) (length bs + n)"
  unfolding breaks_def
proof (intro allI impI)
  fix b assume m: "emits m bs" and k: "\<forall>b. bb_inv b \<longrightarrow> room b n \<longrightarrow> k b = Panic" and b: "bb_inv b" "room b (length bs + n)"
  then have "room b (length bs)" by (auto intro: room_mono)
  with m b(1) obtain b1 where "m b = Ok ((), b1)" "wrote b bs b1" by (rule emitsE)
  moreover from this(2) b have "bb_inv b1" "room b1 n" by (auto intro: wrote_room simp: wrote_def)
  ultimately show "bind m (\<lambda>_. k) b = Panic" using k by (simp add: bind_def)
qed

lemma breaks_wide: "2 ^ n \<le> k \<Longrightarrow> k < 2 ^ 64 \<Longrightarrow> n < 64 \<Longrightarrow> write_bits (of_nat k) n b = Panic"
proof -
  assume k: "2 ^ n \<le> k" "k < 2 ^ 64" and "n < 64"
  have "unat (of_nat k :: u64) = k" using k(2) by (simp add: unsigned_of_nat take_bit_nat_eq_self)
  then have "drop_bit n (of_nat k :: u64) \<noteq> 0" using k(1) fits_unat [of n "of_nat k :: u64"] \<open>n < 64\<close> by (simp add: fits_def)
  with \<open>n < 64\<close> show ?thesis by (simp add: write_bits_def guard_def bind_def panic_def)
qed

lemma breaks_type4:
  assumes "fits 4 i" and w: "\<And>x. x \<in> set xs \<Longrightarrow> emits (w x) (f x)" and "2048 \<le> 6 + length (concat (map f xs))"
  shows "breaks (write_type4_struct True (Some xs) i w) (5 + (17 + length (concat (map f xs))))"
proof -
  let ?ys = "concat (map f xs)"
  let ?k = "bind (gets bb_pos) (\<lambda>p. bind (write_bits 0 (11 + 6)) (\<lambda>_. bind (seq (map w xs)) (\<lambda>_. bind (gets bb_pos) (\<lambda>e.
     seq [set_raw_pos p, write_bits (of_nat (e - p - 11)) 11, write_bits (of_nat (length xs)) 6, set_raw_pos e]))))"
  have all: "emits (bind (write_bits 0 (11 + 6)) (\<lambda>_. seq (map w xs))) (to_bits 17 (0 :: u64) @ ?ys)"
    using emits_bind [OF emits_write_bits [of 17 0] emits_seq_map [of xs w f, OF w]] by simp
  have "breaks ?k (17 + length ?ys)"
    unfolding breaks_def
  proof (intro allI impI)
    fix b assume b: "bb_inv b" "room b (17 + length ?ys)"
    with all obtain b1 where b1: "bind (write_bits 0 (11 + 6)) (\<lambda>_. seq (map w xs)) b = Ok ((), b1)" "wrote b (to_bits 17 (0 :: u64) @ ?ys) b1"
      by (auto elim!: emitsE)
    have "bb_end b < 2 ^ 64" using b(1) by (simp add: bb_inv_def)
    then have "bb_pos b + (17 + length ?ys) < 2 ^ 64" using b(2) by (auto simp: room_def)
    moreover have p: "bb_pos b1 = bb_pos b + (17 + length ?ys)" "bb_start b1 = bb_start b" "bb_inv b1" using b1(2) by (simp_all add: wrote_def)
    ultimately have "write_bits (of_nat (bb_pos b1 - bb_pos b - 11)) 11 b2 = Panic" for b2
      using assms(3) by (intro breaks_wide) simp_all
    moreover have "set_raw_pos (bb_pos b) b1 = Ok ((), b1\<lparr>bb_pos := bb_pos b\<rparr>)"
      using p b(1) by (simp add: set_raw_pos_def bb_inv_def)
    moreover have "?k b = bind (bind (write_bits 0 (11 + 6)) (\<lambda>_. seq (map w xs))) (\<lambda>_. bind (gets bb_pos) (\<lambda>e.
       seq [set_raw_pos (bb_pos b), write_bits (of_nat (e - bb_pos b - 11)) 11, write_bits (of_nat (length xs)) 6, set_raw_pos e])) b"
      by (simp add: bind_assoc bind_def gets_def)
    ultimately show "?k b = Panic" using b1(1) by (simp add: bind_def gets_def)
  qed
  from breaks_later [OF emits_type34_header [OF assms(1)] this] show ?thesis by (simp add: write_type4_struct_def)
qed

end
