(* ===== verification/Mm_Properties.thy ===== *)
theory Mm_Properties
  imports Core_Properties Mm_Behaviour Cmce_Sds
begin

text \<open>Properties of mobility management: the registries, the admission of terminals, their groups and the handling of uplink messages.\<close>

declare One_nat_def [simp del]

section \<open>Samples\<close>

text \<open>A station with the default configuration that restored one terminal with some groups from its recovery file, and received SDUs.\<close>

definition sample_mm_config :: MmConfig where
  "sample_mm_config = \<lparr>cfg_security = CfgSecurity_default, cfg_recovery = CfgRecovery_default, cfg_brew = None, cfg_local_ssi_ranges = [],
     cfg_periodic_registration_secs = 0, cfg_dgna_use_ss_facility = False\<rparr>"

definition sample_restored :: "u32 list \<Rightarrow> MmBs" where
  "sample_restored gs = init_recovery 0
     [\<lparr>tr_issi = 1001, tr_groups = gs, tr_dgna_groups = [], tr_energy_saving_mode = 0\<rparr>] (MmBs_new sample_mm_config)"

definition packed :: "bool list \<Rightarrow> bitbuffer" where
  "packed bs = \<lparr>bb_buffer = pack bs, bb_start = 0, bb_pos = 0, bb_end = length bs, bb_autoexpand = False\<rparr>"

definition sample_ind :: "bool list \<Rightarrow> LmmMleUnitdataInd" where
  "sample_ind bs = \<lparr>li_sdu = packed bs, li_handle = 5, li_received_address = TetraAddress_issi 1001\<rparr>"

lemma sample_ind_simps [simp]: "li_sdu (sample_ind bs) = packed bs" "ta_ssi (li_received_address (sample_ind bs)) = 1001"
  by (simp_all add: sample_ind_def TetraAddress_issi_def)

lemma packed_inv: "length bs < 2 ^ 64 \<Longrightarrow> bb_inv (packed bs)"
  by (simp add: packed_def bb_inv_def) (simp add: div_ceil8_def)

lemma packed_read: "parses m bs x \<Longrightarrow> length bs < 2 ^ 64 \<Longrightarrow> m (packed bs) = Ok (x, (packed bs)\<lparr>bb_pos := length bs\<rparr>)"
  using parsesD [of m bs x "packed bs" "[]"] packed_inv [of bs]
  by (simp add: unread_def content_def packed_def take_bytes_pack)

lemma sample_restored_reach: "mm_reach (sample_restored gs)"
  unfolding sample_restored_def by (rule mm_recover)

lemma sample_restored_client:
  assumes "distinct gs"
  shows "set (client_groups (sample_restored gs) 1001) = set gs" and "length (client_groups (sample_restored gs) 1001) = length gs"
    and "client_is_known (mm_client_mgr (sample_restored gs)) 1001" and "\<not> is_registered (mm_subscribers (sample_restored gs)) i"
    and "issi_allowed (sample_restored gs) 1001" and "fst (allow_registration 0 1001 (mm_client_mgr (sample_restored gs)))"
proof -
  have s: "sample_restored gs = (MmBs_new sample_mm_config)\<lparr>
      mm_client_mgr := restore_client 0 1001 gs EnergySavingMode_StayAlive (mm_client_mgr (MmBs_new sample_mm_config)),
      mm_recovery_pending := [1001], mm_recovery_attempts := [(1001, 0)],
      mm_recovery := Some (RecoveryCache_new 0 (secs 5))\<rparr>"
    by (simp add: sample_restored_def init_recovery_def restore_record_def Let_def MmBs_new_def sample_mm_config_def CfgSecurity_default_def
        CfgRecovery_default_def is_issi_allowed_def allows_def EnergySavingMode_try_from_def)
  note d = client_groups_def s get_restore_client MmBs_new_def sample_mm_config_def CfgSecurity_default_def
  show g: "set (client_groups (sample_restored gs) 1001) = set gs" by (simp add: d fold_insert_set)
  have "distinct (client_groups (sample_restored gs) 1001)" by (simp add: d fold_insert_set)
  with g assms show "length (client_groups (sample_restored gs) 1001) = length gs" by (metis distinct_card)
  show "client_is_known (mm_client_mgr (sample_restored gs)) 1001" by (simp add: d known_iff)
  show "\<not> is_registered (mm_subscribers (sample_restored gs)) i" by (simp add: d is_registered_def SubscriberRegistry_new_def)
  show "issi_allowed (sample_restored gs) 1001" by (simp add: d issi_allowed_def allows_def)
  show "fst (allow_registration 0 1001 (mm_client_mgr (sample_restored gs)))"
    by (simp add: d allow_registration_def restore_client_def set_limits_def MmClientMgr_new_def Let_def REGISTRATION_RATE_TABLE_CAP_def)
qed

definition sample_demand :: "GroupIdentityLocationDemand option \<Rightarrow> ULocationUpdateDemand" where
  "sample_demand gild =
     \<lparr>ULocationUpdateDemand_location_update_type = LocationUpdateType_RoamingLocationUpdating,
      ULocationUpdateDemand_request_to_append_la = False, ULocationUpdateDemand_cipher_control = False,
      ULocationUpdateDemand_ciphering_parameters = None, ULocationUpdateDemand_class_of_ms = None,
      ULocationUpdateDemand_energy_saving_mode = None, ULocationUpdateDemand_la_information = None, ULocationUpdateDemand_ssi = None,
      ULocationUpdateDemand_address_extension = None, ULocationUpdateDemand_group_identity_location_demand = gild,
      ULocationUpdateDemand_group_report_response = None, ULocationUpdateDemand_authentication_uplink = None,
      ULocationUpdateDemand_extended_capabilities = None, ULocationUpdateDemand_proprietary = None\<rparr>"

definition sample_report :: "u32 \<Rightarrow> GroupIdentityUplink" where
  "sample_report g = \<lparr>GroupIdentityUplink_class_of_usage = Some 4, GroupIdentityUplink_group_identity_detachment_uplink = None,
     GroupIdentityUplink_gssi = Some g, GroupIdentityUplink_address_extension = None, GroupIdentityUplink_vgssi = None\<rparr>"

definition sample_query :: UAttachDetachGroupIdentity where
  "sample_query = \<lparr>UAttachDetachGroupIdentity_group_identity_report = True, UAttachDetachGroupIdentity_group_identity_attach_detach_mode = False,
     UAttachDetachGroupIdentity_group_report_response = None, UAttachDetachGroupIdentity_group_identity_uplink = None,
     UAttachDetachGroupIdentity_proprietary = None\<rparr>"

lemma sample_demand_read:
  assumes "pred_option (\<lambda>x. GroupIdentityLocationDemand_wf x \<and> length (GroupIdentityLocationDemand_enc x) < 2048) gild"
  shows "\<exists>b. ULocationUpdateDemand_from_bitbuf (packed (ULocationUpdateDemand_enc (sample_demand gild))) = Ok (sample_demand gild, b)"
    and "bb_inv (packed (ULocationUpdateDemand_enc (sample_demand gild)))"
proof -
  have "ULocationUpdateDemand_wf (sample_demand gild)" using assms by (simp add: sample_demand_def ULocationUpdateDemand_wf_def)
  moreover have l: "length (ULocationUpdateDemand_enc (sample_demand gild)) < 2 ^ 64"
    using assms by (cases gild) (simp_all add: sample_demand_def ULocationUpdateDemand_enc_def enc_opt_def enc_type2_def enc_type3_def
        enc_type3_generic_def elem34_def Let_def)
  ultimately show "\<exists>b. ULocationUpdateDemand_from_bitbuf (packed (ULocationUpdateDemand_enc (sample_demand gild))) = Ok (sample_demand gild, b)"
    using packed_read [OF ULocationUpdateDemand.parses] by blast
  show "bb_inv (packed (ULocationUpdateDemand_enc (sample_demand gild)))" using l by (rule packed_inv)
qed

lemma sample_query_read:
  "\<exists>b. UAttachDetachGroupIdentity_from_bitbuf (packed (UAttachDetachGroupIdentity_enc sample_query)) = Ok (sample_query, b)"
proof -
  have "UAttachDetachGroupIdentity_wf sample_query" by (simp add: sample_query_def UAttachDetachGroupIdentity_wf_def)
  moreover have "length (UAttachDetachGroupIdentity_enc sample_query) < 2 ^ 64"
    by (simp add: sample_query_def UAttachDetachGroupIdentity_enc_def enc_type3_generic_def enc_type4_def Let_def)
  ultimately show ?thesis using packed_read [OF UAttachDetachGroupIdentity.parses] by blast
qed

lemma sample_registrable: "distinct gs \<Longrightarrow> registrable 0 (sample_restored gs) 1001 (sample_demand gild)"
  by (simp add: registrable_def sample_restored_client feature_check_u_location_update_demand_def sample_demand_def)

lemma live_wlp: "live m \<Longrightarrow> wlp m Q s \<Longrightarrow> \<exists>x s'. m s = Ok (x, s') \<and> Q x s'"
  unfolding live_def wlp_def by (metis (no_types, lifting))

section \<open>The registries\<close>

text \<open>C28. In every state that mobility management reaches, from an empty start or from a recovery file, by any messages, ticks and changes of
  the configuration, each terminal of the shared registry is a known client, is affiliated only to groups that this client holds, and the
  list of groups with members is exactly the groups of the affiliations; clients are found under their own address and hold no group twice.\<close>

theorem registries_coherent:
  assumes "mm_reach s"
  shows "(\<forall>i. is_registered (mm_subscribers s) i \<longrightarrow> client_is_known (mm_client_mgr s) i) \<and>
    (\<forall>i. set (attached_groups_of (mm_subscribers s) i) \<subseteq> set (client_groups s i)) \<and>
    (\<forall>g. has_group_members (mm_subscribers s) g \<longleftrightarrow> (\<exists>i. g \<in> set (attached_groups_of (mm_subscribers s) i))) \<and>
    (\<forall>i c. get_client_by_issi (mm_client_mgr s) i = Some c \<longrightarrow> cl_issi c = i \<and> distinct (cl_groups c))"
proof -
  have c: "coherent (mm_client_mgr s) (mm_subscribers s)" using mm_reach_inv [OF assms] by (simp add: mm_inv_def)
  then have s: "sr_inv (mm_subscribers s)" and m: "cm_ok (mm_client_mgr s)" by (simp_all add: coherent_def)
  have "set (attached_groups_of (mm_subscribers s) i) \<subseteq> set (client_groups s i)" for i
    using c by (auto simp: coherent_def attached_groups_set groups_of_client_groups)
  moreover have "has_group_members (mm_subscribers s) g \<longleftrightarrow> (\<exists>i. g \<in> set (attached_groups_of (mm_subscribers s) i))" for g
    by (simp add: has_group_members_iff [OF s] attached_groups_set Image_singleton_iff)
  ultimately show ?thesis using c cm_okD [OF m] by (simp add: coherent_def)
qed

theorem registries_coherent_witness:
  "set (attached_groups_of (mm_subscribers (sample_restored [91, 92])) 1001) \<subseteq> {91, 92} \<and> client_is_known (mm_client_mgr (sample_restored [91, 92])) 1001"
proof -
  have d: "distinct [91, 92 :: u32]" by simp
  show ?thesis using registries_coherent [OF sample_restored_reach, of "[91, 92]"] sample_restored_client(1,3) [OF d] by auto
qed

section \<open>Admission\<close>

text \<open>C32. Making room in the client registry removes only clients without groups and outside calls, the longest unheard first, and changes no
  other client; if the registry is still full, every client left has groups or is in a call.
  The last part leaves out a cap of one client: eviction stops at one client, so that an idle one keeps its place.\<close>

theorem client_cap_evicts_idle:
  assumes "mm_reach s" and "enforce_client_cap protect (mm_client_mgr s) = (evicted, m)"
  shows "(\<forall>i \<in> set evicted. \<exists>c. get_client_by_issi (mm_client_mgr s) i = Some c \<and> cl_groups c = [] \<and> i \<notin> set protect) \<and>
    (\<forall>j. get_client_by_issi m j = (if j \<in> set evicted then None else get_client_by_issi (mm_client_mgr s) j)) \<and>
    (\<forall>i \<in> set evicted. \<forall>c j d. get_client_by_issi (mm_client_mgr s) i = Some c \<longrightarrow> get_client_by_issi m j = Some d \<longrightarrow>
       cl_groups d = [] \<longrightarrow> j \<notin> set protect \<longrightarrow> cl_last_uplink_time c \<le> cl_last_uplink_time d) \<and>
    (cm_max_clients (mm_client_mgr s) \<noteq> 1 \<longrightarrow> at_capacity m \<longrightarrow>
       (\<forall>j d. get_client_by_issi m j = Some d \<longrightarrow> cl_groups d \<noteq> [] \<or> j \<in> set protect))"
proof -
  have ok: "cm_ok (mm_client_mgr s)" using mm_reach_inv [OF assms(1)] by (simp add: mm_inv_def coherent_def)
  note e = enforce_client_cap_effect(3,4) [OF ok assms(2)] enforce_client_cap_lru [OF ok assms(2)] enforce_client_cap_full [OF ok assms(2)]
  show ?thesis using e by blast
qed

definition sample_crowd :: MmBs where
  "sample_crowd = init_recovery 0
     [\<lparr>tr_issi = 1001, tr_groups = [91], tr_dgna_groups = [], tr_energy_saving_mode = 0\<rparr>,
      \<lparr>tr_issi = 1002, tr_groups = [], tr_dgna_groups = [], tr_energy_saving_mode = 0\<rparr>]
     (MmBs_new (sample_mm_config\<lparr>cfg_security := CfgSecurity_default\<lparr>cs_max_registered_clients := 2\<rparr>\<rparr>))"

lemma sample_crowd_cap: "fst (enforce_client_cap [] (mm_client_mgr sample_crowd)) = [1002]"
  by (simp add: sample_crowd_def init_recovery_def restore_record_def Let_def MmBs_new_def sample_mm_config_def CfgSecurity_default_def
      CfgRecovery_default_def is_issi_allowed_def allows_def EnergySavingMode_try_from_def restore_client_def set_limits_def
      MmClientMgr_new_def enforce_client_cap_def evictable_def MmClientProperties_new_def remove_client_def)

theorem client_cap_evicts_idle_witness:
  "\<exists>evicted m c. enforce_client_cap [] (mm_client_mgr sample_crowd) = (evicted, m) \<and> evicted = [1002] \<and> get_client_by_issi m 1002 = None \<and>
     get_client_by_issi (mm_client_mgr sample_crowd) 1002 = Some c \<and> cl_groups c = []"
proof -
  obtain evicted m where e: "enforce_client_cap [] (mm_client_mgr sample_crowd) = (evicted, m)" by fastforce
  then have "evicted = [1002]" using sample_crowd_cap by simp
  moreover have "mm_reach sample_crowd" unfolding sample_crowd_def by (rule mm_recover)
  ultimately show ?thesis using client_cap_evicts_idle [OF _ e] e by auto
qed

lemma length_update_new: "map_of xs k = None \<Longrightarrow> length (AList.update k v xs) = length xs + 1"
  by (induction xs) (auto split: if_splits)

text \<open>The cap is not looked at when an unknown terminal enters through a group attachment in replacement mode.\<close>

lemma replace_groups_ignores_cap:
  assumes "\<not> client_is_known (mm_client_mgr s) i"
  shows "\<exists>s'. replace_groups_first now i h s = Ok (True, s') \<and> client_is_known (mm_client_mgr s') i \<and>
     client_count (mm_client_mgr s') = client_count (mm_client_mgr s) + 1"
proof -
  let ?post = "\<lambda>r s'. r \<and> client_is_known (mm_client_mgr s') i \<and> client_count (mm_client_mgr s') = client_count (mm_client_mgr s) + 1"
  obtain x m where r: "try_register_client now i True (mm_client_mgr s) = Ok (x, m)"
    using assms by (auto simp: try_register_client_def is_individual_def known_iff get_client_by_issi_def)
  have "map_of (cm_clients (mm_client_mgr s)) i = None" using assms by (simp add: known_iff get_client_by_issi_def)
  moreover from this have "AList.delete i (cm_clients (mm_client_mgr s)) = cm_clients (mm_client_mgr s)"
    by (intro delete_id) (simp add: map_of_eq_None_iff)
  ultimately have "client_is_known m i" "client_count m = client_count (mm_client_mgr s) + 1"
    using r get_try_register [OF r] by (auto simp: known_iff try_register_client_def is_individual_def client_count_def length_update_new)
  then have "wlp (replace_groups_first now i h) ?post s"
    using assms by (auto simp: replace_groups_first_def wlp_simps r intro!: wlp_senders)
  from live_wlp [OF live_steps(3) this] show ?thesis by auto
qed

text \<open>C33. Within any interval of one minute, a rate limit other than 0 (which switches it off) lets through at most twice the configured number
  of registrations of a terminal, however the attempts of this and other terminals arrive.\<close>

theorem registration_rate_bound:
  assumes "sorted (map fst attempts)" and "rate_distinct m" and "cm_registrations_per_window m \<noteq> 0"
  shows "length (filter (in_window i t) (rate_run attempts m)) \<le> 2 * unat (cm_registrations_per_window m)"
  using assms by (rule rate_run_bound)

theorem registration_rate_bound_witness:
  "length (filter (in_window 1001 0) (rate_run (map (\<lambda>k. (k, 1001)) [0..<100]) (set_limits 10 2 MmClientMgr_new))) \<le> 4"
proof -
  have "rate_distinct (set_limits 10 2 MmClientMgr_new)" by (simp add: rate_distinct_def rate_entry_def set_limits_def MmClientMgr_new_def)
  moreover have "cm_registrations_per_window (set_limits 10 2 MmClientMgr_new) = 2" by (simp add: set_limits_def)
  moreover have "sorted (map fst (map (\<lambda>k. (k, 1001 :: u32)) [0..<100]))" by (simp add: comp_def)
  ultimately show ?thesis using registration_rate_bound [of "map (\<lambda>k. (k, 1001)) [0..<100]" "set_limits 10 2 MmClientMgr_new" 1001 0] by simp
qed

text \<open>C34. A terminal that asks for an energy saving mode is granted one with a monitoring window, and from any time on this window opens in exactly
  one frame of each cycle of the granted mode, at most six frames long.\<close>

theorem granted_window_once_per_cycle:
  assumes "requested \<noteq> EnergySavingMode_StayAlive" and "TdmaTime_is_valid x"
  shows "\<exists>f mf c. EnergySavingInformation_frame_number (grant_energy_saving issi requested) = Some f \<and>
     EnergySavingInformation_multiframe_number (grant_energy_saving issi requested) = Some mf \<and>
     ee_cycle_frames (EnergySavingInformation_energy_saving_mode (grant_energy_saving issi requested)) = Some c \<and> c \<le> 6 \<and>
     (\<exists>!j. j < unat c \<and> TdmaTime_in_ee_monitoring_window (TdmaTime_add_timeslots x (4 * int j)) f mf c)"
  using assms by (rule granted_window_opens)

theorem granted_window_once_per_cycle_witness:
  "\<exists>!j. j < unat (3 :: u8) \<and> TdmaTime_in_ee_monitoring_window (TdmaTime_add_timeslots \<lparr>tm_t = 1, tm_f = 1, tm_m = 1, tm_h = 0\<rparr> (4 * int j)) 3 1 3"
  using granted_window_once_per_cycle [of EnergySavingMode_Eg2 "\<lparr>tm_t = 1, tm_f = 1, tm_m = 1, tm_h = 0\<rparr>" 1001]
  by (simp add: TdmaTime_is_valid_def grant_energy_saving_def ee_cycle_frames_def)

section \<open>Groups of a terminal that registers again\<close>

lemma gview_groups:
  assumes "fst (gview s') = fst (gview s)"
  shows "client_groups s' i = client_groups s i"
proof -
  have "map_option cl_groups (get_client_by_issi (mm_client_mgr s') i) = map_option cl_groups (get_client_by_issi (mm_client_mgr s) i)"
    using assms by (simp add: gview_def fun_eq_iff)
  then show ?thesis
    by (cases "get_client_by_issi (mm_client_mgr s) i"; cases "get_client_by_issi (mm_client_mgr s') i"; simp add: client_groups_def)
qed

lemma with_subs_simps [simp]: "fst (with_subs r v) = fst v" "snd (with_subs r v) = r" "snd (gview s) = mm_subscribers s"
  by (simp_all add: with_subs_def gview_def)

text \<open>C30. A known terminal that registers again without a report of its groups, for instance after it was dropped from the shared registry or
  restored from the recovery file, is afterwards registered there and affiliated to exactly the groups that it holds; other terminals keep
  their affiliations.\<close>

theorem returning_terminal_reaffiliated:
  assumes "mm_reach s" and sdu: "bb_inv (li_sdu prim)" and i: "ta_ssi (li_received_address prim) = i" "fits 24 i"
    and rd: "ULocationUpdateDemand_from_bitbuf (li_sdu prim) = Ok (pdu, b)" and ok: "registrable now s i pdu"
    and known: "client_is_known (mm_client_mgr s) i" and none: "ULocationUpdateDemand_group_identity_location_demand pdu = None"
  shows "\<exists>s'. rx_u_location_update_demand now prim s = Ok ((), s') \<and> client_groups s' i = client_groups s i \<and>
     is_registered (mm_subscribers s') i \<and>
     set (attached_groups_of (mm_subscribers s') i) = set (client_groups s i) \<and>
     (\<forall>j. j \<noteq> i \<longrightarrow> set (attached_groups_of (mm_subscribers s') j) = set (attached_groups_of (mm_subscribers s) j))"
proof -
  let ?r = "if is_registered (mm_subscribers s) i then mm_subscribers s else sr_register i (mm_subscribers s)"
  let ?post = "\<lambda>s'. gview s' = with_subs (fold (sr_affiliate i) (client_groups s i) ?r) (gview s)"
  have "wlp (rx_u_location_update_demand now prim) (\<lambda>_. ?post) s"
  proof (rule wlp_location_known [OF rd i(1) ok known])
    fix s1 esi assume s1: "gview s1 = gview s" "mm_config s1 = mm_config s"
    then have k: "client_is_known (mm_client_mgr s1) i" using known gviewD(2) [OF s1(1)] by simp
    have "wlp (complete_registration now i (li_handle prim) pdu esi False d) (\<lambda>_. ?post) s2"
      if "gview s2 = with_subs ?r (gview s)" for s2 d
    proof -
      have g: "client_groups s2 i = client_groups s i" "mm_subscribers s2 = ?r"
        using that by (auto intro: gview_groups) (metis with_subs_simps(2,3))+
      show ?thesis
        by (rule wlp_mono [OF complete_without_report [OF none]]) (use that g in \<open>simp add: with_subs_def\<close>)
    qed
    then show "wlp (register_location now i (li_handle prim) pdu esi) (\<lambda>_. ?post) s1"
      by (intro wlp_register_known [OF k]) (simp add: s1 gviewD(3) [OF s1(1)])
  qed
  from live_wlp [OF live_rx_location this] sdu i obtain s' where s': "rx_u_location_update_demand now prim s = Ok ((), s')" "?post s'" by auto
  have inv: "sr_inv (mm_subscribers s)" and own: "\<And>g. (i, g) \<in> affiliations (mm_subscribers s) \<Longrightarrow> g \<in> set (client_groups s i)"
    using mm_reach_inv [OF assms(1)] by (auto simp: mm_inv_def coherent_def groups_of_client_groups)
  have "sr_inv ?r" using inv subscribers.register by simp
  note f = subscribers.affiliate_all [OF this, of i "client_groups s i"]
  have subs: "mm_subscribers s' = fold (sr_affiliate i) (client_groups s i) ?r" using s'(2) by (metis with_subs_simps(2,3))
  have aff: "affiliations (mm_subscribers s') = affiliations ?r \<union> {i} \<times> set (client_groups s i)" using f subs by simp
  have "affiliations ?r `` {i} \<subseteq> set (client_groups s i)" using own subscribers.register [OF inv] by auto
  then have "affiliations (mm_subscribers s') `` {i} = set (client_groups s i)" unfolding aff by auto
  moreover have "affiliations (mm_subscribers s') `` {j} = affiliations (mm_subscribers s) `` {j}" if "j \<noteq> i" for j
    unfolding aff using that subscribers.register [OF inv] by auto
  moreover have "is_registered (mm_subscribers s') i" using f subs subscribers.register [OF inv] by auto
  moreover have "client_groups s' i = client_groups s i" using s'(2) by (intro gview_groups) simp
  ultimately show ?thesis using s'(1) by (simp add: attached_groups_set)
qed

theorem returning_terminal_reaffiliated_witness:
  "\<exists>s'. rx_u_location_update_demand 0 (sample_ind (ULocationUpdateDemand_enc (sample_demand None))) (sample_restored [91, 92]) = Ok ((), s') \<and>
     is_registered (mm_subscribers s') 1001 \<and> set (attached_groups_of (mm_subscribers s') 1001) = {91, 92}"
proof -
  have d: "distinct [91, 92 :: u32]" by simp
  obtain b where "ULocationUpdateDemand_from_bitbuf (packed (ULocationUpdateDemand_enc (sample_demand None))) = Ok (sample_demand None, b)"
    using sample_demand_read(1) [of None] by auto
  moreover have "fits 24 (1001 :: u32)" "ULocationUpdateDemand_group_identity_location_demand (sample_demand None) = None"
    by (simp_all add: fits_unat sample_demand_def)
  moreover have "bb_inv (packed (ULocationUpdateDemand_enc (sample_demand None)))" by (rule sample_demand_read) simp
  ultimately show ?thesis
    using returning_terminal_reaffiliated [OF sample_restored_reach, of "sample_ind (ULocationUpdateDemand_enc (sample_demand None))", simplified,
        OF _ refl _ _ sample_registrable [OF d] sample_restored_client(3) [OF d], of None] sample_restored_client(1) [OF d] by auto
qed

text \<open>C35. A known terminal that was dropped from the shared registry and registers again with an amending report of groups that it holds already
  is told in the accept message that these groups are attached, is registered, and is affiliated to no group at all: group calls do not reach it.\<close>

theorem amending_report_loses_groups:
  assumes "mm_reach s" and sdu: "bb_inv (li_sdu prim)" and i: "ta_ssi (li_received_address prim) = i" "fits 24 i"
    and rd: "ULocationUpdateDemand_from_bitbuf (li_sdu prim) = Ok (pdu, b)" and ok: "registrable now s i pdu"
    and known: "client_is_known (mm_client_mgr s) i" and dropped: "\<not> is_registered (mm_subscribers s) i"
    and report: "ULocationUpdateDemand_group_identity_location_demand pdu = Some gild"
      "GroupIdentityLocationDemand_group_identity_attach_detach_mode gild \<noteq> 1"
      "GroupIdentityLocationDemand_group_identity_uplink gild = Some gius" "list_all (held s i) gius"
  shows "\<exists>s' esi sdu. rx_u_location_update_demand now prim s = Ok ((), s') \<and> client_groups s' i = client_groups s i \<and>
     is_registered (mm_subscribers s') i \<and> attached_groups_of (mm_subscribers s') i = [] \<and>
     mm_queue s' \<noteq> [] \<and> last (mm_queue s') = lmm_req Layer2Acknowledged (TetraAddress_issi i) (li_handle prim) sdu \<and>
     bind (DLocationUpdateAccept_to_bitbuf (location_update_accept (mm_config s) i pdu esi
       (Some \<lparr>GroupIdentityLocationAccept_group_identity_accept_reject = 0,
              GroupIdentityLocationAccept_group_identity_downlink = Some (map confirmed gius)\<rparr>))) (\<lambda>_. seek 0) (new_autoexpand 34) = Ok ((), sdu)"
proof -
  let ?acc = "\<lambda>esi sdu. bind (DLocationUpdateAccept_to_bitbuf (location_update_accept (mm_config s) i pdu esi
       (Some \<lparr>GroupIdentityLocationAccept_group_identity_accept_reject = 0,
              GroupIdentityLocationAccept_group_identity_downlink = Some (map confirmed gius)\<rparr>))) (\<lambda>_. seek 0) (new_autoexpand 34) = Ok ((), sdu)"
  let ?post = "\<lambda>s'. gview s' = with_subs (sr_register i (mm_subscribers s)) (gview s) \<and> mm_queue s' \<noteq> [] \<and>
     (\<exists>esi sdu. last (mm_queue s') = lmm_req Layer2Acknowledged (TetraAddress_issi i) (li_handle prim) sdu \<and> ?acc esi sdu)"
  have "wlp (rx_u_location_update_demand now prim) (\<lambda>_. ?post) s"
  proof (rule wlp_location_known [OF rd i(1) ok known])
    fix s1 esi assume s1: "gview s1 = gview s" "mm_config s1 = mm_config s"
    then have k: "client_is_known (mm_client_mgr s1) i" using known gviewD(2) [OF s1(1)] by simp
    have "wlp (complete_registration now i (li_handle prim) pdu esi False d) (\<lambda>_. ?post) s2"
      if s2: "gview s2 = with_subs (sr_register i (mm_subscribers s)) (gview s)" "mm_config s2 = mm_config s" for s2 d
    proof -
      have "client_groups s2 i = client_groups s i" using s2(1) by (intro gview_groups) simp
      then have "\<forall>giu \<in> set gius. held s2 i giu" using report(4) by (simp add: list_all_iff held_def)
      show ?thesis by (rule wlp_mono [OF complete_with_held_report [OF report(1-3) \<open>\<forall>giu \<in> set gius. held s2 i giu\<close>]]) (use s2 in auto)
    qed
    then show "wlp (register_location now i (li_handle prim) pdu esi) (\<lambda>_. ?post) s1"
      using dropped by (intro wlp_register_known [OF k]) (simp add: s1 gviewD(3) [OF s1(1)])
  qed
  from live_wlp [OF live_rx_location this] sdu i obtain s' where s': "rx_u_location_update_demand now prim s = Ok ((), s')" "?post s'" by auto
  have inv: "sr_inv (mm_subscribers s)" using mm_reach_inv [OF assms(1)] by (auto simp: mm_inv_def coherent_def)
  have subs: "mm_subscribers s' = sr_register i (mm_subscribers s)" using s'(2) by (metis with_subs_simps(2,3))
  then have "is_registered (mm_subscribers s') i" "affiliations (mm_subscribers s') `` {i} = {}"
    using subscribers.register [OF inv] by auto
  then have "is_registered (mm_subscribers s') i" "attached_groups_of (mm_subscribers s') i = []"
    using attached_groups_set [of "mm_subscribers s'" i] by auto
  moreover have "client_groups s' i = client_groups s i" using s'(2) by (intro gview_groups) simp
  ultimately show ?thesis using s' by blast
qed

definition sample_amendment :: GroupIdentityLocationDemand where
  "sample_amendment = \<lparr>GroupIdentityLocationDemand_group_identity_attach_detach_mode = 0,
     GroupIdentityLocationDemand_group_identity_uplink = Some [sample_report 91, sample_report 92]\<rparr>"

lemma sample_amendment_ok: "GroupIdentityLocationDemand_wf sample_amendment \<and> length (GroupIdentityLocationDemand_enc sample_amendment) < 2048"
  by (simp add: sample_amendment_def sample_report_def GroupIdentityLocationDemand_wf_def GroupIdentityLocationDemand_enc_def
      GroupIdentityUplink_wf_def GroupIdentityUplink_enc_def enc_type4_def elem34_def enc_opt_def fits_unat Let_def)

theorem amending_report_loses_groups_witness:
  "\<exists>s'. rx_u_location_update_demand 0 (sample_ind (ULocationUpdateDemand_enc (sample_demand (Some sample_amendment)))) (sample_restored [91, 92])
       = Ok ((), s') \<and>
     set (client_groups s' 1001) = {91, 92} \<and> is_registered (mm_subscribers s') 1001 \<and> attached_groups_of (mm_subscribers s') 1001 = []"
proof -
  have d: "distinct [91, 92 :: u32]" by simp
  let ?p = "sample_demand (Some sample_amendment)"
  have a: "pred_option (\<lambda>x. GroupIdentityLocationDemand_wf x \<and> length (GroupIdentityLocationDemand_enc x) < 2048) (Some sample_amendment)"
    using sample_amendment_ok by simp
  then obtain b where r: "ULocationUpdateDemand_from_bitbuf (packed (ULocationUpdateDemand_enc ?p)) = Ok (?p, b)"
    using sample_demand_read(1) by blast
  have h: "list_all (held (sample_restored [91, 92]) 1001) [sample_report 91, sample_report 92]"
    using sample_restored_client(1) [OF d] by (simp add: held_def sample_report_def)
  have g: "ULocationUpdateDemand_group_identity_location_demand ?p = Some sample_amendment" by (simp add: sample_demand_def)
  have "fits 24 (1001 :: u32)" by (simp add: fits_unat)
  from amending_report_loses_groups [OF sample_restored_reach, of "sample_ind (ULocationUpdateDemand_enc ?p)", simplified, OF sample_demand_read(2) [OF a] refl this
      r sample_registrable [OF d] sample_restored_client(3,4) [OF d] g _ _ h]
  show ?thesis using sample_restored_client(1) [OF d] by (auto simp: sample_amendment_def)
qed

section \<open>Uplink messages\<close>

text \<open>C29. Whatever bits a terminal sends, mobility management handles the message to its end, without panic, as long as the groups that the terminal
  holds can be reported in one message: fewer than 64, with addresses of 24 bits.\<close>

theorem uplink_message_handled:
  assumes "bb_inv (li_sdu prim)" and "fits 24 (ta_ssi (li_received_address prim))"
    and "reportable (client_groups s (ta_ssi (li_received_address prim)))"
  shows "\<exists>s'. rx_lmm_mle_unitdata_ind now prim s = Ok ((), s')"
  using assms by (rule rx_ind_ends)

theorem uplink_message_handled_witness:
  "\<exists>s'. rx_lmm_mle_unitdata_ind 0 (sample_ind (UAttachDetachGroupIdentity_enc sample_query)) (sample_restored [91, 92]) = Ok ((), s')"
proof (rule uplink_message_handled)
  have d: "distinct [91, 92 :: u32]" by simp
  show "bb_inv (li_sdu (sample_ind (UAttachDetachGroupIdentity_enc sample_query)))"
    by (simp add: packed_inv sample_query_def UAttachDetachGroupIdentity_enc_def enc_type3_generic_def enc_type4_def Let_def)
  show "reportable (client_groups (sample_restored [91, 92]) (ta_ssi (li_received_address (sample_ind (UAttachDetachGroupIdentity_enc sample_query)))))"
    using sample_restored_client(1,2) [OF d] by (simp add: reportable_def list_all_iff fits_unat)
qed (simp add: fits_unat)

lemma breaks_seq: "emits m bs \<Longrightarrow> breaks (seq ms) n \<Longrightarrow> breaks (seq (m # ms)) (length bs + n)"
  by (simp add: breaks_later)

lemma breaks_seq_here: "breaks m n \<Longrightarrow> breaks (seq (m # ms)) n"
  by (simp add: breaks_first)

lemma group_report_breaks:
  assumes "64 \<le> length gs" and "length gs \<le> 2 ^ 32" and "list_all (fits 24) gs"
  shows "send_d_attach_detach_ack i h gs s = Panic"
proof -
  let ?gid = "map (attached_gid 4) gs"
  let ?f = GroupIdentityDownlink_enc and ?w = GroupIdentityDownlink_to_bitbuf
  have e: "emits (?w x) (?f x)" if "x \<in> set ?gid" for x
    using that assms(3) attached_gid_ok [of 4]
    by (auto simp: list_all_iff fits_unat [of 3] downlink_ok_def intro!: GroupIdentityDownlink.emits)
  have len: "length (?f (attached_gid 4 g)) = 32" for g
    by (simp add: attached_gid_def GroupIdentityDownlink_enc_def GroupIdentityAttachment_enc_def enc_opt_def)
  have total: "length (concat (map ?f (map (attached_gid 4) xs))) = 32 * length xs" for xs by (induction xs) (simp_all add: len)
  let ?id = "MmType34ElemIdDl_into_raw MmType34ElemIdDl_GroupIdentityDownlink"
  let ?sec = "MmType34ElemIdDl_into_raw MmType34ElemIdDl_GroupIdentitySecurityRelatedInformation"
  let ?n = "5 + (17 + length (concat (map ?f ?gid)))"
  have "breaks (write_type4_struct True (Some ?gid) ?id ?w) ?n"
    using assms(1) by (intro breaks_type4 e) (simp_all only: total, simp_all add: fits_unat)
  from breaks_seq [OF emits_ret breaks_seq_here [OF this]]
  have "breaks (seq [ret (), write_type4_struct True (Some ?gid) ?id ?w, write_type4_todo True None ?sec, write_mbit 0]) (length ([] :: bool list) + ?n)" .
  from breaks_later [OF emits_delimiters(1) [of _ True] this]
  have b: "breaks (bind (write_obit 1) (\<lambda>_. seq [ret (), write_type4_struct True (Some ?gid) ?id ?w, write_type4_todo True None ?sec, write_mbit 0]))
      (length [True] + (length ([] :: bool list) + ?n))" by simp
  have w: "emits (write_bits (MmPduTypeDl_into_raw MmPduTypeDl_DAttachDetachGroupIdentityAcknowledgement) 4)
        (to_bits 4 (MmPduTypeDl_into_raw MmPduTypeDl_DAttachDetachGroupIdentityAcknowledgement))" "emits (write_bits 0 1) (to_bits 1 (0 :: u64))"
    by (intro emits_write_bits; simp add: fits_unat)+
  have eq: "DAttachDetachGroupIdentityAcknowledgement_to_bitbuf (attach_detach_ack 0 (Some ?gid)) =
      seq [write_bits (MmPduTypeDl_into_raw MmPduTypeDl_DAttachDetachGroupIdentityAcknowledgement) 4, write_bits 0 1, write_bits 0 1,
        bind (write_obit 1) (\<lambda>_. seq [ret (), write_type4_struct True (Some ?gid) ?id ?w, write_type4_todo True None ?sec, write_mbit 0])]"
    by (simp add: DAttachDetachGroupIdentityAcknowledgement_to_bitbuf_def attach_detach_ack_def write_type3_generic_def)
  have br: "breaks (DAttachDetachGroupIdentityAcknowledgement_to_bitbuf (attach_detach_ack 0 (Some ?gid))) (29 + 32 * length gs)"
    using breaks_seq [OF w(1) breaks_seq [OF w(2) breaks_seq [OF w(2) breaks_seq_here [OF b, of "[]"]]]] unfolding eq total length_map by (simp del: seq.simps)
  have "room (new_autoexpand 32) (29 + 32 * length gs)" using assms(2) by (simp add: room_def new_autoexpand_def)
  then have "DAttachDetachGroupIdentityAcknowledgement_to_bitbuf (attach_detach_ack 0 (Some ?gid)) (new_autoexpand 32) = Panic"
    using br bb_inv_new_autoexpand by (simp add: breaks_def)
  moreover have "gs \<noteq> []" using assms(1) by auto
  ultimately show ?thesis by (simp add: send_d_attach_detach_ack_def send_if_written_def bind_def)
qed

text \<open>C36. A terminal that holds 64 or more groups can make the station panic: a U-ATTACH/DETACH GROUP IDENTITY without groups asks for a report, and the
  length of that report does not fit its 11 bits, so that the writer panics.\<close>

theorem group_report_panics:
  assumes "mm_reach s" and i: "ta_ssi (li_received_address prim) = i" and "issi_allowed s i"
    and rd: "UAttachDetachGroupIdentity_from_bitbuf (li_sdu prim) = Ok (pdu, b)" "UAttachDetachGroupIdentity_group_identity_uplink pdu = None"
    and groups: "64 \<le> length (client_groups s i)" "list_all (fits 24) (client_groups s i)"
  shows "rx_u_attach_detach_group_identity now prim s = Panic"
proof -
  have "distinct (client_groups s i)"
    using mm_reach_inv [OF assms(1)] cm_okD [of "mm_client_mgr s" i] by (auto simp: mm_inv_def coherent_def client_groups_def split: option.split)
  then have "length (client_groups s i) = card (set (client_groups s i))" by (simp add: distinct_card)
  also have "\<dots> \<le> card (UNIV :: u32 set)" by (intro card_mono) simp_all
  finally have "length (client_groups s i) \<le> 2 ^ 32" by (simp add: card_word)
  from group_report_breaks [OF groups(1) this groups(2)] show ?thesis
    using assms(3) rd by (simp add: rx_u_attach_detach_group_identity_def received_def i bind_def gets_def Let_def
        feature_check_u_attach_detach_group_identity_def)
qed

definition sample_groups :: "u32 list" where
  "sample_groups = map of_nat [1..<65]"

lemma sample_groups_ok: "distinct sample_groups" "length sample_groups = 64" "list_all (fits 24) sample_groups"
  by (simp_all add: sample_groups_def upt_rec fits_unat)

theorem group_report_panics_witness:
  "rx_u_attach_detach_group_identity 0 (sample_ind (UAttachDetachGroupIdentity_enc sample_query)) (sample_restored sample_groups) = Panic"
proof -
  note c = sample_restored_client [OF sample_groups_ok(1)]
  obtain b where r: "UAttachDetachGroupIdentity_from_bitbuf (packed (UAttachDetachGroupIdentity_enc sample_query)) = Ok (sample_query, b)"
    using sample_query_read by blast
  have n: "UAttachDetachGroupIdentity_group_identity_uplink sample_query = None" by (simp add: sample_query_def)
  have g: "64 \<le> length (client_groups (sample_restored sample_groups) 1001)" "list_all (fits 24) (client_groups (sample_restored sample_groups) 1001)"
    using c(1,2) sample_groups_ok(2,3) by (simp_all add: list_all_iff)
  show ?thesis
    by (rule group_report_panics [OF sample_restored_reach _ c(5) _ n g]) (simp_all add: r)
qed

section \<open>Restart\<close>

text \<open>Who may be restored, and the client that a record becomes.\<close>

definition recoverable :: "MmConfig \<Rightarrow> u32 \<Rightarrow> bool" where
  "recoverable c i \<longleftrightarrow> is_issi_allowed (cfg_security c) i \<and> (cr_issi_allowlist (cfg_recovery c) = [] \<or> i \<in> set (cr_issi_allowlist (cfg_recovery c)))"

definition restored_client :: "nat \<Rightarrow> TerminalRecord \<Rightarrow> MmClientProperties" where
  "restored_client now r = (MmClientProperties_new now (tr_issi r))\<lparr>cl_state := Client_Detached,
     cl_energy_saving_mode := (case EnergySavingMode_try_from (ucast (tr_energy_saving_mode r)) of Some m \<Rightarrow> m | None \<Rightarrow> EnergySavingMode_StayAlive),
     cl_groups := fold List.insert (tr_groups r) []\<rparr>"

lemma restore_record_effect:
  "mm_config (restore_record now r s) = mm_config s"
  "get_client_by_issi (mm_client_mgr (restore_record now r s)) i =
     (if i = tr_issi r \<and> recoverable (mm_config s) i then Some (restored_client now r) else get_client_by_issi (mm_client_mgr s) i)"
  "set (mm_recovery_pending (restore_record now r s)) = set (mm_recovery_pending s) \<union> {i. i = tr_issi r \<and> recoverable (mm_config s) i}"
  by (auto simp: restore_record_def recoverable_def restored_client_def Let_def get_restore_client)

lemma restore_other:
  "i \<notin> tr_issi ` set rs \<Longrightarrow> get_client_by_issi (mm_client_mgr (fold (restore_record now) rs s)) i = get_client_by_issi (mm_client_mgr s) i"
  by (induction rs arbitrary: s) (simp_all add: restore_record_effect)

lemma restore_refused:
  "\<not> recoverable (mm_config s) i \<Longrightarrow> get_client_by_issi (mm_client_mgr (fold (restore_record now) rs s)) i = get_client_by_issi (mm_client_mgr s) i"
  by (induction rs arbitrary: s) (simp_all add: restore_record_effect)

lemma restore_pending:
  "set (mm_recovery_pending (fold (restore_record now) rs s)) = set (mm_recovery_pending s) \<union> {i \<in> tr_issi ` set rs. recoverable (mm_config s) i}"
  by (induction rs arbitrary: s) (auto simp: restore_record_effect)

lemma restore_listed:
  assumes "distinct (map tr_issi rs)" and "r \<in> set rs" and "recoverable (mm_config s) (tr_issi r)"
  shows "get_client_by_issi (mm_client_mgr (fold (restore_record now) rs s)) (tr_issi r) = Some (restored_client now r)"
  using assms
proof (induction rs arbitrary: s)
  case (Cons r' rs)
  show ?case
  proof (cases "r = r'")
    case True
    then have "tr_issi r \<notin> tr_issi ` set rs" using Cons.prems(1) by simp
    then show ?thesis using True Cons.prems(3) by (simp add: restore_other restore_record_effect)
  next
    case False
    then show ?thesis using Cons by (simp add: restore_record_effect(1))
  qed
qed simp

lemma esm_roundtrip: "EnergySavingMode_try_from (ucast (ucast (EnergySavingMode_into_raw m) :: u8)) = Some m"
  by (cases m) (simp_all add: EnergySavingMode_try_from_def)

text \<open>The record of a client, and the records of all clients.\<close>

definition record_of :: "MmBs \<Rightarrow> MmClientProperties \<Rightarrow> TerminalRecord" where
  "record_of s c = \<lparr>tr_issi = cl_issi c, tr_groups = cl_groups c, tr_dgna_groups = dgna_groups_of (mm_subscribers s) (cl_issi c),
     tr_energy_saving_mode = ucast (EnergySavingMode_into_raw (cl_energy_saving_mode c))\<rparr>"

lemma records_of_clients:
  assumes "cm_ok (mm_client_mgr s)"
  shows "distinct (map tr_issi (recovery_records s))"
    and "i \<in> tr_issi ` set (recovery_records s) \<longleftrightarrow> get_client_by_issi (mm_client_mgr s) i \<noteq> None"
    and "get_client_by_issi (mm_client_mgr s) i = Some c \<Longrightarrow> record_of s c \<in> set (recovery_records s) \<and> tr_issi (record_of s c) = i"
proof -
  let ?cs = "cm_clients (mm_client_mgr s)"
  have d: "distinct (map fst ?cs)" using assms by (simp add: cm_ok_def)
  have rs: "recovery_records s = map (record_of s \<circ> snd) ?cs"
    by (simp add: recovery_records_def snapshot_for_recovery_def record_of_def comp_def case_prod_beta)
  have own: "cl_issi (snd x) = fst x" if "x \<in> set ?cs" for x
    using that assms d cm_okD [OF assms, of "fst x" "snd x"] by (simp add: get_client_by_issi_def map_of_eq_Some_iff)
  have issis: "map tr_issi (recovery_records s) = map fst ?cs" using own by (simp add: rs record_of_def)
  with d show "distinct (map tr_issi (recovery_records s))" by simp
  have "tr_issi ` set (recovery_records s) = fst ` set ?cs" using issis by (metis image_set)
  then show "i \<in> tr_issi ` set (recovery_records s) \<longleftrightarrow> get_client_by_issi (mm_client_mgr s) i \<noteq> None"
    by (simp add: get_client_by_issi_def map_of_eq_None_iff)
  assume c: "get_client_by_issi (mm_client_mgr s) i = Some c"
  then have "(i, c) \<in> set ?cs" by (simp add: get_client_by_issi_def map_of_SomeD)
  then have "record_of s c \<in> set (recovery_records s)" by (force simp: rs)
  then show "record_of s c \<in> set (recovery_records s) \<and> tr_issi (record_of s c) = i" using cm_okD [OF assms c] by (simp add: record_of_def)
qed

lemma restore_unregistered: "is_registered (mm_subscribers (fold (restore_record now) rs s)) i = is_registered (mm_subscribers s) i"
proof -
  have "is_registered (fold (\<lambda>g. remember_dgna_group j (dg_gssi g) (dg_mnemonic g) (dg_attachment_mode g)) gs q) i = is_registered q i" for j q and gs :: "DgnaGroup list"
    by (induction gs arbitrary: q) simp_all
  then have "is_registered (mm_subscribers (restore_record now r s)) i = is_registered (mm_subscribers s) i" for r s
    by (simp add: restore_record_def Let_def)
  then show ?thesis by (induction rs arbitrary: s) simp_all
qed

text \<open>C31. The records that the station takes for its recovery file restore, in a new station, exactly the known terminals that the new
  configuration allows (the whitelist, and the allow list of the recovery section unless it is empty), each with its groups and its
  energy saving mode; exactly these are on the list of terminals to be commanded to register again, every other terminal is
  unknown, and nobody is registered before it answers. The number of terminals must not exceed the \<open>max_cached_issis\<close> of the new
  configuration. The records are passed on as values: writing and reading the file is not part of this.\<close>

theorem restart_restores_clients:
  assumes "mm_reach s" and "client_count (mm_client_mgr s) \<le> cr_max_cached_issis (cfg_recovery c)"
  shows "let s' = init_recovery now (recovery_records s) (MmBs_new c) in
     (client_is_known (mm_client_mgr s') i \<longleftrightarrow> client_is_known (mm_client_mgr s) i \<and> recoverable c i) \<and>
     (i \<in> set (mm_recovery_pending s') \<longleftrightarrow> client_is_known (mm_client_mgr s) i \<and> recoverable c i) \<and>
     (client_is_known (mm_client_mgr s') i \<longrightarrow> set (client_groups s' i) = set (client_groups s i) \<and>
       map_option cl_energy_saving_mode (get_client_by_issi (mm_client_mgr s') i) =
         map_option cl_energy_saving_mode (get_client_by_issi (mm_client_mgr s) i)) \<and>
     \<not> is_registered (mm_subscribers s') i"
proof -
  let ?m = "mm_client_mgr s" and ?rs = "recovery_records s"
  let ?f = "fold (restore_record now) ?rs (MmBs_new c)"
  have ok: "cm_ok ?m" using mm_reach_inv [OF assms(1)] by (simp add: mm_inv_def coherent_def)
  have "length ?rs \<le> cr_max_cached_issis (cfg_recovery c)"
    using assms(2) by (simp add: recovery_records_def snapshot_for_recovery_def client_count_def)
  moreover have new: "mm_config (MmBs_new c) = c" "mm_recovery_pending (MmBs_new c) = []" "get_client_by_issi (mm_client_mgr (MmBs_new c)) i = None"
    by (simp_all add: MmBs_new_def) (simp add: get_client_by_issi_def set_limits_def MmClientMgr_new_def)
  ultimately have f: "mm_client_mgr (init_recovery now ?rs (MmBs_new c)) = mm_client_mgr ?f"
    "mm_recovery_pending (init_recovery now ?rs (MmBs_new c)) = mm_recovery_pending ?f"
    "mm_subscribers (init_recovery now ?rs (MmBs_new c)) = mm_subscribers ?f"
    by (simp_all add: init_recovery_def Let_def)
  have "\<not> is_registered (mm_subscribers ?f) i" unfolding restore_unregistered by (simp add: MmBs_new_def is_registered_def SubscriberRegistry_new_def)
  moreover have "i \<in> set (mm_recovery_pending ?f) \<longleftrightarrow> get_client_by_issi ?m i \<noteq> None \<and> recoverable c i"
    using records_of_clients(2) [OF ok, of i] by (simp add: restore_pending new)
  moreover have "get_client_by_issi (mm_client_mgr ?f) i =
      (if recoverable c i then map_option (\<lambda>cl. restored_client now (record_of s cl)) (get_client_by_issi ?m i) else None)"
  proof (cases "recoverable c i \<and> get_client_by_issi ?m i \<noteq> None")
    case True
    then obtain cl where cl: "get_client_by_issi ?m i = Some cl" by blast
    with restore_listed [OF records_of_clients(1) [OF ok], of "record_of s cl" "MmBs_new c" now] records_of_clients(3) [OF ok cl] True
    show ?thesis by (simp add: new(1))
  next
    case False
    then show ?thesis using restore_refused [of "MmBs_new c" i] restore_other [of i ?rs] records_of_clients(2) [OF ok, of i] new by auto
  qed
  moreover have "restored_client now (record_of s cl) = (MmClientProperties_new now (cl_issi cl))\<lparr>cl_state := Client_Detached,
      cl_energy_saving_mode := cl_energy_saving_mode cl, cl_groups := fold List.insert (cl_groups cl) []\<rparr>" for cl
    by (simp add: restored_client_def record_of_def esm_roundtrip)
  ultimately show ?thesis
    unfolding Let_def f
    by (cases "get_client_by_issi ?m i") (simp_all add: known_iff client_groups_def f fold_insert_set)
qed

theorem restart_restores_clients_witness:
  "let s' = init_recovery 9 (recovery_records (sample_restored [91, 92])) (MmBs_new sample_mm_config) in
     client_is_known (mm_client_mgr s') 1001 \<and> set (client_groups s' 1001) = {91, 92} \<and> 1001 \<in> set (mm_recovery_pending s') \<and>
     \<not> client_is_known (mm_client_mgr (init_recovery 9 (recovery_records (sample_restored [91, 92])) (MmBs_new
       (sample_mm_config\<lparr>cfg_recovery := (cfg_recovery sample_mm_config)\<lparr>cr_issi_allowlist := [1002]\<rparr>\<rparr>)))) 1001"
proof -
  let ?c = "sample_mm_config\<lparr>cfg_recovery := (cfg_recovery sample_mm_config)\<lparr>cr_issi_allowlist := [1002]\<rparr>\<rparr>"
  have d: "distinct [91, 92 :: u32]" by simp
  have n: "client_count (mm_client_mgr (sample_restored [91, 92])) \<le> cr_max_cached_issis (cfg_recovery sample_mm_config)"
    by (simp add: sample_restored_def init_recovery_def restore_record_def Let_def MmBs_new_def sample_mm_config_def CfgSecurity_default_def
        CfgRecovery_default_def is_issi_allowed_def allows_def client_count_def restore_client_def set_limits_def MmClientMgr_new_def)
  then have n': "client_count (mm_client_mgr (sample_restored [91, 92])) \<le> cr_max_cached_issis (cfg_recovery ?c)" by simp
  have "recoverable sample_mm_config 1001"
    by (simp add: recoverable_def sample_mm_config_def CfgSecurity_default_def CfgRecovery_default_def is_issi_allowed_def allows_def)
  moreover have "\<not> recoverable ?c 1001" by (simp add: recoverable_def)
  ultimately show ?thesis
    using restart_restores_clients [OF sample_restored_reach n, of 9 1001] restart_restores_clients [OF sample_restored_reach n', of 9 1001]
      sample_restored_client(1,3) [OF d] by (simp add: Let_def)
qed

end
