(* ===== verification/Spec2Isabelle.thy ===== *)
theory Spec2Isabelle
  imports Core_Properties Umac_Properties Lmac_Properties Sched_Properties Slot_Properties Llc_Properties
    Layer3_Properties Mm_Properties
begin

text \<open>
  FlowStation is a TETRA base station in Rust. Its workspace is layered: \<open>tetra-core\<close> holds the bit buffer that every PDU is read
  from and written to, the air-interface clock, the timeslot allocator and the transmit receipts; \<open>tetra-pdus\<close> holds one
  structure with \<open>from_bitbuf\<close> and \<open>to_bitbuf\<close> per protocol data unit; \<open>tetra-entities\<close> holds the protocol
  entities: the lower MAC (channel coding), the upper MAC (scheduling, fragmentation), the logical link control, mobility management
  (registration and groups of terminals) and circuit mode control (calls). Entities exchange messages through queues; mobility management
  and call control share the registry of subscribers of \<open>tetra-config\<close>.

  \<^bold>\<open>Theories and sources\<close> (paths under \<open>src/crates/\<close>).

  \<^item> \<open>Prelude\<close>: the outcome of a fallible call (\<open>Ok\<close>, \<open>Err\<close>, \<open>Panic\<close>), its bind, bit strings against words.
  \<^item> \<open>BitBuffer\<close>, \<open>BitBuffer_Spec\<close>, \<open>BitBuffer_Bulk\<close>, \<open>Codec\<close>: \<open>tetra-core/src/bitbuffer.rs\<close>. The
    record \<open>bitbuffer\<close> has the fields of the struct; the byte-wise readers and writers are proved equal to reading and writing a
    list of bits. \<open>Codec\<close> gives the three judgements every PDU proof uses: \<open>emits\<close> (a writer appends this bit string),
    \<open>parses\<close> (a reader consumes it and returns this value) and \<open>safe\<close> (a reader never panics and keeps the invariant).
  \<^item> \<open>Typed_Fields\<close>, \<open>Typed_Fields_Spec\<close>: \<open>tetra-core/src/typed_pdu_fields.rs\<close>, optional fields of types 2, 3, 4.
  \<^item> \<open>Tdma_Time\<close>, \<open>Timeslot_Alloc\<close>, \<open>Tx_Reporter\<close>, \<open>Address\<close>: the files of those names in \<open>tetra-core\<close>.
  \<^item> \<open>Raw_Enum\<close>, \<open>Lower_Enums\<close>, \<open>Llc_Pdus\<close>, \<open>Umac_Pdus_Ul\<close>, \<open>Umac_Pdus_Dl\<close> and their \<open>_Spec\<close>
    theories: \<open>tetra-pdus/src/llc\<close> and \<open>tetra-pdus/src/umac\<close>.
  \<^item> \<open>Fillbits\<close>, \<open>Bs_Frag\<close>, \<open>Bs_Frag_Spec\<close>, \<open>Defrag\<close>, \<open>Defrag_Spec\<close>:
    \<open>tetra-entities/src/umac/subcomp\<close> (\<open>fillbits.rs\<close>, \<open>bs_frag.rs\<close>, \<open>defrag.rs\<close>, \<open>bs_defrag.rs\<close>,
    \<open>ms_defrag.rs\<close>).
  \<^item> \<open>Access_Assign\<close>, \<open>Broadcast_Pdus\<close>, \<open>Broadcast_Pdus_Spec\<close>: the broadcast PDUs of \<open>tetra-pdus/src/umac\<close> and
    \<open>tetra-pdus/src/mle\<close> (SYNC, SYSINFO, ACCESS-ASSIGN, ACCESS-DEFINE, D-MLE-SYNC, D-MLE-SYSINFO).
  \<^item> \<open>Circuit_Mgr\<close>: \<open>tetra-entities/src/umac/subcomp/circuit_mgr.rs\<close>, the circuits of a carrier and their queues of voice blocks.
  \<^item> \<open>Bs_Sched\<close>, \<open>Bs_Sched_Ul_Spec\<close>: \<open>tetra-entities/src/umac/subcomp/bs_sched.rs\<close>, the state of the scheduler and its uplink side;
    the search for capacity is proved to be first fit.
  \<^item> \<open>Bs_Sched_Dl\<close> (modes, queues and circuits), \<open>Bs_Sched_Slot\<close> (the building of a slot): the downlink side of the same file.
    \<open>Bs_Sched_Slot_Spec\<close> gives the abstract slot, \<open>Bs_Sched_Inv\<close> the invariant of the scheduler, \<open>Bs_Sched_Finalize\<close> the run of
    a tick, \<open>Bs_Sched_Run\<close> the scheduler as a state machine whose steps the upper MAC takes in any order.
  \<^item> \<open>Crc16\<close>, \<open>Scrambler\<close>, \<open>Interleaver\<close>, \<open>Rm3014\<close>, \<open>Tch_Reorder\<close>, \<open>Convenc\<close>, \<open>Viterbi\<close>, \<open>Viterbi_Spec\<close>,
    \<open>Error_Control\<close>, \<open>Error_Control_Spec\<close>, \<open>Speech_Spec\<close>: \<open>tetra-entities/src/lmac/components\<close>, one theory per file; the
    \<open>_Spec\<close> theories hold the optimality of the Viterbi decoder and the round trips of the coding chains.
  \<^item> \<open>Sap_Msgs\<close>: the messages of the TMA and TLA SAPs and of mobility management (\<open>tetra-saps\<close>). \<open>Llc_Fcs\<close>, \<open>Llc_Entity\<close>: \<open>tetra-entities/src/llc\<close>, the
    frame check sequence and the logical link control. \<open>Llc_Inv\<close> holds the invariant of a link and the loops of a tick, \<open>Llc_Run\<close> the
    handlers, \<open>Llc_Link\<close> the reachable states and the two ends of a link.
  \<^item> \<open>L3_Codec\<close>, \<open>L3_Enums\<close>: what the layer-3 PDUs share, and their coded enumerations. \<open>Mm_Fields\<close>, \<open>Mm_Pdus_Ul\<close>, \<open>Mm_Pdus_Dl\<close>,
    \<open>Mm_Pdus_Misc\<close>: \<open>tetra-pdus/src/mm\<close>. \<open>Cmce_Fields\<close>, \<open>Cmce_Pdus_Ul\<close>, \<open>Cmce_Pdus_Dl\<close>, \<open>Cmce_Pdus_Tx\<close>, \<open>Cmce_Setup\<close>, \<open>Cmce_Sds\<close>:
    \<open>tetra-pdus/src/cmce\<close>. Each PDU is an interpretation of \<open>safe_codec\<close> (of \<open>codec\<close> where its reader can panic).
  \<^item> \<open>Cmce_Circuits\<close>, \<open>Cmce_Circuits_Spec\<close>: \<open>tetra-entities/src/cmce/components/circuit_mgr.rs\<close>, the circuits of calls, their expiry and
    the repetition of D-SETUP, and their reachable states.
  \<^item> \<open>Subscribers\<close>: the shared registry of subscribers (\<open>tetra-config/src/bluestation/state.rs\<close>), with the interface \<open>group_registry\<close> that
    mobility management relies on; SSI ranges (\<open>tetra-core/src/ranges.rs\<close>); whitelist, recovery and bridge settings; the routing rules of
    the bridge (\<open>brew_routable.rs\<close>). \<open>Mm_Clients\<close>: \<open>tetra-entities/src/mm/components/client_state.rs\<close>, the client registry with its cap and
    rate limit. \<open>Mm_Entity\<close>: \<open>mm/mm_bs.rs\<close>, \<open>mm/components/recovery_cache.rs\<close> and \<open>not_supported.rs\<close>, every handler, the tick and the
    restart. \<open>Mm_Invariant\<close>: the coherence of the two registries, kept by every handler, and the reachable states \<open>mm_reach\<close>.
    \<open>Mm_Behaviour\<close>: what the handlers do to groups, what the readers return (\<open>yields\<close>), that the handlers end (\<open>live\<close>), and a writer
    that panics (\<open>breaks\<close>).
  \<^item> \<open>Core_Properties\<close>, \<open>Umac_Properties\<close>, \<open>Lmac_Properties\<close>, \<open>Sched_Properties\<close>, \<open>Slot_Properties\<close>,
    \<open>Llc_Properties\<close>, \<open>Layer3_Properties\<close>, \<open>Mm_Properties\<close>: the properties, each with a witness.

  \<^bold>\<open>Conventions.\<close> A method that takes \<open>&mut self\<close> takes the state and returns it updated. \<open>Result\<close> and
  \<open>panic!\<close> are the constructors \<open>Err\<close> and \<open>Panic\<close> of the outcome type; the state left behind by an \<open>Err\<close> is not
  observed. \<open>usize\<close> is \<open>nat\<close>, the fixed-width integers keep their width as words or wrap explicitly. A \<open>HashMap\<close> is
  an association list without duplicate keys, so iteration order is a parameter of no theorem. The atomic byte of a transmit receipt is
  passed along in the reporter, with the number of the cell it stands for, so that receipts are counted as a multiset of cells. Logging and the telemetry for the dashboard are left out. Instants are nanoseconds; a handler of mobility
  management reads the clock once. The contents of the recovery file and the success of a write are arguments.

  \<^bold>\<open>What is shown.\<close> Channel coding: what a control channel, a speech frame or an access assignment carries is returned by the
  decoder from the encoder's output; no code word of the encoder is nearer to what was received than that of the message the Viterbi decoder
  returns; one bit error in an access assignment is corrected. The bit buffer: reads and writes agree with bit strings, stay in the
  window, keep the invariant. PDUs: what a writer emits, the reader returns; readers of uplink PDUs are safe on every input. Fragmentation: with room in every slot all bits of
  the SDU are sent, in order, after finitely many calls, and each call refines an abstract step that takes a prefix. Reassembly: the
  fragments come back as the SDU, the number of contexts stays bounded, the oldest context is the one evicted. The slot allocator: a slot
  has at most one owner. The clock: addition and difference are inverse within the hyperframe wrap. Receipts: a state machine with final
  states. Uplink scheduling: every capacity request is answered, a grant announces exactly the slots that it reserves, and no slot is given
  to two mobiles. Circuits: the queue of voice blocks plays the latest blocks in order.
  Downlink scheduling: in every reachable state no operation that keeps the caller's contract (\<open>op_ok\<close>) panics and every slot has
  one of five formats; a slot of signalling holds
  what the messages of the queue put into it one after the other; no receipt is lost in a tick
  and none is reported twice; what the scheduler wrote is what the
  receiver decodes. Two theorems state where it falls short: fragments of two messages mix, and a message put off changes its timeslot.

  Link control: at most one message per link is under way, sequence numbers alternate, what is queued for a station without check
  sequence, stealing or piggybacked acknowledgement arrives there unchanged and its acknowledgement comes back, a message is sent again
  three times and then reported as lost, and the handler panics exactly on a received acknowledgement of the message under way when that
  message was discarded, which a run of the link layer reaches; the check sequence detects every burst of up to 32 bits.

  Layer 3: the PDUs of registration, group attachment, calls, transmission control and short data are read as they were written, and no
  uplink PDU makes its reader panic. Circuits: a slot carries one circuit per direction, the tick closes exactly the expired ones and
  repeats D-SETUP once in every five multiframes.

  Mobility management: the shared registry and the client registry agree in every reachable state; every uplink message is handled to its
  end; a terminal that comes back without a report gets its groups back; the records of the recovery file restore exactly the
  clients that the configuration allows; the cap evicts idle
  clients only, the rate limit bounds the registrations per minute, a granted energy saving window opens once per cycle. Two theorems state
  where it falls short: an amending report after a drop loses the affiliations, and a report of 64 groups panics.

  \<^bold>\<open>Loops.\<close> All loops of the modelled code are structural recursions over lists or bit counts, except the runs of the fragmenter,
  whose number of steps is bounded by the number of bits left, and the loop that fills a slot, each turn of which takes an element from the
  queue (\<open>build_loop\<close> has a termination proof).

  \<^bold>\<open>Not modelled.\<close> The entity \<open>umac_bs.rs\<close>, the lower MAC entity, the message handlers of CMCE
  and SNDCP, the facility PDUs of supplementary services; sockets, the web dashboard and configuration files, which are input and output through third-party packages.
\<close>

end
